(* ===== verification/Prelude.thy ===== *)
theory Prelude
  imports Main "HOL-Library.Word" "HOL-Library.Monad_Syntax"
begin

text \<open>
  Shared vocabulary of the development: the widths of the machine integers of the C++
  code, byte vectors and the checked accesses to them, and the list and word lemmas
  that the component theories share.

  A \<open>std::vector<uint8_t>\<close> is a list of bytes. An access outside of a vector is undefined
  behaviour in C++; it is the value \<open>None\<close> of the option type here, so a function of
  type \<open>'a option\<close> built from \<open>read_at\<close> and \<open>blit\<close> is \<open>Some\<close> exactly when the code it
  models stays inside of its vectors. A \<open>std::optional\<close> that the code itself returns is
  an inner option.
\<close>

section \<open>Types\<close>

type_synonym u8 = "8 word"
type_synonym u16 = "16 word"
type_synonym u32 = "32 word"
type_synonym u64 = "64 word"

type_synonym bytes = "u8 list"

named_theorems vec_simps \<open>reads and writes of byte vectors\<close>

section \<open>Checked accesses to vectors\<close>

definition read_at :: "'a list \<Rightarrow> nat \<Rightarrow> nat \<Rightarrow> 'a list option" where
  "read_at data i n = (if i + n \<le> length data then Some (take n (drop i data)) else None)"

definition blit :: "'a list \<Rightarrow> nat \<Rightarrow> 'a list \<Rightarrow> 'a list option" where
  "blit data i src =
     (if i + length src \<le> length data
      then Some (take i data @ src @ drop (i + length src) data) else None)"

definition resize :: "'a \<Rightarrow> 'a list \<Rightarrow> nat \<Rightarrow> 'a list" where
  "resize z data n = take n data @ replicate (n - length data) z"

lemma length_resize [simp]: "length (resize z data n) = n"
  by (simp add: resize_def)

lemma resize_same [simp]: "resize z data (length data) = data"
  by (simp add: resize_def)

lemma resize_prefix: "length p \<le> n \<Longrightarrow> resize z (p @ r) n = p @ resize z r (n - length p)"
  by (simp add: resize_def)

lemma resize_replicate [simp]: "resize z (replicate m z) n = replicate n z"
proof (cases "n \<le> m")
  case True then show ?thesis by (simp add: resize_def)
next
  case False
  then have "replicate n z = replicate m z @ replicate (n - m) z"
    by (metis le_add_diff_inverse nat_le_linear replicate_add)
  with False show ?thesis by (simp add: resize_def)
qed

lemma read_at_Some_iff:
  "read_at data i n = Some x \<longleftrightarrow> i + n \<le> length data \<and> x = take n (drop i data)"
  by (auto simp: read_at_def)

lemma read_at_None_iff: "read_at data i n = None \<longleftrightarrow> length data < i + n"
  by (auto simp: read_at_def)

lemma read_at_length: "read_at data i n = Some x \<Longrightarrow> length x = n"
  by (auto simp: read_at_def split: if_splits)

lemma read_at_append [vec_simps]:
  "length p \<le> i \<Longrightarrow> read_at (p @ s) i n = read_at s (i - length p) n"
  by (auto simp: read_at_def)

lemma read_at_all [vec_simps]: "n = length x \<Longrightarrow> read_at x 0 n = Some x"
  by (simp add: read_at_def)

lemma read_at_first [vec_simps]: "n = length x \<Longrightarrow> read_at (x @ s) 0 n = Some x"
  by (simp add: read_at_def)

lemma blit_length: "blit data i src = Some data' \<Longrightarrow> length data' = length data"
  by (auto simp: blit_def split: if_splits)

lemma blit_None_iff: "blit data i src = None \<longleftrightarrow> length data < i + length src"
  by (auto simp: blit_def)

text \<open>A write behind a prefix leaves the prefix alone.\<close>

lemma blit_append [vec_simps]:
  "length p \<le> i \<Longrightarrow> blit (p @ r) i src = map_option ((@) p) (blit r (i - length p) src)"
  by (auto simp: blit_def)

lemma blit_nil [vec_simps]: "i \<le> length data \<Longrightarrow> blit data i [] = Some data"
  by (simp add: blit_def)

lemma blit_first [vec_simps]:
  "length src = length x \<Longrightarrow> blit (x @ r) 0 src = Some (src @ r)"
  by (simp add: blit_def)

lemma blit_replicate_0 [vec_simps]:
  "length src \<le> n \<Longrightarrow>
     blit (replicate n z) 0 src = Some (src @ replicate (n - length src) z)"
  by (simp add: blit_def)

section \<open>Words and natural numbers\<close>

lemma unat_of_nat_small:
  "n < 2 ^ LENGTH('a) \<Longrightarrow> unat (of_nat n :: 'a::len word) = n"
  by (simp add: unat_of_nat take_bit_nat_eq_self)

lemma unat_of_nat_u32 [simp]: "n < 4294967296 \<Longrightarrow> unat (of_nat n :: u32) = n"
  using unat_of_nat_small [where 'a = 32, of n] by simp

lemma unat_of_nat_u16 [simp]: "n < 65536 \<Longrightarrow> unat (of_nat n :: u16) = n"
  using unat_of_nat_small [where 'a = 16, of n] by simp

lemma unat_u8_less [simp]: "unat (b :: u8) < 256"
  using unsigned_less [of b, where 'a = nat] by simp

lemma unat_u16_less [simp]: "unat (w :: u16) < 65536"
  using unsigned_less [of w, where 'a = nat] by simp

lemma unat_u32_less [simp]: "unat (w :: u32) < 4294967296"
  using unsigned_less [of w, where 'a = nat] by simp

lemma unat_add_small:
  "unat (x :: 'a::len word) + unat y < 2 ^ LENGTH('a) \<Longrightarrow> unat (x + y) = unat x + unat y"
  by (simp add: unat_word_ariths take_bit_nat_eq_self)

lemma unat_add_u32:
  "unat (x :: u32) + unat y < 4294967296 \<Longrightarrow> unat (x + y) = unat x + unat y"
  using unat_add_small [of x y] by simp

section \<open>Optional values\<close>

text \<open>The loop \<open>for (x : xs) s = step(x, s)\<close> with a body that can leave its vectors.\<close>

fun fold_option :: "('a \<Rightarrow> 's \<Rightarrow> 's option) \<Rightarrow> 'a list \<Rightarrow> 's \<Rightarrow> 's option" where
  "fold_option f [] s = Some s"
| "fold_option f (x # xs) s = f x s \<bind> fold_option f xs"

lemma fold_option_Nil [simp]: "fold_option f [] = Some"
  by (rule ext) simp

lemma fold_option_append:
  "fold_option f (xs @ ys) s = fold_option f xs s \<bind> fold_option f ys"
  by (induction xs arbitrary: s) (auto split: Option.bind_splits)

section \<open>Text\<close>

text \<open>\<open>std::format("{}", n)\<close> of an unsigned and of a signed integer.\<close>

fun show_nat :: "nat \<Rightarrow> string" where
  "show_nat n =
     (if n < 10 then [char_of (48 + n)] else show_nat (n div 10) @ [char_of (48 + n mod 10)])"

declare show_nat.simps [simp del]

definition show_int :: "int \<Rightarrow> string" where
  "show_int i = (if i < 0 then CHR ''-'' # show_nat (nat (- i)) else show_nat (nat i))"

text \<open>\<open>std::string(v.begin(), v.end())\<close> of a byte vector and back.\<close>

definition string_of_bytes :: "bytes \<Rightarrow> string" where
  "string_of_bytes bs = map (\<lambda>b. char_of (unat b)) bs"

definition bytes_of_string :: "string \<Rightarrow> bytes" where
  "bytes_of_string s = map (\<lambda>c. of_nat (of_char c)) s"

lemma length_string_of_bytes [simp]: "length (string_of_bytes bs) = length bs"
  by (simp add: string_of_bytes_def)

lemma length_bytes_of_string [simp]: "length (bytes_of_string s) = length s"
  by (simp add: bytes_of_string_def)

lemma string_of_bytes_of_string [simp]: "string_of_bytes (bytes_of_string s) = s"
proof -
  have "char_of (unat (of_nat (of_char c) :: u8)) = c" for c
    by (simp add: unat_of_nat take_bit_eq_mod)
  then show ?thesis
    by (simp add: string_of_bytes_def bytes_of_string_def comp_def)
qed

lemma bytes_of_string_of_bytes [simp]: "bytes_of_string (string_of_bytes bs) = bs"
proof -
  have "of_nat (of_char (char_of (unat b) :: char)) = b" for b :: u8
    by (simp add: of_char_of take_bit_eq_mod)
  then show ?thesis
    by (simp add: string_of_bytes_def bytes_of_string_def comp_def)
qed

lemma show_nat_digits: "show_nat n \<noteq> [] \<and> (\<forall>c \<in> set (show_nat n). of_char c \<in> {48 :: nat..57})"
proof (induction n rule: show_nat.induct)
  case (1 n)
  then show ?case
    by (subst (1 2) show_nat.simps) (auto simp: of_char_of take_bit_eq_mod)
qed

section \<open>Enumerations and their names\<close>

text \<open>
  The code gives every enumeration a function \<open>to_string\<close> and an inverse
  \<open>enum_cast\<close>; this is the contract between the two, for the enumerators \<open>named\<close> in
  the source.
\<close>

locale enum_names =
  fixes name_of :: "'e \<Rightarrow> string"
    and cast :: "string \<Rightarrow> 'e"
    and named :: "'e \<Rightarrow> bool"
  assumes cast_name: "named e \<Longrightarrow> cast (name_of e) = e"
begin

lemma name_inj: "named e \<Longrightarrow> named e' \<Longrightarrow> name_of e = name_of e' \<longleftrightarrow> e = e'"
  by (metis cast_name)

lemma cast_reaches: "named e \<Longrightarrow> \<exists>s. cast s = e"
  by (metis cast_name)

end

section \<open>Wire formats\<close>

text \<open>
  The contract between an encoder and its decoder: a well-formed value is read back from
  its bytes, whatever follows them. The decoder is given a vector of less than 2^32
  bytes (the code counts in \<open>uint32_t\<close>); the outer option is undefined behaviour.
\<close>

locale wire_format =
  fixes bytes_of :: "'a \<Rightarrow> bytes"
    and from_bytes :: "bytes \<Rightarrow> 'a option option"
    and wf :: "'a \<Rightarrow> bool"
  assumes from_bytes_of:
    "wf x \<Longrightarrow> length (bytes_of x @ rest) < 2 ^ 32 \<Longrightarrow> from_bytes (bytes_of x @ rest) = Some (Some x)"
begin

lemma round_trip: "wf x \<Longrightarrow> length (bytes_of x) < 2 ^ 32 \<Longrightarrow> from_bytes (bytes_of x) = Some (Some x)"
  using from_bytes_of [of x "[]"] by simp

text \<open>No encoding is a prefix of another one, so a stream of encodings splits in one way.\<close>

lemma prefix_free:
  assumes "wf x" "wf y" "length (bytes_of x @ r) < 2 ^ 32" "bytes_of x @ r = bytes_of y @ s"
  shows "x = y" "r = s"
proof -
  show "x = y"
    using from_bytes_of [of x r] from_bytes_of [of y s] assms by simp
  with assms show "r = s" by simp
qed

lemma unique_split:
  assumes "\<forall>x \<in> set xs. wf x" "\<forall>y \<in> set ys. wf y" "length xs = length ys"
    and "length (concat (map bytes_of xs) @ r) < 2 ^ 32"
    and "concat (map bytes_of xs) @ r = concat (map bytes_of ys) @ s"
  shows "xs = ys" and "r = s"
proof -
  have "xs = ys \<and> r = s"
    using assms
  proof (induction xs arbitrary: ys)
    case Nil
    then show ?case by simp
  next
    case (Cons x xs)
    then obtain y ys' where ys: "ys = y # ys'" by (cases ys) auto
    have "length (bytes_of y @ concat (map bytes_of ys') @ s) < 2 ^ 32"
      using Cons.prems ys by (metis append_assoc concat.simps(2) list.simps(9))
    then have "x = y" "concat (map bytes_of xs) @ r = concat (map bytes_of ys') @ s"
      using prefix_free [of x y "concat (map bytes_of xs) @ r" "concat (map bytes_of ys') @ s"]
        Cons.prems ys by auto
    then show ?case
      using Cons.IH [of ys'] Cons.prems ys by auto
  qed
  then show "xs = ys" and "r = s" by auto
qed

end

text \<open>
  A decoder that is called with a cursor into the whole vector and moves it behind the
  value it reads, and the loop over a counted sequence of values.
\<close>

fun parse_many :: "(bytes \<Rightarrow> u32 \<Rightarrow> ('a \<times> u32) option) \<Rightarrow> nat \<Rightarrow> bytes \<Rightarrow> u32 \<Rightarrow> ('a list \<times> u32) option" where
  "parse_many parse 0 data i = Some ([], i)"
| "parse_many parse (Suc n) data i =
     do {
       (x, i) \<leftarrow> parse data i;
       (xs, i) \<leftarrow> parse_many parse n data i;
       Some (x # xs, i)
     }"

locale cursor_format =
  fixes bytes_of :: "'a \<Rightarrow> bytes"
    and parse_at :: "bytes \<Rightarrow> u32 \<Rightarrow> ('a \<times> u32) option"
    and wf :: "'a \<Rightarrow> bool"
  assumes parse_at_bytes:
    "wf x \<Longrightarrow> unat i = length p \<Longrightarrow> length (p @ bytes_of x @ r) < 2 ^ 32 \<Longrightarrow>
       parse_at (p @ bytes_of x @ r) i = Some (x, of_nat (length (p @ bytes_of x)))"
begin

lemma parse_many_bytes:
  assumes "\<forall>x \<in> set xs. wf x" and "unat i = length p"
    and "length (p @ concat (map bytes_of xs) @ r) < 2 ^ 32"
  shows "parse_many parse_at (length xs) (p @ concat (map bytes_of xs) @ r) i =
    Some (xs, of_nat (length (p @ concat (map bytes_of xs))))"
  using assms
proof (induction xs arbitrary: p i)
  case Nil
  then show ?case
    by (simp add: word_unat_eq_iff)
next
  case (Cons x xs)
  let ?tail = "concat (map bytes_of xs)"
  have "parse_at (p @ bytes_of x @ ?tail @ r) i = Some (x, of_nat (length (p @ bytes_of x)))"
    using Cons.prems by (intro parse_at_bytes) auto
  moreover have "parse_many parse_at (length xs) ((p @ bytes_of x) @ ?tail @ r) (of_nat (length (p @ bytes_of x)))
      = Some (xs, of_nat (length ((p @ bytes_of x) @ ?tail)))"
    using Cons.prems by (intro Cons.IH) (auto simp del: of_nat_add)
  ultimately show ?case by simp
qed

end

end
