(* ===== verification/Bytes.thy ===== *)
theory Bytes
  imports Prelude
begin

text \<open>
  Byte order and byte arrays: \<open>common/binary/byte_order\<close>, \<open>common/binary/byte_array\<close> and
  \<open>common/core/memory_util\<close> under \<open>src/common\<close>.

  The byte order of the machine the code runs on is the parameter \<open>host\<close>. An object of
  an arithmetic type \<open>T\<close> with value \<open>x\<close> has the object representation
  \<open>object_bytes host (sizeof T) x\<close>; reading an object out of raw memory is
  \<open>object_value\<close>. The templates over \<open>T\<close> take \<open>sizeof T\<close> as the argument \<open>s\<close>.
\<close>

section \<open>The enumeration of byte orders\<close>

datatype ByteOrder = Unknown_Endian | LittleEndian | BigEndian

definition ByteOrder_to_string :: "ByteOrder \<Rightarrow> string" where
  "ByteOrder_to_string order =
     (case order of
        LittleEndian \<Rightarrow> ''ByteOrder::LittleEndian''
      | BigEndian \<Rightarrow> ''ByteOrder::BigEndian''
      | Unknown_Endian \<Rightarrow> ''ByteOrder::Unknown'')"

definition ByteOrder_enum_cast :: "string \<Rightarrow> ByteOrder" where
  "ByteOrder_enum_cast s =
     (if s = ''ByteOrder::LittleEndian'' then LittleEndian
      else if s = ''ByteOrder::BigEndian'' then BigEndian
      else if s = ''ByteOrder::Unknown'' then Unknown_Endian
      else Unknown_Endian)"

interpretation byte_order: enum_names ByteOrder_to_string ByteOrder_enum_cast "\<lambda>_. True"
proof
  show "ByteOrder_enum_cast (ByteOrder_to_string e) = e" for e
    by (cases e) (simp_all add: ByteOrder_to_string_def ByteOrder_enum_cast_def)
qed

definition DANEJOE_NETWORK_BYTE_ORDER :: ByteOrder where
  "DANEJOE_NETWORK_BYTE_ORDER = BigEndian"

section \<open>Object representations\<close>

primrec le_bytes :: "nat \<Rightarrow> nat \<Rightarrow> bytes" where
  "le_bytes 0 x = []"
| "le_bytes (Suc n) x = of_nat x # le_bytes n (x div 256)"

primrec le_nat :: "bytes \<Rightarrow> nat" where
  "le_nat [] = 0"
| "le_nat (b # bs) = unat b + 256 * le_nat bs"

definition be_bytes :: "nat \<Rightarrow> nat \<Rightarrow> bytes" where
  "be_bytes n x = rev (le_bytes n x)"

definition be_nat :: "bytes \<Rightarrow> nat" where
  "be_nat bs = le_nat (rev bs)"

definition object_bytes :: "ByteOrder \<Rightarrow> nat \<Rightarrow> nat \<Rightarrow> bytes" where
  "object_bytes host s x = (if host = BigEndian then be_bytes s x else le_bytes s x)"

definition object_value :: "ByteOrder \<Rightarrow> bytes \<Rightarrow> nat" where
  "object_value host bs = (if host = BigEndian then be_nat bs else le_nat bs)"

lemma length_le_bytes [simp]: "length (le_bytes n x) = n"
  by (induction n arbitrary: x) auto

lemma length_be_bytes [simp]: "length (be_bytes n x) = n"
  by (simp add: be_bytes_def)

lemma length_object_bytes [simp]: "length (object_bytes host n x) = n"
  by (simp add: object_bytes_def)

lemma unat_of_nat_u8: "unat (of_nat x :: u8) = x mod 256"
  by (simp add: unat_of_nat take_bit_eq_mod)

lemma le_nat_le_bytes: "le_nat (le_bytes n x) = x mod 256 ^ n"
proof (induction n arbitrary: x)
  case 0 show ?case by simp
next
  case (Suc n)
  then show ?case
    by (simp add: unat_of_nat_u8 mod_mult2_eq)
qed

lemma le_bytes_le_nat: "le_bytes (length bs) (le_nat bs) = bs"
proof (induction bs)
  case Nil show ?case by simp
next
  case (Cons b bs)
  have "(unat b + 256 * le_nat bs) div 256 = le_nat bs"
    using unat_u8_less [of b] by (simp add: div_mult_self2)
  moreover have "(of_nat (unat b + 256 * le_nat bs) :: u8) = b"
    using unat_u8_less [of b] by (simp only: word_unat_eq_iff unat_of_nat_u8) simp
  ultimately show ?case using Cons by simp
qed

lemma le_nat_less: "le_nat bs < 256 ^ length bs"
  by (metis le_nat_le_bytes le_bytes_le_nat mod_less_divisor zero_less_numeral zero_less_power)

lemma be_nat_be_bytes [simp]: "x < 256 ^ n \<Longrightarrow> be_nat (be_bytes n x) = x"
  by (simp add: be_nat_def be_bytes_def le_nat_le_bytes)

lemma be_bytes_be_nat: "be_bytes (length bs) (be_nat bs) = bs"
  using le_bytes_le_nat [of "rev bs"] by (simp add: be_nat_def be_bytes_def)

lemma be_bytes_word:
  assumes "256 ^ length bs = (2 :: nat) ^ LENGTH('a)"
  shows "be_bytes (length bs) (unat (of_nat (be_nat bs) :: 'a::len word)) = bs"
  using le_nat_less [of "rev bs"] assms
  by (simp add: be_nat_def unat_of_nat_small flip: be_nat_def)
     (simp add: be_bytes_be_nat)

lemma be_nat_less: "be_nat bs < 256 ^ length bs"
  using le_nat_less [of "rev bs"] by (simp add: be_nat_def)

lemma object_value_bytes: "object_value host (object_bytes host s x) = x mod 256 ^ s"
  by (simp add: object_value_def object_bytes_def be_nat_def be_bytes_def le_nat_le_bytes)

lemma object_bytes_value: "object_bytes host (length bs) (object_value host bs) = bs"
  by (simp add: object_value_def object_bytes_def be_bytes_be_nat le_bytes_le_nat)

lemma object_value_less: "object_value host bs < 256 ^ length bs"
  by (simp add: object_value_def be_nat_less le_nat_less)

lemma be_nat_single [simp]: "be_nat [b] = unat b"
  by (simp add: be_nat_def)

lemma be_bytes_1: "be_bytes (Suc 0) (unat b) = [b]"
  by (simp add: be_bytes_def)

section \<open>The byte order of the host\<close>

text \<open>
  \<open>get_local_byte_order\<close> and \<open>is_network_byte_order\<close> keep their answers in function-local
  statics, which are the record below: each test runs once.
\<close>

record byte_order_statics =
  is_get_byte_order :: bool
  byte_order :: ByteOrder
  is_init :: bool
  is_same_flag :: bool

definition initial_statics :: byte_order_statics where
  "initial_statics =
     \<lparr>is_get_byte_order = False, byte_order = LittleEndian, is_init = False, is_same_flag = False\<rparr>"

definition get_local_byte_order ::
  "ByteOrder \<Rightarrow> byte_order_statics \<Rightarrow> ByteOrder \<times> byte_order_statics" where
  "get_local_byte_order host s =
     (let s' = (if \<not> is_get_byte_order s
                then s\<lparr>byte_order := (if object_bytes host 2 1 ! 0 = 1 then LittleEndian else BigEndian),
                       is_get_byte_order := True\<rparr>
                else s)
      in (byte_order s', s'))"

definition is_network_byte_order ::
  "ByteOrder \<Rightarrow> byte_order_statics \<Rightarrow> bool \<times> byte_order_statics" where
  "is_network_byte_order host s =
     (let s' = (if \<not> is_init s
                then (let (local_order, s1) = get_local_byte_order host s
                      in s1\<lparr>is_same_flag := (local_order = DANEJOE_NETWORK_BYTE_ORDER), is_init := True\<rparr>)
                else s)
      in (is_same_flag s', s'))"

definition statics_ok :: "ByteOrder \<Rightarrow> byte_order_statics \<Rightarrow> bool" where
  "statics_ok host s \<longleftrightarrow>
     (is_get_byte_order s \<longrightarrow> byte_order s = (if host = BigEndian then BigEndian else LittleEndian)) \<and>
     (is_init s \<longrightarrow> is_same_flag s = (host = BigEndian))"

lemma first_byte_of_one: "object_bytes host 2 (Suc 0) ! 0 = 1 \<longleftrightarrow> host \<noteq> BigEndian"
  by (simp add: object_bytes_def be_bytes_def numeral_2_eq_2)

lemma get_local_byte_order_spec:
  assumes "statics_ok host s"
  shows "fst (get_local_byte_order host s) = (if host = BigEndian then BigEndian else LittleEndian)"
    and "statics_ok host (snd (get_local_byte_order host s))"
  using assms by (auto simp: get_local_byte_order_def statics_ok_def first_byte_of_one Let_def)

lemma is_network_byte_order_spec:
  assumes "statics_ok host s"
  shows "fst (is_network_byte_order host s) = (host = BigEndian)"
    and "statics_ok host (snd (is_network_byte_order host s))"
proof -
  obtain lo s1 where g: "get_local_byte_order host s = (lo, s1)" by force
  with get_local_byte_order_spec [OF assms]
  have "lo = (if host = BigEndian then BigEndian else LittleEndian)" and "statics_ok host s1"
    by auto
  with assms g show "fst (is_network_byte_order host s) = (host = BigEndian)"
    and "statics_ok host (snd (is_network_byte_order host s))"
    by (auto simp: is_network_byte_order_def statics_ok_def DANEJOE_NETWORK_BYTE_ORDER_def)
qed

lemma statics_ok_initial: "statics_ok host initial_statics"
  by (simp add: statics_ok_def initial_statics_def)

text \<open>The answer every call gives, whatever calls were made before.\<close>

definition network_host :: "ByteOrder \<Rightarrow> bool" where
  "network_host host = fst (is_network_byte_order host initial_statics)"

lemma network_host_iff [simp]: "network_host host \<longleftrightarrow> host = BigEndian"
  by (simp add: network_host_def is_network_byte_order_spec statics_ok_initial)

section \<open>Conversion of byte order\<close>

text \<open>
  The pointer overload converts \<open>count\<close> elements of \<open>s\<close> bytes out of the memory \<open>src\<close>;
  the reference overload converts one object. Both give the bytes they write to the
  destination, first byte first. The caller's own accesses to \<open>src\<close> are checked by
  \<open>read_at\<close>, so \<open>src\<close> holds at least \<open>s * count\<close> bytes. A null source or destination is
  an empty vector's \<open>data()\<close>, for which nothing is written.
\<close>

definition convert_byte_order :: "ByteOrder \<Rightarrow> nat \<Rightarrow> nat \<Rightarrow> bytes \<Rightarrow> bytes" where
  "convert_byte_order host s count src =
     (if network_host host then take (s * count) src
      else concat (map (\<lambda>i. map (\<lambda>j. src ! (i * s + (s - j - 1))) [0..<s]) [0..<count]))"

definition convert_byte_order_ref :: "ByteOrder \<Rightarrow> nat \<Rightarrow> nat \<Rightarrow> bytes" where
  "convert_byte_order_ref host s x =
     (let src = object_bytes host s x
      in if network_host host then src
         else map (\<lambda>j. src ! (s - 1 - j)) [0..<s])"

definition to_local_byte_order_ref :: "ByteOrder \<Rightarrow> nat \<Rightarrow> nat \<Rightarrow> bytes" where
  "to_local_byte_order_ref host s x = convert_byte_order_ref host s x"

definition to_local_byte_order_ptr :: "ByteOrder \<Rightarrow> nat \<Rightarrow> nat \<Rightarrow> bytes \<Rightarrow> bytes" where
  "to_local_byte_order_ptr host s count src = convert_byte_order host s count src"

definition to_network_byte_order_ref :: "ByteOrder \<Rightarrow> nat \<Rightarrow> nat \<Rightarrow> bytes" where
  "to_network_byte_order_ref host s x = convert_byte_order_ref host s x"

definition to_network_byte_order_ptr :: "ByteOrder \<Rightarrow> nat \<Rightarrow> nat \<Rightarrow> bytes \<Rightarrow> bytes" where
  "to_network_byte_order_ptr host s count src = convert_byte_order host s count src"

definition to_network_byte_order_value :: "ByteOrder \<Rightarrow> nat \<Rightarrow> nat \<Rightarrow> nat" where
  "to_network_byte_order_value host s x = object_value host (convert_byte_order_ref host s x)"

definition to_local_byte_order_value :: "ByteOrder \<Rightarrow> nat \<Rightarrow> nat \<Rightarrow> nat" where
  "to_local_byte_order_value host s x = object_value host (convert_byte_order_ref host s x)"

text \<open>The array templates copy \<open>count\<close> elements and convert each by the reference overload.\<close>

definition elements_of :: "ByteOrder \<Rightarrow> nat \<Rightarrow> nat \<Rightarrow> bytes \<Rightarrow> nat list" where
  "elements_of host s count src =
     map (\<lambda>i. object_value host (take s (drop (i * s) src))) [0..<count]"

definition to_network_byte_order_array :: "ByteOrder \<Rightarrow> nat \<Rightarrow> nat \<Rightarrow> bytes \<Rightarrow> nat list" where
  "to_network_byte_order_array host s count src =
     map (\<lambda>x. object_value host (convert_byte_order_ref host s x)) (elements_of host s count src)"

definition to_local_byte_order_array :: "ByteOrder \<Rightarrow> nat \<Rightarrow> nat \<Rightarrow> bytes \<Rightarrow> nat list" where
  "to_local_byte_order_array host s count src =
     map (\<lambda>x. object_value host (convert_byte_order_ref host s x)) (elements_of host s count src)"

text \<open>
  The overloads for byte sequences: \<open>count\<close> elements of type \<open>uint8_t\<close>, one byte each.
\<close>

definition to_network_byte_order_bytes :: "ByteOrder \<Rightarrow> bytes \<Rightarrow> nat \<Rightarrow> bytes" where
  "to_network_byte_order_bytes host data count = convert_byte_order host 1 count data"

definition to_local_byte_order_bytes :: "ByteOrder \<Rightarrow> bytes \<Rightarrow> nat \<Rightarrow> bytes" where
  "to_local_byte_order_bytes host data count = convert_byte_order host 1 count data"

definition to_network_byte_order_vector :: "ByteOrder \<Rightarrow> bytes \<Rightarrow> bytes" where
  "to_network_byte_order_vector host data =
     to_network_byte_order_ptr host 1 (length data) data"

definition to_local_byte_order_vector :: "ByteOrder \<Rightarrow> bytes \<Rightarrow> bytes" where
  "to_local_byte_order_vector host data =
     to_local_byte_order_ptr host 1 (length data) data"

lemma rev_as_map: "map (\<lambda>j. xs ! (length xs - 1 - j)) [0..<length xs] = rev xs"
  by (rule nth_equalityI) (simp_all add: rev_nth)

lemma convert_byte_order_ref_be [vec_simps]: "convert_byte_order_ref host s x = be_bytes s x"
proof (cases "host = BigEndian")
  case True
  then show ?thesis by (simp add: convert_byte_order_ref_def object_bytes_def)
next
  case False
  then show ?thesis
    using rev_as_map [of "le_bytes s x"]
    by (simp add: convert_byte_order_ref_def object_bytes_def be_bytes_def)
qed

lemma convert_byte_order_one: "length src = s \<Longrightarrow>
    convert_byte_order host s (Suc 0) src = (if host = BigEndian then src else rev src)"
  using rev_as_map [of src] by (auto simp: convert_byte_order_def)

lemma convert_byte_order_bytes [vec_simps]:
  assumes "count \<le> length src"
  shows "convert_byte_order host (Suc 0) count src = take count src"
proof -
  have "concat (map (\<lambda>i. [src ! i]) [0..<count]) = map ((!) src) [0..<count]"
    by (induction count) auto
  also have "\<dots> = take count src"
    using assms by (intro nth_equalityI) auto
  finally show ?thesis by (simp add: convert_byte_order_def)
qed

lemma object_value_convert [vec_simps]:
  "length src = s \<Longrightarrow> object_value host (convert_byte_order host s (Suc 0) src) = be_nat src"
  by (simp add: convert_byte_order_one object_value_def be_nat_def)

lemma network_value_involution:
  "to_local_byte_order_value host s (to_network_byte_order_value host s x) = x mod 256 ^ s"
proof -
  have "object_value host (be_bytes s (object_value host (be_bytes s x))) = x mod 256 ^ s"
    using le_bytes_le_nat [of "be_bytes s x"]
    by (simp add: object_value_def be_nat_def be_bytes_def le_nat_le_bytes)
  then show ?thesis
    by (simp add: to_local_byte_order_value_def to_network_byte_order_value_def
        convert_byte_order_ref_be)
qed

text \<open>
  Reading an object of \<open>s\<close> bytes in network order out of a vector, and writing one into a
  vector, at an offset that the code keeps in a \<open>uint32_t\<close>:
  \<open>to_local_byte_order(dest, reinterpret_cast<const T*>(data.data() + index))\<close> and
  \<open>to_network_byte_order(data.data() + index, x)\<close>.
\<close>

definition load_local :: "ByteOrder \<Rightarrow> nat \<Rightarrow> bytes \<Rightarrow> u32 \<Rightarrow> nat option" where
  "load_local host s data index =
     do {
       raw \<leftarrow> read_at data (unat index) s;
       Some (object_value host (to_local_byte_order_ptr host s 1 raw))
     }"

definition store_network :: "ByteOrder \<Rightarrow> nat \<Rightarrow> bytes \<Rightarrow> u32 \<Rightarrow> nat \<Rightarrow> bytes option" where
  "store_network host s data index x =
     blit data (unat index) (to_network_byte_order_ref host s x)"

lemma load_local_eq [vec_simps]:
  "load_local host s data index = map_option be_nat (read_at data (unat index) s)"
  by (cases "read_at data (unat index) s")
     (auto simp: load_local_def to_local_byte_order_ptr_def read_at_length object_value_convert)

lemma store_network_eq [vec_simps]:
  "store_network host s data index x = blit data (unat index) (be_bytes s x)"
  by (simp add: store_network_def to_network_byte_order_ref_def convert_byte_order_ref_be)

section \<open>Byte arrays\<close>

definition to_byte_array :: "ByteOrder \<Rightarrow> nat \<Rightarrow> nat \<Rightarrow> bytes" where
  "to_byte_array host s x = object_bytes host s x"

definition to_byte_array_ptr :: "ByteOrder \<Rightarrow> nat \<Rightarrow> nat list option \<Rightarrow> nat \<Rightarrow> bytes" where
  "to_byte_array_ptr host s ptr count =
     (case ptr of None \<Rightarrow> []
      | Some xs \<Rightarrow> concat (map (\<lambda>x. object_bytes host s x) (take count xs)))"

definition try_cast :: "ByteOrder \<Rightarrow> nat \<Rightarrow> bytes \<Rightarrow> nat option" where
  "try_cast host s bs = (if s > length bs then None else Some (object_value host (take s bs)))"

lemma try_cast_to_byte_array:
  "try_cast host s (to_byte_array host s x @ rest) = Some (x mod 256 ^ s)"
  by (simp add: try_cast_def to_byte_array_def object_value_bytes)

lemma try_cast_None_iff: "try_cast host s bs = None \<longleftrightarrow> length bs < s"
  by (auto simp: try_cast_def)

section \<open>Capacity of vectors\<close>

definition ensure_enough_capacity :: "bytes \<Rightarrow> u32 \<Rightarrow> bytes" where
  "ensure_enough_capacity data n =
     (if length data \<ge> unat n then data else resize 0 data (unat n))"

definition ensure_enough_to_read :: "bytes \<Rightarrow> u32 \<Rightarrow> bool" where
  "ensure_enough_to_read data n = (if length data \<ge> unat n then True else False)"

lemma ensure_enough_capacity_noop [vec_simps]:
  "unat n \<le> length data \<Longrightarrow> ensure_enough_capacity data n = data"
  by (simp add: ensure_enough_capacity_def)

lemma length_ensure_enough_capacity:
  "length (ensure_enough_capacity data n) = max (length data) (unat n)"
  by (simp add: ensure_enough_capacity_def)

lemma ensure_enough_to_read_iff [vec_simps]:
  "ensure_enough_to_read data n \<longleftrightarrow> unat n \<le> length data"
  by (simp add: ensure_enough_to_read_def)

end
