(* ===== verification/Data_Types.thy ===== *)
theory Data_Types
  imports Bytes
begin

unbundle bit_operations_syntax

text \<open>
  The data types of the wire format, \<open>common/core/data_type\<close>, and the bit-mask operators
  of \<open>common/enum/enum_flag.hpp\<close>.

  \<open>enum class DataType : uint8_t\<close> has 19 enumerators, but an object of it can hold any
  byte (one that was read from the network, for instance): \<open>Other b\<close> is the value of a
  byte \<open>b\<close> that no enumerator has.
\<close>

section \<open>Data types\<close>

datatype DataType =
    Object
  | UInt8
  | Int8
  | UInt16
  | Int16
  | UInt32
  | Int32
  | UInt64
  | Int64
  | Float
  | Double
  | Bool
  | String
  | ByteArray
  | Map
  | Array
  | Dictionary
  | Null
  | Unknown_Type
  | Other u8

primrec DataType_code :: "DataType \<Rightarrow> u8" where
  "DataType_code Object = 0"
| "DataType_code UInt8 = 1"
| "DataType_code Int8 = 2"
| "DataType_code UInt16 = 3"
| "DataType_code Int16 = 4"
| "DataType_code UInt32 = 5"
| "DataType_code Int32 = 6"
| "DataType_code UInt64 = 7"
| "DataType_code Int64 = 8"
| "DataType_code Float = 9"
| "DataType_code Double = 10"
| "DataType_code Bool = 11"
| "DataType_code String = 12"
| "DataType_code ByteArray = 13"
| "DataType_code Map = 14"
| "DataType_code Array = 15"
| "DataType_code Dictionary = 16"
| "DataType_code Null = 17"
| "DataType_code Unknown_Type = 18"
| "DataType_code (Other b) = b"

definition DataType_of_code :: "u8 \<Rightarrow> DataType" where
  "DataType_of_code b =
     (if b = 0 then Object
      else if b = 1 then UInt8
      else if b = 2 then Int8
      else if b = 3 then UInt16
      else if b = 4 then Int16
      else if b = 5 then UInt32
      else if b = 6 then Int32
      else if b = 7 then UInt64
      else if b = 8 then Int64
      else if b = 9 then Float
      else if b = 10 then Double
      else if b = 11 then Bool
      else if b = 12 then String
      else if b = 13 then ByteArray
      else if b = 14 then Map
      else if b = 15 then Array
      else if b = 16 then Dictionary
      else if b = 17 then Null
      else if b = 18 then Unknown_Type
      else Other b)"

fun DataType_named :: "DataType \<Rightarrow> bool" where
  "DataType_named (Other b) = False"
| "DataType_named t = True"

fun DataType_valid :: "DataType \<Rightarrow> bool" where
  "DataType_valid (Other b) = (18 < b)"
| "DataType_valid t = True"

lemma DataType_code_of_code [simp]: "DataType_code (DataType_of_code b) = b"
  by (simp add: DataType_of_code_def)

lemma DataType_of_code_code [simp]:
  "DataType_valid t \<Longrightarrow> DataType_of_code (DataType_code t) = t"
  by (cases t) (auto simp: DataType_of_code_def)

lemma DataType_valid_of_code [simp]: "DataType_valid (DataType_of_code b)"
proof (cases "18 < b")
  case True
  then show ?thesis by (simp add: DataType_of_code_def)
next
  case False
  then have "unat b < 19"
    by (simp add: word_less_nat_alt)
  then have "unat b = 0 \<or> unat b = 1 \<or> unat b = 2 \<or> unat b = 3 \<or> unat b = 4 \<or> unat b = 5 \<or>
    unat b = 6 \<or> unat b = 7 \<or> unat b = 8 \<or> unat b = 9 \<or> unat b = 10 \<or> unat b = 11 \<or>
    unat b = 12 \<or> unat b = 13 \<or> unat b = 14 \<or> unat b = 15 \<or> unat b = 16 \<or> unat b = 17 \<or>
    unat b = 18"
    by arith
  then show ?thesis
    by (auto simp: DataType_of_code_def word_unat_eq_iff)
qed

definition get_data_type_length :: "DataType \<Rightarrow> u32" where
  "get_data_type_length type =
     (case type of
        UInt8 \<Rightarrow> 1 | Int8 \<Rightarrow> 1 | UInt16 \<Rightarrow> 2 | Int16 \<Rightarrow> 2 | UInt32 \<Rightarrow> 4 | Int32 \<Rightarrow> 4
      | UInt64 \<Rightarrow> 8 | Int64 \<Rightarrow> 8 | Float \<Rightarrow> 4 | Double \<Rightarrow> 8 | _ \<Rightarrow> 0)"

definition DataType_to_string :: "DataType \<Rightarrow> string" where
  "DataType_to_string type =
     (case type of
        Object \<Rightarrow> ''DataType::Object''
      | UInt8 \<Rightarrow> ''DataType::UInt8''
      | Int8 \<Rightarrow> ''DataType::Int8''
      | UInt16 \<Rightarrow> ''DataType::UInt16''
      | Int16 \<Rightarrow> ''DataType::Int16''
      | UInt32 \<Rightarrow> ''DataType::UInt32''
      | Int32 \<Rightarrow> ''DataType::Int32''
      | UInt64 \<Rightarrow> ''DataType::UInt64''
      | Int64 \<Rightarrow> ''DataType::Int64''
      | Float \<Rightarrow> ''DataType::Float''
      | Double \<Rightarrow> ''DataType::Double''
      | Bool \<Rightarrow> ''DataType::Bool''
      | String \<Rightarrow> ''DataType::String''
      | ByteArray \<Rightarrow> ''DataType::ByteArray''
      | Map \<Rightarrow> ''DataType::Map''
      | Array \<Rightarrow> ''DataType::Array''
      | Dictionary \<Rightarrow> ''DataType::Dictionary''
      | Null \<Rightarrow> ''DataType::Null''
      | Unknown_Type \<Rightarrow> ''DataType::Unknown''
      | _ \<Rightarrow> ''DataType::Unknown'')"

definition DataType_enum_cast :: "string \<Rightarrow> DataType" where
  "DataType_enum_cast s =
     (if s = ''DataType::Object'' then Object
      else if s = ''DataType::UInt8'' then UInt8
      else if s = ''DataType::Int8'' then Int8
      else if s = ''DataType::UInt16'' then UInt16
      else if s = ''DataType::Int16'' then Int16
      else if s = ''DataType::UInt32'' then UInt32
      else if s = ''DataType::Int32'' then Int32
      else if s = ''DataType::UInt64'' then UInt64
      else if s = ''DataType::Int64'' then Int64
      else if s = ''DataType::Float'' then Float
      else if s = ''DataType::Double'' then Double
      else if s = ''DataType::Bool'' then Bool
      else if s = ''DataType::String'' then String
      else if s = ''DataType::ByteArray'' then ByteArray
      else if s = ''DataType::Map'' then Map
      else if s = ''DataType::Array'' then Array
      else if s = ''DataType::Dictionary'' then Dictionary
      else if s = ''DataType::Null'' then Null
      else Unknown_Type)"

definition DataType_enum_cast_int :: "int \<Rightarrow> DataType" where
  "DataType_enum_cast_int v =
     (if v = 0 then Object
      else if v = 1 then UInt8
      else if v = 2 then Int8
      else if v = 3 then UInt16
      else if v = 4 then Int16
      else if v = 5 then UInt32
      else if v = 6 then Int32
      else if v = 7 then UInt64
      else if v = 8 then Int64
      else if v = 9 then Float
      else if v = 10 then Double
      else if v = 11 then Bool
      else if v = 12 then String
      else if v = 13 then ByteArray
      else if v = 14 then Map
      else if v = 15 then Array
      else if v = 16 then Dictionary
      else if v = 17 then Null
      else Unknown_Type)"

interpretation data_type: enum_names DataType_to_string DataType_enum_cast DataType_named
proof
  show "DataType_named e \<Longrightarrow> DataType_enum_cast (DataType_to_string e) = e" for e
    by (cases e) (simp_all add: DataType_to_string_def DataType_enum_cast_def)
qed

lemma DataType_enum_cast_int_code:
  "DataType_named t \<Longrightarrow> DataType_enum_cast_int (uint (DataType_code t)) = t"
  by (cases t) (simp_all add: DataType_enum_cast_int_def)

section \<open>Classification\<close>

definition is_integer_type :: "DataType \<Rightarrow> bool" where
  "is_integer_type type =
     (case type of UInt8 \<Rightarrow> True | Int8 \<Rightarrow> True | UInt16 \<Rightarrow> True | Int16 \<Rightarrow> True
      | UInt32 \<Rightarrow> True | Int32 \<Rightarrow> True | UInt64 \<Rightarrow> True | Int64 \<Rightarrow> True | _ \<Rightarrow> False)"

definition is_string_type :: "DataType \<Rightarrow> bool" where
  "is_string_type type = (type = String)"

definition is_float_type :: "DataType \<Rightarrow> bool" where
  "is_float_type type = (case type of Float \<Rightarrow> True | Double \<Rightarrow> True | _ \<Rightarrow> False)"

definition is_bool_type :: "DataType \<Rightarrow> bool" where
  "is_bool_type type = (type = Bool)"

definition is_null_type :: "DataType \<Rightarrow> bool" where
  "is_null_type type = (type = Null)"

definition is_unknown_type :: "DataType \<Rightarrow> bool" where
  "is_unknown_type type = (type = Unknown_Type)"

section \<open>The C++ types the codec is instantiated with\<close>

datatype cpp_type =
    T_uint8 | T_int8 | T_uint16 | T_int16 | T_uint32 | T_int32 | T_uint64 | T_int64
  | T_float | T_double | T_bool | T_char | T_string | T_bytes | T_nullptr | T_cstr | T_unmapped

definition get_data_type :: "cpp_type \<Rightarrow> DataType" where
  "get_data_type T =
     (case T of
        T_uint8 \<Rightarrow> UInt8 | T_int8 \<Rightarrow> Int8 | T_uint16 \<Rightarrow> UInt16 | T_int16 \<Rightarrow> Int16
      | T_uint32 \<Rightarrow> UInt32 | T_int32 \<Rightarrow> Int32 | T_uint64 \<Rightarrow> UInt64 | T_int64 \<Rightarrow> Int64
      | T_float \<Rightarrow> Float | T_double \<Rightarrow> Double | T_bool \<Rightarrow> Bool
      | T_string \<Rightarrow> String | T_bytes \<Rightarrow> ByteArray | T_nullptr \<Rightarrow> Null | T_cstr \<Rightarrow> String
      | T_char \<Rightarrow> Unknown_Type | T_unmapped \<Rightarrow> Unknown_Type)"

text \<open>\<open>sizeof\<close> of the arithmetic types.\<close>

definition cpp_sizeof :: "cpp_type \<Rightarrow> nat" where
  "cpp_sizeof T =
     (case T of
        T_uint8 \<Rightarrow> 1 | T_int8 \<Rightarrow> 1 | T_uint16 \<Rightarrow> 2 | T_int16 \<Rightarrow> 2 | T_uint32 \<Rightarrow> 4 | T_int32 \<Rightarrow> 4
      | T_uint64 \<Rightarrow> 8 | T_int64 \<Rightarrow> 8 | T_float \<Rightarrow> 4 | T_double \<Rightarrow> 8 | T_bool \<Rightarrow> 1 | T_char \<Rightarrow> 1 | _ \<Rightarrow> 0)"

definition is_number_type :: "cpp_type \<Rightarrow> bool" where
  "is_number_type T \<longleftrightarrow>
     T \<in> {T_uint8, T_int8, T_uint16, T_int16, T_uint32, T_int32, T_uint64, T_int64, T_float, T_double}"

lemma get_data_type_length_number:
  "is_number_type T \<Longrightarrow> get_data_type_length (get_data_type T) = of_nat (cpp_sizeof T)"
  by (auto simp: is_number_type_def get_data_type_length_def get_data_type_def cpp_sizeof_def)

section \<open>Bit-mask operators on flags\<close>

text \<open>
  The flag enumerations have the underlying type \<open>uint8_t\<close> and are used as bit masks, so
  they are bytes here.
\<close>

definition flag_or :: "u8 \<Rightarrow> u8 \<Rightarrow> u8" where "flag_or lhs rhs = lhs OR rhs"
definition flag_and :: "u8 \<Rightarrow> u8 \<Rightarrow> u8" where "flag_and lhs rhs = lhs AND rhs"
definition flag_xor :: "u8 \<Rightarrow> u8 \<Rightarrow> u8" where "flag_xor lhs rhs = lhs XOR rhs"

definition has_flag :: "u8 \<Rightarrow> u8 \<Rightarrow> bool" where
  "has_flag dest_set src_set \<longleftrightarrow> flag_and src_set dest_set = src_set"

lemma has_flag_or: "has_flag a c \<Longrightarrow> has_flag (flag_or a b) c"
  by (auto simp: has_flag_def flag_and_def flag_or_def bit_eq_iff bit_simps)

lemma has_flag_bits: "has_flag d s \<longleftrightarrow> (\<forall>n. bit s n \<longrightarrow> bit d n)"
proof -
  have "bit s n \<Longrightarrow> n < 8" for n
    using bit_imp_le_length [of s n] by simp
  then show ?thesis
    by (auto simp: has_flag_def flag_and_def bit_eq_iff bit_simps)
qed

end
