(* ===== verification/Header.thy ===== *)
theory Header
  imports Data_Types
begin

text \<open>
  The message header of the wire format, \<open>network/codec/serialize_header\<close>.

  The flags are bit masks, so a \<open>SerializeFlag\<close> is a byte. A header is written in 16
  bytes, every member in network byte order, whatever the byte order of the host.
\<close>

section \<open>Flags\<close>

definition SerializeFlag_None :: u8 where "SerializeFlag_None = 0"
definition SerializeFlag_HasCheckSum :: u8 where "SerializeFlag_HasCheckSum = 1"

definition SerializeFlag_to_string :: "u8 \<Rightarrow> string" where
  "SerializeFlag_to_string flag =
     (if flag = SerializeFlag_None then ''SerializeFlag::None''
      else if flag = SerializeFlag_HasCheckSum then ''SerializeFlag::HasCheckSum''
      else
        let result = [];
            result = (if has_flag flag SerializeFlag_HasCheckSum
                      then result @ ''SerializeFlag::HasCheckSum'' @ ''|'' else result)
        in if result \<noteq> [] then butlast result else ''SerializeFlag::None'')"

definition SerializeFlag_enum_cast :: "string \<Rightarrow> u8" where
  "SerializeFlag_enum_cast s =
     (if s = ''SerializeFlag::None'' then SerializeFlag_None
      else if s = ''SerializeFlag::HasCheckSum'' then SerializeFlag_HasCheckSum
      else SerializeFlag_None)"

interpretation header_flags:
  enum_names SerializeFlag_to_string SerializeFlag_enum_cast
    "\<lambda>f. f = SerializeFlag_None \<or> f = SerializeFlag_HasCheckSum"
  by unfold_locales
     (auto simp: SerializeFlag_to_string_def SerializeFlag_enum_cast_def
        SerializeFlag_None_def SerializeFlag_HasCheckSum_def)

section \<open>The header\<close>

record SerializeHeader =
  magic_number :: u32
  version :: u8
  message_length :: u32
  header_flag :: u8
  checksum :: u32
  field_count :: u16

definition SerializeHeader_min_serialized_byte_array_size :: u32 where
  "SerializeHeader_min_serialized_byte_array_size = 4 + 1 + 4 + 1 + 4 + 2"

definition SerializeHeader_serialized_size :: "SerializeHeader \<Rightarrow> u32" where
  "SerializeHeader_serialized_size h = SerializeHeader_min_serialized_byte_array_size"

definition SerializeHeader_from_serialized_byte_array ::
  "ByteOrder \<Rightarrow> bytes \<Rightarrow> SerializeHeader option option" where
  "SerializeHeader_from_serialized_byte_array host data =
     (if length data < unat SerializeHeader_min_serialized_byte_array_size then Some None
      else do {
        let current_index = 0;
        magic \<leftarrow> load_local host 4 data current_index;
        let current_index = current_index + 4;
        ver \<leftarrow> load_local host 1 data current_index;
        let current_index = current_index + 1;
        len \<leftarrow> load_local host 4 data current_index;
        let current_index = current_index + 4;
        flag \<leftarrow> load_local host 1 data current_index;
        let current_index = current_index + 1;
        sum \<leftarrow> load_local host 4 data current_index;
        let current_index = current_index + 4;
        count \<leftarrow> load_local host 2 data current_index;
        Some (Some \<lparr>magic_number = of_nat magic, version = of_nat ver, message_length = of_nat len,
                    header_flag = of_nat flag, checksum = of_nat sum, field_count = of_nat count\<rparr>)
      })"

definition SerializeHeader_to_serialized_byte_array ::
  "ByteOrder \<Rightarrow> SerializeHeader \<Rightarrow> bytes option" where
  "SerializeHeader_to_serialized_byte_array host h =
     do {
       let data = replicate (unat (SerializeHeader_serialized_size h)) 0;
       let current_index = 0;
       data \<leftarrow> store_network host 4 data current_index (unat (magic_number h));
       let current_index = current_index + 4;
       data \<leftarrow> store_network host 1 data current_index (unat (version h));
       let current_index = current_index + 1;
       data \<leftarrow> store_network host 4 data current_index (unat (message_length h));
       let current_index = current_index + 4;
       data \<leftarrow> store_network host 1 data current_index (unat (header_flag h));
       let current_index = current_index + 1;
       data \<leftarrow> store_network host 4 data current_index (unat (checksum h));
       let current_index = current_index + 4;
       data \<leftarrow> store_network host 2 data current_index (unat (field_count h));
       Some data
     }"

definition SerializeHeader_to_string :: "SerializeHeader \<Rightarrow> string" where
  "SerializeHeader_to_string h =
     ''magic_number='' @ show_nat (unat (magic_number h)) @
     '' | version='' @ show_nat (unat (version h)) @
     '' | message_length='' @ show_nat (unat (message_length h)) @
     '' | flag='' @ SerializeFlag_to_string (header_flag h) @
     '' | checksum='' @ show_nat (unat (checksum h)) @
     '' | field_count='' @ show_nat (unat (field_count h))"

section \<open>What is on the wire\<close>

definition header_bytes :: "SerializeHeader \<Rightarrow> bytes" where
  "header_bytes h =
     be_bytes 4 (unat (magic_number h)) @ be_bytes 1 (unat (version h)) @
     be_bytes 4 (unat (message_length h)) @ be_bytes 1 (unat (header_flag h)) @
     be_bytes 4 (unat (checksum h)) @ be_bytes 2 (unat (field_count h))"

lemma length_header_bytes [simp]: "length (header_bytes h) = 16"
  by (simp add: header_bytes_def)

lemma header_size [simp]: "SerializeHeader_min_serialized_byte_array_size = 16"
  by (simp add: SerializeHeader_min_serialized_byte_array_size_def)

lemma header_to_bytes:
  "SerializeHeader_to_serialized_byte_array host h = Some (header_bytes h)"
  by (simp add: SerializeHeader_to_serialized_byte_array_def SerializeHeader_serialized_size_def
      header_bytes_def vec_simps)

lemma header_from_bytes:
  "SerializeHeader_from_serialized_byte_array host (header_bytes h @ rest) = Some (Some h)"
  by (simp add: SerializeHeader_from_serialized_byte_array_def header_bytes_def vec_simps)

lemma header_from_short:
  "length data < 16 \<Longrightarrow> SerializeHeader_from_serialized_byte_array host data = Some None"
  by (simp add: SerializeHeader_from_serialized_byte_array_def)

text \<open>Every 16 bytes are a header, and reading them gives the header that writes them.\<close>

lemma header_bytes_total:
  assumes "16 \<le> length data"
  obtains h where "data = header_bytes h @ drop 16 data"
    and "SerializeHeader_from_serialized_byte_array host data = Some (Some h)"
proof -
  define part where "part i n = take n (drop i data)" for i n
  have part_length: "length (part i n) = n" if "i + n \<le> 16" for i n
    using that assms by (simp add: part_def)
  define h where "h = \<lparr>magic_number = of_nat (be_nat (part 0 4)),
    version = of_nat (be_nat (part 4 1)), message_length = of_nat (be_nat (part 5 4)),
    header_flag = of_nat (be_nat (part 9 1)), checksum = of_nat (be_nat (part 10 4)),
    field_count = of_nat (be_nat (part 14 2))\<rparr>"
  have "header_bytes h = part 0 4 @ part 4 1 @ part 5 4 @ part 9 1 @ part 10 4 @ part 14 2"
    using be_bytes_word [of "part 0 4", where 'a = 32] be_bytes_word [of "part 4 1", where 'a = 8]
      be_bytes_word [of "part 5 4", where 'a = 32] be_bytes_word [of "part 9 1", where 'a = 8]
      be_bytes_word [of "part 10 4", where 'a = 32] be_bytes_word [of "part 14 2", where 'a = 16]
    by (simp add: header_bytes_def h_def part_length)
  also have "\<dots> = take 16 data"
    using take_add [of 4 12 data] take_add [of 1 11 "drop 4 data"] take_add [of 4 7 "drop 5 data"]
      take_add [of 1 6 "drop 9 data"] take_add [of 4 2 "drop 10 data"]
    by (simp add: part_def)
  finally have *: "data = header_bytes h @ drop 16 data"
    by simp
  then have "SerializeHeader_from_serialized_byte_array host data = Some (Some h)"
    by (metis header_from_bytes)
  with * show thesis by (rule that)
qed

section \<open>Properties\<close>

text \<open>A header that one host writes is 16 bytes, and any other host reads the same header
  back, whatever the two byte orders and whatever follows the header.\<close>

theorem header_round_trip:
  "\<exists>bs. SerializeHeader_to_serialized_byte_array writer h = Some bs \<and> length bs = 16 \<and>
    SerializeHeader_from_serialized_byte_array reader (bs @ rest) = Some (Some h)"
  by (simp add: header_to_bytes header_from_bytes)

text \<open>Reading a header never leaves the vector: it fails exactly for vectors of less than 16
  bytes, and what it reads from a longer one is the header that writes its first 16 bytes.\<close>

theorem header_parse_total:
  "if length data < 16 then SerializeHeader_from_serialized_byte_array host data = Some None
   else \<exists>h. SerializeHeader_from_serialized_byte_array host data = Some (Some h) \<and>
     SerializeHeader_to_serialized_byte_array host h = Some (take 16 data)"
proof (cases "length data < 16")
  case True
  then show ?thesis by (simp add: header_from_short)
next
  case False
  then obtain h where h: "data = header_bytes h @ drop 16 data"
    "SerializeHeader_from_serialized_byte_array host data = Some (Some h)"
    using header_bytes_total [of data host] by auto
  then have "take 16 data = header_bytes h"
    by (metis append_eq_conv_conj length_header_bytes)
  with False h show ?thesis by (simp add: header_to_bytes)
qed

end
