(* ===== verification/Field.thy ===== *)
theory Field
  imports Header
begin

text \<open>
  The fields of a message, \<open>network/codec/serialize_field\<close>: a name, a type, a flag byte
  and a value, whose length is on the wire when the flag \<open>HasValueLength\<close> is set and is
  the length of the type otherwise.
\<close>

section \<open>Flags\<close>

definition SerializeFieldFlag_None :: u8 where "SerializeFieldFlag_None = 0"
definition SerializeFieldFlag_HasValueLength :: u8 where "SerializeFieldFlag_HasValueLength = 1"

definition SerializeFieldFlag_to_string :: "u8 \<Rightarrow> string" where
  "SerializeFieldFlag_to_string flag =
     (if flag = SerializeFieldFlag_None then ''SerializeFieldFlag::None''
      else if flag = SerializeFieldFlag_HasValueLength then ''SerializeFieldFlag::HasValueLength''
      else
        let result = [];
            result = (if has_flag flag SerializeFieldFlag_HasValueLength
                      then result @ ''SerializeFieldFlag::HasValueLength'' @ ''|'' else result)
        in if result \<noteq> [] then butlast result else ''SerializeFieldFlag::None'')"

definition SerializeFieldFlag_enum_cast :: "string \<Rightarrow> u8" where
  "SerializeFieldFlag_enum_cast s =
     (if s = ''SerializeFieldFlag::None'' then SerializeFieldFlag_None
      else if s = ''SerializeFieldFlag::HasValueLength'' then SerializeFieldFlag_HasValueLength
      else SerializeFieldFlag_None)"

interpretation field_flags:
  enum_names SerializeFieldFlag_to_string SerializeFieldFlag_enum_cast
    "\<lambda>f. f = SerializeFieldFlag_None \<or> f = SerializeFieldFlag_HasValueLength"
  by unfold_locales
     (auto simp: SerializeFieldFlag_to_string_def SerializeFieldFlag_enum_cast_def
        SerializeFieldFlag_None_def SerializeFieldFlag_HasValueLength_def)

section \<open>The field\<close>

record SerializeField =
  name_length :: u16
  field_name :: bytes
  field_type :: DataType
  field_flag :: u8
  value_length :: u32
  field_value :: bytes

definition SerializeField_min_serialized_byte_array_size :: u32 where
  "SerializeField_min_serialized_byte_array_size = 2 + 1 + 1"

definition SerializeField_serialized_size :: "SerializeField \<Rightarrow> u32" where
  "SerializeField_serialized_size f =
     (let size = of_nat (2 + length (field_name f) + 1 + 1 + length (field_value f))
      in if has_flag (field_flag f) SerializeFieldFlag_HasValueLength then size + 4 else size)"

definition SerializeField_get_value :: "SerializeField \<Rightarrow> bytes" where
  "SerializeField_get_value f = field_value f"

text \<open>The types whose value is copied as it is; the code spells this test out each time.\<close>

definition is_raw_type :: "DataType \<Rightarrow> bool" where
  "is_raw_type t \<longleftrightarrow>
     t = String \<or> t = ByteArray \<or> t = Dictionary \<or> t = Array \<or> t = Map"

definition SerializeField_from_serialized_byte_array ::
  "ByteOrder \<Rightarrow> bytes \<Rightarrow> SerializeField option option" where
  "SerializeField_from_serialized_byte_array host data =
    (let data_size = of_nat (length data) :: u32 in
     if data_size < SerializeField_min_serialized_byte_array_size then Some None
     else
     let current_index = 0; need = 0 :: u32;
         need = need + 2 in
     if \<not> ensure_enough_to_read data need then Some None
     else do {
       n_len \<leftarrow> map_option of_nat (load_local host 2 data current_index);
       let current_index = current_index + 2;
       let need = need + ucast (n_len :: u16);
       if \<not> ensure_enough_to_read data need then Some None
       else do {
         name \<leftarrow> read_at data (unat current_index) (unat n_len);
         let current_index = current_index + ucast n_len;
         let need = need + 1;
         if \<not> ensure_enough_to_read data need then Some None
         else do {
           type \<leftarrow> map_option (\<lambda>x. DataType_of_code (of_nat x)) (load_local host 1 data current_index);
           let current_index = current_index + 1;
           let need = need + 1;
           if \<not> ensure_enough_to_read data need then Some None
           else do {
             flag \<leftarrow> map_option of_nat (load_local host 1 data current_index);
             let current_index = current_index + 1;
             let has_length = has_flag flag SerializeFieldFlag_HasValueLength;
             let need = (if has_length then need + 4 else need);
             if has_length \<and> \<not> ensure_enough_to_read data need then Some None
             else do {
               v_len \<leftarrow> (if has_length then map_option of_nat (load_local host 4 data current_index)
                         else Some (get_data_type_length type));
               let current_index = (if has_length then current_index + 4 else current_index);
               let need = need + v_len;
               if \<not> ensure_enough_to_read data need then Some None
               else do {
                 raw \<leftarrow> read_at data (unat current_index) (unat v_len);
                 let value = (if is_raw_type type then raw
                              else to_local_byte_order_bytes host raw (unat v_len));
                 Some (Some \<lparr>name_length = n_len, field_name = name, field_type = type,
                             field_flag = flag, value_length = v_len, field_value = value\<rparr>)
               }
             }
           }
         }
       }
     })"

definition SerializeField_to_serialized_byte_array ::
  "ByteOrder \<Rightarrow> SerializeField \<Rightarrow> bytes option" where
  "SerializeField_to_serialized_byte_array host f =
     do {
       let data = replicate (unat (SerializeField_serialized_size f)) 0;
       let current_index = (0 :: u32);
       let need = (0 :: u32);
       let need = need + 2;
       let data = ensure_enough_capacity data need;
       data \<leftarrow> store_network host 2 data current_index (unat (name_length f));
       let current_index = current_index + 2;
       let need = need + ucast (name_length f);
       let data = ensure_enough_capacity data need;
       data \<leftarrow> blit data (unat current_index) (field_name f);
       let current_index = current_index + of_nat (length (field_name f));
       let need = need + 1;
       let data = ensure_enough_capacity data need;
       data \<leftarrow> store_network host 1 data current_index (unat (DataType_code (field_type f)));
       let current_index = current_index + 1;
       let need = need + 1;
       let data = ensure_enough_capacity data need;
       data \<leftarrow> store_network host 1 data current_index (unat (field_flag f));
       let current_index = current_index + 1;
       let has_length = has_flag (field_flag f) SerializeFieldFlag_HasValueLength;
       let need = (if has_length then need + 4 else need);
       let data = (if has_length then ensure_enough_capacity data need else data);
       data \<leftarrow> (if has_length then store_network host 4 data current_index (unat (value_length f))
                else Some data);
       let current_index = (if has_length then current_index + 4 else current_index);
       let need = need + value_length f;
       let data = ensure_enough_capacity data need;
       if is_raw_type (field_type f)
       then blit data (unat current_index) (field_value f)
       else do {
         raw \<leftarrow> read_at (field_value f) 0 (unat (value_length f));
         blit data (unat current_index)
           (to_network_byte_order_ptr host 1 (unat (value_length f)) raw)
       }
     }"

definition SerializeField_to_string :: "SerializeField \<Rightarrow> string" where
  "SerializeField_to_string f =
     ''name_length='' @ show_nat (unat (name_length f)) @
     '' | name='' @ string_of_bytes (field_name f) @
     '' | type='' @ DataType_to_string (field_type f) @
     '' | flag='' @ SerializeFieldFlag_to_string (field_flag f) @
     '' | value_length='' @ show_nat (unat (value_length f)) @
     '' | value_size='' @ show_nat (length (field_value f))"

section \<open>What is on the wire\<close>

definition has_length :: "SerializeField \<Rightarrow> bool" where
  "has_length f = has_flag (field_flag f) SerializeFieldFlag_HasValueLength"

definition field_bytes :: "SerializeField \<Rightarrow> bytes" where
  "field_bytes f =
     be_bytes 2 (unat (name_length f)) @ field_name f @
     be_bytes 1 (unat (DataType_code (field_type f))) @ be_bytes 1 (unat (field_flag f)) @
     (if has_length f then be_bytes 4 (unat (value_length f)) else []) @ field_value f"

text \<open>
  The fields that the wire format can carry: the two lengths are those of the vectors, and
  a value whose length is not on the wire has the length of its type.
\<close>

definition field_sized :: "SerializeField \<Rightarrow> bool" where
  "field_sized f \<longleftrightarrow>
     length (field_name f) = unat (name_length f) \<and>
     length (field_value f) = unat (value_length f) \<and>
     length (field_bytes f) < 2 ^ 32"

definition field_wf :: "SerializeField \<Rightarrow> bool" where
  "field_wf f \<longleftrightarrow>
     field_sized f \<and> DataType_valid (field_type f) \<and>
     (has_length f \<or> get_data_type_length (field_type f) = value_length f)"

lemma unat_ucast_u16_u32 [simp]: "unat (ucast (w :: u16) :: u32) = unat w"
proof -
  have "unat w < 2 ^ 32"
    by (rule less_trans [OF unat_u16_less]) simp
  then show ?thesis
    using take_bit_nat_eq_self [of "unat w" 32] by (simp add: unsigned_ucast_eq)
qed

lemma length_field_bytes:
  "length (field_bytes f) =
     4 + length (field_name f) + (if has_length f then 4 else 0) + length (field_value f)"
  by (simp add: field_bytes_def)

lemma field_serialized_size:
  assumes "length (field_bytes f) < 2 ^ 32"
  shows "unat (SerializeField_serialized_size f) = length (field_bytes f)"
proof -
  have "SerializeField_serialized_size f = of_nat (length (field_bytes f))"
    by (simp add: SerializeField_serialized_size_def length_field_bytes has_length_def Let_def)
  then show ?thesis
    using assms by (simp only: unat_of_nat_u32) simp
qed

lemma field_to_bytes:
  assumes "field_sized f"
  shows "SerializeField_to_serialized_byte_array host f = Some (field_bytes f)"
proof -
  have n: "length (field_name f) = unat (name_length f)"
    and v: "length (field_value f) = unat (value_length f)"
    and l: "length (field_bytes f) < 2 ^ 32"
    using assms by (simp_all add: field_sized_def)
  have u [simp]: "unat (of_nat (unat (name_length f)) :: u32) = unat (name_length f)"
    using unat_u16_less [of "name_length f"] by simp
  have z: "unat (SerializeField_serialized_size f) =
      4 + unat (name_length f) + (if has_length f then 4 else 0) + unat (value_length f)"
    using field_serialized_size [OF l] by (simp add: length_field_bytes n v)
  have b: "4 + unat (name_length f) + (if has_length f then 4 else 0) + unat (value_length f) < 4294967296"
    using l by (simp add: length_field_bytes n v)
  show ?thesis
  proof (cases "has_length f")
    case True
    with b z show ?thesis
      by (simp add: SerializeField_to_serialized_byte_array_def field_bytes_def n v vec_simps
          has_length_def Let_def unat_add_u32 to_network_byte_order_ptr_def
          del: add_2_eq_Suc add_2_eq_Suc' replicate.simps)
  next
    case False
    with b z show ?thesis
      by (simp add: SerializeField_to_serialized_byte_array_def field_bytes_def n v vec_simps
          has_length_def Let_def unat_add_u32 to_network_byte_order_ptr_def
          del: add_2_eq_Suc add_2_eq_Suc' replicate.simps)
  qed
qed

lemma field_from_bytes:
  assumes "field_wf f" and "length (field_bytes f @ rest) < 2 ^ 32"
  shows "SerializeField_from_serialized_byte_array host (field_bytes f @ rest) = Some (Some f)"
proof -
  have n: "length (field_name f) = unat (name_length f)"
    and v: "length (field_value f) = unat (value_length f)"
    and t: "DataType_of_code (DataType_code (field_type f)) = field_type f"
    using assms by (simp_all add: field_wf_def field_sized_def)
  define total where "total = length (field_bytes f @ rest)"
  have total: "total = 4 + unat (name_length f) + (if has_length f then 4 else 0) +
      unat (value_length f) + length rest"
    by (simp add: total_def length_field_bytes n v)
  have b: "total < 4294967296"
    using assms(2) by (simp add: total_def)
  then have small: "\<not> (of_nat total :: u32) < 4"
    using total by (simp add: word_less_nat_alt del: of_nat_add)
  note defs = SerializeField_from_serialized_byte_array_def Let_def vec_simps unat_add_u32
    to_local_byte_order_bytes_def t total_def [symmetric]
    SerializeField_min_serialized_byte_array_size_def
  have same: "(if is_raw_type t then field_value f
      else to_local_byte_order_bytes host (field_value f) (unat (value_length f))) = field_value f" for t
    by (simp add: to_local_byte_order_bytes_def v vec_simps)
  show ?thesis
  proof (cases "has_length f")
    case True
    with b total show ?thesis
      using small
      by (simp add: defs field_bytes_def n v has_length_def same) (simp add: add.assoc)
  next
    case False
    then have "get_data_type_length (field_type f) = value_length f"
      using assms by (simp add: field_wf_def)
    with False b total show ?thesis
      using small
      by (simp add: defs field_bytes_def n v has_length_def same) (simp add: add.assoc)
  qed
qed

end
