(* ===== verification/Array_Value.thy ===== *)
theory Array_Value
  imports Field
begin

text \<open>
  Array values, \<open>network/codec/serialize_array_value\<close>, and the map values of
  \<open>network/codec/serialize_map_value\<close>, of which the code only has stubs.

  An array value is the value of a field of type \<open>Array\<close>: an element type, a count, one
  length for all elements or one for each, and the elements, packed.
\<close>

section \<open>Flags\<close>

definition SerializeArrayFlag_None :: u8 where "SerializeArrayFlag_None = 0"
definition SerializeArrayFlag_IsElementLengthVariable :: u8 where
  "SerializeArrayFlag_IsElementLengthVariable = 1"

definition SerializeArrayFlag_to_string :: "u8 \<Rightarrow> string" where
  "SerializeArrayFlag_to_string flag =
     (if flag = SerializeArrayFlag_None then ''SerializeArrayFlag::None''
      else if flag = SerializeArrayFlag_IsElementLengthVariable
      then ''SerializeArrayFlag::IsElementLengthVariable''
      else
        let result = [];
            result = (if has_flag flag SerializeArrayFlag_IsElementLengthVariable
                      then result @ ''SerializeArrayFlag::IsElementLengthVariable'' @ ''|'' else result)
        in if result \<noteq> [] then butlast result else ''SerializeArrayFlag::None'')"

definition SerializeArrayFlag_enum_cast :: "string \<Rightarrow> u8" where
  "SerializeArrayFlag_enum_cast s =
     (if s = ''SerializeArrayFlag::None'' then SerializeArrayFlag_None
      else if s = ''SerializeArrayFlag::IsElementLengthVariable''
      then SerializeArrayFlag_IsElementLengthVariable
      else SerializeArrayFlag_None)"

interpretation array_flags:
  enum_names SerializeArrayFlag_to_string SerializeArrayFlag_enum_cast
    "\<lambda>f. f = SerializeArrayFlag_None \<or> f = SerializeArrayFlag_IsElementLengthVariable"
  by unfold_locales
     (auto simp: SerializeArrayFlag_to_string_def SerializeArrayFlag_enum_cast_def
        SerializeArrayFlag_None_def SerializeArrayFlag_IsElementLengthVariable_def)

section \<open>The array value\<close>

record SerializeArrayValue =
  element_type :: DataType
  element_count :: u32
  array_flag :: u8
  element_value_length :: "u32 list"
  element_value :: bytes

definition SerializeArrayValue_min_serialized_byte_array_size :: u32 where
  "SerializeArrayValue_min_serialized_byte_array_size = 1 + 4 + 1 + 4"

definition SerializeArrayValue_serialized_size :: "SerializeArrayValue \<Rightarrow> u32" where
  "SerializeArrayValue_serialized_size a =
     of_nat (1 + 4 + 1 + 4 * length (element_value_length a) + 1 * length (element_value a))"

text \<open>
  The loop that reads \<open>n\<close> element lengths. Its state is the bytes needed so far, the
  cursor and the sum of the lengths, all of them \<open>uint32_t\<close>.
\<close>

fun read_element_lengths ::
  "ByteOrder \<Rightarrow> bytes \<Rightarrow> nat \<Rightarrow> u32 \<Rightarrow> u32 \<Rightarrow> u32 \<Rightarrow> (u32 list \<times> u32 \<times> u32 \<times> u32) option option" where
  "read_element_lengths host data 0 need index acc = Some (Some ([], need, index, acc))"
| "read_element_lengths host data (Suc n) need index acc =
     (let need = need + 4 in
      if \<not> ensure_enough_to_read data need then Some None
      else do {
        len \<leftarrow> map_option of_nat (load_local host 4 data index);
        rest \<leftarrow> read_element_lengths host data n need (index + 4) (acc + len);
        Some (map_option (\<lambda>(lens, s). (len # lens, s)) rest)
      })"

definition SerializeArrayValue_from_serialized_byte_array ::
  "ByteOrder \<Rightarrow> bytes \<Rightarrow> SerializeArrayValue option option" where
  "SerializeArrayValue_from_serialized_byte_array host data =
    (if length data < unat SerializeArrayValue_min_serialized_byte_array_size then Some None
     else
     let current_index = 0; need = 0 :: u32;
         need = need + 1 in
     if \<not> ensure_enough_to_read data need then Some None
     else do {
       type \<leftarrow> map_option (\<lambda>x. DataType_of_code (of_nat x)) (load_local host 1 data current_index);
       let current_index = current_index + 1;
       let need = need + 4;
       if \<not> ensure_enough_to_read data need then Some None
       else do {
         count \<leftarrow> map_option of_nat (load_local host 4 data current_index);
         let current_index = current_index + 4;
         let need = need + 1;
         if \<not> ensure_enough_to_read data need then Some None
         else do {
           flag \<leftarrow> map_option of_nat (load_local host 1 data current_index);
           let current_index = current_index + 1;
           lengths \<leftarrow>
             (if has_flag flag SerializeArrayFlag_IsElementLengthVariable
              then read_element_lengths host data (unat count) need current_index 0
              else
                let need = need + 4 in
                if \<not> ensure_enough_to_read data need then Some None
                else do {
                  len \<leftarrow> map_option of_nat (load_local host 4 data current_index);
                  Some (Some ([len], need, current_index + 4, len * count))
                });
           (case lengths of
              None \<Rightarrow> Some None
            | Some (lens, need, current_index, v_len) \<Rightarrow>
                let need = need + v_len in
                if \<not> ensure_enough_to_read data need then Some None
                else do {
                  value \<leftarrow> read_at data (unat current_index) (unat v_len);
                  Some (Some \<lparr>element_type = type, element_count = count, array_flag = flag,
                              element_value_length = lens, element_value = value\<rparr>)
                })
         }
       }
     })"

text \<open>The loop that writes the element lengths; its state is the vector, the bytes needed and the cursor.\<close>

fun write_element_length ::
  "ByteOrder \<Rightarrow> u32 \<Rightarrow> bytes \<times> u32 \<times> u32 \<Rightarrow> (bytes \<times> u32 \<times> u32) option" where
  "write_element_length host len (data, need, index) =
     (let need = need + 4; data = ensure_enough_capacity data need in
      do {
        data \<leftarrow> store_network host 4 data index (unat len);
        Some (data, need, index + 4)
      })"

text \<open>
  The lengths of a variable array, or the only length of another one. Without any length,
  the pointer of the empty vector is null, for which \<open>to_network_byte_order\<close> writes nothing.
\<close>

fun write_element_lengths ::
  "ByteOrder \<Rightarrow> SerializeArrayValue \<Rightarrow> bytes \<times> u32 \<times> u32 \<Rightarrow> (bytes \<times> u32 \<times> u32) option" where
  "write_element_lengths host a (data, need, index) =
     (if length (element_value_length a) > 1
      then fold_option (write_element_length host) (element_value_length a) (data, need, index)
      else
        let need = need + 4; data = ensure_enough_capacity data need in
        do {
          data \<leftarrow> (case element_value_length a of
                     [] \<Rightarrow> Some data
                   | len # _ \<Rightarrow> store_network host 4 data index (unat len));
          Some (data, need, index + 4)
        })"

text \<open>
  \<open>to_serialized_byte_array\<close>. The result is empty when several lengths are given but not
  one for each element.
\<close>

definition SerializeArrayValue_to_serialized_byte_array ::
  "ByteOrder \<Rightarrow> SerializeArrayValue \<Rightarrow> bytes option" where
  "SerializeArrayValue_to_serialized_byte_array host a =
    (let data = replicate (unat (SerializeArrayValue_serialized_size a)) 0;
         is_variable_array = (length (element_value_length a) > 1) in
     if is_variable_array \<and> unat (element_count a) \<noteq> length (element_value_length a) then Some []
     else do {
       let current_index = (0 :: u32);
       let need = (0 :: u32);
       let need = need + 1;
       let data = ensure_enough_capacity data need;
       data \<leftarrow> store_network host 1 data current_index (unat (DataType_code (element_type a)));
       let current_index = current_index + 1;
       let need = need + 4;
       let data = ensure_enough_capacity data need;
       data \<leftarrow> store_network host 4 data current_index (unat (element_count a));
       let current_index = current_index + 4;
       let need = need + 1;
       let data = ensure_enough_capacity data need;
       data \<leftarrow> store_network host 1 data current_index (unat (array_flag a));
       let current_index = current_index + 1;
       (data, need, current_index) \<leftarrow> write_element_lengths host a (data, need, current_index);
       let need = need + of_nat (length (element_value a));
       let data = ensure_enough_capacity data need;
       blit data (unat current_index) (element_value a)
     })"

definition SerializeArrayValue_to_string :: "SerializeArrayValue \<Rightarrow> string" where
  "SerializeArrayValue_to_string a =
     ''element_type='' @ DataType_to_string (element_type a) @
     '' | element_count='' @ show_nat (unat (element_count a)) @
     '' | flag='' @ SerializeArrayFlag_to_string (array_flag a) @
     '' | element_value_length_size='' @ show_nat (length (element_value_length a)) @
     '' | element_value_size='' @ show_nat (length (element_value a))"

section \<open>Arrays in fields\<close>

text \<open>
  \<open>to_array<T>\<close> for an arithmetic type \<open>T\<close>; an element is its value. The loop advances by
  \<open>sizeof(T)\<close>, whatever length the array value declares for its elements.
\<close>

fun read_elements :: "ByteOrder \<Rightarrow> nat \<Rightarrow> bytes \<Rightarrow> nat \<Rightarrow> u32 \<Rightarrow> nat list option" where
  "read_elements host s data 0 index = Some []"
| "read_elements host s data (Suc n) index =
     do {
       x \<leftarrow> load_local host s data index;
       xs \<leftarrow> read_elements host s data n (index + of_nat s);
       Some (x # xs)
     }"

definition to_array :: "ByteOrder \<Rightarrow> cpp_type \<Rightarrow> SerializeField \<Rightarrow> nat list option" where
  "to_array host T f =
     do {
       array_op \<leftarrow> SerializeArrayValue_from_serialized_byte_array host (field_value f);
       (case array_op of
          None \<Rightarrow> Some []
        | Some a \<Rightarrow>
            if element_type a \<noteq> get_data_type T then Some []
            else if has_flag (array_flag a) SerializeArrayFlag_IsElementLengthVariable then
              (if unat (element_count a) \<noteq> length (element_value_length a) then Some []
               else Some [])
            else read_elements host (cpp_sizeof T) (element_value a) (unat (element_count a)) 0)
     }"

section \<open>What is on the wire\<close>

definition length_bytes :: "u32 list \<Rightarrow> bytes" where
  "length_bytes lens = concat (map (\<lambda>l. be_bytes 4 (unat l)) lens)"

definition array_bytes :: "SerializeArrayValue \<Rightarrow> bytes" where
  "array_bytes a =
     be_bytes 1 (unat (DataType_code (element_type a))) @ be_bytes 4 (unat (element_count a)) @
     be_bytes 1 (unat (array_flag a)) @ length_bytes (element_value_length a) @ element_value a"

definition is_variable :: "SerializeArrayValue \<Rightarrow> bool" where
  "is_variable a = has_flag (array_flag a) SerializeArrayFlag_IsElementLengthVariable"

definition array_wf :: "SerializeArrayValue \<Rightarrow> bool" where
  "array_wf a \<longleftrightarrow>
     DataType_valid (element_type a) \<and> length (array_bytes a) < 2 ^ 32 \<and>
     (if is_variable a
      then element_value_length a \<noteq> [] \<and> length (element_value_length a) = unat (element_count a) \<and>
        length (element_value a) = sum_list (map unat (element_value_length a))
      else length (element_value_length a) = 1 \<and>
        length (element_value a) = unat (element_value_length a ! 0) * unat (element_count a))"

lemma length_length_bytes [simp]: "length (length_bytes lens) = 4 * length lens"
  by (induction lens) (simp_all add: length_bytes_def)

lemma length_bytes_simps [simp]:
  "length_bytes [] = []"
  "length_bytes (l # lens) = be_bytes 4 (unat l) @ length_bytes lens"
  by (simp_all add: length_bytes_def)

lemma length_array_bytes:
  "length (array_bytes a) = 6 + 4 * length (element_value_length a) + length (element_value a)"
  by (simp add: array_bytes_def)

lemma fold_write_element_length:
  assumes "unat need = length p" "unat index = length p"
    and "length p + 4 * length lens + n < 2 ^ 32"
  shows "fold_option (write_element_length host) lens
      (p @ replicate (4 * length lens + n) 0, need, index) =
    Some (p @ length_bytes lens @ replicate n 0,
      need + of_nat (4 * length lens), index + of_nat (4 * length lens))"
  using assms
proof (induction lens arbitrary: p need index)
  case Nil
  then show ?case by simp
next
  case (Cons l lens)
  let ?q = "p @ be_bytes 4 (unat l)"
  have "unat (need + 4) = length ?q" "unat (index + 4) = length ?q"
    using Cons.prems by (simp_all add: unat_add_u32)
  then have "fold_option (write_element_length host) lens
        (?q @ replicate (4 * length lens + n) 0, need + 4, index + 4) =
      Some (?q @ length_bytes lens @ replicate n 0,
        need + 4 + of_nat (4 * length lens), index + 4 + of_nat (4 * length lens))"
    using Cons.prems by (intro Cons.IH) auto
  moreover have "write_element_length host l (p @ replicate (4 * length (l # lens) + n) 0, need, index) =
      Some (?q @ replicate (4 * length lens + n) 0, need + 4, index + 4)"
    using Cons.prems
    by (simp add: Let_def vec_simps unat_add_u32 del: replicate.simps)
  ultimately show ?case
    by (simp del: write_element_length.simps)
qed

lemma read_element_lengths_bytes:
  assumes "unat need = length p" "unat index = length p"
    and "length (p @ length_bytes lens @ r) < 2 ^ 32"
  shows "read_element_lengths host (p @ length_bytes lens @ r) (length lens) need index acc =
    Some (Some (lens, need + of_nat (4 * length lens), index + of_nat (4 * length lens),
      acc + sum_list lens))"
  using assms
proof (induction lens arbitrary: p need index acc)
  case Nil
  then show ?case by simp
next
  case (Cons l lens)
  let ?q = "p @ be_bytes 4 (unat l)"
  have "unat (need + 4) = length ?q" "unat (index + 4) = length ?q"
    using Cons.prems by (simp_all add: unat_add_u32)
  then have "read_element_lengths host (?q @ length_bytes lens @ r) (length lens) (need + 4) (index + 4) (acc + l) =
      Some (Some (lens, need + 4 + of_nat (4 * length lens), index + 4 + of_nat (4 * length lens),
        acc + l + sum_list lens))"
    using Cons.prems by (intro Cons.IH) auto
  then show ?case
    using Cons.prems
    by (simp add: Let_def vec_simps unat_add_u32 add.assoc)
qed

lemma array_wf_lengths:
  assumes "array_wf a"
  shows "element_value_length a \<noteq> []"
    and "length (element_value_length a) > 1 \<Longrightarrow>
      length (element_value_length a) = unat (element_count a)"
    and "6 + 4 * length (element_value_length a) + length (element_value a) < 2 ^ 32"
  using assms by (auto simp: array_wf_def length_array_bytes split: if_splits)

lemma write_element_lengths_bytes:
  assumes "array_wf a" "length p = 6"
  shows "write_element_lengths host a
      (p @ replicate (4 * length (element_value_length a) + length (element_value a)) 0, 6, 6) =
    Some (p @ length_bytes (element_value_length a) @ replicate (length (element_value a)) 0,
      6 + of_nat (4 * length (element_value_length a)), 6 + of_nat (4 * length (element_value_length a)))"
proof (cases "length (element_value_length a) > 1")
  case True
  then show ?thesis
    using array_wf_lengths(3) [OF assms(1)] assms(2)
      fold_write_element_length [of 6 p 6 "element_value_length a" "length (element_value a)" host]
    by simp
next
  case False
  with array_wf_lengths(1) [OF assms(1)] obtain len where "element_value_length a = [len]"
    by (cases "element_value_length a") auto
  then show ?thesis
    using assms(2) by (simp add: Let_def vec_simps del: replicate.simps)
qed

lemma array_to_bytes:
  assumes "array_wf a"
  shows "SerializeArrayValue_to_serialized_byte_array host a = Some (array_bytes a)"
proof -
  let ?lens = "element_value_length a" and ?v = "element_value a"
  let ?p = "be_bytes 1 (unat (DataType_code (element_type a))) @ be_bytes 4 (unat (element_count a)) @
     be_bytes 1 (unat (array_flag a))"
  note l = array_wf_lengths [OF assms]
  have z: "unat (SerializeArrayValue_serialized_size a) = 6 + (4 * length ?lens + length ?v)"
    using l(3) unat_of_nat_u32 [of "6 + (4 * length ?lens + length ?v)"]
    by (simp add: SerializeArrayValue_serialized_size_def add.assoc)
  have i: "unat (6 + of_nat (4 * length ?lens) :: u32) = 6 + 4 * length ?lens"
    "unat (6 + of_nat (4 * length ?lens) + of_nat (length ?v) :: u32) = 6 + 4 * length ?lens + length ?v"
    using l(3) by (simp_all add: unat_add_u32 del: of_nat_mult)
  have "write_element_lengths host a
      (be_bytes 1 (unat (DataType_code (element_type a))) @ be_bytes 4 (unat (element_count a)) @
       be_bytes 1 (unat (array_flag a)) @ replicate (4 * length ?lens + length ?v) 0, 6, 6) =
    Some (?p @ length_bytes ?lens @ replicate (length ?v) 0,
      6 + of_nat (4 * length ?lens), 6 + of_nat (4 * length ?lens))"
    using write_element_lengths_bytes [OF assms, of ?p host] by simp
  moreover have "\<not> (1 < length ?lens \<and> unat (element_count a) \<noteq> length ?lens)"
    using l(2) by auto
  ultimately show ?thesis
    using l(3) z i
    unfolding SerializeArrayValue_to_serialized_byte_array_def Let_def
    by (simp only: if_False) (simp add: array_bytes_def vec_simps
        del: replicate.simps write_element_lengths.simps of_nat_mult)
qed

lemma unat_sum_list_u32:
  "sum_list (map unat lens) < 2 ^ 32 \<Longrightarrow> unat (sum_list lens :: u32) = sum_list (map unat lens)"
  by (induction lens) (simp_all add: unat_add_u32)

lemma array_from_bytes:
  assumes "array_wf a" and "length (array_bytes a @ rest) < 2 ^ 32"
  shows "SerializeArrayValue_from_serialized_byte_array host (array_bytes a @ rest) = Some (Some a)"
proof -
  let ?lens = "element_value_length a" and ?v = "element_value a"
  have t: "DataType_of_code (DataType_code (element_type a)) = element_type a"
    using assms by (simp add: array_wf_def)
  have l: "6 + 4 * length ?lens + length ?v + length rest < 4294967296"
    using assms(2) by (simp add: length_array_bytes)
  have ne: "length ?lens \<ge> 1"
    using array_wf_lengths(1) [OF assms(1)] by (cases ?lens) auto
  note defs = SerializeArrayValue_from_serialized_byte_array_def Let_def vec_simps t array_bytes_def
    SerializeArrayValue_min_serialized_byte_array_size_def
  show ?thesis
  proof (cases "is_variable a")
    case True
    let ?p = "be_bytes 1 (unat (DataType_code (element_type a))) @ be_bytes 4 (unat (element_count a)) @
      be_bytes 1 (unat (array_flag a))"
    from True assms(1) have c: "unat (element_count a) = length ?lens"
      and v: "length ?v = sum_list (map unat ?lens)"
      by (simp_all add: array_wf_def)
    have c': "of_nat (length ?lens) = element_count a"
      by (simp flip: c)
    have u: "unat (6 + of_nat (4 * length ?lens) :: u32) = 6 + 4 * length ?lens"
      "unat (6 + of_nat (4 * length ?lens) + sum_list ?lens :: u32) = 6 + 4 * length ?lens + length ?v"
      "unat (sum_list ?lens) = length ?v"
      using l v by (simp_all add: unat_add_u32 unat_sum_list_u32 del: of_nat_mult)
    have "read_element_lengths host (?p @ length_bytes ?lens @ ?v @ rest) (length ?lens) 6 6 0 =
      Some (Some (?lens, 6 + of_nat (4 * length ?lens), 6 + of_nat (4 * length ?lens), 0 + sum_list ?lens))"
      using l by (intro read_element_lengths_bytes) simp_all
    then show ?thesis
      using True ne u l c'
      by (simp add: defs c is_variable_def del: of_nat_mult)
  next
    case False
    with assms(1) obtain len where len: "?lens = [len]"
      and v: "length ?v = unat len * unat (element_count a)"
      by (cases ?lens) (auto simp: array_wf_def)
    have u: "unat (len * element_count a) = length ?v"
      using l v by (simp add: unat_word_ariths take_bit_nat_eq_self)
    have u': "unat (10 + len * element_count a) = 10 + length ?v"
      using l len u by (simp add: unat_add_u32)
    show ?thesis
      using False u u' len
      by (simp add: defs is_variable_def)
  qed
qed

interpretation header_wire:
  wire_format header_bytes "SerializeHeader_from_serialized_byte_array host" "\<lambda>_. True"
  by unfold_locales (rule header_from_bytes)

interpretation field_wire:
  wire_format field_bytes "SerializeField_from_serialized_byte_array host" field_wf
  by unfold_locales (rule field_from_bytes)

interpretation array_wire:
  wire_format array_bytes "SerializeArrayValue_from_serialized_byte_array host" array_wf
  by unfold_locales (rule array_from_bytes)

subsection \<open>Arrays of arithmetic elements\<close>

lemma read_elements_bytes:
  assumes "unat index = length p" "length p + s * length xs < 2 ^ 32"
    and "\<forall>x \<in> set xs. x < 256 ^ s" and "s < 2 ^ 32"
  shows "read_elements host s (p @ concat (map (be_bytes s) xs) @ r) (length xs) index = Some xs"
  using assms
proof (induction xs arbitrary: p index)
  case Nil
  then show ?case by simp
next
  case (Cons x xs)
  have "unat (index + of_nat s) = length (p @ be_bytes s x)"
    using Cons.prems by (simp add: unat_add_u32)
  then have "read_elements host s ((p @ be_bytes s x) @ concat (map (be_bytes s) xs) @ r) (length xs)
      (index + of_nat s) = Some xs"
    using Cons.prems by (intro Cons.IH) auto
  then show ?case
    using Cons.prems by (simp add: vec_simps)
qed

text \<open>The array value that the codec builds for the elements \<open>xs\<close> of the arithmetic type \<open>T\<close>.\<close>

definition array_of :: "cpp_type \<Rightarrow> nat list \<Rightarrow> SerializeArrayValue" where
  "array_of T xs =
     \<lparr>element_type = get_data_type T, element_count = of_nat (length xs),
      array_flag = SerializeArrayFlag_None, element_value_length = [of_nat (cpp_sizeof T)],
      element_value = concat (map (be_bytes (cpp_sizeof T)) xs)\<rparr>"

lemma length_concat_be_bytes [simp]: "length (concat (map (be_bytes s) xs)) = s * length xs"
  by (induction xs) auto

lemma get_data_type_valid [simp]: "DataType_valid (get_data_type T)"
  by (cases T) (simp_all add: get_data_type_def)

lemma cpp_sizeof_less: "cpp_sizeof T < 9"
  by (cases T) (simp_all add: cpp_sizeof_def)

lemma unat_of_nat_sizeof [simp]: "unat (of_nat (cpp_sizeof T) :: u32) = cpp_sizeof T"
  by (rule unat_of_nat_u32, rule less_trans [OF cpp_sizeof_less]) simp

lemma array_of_wf:
  assumes "10 + cpp_sizeof T * length xs < 2 ^ 32" "length xs < 2 ^ 32"
  shows "array_wf (array_of T xs)"
  using assms
  by (simp add: array_wf_def array_of_def is_variable_def has_flag_def flag_and_def
      SerializeArrayFlag_None_def SerializeArrayFlag_IsElementLengthVariable_def length_array_bytes)

lemma to_array_array_of:
  assumes "10 + cpp_sizeof T * length xs < 2 ^ 32" "length xs < 2 ^ 32"
    and "\<forall>x \<in> set xs. x < 256 ^ cpp_sizeof T"
    and "field_value f = array_bytes (array_of T xs)"
  shows "to_array host T f = Some xs"
proof -
  have "SerializeArrayValue_from_serialized_byte_array host (field_value f) = Some (Some (array_of T xs))"
    using array_wire.round_trip [OF array_of_wf [OF assms(1,2)]] assms
    by (simp add: length_array_bytes array_of_def)
  moreover have "read_elements host (cpp_sizeof T) (concat (map (be_bytes (cpp_sizeof T)) xs)) (length xs) 0 =
      Some xs"
    using read_elements_bytes [of 0 "[]" "cpp_sizeof T" xs host "[]"] assms
      less_trans [OF cpp_sizeof_less, of 4294967296 T]
    by simp
  ultimately show ?thesis
    using assms(2)
    by (simp add: to_array_def array_of_def has_flag_def flag_and_def
        SerializeArrayFlag_None_def SerializeArrayFlag_IsElementLengthVariable_def)
qed

section \<open>Map values\<close>

definition SerializeMapFlag_None :: u8 where "SerializeMapFlag_None = 0"
definition SerializeMapFlag_IsKeyLengthVariable :: u8 where "SerializeMapFlag_IsKeyLengthVariable = 1"
definition SerializeMapFlag_IsValueLengthVariable :: u8 where "SerializeMapFlag_IsValueLengthVariable = 2"

definition SerializeMapFlag_enum_cast :: "string \<Rightarrow> u8" where
  "SerializeMapFlag_enum_cast s =
     (if s = ''SerializeMapFlag::None'' then SerializeMapFlag_None
      else if s = ''SerializeMapFlag::IsKeyLengthVariable'' then SerializeMapFlag_IsKeyLengthVariable
      else if s = ''SerializeMapFlag::IsValueLengthVariable'' then SerializeMapFlag_IsValueLengthVariable
      else SerializeMapFlag_None)"

definition SerializeMapFlag_to_string :: "u8 \<Rightarrow> string" where
  "SerializeMapFlag_to_string flag =
     (if flag = SerializeMapFlag_None then ''SerializeMapFlag::None''
      else if flag = SerializeMapFlag_IsKeyLengthVariable then ''SerializeMapFlag::IsKeyLengthVariable''
      else if flag = SerializeMapFlag_IsValueLengthVariable then ''SerializeMapFlag::IsValueLengthVariable''
      else
        let result = [];
            result = (if has_flag flag SerializeMapFlag_IsKeyLengthVariable
                      then result @ ''SerializeMapFlag::IsKeyLengthVariable'' @ ''|'' else result);
            result = (if has_flag flag SerializeMapFlag_IsValueLengthVariable
                      then result @ ''SerializeMapFlag::IsValueLengthVariable'' @ ''|'' else result)
        in if result \<noteq> [] then butlast result else ''SerializeMapFlag::None'')"

interpretation map_flags:
  enum_names SerializeMapFlag_to_string SerializeMapFlag_enum_cast
    "\<lambda>f. f = SerializeMapFlag_None \<or> f = SerializeMapFlag_IsKeyLengthVariable \<or>
         f = SerializeMapFlag_IsValueLengthVariable"
  by unfold_locales
     (auto simp: SerializeMapFlag_to_string_def SerializeMapFlag_enum_cast_def SerializeMapFlag_None_def
        SerializeMapFlag_IsKeyLengthVariable_def SerializeMapFlag_IsValueLengthVariable_def)

record SerializeMapValue =
  map_key_type :: DataType
  map_value_type :: DataType
  map_element_count :: u32
  map_flag :: u8
  key_lengths :: "u32 list"
  value_lengths :: "u32 list"
  key_value :: bytes
  value_value :: bytes

definition SerializeMapValue_serialized_size :: "SerializeMapValue \<Rightarrow> u32" where
  "SerializeMapValue_serialized_size m = 0"

definition SerializeMapValue_from_serialized_byte_array :: "bytes \<Rightarrow> SerializeMapValue option" where
  "SerializeMapValue_from_serialized_byte_array data = None"

definition SerializeMapValue_to_serialized_byte_array :: "SerializeMapValue \<Rightarrow> bytes" where
  "SerializeMapValue_to_serialized_byte_array m = []"

definition SerializeMapValue_to_string :: "SerializeMapValue \<Rightarrow> string" where
  "SerializeMapValue_to_string m =
     ''key_type='' @ DataType_to_string (map_key_type m) @
     '' | value_type='' @ DataType_to_string (map_value_type m) @
     '' | element_count='' @ show_nat (unat (map_element_count m)) @
     '' | flag='' @ SerializeMapFlag_to_string (map_flag m) @
     '' | key_length_size='' @ show_nat (length (key_lengths m)) @
     '' | value_length_size='' @ show_nat (length (value_lengths m)) @
     '' | key_value_size='' @ show_nat (length (key_value m)) @
     '' | value_value_size='' @ show_nat (length (value_value m))"

section \<open>Properties\<close>

text \<open>A field whose lengths are those of its vectors, and whose value has the length of
  its type when the length is not sent, is read back unchanged by any other host, whatever
  follows it.\<close>

theorem field_round_trip:
  assumes "field_wf f" and "length (field_bytes f @ rest) < 2 ^ 32"
  shows "\<exists>bs. SerializeField_to_serialized_byte_array writer f = Some bs \<and>
    SerializeField_from_serialized_byte_array reader (bs @ rest) = Some (Some f)"
  using assms by (simp add: field_to_bytes field_from_bytes field_wf_def)

definition sample_field :: SerializeField where
  "sample_field =
     \<lparr>name_length = 2, field_name = [105, 100], field_type = UInt16, field_flag = 0,
      value_length = 2, field_value = [1, 2]\<rparr>"

lemma sample_field_wf: "field_wf sample_field" "length (field_bytes sample_field @ [7]) < 2 ^ 32"
  by (simp_all add: sample_field_def field_wf_def field_sized_def length_field_bytes
      get_data_type_length_def has_length_def)

theorem field_round_trip_witness:
  "\<exists>bs. SerializeField_to_serialized_byte_array LittleEndian sample_field = Some bs \<and>
    SerializeField_from_serialized_byte_array BigEndian (bs @ [7]) = Some (Some sample_field)"
  by (rule field_round_trip [OF sample_field_wf])

text \<open>An array value whose lengths fit its elements, with one length for all of them or one
  for each, is read back unchanged, whatever follows it.\<close>

theorem array_round_trip:
  assumes "array_wf a" and "length (array_bytes a @ rest) < 2 ^ 32"
  shows "\<exists>bs. SerializeArrayValue_to_serialized_byte_array writer a = Some bs \<and>
    SerializeArrayValue_from_serialized_byte_array reader (bs @ rest) = Some (Some a)"
  using assms by (simp add: array_to_bytes array_from_bytes)

definition sample_array :: SerializeArrayValue where
  "sample_array =
     \<lparr>element_type = ByteArray, element_count = 2, array_flag = 1, element_value_length = [1, 2],
      element_value = [7, 8, 9]\<rparr>"

lemma sample_array_wf: "array_wf sample_array" "length (array_bytes sample_array @ [0]) < 2 ^ 32"
  by (simp_all add: sample_array_def array_wf_def length_array_bytes is_variable_def has_flag_def
      flag_and_def SerializeArrayFlag_IsElementLengthVariable_def)

theorem array_round_trip_witness:
  "\<exists>bs. SerializeArrayValue_to_serialized_byte_array LittleEndian sample_array = Some bs \<and>
    SerializeArrayValue_from_serialized_byte_array BigEndian (bs @ [0]) = Some (Some sample_array)"
  by (rule array_round_trip [OF sample_array_wf])

text \<open>The bounds check of a field's value adds the length from the wire in 32 bits: the
  largest length passes the check on a vector of eight bytes, and the read leaves the vector.\<close>

theorem field_length_wraps:
  "SerializeField_from_serialized_byte_array host [0, 0, 12, 1, 255, 255, 255, 255] = None"
  by (simp add: SerializeField_from_serialized_byte_array_def vec_simps read_at_def be_nat_def
      SerializeField_min_serialized_byte_array_size_def has_flag_def flag_and_def
      SerializeFieldFlag_HasValueLength_def word_less_nat_alt)

end
