(* ===== verification/Codec.thy ===== *)
theory Codec
  imports Array_Value
begin

text \<open>
  The codec of messages, \<open>network/codec/serialize_codec\<close>: a message is a header followed
  by its fields. A codec holds a message under construction and a parsed one.

  The two \<open>unordered_multimap\<close>s are association lists in the order of the insertions; the
  lookup gives the field that was inserted first under a name. Where a message has several
  fields of one name the standard leaves open which of them \<open>find\<close> returns; the theorems
  on lookups are about messages with distinct names.
\<close>

section \<open>The state\<close>

record SerializeConfig =
  max_field_value_length :: u64
  max_field_name_length :: u32
  pre_allocated_size :: u32

definition default_SerializeConfig :: SerializeConfig where
  "default_SerializeConfig =
     \<lparr>max_field_value_length = 256 * 1024 * 1024, max_field_name_length = 128,
      pre_allocated_size = 4 * 1024\<rparr>"

type_synonym field_map = "(string \<times> SerializeField) list"

record SerializeCodec =
  m_serialized_config :: SerializeConfig
  m_parsed_buffer_index :: u32
  m_parsed_message_header :: SerializeHeader
  m_is_parsed_header_finished :: bool
  m_current_index :: u32
  m_serialized_byte_array_build :: bytes
  m_serialized_byte_array_parsed :: bytes
  m_serialized_data_map_build :: field_map
  m_serialized_data_map_parsed :: field_map

definition HEADER_SIZE :: u32 where "HEADER_SIZE = 16"

definition get_message_header_size :: u16 where
  "get_message_header_size = ucast HEADER_SIZE"

text \<open>
  The members of the parsed header that have no initialiser are read by \<open>is_frame_complete\<close>
  only after a header was parsed; \<open>junk\<close> stands for what they hold before.
\<close>

definition new_codec :: "SerializeHeader \<Rightarrow> SerializeConfig \<Rightarrow> SerializeCodec" where
  "new_codec junk config =
     \<lparr>m_serialized_config = config,
      m_parsed_buffer_index = 0,
      m_parsed_message_header = junk,
      m_is_parsed_header_finished = False,
      m_current_index = HEADER_SIZE,
      m_serialized_byte_array_build = replicate (unat (pre_allocated_size config)) 0,
      m_serialized_byte_array_parsed = [],
      m_serialized_data_map_build = [],
      m_serialized_data_map_parsed = []\<rparr>"

text \<open>The header of a fresh codec is never read before a header was parsed.\<close>

definition blank_header :: SerializeHeader where
  "blank_header =
     \<lparr>magic_number = 0x66666666, version = 1, message_length = 0, header_flag = 0, checksum = 0,
      field_count = 0\<rparr>"

definition start_codec :: SerializeCodec where
  "start_codec = new_codec blank_header default_SerializeConfig"

definition set_config :: "SerializeConfig \<Rightarrow> SerializeCodec \<Rightarrow> SerializeCodec" where
  "set_config config c =
     (let c = c\<lparr>m_serialized_config := config\<rparr>
      in if length (m_serialized_byte_array_build c) < unat (pre_allocated_size config)
         then c\<lparr>m_serialized_byte_array_build :=
                  resize 0 (m_serialized_byte_array_build c) (unat (pre_allocated_size config))\<rparr>
         else c)"

definition reset_build :: "SerializeCodec \<Rightarrow> SerializeCodec" where
  "reset_build c =
     c\<lparr>m_serialized_byte_array_build := [], m_serialized_data_map_build := [],
       m_current_index := HEADER_SIZE\<rparr>"

definition reset_parse :: "SerializeCodec \<Rightarrow> SerializeCodec" where
  "reset_parse c =
     c\<lparr>m_serialized_byte_array_parsed := [], m_serialized_data_map_parsed := [],
       m_parsed_buffer_index := 0, m_is_parsed_header_finished := False\<rparr>"

section \<open>Building a message\<close>

definition ensure_enough_capacity_rest_to_build :: "u32 \<Rightarrow> SerializeCodec \<Rightarrow> SerializeCodec" where
  "ensure_enough_capacity_rest_to_build size_need c =
     (let request_total_size = m_current_index c + size_need
      in if unat request_total_size > length (m_serialized_byte_array_build c)
         then c\<lparr>m_serialized_byte_array_build :=
                  resize 0 (m_serialized_byte_array_build c) (unat request_total_size)\<rparr>
         else c)"

definition serialize :: "ByteOrder \<Rightarrow> SerializeField \<Rightarrow> SerializeCodec \<Rightarrow> SerializeCodec option" where
  "serialize host f c =
     (if unat (name_length f) > unat (max_field_name_length (m_serialized_config c)) then Some c
      else if unat (value_length f) > unat (max_field_value_length (m_serialized_config c)) then Some c
      else do {
        let field_size = SerializeField_serialized_size f;
        let c = ensure_enough_capacity_rest_to_build field_size c;
        data \<leftarrow> SerializeField_to_serialized_byte_array host f;
        build \<leftarrow> blit (m_serialized_byte_array_build c) (unat (m_current_index c)) data;
        Some (c\<lparr>m_serialized_byte_array_build := build,
                m_current_index := m_current_index c + field_size,
                m_serialized_data_map_build :=
                  m_serialized_data_map_build c @ [(string_of_bytes (field_name f), f)]\<rparr>)
      })"

text \<open>A field as the typed overloads of \<open>serialize\<close> make it.\<close>

definition make_field :: "string \<Rightarrow> DataType \<Rightarrow> u8 \<Rightarrow> bytes \<Rightarrow> SerializeField" where
  "make_field data_name type flag value =
     \<lparr>name_length = of_nat (length data_name), field_name = bytes_of_string data_name,
      field_type = type, field_flag = flag, value_length = of_nat (length value),
      field_value = value\<rparr>"

text \<open>\<open>serialize(const T\&, name)\<close> of an arithmetic \<open>T\<close> and \<open>serialize(string, name)\<close>.\<close>

definition value_field :: "ByteOrder \<Rightarrow> cpp_type \<Rightarrow> nat \<Rightarrow> string \<Rightarrow> SerializeField" where
  "value_field host T x data_name =
     make_field data_name (get_data_type T) SerializeFieldFlag_None (to_byte_array host (cpp_sizeof T) x)"

definition serialize_value ::
  "ByteOrder \<Rightarrow> cpp_type \<Rightarrow> nat \<Rightarrow> string \<Rightarrow> SerializeCodec \<Rightarrow> SerializeCodec option" where
  "serialize_value host T x data_name c = serialize host (value_field host T x data_name) c"

definition string_field :: "string \<Rightarrow> string \<Rightarrow> SerializeField" where
  "string_field data data_name =
     make_field data_name String SerializeFieldFlag_HasValueLength (bytes_of_string data)"

definition serialize_string ::
  "ByteOrder \<Rightarrow> string \<Rightarrow> string \<Rightarrow> SerializeCodec \<Rightarrow> SerializeCodec option" where
  "serialize_string host data data_name c = serialize host (string_field data data_name) c"

text \<open>
  \<open>serialize(const T*, size, name)\<close>: the elements that \<open>data\<close> points to, or \<open>None\<close> for a null
  pointer. The loop over the elements fills the value of the array.
\<close>

fun write_elements :: "ByteOrder \<Rightarrow> nat \<Rightarrow> nat list \<Rightarrow> bytes \<Rightarrow> u32 \<Rightarrow> bytes option" where
  "write_elements host s [] data index = Some data"
| "write_elements host s (x # xs) data index =
     do {
       data \<leftarrow> store_network host s data index x;
       write_elements host s xs data (index + of_nat s)
     }"

definition serialize_ptr ::
  "ByteOrder \<Rightarrow> cpp_type \<Rightarrow> nat list option \<Rightarrow> u32 \<Rightarrow> string \<Rightarrow> SerializeCodec \<Rightarrow> SerializeCodec option" where
  "serialize_ptr host T data count data_name c =
     (case data of
        None \<Rightarrow> Some c
      | Some elements \<Rightarrow>
          if count = 0 then Some c
          else do {
            xs \<leftarrow> read_at elements 0 (unat count);
            let (type, flag) =
              (if count > 1
               then ((if T = T_char then String else Array), SerializeFieldFlag_HasValueLength)
               else (get_data_type T, SerializeFieldFlag_None));
            value \<leftarrow>
              (if type = Array
               then do {
                 element_value \<leftarrow>
                   write_elements host (cpp_sizeof T) xs (replicate (cpp_sizeof T * unat count) 0) 0;
                 SerializeArrayValue_to_serialized_byte_array host
                   \<lparr>element_type = get_data_type T, element_count = count,
                    array_flag = SerializeArrayFlag_None,
                    element_value_length = [of_nat (cpp_sizeof T)],
                    element_value = element_value\<rparr>
               }
               else Some (to_byte_array_ptr host (cpp_sizeof T) (Some xs) (unat count)));
            serialize host (make_field data_name type flag value) c
          })"

text \<open>\<open>serialize(const std::vector<T>\&, name)\<close>; the size is narrowed to \<open>uint32_t\<close>.\<close>

definition serialize_vector ::
  "ByteOrder \<Rightarrow> cpp_type \<Rightarrow> nat list \<Rightarrow> string \<Rightarrow> SerializeCodec \<Rightarrow> SerializeCodec option" where
  "serialize_vector host T data data_name c =
     serialize_ptr host T (if data = [] then None else Some data) (of_nat (length data)) data_name c"

text \<open>The overloads for dictionaries and maps are not implemented in the code.\<close>

definition serialize_dictionary :: "string \<Rightarrow> 'd \<Rightarrow> SerializeCodec \<Rightarrow> SerializeCodec" where
  "serialize_dictionary data_name data c = c"

definition serialize_map :: "('k \<times> 'v) list \<Rightarrow> string \<Rightarrow> SerializeCodec \<Rightarrow> SerializeCodec" where
  "serialize_map data data_name c = c"

definition finalize_message_header :: "ByteOrder \<Rightarrow> SerializeCodec \<Rightarrow> SerializeCodec option" where
  "finalize_message_header host c =
     do {
       let data = resize 0 (m_serialized_byte_array_build c) (unat (m_current_index c));
       let body_length = m_current_index c - HEADER_SIZE;
       let count = (of_nat (length (m_serialized_data_map_build c)) :: u16);
       let index = 0;
       data \<leftarrow> store_network host 4 data index 0x66666666;
       let index = index + 4;
       data \<leftarrow> store_network host 1 data index 1;
       let index = index + 1;
       data \<leftarrow> store_network host 4 data index (unat body_length);
       let index = index + 4;
       data \<leftarrow> store_network host 1 data index (unat SerializeFlag_None);
       let index = index + 1;
       data \<leftarrow> store_network host 4 data index 0;
       let index = index + 4;
       data \<leftarrow> store_network host 2 data index (unat count);
       Some (c\<lparr>m_serialized_byte_array_build := data\<rparr>)
     }"

definition get_serialized_data_vector_build ::
  "ByteOrder \<Rightarrow> SerializeCodec \<Rightarrow> (bytes \<times> SerializeCodec) option" where
  "get_serialized_data_vector_build host c =
     do {
       c \<leftarrow> finalize_message_header host c;
       Some (m_serialized_byte_array_build c, c)
     }"

section \<open>Parsing a message\<close>

definition get_serialized_data_vector_parsed :: "SerializeCodec \<Rightarrow> bytes" where
  "get_serialized_data_vector_parsed c = m_serialized_byte_array_parsed c"

definition get_message_header :: "ByteOrder \<Rightarrow> bytes \<Rightarrow> SerializeHeader option option" where
  "get_message_header host data =
     (if length data < unat HEADER_SIZE then Some None
      else SerializeHeader_from_serialized_byte_array host (take (unat HEADER_SIZE) data))"

text \<open>
  The body of the loop of \<open>deserialize\<close>: one field at the cursor, and the cursor behind it.
  Nothing checks that the field lies within the message.
\<close>

definition parse_field_at :: "ByteOrder \<Rightarrow> bytes \<Rightarrow> u32 \<Rightarrow> (SerializeField \<times> u32) option" where
  "parse_field_at host data current_index =
     do {
       n_len \<leftarrow> map_option of_nat (load_local host 2 data current_index);
       let current_index = current_index + 2;
       name \<leftarrow> read_at data (unat current_index) (unat n_len);
       let current_index = current_index + ucast (n_len :: u16);
       type \<leftarrow> map_option (\<lambda>x. DataType_of_code (of_nat x)) (load_local host 1 data current_index);
       let current_index = current_index + 1;
       flag \<leftarrow> map_option of_nat (load_local host 1 data current_index);
       let current_index = current_index + 1;
       let has_length = has_flag flag SerializeFieldFlag_HasValueLength;
       v_len \<leftarrow> (if has_length then map_option of_nat (load_local host 4 data current_index)
                 else Some (get_data_type_length type));
       let current_index = (if has_length then current_index + 4 else current_index);
       raw \<leftarrow> read_at data (unat current_index) (unat v_len);
       let value = (if is_raw_type type then raw
                    else map of_nat (to_local_byte_order_array host 1 (unat v_len) raw));
       Some (\<lparr>name_length = n_len, field_name = name, field_type = type, field_flag = flag,
              value_length = v_len, field_value = value\<rparr>, current_index + v_len)
     }"

definition deserialize :: "ByteOrder \<Rightarrow> bytes \<Rightarrow> SerializeCodec \<Rightarrow> SerializeCodec option" where
  "deserialize host data c =
     do {
       header_optional \<leftarrow> get_message_header host data;
       (case header_optional of
          None \<Rightarrow> Some c
        | Some header \<Rightarrow>
            if unat (message_length header + HEADER_SIZE) > length data then Some c
            else do {
              let c = c\<lparr>m_serialized_byte_array_parsed := data\<rparr>;
              (fields, _) \<leftarrow> parse_many (parse_field_at host) (unat (field_count header)) data HEADER_SIZE;
              Some (c\<lparr>m_serialized_data_map_parsed := m_serialized_data_map_parsed c @
                        map (\<lambda>f. (string_of_bytes (field_name f), f)) fields\<rparr>)
            })
     }"

definition deserialize_string :: "ByteOrder \<Rightarrow> string \<Rightarrow> SerializeCodec \<Rightarrow> SerializeCodec option" where
  "deserialize_string host data c = deserialize host (bytes_of_string data) c"

definition deserialize_internal :: "SerializeCodec \<Rightarrow> SerializeCodec" where
  "deserialize_internal c = c"

text \<open>The received blocks, byte by byte, behind those that were added before.\<close>

fun put_bytes :: "bytes \<Rightarrow> bytes \<Rightarrow> u32 \<Rightarrow> (bytes \<times> u32) option" where
  "put_bytes [] buffer index = Some (buffer, index)"
| "put_bytes (b # bs) buffer index =
     do {
       buffer \<leftarrow> blit buffer (unat index) [b];
       put_bytes bs buffer (index + 1)
     }"

definition add_data_block_to_parse :: "bytes \<Rightarrow> SerializeCodec \<Rightarrow> SerializeCodec option" where
  "add_data_block_to_parse data c =
     do {
       let size_need = (of_nat (unat (m_parsed_buffer_index c) + length data) :: u32);
       let buffer = (if unat size_need > length (m_serialized_byte_array_parsed c)
                     then resize 0 (m_serialized_byte_array_parsed c) (unat size_need)
                     else m_serialized_byte_array_parsed c);
       (buffer, index) \<leftarrow> put_bytes data buffer (m_parsed_buffer_index c);
       Some (c\<lparr>m_serialized_byte_array_parsed := buffer, m_parsed_buffer_index := index\<rparr>)
     }"

definition is_frame_complete :: "ByteOrder \<Rightarrow> SerializeCodec \<Rightarrow> (bool \<times> SerializeCodec) option" where
  "is_frame_complete host c =
     (if m_parsed_buffer_index c < HEADER_SIZE then Some (False, c)
      else do {
        parsed \<leftarrow>
          (if \<not> m_is_parsed_header_finished c
           then do {
             header_optional \<leftarrow> get_message_header host (m_serialized_byte_array_parsed c);
             (case header_optional of
                None \<Rightarrow> Some None
              | Some header \<Rightarrow>
                  Some (Some (c\<lparr>m_parsed_message_header := header,
                                m_is_parsed_header_finished := True\<rparr>)))
           }
           else Some (Some c));
        (case parsed of
           None \<Rightarrow> Some (False, reset_parse c)
         | Some c \<Rightarrow>
             if m_parsed_buffer_index c < message_length (m_parsed_message_header c) + HEADER_SIZE
             then Some (False, c)
             else Some (True, c))
      })"

definition get_parsed_field :: "string \<Rightarrow> SerializeCodec \<Rightarrow> SerializeField option" where
  "get_parsed_field key c = map_of (m_serialized_data_map_parsed c) key"

definition get_parsed_data_map :: "SerializeCodec \<Rightarrow> field_map" where
  "get_parsed_data_map c = m_serialized_data_map_parsed c"

section \<open>Values of fields\<close>

definition to_value :: "ByteOrder \<Rightarrow> cpp_type \<Rightarrow> SerializeField \<Rightarrow> nat option" where
  "to_value host T f =
     (let dest_type = get_data_type T
      in if field_type f \<noteq> dest_type then None
         else try_cast host (cpp_sizeof T) (field_value f))"

text \<open>
  \<open>to_string(field)\<close>. For the arithmetic types the code hands the pointer to the value to
  the generic \<open>to_string\<close> of the library \<open>stringify\<close>, the parameter \<open>show_pointer\<close>.
\<close>

definition SerializeField_as_string :: "(DataType \<Rightarrow> bytes \<Rightarrow> string) \<Rightarrow> SerializeField \<Rightarrow> string" where
  "SerializeField_as_string show_pointer f =
     (if field_type f = String then string_of_bytes (field_value f)
      else if field_type f \<in> {UInt8, Int8, UInt16, Int16, UInt32, Int32, UInt64, Int64, Float, Double, Bool}
      then show_pointer (field_type f) (field_value f)
      else DataType_to_string (field_type f))"

definition to_dictionary :: "SerializeField \<Rightarrow> bytes" where
  "to_dictionary f = (if field_type f \<noteq> Dictionary then [] else field_value f)"

section \<open>The message that is built\<close>

definition body_bytes :: "SerializeField list \<Rightarrow> bytes" where
  "body_bytes fs = concat (map field_bytes fs)"

definition message_header :: "SerializeField list \<Rightarrow> SerializeHeader" where
  "message_header fs =
     \<lparr>magic_number = 0x66666666, version = 1, message_length = of_nat (length (body_bytes fs)),
      header_flag = SerializeFlag_None, checksum = 0, field_count = of_nat (length fs)\<rparr>"

definition message_bytes :: "SerializeField list \<Rightarrow> bytes" where
  "message_bytes fs = header_bytes (message_header fs) @ body_bytes fs"

definition built_fields :: "SerializeCodec \<Rightarrow> SerializeField list" where
  "built_fields c = map snd (m_serialized_data_map_build c)"

text \<open>The fields that were serialized so far stand behind the place of the header.\<close>

definition build_ok :: "SerializeCodec \<Rightarrow> bool" where
  "build_ok c \<longleftrightarrow>
     (let body = body_bytes (built_fields c)
      in 16 + length body < 2 ^ 32 \<and> unat (m_current_index c) = 16 + length body \<and>
         take (length body) (drop 16 (m_serialized_byte_array_build c)) = body)"

definition accepts :: "SerializeConfig \<Rightarrow> SerializeField \<Rightarrow> bool" where
  "accepts config f \<longleftrightarrow>
     unat (name_length f) \<le> unat (max_field_name_length config) \<and>
     unat (value_length f) \<le> unat (max_field_value_length config)"

lemma body_bytes_append [simp]: "body_bytes (fs @ gs) = body_bytes fs @ body_bytes gs"
  by (simp add: body_bytes_def)

lemma body_bytes_Nil [simp]: "body_bytes [] = []"
  by (simp add: body_bytes_def)

lemma body_bytes_Cons [simp]: "body_bytes (f # fs) = field_bytes f @ body_bytes fs"
  by (simp add: body_bytes_def)

lemma length_message_bytes: "length (message_bytes fs) = 16 + length (body_bytes fs)"
  by (simp add: message_bytes_def)

lemma build_ok_new [simp]: "build_ok (new_codec junk config)"
  by (simp add: build_ok_def new_codec_def built_fields_def HEADER_SIZE_def)

lemma new_codec_sel [simp]:
  "built_fields (new_codec junk config) = []" "m_serialized_config (new_codec junk config) = config"
  "m_serialized_data_map_parsed (new_codec junk config) = []"
  by (simp_all add: new_codec_def built_fields_def)

lemma start_codec_sel [simp]:
  "built_fields start_codec = []" "m_serialized_config start_codec = default_SerializeConfig"
  "m_serialized_data_map_parsed start_codec = []" "build_ok start_codec"
  by (simp_all add: start_codec_def)

lemma build_ok_reset [simp]: "build_ok (reset_build c)"
  by (simp add: build_ok_def reset_build_def built_fields_def HEADER_SIZE_def)

lemma take_drop_inside:
  assumes "take (length x) (drop k data) = x"
  shows "x = [] \<or> k + length x \<le> length data"
proof -
  have "length x = min (length x) (length data - k)"
    using arg_cong [OF assms, of length] by simp
  then show ?thesis by auto
qed

lemma take_drop_resize:
  assumes "take (length x) (drop k data) = x" "k + length x \<le> m"
  shows "take (length x) (drop k (resize z data m)) = x"
proof (cases "x = []")
  case False
  with take_drop_inside [OF assms(1)] have "k + length x \<le> length data" by simp
  with assms show ?thesis
    by (auto simp: resize_def drop_take min_def)
qed simp

lemma build_ok_set_config [simp]:
  assumes "build_ok c" shows "build_ok (set_config config c)"
proof (cases "body_bytes (built_fields c) = []")
  case True
  with assms show ?thesis
    by (auto simp: build_ok_def set_config_def built_fields_def Let_def)
next
  case False
  with assms take_drop_inside [of "body_bytes (built_fields c)" 16 "m_serialized_byte_array_build c"]
  have "16 + length (body_bytes (built_fields c)) \<le> length (m_serialized_byte_array_build c)"
    by (simp add: build_ok_def Let_def)
  with assms show ?thesis
    by (auto simp: build_ok_def set_config_def built_fields_def Let_def take_drop_resize)
qed

lemma serialize_refused: "\<not> accepts (m_serialized_config c) f \<Longrightarrow> serialize host f c = Some c"
  by (auto simp: serialize_def accepts_def)

text \<open>What \<open>serialize\<close> does with a field it accepts.\<close>

lemma serialize_accepted:
  assumes ok: "build_ok c" and acc: "accepts (m_serialized_config c) f" and f: "field_sized f"
    and room: "16 + length (body_bytes (built_fields c)) + length (field_bytes f) < 2 ^ 32"
  obtains c' where "serialize host f c = Some c'" and "build_ok c'"
    and "built_fields c' = built_fields c @ [f]"
    and "m_serialized_config c' = m_serialized_config c"
proof -
  let ?body = "body_bytes (built_fields c)" and ?i = "m_current_index c"
  let ?c1 = "ensure_enough_capacity_rest_to_build (SerializeField_serialized_size f) c"
  have i: "unat ?i = 16 + length ?body"
    and body: "take (length ?body) (drop 16 (m_serialized_byte_array_build c)) = ?body"
    using ok by (simp_all add: build_ok_def Let_def)
  have size: "unat (SerializeField_serialized_size f) = length (field_bytes f)"
    using room by (intro field_serialized_size) simp
  then have next_i: "unat (?i + SerializeField_serialized_size f) = unat ?i + length (field_bytes f)"
    using room i by (simp add: unat_add_u32)
  have body1: "take (length ?body) (drop 16 (m_serialized_byte_array_build ?c1)) = ?body"
    using body i next_i
    by (auto simp: ensure_enough_capacity_rest_to_build_def Let_def take_drop_resize)
  have long: "unat ?i + length (field_bytes f) \<le> length (m_serialized_byte_array_build ?c1)"
    using next_i by (auto simp: ensure_enough_capacity_rest_to_build_def Let_def)
  define build where "build = take (unat ?i) (m_serialized_byte_array_build ?c1) @ field_bytes f @
      drop (unat ?i + length (field_bytes f)) (m_serialized_byte_array_build ?c1)"
  define c' where "c' = ?c1\<lparr>m_serialized_byte_array_build := build,
      m_current_index := ?i + SerializeField_serialized_size f,
      m_serialized_data_map_build := m_serialized_data_map_build c @ [(string_of_bytes (field_name f), f)]\<rparr>"
  have same: "m_current_index ?c1 = ?i" "m_serialized_data_map_build ?c1 = m_serialized_data_map_build c"
    "m_serialized_config ?c1 = m_serialized_config c"
    by (simp_all add: ensure_enough_capacity_rest_to_build_def Let_def)
  have "drop 16 build = ?body @ field_bytes f @
      drop (unat ?i + length (field_bytes f)) (m_serialized_byte_array_build ?c1)"
    using long i body1 by (simp add: build_def drop_take)
  then have "build_ok c'"
    using next_i i room by (simp add: build_ok_def c'_def built_fields_def Let_def)
  moreover have "serialize host f c = Some c'"
    using acc long
    by (simp add: serialize_def accepts_def field_to_bytes [OF f] blit_def same Let_def c'_def build_def)
  moreover have "built_fields c' = built_fields c @ [f]" "m_serialized_config c' = m_serialized_config c"
    by (simp_all add: c'_def built_fields_def same)
  ultimately show thesis by (intro that)
qed

lemma blit_start: "length src \<le> length r \<Longrightarrow> blit r 0 src = Some (src @ drop (length src) r)"
  by (simp add: blit_def)

text \<open>What \<open>get_serialized_data_vector_build\<close> gives: the message, and a state that can go on.\<close>

lemma finalize_message:
  assumes ok: "build_ok c"
  obtains c' where "get_serialized_data_vector_build host c = Some (message_bytes (built_fields c), c')"
    and "build_ok c'" and "built_fields c' = built_fields c"
    and "m_serialized_config c' = m_serialized_config c"
proof -
  let ?body = "body_bytes (built_fields c)" and ?i = "m_current_index c"
  let ?data = "resize 0 (m_serialized_byte_array_build c) (unat ?i)"
  have i: "unat ?i = 16 + length ?body" and small: "16 + length ?body < 2 ^ 32"
    and body: "take (length ?body) (drop 16 (m_serialized_byte_array_build c)) = ?body"
    using ok by (simp_all add: build_ok_def Let_def)
  have "take (length ?body) (drop 16 ?data) = ?body"
    using body i by (intro take_drop_resize) simp_all
  then have "drop 16 ?data = ?body"
    using i by simp
  then obtain z where data: "?data = z @ ?body" and z: "length z = 16"
    using i by (metis append_take_drop_id add_diff_cancel_right' length_append length_resize)
  have "unat (of_nat (length ?body) + 16 :: u32) = unat ?i"
    using i small by (simp add: unat_add_u32)
  then have len: "?i - HEADER_SIZE = of_nat (length ?body)"
    by (metis HEADER_SIZE_def add_diff_cancel_right' word_unat_eq_iff)
  have count: "length (m_serialized_data_map_build c) = length (built_fields c)"
    by (simp add: built_fields_def)
  define c' where "c' = c\<lparr>m_serialized_byte_array_build := message_bytes (built_fields c)\<rparr>"
  have "finalize_message_header host c = Some c'"
    using z unfolding finalize_message_header_def data len
    by (simp add: c'_def message_bytes_def message_header_def header_bytes_def vec_simps blit_start
        count Let_def)
  then have "get_serialized_data_vector_build host c = Some (message_bytes (built_fields c), c')"
    by (simp add: get_serialized_data_vector_build_def c'_def)
  moreover have "build_ok c'"
    using i small by (simp add: build_ok_def c'_def built_fields_def message_bytes_def Let_def)
  ultimately show thesis
    by (rule that) (simp_all add: c'_def built_fields_def)
qed

section \<open>The message that is parsed\<close>

lemma object_value_single: "object_value host [b] = unat b"
  by (simp add: object_value_def be_nat_def)

lemma local_byte_array [vec_simps]:
  assumes "length raw = n"
  shows "map of_nat (to_local_byte_order_array host (Suc 0) n raw) = raw"
proof -
  have "object_value host (take (Suc 0) (drop i raw)) = unat (raw ! i)" if "i < n" for i
    using that assms by (simp add: take_Suc_conv_app_nth object_value_single)
  moreover have "object_value host (be_bytes (Suc 0) (unat b)) = unat b" for b :: u8
    by (simp only: be_bytes_1 object_value_single)
  ultimately show ?thesis
    using assms
    by (intro nth_equalityI)
       (simp_all add: to_local_byte_order_array_def elements_of_def convert_byte_order_ref_be)
qed

lemma parse_field_at_bytes:
  assumes wf: "field_wf f" and i: "unat i = length p" and l: "length (p @ field_bytes f @ r) < 2 ^ 32"
  shows "parse_field_at host (p @ field_bytes f @ r) i = Some (f, of_nat (length (p @ field_bytes f)))"
proof -
  have n: "length (field_name f) = unat (name_length f)"
    and v: "length (field_value f) = unat (value_length f)"
    and t: "DataType_of_code (DataType_code (field_type f)) = field_type f"
    using wf by (simp_all add: field_wf_def field_sized_def)
  have b: "length p + 4 + unat (name_length f) + (if has_length f then 4 else 0) + unat (value_length f)
      < 4294967296"
    using l by (simp add: length_field_bytes n v)
  have same: "(if is_raw_type t then field_value f
      else map of_nat (to_local_byte_order_array host (Suc 0) (unat (value_length f)) (field_value f)))
      = field_value f" for t
    by (simp add: v vec_simps)
  have p: "of_nat (length p) = i"
    by (simp flip: i)
  note defs = parse_field_at_def field_bytes_def Let_def vec_simps unat_add_u32 n v t i p same
  show ?thesis
  proof (cases "has_length f")
    case True
    with b show ?thesis
      by (simp add: defs has_length_def)
  next
    case False
    moreover have "get_data_type_length (field_type f) = value_length f"
      using False wf by (simp add: field_wf_def)
    ultimately show ?thesis
      using b by (simp add: defs has_length_def)
  qed
qed

interpretation field_cursor: cursor_format field_bytes "parse_field_at host" field_wf
  by unfold_locales (rule parse_field_at_bytes)

definition message_wf :: "SerializeField list \<Rightarrow> bool" where
  "message_wf fs \<longleftrightarrow>
     length fs < 2 ^ 16 \<and> 16 + length (body_bytes fs) < 2 ^ 32 \<and> (\<forall>f \<in> set fs. field_wf f)"

definition named_field :: "SerializeField \<Rightarrow> string \<times> SerializeField" where
  "named_field f = (string_of_bytes (field_name f), f)"

lemma get_message_header_message [simp]:
  "get_message_header host (message_bytes fs @ rest) = Some (Some (message_header fs))"
  using header_from_bytes [of host "message_header fs" "[]"]
  by (simp add: get_message_header_def message_bytes_def HEADER_SIZE_def)

lemma deserialize_message:
  assumes "message_wf fs" and "length (message_bytes fs @ rest) < 2 ^ 32"
  shows "deserialize host (message_bytes fs @ rest) c =
    Some (c\<lparr>m_serialized_byte_array_parsed := message_bytes fs @ rest,
            m_serialized_data_map_parsed := m_serialized_data_map_parsed c @ map named_field fs\<rparr>)"
proof -
  let ?data = "message_bytes fs @ rest"
  have small: "16 + length (body_bytes fs) < 2 ^ 32" and count: "length fs < 65536"
    using assms(1) by (simp_all add: message_wf_def)
  have "unat (message_length (message_header fs) + HEADER_SIZE) = 16 + length (body_bytes fs)"
    using small by (simp add: message_header_def HEADER_SIZE_def unat_add_u32)
  then have "\<not> unat (message_length (message_header fs) + HEADER_SIZE) > length ?data"
    by (simp add: length_message_bytes)
  moreover have "parse_many (parse_field_at host) (length fs)
      (header_bytes (message_header fs) @ concat (map field_bytes fs) @ rest) HEADER_SIZE =
    Some (fs, of_nat (length (header_bytes (message_header fs) @ concat (map field_bytes fs))))"
    using assms
    by (intro field_cursor.parse_many_bytes)
       (simp_all add: message_wf_def HEADER_SIZE_def message_bytes_def body_bytes_def)
  moreover have "unat (field_count (message_header fs)) = length fs"
    using count by (simp add: message_header_def)
  ultimately show ?thesis
    using get_message_header_message [of host fs rest]
    by (simp add: deserialize_def message_bytes_def body_bytes_def named_field_def Let_def
        comp_def del: of_nat_add get_message_header_message)
qed

lemma deserialize_short: "length data < 16 \<Longrightarrow> deserialize host data c = Some c"
  by (simp add: deserialize_def get_message_header_def HEADER_SIZE_def)

section \<open>Sequences of fields\<close>

definition room_for :: "SerializeCodec \<Rightarrow> SerializeField list \<Rightarrow> bool" where
  "room_for c fs \<longleftrightarrow>
     16 + length (body_bytes (built_fields c @ fs)) < 2 ^ 32 \<and>
     (\<forall>f \<in> set fs. field_sized f \<and> accepts (m_serialized_config c) f)"

lemma serialize_all:
  assumes "build_ok c" and "room_for c fs"
  obtains c' where "fold_option (serialize host) fs c = Some c'" and "build_ok c'"
    and "built_fields c' = built_fields c @ fs"
    and "m_serialized_config c' = m_serialized_config c"
proof -
  have "\<exists>c'. fold_option (serialize host) fs c = Some c' \<and> build_ok c' \<and>
      built_fields c' = built_fields c @ fs \<and> m_serialized_config c' = m_serialized_config c"
    using assms
  proof (induction fs arbitrary: c)
    case Nil
    then show ?case by simp
  next
    case (Cons f fs)
    have "accepts (m_serialized_config c) f" "field_sized f"
      "16 + length (body_bytes (built_fields c)) + length (field_bytes f) < 2 ^ 32"
      using Cons.prems(2) by (simp_all add: room_for_def)
    then obtain c1 where c1: "serialize host f c = Some c1" "build_ok c1"
      "built_fields c1 = built_fields c @ [f]" "m_serialized_config c1 = m_serialized_config c"
      using serialize_accepted [OF Cons.prems(1)] by blast
    moreover have "room_for c1 fs"
      using Cons.prems(2) c1 by (simp add: room_for_def)
    ultimately show ?case
      using Cons.IH [of c1] by auto
  qed
  then show thesis using that by blast
qed

lemma fold_refused:
  "serialize host f c = Some c' \<Longrightarrow> \<not> accepts (m_serialized_config c) f \<Longrightarrow> c' = c"
  by (simp add: serialize_refused)

section \<open>The fields of typed values\<close>

text \<open>The field of a vector of more than one element, and the field of any vector but the empty one.\<close>

definition array_field :: "cpp_type \<Rightarrow> nat list \<Rightarrow> string \<Rightarrow> SerializeField" where
  "array_field T xs data_name =
     make_field data_name Array SerializeFieldFlag_HasValueLength (array_bytes (array_of T xs))"

definition vector_field :: "ByteOrder \<Rightarrow> cpp_type \<Rightarrow> nat list \<Rightarrow> string \<Rightarrow> SerializeField" where
  "vector_field host T xs data_name =
     (if length xs = 1 then value_field host T (hd xs) data_name else array_field T xs data_name)"

lemma write_elements_bytes:
  assumes "unat index = length p" "length p + s * length xs < 2 ^ 32" "s < 2 ^ 32"
  shows "write_elements host s xs (p @ replicate (s * length xs) 0) index =
    Some (p @ concat (map (be_bytes s) xs))"
  using assms
proof (induction xs arbitrary: p index)
  case Nil
  then show ?case by simp
next
  case (Cons x xs)
  have "unat (index + of_nat s) = length (p @ be_bytes s x)"
    using Cons.prems by (simp add: unat_add_u32)
  then have "write_elements host s xs ((p @ be_bytes s x) @ replicate (s * length xs) 0) (index + of_nat s) =
      Some ((p @ be_bytes s x) @ concat (map (be_bytes s) xs))"
    using Cons.prems by (intro Cons.IH) auto
  then show ?case
    using Cons.prems by (simp add: vec_simps)
qed

lemma serialize_vector_empty [simp]: "serialize_vector host T [] data_name c = Some c"
  by (simp add: serialize_vector_def serialize_ptr_def)

lemma get_data_type_not_Array [simp]: "get_data_type T \<noteq> Array"
  by (cases T) (simp_all add: get_data_type_def)

lemma serialize_vector_field:
  assumes "xs \<noteq> []" and "T \<noteq> T_char"
    and "length xs < 2 ^ 32" and "10 + cpp_sizeof T * length xs < 2 ^ 32"
  shows "serialize_vector host T xs data_name c = serialize host (vector_field host T xs data_name) c"
proof (cases "length xs = 1")
  case True
  then obtain x where "xs = [x]" by (auto simp: length_Suc_conv)
  then show ?thesis
    by (simp add: serialize_vector_def serialize_ptr_def vector_field_def value_field_def
        vec_simps to_byte_array_ptr_def to_byte_array_def)
next
  case False
  have n: "unat (of_nat (length xs) :: u32) = length xs"
    using assms(3) by simp
  with assms(1) False have more: "\<not> of_nat (length xs) = (0 :: u32)" "(1 :: u32) < of_nat (length xs)"
    by (auto simp: word_less_nat_alt simp flip: unat_eq_0) (metis One_nat_def Suc_lessI length_greater_0_conv)
  have w: "write_elements host (cpp_sizeof T) xs (replicate (cpp_sizeof T * length xs) 0) 0 =
      Some (concat (map (be_bytes (cpp_sizeof T)) xs))"
    using write_elements_bytes [of 0 "[]" "cpp_sizeof T" xs host] assms
      less_trans [OF cpp_sizeof_less, of 4294967296 T]
    by simp
  have "SerializeArrayValue_to_serialized_byte_array host (array_of T xs) = Some (array_bytes (array_of T xs))"
    by (intro array_to_bytes array_of_wf assms)
  then show ?thesis
    using False more w assms n
    by (simp add: serialize_vector_def serialize_ptr_def vector_field_def array_field_def
        vec_simps array_of_def)
qed

lemma make_field_sel [simp]:
  "name_length (make_field n t fl v) = of_nat (length n)" "field_name (make_field n t fl v) = bytes_of_string n"
  "field_type (make_field n t fl v) = t" "field_flag (make_field n t fl v) = fl"
  "value_length (make_field n t fl v) = of_nat (length v)" "field_value (make_field n t fl v) = v"
  by (simp_all add: make_field_def)

lemma flags_of_length [simp]:
  "has_flag SerializeFieldFlag_HasValueLength SerializeFieldFlag_HasValueLength"
  "\<not> has_flag SerializeFieldFlag_None SerializeFieldFlag_HasValueLength"
  by (simp_all add: has_flag_def flag_and_def SerializeFieldFlag_HasValueLength_def SerializeFieldFlag_None_def)

lemma make_field_sized:
  assumes "length n < 65536" and "8 + length n + length v < 2 ^ 32"
  shows "field_sized (make_field n t fl v)"
  using assms by (simp add: field_sized_def length_field_bytes)

lemma make_field_wf:
  assumes "length n < 65536" and "8 + length n + length v < 2 ^ 32" and "DataType_valid t"
    and "fl = SerializeFieldFlag_HasValueLength \<or>
      fl = SerializeFieldFlag_None \<and> get_data_type_length t = of_nat (length v)"
  shows "field_wf (make_field n t fl v)"
  using assms by (auto simp: field_wf_def make_field_sized has_length_def)

lemma cpp_sizeof_bytes: "length n < 65536 \<Longrightarrow> length n + cpp_sizeof T < 4294967288"
  using cpp_sizeof_less [of T] by simp

lemma value_field_wf:
  "is_number_type T \<Longrightarrow> length n < 65536 \<Longrightarrow> field_wf (value_field host T x n)"
  unfolding value_field_def
  by (rule make_field_wf) (simp_all add: to_byte_array_def get_data_type_length_number cpp_sizeof_bytes
      del: of_nat_numeral)

lemma value_field_sized: "length n < 65536 \<Longrightarrow> field_sized (value_field host T x n)"
  unfolding value_field_def
  by (rule make_field_sized) (simp_all add: to_byte_array_def cpp_sizeof_bytes)

lemma string_field_wf:
  "length n < 65536 \<Longrightarrow> 8 + length n + length s < 2 ^ 32 \<Longrightarrow> field_wf (string_field s n)"
  unfolding string_field_def by (rule make_field_wf) simp_all

lemma array_field_wf:
  "length n < 65536 \<Longrightarrow> 18 + length n + cpp_sizeof T * length xs < 2 ^ 32 \<Longrightarrow> field_wf (array_field T xs n)"
  unfolding array_field_def by (rule make_field_wf) (simp_all add: length_array_bytes array_of_def)

lemma named_make_field [simp]: "named_field (make_field n t fl v) = (n, make_field n t fl v)"
  by (simp add: named_field_def)

lemma named_typed_fields [simp]:
  "named_field (value_field host T x n) = (n, value_field host T x n)"
  "named_field (string_field s n) = (n, string_field s n)"
  "named_field (array_field T xs n) = (n, array_field T xs n)"
  "named_field (vector_field host T xs n) = (n, vector_field host T xs n)"
  by (simp_all add: value_field_def string_field_def array_field_def vector_field_def)

lemma length_field_bytes_typed:
  "length (field_bytes (value_field host T x n)) = 4 + length n + cpp_sizeof T"
  "length (field_bytes (string_field s n)) = 8 + length n + length s"
  "length (field_bytes (array_field T xs n)) = 18 + length n + cpp_sizeof T * length xs"
  by (simp_all add: length_field_bytes has_length_def value_field_def string_field_def array_field_def
      to_byte_array_def length_array_bytes array_of_def)

section \<open>Reading the values back\<close>

lemma to_value_value_field:
  "to_value host T (value_field host T x n) = Some (x mod 256 ^ cpp_sizeof T)"
  using try_cast_to_byte_array [of host "cpp_sizeof T" x "[]"]
  by (simp add: to_value_def value_field_def)

lemma to_value_other_type:
  "get_data_type T \<noteq> get_data_type U \<Longrightarrow> to_value host T (value_field host' U x n) = None"
  by (simp add: to_value_def value_field_def)

lemma string_of_string_field: "SerializeField_as_string sp (string_field s n) = s"
  by (simp add: SerializeField_as_string_def string_field_def)

lemma to_array_array_field:
  assumes "10 + cpp_sizeof T * length xs < 2 ^ 32" "length xs < 2 ^ 32"
    and "\<forall>x \<in> set xs. x < 256 ^ cpp_sizeof T"
  shows "to_array host T (array_field T xs n) = Some xs"
  using assms by (intro to_array_array_of) (simp_all add: array_field_def)

text \<open>
  A vector of one element is sent as a plain value, and \<open>to_array\<close> does not find an array
  in it: the element is lost.
\<close>

lemma to_array_single:
  assumes "is_number_type T"
  shows "to_array host T (vector_field host T [x] n) = Some []"
proof -
  have "cpp_sizeof T < 10"
    using cpp_sizeof_less [of T] by simp
  then show ?thesis
    by (simp add: to_array_def vector_field_def value_field_def to_byte_array_def
        SerializeArrayValue_from_serialized_byte_array_def
        SerializeArrayValue_min_serialized_byte_array_size_def)
qed

lemma get_parsed_after:
  assumes "m_serialized_data_map_parsed c = map named_field fs" and "distinct (map field_name fs)"
    and "f \<in> set fs"
  shows "get_parsed_field (string_of_bytes (field_name f)) c = Some f"
proof -
  have "inj string_of_bytes"
    by (metis bytes_of_string_of_bytes injI)
  then have "distinct (map (string_of_bytes \<circ> field_name) fs)"
    using assms(2) by (simp add: distinct_map comp_inj_on_iff inj_on_def)
  then have "distinct (map fst (map named_field fs))"
    by (simp add: named_field_def comp_def)
  moreover have "(string_of_bytes (field_name f), f) \<in> set (map named_field fs)"
    using assms(3) by (auto simp: named_field_def)
  ultimately show ?thesis
    using assms(1) by (simp add: get_parsed_field_def del: map_map)
qed

section \<open>Receiving a message in blocks\<close>

text \<open>The bytes received since the last reset, and the header once it was parsed.\<close>

definition received :: "ByteOrder \<Rightarrow> SerializeCodec \<Rightarrow> bytes \<Rightarrow> bool" where
  "received host c bs \<longleftrightarrow>
     m_serialized_byte_array_parsed c = bs \<and> unat (m_parsed_buffer_index c) = length bs \<and>
     (m_is_parsed_header_finished c \<longrightarrow>
        get_message_header host bs = Some (Some (m_parsed_message_header c)))"

lemma received_start [simp]: "received host start_codec []"
  by (simp add: received_def start_codec_def new_codec_def)

lemma put_bytes_end:
  assumes "unat index = length p" "length p + length bs < 2 ^ 32"
  shows "put_bytes bs (p @ replicate (length bs) 0) index = Some (p @ bs, of_nat (length p + length bs))"
  using assms
proof (induction bs arbitrary: p index)
  case Nil
  then show ?case by (simp add: word_unat_eq_iff)
next
  case (Cons b bs)
  have "put_bytes bs ((p @ [b]) @ replicate (length bs) 0) (index + 1) =
      Some ((p @ [b]) @ bs, of_nat (length (p @ [b]) + length bs))"
    using Cons.prems by (intro Cons.IH) (simp_all add: unat_add_u32)
  moreover have "blit (p @ 0 # replicate (length bs) 0) (unat index) [b] = Some (p @ b # replicate (length bs) 0)"
    using Cons.prems(1) by (simp add: vec_simps blit_start)
  ultimately show ?case by simp
qed

lemma get_message_header_prefix:
  "get_message_header host bs = Some (Some h) \<Longrightarrow> get_message_header host (bs @ data) = Some (Some h)"
  by (auto simp: get_message_header_def HEADER_SIZE_def split: if_splits)

lemma received_reset [simp]: "received host (reset_parse c) []"
  by (simp add: received_def reset_parse_def)

lemma received_new [simp]: "received host (new_codec junk config) []"
  by (simp add: received_def new_codec_def)

lemma received_add:
  assumes r: "received host c bs" and l: "length (bs @ data) < 2 ^ 32"
  obtains c' where "add_data_block_to_parse data c = Some c'" and "received host c' (bs @ data)"
proof -
  have b: "m_serialized_byte_array_parsed c = bs" and i: "unat (m_parsed_buffer_index c) = length bs"
    using r by (simp_all add: received_def)
  have n: "unat (of_nat (length bs + length data) :: u32) = length bs + length data"
    using l by (intro unat_of_nat_u32) simp
  have "resize 0 bs (length bs + length data) = bs @ replicate (length data) 0"
    using resize_prefix [of bs "length bs + length data" 0 "[]"] by (simp add: resize_def)
  then have buf: "(if length bs + length data > length bs then resize 0 bs (length bs + length data) else bs) =
      bs @ replicate (length data) 0"
    by (cases data) auto
  define c' where "c' = c\<lparr>m_serialized_byte_array_parsed := bs @ data,
      m_parsed_buffer_index := of_nat (length bs + length data)\<rparr>"
  have "add_data_block_to_parse data c = Some c'"
    using put_bytes_end [OF i] l
    unfolding add_data_block_to_parse_def b i Let_def n buf
    by (simp add: c'_def)
  moreover have "received host c' (bs @ data)"
    using r n get_message_header_prefix by (auto simp: received_def c'_def simp del: of_nat_add)
  ultimately show thesis by (rule that)
qed

lemma get_message_header_total:
  assumes "16 \<le> length bs"
  obtains h where "get_message_header host bs = Some (Some h)" and "take 16 bs = header_bytes h"
proof -
  obtain h where h: "take 16 bs = header_bytes h @ drop 16 (take 16 bs)"
    "SerializeHeader_from_serialized_byte_array host (take 16 bs) = Some (Some h)"
    using header_bytes_total [of "take 16 bs" host] assms by auto
  then show thesis
    using that [of h] assms by (simp add: get_message_header_def HEADER_SIZE_def)
qed

lemma is_frame_complete_received:
  assumes r: "received host c bs" and l: "length bs < 2 ^ 32"
    and small: "\<And>h. get_message_header host bs = Some (Some h) \<Longrightarrow> 16 + unat (message_length h) < 2 ^ 32"
  obtains c' where "is_frame_complete host c =
      Some (\<exists>h. get_message_header host bs = Some (Some h) \<and> 16 + unat (message_length h) \<le> length bs, c')"
    and "received host c' bs"
proof (cases "16 \<le> length bs")
  case False
  then have "get_message_header host bs = Some None"
    by (simp add: get_message_header_def HEADER_SIZE_def)
  moreover have "m_parsed_buffer_index c < HEADER_SIZE"
    using r False by (simp add: received_def word_less_nat_alt HEADER_SIZE_def)
  ultimately show thesis
    using that [of c] r by (simp add: is_frame_complete_def)
next
  case True
  then obtain h where h: "get_message_header host bs = Some (Some h)"
    by (rule get_message_header_total)
  have i: "unat (m_parsed_buffer_index c) = length bs" and b: "m_serialized_byte_array_parsed c = bs"
    using r by (simp_all add: received_def)
  have "unat (message_length h + HEADER_SIZE) = unat (message_length h) + 16"
    using small [OF h] by (simp add: HEADER_SIZE_def unat_add_u32)
  then have cmp: "m_parsed_buffer_index c < message_length h + HEADER_SIZE \<longleftrightarrow>
      \<not> 16 + unat (message_length h) \<le> length bs"
    using i by (auto simp: word_less_nat_alt)
  define c' where "c' = (if m_is_parsed_header_finished c then c
      else c\<lparr>m_parsed_message_header := h, m_is_parsed_header_finished := True\<rparr>)"
  have "\<not> m_parsed_buffer_index c < HEADER_SIZE"
    using i True by (simp add: word_less_nat_alt HEADER_SIZE_def)
  moreover have "m_is_parsed_header_finished c \<Longrightarrow> m_parsed_message_header c = h"
    using r h by (simp add: received_def)
  ultimately have "is_frame_complete host c = Some (16 + unat (message_length h) \<le> length bs, c')"
    using cmp h b by (auto simp: is_frame_complete_def c'_def)
  moreover have "received host c' bs"
    using r h by (simp add: received_def c'_def)
  ultimately show thesis
    using that [of c'] h by simp
qed

section \<open>Properties\<close>

text \<open>C32: Fields that are serialized one after the other into a fresh codec, each well formed and
  within the limits of the configuration, give a message that any other host deserializes to
  the same fields in the same order, bytes behind the message being ignored.\<close>

theorem codec_round_trip:
  assumes "message_wf fs" and "\<forall>f \<in> set fs. accepts config f"
    and "length (message_bytes fs @ rest) < 2 ^ 32"
  shows "\<exists>built bs built' parsed.
    fold_option (serialize writer) fs (new_codec junk config) = Some built \<and>
    get_serialized_data_vector_build writer built = Some (bs, built') \<and>
    deserialize reader (bs @ rest) (new_codec junk' config') = Some parsed \<and>
    get_parsed_data_map parsed = map (\<lambda>f. (string_of_bytes (field_name f), f)) fs"
proof -
  have "room_for (new_codec junk config) fs"
    using assms by (simp add: message_wf_def room_for_def field_wf_def)
  then obtain built where built: "fold_option (serialize writer) fs (new_codec junk config) = Some built"
    "build_ok built" "built_fields built = fs"
    using serialize_all [of "new_codec junk config" fs writer] by auto
  moreover obtain built' where "get_serialized_data_vector_build writer built = Some (message_bytes fs, built')"
    using finalize_message [OF built(2)] built(3) by metis
  moreover note deserialize_message [OF assms(1,3), of reader "new_codec junk' config'"]
  ultimately show ?thesis
    by (simp add: get_parsed_data_map_def named_field_def)
qed

definition sample_fields :: "SerializeField list" where
  "sample_fields = [sample_field, sample_field\<lparr>field_name := [105, 101]\<rparr>]"

lemma sample_fields_ok: "message_wf sample_fields" "\<forall>f \<in> set sample_fields. accepts default_SerializeConfig f"
  "length (message_bytes sample_fields @ [0]) < 2 ^ 32"
  by (auto simp: sample_fields_def sample_field_def message_wf_def field_wf_def field_sized_def
      length_field_bytes get_data_type_length_def has_length_def accepts_def default_SerializeConfig_def
      length_message_bytes)

theorem codec_round_trip_witness:
  "\<exists>built bs built' parsed.
    fold_option (serialize LittleEndian) sample_fields (new_codec blank_header default_SerializeConfig) = Some built \<and>
    get_serialized_data_vector_build LittleEndian built = Some (bs, built') \<and>
    deserialize BigEndian (bs @ [0]) (new_codec blank_header default_SerializeConfig) = Some parsed \<and>
    get_parsed_data_map parsed = map (\<lambda>f. (string_of_bytes (field_name f), f)) sample_fields"
  by (rule codec_round_trip [OF sample_fields_ok])

text \<open>Serializing a field keeps the fields of the message under construction in place behind
  the header and puts the field behind them; a field beyond the limits of the configuration
  is left out.\<close>

theorem serialize_appends:
  assumes "build_ok c" and "field_sized f"
    and "16 + length (body_bytes (built_fields c)) + length (field_bytes f) < 2 ^ 32"
  shows "\<exists>c'. serialize host f c = Some c' \<and> build_ok c' \<and>
    built_fields c' = built_fields c @ (if accepts (m_serialized_config c) f then [f] else [])"
proof (cases "accepts (m_serialized_config c) f")
  case True
  with serialize_accepted [OF assms(1) True assms(2,3), of host] show ?thesis by auto
next
  case False
  with assms(1) show ?thesis by (simp add: serialize_refused)
qed

theorem serialize_appends_witness:
  "\<exists>c'. serialize BigEndian sample_field start_codec = Some c' \<and> build_ok c' \<and>
    built_fields c' = built_fields start_codec @
      (if accepts (m_serialized_config start_codec) sample_field then [sample_field] else [])"
  using sample_field_wf(1)
  by (intro serialize_appends)
     (simp_all add: field_wf_def length_field_bytes, simp add: sample_field_def)

text \<open>A message that arrives in blocks is complete exactly when the bytes of the header and
  of the length it announces have arrived.\<close>

theorem frame_complete_exactly:
  assumes "received host c bs" "length (bs @ data) < 2 ^ 32" "take 16 (bs @ data) = header_bytes h"
    and "16 + unat (message_length h) < 2 ^ 32"
  shows "\<exists>c1 c2. add_data_block_to_parse data c = Some c1 \<and>
    is_frame_complete host c1 = Some (16 + unat (message_length h) \<le> length (bs @ data), c2) \<and>
    received host c2 (bs @ data)"
proof -
  obtain c1 where c1: "add_data_block_to_parse data c = Some c1" "received host c1 (bs @ data)"
    using received_add [OF assms(1,2)] by blast
  have "16 \<le> length (bs @ data)"
    using arg_cong [OF assms(3), of length] by simp
  then have h: "get_message_header host (bs @ data) = Some (Some h)"
    using assms(3) header_from_bytes [of host h "[]"]
    by (simp add: get_message_header_def HEADER_SIZE_def)
  have small: "16 + unat (message_length h') < 2 ^ 32"
    if "get_message_header host (bs @ data) = Some (Some h')" for h'
    using that h assms(4) by simp
  have eq: "(\<exists>h'. get_message_header host (bs @ data) = Some (Some h') \<and>
      16 + unat (message_length h') \<le> length (bs @ data)) = (16 + unat (message_length h) \<le> length (bs @ data))"
    using h by simp
  obtain c2 where "is_frame_complete host c1 =
      Some (16 + unat (message_length h) \<le> length (bs @ data), c2)" "received host c2 (bs @ data)"
    using is_frame_complete_received [OF c1(2) assms(2) small] unfolding eq by metis
  with c1 show ?thesis by blast
qed

theorem frame_complete_exactly_witness:
  "\<exists>c1 c2. add_data_block_to_parse (header_bytes blank_header) start_codec = Some c1 \<and>
    is_frame_complete LittleEndian c1 =
      Some (16 + unat (message_length blank_header) \<le> length ([] @ header_bytes blank_header), c2) \<and>
    received LittleEndian c2 ([] @ header_bytes blank_header)"
  by (rule frame_complete_exactly) (simp_all add: blank_header_def)

text \<open>The value of a scalar field is not converted to network byte order: a host of the
  other byte order reads the bytes of the value in reverse.\<close>

theorem scalar_keeps_host_order:
  "to_value reader T (value_field writer T x n) =
     Some (if (reader = BigEndian) = (writer = BigEndian) then x mod 256 ^ cpp_sizeof T
           else be_nat (le_bytes (cpp_sizeof T) x))"
  by (auto simp: to_value_def value_field_def try_cast_def to_byte_array_def object_value_def
      object_bytes_def be_nat_def be_bytes_def le_nat_le_bytes)

text \<open>A boolean is written with one byte but read with the length of its type, which is
  zero: the value is lost, and the cursor is left on the byte instead of behind it.\<close>

theorem bool_field_misread:
  assumes "5 + length n + length rest < 65536"
  shows "parse_field_at reader (field_bytes (value_field writer T_bool x n) @ rest) 0 =
    Some ((value_field writer T_bool x n)\<lparr>value_length := 0, field_value := []\<rparr>, of_nat (4 + length n))"
proof -
  let ?f = "value_field writer T_bool x n"
  define f where "f = ?f\<lparr>value_length := 0, field_value := []\<rparr>"
  have "field_bytes ?f @ rest = [] @ field_bytes f @ (field_value ?f @ rest)"
    by (simp add: field_bytes_def f_def has_length_def value_field_def)
  moreover have "field_wf f"
    using assms
    by (simp add: f_def field_wf_def field_sized_def length_field_bytes has_length_def value_field_def
        get_data_type_length_def get_data_type_def)
  moreover have "length (field_bytes f) = 4 + length n"
    by (simp add: f_def length_field_bytes has_length_def value_field_def)
  moreover have "length (field_value ?f) = 1"
    by (simp add: value_field_def to_byte_array_def cpp_sizeof_def)
  ultimately show ?thesis
    using parse_field_at_bytes [of f 0 "[]" "field_value ?f @ rest" reader] assms
    by (simp add: f_def)
qed

theorem bool_field_misread_witness:
  "parse_field_at BigEndian (field_bytes (value_field LittleEndian T_bool 1 ''ok'') @ [9]) 0 =
    Some ((value_field LittleEndian T_bool 1 ''ok'')\<lparr>value_length := 0, field_value := []\<rparr>,
      of_nat (4 + length ''ok''))"
  by (rule bool_field_misread) simp

text \<open>A vector of two or more numbers is serialized as an array, whose elements any other
  host reads back in order; of a vector of one number, which is serialized as a plain value,
  no element is read back.\<close>

theorem vector_round_trip:
  assumes "is_number_type T" "length n < 65536" "18 + length n + cpp_sizeof T * length xs < 2 ^ 32"
    and "length xs < 2 ^ 32" "\<forall>x \<in> set xs. x < 256 ^ cpp_sizeof T" "xs \<noteq> []"
  shows "\<exists>f. serialize_vector writer T xs n c = serialize writer f c \<and> field_wf f \<and>
    to_array reader T f = Some (if length xs = 1 then [] else xs)"
proof (intro exI conjI)
  have "T \<noteq> T_char" using assms(1) by (auto simp: is_number_type_def)
  then show "serialize_vector writer T xs n c = serialize writer (vector_field writer T xs n) c"
    using assms by (intro serialize_vector_field) simp_all
  show "field_wf (vector_field writer T xs n)"
    using assms by (simp add: vector_field_def value_field_wf array_field_wf)
  show "to_array reader T (vector_field writer T xs n) = Some (if length xs = 1 then [] else xs)"
  proof (cases "length xs = 1")
    case True
    then obtain x where "xs = [x]" by (auto simp: length_Suc_conv)
    then show ?thesis
      using to_array_single [OF assms(1), of reader x n]
      by (simp add: to_array_def vector_field_def value_field_def to_byte_array_def
          SerializeArrayValue_from_serialized_byte_array_def
          SerializeArrayValue_min_serialized_byte_array_size_def order.strict_trans2 [OF cpp_sizeof_less])
  next
    case False
    then show ?thesis
      using assms by (simp add: vector_field_def to_array_array_field)
  qed
qed

theorem vector_round_trip_witness:
  "\<exists>f. serialize_vector LittleEndian T_uint32 [1, 65536] ''xs'' start_codec = serialize LittleEndian f start_codec \<and>
    field_wf f \<and> to_array BigEndian T_uint32 f = Some (if length [1, 65536 :: nat] = 1 then [] else [1, 65536])"
  by (rule vector_round_trip) (simp_all add: is_number_type_def cpp_sizeof_def)

text \<open>The check of \<open>deserialize\<close> that a message lies within the data adds the two lengths in
  32 bits: a header of 16 bytes that announces almost 2^32 of them and one field passes it,
  and the read of the field leaves the data.\<close>

theorem message_length_wraps:
  "deserialize host (header_bytes (blank_header\<lparr>message_length := 4294967280, field_count := 1\<rparr>)) c = None"
proof -
  let ?h = "blank_header\<lparr>message_length := 4294967280, field_count := 1\<rparr>"
  have "get_message_header host (header_bytes ?h) = Some (Some ?h)"
    using header_from_bytes [of host ?h "[]"] by (simp add: get_message_header_def HEADER_SIZE_def)
  moreover have "parse_field_at host (header_bytes ?h) 16 = None"
    by (simp add: parse_field_at_def vec_simps read_at_def)
  ultimately show ?thesis
    by (simp add: deserialize_def HEADER_SIZE_def numeral_eq_Suc [of num.One] del: numeral_eq_Suc)
qed

end
