(* ===== verification/Frames.thy ===== *)
theory Frames
  imports Codec
begin

text \<open>
  The reassembly of frames out of a byte stream, \<open>network/codec/frame_assembler\<close>.

  The reference is \<open>next_frame\<close> of the locale \<open>framing\<close>: it cuts the first frame off a
  stream by the length in its header. The locale \<open>stream_assembler\<close> is the contract of an
  assembler that is fed chunk by chunk, and holds what any such assembler gives: the frames
  of the stream, in order, however the stream was cut into chunks and whenever frames were
  asked for. The assembler of the code is an interpretation of it.
\<close>

section \<open>Framing\<close>

locale framing =
  fixes hs :: nat
    and body_length :: "bytes \<Rightarrow> nat"
begin

definition next_frame :: "bytes \<Rightarrow> (bytes \<times> bytes) option" where
  "next_frame s =
     (if hs \<le> length s \<and> hs + body_length (take hs s) \<le> length s
      then Some (take (hs + body_length (take hs s)) s, drop (hs + body_length (take hs s)) s)
      else None)"

definition is_frame :: "bytes \<Rightarrow> bool" where
  "is_frame f \<longleftrightarrow> hs \<le> length f \<and> length f = hs + body_length (take hs f)"

lemma next_frame_append: "is_frame f \<Longrightarrow> next_frame (f @ r) = Some (f, r)"
  by (simp add: is_frame_def next_frame_def)

lemma next_frame_SomeD:
  assumes "next_frame s = Some (f, r)" shows "is_frame f" and "s = f @ r"
  using assms by (auto simp: next_frame_def is_frame_def min_def split: if_splits)

text \<open>A stream that starts with complete frames starts with these frames only.\<close>

lemma frames_prefix:
  assumes "\<forall>f \<in> set fs. is_frame f" "\<forall>f \<in> set gs. is_frame f" "next_frame rest = None"
    and "concat gs @ r = concat fs @ rest"
  shows "\<exists>k \<le> length fs. gs = take k fs \<and> r = concat (drop k fs) @ rest"
  using assms
proof (induction gs arbitrary: fs)
  case Nil
  then show ?case by (intro exI [of _ 0]) simp
next
  case (Cons g gs)
  then have g: "is_frame g" and gs: "\<forall>f \<in> set gs. is_frame f"
    and s: "g @ concat gs @ r = concat fs @ rest"
    by simp_all
  have n: "next_frame (concat fs @ rest) = Some (g, concat gs @ r)"
    using next_frame_append [OF g] by (simp flip: s)
  show ?case
  proof (cases fs)
    case Nil
    with n Cons.prems(3) show ?thesis by simp
  next
    case fs: (Cons f fs')
    with Cons.prems(1) n next_frame_append [of f "concat fs' @ rest"]
    have "g = f" and *: "concat gs @ r = concat fs' @ rest" by simp_all
    have "\<forall>f \<in> set fs'. is_frame f"
      using Cons.prems(1) fs by simp
    then obtain k where "k \<le> length fs'" "gs = take k fs'" "r = concat (drop k fs') @ rest"
      using Cons.IH [OF _ gs Cons.prems(3) *] by blast
    with fs \<open>g = f\<close> show ?thesis by (intro exI [of _ "Suc k"]) simp
  qed
qed

end

section \<open>Assemblers\<close>

datatype assembler_op = Push bytes | Pop

fun pushed :: "assembler_op list \<Rightarrow> bytes" where
  "pushed [] = []"
| "pushed (Push d # ops) = d @ pushed ops"
| "pushed (Pop # ops) = pushed ops"

text \<open>Running a sequence of operations: the answers of the pops, in order, and the last state.\<close>

fun run_assembler ::
  "(bytes \<Rightarrow> 's \<Rightarrow> 's) \<Rightarrow> ('s \<Rightarrow> (bytes option \<times> 's) option) \<Rightarrow> assembler_op list \<Rightarrow> 's \<Rightarrow>
     (bytes list \<times> 's) option" where
  "run_assembler push pop [] s = Some ([], s)"
| "run_assembler push pop (Push d # ops) s = run_assembler push pop ops (push d s)"
| "run_assembler push pop (Pop # ops) s =
     do {
       (frame, s) \<leftarrow> pop s;
       (frames, s) \<leftarrow> run_assembler push pop ops s;
       Some (case frame of None \<Rightarrow> frames | Some f \<Rightarrow> f # frames, s)
     }"

locale stream_assembler = framing hs body_length
  for hs :: nat and body_length :: "bytes \<Rightarrow> nat" +
  fixes pending :: "'s \<Rightarrow> bytes"
    and inv :: "'s \<Rightarrow> bool"
    and push :: "bytes \<Rightarrow> 's \<Rightarrow> 's"
    and pop :: "'s \<Rightarrow> (bytes option \<times> 's) option"
  assumes push_inv: "inv s \<Longrightarrow> inv (push d s)"
    and push_pending: "inv s \<Longrightarrow> pending (push d s) = pending s @ d"
    and pop_none: "inv s \<Longrightarrow> length (pending s) < 2 ^ 32 \<Longrightarrow> next_frame (pending s) = None \<Longrightarrow>
      \<exists>s'. pop s = Some (None, s') \<and> inv s' \<and> pending s' = pending s"
    and pop_some: "inv s \<Longrightarrow> length (pending s) < 2 ^ 32 \<Longrightarrow> next_frame (pending s) = Some (f, r) \<Longrightarrow>
      \<exists>s'. pop s = Some (Some f, s') \<and> inv s' \<and> pending s' = r"
begin

lemma run_stream:
  assumes "inv s" "length (pending s @ pushed ops) < 2 ^ 32"
  obtains frames s' where "run_assembler push pop ops s = Some (frames, s')" and "inv s'"
    and "\<forall>f \<in> set frames. is_frame f" and "concat frames @ pending s' = pending s @ pushed ops"
proof -
  have "\<exists>frames s'. run_assembler push pop ops s = Some (frames, s') \<and> inv s' \<and>
      (\<forall>f \<in> set frames. is_frame f) \<and> concat frames @ pending s' = pending s @ pushed ops"
    using assms
  proof (induction ops arbitrary: s rule: pushed.induct)
    case 1
    then show ?case by simp
  next
    case (2 d ops)
    then show ?case
      using push_inv [of s d] push_pending [of s d] "2.IH" [of "push d s"] by simp
  next
    case (3 ops)
    show ?case
    proof (cases "next_frame (pending s)")
      case None
      then obtain s' where "pop s = Some (None, s')" "inv s'" "pending s' = pending s"
        using pop_none [of s] 3 by auto
      then show ?thesis using 3 by force
    next
      case (Some fr)
      then obtain f r where fr: "next_frame (pending s) = Some (f, r)" by (cases fr) auto
      then obtain s' where s': "pop s = Some (Some f, s')" "inv s'" "pending s' = r"
        using pop_some [of s f r] 3 by auto
      moreover have "is_frame f" "pending s = f @ r"
        using next_frame_SomeD [OF fr] by simp_all
      moreover have "length (pending s' @ pushed ops) < 2 ^ 32"
        using calculation "3.prems"(2) by simp
      ultimately obtain frames s'' where "run_assembler push pop ops s' = Some (frames, s'')"
        "inv s''" "\<forall>f \<in> set frames. is_frame f" "concat frames @ pending s'' = r @ pushed ops"
        using "3.IH" [of s'] by blast
      with s' \<open>is_frame f\<close> \<open>pending s = f @ r\<close> show ?thesis by auto
    qed
  qed
  then show thesis using that by blast
qed

theorem chunks_do_not_matter:
  assumes "inv s" "pending s = []" "\<forall>f \<in> set fs. is_frame f" "next_frame rest = None"
    and "pushed ops = concat fs @ rest" "length (concat fs @ rest) < 2 ^ 32"
  obtains k s' where "run_assembler push pop ops s = Some (take k fs, s')" and "inv s'"
    and "k \<le> length fs" and "pending s' = concat (drop k fs) @ rest"
proof -
  obtain frames s' where r: "run_assembler push pop ops s = Some (frames, s')" "inv s'"
    "\<forall>f \<in> set frames. is_frame f" "concat frames @ pending s' = pushed ops"
    using run_stream [of s ops] assms by auto
  with frames_prefix [of fs frames rest "pending s'"] assms obtain k where
    "k \<le> length fs" "frames = take k fs" "pending s' = concat (drop k fs) @ rest"
    by auto
  with r that show thesis by blast
qed

lemma run_append:
  "run_assembler push pop (ops @ ops') s =
     do {
       (fs, s) \<leftarrow> run_assembler push pop ops s;
       (gs, s) \<leftarrow> run_assembler push pop ops' s;
       Some (fs @ gs, s)
     }"
proof (induction ops arbitrary: s rule: pushed.induct)
  case 1
  then show ?case by (cases "run_assembler push pop ops' s") auto
next
  case (3 ops)
  then show ?case
    by (auto split: Option.bind_splits option.splits)
qed simp

lemma drain:
  assumes "inv s" "pending s = concat fs @ rest" "\<forall>f \<in> set fs. is_frame f" "next_frame rest = None"
    and "length (pending s) < 2 ^ 32" "length fs \<le> n"
  obtains s' where "run_assembler push pop (replicate n Pop) s = Some (fs, s')" and "inv s'"
    and "pending s' = rest"
proof -
  have "\<exists>s'. run_assembler push pop (replicate n Pop) s = Some (fs, s') \<and> inv s' \<and> pending s' = rest"
    using assms
  proof (induction n arbitrary: fs s)
    case 0
    then show ?case by simp
  next
    case (Suc n)
    show ?case
    proof (cases fs)
      case Nil
      with Suc.prems obtain s' where "pop s = Some (None, s')" "inv s'" "pending s' = pending s"
        using pop_none [of s] by auto
      with Nil Suc.IH [of s' "[]"] Suc.prems show ?thesis by auto
    next
      case (Cons f fs')
      with Suc.prems obtain s' where "pop s = Some (Some f, s')" "inv s'" "pending s' = concat fs' @ rest"
        using pop_some [of s f "concat fs' @ rest"] next_frame_append [of f "concat fs' @ rest"] by auto
      with Cons Suc.IH [of s' fs'] Suc.prems show ?thesis by auto
    qed
  qed
  then show thesis using that by blast
qed

text \<open>Asking often enough gives every frame of the stream.\<close>

theorem all_frames:
  assumes "inv s" "pending s = []" "\<forall>f \<in> set fs. is_frame f" "next_frame rest = None"
    and "pushed ops = concat fs @ rest" "length (concat fs @ rest) < 2 ^ 32" "length fs \<le> n"
  obtains s' where "run_assembler push pop (ops @ replicate n Pop) s = Some (fs, s')"
    and "inv s'" and "pending s' = rest"
proof -
  obtain k s1 where 1: "run_assembler push pop ops s = Some (take k fs, s1)" "inv s1"
    "k \<le> length fs" "pending s1 = concat (drop k fs) @ rest"
    using chunks_do_not_matter [OF assms(1-6)] by blast
  have "length (concat (drop k fs)) \<le> length (concat fs)"
    by (metis append_take_drop_id concat_append le_add2 length_append)
  then have "length (pending s1) < 2 ^ 32"
    using 1(4) assms(6) by simp
  moreover have "\<forall>f \<in> set (drop k fs). is_frame f"
    using assms(3) by (meson in_set_dropD)
  ultimately obtain s2 where 2: "run_assembler push pop (replicate n Pop) s1 = Some (drop k fs, s2)"
    "inv s2" "pending s2 = rest"
    using drain [of s1 "drop k fs" rest n] 1(2,4) assms(4,7)
    by (metis diff_le_self le_trans length_drop)
  with 1 that [of s2] show thesis by (simp add: run_append)
qed

end

section \<open>The assembler of the code\<close>

record FrameAssembler =
  m_buffer :: bytes
  m_current_frame :: bytes
  m_current_frame_index :: u32
  m_current_header :: SerializeHeader
  m_is_got_header :: bool

definition new_FrameAssembler :: "SerializeHeader \<Rightarrow> FrameAssembler" where
  "new_FrameAssembler junk =
     \<lparr>m_buffer = [], m_current_frame = [], m_current_frame_index = 0, m_current_header = junk,
      m_is_got_header = False\<rparr>"

definition push_data :: "bytes \<Rightarrow> FrameAssembler \<Rightarrow> FrameAssembler" where
  "push_data data a = a\<lparr>m_buffer := m_buffer a @ data\<rparr>"

fun pop_loop :: "nat \<Rightarrow> bytes \<Rightarrow> bytes \<times> bytes" where
  "pop_loop 0 buffer = ([], buffer)"
| "pop_loop (Suc n) [] = ([], [])"
| "pop_loop (Suc n) (b # buffer) = (let (data, buffer) = pop_loop n buffer in (b # data, buffer))"

definition pop_data :: "u32 \<Rightarrow> FrameAssembler \<Rightarrow> bytes \<times> FrameAssembler" where
  "pop_data n a =
     (let (data, buffer) = pop_loop (unat n) (m_buffer a) in (data, a\<lparr>m_buffer := buffer\<rparr>))"

definition clear_current_frame :: "FrameAssembler \<Rightarrow> FrameAssembler" where
  "clear_current_frame a = a\<lparr>m_current_frame_index := 0, m_is_got_header := False\<rparr>"

lemma unat_Suc_below: "(index :: u32) < limit \<Longrightarrow> unat (index + 1) = Suc (unat index)"
  using unat_u32_less [of limit] by (simp add: unat_add_u32 word_less_nat_alt del: unat_u32_less)

text \<open>The loops \<open>for (; index < limit; ++index, ++i) frame[index] = src[i]\<close>.\<close>

function copy_until :: "u32 \<Rightarrow> bytes \<Rightarrow> u32 \<Rightarrow> bytes \<Rightarrow> u32 \<Rightarrow> (bytes \<times> u32) option" where
  "copy_until limit frame index src i =
     (if index < limit
      then do {
        b \<leftarrow> read_at src (unat i) 1;
        frame \<leftarrow> blit frame (unat index) b;
        copy_until limit frame (index + 1) src (i + 1)
      }
      else Some (frame, index))"
  by pat_completeness auto

termination
  by (relation "measure (\<lambda>(limit, frame, index, src, i). unat limit - unat index)")
     (auto simp: unat_Suc_below word_less_nat_alt)

declare copy_until.simps [simp del]

text \<open>
  \<open>pop_frame\<close>. The size of the header is a \<open>uint16_t\<close> and the size of the frame a
  \<open>uint32_t\<close>, which wraps around for a header that announces almost 2^32 bytes.
\<close>

definition pop_header :: "ByteOrder \<Rightarrow> FrameAssembler \<Rightarrow> (bool \<times> FrameAssembler) option" where
  "pop_header host a =
     (let header_size = get_message_header_size in
      if length (m_buffer a) < unat header_size then Some (False, a)
      else do {
        let (header_data, a) = pop_data (ucast header_size) a;
        let frame = ensure_enough_capacity (m_current_frame a) (ucast header_size);
        (frame, index) \<leftarrow>
          copy_until (ucast header_size) frame (m_current_frame_index a) header_data (m_current_frame_index a);
        let a = a\<lparr>m_current_frame := frame, m_current_frame_index := index\<rparr>;
        header_opt \<leftarrow> SerializeHeader_from_serialized_byte_array host header_data;
        Some (case header_opt of
                None \<Rightarrow> (False, clear_current_frame a)
              | Some h \<Rightarrow> (True, a\<lparr>m_current_header := h, m_is_got_header := True\<rparr>))
      })"

definition pop_frame :: "ByteOrder \<Rightarrow> FrameAssembler \<Rightarrow> (bytes option \<times> FrameAssembler) option" where
  "pop_frame host a =
     do {
       (got_header, a) \<leftarrow> (if \<not> m_is_got_header a then pop_header host a else Some (True, a));
       if \<not> got_header then Some (None, a)
       else if length (m_buffer a) < unat (message_length (m_current_header a)) then Some (None, a)
       else do {
         let (body_data, a) = pop_data (message_length (m_current_header a)) a;
         let frame_size = ucast get_message_header_size + message_length (m_current_header a);
         let frame = ensure_enough_capacity (m_current_frame a) frame_size;
         (frame, index) \<leftarrow> copy_until frame_size frame (m_current_frame_index a) body_data 0;
         let frame = resize 0 frame (unat frame_size);
         let a = clear_current_frame (a\<lparr>m_current_frame := frame, m_current_frame_index := index\<rparr>);
         Some (Some (m_current_frame a), a)
       }
     }"

section \<open>The assembler of the code is an assembler\<close>

definition header_body_length :: "bytes \<Rightarrow> nat" where
  "header_body_length hdr = be_nat (take 4 (drop 5 hdr))"

lemma header_body_length [simp]: "header_body_length (header_bytes h) = unat (message_length h)"
  by (simp add: header_body_length_def header_bytes_def)

text \<open>The bytes that were received and not yet given out, and the invariant.\<close>

definition fa_pending :: "FrameAssembler \<Rightarrow> bytes" where
  "fa_pending a = (if m_is_got_header a then take 16 (m_current_frame a) else []) @ m_buffer a"

definition fa_ok :: "FrameAssembler \<Rightarrow> bool" where
  "fa_ok a \<longleftrightarrow>
     (if m_is_got_header a
      then m_current_frame_index a = 16 \<and> 16 \<le> length (m_current_frame a) \<and>
        take 16 (m_current_frame a) = header_bytes (m_current_header a)
      else m_current_frame_index a = 0)"

lemma pop_loop_eq: "pop_loop n buffer = (take n buffer, drop n buffer)"
  by (induction n buffer rule: pop_loop.induct) auto

lemma pop_data_eq:
  "pop_data n a = (take (unat n) (m_buffer a), a\<lparr>m_buffer := drop (unat n) (m_buffer a)\<rparr>)"
  by (simp add: pop_data_def pop_loop_eq)

lemma copy_until_eq:
  assumes "unat index = length p" "unat i + length src \<le> length data" "src = take (length src) (drop (unat i) data)"
    and "unat limit = length p + length src" "length src \<le> length r" "length data < 2 ^ 32"
  shows "copy_until limit (p @ r) index data i = Some (p @ src @ drop (length src) r, limit)"
  using assms
proof (induction src arbitrary: p index i r)
  case Nil
  then have "index = limit" by (simp add: word_unat_eq_iff)
  then show ?case by (simp add: copy_until.simps)
next
  case (Cons b src)
  then obtain x r' where r: "r = x # r'" by (cases r) auto
  have less: "index < limit"
    using Cons.prems by (simp add: word_less_nat_alt)
  have i: "unat (i + 1) = Suc (unat i)"
    using Cons.prems by (simp add: unat_add_u32)
  have "drop (Suc (unat i)) data = tl (drop (unat i) data)"
    by (simp only: drop_Suc tl_drop)
  then have d: "drop (unat i) data = b # drop (Suc (unat i)) data"
    and s: "src = take (length src) (drop (Suc (unat i)) data)"
    using Cons.prems(3) by (cases "drop (unat i) data"; simp)+
  have "copy_until limit ((p @ [b]) @ r') (index + 1) data (i + 1) =
      Some ((p @ [b]) @ src @ drop (length src) r', limit)"
    using Cons.prems s less i r by (intro Cons.IH) (simp_all add: unat_Suc_below)
  moreover have "read_at data (unat i) 1 = Some [b]"
    using Cons.prems(2) d by (simp add: read_at_def)
  moreover have "blit (p @ r) (unat index) [b] = Some (p @ b # r')"
    using Cons.prems(1) r by (simp add: vec_simps blit_start)
  ultimately show ?case
    using less r by (subst copy_until.simps) simp
qed

lemma pop_header_short:
  "length (m_buffer a) < 16 \<Longrightarrow> pop_header host a = Some (False, a)"
  by (simp add: pop_header_def get_message_header_size_def HEADER_SIZE_def)

lemma pop_header_long:
  assumes ok: "fa_ok a" "\<not> m_is_got_header a" and long: "16 \<le> length (m_buffer a)"
  obtains a' where "pop_header host a = Some (True, a')" and "fa_ok a'" and "m_is_got_header a'"
    and "fa_pending a' = fa_pending a"
proof -
  obtain h where buf: "m_buffer a = header_bytes h @ drop 16 (m_buffer a)"
    using header_bytes_total [OF long] by blast
  then have hd: "take 16 (m_buffer a) = header_bytes h"
    by (metis append_eq_conv_conj length_header_bytes)
  have i: "m_current_frame_index a = 0"
    using ok by (simp add: fa_ok_def)
  define frame where "frame = ensure_enough_capacity (m_current_frame a) 16"
  have len: "16 \<le> length frame"
    by (simp add: frame_def length_ensure_enough_capacity)
  have "copy_until 16 ([] @ frame) 0 (header_bytes h) 0 = Some ([] @ header_bytes h @ drop (length (header_bytes h)) frame, 16)"
    using len by (intro copy_until_eq) simp_all
  then have copy: "copy_until 16 frame 0 (header_bytes h) 0 = Some (header_bytes h @ drop 16 frame, 16)"
    by simp
  define a' where "a' = a\<lparr>m_buffer := drop 16 (m_buffer a), m_current_frame := header_bytes h @ drop 16 frame,
    m_current_frame_index := 16, m_current_header := h, m_is_got_header := True\<rparr>"
  have "SerializeHeader_from_serialized_byte_array host (header_bytes h) = Some (Some h)"
    using header_from_bytes [of host h "[]"] by simp
  then have "pop_header host a = Some (True, a')"
    using long copy
    by (simp add: pop_header_def get_message_header_size_def HEADER_SIZE_def pop_data_eq hd i
        frame_def a'_def)
  moreover have "fa_ok a'"
    by (simp add: fa_ok_def a'_def)
  moreover have "fa_pending a' = fa_pending a"
    using ok(2) buf by (simp add: fa_pending_def a'_def)
  moreover have "m_is_got_header a'"
    by (simp add: a'_def)
  ultimately show thesis by (intro that)
qed

lemma pop_frame_body:
  assumes ok: "fa_ok a" "m_is_got_header a"
    and long: "unat (message_length (m_current_header a)) \<le> length (m_buffer a)"
    and l: "length (fa_pending a) < 2 ^ 32"
  obtains a' where "pop_frame host a =
      Some (Some (header_bytes (m_current_header a) @
        take (unat (message_length (m_current_header a))) (m_buffer a)), a')"
    and "fa_ok a'" and "fa_pending a' = drop (unat (message_length (m_current_header a))) (m_buffer a)"
proof -
  let ?h = "m_current_header a" let ?n = "message_length ?h"
  have i: "m_current_frame_index a = 16" and hd: "take 16 (m_current_frame a) = header_bytes ?h"
    and len: "16 \<le> length (m_current_frame a)"
    using ok by (simp_all add: fa_ok_def)
  have small: "16 + length (m_buffer a) < 2 ^ 32"
    using l ok len by (simp add: fa_pending_def)
  then have lim: "unat (16 + ?n) = 16 + unat ?n"
    using long by (simp add: unat_add_u32)
  define frame where "frame = ensure_enough_capacity (m_current_frame a) (16 + ?n)"
  have "take 16 frame = header_bytes ?h"
    using hd len by (simp add: frame_def ensure_enough_capacity_def resize_def)
  moreover have "16 + unat ?n \<le> length frame"
    using lim by (simp add: frame_def length_ensure_enough_capacity)
  ultimately obtain r where frame: "frame = header_bytes ?h @ r" "unat ?n \<le> length r"
    by (metis (no_types, lifting) add_le_cancel_left append_take_drop_id length_append length_header_bytes)
  let ?body = "take (unat ?n) (m_buffer a)"
  have copy: "copy_until (16 + ?n) (header_bytes ?h @ r) 16 ?body 0 =
      Some (header_bytes ?h @ ?body @ drop (length ?body) r, 16 + ?n)"
    using frame(2) lim long small by (intro copy_until_eq) simp_all
  define a' where "a' = a\<lparr>m_buffer := drop (unat ?n) (m_buffer a), m_current_frame := header_bytes ?h @ ?body,
    m_current_frame_index := 0, m_is_got_header := False\<rparr>"
  have "resize 0 (header_bytes ?h @ ?body @ drop (length ?body) r) (16 + unat ?n) = header_bytes ?h @ ?body"
    using long by (simp add: resize_def)
  then have "pop_frame host a = Some (Some (header_bytes ?h @ ?body), a')"
    using ok(2) long copy lim frame
    by (simp add: pop_frame_def pop_data_eq i get_message_header_size_def HEADER_SIZE_def
        clear_current_frame_def a'_def Let_def flip: frame_def)
  moreover have "fa_ok a'" "fa_pending a' = drop (unat ?n) (m_buffer a)"
    by (simp_all add: fa_ok_def fa_pending_def a'_def)
  ultimately show thesis by (rule that)
qed

lemma fa_ok_push: "fa_ok a \<Longrightarrow> fa_ok (push_data d a)"
  by (simp add: fa_ok_def push_data_def)

lemma fa_pending_push: "fa_pending (push_data d a) = fa_pending a @ d"
  by (simp add: fa_pending_def push_data_def)

lemma fa_ok_new: "fa_ok (new_FrameAssembler junk)" "fa_pending (new_FrameAssembler junk) = []"
  by (simp_all add: fa_ok_def fa_pending_def new_FrameAssembler_def)

interpretation frames: framing 16 header_body_length .

lemma next_frame_header:
  "frames.next_frame (header_bytes h @ b) =
     (if unat (message_length h) \<le> length b
      then Some (header_bytes h @ take (unat (message_length h)) b, drop (unat (message_length h)) b)
      else None)"
  by (simp add: frames.next_frame_def)

lemma pop_frame_got:
  assumes "fa_ok a" "m_is_got_header a" "length (fa_pending a) < 2 ^ 32"
  shows "\<exists>a'. pop_frame host a = Some (map_option fst (frames.next_frame (fa_pending a)), a') \<and> fa_ok a' \<and>
    fa_pending a' = (case frames.next_frame (fa_pending a) of None \<Rightarrow> fa_pending a | Some (f, r) \<Rightarrow> r)"
proof -
  let ?n = "unat (message_length (m_current_header a))"
  have p: "fa_pending a = header_bytes (m_current_header a) @ m_buffer a"
    using assms by (simp add: fa_pending_def fa_ok_def)
  show ?thesis
  proof (cases "?n \<le> length (m_buffer a)")
    case True
    then obtain a' where "pop_frame host a =
        Some (Some (header_bytes (m_current_header a) @ take ?n (m_buffer a)), a')"
      "fa_ok a'" "fa_pending a' = drop ?n (m_buffer a)"
      using pop_frame_body assms by blast
    with True p show ?thesis by (simp add: next_frame_header)
  next
    case False
    with assms p show ?thesis
      by (simp add: pop_frame_def next_frame_header)
  qed
qed

lemma pop_frame_next:
  assumes ok: "fa_ok a" and l: "length (fa_pending a) < 2 ^ 32"
  shows "\<exists>a'. pop_frame host a = Some (map_option fst (frames.next_frame (fa_pending a)), a') \<and> fa_ok a' \<and>
    fa_pending a' = (case frames.next_frame (fa_pending a) of None \<Rightarrow> fa_pending a | Some (f, r) \<Rightarrow> r)"
proof (cases "m_is_got_header a")
  case True
  with assms show ?thesis by (intro pop_frame_got)
next
  case not_got: False
  then have p: "fa_pending a = m_buffer a"
    by (simp add: fa_pending_def)
  show ?thesis
  proof (cases "16 \<le> length (m_buffer a)")
    case True
    then obtain a1 where a1: "pop_header host a = Some (True, a1)" "fa_ok a1" "m_is_got_header a1"
      "fa_pending a1 = fa_pending a"
      using pop_header_long [OF ok not_got] by blast
    then have "pop_frame host a = pop_frame host a1"
      using not_got by (simp add: pop_frame_def)
    with pop_frame_got [of a1 host] a1 l show ?thesis by (simp cong: option.case_cong)
  next
    case False
    with not_got p ok show ?thesis
      by (simp add: pop_frame_def pop_header_short frames.next_frame_def)
  qed
qed

interpretation assembler:
  stream_assembler 16 header_body_length fa_pending fa_ok push_data "pop_frame host"
proof
  show "fa_ok a \<Longrightarrow> fa_ok (push_data d a)" for a d
    by (rule fa_ok_push)
  show "fa_ok a \<Longrightarrow> fa_pending (push_data d a) = fa_pending a @ d" for a d
    by (rule fa_pending_push)
  show "\<exists>a'. pop_frame host a = Some (None, a') \<and> fa_ok a' \<and> fa_pending a' = fa_pending a"
    if "fa_ok a" "length (fa_pending a) < 2 ^ 32" "frames.next_frame (fa_pending a) = None" for a
    using pop_frame_next [OF that(1,2), of host] that(3) by simp
  show "\<exists>a'. pop_frame host a = Some (Some f, a') \<and> fa_ok a' \<and> fa_pending a' = r"
    if "fa_ok a" "length (fa_pending a) < 2 ^ 32" "frames.next_frame (fa_pending a) = Some (f, r)" for a f r
    using pop_frame_next [OF that(1,2), of host] that(3) by simp
qed

lemma message_is_frame:
  assumes "16 + length (body_bytes fs) < 2 ^ 32"
  shows "frames.is_frame (message_bytes fs)"
  using assms by (simp add: frames.is_frame_def message_bytes_def message_header_def)

section \<open>Properties\<close>

text \<open>C31: However a stream of frames is cut into chunks, and whenever frames are asked for in
  between, the assembler gives out a prefix of the frames, each whole and in order, and keeps
  the rest; asking at least once for every frame at the end gives all of them. An incomplete
  frame at the end of the stream stays pending.\<close>

theorem frames_in_order:
  assumes "\<forall>f \<in> set fs. frames.is_frame f" "frames.next_frame rest = None"
    and "pushed ops = concat fs @ rest" "length (concat fs @ rest) < 2 ^ 32" "length fs \<le> n"
  shows "(\<exists>k a. k \<le> length fs \<and>
      run_assembler push_data (pop_frame host) ops (new_FrameAssembler junk) = Some (take k fs, a) \<and>
      fa_pending a = concat (drop k fs) @ rest) \<and>
    (\<exists>a. run_assembler push_data (pop_frame host) (ops @ replicate n Pop) (new_FrameAssembler junk) =
      Some (fs, a) \<and> fa_pending a = rest)"
  by (rule conjI, rule assembler.chunks_do_not_matter [OF fa_ok_new assms(1-4)], blast,
      rule assembler.all_frames [OF fa_ok_new assms], blast)

theorem frames_in_order_witness:
  "(\<exists>k a. k \<le> length [message_bytes []] \<and>
      run_assembler push_data (pop_frame LittleEndian) [Push (message_bytes []), Pop, Push [1], Pop]
        (new_FrameAssembler blank_header) = Some (take k [message_bytes []], a) \<and>
      fa_pending a = concat (drop k [message_bytes []]) @ [1]) \<and>
    (\<exists>a. run_assembler push_data (pop_frame LittleEndian)
      ([Push (message_bytes []), Pop, Push [1], Pop] @ replicate 1 Pop) (new_FrameAssembler blank_header) =
      Some ([message_bytes []], a) \<and> fa_pending a = [1])"
  by (rule frames_in_order)
     (simp_all add: frames.next_frame_def length_message_bytes message_is_frame)

text \<open>The assembler never fails on a stream: whatever the bytes pushed, as long as they are
  fewer than 2^32, every request for a frame is answered within the vectors, and the frames
  given out and the bytes still pending are together the bytes pushed.\<close>

theorem assembler_conserves_bytes:
  assumes "length (pushed ops) < 2 ^ 32"
  shows "\<exists>frames a. run_assembler push_data (pop_frame host) ops (new_FrameAssembler junk) = Some (frames, a) \<and>
    concat frames @ fa_pending a = pushed ops \<and>
    (\<forall>f \<in> set frames. 16 \<le> length f \<and> length f = 16 + header_body_length (take 16 f))"
proof -
  have "length (fa_pending (new_FrameAssembler junk) @ pushed ops) < 2 ^ 32"
    using assms by (simp add: fa_ok_new)
  then obtain fs a where "run_assembler push_data (pop_frame host) ops (new_FrameAssembler junk) = Some (fs, a)"
    "\<forall>f \<in> set fs. frames.is_frame f" "concat fs @ fa_pending a = fa_pending (new_FrameAssembler junk) @ pushed ops"
    using assembler.run_stream [OF fa_ok_new(1)] by metis
  then show ?thesis
    by (auto simp: frames.is_frame_def fa_ok_new)
qed

theorem assembler_conserves_bytes_witness:
  "\<exists>frames a. run_assembler push_data (pop_frame BigEndian) [Push [1, 2], Pop, Push [3]]
      (new_FrameAssembler blank_header) = Some (frames, a) \<and>
    concat frames @ fa_pending a = pushed [Push [1, 2], Pop, Push [3]] \<and>
    (\<forall>f \<in> set frames. 16 \<le> length f \<and> length f = 16 + header_body_length (take 16 f))"
  by (rule assembler_conserves_bytes) simp

end
