(* ===== verification/Messages.thy ===== *)
theory Messages
  imports Frames
begin

text \<open>
  The messages of the application, \<open>protocol/client_message_codec\<close> and
  \<open>protocol/server_message_codec\<close> with the transfer objects of \<open>model/transfer\<close>, which the
  client and the server hold identical copies of.

  A request or a response is an envelope whose body is a message of its own. The integers
  are words of their width; the signed ones are shown through \<open>sint\<close>. A transfer object
  whose members have no initialiser starts as the argument \<open>junk\<close> of the parser. The codec
  of a call is local to it and starts with the default configuration.
\<close>

section \<open>Transfer objects\<close>

datatype ContentType = Json | DaneJoe_Content | Unknown_Content | Other_Content u8

primrec ContentType_code :: "ContentType \<Rightarrow> u8" where
  "ContentType_code Json = 0"
| "ContentType_code DaneJoe_Content = 1"
| "ContentType_code Unknown_Content = 2"
| "ContentType_code (Other_Content b) = b"

definition ContentType_of_code :: "u8 \<Rightarrow> ContentType" where
  "ContentType_of_code b =
     (if b = 0 then Json else if b = 1 then DaneJoe_Content else if b = 2 then Unknown_Content
      else Other_Content b)"

definition ContentType_to_string :: "ContentType \<Rightarrow> string" where
  "ContentType_to_string content_type =
     (case content_type of
        Json \<Rightarrow> ''ContentType::Json''
      | DaneJoe_Content \<Rightarrow> ''ContentType::DaneJoe''
      | _ \<Rightarrow> ''ContentType::Unknown'')"

datatype ResponseStatus =
    Unknown_Status
  | Ok
  | Created
  | Accepted
  | NoContent
  | BadRequest
  | Unauthorized
  | Forbidden
  | NotFound
  | MethodNotAllowed
  | Conflict
  | InternalServerError
  | NotImplemented
  | BadGateway
  | ServiceUnavailable
  | Other_Status u16

primrec ResponseStatus_code :: "ResponseStatus \<Rightarrow> u16" where
  "ResponseStatus_code Unknown_Status = 0"
| "ResponseStatus_code Ok = 200"
| "ResponseStatus_code Created = 201"
| "ResponseStatus_code Accepted = 202"
| "ResponseStatus_code NoContent = 204"
| "ResponseStatus_code BadRequest = 400"
| "ResponseStatus_code Unauthorized = 401"
| "ResponseStatus_code Forbidden = 403"
| "ResponseStatus_code NotFound = 404"
| "ResponseStatus_code MethodNotAllowed = 405"
| "ResponseStatus_code Conflict = 409"
| "ResponseStatus_code InternalServerError = 500"
| "ResponseStatus_code NotImplemented = 501"
| "ResponseStatus_code BadGateway = 502"
| "ResponseStatus_code ServiceUnavailable = 503"
| "ResponseStatus_code (Other_Status w) = w"

definition ResponseStatus_of_code :: "u16 \<Rightarrow> ResponseStatus" where
  "ResponseStatus_of_code w =
     (if w = 0 then Unknown_Status
      else if w = 200 then Ok
      else if w = 201 then Created
      else if w = 202 then Accepted
      else if w = 204 then NoContent
      else if w = 400 then BadRequest
      else if w = 401 then Unauthorized
      else if w = 403 then Forbidden
      else if w = 404 then NotFound
      else if w = 405 then MethodNotAllowed
      else if w = 409 then Conflict
      else if w = 500 then InternalServerError
      else if w = 501 then NotImplemented
      else if w = 502 then BadGateway
      else if w = 503 then ServiceUnavailable
      else Other_Status w)"

definition ResponseStatus_to_string :: "ResponseStatus \<Rightarrow> string" where
  "ResponseStatus_to_string status =
     (case status of
        Ok \<Rightarrow> ''ResponseStatus::Ok''
      | Created \<Rightarrow> ''ResponseStatus::Created''
      | Accepted \<Rightarrow> ''ResponseStatus::Accepted''
      | NoContent \<Rightarrow> ''ResponseStatus::NoContent''
      | BadRequest \<Rightarrow> ''ResponseStatus::BadRequest''
      | Unauthorized \<Rightarrow> ''ResponseStatus::Unauthorized''
      | Forbidden \<Rightarrow> ''ResponseStatus::Forbidden''
      | NotFound \<Rightarrow> ''ResponseStatus::NotFound''
      | MethodNotAllowed \<Rightarrow> ''ResponseStatus::MethodNotAllowed''
      | Conflict \<Rightarrow> ''ResponseStatus::Conflict''
      | InternalServerError \<Rightarrow> ''ResponseStatus::InternalServerError''
      | NotImplemented \<Rightarrow> ''ResponseStatus::NotImplemented''
      | BadGateway \<Rightarrow> ''ResponseStatus::BadGateway''
      | ServiceUnavailable \<Rightarrow> ''ResponseStatus::ServiceUnavailable''
      | _ \<Rightarrow> ''ResponseStatus::Unknown'')"

fun ContentType_valid :: "ContentType \<Rightarrow> bool" where
  "ContentType_valid (Other_Content b) = (b \<notin> {0, 1, 2})"
| "ContentType_valid t = True"

fun ResponseStatus_valid :: "ResponseStatus \<Rightarrow> bool" where
  "ResponseStatus_valid (Other_Status w) =
     (w \<notin> {0, 200, 201, 202, 204, 400, 401, 403, 404, 405, 409, 500, 501, 502, 503})"
| "ResponseStatus_valid s = True"

lemma ContentType_of_code_code [simp]:
  "ContentType_valid t \<Longrightarrow> ContentType_of_code (ContentType_code t) = t"
  by (cases t) (auto simp: ContentType_of_code_def)

lemma ResponseStatus_of_code_code [simp]:
  "ResponseStatus_valid s \<Longrightarrow> ResponseStatus_of_code (ResponseStatus_code s) = s"
  by (cases s) (auto simp: ResponseStatus_of_code_def)

record EnvelopeRequestTransfer =
  req_version :: u16
  req_id :: u64
  req_type :: u8
  req_path :: string
  req_content_type :: ContentType
  req_body :: bytes

record EnvelopeResponseTransfer =
  res_version :: u16
  res_id :: u64
  res_status :: ResponseStatus
  res_content_type :: ContentType
  res_body :: bytes

record BlockRequestTransfer =
  brq_block_id :: u64
  brq_file_id :: u64
  brq_task_id :: u64
  brq_offset :: u64
  brq_block_size :: u64

record BlockResponseTransfer =
  brs_block_id :: u64
  brs_file_id :: u64
  brs_task_id :: u64
  brs_offset :: u64
  brs_block_size :: u64
  brs_data :: bytes

record DownloadRequestTransfer =
  drq_file_id :: u64
  drq_task_id :: u64

record DownloadResponseTransfer =
  drs_file_id :: u64
  drs_task_id :: u64
  drs_file_name :: string
  drs_file_size :: u64
  drs_md5_code :: string

record TestRequestTransfer =
  trq_message :: string

record TestResponseTransfer =
  trs_message :: string

definition new_BlockRequestTransfer :: BlockRequestTransfer where
  "new_BlockRequestTransfer =
     \<lparr>brq_block_id = -1, brq_file_id = -1, brq_task_id = -1, brq_offset = 0, brq_block_size = 0\<rparr>"

definition new_BlockResponseTransfer :: BlockResponseTransfer where
  "new_BlockResponseTransfer =
     \<lparr>brs_block_id = -1, brs_file_id = -1, brs_task_id = -1, brs_offset = 0, brs_block_size = 0,
      brs_data = []\<rparr>"

definition new_DownloadRequestTransfer :: DownloadRequestTransfer where
  "new_DownloadRequestTransfer = \<lparr>drq_file_id = -1, drq_task_id = -1\<rparr>"

definition new_DownloadResponseTransfer :: DownloadResponseTransfer where
  "new_DownloadResponseTransfer =
     \<lparr>drs_file_id = -1, drs_task_id = -1, drs_file_name = [], drs_file_size = 0, drs_md5_code = []\<rparr>"

definition show_i64 :: "u64 \<Rightarrow> string" where "show_i64 w = show_int (sint w)"
definition show_u :: "'a::len word \<Rightarrow> string" where "show_u w = show_nat (unat w)"

definition BlockRequestTransfer_to_string :: "BlockRequestTransfer \<Rightarrow> string" where
  "BlockRequestTransfer_to_string t =
     ''block_id='' @ show_i64 (brq_block_id t) @ '' | block_size='' @ show_i64 (brq_block_size t) @
     '' | file_id='' @ show_i64 (brq_file_id t) @ '' | task_id='' @ show_i64 (brq_task_id t) @
     '' | offset='' @ show_i64 (brq_offset t)"

definition BlockResponseTransfer_to_string :: "BlockResponseTransfer \<Rightarrow> string" where
  "BlockResponseTransfer_to_string t =
     ''block_id='' @ show_i64 (brs_block_id t) @ '' | block_size='' @ show_i64 (brs_block_size t) @
     '' | data_size='' @ show_nat (length (brs_data t)) @
     '' | file_id='' @ show_i64 (brs_file_id t) @ '' | task_id='' @ show_i64 (brs_task_id t) @
     '' | offset='' @ show_i64 (brs_offset t)"

definition DownloadRequestTransfer_to_string :: "DownloadRequestTransfer \<Rightarrow> string" where
  "DownloadRequestTransfer_to_string t =
     ''file_id='' @ show_i64 (drq_file_id t) @ '' | task_id='' @ show_i64 (drq_task_id t)"

definition DownloadResponseTransfer_to_string :: "DownloadResponseTransfer \<Rightarrow> string" where
  "DownloadResponseTransfer_to_string t =
     ''file_id='' @ show_i64 (drs_file_id t) @ '' | task_id='' @ show_i64 (drs_task_id t) @
     '' | file_name='' @ drs_file_name t @ '' | file_size='' @ show_i64 (drs_file_size t) @
     '' | md5_code='' @ drs_md5_code t"

definition EnvelopeRequestTransfer_to_string :: "EnvelopeRequestTransfer \<Rightarrow> string" where
  "EnvelopeRequestTransfer_to_string t =
     ''body_size='' @ show_nat (length (req_body t)) @
     '' | content_type='' @ ContentType_to_string (req_content_type t) @
     '' | path='' @ req_path t @ '' | request_id='' @ show_u (req_id t) @
     '' | request_type='' @ show_u (req_type t) @ '' | version='' @ show_u (req_version t)"

definition EnvelopeResponseTransfer_to_string :: "EnvelopeResponseTransfer \<Rightarrow> string" where
  "EnvelopeResponseTransfer_to_string t =
     ''body_size='' @ show_nat (length (res_body t)) @
     '' | content_type='' @ ContentType_to_string (res_content_type t) @
     '' | request_id='' @ show_u (res_id t) @
     '' | status='' @ ResponseStatus_to_string (res_status t) @
     '' | version='' @ show_u (res_version t)"

definition TestRequestTransfer_to_string :: "TestRequestTransfer \<Rightarrow> string" where
  "TestRequestTransfer_to_string t = ''message='' @ trq_message t"

definition TestResponseTransfer_to_string :: "TestResponseTransfer \<Rightarrow> string" where
  "TestResponseTransfer_to_string t = ''message='' @ trs_message t"

section \<open>Building messages\<close>

definition serialize_i64 :: "ByteOrder \<Rightarrow> u64 \<Rightarrow> string \<Rightarrow> SerializeCodec \<Rightarrow> SerializeCodec option" where
  "serialize_i64 host x data_name c = serialize_value host T_int64 (unat x) data_name c"

definition finish_message :: "ByteOrder \<Rightarrow> SerializeCodec \<Rightarrow> bytes option" where
  "finish_message host c = map_option fst (get_serialized_data_vector_build host c)"

text \<open>The elements of a \<open>std::vector<uint8_t>\<close>, which the codec takes as a vector of \<open>T\<close>.\<close>

definition serialize_bytes :: "ByteOrder \<Rightarrow> bytes \<Rightarrow> string \<Rightarrow> SerializeCodec \<Rightarrow> SerializeCodec option" where
  "serialize_bytes host bs data_name c = serialize_vector host T_uint8 (map unat bs) data_name c"

definition build_request_byte_array :: "ByteOrder \<Rightarrow> EnvelopeRequestTransfer \<Rightarrow> bytes option" where
  "build_request_byte_array host info =
     do {
       c \<leftarrow> serialize_value host T_uint16 (unat (req_version info)) ''version'' start_codec;
       c \<leftarrow> serialize_value host T_uint64 (unat (req_id info)) ''request_id'' c;
       c \<leftarrow> serialize_value host T_uint8 (unat (req_type info)) ''request_type'' c;
       c \<leftarrow> serialize_string host (req_path info) ''path'' c;
       c \<leftarrow> serialize_value host T_uint8 (unat (ContentType_code (req_content_type info))) ''content_type'' c;
       c \<leftarrow> serialize_bytes host (req_body info) ''body'' c;
       finish_message host c
     }"

definition build_test_request_byte_array :: "ByteOrder \<Rightarrow> TestRequestTransfer \<Rightarrow> u64 \<Rightarrow> bytes option" where
  "build_test_request_byte_array host test_request request_id =
     do {
       c \<leftarrow> serialize_string host (trq_message test_request) ''message'' start_codec;
       body \<leftarrow> finish_message host c;
       build_request_byte_array host
         \<lparr>req_version = 1, req_id = request_id, req_type = 1, req_path = ''/test'',
          req_content_type = DaneJoe_Content, req_body = body\<rparr>
     }"

definition build_download_request_byte_array ::
  "ByteOrder \<Rightarrow> DownloadRequestTransfer \<Rightarrow> u64 \<Rightarrow> bytes option" where
  "build_download_request_byte_array host download_request request_id =
     do {
       c \<leftarrow> serialize_i64 host (drq_file_id download_request) ''file_id'' start_codec;
       c \<leftarrow> serialize_i64 host (drq_task_id download_request) ''task_id'' c;
       body \<leftarrow> finish_message host c;
       build_request_byte_array host
         \<lparr>req_version = 1, req_id = request_id, req_type = 0, req_path = ''/download'',
          req_content_type = DaneJoe_Content, req_body = body\<rparr>
     }"

definition build_block_request_byte_array ::
  "ByteOrder \<Rightarrow> BlockRequestTransfer \<Rightarrow> u64 \<Rightarrow> bytes option" where
  "build_block_request_byte_array host block_request request_id =
     do {
       c \<leftarrow> serialize_i64 host (brq_block_id block_request) ''block_id'' start_codec;
       c \<leftarrow> serialize_i64 host (brq_file_id block_request) ''file_id'' c;
       c \<leftarrow> serialize_i64 host (brq_task_id block_request) ''task_id'' c;
       c \<leftarrow> serialize_i64 host (brq_offset block_request) ''offset'' c;
       c \<leftarrow> serialize_i64 host (brq_block_size block_request) ''block_size'' c;
       body \<leftarrow> finish_message host c;
       build_request_byte_array host
         \<lparr>req_version = 1, req_id = request_id, req_type = 0, req_path = ''/block'',
          req_content_type = DaneJoe_Content, req_body = body\<rparr>
     }"

definition build_response_byte_array :: "ByteOrder \<Rightarrow> EnvelopeResponseTransfer \<Rightarrow> bytes option" where
  "build_response_byte_array host response =
     do {
       c \<leftarrow> serialize_value host T_uint16 (unat (res_version response)) ''version'' start_codec;
       c \<leftarrow> serialize_value host T_uint64 (unat (res_id response)) ''request_id'' c;
       c \<leftarrow> serialize_value host T_uint16 (unat (ResponseStatus_code (res_status response))) ''status'' c;
       c \<leftarrow> serialize_value host T_uint8 (unat (ContentType_code (res_content_type response))) ''content_type'' c;
       c \<leftarrow> serialize_bytes host (res_body response) ''body'' c;
       finish_message host c
     }"

text \<open>The envelope the server puts around a body; the three builders below spell it out.\<close>

definition ok_response :: "u64 \<Rightarrow> bytes \<Rightarrow> EnvelopeResponseTransfer" where
  "ok_response request_id body =
     \<lparr>res_version = 1, res_id = request_id, res_status = Ok, res_content_type = DaneJoe_Content,
      res_body = body\<rparr>"

definition block_response_body :: "ByteOrder \<Rightarrow> BlockResponseTransfer \<Rightarrow> bytes option" where
  "block_response_body host block_response =
     do {
       c \<leftarrow> serialize_i64 host (brs_block_id block_response) ''block_id'' start_codec;
       c \<leftarrow> serialize_i64 host (brs_file_id block_response) ''file_id'' c;
       c \<leftarrow> serialize_i64 host (brs_task_id block_response) ''task_id'' c;
       c \<leftarrow> serialize_i64 host (brs_offset block_response) ''offset'' c;
       c \<leftarrow> serialize_i64 host (brs_block_size block_response) ''block_size'' c;
       c \<leftarrow> serialize_bytes host (brs_data block_response) ''data'' c;
       finish_message host c
     }"

definition build_block_response_byte_array ::
  "ByteOrder \<Rightarrow> BlockResponseTransfer \<Rightarrow> u64 \<Rightarrow> bytes option" where
  "build_block_response_byte_array host block_response request_id =
     do {
       body \<leftarrow> block_response_body host block_response;
       build_response_byte_array host (ok_response request_id body)
     }"

definition build_download_response_byte_array ::
  "ByteOrder \<Rightarrow> DownloadResponseTransfer \<Rightarrow> u64 \<Rightarrow> bytes option" where
  "build_download_response_byte_array host download_response request_id =
     do {
       c \<leftarrow> serialize_i64 host (drs_task_id download_response) ''task_id'' start_codec;
       c \<leftarrow> serialize_i64 host (drs_file_id download_response) ''file_id'' c;
       c \<leftarrow> serialize_string host (drs_file_name download_response) ''file_name'' c;
       c \<leftarrow> serialize_i64 host (drs_file_size download_response) ''file_size'' c;
       c \<leftarrow> serialize_string host (drs_md5_code download_response) ''md5_code'' c;
       body \<leftarrow> finish_message host c;
       build_response_byte_array host (ok_response request_id body)
     }"

definition build_test_response_byte_array ::
  "ByteOrder \<Rightarrow> TestResponseTransfer \<Rightarrow> u64 \<Rightarrow> bytes option" where
  "build_test_response_byte_array host test_response request_id =
     do {
       c \<leftarrow> serialize_string host (trs_message test_response) ''message'' start_codec;
       body \<leftarrow> finish_message host c;
       build_response_byte_array host (ok_response request_id body)
     }"

section \<open>Parsing messages\<close>

text \<open>
  The three ways in which the parsers read a number: a field that may be absent but must
  hold a value of its type, a field that must be there, and a field that is only taken when
  it is there and of its type. \<open>None\<close> is the early \<open>return std::nullopt\<close>.
\<close>

definition set_optional ::
  "ByteOrder \<Rightarrow> cpp_type \<Rightarrow> string \<Rightarrow> SerializeCodec \<Rightarrow> (nat \<Rightarrow> 'a \<Rightarrow> 'a) \<Rightarrow> 'a \<Rightarrow> 'a option" where
  "set_optional host T key c set_it info =
     (case get_parsed_field key c of
        None \<Rightarrow> Some info
      | Some f \<Rightarrow> (case to_value host T f of None \<Rightarrow> None | Some x \<Rightarrow> Some (set_it x info)))"

definition set_required ::
  "ByteOrder \<Rightarrow> cpp_type \<Rightarrow> string \<Rightarrow> SerializeCodec \<Rightarrow> (nat \<Rightarrow> 'a \<Rightarrow> 'a) \<Rightarrow> 'a \<Rightarrow> 'a option" where
  "set_required host T key c set_it info =
     (case get_parsed_field key c of
        None \<Rightarrow> None
      | Some f \<Rightarrow> (case to_value host T f of None \<Rightarrow> None | Some x \<Rightarrow> Some (set_it x info)))"

definition set_lenient ::
  "ByteOrder \<Rightarrow> cpp_type \<Rightarrow> string \<Rightarrow> SerializeCodec \<Rightarrow> (nat \<Rightarrow> 'a \<Rightarrow> 'a) \<Rightarrow> 'a \<Rightarrow> 'a option" where
  "set_lenient host T key c set_it info =
     (case get_parsed_field key c of
        None \<Rightarrow> Some info
      | Some f \<Rightarrow> (case to_value host T f of None \<Rightarrow> Some info | Some x \<Rightarrow> Some (set_it x info)))"

definition to_byte_vector :: "ByteOrder \<Rightarrow> SerializeField \<Rightarrow> bytes option" where
  "to_byte_vector host f = map_option (map of_nat) (to_array host T_uint8 f)"

text \<open>The body of an envelope, when there is one.\<close>

definition set_body ::
  "ByteOrder \<Rightarrow> SerializeCodec \<Rightarrow> (bytes \<Rightarrow> 'a \<Rightarrow> 'a) \<Rightarrow> 'a option \<Rightarrow> 'a option option" where
  "set_body host c set_it parsed =
     (case parsed of
        None \<Rightarrow> Some None
      | Some info \<Rightarrow>
          (case get_parsed_field ''body'' c of
             None \<Rightarrow> Some (Some info)
           | Some f \<Rightarrow> do { body \<leftarrow> to_byte_vector host f; Some (Some (set_it body info)) }))"

definition set_path ::
  "(DataType \<Rightarrow> bytes \<Rightarrow> string) \<Rightarrow> SerializeCodec \<Rightarrow> EnvelopeRequestTransfer \<Rightarrow> EnvelopeRequestTransfer option" where
  "set_path sp c info =
     (case get_parsed_field ''path'' c of
        None \<Rightarrow> Some info
      | Some f \<Rightarrow>
          (let path_op = SerializeField_as_string sp f
           in if path_op \<noteq> [] then Some (info\<lparr>req_path := path_op\<rparr>) else None))"

definition try_parse_byte_array_request ::
  "ByteOrder \<Rightarrow> (DataType \<Rightarrow> bytes \<Rightarrow> string) \<Rightarrow> EnvelopeRequestTransfer \<Rightarrow> bytes \<Rightarrow>
     EnvelopeRequestTransfer option option" where
  "try_parse_byte_array_request host sp junk data =
     do {
       c \<leftarrow> deserialize host data start_codec;
       set_body host c (\<lambda>b. req_body_update (\<lambda>_. b))
         (do {
            info \<leftarrow> set_optional host T_uint16 ''version'' c (\<lambda>x. req_version_update (\<lambda>_. of_nat x))
              (junk\<lparr>req_path := [], req_body := []\<rparr>);
            info \<leftarrow> set_optional host T_uint64 ''request_id'' c (\<lambda>x. req_id_update (\<lambda>_. of_nat x)) info;
            info \<leftarrow> set_optional host T_uint8 ''request_type'' c (\<lambda>x. req_type_update (\<lambda>_. of_nat x)) info;
            info \<leftarrow> set_path sp c info;
            set_optional host T_uint8 ''content_type'' c
              (\<lambda>x. req_content_type_update (\<lambda>_. ContentType_of_code (of_nat x))) info
          })
     }"

definition try_parse_byte_array_response ::
  "ByteOrder \<Rightarrow> EnvelopeResponseTransfer \<Rightarrow> bytes \<Rightarrow> EnvelopeResponseTransfer option option" where
  "try_parse_byte_array_response host junk data =
     do {
       c \<leftarrow> deserialize host data start_codec;
       set_body host c (\<lambda>b. res_body_update (\<lambda>_. b))
         (do {
            info \<leftarrow> set_optional host T_uint16 ''version'' c (\<lambda>x. res_version_update (\<lambda>_. of_nat x))
              (junk\<lparr>res_body := []\<rparr>);
            info \<leftarrow> set_optional host T_uint64 ''request_id'' c (\<lambda>x. res_id_update (\<lambda>_. of_nat x)) info;
            info \<leftarrow> set_optional host T_uint16 ''status'' c
              (\<lambda>x. res_status_update (\<lambda>_. ResponseStatus_of_code (of_nat x))) info;
            set_optional host T_uint8 ''content_type'' c
              (\<lambda>x. res_content_type_update (\<lambda>_. ContentType_of_code (of_nat x))) info
          })
     }"

definition try_parse_byte_array_block_request ::
  "ByteOrder \<Rightarrow> bytes \<Rightarrow> BlockRequestTransfer option option" where
  "try_parse_byte_array_block_request host data =
     do {
       c \<leftarrow> deserialize host data start_codec;
       Some (do {
         info \<leftarrow> set_required host T_int64 ''block_id'' c (\<lambda>x. brq_block_id_update (\<lambda>_. of_nat x))
           new_BlockRequestTransfer;
         info \<leftarrow> set_required host T_int64 ''file_id'' c (\<lambda>x. brq_file_id_update (\<lambda>_. of_nat x)) info;
         info \<leftarrow> set_lenient host T_int64 ''task_id'' c (\<lambda>x. brq_task_id_update (\<lambda>_. of_nat x)) info;
         info \<leftarrow> set_required host T_int64 ''offset'' c (\<lambda>x. brq_offset_update (\<lambda>_. of_nat x)) info;
         set_required host T_int64 ''block_size'' c (\<lambda>x. brq_block_size_update (\<lambda>_. of_nat x)) info
       })
     }"

definition try_parse_byte_array_block_response ::
  "ByteOrder \<Rightarrow> bytes \<Rightarrow> BlockResponseTransfer option option" where
  "try_parse_byte_array_block_response host body =
     do {
       c \<leftarrow> deserialize host body start_codec;
       let parsed = do {
         info \<leftarrow> set_required host T_int64 ''block_id'' c (\<lambda>x. brs_block_id_update (\<lambda>_. of_nat x))
           new_BlockResponseTransfer;
         info \<leftarrow> set_required host T_int64 ''file_id'' c (\<lambda>x. brs_file_id_update (\<lambda>_. of_nat x)) info;
         info \<leftarrow> set_lenient host T_int64 ''task_id'' c (\<lambda>x. brs_task_id_update (\<lambda>_. of_nat x)) info;
         info \<leftarrow> set_required host T_int64 ''offset'' c (\<lambda>x. brs_offset_update (\<lambda>_. of_nat x)) info;
         set_required host T_int64 ''block_size'' c (\<lambda>x. brs_block_size_update (\<lambda>_. of_nat x)) info
       };
       (case parsed of
          None \<Rightarrow> Some None
        | Some info \<Rightarrow>
            (case get_parsed_field ''data'' c of
               None \<Rightarrow> Some None
             | Some f \<Rightarrow> do { bs \<leftarrow> to_byte_vector host f; Some (Some (info\<lparr>brs_data := bs\<rparr>)) }))
     }"

definition try_parse_byte_array_download_request ::
  "ByteOrder \<Rightarrow> bytes \<Rightarrow> DownloadRequestTransfer option option" where
  "try_parse_byte_array_download_request host data =
     do {
       c \<leftarrow> deserialize host data start_codec;
       Some (do {
         info \<leftarrow> set_required host T_int64 ''file_id'' c (\<lambda>x. drq_file_id_update (\<lambda>_. of_nat x))
           new_DownloadRequestTransfer;
         set_lenient host T_int64 ''task_id'' c (\<lambda>x. drq_task_id_update (\<lambda>_. of_nat x)) info
       })
     }"

definition set_string ::
  "(DataType \<Rightarrow> bytes \<Rightarrow> string) \<Rightarrow> string \<Rightarrow> SerializeCodec \<Rightarrow> (string \<Rightarrow> 'a \<Rightarrow> 'a) \<Rightarrow> 'a \<Rightarrow> 'a" where
  "set_string sp key c set_it info =
     (case get_parsed_field key c of
        None \<Rightarrow> info | Some f \<Rightarrow> set_it (SerializeField_as_string sp f) info)"

definition try_parse_byte_array_download_response ::
  "ByteOrder \<Rightarrow> (DataType \<Rightarrow> bytes \<Rightarrow> string) \<Rightarrow> bytes \<Rightarrow> DownloadResponseTransfer option option" where
  "try_parse_byte_array_download_response host sp body =
     do {
       c \<leftarrow> deserialize host body start_codec;
       Some (do {
         info \<leftarrow> set_lenient host T_int64 ''task_id'' c (\<lambda>x. drs_task_id_update (\<lambda>_. of_nat x))
           new_DownloadResponseTransfer;
         info \<leftarrow> set_optional host T_int64 ''file_id'' c (\<lambda>x. drs_file_id_update (\<lambda>_. of_nat x)) info;
         let info = set_string sp ''file_name'' c (\<lambda>s. drs_file_name_update (\<lambda>_. s)) info;
         info \<leftarrow> set_optional host T_int64 ''file_size'' c (\<lambda>x. drs_file_size_update (\<lambda>_. of_nat x)) info;
         Some (set_string sp ''md5_code'' c (\<lambda>s. drs_md5_code_update (\<lambda>_. s)) info)
       })
     }"

definition try_parse_byte_array_test_request ::
  "ByteOrder \<Rightarrow> (DataType \<Rightarrow> bytes \<Rightarrow> string) \<Rightarrow> bytes \<Rightarrow> TestRequestTransfer option option" where
  "try_parse_byte_array_test_request host sp data =
     do {
       c \<leftarrow> deserialize host data start_codec;
       Some (case get_parsed_field ''message'' c of
               None \<Rightarrow> None
             | Some f \<Rightarrow> Some \<lparr>trq_message = SerializeField_as_string sp f\<rparr>)
     }"

definition try_parse_byte_array_test_response ::
  "ByteOrder \<Rightarrow> (DataType \<Rightarrow> bytes \<Rightarrow> string) \<Rightarrow> bytes \<Rightarrow> TestResponseTransfer option option" where
  "try_parse_byte_array_test_response host sp body =
     do {
       c \<leftarrow> deserialize host body start_codec;
       Some (case get_parsed_field ''message'' c of
               None \<Rightarrow> None
             | Some f \<Rightarrow> Some \<lparr>trs_message = SerializeField_as_string sp f\<rparr>)
     }"

section \<open>The fields of the messages\<close>

text \<open>A message with these fields is built and parsed without loss.\<close>

definition sendable :: "SerializeField list \<Rightarrow> bool" where
  "sendable fs \<longleftrightarrow> message_wf fs \<and> (\<forall>f \<in> set fs. accepts default_SerializeConfig f)"

lemma build_message:
  assumes "sendable fs"
  shows "fold_option (serialize host) fs start_codec \<bind> finish_message host = Some (message_bytes fs)"
proof -
  have "room_for start_codec fs"
    using assms by (simp add: sendable_def message_wf_def room_for_def start_codec_def new_codec_def
        built_fields_def field_wf_def)
  moreover have "build_ok start_codec"
    by (simp add: start_codec_def)
  ultimately obtain c' where c': "fold_option (serialize host) fs start_codec = Some c'" "build_ok c'"
    "built_fields c' = fs"
    using serialize_all [of start_codec fs host]
    by (auto simp: start_codec_def new_codec_def built_fields_def)
  obtain c'' where "get_serialized_data_vector_build host c' = Some (message_bytes fs, c'')"
    using finalize_message [OF c'(2)] c'(3) by metis
  with c' show ?thesis by (simp add: finish_message_def)
qed

text \<open>The same with the code that goes on with the bytes.\<close>

lemma build_message_then:
  assumes "sendable fs"
  shows "fold_option (serialize host) fs start_codec \<bind> (\<lambda>c. finish_message host c \<bind> g) =
    g (message_bytes fs)"
proof -
  have "fold_option (serialize host) fs start_codec \<bind> (\<lambda>c. finish_message host c \<bind> g) =
      (fold_option (serialize host) fs start_codec \<bind> finish_message host) \<bind> g"
    by simp
  then show ?thesis by (simp only: build_message [OF assms] Option.bind.simps)
qed

lemma parse_message:
  assumes "sendable fs"
  obtains c where "deserialize host (message_bytes fs) start_codec = Some c"
    and "\<And>key. get_parsed_field key c = map_of (map named_field fs) key"
proof -
  have wf: "message_wf fs" and l: "length (message_bytes fs @ []) < 2 ^ 32"
    using assms by (simp_all add: sendable_def message_wf_def length_message_bytes)
  define c where "c = start_codec\<lparr>m_serialized_byte_array_parsed := message_bytes fs,
    m_serialized_data_map_parsed := map named_field fs\<rparr>"
  have "m_serialized_data_map_parsed start_codec = []"
    by (simp add: start_codec_def new_codec_def)
  then have "deserialize host (message_bytes fs) start_codec = Some c"
    using deserialize_message [OF wf l, of host start_codec] by (simp add: c_def)
  then show thesis
    by (rule that) (simp add: get_parsed_field_def c_def)
qed

definition bytes_fields :: "ByteOrder \<Rightarrow> bytes \<Rightarrow> string \<Rightarrow> SerializeField list" where
  "bytes_fields host bs n = (if bs = [] then [] else [vector_field host T_uint8 (map unat bs) n])"

definition i64_field :: "ByteOrder \<Rightarrow> u64 \<Rightarrow> string \<Rightarrow> SerializeField" where
  "i64_field host x n = value_field host T_int64 (unat x) n"

definition request_fields :: "ByteOrder \<Rightarrow> EnvelopeRequestTransfer \<Rightarrow> SerializeField list" where
  "request_fields host info =
     [value_field host T_uint16 (unat (req_version info)) ''version'',
      value_field host T_uint64 (unat (req_id info)) ''request_id'',
      value_field host T_uint8 (unat (req_type info)) ''request_type'',
      string_field (req_path info) ''path'',
      value_field host T_uint8 (unat (ContentType_code (req_content_type info))) ''content_type''] @
     bytes_fields host (req_body info) ''body''"

definition response_fields :: "ByteOrder \<Rightarrow> EnvelopeResponseTransfer \<Rightarrow> SerializeField list" where
  "response_fields host info =
     [value_field host T_uint16 (unat (res_version info)) ''version'',
      value_field host T_uint64 (unat (res_id info)) ''request_id'',
      value_field host T_uint16 (unat (ResponseStatus_code (res_status info))) ''status'',
      value_field host T_uint8 (unat (ContentType_code (res_content_type info))) ''content_type''] @
     bytes_fields host (res_body info) ''body''"

definition block_request_fields :: "ByteOrder \<Rightarrow> BlockRequestTransfer \<Rightarrow> SerializeField list" where
  "block_request_fields host t =
     [i64_field host (brq_block_id t) ''block_id'', i64_field host (brq_file_id t) ''file_id'',
      i64_field host (brq_task_id t) ''task_id'', i64_field host (brq_offset t) ''offset'',
      i64_field host (brq_block_size t) ''block_size'']"

definition block_response_fields :: "ByteOrder \<Rightarrow> BlockResponseTransfer \<Rightarrow> SerializeField list" where
  "block_response_fields host t =
     [i64_field host (brs_block_id t) ''block_id'', i64_field host (brs_file_id t) ''file_id'',
      i64_field host (brs_task_id t) ''task_id'', i64_field host (brs_offset t) ''offset'',
      i64_field host (brs_block_size t) ''block_size''] @ bytes_fields host (brs_data t) ''data''"

definition download_request_fields :: "ByteOrder \<Rightarrow> DownloadRequestTransfer \<Rightarrow> SerializeField list" where
  "download_request_fields host t =
     [i64_field host (drq_file_id t) ''file_id'', i64_field host (drq_task_id t) ''task_id'']"

definition download_response_fields :: "ByteOrder \<Rightarrow> DownloadResponseTransfer \<Rightarrow> SerializeField list" where
  "download_response_fields host t =
     [i64_field host (drs_task_id t) ''task_id'', i64_field host (drs_file_id t) ''file_id'',
      string_field (drs_file_name t) ''file_name'', i64_field host (drs_file_size t) ''file_size'',
      string_field (drs_md5_code t) ''md5_code'']"

lemmas message_fields_defs = request_fields_def response_fields_def block_request_fields_def
  block_response_fields_def download_request_fields_def download_response_fields_def

definition max_value :: nat where "max_value = 268435456"

text \<open>Which typed fields the default configuration takes.\<close>

definition field_ok :: "SerializeField \<Rightarrow> bool" where
  "field_ok f \<longleftrightarrow> field_wf f \<and> accepts default_SerializeConfig f"

lemma sendableI:
  "(\<And>f. f \<in> set fs \<Longrightarrow> field_ok f) \<Longrightarrow> length fs < 2 ^ 16 \<Longrightarrow> 16 + length (body_bytes fs) < 2 ^ 32 \<Longrightarrow>
     sendable fs"
  by (auto simp: sendable_def message_wf_def field_ok_def)

lemma field_ok_value:
  assumes "is_number_type T" "length n \<le> 128"
  shows "field_ok (value_field host T x n)"
proof -
  have "length n < 65536" using assms(2) by simp
  moreover have "cpp_sizeof T \<le> 268435456"
    using cpp_sizeof_less [of T] by simp
  ultimately show ?thesis
    using value_field_wf [of T n host x] assms
    by (simp add: field_ok_def accepts_def default_SerializeConfig_def value_field_def to_byte_array_def)
qed

lemma field_ok_string:
  "length s \<le> max_value \<Longrightarrow> length n \<le> 128 \<Longrightarrow> field_ok (string_field s n)"
  using string_field_wf [of n s]
  by (simp add: field_ok_def accepts_def default_SerializeConfig_def string_field_def max_value_def)

lemma field_ok_bytes:
  assumes "f \<in> set (bytes_fields host bs n)" "10 + length bs \<le> max_value" "length n \<le> 128"
  shows "field_ok f"
proof (cases "length bs = 1")
  case True
  then have "f = value_field host T_uint8 (unat (hd bs)) n"
    using assms(1) by (cases bs) (auto simp: bytes_fields_def vector_field_def)
  then show ?thesis
    using assms(3) by (simp add: field_ok_value is_number_type_def)
next
  case False
  then have f: "f = array_field T_uint8 (map unat bs) n"
    using assms(1) by (auto simp: bytes_fields_def vector_field_def split: if_splits)
  show ?thesis
    using array_field_wf [of n T_uint8 "map unat bs"] assms(2,3) unfolding f
    by (simp add: field_ok_def accepts_def default_SerializeConfig_def array_field_def max_value_def
        length_array_bytes array_of_def cpp_sizeof_def unat_add_u32 del: map_map)
qed

lemma length_body_bytes_fields:
  "length (body_bytes (bytes_fields host bs n)) \<le> 18 + length n + length bs"
  by (auto simp: bytes_fields_def vector_field_def length_field_bytes_typed cpp_sizeof_def)

lemma field_ok_i64: "length n \<le> 128 \<Longrightarrow> field_ok (i64_field host x n)"
  by (simp add: i64_field_def field_ok_value is_number_type_def)

lemmas field_ok_intros = field_ok_value field_ok_string field_ok_bytes field_ok_i64

lemma named_i64 [simp]: "named_field (i64_field host x n) = (n, i64_field host x n)"
  by (simp add: i64_field_def)

lemma length_body_i64 [simp]: "length (field_bytes (i64_field host x n)) = 12 + length n"
  by (simp add: i64_field_def length_field_bytes_typed cpp_sizeof_def)

lemma sendable_request:
  assumes "length (req_path info) \<le> max_value" "10 + length (req_body info) \<le> max_value"
  shows "sendable (request_fields host info)"
proof (rule sendableI)
  show "field_ok f" if "f \<in> set (request_fields host info)" for f
    using that assms
    by (auto simp: request_fields_def is_number_type_def intro: field_ok_intros)
  show "length (request_fields host info) < 2 ^ 16"
    by (simp add: request_fields_def bytes_fields_def)
  show "16 + length (body_bytes (request_fields host info)) < 2 ^ 32"
    using assms length_body_bytes_fields [of host "req_body info" "''body''"]
    by (simp add: request_fields_def length_field_bytes_typed cpp_sizeof_def max_value_def)
qed

lemma sendable_response:
  assumes "10 + length (res_body info) \<le> max_value"
  shows "sendable (response_fields host info)"
proof (rule sendableI)
  show "field_ok f" if "f \<in> set (response_fields host info)" for f
    using that assms
    by (auto simp: response_fields_def is_number_type_def intro: field_ok_intros)
  show "length (response_fields host info) < 2 ^ 16"
    by (simp add: response_fields_def bytes_fields_def)
  show "16 + length (body_bytes (response_fields host info)) < 2 ^ 32"
    using assms length_body_bytes_fields [of host "res_body info" "''body''"]
    by (simp add: response_fields_def length_field_bytes_typed cpp_sizeof_def max_value_def)
qed

lemma sendable_block_request: "sendable (block_request_fields host t)"
  by (rule sendableI) (auto simp: block_request_fields_def intro: field_ok_intros)

lemma sendable_download_request: "sendable (download_request_fields host t)"
  by (rule sendableI) (auto simp: download_request_fields_def intro: field_ok_intros)

lemma sendable_block_response:
  assumes "10 + length (brs_data t) \<le> max_value"
  shows "sendable (block_response_fields host t)"
proof (rule sendableI)
  show "field_ok f" if "f \<in> set (block_response_fields host t)" for f
    using that assms by (auto simp: block_response_fields_def intro: field_ok_intros)
  show "length (block_response_fields host t) < 2 ^ 16"
    by (simp add: block_response_fields_def bytes_fields_def)
  show "16 + length (body_bytes (block_response_fields host t)) < 2 ^ 32"
    using assms length_body_bytes_fields [of host "brs_data t" "''data''"]
    by (simp add: block_response_fields_def max_value_def)
qed

lemma sendable_download_response:
  assumes "length (drs_file_name t) \<le> max_value" "length (drs_md5_code t) \<le> max_value"
  shows "sendable (download_response_fields host t)"
proof (rule sendableI)
  show "field_ok f" if "f \<in> set (download_response_fields host t)" for f
    using that assms by (auto simp: download_response_fields_def intro: field_ok_intros)
qed (use assms in \<open>simp_all add: download_response_fields_def length_field_bytes_typed max_value_def\<close>)

lemma sendable_message: "length s \<le> max_value \<Longrightarrow> sendable [string_field s ''message'']"
  by (rule sendableI) (auto simp: length_field_bytes_typed max_value_def intro: field_ok_intros)

section \<open>What the builders build\<close>

lemma serialize_bytes_fields:
  assumes "10 + length bs \<le> max_value"
  shows "serialize_bytes host bs n c = fold_option (serialize host) (bytes_fields host bs n) c"
proof (cases "bs = []")
  case True
  then show ?thesis by (simp add: serialize_bytes_def bytes_fields_def)
next
  case False
  have "serialize_vector host T_uint8 (map unat bs) n c =
      serialize host (vector_field host T_uint8 (map unat bs) n) c"
    using assms False by (intro serialize_vector_field) (simp_all add: max_value_def cpp_sizeof_def)
  with False show ?thesis
    by (simp add: serialize_bytes_def bytes_fields_def)
qed

lemmas build_defs = serialize_value_def serialize_string_def serialize_i64_def
  i64_field_def [symmetric] fold_option_append serialize_bytes_fields

lemma build_request:
  assumes "length (req_path info) \<le> max_value" "10 + length (req_body info) \<le> max_value"
  shows "build_request_byte_array host info = Some (message_bytes (request_fields host info))"
  using build_message [OF sendable_request [OF assms], of host] assms(2)
  by (simp add: build_request_byte_array_def request_fields_def build_defs)

lemma build_response:
  assumes "10 + length (res_body info) \<le> max_value"
  shows "build_response_byte_array host info = Some (message_bytes (response_fields host info))"
  using build_message [OF sendable_response [OF assms], of host] assms
  by (simp add: build_response_byte_array_def response_fields_def build_defs)

lemma build_block_response_body:
  assumes "10 + length (brs_data t) \<le> max_value"
  shows "block_response_body host t = Some (message_bytes (block_response_fields host t))"
  using build_message [OF sendable_block_response [OF assms], of host] assms
  by (simp add: block_response_body_def block_response_fields_def build_defs)

definition test_fields :: "string \<Rightarrow> SerializeField list" where
  "test_fields s = [string_field s ''message'']"

text \<open>The envelopes of the requests.\<close>

definition test_envelope :: "u64 \<Rightarrow> bytes \<Rightarrow> EnvelopeRequestTransfer" where
  "test_envelope request_id body =
     \<lparr>req_version = 1, req_id = request_id, req_type = 1, req_path = ''/test'',
      req_content_type = DaneJoe_Content, req_body = body\<rparr>"

definition download_envelope :: "u64 \<Rightarrow> bytes \<Rightarrow> EnvelopeRequestTransfer" where
  "download_envelope request_id body =
     \<lparr>req_version = 1, req_id = request_id, req_type = 0, req_path = ''/download'',
      req_content_type = DaneJoe_Content, req_body = body\<rparr>"

definition block_envelope :: "u64 \<Rightarrow> bytes \<Rightarrow> EnvelopeRequestTransfer" where
  "block_envelope request_id body =
     \<lparr>req_version = 1, req_id = request_id, req_type = 0, req_path = ''/block'',
      req_content_type = DaneJoe_Content, req_body = body\<rparr>"

lemmas envelope_defs = test_envelope_def download_envelope_def block_envelope_def

lemma build_test_request:
  assumes "length (trq_message t) \<le> max_value"
  shows "build_test_request_byte_array host t request_id =
    build_request_byte_array host (test_envelope request_id (message_bytes (test_fields (trq_message t))))"
  using build_message_then [OF sendable_message [OF assms], of host]
  by (simp add: build_test_request_byte_array_def test_fields_def test_envelope_def build_defs)

lemma build_download_request:
  "build_download_request_byte_array host t request_id =
    build_request_byte_array host (download_envelope request_id (message_bytes (download_request_fields host t)))"
  using build_message_then [OF sendable_download_request [of host t], of host]
  by (simp add: build_download_request_byte_array_def download_request_fields_def download_envelope_def
      build_defs)

lemma build_block_request:
  "build_block_request_byte_array host t request_id =
    build_request_byte_array host (block_envelope request_id (message_bytes (block_request_fields host t)))"
  using build_message_then [OF sendable_block_request [of host t], of host]
  by (simp add: build_block_request_byte_array_def block_request_fields_def block_envelope_def
      build_defs)

lemma build_block_response:
  assumes "10 + length (brs_data t) \<le> max_value"
  shows "build_block_response_byte_array host t request_id =
    build_response_byte_array host (ok_response request_id (message_bytes (block_response_fields host t)))"
  by (simp add: build_block_response_byte_array_def build_block_response_body [OF assms])

lemma build_download_response:
  assumes "length (drs_file_name t) \<le> max_value" "length (drs_md5_code t) \<le> max_value"
  shows "build_download_response_byte_array host t request_id =
    build_response_byte_array host (ok_response request_id (message_bytes (download_response_fields host t)))"
  using build_message_then [OF sendable_download_response [OF assms], of host host]
  by (simp add: build_download_response_byte_array_def download_response_fields_def build_defs)

lemma build_test_response:
  assumes "length (trs_message t) \<le> max_value"
  shows "build_test_response_byte_array host t request_id =
    build_response_byte_array host (ok_response request_id (message_bytes (test_fields (trs_message t))))"
  using build_message_then [OF sendable_message [OF assms], of host]
  by (simp add: build_test_response_byte_array_def test_fields_def build_defs)

section \<open>What the parsers read\<close>

lemma to_value_word:
  assumes "is_number_type T" "2 ^ LENGTH('a) = (256 :: nat) ^ cpp_sizeof T"
  shows "to_value host T (value_field host T (unat (w :: 'a::len word)) n) = Some (unat w)"
  using unsigned_less [of w, where 'a = nat] assms(2)
  by (simp add: to_value_value_field)

lemma to_value_fields [simp]:
  "to_value host T_uint8 (value_field host T_uint8 (unat (w8 :: u8)) n) = Some (unat w8)"
  "to_value host T_uint16 (value_field host T_uint16 (unat (w16 :: u16)) n) = Some (unat w16)"
  "to_value host T_uint64 (value_field host T_uint64 (unat (w64 :: u64)) n) = Some (unat w64)"
  "to_value host T_int64 (i64_field host w64 n) = Some (unat w64)"
  by (simp_all add: to_value_word i64_field_def is_number_type_def cpp_sizeof_def)

lemma to_byte_vector_field:
  assumes "10 + length bs \<le> max_value" "length bs \<noteq> 1"
  shows "to_byte_vector host (vector_field host T_uint8 (map unat bs) n) = Some bs"
proof -
  have "to_array host T_uint8 (array_field T_uint8 (map unat bs) n) = Some (map unat bs)"
    using assms(1) by (intro to_array_array_field) (auto simp: cpp_sizeof_def max_value_def)
  then show ?thesis
    using assms(2) by (simp add: to_byte_vector_def vector_field_def comp_def)
qed

lemma to_byte_vector_single:
  "to_byte_vector host (vector_field host T_uint8 [x] n) = Some []"
  by (simp add: to_byte_vector_def to_array_single is_number_type_def)

lemma map_named_bytes_fields:
  "map named_field (bytes_fields host bs n) =
     (if bs = [] then [] else [(n, vector_field host T_uint8 (map unat bs) n)])"
  by (simp add: bytes_fields_def)

text \<open>What an envelope arrives as: a body of one byte is lost on the way.\<close>

definition arriving :: "bytes \<Rightarrow> bytes" where
  "arriving bs = (if length bs = 1 then [] else bs)"

lemma to_byte_vector_arriving:
  "10 + length bs \<le> max_value \<Longrightarrow>
     to_byte_vector host (vector_field host T_uint8 (map unat bs) n) = Some (arriving bs)"
  by (cases "length bs = 1")
     (auto simp: arriving_def to_byte_vector_field to_byte_vector_single length_Suc_conv)

lemmas parse_defs = set_optional_def set_required_def set_lenient_def set_body_def set_path_def
  set_string_def map_named_bytes_fields

lemma parse_request:
  assumes "length (req_path t) \<le> max_value" "10 + length (req_body t) \<le> max_value"
    and "req_path t \<noteq> []" "ContentType_valid (req_content_type t)"
  shows "try_parse_byte_array_request host sp junk (message_bytes (request_fields host t)) =
    Some (Some (t\<lparr>req_body := arriving (req_body t)\<rparr>))"
proof -
  obtain c where c: "deserialize host (message_bytes (request_fields host t)) start_codec = Some c"
    "\<And>key. get_parsed_field key c = map_of (map named_field (request_fields host t)) key"
    using parse_message [OF sendable_request [OF assms(1,2)]] by blast
  show ?thesis
    using assms
    unfolding try_parse_byte_array_request_def c(1) Option.bind.simps
    by (cases t) (simp add: c(2) request_fields_def string_of_string_field to_byte_vector_arriving arriving_def parse_defs)
qed

lemma parse_response:
  assumes "10 + length (res_body t) \<le> max_value"
    and "ContentType_valid (res_content_type t)" "ResponseStatus_valid (res_status t)"
  shows "try_parse_byte_array_response host junk (message_bytes (response_fields host t)) =
    Some (Some (t\<lparr>res_body := arriving (res_body t)\<rparr>))"
proof -
  obtain c where c: "deserialize host (message_bytes (response_fields host t)) start_codec = Some c"
    "\<And>key. get_parsed_field key c = map_of (map named_field (response_fields host t)) key"
    using parse_message [OF sendable_response [OF assms(1)]] by blast
  show ?thesis
    using assms
    unfolding try_parse_byte_array_response_def c(1) Option.bind.simps
    by (cases t) (simp add: c(2) response_fields_def to_byte_vector_arriving arriving_def parse_defs)
qed

lemma parse_block_request:
  shows "try_parse_byte_array_block_request host (message_bytes (block_request_fields host t)) =
    Some (Some t)"
proof -
  obtain c where c: "deserialize host (message_bytes (block_request_fields host t)) start_codec = Some c"
    "\<And>key. get_parsed_field key c = map_of (map named_field (block_request_fields host t)) key"
    using parse_message [OF sendable_block_request] by blast
  show ?thesis
    unfolding try_parse_byte_array_block_request_def c(1) Option.bind.simps
    by (cases t) (simp add: c(2) block_request_fields_def new_BlockRequestTransfer_def parse_defs)
qed

lemma parse_download_request:
  shows "try_parse_byte_array_download_request host (message_bytes (download_request_fields host t)) =
    Some (Some t)"
proof -
  obtain c where c: "deserialize host (message_bytes (download_request_fields host t)) start_codec = Some c"
    "\<And>key. get_parsed_field key c = map_of (map named_field (download_request_fields host t)) key"
    using parse_message [OF sendable_download_request] by blast
  show ?thesis
    unfolding try_parse_byte_array_download_request_def c(1) Option.bind.simps
    by (cases t) (simp add: c(2) download_request_fields_def new_DownloadRequestTransfer_def parse_defs)
qed

lemma parse_block_response:
  assumes "10 + length (brs_data t) \<le> max_value"
  shows "try_parse_byte_array_block_response host (message_bytes (block_response_fields host t)) =
    Some (if brs_data t = [] then None else Some (t\<lparr>brs_data := arriving (brs_data t)\<rparr>))"
proof -
  obtain c where c: "deserialize host (message_bytes (block_response_fields host t)) start_codec = Some c"
    "\<And>key. get_parsed_field key c = map_of (map named_field (block_response_fields host t)) key"
    using parse_message [OF sendable_block_response [OF assms]] by blast
  show ?thesis
    using assms
    unfolding try_parse_byte_array_block_response_def c(1) Option.bind.simps
    by (cases t) (simp add: c(2) block_response_fields_def new_BlockResponseTransfer_def to_byte_vector_arriving arriving_def parse_defs)
qed

lemma parse_download_response:
  assumes "length (drs_file_name t) \<le> max_value" "length (drs_md5_code t) \<le> max_value"
  shows "try_parse_byte_array_download_response host sp (message_bytes (download_response_fields host t)) =
    Some (Some t)"
proof -
  obtain c where c: "deserialize host (message_bytes (download_response_fields host t)) start_codec = Some c"
    "\<And>key. get_parsed_field key c = map_of (map named_field (download_response_fields host t)) key"
    using parse_message [OF sendable_download_response [OF assms]] by blast
  show ?thesis
    unfolding try_parse_byte_array_download_response_def c(1) Option.bind.simps
    by (cases t) (simp add: c(2) download_response_fields_def new_DownloadResponseTransfer_def string_of_string_field parse_defs)
qed

lemma parse_test_request:
  assumes "length (trq_message t) \<le> max_value"
  shows "try_parse_byte_array_test_request host sp (message_bytes (test_fields (trq_message t))) =
    Some (Some t)"
proof -
  obtain c where c: "deserialize host (message_bytes (test_fields (trq_message t))) start_codec = Some c"
    "\<And>key. get_parsed_field key c = map_of (map named_field (test_fields (trq_message t))) key"
    using parse_message [OF sendable_message [OF assms, folded test_fields_def]] by blast
  show ?thesis
    unfolding try_parse_byte_array_test_request_def c(1) Option.bind.simps
    by (cases t) (simp add: c(2) test_fields_def string_of_string_field parse_defs)
qed

lemma parse_test_response:
  assumes "length (trs_message t) \<le> max_value"
  shows "try_parse_byte_array_test_response host sp (message_bytes (test_fields (trs_message t))) =
    Some (Some t)"
proof -
  obtain c where c: "deserialize host (message_bytes (test_fields (trs_message t))) start_codec = Some c"
    "\<And>key. get_parsed_field key c = map_of (map named_field (test_fields (trs_message t))) key"
    using parse_message [OF sendable_message [OF assms, folded test_fields_def]] by blast
  show ?thesis
    unfolding try_parse_byte_array_test_response_def c(1) Option.bind.simps
    by (cases t) (simp add: c(2) test_fields_def string_of_string_field parse_defs)
qed

section \<open>Properties\<close>

lemma arriving_message [simp]: "arriving (message_bytes fs) = message_bytes fs"
  by (simp add: arriving_def length_message_bytes)

definition sample_request :: EnvelopeRequestTransfer where
  "sample_request =
     \<lparr>req_version = 1, req_id = 77, req_type = 1, req_path = ''/test'',
      req_content_type = DaneJoe_Content, req_body = [1, 2, 3]\<rparr>"

text \<open>C35: The envelope of a request that the client builds is what the server parses, up to a body of
  exactly one byte, which arrives empty; path and body have to be within the limits of the
  codec, and the path must not be empty.\<close>

theorem request_round_trip:
  assumes "length (req_path t) \<le> max_value" "10 + length (req_body t) \<le> max_value"
    and "req_path t \<noteq> []" "ContentType_valid (req_content_type t)"
  shows "\<exists>bs. build_request_byte_array host t = Some bs \<and>
    try_parse_byte_array_request host sp junk bs =
      Some (Some (t\<lparr>req_body := if length (req_body t) = 1 then [] else req_body t\<rparr>))"
  using build_request [OF assms(1,2), of host] parse_request [OF assms, of host sp junk]
  by (simp add: arriving_def)

theorem request_round_trip_witness:
  "\<exists>bs. build_request_byte_array LittleEndian sample_request = Some bs \<and>
    try_parse_byte_array_request LittleEndian (\<lambda>_ _. []) sample_request bs =
      Some (Some (sample_request\<lparr>req_body :=
        if length (req_body sample_request) = 1 then [] else req_body sample_request\<rparr>))"
  by (rule request_round_trip) (simp_all add: sample_request_def max_value_def)

text \<open>The same for the envelope of a response that the server builds and the client parses.\<close>

theorem response_round_trip:
  assumes "10 + length (res_body t) \<le> max_value"
    and "ContentType_valid (res_content_type t)" "ResponseStatus_valid (res_status t)"
  shows "\<exists>bs. build_response_byte_array host t = Some bs \<and>
    try_parse_byte_array_response host junk bs =
      Some (Some (t\<lparr>res_body := if length (res_body t) = 1 then [] else res_body t\<rparr>))"
  using build_response [OF assms(1), of host] parse_response [OF assms, of host junk]
  by (simp add: arriving_def)

theorem response_round_trip_witness:
  "\<exists>bs. build_response_byte_array BigEndian (ok_response 5 [4, 2]) = Some bs \<and>
    try_parse_byte_array_response BigEndian (ok_response 0 []) bs =
      Some (Some ((ok_response 5 [4, 2])\<lparr>res_body :=
        if length (res_body (ok_response 5 [4, 2])) = 1 then [] else res_body (ok_response 5 [4, 2])\<rparr>))"
  by (rule response_round_trip) (simp_all add: ok_response_def max_value_def)

text \<open>A block request of the client reaches the server: the envelope names the path
  \<open>/block\<close> and its body parses to the request, every number unchanged.\<close>

theorem block_request_reaches_server:
  "\<exists>bs envelope. build_block_request_byte_array host t request_id = Some bs \<and>
    try_parse_byte_array_request host sp junk bs = Some (Some envelope) \<and>
    req_path envelope = ''/block'' \<and> req_id envelope = request_id \<and>
    try_parse_byte_array_block_request host (req_body envelope) = Some (Some t)"
proof -
  let ?body = "message_bytes (block_request_fields host t)"
  let ?e = "block_envelope request_id ?body"
  have ok: "length (req_path ?e) \<le> max_value" "10 + length (req_body ?e) \<le> max_value"
    "req_path ?e \<noteq> []" "ContentType_valid (req_content_type ?e)"
    by (simp_all add: block_envelope_def max_value_def length_message_bytes block_request_fields_def)
  show ?thesis
    using build_request [OF ok(1,2), of host] parse_request [OF ok, of host sp junk]
      parse_block_request [of host t]
    by (simp add: build_block_request) (simp add: block_envelope_def)
qed

text \<open>A download request of the client reaches the server in the same way.\<close>

theorem download_request_reaches_server:
  "\<exists>bs envelope. build_download_request_byte_array host t request_id = Some bs \<and>
    try_parse_byte_array_request host sp junk bs = Some (Some envelope) \<and>
    req_path envelope = ''/download'' \<and> req_id envelope = request_id \<and>
    try_parse_byte_array_download_request host (req_body envelope) = Some (Some t)"
proof -
  let ?body = "message_bytes (download_request_fields host t)"
  let ?e = "download_envelope request_id ?body"
  have ok: "length (req_path ?e) \<le> max_value" "10 + length (req_body ?e) \<le> max_value"
    "req_path ?e \<noteq> []" "ContentType_valid (req_content_type ?e)"
    by (simp_all add: download_envelope_def max_value_def length_message_bytes download_request_fields_def)
  show ?thesis
    using build_request [OF ok(1,2), of host] parse_request [OF ok, of host sp junk]
      parse_download_request [of host t]
    by (simp add: build_download_request) (simp add: download_envelope_def)
qed

lemma block_response_arrives:
  assumes "1000 + length (brs_data t) \<le> max_value"
  shows "\<exists>bs envelope. build_block_response_byte_array host t request_id = Some bs \<and>
    try_parse_byte_array_response host junk bs = Some (Some envelope) \<and>
    res_status envelope = Ok \<and> res_id envelope = request_id \<and>
    try_parse_byte_array_block_response host (res_body envelope) =
      Some (if brs_data t = [] then None
            else Some (t\<lparr>brs_data := if length (brs_data t) = 1 then [] else brs_data t\<rparr>))"
proof -
  let ?body = "message_bytes (block_response_fields host t)"
  let ?e = "ok_response request_id ?body"
  have l: "10 + length (brs_data t) \<le> max_value" using assms by simp
  have "length ?body \<le> 300 + length (brs_data t)"
    using length_body_bytes_fields [of host "brs_data t" "''data''"]
    by (simp add: length_message_bytes block_response_fields_def)
  then have ok: "10 + length (res_body ?e) \<le> max_value"
    "ContentType_valid (res_content_type ?e)" "ResponseStatus_valid (res_status ?e)"
    using assms by (simp_all add: ok_response_def)
  show ?thesis
    using build_response [OF ok(1), of host] parse_response [OF ok, of host junk]
      parse_block_response [OF l, of host]
    by (simp add: build_block_response [OF l]) (simp add: ok_response_def arriving_def length_message_bytes)
qed

text \<open>A block response of the server reaches the client with all its numbers, and with its
  data when they are two bytes or more. A block of one byte arrives without data, and a
  response without data, which is what the server sends for a block it did not find, is not
  understood by the client at all.\<close>

theorem block_response_reaches_client:
  assumes "1000 + length (brs_data t) \<le> max_value"
  shows "\<exists>bs envelope. build_block_response_byte_array host t request_id = Some bs \<and>
    try_parse_byte_array_response host junk bs = Some (Some envelope) \<and>
    res_status envelope = Ok \<and> res_id envelope = request_id \<and>
    try_parse_byte_array_block_response host (res_body envelope) =
      Some (if brs_data t = [] then None
            else Some (t\<lparr>brs_data := if length (brs_data t) = 1 then [] else brs_data t\<rparr>))"
  by (rule block_response_arrives [OF assms])

definition sample_block :: BlockResponseTransfer where
  "sample_block = new_BlockResponseTransfer\<lparr>brs_block_id := 3, brs_block_size := 4, brs_data := [1, 2, 3, 4]\<rparr>"

theorem block_response_reaches_client_witness:
  "\<exists>bs envelope. build_block_response_byte_array LittleEndian sample_block 9 = Some bs \<and>
    try_parse_byte_array_response LittleEndian (ok_response 0 []) bs = Some (Some envelope) \<and>
    res_status envelope = Ok \<and> res_id envelope = 9 \<and>
    try_parse_byte_array_block_response LittleEndian (res_body envelope) =
      Some (if brs_data sample_block = [] then None
            else Some (sample_block\<lparr>brs_data :=
              if length (brs_data sample_block) = 1 then [] else brs_data sample_block\<rparr>))"
  by (rule block_response_reaches_client) (simp add: sample_block_def max_value_def)

text \<open>A download response reaches the client with its numbers, name and checksum.\<close>

theorem download_response_reaches_client:
  assumes "1000 + length (drs_file_name t) + length (drs_md5_code t) \<le> max_value"
  shows "\<exists>bs envelope. build_download_response_byte_array host t request_id = Some bs \<and>
    try_parse_byte_array_response host junk bs = Some (Some envelope) \<and>
    res_status envelope = Ok \<and> res_id envelope = request_id \<and>
    try_parse_byte_array_download_response host sp (res_body envelope) = Some (Some t)"
proof -
  let ?body = "message_bytes (download_response_fields host t)"
  let ?e = "ok_response request_id ?body"
  have l: "length (drs_file_name t) \<le> max_value" "length (drs_md5_code t) \<le> max_value"
    using assms by simp_all
  have "length ?body \<le> 300 + length (drs_file_name t) + length (drs_md5_code t)"
    by (simp add: length_message_bytes download_response_fields_def length_field_bytes_typed)
  then have ok: "10 + length (res_body ?e) \<le> max_value"
    "ContentType_valid (res_content_type ?e)" "ResponseStatus_valid (res_status ?e)"
    using assms by (simp_all add: ok_response_def)
  show ?thesis
    using build_response [OF ok(1), of host] parse_response [OF ok, of host junk]
      parse_download_response [OF l, of host sp]
    by (simp add: build_download_response [OF l]) (simp add: ok_response_def)
qed

theorem download_response_reaches_client_witness:
  "\<exists>bs envelope. build_download_response_byte_array BigEndian new_DownloadResponseTransfer 9 = Some bs \<and>
    try_parse_byte_array_response BigEndian (ok_response 0 []) bs = Some (Some envelope) \<and>
    res_status envelope = Ok \<and> res_id envelope = 9 \<and>
    try_parse_byte_array_download_response BigEndian (\<lambda>_ _. []) (res_body envelope) =
      Some (Some new_DownloadResponseTransfer)"
  by (rule download_response_reaches_client) (simp add: new_DownloadResponseTransfer_def max_value_def)

end
