(* ===== verification/Endpoints.thy ===== *)
theory Endpoints
  imports Prelude
begin

text \<open>
  The endpoints of intervals, \<open>condition/endpoint_range\<close>: one-sided constraints on a value.
  The template parameter \<open>T\<close> is a type \<open>'a\<close> with a linear order, which is what the code
  assumes of the comparisons of \<open>T\<close>; an infinite endpoint has no value. The text of a value
  is made by the library \<open>stringify\<close> and is the parameter \<open>show_value\<close>.
\<close>

section \<open>Sides\<close>

datatype BoundarySide = Left | Right | Unknown_Side

definition BoundarySide_to_string :: "BoundarySide \<Rightarrow> string" where
  "BoundarySide_to_string side =
     (case side of
        Left \<Rightarrow> ''BoundarySide::Left''
      | Right \<Rightarrow> ''BoundarySide::Right''
      | _ \<Rightarrow> ''BoundarySide::Unknown'')"

definition BoundarySide_enum_cast :: "string \<Rightarrow> BoundarySide" where
  "BoundarySide_enum_cast s =
     (if s = ''BoundarySide::Left'' then Left
      else if s = ''BoundarySide::Right'' then Right
      else if s = ''BoundarySide::Unknown'' then Unknown_Side
      else Unknown_Side)"

interpretation boundary_side: enum_names BoundarySide_to_string BoundarySide_enum_cast "\<lambda>_. True"
proof
  show "BoundarySide_enum_cast (BoundarySide_to_string e) = e" for e
    by (cases e) (simp_all add: BoundarySide_to_string_def BoundarySide_enum_cast_def)
qed

section \<open>Endpoints\<close>

record 'a EndpointRange =
  ep_value :: "'a option"
  ep_is_open :: bool
  ep_side :: BoundarySide

definition infinite_endpoint :: "BoundarySide \<Rightarrow> 'a EndpointRange" where
  "infinite_endpoint side = \<lparr>ep_value = None, ep_is_open = True, ep_side = side\<rparr>"

definition new_endpoint :: "'a option \<Rightarrow> bool \<Rightarrow> BoundarySide \<Rightarrow> 'a EndpointRange" where
  "new_endpoint v is_open side =
     (let e = \<lparr>ep_value = v, ep_is_open = is_open, ep_side = side\<rparr>
      in if ep_value e = None then e\<lparr>ep_is_open := True\<rparr> else e)"

definition endpoint_eq :: "'a EndpointRange \<Rightarrow> 'a EndpointRange \<Rightarrow> bool" where
  "endpoint_eq a b \<longleftrightarrow>
     ep_value a = ep_value b \<and> ep_is_open a = ep_is_open b \<and> ep_side a = ep_side b"

definition endpoint_neq :: "'a EndpointRange \<Rightarrow> 'a EndpointRange \<Rightarrow> bool" where
  "endpoint_neq a b \<longleftrightarrow>
     ep_value a \<noteq> ep_value b \<or> ep_is_open a \<noteq> ep_is_open b \<or> ep_side a \<noteq> ep_side b"

definition endpoint_less :: "'a::linorder EndpointRange \<Rightarrow> 'a EndpointRange \<Rightarrow> bool" where
  "endpoint_less a b =
     (if endpoint_eq a b then False
      else
        (case (ep_value a, ep_value b) of
           (None, None) \<Rightarrow> ep_side a = Left \<and> ep_side b = Right
         | (Some v, Some w) \<Rightarrow>
             if v \<noteq> w then v < w
             else if ep_side a = ep_side b
             then (if ep_side a = Left then \<not> ep_is_open a else ep_is_open a)
             else ep_side a = Right
         | _ \<Rightarrow>
             if ep_side a = ep_side b
             then (if ep_side a = Left then ep_value a = None else ep_value a \<noteq> None)
             else ep_side a = Left))"

definition endpoint_greater :: "'a::linorder EndpointRange \<Rightarrow> 'a EndpointRange \<Rightarrow> bool" where
  "endpoint_greater a b = endpoint_less b a"

definition endpoint_le :: "'a::linorder EndpointRange \<Rightarrow> 'a EndpointRange \<Rightarrow> bool" where
  "endpoint_le a b \<longleftrightarrow> endpoint_less a b \<or> endpoint_eq a b"

definition endpoint_ge :: "'a::linorder EndpointRange \<Rightarrow> 'a EndpointRange \<Rightarrow> bool" where
  "endpoint_ge a b \<longleftrightarrow> endpoint_greater a b \<or> endpoint_eq a b"

definition endpoint_in_range :: "'a::linorder EndpointRange \<Rightarrow> 'a \<Rightarrow> bool" where
  "endpoint_in_range e x =
     (case ep_value e of
        None \<Rightarrow> True
      | Some v \<Rightarrow>
          if ep_side e = Right
          then (if x < v then True else if x > v then False else \<not> ep_is_open e)
          else (if x < v then False else if x > v then True else \<not> ep_is_open e))"

definition is_open :: "'a EndpointRange \<Rightarrow> bool" where "is_open e = ep_is_open e"
definition is_closed :: "'a EndpointRange \<Rightarrow> bool" where "is_closed e \<longleftrightarrow> \<not> ep_is_open e"
definition is_limited :: "'a EndpointRange \<Rightarrow> bool" where "is_limited e \<longleftrightarrow> ep_value e \<noteq> None"
definition is_left_limited :: "'a EndpointRange \<Rightarrow> bool" where "is_left_limited e \<longleftrightarrow> ep_side e = Left"
definition is_right_limited :: "'a EndpointRange \<Rightarrow> bool" where "is_right_limited e \<longleftrightarrow> ep_side e = Right"
definition get_value :: "'a EndpointRange \<Rightarrow> 'a option" where "get_value e = ep_value e"
definition get_side :: "'a EndpointRange \<Rightarrow> BoundarySide" where "get_side e = ep_side e"

definition get_adjacent_endpoint :: "'a EndpointRange \<Rightarrow> 'a EndpointRange" where
  "get_adjacent_endpoint e =
     (let new_side = (if ep_side e = Left then Right else Left)
      in new_endpoint (ep_value e) (\<not> ep_is_open e) new_side)"

definition is_adjacent_with :: "'a EndpointRange \<Rightarrow> 'a EndpointRange \<Rightarrow> bool" where
  "is_adjacent_with e other = endpoint_eq (get_adjacent_endpoint e) other"

fun endpoint_values_in_range :: "'a::linorder EndpointRange \<Rightarrow> 'a list \<Rightarrow> 'a list" where
  "endpoint_values_in_range e [] = []"
| "endpoint_values_in_range e (x # xs) =
     (if endpoint_in_range e x then x # endpoint_values_in_range e xs else endpoint_values_in_range e xs)"

fun endpoint_values_not_in_range :: "'a::linorder EndpointRange \<Rightarrow> 'a list \<Rightarrow> 'a list" where
  "endpoint_values_not_in_range e [] = []"
| "endpoint_values_not_in_range e (x # xs) =
     (if \<not> endpoint_in_range e x then x # endpoint_values_not_in_range e xs
      else endpoint_values_not_in_range e xs)"

text \<open>\<open>to_string\<close>: the direction of the sign is a local that the code never sets, so only the
  last branch for each side is taken. The infinity sign of the source is the parameter \<open>inf_sign\<close>.\<close>

definition endpoint_to_string :: "('a \<Rightarrow> string) \<Rightarrow> string \<Rightarrow> string \<Rightarrow> 'a EndpointRange \<Rightarrow> string" where
  "endpoint_to_string show_value inf_sign variable_name e =
     (let v = (case ep_value e of
                 Some x \<Rightarrow> show_value x
               | None \<Rightarrow> if ep_side e = Left then ''-'' @ inf_sign else ''+'' @ inf_sign);
          expression =
            (if ep_side e = Left
             then (if ep_is_open e then v @ '' < '' @ variable_name else v @ '' <= '' @ variable_name)
             else (if ep_is_open e then variable_name @ '' < '' @ v else variable_name @ '' <= '' @ v))
      in ''('' @ expression @ '')'')"

text \<open>
  \<open>get_integer_endpoint\<close> of an integral \<open>T\<close>; \<open>cast\<close> is the conversion to \<open>int64_t\<close>, whose
  values are shown as integers.
\<close>

definition get_integer_endpoint :: "('a \<Rightarrow> int) \<Rightarrow> 'a EndpointRange \<Rightarrow> int EndpointRange option" where
  "get_integer_endpoint cast e =
     Some (new_endpoint (map_option cast (ep_value e)) (ep_is_open e) (ep_side e))"

text \<open>The free function \<open>is_in_range\<close>.\<close>

definition between_endpoints :: "'a::linorder EndpointRange \<Rightarrow> 'a EndpointRange \<Rightarrow> 'a \<Rightarrow> bool" where
  "between_endpoints l r x \<longleftrightarrow> endpoint_in_range l x \<and> endpoint_in_range r x"

section \<open>Facts\<close>

lemmas endpoint_defs = endpoint_eq_def endpoint_less_def endpoint_greater_def endpoint_le_def
  endpoint_ge_def endpoint_in_range_def is_open_def is_closed_def is_limited_def get_value_def
  get_side_def get_adjacent_endpoint_def new_endpoint_def infinite_endpoint_def

text \<open>The endpoints that the constructors give for a left or a right side.\<close>

definition endpoint_wf :: "'a EndpointRange \<Rightarrow> bool" where
  "endpoint_wf e \<longleftrightarrow> (ep_value e = None \<longrightarrow> ep_is_open e) \<and> ep_side e \<noteq> Unknown_Side"

lemma endpoint_eq_iff [simp]: "endpoint_eq a b \<longleftrightarrow> a = b"
  by (auto simp: endpoint_eq_def intro: EndpointRange.equality)

lemma endpoint_neq_iff [simp]: "endpoint_neq a b \<longleftrightarrow> a \<noteq> b"
  by (auto simp: endpoint_neq_def intro: EndpointRange.equality)

lemma new_endpoint_sel [simp]:
  "ep_value (new_endpoint v b s) = v" "ep_side (new_endpoint v b s) = s"
  "ep_is_open (new_endpoint v b s) = (b \<or> v = None)"
  by (cases v; simp add: new_endpoint_def Let_def)+

lemma new_endpoint_wf: "s \<noteq> Unknown_Side \<Longrightarrow> endpoint_wf (new_endpoint v b s)"
  by (simp add: endpoint_wf_def)

lemma adjacent_sel [simp]:
  "ep_value (get_adjacent_endpoint e) = ep_value e"
  "ep_side (get_adjacent_endpoint e) = (if ep_side e = Left then Right else Left)"
  "ep_is_open (get_adjacent_endpoint e) = (\<not> ep_is_open e \<or> ep_value e = None)"
  by (simp_all add: get_adjacent_endpoint_def Let_def)

lemma endpoint_less_irrefl [simp]: "\<not> endpoint_less a a"
  by (simp add: endpoint_less_def)

lemma BoundarySide_wf_cases: "s \<noteq> Unknown_Side \<longleftrightarrow> s = Left \<or> s = Right"
  by (cases s) auto

text \<open>On these endpoints the comparison is that of a class, the values and a subclass.\<close>

definition endpoint_class :: "'a EndpointRange \<Rightarrow> nat" where
  "endpoint_class e = (if ep_value e \<noteq> None then 1 else if ep_side e = Left then 0 else 2)"

definition endpoint_rank :: "'a EndpointRange \<Rightarrow> nat" where
  "endpoint_rank e =
     (if ep_side e = Right then (if ep_is_open e then 0 else 1) else (if ep_is_open e then 3 else 2))"

lemma endpoint_less_key:
  assumes "endpoint_wf a" "endpoint_wf b"
  shows "endpoint_less a b \<longleftrightarrow>
    endpoint_class a < endpoint_class b \<or>
    endpoint_class a = 1 \<and> endpoint_class b = 1 \<and>
      (the (ep_value a) < the (ep_value b) \<or>
       the (ep_value a) = the (ep_value b) \<and> endpoint_rank a < endpoint_rank b)"
  using assms
  by (cases a; cases b)
     (auto simp: endpoint_less_def endpoint_class_def endpoint_rank_def endpoint_wf_def BoundarySide_wf_cases
       split: option.splits)

lemma endpoint_less_trans:
  assumes "endpoint_wf a" "endpoint_wf b" "endpoint_wf c" "endpoint_less a b" "endpoint_less b c"
  shows "endpoint_less a c"
  using assms(4,5) unfolding endpoint_less_key [OF assms(1,2)] endpoint_less_key [OF assms(2,3)]
    endpoint_less_key [OF assms(1,3)]
  by (elim disjE conjE) auto

lemma endpoint_less_linear:
  assumes "endpoint_wf a" "endpoint_wf b"
  shows "endpoint_less a b \<or> a = b \<or> endpoint_less b a"
  using assms
  by (cases a; cases b)
     (auto simp: endpoint_less_def endpoint_wf_def BoundarySide_wf_cases split: option.splits if_splits)

lemma endpoint_values_filter:
  "endpoint_values_in_range e xs = filter (endpoint_in_range e) xs"
  "endpoint_values_not_in_range e xs = filter (\<lambda>x. \<not> endpoint_in_range e x) xs"
  by (induction xs) simp_all

text \<open>An endpoint and its adjacent one split the values between them.\<close>

lemma adjacent_complement:
  "ep_value e \<noteq> None \<Longrightarrow> endpoint_wf e \<Longrightarrow>
     endpoint_in_range (get_adjacent_endpoint e) x \<longleftrightarrow> \<not> endpoint_in_range e x"
  by (auto simp: endpoint_in_range_def endpoint_wf_def BoundarySide_wf_cases)

end
