(* ===== verification/Intervals.thy ===== *)
theory Intervals
  imports Endpoints
begin

text \<open>
  Intervals, \<open>condition/single_interval\<close>: a left and a right endpoint and a state that says
  which of them is finite. The set an interval stands for is \<open>interval_member\<close>; the lemmas
  relate every operation to the operation on these sets.

  The default interval of the code is \<open>(0, 0)\<close>, so \<open>T\<close> is a linearly ordered type with a zero.
\<close>

section \<open>States\<close>

datatype IntervalState = Empty | Whole | FixedLeft | FixedRight | FixedBoth | Unknown_State

definition IntervalState_to_string :: "IntervalState \<Rightarrow> string" where
  "IntervalState_to_string state =
     (case state of
        Empty \<Rightarrow> ''IntervalState::Empty''
      | Whole \<Rightarrow> ''IntervalState::Whole''
      | FixedLeft \<Rightarrow> ''IntervalState::FixedLeft''
      | FixedRight \<Rightarrow> ''IntervalState::FixedRight''
      | FixedBoth \<Rightarrow> ''IntervalState::FixedBoth''
      | _ \<Rightarrow> ''IntervalState::Unknown'')"

definition IntervalState_enum_cast :: "string \<Rightarrow> IntervalState" where
  "IntervalState_enum_cast s =
     (if s = ''IntervalState::Empty'' then Empty
      else if s = ''IntervalState::Whole'' then Whole
      else if s = ''IntervalState::FixedLeft'' then FixedLeft
      else if s = ''IntervalState::FixedRight'' then FixedRight
      else if s = ''IntervalState::FixedBoth'' then FixedBoth
      else Unknown_State)"

interpretation interval_state: enum_names IntervalState_to_string IntervalState_enum_cast "\<lambda>_. True"
proof
  show "IntervalState_enum_cast (IntervalState_to_string e) = e" for e
    by (cases e) (simp_all add: IntervalState_to_string_def IntervalState_enum_cast_def)
qed

text \<open>
  \<open>single_interval.cpp\<close> specialises \<open>enum_cast<BoundarySide>\<close> a second time, with another
  fallback than \<open>endpoint_range.cpp\<close>.
\<close>

definition BoundarySide_enum_cast_2 :: "string \<Rightarrow> BoundarySide" where
  "BoundarySide_enum_cast_2 s =
     (if s = ''BoundarySide::Left'' then Left
      else if s = ''BoundarySide::Right'' then Right
      else Left)"

section \<open>Intervals\<close>

record 'a IntervalBoundary =
  ib_value :: "'a option"
  ib_is_open :: bool

record 'a SingleInterval =
  iv_state :: IntervalState
  iv_left :: "'a EndpointRange"
  iv_right :: "'a EndpointRange"

definition init_state :: "'a SingleInterval \<Rightarrow> 'a SingleInterval" where
  "init_state i =
     (if \<not> is_limited (iv_left i) \<and> \<not> is_limited (iv_right i) then i\<lparr>iv_state := Whole\<rparr>
      else if \<not> is_limited (iv_left i) \<and> is_limited (iv_right i) then i\<lparr>iv_state := FixedRight\<rparr>
      else if is_limited (iv_left i) \<and> \<not> is_limited (iv_right i) then i\<lparr>iv_state := FixedLeft\<rparr>
      else if is_limited (iv_left i) \<and> is_limited (iv_right i)
      then (if the (get_value (iv_left i)) = the (get_value (iv_right i)) \<and>
               is_open (iv_left i) \<and> is_open (iv_right i)
            then i\<lparr>iv_state := Empty\<rparr> else i\<lparr>iv_state := FixedBoth\<rparr>)
      else i)"

definition empty_interval :: "'a::zero SingleInterval" where
  "empty_interval =
     init_state \<lparr>iv_state = Empty, iv_left = new_endpoint (Some 0) True Left,
       iv_right = new_endpoint (Some 0) True Right\<rparr>"

definition interval_of_endpoint :: "'a EndpointRange \<Rightarrow> 'a SingleInterval" where
  "interval_of_endpoint point =
     init_state \<lparr>iv_state = Empty,
       iv_left = (if get_side point = Left then point else infinite_endpoint Left),
       iv_right = (if get_side point = Right then point else infinite_endpoint Right)\<rparr>"

definition new_interval :: "'a::linorder IntervalBoundary \<Rightarrow> 'a IntervalBoundary \<Rightarrow> 'a SingleInterval" where
  "new_interval l r =
     (let swapped = (ib_value l \<noteq> None \<and> ib_value r \<noteq> None \<and> the (ib_value l) > the (ib_value r));
          (l, r) = (if swapped then (r, l) else (l, r))
      in init_state \<lparr>iv_state = Empty,
           iv_left = new_endpoint (ib_value l) (ib_is_open l) Left,
           iv_right = new_endpoint (ib_value r) (ib_is_open r) Right\<rparr>)"

definition point_interval :: "'a \<Rightarrow> 'a SingleInterval" where
  "point_interval point =
     init_state \<lparr>iv_state = Empty, iv_left = new_endpoint (Some point) False Left,
       iv_right = new_endpoint (Some point) False Right\<rparr>"

text \<open>\<open>SingleInterval<T>({a.get_value(), a.is_open()}, {b.get_value(), b.is_open()})\<close>.\<close>

definition between :: "'a::linorder EndpointRange \<Rightarrow> 'a EndpointRange \<Rightarrow> 'a SingleInterval" where
  "between a b =
     new_interval \<lparr>ib_value = get_value a, ib_is_open = is_open a\<rparr>
       \<lparr>ib_value = get_value b, ib_is_open = is_open b\<rparr>"

definition interval_is_equals :: "'a SingleInterval \<Rightarrow> 'a SingleInterval \<Rightarrow> bool" where
  "interval_is_equals a b \<longleftrightarrow>
     endpoint_eq (iv_left a) (iv_left b) \<and> endpoint_eq (iv_right a) (iv_right b)"

definition interval_eq :: "'a SingleInterval \<Rightarrow> 'a SingleInterval \<Rightarrow> bool" where
  "interval_eq a b = interval_is_equals a b"

definition interval_neq :: "'a SingleInterval \<Rightarrow> 'a SingleInterval \<Rightarrow> bool" where
  "interval_neq a b \<longleftrightarrow> \<not> interval_is_equals a b"

definition interval_less :: "'a::linorder SingleInterval \<Rightarrow> 'a SingleInterval \<Rightarrow> bool" where
  "interval_less a b =
     (if endpoint_less (iv_left a) (iv_left b) then True
      else if endpoint_less (iv_left b) (iv_left a) then False
      else if endpoint_less (iv_right a) (iv_right b) then True
      else False)"

definition interval_greater :: "'a::linorder SingleInterval \<Rightarrow> 'a SingleInterval \<Rightarrow> bool" where
  "interval_greater a b \<longleftrightarrow> \<not> interval_less a b \<and> \<not> interval_eq a b"

definition interval_is_empty :: "'a SingleInterval \<Rightarrow> bool" where
  "interval_is_empty i \<longleftrightarrow> iv_state i = Empty"

definition interval_member :: "'a::linorder SingleInterval \<Rightarrow> 'a \<Rightarrow> bool" where
  "interval_member i x \<longleftrightarrow> endpoint_in_range (iv_left i) x \<and> endpoint_in_range (iv_right i) x"

definition interval_contains :: "'a::linorder SingleInterval \<Rightarrow> 'a SingleInterval \<Rightarrow> bool" where
  "interval_contains i other =
     (if endpoint_le (iv_left i) (iv_left other) \<and> endpoint_le (iv_right other) (iv_right i)
      then True else False)"

definition is_adjacent :: "'a SingleInterval \<Rightarrow> 'a SingleInterval \<Rightarrow> bool" where
  "is_adjacent a b =
     (let self_left_adjacent = get_adjacent_endpoint (iv_left a);
          self_right_adjacent = get_adjacent_endpoint (iv_right a)
      in if endpoint_eq self_left_adjacent (iv_right b) \<or> endpoint_eq self_right_adjacent (iv_left b)
         then True else False)"

definition is_disjoint :: "'a::linorder SingleInterval \<Rightarrow> 'a SingleInterval \<Rightarrow> bool" where
  "is_disjoint a b =
     (if is_adjacent a b then False
      else if endpoint_greater (iv_left a) (iv_right b)
      then (if get_value (iv_left a) = get_value (iv_right b)
            then is_open (iv_left a) \<and> is_open (iv_right b) else True)
      else if endpoint_less (iv_right a) (iv_left b)
      then (if get_value (iv_right a) = get_value (iv_left b)
            then is_open (iv_right a) \<and> is_open (iv_left b) else True)
      else False)"

definition is_intersect :: "'a::linorder SingleInterval \<Rightarrow> 'a SingleInterval \<Rightarrow> bool" where
  "is_intersect a b \<longleftrightarrow> \<not> is_disjoint a b \<and> \<not> is_adjacent a b"

definition is_point :: "'a SingleInterval \<Rightarrow> bool" where
  "is_point i \<longleftrightarrow>
     is_limited (iv_left i) \<and> is_limited (iv_right i) \<and>
     get_value (iv_left i) = get_value (iv_right i) \<and>
     is_open (iv_left i) = is_open (iv_right i) \<and> \<not> is_open (iv_left i)"

definition can_merge_with :: "'a::linorder SingleInterval \<Rightarrow> 'a SingleInterval \<Rightarrow> bool" where
  "can_merge_with a b \<longleftrightarrow> \<not> is_disjoint a b"

definition try_get_intersect ::
  "'a::linorder SingleInterval \<Rightarrow> 'a SingleInterval \<Rightarrow> 'a SingleInterval option" where
  "try_get_intersect a b =
     (if \<not> is_intersect a b then None
      else
        let l = (if endpoint_le (iv_left a) (iv_left b) then iv_left b else iv_left a);
            r = (if endpoint_ge (iv_right a) (iv_right b) then iv_right b else iv_right a)
        in Some (between l r))"

definition try_get_union ::
  "'a::linorder SingleInterval \<Rightarrow> 'a SingleInterval \<Rightarrow> 'a SingleInterval option" where
  "try_get_union a b =
     (if \<not> can_merge_with a b then None
      else
        let l = (if endpoint_le (iv_left a) (iv_left b) then iv_left a else iv_left b);
            r = (if endpoint_ge (iv_right a) (iv_right b) then iv_right a else iv_right b)
        in Some (between l r))"

definition get_difference ::
  "'a::{linorder, zero} SingleInterval \<Rightarrow> 'a SingleInterval \<Rightarrow> 'a SingleInterval list" where
  "get_difference a b =
     (if \<not> is_intersect a b then [a]
      else if interval_contains b a then [empty_interval]
      else
        case try_get_intersect a b of
          None \<Rightarrow> [empty_interval]
        | Some intersect \<Rightarrow>
            let intersect_left_adjacent = get_adjacent_endpoint (iv_left intersect);
                intersect_right_adjacent = get_adjacent_endpoint (iv_right intersect)
            in if endpoint_greater (iv_left intersect) (iv_left a) \<and>
                  endpoint_less (iv_right intersect) (iv_right a)
               then [between (iv_left a) intersect_left_adjacent,
                     between intersect_right_adjacent (iv_right a)]
               else if endpoint_eq (iv_left intersect) (iv_left a)
               then [between intersect_right_adjacent (iv_right a)]
               else if endpoint_eq (iv_right intersect) (iv_right a)
               then [between (iv_left a) intersect_left_adjacent]
               else [])"

definition try_merge_by_intersection ::
  "'a::linorder SingleInterval \<Rightarrow> 'a SingleInterval \<Rightarrow> bool \<times> 'a SingleInterval" where
  "try_merge_by_intersection a b =
     (case try_get_intersect a b of None \<Rightarrow> (False, a) | Some i \<Rightarrow> (True, i))"

definition try_merge_by_union ::
  "'a::linorder SingleInterval \<Rightarrow> 'a SingleInterval \<Rightarrow> bool \<times> 'a SingleInterval" where
  "try_merge_by_union a b =
     (case try_get_union a b of None \<Rightarrow> (False, a) | Some i \<Rightarrow> (True, i))"

definition show_bool :: "bool \<Rightarrow> string" where
  "show_bool b = (if b then ''true'' else ''false'')"

definition interval_to_string :: "('a \<Rightarrow> string) \<Rightarrow> 'a SingleInterval \<Rightarrow> string" where
  "interval_to_string show_value i =
     (let left_sign = (if is_open (iv_left i) then ''('' else ''['');
          right_sign = (if is_open (iv_right i) then '')'' else '']'');
          left_value = (case get_value (iv_left i) of Some x \<Rightarrow> show_value x | None \<Rightarrow> ''-inf'');
          right_value = (case get_value (iv_right i) of Some x \<Rightarrow> show_value x | None \<Rightarrow> ''+inf'')
      in ''state='' @ IntervalState_to_string (iv_state i) @
         '' | is_empty='' @ show_bool (iv_state i = Empty) @
         '' | is_point='' @ show_bool (is_point i) @
         '' | left_sign='' @ left_sign @ '' | left_value='' @ left_value @
         '' | right_sign='' @ right_sign @ '' | right_value='' @ right_value)"

definition get_integer_interval :: "('a \<Rightarrow> int) \<Rightarrow> 'a SingleInterval \<Rightarrow> int SingleInterval option" where
  "get_integer_interval cast i =
     do {
       l \<leftarrow> get_integer_endpoint cast (iv_left i);
       r \<leftarrow> get_integer_endpoint cast (iv_right i);
       Some (between l r)
     }"

section \<open>Well-formed intervals\<close>

text \<open>
  The endpoints are on their sides and in order, and an interval whose endpoints have the
  same value is a point or the empty interval: \<open>[a, a)\<close> and \<open>(a, a]\<close> are left out.
\<close>

definition values_le :: "'a::linorder EndpointRange \<Rightarrow> 'a EndpointRange \<Rightarrow> bool" where
  "values_le l r \<longleftrightarrow>
     (case (ep_value l, ep_value r) of (Some v, Some w) \<Rightarrow> v \<le> w | _ \<Rightarrow> True)"

definition interval_wf :: "'a::linorder SingleInterval \<Rightarrow> bool" where
  "interval_wf i \<longleftrightarrow>
     endpoint_wf (iv_left i) \<and> ep_side (iv_left i) = Left \<and>
     endpoint_wf (iv_right i) \<and> ep_side (iv_right i) = Right \<and>
     values_le (iv_left i) (iv_right i) \<and>
     (ep_value (iv_left i) = ep_value (iv_right i) \<and> ep_value (iv_left i) \<noteq> None \<longrightarrow>
        ep_is_open (iv_left i) = ep_is_open (iv_right i)) \<and>
     iv_state i = iv_state (init_state i)"

text \<open>A left and a right endpoint with a value between them, as far as the endpoints show it.\<close>

definition meets :: "'a::linorder EndpointRange \<Rightarrow> 'a EndpointRange \<Rightarrow> bool" where
  "meets l r \<longleftrightarrow>
     (case (ep_value l, ep_value r) of
        (Some v, Some w) \<Rightarrow> v < w \<or> v = w \<and> \<not> ep_is_open l \<and> \<not> ep_is_open r
      | _ \<Rightarrow> True)"

text \<open>One of the intervals is open to the left and the other to the right.\<close>

definition opposed :: "'a SingleInterval \<Rightarrow> 'a SingleInterval \<Rightarrow> bool" where
  "opposed a b \<longleftrightarrow>
     ep_value (iv_left a) = None \<and> ep_value (iv_right b) = None \<or>
     ep_value (iv_right a) = None \<and> ep_value (iv_left b) = None"

lemma init_state_sel [simp]: "iv_left (init_state i) = iv_left i" "iv_right (init_state i) = iv_right i"
  by (simp_all add: init_state_def)

lemma init_state_idem [simp]: "init_state (init_state i) = init_state i"
  by (simp add: init_state_def)

lemma between_sel:
  assumes "values_le l r"
  shows "iv_left (between l r) = new_endpoint (ep_value l) (ep_is_open l) Left"
    and "iv_right (between l r) = new_endpoint (ep_value r) (ep_is_open r) Right"
  using assms
  by (cases "ep_value l"; cases "ep_value r";
      simp add: between_def new_interval_def values_le_def get_value_def is_open_def Let_def not_less)+

lemma between_state [simp]: "iv_state (init_state (between l r)) = iv_state (between l r)"
  by (simp add: between_def new_interval_def Let_def split: prod.split)

lemma between_member:
  assumes "values_le l r"
  shows "interval_member (between l r) x \<longleftrightarrow>
    endpoint_in_range (new_endpoint (ep_value l) (ep_is_open l) Left) x \<and>
    endpoint_in_range (new_endpoint (ep_value r) (ep_is_open r) Right) x"
  by (simp add: interval_member_def between_sel [OF assms])

lemma new_endpoint_self:
  "endpoint_wf e \<Longrightarrow> ep_side e = s \<Longrightarrow> new_endpoint (ep_value e) (ep_is_open e) s = e"
  by (rule EndpointRange.equality) (auto simp: endpoint_wf_def)

lemma between_wf:
  assumes "values_le l r"
    and "ep_value l = ep_value r \<Longrightarrow> ep_value l \<noteq> None \<Longrightarrow> ep_is_open l = ep_is_open r"
  shows "interval_wf (between l r)"
  using assms
  by (auto simp: interval_wf_def between_sel new_endpoint_wf values_le_def)

text \<open>The larger of two left endpoints is their conjunction, the smaller one their disjunction.\<close>

lemma left_le_range:
  assumes "endpoint_wf l" "endpoint_wf l'" "ep_side l = Left" "ep_side l' = Left" "endpoint_le l l'"
    "endpoint_in_range l' x"
  shows "endpoint_in_range l x"
  using assms
  by (cases "ep_value l"; cases "ep_value l'")
     (auto simp: endpoint_le_def endpoint_less_def endpoint_in_range_def endpoint_wf_def split: if_splits)

lemma right_le_range:
  assumes "endpoint_wf r" "endpoint_wf r'" "ep_side r = Right" "ep_side r' = Right" "endpoint_le r r'"
    "endpoint_in_range r x"
  shows "endpoint_in_range r' x"
  using assms
  by (cases "ep_value r"; cases "ep_value r'")
     (auto simp: endpoint_le_def endpoint_less_def endpoint_in_range_def endpoint_wf_def split: if_splits)

lemma endpoint_not_le:
  "endpoint_wf a \<Longrightarrow> endpoint_wf b \<Longrightarrow> \<not> endpoint_le a b \<Longrightarrow> endpoint_le b a"
  using endpoint_less_linear [of a b] by (auto simp: endpoint_le_def)

lemma endpoint_ge_le: "endpoint_ge a b = endpoint_le b a"
  by (auto simp: endpoint_ge_def endpoint_le_def endpoint_greater_def)

section \<open>Relations of two intervals\<close>

lemma interval_wfD:
  assumes "interval_wf i"
  shows "endpoint_wf (iv_left i)" "ep_side (iv_left i) = Left" "endpoint_wf (iv_right i)"
    "ep_side (iv_right i) = Right" "values_le (iv_left i) (iv_right i)"
  using assms by (simp_all add: interval_wf_def)

lemma intersect_meets:
  assumes "interval_wf a" "interval_wf b" "is_intersect a b"
  shows "meets (iv_left a) (iv_right b)" "meets (iv_left b) (iv_right a)"
proof -
  note wf = interval_wfD [OF assms(1)] interval_wfD [OF assms(2)]
  have na: "get_adjacent_endpoint (iv_left a) \<noteq> iv_right b"
    "get_adjacent_endpoint (iv_right a) \<noteq> iv_left b"
    and nd: "\<not> is_disjoint a b" and nadj: "\<not> is_adjacent a b"
    using assms(3) by (auto simp: is_intersect_def is_adjacent_def Let_def)
  show 1: "meets (iv_left a) (iv_right b)"
  proof (rule ccontr)
    assume "\<not> ?thesis"
    then obtain v w where v: "ep_value (iv_left a) = Some v" and w: "ep_value (iv_right b) = Some w"
      and not: "\<not> (v < w \<or> v = w \<and> \<not> ep_is_open (iv_left a) \<and> \<not> ep_is_open (iv_right b))"
      by (auto simp: meets_def split: option.splits)
    have ne: "iv_left a \<noteq> iv_right b"
      using wf by auto
    have "ep_is_open (iv_left a) \<noteq> (\<not> ep_is_open (iv_right b)) \<or> v \<noteq> w"
      using na(1) v w wf by (auto intro: EndpointRange.equality)
    with not have "v > w \<or> v = w \<and> ep_is_open (iv_left a) \<and> ep_is_open (iv_right b)"
      by auto
    then have "is_disjoint a b"
      using nadj v w wf ne
      by (auto simp: is_disjoint_def endpoint_greater_def endpoint_less_def get_value_def is_open_def)
    with nd show False ..
  qed
  show "meets (iv_left b) (iv_right a)"
  proof (rule ccontr)
    assume "\<not> ?thesis"
    then obtain v w where v: "ep_value (iv_left b) = Some v" and w: "ep_value (iv_right a) = Some w"
      and not: "\<not> (v < w \<or> v = w \<and> \<not> ep_is_open (iv_left b) \<and> \<not> ep_is_open (iv_right a))"
      by (auto simp: meets_def split: option.splits)
    have "ep_is_open (iv_left b) \<noteq> (\<not> ep_is_open (iv_right a)) \<or> v \<noteq> w"
      using na(2) v w wf by (auto intro: EndpointRange.equality)
    with not have gt: "v > w \<or> v = w \<and> ep_is_open (iv_left b) \<and> ep_is_open (iv_right a)"
      by auto
    have less: "endpoint_less (iv_right a) (iv_left b)"
      using gt v w wf by (auto simp: endpoint_less_def)
    have "\<not> endpoint_greater (iv_left a) (iv_right b)"
    proof
      assume g: "endpoint_greater (iv_left a) (iv_right b)"
      then obtain v' w' where v': "ep_value (iv_left a) = Some v'" and w': "ep_value (iv_right b) = Some w'"
        using wf by (auto simp: endpoint_greater_def endpoint_less_def split: option.splits if_splits)
      have le: "v' \<le> w" "v \<le> w'"
        using wf(5,10) v w v' w' by (simp_all add: values_le_def)
      have m: "v' < w' \<or> v' = w' \<and> \<not> ep_is_open (iv_left a) \<and> \<not> ep_is_open (iv_right b)"
        using 1 v' w' by (simp add: meets_def)
      have "\<not> v' < w'"
        using g v' w' by (auto simp: endpoint_greater_def endpoint_less_def split: if_splits)
      with m le gt have eq: "v' = w'" "v' = w" "v = w'" "ep_is_open (iv_right a)" "\<not> ep_is_open (iv_left a)"
        by auto
      then show False
        using assms(1) v' w by (simp add: interval_wf_def)
    qed
    then have "is_disjoint a b"
      using nadj less gt v w by (auto simp: is_disjoint_def get_value_def is_open_def)
    with nd show False ..
  qed
qed

lemma meets_values_le: "meets l r \<Longrightarrow> values_le l r"
  by (auto simp: meets_def values_le_def split: option.splits)

lemma not_meets_disjoint:
  assumes "\<not> meets l r" "ep_side l = Left" "ep_side r = Right"
  shows "\<not> (endpoint_in_range l x \<and> endpoint_in_range r x)"
  using assms by (auto simp: meets_def endpoint_in_range_def split: option.splits if_splits)

text \<open>Intervals that do not intersect have no value in common, unless they are opposed.\<close>

lemma not_intersect_disjoint:
  assumes "interval_wf a" "interval_wf b" "\<not> is_intersect a b" "\<not> opposed a b"
  shows "\<not> (interval_member a x \<and> interval_member b x)"
proof -
  note wf = interval_wfD [OF assms(1)] interval_wfD [OF assms(2)]
  have "\<not> meets (iv_left a) (iv_right b) \<or> \<not> meets (iv_left b) (iv_right a)"
  proof (cases "is_adjacent a b")
    case True
    then have "get_adjacent_endpoint (iv_left a) = iv_right b \<or> get_adjacent_endpoint (iv_right a) = iv_left b"
      by (auto simp: is_adjacent_def Let_def split: if_splits)
    then show ?thesis
    proof
      assume e: "get_adjacent_endpoint (iv_left a) = iv_right b"
      have "ep_value (iv_right b) = ep_value (iv_left a)"
        "ep_is_open (iv_right b) = (\<not> ep_is_open (iv_left a) \<or> ep_value (iv_left a) = None)"
        by (simp_all flip: e)
      then show ?thesis
        using assms(4) by (auto simp: meets_def opposed_def split: option.splits)
    next
      assume e: "get_adjacent_endpoint (iv_right a) = iv_left b"
      have "ep_value (iv_left b) = ep_value (iv_right a)"
        "ep_is_open (iv_left b) = (\<not> ep_is_open (iv_right a) \<or> ep_value (iv_right a) = None)"
        by (simp_all flip: e)
      then show ?thesis
        using assms(4) by (auto simp: meets_def opposed_def split: option.splits)
    qed
  next
    case False
    with assms(3) have "is_disjoint a b" by (simp add: is_intersect_def)
    then show ?thesis
      using wf
      by (auto simp: is_disjoint_def meets_def endpoint_greater_def endpoint_less_def get_value_def
          is_open_def split: option.splits if_splits)
  qed
  then show ?thesis
    using not_meets_disjoint [of "iv_left a" "iv_right b" x] not_meets_disjoint [of "iv_left b" "iv_right a" x] wf
    by (auto simp: interval_member_def)
qed

section \<open>Intersection\<close>

definition left_max :: "'a::linorder SingleInterval \<Rightarrow> 'a SingleInterval \<Rightarrow> 'a EndpointRange" where
  "left_max a b = (if endpoint_le (iv_left a) (iv_left b) then iv_left b else iv_left a)"

definition right_min :: "'a::linorder SingleInterval \<Rightarrow> 'a SingleInterval \<Rightarrow> 'a EndpointRange" where
  "right_min a b = (if endpoint_ge (iv_right a) (iv_right b) then iv_right b else iv_right a)"

lemma left_max_cases:
  "left_max a b = iv_left a \<or> left_max a b = iv_left b"
  "right_min a b = iv_right a \<or> right_min a b = iv_right b"
  by (auto simp: left_max_def right_min_def)

lemma left_ranges:
  assumes "interval_wf a" "interval_wf b"
  shows "endpoint_le (iv_left a) (iv_left b) \<Longrightarrow> endpoint_in_range (iv_left b) x \<Longrightarrow> endpoint_in_range (iv_left a) x"
    and "\<not> endpoint_le (iv_left a) (iv_left b) \<Longrightarrow> endpoint_in_range (iv_left a) x \<Longrightarrow> endpoint_in_range (iv_left b) x"
  using left_le_range [of "iv_left a" "iv_left b" x] left_le_range [of "iv_left b" "iv_left a" x]
    endpoint_not_le [of "iv_left a" "iv_left b"] interval_wfD [OF assms(1)] interval_wfD [OF assms(2)]
  by simp_all

lemma right_ranges:
  assumes "interval_wf a" "interval_wf b"
  shows "endpoint_ge (iv_right a) (iv_right b) \<Longrightarrow> endpoint_in_range (iv_right b) x \<Longrightarrow> endpoint_in_range (iv_right a) x"
    and "\<not> endpoint_ge (iv_right a) (iv_right b) \<Longrightarrow> endpoint_in_range (iv_right a) x \<Longrightarrow> endpoint_in_range (iv_right b) x"
  using right_le_range [of "iv_right a" "iv_right b" x] right_le_range [of "iv_right b" "iv_right a" x]
    endpoint_not_le [of "iv_right b" "iv_right a"] interval_wfD [OF assms(1)] interval_wfD [OF assms(2)]
  by (simp_all add: endpoint_ge_le)

lemma left_max_range:
  assumes "interval_wf a" "interval_wf b"
  shows "endpoint_in_range (left_max a b) x \<longleftrightarrow>
    endpoint_in_range (iv_left a) x \<and> endpoint_in_range (iv_left b) x"
  using left_ranges [OF assms, of x] by (auto simp: left_max_def)

lemma right_min_range:
  assumes "interval_wf a" "interval_wf b"
  shows "endpoint_in_range (right_min a b) x \<longleftrightarrow>
    endpoint_in_range (iv_right a) x \<and> endpoint_in_range (iv_right b) x"
  using right_ranges [OF assms, of x] by (auto simp: right_min_def)

text \<open>The state apart, an interval is made of its endpoints.\<close>

lemma between_self: "interval_wf i \<Longrightarrow> iv_left (between (iv_left i) (iv_right i)) = iv_left i \<and>
    iv_right (between (iv_left i) (iv_right i)) = iv_right i"
  by (simp add: between_sel interval_wf_def new_endpoint_self)

lemma wf_meets:
  "interval_wf i \<Longrightarrow> meets (iv_left i) (iv_right i) \<or>
     (ep_value (iv_left i) = ep_value (iv_right i) \<and> ep_value (iv_left i) \<noteq> None \<and>
      ep_is_open (iv_left i) \<and> ep_is_open (iv_right i))"
  by (auto simp: interval_wf_def meets_def values_le_def split: option.splits)

lemma intersect_endpoints:
  assumes "interval_wf a" "interval_wf b" "is_intersect a b"
  shows "values_le (left_max a b) (right_min a b)"
    and "ep_value (left_max a b) = ep_value (right_min a b) \<Longrightarrow> ep_value (left_max a b) \<noteq> None \<Longrightarrow>
      ep_is_open (left_max a b) = ep_is_open (right_min a b)"
proof -
  have v: "values_le (iv_left a) (iv_right a)" "values_le (iv_left b) (iv_right b)"
    "values_le (iv_left a) (iv_right b)" "values_le (iv_left b) (iv_right a)"
    using interval_wfD(5) [OF assms(1)] interval_wfD(5) [OF assms(2)] intersect_meets [OF assms]
    by (simp_all add: meets_values_le)
  show "values_le (left_max a b) (right_min a b)"
    unfolding left_max_def right_min_def using v by (simp split: if_split)
  have same: "meets l r \<Longrightarrow> ep_value l = ep_value r \<Longrightarrow> ep_value l \<noteq> None \<Longrightarrow> ep_is_open l = ep_is_open r"
    for l r :: "'a EndpointRange"
    by (auto simp: meets_def)
  have own: "ep_value (iv_left i) = ep_value (iv_right i) \<Longrightarrow> ep_value (iv_left i) \<noteq> None \<Longrightarrow>
      ep_is_open (iv_left i) = ep_is_open (iv_right i)" if "interval_wf i" for i :: "'a SingleInterval"
    using that by (simp add: interval_wf_def)
  show "ep_is_open (left_max a b) = ep_is_open (right_min a b)"
    if "ep_value (left_max a b) = ep_value (right_min a b)" "ep_value (left_max a b) \<noteq> None"
    using that same [OF intersect_meets(1) [OF assms]] same [OF intersect_meets(2) [OF assms]]
      own [OF assms(1)] own [OF assms(2)]
    unfolding left_max_def right_min_def by (simp split: if_splits)
qed

lemma try_get_intersect_Some:
  "is_intersect a b \<Longrightarrow> try_get_intersect a b = Some (between (left_max a b) (right_min a b))"
  by (simp add: try_get_intersect_def left_max_def right_min_def)

lemma left_max_side:
  assumes "interval_wf a" "interval_wf b"
  shows "endpoint_wf (left_max a b)" "ep_side (left_max a b) = Left"
    "endpoint_wf (right_min a b)" "ep_side (right_min a b) = Right"
  using left_max_cases [of a b] interval_wfD [OF assms(1)] interval_wfD [OF assms(2)] by auto

lemma intersect_sel:
  assumes "interval_wf a" "interval_wf b" "is_intersect a b"
  shows "iv_left (between (left_max a b) (right_min a b)) = left_max a b"
    and "iv_right (between (left_max a b) (right_min a b)) = right_min a b"
  using left_max_side [OF assms(1,2)]
  by (simp_all add: between_sel [OF intersect_endpoints(1) [OF assms]] new_endpoint_self)

lemma intersect_wf:
  assumes "interval_wf a" "interval_wf b" "try_get_intersect a b = Some c"
  shows "interval_wf c"
proof -
  have i: "is_intersect a b" and c: "c = between (left_max a b) (right_min a b)"
    using assms(3) try_get_intersect_Some [of a b] by (auto simp: try_get_intersect_def split: if_splits)
  show ?thesis
    unfolding c using intersect_endpoints [OF assms(1,2) i] by (intro between_wf) auto
qed

lemma intersect_member:
  assumes "interval_wf a" "interval_wf b" "try_get_intersect a b = Some c"
  shows "interval_member c x \<longleftrightarrow> interval_member a x \<and> interval_member b x"
proof -
  have i: "is_intersect a b" and c: "c = between (left_max a b) (right_min a b)"
    using assms(3) try_get_intersect_Some [of a b] by (auto simp: try_get_intersect_def split: if_splits)
  show ?thesis
    unfolding c interval_member_def intersect_sel [OF assms(1,2) i]
      left_max_range [OF assms(1,2)] right_min_range [OF assms(1,2)]
    by auto
qed

lemma no_intersect_member:
  assumes "interval_wf a" "interval_wf b" "\<not> opposed a b" "try_get_intersect a b = None"
  shows "\<not> (interval_member a x \<and> interval_member b x)"
  using not_intersect_disjoint [OF assms(1,2) _ assms(3)] assms(4)
  by (auto simp: try_get_intersect_def split: if_splits)

section \<open>Union\<close>

definition left_min :: "'a::linorder SingleInterval \<Rightarrow> 'a SingleInterval \<Rightarrow> 'a EndpointRange" where
  "left_min a b = (if endpoint_le (iv_left a) (iv_left b) then iv_left a else iv_left b)"

definition right_max :: "'a::linorder SingleInterval \<Rightarrow> 'a SingleInterval \<Rightarrow> 'a EndpointRange" where
  "right_max a b = (if endpoint_ge (iv_right a) (iv_right b) then iv_right a else iv_right b)"

lemma left_min_range:
  assumes "interval_wf a" "interval_wf b"
  shows "endpoint_in_range (left_min a b) x \<longleftrightarrow>
    endpoint_in_range (iv_left a) x \<or> endpoint_in_range (iv_left b) x"
  using left_ranges [OF assms, of x] by (auto simp: left_min_def)

lemma right_max_range:
  assumes "interval_wf a" "interval_wf b"
  shows "endpoint_in_range (right_max a b) x \<longleftrightarrow>
    endpoint_in_range (iv_right a) x \<or> endpoint_in_range (iv_right b) x"
  using right_ranges [OF assms, of x] by (auto simp: right_max_def)

lemma left_le_values:
  assumes "endpoint_wf l" "endpoint_wf l'" "ep_side l = Left" "ep_side l' = Left" "endpoint_le l l'"
    "values_le l' r"
  shows "values_le l r"
  using assms
  by (cases "ep_value l"; cases "ep_value l'"; cases "ep_value r")
     (auto simp: endpoint_le_def endpoint_less_def values_le_def split: if_splits)

lemma right_le_values:
  assumes "endpoint_wf r" "endpoint_wf r'" "ep_side r = Right" "ep_side r' = Right" "endpoint_le r r'"
    "values_le l r"
  shows "values_le l r'"
  using assms
  by (cases "ep_value r"; cases "ep_value r'"; cases "ep_value l")
     (auto simp: endpoint_le_def endpoint_less_def values_le_def split: if_splits)

lemma hull_values_le:
  assumes "interval_wf a" "interval_wf b"
  shows "values_le (left_min a b) (right_max a b)"
proof -
  note wf = interval_wfD [OF assms(1)] interval_wfD [OF assms(2)]
  have "values_le (iv_left a) (right_max a b)" "values_le (iv_left b) (right_max a b)"
    using right_le_values [of "iv_right a" "iv_right b" "iv_left a"]
      right_le_values [of "iv_right b" "iv_right a" "iv_left b"]
      endpoint_not_le [of "iv_right b" "iv_right a"] wf
    by (auto simp: right_max_def endpoint_ge_le)
  then show ?thesis
    by (simp add: left_min_def)
qed

lemma left_le_Some:
  assumes "endpoint_wf l" "endpoint_wf l'" "ep_side l = Left" "ep_side l' = Left" "endpoint_le l l'"
    "ep_value l = Some v"
  obtains w where "ep_value l' = Some w" "v \<le> w" "w = v \<Longrightarrow> ep_is_open l \<Longrightarrow> ep_is_open l'"
  using assms
  by (cases "ep_value l'") (auto simp: endpoint_le_def endpoint_less_def split: if_splits)

lemma right_le_Some:
  assumes "endpoint_wf r" "endpoint_wf r'" "ep_side r = Right" "ep_side r' = Right" "endpoint_le r r'"
    "ep_value r' = Some v"
  obtains u where "ep_value r = Some u" "u \<le> v" "u = v \<Longrightarrow> ep_is_open r' \<Longrightarrow> ep_is_open r"
  using assms
  by (cases "ep_value r") (auto simp: endpoint_le_def endpoint_less_def split: if_splits)

lemma hull_side:
  assumes "interval_wf a" "interval_wf b"
  shows "endpoint_wf (left_min a b)" "ep_side (left_min a b) = Left"
    "endpoint_wf (right_max a b)" "ep_side (right_max a b) = Right"
  using interval_wfD [OF assms(1)] interval_wfD [OF assms(2)] by (auto simp: left_min_def right_max_def)

lemma hull_bounds:
  assumes "interval_wf a" "interval_wf b"
  shows "endpoint_le (left_min a b) (iv_left a)" "endpoint_le (left_min a b) (iv_left b)"
    "endpoint_le (iv_right a) (right_max a b)" "endpoint_le (iv_right b) (right_max a b)"
  using endpoint_not_le [of "iv_left a" "iv_left b"] endpoint_not_le [of "iv_right b" "iv_right a"]
    interval_wfD [OF assms(1)] interval_wfD [OF assms(2)]
  by (auto simp: left_min_def right_max_def endpoint_ge_le endpoint_le_def)

text \<open>An interval between two endpoints of the same value has this value at both ends.\<close>

lemma squeezed:
  assumes "interval_wf i" "endpoint_wf l" "ep_side l = Left" "endpoint_wf r" "ep_side r = Right"
    and "endpoint_le l (iv_left i)" "endpoint_le (iv_right i) r" "ep_value l = Some v" "ep_value r = Some v"
  obtains "ep_is_open (iv_left i) = ep_is_open (iv_right i)"
    "ep_is_open l \<Longrightarrow> ep_is_open (iv_left i)" "ep_is_open r \<Longrightarrow> ep_is_open (iv_left i)"
proof -
  note wf = interval_wfD [OF assms(1)]
  obtain w where w: "ep_value (iv_left i) = Some w" "v \<le> w" "w = v \<Longrightarrow> ep_is_open l \<Longrightarrow> ep_is_open (iv_left i)"
    using left_le_Some [OF assms(2) wf(1) assms(3) wf(2) assms(6,8)] by blast
  obtain u where u: "ep_value (iv_right i) = Some u" "u \<le> v" "u = v \<Longrightarrow> ep_is_open r \<Longrightarrow> ep_is_open (iv_right i)"
    using right_le_Some [OF wf(3) assms(4) wf(4) assms(5,7,9)] by blast
  have "w \<le> u"
    using wf(5) w u by (simp add: values_le_def)
  with w u have v: "w = v" "u = v" by auto
  then have "ep_is_open (iv_left i) = ep_is_open (iv_right i)"
    using assms(1) w u by (simp add: interval_wf_def)
  with w u v show thesis using that by simp
qed

lemma hull_nondegenerate:
  assumes "interval_wf a" "interval_wf b"
    and "ep_value (left_min a b) = ep_value (right_max a b)" "ep_value (left_min a b) \<noteq> None"
  shows "ep_is_open (left_min a b) = ep_is_open (right_max a b)"
proof -
  obtain v where v: "ep_value (left_min a b) = Some v" "ep_value (right_max a b) = Some v"
    using assms(3,4) by auto
  note s = hull_side [OF assms(1,2)] and l = hull_bounds [OF assms(1,2)]
  have "left_min a b = iv_left a \<or> left_min a b = iv_left b" "right_max a b = iv_right a \<or> right_max a b = iv_right b"
    by (auto simp: left_min_def right_max_def)
  then show ?thesis
    using squeezed [OF assms(1) s l(1) l(3) v] squeezed [OF assms(2) s l(2) l(4) v] by metis
qed

lemma gap_not_meets:
  assumes "\<not> endpoint_in_range l x" "\<not> endpoint_in_range r x" "ep_side l = Left" "ep_side r = Right"
  shows "\<not> meets l r"
  using assms by (auto simp: meets_def endpoint_in_range_def split: option.splits if_splits)

lemma merge_covers:
  assumes "interval_wf a" "interval_wf b" "can_merge_with a b" "\<not> opposed a b"
  shows "endpoint_in_range (iv_left a) x \<Longrightarrow> endpoint_in_range (iv_right b) x \<Longrightarrow>
      endpoint_in_range (iv_right a) x \<or> endpoint_in_range (iv_left b) x"
    and "endpoint_in_range (iv_left b) x \<Longrightarrow> endpoint_in_range (iv_right a) x \<Longrightarrow>
      endpoint_in_range (iv_right b) x \<or> endpoint_in_range (iv_left a) x"
proof -
  note wf = interval_wfD [OF assms(1)] interval_wfD [OF assms(2)]
  have alt: "is_intersect a b \<or> get_adjacent_endpoint (iv_left a) = iv_right b \<or>
      get_adjacent_endpoint (iv_right a) = iv_left b"
    using assms(3) by (auto simp: can_merge_with_def is_intersect_def is_adjacent_def Let_def)
  have la: "get_adjacent_endpoint (iv_left a) = iv_right b \<Longrightarrow>
      endpoint_in_range (iv_right b) x \<longleftrightarrow> \<not> endpoint_in_range (iv_left a) x"
    using adjacent_complement [of "iv_left a" x] wf assms(4) adjacent_sel(1) [of "iv_left a"]
    by (auto simp: opposed_def)
  have ra: "get_adjacent_endpoint (iv_right a) = iv_left b \<Longrightarrow>
      endpoint_in_range (iv_left b) x \<longleftrightarrow> \<not> endpoint_in_range (iv_right a) x"
    using adjacent_complement [of "iv_right a" x] wf assms(4) adjacent_sel(1) [of "iv_right a"]
    by (auto simp: opposed_def)
  show "endpoint_in_range (iv_left a) x \<Longrightarrow> endpoint_in_range (iv_right b) x \<Longrightarrow>
      endpoint_in_range (iv_right a) x \<or> endpoint_in_range (iv_left b) x"
    using alt la ra intersect_meets(2) [OF assms(1,2)] gap_not_meets [of "iv_left b" x "iv_right a"] wf
    by blast
  show "endpoint_in_range (iv_left b) x \<Longrightarrow> endpoint_in_range (iv_right a) x \<Longrightarrow>
      endpoint_in_range (iv_right b) x \<or> endpoint_in_range (iv_left a) x"
    using alt la ra intersect_meets(1) [OF assms(1,2)] gap_not_meets [of "iv_left a" x "iv_right b"] wf
    by blast
qed

lemma union_Some:
  assumes "try_get_union a b = Some c"
  shows "can_merge_with a b" "c = between (left_min a b) (right_max a b)"
  using assms by (auto simp: try_get_union_def left_min_def right_max_def Let_def split: if_splits)

lemma union_sel:
  assumes "interval_wf a" "interval_wf b"
  shows "iv_left (between (left_min a b) (right_max a b)) = left_min a b"
    and "iv_right (between (left_min a b) (right_max a b)) = right_max a b"
  using hull_side [OF assms]
  by (simp_all add: between_sel [OF hull_values_le [OF assms]] new_endpoint_self)

lemma union_wf:
  assumes "interval_wf a" "interval_wf b" "try_get_union a b = Some c"
  shows "interval_wf c"
  unfolding union_Some(2) [OF assms(3)]
  using hull_values_le [OF assms(1,2)] hull_nondegenerate [OF assms(1,2)]
  by (intro between_wf)

lemma union_member:
  assumes "interval_wf a" "interval_wf b" "\<not> opposed a b" "try_get_union a b = Some c"
  shows "interval_member c x \<longleftrightarrow> interval_member a x \<or> interval_member b x"
  using merge_covers [OF assms(1,2) union_Some(1) [OF assms(4)] assms(3), of x]
  unfolding union_Some(2) [OF assms(4)] interval_member_def union_sel [OF assms(1,2)]
    left_min_range [OF assms(1,2)] right_max_range [OF assms(1,2)]
  by blast

section \<open>Difference\<close>

lemma empty_interval_member [simp]: "\<not> interval_member (empty_interval :: 'a::{linorder, zero} SingleInterval) x"
  by (auto simp: empty_interval_def interval_member_def endpoint_in_range_def)

lemma empty_interval_wf [simp]: "interval_wf (empty_interval :: 'a::{linorder, zero} SingleInterval)"
  by (simp add: empty_interval_def interval_wf_def endpoint_wf_def values_le_def)

lemma empty_interval_sel [simp]:
  "ep_value (iv_left empty_interval) = Some 0" "ep_value (iv_right empty_interval) = Some 0"
  by (simp_all add: empty_interval_def)

lemma endpoint_less_le: "endpoint_less a b \<Longrightarrow> endpoint_le a b"
  by (simp add: endpoint_le_def)

lemma endpoint_less_open:
  assumes "endpoint_less a b" "ep_side a = ep_side b" "ep_value a = ep_value b"
  shows "ep_is_open a \<longleftrightarrow> \<not> ep_is_open b"
proof -
  have "\<not> endpoint_eq a b"
    using assms(1) by auto
  with assms(2,3) show ?thesis
    by (auto simp: endpoint_eq_def simp del: endpoint_eq_iff)
qed

text \<open>The part of an interval before another left endpoint, and the part behind a right one.\<close>

lemma left_piece:
  assumes "endpoint_wf l" "endpoint_wf l'" "ep_side l = Left" "ep_side l' = Left" "endpoint_less l l'"
  shows "interval_wf (between l (get_adjacent_endpoint l'))"
    and "iv_left (between l (get_adjacent_endpoint l')) = l"
    and "ep_value (iv_right (between l (get_adjacent_endpoint l'))) \<noteq> None"
    and "interval_member (between l (get_adjacent_endpoint l')) x \<longleftrightarrow>
      endpoint_in_range l x \<and> \<not> endpoint_in_range l' x"
proof -
  let ?r = "get_adjacent_endpoint l'"
  have fin: "ep_value l' \<noteq> None"
    using assms by (auto simp: endpoint_less_def endpoint_wf_def split: option.splits if_splits)
  have r: "endpoint_wf ?r" "ep_side ?r = Right"
    using assms fin by (auto simp: endpoint_wf_def)
  have le: "values_le l ?r"
    using assms by (auto simp: endpoint_less_def values_le_def split: option.splits if_splits)
  have same: "ep_is_open l = ep_is_open ?r" if "ep_value l = ep_value ?r" "ep_value l \<noteq> None"
    using that endpoint_less_open [OF assms(5)] assms(3,4) by auto
  show "interval_wf (between l ?r)"
    using le same by (rule between_wf)
  show "iv_left (between l ?r) = l"
    using between_sel(1) [OF le] new_endpoint_self [OF assms(1,3)] by simp
  have right: "iv_right (between l ?r) = ?r"
    using between_sel(2) [OF le] new_endpoint_self [OF r] by simp
  then show "ep_value (iv_right (between l ?r)) \<noteq> None"
    using fin by simp
  show "interval_member (between l ?r) x \<longleftrightarrow> endpoint_in_range l x \<and> \<not> endpoint_in_range l' x"
    using right \<open>iv_left (between l ?r) = l\<close> adjacent_complement [OF fin assms(2), of x]
    by (simp add: interval_member_def)
qed

lemma right_piece:
  assumes "endpoint_wf r'" "endpoint_wf r" "ep_side r' = Right" "ep_side r = Right" "endpoint_less r' r"
  shows "interval_wf (between (get_adjacent_endpoint r') r)"
    and "iv_right (between (get_adjacent_endpoint r') r) = r"
    and "ep_value (iv_left (between (get_adjacent_endpoint r') r)) \<noteq> None"
    and "interval_member (between (get_adjacent_endpoint r') r) x \<longleftrightarrow>
      endpoint_in_range r x \<and> \<not> endpoint_in_range r' x"
proof -
  let ?l = "get_adjacent_endpoint r'"
  have fin: "ep_value r' \<noteq> None"
    using assms by (auto simp: endpoint_less_def endpoint_wf_def split: option.splits if_splits)
  have l: "endpoint_wf ?l" "ep_side ?l = Left"
    using assms fin by (auto simp: endpoint_wf_def)
  have le: "values_le ?l r"
    using assms by (auto simp: endpoint_less_def values_le_def split: option.splits if_splits)
  have same: "ep_is_open ?l = ep_is_open r" if "ep_value ?l = ep_value r" "ep_value ?l \<noteq> None"
    using that endpoint_less_open [OF assms(5)] assms(3,4) by auto
  show "interval_wf (between ?l r)"
    using le same by (rule between_wf)
  show "iv_right (between ?l r) = r"
    using between_sel(2) [OF le] new_endpoint_self [OF assms(2,4)] by simp
  have left: "iv_left (between ?l r) = ?l"
    using between_sel(1) [OF le] new_endpoint_self [OF l] by simp
  then show "ep_value (iv_left (between ?l r)) \<noteq> None"
    using fin by simp
  show "interval_member (between ?l r) x \<longleftrightarrow> endpoint_in_range r x \<and> \<not> endpoint_in_range r' x"
    using left \<open>iv_right (between ?l r) = r\<close> adjacent_complement [OF fin assms(1), of x]
    by (auto simp: interval_member_def)
qed

text \<open>What \<open>get_difference\<close> returns, by the positions of the endpoints.\<close>

lemma difference_cases:
  fixes a b :: "'a::{linorder, zero} SingleInterval"
  assumes "interval_wf a" "interval_wf b"
  obtains (apart) "\<not> is_intersect a b" "get_difference a b = [a]"
  | (inside) "endpoint_le (iv_left b) (iv_left a)" "endpoint_le (iv_right a) (iv_right b)"
      "get_difference a b = [empty_interval]"
  | (both) "is_intersect a b" "endpoint_less (iv_left a) (iv_left b)" "endpoint_less (iv_right b) (iv_right a)"
      "get_difference a b = [between (iv_left a) (get_adjacent_endpoint (iv_left b)),
        between (get_adjacent_endpoint (iv_right b)) (iv_right a)]"
  | (behind) "is_intersect a b" "endpoint_le (iv_left b) (iv_left a)" "endpoint_less (iv_right b) (iv_right a)"
      "get_difference a b = [between (get_adjacent_endpoint (iv_right b)) (iv_right a)]"
  | (before) "is_intersect a b" "endpoint_less (iv_left a) (iv_left b)" "endpoint_le (iv_right a) (iv_right b)"
      "get_difference a b = [between (iv_left a) (get_adjacent_endpoint (iv_left b))]"
proof -
  note wf = interval_wfD [OF assms(1)] interval_wfD [OF assms(2)]
  have lin: "endpoint_less (iv_left a) (iv_left b) \<or> endpoint_le (iv_left b) (iv_left a)"
    "endpoint_less (iv_right b) (iv_right a) \<or> endpoint_le (iv_right a) (iv_right b)"
    using endpoint_less_linear [OF wf(1,6)] endpoint_less_linear [OF wf(3,8)] by (auto simp: endpoint_le_def)
  have irr: "endpoint_less (iv_left a) (iv_left b) \<Longrightarrow> \<not> endpoint_le (iv_left b) (iv_left a)"
    "endpoint_less (iv_right b) (iv_right a) \<Longrightarrow> \<not> endpoint_le (iv_right a) (iv_right b)"
    using endpoint_less_trans [OF wf(1,6,1)] endpoint_less_trans [OF wf(8,3,8)]
    by (auto simp: endpoint_le_def)
  show thesis
  proof (cases "is_intersect a b")
    case False
    then show thesis by (intro apart) (simp_all add: get_difference_def)
  next
    case int: True
    obtain c where c: "try_get_intersect a b = Some c" "iv_left c = left_max a b" "iv_right c = right_min a b"
      using try_get_intersect_Some [OF int] intersect_sel [OF assms int] by blast
    note eq = get_difference_def [of a b, unfolded c(1) option.case Let_def c(2,3)]
    have max: "endpoint_less (iv_left a) (iv_left b) \<Longrightarrow> left_max a b = iv_left b"
      "endpoint_le (iv_left b) (iv_left a) \<Longrightarrow> left_max a b = iv_left a"
      "endpoint_less (iv_right b) (iv_right a) \<Longrightarrow> right_min a b = iv_right b"
      "endpoint_le (iv_right a) (iv_right b) \<Longrightarrow> right_min a b = iv_right a"
      using irr lin by (auto simp: left_max_def right_min_def endpoint_ge_le endpoint_le_def)
    have ne: "endpoint_less (iv_left a) (iv_left b) \<Longrightarrow> iv_left b \<noteq> iv_left a"
      "endpoint_less (iv_right b) (iv_right a) \<Longrightarrow> iv_right b \<noteq> iv_right a"
      by auto
    from lin show thesis
    proof (elim disjE)
      assume "endpoint_less (iv_left a) (iv_left b)" "endpoint_less (iv_right b) (iv_right a)"
      then show thesis
        using int max irr
        by (intro both) (simp_all add: eq interval_contains_def endpoint_greater_def)
    next
      assume "endpoint_less (iv_left a) (iv_left b)" "endpoint_le (iv_right a) (iv_right b)"
      then show thesis
        using int max irr ne
        by (intro before) (simp_all add: eq interval_contains_def)
    next
      assume "endpoint_le (iv_left b) (iv_left a)" "endpoint_less (iv_right b) (iv_right a)"
      then show thesis
        using int max irr
        by (intro behind) (simp_all add: eq interval_contains_def endpoint_greater_def)
    next
      assume "endpoint_le (iv_left b) (iv_left a)" "endpoint_le (iv_right a) (iv_right b)"
      then show thesis
        using int by (intro inside) (simp_all add: eq interval_contains_def)
    qed
  qed
qed

lemma difference_wf:
  fixes a b :: "'a::{linorder, zero} SingleInterval"
  assumes "interval_wf a" "interval_wf b" "i \<in> set (get_difference a b)"
  shows "interval_wf i"
  using assms(3) interval_wfD [OF assms(1)] interval_wfD [OF assms(2)] assms(1)
  by (cases rule: difference_cases [OF assms(1,2)]) (auto simp: left_piece right_piece)

lemma difference_member:
  fixes a b :: "'a::{linorder, zero} SingleInterval"
  assumes "interval_wf a" "interval_wf b" "\<not> opposed a b"
  shows "(\<exists>i \<in> set (get_difference a b). interval_member i x) \<longleftrightarrow> interval_member a x \<and> \<not> interval_member b x"
proof -
  note wf = interval_wfD [OF assms(1)] interval_wfD [OF assms(2)]
  have l: "endpoint_le (iv_left b) (iv_left a) \<Longrightarrow> endpoint_in_range (iv_left a) x \<Longrightarrow> endpoint_in_range (iv_left b) x"
    using left_le_range [of "iv_left b" "iv_left a" x] wf by simp
  have r: "endpoint_le (iv_right a) (iv_right b) \<Longrightarrow> endpoint_in_range (iv_right a) x \<Longrightarrow> endpoint_in_range (iv_right b) x"
    using right_le_range [of "iv_right a" "iv_right b" x] wf by simp
  have m: "endpoint_in_range (iv_left a) x \<or> endpoint_in_range (iv_right b) x"
    "endpoint_in_range (iv_left b) x \<or> endpoint_in_range (iv_right a) x" if "is_intersect a b"
    using intersect_meets [OF assms(1,2) that] gap_not_meets wf by blast+
  show ?thesis
  proof (cases rule: difference_cases [OF assms(1,2), case_names apart inside both behind before])
    case apart
    with not_intersect_disjoint [OF assms(1,2) _ assms(3), of x] show ?thesis by auto
  next
    case inside
    with l r show ?thesis by simp (auto simp: interval_member_def)
  next
    case both
    with m wf show ?thesis
      by (simp add: left_piece right_piece) (auto simp: interval_member_def)
  next
    case behind
    with m l wf show ?thesis
      by (simp add: right_piece) (auto simp: interval_member_def)
  next
    case before
    with m r wf show ?thesis
      by (simp add: left_piece) (auto simp: interval_member_def)
  qed
qed

section \<open>The operations on sets\<close>

lemma meets_intersect:
  assumes "try_get_intersect a b = None"
  shows "\<not> is_intersect a b"
  using assms by (auto simp: try_get_intersect_def Let_def split: if_splits)

text \<open>Of two well-formed intervals that are not opposed, \<open>try_get_intersect\<close> gives a well-formed
  interval of exactly the common values, and nothing only if there is no common value.\<close>

theorem intersection_of_sets:
  assumes "interval_wf a" "interval_wf b" "\<not> opposed a b"
  shows "case try_get_intersect a b of
      Some c \<Rightarrow> interval_wf c \<and> (\<forall>x. interval_member c x = (interval_member a x \<and> interval_member b x))
    | None \<Rightarrow> \<forall>x. \<not> (interval_member a x \<and> interval_member b x)"
  using intersect_wf [OF assms(1,2)] intersect_member [OF assms(1,2)] no_intersect_member [OF assms]
  by (auto split: option.split)

theorem intersection_of_sets_witness:
  "case try_get_intersect (point_interval (3 :: int)) (point_interval 3) of
      Some c \<Rightarrow> interval_wf c \<and> (\<forall>x. interval_member c x =
        (interval_member (point_interval 3) x \<and> interval_member (point_interval 3) x))
    | None \<Rightarrow> \<forall>x. \<not> (interval_member (point_interval (3 :: int)) x \<and> interval_member (point_interval 3) x)"
  by (rule intersection_of_sets [of "point_interval 3" "point_interval 3"])
     (simp_all add: point_interval_def interval_wf_def endpoint_wf_def values_le_def opposed_def)

text \<open>Two well-formed intervals that are not opposed are merged by \<open>try_get_union\<close> only into a
  well-formed interval of exactly the values of the two.\<close>

theorem union_of_sets:
  assumes "interval_wf a" "interval_wf b" "\<not> opposed a b" "try_get_union a b = Some c"
  shows "interval_wf c \<and> (\<forall>x. interval_member c x = (interval_member a x \<or> interval_member b x))"
  using union_wf [OF assms(1,2,4)] union_member [OF assms] by simp

theorem union_of_sets_witness:
  "interval_wf (point_interval (3 :: int)) \<and> (\<forall>x. interval_member (point_interval (3 :: int)) x =
     (interval_member (point_interval 3) x \<or> interval_member (point_interval 3) x))"
  by (rule union_of_sets [of "point_interval 3" "point_interval 3"])
     (simp_all add: point_interval_def interval_wf_def endpoint_wf_def values_le_def opposed_def
       try_get_union_def can_merge_with_def is_disjoint_def is_adjacent_def endpoint_less_def endpoint_greater_def
       endpoint_le_def endpoint_ge_def between_def new_interval_def get_value_def is_open_def new_endpoint_def
       get_adjacent_endpoint_def Let_def)

text \<open>The intervals \<open>get_difference\<close> gives are well-formed and together hold exactly the values
  of the first interval that are not in the second, for intervals that are not opposed.\<close>

theorem difference_of_sets:
  fixes a b :: "'a::{linorder, zero} SingleInterval"
  assumes "interval_wf a" "interval_wf b" "\<not> opposed a b"
  shows "(\<forall>c \<in> set (get_difference a b). interval_wf c) \<and>
    (\<forall>x. (\<exists>c \<in> set (get_difference a b). interval_member c x) = (interval_member a x \<and> \<not> interval_member b x))"
  using difference_wf [OF assms(1,2)] difference_member [OF assms] by simp

theorem difference_of_sets_witness:
  "(\<exists>c \<in> set (get_difference (point_interval (3 :: int)) (point_interval 4)). interval_member c 3) =
     (interval_member (point_interval (3 :: int)) 3 \<and> \<not> interval_member (point_interval (4 :: int)) 3)"
proof -
  have "interval_wf (point_interval (3 :: int))" "interval_wf (point_interval (4 :: int))"
    "\<not> opposed (point_interval (3 :: int)) (point_interval 4)"
    by (simp_all add: point_interval_def interval_wf_def endpoint_wf_def values_le_def opposed_def)
  from difference_of_sets [OF this] show ?thesis by blast
qed

text \<open>The intervals up to a value and from a value, and the whole line.\<close>

definition up_to :: "'a \<Rightarrow> 'a SingleInterval" where
  "up_to v = interval_of_endpoint (new_endpoint (Some v) False Right)"

definition starting_at :: "'a \<Rightarrow> 'a SingleInterval" where
  "starting_at w = interval_of_endpoint (new_endpoint (Some w) False Left)"

definition whole_line :: "'a SingleInterval" where
  "whole_line = interval_of_endpoint (infinite_endpoint Left)"

lemma half_line_sel:
  "iv_left (up_to v) = infinite_endpoint Left" "iv_right (up_to v) = new_endpoint (Some v) False Right"
  "iv_left (starting_at v) = new_endpoint (Some v) False Left" "iv_right (starting_at v) = infinite_endpoint Right"
  "iv_left whole_line = infinite_endpoint Left" "iv_right whole_line = infinite_endpoint Right"
  by (simp_all add: up_to_def starting_at_def whole_line_def interval_of_endpoint_def get_side_def
      infinite_endpoint_def)

lemma whole_line_between: "between (infinite_endpoint Left) (infinite_endpoint Right) = whole_line"
  by (simp add: between_def new_interval_def whole_line_def interval_of_endpoint_def infinite_endpoint_def
      new_endpoint_def get_value_def is_open_def get_side_def init_state_def is_limited_def Let_def)

lemma half_lines_adjacent: "is_adjacent (up_to v) (starting_at w)" "is_adjacent whole_line whole_line"
  by (simp_all add: is_adjacent_def half_line_sel infinite_endpoint_def get_adjacent_endpoint_def
      new_endpoint_def Let_def)

text \<open>Opposed intervals are misjudged, because the infinite ends count as adjacent: the
  intervals up to \<open>v\<close> and from \<open>w\<close> never intersect and always merge into the whole line,
  whatever \<open>v\<close> and \<open>w\<close> are, and the whole line does not intersect itself.\<close>

theorem opposed_intervals_misjudged:
  "try_get_intersect (up_to v) (starting_at w) = None \<and>
   try_get_union (up_to v) (starting_at w) = Some whole_line \<and>
   interval_member (up_to v) x = (x \<le> v) \<and> interval_member (starting_at w) x = (w \<le> x) \<and>
   interval_member whole_line x \<and> try_get_intersect whole_line (whole_line :: 'a::linorder SingleInterval) = None"
proof -
  have "try_get_union (up_to v) (starting_at w) = Some whole_line"
    using half_lines_adjacent(1) [of v w]
    by (simp add: try_get_union_def can_merge_with_def is_disjoint_def half_line_sel whole_line_between [symmetric]
        endpoint_le_def endpoint_ge_def endpoint_greater_def endpoint_less_def infinite_endpoint_def
        new_endpoint_def Let_def)
  then show ?thesis
    using half_lines_adjacent(1) [of v w] half_lines_adjacent(2)
    by (auto simp: try_get_intersect_def is_intersect_def interval_member_def half_line_sel endpoint_in_range_def
        infinite_endpoint_def)
qed

end
