(* ===== verification/Ranges.thy ===== *)
theory Ranges
  imports Intervals
begin

text \<open>
  Range conditions, \<open>condition/range_condition.hpp\<close>: unions of intervals, and finite sets of
  points, \<open>condition/scatter_point_range.hpp\<close>. A \<open>std::set\<close> is the list of its elements in
  the order of the set; \<open>set_insert\<close> inserts by the comparison of the set.
\<close>

section \<open>Relations of conditions\<close>

datatype SignDirection = SmallToLarge | LargeToSmall | VarLeft | VarRight | Unknown_Direction

datatype ConditionRelation = Or | And | Xor | Not | Unknown_Relation

definition SignDirection_to_string :: "SignDirection \<Rightarrow> string" where
  "SignDirection_to_string direction =
     (case direction of
        SmallToLarge \<Rightarrow> ''SignDirection::SmallToLarge''
      | LargeToSmall \<Rightarrow> ''SignDirection::LargeToSmall''
      | VarLeft \<Rightarrow> ''SignDirection::VarLeft''
      | VarRight \<Rightarrow> ''SignDirection::VarRight''
      | _ \<Rightarrow> ''SignDirection::Unknown'')"

definition SignDirection_enum_cast :: "string \<Rightarrow> SignDirection" where
  "SignDirection_enum_cast s =
     (if s = ''SignDirection::SmallToLarge'' then SmallToLarge
      else if s = ''SignDirection::LargeToSmall'' then LargeToSmall
      else if s = ''SignDirection::VarLeft'' then VarLeft
      else if s = ''SignDirection::VarRight'' then VarRight
      else Unknown_Direction)"

interpretation sign_direction: enum_names SignDirection_to_string SignDirection_enum_cast "\<lambda>_. True"
proof
  show "SignDirection_enum_cast (SignDirection_to_string e) = e" for e
    by (cases e) (simp_all add: SignDirection_to_string_def SignDirection_enum_cast_def)
qed

definition ConditionRelation_to_string :: "ConditionRelation \<Rightarrow> string" where
  "ConditionRelation_to_string relation =
     (case relation of
        Or \<Rightarrow> ''ConditionRelation::Or''
      | And \<Rightarrow> ''ConditionRelation::And''
      | Xor \<Rightarrow> ''ConditionRelation::Xor''
      | Not \<Rightarrow> ''ConditionRelation::Not''
      | _ \<Rightarrow> ''ConditionRelation::Unknown'')"

definition ConditionRelation_enum_cast :: "string \<Rightarrow> ConditionRelation" where
  "ConditionRelation_enum_cast s =
     (if s = ''ConditionRelation::Or'' then Or
      else if s = ''ConditionRelation::And'' then And
      else if s = ''ConditionRelation::Xor'' then Xor
      else if s = ''ConditionRelation::Not'' then Not
      else Unknown_Relation)"

interpretation condition_relation: enum_names ConditionRelation_to_string ConditionRelation_enum_cast "\<lambda>_. True"
proof
  show "ConditionRelation_enum_cast (ConditionRelation_to_string e) = e" for e
    by (cases e) (simp_all add: ConditionRelation_to_string_def ConditionRelation_enum_cast_def)
qed

section \<open>Ordered sets\<close>

fun set_insert :: "('a \<Rightarrow> 'a \<Rightarrow> bool) \<Rightarrow> 'a \<Rightarrow> 'a list \<Rightarrow> 'a list" where
  "set_insert lt x [] = [x]"
| "set_insert lt x (y # ys) =
     (if lt x y then x # y # ys
      else if lt y x then y # set_insert lt x ys
      else y # ys)"

fun set_insert_all :: "('a \<Rightarrow> 'a \<Rightarrow> bool) \<Rightarrow> 'a list \<Rightarrow> 'a list \<Rightarrow> 'a list" where
  "set_insert_all lt [] s = s"
| "set_insert_all lt (x # xs) s = set_insert_all lt xs (set_insert lt x s)"

section \<open>Range conditions\<close>

record 'a RangeCondition =
  m_intervals :: "'a SingleInterval list"

definition empty_range :: "'a RangeCondition" where
  "empty_range = \<lparr>m_intervals = []\<rparr>"

definition range_of_value :: "'a \<Rightarrow> 'a RangeCondition" where
  "range_of_value v = \<lparr>m_intervals = [point_interval v]\<rparr>"

definition range_of_interval :: "'a SingleInterval \<Rightarrow> 'a RangeCondition" where
  "range_of_interval i = (if interval_is_empty i then empty_range else \<lparr>m_intervals = [i]\<rparr>)"

definition get_intervals :: "'a RangeCondition \<Rightarrow> 'a SingleInterval list" where
  "get_intervals r = m_intervals r"

definition or_single_interval :: "'a::linorder SingleInterval \<Rightarrow> 'a RangeCondition \<Rightarrow> 'a RangeCondition" where
  "or_single_interval added r = r\<lparr>m_intervals := set_insert interval_less added (m_intervals r)\<rparr>"

fun intersect_all ::
  "'a::linorder SingleInterval \<Rightarrow> 'a SingleInterval list \<Rightarrow> 'a SingleInterval list \<Rightarrow> 'a SingleInterval list" where
  "intersect_all added [] result = result"
| "intersect_all added (i # is) result =
     (case try_get_intersect i added of
        Some intersect_interval \<Rightarrow>
          intersect_all added is (set_insert interval_less intersect_interval result)
      | None \<Rightarrow> intersect_all added is result)"

definition and_single_interval :: "'a::linorder SingleInterval \<Rightarrow> 'a RangeCondition \<Rightarrow> 'a RangeCondition" where
  "and_single_interval added r = r\<lparr>m_intervals := intersect_all added (m_intervals r) []\<rparr>"

fun difference_all ::
  "'a::{linorder, zero} SingleInterval \<Rightarrow> 'a SingleInterval list \<Rightarrow> 'a SingleInterval list \<Rightarrow>
     'a SingleInterval list" where
  "difference_all added [] result = result"
| "difference_all added (i # is) result =
     difference_all added is (set_insert_all interval_less (get_difference i added) result)"

definition not_single_interval ::
  "'a::{linorder, zero} SingleInterval \<Rightarrow> 'a RangeCondition \<Rightarrow> 'a RangeCondition" where
  "not_single_interval added r = r\<lparr>m_intervals := difference_all added (m_intervals r) []\<rparr>"

definition range_is_empty :: "'a RangeCondition \<Rightarrow> bool" where
  "range_is_empty r \<longleftrightarrow> m_intervals r = []"

text \<open>The loop of \<open>simplify\<close> and what it does after its last round.\<close>

fun simplify_loop ::
  "'a::linorder SingleInterval \<Rightarrow> 'a SingleInterval list \<Rightarrow> 'a SingleInterval list \<Rightarrow> 'a SingleInterval list" where
  "simplify_loop current [] result =
     (if \<not> interval_is_empty current then set_insert interval_less current result else result)"
| "simplify_loop current (nxt # rest) result =
     (if interval_is_empty current then simplify_loop nxt rest result
      else
        case try_get_union current nxt of
          Some merged \<Rightarrow> simplify_loop merged rest result
        | None \<Rightarrow>
            simplify_loop nxt rest
              (if \<not> interval_is_empty current then set_insert interval_less current result else result))"

definition simplify :: "'a::linorder RangeCondition \<Rightarrow> 'a RangeCondition" where
  "simplify r =
     (case m_intervals r of
        [] \<Rightarrow> r
      | [i] \<Rightarrow> if interval_is_empty i then r\<lparr>m_intervals := []\<rparr> else r
      | i # is \<Rightarrow> r\<lparr>m_intervals := simplify_loop i is []\<rparr>)"

definition add_range ::
  "'a::{linorder, zero} SingleInterval \<Rightarrow> ConditionRelation \<Rightarrow> 'a RangeCondition \<Rightarrow> 'a RangeCondition" where
  "add_range added relation r =
     simplify
       (case relation of
          And \<Rightarrow> and_single_interval added r
        | Or \<Rightarrow> or_single_interval added r
        | Not \<Rightarrow> not_single_interval added r
        | _ \<Rightarrow> r)"

fun add_intervals ::
  "'a::{linorder, zero} SingleInterval list \<Rightarrow> ConditionRelation \<Rightarrow> 'a RangeCondition \<Rightarrow> 'a RangeCondition" where
  "add_intervals [] relation r = r"
| "add_intervals (i # is) relation r = add_intervals is relation (add_range i relation r)"

definition add_range_range ::
  "'a::{linorder, zero} RangeCondition \<Rightarrow> ConditionRelation \<Rightarrow> 'a RangeCondition \<Rightarrow> 'a RangeCondition" where
  "add_range_range new_range relation r = add_intervals (get_intervals new_range) relation r"

definition add_range_value ::
  "'a::{linorder, zero} \<Rightarrow> ConditionRelation \<Rightarrow> 'a RangeCondition \<Rightarrow> 'a RangeCondition" where
  "add_range_value new_value relation r = add_range (point_interval new_value) relation r"

fun intersect_range_loop ::
  "'a::{linorder, zero} RangeCondition \<Rightarrow> 'a SingleInterval list \<Rightarrow> 'a RangeCondition \<Rightarrow> 'a RangeCondition" where
  "intersect_range_loop r [] result = result"
| "intersect_range_loop r (other_interval # is) result =
     (let temp = add_range other_interval And r
      in intersect_range_loop r is (add_range_range temp Or result))"

definition get_intersect_range ::
  "'a::{linorder, zero} RangeCondition \<Rightarrow> 'a RangeCondition \<Rightarrow> 'a RangeCondition" where
  "get_intersect_range r other = intersect_range_loop r (get_intervals other) empty_range"

definition get_union_range ::
  "'a::{linorder, zero} RangeCondition \<Rightarrow> 'a RangeCondition \<Rightarrow> 'a RangeCondition" where
  "get_union_range r other = add_intervals (get_intervals other) Or r"

definition get_difference_range ::
  "'a::{linorder, zero} RangeCondition \<Rightarrow> 'a RangeCondition \<Rightarrow> 'a RangeCondition" where
  "get_difference_range r other = add_intervals (m_intervals other) Not r"

definition range_is_equal :: "'a RangeCondition \<Rightarrow> 'a RangeCondition \<Rightarrow> bool" where
  "range_is_equal r other = list_all2 interval_eq (m_intervals r) (m_intervals other)"

definition range_is_intersect :: "'a::linorder RangeCondition \<Rightarrow> 'a RangeCondition \<Rightarrow> bool" where
  "range_is_intersect r other =
     list_ex (\<lambda>i. list_ex (\<lambda>other_interval. is_intersect i other_interval) (m_intervals r)) (m_intervals other)"

definition is_in_range_interval :: "'a::linorder RangeCondition \<Rightarrow> 'a SingleInterval \<Rightarrow> bool" where
  "is_in_range_interval r other = list_ex (\<lambda>i. interval_contains i other) (m_intervals r)"

definition is_in_range_value :: "'a::linorder RangeCondition \<Rightarrow> 'a \<Rightarrow> bool" where
  "is_in_range_value r x = list_ex (\<lambda>i. interval_member i x) (m_intervals r)"

definition is_in_range_range :: "'a::linorder RangeCondition \<Rightarrow> 'a RangeCondition \<Rightarrow> bool" where
  "is_in_range_range r other = list_all (is_in_range_interval r) (m_intervals other)"

fun range_values_in_range :: "'a::linorder RangeCondition \<Rightarrow> 'a list \<Rightarrow> 'a list" where
  "range_values_in_range r [] = []"
| "range_values_in_range r (x # xs) =
     (if is_in_range_value r x then x # range_values_in_range r xs else range_values_in_range r xs)"

fun range_values_not_in_range :: "'a::linorder RangeCondition \<Rightarrow> 'a list \<Rightarrow> 'a list" where
  "range_values_not_in_range r [] = []"
| "range_values_not_in_range r (x # xs) =
     (if \<not> is_in_range_value r x then x # range_values_not_in_range r xs
      else range_values_not_in_range r xs)"

definition range_clear :: "'a RangeCondition \<Rightarrow> 'a RangeCondition" where
  "range_clear r = r\<lparr>m_intervals := []\<rparr>"

fun show_intervals :: "('a \<Rightarrow> string) \<Rightarrow> bool \<Rightarrow> 'a SingleInterval list \<Rightarrow> string" where
  "show_intervals show_value is_first [] = []"
| "show_intervals show_value is_first (i # is) =
     (if \<not> is_first then ''||'' else []) @ '' '' @ interval_to_string show_value i @ '' '' @
       show_intervals show_value False is"

definition range_to_string :: "('a \<Rightarrow> string) \<Rightarrow> string \<Rightarrow> 'a RangeCondition \<Rightarrow> string" where
  "range_to_string show_value variable_name r =
     ''RangeCondition: {'' @ show_intervals show_value True (m_intervals r) @ ''}''"

definition range_eq :: "'a RangeCondition \<Rightarrow> 'a RangeCondition \<Rightarrow> bool" where
  "range_eq r other = range_is_equal r other"

definition range_neq :: "'a RangeCondition \<Rightarrow> 'a RangeCondition \<Rightarrow> bool" where
  "range_neq r other \<longleftrightarrow> \<not> range_is_equal r other"

definition range_accepts :: "'a::linorder RangeCondition \<Rightarrow> 'a \<Rightarrow> bool" where
  "range_accepts r x = is_in_range_value r x"

definition range_accepts_range :: "'a::linorder RangeCondition \<Rightarrow> 'a RangeCondition \<Rightarrow> bool" where
  "range_accepts_range r other = is_in_range_range r other"

definition range_accepts_all :: "'a::linorder RangeCondition \<Rightarrow> 'a list \<Rightarrow> bool" where
  "range_accepts_all r xs = list_all (is_in_range_value r) xs"

fun integer_intervals :: "('a \<Rightarrow> int) \<Rightarrow> 'a SingleInterval list \<Rightarrow> int SingleInterval list" where
  "integer_intervals cast [] = []"
| "integer_intervals cast (i # is) =
     (case get_integer_interval cast i of
        Some integer_interval \<Rightarrow> integer_interval # integer_intervals cast is
      | None \<Rightarrow> integer_intervals cast is)"

definition get_integer_intervals :: "('a \<Rightarrow> int) \<Rightarrow> 'a RangeCondition \<Rightarrow> int SingleInterval list" where
  "get_integer_intervals cast r = integer_intervals cast (m_intervals r)"

text \<open>The free functions.\<close>

definition get_complement_range ::
  "'a::{linorder, zero} RangeCondition \<Rightarrow> 'a RangeCondition \<Rightarrow> 'a RangeCondition" where
  "get_complement_range lhs rhs = get_difference_range lhs rhs"

definition range_or :: "'a::{linorder, zero} RangeCondition \<Rightarrow> 'a RangeCondition \<Rightarrow> 'a RangeCondition" where
  "range_or lhs rhs = get_union_range lhs rhs"

definition range_and :: "'a::{linorder, zero} RangeCondition \<Rightarrow> 'a RangeCondition \<Rightarrow> 'a RangeCondition" where
  "range_and lhs rhs = get_intersect_range lhs rhs"

section \<open>Sets of points\<close>

record 'a ScatterPointRange =
  m_scatter_elements :: "'a list"

definition scatter_empty :: "'a ScatterPointRange" where
  "scatter_empty = \<lparr>m_scatter_elements = []\<rparr>"

definition add_scatter_element :: "'a::linorder \<Rightarrow> 'a ScatterPointRange \<Rightarrow> 'a ScatterPointRange" where
  "add_scatter_element x s = s\<lparr>m_scatter_elements := set_insert (<) x (m_scatter_elements s)\<rparr>"

definition add_scatter_elements :: "'a::linorder list \<Rightarrow> 'a ScatterPointRange \<Rightarrow> 'a ScatterPointRange" where
  "add_scatter_elements xs s = s\<lparr>m_scatter_elements := set_insert_all (<) xs (m_scatter_elements s)\<rparr>"

definition add_scatter_range ::
  "'a::linorder ScatterPointRange \<Rightarrow> 'a ScatterPointRange \<Rightarrow> 'a ScatterPointRange" where
  "add_scatter_range other s =
     s\<lparr>m_scatter_elements := set_insert_all (<) (m_scatter_elements other) (m_scatter_elements s)\<rparr>"

definition scatter_of_value :: "'a::linorder \<Rightarrow> 'a ScatterPointRange" where
  "scatter_of_value x = \<lparr>m_scatter_elements = set_insert (<) x []\<rparr>"

definition scatter_of_values :: "'a::linorder list \<Rightarrow> 'a ScatterPointRange" where
  "scatter_of_values xs = \<lparr>m_scatter_elements = set_insert_all (<) xs []\<rparr>"

definition get_scatter_elements :: "'a ScatterPointRange \<Rightarrow> 'a list" where
  "get_scatter_elements s = m_scatter_elements s"

definition scatter_in_range :: "'a ScatterPointRange \<Rightarrow> 'a \<Rightarrow> bool" where
  "scatter_in_range s x \<longleftrightarrow> List.member (m_scatter_elements s) x"

fun scatter_values_in_range :: "'a ScatterPointRange \<Rightarrow> 'a list \<Rightarrow> 'a list" where
  "scatter_values_in_range s [] = []"
| "scatter_values_in_range s (x # xs) =
     (if scatter_in_range s x then x # scatter_values_in_range s xs else scatter_values_in_range s xs)"

fun scatter_values_not_in_range :: "'a ScatterPointRange \<Rightarrow> 'a list \<Rightarrow> 'a list" where
  "scatter_values_not_in_range s [] = []"
| "scatter_values_not_in_range s (x # xs) =
     (if \<not> scatter_in_range s x then x # scatter_values_not_in_range s xs
      else scatter_values_not_in_range s xs)"

definition remove_scatter_element :: "'a \<Rightarrow> 'a ScatterPointRange \<Rightarrow> 'a ScatterPointRange" where
  "remove_scatter_element x s = s\<lparr>m_scatter_elements := remove1 x (m_scatter_elements s)\<rparr>"

fun show_elements :: "('a \<Rightarrow> string) \<Rightarrow> 'a list \<Rightarrow> string" where
  "show_elements show_value [] = []"
| "show_elements show_value [x] = show_value x"
| "show_elements show_value (x # xs) = show_value x @ '', '' @ show_elements show_value xs"

definition scatter_to_string :: "('a \<Rightarrow> string) \<Rightarrow> string \<Rightarrow> 'a ScatterPointRange \<Rightarrow> string" where
  "scatter_to_string show_value variable_name s =
     variable_name @ '': {'' @ show_elements show_value (m_scatter_elements s) @ ''}''"

section \<open>The order of intervals\<close>

lemma init_state_cong:
  "iv_left a = iv_left b \<Longrightarrow> iv_right a = iv_right b \<Longrightarrow> iv_state (init_state a) = iv_state (init_state b)"
  by (simp add: init_state_def)

lemma interval_wf_eqI:
  assumes "interval_wf a" "interval_wf b" "iv_left a = iv_left b" "iv_right a = iv_right b"
  shows "a = (b :: 'a::linorder SingleInterval)"
  using assms init_state_cong [OF assms(3,4)]
  by (intro SingleInterval.equality) (simp_all add: interval_wf_def)

lemma endpoint_less_asym:
  assumes "endpoint_wf a" "endpoint_wf b" "endpoint_less a b"
  shows "\<not> endpoint_less b a"
  using endpoint_less_trans [OF assms(1,2,1,3)] by auto

lemma interval_less_iff:
  assumes "interval_wf a" "interval_wf b"
  shows "interval_less a b \<longleftrightarrow> endpoint_less (iv_left a) (iv_left b) \<or>
    iv_left a = iv_left b \<and> endpoint_less (iv_right a) (iv_right b)"
  using endpoint_less_linear [of "iv_left a" "iv_left b"] endpoint_less_asym [of "iv_left a" "iv_left b"]
    interval_wfD [OF assms(1)] interval_wfD [OF assms(2)]
  by (auto simp: interval_less_def)

lemma interval_less_trans:
  assumes "interval_wf a" "interval_wf b" "interval_wf c" "interval_less a b" "interval_less b c"
  shows "interval_less a c"
  using assms(4,5) endpoint_less_trans [of "iv_left a" "iv_left b" "iv_left c"]
    endpoint_less_trans [of "iv_right a" "iv_right b" "iv_right c"]
    interval_wfD [OF assms(1)] interval_wfD [OF assms(2)] interval_wfD [OF assms(3)]
  unfolding interval_less_iff [OF assms(1,2)] interval_less_iff [OF assms(2,3)] interval_less_iff [OF assms(1,3)]
  by auto

lemma interval_less_total:
  assumes "interval_wf a" "interval_wf b" "\<not> interval_less a b" "\<not> interval_less b a"
  shows "a = (b :: 'a::linorder SingleInterval)"
proof (rule interval_wf_eqI [OF assms(1,2)])
  note wf = interval_wfD [OF assms(1)] interval_wfD [OF assms(2)]
  show "iv_left a = iv_left b"
    using assms(3,4) endpoint_less_linear [OF wf(1,6)]
    unfolding interval_less_iff [OF assms(1,2)] interval_less_iff [OF assms(2,1)] by auto
  then show "iv_right a = iv_right b"
    using assms(3,4) endpoint_less_linear [OF wf(3,8)]
    unfolding interval_less_iff [OF assms(1,2)] interval_less_iff [OF assms(2,1)] by auto
qed

lemma wf_empty_member: "interval_wf i \<Longrightarrow> interval_is_empty i \<Longrightarrow> \<not> interval_member i x"
  by (auto simp: interval_wf_def interval_is_empty_def init_state_def interval_member_def endpoint_in_range_def
      is_limited_def get_value_def is_open_def split: if_splits)

lemma wf_empty_iff:
  "interval_wf i \<Longrightarrow> interval_is_empty i \<longleftrightarrow>
     ep_value (iv_left i) \<noteq> None \<and> ep_value (iv_left i) = ep_value (iv_right i) \<and> ep_is_open (iv_left i)"
  by (auto simp: interval_wf_def interval_is_empty_def init_state_def is_limited_def get_value_def is_open_def
      split: if_splits)

section \<open>Insertion\<close>

lemma set_insert_subset: "set (set_insert lt x s) \<subseteq> insert x (set s)"
  by (induction s) auto

lemma set_set_insert:
  assumes "\<And>y. y \<in> set s \<Longrightarrow> \<not> lt x y \<Longrightarrow> \<not> lt y x \<Longrightarrow> x = y"
  shows "set (set_insert lt x s) = insert x (set s)"
  using assms by (induction s) auto

lemma sorted_set_insert:
  assumes "sorted_wrt lt s" and "\<And>a b c. {a, b, c} \<subseteq> insert x (set s) \<Longrightarrow> lt a b \<Longrightarrow> lt b c \<Longrightarrow> lt a c"
  shows "sorted_wrt lt (set_insert lt x s)"
  using assms
proof (induction s)
  case (Cons y ys)
  have "sorted_wrt lt (set_insert lt x ys)"
    using Cons.prems by (intro Cons.IH) auto
  moreover have "lt x z" if "lt x y" "z \<in> set ys" for z
    using that Cons.prems(1) by (intro Cons.prems(2) [of x y z]) auto
  ultimately show ?case
    using Cons.prems(1) set_insert_subset [of lt x ys] by auto
qed simp

lemma set_insert_last:
  "(\<And>y. y \<in> set s \<Longrightarrow> \<not> lt x y \<and> lt y x) \<Longrightarrow> set_insert lt x s = s @ [x]"
  by (induction s) auto

lemma set_insert_wf:
  assumes "interval_wf x" "\<forall>i \<in> set s. interval_wf i"
  shows "set (set_insert interval_less x s) = insert x (set s)"
    and "sorted_wrt interval_less s \<Longrightarrow> sorted_wrt interval_less (set_insert interval_less x s)"
proof -
  show "set (set_insert interval_less x s) = insert x (set s)"
    using assms by (intro set_set_insert) (auto intro: interval_less_total)
  assume "sorted_wrt interval_less s"
  moreover have "interval_less a c"
    if "{a, b, c} \<subseteq> insert x (set s)" "interval_less a b" "interval_less b c" for a b c
    using that assms by (intro interval_less_trans [of a b c]) auto
  ultimately show "sorted_wrt interval_less (set_insert interval_less x s)"
    by (rule sorted_set_insert)
qed

lemma set_insert_all_wf:
  assumes "\<forall>i \<in> set xs. interval_wf i" "\<forall>i \<in> set s. interval_wf i"
  shows "set (set_insert_all interval_less xs s) = set xs \<union> set s \<and>
    (sorted_wrt interval_less s \<longrightarrow> sorted_wrt interval_less (set_insert_all interval_less xs s))"
  using assms
proof (induction xs arbitrary: s)
  case (Cons x xs)
  then have wf: "interval_wf x" "\<forall>i \<in> set s. interval_wf i" "\<forall>i \<in> set xs. interval_wf i"
    by auto
  then have "\<forall>i \<in> set (set_insert interval_less x s). interval_wf i"
    by (simp add: set_insert_wf(1))
  from Cons.IH [OF wf(3) this] set_insert_wf [OF wf(1,2)] show ?case
    by auto
qed simp

section \<open>What simplification leaves\<close>

text \<open>All of one interval lies before all of the other, with a value between them or next to them both.\<close>

definition gap :: "'a::linorder EndpointRange \<Rightarrow> 'a EndpointRange \<Rightarrow> bool" where
  "gap r l =
     (case (ep_value r, ep_value l) of
        (Some w, Some v) \<Rightarrow> w < v \<or> w = v \<and> ep_is_open r \<and> ep_is_open l
      | _ \<Rightarrow> False)"

definition separated :: "'a::linorder SingleInterval \<Rightarrow> 'a SingleInterval \<Rightarrow> bool" where
  "separated a b \<longleftrightarrow> gap (iv_right a) (iv_left b)"

text \<open>The intervals of a simplified range: no empty one, and every two of them apart.\<close>

definition canonical :: "'a::linorder RangeCondition \<Rightarrow> bool" where
  "canonical r \<longleftrightarrow>
     (\<forall>i \<in> set (m_intervals r). \<not> interval_is_empty i) \<and> sorted_wrt separated (m_intervals r)"

lemma gap_left_mono:
  assumes "endpoint_wf l" "endpoint_wf l'" "ep_side l = Left" "ep_side l' = Left" "endpoint_le l l'" "gap r l"
  shows "gap r l'"
proof -
  obtain w v where v: "ep_value r = Some w" "ep_value l = Some v" "w < v \<or> w = v \<and> ep_is_open r \<and> ep_is_open l"
    using assms(6) by (auto simp: gap_def split: option.splits)
  obtain u where u: "ep_value l' = Some u" "v \<le> u" "u = v \<Longrightarrow> ep_is_open l \<Longrightarrow> ep_is_open l'"
    using left_le_Some [OF assms(1-5) v(2)] by blast
  show ?thesis
    using v u by (auto simp: gap_def)
qed

lemma separated_less:
  assumes "interval_wf a" "interval_wf b" "\<not> interval_is_empty a" "separated a b"
  shows "endpoint_less (iv_left a) (iv_left b)"
proof -
  note wf = interval_wfD [OF assms(1)] interval_wfD [OF assms(2)]
  obtain w v where v: "ep_value (iv_right a) = Some w" "ep_value (iv_left b) = Some v"
    "w < v \<or> w = v \<and> ep_is_open (iv_right a) \<and> ep_is_open (iv_left b)"
    using assms(4) by (auto simp: separated_def gap_def split: option.splits)
  show ?thesis
  proof (cases "ep_value (iv_left a)")
    case None
    then show ?thesis using v wf by (auto simp: endpoint_less_def endpoint_eq_def simp del: endpoint_eq_iff)
  next
    case (Some u)
    have "u \<le> w"
      using wf(5) Some v by (simp add: values_le_def)
    moreover have "\<not> ep_is_open (iv_left a)" if "u = w" "ep_is_open (iv_right a)"
      using that assms(1,3) Some v wf_empty_iff [OF assms(1)] by (simp add: interval_wf_def)
    ultimately show ?thesis
      using Some v wf by (auto simp: endpoint_less_def endpoint_eq_def simp del: endpoint_eq_iff)
  qed
qed

lemma not_merge_gap:
  assumes "interval_wf a" "interval_wf b" "endpoint_le (iv_left a) (iv_left b)" "\<not> can_merge_with a b"
    and "iv_left a = iv_left b \<Longrightarrow> \<not> interval_is_empty b"
  shows "separated a b"
proof -
  note wf = interval_wfD [OF assms(1)] interval_wfD [OF assms(2)]
  have d: "is_disjoint a b" "\<not> is_adjacent a b"
    using assms(4) by (auto simp: can_merge_with_def is_disjoint_def split: if_splits)
  have "\<not> endpoint_less (iv_right b) (iv_left a)"
  proof
    assume less: "endpoint_less (iv_right b) (iv_left a)"
    then obtain v w where v: "ep_value (iv_left a) = Some v" "ep_value (iv_right b) = Some w"
      using wf by (auto simp: endpoint_less_def split: option.splits if_splits)
    have "w \<le> v"
      using less v by (auto simp: endpoint_less_def split: if_splits)
    obtain u where u: "ep_value (iv_left b) = Some u" "v \<le> u" "u = v \<Longrightarrow> ep_is_open (iv_left a) \<Longrightarrow> ep_is_open (iv_left b)"
      using left_le_Some [OF wf(1,6,2,7) assms(3) v(1)] by blast
    have "u \<le> w"
      using wf(10) u v by (simp add: values_le_def)
    with u \<open>w \<le> v\<close> have eq: "u = v" "w = v" by auto
    then have "ep_is_open (iv_left a)" "ep_is_open (iv_right b)"
      using d less v by (auto simp: is_disjoint_def endpoint_greater_def get_value_def is_open_def)
    then have "iv_left a = iv_left b"
      using u v eq wf by (intro EndpointRange.equality) auto
    moreover have "interval_is_empty b"
      using wf_empty_iff [OF assms(2)] u v eq \<open>ep_is_open (iv_left a)\<close> by simp
    ultimately show False
      using assms(5) by simp
  qed
  then have less: "endpoint_less (iv_right a) (iv_left b)"
    and opn: "get_value (iv_right a) = get_value (iv_left b) \<Longrightarrow> ep_is_open (iv_right a) \<and> ep_is_open (iv_left b)"
    using d by (auto simp: is_disjoint_def endpoint_greater_def is_open_def split: if_splits)
  then obtain w v where v: "ep_value (iv_right a) = Some w" "ep_value (iv_left b) = Some v"
    using wf by (auto simp: endpoint_less_def split: option.splits if_splits)
  then show ?thesis
    using less opn by (auto simp: separated_def gap_def get_value_def endpoint_less_def split: if_splits)
qed

lemma sorted_nonempty:
  assumes "interval_wf a" "interval_wf b" "interval_less a b" "iv_left a = iv_left b"
  shows "\<not> interval_is_empty b"
proof
  assume "interval_is_empty b"
  then obtain v where v: "ep_value (iv_left b) = Some v" "ep_value (iv_right b) = Some v"
    "ep_is_open (iv_left b)" "ep_is_open (iv_right b)"
    using wf_empty_iff [OF assms(2)] assms(2) by (auto simp: interval_wf_def)
  note wf = interval_wfD [OF assms(1)] interval_wfD [OF assms(2)]
  have less: "endpoint_less (iv_right a) (iv_right b)"
    using assms(3,4) by (auto simp: interval_less_iff [OF assms(1,2)])
  then obtain w where w: "ep_value (iv_right a) = Some w" "w \<le> v"
    using v wf by (auto simp: endpoint_less_def split: option.splits if_splits)
  moreover have "v \<le> w"
    using wf(5) w v assms(4) by (simp add: values_le_def)
  ultimately show False
    using less v wf assms(1,4) by (auto simp: endpoint_less_def interval_wf_def split: if_splits)
qed

section \<open>Families of intervals\<close>

text \<open>The members of a list of intervals, and the invariant of \<open>m_intervals\<close>: an ordered set.\<close>

definition covers :: "'a::linorder SingleInterval list \<Rightarrow> 'a \<Rightarrow> bool" where
  "covers is x \<longleftrightarrow> (\<exists>i \<in> set is. interval_member i x)"

definition ordered_set :: "('a::linorder SingleInterval \<Rightarrow> bool) \<Rightarrow> 'a SingleInterval list \<Rightarrow> bool" where
  "ordered_set P is \<longleftrightarrow> (\<forall>i \<in> set is. P i) \<and> sorted_wrt interval_less is"

lemma covers_simps [simp]:
  "\<not> covers [] x" "covers (i # is) x \<longleftrightarrow> interval_member i x \<or> covers is x"
  "covers (is @ js) x \<longleftrightarrow> covers is x \<or> covers js x"
  by (auto simp: covers_def)

lemma in_range_covers: "is_in_range_value r x \<longleftrightarrow> covers (m_intervals r) x"
  by (simp add: is_in_range_value_def covers_def list_ex_iff)

text \<open>
  The intervals a range condition is used with: well-formed ones of which no two are opposed,
  closed under the operations of the intervals.
\<close>

locale interval_family =
  fixes P :: "'a::{linorder, zero} SingleInterval \<Rightarrow> bool"
  assumes family_wf: "P i \<Longrightarrow> interval_wf i"
    and not_opposed: "P a \<Longrightarrow> P b \<Longrightarrow> \<not> opposed a b"
    and family_point: "P (point_interval v)"
    and family_intersect: "P a \<Longrightarrow> P b \<Longrightarrow> try_get_intersect a b = Some c \<Longrightarrow> P c"
    and family_union: "P a \<Longrightarrow> P b \<Longrightarrow> try_get_union a b = Some c \<Longrightarrow> P c"
    and family_difference: "P a \<Longrightarrow> P b \<Longrightarrow> c \<in> set (get_difference a b) \<Longrightarrow> P c"
begin

lemma ordered_set_insert:
  assumes "ordered_set P is" "P i"
  shows "ordered_set P (set_insert interval_less i is)"
    and "covers (set_insert interval_less i is) x \<longleftrightarrow> interval_member i x \<or> covers is x"
proof -
  have wf: "interval_wf i" "\<forall>j \<in> set is. interval_wf j"
    using assms by (auto simp: ordered_set_def family_wf)
  show "ordered_set P (set_insert interval_less i is)"
    using assms set_insert_wf [OF wf] by (auto simp: ordered_set_def)
  show "covers (set_insert interval_less i is) x \<longleftrightarrow> interval_member i x \<or> covers is x"
    by (simp add: covers_def set_insert_wf(1) [OF wf])
qed

lemma ordered_set_insert_all:
  assumes "ordered_set P is" "\<forall>j \<in> set js. P j"
  shows "ordered_set P (set_insert_all interval_less js is)"
    and "covers (set_insert_all interval_less js is) x \<longleftrightarrow> covers js x \<or> covers is x"
proof -
  have wf: "\<forall>j \<in> set js. interval_wf j" "\<forall>j \<in> set is. interval_wf j"
    using assms by (auto simp: ordered_set_def family_wf)
  show "ordered_set P (set_insert_all interval_less js is)"
    using assms set_insert_all_wf [OF wf] by (auto simp: ordered_set_def)
  show "covers (set_insert_all interval_less js is) x \<longleftrightarrow> covers js x \<or> covers is x"
    using set_insert_all_wf [OF wf] by (auto simp: covers_def)
qed

lemma intersect_all_covers:
  assumes "\<forall>i \<in> set is. P i" "P j" "ordered_set P result"
  shows "ordered_set P (intersect_all j is result) \<and>
    (covers (intersect_all j is result) x \<longleftrightarrow> covers is x \<and> interval_member j x \<or> covers result x)"
  using assms(1,3)
proof (induction "is" arbitrary: result)
  case (Cons i "is")
  then have i: "P i" "\<forall>i \<in> set is. P i" by auto
  show ?case
  proof (cases "try_get_intersect i j")
    case None
    then have "\<not> (interval_member i x \<and> interval_member j x)"
      using no_intersect_member i(1) assms(2) family_wf not_opposed by blast
    then show ?thesis
      using Cons.IH [OF i(2) Cons.prems(2)] None by auto
  next
    case (Some c)
    then have c: "P c" "interval_member c x \<longleftrightarrow> interval_member i x \<and> interval_member j x"
      using family_intersect i(1) assms(2) intersect_member family_wf by blast+
    show ?thesis
      using Cons.IH [OF i(2) ordered_set_insert(1) [OF Cons.prems(2) c(1)]]
        ordered_set_insert(2) [OF Cons.prems(2) c(1)] Some c(2) by auto
  qed
qed simp

lemma difference_all_covers:
  assumes "\<forall>i \<in> set is. P i" "P j" "ordered_set P result"
  shows "ordered_set P (difference_all j is result) \<and>
    (covers (difference_all j is result) x \<longleftrightarrow> covers is x \<and> \<not> interval_member j x \<or> covers result x)"
  using assms(1,3)
proof (induction "is" arbitrary: result)
  case (Cons i "is")
  then have i: "P i" "\<forall>i \<in> set is. P i" by auto
  have d: "\<forall>c \<in> set (get_difference i j). P c"
    "covers (get_difference i j) x \<longleftrightarrow> interval_member i x \<and> \<not> interval_member j x"
    using family_difference [OF i(1) assms(2)] unfolding covers_def
    using difference_member [of i j x] family_wf i(1) assms(2) not_opposed by blast+
  show ?case
    using Cons.IH [OF i(2) ordered_set_insert_all(1) [OF Cons.prems(2) d(1)]]
      ordered_set_insert_all(2) [OF Cons.prems(2) d(1)] d(2) by auto
qed simp

text \<open>One sweep over an ordered set merges everything that can be merged.\<close>

definition swept :: "'a SingleInterval list \<Rightarrow> bool" where
  "swept is \<longleftrightarrow> (\<forall>i \<in> set is. P i \<and> \<not> interval_is_empty i) \<and> sorted_wrt separated is"

lemma swept_snoc:
  assumes "swept is" "P c" "\<not> interval_is_empty c" "\<forall>i \<in> set is. separated i c"
  shows "set_insert interval_less c is = is @ [c]" "swept (is @ [c])"
proof -
  have "interval_less i c \<and> \<not> interval_less c i" if "i \<in> set is" for i
  proof -
    have i: "interval_wf i" "interval_wf c" "endpoint_less (iv_left i) (iv_left c)"
      using that assms separated_less [of i c] by (auto simp: swept_def family_wf)
    then show ?thesis
      using endpoint_less_asym [of "iv_left i" "iv_left c"] interval_wfD [OF i(1)] interval_wfD [OF i(2)]
      by (auto simp: interval_less_def)
  qed
  then show "set_insert interval_less c is = is @ [c]"
    by (intro set_insert_last) auto
  show "swept (is @ [c])"
    using assms by (auto simp: swept_def sorted_wrt_append)
qed

text \<open>What lies ahead of the current interval in the sweep.\<close>

definition ahead :: "'a SingleInterval \<Rightarrow> 'a SingleInterval list \<Rightarrow> bool" where
  "ahead c rest \<longleftrightarrow> ordered_set P rest \<and>
     (\<forall>i \<in> set rest. endpoint_le (iv_left c) (iv_left i) \<and>
        (iv_left c = iv_left i \<longrightarrow> \<not> interval_is_empty i))"

lemma ordered_set_ahead: "ordered_set P (c # rest) \<Longrightarrow> ahead c rest"
  using sorted_nonempty [of c]
  by (auto simp: ahead_def ordered_set_def family_wf interval_less_iff endpoint_le_def)

lemma ahead_step:
  assumes "ahead c (n # rest)"
  shows "P n" "ahead n rest" "ahead c rest" "endpoint_le (iv_left c) (iv_left n)"
    "iv_left c = iv_left n \<Longrightarrow> \<not> interval_is_empty n"
  using assms ordered_set_ahead [of n rest] by (auto simp: ahead_def ordered_set_def)

lemma separated_mono:
  assumes "P c" "P n" "endpoint_le (iv_left c) (iv_left n)" "separated i c"
  shows "separated i n"
  using assms gap_left_mono [of "iv_left c" "iv_left n" "iv_right i"]
    interval_wfD [OF family_wf [OF assms(1)]] interval_wfD [OF family_wf [OF assms(2)]]
  by (simp add: separated_def)

lemma simplify_loop_swept:
  assumes "P c" "ahead c rest" "swept result" "\<forall>i \<in> set result. separated i c"
  shows "swept (simplify_loop c rest result) \<and>
    (covers (simplify_loop c rest result) x \<longleftrightarrow> covers result x \<or> interval_member c x \<or> covers rest x)"
  using assms
proof (induction c rest result rule: simplify_loop.induct)
  case (1 c result)
  then show ?case
    using wf_empty_member [OF family_wf, of c x] swept_snoc [of result c] by auto
next
  case (2 c n rest result)
  note n = ahead_step [OF 2(5)]
  show ?case
  proof (cases "interval_is_empty c")
    case True
    have "\<forall>i \<in> set result. separated i n"
      using 2(7) separated_mono [OF 2(4) n(1,4)] by auto
    with 2(1) [OF True n(1,2) 2(6)] show ?thesis
      using True wf_empty_member [OF family_wf [OF 2(4)] True, of x] by simp
  next
    case False
    show ?thesis
    proof (cases "try_get_union c n")
      case (Some m)
      have m: "P m" "interval_member m x \<longleftrightarrow> interval_member c x \<or> interval_member n x"
        using union_member [of c n m x] family_union [OF 2(4) n(1) Some] Some 2(4) n(1) family_wf not_opposed
        by auto
      have left: "iv_left m = iv_left c"
        using union_Some(2) [OF Some] union_sel [OF family_wf [OF 2(4)] family_wf [OF n(1)]] n(4)
        by (simp add: left_min_def)
      have "ahead m rest" "\<forall>i \<in> set result. separated i m"
        using n(3) 2(7) left by (auto simp: ahead_def separated_def)
      with 2(3) [OF False Some m(1) _ 2(6)] show ?thesis
        using False Some m(2) by auto
    next
      case None
      then have "separated c n"
        using not_merge_gap [of c n] family_wf 2(4) n by (auto simp: try_get_union_def Let_def split: if_splits)
      moreover have snoc: "set_insert interval_less c result = result @ [c]" "swept (result @ [c])"
        using swept_snoc [OF 2(6,4) False 2(7)] by auto
      moreover have "\<forall>i \<in> set result. separated i n"
        using 2(7) separated_mono [OF 2(4) n(1,4)] by auto
      ultimately show ?thesis
        using 2(2) [OF False None n(1,2)] False None by auto
    qed
  qed
qed

lemma swept_ordered:
  assumes "swept is"
  shows "ordered_set P is"
proof -
  have "interval_less i j" if "i \<in> set is" "j \<in> set is" "separated i j" for i j
  proof -
    have "endpoint_less (iv_left i) (iv_left j)"
      using that assms by (intro separated_less) (simp_all add: swept_def family_wf)
    then show ?thesis by (simp add: interval_less_def)
  qed
  then have "sorted_wrt interval_less is"
    using sorted_wrt_mono_rel [of "is" separated interval_less] assms by (simp add: swept_def)
  with assms show ?thesis
    by (simp add: swept_def ordered_set_def)
qed

lemma simplify_swept:
  assumes "ordered_set P (m_intervals r)"
  shows "swept (m_intervals (simplify r))"
    and "is_in_range_value (simplify r) x \<longleftrightarrow> is_in_range_value r x"
proof -
  have "swept (m_intervals (simplify r)) \<and> (is_in_range_value (simplify r) x \<longleftrightarrow> is_in_range_value r x)"
  proof -
    consider (1) "m_intervals r = []" | (2) i where "m_intervals r = [i]"
      | (3) i j js where "m_intervals r = i # j # js"
      by (cases "m_intervals r" rule: remdups_adj.cases) auto
    then show ?thesis
    proof cases
      case 1
      then show ?thesis by (simp add: simplify_def swept_def)
    next
      case (2 i)
      then show ?thesis
        using assms wf_empty_member [OF family_wf, of i x]
        by (simp add: simplify_def swept_def in_range_covers ordered_set_def)
    next
      case (3 i j js)
      then have "swept (simplify_loop i (j # js) []) \<and>
          (covers (simplify_loop i (j # js) []) x \<longleftrightarrow> covers [] x \<or> interval_member i x \<or> covers (j # js) x)"
        using assms ordered_set_ahead by (intro simplify_loop_swept) (auto simp: ordered_set_def swept_def)
      with 3 show ?thesis
        by (simp add: simplify_def in_range_covers del: simplify_loop.simps)
    qed
  qed
  then show "swept (m_intervals (simplify r))"
    "is_in_range_value (simplify r) x \<longleftrightarrow> is_in_range_value r x" by auto
qed

text \<open>The operations of a range.\<close>

lemma add_range_swept:
  assumes "ordered_set P (m_intervals r)" "P j"
  shows "swept (m_intervals (add_range j relation r))"
    and "is_in_range_value (add_range j Or r) x \<longleftrightarrow> is_in_range_value r x \<or> interval_member j x"
    and "is_in_range_value (add_range j And r) x \<longleftrightarrow> is_in_range_value r x \<and> interval_member j x"
    and "is_in_range_value (add_range j Not r) x \<longleftrightarrow> is_in_range_value r x \<and> \<not> interval_member j x"
proof -
  have nil: "ordered_set P []" and all: "\<forall>i \<in> set (m_intervals r). P i"
    using assms by (auto simp: ordered_set_def)
  note ins = ordered_set_insert [OF assms]
    and int = intersect_all_covers [OF all assms(2) nil]
    and dif = difference_all_covers [OF all assms(2) nil]
  show "swept (m_intervals (add_range j relation r))"
    unfolding add_range_def
    by (cases relation; rule simplify_swept(1))
       (simp_all add: or_single_interval_def and_single_interval_def not_single_interval_def ins int dif assms)
  show "is_in_range_value (add_range j Or r) x \<longleftrightarrow> is_in_range_value r x \<or> interval_member j x"
    using simplify_swept(2) [of "or_single_interval j r" x] ins
    by (auto simp: add_range_def or_single_interval_def in_range_covers)
  show "is_in_range_value (add_range j And r) x \<longleftrightarrow> is_in_range_value r x \<and> interval_member j x"
    using simplify_swept(2) [of "and_single_interval j r" x] int [of x]
    by (auto simp: add_range_def and_single_interval_def in_range_covers)
  show "is_in_range_value (add_range j Not r) x \<longleftrightarrow> is_in_range_value r x \<and> \<not> interval_member j x"
    using simplify_swept(2) [of "not_single_interval j r" x] dif [of x]
    by (auto simp: add_range_def not_single_interval_def in_range_covers)
qed

lemma add_intervals_or:
  assumes "ordered_set P (m_intervals r)" "\<forall>j \<in> set js. P j"
  shows "ordered_set P (m_intervals (add_intervals js Or r)) \<and>
    (is_in_range_value (add_intervals js Or r) x \<longleftrightarrow> is_in_range_value r x \<or> covers js x)"
  using assms
proof (induction js arbitrary: r)
  case (Cons j js)
  then have j: "P j" "\<forall>j \<in> set js. P j" by auto
  note s = add_range_swept [OF Cons.prems(1) j(1)]
  from Cons.IH [OF swept_ordered [OF s(1)] j(2)] show ?case
    using s(2) [of x] by auto
qed simp

lemma add_intervals_not:
  assumes "ordered_set P (m_intervals r)" "\<forall>j \<in> set js. P j"
  shows "ordered_set P (m_intervals (add_intervals js Not r)) \<and>
    (is_in_range_value (add_intervals js Not r) x \<longleftrightarrow> is_in_range_value r x \<and> \<not> covers js x)"
  using assms
proof (induction js arbitrary: r)
  case (Cons j js)
  then have j: "P j" "\<forall>j \<in> set js. P j" by auto
  note s = add_range_swept [OF Cons.prems(1) j(1)]
  from Cons.IH [OF swept_ordered [OF s(1)] j(2)] show ?case
    using s(4) [of x] by auto
qed simp

lemma add_intervals_and:
  assumes "ordered_set P (m_intervals r)" "\<forall>j \<in> set js. P j"
  shows "ordered_set P (m_intervals (add_intervals js And r)) \<and>
    (is_in_range_value (add_intervals js And r) x \<longleftrightarrow>
       is_in_range_value r x \<and> (\<forall>j \<in> set js. interval_member j x))"
  using assms
proof (induction js arbitrary: r)
  case (Cons j js)
  then have j: "P j" "\<forall>j \<in> set js. P j" by auto
  note s = add_range_swept [OF Cons.prems(1) j(1)]
  from Cons.IH [OF swept_ordered [OF s(1)] j(2)] show ?case
    using s(3) [of x] by auto
qed simp

lemma intersect_range_covers:
  assumes "ordered_set P (m_intervals r)" "ordered_set P (m_intervals result)" "\<forall>j \<in> set js. P j"
  shows "ordered_set P (m_intervals (intersect_range_loop r js result)) \<and>
    (is_in_range_value (intersect_range_loop r js result) x \<longleftrightarrow>
       is_in_range_value result x \<or> is_in_range_value r x \<and> covers js x)"
  using assms(2,3)
proof (induction js arbitrary: result)
  case (Cons j js)
  then have j: "P j" "\<forall>j \<in> set js. P j" by auto
  let ?t = "add_range j And r"
  note t = add_range_swept(1,3) [OF assms(1) j(1)]
  have "\<forall>i \<in> set (m_intervals ?t). P i"
    using swept_ordered [OF t(1) [of And]] by (simp add: ordered_set_def)
  note o = add_intervals_or [OF Cons.prems(1) this]
  from o [of x] Cons.IH [OF conjunct1 [OF o] j(2)] show ?case
    using t(2) [of x] by (auto simp: add_range_range_def get_intervals_def in_range_covers Let_def)
qed simp

lemma range_operations:
  assumes "ordered_set P (m_intervals r)" "ordered_set P (m_intervals s)"
  shows "is_in_range_value (get_union_range r s) x \<longleftrightarrow> is_in_range_value r x \<or> is_in_range_value s x"
    and "is_in_range_value (get_intersect_range r s) x \<longleftrightarrow> is_in_range_value r x \<and> is_in_range_value s x"
    and "is_in_range_value (get_difference_range r s) x \<longleftrightarrow> is_in_range_value r x \<and> \<not> is_in_range_value s x"
proof -
  have all: "\<forall>j \<in> set (m_intervals s). P j" and nil: "ordered_set P (m_intervals empty_range)"
    using assms(2) by (simp_all add: ordered_set_def empty_range_def)
  show "is_in_range_value (get_union_range r s) x \<longleftrightarrow> is_in_range_value r x \<or> is_in_range_value s x"
    using add_intervals_or [OF assms(1) all, of x]
    by (simp add: get_union_range_def get_intervals_def in_range_covers)
  show "is_in_range_value (get_intersect_range r s) x \<longleftrightarrow> is_in_range_value r x \<and> is_in_range_value s x"
    using intersect_range_covers [OF assms(1) nil all, of x]
    by (simp add: get_intersect_range_def get_intervals_def in_range_covers empty_range_def)
  show "is_in_range_value (get_difference_range r s) x \<longleftrightarrow> is_in_range_value r x \<and> \<not> is_in_range_value s x"
    using add_intervals_not [OF assms(1) all, of x]
    by (simp add: get_difference_range_def in_range_covers)
qed

lemma contained_members:
  assumes "\<forall>i \<in> set (m_intervals r). P i" "\<forall>i \<in> set (m_intervals s). P i"
    "is_in_range_range r s" "is_in_range_value s x"
  shows "is_in_range_value r x"
proof -
  obtain j where j: "j \<in> set (m_intervals s)" "interval_member j x"
    using assms(4) by (auto simp: is_in_range_value_def list_ex_iff)
  then obtain i where i: "i \<in> set (m_intervals r)" "interval_contains i j"
    using assms(3) by (auto simp: is_in_range_range_def is_in_range_interval_def list_all_iff list_ex_iff)
  have wf: "interval_wf i" "interval_wf j"
    using assms(1,2) i j family_wf by auto
  have le: "endpoint_le (iv_left i) (iv_left j)" "endpoint_le (iv_right j) (iv_right i)"
    using i(2) by (simp_all add: interval_contains_def split: if_splits)
  note w = interval_wfD [OF wf(1)] interval_wfD [OF wf(2)]
  have "interval_member i x"
    using j(2) left_le_range [OF w(1,6,2,7) le(1)] right_le_range [OF w(8,3,9,4) le(2)]
    by (simp add: interval_member_def)
  with i show ?thesis
    by (auto simp: is_in_range_value_def list_ex_iff)
qed

end

section \<open>Intervals bounded on one side\<close>

text \<open>Two families of the contract: all intervals have a right end, or all have a left one.\<close>

definition right_bounded :: "'a::linorder SingleInterval \<Rightarrow> bool" where
  "right_bounded i \<longleftrightarrow> interval_wf i \<and> ep_value (iv_right i) \<noteq> None"

definition left_bounded :: "'a::linorder SingleInterval \<Rightarrow> bool" where
  "left_bounded i \<longleftrightarrow> interval_wf i \<and> ep_value (iv_left i) \<noteq> None"

lemma point_interval_wf: "interval_wf (point_interval v)"
  by (simp add: point_interval_def interval_wf_def endpoint_wf_def values_le_def)

lemma point_interval_sel [simp]:
  "iv_left (point_interval v) = new_endpoint (Some v) False Left"
  "iv_right (point_interval v) = new_endpoint (Some v) False Right"
  by (simp_all add: point_interval_def)

lemma intersect_Some:
  assumes "interval_wf a" "interval_wf b" "try_get_intersect a b = Some c"
  shows "iv_left c = left_max a b" "iv_right c = right_min a b"
proof -
  have "is_intersect a b"
    using assms(3) by (simp add: try_get_intersect_def split: if_splits)
  then show "iv_left c = left_max a b" "iv_right c = right_min a b"
    using assms intersect_sel [OF assms(1,2)] try_get_intersect_Some [of a b] by auto
qed

lemma union_ends:
  assumes "interval_wf a" "interval_wf b" "try_get_union a b = Some c"
  shows "iv_left c = left_min a b" "iv_right c = right_max a b"
  using union_sel [OF assms(1,2)] union_Some(2) [OF assms(3)] by simp_all

lemma difference_ends:
  fixes a b :: "'a::{linorder, zero} SingleInterval"
  assumes "interval_wf a" "interval_wf b" "c \<in> set (get_difference a b)"
  shows "ep_value (iv_right a) \<noteq> None \<Longrightarrow> ep_value (iv_right c) \<noteq> None"
    and "ep_value (iv_left a) \<noteq> None \<Longrightarrow> ep_value (iv_left c) \<noteq> None"
proof -
  note wf = interval_wfD [OF assms(1)] interval_wfD [OF assms(2)]
  note l = left_piece(2,3) [OF wf(1,6,2,7)] and r = right_piece(2,3) [OF wf(8,3,9,4)]
  have "(ep_value (iv_right a) \<noteq> None \<longrightarrow> ep_value (iv_right c) \<noteq> None) \<and>
      (ep_value (iv_left a) \<noteq> None \<longrightarrow> ep_value (iv_left c) \<noteq> None)"
    using assms(3) l r
    by (cases rule: difference_cases [OF assms(1,2), case_names apart inside both behind before]) auto
  then show "ep_value (iv_right a) \<noteq> None \<Longrightarrow> ep_value (iv_right c) \<noteq> None"
    "ep_value (iv_left a) \<noteq> None \<Longrightarrow> ep_value (iv_left c) \<noteq> None" by auto
qed

interpretation right_bounded: interval_family "right_bounded :: 'a::{linorder, zero} SingleInterval \<Rightarrow> bool"
proof
  fix a b c :: "'a SingleInterval" and v :: 'a
  show "right_bounded a \<Longrightarrow> interval_wf a"
    by (simp add: right_bounded_def)
  show "right_bounded a \<Longrightarrow> right_bounded b \<Longrightarrow> \<not> opposed a b"
    by (auto simp: right_bounded_def opposed_def)
  show "right_bounded (point_interval v)"
    by (simp add: right_bounded_def point_interval_wf)
  show "right_bounded a \<Longrightarrow> right_bounded b \<Longrightarrow> try_get_intersect a b = Some c \<Longrightarrow> right_bounded c"
    using intersect_wf [of a b c] intersect_Some(2) [of a b c] left_max_cases(2) [of a b]
    by (auto simp: right_bounded_def)
  show "right_bounded a \<Longrightarrow> right_bounded b \<Longrightarrow> try_get_union a b = Some c \<Longrightarrow> right_bounded c"
    using union_wf [of a b c] union_ends(2) [of a b c]
    by (auto simp: right_bounded_def right_max_def)
  show "right_bounded a \<Longrightarrow> right_bounded b \<Longrightarrow> c \<in> set (get_difference a b) \<Longrightarrow> right_bounded c"
    using difference_wf [of a b c] difference_ends(1) [of a b c] by (auto simp: right_bounded_def)
qed

interpretation left_bounded: interval_family "left_bounded :: 'a::{linorder, zero} SingleInterval \<Rightarrow> bool"
proof
  fix a b c :: "'a SingleInterval" and v :: 'a
  show "left_bounded a \<Longrightarrow> interval_wf a"
    by (simp add: left_bounded_def)
  show "left_bounded a \<Longrightarrow> left_bounded b \<Longrightarrow> \<not> opposed a b"
    by (auto simp: left_bounded_def opposed_def)
  show "left_bounded (point_interval v)"
    by (simp add: left_bounded_def point_interval_wf)
  show "left_bounded a \<Longrightarrow> left_bounded b \<Longrightarrow> try_get_intersect a b = Some c \<Longrightarrow> left_bounded c"
    using intersect_wf [of a b c] intersect_Some(1) [of a b c] left_max_cases(1) [of a b]
    by (auto simp: left_bounded_def)
  show "left_bounded a \<Longrightarrow> left_bounded b \<Longrightarrow> try_get_union a b = Some c \<Longrightarrow> left_bounded c"
    using union_wf [of a b c] union_ends(1) [of a b c]
    by (auto simp: left_bounded_def left_min_def)
  show "left_bounded a \<Longrightarrow> left_bounded b \<Longrightarrow> c \<in> set (get_difference a b) \<Longrightarrow> left_bounded c"
    using difference_wf [of a b c] difference_ends(2) [of a b c] by (auto simp: left_bounded_def)
qed

section \<open>Sets of points\<close>

lemma points_insert:
  "set (set_insert (<) x s) = insert x (set (s :: 'a::linorder list))"
  "sorted_wrt (<) s \<Longrightarrow> sorted_wrt (<) (set_insert (<) x s)"
  by (rule set_set_insert, simp) (rule sorted_set_insert, simp_all)

lemma points_insert_all:
  "set (set_insert_all (<) xs s) = set xs \<union> set (s :: 'a::linorder list)"
  "sorted_wrt (<) s \<Longrightarrow> sorted_wrt (<) (set_insert_all (<) xs s)"
  by (induction xs arbitrary: s) (simp_all add: points_insert)

lemma scatter_filter:
  "scatter_values_in_range s xs = filter (scatter_in_range s) xs"
  "scatter_values_not_in_range s xs = filter (\<lambda>x. \<not> scatter_in_range s x) xs"
  by (induction xs) simp_all

lemma range_filter:
  "range_values_in_range r xs = filter (is_in_range_value r) xs"
  "range_values_not_in_range r xs = filter (\<lambda>x. \<not> is_in_range_value r x) xs"
  by (induction xs) simp_all

section \<open>Properties of ranges\<close>

text \<open>C34: On ranges whose intervals all have a right end, or all have a left end, union,
  intersection and difference are the operations on the sets of values, for every element type.\<close>

theorem ranges_are_sets:
  fixes r s :: "'a::{linorder, zero} RangeCondition"
  assumes "P = right_bounded \<or> P = left_bounded"
    and "ordered_set P (m_intervals r)" "ordered_set P (m_intervals s)"
  shows "is_in_range_value (get_union_range r s) x = (is_in_range_value r x \<or> is_in_range_value s x) \<and>
    is_in_range_value (get_intersect_range r s) x = (is_in_range_value r x \<and> is_in_range_value s x) \<and>
    is_in_range_value (get_difference_range r s) x = (is_in_range_value r x \<and> \<not> is_in_range_value s x)"
  using assms right_bounded.range_operations [of r s x] left_bounded.range_operations [of r s x] by blast

theorem ranges_are_sets_witness:
  "is_in_range_value (get_union_range (range_of_value (3 :: int)) (range_of_value 5)) 3 =
     (is_in_range_value (range_of_value (3 :: int)) 3 \<or> is_in_range_value (range_of_value (5 :: int)) 3) \<and>
   is_in_range_value (get_intersect_range (range_of_value (3 :: int)) (range_of_value 5)) 3 =
     (is_in_range_value (range_of_value (3 :: int)) 3 \<and> is_in_range_value (range_of_value (5 :: int)) 3) \<and>
   is_in_range_value (get_difference_range (range_of_value (3 :: int)) (range_of_value 5)) 3 =
     (is_in_range_value (range_of_value (3 :: int)) 3 \<and> \<not> is_in_range_value (range_of_value (5 :: int)) 3)"
  by (rule ranges_are_sets [of right_bounded])
     (simp_all add: ordered_set_def range_of_value_def right_bounded_def point_interval_wf)

text \<open>C40: After \<open>add_range\<close>, whatever the relation, the intervals of the range are ordered, none
  is empty and every two of them have a value between them: nothing is left to be merged. This is for ranges bounded on one
  side: all intervals have a right end, or all have a left end.\<close>

theorem add_range_canonical:
  fixes r :: "'a::{linorder, zero} RangeCondition"
  assumes "P = right_bounded \<or> P = left_bounded"
    and "ordered_set P (m_intervals r)" "P j"
  shows "canonical (add_range j relation r) \<and> ordered_set P (m_intervals (add_range j relation r))"
  using assms right_bounded.add_range_swept(1) [of r j relation] left_bounded.add_range_swept(1) [of r j relation]
    right_bounded.swept_ordered [of "m_intervals (add_range j relation r)"]
    left_bounded.swept_ordered [of "m_intervals (add_range j relation r)"]
  by (auto simp: canonical_def right_bounded.swept_def left_bounded.swept_def)

theorem add_range_canonical_witness:
  "canonical (add_range (point_interval 5) Or (range_of_value (3 :: int))) \<and>
   ordered_set left_bounded (m_intervals (add_range (point_interval 5) Or (range_of_value (3 :: int))))"
  by (rule add_range_canonical)
     (simp_all add: ordered_set_def range_of_value_def left_bounded_def point_interval_wf)

text \<open>Adding a range with the relation \<open>And\<close> keeps the values that lie in every interval of
  the added range, not those that lie in the added range: with two disjoint intervals nothing is left.\<close>

theorem and_range_intersects_all:
  fixes r s :: "'a::{linorder, zero} RangeCondition"
  assumes "P = right_bounded \<or> P = left_bounded"
    and "ordered_set P (m_intervals r)" "ordered_set P (m_intervals s)"
  shows "is_in_range_value (add_range_range s And r) x =
    (is_in_range_value r x \<and> (\<forall>i \<in> set (m_intervals s). interval_member i x))"
  using assms right_bounded.add_intervals_and [of r "m_intervals s" x] left_bounded.add_intervals_and [of r "m_intervals s" x]
  unfolding add_range_range_def get_intervals_def ordered_set_def by blast

theorem and_range_intersects_all_witness:
  "is_in_range_value (add_range_range (range_of_value (3 :: int)) And (range_of_value 3)) 3 =
    (is_in_range_value (range_of_value (3 :: int)) 3 \<and> interval_member (point_interval (3 :: int)) 3)"
  using and_range_intersects_all [of right_bounded "range_of_value (3 :: int)" "range_of_value 3" 3]
  by (simp add: ordered_set_def range_of_value_def right_bounded_def point_interval_wf)

end
