(* ===== verification/Wildcard.thy ===== *)
theory Wildcard
  imports Prelude "HOL-Library.Sublist"
begin

text \<open>
  Rules on texts, \<open>condition/wildcard_text\<close> and \<open>condition/text_condition\<close>. A \<open>std::size_t\<close>
  is a 64-bit word; \<open>substr\<close> behind the end of a text throws \<open>std::out_of_range\<close>, which is
  \<open>None\<close> here. \<open>std::tolower\<close> is that of the C locale, in which only the ASCII letters
  change.
\<close>

section \<open>Rules\<close>

datatype MatchPattern =
    ExactMatch | PartialMatch | PrefixMatch | SuffixMatch | RegexMatch | Unknown_Pattern

definition MatchPattern_to_string :: "MatchPattern \<Rightarrow> string" where
  "MatchPattern_to_string p =
     (case p of
        ExactMatch \<Rightarrow> ''MatchPattern::ExactMatch''
      | PartialMatch \<Rightarrow> ''MatchPattern::PartialMatch''
      | PrefixMatch \<Rightarrow> ''MatchPattern::PrefixMatch''
      | SuffixMatch \<Rightarrow> ''MatchPattern::SuffixMatch''
      | RegexMatch \<Rightarrow> ''MatchPattern::RegexMatch''
      | _ \<Rightarrow> ''MatchPattern::Unknown'')"

definition MatchPattern_enum_cast :: "string \<Rightarrow> MatchPattern" where
  "MatchPattern_enum_cast s =
     (if s = ''MatchPattern::ExactMatch'' then ExactMatch
      else if s = ''MatchPattern::PartialMatch'' then PartialMatch
      else if s = ''MatchPattern::PrefixMatch'' then PrefixMatch
      else if s = ''MatchPattern::SuffixMatch'' then SuffixMatch
      else if s = ''MatchPattern::RegexMatch'' then RegexMatch
      else Unknown_Pattern)"

interpretation match_pattern: enum_names MatchPattern_to_string MatchPattern_enum_cast "\<lambda>_. True"
proof
  show "MatchPattern_enum_cast (MatchPattern_to_string e) = e" for e
    by (cases e) (simp_all add: MatchPattern_to_string_def MatchPattern_enum_cast_def)
qed

record WildcardText =
  m_is_included_rule :: bool
  m_is_case_sensitive :: bool
  m_match_pattern :: MatchPattern
  m_text :: string
  m_max_length :: "u64 option"
  m_min_length :: "u64 option"
  m_front_context_length :: "u64 option"
  m_back_context_length :: "u64 option"

definition new_rule :: "bool \<Rightarrow> WildcardText" where
  "new_rule included =
     \<lparr>m_is_included_rule = included, m_is_case_sensitive = True, m_match_pattern = ExactMatch, m_text = [],
      m_max_length = None, m_min_length = None, m_front_context_length = None, m_back_context_length = None\<rparr>"

definition set_text :: "string \<Rightarrow> MatchPattern \<Rightarrow> WildcardText \<Rightarrow> WildcardText" where
  "set_text txt p w = w\<lparr>m_text := txt, m_match_pattern := p\<rparr>"

definition new_text_rule :: "string \<Rightarrow> MatchPattern \<Rightarrow> bool \<Rightarrow> WildcardText" where
  "new_text_rule txt p included = set_text txt p (new_rule included)"

definition rule_eq :: "WildcardText \<Rightarrow> WildcardText \<Rightarrow> bool" where
  "rule_eq a b \<longleftrightarrow>
     m_text a = m_text b \<and> m_match_pattern a = m_match_pattern b \<and>
     m_min_length a = m_min_length b \<and> m_max_length a = m_max_length b \<and>
     m_front_context_length a = m_front_context_length b \<and>
     m_back_context_length a = m_back_context_length b \<and>
     m_is_case_sensitive a = m_is_case_sensitive b \<and>
     m_is_included_rule a = m_is_included_rule b"

definition set_matched_pattern :: "MatchPattern \<Rightarrow> WildcardText \<Rightarrow> WildcardText" where
  "set_matched_pattern p w = w\<lparr>m_match_pattern := p\<rparr>"

definition set_matched_length :: "u64 option \<Rightarrow> u64 option \<Rightarrow> WildcardText \<Rightarrow> WildcardText" where
  "set_matched_length mn mx w = w\<lparr>m_min_length := mn, m_max_length := mx\<rparr>"

definition set_front_context_length :: "u64 option \<Rightarrow> WildcardText \<Rightarrow> WildcardText" where
  "set_front_context_length n w = w\<lparr>m_front_context_length := n\<rparr>"

definition set_back_context_length :: "u64 option \<Rightarrow> WildcardText \<Rightarrow> WildcardText" where
  "set_back_context_length n w = w\<lparr>m_back_context_length := n\<rparr>"

definition set_case_sensitive :: "bool \<Rightarrow> WildcardText \<Rightarrow> WildcardText" where
  "set_case_sensitive b w = w\<lparr>m_is_case_sensitive := b\<rparr>"

section \<open>Matching\<close>

definition tolower :: "char \<Rightarrow> char" where
  "tolower c =
     (let n = of_char c :: nat in if 65 \<le> n \<and> n \<le> 90 then char_of (n + 32) else c)"

text \<open>The text a rule compares: folded to lower case unless the rule is case sensitive.\<close>

definition folded_char :: "WildcardText \<Rightarrow> char \<Rightarrow> char" where
  "folded_char w c = (if m_is_case_sensitive w then c else tolower c)"

fun equal_loop :: "WildcardText \<Rightarrow> string \<Rightarrow> string \<Rightarrow> nat \<Rightarrow> nat \<Rightarrow> bool" where
  "equal_loop w text_1 text_2 i 0 = True"
| "equal_loop w text_1 text_2 i (Suc k) =
     (let c1 = folded_char w (text_1 ! i);
          c2 = folded_char w (text_2 ! i)
      in if c1 \<noteq> c2 then False else equal_loop w text_1 text_2 (Suc i) k)"

definition is_equal :: "WildcardText \<Rightarrow> string \<Rightarrow> string \<Rightarrow> bool" where
  "is_equal w text_1 text_2 =
     (if length text_1 \<noteq> length text_2 then False
      else equal_loop w text_1 text_2 0 (length text_1))"

definition to_lower_string :: "string \<Rightarrow> string" where
  "to_lower_string txt = map tolower txt"

definition str_size :: "string \<Rightarrow> u64" where
  "str_size s = of_nat (length s)"

text \<open>\<open>std::string::substr(pos)\<close> and \<open>std::string::find(s)\<close>.\<close>

definition substr_from :: "string \<Rightarrow> u64 \<Rightarrow> string option" where
  "substr_from s pos = (if unat pos > length s then None else Some (drop (unat pos) s))"

fun find_at :: "string \<Rightarrow> string \<Rightarrow> nat \<Rightarrow> nat option" where
  "find_at needle [] i = (if needle = [] then Some i else None)"
| "find_at needle (c # cs) i =
     (if take (length needle) (c # cs) = needle then Some i else find_at needle cs (Suc i))"

definition is_prefix_match :: "WildcardText \<Rightarrow> string \<Rightarrow> bool" where
  "is_prefix_match w txt =
     (if (case m_back_context_length w of
            Some n \<Rightarrow> str_size txt \<noteq> str_size (m_text w) + n | None \<Rightarrow> False)
      then False
      else is_equal w (take (length (m_text w)) txt) (m_text w))"

definition is_suffix_match :: "WildcardText \<Rightarrow> string \<Rightarrow> bool option" where
  "is_suffix_match w txt =
     (if (case m_front_context_length w of
            Some n \<Rightarrow> str_size txt \<noteq> str_size (m_text w) + n | None \<Rightarrow> False)
      then Some False
      else do {
        suffix_text \<leftarrow> substr_from txt (str_size txt - str_size (m_text w));
        Some (is_equal w suffix_text (m_text w))
      })"

definition is_partial_match :: "WildcardText \<Rightarrow> string \<Rightarrow> bool" where
  "is_partial_match w txt =
     (let text_copy = (if m_is_case_sensitive w then txt else to_lower_string txt);
          m_text_copy = (if m_is_case_sensitive w then m_text w else to_lower_string (m_text w))
      in find_at m_text_copy text_copy 0 \<noteq> None)"

definition is_exact_match :: "WildcardText \<Rightarrow> string \<Rightarrow> bool" where
  "is_exact_match w txt = is_equal w txt (m_text w)"

definition is_regex_match :: "WildcardText \<Rightarrow> string \<Rightarrow> bool" where
  "is_regex_match w txt = False"

definition is_length_match :: "WildcardText \<Rightarrow> string \<Rightarrow> bool" where
  "is_length_match w txt =
     (if (case m_min_length w of Some n \<Rightarrow> str_size txt < n | None \<Rightarrow> False) then False
      else if (case m_max_length w of Some n \<Rightarrow> str_size txt > n | None \<Rightarrow> False) then False
      else length txt \<ge> length (m_text w))"

definition is_all_match :: "WildcardText \<Rightarrow> string \<Rightarrow> bool option" where
  "is_all_match w txt =
     (if \<not> is_length_match w txt then Some False
      else
        case m_match_pattern w of
          ExactMatch \<Rightarrow> Some (is_exact_match w txt)
        | PartialMatch \<Rightarrow> Some (is_partial_match w txt)
        | PrefixMatch \<Rightarrow> Some (is_prefix_match w txt)
        | SuffixMatch \<Rightarrow> is_suffix_match w txt
        | RegexMatch \<Rightarrow> Some (is_regex_match w txt)
        | _ \<Rightarrow> Some False)"

definition is_match :: "WildcardText \<Rightarrow> string \<Rightarrow> bool option" where
  "is_match w txt =
     (if m_is_included_rule w then is_all_match w txt
      else map_option (\<lambda>b. \<not> b) (is_all_match w txt))"

definition is_included_rule :: "WildcardText \<Rightarrow> bool" where
  "is_included_rule w = m_is_included_rule w"

fun get_matched_texts :: "WildcardText \<Rightarrow> string list \<Rightarrow> string list option" where
  "get_matched_texts w [] = Some []"
| "get_matched_texts w (t # ts) =
     do {
       b \<leftarrow> is_match w t;
       rest \<leftarrow> get_matched_texts w ts;
       Some (if b then t # rest else rest)
     }"

fun get_unmatched_texts :: "WildcardText \<Rightarrow> string list \<Rightarrow> string list option" where
  "get_unmatched_texts w [] = Some []"
| "get_unmatched_texts w (t # ts) =
     do {
       b \<leftarrow> is_match w t;
       rest \<leftarrow> get_unmatched_texts w ts;
       Some (if \<not> b then t # rest else rest)
     }"

definition show_length :: "u64 option \<Rightarrow> string" where
  "show_length l = (case l of Some n \<Rightarrow> show_nat (unat n) | None \<Rightarrow> ''null'')"

definition WildcardText_to_string :: "WildcardText \<Rightarrow> string" where
  "WildcardText_to_string w =
     ''WildcardText:{ '' @
     ''is_included_rule:'' @ (if m_is_included_rule w then ''true'' else ''false'') @ '', '' @
     ''text:'' @ m_text w @ '', '' @
     ''match_pattern:'' @ MatchPattern_to_string (m_match_pattern w) @ '', '' @
     ''min_length:'' @ show_length (m_min_length w) @ '', '' @
     ''max_length:'' @ show_length (m_max_length w) @ '', '' @
     ''front_context_length:'' @ show_length (m_front_context_length w) @ '', '' @
     ''back_context_length:'' @ show_length (m_back_context_length w) @ '' '' @ ''}''"

definition get_text :: "WildcardText \<Rightarrow> string" where
  "get_text w = m_text w"

text \<open>\<open>std::hash<WildcardText>\<close>; the hash of strings is the parameter.\<close>

definition hash_rule :: "(string \<Rightarrow> u64) \<Rightarrow> WildcardText \<Rightarrow> u64" where
  "hash_rule hash_string w = hash_string (WildcardText_to_string w)"

section \<open>Text conditions\<close>

text \<open>
  \<open>m_match_texts\<close>: the rules by their text. The matching of a text condition is not
  implemented in the code, and \<open>clear\<close> has an empty body.
\<close>

record TextCondition =
  m_match_texts :: "(string \<times> WildcardText list) list"

definition new_text_condition :: TextCondition where
  "new_text_condition = \<lparr>m_match_texts = []\<rparr>"

fun insert_rule :: "string \<Rightarrow> WildcardText \<Rightarrow> (string \<times> WildcardText list) list \<Rightarrow> (string \<times> WildcardText list) list" where
  "insert_rule txt w [] = [(txt, [w])]"
| "insert_rule txt w ((t, ws) # ms) =
     (if t = txt then (t, if list_ex (rule_eq w) ws then ws else w # ws) # ms
      else (t, ws) # insert_rule txt w ms)"

definition add_match_text :: "WildcardText \<Rightarrow> TextCondition \<Rightarrow> TextCondition" where
  "add_match_text w c = c\<lparr>m_match_texts := insert_rule (get_text w) w (m_match_texts c)\<rparr>"

definition condition_is_match :: "TextCondition \<Rightarrow> string \<Rightarrow> bool" where
  "condition_is_match c txt = False"

definition condition_is_match_all :: "TextCondition \<Rightarrow> string list \<Rightarrow> bool" where
  "condition_is_match_all c txts = False"

definition condition_is_empty :: "TextCondition \<Rightarrow> bool" where
  "condition_is_empty c \<longleftrightarrow> m_match_texts c = []"

definition condition_matched_texts :: "TextCondition \<Rightarrow> string list \<Rightarrow> string list" where
  "condition_matched_texts c txts = (if condition_is_empty c then [] else [])"

definition condition_unmatched_texts :: "TextCondition \<Rightarrow> string list \<Rightarrow> string list" where
  "condition_unmatched_texts c txts = (if condition_is_empty c then txts else [])"

definition condition_clear :: "TextCondition \<Rightarrow> TextCondition" where
  "condition_clear c = c"

section \<open>What a rule accepts\<close>

lemma equal_loop_iff:
  "i + k \<le> length a \<Longrightarrow> i + k \<le> length b \<Longrightarrow>
     equal_loop w a b i k \<longleftrightarrow> map (folded_char w) (take k (drop i a)) = map (folded_char w) (take k (drop i b))"
proof (induction k arbitrary: i)
  case (Suc k)
  then have "take (Suc k) (drop i a) = a ! i # take k (drop (Suc i) a)"
    "take (Suc k) (drop i b) = b ! i # take k (drop (Suc i) b)"
    by (simp_all add: Cons_nth_drop_Suc [symmetric])
  with Suc show ?case by (simp add: Let_def)
qed simp

lemma is_equal_iff: "is_equal w a b \<longleftrightarrow> map (folded_char w) a = map (folded_char w) b"
proof (cases "length a = length b")
  case True
  then show ?thesis by (simp add: is_equal_def equal_loop_iff)
next
  case False
  then show ?thesis by (auto simp: is_equal_def dest: map_eq_imp_length_eq)
qed

lemma find_at_sublist: "find_at needle hay i \<noteq> None \<longleftrightarrow> sublist needle hay"
proof (induction hay arbitrary: i)
  case Nil
  then show ?case by simp
next
  case (Cons c cs)
  have "take (length needle) (c # cs) = needle \<longleftrightarrow> prefix needle (c # cs)"
    by (metis append_eq_conv_conj prefix_def take_is_prefix)
  with Cons show ?case by (simp add: sublist_Cons_right del: take_Suc_Cons)
qed

text \<open>The texts as a rule compares them.\<close>

definition folded :: "WildcardText \<Rightarrow> string \<Rightarrow> string" where
  "folded w txt = map (folded_char w) txt"

lemma length_folded [simp]: "length (folded w txt) = length txt"
  by (simp add: folded_def)

lemma folded_cases: "folded w txt = (if m_is_case_sensitive w then txt else to_lower_string txt)"
  by (cases "m_is_case_sensitive w")
     (auto simp: folded_def folded_char_def to_lower_string_def intro: map_idI)

text \<open>The length conditions of a rule: all of them for \<open>is_all_match\<close>, the context for its pattern.\<close>

definition length_accepted :: "WildcardText \<Rightarrow> string \<Rightarrow> bool" where
  "length_accepted w txt \<longleftrightarrow>
     (\<forall>n. m_min_length w = Some n \<longrightarrow> unat n \<le> length txt) \<and>
     (\<forall>n. m_max_length w = Some n \<longrightarrow> length txt \<le> unat n)"

definition context_accepted :: "u64 option \<Rightarrow> WildcardText \<Rightarrow> string \<Rightarrow> bool" where
  "context_accepted ctx w txt \<longleftrightarrow>
     (\<forall>n. ctx = Some n \<longrightarrow> length txt = (length (m_text w) + unat n) mod 2 ^ 64)"

lemma unat_str_size: "length s < 2 ^ 64 \<Longrightarrow> unat (str_size s) = length s"
  using unat_of_nat_small [where 'a = 64, of "length s"] by (simp add: str_size_def)

lemma length_match_iff:
  assumes "length txt < 2 ^ 64"
  shows "is_length_match w txt \<longleftrightarrow> length_accepted w txt \<and> length (m_text w) \<le> length txt"
  using unat_str_size [OF assms]
  by (auto simp: is_length_match_def length_accepted_def word_less_nat_alt split: option.splits)

lemma context_iff:
  assumes "length txt < 2 ^ 64" "length (m_text w) \<le> length txt"
  shows "(case ctx of Some n \<Rightarrow> str_size txt \<noteq> str_size (m_text w) + n | None \<Rightarrow> False) \<longleftrightarrow>
    \<not> context_accepted ctx w txt"
proof (cases ctx)
  case (Some n)
  have "str_size txt = str_size (m_text w) + n \<longleftrightarrow> length txt = (length (m_text w) + unat n) mod 2 ^ 64"
    using assms unat_str_size [of "txt"] unat_str_size [of "m_text w"]
    by (simp add: word_unat_eq_iff unat_word_ariths)
  with Some show ?thesis by (simp add: context_accepted_def)
qed (simp add: context_accepted_def)

lemma suffix_drop_iff: "length p \<le> length t \<Longrightarrow> drop (length t - length p) t = p \<longleftrightarrow> suffix p t"
  by (metis append_take_drop_id diff_diff_cancel length_drop suffixE suffixI append_eq_conv_conj length_append
      add_diff_cancel_right')

lemma prefix_take_iff: "take (length p) t = p \<longleftrightarrow> prefix p t"
  by (metis append_eq_conv_conj prefix_def take_is_prefix)

text \<open>Matching never throws, and a text matches a rule in the lengths it asks for when the
  pattern is equal to, a prefix of, a suffix of or a part of the text, with both folded to lower case
  unless the rule is case sensitive; a rule of another kind matches nothing.\<close>

theorem all_match_spec:
  assumes "length txt < 2 ^ 64"
  shows "is_all_match w txt = Some (length_accepted w txt \<and> length (m_text w) \<le> length txt \<and>
    (case m_match_pattern w of
       ExactMatch \<Rightarrow> folded w txt = folded w (m_text w)
     | PartialMatch \<Rightarrow> sublist (folded w (m_text w)) (folded w txt)
     | PrefixMatch \<Rightarrow> context_accepted (m_back_context_length w) w txt \<and> prefix (folded w (m_text w)) (folded w txt)
     | SuffixMatch \<Rightarrow> context_accepted (m_front_context_length w) w txt \<and> suffix (folded w (m_text w)) (folded w txt)
     | _ \<Rightarrow> False))"
proof (cases "length_accepted w txt \<and> length (m_text w) \<le> length txt")
  case False
  then show ?thesis
    using length_match_iff [OF assms, of w] by (auto simp: is_all_match_def)
next
  case True
  then have len: "is_length_match w txt" and le: "length (m_text w) \<le> length txt"
    using length_match_iff [OF assms, of w] by auto
  have pre: "is_prefix_match w txt \<longleftrightarrow>
      context_accepted (m_back_context_length w) w txt \<and> prefix (folded w (m_text w)) (folded w txt)"
    unfolding is_prefix_match_def context_iff [OF assms le] is_equal_iff
    using prefix_take_iff [of "folded w (m_text w)" "folded w txt"]
    by (simp add: folded_def take_map)
  have sub: "unat (str_size txt - str_size (m_text w)) = length txt - length (m_text w)"
    using le assms unat_str_size [of "txt"] unat_str_size [of "m_text w"]
    by (simp add: unat_sub word_le_nat_alt)
  have suf: "is_suffix_match w txt = Some
      (context_accepted (m_front_context_length w) w txt \<and> suffix (folded w (m_text w)) (folded w txt))"
    unfolding is_suffix_match_def context_iff [OF assms le] is_equal_iff substr_from_def sub
    using suffix_drop_iff [of "folded w (m_text w)" "folded w txt"] le
    by (auto simp: folded_def drop_map)
  have part: "is_partial_match w txt \<longleftrightarrow> sublist (folded w (m_text w)) (folded w txt)"
    by (simp add: is_partial_match_def Let_def folded_cases find_at_sublist [of _ _ 0, symmetric])
  show ?thesis
    using True len pre suf part
    by (cases "m_match_pattern w")
       (simp_all add: is_all_match_def is_exact_match_def is_equal_iff folded_def is_regex_match_def)
qed

theorem all_match_spec_witness:
  "is_all_match (set_case_sensitive False (new_text_rule ''Bc'' SuffixMatch True)) ''abC'' = Some True"
  using all_match_spec [of "''abC''" "set_case_sensitive False (new_text_rule ''Bc'' SuffixMatch True)"]
  by (simp add: set_case_sensitive_def new_text_rule_def set_text_def new_rule_def length_accepted_def
      context_accepted_def folded_def folded_char_def tolower_def Let_def char_of_def of_char_def suffix_def
      bit_0)

text \<open>The matched and the unmatched texts of a rule are the two halves of the texts, in order,
  and their selection never throws.\<close>

lemma texts_partitioned:
  assumes "\<forall>t \<in> set txts. length t < 2 ^ 64"
  shows "\<exists>p. get_matched_texts w txts = Some (filter p txts) \<and>
    get_unmatched_texts w txts = Some (filter (\<lambda>t. \<not> p t) txts) \<and>
    (\<forall>t \<in> set txts. is_match w t = Some (p t))"
proof -
  define p where "p t = the (is_match w t)" for t
  have p: "is_match w t = Some (p t)" if "length t < 2 ^ 64" for t
    using all_match_spec [OF that, of w] by (simp add: p_def is_match_def split: if_split)
  have "get_matched_texts w ts = Some (filter p ts) \<and> get_unmatched_texts w ts = Some (filter (\<lambda>t. \<not> p t) ts)"
    if "\<forall>t \<in> set ts. length t < 2 ^ 64" for ts
    using that by (induction ts) (simp_all add: p)
  with p assms show ?thesis by blast
qed

lemma texts_partitioned_witness:
  "\<exists>p. get_matched_texts (new_rule True) [''a''] = Some (filter p [''a'']) \<and>
    get_unmatched_texts (new_rule True) [''a''] = Some (filter (\<lambda>t. \<not> p t) [''a'']) \<and>
    (\<forall>t \<in> set [''a'']. is_match (new_rule True) t = Some (p t))"
  by (rule texts_partitioned) simp

end
