(* ===== verification/Fifo.thy ===== *)
theory Fifo
  imports Prelude
begin

text \<open>
  The contract of the queues of the program: the MPMC queue, the ring queue and the queues of
  the mail box. \<open>contents\<close> is the sequence of elements a state stands for, \<open>room\<close> says whether
  the next element is accepted, and \<open>inv\<close> is the invariant of the representation.
\<close>

datatype 'a queue_call = Put 'a | Take

locale fifo_queue =
  fixes inv :: "'s \<Rightarrow> bool"
    and contents :: "'s \<Rightarrow> 'a list"
    and room :: "'s \<Rightarrow> bool"
    and put :: "'a \<Rightarrow> 's \<Rightarrow> 's"
    and take_one :: "'s \<Rightarrow> 'a option \<times> 's"
  assumes put_inv: "inv s \<Longrightarrow> inv (put x s)"
    and put_contents: "inv s \<Longrightarrow> contents (put x s) = (if room s then contents s @ [x] else contents s)"
    and take_inv: "inv s \<Longrightarrow> inv (snd (take_one s))"
    and take_empty: "inv s \<Longrightarrow> contents s = [] \<Longrightarrow> fst (take_one s) = None \<and> contents (snd (take_one s)) = []"
    and take_first: "inv s \<Longrightarrow> contents s = y # ys \<Longrightarrow>
      fst (take_one s) = Some y \<and> contents (snd (take_one s)) = ys"
begin

text \<open>A sequence of calls, with the elements that were accepted and those that were handed out.\<close>

fun run_calls :: "'a queue_call list \<Rightarrow> 's \<Rightarrow> 'a list \<times> 'a list \<times> 's" where
  "run_calls [] s = ([], [], s)"
| "run_calls (Put x # cs) s =
     (let (ins, outs, t) = run_calls cs (put x s) in (if room s then x # ins else ins, outs, t))"
| "run_calls (Take # cs) s =
     (let (a, u) = take_one s; (ins, outs, t) = run_calls cs u
      in (ins, (case a of Some x \<Rightarrow> x # outs | None \<Rightarrow> outs), t))"

lemma run_calls_fifo:
  "inv s \<Longrightarrow> run_calls cs s = (ins, outs, t) \<Longrightarrow> inv t \<and> contents s @ ins = outs @ contents t"
proof (induction cs arbitrary: s ins outs t)
  case Nil
  then show ?case by simp
next
  case (Cons c cs)
  show ?case
  proof (cases c)
    case (Put x)
    obtain ins' where "run_calls cs (put x s) = (ins', outs, t)" "ins = (if room s then x # ins' else ins')"
      using Cons.prems(2) Put by (auto split: prod.splits)
    with Cons.IH [OF put_inv [OF Cons.prems(1), of x]] put_contents [OF Cons.prems(1), of x] show ?thesis
      by (auto split: if_splits)
  next
    case Take
    obtain a u where a: "take_one s = (a, u)" by fastforce
    then obtain outs' where o: "run_calls cs u = (ins, outs', t)"
      "outs = (case a of Some x \<Rightarrow> x # outs' | None \<Rightarrow> outs')"
      using Cons.prems(2) Take by (auto split: prod.splits)
    have "inv u"
      using take_inv [OF Cons.prems(1)] a by simp
    from Cons.IH [OF this o(1)] show ?thesis
      using take_empty [OF Cons.prems(1)] take_first [OF Cons.prems(1)] a o(2)
      by (cases "contents s") auto
  qed
qed

text \<open>Taking \<open>n\<close> elements one after the other.\<close>

fun take_many :: "nat \<Rightarrow> 's \<Rightarrow> 'a list \<times> 's" where
  "take_many 0 s = ([], s)"
| "take_many (Suc n) s =
     (case take_one s of
        (Some x, t) \<Rightarrow> (let (xs, u) = take_many n t in (x # xs, u))
      | (None, t) \<Rightarrow> ([], t))"

lemma take_many_contents:
  "inv s \<Longrightarrow> inv (snd (take_many n s)) \<and> fst (take_many n s) = take n (contents s) \<and>
     contents (snd (take_many n s)) = drop n (contents s)"
proof (induction n arbitrary: s)
  case (Suc n)
  obtain a t where a: "take_one s = (a, t)" by fastforce
  have t: "inv t" using take_inv [OF Suc.prems] a by simp
  show ?case
    using Suc.IH [OF t] t a take_empty [OF Suc.prems] take_first [OF Suc.prems]
    by (cases "contents s") (auto simp: Let_def split: prod.split)
qed simp

end

end
