(* ===== verification/Ring_Queue.thy ===== *)
theory Ring_Queue
  imports Fifo
begin

text \<open>
  The ring queue of one producer and one consumer, \<open>concurrent/container/spsc_ring_queue.hpp\<close>,
  for elements whose move is a copy. The first part is its operations as one thread sees them;
  the second part interleaves the accesses of \<open>push\<close> and \<open>pop\<close> to the atomics and to the data.
\<close>

section \<open>Operations\<close>

record 'a SpscRingQueue =
  m_head_index :: u32
  m_tail_index :: u32
  m_data :: "'a list"
  m_current_size :: u64
  m_capacity :: u64

text \<open>\<open>std::vector<T>(capacity)\<close> holds default elements \<open>z\<close>.\<close>

definition new_ring :: "'a \<Rightarrow> u64 \<Rightarrow> 'a SpscRingQueue" where
  "new_ring z capacity =
     \<lparr>m_head_index = 0, m_tail_index = 0, m_data = replicate (unat capacity) z,
      m_current_size = 0, m_capacity = capacity\<rparr>"

definition ring_is_empty :: "'a SpscRingQueue \<Rightarrow> bool" where
  "ring_is_empty q \<longleftrightarrow> m_current_size q = 0"

definition ring_is_full :: "'a SpscRingQueue \<Rightarrow> bool" where
  "ring_is_full q \<longleftrightarrow> m_current_size q = m_capacity q"

definition ring_size :: "'a SpscRingQueue \<Rightarrow> u64" where
  "ring_size q = m_current_size q"

text \<open>The index behind \<open>current\<close>: the comparison widens it to \<open>std::size_t\<close>.\<close>

definition next_of :: "'a SpscRingQueue \<Rightarrow> u32 \<Rightarrow> u32" where
  "next_of q current =
     (let next_index = current + 1
      in if (ucast next_index :: u64) = m_capacity q then 0 else next_index)"

definition ring_pop :: "'a SpscRingQueue \<Rightarrow> ('a option \<times> 'a SpscRingQueue) option" where
  "ring_pop q =
     (if ring_is_empty q then Some (None, q)
      else
        let current = m_tail_index q
        in if unat current < length (m_data q)
           then Some (Some (m_data q ! unat current),
             q\<lparr>m_tail_index := next_of q current, m_current_size := m_current_size q - 1\<rparr>)
           else None)"

fun ring_pop_many :: "nat \<Rightarrow> 'a list \<Rightarrow> 'a SpscRingQueue \<Rightarrow> ('a list option \<times> 'a SpscRingQueue) option" where
  "ring_pop_many 0 acc q = Some (Some acc, q)"
| "ring_pop_many (Suc n) acc q =
     do {
       (data, q) \<leftarrow> ring_pop q;
       (case data of
          None \<Rightarrow> Some (None, q)
        | Some x \<Rightarrow> ring_pop_many n (acc @ [x]) q)
     }"

definition ring_push :: "'a \<Rightarrow> 'a SpscRingQueue \<Rightarrow> 'a SpscRingQueue option" where
  "ring_push data q =
     (if ring_is_full q then Some q
      else
        let current = m_head_index q
        in if unat current < length (m_data q)
           then Some (q\<lparr>m_data := (m_data q)[unat current := data],
             m_head_index := next_of q current, m_current_size := m_current_size q + 1\<rparr>)
           else None)"

fun ring_push_all :: "'a list \<Rightarrow> 'a SpscRingQueue \<Rightarrow> 'a SpscRingQueue option" where
  "ring_push_all [] q = Some q"
| "ring_push_all (x # xs) q = ring_push x q \<bind> ring_push_all xs"

section \<open>Representation\<close>

definition ring_inv :: "'a SpscRingQueue \<Rightarrow> bool" where
  "ring_inv q \<longleftrightarrow>
     0 < unat (m_capacity q) \<and> unat (m_capacity q) < 2 ^ 32 \<and>
     length (m_data q) = unat (m_capacity q) \<and>
     unat (m_tail_index q) < unat (m_capacity q) \<and> unat (m_current_size q) \<le> unat (m_capacity q) \<and>
     unat (m_head_index q) = (unat (m_tail_index q) + unat (m_current_size q)) mod unat (m_capacity q)"

definition ring_contents :: "'a SpscRingQueue \<Rightarrow> 'a list" where
  "ring_contents q =
     map (\<lambda>i. m_data q ! ((unat (m_tail_index q) + i) mod unat (m_capacity q))) [0..<unat (m_current_size q)]"

lemma length_ring_contents [simp]: "length (ring_contents q) = unat (m_current_size q)"
  by (simp add: ring_contents_def)

lemma unat_ucast_u64: "unat (ucast (c :: u32) :: u64) = unat c"
proof -
  have "unat c < 2 ^ 64"
    by (rule order.strict_trans [OF unat_u32_less]) simp
  then show ?thesis
    by (simp add: unsigned_ucast_eq take_bit_nat_eq_self)
qed

lemma unat_next_of:
  assumes "unat c < unat (m_capacity q)" "unat (m_capacity q) < 2 ^ 32"
  shows "unat (next_of q c) = Suc (unat c) mod unat (m_capacity q)"
proof -
  have c: "unat (c + 1) = Suc (unat c)"
    using assms unat_add_u32 [of c 1] by simp
  have "(ucast (c + 1) :: u64) = m_capacity q \<longleftrightarrow> Suc (unat c) = unat (m_capacity q)"
    using c by (simp add: word_unat_eq_iff unat_ucast_u64)
  with c assms show ?thesis
    by (cases "Suc (unat c) = unat (m_capacity q)") (simp_all add: next_of_def Let_def)
qed

lemma mod_slots_distinct:
  "i < j \<Longrightarrow> j < cap \<Longrightarrow> (t + i) mod cap \<noteq> (t + j) mod (cap :: nat)"
proof
  assume "i < j" "j < cap" "(t + i) mod cap = (t + j) mod cap"
  then have "cap dvd (t + j) - (t + i)"
    by (metis mod_eq_dvd_iff_nat nat_add_left_cancel_le less_imp_le)
  with \<open>i < j\<close> \<open>j < cap\<close> show False
    by (auto dest: dvd_imp_le)
qed

lemma ring_push_spec:
  assumes "ring_inv q"
  obtains q' where "ring_push x q = Some q'" "ring_inv q'"
    "ring_contents q' = (if ring_is_full q then ring_contents q else ring_contents q @ [x])"
    "m_capacity q' = m_capacity q"
proof (cases "ring_is_full q")
  case True
  with assms that [of q] show thesis by (simp add: ring_push_def)
next
  case False
  let ?n = "unat (m_current_size q)" and ?c = "unat (m_capacity q)" and ?t = "unat (m_tail_index q)"
    and ?h = "unat (m_head_index q)"
  have inv: "0 < ?c" "?c < 2 ^ 32" "length (m_data q) = ?c" "?t < ?c" "?h = (?t + ?n) mod ?c"
    using assms by (simp_all add: ring_inv_def)
  have n: "?n < ?c"
    using assms False by (auto simp: ring_inv_def ring_is_full_def word_unat_eq_iff)
  then have n1: "unat (m_current_size q + 1) = Suc ?n"
    using unat_add_small [of "m_current_size q" 1] unsigned_less [of "m_capacity q", where 'a = nat] by simp
  have h: "?h < ?c" using inv by simp
  let ?q = "q\<lparr>m_data := (m_data q)[?h := x], m_head_index := next_of q (m_head_index q),
    m_current_size := m_current_size q + 1\<rparr>"
  have push: "ring_push x q = Some ?q"
    using False h inv by (simp add: ring_push_def Let_def)
  have head: "unat (next_of q (m_head_index q)) = (?t + Suc ?n) mod ?c"
    using unat_next_of [OF h inv(2)] inv(5) by (simp add: mod_Suc_eq)
  have "ring_inv ?q"
    using inv n n1 head by (simp add: ring_inv_def)
  moreover have "ring_contents ?q = ring_contents q @ [x]"
  proof (rule nth_equalityI)
    show "length (ring_contents ?q) = length (ring_contents q @ [x])"
      using n1 by simp
    fix i assume "i < length (ring_contents ?q)"
    then have i: "i < ?n \<or> i = ?n" using n1 by (simp add: less_Suc_eq)
    then show "ring_contents ?q ! i = (ring_contents q @ [x]) ! i"
      using inv n n1 mod_slots_distinct [of i ?n ?c ?t]
      by (auto simp: ring_contents_def nth_append simp del: upt_Suc)
  qed
  ultimately show thesis
    using that [OF push] False by simp
qed

lemma ring_pop_spec:
  assumes "ring_inv q"
  obtains q' where "ring_pop q = Some (None, q')" "ring_contents q = []" "q' = q"
  | x q' where "ring_pop q = Some (Some x, q')" "ring_contents q = x # ring_contents q'" "ring_inv q'"
proof (cases "ring_is_empty q")
  case True
  with that(1) show thesis by (simp add: ring_pop_def ring_contents_def ring_is_empty_def)
next
  case False
  let ?n = "unat (m_current_size q)" and ?c = "unat (m_capacity q)" and ?t = "unat (m_tail_index q)"
  have inv: "0 < ?c" "?c < 2 ^ 32" "length (m_data q) = ?c" "?t < ?c" "?n \<le> ?c"
    "unat (m_head_index q) = (?t + ?n) mod ?c"
    using assms by (simp_all add: ring_inv_def)
  have n: "0 < ?n"
    using False by (simp add: ring_is_empty_def unat_gt_0)
  then have n1: "unat (m_current_size q - 1) = ?n - 1"
    using unat_minus_one [of "m_current_size q"] by (auto simp: unat_gt_0)
  let ?q = "q\<lparr>m_tail_index := next_of q (m_tail_index q), m_current_size := m_current_size q - 1\<rparr>"
  have pop: "ring_pop q = Some (Some (m_data q ! ?t), ?q)"
    using False inv by (simp add: ring_pop_def Let_def)
  have tail: "unat (next_of q (m_tail_index q)) = Suc ?t mod ?c"
    using unat_next_of [OF inv(4,2)] .
  have shift: "(Suc ?t mod ?c + i) mod ?c = (?t + Suc i) mod ?c" for i
    by (simp add: mod_add_left_eq)
  have "ring_inv ?q"
    using inv n n1 tail shift [of "?n - 1"] by (simp add: ring_inv_def)
  moreover have "ring_contents q = m_data q ! ?t # ring_contents ?q"
  proof (rule nth_equalityI)
    show "length (ring_contents q) = length (m_data q ! ?t # ring_contents ?q)"
      using n n1 by simp
    fix i assume "i < length (ring_contents q)"
    then show "ring_contents q ! i = (m_data q ! ?t # ring_contents ?q) ! i"
      using inv n n1 tail shift [of "i - 1"]
      by (cases i) (auto simp: ring_contents_def)
  qed
  ultimately show thesis
    using that(2) [OF pop] by simp
qed

text \<open>As operations of the contract; outside of undefined behaviour, which \<open>ring_inv\<close> excludes.\<close>

definition ring_put :: "'a \<Rightarrow> 'a SpscRingQueue \<Rightarrow> 'a SpscRingQueue" where
  "ring_put x q = the (ring_push x q)"

definition ring_take :: "'a SpscRingQueue \<Rightarrow> 'a option \<times> 'a SpscRingQueue" where
  "ring_take q = the (ring_pop q)"

interpretation ring: fifo_queue ring_inv ring_contents "\<lambda>q. \<not> ring_is_full q" ring_put ring_take
proof
  fix q :: "'a SpscRingQueue" and x y ys
  assume inv: "ring_inv q"
  obtain q' where p: "ring_push x q = Some q'" "ring_inv q'"
    "ring_contents q' = (if ring_is_full q then ring_contents q else ring_contents q @ [x])"
    using ring_push_spec [OF inv] by metis
  then show "ring_inv (ring_put x q)"
    "ring_contents (ring_put x q) = (if \<not> ring_is_full q then ring_contents q @ [x] else ring_contents q)"
    by (simp_all add: ring_put_def)
  show "ring_inv (snd (ring_take q))"
    using inv by (rule ring_pop_spec) (use inv in \<open>simp_all add: ring_take_def\<close>)
  show "ring_contents q = [] \<Longrightarrow> fst (ring_take q) = None \<and> ring_contents (snd (ring_take q)) = []"
    using inv by (rule ring_pop_spec) (simp_all add: ring_take_def)
  show "ring_contents q = y # ys \<Longrightarrow> fst (ring_take q) = Some y \<and> ring_contents (snd (ring_take q)) = ys"
    using inv by (rule ring_pop_spec) (simp_all add: ring_take_def)
qed

lemma new_ring_inv: "0 < unat c \<Longrightarrow> unat c < 2 ^ 32 \<Longrightarrow> ring_inv (new_ring z c) \<and> ring_contents (new_ring z c) = []"
  by (simp add: ring_inv_def new_ring_def ring_contents_def)

lemma ring_pop_many_spec:
  "ring_inv q \<Longrightarrow>
     \<exists>q'. ring_pop_many n acc q =
         Some (if n \<le> length (ring_contents q) then Some (acc @ take n (ring_contents q)) else None, q') \<and>
       ring_inv q' \<and> ring_contents q' = drop n (ring_contents q)"
proof (induction n arbitrary: q acc)
  case (Suc n)
  from Suc.prems show ?case
  proof (rule ring_pop_spec)
    fix q'
    assume "ring_pop q = Some (None, q')" "ring_contents q = []" "q' = q"
    with Suc.prems show ?case by simp
  next
    fix x q'
    assume p: "ring_pop q = Some (Some x, q')" "ring_contents q = x # ring_contents q'" "ring_inv q'"
    from Suc.IH [OF p(3), of "acc @ [x]"] p show ?case by auto
  qed
qed simp

lemma ring_push_all_spec:
  "ring_inv q \<Longrightarrow>
     \<exists>q'. ring_push_all xs q = Some q' \<and> ring_inv q' \<and> m_capacity q' = m_capacity q \<and>
       ring_contents q' = ring_contents q @ take (unat (m_capacity q) - length (ring_contents q)) xs"
proof (induction xs arbitrary: q)
  case (Cons x xs)
  from Cons.prems obtain q1 where p: "ring_push x q = Some q1" "ring_inv q1"
    "ring_contents q1 = (if ring_is_full q then ring_contents q else ring_contents q @ [x])"
    "m_capacity q1 = m_capacity q"
    by (rule ring_push_spec)
  from Cons.IH [OF p(2)] p obtain q' where q': "ring_push_all xs q1 = Some q'" "ring_inv q'"
    "m_capacity q' = m_capacity q"
    "ring_contents q' = ring_contents q1 @ take (unat (m_capacity q) - length (ring_contents q1)) xs"
    by auto
  have "ring_is_full q \<longleftrightarrow> unat (m_capacity q) - length (ring_contents q) = 0"
    using Cons.prems by (auto simp: ring_is_full_def ring_inv_def word_unat_eq_iff)
  with p q' show ?case
    by (auto simp: take_Cons')
qed simp

text \<open>Used by one thread, a ring queue of a positive capacity stays inside of its vector and is a
  first-in-first-out queue: of the elements pushed the first ones that fit are taken, in order,
  and popping \<open>nums\<close> elements gives the first \<open>nums\<close> or, if there are fewer, drops them all.\<close>

theorem ring_queue_correct:
  assumes "0 < unat c" "unat c < 2 ^ 32"
  shows "\<exists>q. ring_push_all xs (new_ring z c) = Some q \<and> ring_contents q = take (unat c) xs \<and>
    (\<exists>q'. ring_pop_many n [] q =
        Some (if n \<le> length (ring_contents q) then Some (take n (ring_contents q)) else None, q') \<and>
      ring_contents q' = drop n (ring_contents q))"
proof -
  have new: "ring_inv (new_ring z c)" "ring_contents (new_ring z c) = []" "m_capacity (new_ring z c) = c"
    using new_ring_inv [OF assms, of z] by (simp_all add: new_ring_def)
  from ring_push_all_spec [OF new(1), of xs] new(2,3) obtain q where
    q: "ring_push_all xs (new_ring z c) = Some q" "ring_inv q" "ring_contents q = take (unat c) xs"
    by auto
  from ring_pop_many_spec [OF q(2), of n "[]"] q show ?thesis
    by (auto simp del: length_ring_contents)
qed

theorem ring_queue_correct_witness:
  "\<exists>q. ring_push_all [1, 2, 3] (new_ring (0 :: int) 2) = Some q \<and> ring_contents q = take (unat (2 :: u64)) [1, 2, 3] \<and>
    (\<exists>q'. ring_pop_many 1 [] q =
        Some (if 1 \<le> length (ring_contents q) then Some (take 1 (ring_contents q)) else None, q') \<and>
      ring_contents q' = drop 1 (ring_contents q))"
  by (rule ring_queue_correct) simp_all

text \<open>Any sequence of single pushes and pops of one thread hands out the accepted elements in
  their order, the rest being still in the queue.\<close>

lemma ring_calls_fifo:
  assumes "ring_inv q" "ring.run_calls cs q = (ins, outs, q')"
  shows "ring_inv q' \<and> ring_contents q @ ins = outs @ ring_contents q'"
  using ring.run_calls_fifo [OF assms] .

lemma ring_calls_fifo_witness:
  "ring_inv (snd (snd (ring.run_calls [Put (1 :: int), Take] (new_ring 0 2)))) \<and>
   ring_contents (new_ring 0 2) @ fst (ring.run_calls [Put (1 :: int), Take] (new_ring 0 2)) =
     fst (snd (ring.run_calls [Put (1 :: int), Take] (new_ring 0 2))) @
     ring_contents (snd (snd (ring.run_calls [Put (1 :: int), Take] (new_ring 0 2))))"
proof -
  have "ring_inv (new_ring (0 :: int) 2)"
    using new_ring_inv [of 2 "0 :: int"] by simp
  from ring_calls_fifo [OF this, of "[Put 1, Take]"] show ?thesis
    by (metis prod.collapse)
qed

section \<open>A producer and a consumer\<close>

text \<open>
  The accesses of \<open>push\<close> and \<open>pop\<close> to the shared members, one per step. A producer with
  its elements is about to test \<open>is_full\<close>, to write the element, to store the head or to count it; a
  consumer is about to test \<open>is_empty\<close>, to store the tail, to count, or to move the element out.
\<close>

datatype producer = P_Test | P_Write | P_Head | P_Count
datatype consumer = C_Test | C_Tail u32 | C_Count u32 | C_Read u32

record 'a ring_system =
  ring_state :: "'a SpscRingQueue"
  to_push :: "'a list"
  producer_at :: producer
  consumer_at :: consumer
  received :: "'a option list"

fun producer_step :: "'a ring_system \<Rightarrow> 'a ring_system option" where
  "producer_step s =
     (let q = ring_state s in
        case to_push s of
          [] \<Rightarrow> None
        | x # rest \<Rightarrow>
            (case producer_at s of
               P_Test \<Rightarrow> Some (if ring_is_full q then s\<lparr>to_push := rest\<rparr> else s\<lparr>producer_at := P_Write\<rparr>)
             | P_Write \<Rightarrow>
                 if unat (m_head_index q) < length (m_data q)
                 then Some (s\<lparr>ring_state := q\<lparr>m_data := (m_data q)[unat (m_head_index q) := x]\<rparr>,
                   producer_at := P_Head\<rparr>)
                 else None
             | P_Head \<Rightarrow> Some (s\<lparr>ring_state := q\<lparr>m_head_index := next_of q (m_head_index q)\<rparr>,
                   producer_at := P_Count\<rparr>)
             | P_Count \<Rightarrow> Some (s\<lparr>ring_state := q\<lparr>m_current_size := m_current_size q + 1\<rparr>,
                   to_push := rest, producer_at := P_Test\<rparr>)))"

fun consumer_step :: "'a ring_system \<Rightarrow> 'a ring_system option" where
  "consumer_step s =
     (let q = ring_state s in
        case consumer_at s of
          C_Test \<Rightarrow>
            Some (if ring_is_empty q then s\<lparr>received := received s @ [None]\<rparr>
              else s\<lparr>consumer_at := C_Tail (m_tail_index q)\<rparr>)
        | C_Tail current \<Rightarrow> Some (s\<lparr>ring_state := q\<lparr>m_tail_index := next_of q current\<rparr>, consumer_at := C_Count current\<rparr>)
        | C_Count current \<Rightarrow>
            Some (s\<lparr>ring_state := q\<lparr>m_current_size := m_current_size q - 1\<rparr>, consumer_at := C_Read current\<rparr>)
        | C_Read current \<Rightarrow>
            if unat current < length (m_data q)
            then Some (s\<lparr>received := received s @ [Some (m_data q ! unat current)], consumer_at := C_Test\<rparr>)
            else None)"

inductive ring_step :: "'a ring_system \<Rightarrow> 'a ring_system \<Rightarrow> bool" where
  Producer: "producer_step s = Some t \<Longrightarrow> ring_step s t"
| Consumer: "consumer_step s = Some t \<Longrightarrow> ring_step s t"

inductive_cases ring_stepE: "ring_step s t"

definition ring_start :: "'a \<Rightarrow> u64 \<Rightarrow> 'a list \<Rightarrow> 'a ring_system" where
  "ring_start z c xs =
     \<lparr>ring_state = new_ring z c, to_push = xs, producer_at = P_Test, consumer_at = C_Test, received = []\<rparr>"

text \<open>The counters stay in their range under every interleaving.\<close>

definition ring_safe :: "'a ring_system \<Rightarrow> bool" where
  "ring_safe s \<longleftrightarrow>
     (let q = ring_state s; n = unat (m_current_size q); c = unat (m_capacity q) in
        0 < c \<and> c < 2 ^ 32 \<and> length (m_data q) = c \<and>
        unat (m_head_index q) < c \<and> unat (m_tail_index q) < c \<and> n \<le> c \<and>
        (producer_at s \<noteq> P_Test \<longrightarrow> n < c) \<and>
        (case consumer_at s of
           C_Test \<Rightarrow> True
         | C_Tail i \<Rightarrow> 0 < n \<and> unat i < c
         | C_Count i \<Rightarrow> 0 < n \<and> unat i < c
         | C_Read i \<Rightarrow> unat i < c))"

lemma next_in_range:
  "unat c < unat (m_capacity q) \<Longrightarrow> unat (m_capacity q) < 2 ^ 32 \<Longrightarrow> unat (next_of q c) < unat (m_capacity q)"
  by (simp add: unat_next_of)

lemma unat_Suc_u64: "unat (n :: u64) < unat c \<Longrightarrow> unat (n + 1) = Suc (unat n)" for c :: u64
  using unat_add_small [of n 1] unsigned_less [of c, where 'a = nat] by simp

lemma unat_pred_u64: "0 < unat (n :: u64) \<Longrightarrow> unat (n - 1) = unat n - 1"
  using unat_minus_one [of n] by (auto simp: unat_gt_0)

lemma producer_safe:
  assumes "ring_safe s" "producer_step s = Some t"
  shows "ring_safe t"
proof -
  obtain x rest where "to_push s = x # rest"
    using assms(2) by (cases "to_push s") simp_all
  with assms show ?thesis
    by (cases "producer_at s"; cases "consumer_at s")
       (auto simp: ring_safe_def Let_def ring_is_full_def word_unat_eq_iff next_in_range unat_Suc_u64
         split: if_splits)
qed

lemma consumer_safe:
  assumes "ring_safe s" "consumer_step s = Some t"
  shows "ring_safe t"
  using assms
  by (cases "producer_at s"; cases "consumer_at s")
     (auto simp: ring_safe_def Let_def ring_is_empty_def unat_gt_0 next_in_range unat_pred_u64
       split: if_splits)

lemma ring_steps_safe: "ring_step\<^sup>*\<^sup>* s t \<Longrightarrow> ring_safe s \<Longrightarrow> ring_safe t"
  by (induction rule: rtranclp_induct) (auto elim!: ring_stepE intro: producer_safe consumer_safe)

lemma ring_start_safe: "0 < unat c \<Longrightarrow> unat c < 2 ^ 32 \<Longrightarrow> ring_safe (ring_start z c xs)"
  by (simp add: ring_safe_def ring_start_def new_ring_def Let_def)

text \<open>However a producer and a consumer are interleaved, the size of a ring queue stays within
  its capacity, both indices stay inside of the vector, and neither thread is ever stopped by an access
  outside of it.\<close>

theorem ring_interleaving_safe:
  assumes "0 < unat c" "unat c < 2 ^ 32" "ring_step\<^sup>*\<^sup>* (ring_start z c xs) s"
  shows "unat (m_current_size (ring_state s)) \<le> unat (m_capacity (ring_state s)) \<and>
    unat (m_head_index (ring_state s)) < length (m_data (ring_state s)) \<and>
    unat (m_tail_index (ring_state s)) < length (m_data (ring_state s)) \<and>
    consumer_step s \<noteq> None \<and> (to_push s \<noteq> [] \<longrightarrow> producer_step s \<noteq> None)"
proof -
  have safe: "ring_safe s"
    using ring_steps_safe [OF assms(3) ring_start_safe [OF assms(1,2)]] .
  then have "consumer_step s \<noteq> None"
    by (cases "consumer_at s") (simp_all add: ring_safe_def Let_def)
  moreover have "to_push s \<noteq> [] \<longrightarrow> producer_step s \<noteq> None"
    using safe by (cases "producer_at s"; cases "to_push s") (simp_all add: ring_safe_def Let_def)
  ultimately show ?thesis
    using safe by (simp add: ring_safe_def Let_def)
qed

theorem ring_interleaving_safe_witness:
  "let s = ring_start (0 :: int) 2 [7] in
    unat (m_current_size (ring_state s)) \<le> unat (m_capacity (ring_state s)) \<and>
    unat (m_head_index (ring_state s)) < length (m_data (ring_state s)) \<and>
    unat (m_tail_index (ring_state s)) < length (m_data (ring_state s)) \<and>
    consumer_step s \<noteq> None \<and> producer_step s \<noteq> None"
proof -
  have "to_push (ring_start (0 :: int) 2 [7]) \<noteq> []"
    by (simp add: ring_start_def)
  with ring_interleaving_safe [of 2 0 "[7]" "ring_start (0 :: int) 2 [7]"] show ?thesis
    by (simp add: Let_def)
qed

section \<open>A race\<close>

text \<open>The threads in the order of a schedule: \<open>True\<close> is the producer.\<close>

fun ring_run :: "bool list \<Rightarrow> 'a ring_system \<Rightarrow> 'a ring_system option" where
  "ring_run [] s = Some s"
| "ring_run (b # bs) s = (if b then producer_step s else consumer_step s) \<bind> ring_run bs"

lemma ring_run_steps: "ring_run bs s = Some t \<Longrightarrow> ring_step\<^sup>*\<^sup>* s t"
  by (induction bs arbitrary: s)
     (auto simp del: producer_step.simps consumer_step.simps
       intro: converse_rtranclp_into_rtranclp ring_step.intros split: if_splits Option.bind_splits)

text \<open>\<open>pop\<close> gives its slot back before it has read the element. With one producer and one
  consumer, as documented, a producer can then overwrite the element of a full queue: two elements
  \<open>x\<close> and \<open>y\<close> are pushed and accepted, and \<open>y\<close> is received twice and \<open>x\<close> never.\<close>

theorem ring_pop_races:
  "\<exists>s. ring_step\<^sup>*\<^sup>* (ring_start z 1 [x, y]) s \<and> to_push s = [] \<and> received s = [Some y, Some y]"
proof -
  obtain s where "ring_run [True, True, True, True, False, False, False, True, True, True, True,
      False, False, False, False, False] (ring_start z 1 [x, y]) = Some s \<and>
      to_push s = [] \<and> received s = [Some y, Some y]"
    by (simp add: ring_start_def new_ring_def ring_is_full_def ring_is_empty_def next_of_def Let_def)
  then show ?thesis
    using ring_run_steps by blast
qed

end
