(* ===== verification/Mpmc_Queue.thy ===== *)
theory Mpmc_Queue
  imports Fifo "HOL-Library.Multiset"
begin

text \<open>
  The blocking queue of many producers and consumers, \<open>concurrent/container/mpmc_bounded_queue.hpp\<close>.

  Every member function is a sequence of critical sections of the mutex. \<open>critical\<close> is what a call
  does from the moment it holds the mutex until it releases it: the new state of the queue, how the
  call goes on (return, wait for a condition variable and then enter again, or loop) and the
  notification it sends after the release. \<open>step\<close> interleaves the sections of the calls of several
  threads, the notifications and the wake-ups, the spurious ones included.
\<close>

section \<open>The queue\<close>

record 'a MpmcBoundedQueue =
  m_max_size :: u64
  m_queue :: "'a list"
  m_is_running :: bool

text \<open>The constructor converts an \<open>int\<close> to \<open>std::size_t\<close>.\<close>

definition new_queue :: "int \<Rightarrow> 'a MpmcBoundedQueue" where
  "new_queue max_size = \<lparr>m_max_size = of_int max_size, m_queue = [], m_is_running = True\<rparr>"

text \<open>
  The move operations give the new object and what is left of \<open>other\<close>. A new object has the
  default member initializers; \<open>m_max_size\<close> is not moved.
\<close>

definition move_construct :: "'a MpmcBoundedQueue \<Rightarrow> 'a MpmcBoundedQueue \<times> 'a MpmcBoundedQueue" where
  "move_construct other =
     (let fresh = \<lparr>m_max_size = 0, m_queue = [], m_is_running = True\<rparr>
      in (fresh\<lparr>m_queue := m_queue other, m_is_running := m_is_running other\<rparr>,
          other\<lparr>m_queue := [], m_is_running := False\<rparr>))"

definition move_assign ::
  "'a MpmcBoundedQueue \<Rightarrow> 'a MpmcBoundedQueue \<Rightarrow> 'a MpmcBoundedQueue \<times> 'a MpmcBoundedQueue" where
  "move_assign self other =
     (self\<lparr>m_queue := m_queue other, m_is_running := m_is_running other\<rparr>,
      other\<lparr>m_queue := [], m_is_running := False\<rparr>)"

definition get_max_size :: "'a MpmcBoundedQueue \<Rightarrow> u64" where
  "get_max_size q = m_max_size q"

definition below_max :: "'a MpmcBoundedQueue \<Rightarrow> bool" where
  "below_max q \<longleftrightarrow> length (m_queue q) < unat (m_max_size q)"

section \<open>Calls and their critical sections\<close>

text \<open>
  A call with the locals it keeps across its sections: the result so far of \<open>pop(nums)\<close>, the
  elements that \<open>push(begin, end)\<close> has not yet inserted and its flag, and whether the time of
  \<open>pop_until\<close> and \<open>pop_for\<close> is over. The ranges have less than \<open>2 ^ 31\<close> elements.
\<close>

datatype 'a call =
    Pop
  | Pop_Timed bool
  | Pop_Nums int "'a list"
  | Try_Pop
  | Try_Pop_Nums nat
  | Front
  | Push 'a
  | Push_Range "'a list" bool
  | Close
  | Set_Max_Size u64
  | Is_Empty
  | Is_Full
  | Size
  | Is_Running

datatype 'a result =
    Popped "'a option"
  | Popped_Nums "'a list option"
  | Popped_List "'a list"
  | Peeked "'a option"
  | Flag bool
  | Number nat
  | Finished_Call

datatype 'a continuation =
    Return "'a result"
  | Wait_Empty "'a call"
  | Wait_Full "'a call"
  | Again "'a call"

datatype signal = No_Signal | One_Empty | All_Empty | One_Full | All_Full | All_Both

definition pop_section ::
  "'a call \<Rightarrow> bool \<Rightarrow> 'a MpmcBoundedQueue \<Rightarrow> 'a MpmcBoundedQueue \<times> 'a continuation \<times> signal" where
  "pop_section call timed_out q =
     (if \<not> (m_queue q \<noteq> [] \<or> \<not> m_is_running q) \<and> \<not> timed_out then (q, Wait_Empty call, No_Signal)
      else
        case m_queue q of
          [] \<Rightarrow> (q, Return (Popped None), No_Signal)
        | item # rest \<Rightarrow> (q\<lparr>m_queue := rest\<rparr>, Return (Popped (Some item)), One_Full))"

text \<open>The loop of \<open>pop(nums)\<close> as far as it goes without waiting; \<open>nums - has_popped\<close> is the bound.\<close>

fun pop_nums_loop ::
  "int \<Rightarrow> 'a list \<Rightarrow> 'a list \<Rightarrow> 'a MpmcBoundedQueue \<Rightarrow> 'a MpmcBoundedQueue \<times> 'a continuation \<times> signal" where
  "pop_nums_loop nums acc [] q =
     (if \<not> int (length acc) < nums then (q\<lparr>m_queue := []\<rparr>, Return (Popped_Nums (Some acc)), One_Full)
      else if m_is_running q then (q\<lparr>m_queue := []\<rparr>, Wait_Empty (Pop_Nums nums acc), No_Signal)
      else (q\<lparr>m_queue := []\<rparr>, Return (Popped_Nums None), No_Signal))"
| "pop_nums_loop nums acc (x # xs) q =
     (if \<not> int (length acc) < nums then (q\<lparr>m_queue := x # xs\<rparr>, Return (Popped_Nums (Some acc)), One_Full)
      else pop_nums_loop nums (acc @ [x]) xs q)"

fun try_pop_loop ::
  "nat \<Rightarrow> 'a list \<Rightarrow> 'a list \<Rightarrow> 'a MpmcBoundedQueue \<Rightarrow> 'a MpmcBoundedQueue \<times> 'a continuation \<times> signal" where
  "try_pop_loop nums acc [] q =
     (if length acc < nums then (q\<lparr>m_queue := []\<rparr>, Return (Popped_List acc), No_Signal)
      else (q\<lparr>m_queue := []\<rparr>, Return (Popped_List acc), All_Full))"
| "try_pop_loop nums acc (x # xs) q =
     (if length acc < nums then try_pop_loop nums (acc @ [x]) xs q
      else (q\<lparr>m_queue := x # xs\<rparr>, Return (Popped_List acc), All_Full))"

definition push_section ::
  "'a \<Rightarrow> 'a MpmcBoundedQueue \<Rightarrow> 'a MpmcBoundedQueue \<times> 'a continuation \<times> signal" where
  "push_section item q =
     (if \<not> m_is_running q then (q, Return (Flag False), No_Signal)
      else if \<not> (\<not> m_is_running q \<or> below_max q) then (q, Wait_Full (Push item), No_Signal)
      else (q\<lparr>m_queue := m_queue q @ [item]\<rparr>, Return (Flag True), One_Empty))"

definition push_range_section ::
  "'a list \<Rightarrow> bool \<Rightarrow> 'a MpmcBoundedQueue \<Rightarrow> 'a MpmcBoundedQueue \<times> 'a continuation \<times> signal" where
  "push_range_section items is_pushed q =
     (if items = [] then (q, Return (Flag is_pushed), No_Signal)
      else if \<not> m_is_running q then (q, Return (Flag False), No_Signal)
      else if \<not> (below_max q \<or> \<not> m_is_running q) then (q, Wait_Full (Push_Range items is_pushed), No_Signal)
      else
        let to_insert = min (length items) (unat (m_max_size q) - length (m_queue q))
        in (q\<lparr>m_queue := m_queue q @ take to_insert items\<rparr>,
            Again (Push_Range (drop to_insert items) True), All_Empty))"

fun critical :: "'a call \<Rightarrow> 'a MpmcBoundedQueue \<Rightarrow> 'a MpmcBoundedQueue \<times> 'a continuation \<times> signal" where
  "critical Pop q = pop_section Pop False q"
| "critical (Pop_Timed over) q = pop_section (Pop_Timed over) over q"
| "critical (Pop_Nums nums acc) q = pop_nums_loop nums acc (m_queue q) q"
| "critical Try_Pop q =
     (case m_queue q of
        [] \<Rightarrow> (q, Return (Popped None), No_Signal)
      | item # rest \<Rightarrow> (q\<lparr>m_queue := rest\<rparr>, Return (Popped (Some item)), One_Full))"
| "critical (Try_Pop_Nums nums) q = try_pop_loop nums [] (m_queue q) q"
| "critical Front q =
     (case m_queue q of
        [] \<Rightarrow> if m_is_running q then (q, Wait_Empty Front, No_Signal) else (q, Return (Peeked None), No_Signal)
      | item # rest \<Rightarrow> (q, Return (Peeked (Some item)), No_Signal))"
| "critical (Push item) q = push_section item q"
| "critical (Push_Range items is_pushed) q = push_range_section items is_pushed q"
| "critical Close q = (q\<lparr>m_is_running := False\<rparr>, Return Finished_Call, All_Both)"
| "critical (Set_Max_Size max_size) q =
     (q\<lparr>m_max_size := max_size\<rparr>, Return Finished_Call, if m_max_size q < max_size then All_Full else No_Signal)"
| "critical Is_Empty q = (q, Return (Flag (m_queue q = [])), No_Signal)"
| "critical Is_Full q = (q, Return (Flag (length (m_queue q) \<ge> unat (m_max_size q))), No_Signal)"
| "critical Size q = (q, Return (Number (length (m_queue q))), No_Signal)"
| "critical Is_Running q = (q, Return (Flag (m_is_running q)), No_Signal)"

section \<open>Threads\<close>

text \<open>
  A thread with its call: before a section, asleep on one of the condition variables, between a
  section and its notification, or with its result.
\<close>

datatype 'a thread =
    Ready "'a call"
  | Asleep_Empty "'a call"
  | Asleep_Full "'a call"
  | Signalling signal "'a continuation"
  | Finished "'a result"

text \<open>A waiting call releases the mutex and falls asleep in one step.\<close>

fun leave :: "'a continuation \<Rightarrow> signal \<Rightarrow> 'a thread" where
  "leave (Wait_Empty c) sg = Asleep_Empty c"
| "leave (Wait_Full c) sg = Asleep_Full c"
| "leave k sg = Signalling sg k"

fun resume :: "'a continuation \<Rightarrow> 'a thread" where
  "resume (Return r) = Finished r"
| "resume (Wait_Empty c) = Asleep_Empty c"
| "resume (Wait_Full c) = Asleep_Full c"
| "resume (Again c) = Ready c"

fun wake_empty :: "'a thread \<Rightarrow> 'a thread" where
  "wake_empty (Asleep_Empty c) = Ready c"
| "wake_empty t = t"

fun wake_full :: "'a thread \<Rightarrow> 'a thread" where
  "wake_full (Asleep_Full c) = Ready c"
| "wake_full t = t"

text \<open>\<open>notify_one\<close> wakes some sleeping thread, if there is one.\<close>

inductive notify_one :: "('a thread \<Rightarrow> 'a thread) \<Rightarrow> 'a thread list \<Rightarrow> 'a thread list \<Rightarrow> bool" for wake where
  Wake: "j < length ts \<Longrightarrow> wake (ts ! j) \<noteq> ts ! j \<Longrightarrow> notify_one wake ts (ts[j := wake (ts ! j)])"
| Nobody: "\<forall>t \<in> set ts. wake t = t \<Longrightarrow> notify_one wake ts ts"

fun notify :: "signal \<Rightarrow> 'a thread list \<Rightarrow> 'a thread list \<Rightarrow> bool" where
  "notify No_Signal ts ts' \<longleftrightarrow> ts' = ts"
| "notify One_Empty ts ts' \<longleftrightarrow> notify_one wake_empty ts ts'"
| "notify All_Empty ts ts' \<longleftrightarrow> ts' = map wake_empty ts"
| "notify One_Full ts ts' \<longleftrightarrow> notify_one wake_full ts ts'"
| "notify All_Full ts ts' \<longleftrightarrow> ts' = map wake_full ts"
| "notify All_Both ts ts' \<longleftrightarrow> ts' = map wake_full (map wake_empty ts)"

text \<open>\<open>entered\<close> and \<open>left\<close> record the elements in the order in which the queue took and gave them.\<close>

record 'a system =
  queue :: "'a MpmcBoundedQueue"
  threads :: "'a thread list"
  entered :: "'a list"
  departed :: "'a list"

inductive step :: "'a system \<Rightarrow> 'a system \<Rightarrow> bool" where
  Section: "i < length (threads s) \<Longrightarrow> threads s ! i = Ready c \<Longrightarrow> critical c (queue s) = (q, k, sg) \<Longrightarrow>
    step s (s\<lparr>queue := q, threads := (threads s)[i := leave k sg],
      entered := entered s @ drop (length (m_queue (queue s))) (m_queue q),
      departed := departed s @ take (length (m_queue (queue s)) - length (m_queue q)) (m_queue (queue s))\<rparr>)"
| Notify: "i < length (threads s) \<Longrightarrow> threads s ! i = Signalling sg k \<Longrightarrow>
    notify sg ((threads s)[i := resume k]) ts \<Longrightarrow> step s (s\<lparr>threads := ts\<rparr>)"
| Timeout: "i < length (threads s) \<Longrightarrow> threads s ! i = Asleep_Empty (Pop_Timed b) \<Longrightarrow>
    step s (s\<lparr>threads := (threads s)[i := Ready (Pop_Timed True)]\<rparr>)"
| Spurious_Empty: "i < length (threads s) \<Longrightarrow> threads s ! i = Asleep_Empty c \<Longrightarrow>
    step s (s\<lparr>threads := (threads s)[i := Ready c]\<rparr>)"
| Spurious_Full: "i < length (threads s) \<Longrightarrow> threads s ! i = Asleep_Full c \<Longrightarrow>
    step s (s\<lparr>threads := (threads s)[i := Ready c]\<rparr>)"

definition initial :: "'a MpmcBoundedQueue \<Rightarrow> 'a call list \<Rightarrow> 'a system" where
  "initial q cs = \<lparr>queue = q, threads = map Ready cs, entered = m_queue q, departed = []\<rparr>"

abbreviation steps :: "'a system \<Rightarrow> 'a system \<Rightarrow> bool" where
  "steps \<equiv> step\<^sup>*\<^sup>*"

section \<open>What a section does\<close>

lemma pop_nums_loop_cases:
  assumes "pop_nums_loop nums acc xs q = (q', k, sg)"
  obtains (Enough) ys zs where "xs = ys @ zs" "q' = q\<lparr>m_queue := zs\<rparr>" "k = Return (Popped_Nums (Some (acc @ ys)))"
      "sg = One_Full" "nums \<le> int (length (acc @ ys))"
  | (Wait) "m_is_running q" "q' = q\<lparr>m_queue := []\<rparr>" "k = Wait_Empty (Pop_Nums nums (acc @ xs))" "sg = No_Signal"
      "int (length (acc @ xs)) < nums"
  | (Closed) "\<not> m_is_running q" "q' = q\<lparr>m_queue := []\<rparr>" "k = Return (Popped_Nums None)" "sg = No_Signal"
      "int (length (acc @ xs)) < nums"
proof -
  have "(\<exists>ys zs. xs = ys @ zs \<and> q' = q\<lparr>m_queue := zs\<rparr> \<and> k = Return (Popped_Nums (Some (acc @ ys))) \<and>
        sg = One_Full \<and> nums \<le> int (length (acc @ ys))) \<or>
      m_is_running q \<and> q' = q\<lparr>m_queue := []\<rparr> \<and> k = Wait_Empty (Pop_Nums nums (acc @ xs)) \<and> sg = No_Signal \<and>
        int (length (acc @ xs)) < nums \<or>
      \<not> m_is_running q \<and> q' = q\<lparr>m_queue := []\<rparr> \<and> k = Return (Popped_Nums None) \<and> sg = No_Signal \<and>
        int (length (acc @ xs)) < nums"
    using assms
  proof (induction nums acc xs q rule: pop_nums_loop.induct)
    case (1 nums acc q)
    then show ?case by (auto split: if_splits)
  next
    case (2 nums acc x xs q)
    show ?case
    proof (cases "int (length acc) < nums")
      case True
      with 2(2) have "\<not> \<not> int (length acc) < nums" "pop_nums_loop nums (acc @ [x]) xs q = (q', k, sg)"
        by simp_all
      from 2(1) [OF this] show ?thesis
      proof (elim disjE exE conjE, goal_cases)
        case (1 ys zs)
        then have "x # xs = (x # ys) @ zs \<and> q' = q\<lparr>m_queue := zs\<rparr> \<and>
            k = Return (Popped_Nums (Some (acc @ x # ys))) \<and> sg = One_Full \<and> nums \<le> int (length (acc @ x # ys))"
          by simp
        then show ?case by blast
      qed simp_all
    next
      case False
      with 2(2) have "x # xs = [] @ x # xs \<and> q' = q\<lparr>m_queue := x # xs\<rparr> \<and>
          k = Return (Popped_Nums (Some (acc @ []))) \<and> sg = One_Full \<and> nums \<le> int (length (acc @ []))"
        by simp
      then show ?thesis by blast
    qed
  qed
  then show thesis using that by blast
qed

lemma try_pop_loop_cases:
  assumes "try_pop_loop nums acc xs q = (q', k, sg)"
  obtains ys zs where "xs = ys @ zs" "q' = q\<lparr>m_queue := zs\<rparr>" "k = Return (Popped_List (acc @ ys))"
proof -
  have "\<exists>ys zs. xs = ys @ zs \<and> q' = q\<lparr>m_queue := zs\<rparr> \<and> k = Return (Popped_List (acc @ ys))"
    using assms
  proof (induction nums acc xs q rule: try_pop_loop.induct)
    case (1 nums acc q)
    then show ?case by (auto split: if_splits)
  next
    case (2 nums acc x xs q)
    show ?case
    proof (cases "length acc < nums")
      case True
      with 2 obtain ys zs where "xs = ys @ zs" "q' = q\<lparr>m_queue := zs\<rparr>" "k = Return (Popped_List ((acc @ [x]) @ ys))"
        by auto
      then have "x # xs = (x # ys) @ zs \<and> q' = q\<lparr>m_queue := zs\<rparr> \<and> k = Return (Popped_List (acc @ x # ys))"
        by simp
      then show ?thesis by blast
    next
      case False
      with 2(2) have "x # xs = [] @ x # xs \<and> q' = q\<lparr>m_queue := x # xs\<rparr> \<and> k = Return (Popped_List (acc @ []))"
        by simp
      then show ?thesis by blast
    qed
  qed
  then show thesis using that by blast
qed

lemmas section_defs = pop_section_def push_section_def push_range_section_def Let_def

text \<open>A section takes from the front or appends to the back, and no element exceeds the bound.\<close>

lemma critical_queue:
  assumes "critical c q = (q', k, sg)"
  shows "(\<exists>xs. m_queue q' = m_queue q @ xs) \<or> (\<exists>xs. m_queue q = xs @ m_queue q')"
proof (cases c)
  case (Pop_Nums nums acc)
  with assms have "pop_nums_loop nums acc (m_queue q) q = (q', k, sg)" by simp
  then show ?thesis
    by (rule pop_nums_loop_cases) auto
next
  case (Try_Pop_Nums nums)
  with assms have "try_pop_loop nums [] (m_queue q) q = (q', k, sg)" by simp
  then show ?thesis
    by (rule try_pop_loop_cases) auto
qed (use assms in \<open>auto simp: section_defs split: if_splits list.splits\<close>)

lemma critical_bound:
  assumes "critical c q = (q', k, sg)" "\<forall>n. c \<noteq> Set_Max_Size n"
  shows "m_max_size q' = m_max_size q \<and> length (m_queue q') \<le> max (length (m_queue q)) (unat (m_max_size q))"
proof (cases c)
  case (Pop_Nums nums acc)
  with assms have "pop_nums_loop nums acc (m_queue q) q = (q', k, sg)" by simp
  then show ?thesis
    by (rule pop_nums_loop_cases) auto
next
  case (Try_Pop_Nums nums)
  with assms have "try_pop_loop nums [] (m_queue q) q = (q', k, sg)" by simp
  then show ?thesis
    by (rule try_pop_loop_cases) auto
qed (use assms in \<open>auto simp: section_defs below_max_def split: if_splits list.splits\<close>)

lemma critical_running:
  assumes "critical c q = (q', k, sg)"
  shows "m_is_running q' \<longleftrightarrow> m_is_running q \<and> c \<noteq> Close"
proof (cases c)
  case (Pop_Nums nums acc)
  with assms have "pop_nums_loop nums acc (m_queue q) q = (q', k, sg)" by simp
  then show ?thesis
    using Pop_Nums by (elim pop_nums_loop_cases) auto
next
  case (Try_Pop_Nums nums)
  with assms have "try_pop_loop nums [] (m_queue q) q = (q', k, sg)" by simp
  then show ?thesis
    using Try_Pop_Nums by (elim try_pop_loop_cases) auto
qed (use assms in \<open>auto simp: section_defs split: if_splits list.splits\<close>)

section \<open>First in, first out\<close>

lemma step_fifo:
  assumes "step s t" "entered s = departed s @ m_queue (queue s)"
  shows "entered t = departed t @ m_queue (queue t)"
  using assms
proof cases
  case (Section i c q k sg)
  from critical_queue [OF Section(4)] show ?thesis
    using assms(2) by (auto simp: Section(1))
qed simp_all

section \<open>Elements\<close>

text \<open>The elements that a call holds, still to be pushed or already popped.\<close>

fun goods_call :: "'a call \<Rightarrow> 'a multiset" where
  "goods_call (Pop_Nums nums acc) = mset acc"
| "goods_call (Push item) = {#item#}"
| "goods_call (Push_Range items b) = mset items"
| "goods_call _ = {#}"

fun goods_result :: "'a result \<Rightarrow> 'a multiset" where
  "goods_result (Popped (Some item)) = {#item#}"
| "goods_result (Popped_Nums (Some items)) = mset items"
| "goods_result (Popped_List items) = mset items"
| "goods_result _ = {#}"

fun goods_continuation :: "'a continuation \<Rightarrow> 'a multiset" where
  "goods_continuation (Return r) = goods_result r"
| "goods_continuation (Wait_Empty c) = goods_call c"
| "goods_continuation (Wait_Full c) = goods_call c"
| "goods_continuation (Again c) = goods_call c"

fun goods_thread :: "'a thread \<Rightarrow> 'a multiset" where
  "goods_thread (Ready c) = goods_call c"
| "goods_thread (Asleep_Empty c) = goods_call c"
| "goods_thread (Asleep_Full c) = goods_call c"
| "goods_thread (Signalling sg k) = goods_continuation k"
| "goods_thread (Finished r) = goods_result r"

definition all_goods :: "'a system \<Rightarrow> 'a multiset" where
  "all_goods s = mset (m_queue (queue s)) + sum_list (map goods_thread (threads s))"

lemma goods_leave [simp]: "goods_thread (leave k sg) = goods_continuation k"
  by (cases k) simp_all

lemma goods_resume [simp]: "goods_thread (resume k) = goods_continuation k"
  by (cases k) simp_all

lemma goods_wake [simp]: "goods_thread (wake_empty t) = goods_thread t" "goods_thread (wake_full t) = goods_thread t"
  by (cases t; simp)+

lemma sum_list_replace:
  "i < length xs \<Longrightarrow> sum_list (map f (xs[i := x])) + f (xs ! i) = sum_list (map f xs) + (f x :: 'b::comm_monoid_add)"
proof (induction xs arbitrary: i)
  case (Cons y ys)
  then show ?case by (cases i) (simp_all add: ac_simps)
qed simp

lemma map_replace_same: "i < length xs \<Longrightarrow> f x = f (xs ! i) \<Longrightarrow> map f (xs[i := x]) = map f xs"
  by (metis list_update_id map_update)

lemma notify_map:
  assumes "notify sg ts ts'" "\<And>t. f (wake_empty t) = f t" "\<And>t. f (wake_full t) = f t"
  shows "map f ts' = map f ts"
  using assms
  by (cases sg) (auto elim!: notify_one.cases intro: map_replace_same)

lemma notify_length: "notify sg ts ts' \<Longrightarrow> length ts' = length ts"
  by (drule notify_map [where f = "\<lambda>_. ()"]) (auto dest: map_eq_imp_length_eq)

lemma critical_goods:
  assumes "critical c q = (q', k, sg)" "m_is_running q"
  shows "mset (m_queue q') + goods_continuation k = mset (m_queue q) + goods_call c"
proof (cases c)
  case (Pop_Nums nums acc)
  with assms have "pop_nums_loop nums acc (m_queue q) q = (q', k, sg)" by simp
  then show ?thesis
    using Pop_Nums assms(2) by (elim pop_nums_loop_cases) (auto simp: ac_simps)
next
  case (Try_Pop_Nums nums)
  with assms have "try_pop_loop nums [] (m_queue q) q = (q', k, sg)" by simp
  then show ?thesis
    using Try_Pop_Nums by (elim try_pop_loop_cases) (auto simp: ac_simps)
next
  case (Push_Range items b)
  have "mset (take n items) + mset (drop n items) = mset items" for n
    by (metis append_take_drop_id mset_append)
  with Push_Range show ?thesis
    using assms by (auto simp: section_defs ac_simps split: if_splits)
qed (use assms in \<open>auto simp: section_defs split: if_splits list.splits\<close>)

lemma step_running: "step s t \<Longrightarrow> m_is_running (queue t) \<Longrightarrow> m_is_running (queue s)"
  by (cases rule: step.cases) (auto simp: critical_running)

lemma add_cross:
  fixes a b c d k l :: "'a multiset"
  assumes "a + k = c + l" "b + l = d + k"
  shows "a + b = c + d"
proof -
  have "(a + b) + (k + l) = (a + k) + (b + l)"
    by (simp add: ac_simps)
  also have "\<dots> = (c + d) + (k + l)"
    unfolding assms by (simp add: ac_simps)
  finally show ?thesis by simp
qed

lemma step_goods:
  assumes "step s t" "m_is_running (queue s)"
  shows "all_goods t = all_goods s"
  using assms(1)
proof cases
  case (Section i c q k sg)
  let ?ts = "threads s" and ?ts' = "(threads s)[i := leave k sg]"
  have "sum_list (map goods_thread ?ts') + goods_call c = sum_list (map goods_thread ?ts) + goods_continuation k"
    using sum_list_replace [OF Section(2), of goods_thread "leave k sg"] Section(3) by simp
  with critical_goods [OF Section(4) assms(2)]
  have "mset (m_queue q) + sum_list (map goods_thread ?ts') = mset (m_queue (queue s)) + sum_list (map goods_thread ?ts)"
    by (rule add_cross)
  then show ?thesis
    by (simp add: Section(1) all_goods_def)
next
  case (Notify i sg k ts)
  have "map goods_thread ts = map goods_thread ((threads s)[i := resume k])"
    using notify_map [OF Notify(4), of goods_thread] by simp
  also have "\<dots> = map goods_thread (threads s)"
    using Notify by (intro map_replace_same) simp_all
  finally show ?thesis
    by (simp add: Notify(1) all_goods_def)
next
  case (Timeout i b)
  then show ?thesis
    using map_replace_same [OF Timeout(2), of goods_thread "Ready (Pop_Timed True)"]
    by (simp add: all_goods_def)
next
  case (Spurious_Empty i c)
  then show ?thesis
    using map_replace_same [OF Spurious_Empty(2), of goods_thread "Ready c"]
    by (simp add: all_goods_def)
next
  case (Spurious_Full i c)
  then show ?thesis
    using map_replace_same [OF Spurious_Full(2), of goods_thread "Ready c"]
    by (simp add: all_goods_def)
qed

lemma steps_goods: "steps s t \<Longrightarrow> m_is_running (queue t) \<Longrightarrow> m_is_running (queue s) \<and> all_goods t = all_goods s"
proof (induction rule: rtranclp_induct)
  case (step y z)
  with step_running [OF step(2,4)] step_goods [OF step(2)] show ?case by simp
qed simp

lemma steps_fifo: "steps s t \<Longrightarrow> entered s = departed s @ m_queue (queue s) \<Longrightarrow> entered t = departed t @ m_queue (queue t)"
  by (induction rule: rtranclp_induct) (auto dest: step_fifo)

section \<open>The calls of the threads\<close>

fun cont_calls :: "('a call \<Rightarrow> bool) \<Rightarrow> 'a continuation \<Rightarrow> bool" where
  "cont_calls P (Return r) = True"
| "cont_calls P (Wait_Empty c) = P c"
| "cont_calls P (Wait_Full c) = P c"
| "cont_calls P (Again c) = P c"

fun thread_calls :: "('a call \<Rightarrow> bool) \<Rightarrow> 'a thread \<Rightarrow> bool" where
  "thread_calls P (Ready c) = P c"
| "thread_calls P (Asleep_Empty c) = P c"
| "thread_calls P (Asleep_Full c) = P c"
| "thread_calls P (Signalling sg k) = cont_calls P k"
| "thread_calls P (Finished r) = True"

text \<open>A set of calls that is closed under their continuations is kept by the threads.\<close>

definition closed_calls :: "('a call \<Rightarrow> bool) \<Rightarrow> bool" where
  "closed_calls P \<longleftrightarrow>
     (\<forall>c q q' k sg. P c \<longrightarrow> critical c q = (q', k, sg) \<longrightarrow> cont_calls P k) \<and>
     (\<forall>b. P (Pop_Timed b) \<longrightarrow> P (Pop_Timed True))"

lemma calls_leave [simp]: "thread_calls P (leave k sg) = cont_calls P k"
  by (cases k) simp_all

lemma calls_resume [simp]: "thread_calls P (resume k) = cont_calls P k"
  by (cases k) simp_all

lemma calls_wake [simp]: "thread_calls P (wake_empty t) = thread_calls P t" "thread_calls P (wake_full t) = thread_calls P t"
  by (cases t; simp)+

lemma list_all_map_eq: "map f xs = map f ys \<Longrightarrow> list_all f xs = list_all f ys"
  by (metis (mono_tags, lifting) list.pred_map list_all_length length_map nth_map)

lemma list_all_replace: "list_all f xs \<Longrightarrow> f x \<Longrightarrow> list_all f (xs[i := x])"
  by (auto simp: list_all_iff dest!: set_update_subset_insert [THEN subsetD])

lemma step_calls:
  assumes "step s t" "closed_calls P" "list_all (thread_calls P) (threads s)"
  shows "list_all (thread_calls P) (threads t)"
proof -
  have at: "thread_calls P (threads s ! i)" if "i < length (threads s)" for i
    using assms(3) that by (simp add: list_all_length)
  from assms(1) show ?thesis
  proof cases
    case (Section i c q k sg)
    have "P c"
      using at [OF Section(2)] Section(3) by simp
    with assms(2) Section(4) have "cont_calls P k"
      unfolding closed_calls_def by blast
    with assms(3) show ?thesis
      by (simp add: Section(1) list_all_replace)
  next
    case (Notify i sg k ts)
    have "list_all (thread_calls P) ((threads s)[i := resume k])"
      using assms(3) at [OF Notify(2)] Notify(3) by (intro list_all_replace) simp_all
    moreover have "map (thread_calls P) ts = map (thread_calls P) ((threads s)[i := resume k])"
      by (rule notify_map [OF Notify(4)]) simp_all
    ultimately have "list_all (thread_calls P) ts"
      using list_all_map_eq by blast
    then show ?thesis
      by (simp add: Notify(1))
  next
    case (Timeout i b)
    have "P (Pop_Timed True)"
      using assms(2) at [OF Timeout(2)] Timeout(3) unfolding closed_calls_def by auto
    with assms(3) show ?thesis
      by (simp add: Timeout(1) list_all_replace)
  next
    case (Spurious_Empty i c)
    then show ?thesis
      using assms(3) at [OF Spurious_Empty(2)] by (simp add: list_all_replace)
  next
    case (Spurious_Full i c)
    then show ?thesis
      using assms(3) at [OF Spurious_Full(2)] by (simp add: list_all_replace)
  qed
qed

section \<open>No lost wake-up among calls for one element\<close>

fun taking :: "'a call \<Rightarrow> bool" where
  "taking Pop = True" | "taking (Pop_Timed b) = True" | "taking _ = False"

fun pushing :: "'a call \<Rightarrow> bool" where
  "pushing (Push x) = True" | "pushing _ = False"

fun single :: "'a call \<Rightarrow> bool" where
  "single (Pop_Nums n acc) = False" | "single (Try_Pop_Nums n) = False" | "single Front = False"
| "single (Push_Range xs b) = False" | "single (Set_Max_Size n) = False" | "single _ = True"

text \<open>The threads that will take or push an element before they sleep, or wake another one that does.\<close>

fun takers :: "'a thread \<Rightarrow> nat" where
  "takers (Ready c) = of_bool (taking c)" | "takers (Signalling One_Empty k) = 1" | "takers _ = 0"

fun pushers :: "'a thread \<Rightarrow> nat" where
  "pushers (Ready c) = of_bool (pushing c)" | "pushers (Signalling One_Full k) = 1" | "pushers _ = 0"

fun asleep_empty :: "'a thread \<Rightarrow> bool" where
  "asleep_empty (Asleep_Empty c) = True" | "asleep_empty _ = False"

fun asleep_full :: "'a thread \<Rightarrow> bool" where
  "asleep_full (Asleep_Full c) = True" | "asleep_full _ = False"

fun closing :: "'a thread \<Rightarrow> bool" where
  "closing (Signalling All_Both k) = True" | "closing _ = False"

fun single_thread :: "'a thread \<Rightarrow> bool" where
  "single_thread (Ready c) = single c"
| "single_thread (Asleep_Empty c) = (single c \<and> taking c)"
| "single_thread (Asleep_Full c) = (single c \<and> pushing c)"
| "single_thread (Signalling sg k) = (sg \<notin> {All_Empty, All_Full} \<and> (\<exists>r. k = Return r))"
| "single_thread (Finished r) = True"

text \<open>
  While a thread sleeps for an element, there are at most as many elements as takers, and the same
  for room; in a closed queue a thread sleeps only if \<open>close\<close> is still to wake it. The numbers
  \<open>e\<close> and \<open>f\<close> are notifications in flight.
\<close>

definition balanced :: "nat \<Rightarrow> nat \<Rightarrow> 'a MpmcBoundedQueue \<Rightarrow> 'a thread list \<Rightarrow> bool" where
  "balanced e f q ts \<longleftrightarrow>
     (m_is_running q \<and> (\<exists>t \<in> set ts. asleep_empty t) \<longrightarrow> length (m_queue q) \<le> sum_list (map takers ts) + e) \<and>
     (m_is_running q \<and> (\<exists>t \<in> set ts. asleep_full t) \<longrightarrow>
        unat (m_max_size q) \<le> length (m_queue q) + sum_list (map pushers ts) + f) \<and>
     (\<not> m_is_running q \<and> (\<exists>t \<in> set ts. asleep_empty t \<or> asleep_full t) \<longrightarrow> (\<exists>t \<in> set ts. closing t))"

lemma ex_replace: "\<exists>t \<in> set (ts[i := x]). A t \<Longrightarrow> A x \<or> (\<exists>t \<in> set ts. A t)"
  using set_update_subset_insert [of ts i x] by auto

lemma ex_replace_keep:
  assumes "\<exists>t \<in> set ts. A t" "i < length ts" "\<not> A (ts ! i)"
  shows "\<exists>t \<in> set (ts[i := x]). A t"
proof -
  obtain j where "j < length ts" "A (ts ! j)"
    using assms(1) by (auto simp: in_set_conv_nth)
  with assms(2,3) have "j < length (ts[i := x])" "A (ts[i := x] ! j)"
    by (auto simp: nth_list_update)
  then show ?thesis
    using nth_mem by blast
qed

lemma balanced_replace:
  assumes "balanced e f q ts" "i < length ts" "m_max_size q' = m_max_size q"
    and "m_is_running q' \<Longrightarrow> m_is_running q"
    and "m_is_running q' \<Longrightarrow> m_queue q' = [] \<or>
      \<not> asleep_empty x \<and> length (m_queue q') + takers (ts ! i) + e \<le> length (m_queue q) + takers x + e'"
    and "m_is_running q' \<Longrightarrow> unat (m_max_size q) \<le> length (m_queue q') \<or>
      \<not> asleep_full x \<and> length (m_queue q) + pushers (ts ! i) + f \<le> length (m_queue q') + pushers x + f'"
    and "\<not> m_is_running q' \<Longrightarrow> closing x \<or>
      \<not> m_is_running q \<and> \<not> asleep_empty x \<and> \<not> asleep_full x \<and> \<not> closing (ts ! i)"
  shows "balanced e' f' q' (ts[i := x])"
proof -
  have sum: "sum_list (map g (ts[i := x])) + g (ts ! i) = sum_list (map g ts) + (g x :: nat)" for g
    using sum_list_replace [OF assms(2)] .
  have "length (m_queue q') \<le> sum_list (map takers (ts[i := x])) + e'"
    if "m_is_running q'" "\<exists>t \<in> set (ts[i := x]). asleep_empty t"
    using assms(1,4) assms(5) [OF that(1)] ex_replace [OF that(2)] sum [of takers] that(1)
    by (auto simp: balanced_def)
  moreover have "unat (m_max_size q') \<le> length (m_queue q') + sum_list (map pushers (ts[i := x])) + f'"
    if "m_is_running q'" "\<exists>t \<in> set (ts[i := x]). asleep_full t"
    using assms(1,3,4) assms(6) [OF that(1)] ex_replace [OF that(2)] sum [of pushers] that(1)
    by (auto simp: balanced_def)
  moreover have "\<exists>t \<in> set (ts[i := x]). closing t"
    if "\<not> m_is_running q'" "\<exists>t \<in> set (ts[i := x]). asleep_empty t \<or> asleep_full t"
  proof (cases "closing x")
    case True
    then show ?thesis
      using assms(2) by (meson set_update_memI)
  next
    case False
    with assms(7) [OF that(1)] ex_replace [OF that(2)]
    have "\<exists>t \<in> set ts. asleep_empty t \<or> asleep_full t" "\<not> m_is_running q" "\<not> closing (ts ! i)"
      by auto
    with assms(1) have "\<exists>t \<in> set ts. closing t"
      by (simp add: balanced_def)
    then show ?thesis
      using assms(2) \<open>\<not> closing (ts ! i)\<close> by (rule ex_replace_keep)
  qed
  ultimately show ?thesis
    by (simp add: balanced_def)
qed

text \<open>The section of a single call.\<close>

lemma single_section:
  assumes "critical c q = (q', k, sg)" "single c"
  shows "single_thread (leave k sg)" "m_max_size q' = m_max_size q" "m_is_running q' \<Longrightarrow> m_is_running q"
    and "m_is_running q' \<Longrightarrow> m_queue q' = [] \<or> \<not> asleep_empty (leave k sg) \<and>
      length (m_queue q') + takers (Ready c) \<le> length (m_queue q) + takers (leave k sg)"
    and "m_is_running q' \<Longrightarrow> unat (m_max_size q) \<le> length (m_queue q') \<or> \<not> asleep_full (leave k sg) \<and>
      length (m_queue q) + pushers (Ready c) \<le> length (m_queue q') + pushers (leave k sg)"
    and "\<not> m_is_running q' \<Longrightarrow> closing (leave k sg) \<or>
      \<not> m_is_running q \<and> \<not> asleep_empty (leave k sg) \<and> \<not> asleep_full (leave k sg)"
  using assms
  by (cases c; auto simp: section_defs below_max_def split: if_splits list.splits)+

lemma single_wake:
  "single_thread t \<Longrightarrow> wake_empty t \<noteq> t \<Longrightarrow> \<exists>c. t = Asleep_Empty c \<and> wake_empty t = Ready c \<and> single c \<and> taking c"
  "single_thread t \<Longrightarrow> wake_full t \<noteq> t \<Longrightarrow> \<exists>c. t = Asleep_Full c \<and> wake_full t = Ready c \<and> single c \<and> pushing c"
  by (cases t; simp)+

lemma taking_not_pushing: "taking c \<Longrightarrow> \<not> pushing c"
  by (cases c) simp_all

lemma balanced_wake:
  assumes "list_all single_thread ts" "i < length ts"
  shows "ts ! i = Asleep_Empty c \<Longrightarrow> taking d \<Longrightarrow> balanced e f q ts \<Longrightarrow> balanced (e - 1) f q (ts[i := Ready d])"
    and "ts ! i = Asleep_Full c \<Longrightarrow> pushing d \<Longrightarrow> balanced e f q ts \<Longrightarrow> balanced e (f - 1) q (ts[i := Ready d])"
  using assms(2) taking_not_pushing [of d] by (auto intro!: balanced_replace [where q = q and ts = ts])

lemma balanced_nobody:
  "\<forall>t \<in> set ts. \<not> asleep_empty t \<Longrightarrow> balanced e f q ts \<Longrightarrow> balanced e' f q ts"
  "\<forall>t \<in> set ts. \<not> asleep_full t \<Longrightarrow> balanced e f q ts \<Longrightarrow> balanced e f' q ts"
  by (auto simp: balanced_def)

lemma wake_same: "wake_empty t = t \<longleftrightarrow> \<not> asleep_empty t" "wake_full t = t \<longleftrightarrow> \<not> asleep_full t"
  by (cases t; simp)+

lemma awake: "\<not> asleep_empty (wake_full (wake_empty t))" "\<not> asleep_full (wake_full (wake_empty t))"
  by (cases t; simp)+

lemma single_awake: "single_thread t \<Longrightarrow> single_thread (wake_full (wake_empty t))"
  by (cases t) simp_all

lemma notify_balanced:
  assumes "notify sg ts ts'" "list_all single_thread ts" "sg \<notin> {All_Empty, All_Full}"
    and "balanced (of_bool (sg = One_Empty)) (of_bool (sg = One_Full)) q ts \<or> sg = All_Both"
  shows "list_all single_thread ts' \<and> balanced 0 0 q ts'"
proof (cases sg)
  case One_Empty
  then have "notify_one wake_empty ts ts'" "balanced 1 0 q ts"
    using assms(1,4) by auto
  then show ?thesis
  proof cases
    case (Wake j)
    then obtain c where c: "ts ! j = Asleep_Empty c" "wake_empty (ts ! j) = Ready c" "single c" "taking c"
      using assms(2) single_wake(1) [of "ts ! j"] by (auto simp: list_all_length)
    have "balanced 0 0 q (ts[j := Ready c])"
      using balanced_wake(1) [OF assms(2) Wake(2) c(1,4) \<open>balanced 1 0 q ts\<close>] by simp
    with Wake(1) c assms(2) show ?thesis
      by (simp add: list_all_replace)
  next
    case Nobody
    then show ?thesis
      using assms(2) balanced_nobody(1) [OF _ \<open>balanced 1 0 q ts\<close>, of 0] by (simp add: wake_same)
  qed
next
  case One_Full
  then have "notify_one wake_full ts ts'" "balanced 0 1 q ts"
    using assms(1,4) by auto
  then show ?thesis
  proof cases
    case (Wake j)
    then obtain c where c: "ts ! j = Asleep_Full c" "wake_full (ts ! j) = Ready c" "single c" "pushing c"
      using assms(2) single_wake(2) [of "ts ! j"] by (auto simp: list_all_length)
    have "balanced 0 0 q (ts[j := Ready c])"
      using balanced_wake(2) [OF assms(2) Wake(2) c(1,4) \<open>balanced 0 1 q ts\<close>] by simp
    with Wake(1) c assms(2) show ?thesis
      by (simp add: list_all_replace)
  next
    case Nobody
    then show ?thesis
      using assms(2) balanced_nobody(2) [OF _ \<open>balanced 0 1 q ts\<close>, of 0] by (simp add: wake_same)
  qed
next
  case All_Both
  with assms(1) have ts': "ts' = map (wake_full \<circ> wake_empty) ts" by simp
  have "balanced 0 0 q ts'"
    by (auto simp: balanced_def ts' awake)
  with assms(2) ts' show ?thesis
    by (auto simp: list_all_iff single_awake)
qed (use assms in auto)

lemma step_balanced:
  assumes "step s t" "list_all single_thread (threads s)" "balanced 0 0 (queue s) (threads s)"
  shows "list_all single_thread (threads t) \<and> balanced 0 0 (queue t) (threads t)"
proof -
  have at: "single_thread (threads s ! i)" if "i < length (threads s)" for i
    using assms(2) that by (simp add: list_all_length)
  from assms(1) show ?thesis
  proof cases
    case (Section i c q k sg)
    have c: "single c"
      using at [OF Section(2)] Section(3) by simp
    have "balanced 0 0 q ((threads s)[i := leave k sg])"
      using single_section(2-6) [OF Section(4) c] Section(3)
      by (intro balanced_replace [OF assms(3) Section(2)]) auto
    with assms(2) single_section(1) [OF Section(4) c] show ?thesis
      by (simp add: Section(1) list_all_replace)
  next
    case (Notify i sg k ts)
    have k: "sg \<notin> {All_Empty, All_Full}" "\<exists>r. resume k = Finished r"
      using at [OF Notify(2)] Notify(3) by auto
    have "list_all single_thread ((threads s)[i := resume k])"
      using assms(2) k(2) by (auto intro: list_all_replace)
    moreover have "balanced (of_bool (sg = One_Empty)) (of_bool (sg = One_Full)) (queue s) ((threads s)[i := resume k]) \<or>
        sg = All_Both"
    proof (cases "sg = All_Both")
      case False
      have "balanced (of_bool (sg = One_Empty)) (of_bool (sg = One_Full)) (queue s) ((threads s)[i := resume k])"
        using k False Notify(3)
        by (intro balanced_replace [OF assms(3) Notify(2)]) (cases sg; auto)+
      then show ?thesis ..
    qed simp
    ultimately have "list_all single_thread ts \<and> balanced 0 0 (queue s) ts"
      using notify_balanced [OF Notify(4) _ k(1)] by blast
    then show ?thesis
      by (simp add: Notify(1))
  next
    case (Timeout i b)
    have "balanced 0 0 (queue s) ((threads s)[i := Ready (Pop_Timed True)])"
      using balanced_wake(1) [OF assms(2) Timeout(2,3) _ assms(3), of "Pop_Timed True"] by simp
    with assms(2) show ?thesis
      by (simp add: Timeout(1) list_all_replace)
  next
    case (Spurious_Empty i c)
    have c: "single c" "taking c"
      using at [OF Spurious_Empty(2)] Spurious_Empty(3) by auto
    have "balanced 0 0 (queue s) ((threads s)[i := Ready c])"
      using balanced_wake(1) [OF assms(2) Spurious_Empty(2,3) c(2) assms(3)] by simp
    with assms(2) c show ?thesis
      by (simp add: Spurious_Empty(1) list_all_replace)
  next
    case (Spurious_Full i c)
    have c: "single c" "pushing c"
      using at [OF Spurious_Full(2)] Spurious_Full(3) by auto
    have "balanced 0 0 (queue s) ((threads s)[i := Ready c])"
      using balanced_wake(2) [OF assms(2) Spurious_Full(2,3) c(2) assms(3)] by simp
    with assms(2) c show ?thesis
      by (simp add: Spurious_Full(1) list_all_replace)
  qed
qed

lemma steps_balanced:
  "steps s t \<Longrightarrow> list_all single_thread (threads s) \<Longrightarrow> balanced 0 0 (queue s) (threads s) \<Longrightarrow>
     list_all single_thread (threads t) \<and> balanced 0 0 (queue t) (threads t)"
  by (induction rule: rtranclp_induct) (auto dest: step_balanced)

lemma initial_balanced: "list_all single cs \<Longrightarrow>
  list_all single_thread (threads (initial q cs)) \<and> balanced 0 0 (queue (initial q cs)) (threads (initial q cs))"
  by (auto simp: initial_def balanced_def list_all_iff)

text \<open>Nobody is left to do anything without being woken up.\<close>

fun resting :: "'a thread \<Rightarrow> bool" where
  "resting (Asleep_Empty c) = True"
| "resting (Asleep_Full c) = True"
| "resting (Finished r) = True"
| "resting _ = False"

lemma resting_weights: "list_all resting ts \<Longrightarrow> sum_list (map takers ts) = 0 \<and> sum_list (map pushers ts) = 0 \<and>
  \<not> (\<exists>t \<in> set ts. closing t)"
proof (induction ts)
  case (Cons t ts)
  then show ?case by (cases t) auto
qed simp

section \<open>Schedules\<close>

text \<open>A schedule picks the thread that moves, and the thread that a notification wakes.\<close>

datatype choice = Run nat | Tell nat nat

fun perform :: "choice \<Rightarrow> 'a system \<Rightarrow> 'a system option" where
  "perform (Run i) s =
     (if i < length (threads s) then
        (case threads s ! i of
           Ready c \<Rightarrow>
             (case critical c (queue s) of
                (q, k, sg) \<Rightarrow>
                  Some (s\<lparr>queue := q, threads := (threads s)[i := leave k sg],
                    entered := entered s @ drop (length (m_queue (queue s))) (m_queue q),
                    departed := departed s @ take (length (m_queue (queue s)) - length (m_queue q)) (m_queue (queue s))\<rparr>))
         | _ \<Rightarrow> None)
      else None)"
| "perform (Tell i j) s =
     (if i < length (threads s) then
        (case threads s ! i of
           Signalling sg k \<Rightarrow>
             (let ts = (threads s)[i := resume k] in
                case sg of
                  No_Signal \<Rightarrow> Some (s\<lparr>threads := ts\<rparr>)
                | One_Empty \<Rightarrow>
                    if j < length ts \<and> asleep_empty (ts ! j) then Some (s\<lparr>threads := ts[j := wake_empty (ts ! j)]\<rparr>)
                    else if list_ex asleep_empty ts then None else Some (s\<lparr>threads := ts\<rparr>)
                | One_Full \<Rightarrow>
                    if j < length ts \<and> asleep_full (ts ! j) then Some (s\<lparr>threads := ts[j := wake_full (ts ! j)]\<rparr>)
                    else if list_ex asleep_full ts then None else Some (s\<lparr>threads := ts\<rparr>)
                | All_Empty \<Rightarrow> Some (s\<lparr>threads := map wake_empty ts\<rparr>)
                | All_Full \<Rightarrow> Some (s\<lparr>threads := map wake_full ts\<rparr>)
                | All_Both \<Rightarrow> Some (s\<lparr>threads := map wake_full (map wake_empty ts)\<rparr>))
         | _ \<Rightarrow> None)
      else None)"

fun perform_all :: "choice list \<Rightarrow> 'a system \<Rightarrow> 'a system option" where
  "perform_all [] s = Some s"
| "perform_all (m # ms) s = perform m s \<bind> perform_all ms"

lemma notify_one_chosen:
  "j < length ts \<Longrightarrow> wake (ts ! j) \<noteq> ts ! j \<Longrightarrow> ts' = ts[j := wake (ts ! j)] \<Longrightarrow> notify_one wake ts ts'"
  by (simp add: notify_one.Wake)

lemma notify_one_nobody:
  "\<forall>t \<in> set ts. \<not> asleep_empty t \<Longrightarrow> notify_one wake_empty ts ts"
  "\<forall>t \<in> set ts. \<not> asleep_full t \<Longrightarrow> notify_one wake_full ts ts"
  by (rule notify_one.Nobody; simp add: wake_same)+

lemma perform_step: "perform m s = Some t \<Longrightarrow> step s t"
proof (cases m)
  case (Run i)
  assume "perform m s = Some t"
  with Run show ?thesis
    by (auto split: if_splits thread.splits prod.splits intro: step.Section)
next
  case (Tell i j)
  assume "perform m s = Some t"
  with Tell obtain sg k where i: "i < length (threads s)" "threads s ! i = Signalling sg k"
    by (auto split: if_splits thread.splits)
  let ?ts = "(threads s)[i := resume k]"
  have "\<exists>ts. notify sg ?ts ts \<and> t = s\<lparr>threads := ts\<rparr>"
    using \<open>perform m s = Some t\<close> Tell i
    by (cases sg)
       (auto simp: Let_def wake_same list_ex_iff split: if_splits
         intro!: notify_one_chosen [where j = j],
        (rule exI [of _ ?ts], simp add: notify_one_nobody)+)
  with i show ?thesis
    by (auto intro: step.Notify)
qed

lemma perform_steps: "perform_all ms s = Some t \<Longrightarrow> steps s t"
  by (induction ms arbitrary: s)
     (auto dest: perform_step intro: converse_rtranclp_into_rtranclp split: Option.bind_splits)

section \<open>Properties of the queue\<close>

lemma no_set_max_closed: "closed_calls (\<lambda>c :: 'a call. \<forall>n. c \<noteq> Set_Max_Size n)"
proof -
  have "cont_calls (\<lambda>c. \<forall>n. c \<noteq> Set_Max_Size n) k" if "critical c q = (q', k, sg)" for c and q q' :: "'a MpmcBoundedQueue" and k sg
  proof (cases c)
    case (Pop_Nums nums acc)
    with that have "pop_nums_loop nums acc (m_queue q) q = (q', k, sg)" by simp
    then show ?thesis by (rule pop_nums_loop_cases) auto
  next
    case (Try_Pop_Nums nums)
    with that have "try_pop_loop nums [] (m_queue q) q = (q', k, sg)" by simp
    then show ?thesis by (rule try_pop_loop_cases) auto
  qed (use that in \<open>auto simp: section_defs split: if_splits list.splits\<close>)
  then show ?thesis
    unfolding closed_calls_def by blast
qed

lemma steps_bound:
  assumes "steps s t" "list_all (thread_calls (\<lambda>c. \<forall>n. c \<noteq> Set_Max_Size n)) (threads s)"
    and "length (m_queue (queue s)) \<le> unat (m_max_size (queue s))"
  shows "list_all (thread_calls (\<lambda>c. \<forall>n. c \<noteq> Set_Max_Size n)) (threads t) \<and>
    m_max_size (queue t) = m_max_size (queue s) \<and> length (m_queue (queue t)) \<le> unat (m_max_size (queue t))"
  using assms
proof (induction rule: rtranclp_induct)
  case (step t u)
  then have t: "list_all (thread_calls (\<lambda>c. \<forall>n. c \<noteq> Set_Max_Size n)) (threads t)"
    "m_max_size (queue t) = m_max_size (queue s)" "length (m_queue (queue t)) \<le> unat (m_max_size (queue t))"
    by auto
  have "m_max_size (queue u) = m_max_size (queue t) \<and> length (m_queue (queue u)) \<le> unat (m_max_size (queue u))"
    using step.hyps(2)
  proof cases
    case (Section i c q k sg)
    have "thread_calls (\<lambda>c. \<forall>n. c \<noteq> Set_Max_Size n) (threads t ! i)"
      using t(1) Section(2) by (simp add: list_all_length)
    with critical_bound [OF Section(4)] Section(1,3) t(3) show ?thesis
      by simp
  qed (use t(3) in simp_all)
  with step_calls [OF step.hyps(2) no_set_max_closed t(1)] t(2) show ?case
    by metis
qed simp

text \<open>C36: Under every interleaving of any calls, the elements leave the queue in the order in which they
  entered it, and while the queue is open no element is lost or duplicated: those in the queue
  and those in the calls and results of the threads are the ones there were at the start.\<close>

theorem mpmc_conserves_elements:
  assumes "steps (initial q cs) s"
  shows "entered s = departed s @ m_queue (queue s) \<and>
    (m_is_running (queue s) \<longrightarrow>
       mset (m_queue (queue s)) + sum_list (map goods_thread (threads s)) =
       mset (m_queue q) + sum_list (map goods_call cs))"
proof -
  have "all_goods (initial q cs) = mset (m_queue q) + sum_list (map goods_call cs)"
    by (simp add: all_goods_def initial_def comp_def)
  moreover have "entered s = departed s @ m_queue (queue s)"
    using steps_fifo [OF assms] by (simp add: initial_def)
  ultimately show ?thesis
    using steps_goods [OF assms] by (simp add: all_goods_def)
qed

theorem mpmc_conserves_elements_witness:
  "\<exists>s. steps (initial (new_queue 2) [Push (1 :: int), Pop]) s \<and> departed s = [1] \<and>
     entered s = departed s @ m_queue (queue s) \<and>
     mset (m_queue (queue s)) + sum_list (map goods_thread (threads s)) =
     mset (m_queue (new_queue 2)) + sum_list (map goods_call [Push (1 :: int), Pop])"
proof -
  obtain s where s: "perform_all [Run 0, Tell 0 1, Run 1] (initial (new_queue 2) [Push (1 :: int), Pop]) = Some s"
    "departed s = [1]" "m_is_running (queue s)"
    by (simp add: initial_def new_queue_def section_defs below_max_def)
  from mpmc_conserves_elements [OF perform_steps [OF s(1)]] perform_steps [OF s(1)] s(2,3) show ?thesis
    by blast
qed

text \<open>Without \<open>set_max_size\<close>, a queue never holds more elements than its maximum, whatever the
  threads call and however they are interleaved.\<close>

theorem mpmc_bounded:
  assumes "steps (initial q cs) s" "list_all (\<lambda>c. \<forall>n. c \<noteq> Set_Max_Size n) cs"
    and "length (m_queue q) \<le> unat (m_max_size q)"
  shows "length (m_queue (queue s)) \<le> unat (m_max_size q)"
proof -
  have start: "list_all (thread_calls (\<lambda>c. \<forall>n. c \<noteq> Set_Max_Size n)) (threads (initial q cs))"
    "queue (initial q cs) = q"
    using assms(2) by (simp_all add: initial_def list_all_iff)
  from steps_bound [OF assms(1) this(1)] assms(3) show ?thesis
    unfolding start(2) by metis
qed

theorem mpmc_bounded_witness:
  "\<exists>s. steps (initial (new_queue 1) [Push (1 :: int)]) s \<and> m_queue (queue s) = [1] \<and>
     length (m_queue (queue s)) \<le> unat (m_max_size (new_queue 1 :: int MpmcBoundedQueue))"
proof -
  obtain s where s: "perform_all [Run 0] (initial (new_queue 1) [Push (1 :: int)]) = Some s"
    "m_queue (queue s) = [1]"
    by (simp add: initial_def new_queue_def section_defs below_max_def)
  from mpmc_bounded [OF perform_steps [OF s(1)]] perform_steps [OF s(1)] s(2) show ?thesis
    by (auto simp: new_queue_def)
qed

text \<open>C33: Among threads that push and pop single elements, with time limits or not, query and close
  the queue, no wake-up is lost: when nobody can move without being woken, a thread sleeps for an
  element only if the queue is open and empty, and for room only if it is open and full.\<close>

theorem mpmc_no_lost_wakeup:
  assumes "list_all single cs" "steps (initial q cs) s" "list_all resting (threads s)"
    and "t \<in> set (threads s)"
  shows "(asleep_empty t \<longrightarrow> m_is_running (queue s) \<and> m_queue (queue s) = []) \<and>
    (asleep_full t \<longrightarrow> m_is_running (queue s) \<and> unat (m_max_size (queue s)) \<le> length (m_queue (queue s)))"
  using steps_balanced [OF assms(2)] initial_balanced [OF assms(1), of q] resting_weights [OF assms(3)] assms(4)
  by (auto simp: balanced_def)

theorem mpmc_no_lost_wakeup_witness:
  "\<exists>s. steps (initial (new_queue 1) [Pop :: int call]) s \<and> Asleep_Empty Pop \<in> set (threads s) \<and>
     m_is_running (queue s) \<and> m_queue (queue s) = []"
proof -
  obtain s where s: "perform_all [Run 0] (initial (new_queue 1) [Pop :: int call]) = Some s"
    "threads s = [Asleep_Empty Pop]"
    by (simp add: initial_def new_queue_def section_defs)
  from mpmc_no_lost_wakeup [OF _ perform_steps [OF s(1)], of "Asleep_Empty Pop"] perform_steps [OF s(1)] s(2)
  show ?thesis by auto
qed

text \<open>The other calls do lose wake-ups. \<open>front\<close> swallows the notification meant for a \<open>pop\<close>,
  \<open>try_pop(nums)\<close> of more elements than there are does not tell a waiting producer, and
  \<open>pop(nums)\<close> of more elements than the queue holds waits for a producer that waits for room.
  Everybody sleeps for good although there is an element, or room.\<close>

theorem mpmc_lost_wakeups:
  "(\<exists>s. steps (initial (new_queue 2) [Front, Pop, Push x]) s \<and>
      threads s = [Finished (Peeked (Some x)), Asleep_Empty Pop, Finished (Flag True)] \<and> m_queue (queue s) = [x]) \<and>
   (\<exists>s. steps (initial (new_queue 1) [Push x, Push y, Try_Pop_Nums 2]) s \<and>
      threads s = [Finished (Flag True), Asleep_Full (Push y), Finished (Popped_List [x])] \<and>
      m_queue (queue s) = [] \<and> below_max (queue s)) \<and>
   (\<exists>s. steps (initial (new_queue 1) [Push x, Push y, Pop_Nums 2 []]) s \<and>
      threads s = [Finished (Flag True), Asleep_Full (Push y), Asleep_Empty (Pop_Nums 2 [x])] \<and>
      m_queue (queue s) = [] \<and> below_max (queue s))"
proof (intro conjI)
  obtain s where "perform_all [Run 0, Run 1, Run 2, Tell 2 0, Run 0, Tell 0 0]
      (initial (new_queue 2) [Front, Pop, Push x]) = Some s \<and>
      threads s = [Finished (Peeked (Some x)), Asleep_Empty Pop, Finished (Flag True)] \<and> m_queue (queue s) = [x]"
    by (simp add: initial_def new_queue_def section_defs below_max_def)
  then show "\<exists>s. steps (initial (new_queue 2) [Front, Pop, Push x]) s \<and>
      threads s = [Finished (Peeked (Some x)), Asleep_Empty Pop, Finished (Flag True)] \<and> m_queue (queue s) = [x]"
    using perform_steps by blast
next
  obtain s where "perform_all [Run 0, Tell 0 0, Run 1, Run 2, Tell 2 0]
      (initial (new_queue 1) [Push x, Push y, Try_Pop_Nums 2]) = Some s \<and>
      threads s = [Finished (Flag True), Asleep_Full (Push y), Finished (Popped_List [x])] \<and>
      m_queue (queue s) = [] \<and> below_max (queue s)"
    by (simp add: initial_def new_queue_def section_defs below_max_def)
  then show "\<exists>s. steps (initial (new_queue 1) [Push x, Push y, Try_Pop_Nums 2]) s \<and>
      threads s = [Finished (Flag True), Asleep_Full (Push y), Finished (Popped_List [x])] \<and>
      m_queue (queue s) = [] \<and> below_max (queue s)"
    using perform_steps by blast
next
  obtain s where "perform_all [Run 0, Tell 0 0, Run 1, Run 2]
      (initial (new_queue 1) [Push x, Push y, Pop_Nums 2 []]) = Some s \<and>
      threads s = [Finished (Flag True), Asleep_Full (Push y), Asleep_Empty (Pop_Nums 2 [x])] \<and>
      m_queue (queue s) = [] \<and> below_max (queue s)"
    by (simp add: initial_def new_queue_def section_defs below_max_def)
  then show "\<exists>s. steps (initial (new_queue 1) [Push x, Push y, Pop_Nums 2 []]) s \<and>
      threads s = [Finished (Flag True), Asleep_Full (Push y), Asleep_Empty (Pop_Nums 2 [x])] \<and>
      m_queue (queue s) = [] \<and> below_max (queue s)"
    using perform_steps by blast
qed

text \<open>\<open>pop(nums)\<close> that is woken by \<open>close\<close> throws away what it has already popped: the
  element has left the queue, and nobody has it.\<close>

theorem mpmc_close_drops_elements:
  "\<exists>s. steps (initial (new_queue 2) [Push x, Pop_Nums 2 [], Close]) s \<and>
     threads s = [Finished (Flag True), Finished (Popped_Nums None), Finished Finished_Call] \<and>
     m_queue (queue s) = [] \<and> departed s = [x]"
proof -
  obtain s where "perform_all [Run 0, Tell 0 0, Run 1, Run 2, Tell 2 0, Run 1, Tell 1 0]
      (initial (new_queue 2) [Push x, Pop_Nums 2 [], Close]) = Some s \<and>
      threads s = [Finished (Flag True), Finished (Popped_Nums None), Finished Finished_Call] \<and>
      m_queue (queue s) = [] \<and> departed s = [x]"
    by (simp add: initial_def new_queue_def section_defs below_max_def)
  then show ?thesis
    using perform_steps by blast
qed

section \<open>The queue of one thread\<close>

text \<open>The calls that do not wait, as operations of the contract.\<close>

definition push_now :: "'a \<Rightarrow> 'a MpmcBoundedQueue \<Rightarrow> 'a MpmcBoundedQueue" where
  "push_now x q = fst (critical (Push x) q)"

definition try_pop_now :: "'a MpmcBoundedQueue \<Rightarrow> 'a option \<times> 'a MpmcBoundedQueue" where
  "try_pop_now q =
     (case critical Try_Pop q of (q', Return (Popped a), sg) \<Rightarrow> (a, q') | (q', _, _) \<Rightarrow> (None, q'))"

interpretation mpmc: fifo_queue "\<lambda>_. True" m_queue "\<lambda>q. m_is_running q \<and> below_max q" push_now try_pop_now
  by unfold_locales (auto simp: push_now_def try_pop_now_def push_section_def)

lemma mpmc_calls_fifo:
  "mpmc.run_calls cs q = (ins, outs, q') \<Longrightarrow> m_queue q @ ins = outs @ m_queue q'"
  using mpmc.run_calls_fifo by blast

lemma move_keeps_elements:
  "m_queue (fst (move_assign a b)) = m_queue b" "m_max_size (fst (move_assign a b)) = m_max_size a"
  "m_queue (fst (move_construct b)) = m_queue b" "m_max_size (fst (move_construct b)) = 0"
  by (simp_all add: move_assign_def move_construct_def)

text \<open>A queue made by the move constructor has no capacity: while it is open, every \<open>push\<close> waits
  for room, and \<open>is_full\<close> holds even if it is empty; its elements can still be taken.\<close>

theorem moved_queue_blocks:
  "case move_construct q of (moved, rest) \<Rightarrow>
     m_queue moved = m_queue q \<and> critical Is_Full moved = (moved, Return (Flag True), No_Signal) \<and>
     critical (Push x) moved =
       (moved, if m_is_running q then Wait_Full (Push x) else Return (Flag False), No_Signal) \<and>
     m_queue rest = [] \<and> critical (Push x) rest = (rest, Return (Flag False), No_Signal)"
  by (simp add: move_construct_def push_section_def below_max_def)

end
