(* ===== verification/Mail_Box.thy ===== *)
theory Mail_Box
  imports Mpmc_Queue
begin

text \<open>
  The mail box between the reactor and the business threads, \<open>network/runtime/reactor_mail_box\<close>:
  one blocking queue of frames to the server and a queue of frames for every connected client.
  Its mutex makes every operation on the client queues atomic. Of the event handle the number of
  \<open>write(1)\<close> calls is kept, which is what the event descriptor counts.
\<close>

section \<open>State\<close>

record PosixFrame =
  connect_id :: u64
  frame_data :: bytes

record ReactorMailBox =
  m_event_handle :: "nat option"
  m_to_server_frame_queue :: "PosixFrame MpmcBoundedQueue"
  m_to_client_queues :: "u64 \<Rightarrow> PosixFrame list option"

text \<open>The constructor assigns a queue made with 128 to the member, a queue made by default.\<close>

definition new_mail_box :: ReactorMailBox where
  "new_mail_box =
     (let member = new_queue 50
      in \<lparr>m_event_handle = None, m_to_server_frame_queue = fst (move_assign member (new_queue 128)),
          m_to_client_queues = Map.empty\<rparr>)"

definition set_event_handle :: "nat option \<Rightarrow> ReactorMailBox \<Rightarrow> ReactorMailBox" where
  "set_event_handle event_handle b = b\<lparr>m_event_handle := event_handle\<rparr>"

section \<open>Frames to clients\<close>

definition add_to_client_queue :: "u64 \<Rightarrow> ReactorMailBox \<Rightarrow> ReactorMailBox" where
  "add_to_client_queue cid b = b\<lparr>m_to_client_queues := (m_to_client_queues b)(cid \<mapsto> [])\<rparr>"

definition remove_to_client_queue :: "u64 \<Rightarrow> ReactorMailBox \<Rightarrow> ReactorMailBox" where
  "remove_to_client_queue cid b =
     (case m_to_client_queues b cid of
        None \<Rightarrow> b
      | Some q \<Rightarrow> b\<lparr>m_to_client_queues := (m_to_client_queues b)(cid := None)\<rparr>)"

definition push_to_client_frame :: "PosixFrame \<Rightarrow> ReactorMailBox \<Rightarrow> ReactorMailBox" where
  "push_to_client_frame frame b =
     (case m_to_client_queues b (connect_id frame) of
        None \<Rightarrow> b
      | Some q \<Rightarrow>
          let b = b\<lparr>m_to_client_queues := (m_to_client_queues b)(connect_id frame \<mapsto> q @ [frame])\<rparr>
          in case m_event_handle b of
               Some writes \<Rightarrow> b\<lparr>m_event_handle := Some (writes + 1)\<rparr>
             | None \<Rightarrow> b)"

definition pop_from_to_client_queue :: "u64 \<Rightarrow> ReactorMailBox \<Rightarrow> PosixFrame option \<times> ReactorMailBox" where
  "pop_from_to_client_queue cid b =
     (case m_to_client_queues b cid of
        None \<Rightarrow> (None, b)
      | Some [] \<Rightarrow> (None, b)
      | Some (frame # rest) \<Rightarrow>
          (Some frame, b\<lparr>m_to_client_queues := (m_to_client_queues b)(cid \<mapsto> rest)\<rparr>))"

section \<open>Frames to the server\<close>

text \<open>A call on the queue up to its return or to its first wait.\<close>

definition server_call ::
  "PosixFrame call \<Rightarrow> ReactorMailBox \<Rightarrow> PosixFrame continuation \<times> signal \<times> ReactorMailBox" where
  "server_call c b =
     (case critical c (m_to_server_frame_queue b) of
        (q, k, sg) \<Rightarrow> (k, sg, b\<lparr>m_to_server_frame_queue := q\<rparr>))"

definition push_to_server_frame ::
  "PosixFrame \<Rightarrow> ReactorMailBox \<Rightarrow> PosixFrame continuation \<times> signal \<times> ReactorMailBox" where
  "push_to_server_frame frame b = server_call (Push frame) b"

text \<open>The frames that are still to be pushed when the loop has to wait, and none when it ends.\<close>

fun push_to_server_frames :: "PosixFrame list \<Rightarrow> ReactorMailBox \<Rightarrow> PosixFrame list \<times> ReactorMailBox" where
  "push_to_server_frames [] b = ([], b)"
| "push_to_server_frames (frame # frames) b =
     (case push_to_server_frame frame b of
        (Return r, sg, b') \<Rightarrow> push_to_server_frames frames b'
      | (_, sg, b') \<Rightarrow> (frame # frames, b'))"

definition pop_from_to_server_frame :: "ReactorMailBox \<Rightarrow> PosixFrame continuation \<times> signal \<times> ReactorMailBox" where
  "pop_from_to_server_frame b = server_call Pop b"

definition try_pop_from_to_server_queue ::
  "ReactorMailBox \<Rightarrow> PosixFrame continuation \<times> signal \<times> ReactorMailBox" where
  "try_pop_from_to_server_queue b = server_call Try_Pop b"

definition stop :: "ReactorMailBox \<Rightarrow> PosixFrame continuation \<times> signal \<times> ReactorMailBox" where
  "stop b = server_call Close b"

section \<open>The queue of a client\<close>

definition client_inv :: "u64 \<Rightarrow> ReactorMailBox \<Rightarrow> bool" where
  "client_inv cid b \<longleftrightarrow> (\<forall>q. m_to_client_queues b cid = Some q \<longrightarrow> (\<forall>f \<in> set q. connect_id f = cid))"

definition client_contents :: "u64 \<Rightarrow> ReactorMailBox \<Rightarrow> bytes list" where
  "client_contents cid b = (case m_to_client_queues b cid of Some q \<Rightarrow> map frame_data q | None \<Rightarrow> [])"

definition send_to :: "u64 \<Rightarrow> bytes \<Rightarrow> ReactorMailBox \<Rightarrow> ReactorMailBox" where
  "send_to cid d b = push_to_client_frame \<lparr>connect_id = cid, frame_data = d\<rparr> b"

definition receive_for :: "u64 \<Rightarrow> ReactorMailBox \<Rightarrow> bytes option \<times> ReactorMailBox" where
  "receive_for cid b = (case pop_from_to_client_queue cid b of (f, b') \<Rightarrow> (map_option frame_data f, b'))"

lemma push_client_queues:
  "m_to_client_queues (push_to_client_frame f b) =
     (case m_to_client_queues b (connect_id f) of
        None \<Rightarrow> m_to_client_queues b
      | Some q \<Rightarrow> (m_to_client_queues b)(connect_id f \<mapsto> q @ [f]))"
  by (simp add: push_to_client_frame_def Let_def split: option.split)

lemma pop_client_queues:
  "pop_from_to_client_queue cid b = (x, b') \<Longrightarrow>
     m_to_client_queues b' =
       (case m_to_client_queues b cid of
          Some (f # fs) \<Rightarrow> (m_to_client_queues b)(cid \<mapsto> fs) | _ \<Rightarrow> m_to_client_queues b) \<and>
     x = (case m_to_client_queues b cid of Some (f # fs) \<Rightarrow> Some f | _ \<Rightarrow> None)"
  by (auto simp: pop_from_to_client_queue_def split: option.splits list.splits)

lemma add_client_queues:
  "m_to_client_queues (add_to_client_queue cid b) = (m_to_client_queues b)(cid \<mapsto> [])"
  by (simp add: add_to_client_queue_def)

lemma remove_client_queues:
  "m_to_client_queues (remove_to_client_queue cid b) = (m_to_client_queues b)(cid := None)"
  by (auto simp: remove_to_client_queue_def split: option.split)

interpretation client: fifo_queue "client_inv cid" "client_contents cid"
  "\<lambda>b. m_to_client_queues b cid \<noteq> None" "send_to cid" "receive_for cid" for cid
proof
  fix b :: ReactorMailBox and x y :: bytes and ys
  assume inv: "client_inv cid b"
  show "client_inv cid (send_to cid x b)"
    using inv by (auto simp: client_inv_def send_to_def push_client_queues split: option.splits)
  show "client_contents cid (send_to cid x b) =
      (if m_to_client_queues b cid \<noteq> None then client_contents cid b @ [x] else client_contents cid b)"
    by (auto simp: client_contents_def send_to_def push_client_queues split: option.splits)
  obtain r b' where p: "pop_from_to_client_queue cid b = (r, b')" by fastforce
  note q = pop_client_queues [OF p]
  show "client_inv cid (snd (receive_for cid b))"
    using inv p q by (auto simp: client_inv_def receive_for_def split: option.splits list.splits)
  show "client_contents cid b = [] \<Longrightarrow> fst (receive_for cid b) = None \<and> client_contents cid (snd (receive_for cid b)) = []"
    using p q by (auto simp: client_contents_def receive_for_def split: option.splits list.splits)
  show "client_contents cid b = y # ys \<Longrightarrow>
      fst (receive_for cid b) = Some y \<and> client_contents cid (snd (receive_for cid b)) = ys"
    using p q by (auto simp: client_contents_def receive_for_def split: option.splits list.splits)
qed

text \<open>A history of the mail box, with the frames it handed out and the frames sent to a client.\<close>

datatype mail_call = Connect u64 | Disconnect u64 | Send PosixFrame | Receive u64

fun mail_step :: "mail_call \<Rightarrow> ReactorMailBox \<Rightarrow> PosixFrame option \<times> ReactorMailBox" where
  "mail_step (Connect cid) b = (None, add_to_client_queue cid b)"
| "mail_step (Disconnect cid) b = (None, remove_to_client_queue cid b)"
| "mail_step (Send f) b = (None, push_to_client_frame f b)"
| "mail_step (Receive cid) b = pop_from_to_client_queue cid b"

fun mail_run :: "mail_call list \<Rightarrow> ReactorMailBox \<Rightarrow> PosixFrame list \<times> ReactorMailBox" where
  "mail_run [] b = ([], b)"
| "mail_run (c # cs) b =
     (case mail_step c b of
        (f, b') \<Rightarrow> (case mail_run cs b' of (fs, b'') \<Rightarrow> (case f of Some x \<Rightarrow> x # fs | None \<Rightarrow> fs, b'')))"

fun sent_to :: "u64 \<Rightarrow> mail_call list \<Rightarrow> PosixFrame list" where
  "sent_to cid [] = []"
| "sent_to cid (Send f # cs) = (if connect_id f = cid then f # sent_to cid cs else sent_to cid cs)"
| "sent_to cid (c # cs) = sent_to cid cs"

lemma mail_step_client:
  assumes "m_to_client_queues b cid = Some q" "\<forall>i. client_inv i b" "c \<noteq> Connect cid" "c \<noteq> Disconnect cid"
    and "mail_step c b = (f, b')"
  shows "\<forall>i. client_inv i b'"
    and "\<exists>q'. m_to_client_queues b' cid = Some q' \<and>
      q @ sent_to cid [c] = filter (\<lambda>f. connect_id f = cid) (case f of Some x \<Rightarrow> [x] | None \<Rightarrow> []) @ q'"
proof -
  have "(\<forall>i. client_inv i b') \<and> (\<exists>q'. m_to_client_queues b' cid = Some q' \<and>
      q @ sent_to cid [c] = filter (\<lambda>f. connect_id f = cid) (case f of Some x \<Rightarrow> [x] | None \<Rightarrow> []) @ q')"
  proof (cases c)
    case (Connect i)
    with assms show ?thesis
      by (auto simp: add_client_queues client_inv_def split: if_splits)
  next
    case (Disconnect i)
    with assms show ?thesis
      by (auto simp: remove_client_queues client_inv_def split: if_splits)
  next
    case (Send g)
    with assms show ?thesis
      by (auto simp: push_client_queues client_inv_def split: option.splits if_splits)
  next
    case (Receive i)
    with assms(5) have p: "pop_from_to_client_queue i b = (f, b')" by simp
    consider (Nothing) "m_to_client_queues b i = None \<or> m_to_client_queues b i = Some []"
      | (Frame) g gs where "m_to_client_queues b i = Some (g # gs)"
      by (metis list.exhaust option.exhaust)
    then show ?thesis
    proof cases
      case Nothing
      with pop_client_queues [OF p] have "m_to_client_queues b' = m_to_client_queues b" "f = None"
        by auto
      with assms(1,2) Receive show ?thesis by (simp add: client_inv_def)
    next
      case Frame
      with pop_client_queues [OF p] have b': "m_to_client_queues b' = (m_to_client_queues b)(i \<mapsto> gs)" "f = Some g"
        by auto
      have g: "connect_id g = i" "\<forall>f \<in> set gs. connect_id f = i"
        using assms(2) Frame by (auto simp: client_inv_def)
      then have "\<forall>i. client_inv i b'"
        using assms(2) b'(1) by (simp add: client_inv_def)
      moreover have "\<exists>q'. m_to_client_queues b' cid = Some q' \<and> q = filter (\<lambda>f. connect_id f = cid) [g] @ q'"
        using assms(1) Frame b'(1) g(1) by (cases "i = cid") simp_all
      ultimately show ?thesis
        using Receive b'(2) by simp
    qed
  qed
  then show "\<forall>i. client_inv i b'" "\<exists>q'. m_to_client_queues b' cid = Some q' \<and>
      q @ sent_to cid [c] = filter (\<lambda>f. connect_id f = cid) (case f of Some x \<Rightarrow> [x] | None \<Rightarrow> []) @ q'"
    by blast+
qed

lemma sent_to_Cons: "sent_to cid (c # cs) = sent_to cid [c] @ sent_to cid cs"
  by (cases c) simp_all

lemma mail_run_client:
  assumes "m_to_client_queues b cid = Some q" "\<forall>i. client_inv i b"
    and "Connect cid \<notin> set cs" "Disconnect cid \<notin> set cs" "mail_run cs b = (fs, b')"
  shows "\<exists>q'. m_to_client_queues b' cid = Some q' \<and> q @ sent_to cid cs = filter (\<lambda>f. connect_id f = cid) fs @ q'"
  using assms
proof (induction cs arbitrary: b q fs)
  case Nil
  then show ?case by simp
next
  case (Cons c cs)
  obtain f b1 where s: "mail_step c b = (f, b1)" by fastforce
  obtain fs1 where r: "mail_run cs b1 = (fs1, b')" "fs = (case f of Some x \<Rightarrow> [x] | None \<Rightarrow> []) @ fs1"
    using Cons.prems(5) s by (auto split: prod.splits option.splits)
  have c: "c \<noteq> Connect cid" "c \<noteq> Disconnect cid" "Connect cid \<notin> set cs" "Disconnect cid \<notin> set cs"
    using Cons.prems(3,4) by auto
  obtain q1 where q1: "m_to_client_queues b1 cid = Some q1"
    "q @ sent_to cid [c] = filter (\<lambda>f. connect_id f = cid) (case f of Some x \<Rightarrow> [x] | None \<Rightarrow> []) @ q1"
    using mail_step_client(2) [OF Cons.prems(1,2) c(1,2) s] by blast
  obtain q' where q': "m_to_client_queues b' cid = Some q'"
    "q1 @ sent_to cid cs = filter (\<lambda>f. connect_id f = cid) fs1 @ q'"
    using Cons.IH [OF q1(1) mail_step_client(1) [OF Cons.prems(1,2) c(1,2) s] c(3,4) r(1)] by blast
  have "q @ sent_to cid (c # cs) = (q @ sent_to cid [c]) @ sent_to cid cs"
    by (subst sent_to_Cons) simp
  also have "\<dots> = filter (\<lambda>f. connect_id f = cid) fs @ q'"
    using q1(2) q'(2) r(2) by simp
  finally show ?case
    using q'(1) by blast
qed

text \<open>From the moment a client is connected until it is disconnected or connected again, the frames
  taken for it and those still in its queue are the frames sent to it, in order, whatever is
  sent to, taken for and done with other clients in between.\<close>

theorem client_frames_in_order:
  assumes "\<forall>i. client_inv i b" "Connect cid \<notin> set cs" "Disconnect cid \<notin> set cs"
    and "mail_run cs (add_to_client_queue cid b) = (fs, b')"
  shows "\<exists>q'. m_to_client_queues b' cid = Some q' \<and> sent_to cid cs = filter (\<lambda>f. connect_id f = cid) fs @ q'"
proof -
  have "\<forall>i. client_inv i (add_to_client_queue cid b)"
    using assms(1) by (simp add: client_inv_def add_client_queues)
  from mail_run_client [OF _ this assms(2-4), of "[]"] show ?thesis
    by (simp add: add_client_queues)
qed

theorem client_frames_in_order_witness:
  "\<exists>q'. m_to_client_queues (snd (mail_run [Send \<lparr>connect_id = 1, frame_data = [7]\<rparr>, Receive 1]
      (add_to_client_queue 1 new_mail_box))) 1 = Some q' \<and>
    sent_to 1 [Send \<lparr>connect_id = 1, frame_data = [7]\<rparr>, Receive 1] =
      filter (\<lambda>f. connect_id f = 1) (fst (mail_run [Send \<lparr>connect_id = 1, frame_data = [7]\<rparr>, Receive 1]
        (add_to_client_queue 1 new_mail_box))) @ q'"
  by (rule client_frames_in_order [OF _ _ _ prod.collapse [symmetric]])
     (simp_all add: new_mail_box_def client_inv_def Let_def)

text \<open>The queue of a client that is connected a second time is emptied: its frames are lost; a frame
  for a client that is not connected is dropped, and no event is written for it.\<close>

lemma reconnecting_drops_frames:
  "client_contents cid (add_to_client_queue cid b) = []"
  "m_to_client_queues b (connect_id f) = None \<Longrightarrow> push_to_client_frame f b = b"
  "m_to_client_queues b (connect_id f) \<noteq> None \<Longrightarrow>
     m_event_handle (push_to_client_frame f b) = map_option (\<lambda>n. n + 1) (m_event_handle b)"
  by (auto simp: client_contents_def add_client_queues push_to_client_frame_def Let_def split: option.splits)

text \<open>The mail box holds 50 frames to the server, not the 128 that its constructor asks for:
  \<open>operator=\<close> of the queue does not take over the maximum. The 51st of a batch of frames has to wait
  for a consumer.\<close>

theorem mail_box_capacity:
  "m_max_size (m_to_server_frame_queue new_mail_box) = 50 \<and>
   fst (push_to_server_frames (replicate 51 f) new_mail_box) = [f] \<and>
   length (m_queue (m_to_server_frame_queue (snd (push_to_server_frames (replicate 51 f) new_mail_box)))) = 50"
proof -
  have push: "push_to_server_frames (replicate (Suc n) f) b =
      (if below_max (m_to_server_frame_queue b)
       then push_to_server_frames (replicate n f)
         (b\<lparr>m_to_server_frame_queue := (m_to_server_frame_queue b)
           \<lparr>m_queue := m_queue (m_to_server_frame_queue b) @ [f]\<rparr>\<rparr>)
       else (replicate (Suc n) f, b))"
    if "m_is_running (m_to_server_frame_queue b)" for n b
    using that by (simp add: push_to_server_frame_def server_call_def push_section_def)
  have "n \<le> 50 \<Longrightarrow> m_is_running (m_to_server_frame_queue b) \<Longrightarrow> m_max_size (m_to_server_frame_queue b) = 50 \<Longrightarrow>
      length (m_queue (m_to_server_frame_queue b)) = 50 - n \<Longrightarrow>
      fst (push_to_server_frames (replicate (Suc n) f) b) = [f] \<and>
      length (m_queue (m_to_server_frame_queue (snd (push_to_server_frames (replicate (Suc n) f) b)))) = 50" for n b
  proof (induction n arbitrary: b)
    case 0
    then show ?case by (simp add: push below_max_def del: replicate.simps push_to_server_frames.simps) simp
  next
    case (Suc n)
    then show ?case
      by (subst (1 2) push)
         (simp_all add: below_max_def del: replicate.simps push_to_server_frames.simps)
  qed
  from this [of 50 new_mail_box] show ?thesis
    by (simp add: new_mail_box_def new_queue_def move_assign_def Let_def
        del: replicate.simps push_to_server_frames.simps)
qed

end
