(* ===== verification/Posix_Status.thy ===== *)
theory Posix_Status
  imports Prelude "HOL-Library.Multiset"
begin

text \<open>
  Status codes, results and owned descriptors: \<open>common/status/i_status_detail\<close>,
  \<open>posix_status_detail\<close>, \<open>status_code\<close>, \<open>network/status/posix_status_code\<close>,
  \<open>common/result/result.hpp\<close> and \<open>common/handle/unique_handle\<close>.

  The only status detail of the program is the one of Posix, so a \<open>dynamic_cast\<close> to it succeeds.
  The global \<open>errno\<close> is an argument of the functions that read it, and \<open>strerror\<close> a parameter.
  The numbers are those of Linux, the only platform this code is compiled for.
\<close>

section \<open>Status levels\<close>

datatype StatusLevel = Status_Ok | Status_Branch | Status_Error | Status_Unknown

abbreviation EINTR :: int where "EINTR \<equiv> 4"
abbreviation EAGAIN :: int where "EAGAIN \<equiv> 11"
abbreviation EWOULDBLOCK :: int where "EWOULDBLOCK \<equiv> 11"
abbreviation EINPROGRESS :: int where "EINPROGRESS \<equiv> 115"

type_synonym PosixStatusSet = "int list"

definition default_PosixStatusSet :: PosixStatusSet where
  "default_PosixStatusSet = [EAGAIN, EWOULDBLOCK, EINPROGRESS]"

text \<open>The vector goes through a \<open>std::set\<close>, which sorts it and removes duplicates.\<close>

definition PosixStatusSet_of :: "int list \<Rightarrow> PosixStatusSet" where
  "PosixStatusSet_of branch_set = sort (remdups branch_set)"

fun has_status_code :: "PosixStatusSet \<Rightarrow> int \<Rightarrow> bool" where
  "has_status_code [] status_code = False"
| "has_status_code (v # vs) status_code = (if v = status_code then True else has_status_code vs status_code)"

lemma has_status_code_iff: "has_status_code vs e \<longleftrightarrow> e \<in> set vs"
  by (induction vs) auto

lemma PosixStatusSet_of_same: "has_status_code (PosixStatusSet_of vs) e = has_status_code vs e"
  by (simp add: has_status_code_iff PosixStatusSet_of_def)

section \<open>Status details\<close>

record PosixStatusDetail =
  m_status_level :: StatusLevel
  m_branch_set :: PosixStatusSet
  m_error_code :: "int option"
  m_user_message :: "string option"

definition to_status_level :: "PosixStatusSet \<Rightarrow> int \<Rightarrow> StatusLevel" where
  "to_status_level branch_set status_code =
     (if status_code = 0 then Status_Ok
      else if has_status_code branch_set status_code then Status_Branch
      else Status_Error)"

definition detail_of_errno :: "int \<Rightarrow> string option \<Rightarrow> PosixStatusSet \<Rightarrow> PosixStatusDetail" where
  "detail_of_errno errno user_message branch_set =
     \<lparr>m_status_level = to_status_level branch_set errno, m_branch_set = branch_set,
      m_error_code = Some errno, m_user_message = user_message\<rparr>"

definition detail_of_bool :: "bool \<Rightarrow> string option \<Rightarrow> PosixStatusSet \<Rightarrow> PosixStatusDetail" where
  "detail_of_bool is_ok user_message branch_set =
     \<lparr>m_status_level = (if is_ok then Status_Ok else Status_Error), m_branch_set = branch_set,
      m_error_code = None, m_user_message = user_message\<rparr>"

definition detail_of_code :: "int \<Rightarrow> string option \<Rightarrow> PosixStatusSet \<Rightarrow> PosixStatusDetail" where
  "detail_of_code status_code user_message branch_set =
     \<lparr>m_status_level = to_status_level branch_set status_code, m_branch_set = branch_set,
      m_error_code = Some status_code, m_user_message = user_message\<rparr>"

definition detail_of_level :: "StatusLevel \<Rightarrow> string option \<Rightarrow> PosixStatusSet \<Rightarrow> PosixStatusDetail" where
  "detail_of_level status_level user_message branch_set =
     \<lparr>m_status_level = status_level, m_branch_set = branch_set,
      m_error_code = None, m_user_message = user_message\<rparr>"

definition detail_domain :: "PosixStatusDetail \<Rightarrow> string" where
  "detail_domain d = ''PosixStatusDetail''"

definition detail_message :: "(int \<Rightarrow> string) \<Rightarrow> PosixStatusDetail \<Rightarrow> string" where
  "detail_message strerror d =
     (if m_user_message d = None \<and> m_error_code d = None then ''No valid status message''
      else case m_user_message d of
        Some s \<Rightarrow> s
      | None \<Rightarrow> strerror (the (m_error_code d)))"

definition detail_eq :: "PosixStatusDetail \<Rightarrow> PosixStatusDetail \<Rightarrow> bool" where
  "detail_eq lhs rhs \<longleftrightarrow> m_error_code rhs = m_error_code lhs"

definition detail_is_ok :: "PosixStatusDetail \<Rightarrow> bool" where
  "detail_is_ok d \<longleftrightarrow> m_status_level d = Status_Ok"

definition detail_is_error :: "PosixStatusDetail \<Rightarrow> bool" where
  "detail_is_error d \<longleftrightarrow> m_status_level d = Status_Error"

definition detail_is_branch :: "PosixStatusDetail \<Rightarrow> bool" where
  "detail_is_branch d \<longleftrightarrow> m_status_level d = Status_Branch"

section \<open>Status codes\<close>

record StatusCode =
  m_status_detail :: "PosixStatusDetail option"

definition status_message :: "(int \<Rightarrow> string) \<Rightarrow> StatusCode \<Rightarrow> string" where
  "status_message strerror s =
     (case m_status_detail s of None \<Rightarrow> ''Invalid Status'' | Some d \<Rightarrow> detail_message strerror d)"

definition status_is_error :: "StatusCode \<Rightarrow> bool" where
  "status_is_error s = (case m_status_detail s of None \<Rightarrow> False | Some d \<Rightarrow> detail_is_error d)"

definition status_is_ok :: "StatusCode \<Rightarrow> bool" where
  "status_is_ok s = (case m_status_detail s of None \<Rightarrow> False | Some d \<Rightarrow> detail_is_ok d)"

definition status_is_branch :: "StatusCode \<Rightarrow> bool" where
  "status_is_branch s = (case m_status_detail s of None \<Rightarrow> False | Some d \<Rightarrow> detail_is_branch d)"

definition status_is_valid :: "StatusCode \<Rightarrow> bool" where
  "status_is_valid s \<longleftrightarrow> m_status_detail s \<noteq> None"

definition get_status_level :: "StatusCode \<Rightarrow> StatusLevel" where
  "get_status_level s = (case m_status_detail s of None \<Rightarrow> Status_Unknown | Some d \<Rightarrow> m_status_level d)"

definition status_eq :: "StatusCode \<Rightarrow> StatusCode \<Rightarrow> bool" where
  "status_eq s other =
     (case (m_status_detail s, m_status_detail other) of
        (None, None) \<Rightarrow> True
      | (Some d, Some e) \<Rightarrow> detail_eq d e
      | _ \<Rightarrow> False)"

text \<open>The overloads of \<open>make_posix_status_code\<close>, with the default set of branches.\<close>

definition status_of_errno :: "int \<Rightarrow> StatusCode" where
  "status_of_errno errno = \<lparr>m_status_detail = Some (detail_of_errno errno None default_PosixStatusSet)\<rparr>"

definition status_of_bool :: "bool \<Rightarrow> string option \<Rightarrow> StatusCode" where
  "status_of_bool is_ok user_message =
     \<lparr>m_status_detail = Some (detail_of_bool is_ok user_message default_PosixStatusSet)\<rparr>"

definition status_of_code :: "int \<Rightarrow> StatusCode" where
  "status_of_code error_code = \<lparr>m_status_detail = Some (detail_of_code error_code None default_PosixStatusSet)\<rparr>"

definition status_of_level :: "StatusLevel \<Rightarrow> string option \<Rightarrow> StatusCode" where
  "status_of_level status_level user_message =
     \<lparr>m_status_detail = Some (detail_of_level status_level user_message default_PosixStatusSet)\<rparr>"

lemmas status_defs =
  status_of_errno_def status_of_bool_def status_of_code_def status_of_level_def
  detail_of_errno_def detail_of_bool_def detail_of_code_def detail_of_level_def
  to_status_level_def default_PosixStatusSet_def get_status_level_def

lemma status_levels [simp]:
  "get_status_level (status_of_bool b s) = (if b then Status_Ok else Status_Error)"
  "get_status_level (status_of_level l s) = l"
  "get_status_level (status_of_errno e) = to_status_level default_PosixStatusSet e"
  "get_status_level (status_of_code e) = to_status_level default_PosixStatusSet e"
  by (simp_all add: status_defs)

text \<open>A code made from \<open>errno\<close> equals a code made from a number when the numbers are equal, whatever
  their messages; codes that were made without a number are all equal.\<close>

lemma status_eq_numbers [simp]: "status_eq (status_of_errno e) (status_of_code n) \<longleftrightarrow> e = n"
  by (auto simp: status_eq_def detail_eq_def status_defs)

lemma status_eq_levels [simp]:
  "status_eq (status_of_level l s) (status_of_level k t)"
  "\<not> status_eq (status_of_level l s) (status_of_code n)"
  by (simp_all add: status_eq_def detail_eq_def status_defs)

lemma status_eq_equiv: "status_eq s s" "status_eq s t = status_eq t s"
  "status_eq s t \<Longrightarrow> status_eq t u \<Longrightarrow> status_eq s u"
  by (auto simp: status_eq_def detail_eq_def split: option.splits)

text \<open>The levels partition the codes; a code without detail has none of the three.\<close>

lemma status_level_exclusive:
  "status_is_ok s \<longleftrightarrow> get_status_level s = Status_Ok"
  "status_is_error s \<longleftrightarrow> get_status_level s = Status_Error"
  "status_is_branch s \<longleftrightarrow> get_status_level s = Status_Branch"
  "\<not> status_is_valid s \<Longrightarrow> get_status_level s = Status_Unknown"
  by (simp_all add: status_is_ok_def status_is_error_def status_is_branch_def status_is_valid_def
      get_status_level_def detail_is_ok_def detail_is_error_def detail_is_branch_def split: option.split)

lemma level_of_errno:
  "to_status_level default_PosixStatusSet e =
     (if e = 0 then Status_Ok else if e = EAGAIN \<or> e = EINPROGRESS then Status_Branch else Status_Error)"
  by (simp add: to_status_level_def default_PosixStatusSet_def)

section \<open>Results\<close>

record 'a Result =
  m_value :: "'a option"
  m_status_code :: StatusCode

definition Result_of :: "'a option \<Rightarrow> StatusCode \<Rightarrow> 'a Result" where
  "Result_of v status_code = \<lparr>m_value = v, m_status_code = status_code\<rparr>"

definition Result_of_status :: "StatusCode \<Rightarrow> 'a Result" where
  "Result_of_status status_code = \<lparr>m_value = None, m_status_code = status_code\<rparr>"

definition has_value :: "'a Result \<Rightarrow> bool" where
  "has_value r \<longleftrightarrow> m_value r \<noteq> None"

abbreviation level :: "'a Result \<Rightarrow> StatusLevel" where
  "level r \<equiv> get_status_level (m_status_code r)"

lemma Result_simps [simp]:
  "m_value (Result_of v s) = v" "m_status_code (Result_of v s) = s"
  "m_value (Result_of_status s) = None" "m_status_code (Result_of_status s) = s"
  "has_value (Result_of v s) \<longleftrightarrow> v \<noteq> None" "\<not> has_value (Result_of_status s)"
  by (simp_all add: Result_of_def Result_of_status_def has_value_def)

section \<open>Owned descriptors\<close>

text \<open>A descriptor below 0 is invalid. The operations return the descriptors they close; the result
  of the call \<open>::close\<close> is an argument where the code looks at it.\<close>

type_synonym UniqueHandle = int

definition close_handle :: "int \<Rightarrow> int \<Rightarrow> StatusCode \<times> int \<times> int list" where
  "close_handle ret handle =
     (if handle < 0 then (status_of_bool True None, handle, [])
      else (status_of_bool (ret \<ge> 0) None, -1, [handle]))"

definition closed_by :: "int \<Rightarrow> int list" where
  "closed_by handle = snd (snd (close_handle 0 handle))"

definition is_valid_handle :: "UniqueHandle \<Rightarrow> bool" where
  "is_valid_handle h \<longleftrightarrow> h \<ge> 0"

text \<open>The target and the source behind a move, and what is closed.\<close>

definition handle_move_construct :: "UniqueHandle \<Rightarrow> UniqueHandle \<times> UniqueHandle" where
  "handle_move_construct other = (other, -1)"

definition handle_move_assign :: "UniqueHandle \<Rightarrow> UniqueHandle \<Rightarrow> UniqueHandle \<times> UniqueHandle \<times> int list" where
  "handle_move_assign h other = (other, -1, if h \<ge> 0 then closed_by h else [])"

definition handle_destroy :: "UniqueHandle \<Rightarrow> int list" where
  "handle_destroy h = closed_by h"

definition handle_release :: "UniqueHandle \<Rightarrow> int \<times> UniqueHandle" where
  "handle_release h = (h, -1)"

definition handle_reset :: "int \<Rightarrow> UniqueHandle \<Rightarrow> UniqueHandle \<times> int list" where
  "handle_reset new_handle h = (new_handle, closed_by h)"

lemma closed_by_eq: "closed_by h = (if 0 \<le> h then [h] else [])"
  by (simp add: closed_by_def close_handle_def)

text \<open>A program over handle variables: the descriptors it takes over from the system, gives back by
  \<open>release\<close>, and closes.\<close>

datatype handle_op =
    Take_Over int
  | Move_Construct nat
  | Move_Assign nat nat
  | Reset nat int
  | Release nat
  | Destroy nat

record handle_state =
  handles :: "UniqueHandle list"
  taken :: "int list"
  released :: "int list"
  closed :: "int list"

abbreviation valid :: "int list \<Rightarrow> int list" where
  "valid hs \<equiv> filter (\<lambda>h. 0 \<le> h) hs"

text \<open>The self-assignment \<open>h = std::move(h)\<close> reads the descriptor, clears the source, which is the
  target, and stores the descriptor.\<close>

fun handle_step :: "handle_op \<Rightarrow> handle_state \<Rightarrow> handle_state option" where
  "handle_step (Take_Over h) s = Some (s\<lparr>handles := handles s @ [h], taken := taken s @ valid [h]\<rparr>)"
| "handle_step (Move_Construct j) s =
     (if j < length (handles s)
      then case handle_move_construct (handles s ! j) of
        (h, other) \<Rightarrow> Some (s\<lparr>handles := (handles s)[j := other] @ [h]\<rparr>)
      else None)"
| "handle_step (Move_Assign i j) s =
     (if i < length (handles s) \<and> j < length (handles s)
      then case handle_move_assign ((handles s)[j := -1] ! i) (handles s ! j) of
        (h, other, cl) \<Rightarrow> Some (s\<lparr>handles := (handles s)[j := other, i := h], closed := closed s @ cl\<rparr>)
      else None)"
| "handle_step (Reset i n) s =
     (if i < length (handles s)
      then case handle_reset n (handles s ! i) of
        (h, cl) \<Rightarrow> Some (s\<lparr>handles := (handles s)[i := h], taken := taken s @ valid [n], closed := closed s @ cl\<rparr>)
      else None)"
| "handle_step (Release i) s =
     (if i < length (handles s)
      then case handle_release (handles s ! i) of
        (h, r) \<Rightarrow> Some (s\<lparr>handles := (handles s)[i := r], released := released s @ valid [h]\<rparr>)
      else None)"
| "handle_step (Destroy i) s =
     (if i < length (handles s)
      then Some (s\<lparr>handles := (handles s)[i := -1], closed := closed s @ handle_destroy (handles s ! i)\<rparr>)
      else None)"

definition accounts :: "handle_state \<Rightarrow> int multiset" where
  "accounts s = mset (valid (handles s)) + mset (released s) + mset (closed s)"

lemma valid_update:
  "i < length hs \<Longrightarrow> mset (valid (hs[i := h])) + mset (valid [hs ! i]) = mset (valid hs) + mset (valid [h])"
proof (induction hs arbitrary: i)
  case (Cons a hs)
  then show ?case by (cases i) auto
qed simp

lemma handle_step_accounts:
  assumes "handle_step c s = Some s'" "accounts s = mset (taken s)"
  shows "accounts s' = mset (taken s')"
proof (cases c)
  case (Take_Over h)
  with assms show ?thesis by (auto simp: accounts_def)
next
  case (Move_Construct j)
  with assms show ?thesis
    using valid_update [of j "handles s" "-1"]
    by (auto simp: accounts_def handle_move_construct_def split: if_splits)
next
  case (Move_Assign i j)
  with assms show ?thesis
    using valid_update [of j "handles s" "-1"] valid_update [of i "(handles s)[j := -1]" "handles s ! j"]
    by (auto simp: accounts_def handle_move_assign_def closed_by_eq split: if_splits)
      (metis union_mset_add_mset_left)+
next
  case (Reset i n)
  with assms show ?thesis
    using valid_update [of i "handles s" n]
    by (auto simp: accounts_def handle_reset_def closed_by_eq split: if_splits)
      (metis union_mset_add_mset_left)+
next
  case (Release i)
  with assms show ?thesis
    using valid_update [of i "handles s" "-1"]
    by (auto simp: accounts_def handle_release_def split: if_splits)
      (metis union_mset_add_mset_left)+
next
  case (Destroy i)
  with assms show ?thesis
    using valid_update [of i "handles s" "-1"]
    by (auto simp: accounts_def handle_destroy_def closed_by_eq split: if_splits)
      (metis union_mset_add_mset_left)+
qed

text \<open>Every descriptor that is taken over is owned by one handle, closed once, or released once:
  none leaks and none is closed twice, however handles are moved around.\<close>

theorem descriptors_accounted:
  assumes "fold_option handle_step cs \<lparr>handles = [], taken = [], released = [], closed = []\<rparr> = Some s"
  shows "mset (valid (handles s)) + mset (released s) + mset (closed s) = mset (taken s)"
proof -
  have "fold_option handle_step cs s0 = Some s \<Longrightarrow> accounts s0 = mset (taken s0) \<Longrightarrow> accounts s = mset (taken s)" for s0
    by (induction cs arbitrary: s0) (auto intro: handle_step_accounts split: Option.bind_splits)
  from this [OF assms] show ?thesis by (simp add: accounts_def)
qed

end
