(* ===== verification/Posix_Handles.thy ===== *)
theory Posix_Handles
  imports Posix_Status
begin

text \<open>
  The wrappers of system calls, \<open>network/handle/posix_socket_handle\<close>, \<open>posix_event_handle\<close> and
  \<open>posix_epoll_handle\<close>.

  A system call is not code of the program. What it answers is a parameter: every function
  takes the list of the outcomes of the calls it makes, in order, and returns the outcomes it has
  not used. A list that is used up (\<open>None\<close>) is a call that has not returned yet, so a
  function gives \<open>Some\<close> exactly when its retry loop ends within the given outcomes. The value
  \<open>None\<close> stands as well for the exception of an empty \<open>std::optional\<close> and for a copy that leaves
  its buffer; the theorems that exclude them say so.
\<close>

section \<open>Outcomes\<close>

datatype 'a outcome = Done 'a | Fails int

fun interrupted :: "'a outcome \<Rightarrow> bool" where
  "interrupted (Fails e) \<longleftrightarrow> e = EINTR"
| "interrupted (Done x) \<longleftrightarrow> False"

text \<open>What the manual promises: a read or a write is of at most the bytes asked for.\<close>

fun read_within :: "nat \<Rightarrow> bytes outcome \<Rightarrow> bool" where
  "read_within n (Done bs) \<longleftrightarrow> length bs \<le> n"
| "read_within n (Fails e) \<longleftrightarrow> True"

text \<open>The loop \<open>while (true)\<close> around a call that is repeated when a signal interrupts it.\<close>

fun retry :: "('a outcome \<Rightarrow> 'r) \<Rightarrow> 'a outcome list \<Rightarrow> ('r \<times> 'a outcome list) option" where
  "retry k [] = None"
| "retry k (Fails e # outs) =
     (if status_eq (status_of_errno e) (status_of_code EINTR) then retry k outs
      else Some (k (Fails e), outs))"
| "retry k (Done x # outs) = Some (k (Done x), outs)"

fun hard_failure :: "'a outcome \<Rightarrow> bool" where
  "hard_failure (Fails e) \<longleftrightarrow> e \<noteq> EINTR"
| "hard_failure (Done x) \<longleftrightarrow> False"

lemma retry_eq:
  "retry k outs =
     (case dropWhile interrupted outs of [] \<Rightarrow> None | out # rest \<Rightarrow> Some (k out, rest))"
  by (induction k outs rule: retry.induct) simp_all

lemma retry_shorter: "retry k outs = Some (r, rest) \<Longrightarrow> length rest < length outs"
  by (induction k outs rule: retry.induct) (auto split: if_splits)

section \<open>Sockets\<close>

record PosixSocketHandle =
  socket_handle :: UniqueHandle
  m_is_blocking :: bool

definition new_socket_handle :: PosixSocketHandle where
  "new_socket_handle = \<lparr>socket_handle = -1, m_is_blocking = False\<rparr>"

text \<open>The constructor from the arguments of \<open>::socket\<close> takes over what the call returns.\<close>

definition socket_of_descriptor :: "int \<Rightarrow> PosixSocketHandle" where
  "socket_of_descriptor other = new_socket_handle\<lparr>socket_handle := other\<rparr>"

definition socket_bool :: "PosixSocketHandle \<Rightarrow> bool" where
  "socket_bool h = (if is_valid_handle (socket_handle h) then True else False)"

lemma socket_bool_iff [simp]: "socket_bool h \<longleftrightarrow> is_valid_handle (socket_handle h)"
  by (simp add: socket_bool_def)

definition invalid_socket :: StatusCode where
  "invalid_socket = status_of_bool False (Some ''Socket handle is invalid'')"

fun read_answer :: "bytes outcome \<Rightarrow> bytes Result" where
  "read_answer (Done bs) =
     (if length bs > 0 then Result_of (Some bs) (status_of_level Status_Ok None)
      else Result_of (Some bs) (status_of_level Status_Ok (Some ''Peer closed!'')))"
| "read_answer (Fails e) = Result_of None (status_of_errno e)"

definition socket_read_some ::
  "PosixSocketHandle \<Rightarrow> nat \<Rightarrow> bytes outcome list \<Rightarrow> (bytes Result \<times> bytes outcome list) option" where
  "socket_read_some h n outs =
     (if \<not> is_valid_handle (socket_handle h) then Some (Result_of_status invalid_socket, outs)
      else retry read_answer outs)"

lemma socket_read_some_shorter:
  "socket_read_some h n outs = Some (r, rest) \<Longrightarrow> is_valid_handle (socket_handle h) \<Longrightarrow> length rest < length outs"
  by (auto simp: socket_read_some_def dest: retry_shorter)

text \<open>The loop of \<open>read\<close>: \<open>buffer\<close> has the length asked for, \<open>has_read\<close> bytes of it are filled.\<close>

function socket_read_loop ::
  "PosixSocketHandle \<Rightarrow> nat \<Rightarrow> bytes \<Rightarrow> nat \<Rightarrow> nat \<Rightarrow> bytes outcome list \<Rightarrow>
     (bytes Result \<times> bytes outcome list) option" where
  "socket_read_loop h n buffer has_read rest_size outs =
     (if \<not> is_valid_handle (socket_handle h) then Some (Result_of_status invalid_socket, outs)
      else if has_read < n then
        (case socket_read_some h rest_size outs of
           None \<Rightarrow> None
         | Some (some_ret, outs') \<Rightarrow>
             (if level some_ret = Status_Ok then
                (case m_value some_ret of
                   None \<Rightarrow> None
                 | Some bs \<Rightarrow>
                     if length bs = 0
                     then Some (Result_of (Some (resize 0 buffer has_read))
                       (status_of_level Status_Ok (Some ''Peer closed!'')), outs')
                     else (case blit buffer has_read bs of
                         None \<Rightarrow> None
                       | Some buffer' \<Rightarrow>
                           socket_read_loop h n buffer' (has_read + length bs) (rest_size - length bs) outs'))
              else if level some_ret = Status_Branch
              then Some (Result_of (Some (resize 0 buffer has_read)) (m_status_code some_ret), outs')
              else Some (Result_of None (m_status_code some_ret), outs')))
      else Some (Result_of (Some (resize 0 buffer has_read))
        (status_of_level Status_Ok (Some ''Read completely!'')), outs))"
  by pat_completeness auto
termination
  by (relation "measure (\<lambda>(h, n, buffer, has_read, rest_size, outs). length outs)")
     (auto dest: socket_read_some_shorter)

declare socket_read_loop.simps [simp del]

definition socket_read ::
  "PosixSocketHandle \<Rightarrow> nat \<Rightarrow> bytes outcome list \<Rightarrow> (bytes Result \<times> bytes outcome list) option" where
  "socket_read h n outs =
     (if \<not> is_valid_handle (socket_handle h) then Some (Result_of_status invalid_socket, outs)
      else socket_read_loop h n (replicate n 0) 0 n outs)"

text \<open>The outcome \<open>Done room\<close> of a write is the room the kernel has: the call \<open>::write\<close> of a buffer
  returns the number of bytes taken, at most all of them. The bytes that the kernel has
  taken are returned besides the result of the code.\<close>

fun write_answer :: "bytes \<Rightarrow> nat outcome \<Rightarrow> nat Result \<times> bytes" where
  "write_answer buffer (Done room) =
     (let ret = min room (length buffer)
      in if ret > 0 then (Result_of (Some ret) (status_of_level Status_Ok None), take ret buffer)
         else (Result_of (Some 0) (status_of_level Status_Ok None), []))"
| "write_answer buffer (Fails e) = (Result_of None (status_of_errno e), [])"

definition socket_write_some ::
  "PosixSocketHandle \<Rightarrow> bytes \<Rightarrow> nat outcome list \<Rightarrow> (nat Result \<times> bytes \<times> nat outcome list) option" where
  "socket_write_some h buffer outs =
     (if \<not> is_valid_handle (socket_handle h) then Some (Result_of_status invalid_socket, [], outs)
      else map_option (\<lambda>((r, wire), rest). (r, wire, rest))
        (retry (write_answer buffer) outs))"

lemma socket_write_some_shorter:
  "socket_write_some h b outs = Some (r, w, rest) \<Longrightarrow> is_valid_handle (socket_handle h) \<Longrightarrow> length rest < length outs"
  by (auto simp: socket_write_some_def dest: retry_shorter)

function socket_write_loop ::
  "PosixSocketHandle \<Rightarrow> bytes \<Rightarrow> nat \<Rightarrow> nat outcome list \<Rightarrow> (nat Result \<times> bytes \<times> nat outcome list) option" where
  "socket_write_loop h buffer has_write outs =
     (if \<not> is_valid_handle (socket_handle h) then Some (Result_of_status invalid_socket, [], outs)
      else if has_write < length buffer then
        (case socket_write_some h (drop has_write buffer) outs of
           None \<Rightarrow> None
         | Some (some_ret, wire, outs') \<Rightarrow>
             (if level some_ret = Status_Ok then
                (case m_value some_ret of
                   None \<Rightarrow> None
                 | Some k \<Rightarrow>
                     (case socket_write_loop h buffer (has_write + k) outs' of
                        None \<Rightarrow> None
                      | Some (r, wire', rest) \<Rightarrow> Some (r, wire @ wire', rest)))
              else Some (Result_of (Some has_write) (m_status_code some_ret), wire, outs')))
      else Some (Result_of (Some has_write) (status_of_level Status_Ok None), [], outs))"
  by pat_completeness auto
termination
  by (relation "measure (\<lambda>(h, buffer, has_write, outs). length outs)")
     (auto dest: socket_write_some_shorter)

declare socket_write_loop.simps [simp del]

definition socket_write ::
  "PosixSocketHandle \<Rightarrow> bytes \<Rightarrow> nat outcome list \<Rightarrow> (nat Result \<times> bytes \<times> nat outcome list) option" where
  "socket_write h buffer outs =
     (if \<not> is_valid_handle (socket_handle h) then Some (Result_of_status invalid_socket, [], outs)
      else socket_write_loop h buffer 0 outs)"

text \<open>\<open>connect\<close>, \<open>bind\<close> and \<open>listen\<close> share their loop: the outcomes are the returned number and \<open>errno\<close>.
  A number that is neither 0 nor -1 makes a status that is dropped, and the call is repeated.\<close>

fun zero_call_loop :: "(int \<times> int) list \<Rightarrow> (StatusCode \<times> (int \<times> int) list) option" where
  "zero_call_loop [] = None"
| "zero_call_loop ((ret, errno) # outs) =
     (if ret = 0 then Some (status_of_level Status_Ok None, outs)
      else if ret = -1 then
        (if status_eq (status_of_errno errno) (status_of_code EINTR) then zero_call_loop outs
         else Some (status_of_errno errno, outs))
      else zero_call_loop outs)"

definition socket_connect :: "PosixSocketHandle \<Rightarrow> (int \<times> int) list \<Rightarrow> (StatusCode \<times> (int \<times> int) list) option" where
  "socket_connect h outs =
     (if \<not> is_valid_handle (socket_handle h) then Some (invalid_socket, outs) else zero_call_loop outs)"

definition socket_bind :: "PosixSocketHandle \<Rightarrow> (int \<times> int) list \<Rightarrow> (StatusCode \<times> (int \<times> int) list) option" where
  "socket_bind h outs =
     (if \<not> is_valid_handle (socket_handle h) then Some (invalid_socket, outs) else zero_call_loop outs)"

definition socket_listen :: "PosixSocketHandle \<Rightarrow> (int \<times> int) list \<Rightarrow> (StatusCode \<times> (int \<times> int) list) option" where
  "socket_listen h outs =
     (if \<not> is_valid_handle (socket_handle h) then Some (invalid_socket, outs) else zero_call_loop outs)"

definition socket_accept ::
  "PosixSocketHandle \<Rightarrow> int outcome list \<Rightarrow> (PosixSocketHandle Result \<times> int outcome list) option" where
  "socket_accept h outs =
     (if \<not> is_valid_handle (socket_handle h) then Some (Result_of_status invalid_socket, outs)
      else retry (\<lambda>out. case out of
          Done ret \<Rightarrow> Result_of (Some (socket_of_descriptor ret)) (status_of_level Status_Ok None)
        | Fails e \<Rightarrow> Result_of_status (status_of_errno e)) outs)"

abbreviation O_NONBLOCK :: u32 where "O_NONBLOCK \<equiv> 0x800"

text \<open>The outcomes of \<open>F_GETFL\<close> and of \<open>F_SETFL\<close>; the flags that are set are returned as well.\<close>

definition socket_set_blocking ::
  "bool \<Rightarrow> PosixSocketHandle \<Rightarrow> u32 outcome \<Rightarrow> u32 outcome \<Rightarrow> StatusCode \<times> PosixSocketHandle \<times> u32 option" where
  "socket_set_blocking is_blocking h getfl setfl =
     (if \<not> is_valid_handle (socket_handle h) then (invalid_socket, h, None)
      else case getfl of
        Fails e \<Rightarrow> (status_of_errno e, h, None)
      | Done flags \<Rightarrow>
          (let current_blocking = ((and flags O_NONBLOCK) = 0)
           in if current_blocking = is_blocking
              then (status_of_level Status_Ok None, h\<lparr>m_is_blocking := is_blocking\<rparr>, None)
              else
                let flags = (if is_blocking then and flags (not O_NONBLOCK) else or flags O_NONBLOCK)
                in case setfl of
                     Fails e \<Rightarrow> (status_of_errno e, h, Some flags)
                   | Done ret \<Rightarrow> (status_of_level Status_Ok None, h\<lparr>m_is_blocking := is_blocking\<rparr>, Some flags)))"

section \<open>Event descriptors\<close>

text \<open>The outcome of a call on an event descriptor is the number of bytes and, of a read, the counter.\<close>

definition event_handle_read ::
  "UniqueHandle \<Rightarrow> (nat \<times> u64) outcome list \<Rightarrow> (u64 Result \<times> (nat \<times> u64) outcome list) option" where
  "event_handle_read h outs =
     (if \<not> is_valid_handle h
      then Some (Result_of_status (status_of_level Status_Error (Some ''Invalid event fd'')), outs)
      else retry (\<lambda>out. case out of
          Done (ret, counter) \<Rightarrow>
            if ret = 8 then Result_of (Some counter) (status_of_level Status_Ok None)
            else Result_of None (status_of_level Status_Error (Some ''Invalid eventfd read size''))
        | Fails e \<Rightarrow>
            if status_eq (status_of_errno e) (status_of_code EAGAIN) \<or>
               status_eq (status_of_errno e) (status_of_code EWOULDBLOCK)
            then Result_of (Some 0) (status_of_errno e)
            else Result_of None (status_of_errno e)) outs)"

definition event_handle_write ::
  "UniqueHandle \<Rightarrow> u64 \<Rightarrow> nat outcome list \<Rightarrow> (nat Result \<times> nat outcome list) option" where
  "event_handle_write h v outs =
     (if \<not> is_valid_handle h
      then Some (Result_of_status (status_of_level Status_Error (Some ''Invalid event fd!'')), outs)
      else if v = 0
      then Some (Result_of_status (status_of_level Status_Error (Some ''Invalid value!'')), outs)
      else retry (\<lambda>out. case out of
          Done ret \<Rightarrow>
            if ret = 8 then Result_of (Some ret) (status_of_level Status_Ok None)
            else Result_of None (status_of_level Status_Error (Some ''Invalid eventfd write size''))
        | Fails e \<Rightarrow>
            if status_eq (status_of_errno e) (status_of_code EAGAIN) \<or>
               status_eq (status_of_errno e) (status_of_code EWOULDBLOCK)
            then Result_of (Some 0) (status_of_errno e)
            else Result_of None (status_of_errno e)) outs)"

section \<open>The epoll descriptor\<close>

abbreviation EPOLLIN :: u32 where "EPOLLIN \<equiv> 0x001"
abbreviation EPOLLOUT :: u32 where "EPOLLOUT \<equiv> 0x004"
abbreviation EPOLLERR :: u32 where "EPOLLERR \<equiv> 0x008"
abbreviation EPOLLHUP :: u32 where "EPOLLHUP \<equiv> 0x010"
abbreviation EPOLLRDHUP :: u32 where "EPOLLRDHUP \<equiv> 0x2000"

record epoll_event =
  events :: u32
  data_fd :: int

datatype ctl_operation = EPOLL_CTL_ADD | EPOLL_CTL_MOD | EPOLL_CTL_DEL

definition invalid_epoll :: StatusCode where
  "invalid_epoll = status_of_level Status_Error (Some ''Invalid epoll fd!'')"

text \<open>The number of events and the events, of which the kernel gives at most \<open>max_events\<close>.\<close>

definition epoll_handle_wait ::
  "UniqueHandle \<Rightarrow> nat \<Rightarrow> epoll_event list outcome list \<Rightarrow>
     (nat Result \<times> epoll_event list \<times> epoll_event list outcome list) option" where
  "epoll_handle_wait h max_events outs =
     (if \<not> is_valid_handle h then Some (Result_of_status invalid_epoll, [], outs)
      else map_option (\<lambda>((r, es), rest). (r, es, rest))
        (retry (\<lambda>out. case out of
            Fails e \<Rightarrow> (Result_of_status (status_of_errno e), [])
          | Done es \<Rightarrow>
              if length es = 0 then (Result_of (Some 0) (status_of_level Status_Branch None), [])
              else (Result_of (Some (length es)) (status_of_level Status_Ok None), es)) outs))"

text \<open>One outcome and the call that is made.\<close>

type_synonym ctl_call = "ctl_operation \<times> int \<times> epoll_event option"

definition epoll_control ::
  "UniqueHandle \<Rightarrow> int \<Rightarrow> ctl_operation \<Rightarrow> epoll_event option \<Rightarrow> unit outcome \<Rightarrow> StatusCode \<times> ctl_call list" where
  "epoll_control h watched_fd operation event out =
     (if \<not> is_valid_handle h then (invalid_epoll, [])
      else case out of
        Fails e \<Rightarrow> (status_of_errno e, [(operation, watched_fd, event)])
      | Done _ \<Rightarrow> (status_of_level Status_Ok None, [(operation, watched_fd, event)]))"

definition epoll_add :: "UniqueHandle \<Rightarrow> int \<Rightarrow> epoll_event \<Rightarrow> unit outcome \<Rightarrow> StatusCode \<times> ctl_call list" where
  "epoll_add h watched_fd event out =
     (if \<not> is_valid_handle h then (invalid_epoll, [])
      else epoll_control h watched_fd EPOLL_CTL_ADD (Some event) out)"

definition epoll_modify :: "UniqueHandle \<Rightarrow> int \<Rightarrow> epoll_event \<Rightarrow> unit outcome \<Rightarrow> StatusCode \<times> ctl_call list" where
  "epoll_modify h watched_fd event out =
     (if \<not> is_valid_handle h then (invalid_epoll, [])
      else epoll_control h watched_fd EPOLL_CTL_MOD (Some event) out)"

definition epoll_remove :: "UniqueHandle \<Rightarrow> int \<Rightarrow> unit outcome \<Rightarrow> StatusCode \<times> ctl_call list" where
  "epoll_remove h watched_fd out =
     (if \<not> is_valid_handle h then (invalid_epoll, [])
      else epoll_control h watched_fd EPOLL_CTL_DEL None out)"

section \<open>What the sockets do\<close>

fun room_of :: "nat outcome \<Rightarrow> nat" where
  "room_of (Done k) = k"
| "room_of (Fails e) = 0"

fun data_of :: "bytes outcome \<Rightarrow> bytes" where
  "data_of (Done bs) = bs"
| "data_of (Fails e) = []"

lemma retry_cases:
  assumes "retry k outs = Some (r, rest)"
  obtains ints out where "outs = ints @ out # rest" "list_all interrupted ints" "\<not> interrupted out" "r = k out"
proof -
  have "\<exists>ints out. outs = ints @ out # rest \<and> list_all interrupted ints \<and> \<not> interrupted out \<and> r = k out"
    using assms
  proof (induction k outs rule: retry.induct)
    case (2 k e outs)
    show ?case
    proof (cases "e = EINTR")
      case True
      with 2 obtain ints out where "outs = ints @ out # rest" "list_all interrupted ints" "\<not> interrupted out" "r = k out"
        by auto
      with True show ?thesis
        by (intro exI [of _ "Fails e # ints"] exI [of _ out]) simp
    next
      case False
      with 2 show ?thesis by (intro exI [of _ "[]"] exI [of _ "Fails e"]) simp
    qed
  next
    case (3 k x outs)
    then show ?case by (intro exI [of _ "[]"] exI [of _ "Done x"]) simp
  qed simp
  with that show thesis by blast
qed

lemma interrupted_only: "list_all interrupted ints \<Longrightarrow> sum_list (map room_of ints) = 0"
  "list_all interrupted ints' \<Longrightarrow> concat (map data_of ints') = []"
  "list_all interrupted ints \<Longrightarrow> list_ex hard_failure ints = False"
proof -
  show "list_all interrupted ints \<Longrightarrow> sum_list (map room_of ints) = 0"
    by (induction ints) (auto elim: interrupted.elims)
  show "list_all interrupted ints' \<Longrightarrow> concat (map data_of ints') = []"
    by (induction ints') (auto elim: interrupted.elims)
  show "list_all interrupted ints \<Longrightarrow> list_ex hard_failure ints = False"
    by (induction ints) (auto elim!: interrupted.elims)
qed

lemma retry_None: "retry k outs = None \<longleftrightarrow> list_all interrupted outs"
  by (induction k outs rule: retry.induct) simp_all

lemma hard_level: "e \<noteq> EINTR \<Longrightarrow> e \<noteq> 0 \<Longrightarrow> get_status_level (status_of_errno e) \<noteq> Status_Ok"
  by (simp add: level_of_errno)

text \<open>A system call that fails leaves a number other than 0 in \<open>errno\<close>.\<close>

fun errno_set :: "'a outcome \<Rightarrow> bool" where
  "errno_set (Fails e) \<longleftrightarrow> e \<noteq> 0"
| "errno_set (Done x) \<longleftrightarrow> True"

lemma write_some_cases:
  assumes "socket_write_some h b outs = Some (r, w, rest)" "is_valid_handle (socket_handle h)" "list_all errno_set outs"
  obtains (Taken) ints k where "outs = ints @ Done k # rest" "list_all interrupted ints"
      "level r = Status_Ok" "m_value r = Some (min k (length b))" "w = take (min k (length b)) b"
    | (Hard) ints e where "outs = ints @ Fails e # rest" "list_all interrupted ints" "e \<noteq> EINTR"
      "level r \<noteq> Status_Ok" "m_status_code r = status_of_errno e" "w = []"
proof -
  from assms(1,2) have "retry (write_answer b) outs = Some ((r, w), rest)"
    by (auto simp: socket_write_some_def)
  then obtain ints out where o: "outs = ints @ out # rest" "list_all interrupted ints"
    "\<not> interrupted out" "(r, w) = write_answer b out"
    by (rule retry_cases)
  show thesis
  proof (cases out)
    case (Done k)
    with o show thesis by (intro Taken [of ints k]) (auto simp: Let_def split: if_splits)
  next
    case (Fails e)
    with o assms(3) show thesis by (intro Hard [of ints e]) (auto simp: level_of_errno)
  qed
qed

lemma write_loop_steps:
  assumes "is_valid_handle (socket_handle h)"
  shows "length b \<le> n \<Longrightarrow> socket_write_loop h b n outs = Some (Result_of (Some n) (status_of_level Status_Ok None), [], outs)"
    and "n < length b \<Longrightarrow> socket_write_some h (drop n b) outs = None \<Longrightarrow> socket_write_loop h b n outs = None"
    and "n < length b \<Longrightarrow> socket_write_some h (drop n b) outs = Some (q, w, outs') \<Longrightarrow> level q = Status_Ok \<Longrightarrow>
      m_value q = Some k \<Longrightarrow> socket_write_loop h b n outs =
        map_option (\<lambda>(r, w', rest). (r, w @ w', rest)) (socket_write_loop h b (n + k) outs')"
    and "n < length b \<Longrightarrow> socket_write_some h (drop n b) outs = Some (q, w, outs') \<Longrightarrow> level q \<noteq> Status_Ok \<Longrightarrow>
      socket_write_loop h b n outs = Some (Result_of (Some n) (m_status_code q), w, outs')"
  using assms by (simp_all add: socket_write_loop.simps [of h b n outs] case_prod_beta split: option.split)

lemma write_loop_prefix:
  assumes "socket_write_loop h b n outs = Some (r, w, rest)" "is_valid_handle (socket_handle h)"
    and "list_all errno_set outs" "n \<le> length b"
  shows "\<exists>k. m_value r = Some (n + k) \<and> w = take k (drop n b) \<and> n + k \<le> length b \<and>
    (level r = Status_Ok \<longleftrightarrow> n + k = length b)"
  using assms
proof (induction h b n outs arbitrary: r w rest rule: socket_write_loop.induct)
  case (1 h b n outs)
  show ?case
  proof (cases "n < length b")
    case False
    with 1(2-5) show ?thesis by (auto simp: write_loop_steps(1))
  next
    case True
    note steps = write_loop_steps(2-4) [OF 1(3) True]
    obtain some_ret w1 outs' where s: "socket_write_some h (drop n b) outs = Some (some_ret, w1, outs')"
      using 1(2) steps(1) by (cases "socket_write_some h (drop n b) outs") auto
    from s 1(3,4) show ?thesis
    proof (cases rule: write_some_cases)
      case (Taken ints k)
      let ?k = "min k (length (drop n b))"
      obtain w2 where rec: "socket_write_loop h b (n + ?k) outs' = Some (r, w2, rest)" and w: "w = w1 @ w2"
        using steps(2) [OF s Taken(3,4)] 1(2) by (auto simp: eq_commute [of "Some _"])
      have "list_all errno_set outs'" "n + ?k \<le> length b"
        using 1(4) Taken True by auto
      from 1(1) [OF _ True s refl refl _ _ rec 1(3) this] Taken 1(3)
      obtain j where j: "m_value r = Some (n + ?k + j)" "w2 = take j (drop (n + ?k) b)"
        "n + ?k + j \<le> length b" "(level r = Status_Ok) = (n + ?k + j = length b)"
        by auto
      have "take (?k + j) (drop n b) = take ?k (drop n b) @ take j (drop (n + ?k) b)"
        by (simp only: take_add drop_drop add.commute [of n])
      with j w Taken show ?thesis
        by (intro exI [of _ "?k + j"]) (simp add: add.assoc)
    next
      case (Hard ints e)
      with steps(3) [OF s] True 1(2) show ?thesis
        by (auto intro!: exI [of _ 0])
    qed
  qed
qed

text \<open>A write hands the kernel a prefix of its buffer, in order and without a repeated byte, for every
  sequence of partial writes and interruptions, and returns the length of this prefix; the status is
  Ok exactly when everything is written.\<close>

theorem socket_write_prefix:
  assumes "is_valid_handle (socket_handle h)" "list_all errno_set outs"
    and "socket_write h b outs = Some (r, wire, rest)"
  shows "\<exists>k \<le> length b. m_value r = Some k \<and> wire = take k b \<and> (level r = Status_Ok \<longleftrightarrow> k = length b)"
  using write_loop_prefix [of h b 0 outs r wire rest] assms by (auto simp: socket_write_def)

theorem socket_write_prefix_witness:
  "\<exists>k \<le> length [1, 2, 3 :: u8]. m_value (Result_of (Some 2) (status_of_errno EAGAIN)) = Some k \<and>
     [1, 2] = take k [1, 2, 3 :: u8] \<and>
     (level (Result_of (Some (2 :: nat)) (status_of_errno EAGAIN)) = Status_Ok \<longleftrightarrow> k = length [1, 2, 3 :: u8])"
proof (rule socket_write_prefix)
  show "socket_write (socket_of_descriptor 5) [1, 2, 3] [Fails EINTR, Done 2, Fails EAGAIN, Done 9] =
      Some (Result_of (Some 2) (status_of_errno EAGAIN), [1, 2], [Done 9])"
    by (simp add: socket_write_def socket_write_loop.simps socket_write_some_def socket_of_descriptor_def
        new_socket_handle_def is_valid_handle_def level_of_errno)
qed (simp_all add: socket_of_descriptor_def new_socket_handle_def is_valid_handle_def)

lemma room_sum: "list_all interrupted ints \<Longrightarrow> sum_list (map room_of (ints @ outs)) = sum_list (map room_of outs)"
  by (simp add: interrupted_only)

lemma write_loop_returns:
  assumes "is_valid_handle (socket_handle h)" "list_all errno_set outs"
  shows "socket_write_loop h b n outs \<noteq> None \<longleftrightarrow>
    list_ex hard_failure outs \<or> length b \<le> n + sum_list (map room_of outs)"
  using assms
proof (induction h b n outs rule: socket_write_loop.induct)
  case (1 h b n outs)
  show ?case
  proof (cases "n < length b")
    case False
    with 1(2) show ?thesis by (simp add: write_loop_steps(1))
  next
    case True
    note steps = write_loop_steps(2-4) [OF 1(2) True]
    show ?thesis
    proof (cases "socket_write_some h (drop n b) outs")
      case None
      then have "list_all interrupted outs"
        using 1(2) by (simp add: socket_write_some_def retry_None)
      with True steps(1) [OF None] show ?thesis
        by (simp add: interrupted_only)
    next
      case (Some x)
      obtain some_ret w1 outs' where x: "x = (some_ret, w1, outs')"
        by (cases x) auto
      note s = Some [unfolded x]
      from s 1(2,3) show ?thesis
      proof (cases rule: write_some_cases)
        case (Taken ints k)
        let ?k = "min k (length (drop n b))"
        have "socket_write_loop h b n outs \<noteq> None \<longleftrightarrow> socket_write_loop h b (n + ?k) outs' \<noteq> None"
          using steps(2) [OF s Taken(3,4)] by simp
        also have "\<dots> \<longleftrightarrow> list_ex hard_failure outs' \<or> length b \<le> n + ?k + sum_list (map room_of outs')"
          using 1(1) [OF _ True s refl refl Taken(3,4) 1(2)] 1(2,3) Taken(1) by simp
        also have "\<dots> \<longleftrightarrow> list_ex hard_failure outs \<or> length b \<le> n + sum_list (map room_of outs)"
          using Taken(1,2) True by (auto simp: interrupted_only min_def)
        finally show ?thesis .
      next
        case (Hard ints e)
        with steps(3) [OF s] show ?thesis by simp
      qed
    qed
  qed
qed

text \<open>C26: The loops around the system calls end: a single read returns as soon as one of its calls is
  not interrupted; a write returns exactly when a call fails for another reason than an
  interruption or the kernel has found room for the whole buffer.\<close>

theorem socket_calls_return:
  assumes "is_valid_handle (socket_handle h)" "list_all errno_set outs"
  shows "(socket_read_some h n ins \<noteq> None \<longleftrightarrow> \<not> list_all interrupted ins) \<and>
    (socket_write h b outs \<noteq> None \<longleftrightarrow> list_ex hard_failure outs \<or> length b \<le> sum_list (map room_of outs))"
  using write_loop_returns [OF assms, of b 0] assms(1)
  by (simp add: socket_write_def socket_read_some_def retry_None)

theorem socket_calls_return_witness:
  "(socket_read_some (socket_of_descriptor 5) 10 [Fails EINTR, Done [7]] \<noteq> None \<longleftrightarrow>
      \<not> list_all interrupted [Fails EINTR, Done [7 :: u8]]) \<and>
   (socket_write (socket_of_descriptor 5) [1, 2, 3] [Done 2] \<noteq> None \<longleftrightarrow>
      list_ex hard_failure [Done (2 :: nat)] \<or> length [1, 2, 3 :: u8] \<le> sum_list (map room_of [Done 2]))"
  by (rule socket_calls_return) (simp_all add: socket_of_descriptor_def new_socket_handle_def is_valid_handle_def)

text \<open>The calls that return a number other than 0 and -1 keep \<open>connect\<close>, \<open>bind\<close> and \<open>listen\<close> in their loop;
  otherwise they give what the first call that is not interrupted gives.\<close>

lemma zero_call_unknown: "list_all (\<lambda>(ret, errno). ret \<notin> {0, -1}) outs \<Longrightarrow> zero_call_loop outs = None"
  by (induction outs rule: zero_call_loop.induct) auto

lemma zero_call_first:
  "ret = 0 \<or> ret = -1 \<Longrightarrow> \<not> (ret = -1 \<and> errno = EINTR) \<Longrightarrow>
     zero_call_loop (replicate n (-1, EINTR) @ (ret, errno) # outs) =
       Some (if ret = 0 then status_of_level Status_Ok None else status_of_errno errno, outs)"
  by (induction n) auto

subsection \<open>Reading a number of bytes\<close>

text \<open>The outcomes fit the calls of \<open>read\<close>, which ask for the rest.\<close>

fun reads_within :: "nat \<Rightarrow> bytes outcome list \<Rightarrow> bool" where
  "reads_within 0 outs \<longleftrightarrow> True"
| "reads_within (Suc n) [] \<longleftrightarrow> True"
| "reads_within (Suc n) (Done bs # outs) \<longleftrightarrow> length bs \<le> Suc n \<and> reads_within (Suc n - length bs) outs"
| "reads_within (Suc n) (Fails e # outs) \<longleftrightarrow> (if e = EINTR then reads_within (Suc n) outs else True)"

text \<open>The reference: the outcomes are concatenated up to the number of bytes, an empty one, or a failure.\<close>

datatype ending = Complete | Peer_Closed | Failed int

fun gather :: "nat \<Rightarrow> bytes outcome list \<Rightarrow> (bytes \<times> ending \<times> bytes outcome list) option" where
  "gather 0 outs = Some ([], Complete, outs)"
| "gather (Suc n) [] = None"
| "gather (Suc n) (Done bs # outs) =
     (if bs = [] then Some ([], Peer_Closed, outs)
      else map_option (\<lambda>(d, e, rest). (bs @ d, e, rest)) (gather (Suc n - length bs) outs))"
| "gather (Suc n) (Fails e # outs) = (if e = EINTR then gather (Suc n) outs else Some ([], Failed e, outs))"

fun read_result :: "bytes \<Rightarrow> ending \<Rightarrow> bytes Result" where
  "read_result d Complete = Result_of (Some d) (status_of_level Status_Ok (Some ''Read completely!''))"
| "read_result d Peer_Closed = Result_of (Some d) (status_of_level Status_Ok (Some ''Peer closed!''))"
| "read_result d (Failed e) =
     Result_of (if e = EAGAIN \<or> e = EINPROGRESS then Some d else None) (status_of_errno e)"

lemma read_loop_steps:
  assumes "is_valid_handle (socket_handle h)"
  shows "n \<le> i \<Longrightarrow> socket_read_loop h n buf i k outs =
      Some (Result_of (Some (resize 0 buf i)) (status_of_level Status_Ok (Some ''Read completely!'')), outs)"
    and "i < n \<Longrightarrow> socket_read_loop h n buf i k [] = None"
    and "i < n \<Longrightarrow> socket_read_loop h n buf i k (Done bs # outs) =
        (if bs = [] then Some (Result_of (Some (resize 0 buf i)) (status_of_level Status_Ok (Some ''Peer closed!'')), outs)
         else (case blit buf i bs of None \<Rightarrow> None
               | Some buf' \<Rightarrow> socket_read_loop h n buf' (i + length bs) (k - length bs) outs))"
    and "i < n \<Longrightarrow> socket_read_loop h n buf i k (Fails EINTR # outs) = socket_read_loop h n buf i k outs"
    and "i < n \<Longrightarrow> e \<noteq> EINTR \<Longrightarrow> e \<noteq> 0 \<Longrightarrow> socket_read_loop h n buf i k (Fails e # outs) =
        Some (Result_of (if e = EAGAIN \<or> e = EINPROGRESS then Some (resize 0 buf i) else None) (status_of_errno e), outs)"
  using assms
  by (simp_all add: socket_read_loop.simps [of h n buf i k] socket_read_some_def level_of_errno split: option.split)

lemma resize_got: "resize z (got @ xs) (length got) = got"
  by (simp add: resize_def)

lemma read_loop_gather:
  assumes "is_valid_handle (socket_handle h)" "list_all errno_set outs" "reads_within n outs"
  shows "socket_read_loop h (length got + n) (got @ replicate n 0) (length got) n outs =
    map_option (\<lambda>(d, e, rest). (read_result (got @ d) e, rest)) (gather n outs)"
  using assms(2,3)
proof (induction n outs arbitrary: got rule: gather.induct)
  case (1 outs)
  then show ?case by (simp add: read_loop_steps(1) [OF assms(1)] resize_got)
next
  case (2 n)
  then show ?case by (simp add: read_loop_steps(2) [OF assms(1)])
next
  case (3 n bs outs)
  show ?case
  proof (cases "bs = []")
    case True
    then show ?thesis by (simp add: read_loop_steps(3) [OF assms(1)] resize_got del: replicate.simps)
  next
    case False
    have len: "length bs \<le> Suc n" "reads_within (Suc n - length bs) outs" "list_all errno_set outs"
      using "3.prems" by simp_all
    have "blit (got @ replicate (Suc n) 0) (length got) bs = Some (got @ bs @ replicate (Suc n - length bs) 0)"
      using len(1) by (simp add: vec_simps del: replicate.simps)
    with False have "socket_read_loop h (length got + Suc n) (got @ replicate (Suc n) 0) (length got) (Suc n) (Done bs # outs) =
        socket_read_loop h (length (got @ bs) + (Suc n - length bs)) ((got @ bs) @ replicate (Suc n - length bs) 0)
          (length (got @ bs)) (Suc n - length bs) outs"
      using len(1) by (simp add: read_loop_steps(3) [OF assms(1)] del: replicate.simps)
    also have "\<dots> = map_option (\<lambda>(d, e, rest). (read_result ((got @ bs) @ d) e, rest)) (gather (Suc n - length bs) outs)"
      using "3.IH" [OF False len(3,2)] .
    finally show ?thesis
      using False by (simp add: option.map_comp comp_def case_prod_beta' del: replicate.simps)
  qed
next
  case (4 n e outs)
  then show ?case
    by (cases "e = EINTR") (simp_all add: read_loop_steps(4,5) [OF assms(1)] resize_got del: replicate.simps)
qed

text \<open>C25: \<open>read\<close> of a number of bytes, with its buffer, its two counters and its copies, is the
  concatenation of what arrives, up to the number asked for, the end of the stream or a failure: it never writes
  outside of its buffer. A failure that is not a branch drops what has been read before.\<close>

theorem socket_read_gathers:
  assumes "is_valid_handle (socket_handle h)" "list_all errno_set outs" "reads_within n outs"
  shows "socket_read h n outs = map_option (\<lambda>(d, e, rest). (read_result d e, rest)) (gather n outs)"
  using read_loop_gather [OF assms, of "[]"] assms(1) by (simp add: socket_read_def)

theorem socket_read_gathers_witness:
  "socket_read (socket_of_descriptor 5) 3 [Done [1], Fails EINTR, Done [2, 3], Done [4]] =
     map_option (\<lambda>(d, e, rest). (read_result d e, rest)) (gather 3 [Done [1], Fails EINTR, Done [2, 3], Done [4]])"
  by (rule socket_read_gathers)
     (simp_all add: socket_of_descriptor_def new_socket_handle_def is_valid_handle_def numeral_3_eq_3 numeral_2_eq_2)

end
