(* ===== verification/Connect.thy ===== *)
theory Connect
  imports Frames Mail_Box Posix_Handles
begin

text \<open>
  One connection of the reactor, \<open>network/context/connect_context\<close>: what the socket gives goes
  through the frame assembler and leaves it as frames, what is to be sent goes through a
  buffer of the bytes that the socket did not take yet. The system calls are those of
  \<open>Posix_Handles\<close>, the assembler is that of \<open>Frames\<close>; diagnostics are left out.
\<close>

section \<open>State and operations\<close>

record ConnectContext =
  m_connect_id :: u64
  m_socket_handle :: PosixSocketHandle
  m_frame_assembler :: FrameAssembler
  m_write_buffer :: bytes

definition new_connect_context :: "SerializeHeader \<Rightarrow> u64 \<Rightarrow> PosixSocketHandle \<Rightarrow> ConnectContext" where
  "new_connect_context junk cid h =
     \<lparr>m_connect_id = cid, m_socket_handle = h,
      m_frame_assembler = new_FrameAssembler junk, m_write_buffer = []\<rparr>"

text \<open>The first loop of \<open>read\<close>: it ends with the status of an error, or without one.\<close>

function receive_loop ::
  "PosixSocketHandle \<Rightarrow> FrameAssembler \<Rightarrow> bytes outcome list \<Rightarrow>
     (StatusCode option \<times> FrameAssembler \<times> bytes outcome list) option" where
  "receive_loop h a outs =
     (if \<not> socket_bool h then None
      else case socket_read_some h 1024 outs of
        None \<Rightarrow> None
      | Some (ret, outs') \<Rightarrow>
          (if level ret = Status_Error then Some (Some (m_status_code ret), a, outs')
           else case m_value ret of
             None \<Rightarrow> Some (None, a, outs')
           | Some bs \<Rightarrow>
               if bs = [] then Some (None, a, outs')
               else receive_loop h (push_data bs a) outs'))"
  by pat_completeness auto
termination
  by (relation "measure (\<lambda>(h, a, outs). length outs)")
     (auto dest: socket_read_some_shorter)

declare receive_loop.simps [simp del]

text \<open>The second loop: \<open>pop_frame\<close> until it gives nothing.\<close>

partial_function (option) pop_frames :: "ByteOrder \<Rightarrow> FrameAssembler \<Rightarrow> (bytes list \<times> FrameAssembler) option" where
  "pop_frames host a =
     do {
       (frame_opt, a) \<leftarrow> pop_frame host a;
       case frame_opt of
         None \<Rightarrow> Some ([], a)
       | Some f \<Rightarrow> do { (fs, a) \<leftarrow> pop_frames host a; Some (f # fs, a) }
     }"

definition context_read ::
  "ByteOrder \<Rightarrow> ConnectContext \<Rightarrow> bytes outcome list \<Rightarrow>
     (PosixFrame list Result \<times> ConnectContext \<times> bytes outcome list) option" where
  "context_read host c outs =
     (if \<not> socket_bool (m_socket_handle c)
      then Some (Result_of_status (status_of_level Status_Error (Some ''failed to read invalid socket'')), c, outs)
      else do {
        (error, a, outs) \<leftarrow> receive_loop (m_socket_handle c) (m_frame_assembler c) outs;
        case error of
          Some status \<Rightarrow> Some (Result_of_status status, c\<lparr>m_frame_assembler := a\<rparr>, outs)
        | None \<Rightarrow>
            do {
              (frames, a) \<leftarrow> pop_frames host a;
              Some (Result_of (Some (map (\<lambda>f. \<lparr>connect_id = m_connect_id c, frame_data = f\<rparr>) frames))
                      (status_of_level Status_Ok None), c\<lparr>m_frame_assembler := a\<rparr>, outs)
            }
      })"

text \<open>The count of written bytes is an \<open>int\<close>; erasing a negative number of bytes is undefined. The bytes
  that the kernel has taken are returned besides the result.\<close>

definition context_write ::
  "ConnectContext \<Rightarrow> PosixFrame list \<Rightarrow> nat outcome list \<Rightarrow>
     (int Result \<times> bytes \<times> ConnectContext \<times> nat outcome list) option" where
  "context_write c frames outs =
     (if \<not> socket_bool (m_socket_handle c)
      then Some (Result_of_status (status_of_level Status_Error (Some ''failed to read invalid socket'')), [], c, outs)
      else
        let c = c\<lparr>m_write_buffer := m_write_buffer c @ concat (map frame_data frames)\<rparr> in
        do {
          (ret, wire, outs) \<leftarrow> socket_write (m_socket_handle c) (m_write_buffer c) outs;
          if level ret = Status_Error then Some (Result_of_status (m_status_code ret), wire, c, outs)
          else if m_value ret = None \<or> m_value ret = Some 0
          then Some (Result_of_status (m_status_code ret), wire, c, outs)
          else
            let total_write = sint (of_nat (the (m_value ret)) :: u32)
            in if total_write < 0 then None
               else Some (Result_of (Some total_write) (status_of_level Status_Ok None), wire,
                 c\<lparr>m_write_buffer := drop (nat total_write) (m_write_buffer c)\<rparr>, outs)
        })"

definition has_pending_write :: "ConnectContext \<Rightarrow> bool" where
  "has_pending_write c \<longleftrightarrow> m_write_buffer c \<noteq> []"

section \<open>Popping frames\<close>

text \<open>What is waiting in an assembler is cut into its whole frames and a rest that is none.\<close>

lemma is_frame_16: "frames.is_frame f \<Longrightarrow> 16 \<le> length f"
  by (simp add: frames.is_frame_def)

lemma pop_frames_split:
  assumes "fa_ok a" "length (fa_pending a) < 2 ^ 32"
  shows "\<exists>fs a'. pop_frames host a = Some (fs, a') \<and> fa_ok a' \<and> concat fs @ fa_pending a' = fa_pending a \<and>
    frames.next_frame (fa_pending a') = None \<and> list_all frames.is_frame fs"
  using assms
proof (induction "length (fa_pending a)" arbitrary: a rule: less_induct)
  case less
  show ?case
  proof (cases "frames.next_frame (fa_pending a)")
    case None
    with pop_frame_next [OF less.prems, of host] obtain a' where
      "pop_frame host a = Some (None, a')" "fa_ok a'" "fa_pending a' = fa_pending a"
      by auto
    with None show ?thesis by (simp add: pop_frames.simps [of host a])
  next
    case (Some fr)
    obtain f r where fr: "fr = (f, r)" by fastforce
    note s = Some [unfolded fr]
    from pop_frame_next [OF less.prems, of host] s obtain a1 where
      1: "pop_frame host a = Some (Some f, a1)" "fa_ok a1" "fa_pending a1 = r"
      by auto
    note f = frames.next_frame_SomeD [OF s]
    have "length (fa_pending a1) < length (fa_pending a)"
      using is_frame_16 [OF f(1)] f(2) 1(3) by auto
    from less.hyps [OF this 1(2)] less.prems(2) this obtain fs a' where
      "pop_frames host a1 = Some (fs, a')" "fa_ok a'" "concat fs @ fa_pending a' = r"
      "frames.next_frame (fa_pending a') = None" "list_all frames.is_frame fs"
      using 1(3) by auto
    with f 1 show ?thesis by (simp add: pop_frames.simps [of host a])
  qed
qed

text \<open>Popping frames until there is none ends, within the vectors of the assembler: the
  frames and what stays behind are the bytes that were waiting, every frame is whole, and
  what stays behind does not start with a whole frame.\<close>

theorem pop_frames_returns:
  assumes "fa_ok a" "length (fa_pending a) < 2 ^ 32"
  shows "\<exists>fs a'. pop_frames host a = Some (fs, a') \<and> fa_ok a' \<and> concat fs @ fa_pending a' = fa_pending a \<and>
    frames.next_frame (fa_pending a') = None \<and> list_all frames.is_frame fs"
  by (rule pop_frames_split [OF assms])

theorem pop_frames_returns_witness:
  "\<exists>fs a'. pop_frames BigEndian (push_data (message_bytes [] @ [9]) (new_FrameAssembler blank_header)) = Some (fs, a') \<and>
     fa_ok a' \<and> concat fs @ fa_pending a' =
       fa_pending (push_data (message_bytes [] @ [9]) (new_FrameAssembler blank_header)) \<and>
     frames.next_frame (fa_pending a') = None \<and> list_all frames.is_frame fs"
  by (rule pop_frames_returns) (simp_all add: fa_ok_push fa_ok_new fa_pending_push length_message_bytes)

section \<open>Reading\<close>

text \<open>The outcomes that stop the loop: the end of the stream and a failure.\<close>

fun stops :: "bytes outcome \<Rightarrow> bool" where
  "stops (Done bs) \<longleftrightarrow> bs = []"
| "stops (Fails e) \<longleftrightarrow> e \<noteq> EINTR"

fun failure_level :: "'a outcome \<Rightarrow> StatusLevel" where
  "failure_level (Done x) = Status_Ok"
| "failure_level (Fails e) = to_status_level default_PosixStatusSet e"

lemma receive_loop_steps:
  assumes "socket_bool h"
  shows "receive_loop h a [] = None"
    and "receive_loop h a (Done bs # outs) = (if bs = [] then Some (None, a, outs) else receive_loop h (push_data bs a) outs)"
    and "receive_loop h a (Fails EINTR # outs) = receive_loop h a outs"
    and "e \<noteq> EINTR \<Longrightarrow> receive_loop h a (Fails e # outs) =
      Some (if failure_level (Fails e :: bytes outcome) = Status_Error then Some (status_of_errno e) else None, a, outs)"
  using assms by (simp_all add: receive_loop.simps [of h a] socket_read_some_def)

lemma receive_loop_eq:
  assumes "socket_bool h" "fa_ok a"
  shows "case receive_loop h a outs of
      None \<Rightarrow> \<not> list_ex stops outs
    | Some (error, a', rest) \<Rightarrow> \<exists>used out. outs = used @ out # rest \<and> \<not> list_ex stops used \<and> stops out \<and> fa_ok a' \<and>
        fa_pending a' = fa_pending a @ concat (map data_of used) \<and> (error \<noteq> None \<longleftrightarrow> failure_level out = Status_Error) \<and>
        (\<forall>s. error = Some s \<longrightarrow> get_status_level s = Status_Error)"
  using assms(2)
proof (induction outs arbitrary: a)
  case Nil
  then show ?case by (simp add: receive_loop_steps [OF assms(1)])
next
  case (Cons out outs)
  show ?case
  proof (cases "stops out")
    case True
    then show ?thesis
      using Cons.prems
      by (cases out) (auto simp: receive_loop_steps [OF assms(1)] intro!: exI [of _ "[]"])
  next
    case False
    define a1 where "a1 = (case out of Done bs \<Rightarrow> push_data bs a | Fails e \<Rightarrow> a)"
    have step: "receive_loop h a (out # outs) = receive_loop h a1 outs"
      using False by (cases out) (simp_all add: a1_def receive_loop_steps [OF assms(1)])
    have a1: "fa_ok a1" "fa_pending a1 = fa_pending a @ data_of out"
      using Cons.prems by (cases out; simp add: a1_def fa_ok_push fa_pending_push)+
    show ?thesis
    proof (cases "receive_loop h a1 outs")
      case None
      with Cons.IH [OF a1(1)] False step show ?thesis by simp
    next
      case (Some x)
      obtain error a' rest where x: "x = (error, a', rest)" by (cases x) auto
      with Cons.IH [OF a1(1)] Some obtain used o' where u: "outs = used @ o' # rest" "\<not> list_ex stops used"
        "stops o'" "fa_ok a'" "fa_pending a' = fa_pending a1 @ concat (map data_of used)"
        "error \<noteq> None \<longleftrightarrow> failure_level o' = Status_Error" "\<forall>s. error = Some s \<longrightarrow> get_status_level s = Status_Error"
        by auto
      with Some x step False a1(2) show ?thesis
        by (auto intro!: exI [of _ "out # used"] exI [of _ o'])
    qed
  qed
qed

text \<open>A read of a connection returns exactly when the socket reports that it has nothing more, that the peer
  has closed, or a failure, and then within all vectors. Without an error it gives every frame
  that is whole by now, each with the id of the connection and in order, and keeps
  the rest: no byte is lost, and no whole frame is left behind. With an error it gives no
  frame, and the bytes read before it stay with the assembler.\<close>

theorem context_read_spec:
  assumes "socket_bool (m_socket_handle c)" "fa_ok (m_frame_assembler c)"
    and "length (fa_pending (m_frame_assembler c) @ concat (map data_of outs)) < 2 ^ 32"
  shows "case context_read host c outs of
      None \<Rightarrow> \<not> list_ex stops outs
    | Some (r, c', rest) \<Rightarrow> \<exists>used fs.
        outs = used @ rest \<and> filter stops used = [last used] \<and> c' = c\<lparr>m_frame_assembler := m_frame_assembler c'\<rparr> \<and> fa_ok (m_frame_assembler c') \<and>
        fa_pending (m_frame_assembler c) @ concat (map data_of used) = concat fs @ fa_pending (m_frame_assembler c') \<and>
        (if failure_level (last used) = Status_Error then m_value r = None \<and> level r = Status_Error \<and> fs = []
         else level r = Status_Ok \<and> list_all frames.is_frame fs \<and>
           m_value r = Some (map (\<lambda>f. \<lparr>connect_id = m_connect_id c, frame_data = f\<rparr>) fs) \<and>
           frames.next_frame (fa_pending (m_frame_assembler c')) = None)"
proof (cases "receive_loop (m_socket_handle c) (m_frame_assembler c) outs")
  case None
  with receive_loop_eq [OF assms(1,2), of outs] assms(1) show ?thesis
    by (simp add: context_read_def)
next
  case (Some x)
  obtain error a rest where x: "x = (error, a, rest)" by (cases x) auto
  with receive_loop_eq [OF assms(1,2), of outs] Some obtain used out where
    u: "outs = (used @ [out]) @ rest" "stops out" "fa_ok a"
      "filter stops used = []" "fa_pending a = fa_pending (m_frame_assembler c) @ concat (map data_of used)"
      "error \<noteq> None \<longleftrightarrow> failure_level out = Status_Error" "\<forall>s. error = Some s \<longrightarrow> get_status_level s = Status_Error"
    by (auto simp: filter_empty_conv list_ex_iff)
  have out: "data_of out = []"
    using u(2) by (cases out) simp_all
  show ?thesis
  proof (cases error)
    case (Some status)
    then have "context_read host c outs =
        Some (Result_of_status status, c\<lparr>m_frame_assembler := a\<rparr>, rest)"
      using assms(1) \<open>receive_loop _ _ _ = Some x\<close> x by (simp add: context_read_def)
    with u out Some show ?thesis
      by (auto intro!: exI [of _ "used @ [out]"] exI [of _ "[]"])
  next
    case None
    have "length (fa_pending a) < 2 ^ 32"
      using assms(3) u(1,5) by simp
    from pop_frames_split [OF u(3) this, of host] obtain fs a' where
      p: "pop_frames host a = Some (fs, a')" "fa_ok a'" "concat fs @ fa_pending a' = fa_pending a"
        "frames.next_frame (fa_pending a') = None" "list_all frames.is_frame fs"
      by auto
    then have "context_read host c outs =
        Some (Result_of (Some (map (\<lambda>f. \<lparr>connect_id = m_connect_id c, frame_data = f\<rparr>) fs))
          (status_of_level Status_Ok None), c\<lparr>m_frame_assembler := a'\<rparr>, rest)"
      using assms(1) None \<open>receive_loop _ _ _ = Some x\<close> x by (simp add: context_read_def)
    with u out None p show ?thesis
      by (auto intro!: exI [of _ "used @ [out]"] exI [of _ fs])
  qed
qed

theorem context_read_spec_witness:
  "case context_read LittleEndian (new_connect_context blank_header 7 (socket_of_descriptor 5))
      [Done (message_bytes []), Fails EINTR, Fails EAGAIN] of
      None \<Rightarrow> \<not> list_ex stops [Done (message_bytes []), Fails EINTR, Fails EAGAIN]
    | Some (r, c', rest) \<Rightarrow> \<exists>used fs.
        [Done (message_bytes []), Fails EINTR, Fails EAGAIN] = used @ rest \<and> filter stops used = [last used] \<and>
        c' = (new_connect_context blank_header 7 (socket_of_descriptor 5))\<lparr>m_frame_assembler := m_frame_assembler c'\<rparr> \<and>
        fa_ok (m_frame_assembler c') \<and>
        fa_pending (m_frame_assembler (new_connect_context blank_header 7 (socket_of_descriptor 5))) @
          concat (map data_of used) = concat fs @ fa_pending (m_frame_assembler c') \<and>
        (if failure_level (last used) = Status_Error then m_value r = None \<and> level r = Status_Error \<and> fs = []
         else level r = Status_Ok \<and> list_all frames.is_frame fs \<and>
           m_value r = Some (map (\<lambda>f. \<lparr>connect_id = m_connect_id (new_connect_context blank_header 7 (socket_of_descriptor 5)),
             frame_data = f\<rparr>) fs) \<and>
           frames.next_frame (fa_pending (m_frame_assembler c')) = None)"
  by (rule context_read_spec)
     (simp_all add: new_connect_context_def socket_of_descriptor_def new_socket_handle_def is_valid_handle_def
       fa_ok_new length_message_bytes)

definition fatal :: "bytes outcome \<Rightarrow> bool" where
  "fatal out \<longleftrightarrow> stops out \<and> failure_level out = Status_Error"

text \<open>The reads of a connection one after the other, up to the first error.\<close>

fun read_times ::
  "ByteOrder \<Rightarrow> nat \<Rightarrow> ConnectContext \<Rightarrow> bytes outcome list \<Rightarrow>
     (PosixFrame list \<times> ConnectContext \<times> bytes outcome list) option" where
  "read_times host 0 c outs = Some ([], c, outs)"
| "read_times host (Suc n) c outs =
     do {
       (r, c, outs) \<leftarrow> context_read host c outs;
       case m_value r of
         None \<Rightarrow> Some ([], c, outs)
       | Some fs \<Rightarrow> do { (gs, c, outs) \<leftarrow> read_times host n c outs; Some (fs @ gs, c, outs) }
     }"

lemma read_times_spec:
  assumes "socket_bool (m_socket_handle c)" "fa_ok (m_frame_assembler c)"
    and "length (fa_pending (m_frame_assembler c) @ concat (map data_of outs)) < 2 ^ 32"
    and "list_all (\<lambda>out. \<not> fatal out) outs"
    and "n \<le> length (filter stops outs)"
    and "n = 0 \<Longrightarrow> frames.next_frame (fa_pending (m_frame_assembler c)) = None"
  shows "\<exists>fs c' used rest. read_times host n c outs =
      Some (map (\<lambda>f. \<lparr>connect_id = m_connect_id c, frame_data = f\<rparr>) fs, c', rest) \<and>
    outs = used @ rest \<and> length (filter stops used) = n \<and> list_all frames.is_frame fs \<and>
    fa_pending (m_frame_assembler c) @ concat (map data_of used) = concat fs @ fa_pending (m_frame_assembler c') \<and>
    frames.next_frame (fa_pending (m_frame_assembler c')) = None"
  using assms
proof (induction n arbitrary: c outs)
  case 0
  then show ?case by (intro exI [of _ "[]"]) auto
next
  case (Suc n)
  have "list_ex stops outs"
  proof (rule ccontr)
    assume "\<not> list_ex stops outs"
    then have "filter stops outs = []" by (simp add: list_ex_iff)
    with Suc.prems(5) show False by simp
  qed
  with context_read_spec [OF Suc.prems(1-3), of host] obtain r c1 rest used fs where
    1: "context_read host c outs = Some (r, c1, rest)" "outs = used @ rest" "filter stops used = [last used]"
      "c1 = c\<lparr>m_frame_assembler := m_frame_assembler c1\<rparr>" "fa_ok (m_frame_assembler c1)"
      "fa_pending (m_frame_assembler c) @ concat (map data_of used) = concat fs @ fa_pending (m_frame_assembler c1)"
      "if failure_level (last used) = Status_Error then m_value r = None \<and> level r = Status_Error \<and> fs = []
       else level r = Status_Ok \<and> list_all frames.is_frame fs \<and>
         m_value r = Some (map (\<lambda>f. \<lparr>connect_id = m_connect_id c, frame_data = f\<rparr>) fs) \<and>
         frames.next_frame (fa_pending (m_frame_assembler c1)) = None"
    by (auto split: option.splits)
  have "last used \<in> set (filter stops used)"
    unfolding 1(3) by simp
  then have "last used \<in> set outs" "stops (last used)"
    using 1(2) by auto
  with Suc.prems(4) 1(7) have 2: "list_all frames.is_frame fs" "frames.next_frame (fa_pending (m_frame_assembler c1)) = None"
    "m_value r = Some (map (\<lambda>f. \<lparr>connect_id = m_connect_id c, frame_data = f\<rparr>) fs)"
    by (auto simp: list_all_iff fatal_def)
  have c1: "m_connect_id c1 = m_connect_id c" "m_socket_handle c1 = m_socket_handle c"
    by (subst 1(4), simp)+
  have len: "length (fa_pending (m_frame_assembler c1) @ concat (map data_of rest)) < 2 ^ 32"
    using Suc.prems(3) 1(2) arg_cong [OF 1(6), of length] by simp
  have "n \<le> length (filter stops rest)" "list_all (\<lambda>out. \<not> fatal out) rest"
    using Suc.prems(4,5) 1(2,3) by simp_all
  with Suc.IH [of c1 rest] Suc.prems(1) c1 1(5) len 2(2) obtain gs c' used' rest' where
    3: "read_times host n c1 rest = Some (map (\<lambda>f. \<lparr>connect_id = m_connect_id c, frame_data = f\<rparr>) gs, c', rest')"
      "rest = used' @ rest'" "length (filter stops used') = n" "list_all frames.is_frame gs"
      "fa_pending (m_frame_assembler c1) @ concat (map data_of used') = concat gs @ fa_pending (m_frame_assembler c')"
      "frames.next_frame (fa_pending (m_frame_assembler c')) = None"
    by auto
  have "read_times host (Suc n) c outs =
      Some (map (\<lambda>f. \<lparr>connect_id = m_connect_id c, frame_data = f\<rparr>) (fs @ gs), c', rest')"
    using 1(1) 2(3) 3(1) by simp
  moreover have "fa_pending (m_frame_assembler c) @ concat (map data_of (used @ used')) =
      concat (fs @ gs) @ fa_pending (m_frame_assembler c')"
    using 1(6) 3(5) by simp (metis append.assoc)
  ultimately show ?case
    using 1(2,3) 2(1) 3(2,3,4,6)
    by (intro exI [of _ "fs @ gs"] exI [of _ c'] exI [of _ "used @ used'"] exI [of _ rest']) simp
qed

text \<open>C24: A peer that sends whole frames: however the kernel cuts the stream into reads, interrupts
  them and lets the connection run dry in between, the reads of a connection give exactly these
  frames, in order and with the id of the connection, and the unfinished end of the stream
  stays with the assembler.\<close>

theorem connection_delivers_frames:
  assumes "is_valid_handle (socket_handle h)"
    and "list_all (\<lambda>out. \<not> fatal out) outs" "outs \<noteq> []" "stops (last outs)"
    and "concat (map data_of outs) = concat fs @ tail" "length (concat fs @ tail) < 2 ^ 32"
    and "list_all frames.is_frame fs" "frames.next_frame tail = None"
  shows "\<exists>c'. read_times host (length (filter stops outs)) (new_connect_context junk cid h) outs =
      Some (map (\<lambda>f. \<lparr>connect_id = cid, frame_data = f\<rparr>) fs, c', []) \<and> fa_pending (m_frame_assembler c') = tail"
proof -
  let ?c = "new_connect_context junk cid h"
  have c: "socket_bool (m_socket_handle ?c)" "fa_ok (m_frame_assembler ?c)" "fa_pending (m_frame_assembler ?c) = []"
    "m_connect_id ?c = cid"
    using assms(1) by (simp_all add: new_connect_context_def fa_ok_new)
  have "length (filter stops outs) \<noteq> 0"
    using assms(3,4) by (simp add: filter_empty_conv) (metis last_in_set)
  moreover have "length (fa_pending (m_frame_assembler ?c) @ concat (map data_of outs)) < 2 ^ 32"
    using c(3) assms(5,6) by simp
  ultimately obtain gs c' used rest where
    r: "read_times host (length (filter stops outs)) ?c outs =
      Some (map (\<lambda>f. \<lparr>connect_id = cid, frame_data = f\<rparr>) gs, c', rest)"
      "outs = used @ rest" "length (filter stops used) = length (filter stops outs)" "list_all frames.is_frame gs"
      "fa_pending (m_frame_assembler ?c) @ concat (map data_of used) = concat gs @ fa_pending (m_frame_assembler c')"
      "frames.next_frame (fa_pending (m_frame_assembler c')) = None"
    using read_times_spec [OF c(1,2) _ assms(2) order.refl, of host] unfolding c(4) by blast
  have "filter stops rest = []"
    using r(2,3) by simp
  then have rest: "rest = []"
    using assms(4) r(2) by (metis filter_empty_conv last_appendR last_in_set)
  then have *: "concat gs @ fa_pending (m_frame_assembler c') = concat fs @ tail"
    using r(2,5) c(3) assms(5) by simp
  obtain k where k: "k \<le> length fs" "gs = take k fs" "fa_pending (m_frame_assembler c') = concat (drop k fs) @ tail"
    using frames.frames_prefix [of fs gs tail] assms(7,8) r(4) * by (auto simp: list_all_iff)
  have "drop k fs = []"
  proof (cases "drop k fs")
    case (Cons f xs)
    with assms(7) have "frames.is_frame f"
      by (metis in_set_dropD list.set_intros(1) list_all_iff)
    with r(6) k(3) Cons frames.next_frame_append [of f "concat xs @ tail"] show ?thesis by simp
  qed simp
  with k have "gs = fs" "fa_pending (m_frame_assembler c') = tail"
    by simp_all
  with r(1) rest show ?thesis by simp
qed

theorem connection_delivers_frames_witness:
  "\<exists>c'. read_times BigEndian (length (filter stops [Done (take 5 (message_bytes [])), Fails EAGAIN,
        Done (drop 5 (message_bytes [])), Fails EINTR, Done [9], Fails EAGAIN]))
      (new_connect_context blank_header 7 (socket_of_descriptor 5))
      [Done (take 5 (message_bytes [])), Fails EAGAIN, Done (drop 5 (message_bytes [])), Fails EINTR, Done [9], Fails EAGAIN] =
      Some (map (\<lambda>f. \<lparr>connect_id = 7, frame_data = f\<rparr>) [message_bytes []], c', []) \<and>
    fa_pending (m_frame_assembler c') = [9]"
  by (rule connection_delivers_frames)
     (simp_all add: socket_of_descriptor_def new_socket_handle_def is_valid_handle_def level_of_errno
       fatal_def length_message_bytes message_is_frame frames.next_frame_def)

section \<open>Writing\<close>

lemma sint_of_nat_u32: "n < 2 ^ 31 \<Longrightarrow> sint (of_nat n :: u32) = int n"
  by (simp add: sint_uint uint_nat signed_take_bit_int_eq_self)

text \<open>Writing hands the kernel the oldest bytes that wait, then those of the new frames, in order. What the
  kernel took and what waits afterwards are together what waited before and the frames, unless
  the status is an error. An error leaves the bytes already taken at the front of the buffer, so a
  further write would send them a second time; the event loop removes the connection instead.\<close>

theorem context_write_conserves:
  assumes "socket_bool (m_socket_handle c)" "list_all errno_set outs"
    and "length (m_write_buffer c @ concat (map frame_data frames)) < 2 ^ 31"
    and "context_write c frames outs = Some (r, wire, c', rest)"
  shows "c' = c\<lparr>m_write_buffer := m_write_buffer c'\<rparr> \<and>
    (if level r = Status_Error
     then m_write_buffer c' = m_write_buffer c @ concat (map frame_data frames) \<and>
       (\<exists>k < length (m_write_buffer c'). wire = take k (m_write_buffer c'))
     else wire @ m_write_buffer c' = m_write_buffer c @ concat (map frame_data frames))"
proof -
  let ?b = "m_write_buffer c @ concat (map frame_data frames)"
  obtain ret wire' rest' where w: "socket_write (m_socket_handle c) ?b outs = Some (ret, wire', rest')"
    using assms(1,4) by (cases "socket_write (m_socket_handle c) ?b outs") (auto simp: context_write_def Let_def)
  from w write_loop_prefix [of "m_socket_handle c" ?b 0 outs ret wire' rest'] assms(1,2) obtain k where
    k: "k \<le> length ?b" "m_value ret = Some k" "wire' = take k ?b" "level ret = Status_Ok \<longleftrightarrow> k = length ?b"
    by (auto simp: socket_write_def)
  have "sint (of_nat k :: u32) = int k"
    using k(1) assms(3) by (intro sint_of_nat_u32) simp
  then have run: "context_write c frames outs = Some
      (if level ret = Status_Error \<or> k = 0
       then (Result_of_status (m_status_code ret), wire', c\<lparr>m_write_buffer := ?b\<rparr>, rest')
       else (Result_of (Some (int k)) (status_of_level Status_Ok None), wire', c\<lparr>m_write_buffer := drop k ?b\<rparr>, rest'))"
    using assms(1) w k(2) by (simp add: context_write_def Let_def)
  show ?thesis
  proof (cases "level ret = Status_Error \<or> k = 0")
    case True
    with run assms(4) have e: "r = Result_of_status (m_status_code ret)" "wire = wire'" "c' = c\<lparr>m_write_buffer := ?b\<rparr>"
      by simp_all
    have "level ret = Status_Error \<Longrightarrow> k < length ?b"
      using k(1,4) by (cases "k = length ?b") simp_all
    then have "level ret = Status_Error \<Longrightarrow> \<exists>k < length ?b. wire' = take k ?b"
      using k(3) by blast
    with True e k(3) show ?thesis by auto
  next
    case False
    with run assms(4) have "r = Result_of (Some (int k)) (status_of_level Status_Ok None)" "wire = wire'"
      "c' = c\<lparr>m_write_buffer := drop k ?b\<rparr>"
      by simp_all
    moreover have "take k ?b @ drop k ?b = ?b"
      by (rule append_take_drop_id)
    ultimately show ?thesis
      using k(3) by (simp del: take_append drop_append)
  qed
qed

theorem context_write_conserves_witness:
  "\<exists>r wire c' rest. context_write (new_connect_context blank_header 7 (socket_of_descriptor 5))
      [\<lparr>connect_id = 7, frame_data = [1, 2, 3]\<rparr>] [Done 2, Fails EAGAIN] = Some (r, wire, c', rest) \<and>
    wire = [1, 2] \<and> m_write_buffer c' = [3] \<and>
    c' = (new_connect_context blank_header 7 (socket_of_descriptor 5))\<lparr>m_write_buffer := m_write_buffer c'\<rparr> \<and>
    (if level r = Status_Error
     then m_write_buffer c' = m_write_buffer (new_connect_context blank_header 7 (socket_of_descriptor 5)) @
         concat (map frame_data [\<lparr>connect_id = 7, frame_data = [1, 2, 3]\<rparr>]) \<and>
       (\<exists>k < length (m_write_buffer c'). wire = take k (m_write_buffer c'))
     else wire @ m_write_buffer c' = m_write_buffer (new_connect_context blank_header 7 (socket_of_descriptor 5)) @
         concat (map frame_data [\<lparr>connect_id = 7, frame_data = [1, 2, 3]\<rparr>]))"
proof -
  let ?c = "new_connect_context blank_header 7 (socket_of_descriptor 5)"
  have w: "context_write ?c [\<lparr>connect_id = 7, frame_data = [1, 2, 3]\<rparr>] [Done 2, Fails EAGAIN] =
      Some (Result_of (Some 2) (status_of_level Status_Ok None), [1, 2], ?c\<lparr>m_write_buffer := [3]\<rparr>, [])"
    by (simp add: context_write_def new_connect_context_def socket_of_descriptor_def new_socket_handle_def
        is_valid_handle_def socket_write_def socket_write_loop.simps socket_write_some_def level_of_errno Let_def)
  have "socket_bool (m_socket_handle ?c)" "list_all errno_set [Done 2 :: nat outcome, Fails EAGAIN]"
    "length (m_write_buffer ?c @ concat (map frame_data [\<lparr>connect_id = 7, frame_data = [1, 2, 3]\<rparr>])) < 2 ^ 31"
    by (simp_all add: new_connect_context_def socket_of_descriptor_def new_socket_handle_def is_valid_handle_def)
  from context_write_conserves [OF this w] w show ?thesis
    by auto
qed

text \<open>A failure that is no branch after a part of the buffer: the bytes that were sent are kept.\<close>

lemma error_keeps_sent_bytes:
  "context_write (new_connect_context junk 7 (socket_of_descriptor 5)) [\<lparr>connect_id = 7, frame_data = [1, 2, 3]\<rparr>]
     [Done 2, Fails 104] =
   Some (Result_of_status (status_of_errno 104), [1, 2],
     (new_connect_context junk 7 (socket_of_descriptor 5))\<lparr>m_write_buffer := [1, 2, 3]\<rparr>, [])"
  by (simp add: context_write_def new_connect_context_def socket_of_descriptor_def new_socket_handle_def
      is_valid_handle_def socket_write_def socket_write_loop.simps socket_write_some_def level_of_errno Let_def)

lemma context_write_returns:
  assumes "socket_bool (m_socket_handle c)" "list_all errno_set outs"
    and "length (m_write_buffer c @ concat (map frame_data frames)) < 2 ^ 31"
  shows "context_write c frames outs \<noteq> None \<longleftrightarrow>
    list_ex hard_failure outs \<or> length (m_write_buffer c @ concat (map frame_data frames)) \<le> sum_list (map room_of outs)"
proof -
  let ?b = "m_write_buffer c @ concat (map frame_data frames)"
  have r: "socket_write (m_socket_handle c) ?b outs \<noteq> None \<longleftrightarrow> list_ex hard_failure outs \<or> length ?b \<le> sum_list (map room_of outs)"
    using write_loop_returns [OF _ assms(2), of "m_socket_handle c" ?b 0] assms(1) by (simp add: socket_write_def)
  have "context_write c frames outs \<noteq> None \<longleftrightarrow> socket_write (m_socket_handle c) ?b outs \<noteq> None"
  proof (cases "socket_write (m_socket_handle c) ?b outs")
    case None
    with assms(1) show ?thesis by (simp add: context_write_def Let_def)
  next
    case (Some x)
    obtain ret wire rest where x: "x = (ret, wire, rest)" by (cases x) auto
    from write_loop_prefix [of "m_socket_handle c" ?b 0 outs ret wire rest] assms Some x obtain k where
      "k \<le> length ?b" "m_value ret = Some k"
      by (auto simp: socket_write_def)
    with assms(3) have "sint (of_nat k :: u32) = int k"
      by (intro sint_of_nat_u32) simp
    with assms(1) Some x \<open>m_value ret = Some k\<close> show ?thesis
      by (simp add: context_write_def Let_def)
  qed
  with r show ?thesis by simp
qed

end
