(* ===== verification/Event_Loop.thy ===== *)
theory Event_Loop
  imports Connect
begin

text \<open>
  The reactor of the server, \<open>network/event_loop/posix_epoll_event_loop\<close>: the handlers of the
  events, over the connections of \<open>Connect\<close> and the mail box of \<open>Mail_Box\<close>.

  The outcomes of the system calls are the record \<open>kernel\<close>, one list for every kind of call and,
  for reads and writes, for every descriptor; the same record collects what the loop does to the
  outside: the calls of \<open>epoll_ctl\<close>, the bytes given to the sockets, the bytes taken from them and the
  descriptors closed. Diagnostics are left out, with the two calls that only serve them
  (\<open>getpeername\<close> and the peek of \<open>recv\<close>).

  A handler runs in the thread of the reactor; the other threads work on the mail box between
  two handlers. The result \<open>None\<close> is undefined behaviour, or outcomes that are used up.
\<close>

section \<open>State\<close>

record kernel =
  accept_outs :: "int outcome list"
  fcntl_outs :: "(u32 outcome \<times> u32 outcome) list"
  ctl_outs :: "unit outcome list"
  read_outs :: "int \<Rightarrow> bytes outcome list"
  write_outs :: "int \<Rightarrow> nat outcome list"
  counter_outs :: "(nat \<times> u64) outcome list"
  wait_outs :: "epoll_event list outcome list"
  ctl_calls :: "ctl_call list"
  bytes_in :: "(u64 \<times> bytes) list"
  bytes_out :: "(u64 \<times> bytes) list"
  closed_fds :: "int list"

record PosixEpollEventLoop =
  m_max_event_counts :: nat
  m_is_running_loop :: bool
  m_connect_counter :: u64
  m_reactor_mail_box :: "ReactorMailBox option"
  m_connect_contexts :: "int \<Rightarrow> ConnectContext option"
  m_epoll_handle :: UniqueHandle
  m_loop_event_handle :: "UniqueHandle option"
  m_server_handle :: PosixSocketHandle

definition new_event_loop :: PosixEpollEventLoop where
  "new_event_loop =
     \<lparr>m_max_event_counts = 1024, m_is_running_loop = False, m_connect_counter = 0, m_reactor_mail_box = None,
      m_connect_contexts = Map.empty, m_epoll_handle = -1, m_loop_event_handle = None,
      m_server_handle = new_socket_handle\<rparr>"

text \<open>A call of \<open>epoll_ctl\<close> uses an outcome; with an invalid descriptor there is no call.\<close>

definition do_ctl :: "(unit outcome \<Rightarrow> StatusCode \<times> ctl_call list) \<Rightarrow> kernel \<Rightarrow> (StatusCode \<times> kernel) option" where
  "do_ctl f k =
     (if snd (f (Done ())) = [] then Some (fst (f (Done ())), k)
      else case ctl_outs k of
        [] \<Rightarrow> None
      | out # outs \<Rightarrow>
          (case f out of (st, calls) \<Rightarrow> Some (st, k\<lparr>ctl_outs := outs, ctl_calls := ctl_calls k @ calls\<rparr>)))"

abbreviation client_events :: u32 where
  "client_events \<equiv> or (or (or EPOLLIN EPOLLRDHUP) EPOLLERR) EPOLLHUP"

section \<open>Starting\<close>

text \<open>The status of both calls is only logged.\<close>

definition loop_init ::
  "ReactorMailBox \<Rightarrow> UniqueHandle \<Rightarrow> PosixSocketHandle \<Rightarrow> UniqueHandle \<Rightarrow> PosixEpollEventLoop \<Rightarrow> kernel \<Rightarrow>
     (PosixEpollEventLoop \<times> kernel) option" where
  "loop_init box event_fd server_handle epoll_fd s k =
     do {
       let s = s\<lparr>m_reactor_mail_box := Some box, m_loop_event_handle := Some event_fd, m_epoll_handle := epoll_fd,
         m_server_handle := server_handle\<rparr>;
       (st, k) \<leftarrow> do_ctl (epoll_add epoll_fd (socket_handle server_handle)
         \<lparr>events = client_events, data_fd = socket_handle server_handle\<rparr>) k;
       (st, k) \<leftarrow> do_ctl (epoll_add epoll_fd event_fd \<lparr>events = EPOLLIN, data_fd = event_fd\<rparr>) k;
       Some (s, k)
     }"

definition loop_stop :: "PosixEpollEventLoop \<Rightarrow> PosixEpollEventLoop" where
  "loop_stop s = s\<lparr>m_is_running_loop := False\<rparr>"

definition loop_notify ::
  "PosixEpollEventLoop \<Rightarrow> nat outcome list \<Rightarrow> nat outcome list option" where
  "loop_notify s outs =
     (case m_loop_event_handle s of
        None \<Rightarrow> Some outs
      | Some h \<Rightarrow> map_option snd (event_handle_write h 1 outs))"

section \<open>Handlers\<close>

text \<open>Erasing a context closes its descriptor.\<close>

definition remove_connect :: "int \<Rightarrow> PosixEpollEventLoop \<Rightarrow> kernel \<Rightarrow> (PosixEpollEventLoop \<times> kernel) option" where
  "remove_connect fd s k =
     do {
       (st, k) \<leftarrow> do_ctl (epoll_remove (m_epoll_handle s) fd) k;
       case m_connect_contexts s fd of
         None \<Rightarrow> Some (s, k)
       | Some c \<Rightarrow>
           (case m_reactor_mail_box s of
              None \<Rightarrow> None
            | Some box \<Rightarrow>
                Some (s\<lparr>m_reactor_mail_box := Some (remove_to_client_queue (m_connect_id c) box),
                        m_connect_contexts := (m_connect_contexts s)(fd := None)\<rparr>,
                      k\<lparr>closed_fds := closed_fds k @ closed_by (socket_handle (m_socket_handle c))\<rparr>))
     }"

text \<open>The frames that the handler returns are those it still has to push when the queue to the server
  makes it wait.\<close>

definition readable_event ::
  "ByteOrder \<Rightarrow> int \<Rightarrow> PosixEpollEventLoop \<Rightarrow> kernel \<Rightarrow> (PosixFrame list \<times> PosixEpollEventLoop \<times> kernel) option" where
  "readable_event host fd s k =
     (case m_reactor_mail_box s of
        None \<Rightarrow> Some ([], s, k)
      | Some box \<Rightarrow>
          (case m_connect_contexts s fd of
             None \<Rightarrow> Some ([], s, k)
           | Some c \<Rightarrow>
               do {
                 (ret, c', outs) \<leftarrow> context_read host c (read_outs k fd);
                 let used = take (length (read_outs k fd) - length outs) (read_outs k fd);
                 let s = s\<lparr>m_connect_contexts := (m_connect_contexts s)(fd \<mapsto> c')\<rparr>;
                 let k = k\<lparr>read_outs := (read_outs k)(fd := outs),
                           bytes_in := bytes_in k @ [(m_connect_id c, concat (map data_of used))]\<rparr>;
                 if level ret = Status_Error
                 then do { (s, k) \<leftarrow> remove_connect fd s k; Some ([], s, k) }
                 else case m_value ret of
                   None \<Rightarrow> Some ([], s, k)
                 | Some frames \<Rightarrow>
                     (case push_to_server_frames frames box of
                        (waiting, box') \<Rightarrow> Some (waiting, s\<lparr>m_reactor_mail_box := Some box'\<rparr>, k))
               }))"

text \<open>The loop that takes the frames of a client out of its queue.\<close>

function pop_client_frames :: "u64 \<Rightarrow> ReactorMailBox \<Rightarrow> PosixFrame list \<times> ReactorMailBox" where
  "pop_client_frames cid box =
     (case pop_from_to_client_queue cid box of
        (None, box') \<Rightarrow> ([], box')
      | (Some f, box') \<Rightarrow> (case pop_client_frames cid box' of (fs, box'') \<Rightarrow> (f # fs, box'')))"
  by pat_completeness auto
termination
  by (relation "measure (\<lambda>(cid, box). case m_to_client_queues box cid of None \<Rightarrow> 0 | Some q \<Rightarrow> length q)")
     (auto simp: pop_from_to_client_queue_def split: option.splits list.splits)

declare pop_client_frames.simps [simp del]

definition writable_event ::
  "int \<Rightarrow> PosixEpollEventLoop \<Rightarrow> kernel \<Rightarrow> (PosixEpollEventLoop \<times> kernel) option" where
  "writable_event fd s k =
     (case m_reactor_mail_box s of
        None \<Rightarrow> Some (s, k)
      | Some box \<Rightarrow>
          (case m_connect_contexts s fd of
             None \<Rightarrow> Some (s, k)
           | Some c \<Rightarrow>
               do {
                 let (frames, box) = pop_client_frames (m_connect_id c) box;
                 (ret, out, c', outs) \<leftarrow> context_write c frames (write_outs k fd);
                 let s = s\<lparr>m_reactor_mail_box := Some box, m_connect_contexts := (m_connect_contexts s)(fd \<mapsto> c')\<rparr>;
                 let k = k\<lparr>write_outs := (write_outs k)(fd := outs), bytes_out := bytes_out k @ [(m_connect_id c, out)]\<rparr>;
                 if level ret = Status_Error then remove_connect fd s k
                 else do {
                   let ev = (if has_pending_write c' then or client_events EPOLLOUT else client_events);
                   (st, k) \<leftarrow> do_ctl (epoll_modify (m_epoll_handle s) fd \<lparr>events = ev, data_fd = fd\<rparr>) k;
                   Some (s, k)
                 }
               }))"

text \<open>What one turn of the loop of \<open>acceptable_event\<close> does with an accepted handle, and whether there is
  another turn. A return with the accepted handle closes it. \<open>emplace\<close> does nothing for a
  descriptor that is in the map, so the context it was given is destroyed.\<close>

definition emplace_context ::
  "SerializeHeader \<Rightarrow> PosixSocketHandle \<Rightarrow> ReactorMailBox \<Rightarrow> PosixEpollEventLoop \<Rightarrow> kernel \<Rightarrow>
     PosixEpollEventLoop \<times> kernel" where
  "emplace_context junk h box s k =
     (let fd = socket_handle h;
          connect_id = m_connect_counter s;
          s = s\<lparr>m_connect_counter := m_connect_counter s + 1,
                m_reactor_mail_box := Some (add_to_client_queue connect_id box)\<rparr>
      in if m_connect_contexts s fd = None
         then (s\<lparr>m_connect_contexts := (m_connect_contexts s)(fd \<mapsto> new_connect_context junk connect_id h)\<rparr>, k)
         else (s, k\<lparr>closed_fds := closed_fds k @ closed_by fd\<rparr>))"

definition register_client ::
  "SerializeHeader \<Rightarrow> PosixSocketHandle \<Rightarrow> ReactorMailBox \<Rightarrow> PosixEpollEventLoop \<Rightarrow> kernel \<Rightarrow>
     (bool \<times> PosixEpollEventLoop \<times> kernel) option" where
  "register_client junk h box s k =
     (let fd = socket_handle h in
      case do_ctl (epoll_add (m_epoll_handle s) fd \<lparr>events = client_events, data_fd = fd\<rparr>) k of
        None \<Rightarrow> None
      | Some (st, k) \<Rightarrow>
          if get_status_level st = Status_Error
          then Some (False, s, k\<lparr>closed_fds := closed_fds k @ closed_by fd\<rparr>)
          else Some (True, emplace_context junk h box s k))"

definition admit_client ::
  "SerializeHeader \<Rightarrow> PosixSocketHandle \<Rightarrow> ReactorMailBox \<Rightarrow> PosixEpollEventLoop \<Rightarrow> kernel \<Rightarrow>
     (bool \<times> PosixEpollEventLoop \<times> kernel) option" where
  "admit_client junk h box s k =
     (case fcntl_outs k of
        [] \<Rightarrow> None
      | (getfl, setfl) # fs \<Rightarrow>
          (let k = k\<lparr>fcntl_outs := fs\<rparr>;
               (st, h, flags) = socket_set_blocking False h getfl setfl
           in if get_status_level st = Status_Error
              then Some (False, s, k\<lparr>closed_fds := closed_fds k @ closed_by (socket_handle h)\<rparr>)
              else register_client junk h box s k))"

definition accept_one ::
  "SerializeHeader \<Rightarrow> ReactorMailBox \<Rightarrow> PosixEpollEventLoop \<Rightarrow> kernel \<Rightarrow> (bool \<times> PosixEpollEventLoop \<times> kernel) option" where
  "accept_one junk box s k =
     (case socket_accept (m_server_handle s) (accept_outs k) of
        None \<Rightarrow> None
      | Some (ret, outs) \<Rightarrow>
          (let k = k\<lparr>accept_outs := outs\<rparr> in
           case m_value ret of
             None \<Rightarrow> Some (False, s, k)
           | Some h \<Rightarrow> admit_client junk h box s k))"

lemma do_ctl_frame:
  assumes "do_ctl f k = Some (st, k')"
  shows "accept_outs k' = accept_outs k" "fcntl_outs k' = fcntl_outs k" "read_outs k' = read_outs k"
    "write_outs k' = write_outs k" "counter_outs k' = counter_outs k" "wait_outs k' = wait_outs k"
    "bytes_in k' = bytes_in k" "bytes_out k' = bytes_out k" "closed_fds k' = closed_fds k"
  using assms by (auto simp: do_ctl_def split: if_splits list.splits prod.splits)

lemma socket_accept_shorter:
  "socket_accept h outs = Some (r, rest) \<Longrightarrow> m_value r \<noteq> None \<Longrightarrow> length rest < length outs"
  by (auto simp: socket_accept_def split: if_splits dest: retry_shorter)

lemma emplace_accepts: "accept_outs (snd (emplace_context junk h box s k)) = accept_outs k"
  by (simp add: emplace_context_def Let_def)

lemma register_accepts:
  assumes "register_client junk h box s k = Some (b, s', k')" shows "accept_outs k' = accept_outs k"
proof (cases "do_ctl (epoll_add (m_epoll_handle s) (socket_handle h) \<lparr>events = client_events, data_fd = socket_handle h\<rparr>) k")
  case None
  with assms show ?thesis by (simp add: register_client_def)
next
  case (Some x)
  obtain st k1 where x: "x = (st, k1)" by fastforce
  with assms Some have "accept_outs k' = accept_outs k1"
    using emplace_accepts [of junk h box s k1] by (auto simp: register_client_def split: if_splits)
  with do_ctl_frame(1) [OF Some [unfolded x]] show ?thesis by simp
qed

lemma admit_accepts: "admit_client junk h box s k = Some (b, s', k') \<Longrightarrow> accept_outs k' = accept_outs k"
  by (auto simp: admit_client_def Let_def dest!: register_accepts split: list.splits if_splits prod.splits)

lemma accept_one_shorter:
  assumes "accept_one junk box s k = Some (True, s', k')"
  shows "length (accept_outs k') < length (accept_outs k)"
proof -
  obtain r outs h where "socket_accept (m_server_handle s) (accept_outs k) = Some (r, outs)" "m_value r = Some h"
    "admit_client junk h box s (k\<lparr>accept_outs := outs\<rparr>) = Some (True, s', k')"
    using assms by (auto simp: accept_one_def Let_def split: option.splits)
  with socket_accept_shorter [of "m_server_handle s" "accept_outs k" r outs] admit_accepts show ?thesis
    by fastforce
qed

function acceptable_loop ::
  "SerializeHeader \<Rightarrow> PosixEpollEventLoop \<Rightarrow> kernel \<Rightarrow> (PosixEpollEventLoop \<times> kernel) option" where
  "acceptable_loop junk s k =
     (case m_reactor_mail_box s of
        None \<Rightarrow> None
      | Some box \<Rightarrow>
          (case accept_one junk box s k of
             None \<Rightarrow> None
           | Some (again, s', k') \<Rightarrow> if again then acceptable_loop junk s' k' else Some (s', k')))"
  by pat_completeness auto
termination
  by (relation "measure (\<lambda>(junk, s, k). length (accept_outs k))") (auto dest: accept_one_shorter)

declare acceptable_loop.simps [simp del]

definition acceptable_event ::
  "SerializeHeader \<Rightarrow> PosixEpollEventLoop \<Rightarrow> kernel \<Rightarrow> (PosixEpollEventLoop \<times> kernel) option" where
  "acceptable_event junk s k =
     (if m_reactor_mail_box s = None \<or> \<not> socket_bool (m_server_handle s) then Some (s, k)
      else acceptable_loop junk s k)"

text \<open>The loop that empties the counter of the event descriptor: \<open>False\<close> when it returns with an error.\<close>

function drain_counter :: "UniqueHandle \<Rightarrow> (nat \<times> u64) outcome list \<Rightarrow> (bool \<times> (nat \<times> u64) outcome list) option" where
  "drain_counter h outs =
     (if \<not> is_valid_handle h then Some (False, outs)
      else case event_handle_read h outs of
        None \<Rightarrow> None
      | Some (ret, outs') \<Rightarrow>
          if level ret = Status_Error then Some (False, outs')
          else if status_eq (m_status_code ret) (status_of_code EAGAIN) then Some (True, outs')
          else drain_counter h outs')"
  by pat_completeness auto
termination
  by (relation "measure (\<lambda>(h, outs). length outs)")
     (auto simp: event_handle_read_def dest: retry_shorter split: if_splits)

declare drain_counter.simps [simp del]

text \<open>The loop over the map of connections in the order of its iteration. \<open>writable_event\<close> may erase the
  element the iterator stands at; the increment of the iterator is undefined then.\<close>

fun flush_connections :: "int list \<Rightarrow> PosixEpollEventLoop \<Rightarrow> kernel \<Rightarrow> (PosixEpollEventLoop \<times> kernel) option" where
  "flush_connections [] s k = Some (s, k)"
| "flush_connections (fd # fds) s k =
     (case writable_event fd s k of
        None \<Rightarrow> None
      | Some (s', k') \<Rightarrow> if m_connect_contexts s' fd = None then None else flush_connections fds s' k')"

definition notify_event ::
  "int list \<Rightarrow> PosixEpollEventLoop \<Rightarrow> kernel \<Rightarrow> (PosixEpollEventLoop \<times> kernel) option" where
  "notify_event order s k =
     (case m_loop_event_handle s of
        None \<Rightarrow> Some (s, k)
      | Some h \<Rightarrow>
          (case drain_counter h (counter_outs k) of
             None \<Rightarrow> None
           | Some (False, outs) \<Rightarrow> Some (s, k\<lparr>counter_outs := outs\<rparr>)
           | Some (True, outs) \<Rightarrow> flush_connections order s (k\<lparr>counter_outs := outs\<rparr>)))"

section \<open>The loop\<close>

text \<open>One event. \<open>order\<close> gives the order in which a map is iterated.\<close>

definition handle_event ::
  "ByteOrder \<Rightarrow> SerializeHeader \<Rightarrow> ((int \<Rightarrow> ConnectContext option) \<Rightarrow> int list) \<Rightarrow> epoll_event \<Rightarrow>
     PosixEpollEventLoop \<Rightarrow> kernel \<Rightarrow> (PosixFrame list \<times> PosixEpollEventLoop \<times> kernel) option" where
  "handle_event host junk order ev s k =
     (let fd = data_fd ev; event = events ev in
      if fd = socket_handle (m_server_handle s) then map_option (Pair []) (acceptable_event junk s k)
      else case m_loop_event_handle s of
        None \<Rightarrow> None
      | Some event_fd \<Rightarrow>
          if fd = event_fd then map_option (Pair []) (notify_event (order (m_connect_contexts s)) s k)
          else if and event (or (or EPOLLHUP EPOLLERR) EPOLLRDHUP) \<noteq> 0
          then map_option (Pair []) (remove_connect fd s k)
          else do {
            (waiting, s, k) \<leftarrow> (if and event EPOLLIN \<noteq> 0 then readable_event host fd s k else Some ([], s, k));
            if waiting \<noteq> [] then Some (waiting, s, k)
            else if and event EPOLLOUT \<noteq> 0 then map_option (Pair []) (writable_event fd s k)
            else Some ([], s, k)
          })"

text \<open>The events of one \<open>epoll_wait\<close>, up to one at which the reactor has to wait for room in the queue to
  the server.\<close>

fun handle_events ::
  "ByteOrder \<Rightarrow> SerializeHeader \<Rightarrow> ((int \<Rightarrow> ConnectContext option) \<Rightarrow> int list) \<Rightarrow> epoll_event list \<Rightarrow>
     PosixEpollEventLoop \<Rightarrow> kernel \<Rightarrow> (PosixFrame list \<times> PosixEpollEventLoop \<times> kernel) option" where
  "handle_events host junk order [] s k = Some ([], s, k)"
| "handle_events host junk order (ev # evs) s k =
     (case handle_event host junk order ev s k of
        None \<Rightarrow> None
      | Some (waiting, s', k') \<Rightarrow>
          if waiting \<noteq> [] then Some (waiting, s', k') else handle_events host junk order evs s' k')"

datatype run_end = Skipped | Stopped | Wait_Failed | Blocked "PosixFrame list"

text \<open>The loop of \<open>run\<close>. The list are the values of \<open>m_is_running\<close> that the loop reads, which another
  thread clears.\<close>

fun run_loop ::
  "ByteOrder \<Rightarrow> SerializeHeader \<Rightarrow> ((int \<Rightarrow> ConnectContext option) \<Rightarrow> int list) \<Rightarrow> bool list \<Rightarrow>
     PosixEpollEventLoop \<Rightarrow> kernel \<Rightarrow> (run_end \<times> PosixEpollEventLoop \<times> kernel) option" where
  "run_loop host junk order [] s k = None"
| "run_loop host junk order (False # flags) s k = Some (Stopped, s\<lparr>m_is_running_loop := False\<rparr>, k)"
| "run_loop host junk order (True # flags) s k =
     (case epoll_handle_wait (m_epoll_handle s) (m_max_event_counts s) (wait_outs k) of
        None \<Rightarrow> None
      | Some (ret, evs, outs) \<Rightarrow>
          (let k = k\<lparr>wait_outs := outs\<rparr> in
           if level ret = Status_Error then Some (Wait_Failed, s, k)
           else if level ret = Status_Branch then run_loop host junk order flags s k
           else if m_value ret = None then Some (Wait_Failed, s, k)
           else case handle_events host junk order evs s k of
             None \<Rightarrow> None
           | Some (waiting, s', k') \<Rightarrow>
               if waiting \<noteq> [] then Some (Blocked waiting, s', k') else run_loop host junk order flags s' k'))"

definition run ::
  "ByteOrder \<Rightarrow> SerializeHeader \<Rightarrow> ((int \<Rightarrow> ConnectContext option) \<Rightarrow> int list) \<Rightarrow> bool list \<Rightarrow>
     PosixEpollEventLoop \<Rightarrow> kernel \<Rightarrow> (run_end \<times> PosixEpollEventLoop \<times> kernel) option" where
  "run host junk order flags s k =
     (if m_reactor_mail_box s = None \<or> \<not> is_valid_handle (m_epoll_handle s) \<or> m_loop_event_handle s = None \<or>
         \<not> socket_bool (m_server_handle s)
      then Some (Skipped, s, k)
      else run_loop host junk order flags (s\<lparr>m_is_running_loop := True\<rparr>) k)"

section \<open>What the handlers change\<close>

lemma pop_client_frames_eq:
  "pop_client_frames cid box =
     (case m_to_client_queues box cid of
        None \<Rightarrow> ([], box)
      | Some q \<Rightarrow> (q, box\<lparr>m_to_client_queues := (m_to_client_queues box)(cid \<mapsto> [])\<rparr>))"
proof (cases "m_to_client_queues box cid")
  case None
  then show ?thesis by (simp add: pop_client_frames.simps [of cid box] pop_from_to_client_queue_def)
next
  case (Some q)
  then show ?thesis
  proof (induction q arbitrary: box)
    case Nil
    then have "box\<lparr>m_to_client_queues := (m_to_client_queues box)(cid \<mapsto> [])\<rparr> = box"
      by (simp add: fun_upd_idem)
    with Nil show ?case by (simp add: pop_client_frames.simps [of cid box] pop_from_to_client_queue_def)
  next
    case (Cons f q)
    then show ?case
      by (subst pop_client_frames.simps) (simp add: pop_from_to_client_queue_def)
  qed
qed

text \<open>The three ways in which a handler changes the connections and the mail box: it updates the state of a
  connection, it removes one, it adds one.\<close>

definition with_context :: "int \<Rightarrow> ConnectContext \<Rightarrow> ReactorMailBox \<Rightarrow> PosixEpollEventLoop \<Rightarrow> PosixEpollEventLoop" where
  "with_context fd c box s =
     s\<lparr>m_reactor_mail_box := Some box, m_connect_contexts := (m_connect_contexts s)(fd \<mapsto> c)\<rparr>"

definition without_context :: "int \<Rightarrow> u64 \<Rightarrow> ReactorMailBox \<Rightarrow> PosixEpollEventLoop \<Rightarrow> PosixEpollEventLoop" where
  "without_context fd cid box s =
     s\<lparr>m_reactor_mail_box := Some (remove_to_client_queue cid box), m_connect_contexts := (m_connect_contexts s)(fd := None)\<rparr>"

lemma remove_connect_effect:
  assumes "remove_connect fd s k = Some (s', k')" "m_reactor_mail_box s = Some box"
  shows "s' = (case m_connect_contexts s fd of None \<Rightarrow> s | Some c \<Rightarrow> without_context fd (m_connect_id c) box s)"
    and "bytes_out k' = bytes_out k" "bytes_in k' = bytes_in k"
    and "closed_fds k' = closed_fds k @
      (case m_connect_contexts s fd of None \<Rightarrow> [] | Some c \<Rightarrow> closed_by (socket_handle (m_socket_handle c)))"
proof -
  obtain st k1 where ctl: "do_ctl (epoll_remove (m_epoll_handle s) fd) k = Some (st, k1)"
    using assms(1) by (cases "do_ctl (epoll_remove (m_epoll_handle s) fd) k") (auto simp: remove_connect_def)
  with assms show "s' = (case m_connect_contexts s fd of None \<Rightarrow> s | Some c \<Rightarrow> without_context fd (m_connect_id c) box s)"
    "bytes_out k' = bytes_out k" "bytes_in k' = bytes_in k"
    "closed_fds k' = closed_fds k @
      (case m_connect_contexts s fd of None \<Rightarrow> [] | Some c \<Rightarrow> closed_by (socket_handle (m_socket_handle c)))"
    using do_ctl_frame(7-9) [OF ctl] by (auto simp: remove_connect_def without_context_def split: option.splits)
qed

lemma push_to_server_queues:
  "m_to_client_queues (snd (push_to_server_frames fs box)) = m_to_client_queues box"
proof (induction fs box rule: push_to_server_frames.induct)
  case (2 f fs box)
  obtain c sg b where p: "push_to_server_frame f box = (c, sg, b)"
    by (cases "push_to_server_frame f box") auto
  then have "m_to_client_queues b = m_to_client_queues box"
    by (auto simp: push_to_server_frame_def server_call_def split: prod.splits)
  with 2 p show ?case by (cases c) simp_all
qed simp

text \<open>What a handler of a connection does to the connection: it stays, with the same descriptor and id, or it
  is removed.\<close>

definition same_connection :: "ConnectContext \<Rightarrow> ConnectContext \<Rightarrow> bool" where
  "same_connection c c' \<longleftrightarrow> m_connect_id c' = m_connect_id c \<and> m_socket_handle c' = m_socket_handle c"

text \<open>Reading: the frames that the handler gives to the queue to the server, or still has to, are the whole
  frames that are there by now.\<close>

lemma readable_effect:
  assumes "readable_event host fd s k = Some (waiting, s', k')" "m_reactor_mail_box s = Some box"
    and "m_connect_contexts s fd = Some c" "socket_bool (m_socket_handle c)" "fa_ok (m_frame_assembler c)"
    and "length (fa_pending (m_frame_assembler c) @ concat (map data_of (read_outs k fd))) < 2 ^ 32"
    and "bytes_in k = []"
  obtains (Kept) fs a box' data where "s' = with_context fd (c\<lparr>m_frame_assembler := a\<rparr>) box' s" "fa_ok a"
      "push_to_server_frames (map (\<lambda>f. \<lparr>connect_id = m_connect_id c, frame_data = f\<rparr>) fs) box = (waiting, box')"
      "bytes_in k' = [(m_connect_id c, data)]"
      "fa_pending (m_frame_assembler c) @ data = concat fs @ fa_pending a" "list_all frames.is_frame fs"
      "frames.next_frame (fa_pending a) = None" "bytes_out k' = bytes_out k"
    | (Removed) data where "s' = without_context fd (m_connect_id c) box s" "waiting = []"
      "bytes_in k' = [(m_connect_id c, data)]" "bytes_out k' = bytes_out k"
proof -
  obtain r c' rest where r: "context_read host c (read_outs k fd) = Some (r, c', rest)"
    using assms(1-3) by (cases "context_read host c (read_outs k fd)") (auto simp: readable_event_def)
  with context_read_spec [OF assms(4-6), of host] obtain used fs where
    u: "read_outs k fd = used @ rest" "c' = c\<lparr>m_frame_assembler := m_frame_assembler c'\<rparr>" "fa_ok (m_frame_assembler c')"
      "fa_pending (m_frame_assembler c) @ concat (map data_of used) = concat fs @ fa_pending (m_frame_assembler c')"
      "if failure_level (last used) = Status_Error then m_value r = None \<and> level r = Status_Error \<and> fs = []
       else level r = Status_Ok \<and> list_all frames.is_frame fs \<and>
         m_value r = Some (map (\<lambda>f. \<lparr>connect_id = m_connect_id c, frame_data = f\<rparr>) fs) \<and>
         frames.next_frame (fa_pending (m_frame_assembler c')) = None"
    by auto
  have used: "take (length (read_outs k fd) - length rest) (read_outs k fd) = used"
    using u(1) by simp
  let ?s = "s\<lparr>m_connect_contexts := (m_connect_contexts s)(fd \<mapsto> c')\<rparr>"
  let ?k = "k\<lparr>read_outs := (read_outs k)(fd := rest),
    bytes_in := bytes_in k @ [(m_connect_id c, concat (map data_of used))]\<rparr>"
  have id: "m_connect_id c' = m_connect_id c"
    by (subst u(2)) simp
  show thesis
  proof (cases "level r = Status_Error")
    case True
    with assms(1-3) r used have "waiting = []" and rem: "remove_connect fd ?s ?k = Some (s', k')"
      by (auto simp: readable_event_def Let_def split: Option.bind_splits)
    with remove_connect_effect [OF rem, of box] assms(2,7) id show thesis
      using True u(5) r assms(3)
      by (intro Removed [of "concat (map data_of used)"]) (auto simp: without_context_def split: if_splits)
  next
    case False
    with u(5) have v: "m_value r = Some (map (\<lambda>f. \<lparr>connect_id = m_connect_id c, frame_data = f\<rparr>) fs)"
      "list_all frames.is_frame fs" "frames.next_frame (fa_pending (m_frame_assembler c')) = None"
      by (simp_all split: if_splits)
    obtain w box' where p: "push_to_server_frames (map (\<lambda>f. \<lparr>connect_id = m_connect_id c, frame_data = f\<rparr>) fs) box = (w, box')"
      by fastforce
    with assms(1-3) r used v(1) False have "waiting = w" "s' = ?s\<lparr>m_reactor_mail_box := Some box'\<rparr>" "k' = ?k"
      by (simp_all add: readable_event_def Let_def)
    moreover have "?s\<lparr>m_reactor_mail_box := Some box'\<rparr> = with_context fd (c\<lparr>m_frame_assembler := m_frame_assembler c'\<rparr>) box' s"
      by (simp add: with_context_def flip: u(2))
    ultimately show thesis
      using p v u(3,4) assms(3,7) r
      by (intro Kept [of "m_frame_assembler c'" box' fs "concat (map data_of used)"]) simp_all
  qed
qed

text \<open>Writing: the bytes that were sent, then those that wait in the connection, are what waited there and the
  frames of its queue.\<close>

lemma writable_effect:
  assumes "writable_event fd s k = Some (s', k')" "m_reactor_mail_box s = Some box"
    and "m_connect_contexts s fd = Some c" "socket_bool (m_socket_handle c)" "m_to_client_queues box (m_connect_id c) = Some q"
    and "list_all errno_set (write_outs k fd)" "length (m_write_buffer c @ concat (map frame_data q)) < 2 ^ 31"
  obtains (Kept) wb data where
      "s' = with_context fd (c\<lparr>m_write_buffer := wb\<rparr>)
        (box\<lparr>m_to_client_queues := (m_to_client_queues box)(m_connect_id c \<mapsto> [])\<rparr>) s"
      "bytes_out k' = bytes_out k @ [(m_connect_id c, data)]" "data @ wb = m_write_buffer c @ concat (map frame_data q)"
      "is_valid_handle (m_epoll_handle s) \<Longrightarrow> \<exists>ev. ctl_calls k' = ctl_calls k @ [(EPOLL_CTL_MOD, fd, Some ev)] \<and>
        (and (events ev) EPOLLOUT \<noteq> 0 \<longleftrightarrow> wb \<noteq> [])"
      "bytes_in k' = bytes_in k" "\<And>g. g \<noteq> fd \<Longrightarrow> write_outs k' g = write_outs k g"
    | (Removed) box' data where "s' = without_context fd (m_connect_id c) box' s"
      "m_to_client_queues box' = (m_to_client_queues box)(m_connect_id c \<mapsto> [])"
      "bytes_out k' = bytes_out k @ [(m_connect_id c, data)]" "bytes_in k' = bytes_in k"
      "m_to_server_frame_queue box' = m_to_server_frame_queue box"
proof -
  let ?box = "box\<lparr>m_to_client_queues := (m_to_client_queues box)(m_connect_id c \<mapsto> [])\<rparr>"
  obtain r out c' outs where w: "context_write c q (write_outs k fd) = Some (r, out, c', outs)"
    using assms(1-3,5)
    by (cases "context_write c q (write_outs k fd)") (auto simp: writable_event_def pop_client_frames_eq)
  note conserves = context_write_conserves [OF assms(4,6,7) w]
  let ?s = "with_context fd c' ?box s"
  let ?k = "k\<lparr>write_outs := (write_outs k)(fd := outs), bytes_out := bytes_out k @ [(m_connect_id c, out)]\<rparr>"
  have c': "c' = c\<lparr>m_write_buffer := m_write_buffer c'\<rparr>" and id: "m_connect_id c' = m_connect_id c"
    using conserves by (simp, metis ConnectContext.select_convs(1) ConnectContext.surjective ConnectContext.update_convs(4))
  show thesis
  proof (cases "level r = Status_Error")
    case True
    with assms(1-3,5) w have rem: "remove_connect fd ?s ?k = Some (s', k')"
      by (simp add: writable_event_def pop_client_frames_eq Let_def with_context_def)
    with remove_connect_effect [OF rem, of ?box] id show thesis
      by (intro Removed [of ?box out]) (simp_all add: without_context_def with_context_def)
  next
    case False
    let ?ev = "if has_pending_write c' then or client_events EPOLLOUT else client_events"
    from False assms(1-3,5) w obtain st where
      ctl: "do_ctl (epoll_modify (m_epoll_handle s) fd \<lparr>events = ?ev, data_fd = fd\<rparr>) ?k = Some (st, k')" and s': "s' = ?s"
      by (auto simp: writable_event_def pop_client_frames_eq Let_def with_context_def split: Option.bind_splits)
    have "and ?ev EPOLLOUT \<noteq> 0 \<longleftrightarrow> m_write_buffer c' \<noteq> []"
      by (simp add: has_pending_write_def)
    with ctl have "is_valid_handle (m_epoll_handle s) \<Longrightarrow> \<exists>ev. ctl_calls k' = ctl_calls k @ [(EPOLL_CTL_MOD, fd, Some ev)] \<and>
        (and (events ev) EPOLLOUT \<noteq> 0 \<longleftrightarrow> m_write_buffer c' \<noteq> [])"
      by (auto simp: do_ctl_def epoll_modify_def epoll_control_def split: list.splits outcome.splits)
    moreover have "out @ m_write_buffer c' = m_write_buffer c @ concat (map frame_data q)"
      using conserves False by simp
    moreover have "s' = with_context fd (c\<lparr>m_write_buffer := m_write_buffer c'\<rparr>) ?box s"
      using s' by (simp flip: c')
    ultimately show thesis
      using do_ctl_frame(4,7,8) [OF ctl] by (intro Kept [of "m_write_buffer c'" out]) simp_all
  qed
qed

end
