(* ===== verification/Reactor.thy ===== *)
theory Reactor
  imports Event_Loop
begin

text \<open>
  The reactor at work: the handlers of \<open>Event_Loop\<close> in any order, with any outcomes of the system
  calls, and the other threads on the mail box in between. Beside the state of the loop the
  system keeps what went over every connection, by its id: the bytes that arrived, the bytes
  written to the socket and the bytes of the frames sent to the client. It keeps the frames that
  the calls of the business threads returned, and the ids that the connections were given.
\<close>

section \<open>The system\<close>

record reactor =
  r_loop :: PosixEpollEventLoop
  r_waiting :: "PosixFrame list"
  arrived :: "u64 \<Rightarrow> bytes"
  delivered :: "PosixFrame list"
  written :: "u64 \<Rightarrow> bytes"
  sent :: "u64 \<Rightarrow> bytes"
  given :: "u64 list"

definition add_log :: "(u64 \<times> 'a list) list \<Rightarrow> (u64 \<Rightarrow> 'a list) \<Rightarrow> u64 \<Rightarrow> 'a list" where
  "add_log l f cid = f cid @ concat (map snd (filter (\<lambda>p. fst p = cid) l))"

lemma add_log_simps [simp]:
  "add_log [] f = f"
  "add_log [(cid, d)] f = f(cid := f cid @ d)"
  by (auto simp: add_log_def)

text \<open>The frames of one connection, and the frame that a call on the queue to the server returns.\<close>

definition frames_of :: "u64 \<Rightarrow> PosixFrame list \<Rightarrow> bytes list" where
  "frames_of cid fs = map frame_data (filter (\<lambda>fr. connect_id fr = cid) fs)"

lemma frames_of_append [simp]: "frames_of cid (fs @ gs) = frames_of cid fs @ frames_of cid gs"
  by (simp add: frames_of_def)

lemma frames_of_connection [simp]:
  "frames_of i (map (\<lambda>d. \<lparr>connect_id = cid, frame_data = d\<rparr>) ds) = (if i = cid then ds else [])"
  by (induction ds) (simp_all add: frames_of_def comp_def)

fun popped :: "PosixFrame continuation \<Rightarrow> PosixFrame list" where
  "popped (Return (Popped (Some f))) = [f]"
| "popped k = []"

text \<open>The descriptors that a list of outcomes of \<open>accept4\<close> gives. The kernel gives descriptors that are not
  open, and the counter of connections has room.\<close>

fun accepted :: "int outcome list \<Rightarrow> int list" where
  "accepted [] = []"
| "accepted (Done fd # outs) = fd # accepted outs"
| "accepted (Fails e # outs) = accepted outs"

definition accepts_fresh :: "PosixEpollEventLoop \<Rightarrow> int outcome list \<Rightarrow> bool" where
  "accepts_fresh s outs \<longleftrightarrow> distinct (accepted outs) \<and>
     (\<forall>fd \<in> set (accepted outs). 0 \<le> fd \<and> m_connect_contexts s fd = None) \<and>
     unat (m_connect_counter s) + length outs < 2 ^ 64"

text \<open>The ids of the connections that are there for some descriptors.\<close>

definition ids_at :: "int list \<Rightarrow> PosixEpollEventLoop \<Rightarrow> u64 list" where
  "ids_at fds s = map (\<lambda>fd. m_connect_id (the (m_connect_contexts s fd))) (filter (\<lambda>fd. m_connect_contexts s fd \<noteq> None) fds)"

text \<open>The limits on the bytes that wait in a connection, and outcomes as the manual describes them.\<close>

definition read_bounded :: "int \<Rightarrow> PosixEpollEventLoop \<Rightarrow> kernel \<Rightarrow> bool" where
  "read_bounded fd s k \<longleftrightarrow> bytes_in k = [] \<and> bytes_out k = [] \<and>
     (\<forall>c. m_connect_contexts s fd = Some c \<longrightarrow>
        length (fa_pending (m_frame_assembler c) @ concat (map data_of (read_outs k fd))) < 2 ^ 32)"

definition write_bounded :: "int \<Rightarrow> PosixEpollEventLoop \<Rightarrow> kernel \<Rightarrow> bool" where
  "write_bounded fd s k \<longleftrightarrow> bytes_in k = [] \<and> bytes_out k = [] \<and> list_all errno_set (write_outs k fd) \<and>
     (\<forall>c box q. m_connect_contexts s fd = Some c \<longrightarrow> m_reactor_mail_box s = Some box \<longrightarrow>
        m_to_client_queues box (m_connect_id c) = Some q \<longrightarrow>
        length (m_write_buffer c @ concat (map frame_data q)) < 2 ^ 31)"

text \<open>The steps: a handler of the reactor while it does not wait, another attempt to push the frames it waits
  with, a business thread that sends a frame, and a call of another thread on the queue to the server: it takes a
  frame, tries to, or closes the queue.\<close>

inductive reactor_step :: "ByteOrder \<Rightarrow> SerializeHeader \<Rightarrow> reactor \<Rightarrow> reactor \<Rightarrow> bool" for host junk where
  Accepting: "r_waiting r = [] \<Longrightarrow> accepts_fresh (r_loop r) (accept_outs k) \<Longrightarrow>
    acceptable_event junk (r_loop r) k = Some (s, k') \<Longrightarrow>
    reactor_step host junk r (r\<lparr>r_loop := s, given := given r @ ids_at (accepted (accept_outs k)) s\<rparr>)"
| Reading: "r_waiting r = [] \<Longrightarrow> read_bounded fd (r_loop r) k \<Longrightarrow>
    readable_event host fd (r_loop r) k = Some (w, s, k') \<Longrightarrow>
    reactor_step host junk r (r\<lparr>r_loop := s, r_waiting := w, arrived := add_log (bytes_in k') (arrived r)\<rparr>)"
| Writing: "r_waiting r = [] \<Longrightarrow> write_bounded fd (r_loop r) k \<Longrightarrow>
    writable_event fd (r_loop r) k = Some (s, k') \<Longrightarrow>
    reactor_step host junk r (r\<lparr>r_loop := s, written := add_log (bytes_out k') (written r)\<rparr>)"
| Removing: "r_waiting r = [] \<Longrightarrow> remove_connect fd (r_loop r) k = Some (s, k') \<Longrightarrow>
    reactor_step host junk r (r\<lparr>r_loop := s\<rparr>)"
| Resuming: "m_reactor_mail_box (r_loop r) = Some box \<Longrightarrow> push_to_server_frames (r_waiting r) box = (w, box') \<Longrightarrow>
    reactor_step host junk r (r\<lparr>r_loop := (r_loop r)\<lparr>m_reactor_mail_box := Some box'\<rparr>, r_waiting := w\<rparr>)"
| Sending: "m_reactor_mail_box (r_loop r) = Some box \<Longrightarrow>
    reactor_step host junk r (r\<lparr>r_loop := (r_loop r)\<lparr>m_reactor_mail_box := Some (push_to_client_frame f box)\<rparr>,
      sent := (if m_to_client_queues box (connect_id f) = None then sent r
               else (sent r)(connect_id f := sent r (connect_id f) @ frame_data f))\<rparr>)"
| Serving: "m_reactor_mail_box (r_loop r) = Some box \<Longrightarrow>
    (k, sg, box') \<in> {pop_from_to_server_frame box, try_pop_from_to_server_queue box, stop box} \<Longrightarrow>
    reactor_step host junk r (r\<lparr>r_loop := (r_loop r)\<lparr>m_reactor_mail_box := Some box'\<rparr>,
      delivered := delivered r @ popped k\<rparr>)"

section \<open>The invariant\<close>

text \<open>What holds of one connection: its socket is its descriptor, it has a queue in the mail box, and the
  bytes written and those still waiting are the bytes sent.\<close>

definition connection_ok :: "ReactorMailBox \<Rightarrow> reactor \<Rightarrow> int \<Rightarrow> ConnectContext \<Rightarrow> bool" where
  "connection_ok box r fd c \<longleftrightarrow>
     socket_handle (m_socket_handle c) = fd \<and> 0 \<le> fd \<and> fa_ok (m_frame_assembler c) \<and>
     m_connect_id c < m_connect_counter (r_loop r) \<and>
     (\<exists>q. m_to_client_queues box (m_connect_id c) = Some q \<and>
        written r (m_connect_id c) @ m_write_buffer c @ concat (map frame_data q) = sent r (m_connect_id c))"

definition reactor_inv :: "reactor \<Rightarrow> bool" where
  "reactor_inv r \<longleftrightarrow> (\<exists>box. m_reactor_mail_box (r_loop r) = Some box \<and>
     (\<forall>fd c. m_connect_contexts (r_loop r) fd = Some c \<longrightarrow> connection_ok box r fd c) \<and>
     (\<forall>fd fd' c c'. m_connect_contexts (r_loop r) fd = Some c \<longrightarrow> m_connect_contexts (r_loop r) fd' = Some c' \<longrightarrow>
        m_connect_id c = m_connect_id c' \<longrightarrow> fd = fd') \<and>
     (\<forall>cid. m_to_client_queues box cid \<noteq> None \<longrightarrow>
        (\<exists>fd c. m_connect_contexts (r_loop r) fd = Some c \<and> m_connect_id c = cid)) \<and>
     (\<forall>cid. m_connect_counter (r_loop r) \<le> cid \<longrightarrow>
        arrived r cid = [] \<and> written r cid = [] \<and> sent r cid = []) \<and>
     given r = map of_nat [0..<unat (m_connect_counter (r_loop r))])"

lemma reactor_invD:
  assumes "reactor_inv r" "m_reactor_mail_box (r_loop r) = Some box"
  shows "m_connect_contexts (r_loop r) fd = Some c \<Longrightarrow> connection_ok box r fd c"
    and "m_connect_contexts (r_loop r) fd = Some c \<Longrightarrow> m_connect_contexts (r_loop r) fd' = Some c' \<Longrightarrow>
      m_connect_id c = m_connect_id c' \<Longrightarrow> fd = fd'"
    and "m_to_client_queues box cid = Some q \<Longrightarrow> \<exists>fd c. m_connect_contexts (r_loop r) fd = Some c \<and> m_connect_id c = cid"
    and "m_connect_counter (r_loop r) \<le> cid \<Longrightarrow>
      arrived r cid = [] \<and> written r cid = [] \<and> sent r cid = []"
    and "given r = map of_nat [0..<unat (m_connect_counter (r_loop r))]"
  using assms by (auto simp: reactor_inv_def)

text \<open>A connection is updated, with its queue and what went over it; nothing else changes.\<close>

lemma inv_update:
  assumes inv: "reactor_inv r" "m_reactor_mail_box (r_loop r) = Some box"
    and c: "m_connect_contexts (r_loop r) fd = Some c" "same_connection c c'"
    and r': "r_loop r' = with_context fd c' box' (r_loop r)"
    and box': "\<And>cid. cid \<noteq> m_connect_id c \<Longrightarrow> m_to_client_queues box' cid = m_to_client_queues box cid"
    and ghost: "\<And>cid. cid \<noteq> m_connect_id c \<Longrightarrow> arrived r' cid = arrived r cid \<and>
      written r' cid = written r cid \<and> sent r' cid = sent r cid"
    and given: "given r' = given r"
    and ok: "connection_ok box' r' fd c'"
  shows "reactor_inv r'"
proof -
  note D = reactor_invD [OF inv]
  have id: "m_connect_id c' = m_connect_id c"
    using c(2) by (simp add: same_connection_def)
  have other: "connection_ok box' r' g d" if g: "m_connect_contexts (r_loop r) g = Some d" "g \<noteq> fd" for g d
  proof -
    have ne: "m_connect_id d \<noteq> m_connect_id c"
      using D(2) [OF g(1) c(1)] g(2) by blast
    show ?thesis
      using D(1) [OF g(1)] box' [OF ne] ghost [OF ne] r' by (simp add: connection_ok_def with_context_def)
  qed
  have "connection_ok box r fd c"
    by (rule D(1) [OF c(1)])
  then have "m_connect_id c < m_connect_counter (r_loop r)"
    by (simp add: connection_ok_def)
  then have new: "\<not> m_connect_counter (r_loop r) \<le> m_connect_id c"
    by simp
  have earlier: "\<exists>e. m_connect_contexts (r_loop r) g = Some e \<and> m_connect_id e = m_connect_id d"
    if "m_connect_contexts (r_loop r') g = Some d" for g d
    using that r' c(1) id by (cases "g = fd") (auto simp: with_context_def)
  show ?thesis
    unfolding reactor_inv_def
  proof (intro exI [of _ box'] conjI allI impI)
    show "m_reactor_mail_box (r_loop r') = Some box'"
      using r' by (simp add: with_context_def)
  next
    fix g d assume "m_connect_contexts (r_loop r') g = Some d"
    then show "connection_ok box' r' g d"
      using r' other ok by (auto simp: with_context_def split: if_splits)
  next
    fix g g' d d' assume "m_connect_contexts (r_loop r') g = Some d" "m_connect_contexts (r_loop r') g' = Some d'"
      "m_connect_id d = m_connect_id d'"
    then show "g = g'"
      using earlier D(2) by metis
  next
    fix cid assume "m_to_client_queues box' cid \<noteq> None"
    then have "\<exists>g d. m_connect_contexts (r_loop r) g = Some d \<and> m_connect_id d = cid"
      using box' [of cid] c(1) D(3) [of cid] by (cases "cid = m_connect_id c") auto
    then obtain g d where g: "m_connect_contexts (r_loop r) g = Some d" "m_connect_id d = cid"
      by blast
    show "\<exists>g d. m_connect_contexts (r_loop r') g = Some d \<and> m_connect_id d = cid"
    proof (cases "g = fd")
      case True
      with g c(1) id r' show ?thesis by (intro exI [of _ fd] exI [of _ c']) (simp add: with_context_def)
    next
      case False
      with g r' show ?thesis by (intro exI [of _ g] exI [of _ d]) (simp add: with_context_def)
    qed
  next
    fix cid assume *: "m_connect_counter (r_loop r') \<le> cid"
    then have "cid \<noteq> m_connect_id c" "m_connect_counter (r_loop r) \<le> cid"
      using new r' by (auto simp: with_context_def)
    then show "arrived r' cid = []" "written r' cid = []" "sent r' cid = []"
      using ghost D(4) by simp_all
  next
    show "given r' = map of_nat [0..<unat (m_connect_counter (r_loop r'))]"
      using D(5) given r' by (simp add: with_context_def)
  qed
qed

text \<open>A connection is removed, with its queue.\<close>

lemma inv_remove:
  assumes inv: "reactor_inv r" "m_reactor_mail_box (r_loop r) = Some box"
    and c: "m_connect_contexts (r_loop r) fd = Some c"
    and r': "r_loop r' = without_context fd (m_connect_id c) box' (r_loop r)"
    and box': "\<And>cid. cid \<noteq> m_connect_id c \<Longrightarrow> m_to_client_queues box' cid = m_to_client_queues box cid"
    and ghost: "\<And>cid. cid \<noteq> m_connect_id c \<Longrightarrow> arrived r' cid = arrived r cid \<and>
      written r' cid = written r cid \<and> sent r' cid = sent r cid"
    and given: "given r' = given r"
  shows "reactor_inv r'"
proof -
  note D = reactor_invD [OF inv]
  have q: "m_to_client_queues (remove_to_client_queue (m_connect_id c) box') = (m_to_client_queues box')(m_connect_id c := None)"
    by (rule remove_client_queues)
  have "m_connect_id c < m_connect_counter (r_loop r)"
    using D(1) [OF c] by (simp add: connection_ok_def)
  then have new: "\<not> m_connect_counter (r_loop r) \<le> m_connect_id c"
    by simp
  have other: "connection_ok (remove_to_client_queue (m_connect_id c) box') r' g d"
    if g: "m_connect_contexts (r_loop r) g = Some d" "g \<noteq> fd" for g d
  proof -
    have ne: "m_connect_id d \<noteq> m_connect_id c"
      using D(2) [OF g(1) c] g(2) by blast
    show ?thesis
      using D(1) [OF g(1)] box' [OF ne] ghost [OF ne] r' ne by (simp add: connection_ok_def without_context_def q)
  qed
  have earlier: "m_connect_contexts (r_loop r) g = Some d" if "m_connect_contexts (r_loop r') g = Some d" for g d
    using that r' by (cases "g = fd") (auto simp: without_context_def)
  show ?thesis
    unfolding reactor_inv_def
  proof (intro exI [of _ "remove_to_client_queue (m_connect_id c) box'"] conjI allI impI)
    show "m_reactor_mail_box (r_loop r') = Some (remove_to_client_queue (m_connect_id c) box')"
      using r' by (simp add: without_context_def)
  next
    fix g d assume "m_connect_contexts (r_loop r') g = Some d"
    then show "connection_ok (remove_to_client_queue (m_connect_id c) box') r' g d"
      using r' other by (auto simp: without_context_def split: if_splits)
  next
    fix g g' d d' assume "m_connect_contexts (r_loop r') g = Some d" "m_connect_contexts (r_loop r') g' = Some d'"
      "m_connect_id d = m_connect_id d'"
    then show "g = g'"
      using earlier D(2) by metis
  next
    fix cid assume "m_to_client_queues (remove_to_client_queue (m_connect_id c) box') cid \<noteq> None"
    then have ne: "cid \<noteq> m_connect_id c" and "m_to_client_queues box cid \<noteq> None"
      using box' [of cid] by (auto simp: q split: if_splits)
    then obtain g d where g: "m_connect_contexts (r_loop r) g = Some d" "m_connect_id d = cid"
      using D(3) [of cid] by auto
    with ne c have "g \<noteq> fd" by auto
    with g r' show "\<exists>g d. m_connect_contexts (r_loop r') g = Some d \<and> m_connect_id d = cid"
      by (intro exI [of _ g] exI [of _ d]) (simp add: without_context_def)
  next
    fix cid assume *: "m_connect_counter (r_loop r') \<le> cid"
    then have "cid \<noteq> m_connect_id c" "m_connect_counter (r_loop r) \<le> cid"
      using new r' by (auto simp: without_context_def)
    then show "arrived r' cid = []" "written r' cid = []" "sent r' cid = []"
      using ghost D(4) by simp_all
  next
    show "given r' = map of_nat [0..<unat (m_connect_counter (r_loop r'))]"
      using D(5) given r' by (simp add: without_context_def)
  qed
qed

text \<open>A connection is added: it gets an id that no connection has had, and an empty queue.\<close>

lemma inv_add:
  assumes inv: "reactor_inv r" "m_reactor_mail_box (r_loop r) = Some box"
    and h: "m_connect_contexts (r_loop r) (socket_handle h) = None" "0 \<le> socket_handle h"
    and room: "unat (m_connect_counter (r_loop r)) + 1 < 2 ^ 64"
  shows "reactor_inv (r\<lparr>r_loop := fst (emplace_context junk h box (r_loop r) k),
    given := given r @ [m_connect_counter (r_loop r)]\<rparr>)"
proof -
  note D = reactor_invD [OF inv]
  let ?n = "m_connect_counter (r_loop r)"
  let ?c = "new_connect_context junk ?n h"
  let ?box = "add_to_client_queue ?n box"
  define r' where "r' = r\<lparr>r_loop := fst (emplace_context junk h box (r_loop r) k), given := given r @ [?n]\<rparr>"
  have r': "m_reactor_mail_box (r_loop r') = Some ?box" "m_connect_counter (r_loop r') = ?n + 1"
    "m_connect_contexts (r_loop r') = (m_connect_contexts (r_loop r))(socket_handle h \<mapsto> ?c)"
    "arrived r' = arrived r" "written r' = written r" "sent r' = sent r" "given r' = given r @ [?n]"
    using h(1) by (simp_all add: r'_def emplace_context_def Let_def)
  have succ: "unat (?n + 1) = unat ?n + 1"
    using room by (simp add: unat_add_small)
  have below: "m_connect_id c < ?n" if "m_connect_contexts (r_loop r) fd = Some c" for fd c
    using D(1) [OF that] by (simp add: connection_ok_def)
  have less: "x < ?n + 1 \<longleftrightarrow> x < ?n \<or> x = ?n" for x
    using succ by (auto simp: word_less_nat_alt word_unat_eq_iff)
  have c: "m_connect_id ?c = ?n" "m_socket_handle ?c = h" "m_write_buffer ?c = []" "fa_ok (m_frame_assembler ?c)"
    "fa_pending (m_frame_assembler ?c) = []"
    by (simp_all add: new_connect_context_def fa_ok_new)
  have new: "connection_ok ?box r' (socket_handle h) ?c"
    using h(2) D(4) [of ?n] by (simp add: connection_ok_def c r' add_client_queues less)
  have old: "connection_ok ?box r' fd d" if d: "m_connect_contexts (r_loop r) fd = Some d" for fd d
    using D(1) [OF d] below [OF d] by (auto simp: connection_ok_def r' add_client_queues less)
  have "reactor_inv r'"
    unfolding reactor_inv_def
  proof (intro exI [of _ ?box] conjI allI impI)
    show "m_reactor_mail_box (r_loop r') = Some ?box"
      by (rule r'(1))
  next
    fix fd d assume "m_connect_contexts (r_loop r') fd = Some d"
    then show "connection_ok ?box r' fd d"
      using new old by (auto simp: r' split: if_splits)
  next
    fix g g' d d' assume "m_connect_contexts (r_loop r') g = Some d" "m_connect_contexts (r_loop r') g' = Some d'"
      "m_connect_id d = m_connect_id d'"
    then show "g = g'"
      using D(2) [of g d g' d'] below [of g d] below [of g' d'] by (auto simp: r' c split: if_splits)
  next
    fix cid assume q: "m_to_client_queues ?box cid \<noteq> None"
    show "\<exists>fd d. m_connect_contexts (r_loop r') fd = Some d \<and> m_connect_id d = cid"
    proof (cases "cid = ?n")
      case True
      then show ?thesis by (intro exI [of _ "socket_handle h"] exI [of _ ?c]) (simp add: r' c)
    next
      case False
      with q obtain fd d where d: "m_connect_contexts (r_loop r) fd = Some d" "m_connect_id d = cid"
        using D(3) [of cid] by (auto simp: add_client_queues)
      with h(1) have "fd \<noteq> socket_handle h" by auto
      with d show ?thesis by (intro exI [of _ fd] exI [of _ d]) (simp add: r')
    qed
  next
    fix cid assume "m_connect_counter (r_loop r') \<le> cid"
    then have "?n \<le> cid"
      using succ by (simp add: r' word_le_nat_alt)
    then show "arrived r' cid = []" "written r' cid = []" "sent r' cid = []"
      using D(4) by (simp_all add: r')
  next
    show "given r' = map of_nat [0..<unat (m_connect_counter (r_loop r'))]"
      using D(5) by (simp add: r' succ)
  qed
  then show ?thesis by (simp add: r'_def)
qed

text \<open>An empty change of the mail box: only the queue to the server is touched.\<close>

lemma inv_mail_box:
  assumes "reactor_inv r" "m_reactor_mail_box (r_loop r) = Some box" "m_to_client_queues box' = m_to_client_queues box"
  shows "reactor_inv (r\<lparr>r_loop := (r_loop r)\<lparr>m_reactor_mail_box := Some box'\<rparr>\<rparr>)"
  using assms by (auto simp: reactor_inv_def connection_ok_def)

lemma inv_waiting: "reactor_inv (r\<lparr>r_waiting := w\<rparr>) = reactor_inv r"
  by (simp add: reactor_inv_def connection_ok_def)

lemma inv_delivered: "reactor_inv (r\<lparr>r_loop := s, delivered := d\<rparr>) = reactor_inv (r\<lparr>r_loop := s\<rparr>)"
  by (simp add: reactor_inv_def connection_ok_def)

lemmas server_calls_def = pop_from_to_server_frame_def try_pop_from_to_server_queue_def stop_def

section \<open>Every step keeps the invariant\<close>

lemma socket_accept_done:
  assumes "socket_accept h outs = Some (r, rest)"
  shows "(m_value r = None \<or> (\<exists>fd. m_value r = Some (socket_of_descriptor fd) \<and> accepted outs = fd # accepted rest)) \<and>
    length rest \<le> length outs"
proof (cases "is_valid_handle (socket_handle h)")
  case False
  with assms show ?thesis by (auto simp: socket_accept_def)
next
  case True
  let ?f = "\<lambda>out. case out of
      Done ret \<Rightarrow> Result_of (Some (socket_of_descriptor ret)) (status_of_level Status_Ok None)
    | Fails e \<Rightarrow> Result_of_status (status_of_errno e)"
  from True assms have "retry ?f outs = Some (r, rest)"
    by (simp add: socket_accept_def)
  then obtain ints out where o: "outs = ints @ out # rest" "list_all interrupted ints" "r = ?f out"
    by (rule retry_cases)
  have ints: "list_all interrupted xs \<Longrightarrow> accepted xs = []" for xs :: "int outcome list"
    by (induction xs rule: accepted.induct) simp_all
  have app: "accepted (xs @ ys) = accepted xs @ accepted ys" for xs ys
    by (induction xs rule: accepted.induct) simp_all
  show ?thesis
    using o ints [OF o(2)] by (cases out) (auto simp: app)
qed

lemma set_blocking_handle:
  "socket_set_blocking b h g t = (st, h', flags) \<Longrightarrow> socket_handle h' = socket_handle h"
  by (auto simp: socket_set_blocking_def Let_def split: if_splits outcome.splits)

text \<open>One turn of the accept loop changes nothing in the loop, or adds a connection for the descriptor it has got.\<close>

lemma accept_one_effect:
  assumes "accept_one junk box s k = Some (again, s', k')"
  shows "(again = False \<and> s' = s) \<or>
    (\<exists>h k1. again \<and> s' = fst (emplace_context junk h box s k1) \<and> accepted (accept_outs k) = socket_handle h # accepted (accept_outs k') \<and>
      length (accept_outs k') < length (accept_outs k))"
proof -
  obtain r outs where a: "socket_accept (m_server_handle s) (accept_outs k) = Some (r, outs)"
    using assms by (cases "socket_accept (m_server_handle s) (accept_outs k)") (auto simp: accept_one_def)
  show ?thesis
  proof (cases "m_value r")
    case None
    with assms a show ?thesis by (simp add: accept_one_def Let_def)
  next
    case (Some h)
    with socket_accept_done [OF a] have h: "accepted (accept_outs k) = socket_handle h # accepted outs"
      by (auto simp: socket_of_descriptor_def)
    have short: "length outs < length (accept_outs k)"
      using socket_accept_shorter [OF a] Some by simp
    from assms a Some have admit: "admit_client junk h box s (k\<lparr>accept_outs := outs\<rparr>) = Some (again, s', k')"
      by (simp add: accept_one_def Let_def)
    then obtain getfl setfl fs where f: "fcntl_outs k = (getfl, setfl) # fs"
      by (cases "fcntl_outs k") (auto simp: admit_client_def)
    obtain st h' flags where b: "socket_set_blocking False h getfl setfl = (st, h', flags)"
      by (cases "socket_set_blocking False h getfl setfl") auto
    note h' = set_blocking_handle [OF b]
    let ?k = "k\<lparr>accept_outs := outs, fcntl_outs := fs\<rparr>"
    let ?ctl = "do_ctl (epoll_add (m_epoll_handle s) (socket_handle h') \<lparr>events = client_events, data_fd = socket_handle h'\<rparr>) ?k"
    show ?thesis
    proof (cases "get_status_level st = Status_Error")
      case True
      with admit f b show ?thesis by (simp add: admit_client_def Let_def)
    next
      case False
      with admit f b have reg: "register_client junk h' box s ?k = Some (again, s', k')"
        by (simp add: admit_client_def Let_def)
      then obtain st1 k1 where ctl: "?ctl = Some (st1, k1)"
        by (cases ?ctl) (auto simp: register_client_def Let_def)
      show ?thesis
      proof (cases "get_status_level st1 = Status_Error")
        case True
        with reg ctl show ?thesis by (simp add: register_client_def Let_def)
      next
        case no: False
        with reg ctl have "again" "(s', k') = emplace_context junk h' box s k1"
          by (simp_all add: register_client_def Let_def)
        moreover have "accept_outs k' = outs"
          using register_accepts [OF reg] by simp
        ultimately show ?thesis
          using h h' short by (metis fst_conv)
      qed
    qed
  qed
qed

lemma ids_at_fresh: "accepts_fresh s outs \<Longrightarrow> ids_at (accepted outs) s = []"
  by (auto simp: ids_at_def accepts_fresh_def filter_empty_conv)

lemma emplace_keeps:
  "m_connect_contexts s fd = Some c \<Longrightarrow> m_connect_contexts (fst (emplace_context junk h box s k)) fd = Some c"
  by (auto simp: emplace_context_def Let_def)

lemma emplace_effect:
  assumes "m_connect_contexts (fst (emplace_context junk h box s k)) fd = Some c"
  shows "m_connect_contexts s fd = Some c \<or> fa_pending (m_frame_assembler c) = [] \<and> m_connect_id c = m_connect_counter s"
  using assms by (auto simp: emplace_context_def new_connect_context_def fa_ok_new Let_def split: if_splits)

lemma emplace_box:
  "map_option m_to_server_frame_queue (m_reactor_mail_box (fst (emplace_context junk h box s k))) = Some (m_to_server_frame_queue box)"
  by (simp add: emplace_context_def add_to_client_queue_def Let_def)

text \<open>The loop keeps the connections, and gives every new one an id that no connection has had.\<close>

lemma acceptable_loop_inv:
  assumes "acceptable_loop junk (r_loop r) k = Some (s', k')" "reactor_inv r" "accepts_fresh (r_loop r) (accept_outs k)"
  shows "reactor_inv (r\<lparr>r_loop := s', given := given r @ ids_at (accepted (accept_outs k)) s'\<rparr>) \<and>
    (\<forall>fd c. m_connect_contexts (r_loop r) fd = Some c \<longrightarrow> m_connect_contexts s' fd = Some c) \<and>
    (\<forall>fd c. m_connect_contexts s' fd = Some c \<longrightarrow> m_connect_contexts (r_loop r) fd = Some c \<or>
       fa_pending (m_frame_assembler c) = [] \<and> m_connect_counter (r_loop r) \<le> m_connect_id c) \<and>
    map_option m_to_server_frame_queue (m_reactor_mail_box s') = map_option m_to_server_frame_queue (m_reactor_mail_box (r_loop r))"
  using assms
proof (induction "length (accept_outs k)" arbitrary: r k rule: less_induct)
  case less
  obtain box where box: "m_reactor_mail_box (r_loop r) = Some box"
    using less.prems(2) by (auto simp: reactor_inv_def)
  obtain again s1 k1 where one: "accept_one junk box (r_loop r) k = Some (again, s1, k1)"
    using less.prems(1) box
    by (cases "accept_one junk box (r_loop r) k") (auto simp: acceptable_loop.simps [of junk "r_loop r" k])
  from accept_one_effect [OF one] show ?case
  proof (elim disjE exE conjE)
    assume "again = False" "s1 = r_loop r"
    with less.prems(1) box one have "s' = r_loop r"
      by (simp add: acceptable_loop.simps [of junk "r_loop r" k])
    with less.prems(2) ids_at_fresh [OF less.prems(3)] show ?thesis by simp
  next
    fix h k2
    let ?n = "m_connect_counter (r_loop r)"
    assume again: again and s1: "s1 = fst (emplace_context junk h box (r_loop r) k2)"
      and acc: "accepted (accept_outs k) = socket_handle h # accepted (accept_outs k1)"
      and short: "length (accept_outs k1) < length (accept_outs k)"
    have fresh: "m_connect_contexts (r_loop r) (socket_handle h) = None" "0 \<le> socket_handle h"
      "unat ?n + 1 < 2 ^ 64"
      using less.prems(3) acc short by (auto simp: accepts_fresh_def)
    let ?r = "r\<lparr>r_loop := s1, given := given r @ [?n]\<rparr>"
    have inv: "reactor_inv ?r"
      using inv_add [OF less.prems(2) box fresh] s1 by simp
    have succ: "unat (?n + 1) = unat ?n + 1"
      using fresh(3) by (simp add: unat_add_small)
    then have acc1: "accepts_fresh (r_loop ?r) (accept_outs k1)"
      using less.prems(3) acc short fresh(1)
      by (auto simp: accepts_fresh_def s1 emplace_context_def Let_def)
    have "acceptable_loop junk (r_loop ?r) k1 = Some (s', k')"
      using again less.prems(1) box one by (simp add: acceptable_loop.simps [of junk "r_loop r" k])
    from less.hyps [OF short this inv acc1]
    have IH: "reactor_inv (?r\<lparr>r_loop := s', given := given ?r @ ids_at (accepted (accept_outs k1)) s'\<rparr>)"
      "\<And>fd c. m_connect_contexts s1 fd = Some c \<Longrightarrow> m_connect_contexts s' fd = Some c"
      "\<And>fd c. m_connect_contexts s' fd = Some c \<Longrightarrow> m_connect_contexts s1 fd = Some c \<or>
        fa_pending (m_frame_assembler c) = [] \<and> m_connect_counter s1 \<le> m_connect_id c"
      "map_option m_to_server_frame_queue (m_reactor_mail_box s') = map_option m_to_server_frame_queue (m_reactor_mail_box s1)"
      by simp_all
    have "m_connect_counter s1 = ?n + 1"
      using fresh(1) by (simp add: s1 emplace_context_def Let_def)
    then have counter: "m_connect_counter s1 \<le> i \<Longrightarrow> ?n \<le> i" for i
      using succ by (simp add: word_le_nat_alt)
    have new: "m_connect_contexts s' fd = Some c \<Longrightarrow> m_connect_contexts (r_loop r) fd = Some c \<or>
        fa_pending (m_frame_assembler c) = [] \<and> ?n \<le> m_connect_id c" for fd c
      using IH(3) [of fd c] emplace_effect [of junk h box "r_loop r" k2 fd c] counter s1 by auto
    have "m_connect_contexts s1 (socket_handle h) = Some (new_connect_context junk ?n h)"
      using fresh(1) by (simp add: s1 emplace_context_def Let_def)
    then have "ids_at (accepted (accept_outs k)) s' = ?n # ids_at (accepted (accept_outs k1)) s'"
      using IH(2) by (simp add: acc ids_at_def new_connect_context_def)
    moreover have "m_connect_contexts (r_loop r) fd = Some c \<Longrightarrow> m_connect_contexts s' fd = Some c" for fd c
      using IH(2) emplace_keeps [of "r_loop r"] s1 by blast
    ultimately show ?thesis using IH(1,4) new emplace_box [of junk h box "r_loop r" k2] s1 box by simp
  qed
qed

lemma connection_okD:
  assumes "connection_ok box r fd c"
  shows "socket_bool (m_socket_handle c)" "fa_ok (m_frame_assembler c)"
    and "\<exists>q. m_to_client_queues box (m_connect_id c) = Some q"
  using assms by (auto simp: connection_ok_def is_valid_handle_def)

lemma reading_inv:
  assumes inv: "reactor_inv r" and b: "read_bounded fd (r_loop r) k"
    and step: "readable_event host fd (r_loop r) k = Some (w, s, k')"
  shows "reactor_inv (r\<lparr>r_loop := s, r_waiting := w, arrived := add_log (bytes_in k') (arrived r)\<rparr>)"
proof -
  obtain box where box: "m_reactor_mail_box (r_loop r) = Some box"
    using inv by (auto simp: reactor_inv_def)
  show ?thesis
  proof (cases "m_connect_contexts (r_loop r) fd")
    case None
    with step box b have "s = r_loop r" "k' = k"
      by (simp_all add: readable_event_def)
    with b inv show ?thesis by (simp add: read_bounded_def reactor_inv_def connection_ok_def)
  next
    case (Some c)
    have ok: "connection_ok box r fd c"
      by (rule reactor_invD(1) [OF inv box Some])
    have bound: "length (fa_pending (m_frame_assembler c) @ concat (map data_of (read_outs k fd))) < 2 ^ 32"
      and none: "bytes_in k = []"
      using b Some by (simp_all add: read_bounded_def)
    show ?thesis
    proof (cases rule: readable_effect [OF step box Some connection_okD(1,2) [OF ok] bound none, case_names Kept Removed])
      case (Kept fs a box' data)
      have q: "m_to_client_queues box' = m_to_client_queues box"
        using push_to_server_queues [of _ box] Kept(3) by (metis snd_conv)
      show ?thesis
        by (rule inv_update [OF inv box Some, where c' = "c\<lparr>m_frame_assembler := a\<rparr>" and box' = box'])
           (use ok Kept q in \<open>auto simp: same_connection_def connection_ok_def with_context_def\<close>)
    next
      case (Removed data)
      show ?thesis
        by (rule inv_remove [OF inv box Some, where box' = box]) (use Removed in auto)
    qed
  qed
qed

lemma writing_inv:
  assumes inv: "reactor_inv r" and b: "write_bounded fd (r_loop r) k"
    and step: "writable_event fd (r_loop r) k = Some (s, k')"
  shows "reactor_inv (r\<lparr>r_loop := s, written := add_log (bytes_out k') (written r)\<rparr>)"
proof -
  obtain box where box: "m_reactor_mail_box (r_loop r) = Some box"
    using inv by (auto simp: reactor_inv_def)
  show ?thesis
  proof (cases "m_connect_contexts (r_loop r) fd")
    case None
    with step box b have "s = r_loop r" "k' = k"
      by (simp_all add: writable_event_def)
    with b inv show ?thesis by (simp add: write_bounded_def reactor_inv_def connection_ok_def)
  next
    case (Some c)
    have ok: "connection_ok box r fd c"
      by (rule reactor_invD(1) [OF inv box Some])
    then obtain q where q: "m_to_client_queues box (m_connect_id c) = Some q"
      using connection_okD(3) by blast
    have errno: "list_all errno_set (write_outs k fd)" and out: "bytes_out k = []"
      and len: "length (m_write_buffer c @ concat (map frame_data q)) < 2 ^ 31"
      using b Some box q by (auto simp: write_bounded_def)
    show ?thesis
    proof (cases rule: writable_effect [OF step box Some connection_okD(1) [OF ok] q errno len, case_names Kept Removed])
      case (Kept wb data)
      show ?thesis
        by (rule inv_update [OF inv box Some, where c' = "c\<lparr>m_write_buffer := wb\<rparr>" and
              box' = "box\<lparr>m_to_client_queues := (m_to_client_queues box)(m_connect_id c \<mapsto> [])\<rparr>"])
           (use ok Kept q out in \<open>auto simp: same_connection_def connection_ok_def with_context_def\<close>)
    next
      case (Removed box' data)
      show ?thesis
        by (rule inv_remove [OF inv box Some, where box' = box']) (use Removed out in auto)
    qed
  qed
qed

lemma removing_inv:
  assumes inv: "reactor_inv r" and step: "remove_connect fd (r_loop r) k = Some (s, k')"
  shows "reactor_inv (r\<lparr>r_loop := s\<rparr>)"
proof -
  obtain box where box: "m_reactor_mail_box (r_loop r) = Some box"
    using inv by (auto simp: reactor_inv_def)
  show ?thesis
  proof (cases "m_connect_contexts (r_loop r) fd")
    case None
    with remove_connect_effect(1) [OF step box] inv show ?thesis by simp
  next
    case (Some c)
    show ?thesis
      by (rule inv_remove [OF inv box Some, where box' = box])
         (use Some remove_connect_effect(1) [OF step box] in auto)
  qed
qed

lemma sending_inv:
  assumes inv: "reactor_inv r" and box: "m_reactor_mail_box (r_loop r) = Some box"
  shows "reactor_inv (r\<lparr>r_loop := (r_loop r)\<lparr>m_reactor_mail_box := Some (push_to_client_frame f box)\<rparr>,
    sent := (if m_to_client_queues box (connect_id f) = None then sent r
             else (sent r)(connect_id f := sent r (connect_id f) @ frame_data f))\<rparr>)"
proof (cases "m_to_client_queues box (connect_id f)")
  case None
  then have "push_to_client_frame f box = box"
    by (simp add: push_to_client_frame_def)
  with None inv box show ?thesis by (auto simp: reactor_inv_def connection_ok_def)
next
  case (Some q)
  with reactor_invD(3) [OF inv box] obtain fd c where
    c: "m_connect_contexts (r_loop r) fd = Some c" "m_connect_id c = connect_id f"
    by blast
  have ok: "connection_ok box r fd c"
    by (rule reactor_invD(1) [OF inv box c(1)])
  have same: "same_connection c c"
    by (simp add: same_connection_def)
  show ?thesis
    by (rule inv_update [OF inv box c(1) same, where box' = "push_to_client_frame f box"])
       (use c ok Some in \<open>auto simp: with_context_def fun_upd_idem push_client_queues connection_ok_def\<close>)
qed

lemma reactor_step_inv:
  assumes "reactor_step host junk r r'" "reactor_inv r"
  shows "reactor_inv r'"
  using assms
proof cases
  case (Accepting k s k')
  show ?thesis
  proof (cases "m_reactor_mail_box (r_loop r) = None \<or> \<not> socket_bool (m_server_handle (r_loop r))")
    case True
    with Accepting(4) have "s = r_loop r"
      by (auto simp: acceptable_event_def)
    with Accepting(1) assms(2) ids_at_fresh [OF Accepting(3)] show ?thesis by simp
  next
    case False
    with Accepting(4) have "acceptable_loop junk (r_loop r) k = Some (s, k')"
      by (auto simp: acceptable_event_def)
    with acceptable_loop_inv assms(2) Accepting(1,3) show ?thesis by blast
  qed
next
  case (Reading fd k w s k')
  with reading_inv assms(2) show ?thesis by blast
next
  case (Writing fd k s k')
  with writing_inv assms(2) show ?thesis by blast
next
  case (Removing fd k s k')
  with removing_inv assms(2) show ?thesis by blast
next
  case (Resuming box w box')
  have q: "m_to_client_queues box' = m_to_client_queues box"
    using push_to_server_queues [of _ box] Resuming(3) by (metis snd_conv)
  have "r' = (r\<lparr>r_loop := (r_loop r)\<lparr>m_reactor_mail_box := Some box'\<rparr>\<rparr>)\<lparr>r_waiting := w\<rparr>"
    using Resuming(1) by simp
  with inv_mail_box [OF assms(2) Resuming(2) q] show ?thesis by (simp only: inv_waiting)
next
  case (Sending box f)
  with sending_inv [OF assms(2)] show ?thesis by blast
next
  case (Serving box k sg box')
  have "m_to_client_queues box' = m_to_client_queues box"
    using Serving(3) by (auto simp: server_calls_def server_call_def split: prod.splits)
  from inv_mail_box [OF assms(2) Serving(2) this] show ?thesis
    by (simp add: Serving(1) inv_delivered)
qed

section \<open>Properties\<close>

text \<open>The reactor after \<open>init\<close>: a mail box, no connection.\<close>

definition reactor_start :: "ReactorMailBox \<Rightarrow> UniqueHandle \<Rightarrow> PosixSocketHandle \<Rightarrow> UniqueHandle \<Rightarrow> reactor" where
  "reactor_start box event_fd server_handle epoll_fd =
     \<lparr>r_loop = new_event_loop\<lparr>m_reactor_mail_box := Some box, m_loop_event_handle := Some event_fd,
        m_epoll_handle := epoll_fd, m_server_handle := server_handle\<rparr>,
      r_waiting = [], arrived = (\<lambda>_. []), delivered = [], written = (\<lambda>_. []), sent = (\<lambda>_. []), given = []\<rparr>"

lemma reactor_start_inv: "m_to_client_queues box = Map.empty \<Longrightarrow> reactor_inv (reactor_start box e h ep)"
  by (simp add: reactor_inv_def reactor_start_def new_event_loop_def)

lemma reactor_steps_inv: "(reactor_step host junk)\<^sup>*\<^sup>* r r' \<Longrightarrow> reactor_inv r \<Longrightarrow> reactor_inv r'"
  by (induction rule: rtranclp_induct) (auto intro: reactor_step_inv)

text \<open>The frames that the reactor has handed on, in order: those that the calls of the business threads have
  returned, those in the queue to the server, those that the queue refused because it was closed, and those the
  reactor waits with.\<close>

definition handed_on :: "reactor \<Rightarrow> PosixFrame list \<Rightarrow> bool" where
  "handed_on r fs \<longleftrightarrow> (\<exists>box refused. m_reactor_mail_box (r_loop r) = Some box \<and>
     fs = delivered r @ m_queue (m_to_server_frame_queue box) @ refused @ r_waiting r \<and>
     (m_is_running (m_to_server_frame_queue box) \<longrightarrow> refused = []))"

definition streams_ok :: "reactor \<Rightarrow> PosixFrame list \<Rightarrow> bool" where
  "streams_ok r fs \<longleftrightarrow>
     (\<forall>cid. \<exists>rest. arrived r cid = concat (frames_of cid fs) @ rest) \<and>
     (\<forall>fd c. m_connect_contexts (r_loop r) fd = Some c \<longrightarrow>
        arrived r (m_connect_id c) = concat (frames_of (m_connect_id c) fs) @ fa_pending (m_frame_assembler c))"

lemma push_to_server_effect:
  assumes "push_to_server_frames fs box = (w, box')"
  obtains pushed refused where "fs = pushed @ refused @ w"
    "m_queue (m_to_server_frame_queue box') = m_queue (m_to_server_frame_queue box) @ pushed"
    "m_is_running (m_to_server_frame_queue box') = m_is_running (m_to_server_frame_queue box)"
    "if m_is_running (m_to_server_frame_queue box) then refused = [] else pushed = []"
proof -
  have "\<exists>pushed refused. fs = pushed @ refused @ w \<and>
    m_queue (m_to_server_frame_queue box') = m_queue (m_to_server_frame_queue box) @ pushed \<and>
    m_is_running (m_to_server_frame_queue box') = m_is_running (m_to_server_frame_queue box) \<and>
    (if m_is_running (m_to_server_frame_queue box) then refused = [] else pushed = [])"
    using assms
  proof (induction fs box rule: push_to_server_frames.induct)
    case (2 f fs box)
    let ?q = "m_to_server_frame_queue box"
    let ?b = "box\<lparr>m_to_server_frame_queue := ?q\<lparr>m_queue := m_queue ?q @ [f]\<rparr>\<rparr>"
    consider (Closed) "push_to_server_frame f box = (Return (Flag False), No_Signal, box)" "\<not> m_is_running ?q"
      | (Full) "push_to_server_frame f box = (Wait_Full (Push f), No_Signal, box)" "m_is_running ?q"
      | (Room) "push_to_server_frame f box = (Return (Flag True), One_Empty, ?b)" "m_is_running ?q"
      by (cases "m_is_running ?q"; cases "below_max ?q") (simp_all add: push_to_server_frame_def server_call_def push_section_def)
    then show ?case
    proof cases
      case Closed
      from Closed(1) 2(2) have "push_to_server_frames fs box = (w, box')" by simp
      from 2(1) [OF Closed(1) [symmetric] refl refl this] Closed(2) obtain refused where "fs = refused @ w"
        "m_queue (m_to_server_frame_queue box') = m_queue ?q" "\<not> m_is_running (m_to_server_frame_queue box')"
        by auto
      with Closed(2) show ?thesis by (intro exI [of _ "[]"] exI [of _ "f # refused"]) simp
    next
      case Full
      with 2(2) show ?thesis by (intro exI [of _ "[]"]) simp
    next
      case Room
      from Room(1) 2(2) have "push_to_server_frames fs ?b = (w, box')" by simp
      from 2(1) [OF Room(1) [symmetric] refl refl this] Room(2) obtain pushed where "fs = pushed @ w"
        "m_queue (m_to_server_frame_queue box') = (m_queue ?q @ [f]) @ pushed" "m_is_running (m_to_server_frame_queue box')"
        by auto
      with Room(2) show ?thesis by (intro exI [of _ "f # pushed"] exI [of _ "[]"]) simp
    qed
  qed simp
  then show thesis using that by blast
qed

text \<open>A push of frames hands them on, and the rest waits.\<close>

lemma push_hands_on:
  assumes "handed_on r fs" "m_reactor_mail_box (r_loop r) = Some box" "r_waiting r = []" "push_to_server_frames new box = (w, box')"
    and "m_reactor_mail_box (r_loop r') = Some box'" "r_waiting r' = w" "delivered r' = delivered r"
  shows "handed_on r' (fs @ new)"
proof -
  obtain pushed refused where p: "new = pushed @ refused @ w"
    "m_queue (m_to_server_frame_queue box') = m_queue (m_to_server_frame_queue box) @ pushed"
    "m_is_running (m_to_server_frame_queue box') = m_is_running (m_to_server_frame_queue box)"
    "if m_is_running (m_to_server_frame_queue box) then refused = [] else pushed = []"
    using push_to_server_effect [OF assms(4)] by metis
  obtain earlier where e: "fs = delivered r @ m_queue (m_to_server_frame_queue box) @ earlier"
    "m_is_running (m_to_server_frame_queue box) \<longrightarrow> earlier = []"
    using assms(1-3) by (auto simp: handed_on_def)
  show ?thesis
    unfolding handed_on_def
    by (intro exI [of _ box'] exI [of _ "earlier @ refused"]) (use p e assms(5-7) in \<open>auto split: if_splits\<close>)
qed

lemma handed_on_cong:
  assumes "handed_on r fs" "delivered r' = delivered r" "r_waiting r' = r_waiting r"
    and "map_option m_to_server_frame_queue (m_reactor_mail_box (r_loop r')) = map_option m_to_server_frame_queue (m_reactor_mail_box (r_loop r))"
  shows "handed_on r' fs"
  using assms by (auto simp: handed_on_def)

lemma streams_cong:
  assumes "streams_ok r fs" "arrived r' = arrived r"
    and "\<And>fd c. m_connect_contexts (r_loop r') fd = Some c \<Longrightarrow> \<exists>c0. m_connect_contexts (r_loop r) fd = Some c0 \<and>
      m_connect_id c0 = m_connect_id c \<and> m_frame_assembler c0 = m_frame_assembler c"
  shows "streams_ok r' fs"
  unfolding streams_ok_def
proof (intro conjI allI impI)
  fix cid show "\<exists>rest. arrived r' cid = concat (frames_of cid fs) @ rest"
    using assms(1,2) by (simp add: streams_ok_def)
next
  fix fd c assume "m_connect_contexts (r_loop r') fd = Some c"
  with assms(3) [OF this] assms(1,2)
  show "arrived r' (m_connect_id c) = concat (frames_of (m_connect_id c) fs) @ fa_pending (m_frame_assembler c)"
    by (force simp: streams_ok_def)
qed

lemma accepting_streams:
  assumes "acceptable_event junk (r_loop r) k = Some (s, k')" "reactor_inv r" "accepts_fresh (r_loop r) (accept_outs k)"
    and "handed_on r fs" "streams_ok r fs"
  shows "handed_on (r\<lparr>r_loop := s, given := g\<rparr>) fs \<and> streams_ok (r\<lparr>r_loop := s, given := g\<rparr>) fs"
proof (cases "m_reactor_mail_box (r_loop r) = None \<or> \<not> socket_bool (m_server_handle (r_loop r))")
  case True
  with assms(1) have "s = r_loop r" by (auto simp: acceptable_event_def)
  with assms(4,5) show ?thesis by (simp add: handed_on_def streams_ok_def)
next
  case False
  with assms(1) have "acceptable_loop junk (r_loop r) k = Some (s, k')"
    by (auto simp: acceptable_event_def)
  note loop = acceptable_loop_inv [OF this assms(2,3)]
  have "streams_ok (r\<lparr>r_loop := s, given := g\<rparr>) fs"
    unfolding streams_ok_def
  proof (intro conjI allI impI)
    fix cid show "\<exists>rest. arrived (r\<lparr>r_loop := s, given := g\<rparr>) cid = concat (frames_of cid fs) @ rest"
      using assms(5) by (simp add: streams_ok_def)
  next
    fix fd c assume "m_connect_contexts (r_loop (r\<lparr>r_loop := s, given := g\<rparr>)) fd = Some c"
    with loop consider "m_connect_contexts (r_loop r) fd = Some c"
      | "fa_pending (m_frame_assembler c) = []" "m_connect_counter (r_loop r) \<le> m_connect_id c" by auto
    then show "arrived (r\<lparr>r_loop := s, given := g\<rparr>) (m_connect_id c) =
        concat (frames_of (m_connect_id c) fs) @ fa_pending (m_frame_assembler c)"
    proof cases
      case 2
      then have "arrived r (m_connect_id c) = []"
        using assms(2) by (auto simp: reactor_inv_def)
      moreover obtain rest where "arrived r (m_connect_id c) = concat (frames_of (m_connect_id c) fs) @ rest"
        using assms(5) unfolding streams_ok_def by blast
      ultimately show ?thesis using 2(1) by simp
    qed (use assms(5) in \<open>simp add: streams_ok_def\<close>)
  qed
  with handed_on_cong [OF assms(4), of "r\<lparr>r_loop := s, given := g\<rparr>"] loop show ?thesis by simp
qed

lemma reading_streams:
  assumes inv: "reactor_inv r" and b: "read_bounded fd (r_loop r) k" and idle: "r_waiting r = []"
    and step: "readable_event host fd (r_loop r) k = Some (w, s, k')" and fs: "handed_on r fs" "streams_ok r fs"
  defines "r' \<equiv> r\<lparr>r_loop := s, r_waiting := w, arrived := add_log (bytes_in k') (arrived r)\<rparr>"
  shows "\<exists>fs'. handed_on r' fs' \<and> streams_ok r' fs'"
proof -
  obtain box where box: "m_reactor_mail_box (r_loop r) = Some box"
    using inv by (auto simp: reactor_inv_def)
  note D = reactor_invD [OF inv box]
  show ?thesis
  proof (cases "m_connect_contexts (r_loop r) fd")
    case None
    with step box b have "s = r_loop r" "k' = k" "w = []"
      by (simp_all add: readable_event_def)
    with b fs idle show ?thesis
      by (intro exI [of _ fs]) (simp add: r'_def read_bounded_def handed_on_def streams_ok_def)
  next
    case (Some c)
    have ok: "connection_ok box r fd c"
      by (rule D(1) [OF Some])
    have bound: "length (fa_pending (m_frame_assembler c) @ concat (map data_of (read_outs k fd))) < 2 ^ 32"
      and none: "bytes_in k = []"
      using b Some by (simp_all add: read_bounded_def)
    have other: "m_connect_id d \<noteq> m_connect_id c" if "m_connect_contexts (r_loop r) g = Some d" "g \<noteq> fd" for g d
      using D(2) [OF that(1) Some] that(2) by blast
    show ?thesis
    proof (cases rule: readable_effect [OF step box Some connection_okD(1,2) [OF ok] bound none, case_names Kept Removed])
      case (Kept ds a box' data)
      let ?new = "map (\<lambda>d. \<lparr>connect_id = m_connect_id c, frame_data = d\<rparr>) ds"
      have "handed_on r' (fs @ ?new)"
        by (rule push_hands_on [OF fs(1) box idle Kept(3)]) (simp_all add: r'_def Kept(1) with_context_def)
      moreover have "streams_ok r' (fs @ ?new)"
        unfolding streams_ok_def
      proof (intro conjI allI impI)
        fix cid
        obtain rest where "arrived r cid = concat (frames_of cid fs) @ rest"
          using fs(2) unfolding streams_ok_def by blast
        moreover have "arrived r (m_connect_id c) = concat (frames_of (m_connect_id c) fs) @ fa_pending (m_frame_assembler c)"
          using fs(2) Some by (simp add: streams_ok_def)
        ultimately show "\<exists>rest. arrived r' cid = concat (frames_of cid (fs @ ?new)) @ rest"
          using Kept(4,5) by (auto simp: r'_def)
      next
        fix g d assume "m_connect_contexts (r_loop r') g = Some d"
        then show "arrived r' (m_connect_id d) = concat (frames_of (m_connect_id d) (fs @ ?new)) @ fa_pending (m_frame_assembler d)"
          using fs(2) Some other [of g d] Kept(1,4,5)
          by (auto simp: r'_def streams_ok_def with_context_def split: if_splits)
      qed
      ultimately show ?thesis by blast
    next
      case (Removed data)
      have "handed_on r' fs"
        by (rule handed_on_cong [OF fs(1)])
           (simp_all add: r'_def Removed(1,2) idle without_context_def box remove_to_client_queue_def split: option.split)
      moreover have "streams_ok r' fs"
        using fs(2) Some other Removed(1,3)
        by (fastforce simp: r'_def streams_ok_def without_context_def split: if_splits)
      ultimately show ?thesis by blast
    qed
  qed
qed

lemma writing_streams:
  assumes inv: "reactor_inv r" and b: "write_bounded fd (r_loop r) k"
    and step: "writable_event fd (r_loop r) k = Some (s, k')" and fs: "handed_on r fs" "streams_ok r fs"
  shows "handed_on (r\<lparr>r_loop := s, written := l\<rparr>) fs \<and> streams_ok (r\<lparr>r_loop := s, written := l\<rparr>) fs"
proof -
  obtain box where box: "m_reactor_mail_box (r_loop r) = Some box"
    using inv by (auto simp: reactor_inv_def)
  show ?thesis
  proof (cases "m_connect_contexts (r_loop r) fd")
    case None
    with step box b have "s = r_loop r" by (simp add: writable_event_def)
    with fs show ?thesis by (simp add: handed_on_def streams_ok_def)
  next
    case (Some c)
    have ok: "connection_ok box r fd c"
      by (rule reactor_invD(1) [OF inv box Some])
    then obtain q where q: "m_to_client_queues box (m_connect_id c) = Some q"
      using connection_okD(3) by blast
    have errno: "list_all errno_set (write_outs k fd)"
      and len: "length (m_write_buffer c @ concat (map frame_data q)) < 2 ^ 31"
      using b Some box q by (auto simp: write_bounded_def)
    show ?thesis
    proof (cases rule: writable_effect [OF step box Some connection_okD(1) [OF ok] q errno len, case_names Kept Removed])
      case (Kept wb data)
      show ?thesis
        by (intro conjI handed_on_cong [OF fs(1)] streams_cong [OF fs(2)])
           (use Kept(1) Some box in \<open>auto simp: with_context_def split: if_splits\<close>)
    next
      case (Removed box' data)
      show ?thesis
        by (intro conjI handed_on_cong [OF fs(1)] streams_cong [OF fs(2)])
           (use Removed(1,5) Some box in \<open>auto simp: without_context_def remove_to_client_queue_def split: if_splits option.split\<close>)
    qed
  qed
qed

text \<open>A call of another thread on the queue moves a frame to those that were returned, or closes the queue.\<close>

lemma serving_streams:
  assumes "m_reactor_mail_box (r_loop r) = Some box" "handed_on r fs" "streams_ok r fs"
    and "(k, sg, box') \<in> {pop_from_to_server_frame box, try_pop_from_to_server_queue box, stop box}"
  defines "r' \<equiv> r\<lparr>r_loop := (r_loop r)\<lparr>m_reactor_mail_box := Some box'\<rparr>, delivered := delivered r @ popped k\<rparr>"
  shows "handed_on r' fs \<and> streams_ok r' fs"
proof -
  let ?q = "m_to_server_frame_queue box" and ?q' = "m_to_server_frame_queue box'"
  have "popped k @ m_queue ?q' = m_queue ?q" "m_is_running ?q' \<longrightarrow> m_is_running ?q"
    using assms(4) by (auto simp: server_calls_def server_call_def pop_section_def split: list.splits if_splits)
  moreover obtain refused where "fs = delivered r @ m_queue ?q @ refused @ r_waiting r" "m_is_running ?q \<longrightarrow> refused = []"
    using assms(1,2) by (auto simp: handed_on_def)
  ultimately have "handed_on r' fs"
    unfolding handed_on_def r'_def by (intro exI [of _ box'] exI [of _ refused]) simp
  moreover have "streams_ok r' fs"
    using assms(3) by (simp add: streams_ok_def r'_def)
  ultimately show ?thesis ..
qed

lemma reactor_step_streams:
  assumes "reactor_step host junk r r'" "reactor_inv r" "handed_on r fs" "streams_ok r fs"
  shows "\<exists>fs'. handed_on r' fs' \<and> streams_ok r' fs'"
  using assms(1)
proof cases
  case (Accepting k s k')
  with accepting_streams [OF _ assms(2) _ assms(3,4)] show ?thesis by blast
next
  case (Reading fd k w s k')
  with reading_streams [OF assms(2) _ _ _ assms(3,4)] show ?thesis by blast
next
  case (Writing fd k s k')
  with writing_streams [OF assms(2) _ _ assms(3,4)] show ?thesis by blast
next
  case (Removing fd k s k')
  obtain box where box: "m_reactor_mail_box (r_loop r) = Some box"
    using assms(2) by (auto simp: reactor_inv_def)
  note s = remove_connect_effect(1) [OF Removing(3) box]
  have "handed_on r' fs \<and> streams_ok r' fs"
    unfolding Removing(1)
    by (intro conjI handed_on_cong [OF assms(3)] streams_cong [OF assms(4)])
       (use s box in \<open>auto simp: without_context_def remove_to_client_queue_def split: option.splits if_splits\<close>)
  then show ?thesis by blast
next
  case (Resuming box w box')
  obtain pushed refused where p: "r_waiting r = pushed @ refused @ w"
    "m_queue (m_to_server_frame_queue box') = m_queue (m_to_server_frame_queue box) @ pushed"
    "m_is_running (m_to_server_frame_queue box') = m_is_running (m_to_server_frame_queue box)"
    "if m_is_running (m_to_server_frame_queue box) then refused = [] else pushed = []"
    using push_to_server_effect [OF Resuming(3)] by metis
  obtain earlier where e: "fs = delivered r @ m_queue (m_to_server_frame_queue box) @ earlier @ r_waiting r"
    "m_is_running (m_to_server_frame_queue box) \<longrightarrow> earlier = []"
    using assms(3) Resuming(2) by (auto simp: handed_on_def)
  have "handed_on r' fs"
    unfolding handed_on_def Resuming(1)
    by (intro exI [of _ box'] exI [of _ "earlier @ refused"]) (use p e in \<open>auto split: if_splits\<close>)
  moreover have "streams_ok r' fs"
    using assms(4) by (simp add: streams_ok_def Resuming(1))
  ultimately show ?thesis by blast
next
  case (Sending box f)
  have "handed_on r' fs"
    by (rule handed_on_cong [OF assms(3)])
       (simp_all add: Sending(1,2) push_to_client_frame_def Let_def split: option.split)
  moreover have "streams_ok r' fs"
    using assms(4) by (simp add: streams_ok_def Sending(1))
  ultimately show ?thesis by blast
next
  case (Serving box k sg box')
  with serving_streams [OF Serving(2) assms(3,4) Serving(3)] show ?thesis by blast
qed

lemma reactor_steps_streams:
  assumes "(reactor_step host junk)\<^sup>*\<^sup>* (reactor_start box e h ep) r"
    and "m_to_client_queues box = Map.empty" "m_queue (m_to_server_frame_queue box) = []"
  shows "\<exists>fs. handed_on r fs \<and> streams_ok r fs"
  using assms(1)
proof (induction rule: rtranclp_induct)
  case base
  have "handed_on (reactor_start box e h ep) [] \<and> streams_ok (reactor_start box e h ep) []"
    using assms(3) by (simp add: handed_on_def streams_ok_def reactor_start_def new_event_loop_def frames_of_def)
  then show ?case by blast
next
  case (step r r')
  with reactor_step_streams reactor_steps_inv [OF step(1) reactor_start_inv [OF assms(2)]] show ?case by blast
qed

text \<open>C21: Whatever events come in whatever order, with partial reads and writes, interruptions and failures, and
  whatever the other threads do in between: for every connection the bytes written to the
  socket, those that wait in the connection and those of the frames in its queue are exactly
  the bytes of the frames sent to it, in order. The bytes that arrived are, in order, exactly those of its
  frames that the calls of the business threads have returned, of those in the queue to the server, of those the
  reactor waits with and of the unfinished frame in its assembler; only a queue that was closed refuses frames in between.\<close>

theorem reactor_streams:
  assumes "(reactor_step host junk)\<^sup>*\<^sup>* (reactor_start box event_fd h epoll_fd) r"
    and "m_to_client_queues box = Map.empty" "m_queue (m_to_server_frame_queue box) = []"
    and "m_connect_contexts (r_loop r) fd = Some c"
  shows "\<exists>box' q refused. m_reactor_mail_box (r_loop r) = Some box' \<and> m_to_client_queues box' (m_connect_id c) = Some q \<and>
    written r (m_connect_id c) @ m_write_buffer c @ concat (map frame_data q) = sent r (m_connect_id c) \<and>
    arrived r (m_connect_id c) =
      concat (frames_of (m_connect_id c) (delivered r @ m_queue (m_to_server_frame_queue box') @ refused @ r_waiting r)) @
      fa_pending (m_frame_assembler c) \<and>
    (m_is_running (m_to_server_frame_queue box') \<longrightarrow> refused = [])"
proof -
  have inv: "reactor_inv r"
    using reactor_steps_inv [OF assms(1) reactor_start_inv [OF assms(2)]] .
  then obtain box' where box': "m_reactor_mail_box (r_loop r) = Some box'"
    by (auto simp: reactor_inv_def)
  obtain fs where fs: "handed_on r fs" "streams_ok r fs"
    using reactor_steps_streams [OF assms(1-3)] by blast
  from fs(1) box' obtain refused where "fs = delivered r @ m_queue (m_to_server_frame_queue box') @ refused @ r_waiting r"
    "m_is_running (m_to_server_frame_queue box') \<longrightarrow> refused = []"
    by (auto simp: handed_on_def)
  with reactor_invD(1) [OF inv box' assms(4)] box' fs(2) assms(4) show ?thesis
    unfolding connection_ok_def streams_ok_def by blast
qed

lemma ids_below: "distinct (map of_nat [0..<unat n] :: u64 list)" "set (map of_nat [0..<unat n] :: u64 list) = {i. i < n}"
proof -
  have "unat n < 2 ^ 64"
    by transfer (simp add: take_bit_eq_mod)
  then have small: "i < unat n \<Longrightarrow> unat (of_nat i :: u64) = i" for i
    by (simp add: unat_of_nat)
  have "inj_on (of_nat :: nat \<Rightarrow> u64) {0..<unat n}"
    by (rule inj_on_inverseI [where g = unat]) (simp add: small)
  then show "distinct (map of_nat [0..<unat n] :: u64 list)" by (simp add: distinct_map)
  have "x \<in> of_nat ` {0..<unat n} \<longleftrightarrow> x < n" for x :: u64
    using small by (auto simp: word_less_nat_alt intro: image_eqI [of _ _ "unat x"])
  then show "set (map of_nat [0..<unat n] :: u64 list) = {i. i < n}" by auto
qed

lemma new_mail_box_empty: "m_to_client_queues new_mail_box = Map.empty"
  by (simp add: new_mail_box_def Let_def)

text \<open>A reactor that has accepted a connection for the descriptor 9.\<close>

definition demo_kernel :: kernel where
  "demo_kernel =
     \<lparr>accept_outs = [Done 9, Fails EAGAIN], fcntl_outs = [(Done 0, Done 0)], ctl_outs = [Done ()],
      read_outs = (\<lambda>_. []), write_outs = (\<lambda>_. []), counter_outs = [], wait_outs = [],
      ctl_calls = [], bytes_in = [], bytes_out = [], closed_fds = []\<rparr>"

lemma demo_accept:
  "\<exists>s k. acceptable_event blank_header (r_loop (reactor_start new_mail_box 4 (socket_of_descriptor 3) 5)) demo_kernel = Some (s, k) \<and>
     (\<exists>c. m_connect_contexts s 9 = Some c \<and> m_connect_id c = 0)"
  by (simp add: acceptable_event_def acceptable_loop.simps accept_one_def admit_client_def register_client_def
      emplace_context_def do_ctl_def epoll_add_def epoll_control_def socket_accept_def socket_set_blocking_def
      reactor_start_def new_event_loop_def demo_kernel_def socket_of_descriptor_def new_socket_handle_def
      is_valid_handle_def level_of_errno new_connect_context_def Let_def)

abbreviation demo_start :: reactor where
  "demo_start \<equiv> reactor_start new_mail_box 4 (socket_of_descriptor 3) 5"

lemma demo_connected:
  obtains r c where "(reactor_step LittleEndian blank_header)\<^sup>*\<^sup>* demo_start r" "m_connect_contexts (r_loop r) 9 = Some c"
    "m_connect_id c = 0"
proof -
  obtain s k c where a: "acceptable_event blank_header (r_loop demo_start) demo_kernel = Some (s, k)"
    "m_connect_contexts s 9 = Some c" "m_connect_id c = 0"
    using demo_accept by blast
  have "reactor_step LittleEndian blank_header demo_start
      (demo_start\<lparr>r_loop := s, given := given demo_start @ ids_at (accepted (accept_outs demo_kernel)) s\<rparr>)"
    by (rule Accepting [OF _ _ a(1)])
       (simp_all add: reactor_start_def accepts_fresh_def demo_kernel_def new_event_loop_def)
  then have "(reactor_step LittleEndian blank_header)\<^sup>*\<^sup>* demo_start
      (demo_start\<lparr>r_loop := s, given := given demo_start @ ids_at (accepted (accept_outs demo_kernel)) s\<rparr>)" ..
  then show thesis by (rule that) (use a(2,3) in simp_all)
qed

lemma new_mail_box_queue: "m_queue (m_to_server_frame_queue new_mail_box) = []"
  by (simp add: new_mail_box_def new_queue_def move_assign_def Let_def)

theorem reactor_streams_witness:
  "\<exists>(r :: reactor) c box' q refused. (reactor_step LittleEndian blank_header)\<^sup>*\<^sup>* demo_start r \<and>
    m_connect_contexts (r_loop r) 9 = Some c \<and>
    m_reactor_mail_box (r_loop r) = Some box' \<and> m_to_client_queues box' (m_connect_id c) = Some q \<and>
    written r (m_connect_id c) @ m_write_buffer c @ concat (map frame_data q) = sent r (m_connect_id c) \<and>
    arrived r (m_connect_id c) =
      concat (frames_of (m_connect_id c) (delivered r @ m_queue (m_to_server_frame_queue box') @ refused @ r_waiting r)) @
      fa_pending (m_frame_assembler c)"
proof -
  obtain r c where r: "(reactor_step LittleEndian blank_header)\<^sup>*\<^sup>* demo_start r" "m_connect_contexts (r_loop r) 9 = Some c"
    by (rule demo_connected)
  from reactor_streams [OF r(1) new_mail_box_empty new_mail_box_queue r(2)] r show ?thesis by blast
qed

text \<open>C23: The connected clients and the queues of the mail box correspond: every queue belongs to exactly one
  connection and every connection has its queue and holds the descriptor under which it is registered. Ids are never
  given twice: the ids that connections were ever given, those of removed connections included, are distinct; they
  are those below the counter, and every connection has one of them.\<close>

theorem reactor_connections:
  assumes "(reactor_step host junk)\<^sup>*\<^sup>* (reactor_start box event_fd h epoll_fd) r"
    and "m_to_client_queues box = Map.empty" "m_reactor_mail_box (r_loop r) = Some box'"
  shows "dom (m_to_client_queues box') = m_connect_id ` ran (m_connect_contexts (r_loop r)) \<and>
    inj_on (\<lambda>fd. m_connect_id (the (m_connect_contexts (r_loop r) fd))) (dom (m_connect_contexts (r_loop r))) \<and>
    distinct (given r) \<and> set (given r) = {cid. cid < m_connect_counter (r_loop r)} \<and>
    (\<forall>c. c \<in> ran (m_connect_contexts (r_loop r)) \<longrightarrow> m_connect_id c \<in> set (given r) \<and>
       m_connect_contexts (r_loop r) (socket_handle (m_socket_handle c)) = Some c)"
proof -
  have inv: "reactor_inv r"
    using reactor_steps_inv [OF assms(1) reactor_start_inv [OF assms(2)]] .
  note D = reactor_invD [OF this assms(3)]
  have "dom (m_to_client_queues box') = m_connect_id ` ran (m_connect_contexts (r_loop r))"
  proof (intro equalityI subsetI)
    fix cid assume "cid \<in> dom (m_to_client_queues box')"
    then show "cid \<in> m_connect_id ` ran (m_connect_contexts (r_loop r))"
      using D(3) [of cid] by (force simp: ran_def)
  next
    fix cid assume "cid \<in> m_connect_id ` ran (m_connect_contexts (r_loop r))"
    then show "cid \<in> dom (m_to_client_queues box')"
      using D(1) connection_okD(3) by (fastforce simp: ran_def)
  qed
  moreover have "inj_on (\<lambda>fd. m_connect_id (the (m_connect_contexts (r_loop r) fd))) (dom (m_connect_contexts (r_loop r)))"
    using D(2) by (auto simp: inj_on_def)
  moreover have g: "distinct (given r)" "set (given r) = {cid. cid < m_connect_counter (r_loop r)}"
    using ids_below [of "m_connect_counter (r_loop r)"] by (simp_all add: D(5))
  moreover have "m_connect_id c \<in> set (given r)"
    "m_connect_contexts (r_loop r) (socket_handle (m_socket_handle c)) = Some c"
    if c: "c \<in> ran (m_connect_contexts (r_loop r))" for c
  proof -
    from c obtain fd where fd: "m_connect_contexts (r_loop r) fd = Some c"
      by (auto simp: ran_def)
    with D(1) [OF this] show "m_connect_id c \<in> set (given r)"
      "m_connect_contexts (r_loop r) (socket_handle (m_socket_handle c)) = Some c"
      by (auto simp: connection_ok_def g(2))
  qed
  ultimately show ?thesis by blast
qed

theorem reactor_connections_witness:
  "\<exists>r box'. (reactor_step LittleEndian blank_header)\<^sup>*\<^sup>* demo_start r \<and>
    m_connect_contexts (r_loop r) 9 \<noteq> None \<and> m_reactor_mail_box (r_loop r) = Some box' \<and> 0 \<in> set (given r) \<and> distinct (given r) \<and>
    dom (m_to_client_queues box') = m_connect_id ` ran (m_connect_contexts (r_loop r))"
proof -
  obtain r c where r: "(reactor_step LittleEndian blank_header)\<^sup>*\<^sup>* demo_start r" "m_connect_contexts (r_loop r) 9 = Some c"
    "m_connect_id c = 0" by (rule demo_connected)
  obtain box' where box': "m_reactor_mail_box (r_loop r) = Some box'"
    using reactor_steps_inv [OF r(1) reactor_start_inv [OF new_mail_box_empty]] by (auto simp: reactor_inv_def)
  from reactor_connections [OF r(1) new_mail_box_empty box'] r box' show ?thesis
    by (intro exI [of _ r] exI [of _ box']) (metis option.distinct(1) ranI)
qed

subsection \<open>No output is forgotten\<close>

text \<open>The events that the last call of \<open>epoll_ctl\<close> for a descriptor asks for.\<close>

definition last_events :: "int \<Rightarrow> ctl_call list \<Rightarrow> u32 option" where
  "last_events fd calls =
     (case rev (filter (\<lambda>(operation, g, ev). g = fd) calls) of
        (operation, g, Some ev) # _ \<Rightarrow> Some (events ev)
      | _ \<Rightarrow> None)"

lemma last_events_append [simp]:
  "last_events fd (calls @ [(operation, g, Some ev)]) = (if g = fd then Some (events ev) else last_events fd calls)"
  by (simp add: last_events_def)

text \<open>A connection with nothing left to do: its queue is empty, and \<open>epoll\<close> was last asked to wait for its socket to
  become writable exactly when bytes are left. A request that fails is only logged, so it counts as well.\<close>

definition flushed :: "int \<Rightarrow> PosixEpollEventLoop \<Rightarrow> kernel \<Rightarrow> bool" where
  "flushed fd s k \<longleftrightarrow> (\<exists>box c ev. m_reactor_mail_box s = Some box \<and> m_connect_contexts s fd = Some c \<and>
     m_to_client_queues box (m_connect_id c) = Some [] \<and> last_events fd (ctl_calls k) = Some ev \<and>
     (and ev EPOLLOUT \<noteq> 0 \<longleftrightarrow> has_pending_write c))"

text \<open>A connection that can be flushed.\<close>

definition flushable :: "int \<Rightarrow> PosixEpollEventLoop \<Rightarrow> kernel \<Rightarrow> bool" where
  "flushable fd s k \<longleftrightarrow> (\<exists>box c q. m_reactor_mail_box s = Some box \<and> m_connect_contexts s fd = Some c \<and>
     socket_bool (m_socket_handle c) \<and> m_to_client_queues box (m_connect_id c) = Some q \<and>
     list_all errno_set (write_outs k fd) \<and> length (m_write_buffer c @ concat (map frame_data q)) < 2 ^ 31)"

definition ids_distinct :: "PosixEpollEventLoop \<Rightarrow> bool" where
  "ids_distinct s \<longleftrightarrow> (\<forall>fd fd' c c'. m_connect_contexts s fd = Some c \<longrightarrow> m_connect_contexts s fd' = Some c' \<longrightarrow>
     m_connect_id c = m_connect_id c' \<longrightarrow> fd = fd')"

lemma flush_one:
  assumes "writable_event fd s k = Some (s', k')" "m_connect_contexts s' fd \<noteq> None" "flushable fd s k"
    and "is_valid_handle (m_epoll_handle s)" "ids_distinct s"
  shows "flushed fd s' k'" "ids_distinct s'" "m_epoll_handle s' = m_epoll_handle s"
    and "g \<noteq> fd \<Longrightarrow> flushed g s k \<Longrightarrow> flushed g s' k'" "g \<noteq> fd \<Longrightarrow> flushable g s k \<Longrightarrow> flushable g s' k'"
proof -
  from assms(3) obtain box c q where f: "m_reactor_mail_box s = Some box" "m_connect_contexts s fd = Some c"
    "socket_bool (m_socket_handle c)" "m_to_client_queues box (m_connect_id c) = Some q"
    "list_all errno_set (write_outs k fd)" "length (m_write_buffer c @ concat (map frame_data q)) < 2 ^ 31"
    by (auto simp: flushable_def)
  let ?P = "flushed fd s' k' \<and> ids_distinct s' \<and> m_epoll_handle s' = m_epoll_handle s \<and>
    (g \<noteq> fd \<longrightarrow> (flushed g s k \<longrightarrow> flushed g s' k') \<and> (flushable g s k \<longrightarrow> flushable g s' k'))"
  have ?P
  proof (cases rule: writable_effect [OF assms(1) f, case_names Kept Removed])
    case (Kept wb data)
    obtain ev where ev: "ctl_calls k' = ctl_calls k @ [(EPOLL_CTL_MOD, fd, Some ev)]" "and (events ev) EPOLLOUT \<noteq> 0 \<longleftrightarrow> wb \<noteq> []"
      using Kept(4) [OF assms(4)] by blast
    have other: "m_connect_id d \<noteq> m_connect_id c" if "m_connect_contexts s g = Some d" "g \<noteq> fd" for g d
      using assms(5) f(2) that unfolding ids_distinct_def by blast
    have "flushed fd s' k'"
      using Kept(1) ev by (simp add: flushed_def with_context_def has_pending_write_def)
    moreover have "ids_distinct s'"
      using assms(5) f(2) other Kept(1) by (fastforce simp: ids_distinct_def with_context_def split: if_splits)
    moreover have "g \<noteq> fd \<Longrightarrow> flushed g s k \<Longrightarrow> flushed g s' k'"
      using f(1) other [of g] Kept(1) ev by (auto simp: flushed_def with_context_def)
    moreover have "g \<noteq> fd \<Longrightarrow> flushable g s k \<Longrightarrow> flushable g s' k'"
      using f(1) other [of g] Kept(1,6) by (auto simp: flushable_def with_context_def)
    ultimately show ?thesis
      using Kept(1) by (simp add: with_context_def)
  next
    case (Removed box' data)
    with assms(2) show ?thesis by (simp add: without_context_def)
  qed
  then show "flushed fd s' k'" "ids_distinct s'" "m_epoll_handle s' = m_epoll_handle s"
    "g \<noteq> fd \<Longrightarrow> flushed g s k \<Longrightarrow> flushed g s' k'" "g \<noteq> fd \<Longrightarrow> flushable g s k \<Longrightarrow> flushable g s' k'"
    by blast+
qed

lemma flush_all:
  assumes "flush_connections fds s k = Some (s', k')" "distinct (dn @ fds)"
    and "list_all (\<lambda>fd. flushed fd s k) dn" "list_all (\<lambda>fd. flushable fd s k) fds"
    and "is_valid_handle (m_epoll_handle s)" "ids_distinct s"
  shows "list_all (\<lambda>fd. flushed fd s' k') (dn @ fds)"
  using assms
proof (induction fds arbitrary: dn s k)
  case Nil
  then show ?case by simp
next
  case (Cons fd fds)
  obtain s1 k1 where 1: "writable_event fd s k = Some (s1, k1)" "m_connect_contexts s1 fd \<noteq> None"
    "flush_connections fds s1 k1 = Some (s', k')"
    using Cons.prems(1) by (auto split: option.splits if_splits)
  have "flushable fd s k"
    using Cons.prems(4) by simp
  note one = flush_one [OF 1(1,2) this Cons.prems(5,6)]
  have "list_all (\<lambda>fd. flushed fd s1 k1) (dn @ [fd])" "list_all (\<lambda>fd. flushable fd s1 k1) fds"
    using Cons.prems(2,3,4) one(1,4,5) unfolding list_all_iff by (auto, metis, metis)
  with Cons.IH [of s1 k1 "dn @ [fd]"] 1(3) Cons.prems(2,5) one(2,3) show ?case
    by simp
qed

lemma inv_flushable:
  assumes "reactor_inv r" "m_connect_contexts (r_loop r) fd \<noteq> None" "write_bounded fd (r_loop r) k"
  shows "flushable fd (r_loop r) k"
proof -
  obtain box where box: "m_reactor_mail_box (r_loop r) = Some box"
    using assms(1) by (auto simp: reactor_inv_def)
  obtain c where c: "m_connect_contexts (r_loop r) fd = Some c"
    using assms(2) by blast
  from reactor_invD(1) [OF assms(1) box c] obtain q where
    "socket_bool (m_socket_handle c)" "m_to_client_queues box (m_connect_id c) = Some q"
    using connection_okD by blast
  with box c assms(3) show ?thesis
    by (auto simp: flushable_def write_bounded_def)
qed

lemma inv_ids_distinct: "reactor_inv r \<Longrightarrow> ids_distinct (r_loop r)"
  unfolding reactor_inv_def ids_distinct_def by blast

text \<open>C22: A notification that is handled to its end leaves nothing behind that nobody will send: every
  connection has an empty queue, and \<open>epoll\<close> was last asked to wait for its socket to become writable exactly when
  bytes are left in its buffer. The order in which the connections are visited does not matter.\<close>

theorem notify_flushes:
  assumes "(reactor_step host junk)\<^sup>*\<^sup>* (reactor_start box event_fd h epoll_fd) r"
    and "m_to_client_queues box = Map.empty" "is_valid_handle (m_epoll_handle (r_loop r))"
    and "distinct order" "set order = dom (m_connect_contexts (r_loop r))"
    and "list_all (\<lambda>fd. write_bounded fd (r_loop r) k) order"
    and "m_loop_event_handle (r_loop r) = Some e" "drain_counter e (counter_outs k) = Some (True, outs)"
    and "notify_event order (r_loop r) k = Some (s, k')"
  shows "list_all (\<lambda>fd. flushed fd s k') order"
proof -
  have inv: "reactor_inv r"
    using reactor_steps_inv [OF assms(1) reactor_start_inv [OF assms(2)]] .
  let ?k = "k\<lparr>counter_outs := outs\<rparr>"
  have "flushable fd (r_loop r) ?k" if "fd \<in> set order" for fd
  proof (rule inv_flushable [OF inv])
    show "m_connect_contexts (r_loop r) fd \<noteq> None"
      using that assms(5) by auto
    have "write_bounded fd (r_loop r) k"
      using that assms(6) by (simp add: list_all_iff)
    then show "write_bounded fd (r_loop r) ?k"
      by (simp add: write_bounded_def)
  qed
  then have "list_all (\<lambda>fd. flushable fd (r_loop r) ?k) order"
    by (simp add: list_all_iff)
  moreover have "flush_connections order (r_loop r) ?k = Some (s, k')"
    using assms(7-9) by (simp add: notify_event_def)
  ultimately show ?thesis
    using flush_all [of order "r_loop r" ?k s k' "[]"] assms(3,4) inv_ids_distinct [OF inv] by simp
qed

theorem notify_flushes_witness:
  "\<exists>r s k'. (reactor_step LittleEndian blank_header)\<^sup>*\<^sup>* (reactor_start new_mail_box 4 (socket_of_descriptor 3) 5) r \<and>
    m_connect_contexts (r_loop r) 9 \<noteq> None \<and>
    notify_event [9] (r_loop r) (demo_kernel\<lparr>counter_outs := [Done (8, 1), Fails EAGAIN]\<rparr>) = Some (s, k') \<and>
    list_all (\<lambda>fd. flushed fd s k') [9]"
proof -
  let ?start = "reactor_start new_mail_box 4 (socket_of_descriptor 3) 5"
  let ?c = "new_connect_context blank_header 0 ((socket_of_descriptor 9)\<lparr>m_is_blocking := False\<rparr>)"
  let ?s = "(r_loop ?start)\<lparr>m_connect_counter := 1, m_reactor_mail_box := Some (add_to_client_queue 0 new_mail_box),
    m_connect_contexts := [9 \<mapsto> ?c]\<rparr>"
  let ?k = "demo_kernel\<lparr>counter_outs := [Done (8, 1), Fails EAGAIN]\<rparr>"
  let ?r = "?start\<lparr>r_loop := ?s, given := given ?start @ ids_at (accepted (accept_outs demo_kernel)) ?s\<rparr>"
  have "\<exists>k. acceptable_event blank_header (r_loop ?start) demo_kernel = Some (?s, k)"
    by (simp add: acceptable_event_def acceptable_loop.simps accept_one_def admit_client_def register_client_def
        emplace_context_def do_ctl_def epoll_add_def epoll_control_def socket_accept_def socket_set_blocking_def
        reactor_start_def new_event_loop_def demo_kernel_def socket_of_descriptor_def new_socket_handle_def
        is_valid_handle_def level_of_errno Let_def)
  then obtain k1 where a: "acceptable_event blank_header (r_loop ?start) demo_kernel = Some (?s, k1)"
    by blast
  have "reactor_step LittleEndian blank_header ?start ?r"
    by (rule Accepting [OF _ _ a])
       (simp_all add: reactor_start_def accepts_fresh_def demo_kernel_def new_event_loop_def)
  then have steps: "(reactor_step LittleEndian blank_header)\<^sup>*\<^sup>* ?start ?r"
    by blast
  have drain: "drain_counter 4 (counter_outs ?k) = Some (True, [])"
    by (simp add: drain_counter.simps event_handle_read_def is_valid_handle_def level_of_errno status_eq_def
        detail_eq_def status_defs)
  have "notify_event [9] (r_loop ?r) ?k \<noteq> None"
    by (simp add: notify_event_def drain [simplified] writable_event_def pop_client_frames_eq add_client_queues new_mail_box_def
        reactor_start_def new_event_loop_def demo_kernel_def context_write_def new_connect_context_def
        socket_of_descriptor_def new_socket_handle_def is_valid_handle_def socket_write_def socket_write_loop.simps
        do_ctl_def epoll_modify_def epoll_control_def has_pending_write_def Let_def)
  then obtain s k' where n: "notify_event [9] (r_loop ?r) ?k = Some (s, k')"
    by (cases "notify_event [9] (r_loop ?r) ?k") auto
  have "list_all (\<lambda>fd. flushed fd s k') [9]"
    by (rule notify_flushes [OF steps new_mail_box_empty _ _ _ _ _ drain n])
       (simp_all add: reactor_start_def new_event_loop_def is_valid_handle_def write_bounded_def demo_kernel_def
         add_client_queues new_connect_context_def)
  with steps n show ?thesis
    by (intro exI [of _ ?r] exI [of _ s] exI [of _ k']) simp
qed

subsection \<open>What the reactor gets wrong\<close>

text \<open>A peer that sends and closes at once: the event carries the hang-up, and the connection is removed
  without the read, so the bytes that are there are never handed on.\<close>

theorem hang_up_drops_input:
  assumes "m_loop_event_handle s = Some e" "fd \<noteq> socket_handle (m_server_handle s)" "fd \<noteq> e"
    and "and flags (or (or EPOLLHUP EPOLLERR) EPOLLRDHUP) \<noteq> 0"
    and "m_reactor_mail_box s = Some box" "m_connect_contexts s fd = Some c"
    and "handle_event host junk order \<lparr>events = flags, data_fd = fd\<rparr> s k = Some (w, s', k')"
  shows "s' = without_context fd (m_connect_id c) box s \<and> w = [] \<and> bytes_in k' = bytes_in k"
proof -
  have "map_option (Pair []) (remove_connect fd s k) = Some (w, s', k')"
    using assms by (simp add: handle_event_def)
  then have "w = []" "remove_connect fd s k = Some (s', k')"
    by (cases "remove_connect fd s k"; simp)+
  with remove_connect_effect [OF this(2) assms(5)] assms(6) show ?thesis by simp
qed

text \<open>A connection that holds a frame for its client and meets a broken pipe, beside nothing else.\<close>

definition broken_loop :: PosixEpollEventLoop where
  "broken_loop =
     new_event_loop\<lparr>m_reactor_mail_box := Some (push_to_client_frame \<lparr>connect_id = 0, frame_data = [1]\<rparr>
         (add_to_client_queue 0 new_mail_box)),
       m_connect_contexts := [9 \<mapsto> new_connect_context blank_header 0 (socket_of_descriptor 9)],
       m_loop_event_handle := Some 4, m_epoll_handle := 5, m_server_handle := socket_of_descriptor 3\<rparr>"

definition broken_kernel :: kernel where
  "broken_kernel = demo_kernel\<lparr>write_outs := (\<lambda>_. [Fails 32]), counter_outs := [Done (8, 1), Fails EAGAIN],
     read_outs := (\<lambda>_. [Done [7], Fails EAGAIN]), ctl_outs := [Done (), Done ()]\<rparr>"

lemmas broken_defs =
  broken_loop_def broken_kernel_def demo_kernel_def new_event_loop_def new_mail_box_def new_connect_context_def
  socket_of_descriptor_def new_socket_handle_def is_valid_handle_def

theorem hang_up_drops_input_witness:
  "\<exists>w s' k'. handle_event LittleEndian blank_header (\<lambda>_. [9]) \<lparr>events = 0x2001, data_fd = 9\<rparr> broken_loop broken_kernel =
      Some (w, s', k') \<and> m_connect_contexts s' 9 = None \<and> bytes_in k' = bytes_in broken_kernel"
proof -
  obtain box where box: "m_reactor_mail_box broken_loop = Some box"
    by (simp add: broken_defs)
  have ctx: "m_connect_contexts broken_loop 9 = Some (new_connect_context blank_header 0 (socket_of_descriptor 9))"
    by (simp add: broken_loop_def)
  have "handle_event LittleEndian blank_header (\<lambda>_. [9]) \<lparr>events = 0x2001, data_fd = 9\<rparr> broken_loop broken_kernel \<noteq> None"
    by (simp add: handle_event_def remove_connect_def do_ctl_def epoll_remove_def epoll_control_def broken_defs)
  then obtain w s' k' where h: "handle_event LittleEndian blank_header (\<lambda>_. [9]) \<lparr>events = 0x2001, data_fd = 9\<rparr>
      broken_loop broken_kernel = Some (w, s', k')"
    by (cases "handle_event LittleEndian blank_header (\<lambda>_. [9]) \<lparr>events = 0x2001, data_fd = 9\<rparr> broken_loop broken_kernel") auto
  have "s' = without_context 9 (m_connect_id (new_connect_context blank_header 0 (socket_of_descriptor 9))) box broken_loop \<and>
      w = [] \<and> bytes_in k' = bytes_in broken_kernel"
    by (rule hang_up_drops_input [where e = 4, OF _ _ _ _ box ctx h]) (simp_all add: broken_defs)
  with h show ?thesis by (simp add: without_context_def)
qed

text \<open>A write error while a notification is handled erases the connection from the map that the loop
  iterates over, which leaves its iterator invalid. The same error in a writable event only removes the
  connection.\<close>

theorem notify_invalidates_iterator:
  "notify_event [9] broken_loop broken_kernel = None \<and>
   (\<exists>s k. writable_event 9 broken_loop broken_kernel = Some (s, k) \<and> m_connect_contexts s 9 = None)"
proof
  have w: "\<exists>s k. writable_event 9 broken_loop (broken_kernel\<lparr>counter_outs := outs\<rparr>) = Some (s, k) \<and>
      m_connect_contexts s 9 = None" for outs
    by (simp add: writable_event_def pop_client_frames_eq push_client_queues add_client_queues remove_connect_def
        context_write_def socket_write_def socket_write_loop.simps socket_write_some_def
        do_ctl_def epoll_remove_def epoll_control_def broken_defs level_of_errno Let_def)
  have drain: "drain_counter 4 [Done (8, 1), Fails EAGAIN] = Some (True, [])"
    by (simp add: drain_counter.simps event_handle_read_def is_valid_handle_def level_of_errno status_eq_def
        detail_eq_def status_defs)
  have "m_loop_event_handle broken_loop = Some 4" "counter_outs broken_kernel = [Done (8, 1), Fails EAGAIN]"
    by (simp_all add: broken_loop_def broken_kernel_def)
  with w [of "[]"] drain show "notify_event [9] broken_loop broken_kernel = None"
    by (auto simp: notify_event_def)
  show "\<exists>s k. writable_event 9 broken_loop broken_kernel = Some (s, k) \<and> m_connect_contexts s 9 = None"
    using w [of "counter_outs broken_kernel"] by simp
qed

text \<open>A stop before the loop has started is forgotten: \<open>run\<close> sets the flag that \<open>stop\<close> has cleared.\<close>

lemma early_stop_forgotten:
  "m_reactor_mail_box s \<noteq> None \<Longrightarrow> is_valid_handle (m_epoll_handle s) \<Longrightarrow> m_loop_event_handle s \<noteq> None \<Longrightarrow>
     socket_bool (m_server_handle s) \<Longrightarrow> run host junk order flags (loop_stop s) k = run host junk order flags s k"
  by (auto simp: run_def loop_stop_def)

end
