(* ===== verification/Timers.thy ===== *)
theory Timers
  imports Prelude "HOL-Library.Multiset"
begin

text \<open>
  The timers, \<open>concurrent/timer/timer_manager\<close>: tasks at a time and periodic tasks, kept in a
  \<open>std::multimap\<close> by their deadlines, and the thread that runs them.

  Times are numbers of ticks of the steady clock, unbounded where the source has 64 bits, as are the remaining runs of a periodic
  task; what the clock shows is an argument. A callback
  of a user is a value, and running it is to list it; the callback of a periodic task is
  \<open>Tick\<close> with the id of the task. \<open>m_execute_environment\<close> only decides in which thread the
  callbacks run, in the same order. The first part treats the operations and the rounds of the
  thread as they follow each other under the mutex, the last part the waiting.
\<close>

section \<open>Operations\<close>

datatype 'c callback = User 'c | Tick u64

record 'c PeriodicTask =
  period :: int
  task_callback :: 'c
  remain_times :: int

record 'c TimerManager =
  m_cycle_task_id :: u64
  m_periodic_tasks :: "u64 \<Rightarrow> 'c PeriodicTask option"
  m_timer_callbacks :: "(int \<times> 'c callback) list"
  m_task_queue :: "'c callback list"

definition new_timers :: "'c TimerManager" where
  "new_timers = \<lparr>m_cycle_task_id = 0, m_periodic_tasks = Map.empty, m_timer_callbacks = [], m_task_queue = []\<rparr>"

text \<open>\<open>std::multimap::insert\<close>: behind the elements with the same key.\<close>

fun multimap_insert :: "int \<Rightarrow> 'v \<Rightarrow> (int \<times> 'v) list \<Rightarrow> (int \<times> 'v) list" where
  "multimap_insert t v [] = [(t, v)]"
| "multimap_insert t v ((u, w) # xs) = (if t < u then (t, v) # (u, w) # xs else (u, w) # multimap_insert t v xs)"

definition add_task_until :: "int \<Rightarrow> 'c callback \<Rightarrow> 'c TimerManager \<Rightarrow> 'c TimerManager" where
  "add_task_until t cb s = s\<lparr>m_timer_callbacks := multimap_insert t cb (m_timer_callbacks s)\<rparr>"

definition add_task_for :: "int \<Rightarrow> int \<Rightarrow> 'c callback \<Rightarrow> 'c TimerManager \<Rightarrow> 'c TimerManager" where
  "add_task_for now d cb s =
     (let deadline = now + d in s\<lparr>m_timer_callbacks := multimap_insert deadline cb (m_timer_callbacks s)\<rparr>)"

definition add_periodic_task ::
  "int \<Rightarrow> int \<Rightarrow> 'c \<Rightarrow> int \<Rightarrow> 'c TimerManager \<Rightarrow> u64 \<times> 'c TimerManager" where
  "add_periodic_task now d cb n s =
     (let task_id = m_cycle_task_id s;
          task = \<lparr>period = d, task_callback = cb, remain_times = n\<rparr>;
          s = s\<lparr>m_cycle_task_id := m_cycle_task_id s + 1,
                m_periodic_tasks := (if m_periodic_tasks s task_id = None
                  then (m_periodic_tasks s)(task_id \<mapsto> task) else m_periodic_tasks s)\<rparr>
      in (task_id, add_task_for now d (Tick task_id) s))"

definition cancel_periodic_task :: "u64 \<Rightarrow> 'c TimerManager \<Rightarrow> 'c TimerManager" where
  "cancel_periodic_task task_id s = s\<lparr>m_periodic_tasks := (m_periodic_tasks s)(task_id := None)\<rparr>"

text \<open>The callbacks that are run are listed with the id of their periodic task.\<close>

definition execute_periodic_task ::
  "int \<Rightarrow> u64 \<Rightarrow> 'c TimerManager \<Rightarrow> (u64 option \<times> 'c) list \<times> 'c TimerManager" where
  "execute_periodic_task now task_id s =
     (case m_periodic_tasks s task_id of
        None \<Rightarrow> ([], s)
      | Some task \<Rightarrow>
          (let left = remain_times task;
               s = (if left > 0
                    then s\<lparr>m_periodic_tasks := (m_periodic_tasks s)(task_id \<mapsto> task\<lparr>remain_times := remain_times task - 1\<rparr>)\<rparr>
                    else s);
               is_execute = (if left > 0 then True else if left < 0 then True else False);
               s = (if left \<noteq> 0 then add_task_for now (period task) (Tick task_id) s else s);
               is_can_cancel = (if left \<noteq> 0 then False else True);
               done_now = (if is_execute then [(Some task_id, task_callback task)] else [])
           in (done_now, if is_can_cancel then cancel_periodic_task task_id s else s)))"

section \<open>A round of the thread\<close>

text \<open>The loop that moves what is due to the queue.\<close>

fun collect :: "int \<Rightarrow> (int \<times> 'c callback) list \<Rightarrow> 'c callback list \<Rightarrow> 'c callback list \<times> (int \<times> 'c callback) list" where
  "collect now [] queue = (queue, [])"
| "collect now ((t, cb) # cbs) queue = (if t \<le> now then collect now cbs (queue @ [cb]) else (queue, (t, cb) # cbs))"

definition run_callback :: "int \<Rightarrow> 'c callback \<Rightarrow> 'c TimerManager \<Rightarrow> (u64 option \<times> 'c) list \<times> 'c TimerManager" where
  "run_callback now cb s =
     (case cb of User c \<Rightarrow> ([(None, c)], s) | Tick task_id \<Rightarrow> execute_periodic_task now task_id s)"

text \<open>The loop that runs the queue; the clock gives the time at which each callback runs.\<close>

fun run_queue ::
  "(nat \<Rightarrow> int) \<Rightarrow> nat \<Rightarrow> 'c callback list \<Rightarrow> 'c TimerManager \<Rightarrow> (u64 option \<times> 'c) list \<times> 'c TimerManager" where
  "run_queue clock i [] s = ([], s\<lparr>m_task_queue := []\<rparr>)"
| "run_queue clock i (cb # cbs) s =
     (case run_callback (clock i) cb s of
        (done_now, s') \<Rightarrow>
          (case run_queue clock (Suc i) cbs (s'\<lparr>m_task_queue := cbs\<rparr>) of (done_now', s'') \<Rightarrow> (done_now @ done_now', s'')))"

definition timer_round ::
  "int \<Rightarrow> (nat \<Rightarrow> int) \<Rightarrow> 'c TimerManager \<Rightarrow> (u64 option \<times> 'c) list \<times> 'c TimerManager" where
  "timer_round now clock s =
     (case m_timer_callbacks s of
        [] \<Rightarrow> ([], s)
      | (t, cb) # _ \<Rightarrow>
          if t > now then ([], s)
          else (case collect now (m_timer_callbacks s) (m_task_queue s) of
                  (queue, rest) \<Rightarrow> run_queue clock 0 queue (s\<lparr>m_timer_callbacks := rest, m_task_queue := queue\<rparr>)))"

section \<open>The multimap\<close>

abbreviation by_deadline :: "(int \<times> 'v) list \<Rightarrow> bool" where
  "by_deadline xs \<equiv> sorted (map fst xs)"

lemma multimap_insert_set: "set (multimap_insert t v xs) = insert (t, v) (set xs)"
  by (induction t v xs rule: multimap_insert.induct) auto

lemma multimap_insert_mset: "mset (multimap_insert t v xs) = add_mset (t, v) (mset xs)"
  by (induction t v xs rule: multimap_insert.induct) auto

lemma multimap_insert_sorted: "by_deadline xs \<Longrightarrow> by_deadline (multimap_insert t v xs)"
proof (induction t v xs rule: multimap_insert.induct)
  case (2 t v u w xs)
  then show ?case by (auto simp: multimap_insert_set)
qed simp

text \<open>Elements with the same deadline stay in the order in which they were inserted.\<close>

lemma multimap_insert_stable:
  "by_deadline xs \<Longrightarrow> filter (\<lambda>p. fst p = u) (multimap_insert t v xs) =
     filter (\<lambda>p. fst p = u) xs @ (if t = u then [(t, v)] else [])"
proof (induction t v xs rule: multimap_insert.induct)
  case (2 t v u' w xs)
  have "t < u' \<Longrightarrow> \<forall>p \<in> set xs. fst p \<noteq> t"
    using 2(2) by auto
  with 2 show ?case by (auto simp: filter_empty_conv)
qed simp

lemma collect_eq:
  "collect now cbs queue = (queue @ map snd (takeWhile (\<lambda>p. fst p \<le> now) cbs), dropWhile (\<lambda>p. fst p \<le> now) cbs)"
  by (induction now cbs queue rule: collect.induct) auto

lemma takeWhile_filter: "by_deadline cbs \<Longrightarrow> takeWhile (\<lambda>p. fst p \<le> now) cbs = filter (\<lambda>p. fst p \<le> now) cbs"
proof (induction cbs)
  case (Cons p cbs)
  then have "\<not> fst p \<le> now \<Longrightarrow> \<forall>q \<in> set cbs. \<not> fst q \<le> now"
    by auto
  with Cons show ?case by (cases "fst p \<le> now") (simp_all add: filter_False filter_True)
qed simp

lemma dropWhile_filter: "by_deadline cbs \<Longrightarrow> dropWhile (\<lambda>p. fst p \<le> now) cbs = filter (\<lambda>p. \<not> fst p \<le> now) cbs"
proof (induction cbs)
  case (Cons p cbs)
  then have "\<not> fst p \<le> now \<Longrightarrow> \<forall>q \<in> set cbs. \<not> fst q \<le> now"
    by auto
  with Cons show ?case by (cases "fst p \<le> now") (simp_all add: filter_False filter_True)
qed simp

section \<open>What waits\<close>

text \<open>The callbacks that wait for their time or for their turn.\<close>

definition pending_callbacks :: "'c TimerManager \<Rightarrow> 'c callback multiset" where
  "pending_callbacks s = mset (map snd (m_timer_callbacks s)) + mset (m_task_queue s)"

lemma pending_add_until: "pending_callbacks (add_task_until t cb s) = add_mset cb (pending_callbacks s)"
  by (simp add: pending_callbacks_def add_task_until_def multimap_insert_mset)

lemma add_task_for_until: "add_task_for now d cb s = add_task_until (now + d) cb s"
  by (simp add: add_task_for_def add_task_until_def)

lemma add_task_fields:
  "m_periodic_tasks (add_task_until t cb s) = m_periodic_tasks s"
  "m_cycle_task_id (add_task_until t cb s) = m_cycle_task_id s"
  "m_task_queue (add_task_until t cb s) = m_task_queue s"
  by (simp_all add: add_task_until_def)

lemma execute_periodic_eq:
  "execute_periodic_task now task_id s =
     (case m_periodic_tasks s task_id of
        None \<Rightarrow> ([], s)
      | Some task \<Rightarrow>
          if remain_times task = 0 then ([], cancel_periodic_task task_id s)
          else ([(Some task_id, task_callback task)],
            add_task_until (now + period task) (Tick task_id)
              (if remain_times task > 0
               then s\<lparr>m_periodic_tasks := (m_periodic_tasks s)(task_id \<mapsto> task\<lparr>remain_times := remain_times task - 1\<rparr>)\<rparr>
               else s)))"
  by (auto simp: execute_periodic_task_def Let_def add_task_for_until split: option.split)

section \<open>Invariants\<close>

text \<open>The ticks of a task that wait.\<close>

abbreviation ticks :: "u64 \<Rightarrow> 'c TimerManager \<Rightarrow> nat" where
  "ticks task_id s \<equiv> count (pending_callbacks s) (Tick task_id)"

text \<open>A task that is registered has exactly one tick waiting, any other at most one; the ids that are still to
  be given have neither.\<close>

definition ticks_ok :: "u64 \<Rightarrow> (u64 \<Rightarrow> 'c PeriodicTask option) \<Rightarrow> 'c callback multiset \<Rightarrow> bool" where
  "ticks_ok n tasks P \<longleftrightarrow> (\<forall>i. count P (Tick i) \<le> 1) \<and> (\<forall>i. tasks i \<noteq> None \<longrightarrow> count P (Tick i) = 1) \<and>
     (\<forall>i. n \<le> i \<longrightarrow> tasks i = None \<and> count P (Tick i) = 0)"

lemma ticks_ok_user: "ticks_ok n tasks (add_mset (User c) P) = ticks_ok n tasks P"
  by (simp add: ticks_ok_def)

lemma ticks_ok_stale:
  assumes "ticks_ok n tasks (add_mset (Tick i) P)" "tasks i = None" shows "ticks_ok n tasks P"
  unfolding ticks_ok_def
proof (intro conjI allI impI)
  fix j
  have j: "count P (Tick j) \<le> count (add_mset (Tick i) P) (Tick j)"
    by simp
  with assms(1) show "count P (Tick j) \<le> 1"
    unfolding ticks_ok_def by (meson le_trans)
  show "count P (Tick j) = 1" if "tasks j \<noteq> None"
    using assms that by (cases "j = i") (auto simp: ticks_ok_def split: if_splits)
  show "tasks j = None" "count P (Tick j) = 0" if "n \<le> j"
    using assms(1) that j unfolding ticks_ok_def by (auto simp del: count_add_mset)
qed

lemma ticks_ok_cancel: "ticks_ok n tasks P \<Longrightarrow> ticks_ok n (tasks(i := None)) P"
  by (simp add: ticks_ok_def)

lemma ticks_ok_drop: "ticks_ok n tasks (add_mset (Tick i) P) \<Longrightarrow> ticks_ok n (tasks(i := None)) P"
  using ticks_ok_stale [of n "tasks(i := None)" i P] ticks_ok_cancel [of n tasks "add_mset (Tick i) P" i] by simp

lemma ticks_ok_update: "ticks_ok n tasks P \<Longrightarrow> tasks i \<noteq> None \<Longrightarrow> ticks_ok n (tasks(i \<mapsto> task)) P"
  by (auto simp: ticks_ok_def)

lemma ticks_ok_new:
  assumes "ticks_ok n tasks P" "unat n + 1 < 2 ^ 64"
  shows "ticks_ok (n + 1) (tasks(n \<mapsto> task)) (add_mset (Tick n) P)"
proof -
  have "unat (n + 1) = unat n + 1"
    using assms(2) by (simp add: unat_add_small)
  then have above: "n + 1 \<le> i \<Longrightarrow> n \<le> i \<and> i \<noteq> n" for i
    by (auto simp: word_le_nat_alt)
  show ?thesis
    unfolding ticks_ok_def
  proof (intro conjI allI impI)
    fix i
    show "count (add_mset (Tick n) P) (Tick i) \<le> 1"
      using assms(1) by (auto simp: ticks_ok_def)
    show "count (add_mset (Tick n) P) (Tick i) = 1" if "(tasks(n \<mapsto> task)) i \<noteq> None"
      using assms(1) that by (auto simp: ticks_ok_def split: if_splits)
    show "(tasks(n \<mapsto> task)) i = None" "count (add_mset (Tick n) P) (Tick i) = 0" if "n + 1 \<le> i"
      using assms(1) above [OF that] by (auto simp: ticks_ok_def)
  qed
qed

definition timers_inv :: "'c TimerManager \<Rightarrow> bool" where
  "timers_inv s \<longleftrightarrow> by_deadline (m_timer_callbacks s) \<and>
     ticks_ok (m_cycle_task_id s) (m_periodic_tasks s) (pending_callbacks s)"

lemma add_task_inv:
  "by_deadline (m_timer_callbacks s) \<Longrightarrow> by_deadline (m_timer_callbacks (add_task_until t cb s))"
  by (simp add: add_task_until_def multimap_insert_sorted)

lemmas timers_simps = pending_add_until add_task_fields add_task_inv ticks_ok_user

lemma new_timers_inv: "timers_inv new_timers"
  by (simp add: timers_inv_def new_timers_def pending_callbacks_def ticks_ok_def)

lemma add_user_inv: "timers_inv s \<Longrightarrow> timers_inv (add_task_until t (User c) s)"
  by (simp add: timers_inv_def timers_simps)

lemma cancel_fields:
  "m_periodic_tasks (cancel_periodic_task i s) = (m_periodic_tasks s)(i := None)"
  "m_timer_callbacks (cancel_periodic_task i s) = m_timer_callbacks s"
  "m_cycle_task_id (cancel_periodic_task i s) = m_cycle_task_id s"
  "m_task_queue (cancel_periodic_task i s) = m_task_queue s"
  "pending_callbacks (cancel_periodic_task i s) = pending_callbacks s"
  by (simp_all add: cancel_periodic_task_def pending_callbacks_def)

lemma cancel_inv: "timers_inv s \<Longrightarrow> timers_inv (cancel_periodic_task i s)"
  by (simp add: timers_inv_def cancel_fields ticks_ok_cancel)

lemma add_periodic_inv:
  assumes "timers_inv s" "unat (m_cycle_task_id s) + 1 < 2 ^ 64"
  shows "timers_inv (snd (add_periodic_task now d cb n s))"
proof -
  have "m_periodic_tasks s (m_cycle_task_id s) = None"
    using assms(1) by (simp add: timers_inv_def ticks_ok_def)
  moreover have "pending_callbacks (s\<lparr>m_cycle_task_id := i, m_periodic_tasks := f\<rparr>) = pending_callbacks s" for i f
    by (simp add: pending_callbacks_def)
  ultimately show ?thesis
    using assms by (simp add: add_periodic_task_def Let_def add_task_for_until timers_inv_def timers_simps ticks_ok_new)
qed

text \<open>One callback of the queue. Its tick has been taken out; it is put back if the task goes on.\<close>

abbreviation with_queue :: "'c callback list \<Rightarrow> 'c TimerManager \<Rightarrow> 'c TimerManager" where
  "with_queue q s \<equiv> s\<lparr>m_task_queue := q\<rparr>"

lemma with_queue_same: "m_task_queue s = q \<Longrightarrow> with_queue q s = s"
  by (cases s) simp

lemma pending_with_queue:
  "m_task_queue s = cb # cbs \<Longrightarrow> pending_callbacks s = add_mset cb (pending_callbacks (with_queue cbs s))"
  "pending_callbacks (with_queue cbs (add_task_until t cb' s)) = add_mset cb' (pending_callbacks (with_queue cbs s))"
  "pending_callbacks (with_queue cbs (s\<lparr>m_periodic_tasks := f\<rparr>)) = pending_callbacks (with_queue cbs s)"
  "pending_callbacks (with_queue cbs (cancel_periodic_task i s)) = pending_callbacks (with_queue cbs s)"
  by (simp_all add: pending_callbacks_def add_task_until_def multimap_insert_mset cancel_periodic_task_def)

lemma run_callback_inv:
  assumes "timers_inv s" "m_task_queue s = cb # cbs"
  shows "timers_inv (with_queue cbs (snd (run_callback now cb s)))"
proof (cases cb)
  case (User c)
  with assms show ?thesis
    using pending_with_queue(1) [OF assms(2)] by (simp add: run_callback_def timers_inv_def ticks_ok_user)
next
  case (Tick i)
  have ok: "ticks_ok (m_cycle_task_id s) (m_periodic_tasks s) (add_mset (Tick i) (pending_callbacks (with_queue cbs s)))"
    and sorted: "by_deadline (m_timer_callbacks s)"
    using assms(1) pending_with_queue(1) [OF assms(2)] Tick by (simp_all add: timers_inv_def)
  show ?thesis
  proof (cases "m_periodic_tasks s i")
    case None
    with Tick sorted ticks_ok_stale [OF ok None] show ?thesis
      by (simp add: run_callback_def execute_periodic_eq timers_inv_def)
  next
    case (Some task)
    show ?thesis
    proof (cases "remain_times task = 0")
      case True
      with Tick Some sorted ticks_ok_drop [OF ok] show ?thesis
        by (simp add: run_callback_def execute_periodic_eq timers_inv_def cancel_fields pending_with_queue)
    next
      case False
      with Tick Some sorted ok ticks_ok_update [OF ok] show ?thesis
        by (simp add: run_callback_def execute_periodic_eq timers_inv_def timers_simps pending_with_queue)
    qed
  qed
qed

lemma run_queue_inv:
  "timers_inv s \<Longrightarrow> m_task_queue s = q \<Longrightarrow> timers_inv (snd (run_queue clock i q s)) \<and> m_task_queue (snd (run_queue clock i q s)) = []"
proof (induction clock i q s rule: run_queue.induct)
  case (1 clock i s)
  then show ?case by (simp add: with_queue_same)
next
  case (2 clock i cb cbs s)
  obtain ex s' where r: "run_callback (clock i) cb s = (ex, s')" by fastforce
  with run_callback_inv [OF 2(2,3), of "clock i"] have "timers_inv (with_queue cbs s')"
    by simp
  from 2(1) [OF r [symmetric] this] r show ?case
    by (auto split: prod.split)
qed

section \<open>Histories\<close>

datatype 'c timer_call =
    Add_Until int 'c
  | Add_For int int 'c
  | Add_Periodic int int 'c int
  | Cancel u64
  | Round int "nat \<Rightarrow> int"

fun timer_step :: "'c timer_call \<Rightarrow> 'c TimerManager \<Rightarrow> (u64 option \<times> 'c) list \<times> 'c TimerManager" where
  "timer_step (Add_Until t c) s = ([], add_task_until t (User c) s)"
| "timer_step (Add_For now d c) s = ([], add_task_for now d (User c) s)"
| "timer_step (Add_Periodic now d c n) s = ([], snd (add_periodic_task now d c n s))"
| "timer_step (Cancel i) s = ([], cancel_periodic_task i s)"
| "timer_step (Round now clock) s = timer_round now clock s"

fun timer_run :: "'c timer_call list \<Rightarrow> 'c TimerManager \<Rightarrow> (u64 option \<times> 'c) list \<times> 'c TimerManager" where
  "timer_run [] s = ([], s)"
| "timer_run (c # cs) s =
     (case timer_step c s of (ex, s') \<Rightarrow> (case timer_run cs s' of (ex', s'') \<Rightarrow> (ex @ ex', s'')))"

definition idle_inv :: "'c TimerManager \<Rightarrow> bool" where
  "idle_inv s \<longleftrightarrow> timers_inv s \<and> m_task_queue s = []"

lemma collected:
  assumes "by_deadline (m_timer_callbacks s)" "m_task_queue s = []"
    and "collect now (m_timer_callbacks s) (m_task_queue s) = (q, rest)"
  shows "q = map snd (filter (\<lambda>p. fst p \<le> now) (m_timer_callbacks s))"
    and "rest = filter (\<lambda>p. \<not> fst p \<le> now) (m_timer_callbacks s)"
    and "pending_callbacks (s\<lparr>m_timer_callbacks := rest, m_task_queue := q\<rparr>) = pending_callbacks s"
proof -
  show q: "q = map snd (filter (\<lambda>p. fst p \<le> now) (m_timer_callbacks s))"
    and r: "rest = filter (\<lambda>p. \<not> fst p \<le> now) (m_timer_callbacks s)"
    using assms by (simp_all add: collect_eq takeWhile_filter dropWhile_filter)
  have "mset (map snd rest) + mset q = mset (map snd (m_timer_callbacks s))"
    unfolding q r by (metis (no_types) image_mset_union mset_filter mset_map multiset_partition add.commute)
  with assms(2) show "pending_callbacks (s\<lparr>m_timer_callbacks := rest, m_task_queue := q\<rparr>) = pending_callbacks s"
    by (simp add: pending_callbacks_def)
qed

lemma timer_round_eq:
  assumes "idle_inv s" "timer_round now clock s = (ex, s')"
  shows "(ex, s') = run_queue clock 0 (map snd (filter (\<lambda>p. fst p \<le> now) (m_timer_callbacks s)))
      (s\<lparr>m_timer_callbacks := filter (\<lambda>p. \<not> fst p \<le> now) (m_timer_callbacks s),
         m_task_queue := map snd (filter (\<lambda>p. fst p \<le> now) (m_timer_callbacks s))\<rparr>)"
proof -
  have s: "by_deadline (m_timer_callbacks s)" "m_task_queue s = []"
    using assms(1) by (simp_all add: idle_inv_def timers_inv_def)
  obtain q rest where c: "collect now (m_timer_callbacks s) (m_task_queue s) = (q, rest)"
    by fastforce
  note q = collected(1,2) [OF s c]
  show ?thesis
  proof (cases "\<exists>t cb cbs. m_timer_callbacks s = (t, cb) # cbs \<and> t \<le> now")
    case True
    then obtain t cb cbs where "m_timer_callbacks s = (t, cb) # cbs" "t \<le> now" by blast
    with assms(2) c have "(ex, s') = run_queue clock 0 q (s\<lparr>m_timer_callbacks := rest, m_task_queue := q\<rparr>)"
      by (simp add: timer_round_def)
    then show ?thesis by (simp only: q)
  next
    case False
    then have none: "filter (\<lambda>p. fst p \<le> now) (m_timer_callbacks s) = []"
      using s(1) by (cases "m_timer_callbacks s") (force simp: filter_empty_conv)+
    then have rest: "filter (\<lambda>p. \<not> fst p \<le> now) (m_timer_callbacks s) = m_timer_callbacks s"
      by (auto simp: filter_empty_conv intro: filter_True)
    have "timer_round now clock s = ([], s)"
      using False by (cases "m_timer_callbacks s") (auto simp: timer_round_def)
    moreover have "s\<lparr>m_timer_callbacks := m_timer_callbacks s, m_task_queue := []\<rparr> = s"
      using s(2) by (cases s) simp
    ultimately show ?thesis
      using assms(2) by (simp only: none rest) simp
  qed
qed

lemma round_inv:
  assumes "idle_inv s" shows "idle_inv (snd (timer_round now clock s))"
proof -
  obtain ex s' where r: "timer_round now clock s = (ex, s')" by fastforce
  let ?q = "map snd (filter (\<lambda>p. fst p \<le> now) (m_timer_callbacks s))"
  let ?s = "s\<lparr>m_timer_callbacks := filter (\<lambda>p. \<not> fst p \<le> now) (m_timer_callbacks s), m_task_queue := ?q\<rparr>"
  have s: "by_deadline (m_timer_callbacks s)" "m_task_queue s = []" "timers_inv s"
    using assms by (simp_all add: idle_inv_def timers_inv_def)
  obtain q rest where c: "collect now (m_timer_callbacks s) (m_task_queue s) = (q, rest)"
    by fastforce
  have "timers_inv ?s"
    using s(3) collected [OF s(1,2) c] by (simp add: timers_inv_def sorted_filter)
  moreover have "m_task_queue ?s = ?q"
    by simp
  ultimately have "timers_inv (snd (run_queue clock 0 ?q ?s)) \<and> m_task_queue (snd (run_queue clock 0 ?q ?s)) = []"
    by (rule run_queue_inv)
  moreover have "snd (timer_round now clock s) = snd (run_queue clock 0 ?q ?s)"
    by (simp only: r flip: timer_round_eq [OF assms r])
  ultimately show ?thesis
    by (simp only: idle_inv_def)
qed

lemma timer_step_inv:
  assumes "idle_inv s" "unat (m_cycle_task_id s) + 1 < 2 ^ 64"
  shows "idle_inv (snd (timer_step c s))"
proof (cases c)
  case (Add_Periodic now d cb n)
  have "m_task_queue (snd (add_periodic_task now d cb n s)) = m_task_queue s"
    by (simp add: add_periodic_task_def Let_def add_task_for_until add_task_fields)
  with Add_Periodic add_periodic_inv [of s now d cb n] assms show ?thesis
    by (simp add: idle_inv_def)
next
  case (Round now clock)
  with round_inv [OF assms(1)] show ?thesis by simp
qed (use assms in \<open>simp_all add: idle_inv_def add_user_inv add_task_fields add_task_for_until cancel_inv cancel_fields\<close>)

section \<open>Due tasks\<close>

text \<open>The tasks of users in a list of callbacks, those with a deadline up to a time and those behind it.\<close>

fun users_where :: "(int \<Rightarrow> bool) \<Rightarrow> (int \<times> 'c callback) list \<Rightarrow> 'c list" where
  "users_where P [] = []"
| "users_where P ((t, User c) # cbs) = (if P t then c # users_where P cbs else users_where P cbs)"
| "users_where P ((t, Tick i) # cbs) = users_where P cbs"

fun users :: "'c callback list \<Rightarrow> 'c list" where
  "users [] = []"
| "users (User c # q) = c # users q"
| "users (Tick i # q) = users q"

definition user_runs :: "(u64 option \<times> 'c) list \<Rightarrow> 'c list" where
  "user_runs ex = map snd (filter (\<lambda>p. fst p = None) ex)"

lemma user_runs_simps [simp]:
  "user_runs [] = []" "user_runs (xs @ ys) = user_runs xs @ user_runs ys"
  "user_runs ((None, c) # xs) = c # user_runs xs" "user_runs ((Some i, c) # xs) = user_runs xs"
  by (simp_all add: user_runs_def)

lemma users_filter:
  "users (map snd (filter (\<lambda>p. fst p \<le> now) cbs)) = users_where (\<lambda>t. t \<le> now) cbs"
  "users_where P (filter (\<lambda>p. Q (fst p)) cbs) = users_where (\<lambda>t. P t \<and> Q t) cbs"
proof -
  show "users (map snd (filter (\<lambda>p. fst p \<le> now) cbs)) = users_where (\<lambda>t. t \<le> now) cbs"
    by (induction "\<lambda>t. t \<le> now" cbs rule: users_where.induct) simp_all
  show "users_where P (filter (\<lambda>p. Q (fst p)) cbs) = users_where (\<lambda>t. P t \<and> Q t) cbs"
    by (induction P cbs rule: users_where.induct) auto
qed

lemma users_insert_tick: "users_where P (multimap_insert t (Tick i) cbs) = users_where P cbs"
  by (induction P cbs rule: users_where.induct) simp_all

lemma run_callback_users:
  "run_callback now cb s = (ex, s') \<Longrightarrow>
     user_runs ex = users [cb] \<and> users_where P (m_timer_callbacks s') = users_where P (m_timer_callbacks s)"
  by (cases cb)
     (auto simp: run_callback_def execute_periodic_eq cancel_periodic_task_def add_task_until_def users_insert_tick
       split: option.splits if_splits)

lemma run_queue_users:
  "user_runs (fst (run_queue clock i q s)) = users q \<and>
   users_where P (m_timer_callbacks (snd (run_queue clock i q s))) = users_where P (m_timer_callbacks s)"
proof (induction clock i q s rule: run_queue.induct)
  case (2 clock i cb cbs s)
  obtain ex s' where r: "run_callback (clock i) cb s = (ex, s')" by fastforce
  from 2 [OF r [symmetric]] run_callback_users [OF r, of P] r show ?case
    by (cases cb) (auto split: prod.split)
qed simp

text \<open>C27: A round of the timer thread runs exactly the tasks whose deadline has come, in the order of their
  deadlines and, for the same deadline, in the order in which they were added; no task is run
  early, none is skipped, and those behind the time stay as they are.\<close>

theorem round_runs_due:
  assumes "idle_inv s" "timer_round now clock s = (ex, s')"
  shows "user_runs ex = users_where (\<lambda>t. t \<le> now) (m_timer_callbacks s) \<and>
    users_where (\<lambda>t. True) (m_timer_callbacks s') = users_where (\<lambda>t. now < t) (m_timer_callbacks s) \<and>
    by_deadline (m_timer_callbacks s')"
proof -
  have "by_deadline (m_timer_callbacks s')"
    using round_inv [OF assms(1), of now clock] assms(2) by (simp add: idle_inv_def timers_inv_def)
  moreover have "(\<lambda>t. now < t) = (\<lambda>t. True \<and> \<not> t \<le> now)"
    by (simp add: not_le)
  ultimately show ?thesis
    using run_queue_users [of clock 0 "map snd (filter (\<lambda>p. fst p \<le> now) (m_timer_callbacks s))"
        "s\<lparr>m_timer_callbacks := filter (\<lambda>p. \<not> fst p \<le> now) (m_timer_callbacks s),
           m_task_queue := map snd (filter (\<lambda>p. fst p \<le> now) (m_timer_callbacks s))\<rparr>" "\<lambda>t. True"]
    unfolding timer_round_eq [OF assms, symmetric]
    by (simp add: users_filter(1) users_filter(2) [where Q = "\<lambda>t. \<not> t \<le> now"])
qed

text \<open>Tasks added in the order 5, 3, 9 and 3.\<close>

definition demo_timers :: "int TimerManager" where
  "demo_timers = add_task_until 3 (User 4) (add_task_until 9 (User 3) (add_task_until 3 (User 2) (add_task_until 5 (User 1) new_timers)))"

lemma demo_timers_idle: "idle_inv demo_timers"
  by (simp add: idle_inv_def demo_timers_def add_user_inv new_timers_inv add_task_fields)
     (simp add: new_timers_def)

theorem round_runs_due_witness:
  "\<exists>ex s'. timer_round 5 (\<lambda>_. 6) demo_timers = (ex, s') \<and> user_runs ex = [2, 4, 1] \<and>
     users_where (\<lambda>t. True) (m_timer_callbacks s') = [3]"
proof -
  obtain ex s' where r: "timer_round 5 (\<lambda>_. 6) demo_timers = (ex, s')" by fastforce
  from round_runs_due [OF demo_timers_idle r] r show ?thesis
    by (simp add: demo_timers_def add_task_until_def new_timers_def)
qed

section \<open>Periodic tasks\<close>

definition runs_of :: "u64 \<Rightarrow> (u64 option \<times> 'c) list \<Rightarrow> 'c list" where
  "runs_of i ex = map snd (filter (\<lambda>p. fst p = Some i) ex)"

lemma runs_of_simps [simp]:
  "runs_of i [] = []" "runs_of i (xs @ ys) = runs_of i xs @ runs_of i ys"
  "runs_of i ((j, c) # xs) = (if j = Some i then c # runs_of i xs else runs_of i xs)"
  by (simp_all add: runs_of_def)

text \<open>A task with a limit: what it has run and what it has left are its limit, and it has left the table only when
  nothing is left. A task without a limit stays in the table.\<close>

fun goes_on :: "'c \<Rightarrow> int \<Rightarrow> int \<Rightarrow> 'c PeriodicTask option \<Rightarrow> 'c list \<Rightarrow> bool" where
  "goes_on cb d n None ex \<longleftrightarrow> 0 \<le> n \<and> ex = replicate (nat n) cb"
| "goes_on cb d n (Some task) ex \<longleftrightarrow> task_callback task = cb \<and> period task = d \<and>
     (if n < 0 then remain_times task = n \<and> ex = replicate (length ex) cb
      else 0 \<le> remain_times task \<and> remain_times task \<le> n \<and> ex = replicate (nat (n - remain_times task)) cb)"

lemma goes_on_run:
  assumes "goes_on cb d n (Some task) ex" "remain_times task \<noteq> 0"
  shows "goes_on cb d n (Some (task\<lparr>remain_times := (if remain_times task > 0 then remain_times task - 1 else remain_times task)\<rparr>))
    (ex @ [cb])"
proof (cases "n < 0")
  case True
  then have "ex = replicate (length ex) cb" using assms by simp
  then have "ex @ [cb] = replicate (length (ex @ [cb])) cb"
    by (metis length_append_singleton replicate_Suc replicate_append_same)
  with True assms show ?thesis by simp
next
  case False
  then have r: "0 < remain_times task" "remain_times task \<le> n" "ex = replicate (nat (n - remain_times task)) cb"
    using assms by simp_all
  then have "nat (n - (remain_times task - 1)) = Suc (nat (n - remain_times task))"
    by (simp add: Suc_nat_eq_nat_zadd1 algebra_simps)
  with False r assms show ?thesis
    by (simp add: replicate_append_same)
qed

lemma run_callback_goes_on:
  assumes "run_callback now c s = (ex', s')" "goes_on cb d n (m_periodic_tasks s i) ex"
  shows "goes_on cb d n (m_periodic_tasks s' i) (ex @ runs_of i ex')"
proof (cases c)
  case (User x)
  with assms show ?thesis by (auto simp: run_callback_def)
next
  case (Tick j)
  show ?thesis
  proof (cases "m_periodic_tasks s j")
    case None
    with Tick assms show ?thesis by (simp add: run_callback_def execute_periodic_eq)
  next
    case (Some task)
    show ?thesis
    proof (cases "remain_times task = 0")
      case True
      with Tick Some assms have "ex' = []" "m_periodic_tasks s' = (m_periodic_tasks s)(j := None)"
        by (auto simp: run_callback_def execute_periodic_eq cancel_fields)
      with assms(2) Some True show ?thesis by (cases "i = j") (auto split: if_splits)
    next
      case False
      with Tick Some assms(1) have r: "ex' = [(Some j, task_callback task)]" "m_periodic_tasks s' = (m_periodic_tasks s)
          (j \<mapsto> task\<lparr>remain_times := (if remain_times task > 0 then remain_times task - 1 else remain_times task)\<rparr>)"
        by (auto simp: run_callback_def execute_periodic_eq add_task_fields fun_upd_idem)
      show ?thesis
      proof (cases "i = j")
        case True
        with assms(2) Some have "goes_on cb d n (Some task) ex" by simp
        moreover from this have "task_callback task = cb" by simp
        ultimately show ?thesis
          using goes_on_run [of cb d n task ex] False r True by (simp del: goes_on.simps)
      next
        case False
        with assms(2) r show ?thesis by simp
      qed
    qed
  qed
qed

lemma run_queue_goes_on:
  "goes_on cb d n (m_periodic_tasks s i) ex \<Longrightarrow>
   goes_on cb d n (m_periodic_tasks (snd (run_queue clock k q s)) i) (ex @ runs_of i (fst (run_queue clock k q s)))"
proof (induction clock k q s arbitrary: ex rule: run_queue.induct)
  case (2 clock k c cbs s)
  obtain ex' s' where r: "run_callback (clock k) c s = (ex', s')" by fastforce
  from run_callback_goes_on [OF r 2(2)] have "goes_on cb d n (m_periodic_tasks (with_queue cbs s') i) (ex @ runs_of i ex')"
    by simp
  from 2(1) [OF r [symmetric] this] r show ?case
    by (auto split: prod.split)
qed simp

lemma timer_step_goes_on:
  assumes "idle_inv s" "goes_on cb d n (m_periodic_tasks s i) ex" "i < m_cycle_task_id s" "c \<noteq> Cancel i"
    and "timer_step c s = (ex', s')" "unat (m_cycle_task_id s) + 1 < 2 ^ 64"
  shows "goes_on cb d n (m_periodic_tasks s' i) (ex @ runs_of i ex') \<and> i < m_cycle_task_id s' \<and>
    unat (m_cycle_task_id s') \<le> unat (m_cycle_task_id s) + 1"
proof (cases c)
  case (Add_Periodic now d' cb' n')
  have "unat (m_cycle_task_id s + 1) = unat (m_cycle_task_id s) + 1"
    using assms(6) by (simp add: unat_add_small)
  with Add_Periodic assms show ?thesis
    by (auto simp: add_periodic_task_def Let_def add_task_for_until add_task_fields word_less_nat_alt)
next
  case (Round now clock)
  have counter: "m_cycle_task_id (snd (run_queue clock k q s)) = m_cycle_task_id s" for k q and s :: "'a TimerManager"
  proof (induction clock k q s rule: run_queue.induct)
    case (2 clock k c cbs s)
    obtain ex' s' where r: "run_callback (clock k) c s = (ex', s')" by fastforce
    then have "m_cycle_task_id s' = m_cycle_task_id s"
      by (auto simp: run_callback_def execute_periodic_eq add_task_fields cancel_fields
          split: callback.splits option.splits if_splits)
    with 2 [OF r [symmetric]] r show ?case by (auto split: prod.split)
  qed simp
  from Round assms(5) have r: "timer_round now clock s = (ex', s')" by simp
  note q = timer_round_eq [OF assms(1) r]
  have "ex' = fst (run_queue clock 0 (map snd (filter (\<lambda>p. fst p \<le> now) (m_timer_callbacks s)))
      (s\<lparr>m_timer_callbacks := filter (\<lambda>p. \<not> fst p \<le> now) (m_timer_callbacks s),
         m_task_queue := map snd (filter (\<lambda>p. fst p \<le> now) (m_timer_callbacks s))\<rparr>))"
    "s' = snd (run_queue clock 0 (map snd (filter (\<lambda>p. fst p \<le> now) (m_timer_callbacks s)))
      (s\<lparr>m_timer_callbacks := filter (\<lambda>p. \<not> fst p \<le> now) (m_timer_callbacks s),
         m_task_queue := map snd (filter (\<lambda>p. fst p \<le> now) (m_timer_callbacks s))\<rparr>))"
    by (simp_all flip: q)
  then show ?thesis
    using assms(2,3) by (simp add: counter run_queue_goes_on)
qed (use assms in \<open>auto simp: add_task_for_until add_task_fields cancel_fields\<close>)

lemma timer_run_goes_on:
  assumes "idle_inv s" "goes_on cb d n (m_periodic_tasks s i) ex" "i < m_cycle_task_id s" "Cancel i \<notin> set cs"
    and "timer_run cs s = (ex', s')" "unat (m_cycle_task_id s) + length cs < 2 ^ 64"
  shows "goes_on cb d n (m_periodic_tasks s' i) (ex @ runs_of i ex') \<and> idle_inv s'"
  using assms
proof (induction cs arbitrary: s ex ex')
  case (Cons c cs)
  obtain ex1 s1 where 1: "timer_step c s = (ex1, s1)" by fastforce
  obtain ex2 where 2: "timer_run cs s1 = (ex2, s')" "ex' = ex1 @ ex2"
    using Cons.prems(5) 1 by (auto split: prod.splits)
  have room: "unat (m_cycle_task_id s) + 1 < 2 ^ 64"
    using Cons.prems(6) by simp
  have "c \<noteq> Cancel i" using Cons.prems(4) by auto
  note step = timer_step_goes_on [OF Cons.prems(1-3) this 1 room]
  have "idle_inv s1"
    using timer_step_inv [OF Cons.prems(1) room, of c] 1 by simp
  from Cons.IH [OF this, of "ex @ runs_of i ex1" ex2] step 2 Cons.prems(4,6) show ?case by simp
qed simp

text \<open>C28: A periodic task with a limit \<open>n\<close> that is not cancelled: whatever else is added, cancelled and run, and whatever
  the clock shows, its callback has run \<open>n\<close> times less what it still has left, and exactly \<open>n\<close> times when it
  has left the table; a task without a limit never leaves the table. As long as the task is
  in the table exactly one tick of it waits, so it neither dies out nor doubles.\<close>

theorem periodic_task_runs:
  assumes "idle_inv s" "add_periodic_task now d cb n s = (i, s1)" "Cancel i \<notin> set cs"
    and "timer_run cs s1 = (ex, s')" "unat (m_cycle_task_id s) + length cs + 1 < 2 ^ 64"
  shows "goes_on cb d n (m_periodic_tasks s' i) (runs_of i ex) \<and>
    (m_periodic_tasks s' i \<noteq> None \<longrightarrow> ticks i s' = 1)"
proof -
  have new: "m_periodic_tasks s (m_cycle_task_id s) = None"
    using assms(1) by (simp add: idle_inv_def timers_inv_def ticks_ok_def)
  have s1: "i = m_cycle_task_id s" "m_cycle_task_id s1 = m_cycle_task_id s + 1"
    "m_periodic_tasks s1 i = Some \<lparr>period = d, task_callback = cb, remain_times = n\<rparr>"
    using assms(2) new by (auto simp: add_periodic_task_def Let_def add_task_for_until add_task_fields)
  have succ: "unat (m_cycle_task_id s + 1) = unat (m_cycle_task_id s) + 1"
    using assms(5) by (simp add: unat_add_small)
  have "idle_inv s1"
    using timer_step_inv [OF assms(1), of "Add_Periodic now d cb n"] assms(2,5) by simp
  with timer_run_goes_on [of s1 cb d n i "[]" cs ex s'] assms(3-5) s1 succ
  have r: "goes_on cb d n (m_periodic_tasks s' i) (runs_of i ex)" "idle_inv s'"
    by (simp_all add: word_less_nat_alt)
  then show ?thesis
    by (simp add: idle_inv_def timers_inv_def ticks_ok_def)
qed

theorem periodic_task_runs_witness:
  "\<exists>s1 ex s'. add_periodic_task 0 10 (7 :: int) 1 new_timers = (0, s1) \<and>
     timer_run [Round 10 (\<lambda>_. 11), Round 21 (\<lambda>_. 22)] s1 = (ex, s') \<and> m_periodic_tasks s' 0 = None \<and>
     goes_on 7 10 1 (m_periodic_tasks s' 0) (runs_of 0 ex)"
proof -
  obtain s1 where s1: "add_periodic_task 0 10 (7 :: int) 1 new_timers = (0, s1)"
    by (simp add: add_periodic_task_def new_timers_def Let_def)
  obtain ex s' where r: "timer_run [Round 10 (\<lambda>_. 11), Round 21 (\<lambda>_. 22)] s1 = (ex, s')" by fastforce
  have "idle_inv (new_timers :: int TimerManager)"
    by (simp add: idle_inv_def new_timers_inv) (simp add: new_timers_def)
  from periodic_task_runs [OF this s1 _ r] have "goes_on 7 10 1 (m_periodic_tasks s' 0) (runs_of 0 ex)"
    by (simp add: new_timers_def)
  moreover have "m_periodic_tasks s' 0 = None"
    using s1 r
    by (auto simp: add_periodic_task_def new_timers_def Let_def add_task_for_def timer_round_def run_callback_def
        execute_periodic_task_def cancel_periodic_task_def)
  ultimately show ?thesis using s1 r by blast
qed

end
