(* ===== verification/Timer_Thread.thy ===== *)
theory Timer_Thread
  imports Timers
begin

text \<open>
  The waiting of the timer thread, \<open>concurrent/timer/timer_manager\<close>: the loop of the thread with its
  condition variable, the calls that add tasks, and the destructor, interleaved. Of a task only
  its deadline is kept. A deadline that is \<open>None\<close> is \<open>time_point::max()\<close>, which never comes.
\<close>

section \<open>State\<close>

datatype thread_at =
    Head
  | Checking "int option"
  | Sleepy "int option"
  | Asleep "int option"
  | Woken "int option"
  | Timed_Out
  | Working
  | Finished

datatype destructor_at = Not_Called | Flag_Cleared | Joining | Joined

record timer_thread =
  at_thread :: thread_at
  at_destructor :: destructor_at
  is_running :: bool
  deadlines :: "int list"
  to_notify :: nat

definition first_deadline :: "int list \<Rightarrow> int option" where
  "first_deadline ds = (case ds of [] \<Rightarrow> None | t # _ \<Rightarrow> Some t)"

fun earlier :: "int option \<Rightarrow> int option \<Rightarrow> bool" where
  "earlier (Some t) (Some w) \<longleftrightarrow> t < w"
| "earlier (Some t) None \<longleftrightarrow> True"
| "earlier None w \<longleftrightarrow> False"

text \<open>The predicate of the wait.\<close>

definition wait_over :: "int option \<Rightarrow> timer_thread \<Rightarrow> bool" where
  "wait_over w s =
     (if \<not> is_running s then True
      else if deadlines s = [] then False
      else earlier (first_deadline (deadlines s)) w)"

text \<open>The mutex is held by the thread in three of its places.\<close>

fun holds_mutex :: "thread_at \<Rightarrow> bool" where
  "holds_mutex (Checking w) \<longleftrightarrow> True"
| "holds_mutex (Sleepy w) \<longleftrightarrow> True"
| "holds_mutex Working \<longleftrightarrow> True"
| "holds_mutex _ \<longleftrightarrow> False"

section \<open>Moves\<close>

text \<open>A move of the thread; the time is what the clock shows when it collects what is due.\<close>

definition thread_move :: "int \<Rightarrow> timer_thread \<Rightarrow> timer_thread option" where
  "thread_move now s =
     (case at_thread s of
        Head \<Rightarrow>
          Some (if is_running s then s\<lparr>at_thread := Checking (first_deadline (deadlines s))\<rparr>
                else s\<lparr>at_thread := Finished\<rparr>)
      | Checking w \<Rightarrow> Some (s\<lparr>at_thread := (if wait_over w s then Working else Sleepy w)\<rparr>)
      | Sleepy w \<Rightarrow> Some (s\<lparr>at_thread := Asleep w\<rparr>)
      | Woken w \<Rightarrow> Some (s\<lparr>at_thread := Checking w\<rparr>)
      | Timed_Out \<Rightarrow> Some (s\<lparr>at_thread := Working\<rparr>)
      | Working \<Rightarrow>
          Some (if \<not> is_running s then s\<lparr>at_thread := Finished\<rparr>
                else s\<lparr>at_thread := Head, deadlines := filter (\<lambda>t. now < t) (deadlines s)\<rparr>)
      | _ \<Rightarrow> None)"

definition wake :: "timer_thread \<Rightarrow> timer_thread" where
  "wake s = (case at_thread s of Asleep w \<Rightarrow> s\<lparr>at_thread := Woken w\<rparr> | _ \<Rightarrow> s)"

datatype move =
    Thread int
  | Insert int
  | Notify
  | Deadline
  | Spurious
  | Clear_Flag
  | Notify_Stop
  | Join

text \<open>Adding a task inserts it under the mutex and notifies behind it. The destructor does not take the mutex.
  A thread that sleeps is woken by a notification, by its deadline, or without a reason.\<close>

fun timer_move :: "move \<Rightarrow> timer_thread \<Rightarrow> timer_thread option" where
  "timer_move (Thread now) s = thread_move now s"
| "timer_move (Insert t) s =
     (if holds_mutex (at_thread s) \<or> at_destructor s \<noteq> Not_Called then None
      else Some (s\<lparr>deadlines := insort t (deadlines s), to_notify := Suc (to_notify s)\<rparr>))"
| "timer_move Notify s = (if to_notify s = 0 then None else Some ((wake s)\<lparr>to_notify := to_notify s - 1\<rparr>))"
| "timer_move Deadline s =
     (case at_thread s of Asleep (Some w) \<Rightarrow> Some (s\<lparr>at_thread := Timed_Out\<rparr>) | _ \<Rightarrow> None)"
| "timer_move Spurious s = (case at_thread s of Asleep w \<Rightarrow> Some (wake s) | _ \<Rightarrow> None)"
| "timer_move Clear_Flag s =
     (if at_destructor s = Not_Called then Some (s\<lparr>at_destructor := Flag_Cleared, is_running := False\<rparr>) else None)"
| "timer_move Notify_Stop s =
     (if at_destructor s = Flag_Cleared then Some ((wake s)\<lparr>at_destructor := Joining\<rparr>) else None)"
| "timer_move Join s =
     (if at_destructor s = Joining \<and> at_thread s = Finished then Some (s\<lparr>at_destructor := Joined\<rparr>) else None)"

definition thread_start :: timer_thread where
  "thread_start = \<lparr>at_thread = Head, at_destructor = Not_Called, is_running = True, deadlines = [], to_notify = 0\<rparr>"

inductive timer_steps :: "timer_thread \<Rightarrow> bool" where
  Start: "timer_steps thread_start"
| Move: "timer_steps s \<Longrightarrow> timer_move m s = Some s' \<Longrightarrow> timer_steps s'"

lemma moves_reach: "timer_steps s \<Longrightarrow> fold_option timer_move ms s = Some s' \<Longrightarrow> timer_steps s'"
  by (induction ms arbitrary: s) (auto split: Option.bind_splits intro: Move)

section \<open>The thread does not oversleep\<close>

definition not_before :: "int option \<Rightarrow> int list \<Rightarrow> bool" where
  "not_before w ds \<longleftrightarrow> (\<forall>t \<in> set ds. \<not> earlier (Some t) w)"

definition sleep_inv :: "timer_thread \<Rightarrow> bool" where
  "sleep_inv s \<longleftrightarrow> sorted (deadlines s) \<and>
     (case at_thread s of
        Sleepy w \<Rightarrow> not_before w (deadlines s)
      | Asleep w \<Rightarrow> not_before w (deadlines s) \<or> 0 < to_notify s
      | _ \<Rightarrow> True)"

lemma first_not_before: "sorted ds \<Longrightarrow> \<not> earlier (first_deadline ds) w \<Longrightarrow> not_before w ds"
  by (cases w; cases ds) (auto simp: not_before_def first_deadline_def)

lemma wait_goes_on: "\<not> wait_over w s \<Longrightarrow> sorted (deadlines s) \<Longrightarrow> not_before w (deadlines s)"
  using first_not_before [of "deadlines s" w] by (auto simp: wait_over_def not_before_def split: if_splits)

lemma sleep_inv_move:
  assumes "timer_move m s = Some s'" "sleep_inv s" shows "sleep_inv s'"
proof (cases m)
  case (Thread now)
  with assms show ?thesis
    by (cases "at_thread s")
       (auto simp: sleep_inv_def thread_move_def wait_goes_on sorted_wrt_filter split: if_splits)
next
  case (Insert t)
  with assms show ?thesis
    by (cases "at_thread s") (auto simp: sleep_inv_def sorted_insort split: if_splits)
qed (use assms in \<open>auto simp: sleep_inv_def wake_def split: if_splits thread_at.splits option.splits\<close>)

text \<open>C29: However additions, notifications, deadlines and spurious wake-ups are interleaved, the timer thread
  sleeps beyond the deadline of a task only while the call that has added this task has not notified
  it yet; without such a call, no task becomes due before the thread wakes up.\<close>

theorem timer_never_oversleeps:
  assumes "timer_steps s" "at_thread s = Asleep w" "to_notify s = 0" "t \<in> set (deadlines s)"
  shows "\<exists>w'. w = Some w' \<and> w' \<le> t"
proof -
  have "sleep_inv s"
    using assms(1)
  proof (induction rule: timer_steps.induct)
    case Start
    show ?case by (simp add: sleep_inv_def thread_start_def)
  next
    case (Move s m s')
    then show ?case by (blast intro: sleep_inv_move)
  qed
  with assms(2-4) have "\<not> earlier (Some t) w"
    by (simp add: sleep_inv_def not_before_def)
  then show ?thesis by (cases w) auto
qed

theorem timer_never_oversleeps_witness:
  "\<exists>s w'. timer_steps s \<and> at_thread s = Asleep (Some w') \<and> to_notify s = 0 \<and> 7 \<in> set (deadlines s) \<and> w' \<le> 7"
proof -
  have r: "fold_option timer_move [Insert 7, Notify, Thread 0, Thread 0, Thread 0] thread_start =
      Some \<lparr>at_thread = Asleep (Some 7), at_destructor = Not_Called, is_running = True, deadlines = [7], to_notify = 0\<rparr>"
    by (simp add: thread_start_def thread_move_def wake_def first_deadline_def wait_over_def)
  note s = moves_reach [OF timer_steps.Start r]
  let ?s = "\<lparr>at_thread = Asleep (Some 7), at_destructor = Not_Called, is_running = True, deadlines = [7], to_notify = 0\<rparr>"
  have "\<exists>w'. Some 7 = Some w' \<and> w' \<le> (7 :: int)"
    by (rule timer_never_oversleeps [OF s]) simp_all
  with s show ?thesis by (intro exI [of _ ?s] exI [of _ 7]) simp
qed

section \<open>The destructor\<close>

text \<open>The destructor clears the flag and notifies without the mutex. When the thread has just found that it has
  to wait, the notification comes before the thread sleeps and is lost: the destructor waits in \<open>join\<close>
  for a thread that nothing but a spurious wake-up wakes again.\<close>

theorem destructor_hangs:
  "\<exists>s. timer_steps s \<and> at_destructor s = Joining \<and> at_thread s = Asleep None \<and>
     (\<forall>m. timer_move m s \<noteq> None \<longleftrightarrow> m = Spurious)"
proof -
  let ?s = "\<lparr>at_thread = Asleep None, at_destructor = Joining, is_running = False, deadlines = [], to_notify = 0\<rparr>"
  have r: "fold_option timer_move [Thread 0, Thread 0, Clear_Flag, Notify_Stop, Thread 0] thread_start = Some ?s"
    by (simp add: thread_start_def thread_move_def wake_def first_deadline_def wait_over_def)
  have "timer_move m ?s \<noteq> None \<longleftrightarrow> m = Spurious" for m
    by (cases m) (simp_all add: thread_move_def)
  with moves_reach [OF timer_steps.Start r] show ?thesis
    by (intro exI [of _ ?s]) simp
qed

end
