(* ===== verification/Url.thy ===== *)
theory Url
  imports Wildcard "HOL-Library.Sublist"
begin

text \<open>
  Addresses, \<open>network/url/url_info\<close> and \<open>url_resolver\<close>.

  Positions in a text are those of \<open>std::string\<close>: \<open>find\<close> gives \<open>None\<close> for \<open>npos\<close>, the distance of two
  positions wraps around as \<open>size_t\<close> does, \<open>substr\<close> behind the end and \<open>std::stoi\<close> throw, which is
  \<open>None\<close>. The multimap of query parameters is the list of its pairs, in the order of insertion where
  \<open>parse\<close> makes it and in the order of iteration where \<open>build\<close> reads it. Diagnostics are left out.
\<close>

section \<open>Data\<close>

datatype UrlProtocol = Unknown_Protocol | Http | Https | Ftp | Danejoe

definition UrlProtocol_to_string :: "UrlProtocol \<Rightarrow> string" where
  "UrlProtocol_to_string protocol =
     (case protocol of
        Unknown_Protocol \<Rightarrow> ''UrlProtocol::Unknown''
      | Http \<Rightarrow> ''UrlProtocol::Http''
      | Https \<Rightarrow> ''UrlProtocol::Https''
      | Ftp \<Rightarrow> ''UrlProtocol::Ftp''
      | Danejoe \<Rightarrow> ''UrlProtocol::Danejoe'')"

definition UrlProtocol_enum_cast :: "string \<Rightarrow> UrlProtocol" where
  "UrlProtocol_enum_cast enum_string =
     (if enum_string = ''UrlProtocol::Unknown'' then Unknown_Protocol
      else if enum_string = ''UrlProtocol::Http'' then Http
      else if enum_string = ''UrlProtocol::Https'' then Https
      else if enum_string = ''UrlProtocol::Ftp'' then Ftp
      else if enum_string = ''UrlProtocol::Danejoe'' then Danejoe
      else Unknown_Protocol)"

interpretation url_protocol: enum_names UrlProtocol_to_string UrlProtocol_enum_cast "\<lambda>_. True"
  by unfold_locales (auto simp: UrlProtocol_to_string_def UrlProtocol_enum_cast_def split: UrlProtocol.split)

record UrlInfo =
  url_protocol :: UrlProtocol
  url_host :: string
  url_port :: u16
  url_path :: string
  url_query :: "(string \<times> string) list"

text \<open>One of the values of a key.\<close>

fun get_param :: "string \<Rightarrow> (string \<times> string) list \<Rightarrow> string option" where
  "get_param key [] = None"
| "get_param key ((k, v) # q) = (if k = key then Some v else get_param key q)"

section \<open>Texts\<close>

fun find_at :: "string \<Rightarrow> string \<Rightarrow> nat \<Rightarrow> nat option" where
  "find_at pat [] i = (if pat = [] then Some i else None)"
| "find_at pat (c # cs) i = (if prefix pat (c # cs) then Some i else find_at pat cs (Suc i))"

definition find_from :: "string \<Rightarrow> string \<Rightarrow> nat \<Rightarrow> nat option" where
  "find_from pat s pos = (if pos \<le> length s then find_at pat (drop pos s) pos else None)"

definition substr :: "string \<Rightarrow> nat \<Rightarrow> nat \<Rightarrow> string option" where
  "substr s pos n = (if pos \<le> length s then Some (take n (drop pos s)) else None)"

definition distance :: "nat \<Rightarrow> nat \<Rightarrow> nat" where
  "distance b a = (if a \<le> b then b - a else 2 ^ 64 + b - a)"

definition is_digit :: "char \<Rightarrow> bool" where
  "is_digit c \<longleftrightarrow> 48 \<le> (of_char c :: nat) \<and> (of_char c :: nat) \<le> 57"

definition is_space :: "char \<Rightarrow> bool" where
  "is_space c \<longleftrightarrow> (of_char c :: nat) = 32 \<or> (9 \<le> (of_char c :: nat) \<and> (of_char c :: nat) \<le> 13)"

fun digits_value :: "nat \<Rightarrow> string \<Rightarrow> nat" where
  "digits_value acc [] = acc"
| "digits_value acc (c # cs) = (if is_digit c then digits_value (acc * 10 + (of_char c - 48)) cs else acc)"

text \<open>\<open>std::stoi\<close>: blanks, a sign, digits; it throws without digits and outside of the range of \<open>int\<close>,
  and ignores what follows the digits.\<close>

definition stoi :: "string \<Rightarrow> int option" where
  "stoi s =
     (let s = dropWhile is_space s;
          (negative, s) = (case s of
             c # cs \<Rightarrow> if c = CHR ''-'' then (True, cs) else if c = CHR ''+'' then (False, cs) else (False, s)
           | [] \<Rightarrow> (False, s))
      in case s of
           c # cs \<Rightarrow>
             if is_digit c
             then (let v = (if negative then - int (digits_value 0 s) else int (digits_value 0 s))
                   in if - (2 ^ 31) \<le> v \<and> v < 2 ^ 31 then Some v else None)
             else None
         | [] \<Rightarrow> None)"

section \<open>Operations\<close>

definition to_protocol :: "string \<Rightarrow> UrlProtocol" where
  "to_protocol protocol =
     (let temp = map tolower protocol
      in if temp = ''http'' then Http
         else if temp = ''https'' then Https
         else if temp = ''ftp'' then Ftp
         else if temp = ''danejoe'' then Danejoe
         else Unknown_Protocol)"

definition to_ip :: "string \<Rightarrow> string" where
  "to_ip url = url"

definition default_port :: "UrlProtocol \<Rightarrow> u16" where
  "default_port protocol =
     (case protocol of Http \<Rightarrow> 80 | Https \<Rightarrow> 443 | Ftp \<Rightarrow> 21 | Danejoe \<Rightarrow> 8080 | _ \<Rightarrow> 0)"

definition protocol_string :: "UrlProtocol \<Rightarrow> string" where
  "protocol_string protocol =
     (case protocol of Http \<Rightarrow> ''http'' | Https \<Rightarrow> ''https'' | Danejoe \<Rightarrow> ''danejoe'' | Ftp \<Rightarrow> ''ftp'' | _ \<Rightarrow> [])"

definition empty_url :: UrlInfo where
  "empty_url = \<lparr>url_protocol = Unknown_Protocol, url_host = [], url_port = 0, url_path = ''/'', url_query = []\<rparr>"

lemma find_at_ge: "find_at pat s i = Some j \<Longrightarrow> i \<le> j"
  by (induction pat s i rule: find_at.induct) (auto split: if_splits)

lemma find_from_ge: "find_from pat s pos = Some j \<Longrightarrow> pos \<le> j"
  by (auto simp: find_from_def split: if_splits dest: find_at_ge)

text \<open>The loop over the query parameters.\<close>

function parse_query :: "string \<Rightarrow> nat \<Rightarrow> nat \<Rightarrow> UrlInfo \<Rightarrow> UrlInfo option" where
  "parse_query url url_end_pos current_pos info =
     (case find_from ''='' url current_pos of
        None \<Rightarrow> Some info
      | Some equal_pos \<Rightarrow>
          do {
            query_key \<leftarrow> substr url current_pos (distance equal_pos current_pos);
            let current_pos = equal_pos + 1;
            if current_pos > url_end_pos then Some info
            else do {
              let query_value_end_pos = (case find_from ''&'' url current_pos of None \<Rightarrow> url_end_pos | Some p \<Rightarrow> p);
              query_value \<leftarrow> substr url current_pos (distance query_value_end_pos current_pos);
              let info = info\<lparr>url_query := url_query info @ [(query_key, query_value)]\<rparr>;
              let current_pos = query_value_end_pos + 1;
              if current_pos > url_end_pos then Some info
              else parse_query url url_end_pos current_pos info
            }
          })"
  by pat_completeness auto
termination
proof (relation "measure (\<lambda>(url, url_end_pos, current_pos, info). Suc url_end_pos - current_pos)", simp)
  fix url :: string and url_end_pos current_pos :: nat and info :: UrlInfo and equal_pos k1 c1 k2 v1 c2
  fix i2 :: UrlInfo and c3
  assume "find_from ''='' url current_pos = Some equal_pos" "c1 = equal_pos + 1"
    "k2 = (case find_from ''&'' url c1 of None \<Rightarrow> url_end_pos | Some p \<Rightarrow> p)" "\<not> c1 > url_end_pos"
    "c3 = k2 + 1" "\<not> c3 > url_end_pos"
  then have "current_pos < c3" "c3 \<le> url_end_pos"
    using find_from_ge [of "''=''" url current_pos equal_pos] find_from_ge [of "''&''" url c1]
    by (auto split: option.splits)
  then show "((url, url_end_pos, c3, i2), url, url_end_pos, current_pos, info) \<in>
      measure (\<lambda>(url, url_end_pos, current_pos, info). Suc url_end_pos - current_pos)"
    by simp
qed

declare parse_query.simps [simp del]

text \<open>\<open>parse\<close> behind the host and the port.\<close>

definition parse_path :: "string \<Rightarrow> nat \<Rightarrow> nat \<Rightarrow> UrlInfo \<Rightarrow> UrlInfo option" where
  "parse_path url url_end_pos current_pos info =
     (if current_pos > url_end_pos then Some info
      else do {
        let path_end_pos = (case find_from ''?'' url current_pos of None \<Rightarrow> url_end_pos | Some p \<Rightarrow> p);
        path_str \<leftarrow> (if path_end_pos = current_pos then Some ''/''
                    else substr url current_pos (distance path_end_pos current_pos));
        let info = info\<lparr>url_path := path_str\<rparr>;
        let current_pos = path_end_pos + 1;
        if current_pos > url_end_pos then Some info
        else parse_query url url_end_pos current_pos info
      })"

definition url_parse :: "string \<Rightarrow> UrlInfo option" where
  "url_parse url =
     (let info = empty_url;
          url_end_pos = (case find_from ''#'' url 0 of None \<Rightarrow> length url | Some p \<Rightarrow> p)
      in case find_from ''://'' url 0 of
           None \<Rightarrow> Some info
         | Some protocol_end_pos \<Rightarrow>
             do {
               protocol_str \<leftarrow> substr url 0 (distance protocol_end_pos 0);
               let info = info\<lparr>url_protocol := to_protocol protocol_str\<rparr>;
               let current_pos = protocol_end_pos + 3;
               if current_pos > url_end_pos then Some info
               else do {
                 let port_sign_pos = find_from '':'' url current_pos;
                 let host_port_end_pos = (case find_from ''/'' url current_pos of None \<Rightarrow> url_end_pos | Some p \<Rightarrow> p);
                 let port_sign_pos = (case port_sign_pos of
                   None \<Rightarrow> None | Some p \<Rightarrow> if p > host_port_end_pos then None else Some p);
                 case port_sign_pos of
                   None \<Rightarrow> do {
                     host_str \<leftarrow> substr url current_pos (distance host_port_end_pos current_pos);
                     let info = info\<lparr>url_host := to_ip host_str, url_port := default_port (url_protocol info)\<rparr>;
                     parse_path url url_end_pos host_port_end_pos info
                   }
                 | Some sign_pos \<Rightarrow> do {
                     host_str \<leftarrow> substr url current_pos (distance sign_pos current_pos);
                     let info = info\<lparr>url_host := to_ip host_str\<rparr>;
                     let current_pos = sign_pos + 1;
                     if current_pos > url_end_pos then Some info
                     else do {
                       port_str \<leftarrow> substr url current_pos (distance host_port_end_pos current_pos);
                       port \<leftarrow> stoi port_str;
                       let info = info\<lparr>url_port := of_int port\<rparr>;
                       parse_path url url_end_pos host_port_end_pos info
                     }
                   }
               }
             })"

text \<open>The parameters are written with an \<open>&\<close> behind each, the last of which is removed.\<close>

definition url_build :: "UrlInfo \<Rightarrow> string" where
  "url_build info =
     (let result = protocol_string (url_protocol info) @ ''://'' @ url_host info @ '':'' @ show_nat (unat (url_port info)) @
            url_path info
      in if length (url_query info) > 0
         then let result = result @ ''?'' @ concat (map (\<lambda>(key, v). key @ ''='' @ v @ ''&'') (url_query info))
              in butlast result
         else result)"

definition UrlInfo_to_string :: "((string \<times> string) list \<Rightarrow> string) \<Rightarrow> UrlInfo \<Rightarrow> string" where
  "UrlInfo_to_string show_query info =
     ''protocol='' @ UrlProtocol_to_string (url_protocol info) @ '' | host='' @ url_host info @
     '' | port='' @ show_nat (unat (url_port info)) @ '' | path='' @ url_path info @
     '' | query='' @ show_query (url_query info)"

section \<open>Finding\<close>

lemma find_at_char: "c \<notin> set a \<Longrightarrow> find_at [c] (a @ c # r) i = Some (i + length a)"
  by (induction a arbitrary: i) auto

lemma find_at_none: "c \<notin> set a \<Longrightarrow> find_at [c] a i = None"
  by (induction a arbitrary: i) auto

lemma find_from_char:
  "c \<notin> set a \<Longrightarrow> find_from [c] (p @ a @ c # r) (length p) = Some (length p + length a)"
  by (simp add: find_from_def find_at_char)

lemma find_from_none: "c \<notin> set a \<Longrightarrow> find_from [c] (p @ a) (length p) = None"
  by (simp add: find_from_def find_at_none)

lemma find_at_scheme: "CHR '':'' \<notin> set a \<Longrightarrow> find_at ''://'' (a @ ''://'' @ r) i = Some (i + length a)"
  by (induction a arbitrary: i) auto

lemma substr_middle: "substr (p @ a @ r) (length p) (length a) = Some a"
  by (simp add: substr_def)

section \<open>Numbers\<close>

lemma digits_value_show: "digits_value acc (show_nat n @ cs) = digits_value (acc * 10 ^ length (show_nat n) + n) cs"
proof (induction n arbitrary: acc cs rule: show_nat.induct)
  case (1 n)
  have digit: "is_digit (char_of (48 + k))" "of_char (char_of (48 + k) :: char) = 48 + k" if "k < 10" for k :: nat
    using that by (simp_all add: is_digit_def of_char_of take_bit_eq_mod)
  show ?case
  proof (cases "n < 10")
    case True
    then show ?thesis using digit [of n] by (simp add: show_nat.simps [of n])
  next
    case False
    have "n mod 10 < 10" by simp
    note d = digit [OF this]
    have "digits_value acc (show_nat n @ cs) =
        digits_value (acc * 10 ^ length (show_nat (n div 10)) + n div 10) (char_of (48 + n mod 10) # cs)"
      using False 1 by (subst show_nat.simps) simp
    also have "\<dots> = digits_value ((acc * 10 ^ length (show_nat (n div 10)) + n div 10) * 10 + n mod 10) cs"
      using d by simp
    also have "(acc * 10 ^ length (show_nat (n div 10)) + n div 10) * 10 + n mod 10 = acc * 10 ^ length (show_nat n) + n"
      using False by (subst (2) show_nat.simps) (simp add: algebra_simps)
    finally show ?thesis .
  qed
qed

lemma show_nat_chars: "c \<in> set (show_nat n) \<Longrightarrow> is_digit c"
  using show_nat_digits [of n] by (auto simp: is_digit_def)

lemma stoi_show: "n < 2 ^ 31 \<Longrightarrow> stoi (show_nat n) = Some (int n)"
proof -
  assume n: "n < 2 ^ 31"
  obtain c cs where c: "show_nat n = c # cs"
    using show_nat_digits [of n] by (cases "show_nat n") auto
  then have d: "is_digit c"
    using show_nat_chars [of c n] by simp
  then have "\<not> is_space c" "c \<noteq> CHR ''-''" "c \<noteq> CHR ''+''"
    by (auto simp: is_digit_def is_space_def)
  moreover have "digits_value 0 (show_nat n) = n"
    using digits_value_show [of 0 n "[]"] by simp
  ultimately show ?thesis
    using n d by (simp add: stoi_def c Let_def)
qed

section \<open>Building and parsing\<close>

text \<open>The parameters as the text has them behind the question mark.\<close>

fun query_string :: "(string \<times> string) list \<Rightarrow> string" where
  "query_string [] = []"
| "query_string [(k, v)] = k @ ''='' @ v"
| "query_string ((k, v) # p # q) = k @ ''='' @ v @ ''&'' @ query_string (p # q)"

lemma query_string_nonempty: "q \<noteq> [] \<Longrightarrow> query_string q \<noteq> []"
  by (cases q rule: query_string.cases) auto

lemma butlast_query:
  "q \<noteq> [] \<Longrightarrow> butlast (p @ concat (map (\<lambda>(k, v). k @ ''='' @ v @ ''&'') q)) = p @ query_string q"
proof (induction q arbitrary: p rule: query_string.induct)
  case (2 k v)
  then show ?case by (simp add: butlast_append)
next
  case (3 k v r q)
  show ?case using "3.IH" [of "p @ k @ ''='' @ v @ ''&''"] by simp
qed simp

definition query_wf :: "(string \<times> string) list \<Rightarrow> bool" where
  "query_wf q \<longleftrightarrow> (\<forall>(k, v) \<in> set q. CHR ''='' \<notin> set k \<and> CHR ''&'' \<notin> set v \<and> CHR ''#'' \<notin> set k \<and> CHR ''#'' \<notin> set v)"

definition url_wf :: "UrlInfo \<Rightarrow> bool" where
  "url_wf info \<longleftrightarrow>
     url_protocol info \<noteq> Unknown_Protocol \<and>
     set (url_host info) \<inter> set '':/#'' = {} \<and>
     (\<exists>cs. url_path info = CHR ''/'' # cs \<and> set cs \<inter> set ''?#'' = {}) \<and>
     query_wf (url_query info)"

lemma parse_query_string:
  "q \<noteq> [] \<Longrightarrow> query_wf q \<Longrightarrow>
   parse_query (p @ query_string q) (length (p @ query_string q)) (length p) info =
     Some (info\<lparr>url_query := url_query info @ q\<rparr>)"
proof (induction q arbitrary: p info rule: query_string.induct)
  case (2 k v)
  let ?s = "p @ k @ CHR ''='' # v"
  have "CHR ''='' \<notin> set k" "CHR ''&'' \<notin> set v" using "2.prems" by (auto simp: query_wf_def)
  then have "find_from ''='' ?s (length p) = Some (length p + length k)"
    "find_from ''&'' ?s (Suc (length p + length k)) = None"
    using find_from_none [of _ v "p @ k @ ''=''"] by (simp_all add: find_from_char)
  moreover have "substr ?s (length p) (length k) = Some k"
    by (rule substr_middle)
  moreover have "substr ?s (Suc (length p + length k)) (length v) = Some v"
    using substr_middle [of "p @ k @ ''=''" v "[]"] by simp
  ultimately show ?case
    by (subst parse_query.simps) (simp add: Let_def distance_def)
next
  case (3 k v r q)
  let ?s = "p @ k @ CHR ''='' # v @ CHR ''&'' # query_string (r # q)"
  have wf: "CHR ''='' \<notin> set k" "CHR ''&'' \<notin> set v" "query_wf (r # q)"
    using "3.prems" by (auto simp: query_wf_def)
  have "find_from ''='' ?s (length p) = Some (length p + length k)"
    using wf by (simp add: find_from_char)
  moreover have "find_from ''&'' ?s (Suc (length p + length k)) = Some (Suc (length p + length k + length v))"
    using wf find_from_char [of "CHR ''&''" v "p @ k @ ''=''" "query_string (r # q)"] by simp
  moreover have "substr ?s (length p) (length k) = Some k"
    by (rule substr_middle)
  moreover have "substr ?s (Suc (length p + length k)) (length v) = Some v"
    using substr_middle [of "p @ k @ ''=''" v "''&'' @ query_string (r # q)"] by simp
  moreover have "parse_query ?s (length ?s) (length p + length k + length v + 2)
      (info\<lparr>url_query := url_query info @ [(k, v)]\<rparr>) = Some (info\<lparr>url_query := url_query info @ (k, v) # r # q\<rparr>)"
    using "3.IH" [of "p @ k @ ''='' @ v @ ''&''" "info\<lparr>url_query := url_query info @ [(k, v)]\<rparr>"] wf by (simp add: add.assoc)
  moreover have "length (query_string (r # q)) > 0"
    using query_string_nonempty [of "r # q"] by simp
  ultimately show ?case
    by (subst parse_query.simps) (simp add: Let_def distance_def add.assoc)
qed simp

text \<open>What stands behind the path.\<close>

definition query_part :: "(string \<times> string) list \<Rightarrow> string" where
  "query_part q = (if q = [] then [] else CHR ''?'' # query_string q)"

lemma parse_path_string:
  assumes "CHR ''?'' \<notin> set path" "path \<noteq> []" "query_wf q"
  shows "parse_path (p @ path @ query_part q) (length (p @ path @ query_part q)) (length p) info =
    Some (info\<lparr>url_path := path, url_query := url_query info @ q\<rparr>)"
proof (cases "q = []")
  case True
  have "substr (p @ path) (length p) (length path) = Some path"
    using substr_middle [of p path "[]"] by simp
  with True assms show ?thesis
    by (simp add: parse_path_def query_part_def find_from_none distance_def Let_def)
next
  case False
  have "substr (p @ path @ CHR ''?'' # query_string q) (length p) (length path) = Some path"
    by (rule substr_middle)
  moreover have "find_from ''?'' (p @ path @ CHR ''?'' # query_string q) (length p) = Some (length p + length path)"
    using assms by (simp add: find_from_char)
  moreover have "length (query_string q) > 0"
    using False query_string_nonempty by simp
  ultimately show ?thesis
    using False assms parse_query_string [of q "p @ path @ ''?''" "info\<lparr>url_path := path\<rparr>"]
    by (simp add: parse_path_def query_part_def distance_def Let_def)
qed

lemma query_part_hash: "query_wf q \<Longrightarrow> CHR ''#'' \<notin> set (query_part q)"
proof -
  have "query_wf q \<Longrightarrow> CHR ''#'' \<notin> set (query_string q)"
    by (induction q rule: query_string.induct) (auto simp: query_wf_def)
  then show "query_wf q \<Longrightarrow> CHR ''#'' \<notin> set (query_part q)"
    by (simp add: query_part_def)
qed

lemma url_build_string:
  "url_build info = (protocol_string (url_protocol info) @ ''://'') @ url_host info @ '':'' @
     show_nat (unat (url_port info)) @ url_path info @ query_part (url_query info)"
proof -
  have "butlast (p @ concat (map (\<lambda>(k, v). k @ ''='' @ v @ ''&'') q)) = p @ query_string q" if "q \<noteq> []"
    for p and q :: "(string \<times> string) list"
    using that by (rule butlast_query)
  from this [of "url_query info" "protocol_string (url_protocol info) @ ''://'' @ url_host info @ '':'' @
      show_nat (unat (url_port info)) @ url_path info @ ''?''"]
  show ?thesis by (simp add: url_build_def query_part_def Let_def)
qed

lemma protocol_string_facts:
  "CHR '':'' \<notin> set (protocol_string p) \<and> CHR ''#'' \<notin> set (protocol_string p)"
  "p \<noteq> Unknown_Protocol \<Longrightarrow> to_protocol (protocol_string p) = p"
  by (cases p; simp add: protocol_string_def to_protocol_def tolower_def of_char_of)+

text \<open>C30: Parsing what \<open>UrlResolver::build\<close> wrote gives the address back: for an address with a known
  protocol, a host without separators, a path that starts with a slash and parameters whose texts do not
  contain the separators that end them, every part comes back, the port whatever it is and the parameters
  in their order.\<close>

theorem url_round_trip:
  assumes "url_wf info"
  shows "url_parse (url_build info) = Some info"
proof -
  let ?p1 = "protocol_string (url_protocol info) @ ''://''"
  let ?ps = "show_nat (unat (url_port info))"
  let ?h = "url_host info" and ?path = "url_path info" and ?q = "query_part (url_query info)"
  let ?p2 = "?p1 @ ?h @ '':'' @ ?ps"
  let ?s = "?p1 @ ?h @ '':'' @ ?ps @ ?path @ ?q"
  obtain cs where path: "?path = CHR ''/'' # cs" "CHR ''?'' \<notin> set ?path" "CHR ''#'' \<notin> set ?path"
    and host: "CHR '':'' \<notin> set ?h" "CHR ''/'' \<notin> set ?h" "CHR ''#'' \<notin> set ?h"
    and q: "query_wf (url_query info)" and known: "url_protocol info \<noteq> Unknown_Protocol"
    using assms by (auto simp: url_wf_def)
  have digits: "CHR ''/'' \<notin> set ?ps" "CHR ''#'' \<notin> set ?ps"
    using show_nat_chars by (fastforce simp: is_digit_def)+
  have s: "url_build info = ?s" by (simp add: url_build_string)
  have "CHR ''#'' \<notin> set ?s"
    using digits path host query_part_hash [OF q] protocol_string_facts(1) by simp
  then have no_hash: "find_from ''#'' ?s 0 = None"
    using find_from_none [of _ ?s "[]"] by simp
  have scheme: "find_from ''://'' ?s 0 = Some (length ?p1 - 3)"
    using find_at_scheme [of "protocol_string (url_protocol info)"] protocol_string_facts(1) by (simp add: find_from_def)
  have colon: "find_from '':'' ?s (length ?p1) = Some (length ?p1 + length ?h)"
    using find_from_char [OF host(1), of ?p1] by simp
  have slash: "find_from ''/'' ?s (length ?p1) = Some (length ?p2)"
    using find_from_char [of "CHR ''/''" "?h @ '':'' @ ?ps" ?p1 "cs @ ?q"] host digits path by simp
  have parts: "substr ?s 0 (length (protocol_string (url_protocol info))) = Some (protocol_string (url_protocol info))"
    "substr ?s (length ?p1) (length ?h) = Some ?h"
    "substr ?s (length ?p1 + length ?h + 1) (length ?ps) = Some ?ps"
    using substr_middle [of "[]"] substr_middle [of ?p1] substr_middle [of "?p1 @ ?h @ '':''" ?ps "?path @ ?q"] by simp_all
  have "unat (url_port info) < 2 ^ 31"
    using unsigned_less [where ?'a = nat, of "url_port info"] by (rule less_trans) simp
  then have port: "stoi ?ps = Some (int (unat (url_port info)))"
    by (rule stoi_show)
  have rest: "parse_path ?s (length ?s) (length ?p2) i = Some (i\<lparr>url_path := ?path, url_query := url_query i @ url_query info\<rparr>)" for i
    using parse_path_string [of ?path "url_query info" ?p2 i] path q by simp
  define s np nh nq where "s = ?s" and "np = length (protocol_string (url_protocol info))"
    and "nh = length ?h" and "nq = length ?ps"
  have facts: "find_from ''#'' s 0 = None" "find_from ''://'' s 0 = Some np" "find_from '':'' s (np + 3) = Some (np + 3 + nh)"
    "find_from ''/'' s (np + 3) = Some (np + 3 + nh + 1 + nq)" "substr s 0 np = Some (protocol_string (url_protocol info))"
    "substr s (np + 3) nh = Some ?h" "substr s (np + 3 + nh + 1) nq = Some ?ps" "np + 3 + nh + 1 + nq \<le> length s"
    using no_hash scheme colon slash parts by (simp_all add: s_def np_def nh_def nq_def eval_nat_numeral)
  have path_read: "parse_path s (length s) (np + 3 + nh + 1 + nq) i =
      Some (i\<lparr>url_path := ?path, url_query := url_query i @ url_query info\<rparr>)" for i
    using rest [of i] by (simp add: s_def np_def nh_def nq_def eval_nat_numeral add.assoc)
  show ?thesis
    using facts protocol_string_facts(2) [OF known] port
      path_read [of "\<lparr>url_protocol = url_protocol info, url_host = ?h, url_port = url_port info, url_path = ''/'', url_query = []\<rparr>"]
    unfolding s s_def [symmetric]
    by (simp add: url_parse_def Let_def distance_def to_ip_def empty_url_def)
qed

lemma url_round_trip_witness:
  "url_parse (url_build
     \<lparr>url_protocol = Danejoe, url_host = ''127.0.0.1'', url_port = 8080, url_path = ''/file'',
      url_query = [(''a'', []), (''k'', ''x=1'')]\<rparr>) =
   Some \<lparr>url_protocol = Danejoe, url_host = ''127.0.0.1'', url_port = 8080, url_path = ''/file'',
      url_query = [(''a'', []), (''k'', ''x=1'')]\<rparr>"
  by (rule url_round_trip) (simp add: url_wf_def query_wf_def)

text \<open>Texts that \<open>UrlResolver::parse\<close> reads otherwise than an address is meant: a question mark of the
  fragment ends the path behind the fragment sign, a slash of the fragment ends the host, without a path
  the parameters become part of the host, an ampersand of the fragment belongs to the value; an empty or
  non-numeric port raises an exception; and a port above 65535 wraps around.\<close>

theorem url_parse_misreads:
  "map_option url_path (url_parse ''http://h/p#f?x'') = Some ''/p#f'' \<and>
   map_option url_host (url_parse ''http://h#f/g'') = Some ''h#f'' \<and>
   map_option url_host (url_parse ''http://h?a=1'') = Some ''h?a=1'' \<and>
   map_option url_query (url_parse ''http://h/p?a=1#f&'') = Some [(''a'', ''1#f'')] \<and>
   url_parse ''http://h:/p'' = None \<and> url_parse ''http://h:x/p'' = None \<and>
   map_option url_port (url_parse ''http://h:65616/p'') = Some 80"
  by (simp add: url_parse_def parse_path_def parse_query.simps find_from_def substr_def distance_def Let_def
      to_ip_def empty_url_def to_protocol_def tolower_def default_port_def stoi_def is_space_def is_digit_def of_char_of)

end
