(* ===== verification/Sql_Schema.thy ===== *)
theory Sql_Schema
  imports Ranges Data_Types
begin

text \<open>
  Cells, columns, tables and conditions, \<open>database/sql_cell\<close>, \<open>sql_schema\<close> and \<open>sql_condition\<close>.

  The alternatives of the variant \<open>CellData\<close> are constructors, a floating-point number is the word of its
  bits, and \<open>std::get\<close> of another alternative throws, which is \<open>None\<close>. A condition is a pointer to an object of a
  class of conditions: nothing, a range of some type of numbers, of which the integer intervals are
  kept, or a condition on texts.
\<close>

section \<open>Cells\<close>

datatype CellData =
    Int8_Data "8 word"
  | UInt8_Data u8
  | Int16_Data "16 word"
  | UInt16_Data u16
  | Int32_Data "32 word"
  | UInt32_Data u32
  | Int64_Data "64 word"
  | UInt64_Data u64
  | Float_Data u32
  | Double_Data u64
  | Bool_Data bool
  | String_Data string
  | Bytes_Data bytes
  | Null_Data

text \<open>The default of a variant is its first alternative.\<close>

definition default_data :: CellData where "default_data = Int8_Data 0"

record SqlCell =
  cell_type :: DataType
  cell_data :: CellData
  cell_column :: string

fun get_int64 :: "CellData \<Rightarrow> u64 option" where
  "get_int64 (Int64_Data w) = Some w"
| "get_int64 _ = None"

fun get_string :: "CellData \<Rightarrow> string option" where
  "get_string (String_Data s) = Some s"
| "get_string _ = None"

section \<open>Columns\<close>

record SqlColumnItem =
  column_index :: int
  column_name :: string
  data_type :: DataType
  is_primary_key :: bool
  is_not_null :: bool
  is_unique :: bool
  default_value :: "CellData option"

definition new_column :: "DataType \<Rightarrow> SqlColumnItem" where
  "new_column junk =
     \<lparr>column_index = - 1, column_name = [], data_type = junk, is_primary_key = False, is_not_null = True,
      is_unique = False, default_value = None\<rparr>"

definition column_eq :: "SqlColumnItem \<Rightarrow> SqlColumnItem \<Rightarrow> bool" where
  "column_eq a b \<longleftrightarrow> column_index a = column_index b \<and> column_name a = column_name b \<and> data_type a = data_type b"

definition column_is_valid :: "SqlColumnItem \<Rightarrow> bool" where
  "column_is_valid c \<longleftrightarrow> column_index c \<ge> 0 \<and> column_name c \<noteq> [] \<and> data_type c \<noteq> Unknown_Type"

definition get_default_cell :: "SqlColumnItem \<Rightarrow> SqlCell" where
  "get_default_cell c =
     \<lparr>cell_type = data_type c,
      cell_data = (case default_value c of Some v \<Rightarrow> v | None \<Rightarrow> default_data),
      cell_column = column_name c\<rparr>"

definition column_to_string :: "SqlColumnItem \<Rightarrow> string" where
  "column_to_string c =
     ''SqlColumnItem: {column_index:'' @ show_int (column_index c) @ '', column_name:'' @ column_name c @
     '', data_type:'' @ DataType_to_string (data_type c) @
     '', is_primary_key:'' @ show_bool (is_primary_key c) @
     '', is_not_null:'' @ show_bool (is_not_null c) @
     '', is_unique:'' @ show_bool (is_unique c) @ '' }''"

section \<open>Tables\<close>

record SqlTableItem =
  table_name :: string
  column_items :: "SqlColumnItem list"
  table_is_unique :: bool

definition new_table :: SqlTableItem where
  "new_table = \<lparr>table_name = [], column_items = [], table_is_unique = False\<rparr>"

definition table_is_valid :: "SqlTableItem \<Rightarrow> bool" where
  "table_is_valid t \<longleftrightarrow> (table_name t \<noteq> [] \<and> column_items t \<noteq> []) \<and> list_all column_is_valid (column_items t)"

definition has_column_name :: "string \<Rightarrow> SqlTableItem \<Rightarrow> bool" where
  "has_column_name name t \<longleftrightarrow> list_ex (\<lambda>c. column_name c = name) (column_items t)"

definition has_column :: "SqlColumnItem \<Rightarrow> SqlTableItem \<Rightarrow> bool" where
  "has_column c t \<longleftrightarrow> list_ex (\<lambda>c'. column_eq c' c) (column_items t)"

text \<open>The first column of the same name is replaced.\<close>

fun replace_column :: "SqlColumnItem \<Rightarrow> SqlColumnItem list \<Rightarrow> SqlColumnItem list" where
  "replace_column c [] = []"
| "replace_column c (item # items) =
     (if column_name item = column_name c then c # items else item # replace_column c items)"

definition add_column :: "SqlColumnItem \<Rightarrow> SqlTableItem \<Rightarrow> SqlTableItem" where
  "add_column c t =
     (if \<not> has_column_name (column_name c) t then t\<lparr>column_items := column_items t @ [c]\<rparr>
      else t\<lparr>column_items := replace_column c (column_items t)\<rparr>)"

definition get_column_info :: "string \<Rightarrow> SqlTableItem \<Rightarrow> SqlColumnItem option" where
  "get_column_info name t = find (\<lambda>c. column_name c = name) (column_items t)"

section \<open>Conditions\<close>

datatype sql_condition = No_Condition | Range_On "int SingleInterval list" | Text_On

record SqlConditionItem =
  is_set :: bool
  column_info :: SqlColumnItem
  item_condition :: sql_condition
  is_desc_order :: "bool option"

text \<open>A pointer to a \<open>RangeCondition<int64_t>\<close>: its intervals are integer intervals already.\<close>

definition range_pointer :: "int RangeCondition \<Rightarrow> sql_condition" where
  "range_pointer r = Range_On (get_integer_intervals (\<lambda>v. v) r)"

section \<open>Properties\<close>

lemma get_column_info_name: "get_column_info name t = Some c \<Longrightarrow> column_name c = name \<and> c \<in> set (column_items t)"
  by (auto simp: get_column_info_def find_Some_iff)

lemma get_column_info_has: "get_column_info name t = Some c \<Longrightarrow> has_column c t"
  by (force simp: get_column_info_def find_Some_iff has_column_def list_ex_iff column_eq_def)

lemma get_column_info_None: "get_column_info name t = None \<longleftrightarrow> \<not> has_column_name name t"
  by (auto simp: get_column_info_def find_None_iff has_column_name_def list_ex_iff)

lemma replace_column_names: "map column_name (replace_column c items) = map column_name items"
  by (induction items) auto

text \<open>The columns that are added have different names, and the last one added under a name is found.\<close>

lemma add_column_distinct:
  "distinct (map column_name (column_items t)) \<Longrightarrow> distinct (map column_name (column_items (add_column c t)))"
  by (auto simp: add_column_def replace_column_names has_column_name_def list_ex_iff)

lemma get_replaced_column:
  "list_ex (\<lambda>item. column_name item = column_name c) items \<Longrightarrow>
   find (\<lambda>item. column_name item = name) (replace_column c items) =
     (if name = column_name c then Some c else find (\<lambda>item. column_name item = name) items)"
  by (induction items) (auto split: if_splits)

lemma find_append: "find P (xs @ ys) = (case find P xs of Some x \<Rightarrow> Some x | None \<Rightarrow> find P ys)"
  by (induction xs) auto

lemma get_added_column:
  "get_column_info name (add_column c t) = (if name = column_name c then Some c else get_column_info name t)"
proof (cases "has_column_name (column_name c) t")
  case True
  then show ?thesis
    by (simp add: get_column_info_def add_column_def get_replaced_column has_column_name_def)
next
  case False
  then have "get_column_info (column_name c) t = None" by (simp add: get_column_info_None)
  with False show ?thesis
    by (simp add: get_column_info_def add_column_def find_append split: option.split)
qed

end
