(* ===== verification/Sql_Builder.thy ===== *)
theory Sql_Builder
  imports Sql_Schema
begin

text \<open>
  The texts of SQL statements, \<open>database/sql_sign_config\<close>, \<open>i_sql_stringify\<close>, \<open>sqlite_stringify\<close> and
  \<open>sql_builder\<close>.

  An access through a null pointer is \<open>None\<close> of the outer option, the \<open>std::nullopt\<close> of the code is the inner
  one. The object behind a pointer to \<open>ISqlStringify\<close> is always a \<open>SqliteStringify\<close>, whose state are its
  signs. Diagnostics are left out.
\<close>

section \<open>Signs\<close>

record SqlSignConfig =
  place_holder_sign :: string
  equal_sign :: string
  less_than_sign :: string
  greater_than_sign :: string
  comma_sign :: string
  space_sign :: string
  or_sign :: string
  and_sign :: string
  left_parenthesis :: string
  right_parenthesis :: string

definition default_signs :: SqlSignConfig where
  "default_signs =
     \<lparr>place_holder_sign = ''?'', equal_sign = ''='', less_than_sign = ''<'', greater_than_sign = ''>'',
      comma_sign = '','', space_sign = '' '', or_sign = ''OR'', and_sign = ''AND'',
      left_parenthesis = ''('', right_parenthesis = '')''\<rparr>"

section \<open>\<open>SqliteStringify\<close>\<close>

definition try_format_data_type :: "DataType \<Rightarrow> string option" where
  "try_format_data_type type =
     (if type \<in> {UInt8, Int8, UInt16, Int16, UInt32, Int32, UInt64, Int64} then Some ''INTEGER''
      else if type \<in> {Float, Double} then Some ''REAL''
      else if type = Bool then Some ''INTEGER''
      else if type = String then Some ''TEXT''
      else if type = ByteArray then Some ''BLOB''
      else if type = Null then Some ''NULL''
      else None)"

definition format_left :: "SqlSignConfig \<Rightarrow> int EndpointRange \<Rightarrow> string \<Rightarrow> string" where
  "format_left signs left_endpoint name =
     (if get_value left_endpoint \<noteq> None
      then name @ space_sign signs @
           (if is_open left_endpoint then greater_than_sign signs else greater_than_sign signs @ equal_sign signs) @
           space_sign signs @ place_holder_sign signs
      else [])"

definition format_right :: "SqlSignConfig \<Rightarrow> int EndpointRange \<Rightarrow> string \<Rightarrow> string" where
  "format_right signs right_endpoint name =
     (if get_value right_endpoint \<noteq> None
      then name @ space_sign signs @
           (if is_open right_endpoint then less_than_sign signs else less_than_sign signs @ equal_sign signs) @
           space_sign signs @ place_holder_sign signs
      else [])"

definition try_format_integer_interval :: "SqlSignConfig \<Rightarrow> int SingleInterval \<Rightarrow> string \<Rightarrow> string option" where
  "try_format_integer_interval signs interval name =
     (let left_condition = format_left signs (iv_left interval) name;
          right_condition = format_right signs (iv_right interval) name
      in if left_condition = [] \<and> right_condition = [] then None
         else (let result = (if left_condition \<noteq> [] \<and> right_condition \<noteq> []
                             then left_condition @ space_sign signs @ and_sign signs @ space_sign signs @ right_condition
                             else if left_condition = [] then right_condition else left_condition)
               in Some (left_parenthesis signs @ space_sign signs @ result @ space_sign signs @ right_parenthesis signs)))"

fun format_intervals :: "SqlSignConfig \<Rightarrow> string \<Rightarrow> int SingleInterval list \<Rightarrow> string \<Rightarrow> string" where
  "format_intervals signs name [] result = result"
| "format_intervals signs name (interval # intervals) result =
     (case try_format_integer_interval signs interval name of
        None \<Rightarrow> format_intervals signs name intervals result
      | Some interval_string \<Rightarrow>
          (let result = (if result \<noteq> [] then result @ space_sign signs @ or_sign signs @ space_sign signs else result)
           in format_intervals signs name intervals (result @ interval_string)))"

text \<open>A pointer to no range, or to a condition that is no range, is read through.\<close>

definition try_format_range_condition :: "SqlSignConfig \<Rightarrow> SqlConditionItem \<Rightarrow> string option option" where
  "try_format_range_condition signs item =
     (if \<not> is_integer_type (data_type (column_info item)) then Some None
      else case item_condition item of
             Range_On intervals \<Rightarrow>
               Some (if intervals = [] then None
                     else Some (format_intervals signs (column_name (column_info item)) intervals []))
           | _ \<Rightarrow> None)"

definition try_format_text_condition :: "SqlConditionItem \<Rightarrow> string option" where
  "try_format_text_condition item = (if \<not> is_string_type (data_type (column_info item)) then None else None)"

definition try_format_condition :: "SqlSignConfig \<Rightarrow> SqlConditionItem \<Rightarrow> string option option" where
  "try_format_condition signs item =
     (if is_integer_type (data_type (column_info item)) then try_format_range_condition signs item
      else if is_string_type (data_type (column_info item)) then Some (try_format_text_condition item)
      else Some None)"

section \<open>\<open>SqlBuilder\<close>\<close>

record SqlBuilder =
  m_table_info :: "SqlTableItem option"
  m_sql_stringify :: "SqlSignConfig option"

definition new_builder :: SqlBuilder where
  "new_builder = \<lparr>m_table_info = None, m_sql_stringify = None\<rparr>"

definition builder_of :: "SqlTableItem option \<Rightarrow> SqlSignConfig option \<Rightarrow> SqlBuilder" where
  "builder_of table_info stringify = \<lparr>m_table_info = table_info, m_sql_stringify = stringify\<rparr>"

definition builder_set_table_info :: "SqlTableItem option \<Rightarrow> SqlBuilder \<Rightarrow> SqlBuilder" where
  "builder_set_table_info table_info b = b\<lparr>m_table_info := table_info\<rparr>"

definition builder_set_stringify :: "SqlSignConfig option \<Rightarrow> SqlBuilder \<Rightarrow> SqlBuilder" where
  "builder_set_stringify stringify b = b\<lparr>m_sql_stringify := stringify\<rparr>"

definition single_field_string :: "string \<Rightarrow> SqlColumnItem \<Rightarrow> string" where
  "single_field_string type_string column =
     column_name column @ '' '' @ type_string @
     (if is_primary_key column then '' PRIMARY KEY'' else []) @
     (if is_not_null column then '' NOT NULL'' else []) @
     (if is_unique column then '' UNIQUE'' else []) @
     (if default_value column \<noteq> None then '' DEFAULT ?'' else [])"

fun create_fields :: "SqlSignConfig \<Rightarrow> SqlColumnItem list \<Rightarrow> string \<Rightarrow> string option" where
  "create_fields signs [] field_strings = Some field_strings"
| "create_fields signs (column # columns) field_strings =
     (case try_format_data_type (data_type column) of
        None \<Rightarrow> None
      | Some type_string \<Rightarrow>
          (let field_strings = (if field_strings \<noteq> [] then field_strings @ comma_sign signs @ space_sign signs else field_strings)
           in create_fields signs columns (field_strings @ single_field_string type_string column)))"

definition build_create_table_string :: "SqlBuilder \<Rightarrow> string option option" where
  "build_create_table_string b =
     do {
       table \<leftarrow> m_table_info b;
       Some (if \<not> table_is_valid table then None
             else do {
               signs \<leftarrow> m_sql_stringify b;
               field_strings \<leftarrow> create_fields signs (column_items table) [];
               Some (''CREATE TABLE'' @ (if table_is_unique table then '' IF NOT EXISTS'' else []) @
                     '' '' @ table_name table @ '' ('' @ field_strings @ '');'')
             })
     }"

text \<open>The flag \<open>is_set_order\<close> is never set by the code.\<close>

fun condition_loop ::
  "SqlSignConfig \<Rightarrow> SqlTableItem \<Rightarrow> bool \<Rightarrow> SqlConditionItem list \<Rightarrow> string \<Rightarrow> string option option" where
  "condition_loop signs table is_set_order [] condition_string = Some (Some condition_string)"
| "condition_loop signs table is_set_order (item # items) condition_string =
     (if \<not> is_set item then condition_loop signs table is_set_order items condition_string
      else if \<not> has_column (column_info item) table then condition_loop signs table is_set_order items condition_string
      else do {
        single_condition \<leftarrow> try_format_condition signs item;
        case single_condition of
          None \<Rightarrow> condition_loop signs table is_set_order items condition_string
        | Some single_condition_string \<Rightarrow>
            (let condition_string =
                   (if condition_string \<noteq> []
                    then condition_string @ space_sign signs @ and_sign signs @ space_sign signs
                    else condition_string) @ single_condition_string
             in case is_desc_order item of
                  Some desc \<Rightarrow>
                    if is_set_order then Some None
                    else condition_loop signs table is_set_order items
                           (condition_string @ '' ORDER BY'' @ '' '' @ column_name (column_info item) @
                            (if desc then '' DESC'' else '' ASC''))
                | None \<Rightarrow> condition_loop signs table is_set_order items condition_string)
      })"

definition build_condition_string :: "SqlBuilder \<Rightarrow> SqlConditionItem list \<Rightarrow> string option option" where
  "build_condition_string b items =
     do {
       table \<leftarrow> m_table_info b;
       if \<not> table_is_valid table then Some None
       else case m_sql_stringify b of
              None \<Rightarrow> Some None
            | Some signs \<Rightarrow>
                do {
                  condition \<leftarrow> condition_loop signs table False items [];
                  Some (case condition of
                          None \<Rightarrow> None
                        | Some condition_string \<Rightarrow> if condition_string = [] then None else Some condition_string)
                }
     }"

text \<open>The loops over columns: what the table does not have is skipped, the texts are separated by commas.\<close>

fun column_loop ::
  "SqlSignConfig option \<Rightarrow> SqlTableItem \<Rightarrow> (SqlColumnItem \<Rightarrow> string option) \<Rightarrow> SqlColumnItem list \<Rightarrow> string \<Rightarrow> string option" where
  "column_loop stringify table show_column [] result = Some result"
| "column_loop stringify table show_column (column # columns) result =
     (if \<not> has_column column table then column_loop stringify table show_column columns result
      else do {
        result \<leftarrow> (if result \<noteq> []
                  then do { signs \<leftarrow> stringify; Some (result @ comma_sign signs @ space_sign signs) }
                  else Some result);
        shown \<leftarrow> show_column column;
        column_loop stringify table show_column columns (result @ shown)
      })"

definition build_dest_columns_string :: "SqlBuilder \<Rightarrow> SqlColumnItem list \<Rightarrow> string option option" where
  "build_dest_columns_string b columns =
     do {
       table \<leftarrow> m_table_info b;
       if \<not> table_is_valid table then Some None
       else if columns = [] then Some None
       else do {
         dest_columns \<leftarrow> column_loop (m_sql_stringify b) table (\<lambda>c. Some (column_name c)) columns [];
         Some (Some dest_columns)
       }
     }"

definition build_insert_string :: "SqlBuilder \<Rightarrow> SqlColumnItem list \<Rightarrow> string option option" where
  "build_insert_string b columns =
     do {
       table \<leftarrow> m_table_info b;
       if \<not> table_is_valid table then Some None
       else do {
         dest \<leftarrow> build_dest_columns_string b columns;
         case dest of
           None \<Rightarrow> Some None
         | Some dest_columns \<Rightarrow>
             do {
               place_holders \<leftarrow> column_loop (m_sql_stringify b) table
                 (\<lambda>c. map_option place_holder_sign (m_sql_stringify b)) columns [];
               Some (Some (''INSERT INTO '' @ table_name table @ '' ('' @ dest_columns @ '') VALUES ('' @ place_holders @ '');''))
             }
       }
     }"

definition build_select_string ::
  "SqlBuilder \<Rightarrow> SqlColumnItem list \<Rightarrow> SqlConditionItem list \<Rightarrow> string option option" where
  "build_select_string b columns items =
     do {
       table \<leftarrow> m_table_info b;
       if \<not> table_is_valid table then Some None
       else do {
         dest \<leftarrow> build_dest_columns_string b columns;
         let dest_columns = (case dest of Some d \<Rightarrow> d | None \<Rightarrow> ''*'');
         condition \<leftarrow> build_condition_string b items;
         Some (Some (case condition of
             Some condition_string \<Rightarrow> ''SELECT '' @ dest_columns @ '' FROM '' @ table_name table @ '' WHERE '' @ condition_string
           | None \<Rightarrow> ''SELECT '' @ dest_columns @ '' FROM '' @ table_name table))
       }
     }"

definition build_update_string ::
  "SqlBuilder \<Rightarrow> SqlColumnItem list \<Rightarrow> SqlConditionItem list \<Rightarrow> bool \<Rightarrow> string option option" where
  "build_update_string b columns items enable_all =
     do {
       table \<leftarrow> m_table_info b;
       if \<not> table_is_valid table then Some None
       else do {
         dest_columns \<leftarrow> column_loop (m_sql_stringify b) table
           (\<lambda>c. map_option (\<lambda>signs. column_name c @ '' = '' @ place_holder_sign signs) (m_sql_stringify b)) columns [];
         if dest_columns = [] then Some None
         else do {
           condition \<leftarrow> build_condition_string b items;
           Some (case condition of
               Some condition_string \<Rightarrow>
                 Some (''UPDATE '' @ table_name table @ '' SET '' @ dest_columns @ '' WHERE '' @ condition_string)
             | None \<Rightarrow> if enable_all then Some (''UPDATE '' @ table_name table @ '' SET '' @ dest_columns) else None)
         }
       }
     }"

definition build_delete_string :: "SqlBuilder \<Rightarrow> SqlConditionItem list \<Rightarrow> bool \<Rightarrow> string option option" where
  "build_delete_string b items enable_all =
     do {
       table \<leftarrow> m_table_info b;
       if \<not> table_is_valid table then Some None
       else do {
         condition \<leftarrow> build_condition_string b items;
         Some (case condition of
             Some condition_string \<Rightarrow> Some (''DELETE FROM '' @ table_name table @ '' WHERE '' @ condition_string)
           | None \<Rightarrow> if enable_all then Some (''DELETE FROM '' @ table_name table) else None)
       }
     }"

definition build_count_string :: "SqlBuilder \<Rightarrow> SqlConditionItem list \<Rightarrow> string option option" where
  "build_count_string b items =
     do {
       table \<leftarrow> m_table_info b;
       if \<not> table_is_valid table then Some None
       else do {
         condition \<leftarrow> build_condition_string b items;
         Some (Some (case condition of
             Some condition_string \<Rightarrow> ''SELECT COUNT(*) FROM '' @ table_name table @ '' WHERE '' @ condition_string
           | None \<Rightarrow> ''SELECT COUNT(*) FROM '' @ table_name table))
       }
     }"

section \<open>Times\<close>

text \<open>A time point of the system clock is its number of nanoseconds; the division of \<open>duration_cast\<close> rounds to zero.\<close>

definition to_time_ms :: "u64 \<Rightarrow> u64" where
  "to_time_ms t = word_of_int (if sint t < 0 then - (- sint t div 1000000) else sint t div 1000000)"

definition from_time_ms :: "u64 \<Rightarrow> u64" where
  "from_time_ms ms = ms * 1000000"

end
