(* ===== verification/Sql_Meaning.thy ===== *)
theory Sql_Meaning
  imports Sql_Builder "HOL-Library.Multiset"
begin

text \<open>
  What the SQL texts of the builder mean: the statements of SQL that it writes, with the values of their
  parameters, their texts, and their effect on a database as the documentation of SQL and SQLite
  describes it. \<open>OR\<close> binds weaker than \<open>AND\<close>, so the text of a condition without outer parentheses is a
  disjunction of conjunctions of groups in parentheses.
\<close>

section \<open>Statements\<close>

datatype SqlValue = Integer_Value u64 | Real_Value u64 | Text_Value string | Blob_Value bytes | Null_Value

datatype sql_comparison = Greater | Greater_Equal | Lesser | Lesser_Equal

type_synonym comparison = "string \<times> sql_comparison \<times> int"
type_synonym group = "comparison list"

record sql_column =
  col_name :: string
  col_type :: string
  col_primary :: bool
  col_not_null :: bool
  col_unique :: bool

datatype sql_statement =
    Create_Table string bool "sql_column list"
  | Insert_Into string "(string \<times> SqlValue) list"
  | Select_From "string list" string "group list list"
  | Count_From string "group list list"
  | Update_Set string "(string \<times> SqlValue) list" "group list list"
  | Delete_From string "group list list"

section \<open>Texts\<close>

fun joined :: "string \<Rightarrow> string list \<Rightarrow> string" where
  "joined sep [] = []"
| "joined sep [x] = x"
| "joined sep (x # y # xs) = x @ sep @ joined sep (y # xs)"

primrec comparison_text :: "sql_comparison \<Rightarrow> string" where
  "comparison_text Greater = ''>''"
| "comparison_text Greater_Equal = ''>=''"
| "comparison_text Lesser = ''<''"
| "comparison_text Lesser_Equal = ''<=''"

fun render_comparison :: "comparison \<Rightarrow> string" where
  "render_comparison (c, op, v) = c @ '' '' @ comparison_text op @ '' ?''"

definition render_group :: "group \<Rightarrow> string" where
  "render_group g = ''( '' @ joined '' AND '' (map render_comparison g) @ '' )''"

definition render_where :: "group list list \<Rightarrow> string" where
  "render_where w = joined '' OR '' (map (\<lambda>gs. joined '' AND '' (map render_group gs)) w)"

definition render_column :: "sql_column \<Rightarrow> string" where
  "render_column c =
     col_name c @ '' '' @ col_type c @ (if col_primary c then '' PRIMARY KEY'' else []) @
     (if col_not_null c then '' NOT NULL'' else []) @ (if col_unique c then '' UNIQUE'' else [])"

definition where_clause :: "group list list \<Rightarrow> string" where
  "where_clause w = (if w = [] then [] else '' WHERE '' @ render_where w)"

fun render :: "sql_statement \<Rightarrow> string" where
  "render (Create_Table t once cols) =
     ''CREATE TABLE'' @ (if once then '' IF NOT EXISTS'' else []) @ '' '' @ t @ '' ('' @
     joined '', '' (map render_column cols) @ '');''"
| "render (Insert_Into t vals) =
     ''INSERT INTO '' @ t @ '' ('' @ joined '', '' (map fst vals) @ '') VALUES ('' @
     joined '', '' (map (\<lambda>_. ''?'') vals) @ '');''"
| "render (Select_From cols t w) = ''SELECT '' @ joined '', '' cols @ '' FROM '' @ t @ where_clause w"
| "render (Count_From t w) = ''SELECT COUNT(*) FROM '' @ t @ where_clause w"
| "render (Update_Set t vals w) =
     ''UPDATE '' @ t @ '' SET '' @ joined '', '' (map (\<lambda>(c, v). c @ '' = ?'') vals) @ where_clause w"
| "render (Delete_From t w) = ''DELETE FROM '' @ t @ where_clause w"

definition where_values :: "group list list \<Rightarrow> int list" where
  "where_values w = map (\<lambda>(c, op, v). v) (concat (concat w))"

definition where_params :: "group list list \<Rightarrow> SqlValue list" where
  "where_params w = map (\<lambda>v. Integer_Value (word_of_int v)) (where_values w)"

fun params :: "sql_statement \<Rightarrow> SqlValue list" where
  "params (Create_Table t once cols) = []"
| "params (Insert_Into t vals) = map snd vals"
| "params (Select_From cols t w) = where_params w"
| "params (Count_From t w) = where_params w"
| "params (Update_Set t vals w) = map snd vals @ where_params w"
| "params (Delete_From t w) = where_params w"

section \<open>Rows and conditions\<close>

type_synonym row = "(string \<times> SqlValue) list"

definition row_integer :: "row \<Rightarrow> string \<Rightarrow> int option" where
  "row_integer row c = (case map_of row c of Some (Integer_Value w) \<Rightarrow> Some (sint w) | _ \<Rightarrow> None)"

primrec comparison_holds :: "sql_comparison \<Rightarrow> int \<Rightarrow> int \<Rightarrow> bool" where
  "comparison_holds Greater x v \<longleftrightarrow> x > v"
| "comparison_holds Greater_Equal x v \<longleftrightarrow> x \<ge> v"
| "comparison_holds Lesser x v \<longleftrightarrow> x < v"
| "comparison_holds Lesser_Equal x v \<longleftrightarrow> x \<le> v"

fun row_compares :: "row \<Rightarrow> comparison \<Rightarrow> bool" where
  "row_compares row (c, op, v) \<longleftrightarrow> (case row_integer row c of Some x \<Rightarrow> comparison_holds op x v | None \<Rightarrow> False)"

definition where_holds :: "group list list \<Rightarrow> row \<Rightarrow> bool" where
  "where_holds w row \<longleftrightarrow> w = [] \<or> list_ex (\<lambda>gs. list_all (list_all (row_compares row)) gs) w"

section \<open>The conditions of the builder\<close>

text \<open>The comparisons of an interval, and the groups of a condition.\<close>

definition interval_group :: "string \<Rightarrow> int SingleInterval \<Rightarrow> group" where
  "interval_group c i =
     (case get_value (iv_left i) of
        Some v \<Rightarrow> [(c, if is_open (iv_left i) then Greater else Greater_Equal, v)]
      | None \<Rightarrow> []) @
     (case get_value (iv_right i) of
        Some v \<Rightarrow> [(c, if is_open (iv_right i) then Lesser else Lesser_Equal, v)]
      | None \<Rightarrow> [])"

definition item_groups :: "SqlConditionItem \<Rightarrow> group list" where
  "item_groups item =
     (case item_condition item of
        Range_On intervals \<Rightarrow> filter (\<lambda>g. g \<noteq> []) (map (interval_group (column_name (column_info item))) intervals)
      | _ \<Rightarrow> [])"

text \<open>
  What SQL reads in the text behind which \<open>AND\<close> and the groups of a further condition are written: only the last
  conjunction takes the first of them. \<open>where_of\<close> is thus the reading of the text that the builder writes; whether it is what
  the conditions stand for is a question of its own.
\<close>

fun and_groups :: "group list list \<Rightarrow> group list \<Rightarrow> group list list" where
  "and_groups [] gs = map (\<lambda>g. [g]) gs"
| "and_groups [c] (g # gs) = (c @ [g]) # map (\<lambda>g. [g]) gs"
| "and_groups (c # d # w) gs = c # and_groups (d # w) gs"
| "and_groups [c] [] = [c]"

definition where_of :: "SqlConditionItem list \<Rightarrow> group list list" where
  "where_of items = foldl (\<lambda>w item. and_groups w (item_groups item)) [] items"

definition item_ok :: "SqlTableItem \<Rightarrow> SqlConditionItem \<Rightarrow> bool" where
  "item_ok table item \<longleftrightarrow>
     is_set item \<and> column_info item \<in> set (column_items table) \<and> is_integer_type (data_type (column_info item)) \<and>
     is_desc_order item = None \<and> item_groups item \<noteq> []"

lemma default_signs_sel [simp]:
  "place_holder_sign default_signs = ''?''" "equal_sign default_signs = ''=''" "less_than_sign default_signs = ''<''"
  "greater_than_sign default_signs = ''>''" "comma_sign default_signs = '',''" "space_sign default_signs = '' ''"
  "or_sign default_signs = ''OR''" "and_sign default_signs = ''AND''"
  "left_parenthesis default_signs = ''(''" "right_parenthesis default_signs = '')''"
  by (simp_all add: default_signs_def)

lemma joined_append: "xs \<noteq> [] \<Longrightarrow> ys \<noteq> [] \<Longrightarrow> joined sep (xs @ ys) = joined sep xs @ sep @ joined sep ys"
  by (induction sep xs rule: joined.induct) (auto simp: neq_Nil_conv)

lemma joined_nonempty: "xs \<noteq> [] \<Longrightarrow> list_all (\<lambda>x. x \<noteq> []) xs \<Longrightarrow> joined sep xs \<noteq> []"
  by (induction sep xs rule: joined.induct) auto

lemma render_group_nonempty [simp]: "render_group g \<noteq> []"
  by (simp add: render_group_def)

lemma format_interval:
  "try_format_integer_interval default_signs i c =
     (if interval_group c i = [] then None else Some (render_group (interval_group c i)))"
  by (auto simp: try_format_integer_interval_def format_left_def format_right_def interval_group_def render_group_def
      Let_def split: option.split)

lemma format_intervals_text:
  "format_intervals default_signs c is r =
     (let gs = filter (\<lambda>g. g \<noteq> []) (map (interval_group c) is) in
      if gs = [] then r
      else if r = [] then joined '' OR '' (map render_group gs)
      else r @ '' OR '' @ joined '' OR '' (map render_group gs))"
proof (induction "is" arbitrary: r)
  case (Cons i "is")
  let ?gs = "filter (\<lambda>g. g \<noteq> []) (map (interval_group c) is)"
  show ?case
  proof (cases "?gs = []")
    case True
    then show ?thesis
      by (simp add: format_interval Cons.IH Let_def)
  next
    case False
    then have "joined '' OR '' (map render_group (interval_group c i # ?gs)) =
        render_group (interval_group c i) @ '' OR '' @ joined '' OR '' (map render_group ?gs)"
      by (cases ?gs) auto
    with False show ?thesis
      by (simp add: format_interval Cons.IH Let_def)
  qed
qed simp

lemma and_groups_nonempty: "w \<noteq> [] \<or> gs \<noteq> [] \<Longrightarrow> and_groups w gs \<noteq> []"
  by (induction w gs rule: and_groups.induct) auto

lemma and_groups_conjunctions: "list_all (\<lambda>c. c \<noteq> []) w \<Longrightarrow> list_all (\<lambda>c. c \<noteq> []) (and_groups w gs)"
  by (induction w gs rule: and_groups.induct) (simp_all add: list.pred_map comp_def list.pred_True)

lemma render_groups: "render_where (map (\<lambda>g. [g]) gs) = joined '' OR '' (map render_group gs)"
proof -
  have "map (\<lambda>gs. joined '' AND '' (map render_group gs)) (map (\<lambda>g. [g]) gs) = map render_group gs"
    by (induction gs) simp_all
  then show ?thesis by (simp only: render_where_def)
qed

lemma joined_Cons: "xs \<noteq> [] \<Longrightarrow> joined sep (x # xs) = x @ sep @ joined sep xs"
  by (cases xs) auto

lemma render_where_Cons:
  "w \<noteq> [] \<Longrightarrow> render_where (c # w) = joined '' AND '' (map render_group c) @ '' OR '' @ render_where w"
  by (simp add: render_where_def joined_Cons)

lemma render_and_groups:
  "w \<noteq> [] \<Longrightarrow> list_all (\<lambda>c. c \<noteq> []) w \<Longrightarrow> gs \<noteq> [] \<Longrightarrow>
   render_where (and_groups w gs) = render_where w @ '' AND '' @ joined '' OR '' (map render_group gs)"
proof (induction w gs rule: and_groups.induct)
  case (2 c g gs)
  have g: "joined '' AND '' (map render_group (c @ [g])) =
      joined '' AND '' (map render_group c) @ '' AND '' @ render_group g"
    using 2 by (simp add: joined_append)
  show ?case
  proof (cases "gs = []")
    case True
    with g show ?thesis by (simp add: render_where_def)
  next
    case False
    then have "render_where (and_groups [c] (g # gs)) =
        joined '' AND '' (map render_group (c @ [g])) @ '' OR '' @ joined '' OR '' (map render_group gs)"
      by (simp add: render_where_Cons render_groups)
    with g False show ?thesis
      using joined_Cons [of "map render_group gs" "'' OR ''" "render_group g"] by (simp add: render_where_def)
  qed
next
  case (3 c d w gs)
  then show ?case using and_groups_nonempty [of "d # w" gs] by (simp add: render_where_Cons)
qed simp_all

lemma render_where_nonempty: "w \<noteq> [] \<Longrightarrow> list_all (\<lambda>c. c \<noteq> []) w \<Longrightarrow> render_where w \<noteq> []"
  unfolding render_where_def by (rule joined_nonempty) (auto simp: list_all_iff joined_nonempty)

lemma format_range_text:
  assumes "item_ok table item"
  shows "try_format_condition default_signs item = Some (Some (joined '' OR '' (map render_group (item_groups item))))"
proof -
  obtain "is" where r: "item_condition item = Range_On is"
    using assms by (cases "item_condition item") (simp_all add: item_ok_def item_groups_def)
  then have "is": "item_condition item = Range_On is" "is \<noteq> []"
    using assms by (auto simp: item_ok_def item_groups_def)
  then have "filter (\<lambda>g. g \<noteq> []) (map (interval_group (column_name (column_info item))) is) \<noteq> []"
    using assms by (simp add: item_ok_def item_groups_def)
  with "is" assms show ?thesis
    by (simp add: try_format_condition_def try_format_range_condition_def item_ok_def item_groups_def
        format_intervals_text Let_def)
qed

lemma has_column_member: "c \<in> set (column_items table) \<Longrightarrow> has_column c table"
  by (force simp: has_column_def list_ex_iff column_eq_def)

lemma condition_loop_text:
  "list_all (item_ok table) items \<Longrightarrow> list_all (\<lambda>c. c \<noteq> []) w \<Longrightarrow>
   condition_loop default_signs table False items (render_where w) =
     Some (Some (render_where (foldl (\<lambda>w item. and_groups w (item_groups item)) w items)))"
proof (induction items arbitrary: w)
  case (Cons item items)
  let ?t = "joined '' OR '' (map render_group (item_groups item))"
  have ok: "item_ok table item" using Cons.prems by simp
  then have item: "is_set item" "has_column (column_info item) table" "is_desc_order item = None" "item_groups item \<noteq> []"
    by (simp_all add: item_ok_def has_column_member)
  have eq: "(if render_where w \<noteq> [] then render_where w @ '' AND '' else render_where w) @ ?t =
      render_where (and_groups w (item_groups item))"
  proof (cases "w = []")
    case True
    then show ?thesis by (simp add: render_groups) (simp add: render_where_def)
  next
    case False
    then show ?thesis
      using Cons.prems item render_and_groups [of w "item_groups item"] render_where_nonempty [of w] by simp
  qed
  then have "condition_loop default_signs table False (item # items) (render_where w) =
      condition_loop default_signs table False items (render_where (and_groups w (item_groups item)))"
    using item format_range_text [OF ok] by (auto simp: Let_def eq [symmetric])
  with Cons.IH [of "and_groups w (item_groups item)"] Cons.prems and_groups_conjunctions [of w] show ?case by simp
qed simp

section \<open>The statements of the builder\<close>

definition builder_ok :: "SqlTableItem \<Rightarrow> SqlBuilder \<Rightarrow> bool" where
  "builder_ok table b \<longleftrightarrow> m_table_info b = Some table \<and> m_sql_stringify b = Some default_signs \<and> table_is_valid table"

lemma where_of_conjunctions: "list_all (\<lambda>c. c \<noteq> []) (where_of items)"
proof -
  have "list_all (\<lambda>c. c \<noteq> []) w \<Longrightarrow>
      list_all (\<lambda>c. c \<noteq> []) (foldl (\<lambda>w item. and_groups w (item_groups item)) w items)" for w
    by (induction items arbitrary: w) (simp_all add: and_groups_conjunctions)
  then show ?thesis by (simp add: where_of_def)
qed

lemma where_of_empty: "list_all (item_ok table) items \<Longrightarrow> where_of items = [] \<longleftrightarrow> items = []"
proof -
  have "w \<noteq> [] \<Longrightarrow> foldl (\<lambda>w item. and_groups w (item_groups item)) w items \<noteq> []" for w items
    by (induction items arbitrary: w) (simp_all add: and_groups_nonempty)
  then show "list_all (item_ok table) items \<Longrightarrow> where_of items = [] \<longleftrightarrow> items = []"
    by (cases items) (auto simp: where_of_def item_ok_def)
qed

lemma concat_and_groups: "concat (concat (and_groups w gs)) = concat (concat w) @ concat gs"
proof -
  have "concat (concat (map (\<lambda>g. [g]) gs)) = concat gs" for gs :: "group list"
    by (induction gs) simp_all
  then show ?thesis by (induction w gs rule: and_groups.induct) simp_all
qed

lemma concat_where_of: "concat (concat (where_of items)) = concat (map (\<lambda>item. concat (item_groups item)) items)"
proof -
  have "concat (concat (foldl (\<lambda>w item. and_groups w (item_groups item)) w items)) =
      concat (concat w) @ concat (map (\<lambda>item. concat (item_groups item)) items)" for w
    by (induction items arbitrary: w) (simp_all add: concat_and_groups)
  then show ?thesis by (simp add: where_of_def)
qed

lemma build_condition:
  assumes "builder_ok table b" "list_all (item_ok table) items"
  shows "build_condition_string b items = Some (if items = [] then None else Some (render_where (where_of items)))"
proof -
  have "condition_loop default_signs table False items [] = Some (Some (render_where (where_of items)))"
    using condition_loop_text [OF assms(2), of "[]"] by (simp add: where_of_def) (simp add: render_where_def)
  moreover have "items \<noteq> [] \<Longrightarrow> render_where (where_of items) \<noteq> []"
    using where_of_empty [OF assms(2)] where_of_conjunctions render_where_nonempty by blast
  moreover have "render_where [] = []" by (simp add: render_where_def)
  ultimately show ?thesis
    using assms(1) where_of_empty [OF assms(2)]
    by (auto simp: build_condition_string_def builder_ok_def)
qed

lemma column_loop_text:
  assumes "\<And>c. c \<in> set cols \<Longrightarrow> c \<in> set (column_items table) \<and> show_column c = Some (f c) \<and> f c \<noteq> []"
  shows "column_loop (Some default_signs) table show_column cols r =
    Some (if cols = [] then r else if r = [] then joined '', '' (map f cols) else r @ '', '' @ joined '', '' (map f cols))"
  using assms
proof (induction cols arbitrary: r)
  case (Cons c cols)
  have "c \<in> set (column_items table)" "show_column c = Some (f c)" "f c \<noteq> []"
    using Cons.prems by simp_all
  then show ?case
    using Cons by (cases "cols = []") (simp_all add: has_column_member joined_Cons)
qed simp

definition column_of :: "SqlColumnItem \<Rightarrow> sql_column" where
  "column_of c =
     \<lparr>col_name = column_name c, col_type = (case try_format_data_type (data_type c) of Some s \<Rightarrow> s | None \<Rightarrow> []),
      col_primary = is_primary_key c, col_not_null = is_not_null c, col_unique = is_unique c\<rparr>"

lemma single_field_text:
  "try_format_data_type (data_type c) = Some s \<Longrightarrow> default_value c = None \<Longrightarrow>
   single_field_string s c = render_column (column_of c)"
  by (simp add: single_field_string_def render_column_def column_of_def)

lemma single_field_nonempty [simp]: "single_field_string s c \<noteq> []"
  by (simp add: single_field_string_def)

lemma create_fields_text:
  assumes "\<And>c. c \<in> set cols \<Longrightarrow> try_format_data_type (data_type c) \<noteq> None \<and> default_value c = None"
  shows "create_fields default_signs cols r =
    Some (if cols = [] then r else if r = [] then joined '', '' (map (\<lambda>c. render_column (column_of c)) cols)
          else r @ '', '' @ joined '', '' (map (\<lambda>c. render_column (column_of c)) cols))"
  using assms
proof (induction cols arbitrary: r)
  case (Cons c cols)
  obtain s where s: "try_format_data_type (data_type c) = Some s" "default_value c = None"
    using Cons.prems [of c] by auto
  note field = single_field_text [OF s]
  have ne: "render_column (column_of c) \<noteq> []"
    unfolding field [symmetric] by simp
  have ih: "create_fields default_signs cols r' =
    Some (if cols = [] then r' else if r' = [] then joined '', '' (map (\<lambda>c. render_column (column_of c)) cols)
          else r' @ '', '' @ joined '', '' (map (\<lambda>c. render_column (column_of c)) cols))" for r'
    by (rule Cons.IH) (rule Cons.prems, simp)
  show ?case
  proof (cases "cols = []")
    case True
    with s ne show ?thesis by (simp add: field Let_def)
  next
    case False
    have "joined '', '' (map (\<lambda>c. render_column (column_of c)) (c # cols)) =
        render_column (column_of c) @ '', '' @ joined '', '' (map (\<lambda>c. render_column (column_of c)) cols)"
      using False by (simp add: joined_Cons)
    with s ne False show ?thesis by (simp only: create_fields.simps option.case field Let_def ih) simp
  qed
qed simp

definition table_ok :: "SqlTableItem \<Rightarrow> bool" where
  "table_ok table \<longleftrightarrow>
     table_is_valid table \<and> distinct (map column_name (column_items table)) \<and>
     (\<forall>c \<in> set (column_items table). try_format_data_type (data_type c) \<noteq> None \<and> default_value c = None)"

lemma valid_column_name: "table_is_valid table \<Longrightarrow> c \<in> set (column_items table) \<Longrightarrow> column_name c \<noteq> []"
  by (auto simp: table_is_valid_def list_all_iff column_is_valid_def)

lemma builder_texts:
  assumes "builder_ok table b" "table_ok table" "set cols \<subseteq> set (column_items table)" "cols \<noteq> []"
    and "list_all (item_ok table) items" "length vals = length cols"
  shows "build_create_table_string b =
      Some (Some (render (Create_Table (table_name table) (table_is_unique table) (map column_of (column_items table))))) \<and>
    build_insert_string b cols = Some (Some (render (Insert_Into (table_name table) (zip (map column_name cols) vals)))) \<and>
    build_select_string b cols items =
      Some (Some (render (Select_From (map column_name cols) (table_name table) (where_of items)))) \<and>
    build_count_string b items = Some (Some (render (Count_From (table_name table) (where_of items)))) \<and>
    build_update_string b cols items all =
      Some (if items = [] \<and> \<not> all then None
            else Some (render (Update_Set (table_name table) (zip (map column_name cols) vals) (where_of items)))) \<and>
    build_delete_string b items all =
      Some (if items = [] \<and> \<not> all then None else Some (render (Delete_From (table_name table) (where_of items))))"
proof -
  have b: "m_table_info b = Some table" "m_sql_stringify b = Some default_signs" "table_is_valid table"
    using assms(1) by (simp_all add: builder_ok_def)
  have names: "c \<in> set cols \<Longrightarrow> c \<in> set (column_items table) \<and> column_name c \<noteq> []" for c
    using assms(3) valid_column_name [OF b(3)] by auto
  have dest: "column_loop (Some default_signs) table (\<lambda>c. Some (column_name c)) cols [] = Some (joined '', '' (map column_name cols))"
    using column_loop_text [of cols table _ column_name "[]"] names assms(4) by simp
  have holes: "column_loop (Some default_signs) table (\<lambda>c. Some ''?'') cols [] = Some (joined '', '' (map (\<lambda>_. ''?'') cols))"
    using column_loop_text [of cols table _ "\<lambda>_. ''?''" "[]"] names assms(4) by simp
  have sets: "column_loop (Some default_signs) table (\<lambda>c. Some (column_name c @ '' = ?'')) cols [] =
      Some (joined '', '' (map (\<lambda>c. column_name c @ '' = ?'') cols))"
    using column_loop_text [of cols table _ "\<lambda>c. column_name c @ '' = ?''" "[]"] names assms(4) by simp
  have fields: "create_fields default_signs (column_items table) [] =
      Some (joined '', '' (map (\<lambda>c. render_column (column_of c)) (column_items table)))"
    using create_fields_text [of "column_items table" "[]"] assms(2) b(3) by (auto simp: table_ok_def table_is_valid_def)
  have zips: "map fst (zip (map column_name cols) vals) = map column_name cols"
    "map (\<lambda>(c, v). c @ '' = ?'') (zip (map column_name cols) vals) = map (\<lambda>c. column_name c @ '' = ?'') cols"
    "map (\<lambda>_. ''?'') (zip (map column_name cols) vals) = map (\<lambda>_. ''?'') cols"
    by (use assms(6) in simp, use assms(6) in \<open>induction vals cols rule: list_induct2\<close>, use assms(6) in \<open>simp_all add: map_replicate_const\<close>)
  have w: "where_clause (where_of items) = (if items = [] then [] else '' WHERE '' @ render_where (where_of items))"
    using where_of_empty [OF assms(5)] by (simp add: where_clause_def)
  have set_text: "joined '', '' (map (\<lambda>c. column_name c @ '' = ?'') cols) \<noteq> []"
    using assms(4) by (intro joined_nonempty) (auto simp: list_all_iff)
  note condition = build_condition [OF assms(1,5)]
  have "build_create_table_string b =
      Some (Some (render (Create_Table (table_name table) (table_is_unique table) (map column_of (column_items table)))))"
    using b fields by (simp add: build_create_table_string_def comp_def)
  moreover have "build_insert_string b cols = Some (Some (render (Insert_Into (table_name table) (zip (map column_name cols) vals))))"
    using b dest holes assms(4) by (simp add: build_insert_string_def build_dest_columns_string_def zips)
  moreover have "build_select_string b cols items =
      Some (Some (render (Select_From (map column_name cols) (table_name table) (where_of items))))"
    using b dest assms(4) by (simp add: build_select_string_def build_dest_columns_string_def condition w)
  moreover have "build_count_string b items = Some (Some (render (Count_From (table_name table) (where_of items))))"
    using b by (simp add: build_count_string_def condition w)
  moreover have "build_update_string b cols items all =
      Some (if items = [] \<and> \<not> all then None
            else Some (render (Update_Set (table_name table) (zip (map column_name cols) vals) (where_of items))))"
    using b sets set_text by (simp add: build_update_string_def condition w zips)
  moreover have "build_delete_string b items all =
      Some (if items = [] \<and> \<not> all then None else Some (render (Delete_From (table_name table) (where_of items))))"
    using b by (simp add: build_delete_string_def condition w)
  ultimately show ?thesis by blast
qed

section \<open>What the conditions select\<close>

text \<open>The condition on a row that an item stands for: the value of the column lies in one of the intervals.\<close>

definition item_accepts :: "row \<Rightarrow> SqlConditionItem \<Rightarrow> bool" where
  "item_accepts row item \<longleftrightarrow>
     (case (item_condition item, row_integer row (column_name (column_info item))) of
        (Range_On intervals, Some x) \<Rightarrow> list_ex (\<lambda>i. interval_member i x) intervals
      | _ \<Rightarrow> False)"

definition limited :: "int SingleInterval \<Rightarrow> bool" where
  "limited i \<longleftrightarrow> interval_wf i \<and> (ep_value (iv_left i) \<noteq> None \<or> ep_value (iv_right i) \<noteq> None)"

lemma integer_interval_same: "interval_wf i \<Longrightarrow> get_integer_interval (\<lambda>v. v) i = Some i"
proof -
  assume i: "interval_wf i"
  have "new_endpoint (ep_value (iv_left i)) (ep_is_open (iv_left i)) (ep_side (iv_left i)) = iv_left i"
    "new_endpoint (ep_value (iv_right i)) (ep_is_open (iv_right i)) (ep_side (iv_right i)) = iv_right i"
    by (rule new_endpoint_self; use i in \<open>simp add: interval_wf_def\<close>)+
  moreover have "interval_wf (between (iv_left i) (iv_right i))"
    by (rule between_wf) (use i in \<open>simp_all add: interval_wf_def\<close>)
  ultimately show ?thesis
    using i between_self [OF i]
    by (auto simp: get_integer_interval_def get_integer_endpoint_def option.map_ident intro!: interval_wf_eqI)
qed

lemma limited_group: "limited i \<Longrightarrow> interval_group c i \<noteq> []"
  by (auto simp: limited_def interval_group_def get_value_def split: option.split)

lemma group_selects:
  "limited i \<Longrightarrow>
   list_all (row_compares row) (interval_group c i) \<longleftrightarrow>
     (case row_integer row c of Some x \<Rightarrow> interval_member i x | None \<Rightarrow> False)"
  by (auto simp: interval_group_def limited_def interval_wf_def interval_member_def endpoint_in_range_def get_value_def
      is_open_def split: option.split)

lemma item_groups_limited:
  "item_condition item = Range_On is \<Longrightarrow> list_all limited is \<Longrightarrow>
   item_groups item = map (interval_group (column_name (column_info item))) is"
  by (auto simp: item_groups_def list_all_iff limited_group filter_id_conv)

lemma where_of_single: "where_of [item] = map (\<lambda>g. [g]) (item_groups item)"
  by (simp add: where_of_def)

lemma item_selects:
  assumes "item_condition item = Range_On is" "list_all limited is" "is \<noteq> []"
  shows "where_holds (where_of [item]) row \<longleftrightarrow> item_accepts row item"
proof -
  have "list_ex (\<lambda>gs. list_all (list_all (row_compares row)) gs) (map (\<lambda>g. [g]) (map (interval_group c) is)) \<longleftrightarrow>
      list_ex (\<lambda>i. list_all (row_compares row) (interval_group c i)) is" for c
    by (simp add: list_ex_iff)
  moreover have "list_ex (\<lambda>i. list_all (row_compares row) (interval_group c i)) is \<longleftrightarrow>
      (case row_integer row c of Some x \<Rightarrow> list_ex (\<lambda>i. interval_member i x) is | None \<Rightarrow> False)" for c
    using assms(2)
  proof (induction "is")
    case (Cons i "is")
    then show ?case by (cases "row_integer row c") (simp_all add: group_selects)
  qed (simp split: option.split)
  ultimately show ?thesis
    using assms by (simp add: where_of_single item_groups_limited where_holds_def item_accepts_def split: option.split)
qed

lemma where_of_points:
  assumes "list_all (\<lambda>item. \<exists>g. item_groups item = [g]) items"
  shows "foldl (\<lambda>w item. and_groups w (item_groups item)) [c] items = [c @ map (\<lambda>item. hd (item_groups item)) items]"
  using assms by (induction items arbitrary: c) auto

definition point_item :: "SqlConditionItem \<Rightarrow> bool" where
  "point_item item \<longleftrightarrow> (\<exists>i. item_condition item = Range_On [i] \<and> limited i)"

lemma point_items_select:
  assumes "list_all point_item items"
  shows "where_holds (where_of items) row \<longleftrightarrow> list_all (item_accepts row) items"
proof (cases items)
  case Nil
  then show ?thesis by (simp add: where_of_def where_holds_def)
next
  case (Cons item rest)
  have one: "\<exists>g. item_groups item = [g] \<and> (list_all (row_compares row) g \<longleftrightarrow> item_accepts row item)"
    if "item \<in> set items" for item
  proof -
    have "point_item item" using assms that by (simp add: list_all_iff)
    then obtain i where i: "item_condition item = Range_On [i]" "limited i"
      by (auto simp: point_item_def)
    then have "item_groups item = [interval_group (column_name (column_info item)) i]"
      using item_groups_limited [of item "[i]"] by simp
    moreover have "list_all (row_compares row) (interval_group (column_name (column_info item)) i) \<longleftrightarrow> item_accepts row item"
      unfolding group_selects [OF i(2)] by (simp add: item_accepts_def i(1) split: option.split)
    ultimately show ?thesis by blast
  qed
  then have groups: "list_all (\<lambda>item. \<exists>g. item_groups item = [g]) items"
    by (force simp: list_all_iff)
  have holds: "list_all (row_compares row) (hd (item_groups item)) \<longleftrightarrow> item_accepts row item" if "item \<in> set items" for item
    using one [OF that] by auto
  have "where_of items = [map (\<lambda>item. hd (item_groups item)) items]"
  proof -
    obtain g where "item_groups item = [g]" using one Cons by force
    then show ?thesis
      using groups where_of_points [of rest "[g]"] by (simp add: where_of_def Cons)
  qed
  then show ?thesis
    using holds Cons by (auto simp: where_holds_def list_all_iff)
qed

text \<open>
  Ranges as conditions. Their intervals have an end, and several ranges are one interval each: then SQL reads the text as it was
  meant. A row is accepted when the value of each column lies in its range.
\<close>

definition readable :: "int RangeCondition list \<Rightarrow> bool" where
  "readable rs \<longleftrightarrow> list_all (\<lambda>r. list_all limited (m_intervals r)) rs \<and>
     (length rs \<le> 1 \<or> list_all (\<lambda>r. length (m_intervals r) = 1) rs)"

definition in_ranges :: "row \<Rightarrow> SqlConditionItem list \<Rightarrow> int RangeCondition list \<Rightarrow> bool" where
  "in_ranges row items rs \<longleftrightarrow>
     list_all2 (\<lambda>item r. case row_integer row (column_name (column_info item)) of
       Some x \<Rightarrow> is_in_range_value r x | None \<Rightarrow> False) items rs"

definition conditions_of :: "int RangeCondition list \<Rightarrow> SqlConditionItem list \<Rightarrow> bool" where
  "conditions_of rs items \<longleftrightarrow> list_all2 (\<lambda>item r. item_condition item = range_pointer r) items rs"

text \<open>The ends of the intervals, in the order in which they stand for the question marks.\<close>

definition interval_ends :: "int SingleInterval \<Rightarrow> int list" where
  "interval_ends i =
     (case get_value (iv_left i) of Some v \<Rightarrow> [v] | None \<Rightarrow> []) @ (case get_value (iv_right i) of Some v \<Rightarrow> [v] | None \<Rightarrow> [])"

definition range_values :: "int RangeCondition list \<Rightarrow> int list" where
  "range_values rs = concat (map (\<lambda>r. concat (map interval_ends (m_intervals r))) rs)"

lemma interval_group_values: "map (\<lambda>(c, op, v). v) (interval_group c i) = interval_ends i"
  by (simp add: interval_group_def interval_ends_def split: option.split)

lemma limited_intervals: "list_all limited is \<Longrightarrow> integer_intervals (\<lambda>v. v) is = is"
  by (induction "is") (simp_all add: limited_def integer_interval_same)

lemma range_pointer_limited: "list_all limited (m_intervals r) \<Longrightarrow> range_pointer r = Range_On (m_intervals r)"
  by (simp add: range_pointer_def get_integer_intervals_def limited_intervals)

lemma accepts_range:
  "item_condition item = Range_On (m_intervals r) \<Longrightarrow>
   item_accepts row item \<longleftrightarrow>
     (case row_integer row (column_name (column_info item)) of Some x \<Rightarrow> is_in_range_value r x | None \<Rightarrow> False)"
  by (simp add: item_accepts_def is_in_range_value_def split: option.split)

lemma readable_on:
  assumes "conditions_of rs items" "readable rs"
  shows "list_all2 (\<lambda>item r. item_condition item = Range_On (m_intervals r)) items rs"
  using assms unfolding conditions_of_def readable_def
  by (auto simp: list_all2_conv_all_nth list_all_length range_pointer_limited)

lemma readable_values:
  assumes "conditions_of rs items" "readable rs"
  shows "where_values (where_of items) = range_values rs"
proof -
  have one: "map (\<lambda>(c, op, v). v) (concat (item_groups item)) = concat (map interval_ends (m_intervals r))"
    if "item_condition item = Range_On (m_intervals r)" "list_all limited (m_intervals r)" for item r
    unfolding item_groups_limited [OF that] by (simp add: map_concat comp_def interval_group_values)
  have "list_all (\<lambda>r. list_all limited (m_intervals r)) rs"
    using assms(2) by (simp add: readable_def)
  with readable_on [OF assms] have "map (\<lambda>item. map (\<lambda>(c, op, v). v) (concat (item_groups item))) items =
      map (\<lambda>r. concat (map interval_ends (m_intervals r))) rs"
    by (induction items rs rule: list_all2_induct) (simp_all add: one)
  then show ?thesis
    unfolding where_values_def concat_where_of range_values_def by (simp add: map_concat comp_def)
qed

lemma readable_selects:
  assumes "list_all (item_ok table) items" "conditions_of rs items" "readable rs"
  shows "where_holds (where_of items) row \<longleftrightarrow> in_ranges row items rs"
proof -
  note on = readable_on [OF assms(2,3)]
  then have accepts: "list_all (item_accepts row) items \<longleftrightarrow> in_ranges row items rs"
    by (simp add: list_all2_conv_all_nth list_all_length in_ranges_def accepts_range)
  show ?thesis
  proof (cases "list_all (\<lambda>r. length (m_intervals r) = 1) rs")
    case True
    have "list_all point_item items"
      unfolding list_all_length
    proof (intro allI impI)
      fix n assume n: "n < length items"
      then have r: "item_condition (items ! n) = Range_On (m_intervals (rs ! n))" "rs ! n \<in> set rs"
        using on by (auto simp: list_all2_conv_all_nth)
      then obtain i where "m_intervals (rs ! n) = [i]" "limited i"
        using True assms(3) by (fastforce simp: list_all_iff readable_def length_Suc_conv)
      with r(1) show "point_item (items ! n)" by (auto simp: point_item_def)
    qed
    from point_items_select [OF this] accepts show ?thesis by simp
  next
    case False
    then obtain r where "rs = [r]"
      using assms(3) by (cases rs; cases "tl rs") (auto simp: readable_def)
    moreover from this on obtain item where "items = [item]" "item_condition item = Range_On (m_intervals r)"
      by (auto simp: list_all2_Cons2)
    ultimately show ?thesis
      using item_selects [of item "m_intervals r" row] assms(1,3) accepts
      by (cases "m_intervals r") (auto simp: item_ok_def item_groups_def readable_def)
  qed
qed


text \<open>Conditions on the columns \<open>a\<close> and \<open>b\<close>.\<close>

definition demo_column :: "int \<Rightarrow> string \<Rightarrow> SqlColumnItem" where
  "demo_column i name = (new_column Int64)\<lparr>column_index := i, column_name := name\<rparr>"

definition demo_item :: "SqlColumnItem \<Rightarrow> int RangeCondition \<Rightarrow> SqlConditionItem" where
  "demo_item c r = \<lparr>is_set = True, column_info = c, item_condition = range_pointer r, is_desc_order = None\<rparr>"

definition demo_table :: SqlTableItem where
  "demo_table = \<lparr>table_name = ''t'', column_items = [demo_column 0 ''a'', demo_column 1 ''b''], table_is_unique = True\<rparr>"

definition demo_row :: "int \<Rightarrow> int \<Rightarrow> row" where
  "demo_row a b = [(''a'', Integer_Value (word_of_int a)), (''b'', Integer_Value (word_of_int b))]"

lemmas demo_simps = demo_column_def new_column_def demo_item_def demo_table_def demo_row_def

lemma limited_point: "limited (point_interval v)"
  by (simp add: limited_def point_interval_wf)

lemma item_groups_point:
  "item_groups (demo_item (demo_column i c) (range_of_value v)) = [[(c, Greater_Equal, v), (c, Lesser_Equal, v)]]"
  by (simp add: item_groups_def demo_item_def demo_column_def range_pointer_def get_integer_intervals_def range_of_value_def
      integer_interval_same point_interval_wf interval_group_def get_value_def is_open_def)



end
