(* ===== verification/Sqlite.thy ===== *)
theory Sqlite
  imports Sql_Meaning
begin

text \<open>
  What the program relies on of SQLite, which is a library outside of it: the functions of its
  interface that the driver calls, as a parameter on the states of the library, and what the documentation
  says of them. The effect of the statements of SQL on a database is given by \<open>effect\<close>; a table is
  typed by its declared columns and its rows are kept in the order of insertion, but the order in
  which a query gives its rows is left open, as it is in SQL.
\<close>

section \<open>Databases\<close>

record db_table =
  tbl_columns :: "sql_column list"
  tbl_rows :: "row list"

type_synonym db = "string \<Rightarrow> db_table option"

definition row_get :: "row \<Rightarrow> string \<Rightarrow> SqlValue" where
  "row_get row c = (case map_of row c of Some v \<Rightarrow> v | None \<Rightarrow> Null_Value)"

definition row_set :: "(string \<times> SqlValue) list \<Rightarrow> row \<Rightarrow> row" where
  "row_set vals row = map (\<lambda>(c, v). (c, case map_of vals c of Some v' \<Rightarrow> v' | None \<Rightarrow> v)) row"

text \<open>The key that an insertion without a key chooses: the largest one, plus one.\<close>

definition next_key :: "string \<Rightarrow> row list \<Rightarrow> int" where
  "next_key c rows = 1 + fold max (List.map_filter (\<lambda>row. row_integer row c) rows) 0"

definition new_row :: "db_table \<Rightarrow> (string \<times> SqlValue) list \<Rightarrow> row" where
  "new_row T vals =
     map (\<lambda>c. (col_name c,
        case map_of vals (col_name c) of
          Some v \<Rightarrow> v
        | None \<Rightarrow> if col_primary c then Integer_Value (word_of_int (next_key (col_name c) (tbl_rows T))) else Null_Value))
       (tbl_columns T)"

definition row_allowed :: "db_table \<Rightarrow> row \<Rightarrow> bool" where
  "row_allowed T row \<longleftrightarrow>
     list_all (\<lambda>c. (col_not_null c \<longrightarrow> row_get row (col_name c) \<noteq> Null_Value) \<and>
                   (col_unique c \<or> col_primary c \<longrightarrow>
                      list_all (\<lambda>row'. row_get row' (col_name c) \<noteq> row_get row (col_name c)) (tbl_rows T)))
       (tbl_columns T)"

text \<open>The rows that a statement gives and the database behind it; \<open>None\<close> is an error of the library.\<close>

fun effect :: "sql_statement \<Rightarrow> db \<Rightarrow> (SqlValue list list \<times> db) option" where
  "effect (Create_Table t once cols) db =
     (case db t of
        None \<Rightarrow> Some ([], db(t \<mapsto> \<lparr>tbl_columns = cols, tbl_rows = []\<rparr>))
      | Some _ \<Rightarrow> if once then Some ([], db) else None)"
| "effect (Insert_Into t vals) db =
     do {
       T \<leftarrow> db t;
       (if row_allowed T (new_row T vals) then Some ([], db(t \<mapsto> T\<lparr>tbl_rows := tbl_rows T @ [new_row T vals]\<rparr>)) else None)
     }"
| "effect (Select_From cols t w) db =
     do { T \<leftarrow> db t; Some (map (\<lambda>row. map (row_get row) cols) (filter (where_holds w) (tbl_rows T)), db) }"
| "effect (Count_From t w) db =
     do { T \<leftarrow> db t; Some ([[Integer_Value (of_nat (length (filter (where_holds w) (tbl_rows T))))]], db) }"
| "effect (Update_Set t vals w) db =
     do {
       T \<leftarrow> db t;
       Some ([], db(t \<mapsto> T\<lparr>tbl_rows := map (\<lambda>row. if where_holds w row then row_set vals row else row) (tbl_rows T)\<rparr>))
     }"
| "effect (Delete_From t w) db =
     do { T \<leftarrow> db t; Some ([], db(t \<mapsto> T\<lparr>tbl_rows := filter (\<lambda>row. \<not> where_holds w row) (tbl_rows T)\<rparr>)) }"

fun column_names :: "sql_statement \<Rightarrow> string list" where
  "column_names (Select_From cols t w) = cols"
| "column_names (Count_From t w) = [''COUNT(*)'']"
| "column_names _ = []"

text \<open>Values of the storage class of a column, and tables with such values in every row.\<close>

definition fits :: "sql_column \<Rightarrow> SqlValue \<Rightarrow> bool" where
  "fits c v \<longleftrightarrow>
     (case v of Integer_Value _ \<Rightarrow> col_type c = ''INTEGER'' | Text_Value s \<Rightarrow> col_type c = ''TEXT'' \<and> CHR 0x00 \<notin> set s | _ \<Rightarrow> False)"

definition row_typed :: "sql_column list \<Rightarrow> row \<Rightarrow> bool" where
  "row_typed cols row \<longleftrightarrow> map fst row = map col_name cols \<and> list_all2 (\<lambda>c (n, v). fits c v) cols row"

definition table_typed :: "db_table \<Rightarrow> bool" where
  "table_typed T \<longleftrightarrow> distinct (map col_name (tbl_columns T)) \<and> list_all (row_typed (tbl_columns T)) (tbl_rows T)"

definition vals_fit :: "sql_column list \<Rightarrow> (string \<times> SqlValue) list \<Rightarrow> bool" where
  "vals_fit cols vals \<longleftrightarrow>
     distinct (map fst vals) \<and> (\<forall>(n, v) \<in> set vals. \<exists>c \<in> set cols. col_name c = n \<and> fits c v)"

definition where_fits :: "sql_column list \<Rightarrow> group list list \<Rightarrow> bool" where
  "where_fits cols w \<longleftrightarrow>
     (\<forall>(n, op, v) \<in> set (concat (concat w)).
        (\<exists>c \<in> set cols. col_name c = n \<and> col_type c = ''INTEGER'') \<and> - (2 ^ 63) \<le> v \<and> v < 2 ^ 63)"

text \<open>The statements whose effect is used: they speak of columns that exist and of values that fit them. A key is
  chosen only below the largest one, and keys are not changed.\<close>

fun statement_ok :: "sql_statement \<Rightarrow> db \<Rightarrow> bool" where
  "statement_ok (Create_Table t once cols) db \<longleftrightarrow> distinct (map col_name cols)"
| "statement_ok (Insert_Into t vals) db \<longleftrightarrow>
     (\<exists>T. db t = Some T \<and> table_typed T \<and> vals_fit (tbl_columns T) vals \<and>
        (\<forall>c \<in> set (tbl_columns T). col_name c \<notin> fst ` set vals \<longrightarrow>
           col_primary c \<and> col_type c = ''INTEGER'' \<and> next_key (col_name c) (tbl_rows T) < 2 ^ 63))"
| "statement_ok (Select_From cols t w) db \<longleftrightarrow>
     (\<exists>T. db t = Some T \<and> table_typed T \<and> set cols \<subseteq> set (map col_name (tbl_columns T)) \<and> where_fits (tbl_columns T) w)"
| "statement_ok (Count_From t w) db \<longleftrightarrow> (\<exists>T. db t = Some T \<and> table_typed T \<and> where_fits (tbl_columns T) w)"
| "statement_ok (Update_Set t vals w) db \<longleftrightarrow>
     (\<exists>T. db t = Some T \<and> table_typed T \<and> vals_fit (tbl_columns T) vals \<and> where_fits (tbl_columns T) w \<and>
        (\<forall>c \<in> set (tbl_columns T). col_primary c \<or> col_unique c \<longrightarrow> col_name c \<notin> fst ` set vals))"
| "statement_ok (Delete_From t w) db \<longleftrightarrow> (\<exists>T. db t = Some T \<and> table_typed T \<and> where_fits (tbl_columns T) w)"

section \<open>The functions of the library\<close>

text \<open>
  The functions that the driver calls, on the states \<open>'m\<close> of the library and the file system. A
  statement is a number, \<open>bind\<close> stands for \<open>sqlite3_bind_int\<close> and its siblings, and \<open>column\<close> for \<open>sqlite3_column_type\<close> and
  its siblings. \<open>sqlite3_open\<close> tells its return code and whether it has set the handle.
\<close>

abbreviation SQLITE_OK :: int where "SQLITE_OK \<equiv> 0"
abbreviation SQLITE_ROW :: int where "SQLITE_ROW \<equiv> 100"
abbreviation SQLITE_DONE :: int where "SQLITE_DONE \<equiv> 101"

record 'm sqlite3 =
  lib_parent_exists :: "string \<Rightarrow> 'm \<Rightarrow> bool"
  lib_create_parent :: "string \<Rightarrow> 'm \<Rightarrow> bool \<times> 'm"
  lib_open :: "string \<Rightarrow> 'm \<Rightarrow> int \<times> bool \<times> 'm"
  lib_prepare :: "string \<Rightarrow> 'm \<Rightarrow> int \<times> nat \<times> 'm"
  lib_bind :: "nat \<Rightarrow> int \<Rightarrow> SqlValue \<Rightarrow> 'm \<Rightarrow> int \<times> 'm"
  lib_reset :: "nat \<Rightarrow> 'm \<Rightarrow> 'm"
  lib_clear_bindings :: "nat \<Rightarrow> 'm \<Rightarrow> 'm"
  lib_step :: "nat \<Rightarrow> 'm \<Rightarrow> int \<times> 'm"
  lib_column_count :: "nat \<Rightarrow> 'm \<Rightarrow> nat"
  lib_column_name :: "nat \<Rightarrow> nat \<Rightarrow> 'm \<Rightarrow> string"
  lib_column :: "nat \<Rightarrow> nat \<Rightarrow> 'm \<Rightarrow> SqlValue"
  lib_finalize :: "nat \<Rightarrow> 'm \<Rightarrow> 'm"
  lib_close :: "'m \<Rightarrow> 'm"
  lib_widen :: "u32 \<Rightarrow> u64"

section \<open>What the documentation says\<close>

text \<open>A statement of the library: its text, the values bound to its parameters, and, while it runs, the rows from
  the current one on.\<close>

record stmt_view =
  sv_text :: string
  sv_params :: "SqlValue list"
  sv_rows :: "SqlValue list list option"

record lib_view =
  lv_db :: db
  lv_stmts :: "nat \<Rightarrow> stmt_view option"

definition param_count :: "string \<Rightarrow> nat" where
  "param_count text = length (filter (\<lambda>c. c = CHR ''?'') text)"

definition fresh_stmt :: "string \<Rightarrow> stmt_view" where
  "fresh_stmt text = \<lparr>sv_text = text, sv_params = replicate (param_count text) Null_Value, sv_rows = None\<rparr>"

definition set_stmt :: "nat \<Rightarrow> stmt_view \<Rightarrow> lib_view \<Rightarrow> lib_view" where
  "set_stmt h s v = v\<lparr>lv_stmts := (lv_stmts v)(h \<mapsto> s)\<rparr>"

text \<open>
  A statement is prepared when its text can be; a parameter is bound when the statement does not run; \<open>reset\<close> stops it
  and keeps its parameters; the first step of a statement runs it, every step goes to the next row.
  \<open>run\<close> is what the library does with a text and its parameters.
\<close>

definition steps_to :: "nat \<Rightarrow> SqlValue list list \<Rightarrow> stmt_view \<Rightarrow> lib_view \<Rightarrow> int \<times> lib_view" where
  "steps_to h rows s v = (if rows = [] then SQLITE_DONE else SQLITE_ROW, set_stmt h (s\<lparr>sv_rows := Some rows\<rparr>) v)"

definition sqlite_calls ::
  "'m sqlite3 \<Rightarrow> ('m \<Rightarrow> lib_view) \<Rightarrow> (string \<Rightarrow> db \<Rightarrow> bool) \<Rightarrow> (string \<Rightarrow> string list) \<Rightarrow>
   (string \<Rightarrow> SqlValue list \<Rightarrow> db \<Rightarrow> (SqlValue list list \<times> db) option) \<Rightarrow> bool" where
  "sqlite_calls lib view parses names run \<longleftrightarrow>
     (\<forall>m text. parses text (lv_db (view m)) \<longrightarrow>
        (\<exists>h m'. lib_prepare lib text m = (SQLITE_OK, h, m') \<and> lv_stmts (view m) h = None \<and>
                view m' = set_stmt h (fresh_stmt text) (view m))) \<and>
     (\<forall>m h s i x. lv_stmts (view m) h = Some s \<and> sv_rows s = None \<and> i < length (sv_params s) \<longrightarrow>
        (\<exists>m'. lib_bind lib h (int i + 1) x m = (SQLITE_OK, m') \<and>
              view m' = set_stmt h (s\<lparr>sv_params := (sv_params s)[i := x]\<rparr>) (view m))) \<and>
     (\<forall>m h s. lv_stmts (view m) h = Some s \<longrightarrow>
        view (lib_reset lib h m) = set_stmt h (s\<lparr>sv_rows := None\<rparr>) (view m)) \<and>
     (\<forall>m h s rows db'. lv_stmts (view m) h = Some s \<and> sv_rows s = None \<and>
         run (sv_text s) (sv_params s) (lv_db (view m)) = Some (rows, db') \<longrightarrow>
        (\<exists>m'. lib_step lib h m = (fst (steps_to h rows s (view m)), m') \<and>
              view m' = (snd (steps_to h rows s (view m)))\<lparr>lv_db := db'\<rparr>)) \<and>
     (\<forall>m h s. lv_stmts (view m) h = Some s \<and> sv_rows s = None \<and>
         run (sv_text s) (sv_params s) (lv_db (view m)) = None \<longrightarrow>
        (\<exists>rc m'. lib_step lib h m = (rc, m') \<and> rc \<noteq> SQLITE_DONE \<and> rc \<noteq> SQLITE_ROW \<and>
              view m' = set_stmt h (s\<lparr>sv_rows := Some []\<rparr>) (view m))) \<and>
     (\<forall>m h s r rows. lv_stmts (view m) h = Some s \<and> sv_rows s = Some (r # rows) \<longrightarrow>
        (\<exists>m'. lib_step lib h m = (fst (steps_to h rows s (view m)), m') \<and> view m' = snd (steps_to h rows s (view m)))) \<and>
     (\<forall>m h s. lv_stmts (view m) h = Some s \<longrightarrow> lib_column_count lib h m = length (names (sv_text s))) \<and>
     (\<forall>m h s i. lv_stmts (view m) h = Some s \<and> i < length (names (sv_text s)) \<longrightarrow>
        lib_column_name lib h i m = names (sv_text s) ! i) \<and>
     (\<forall>m h s r rows i. lv_stmts (view m) h = Some s \<and> sv_rows s = Some (r # rows) \<and> i < length r \<longrightarrow>
        lib_column lib h i m = r ! i)"

text \<open>The statements of a set are understood as SQL describes them.\<close>

definition sqlite_understands ::
  "(string \<Rightarrow> db \<Rightarrow> bool) \<Rightarrow> (string \<Rightarrow> string list) \<Rightarrow>
   (string \<Rightarrow> SqlValue list \<Rightarrow> db \<Rightarrow> (SqlValue list list \<times> db) option) \<Rightarrow> sql_statement set \<Rightarrow> bool" where
  "sqlite_understands parses names run S \<longleftrightarrow>
     (\<forall>s \<in> S. \<forall>db. statement_ok s db \<longrightarrow>
        parses (render s) db \<and> names (render s) = column_names s \<and>
        (case effect s db of
           None \<Rightarrow> run (render s) (params s) db = None
         | Some (rows, db') \<Rightarrow>
             \<exists>rows'. run (render s) (params s) db = Some (rows', db') \<and> mset rows' = mset rows))"

end
