(* ===== verification/Sqlite_Driver.thy ===== *)
theory Sqlite_Driver
  imports Sqlite
begin

text \<open>
  The driver over SQLite and the query objects, \<open>database/sqlite_driver\<close>, \<open>sql_query\<close>, \<open>sql_database\<close> and
  \<open>sql_database_manager\<close>.

  The library is a parameter, see \<open>Sqlite\<close>. A query holds its driver weakly; a driver that is gone is \<open>None\<close>. The
  exception of \<open>std::get\<close> is \<open>None\<close> of an outer option, and so is a query whose steps never end.
  Diagnostics are left out.
\<close>

section \<open>\<open>SqliteDriver\<close>\<close>

record SqliteDriver =
  m_db :: bool
  m_stmts :: "string \<Rightarrow> nat option"

record SqlConfig =
  database_name :: string
  path :: string
  user_name :: string
  user_password :: string

definition default_config :: SqlConfig where
  "default_config = \<lparr>database_name = ''default'', path = ''./database/default.db'', user_name = [], user_password = []\<rparr>"

definition new_driver :: SqliteDriver where
  "new_driver = \<lparr>m_db = False, m_stmts = Map.empty\<rparr>"

definition driver_connect :: "'m sqlite3 \<Rightarrow> SqlConfig \<Rightarrow> SqliteDriver \<Rightarrow> 'm \<Rightarrow> bool \<times> SqliteDriver \<times> 'm" where
  "driver_connect lib config d m =
     (if m_db d then (True, d, m)
      else case (if lib_parent_exists lib (path config) m then (True, m) else lib_create_parent lib (path config) m) of
             (created, m) \<Rightarrow>
               if \<not> created then (False, d, m)
               else case lib_open lib (path config) m of
                      (rc, handle, m) \<Rightarrow> (rc = SQLITE_OK, d\<lparr>m_db := handle\<rparr>, m))"

definition driver_prepare :: "'m sqlite3 \<Rightarrow> string \<Rightarrow> SqliteDriver \<Rightarrow> 'm \<Rightarrow> bool \<times> SqliteDriver \<times> 'm" where
  "driver_prepare lib sql d m =
     (if \<not> m_db d then (False, d, m)
      else if m_stmts d sql \<noteq> None then (True, d, m)
      else case lib_prepare lib sql m of
             (rc, select_stmt, m) \<Rightarrow>
               if rc \<noteq> SQLITE_OK then (False, d, m)
               else (True, d\<lparr>m_stmts := (m_stmts d)(sql \<mapsto> select_stmt)\<rparr>, m))"

text \<open>The value that is bound for a cell: its data must be the alternative of its type. A text ends at a zero.\<close>

definition c_str :: "string \<Rightarrow> string" where
  "c_str s = takeWhile (\<lambda>c. c \<noteq> CHR 0x00) s"

definition bound_value :: "(u32 \<Rightarrow> u64) \<Rightarrow> SqlCell \<Rightarrow> SqlValue option option" where
  "bound_value widen cell =
     (case (cell_type cell, cell_data cell) of
        (Int8, d) \<Rightarrow> (case d of Int8_Data w \<Rightarrow> Some (Some (Integer_Value (scast w))) | _ \<Rightarrow> None)
      | (UInt8, d) \<Rightarrow> (case d of UInt8_Data w \<Rightarrow> Some (Some (Integer_Value (ucast w))) | _ \<Rightarrow> None)
      | (Int16, d) \<Rightarrow> (case d of Int16_Data w \<Rightarrow> Some (Some (Integer_Value (scast w))) | _ \<Rightarrow> None)
      | (UInt16, d) \<Rightarrow> (case d of UInt16_Data w \<Rightarrow> Some (Some (Integer_Value (ucast w))) | _ \<Rightarrow> None)
      | (Int32, d) \<Rightarrow> (case d of Int32_Data w \<Rightarrow> Some (Some (Integer_Value (scast w))) | _ \<Rightarrow> None)
      | (UInt32, d) \<Rightarrow> (case d of UInt32_Data w \<Rightarrow> Some (Some (Integer_Value (ucast w))) | _ \<Rightarrow> None)
      | (Int64, d) \<Rightarrow> (case d of Int64_Data w \<Rightarrow> Some (Some (Integer_Value w)) | _ \<Rightarrow> None)
      | (UInt64, d) \<Rightarrow> (case d of UInt64_Data w \<Rightarrow> Some (Some (Integer_Value w)) | _ \<Rightarrow> None)
      | (Float, d) \<Rightarrow> (case d of Float_Data w \<Rightarrow> Some (Some (Real_Value (widen w))) | _ \<Rightarrow> None)
      | (Double, d) \<Rightarrow> (case d of Double_Data w \<Rightarrow> Some (Some (Real_Value w)) | _ \<Rightarrow> None)
      | (Bool, d) \<Rightarrow> (case d of Bool_Data b \<Rightarrow> Some (Some (Integer_Value (if b then 1 else 0))) | _ \<Rightarrow> None)
      | (String, d) \<Rightarrow> (case d of String_Data s \<Rightarrow> Some (Some (Text_Value (c_str s))) | _ \<Rightarrow> None)
      | (ByteArray, d) \<Rightarrow> (case d of Bytes_Data b \<Rightarrow> Some (Some (Blob_Value b)) | _ \<Rightarrow> None)
      | (Null, d) \<Rightarrow> Some (Some Null_Value)
      | _ \<Rightarrow> Some None)"

definition driver_bind ::
  "'m sqlite3 \<Rightarrow> string \<Rightarrow> int \<Rightarrow> SqlCell \<Rightarrow> SqliteDriver \<Rightarrow> 'm \<Rightarrow> (bool \<times> 'm) option" where
  "driver_bind lib sql index cell d m =
     (case m_stmts d sql of
        None \<Rightarrow> Some (False, m)
      | Some stmt \<Rightarrow>
          do {
            bound \<leftarrow> bound_value (lib_widen lib) cell;
            Some (case bound of
                    None \<Rightarrow> (False, m)
                  | Some v \<Rightarrow> (case lib_bind lib stmt index v m of (rc, m) \<Rightarrow> (rc = SQLITE_OK, m)))
          })"

definition driver_reset :: "'m sqlite3 \<Rightarrow> string \<Rightarrow> SqliteDriver \<Rightarrow> 'm \<Rightarrow> 'm" where
  "driver_reset lib sql d m = (case m_stmts d sql of None \<Rightarrow> m | Some stmt \<Rightarrow> lib_reset lib stmt m)"

definition driver_clear_bindings :: "'m sqlite3 \<Rightarrow> string \<Rightarrow> SqliteDriver \<Rightarrow> 'm \<Rightarrow> 'm" where
  "driver_clear_bindings lib sql d m = (case m_stmts d sql of None \<Rightarrow> m | Some stmt \<Rightarrow> lib_clear_bindings lib stmt m)"

fun cell_of :: "string \<Rightarrow> SqlValue \<Rightarrow> SqlCell" where
  "cell_of name (Integer_Value w) = \<lparr>cell_type = Int64, cell_data = Int64_Data w, cell_column = name\<rparr>"
| "cell_of name (Real_Value w) = \<lparr>cell_type = Double, cell_data = Double_Data w, cell_column = name\<rparr>"
| "cell_of name (Text_Value s) = \<lparr>cell_type = String, cell_data = String_Data (c_str s), cell_column = name\<rparr>"
| "cell_of name (Blob_Value b) = \<lparr>cell_type = ByteArray, cell_data = Bytes_Data b, cell_column = name\<rparr>"
| "cell_of name Null_Value = \<lparr>cell_type = Null, cell_data = Null_Data, cell_column = name\<rparr>"

definition read_row :: "'m sqlite3 \<Rightarrow> nat \<Rightarrow> nat \<Rightarrow> 'm \<Rightarrow> SqlCell list" where
  "read_row lib col_count stmt m =
     map (\<lambda>i. cell_of (lib_column_name lib stmt i m) (lib_column lib stmt i m)) [0..<col_count]"

partial_function (option) query_loop ::
  "'m sqlite3 \<Rightarrow> nat \<Rightarrow> nat \<Rightarrow> 'm \<Rightarrow> SqlCell list list \<Rightarrow> (SqlCell list list \<times> 'm) option" where
  "query_loop lib col_count stmt m result =
     (case lib_step lib stmt m of
        (rc, m) \<Rightarrow>
          if rc \<noteq> SQLITE_ROW then Some (result, m)
          else query_loop lib col_count stmt m (result @ [read_row lib col_count stmt m]))"

definition driver_execute_query ::
  "'m sqlite3 \<Rightarrow> string \<Rightarrow> SqliteDriver \<Rightarrow> 'm \<Rightarrow> (SqlCell list list \<times> 'm) option" where
  "driver_execute_query lib sql d m =
     (case m_stmts d sql of
        None \<Rightarrow> Some ([], m)
      | Some stmt \<Rightarrow> query_loop lib (lib_column_count lib stmt m) stmt m [])"

definition driver_execute_command :: "'m sqlite3 \<Rightarrow> string \<Rightarrow> SqliteDriver \<Rightarrow> 'm \<Rightarrow> bool \<times> 'm" where
  "driver_execute_command lib sql d m =
     (case m_stmts d sql of
        None \<Rightarrow> (False, m)
      | Some stmt \<Rightarrow> (case lib_step lib stmt m of (rc, m) \<Rightarrow> (rc = SQLITE_DONE, m)))"

text \<open>The connection is closed before the statements are finalized; \<open>stmts\<close> are the statements in some order.\<close>

definition driver_close :: "'m sqlite3 \<Rightarrow> nat list \<Rightarrow> SqliteDriver \<Rightarrow> 'm \<Rightarrow> SqliteDriver \<times> 'm" where
  "driver_close lib stmts d m =
     (let (d, m) = (if m_db d then (d\<lparr>m_db := False\<rparr>, lib_close lib m) else (d, m))
      in (d\<lparr>m_stmts := Map.empty\<rparr>, fold (lib_finalize lib) stmts m))"

section \<open>\<open>SqlDatabase\<close> and its manager\<close>

record SqlDatabase =
  m_config :: SqlConfig
  m_driver :: "SqliteDriver option"

definition new_database :: "SqliteDriver option \<Rightarrow> SqlDatabase" where
  "new_database driver = \<lparr>m_config = default_config, m_driver = driver\<rparr>"

definition set_sql_config :: "SqlConfig \<Rightarrow> SqlDatabase \<Rightarrow> SqlDatabase" where
  "set_sql_config config s = s\<lparr>m_config := config\<rparr>"

definition database_connect :: "'m sqlite3 \<Rightarrow> SqlDatabase \<Rightarrow> 'm \<Rightarrow> bool \<times> SqlDatabase \<times> 'm" where
  "database_connect lib s m =
     (case m_driver s of
        None \<Rightarrow> (False, s, m)
      | Some d \<Rightarrow> (case driver_connect lib (m_config s) d m of (ok, d, m) \<Rightarrow> (ok, s\<lparr>m_driver := Some d\<rparr>, m)))"

definition get_driver :: "SqlDatabase \<Rightarrow> SqliteDriver option" where "get_driver s = m_driver s"

type_synonym SqlDatabaseManager = "string \<Rightarrow> SqlDatabase option"

definition get_database :: "string \<Rightarrow> SqlDatabaseManager \<Rightarrow> SqlDatabase option" where
  "get_database name databases = databases name"

definition add_database :: "string \<Rightarrow> SqliteDriver option \<Rightarrow> SqlDatabaseManager \<Rightarrow> SqlDatabaseManager" where
  "add_database name driver databases =
     (if databases name \<noteq> None then databases else databases(name \<mapsto> new_database driver))"

section \<open>\<open>SqlQuery\<close>\<close>

text \<open>A query works on the driver behind its weak pointer, which other queries of the database use too, and on the
  library; both are passed along.\<close>

record 'm sql_world =
  driver :: "SqliteDriver option"
  library :: 'm

record SqlQuery =
  m_sql :: string

definition query_prepare :: "'m sqlite3 \<Rightarrow> string \<Rightarrow> SqlQuery \<Rightarrow> 'm sql_world \<Rightarrow> SqlQuery \<times> 'm sql_world" where
  "query_prepare lib sql q w =
     (case driver w of
        None \<Rightarrow> (q, w)
      | Some d \<Rightarrow>
          (case driver_prepare lib sql d (library w) of
             (_, d, m) \<Rightarrow> (q\<lparr>m_sql := sql\<rparr>, w\<lparr>driver := Some d, library := m\<rparr>)))"

definition query_bind :: "'m sqlite3 \<Rightarrow> int \<Rightarrow> SqlCell \<Rightarrow> SqlQuery \<Rightarrow> 'm sql_world \<Rightarrow> 'm sql_world option" where
  "query_bind lib index cell q w =
     (case driver w of
        None \<Rightarrow> Some w
      | Some d \<Rightarrow> do { (_, m) \<leftarrow> driver_bind lib (m_sql q) index cell d (library w); Some (w\<lparr>library := m\<rparr>) })"

text \<open>\<open>bind\<close> of a plain value: the cell has the type of the value and no name.\<close>

definition query_bind_value :: "'m sqlite3 \<Rightarrow> int \<Rightarrow> cpp_type \<Rightarrow> CellData \<Rightarrow> SqlQuery \<Rightarrow> 'm sql_world \<Rightarrow> 'm sql_world option" where
  "query_bind_value lib index T v q w =
     query_bind lib index \<lparr>cell_type = get_data_type T, cell_data = v, cell_column = []\<rparr> q w"

definition query_clear_bindings :: "'m sqlite3 \<Rightarrow> SqlQuery \<Rightarrow> 'm sql_world \<Rightarrow> 'm sql_world" where
  "query_clear_bindings lib q w =
     (case driver w of None \<Rightarrow> w | Some d \<Rightarrow> w\<lparr>library := driver_clear_bindings lib (m_sql q) d (library w)\<rparr>)"

definition query_reset :: "'m sqlite3 \<Rightarrow> SqlQuery \<Rightarrow> 'm sql_world \<Rightarrow> 'm sql_world" where
  "query_reset lib q w =
     (case driver w of None \<Rightarrow> w | Some d \<Rightarrow> w\<lparr>library := driver_reset lib (m_sql q) d (library w)\<rparr>)"

definition query_execute_query :: "'m sqlite3 \<Rightarrow> SqlQuery \<Rightarrow> 'm sql_world \<Rightarrow> (SqlCell list list \<times> 'm sql_world) option" where
  "query_execute_query lib q w =
     (case driver w of
        None \<Rightarrow> Some ([], w)
      | Some d \<Rightarrow> do { (rows, m) \<leftarrow> driver_execute_query lib (m_sql q) d (library w); Some (rows, w\<lparr>library := m\<rparr>) })"

definition query_execute_command :: "'m sqlite3 \<Rightarrow> SqlQuery \<Rightarrow> 'm sql_world \<Rightarrow> bool \<times> 'm sql_world" where
  "query_execute_command lib q w =
     (case driver w of
        None \<Rightarrow> (False, w)
      | Some d \<Rightarrow> (case driver_execute_command lib (m_sql q) d (library w) of (ok, m) \<Rightarrow> (ok, w\<lparr>library := m\<rparr>)))"

section \<open>A query, call by call\<close>

text \<open>The statements that the driver keeps are statements of the library for their texts.\<close>

definition stmt_ok :: "string \<Rightarrow> stmt_view option \<Rightarrow> bool" where
  "stmt_ok sql st \<longleftrightarrow> (\<exists>s. st = Some s \<and> sv_text s = sql \<and> length (sv_params s) = param_count sql)"

definition world_ok :: "('m \<Rightarrow> lib_view) \<Rightarrow> 'm sql_world \<Rightarrow> bool" where
  "world_ok view w \<longleftrightarrow>
     (\<exists>d. driver w = Some d \<and> m_db d \<and>
        (\<forall>sql h. m_stmts d sql = Some h \<longrightarrow> stmt_ok sql (lv_stmts (view (library w)) h)))"

abbreviation db_of :: "('m \<Rightarrow> lib_view) \<Rightarrow> 'm sql_world \<Rightarrow> db" where
  "db_of view w \<equiv> lv_db (view (library w))"

text \<open>A statement that is prepared, does not run, and has values bound to its first parameters.\<close>

definition ready :: "('m \<Rightarrow> lib_view) \<Rightarrow> string \<Rightarrow> SqlValue list \<Rightarrow> 'm sql_world \<Rightarrow> bool" where
  "ready view sql ps w \<longleftrightarrow>
     world_ok view w \<and>
     (\<exists>d h s. driver w = Some d \<and> m_stmts d sql = Some h \<and> lv_stmts (view (library w)) h = Some s \<and>
        sv_rows s = None \<and> take (length ps) (sv_params s) = ps)"

lemma sqlite_callsD:
  assumes "sqlite_calls lib view parses names run"
  shows "parses text (lv_db (view m)) \<Longrightarrow>
      \<exists>h m'. lib_prepare lib text m = (SQLITE_OK, h, m') \<and> lv_stmts (view m) h = None \<and>
        view m' = set_stmt h (fresh_stmt text) (view m)"
    and "lv_stmts (view m) h = Some s \<Longrightarrow> sv_rows s = None \<Longrightarrow> i < length (sv_params s) \<Longrightarrow>
      \<exists>m'. lib_bind lib h (int i + 1) x m = (SQLITE_OK, m') \<and>
        view m' = set_stmt h (s\<lparr>sv_params := (sv_params s)[i := x]\<rparr>) (view m)"
    and "lv_stmts (view m) h = Some s \<Longrightarrow> view (lib_reset lib h m) = set_stmt h (s\<lparr>sv_rows := None\<rparr>) (view m)"
    and "lv_stmts (view m) h = Some s \<Longrightarrow> sv_rows s = None \<Longrightarrow>
      run (sv_text s) (sv_params s) (lv_db (view m)) = Some (rows, db') \<Longrightarrow>
      \<exists>m'. lib_step lib h m = (fst (steps_to h rows s (view m)), m') \<and>
        view m' = (snd (steps_to h rows s (view m)))\<lparr>lv_db := db'\<rparr>"
    and "lv_stmts (view m) h = Some s \<Longrightarrow> sv_rows s = None \<Longrightarrow>
      run (sv_text s) (sv_params s) (lv_db (view m)) = None \<Longrightarrow>
      \<exists>rc m'. lib_step lib h m = (rc, m') \<and> rc \<noteq> SQLITE_DONE \<and> rc \<noteq> SQLITE_ROW \<and>
        view m' = set_stmt h (s\<lparr>sv_rows := Some []\<rparr>) (view m)"
    and "lv_stmts (view m) h = Some s \<Longrightarrow> sv_rows s = Some (r # rows) \<Longrightarrow>
      \<exists>m'. lib_step lib h m = (fst (steps_to h rows s (view m)), m') \<and> view m' = snd (steps_to h rows s (view m))"
    and "lv_stmts (view m) h = Some s \<Longrightarrow> lib_column_count lib h m = length (names (sv_text s))"
    and "lv_stmts (view m) h = Some s \<Longrightarrow> i < length (names (sv_text s)) \<Longrightarrow>
      lib_column_name lib h i m = names (sv_text s) ! i"
    and "lv_stmts (view m) h = Some s \<Longrightarrow> sv_rows s = Some (r # rows) \<Longrightarrow> i < length r \<Longrightarrow> lib_column lib h i m = r ! i"
  using assms unfolding sqlite_calls_def by meson+

lemma set_stmt_sel [simp]:
  "lv_stmts (set_stmt h s v) = (lv_stmts v)(h \<mapsto> s)" "lv_db (set_stmt h s v) = lv_db v"
  by (simp_all add: set_stmt_def)

lemma world_ok_stmt:
  assumes "world_ok view w" "driver w = Some d" "m_stmts d sql = Some h"
  shows "\<exists>s. lv_stmts (view (library w)) h = Some s \<and> sv_text s = sql \<and> length (sv_params s) = param_count sql"
  using assms by (fastforce simp: world_ok_def stmt_ok_def)

text \<open>A change of one statement that keeps its text.\<close>

lemma world_ok_set:
  assumes "world_ok view w" "driver w = Some d" "m_stmts d sql = Some h"
    and "lv_stmts (view m') = (lv_stmts (view (library w)))(h \<mapsto> s)" "sv_text s = sql" "length (sv_params s) = param_count sql"
  shows "world_ok view (w\<lparr>library := m'\<rparr>)"
proof -
  have "sql' = sql" if "m_stmts d sql' = Some h" for sql'
    using world_ok_stmt [OF assms(1,2) that] world_ok_stmt [OF assms(1-3)] by auto
  then have "stmt_ok sql' (lv_stmts (view m') h')" if "m_stmts d sql' = Some h'" for sql' h'
    using that assms(4-6) world_ok_stmt [OF assms(1,2) that] by (cases "h' = h") (auto simp: stmt_ok_def)
  then show ?thesis
    using assms(1,2) unfolding world_ok_def by auto
qed

lemma prepare_ready:
  assumes calls: "sqlite_calls lib view parses names run" and "world_ok view w" "parses sql (db_of view w)"
    and "query_prepare lib sql q w = (q', w')"
  shows "m_sql q' = sql \<and> ready view sql [] (query_reset lib q' w') \<and> db_of view (query_reset lib q' w') = db_of view w"
proof -
  obtain d where d: "driver w = Some d" "m_db d"
    "\<And>sql h. m_stmts d sql = Some h \<Longrightarrow> stmt_ok sql (lv_stmts (view (library w)) h)"
    using assms(2) by (auto simp: world_ok_def)
  have p: "m_sql q' = sql \<and> world_ok view w' \<and> db_of view w' = db_of view w \<and>
      (\<exists>d h. driver w' = Some d \<and> m_stmts d sql = Some h)"
  proof (cases "m_stmts d sql")
    case None
    obtain h m' where h: "lib_prepare lib sql (library w) = (SQLITE_OK, h, m')" "lv_stmts (view (library w)) h = None"
      "view m' = set_stmt h (fresh_stmt sql) (view (library w))"
      using sqlite_callsD(1) [OF calls assms(3)] by blast
    let ?d = "d\<lparr>m_stmts := (m_stmts d)(sql \<mapsto> h)\<rparr>"
    have "stmt_ok sql' (lv_stmts (view m') h')" if "m_stmts ?d sql' = Some h'" for sql' h'
      using that d(3) [of sql' h'] h by (auto simp: stmt_ok_def fresh_stmt_def split: if_splits)
    with None d assms(4) h show ?thesis
      by (auto simp: query_prepare_def driver_prepare_def world_ok_def)
  next
    case (Some h)
    have "w\<lparr>driver := Some d, library := library w\<rparr> = w" using d(1) by simp
    with Some d assms(2,4) show ?thesis
      by (auto simp: query_prepare_def driver_prepare_def)
  qed
  then obtain d h where dh: "driver w' = Some d" "m_stmts d sql = Some h" "m_sql q' = sql" "world_ok view w'" by blast
  obtain s where s: "lv_stmts (view (library w')) h = Some s" "sv_text s = sql" "length (sv_params s) = param_count sql"
    using world_ok_stmt [OF dh(4,1,2)] by blast
  have r: "view (lib_reset lib h (library w')) = set_stmt h (s\<lparr>sv_rows := None\<rparr>) (view (library w'))"
    by (rule sqlite_callsD(3) [OF calls s(1)])
  have "query_reset lib q' w' = w'\<lparr>library := lib_reset lib h (library w')\<rparr>"
    using dh by (simp add: query_reset_def driver_reset_def)
  moreover have "world_ok view (w'\<lparr>library := lib_reset lib h (library w')\<rparr>)"
    by (rule world_ok_set [OF dh(4,1,2), where s = "s\<lparr>sv_rows := None\<rparr>"]) (use r s in simp_all)
  ultimately show ?thesis
    using dh s r p by (auto simp: ready_def)
qed

lemma bind_ready:
  assumes calls: "sqlite_calls lib view parses names run" and "ready view sql ps w" "m_sql q = sql"
    and "bound_value (lib_widen lib) cell = Some (Some v)" "length ps < param_count sql"
  shows "\<exists>w'. query_bind lib (int (length ps) + 1) cell q w = Some w' \<and> ready view sql (ps @ [v]) w' \<and>
    db_of view w' = db_of view w"
proof -
  obtain d h s where s: "driver w = Some d" "m_stmts d sql = Some h" "lv_stmts (view (library w)) h = Some s"
    "sv_rows s = None" "take (length ps) (sv_params s) = ps" and ok: "world_ok view w"
    using assms(2) by (auto simp: ready_def)
  have len: "length (sv_params s) = param_count sql" "sv_text s = sql"
    using world_ok_stmt [OF ok s(1,2)] s(3) by auto
  obtain m' where m': "lib_bind lib h (int (length ps) + 1) v (library w) = (SQLITE_OK, m')"
    "view m' = set_stmt h (s\<lparr>sv_params := (sv_params s)[length ps := v]\<rparr>) (view (library w))"
    using sqlite_callsD(2) [OF calls s(3,4)] len assms(5) by metis
  have "query_bind lib (int (length ps) + 1) cell q w = Some (w\<lparr>library := m'\<rparr>)"
    using s assms(3,4) m'(1) by (simp add: query_bind_def driver_bind_def)
  moreover have "world_ok view (w\<lparr>library := m'\<rparr>)"
    by (rule world_ok_set [OF ok s(1,2), where s = "s\<lparr>sv_params := (sv_params s)[length ps := v]\<rparr>"]) (use m' len in simp_all)
  moreover have "take (Suc (length ps)) ((sv_params s)[length ps := v]) = ps @ [v]"
    using s(5) len assms(5) by (simp add: take_Suc_conv_app_nth take_update_cancel)
  ultimately show ?thesis
    using s m' by (auto simp: ready_def)
qed

lemma readyD:
  assumes "ready view sql ps w" "length ps = param_count sql"
  shows "\<exists>d h s. driver w = Some d \<and> m_stmts d sql = Some h \<and> lv_stmts (view (library w)) h = Some s \<and>
    sv_rows s = None \<and> sv_text s = sql \<and> sv_params s = ps"
proof -
  obtain d h s where s: "driver w = Some d" "m_stmts d sql = Some h" "lv_stmts (view (library w)) h = Some s"
    "sv_rows s = None" "take (length ps) (sv_params s) = ps" and ok: "world_ok view w"
    using assms(1) by (auto simp: ready_def)
  moreover have "length (sv_params s) = param_count sql" "sv_text s = sql"
    using world_ok_stmt [OF ok s(1,2)] s(3) by auto
  ultimately show ?thesis using assms(2) by auto
qed

text \<open>A command succeeds when it gives no rows; its effect stays also when it gives some.\<close>

lemma execute_command:
  assumes calls: "sqlite_calls lib view parses names run" and "ready view sql ps w" "m_sql q = sql"
    and "length ps = param_count sql"
  shows "\<exists>w'. query_execute_command lib q w =
      ((case run sql ps (db_of view w) of Some (rows, db') \<Rightarrow> rows = [] | None \<Rightarrow> False), w') \<and> world_ok view w' \<and>
    db_of view w' = (case run sql ps (db_of view w) of Some (rows, db') \<Rightarrow> db' | None \<Rightarrow> db_of view w)"
proof -
  have ok: "world_ok view w" using assms(2) by (simp add: ready_def)
  obtain d h s where s: "driver w = Some d" "m_stmts d sql = Some h" "lv_stmts (view (library w)) h = Some s"
    "sv_rows s = None" "sv_text s = sql" "sv_params s = ps"
    using readyD [OF assms(2,4)] by blast
  show ?thesis
  proof (cases "run sql ps (db_of view w)")
    case None
    obtain rc m' where m': "lib_step lib h (library w) = (rc, m')" "rc \<noteq> SQLITE_DONE"
      "view m' = set_stmt h (s\<lparr>sv_rows := Some []\<rparr>) (view (library w))"
      using sqlite_callsD(5) [OF calls s(3,4)] None s(5,6) by auto
    have "world_ok view (w\<lparr>library := m'\<rparr>)"
      by (rule world_ok_set [OF ok s(1,2), where s = "s\<lparr>sv_rows := Some []\<rparr>"]) (use m' s assms(4) in simp_all)
    with None s m' assms(3) show ?thesis
      by (simp add: query_execute_command_def driver_execute_command_def)
  next
    case (Some r)
    then obtain rows db' where r: "run sql ps (db_of view w) = Some (rows, db')" by (cases r) simp
    then obtain m' where m': "lib_step lib h (library w) = (fst (steps_to h rows s (view (library w))), m')"
      "view m' = (snd (steps_to h rows s (view (library w))))\<lparr>lv_db := db'\<rparr>"
      using sqlite_callsD(4) [OF calls s(3,4)] s(5,6) by blast
    have "world_ok view (w\<lparr>library := m'\<rparr>)"
      by (rule world_ok_set [OF ok s(1,2), where s = "s\<lparr>sv_rows := Some rows\<rparr>"])
        (use m' s assms(4) in \<open>simp_all add: steps_to_def\<close>)
    with r s m' assms(3) show ?thesis
      by (simp add: query_execute_command_def driver_execute_command_def steps_to_def)
  qed
qed

text \<open>The rows as the driver gives them.\<close>

definition cells_of :: "string list \<Rightarrow> SqlValue list \<Rightarrow> SqlCell list" where
  "cells_of ns r = map2 cell_of ns r"

lemma read_row_cells:
  assumes calls: "sqlite_calls lib view parses names run"
    and "lv_stmts (view m) h = Some s" "sv_rows s = Some (r # rows)" "length r = length (names (sv_text s))"
  shows "read_row lib (length (names (sv_text s))) h m = cells_of (names (sv_text s)) r"
  using sqlite_callsD(8) [OF calls assms(2)] sqlite_callsD(9) [OF calls assms(2,3)] assms(4)
  by (intro nth_equalityI) (simp_all add: read_row_def cells_of_def)

lemma query_loop_rows:
  assumes calls: "sqlite_calls lib view parses names run"
    and "lib_step lib h m = (if rows = [] then SQLITE_DONE else SQLITE_ROW, m')"
    and "lv_stmts (view m') h = Some s" "sv_rows s = Some rows" "n = length (names (sv_text s))"
    and "list_all (\<lambda>r. length r = n) rows"
  shows "\<exists>m''. query_loop lib n h m result = Some (result @ map (cells_of (names (sv_text s))) rows, m'') \<and>
    lv_db (view m'') = lv_db (view m') \<and>
    lv_stmts (view m'') = (lv_stmts (view m'))(h \<mapsto> s\<lparr>sv_rows := Some []\<rparr>)"
  using assms(2-)
proof (induction rows arbitrary: m m' s result)
  case Nil
  have "s\<lparr>sv_rows := Some []\<rparr> = s" using Nil by simp
  with Nil show ?case
    by (subst query_loop.simps) (auto simp: map_upd_triv)
next
  case (Cons r rows)
  obtain m2 where m2: "lib_step lib h m' = (fst (steps_to h rows s (view m')), m2)" "view m2 = snd (steps_to h rows s (view m'))"
    using sqlite_callsD(6) [OF calls Cons.prems(2,3)] by blast
  have "read_row lib n h m' = cells_of (names (sv_text s)) r"
    using read_row_cells [OF calls Cons.prems(2,3)] Cons.prems(4,5) by simp
  then have step: "query_loop lib n h m result = query_loop lib n h m' (result @ [cells_of (names (sv_text s)) r])"
    using Cons.prems by (subst query_loop.simps) simp
  have "\<exists>m''. query_loop lib n h m' (result @ [cells_of (names (sv_text s)) r]) =
      Some ((result @ [cells_of (names (sv_text s)) r]) @ map (cells_of (names (sv_text (s\<lparr>sv_rows := Some rows\<rparr>)))) rows, m'') \<and>
    lv_db (view m'') = lv_db (view m2) \<and>
    lv_stmts (view m'') = (lv_stmts (view m2))(h \<mapsto> s\<lparr>sv_rows := Some rows\<rparr>\<lparr>sv_rows := Some []\<rparr>)"
    by (rule Cons.IH) (use m2 Cons.prems in \<open>simp_all add: steps_to_def\<close>)
  then obtain m'' where m'': "query_loop lib n h m' (result @ [cells_of (names (sv_text s)) r]) =
      Some (result @ map (cells_of (names (sv_text s))) (r # rows), m'')" "lv_db (view m'') = lv_db (view m2)"
    "lv_stmts (view m'') = (lv_stmts (view m2))(h \<mapsto> s\<lparr>sv_rows := Some []\<rparr>)"
    by auto
  have "lv_stmts (view m'') = (lv_stmts (view m'))(h \<mapsto> s\<lparr>sv_rows := Some []\<rparr>)"
    unfolding m''(3) using m2(2) by (simp add: steps_to_def)
  with step m2 m'' show ?case by (intro exI [of _ m'']) (simp only: steps_to_def snd_conv set_stmt_sel)
qed

lemma execute_query:
  assumes calls: "sqlite_calls lib view parses names run" and "ready view sql ps w" "m_sql q = sql"
    and "length ps = param_count sql"
    and "run sql ps (db_of view w) = Some (rows, db')" "list_all (\<lambda>r. length r = length (names sql)) rows"
  shows "\<exists>w'. query_execute_query lib q w = Some (map (cells_of (names sql)) rows, w') \<and> world_ok view w' \<and>
    db_of view w' = db'"
proof -
  have ok: "world_ok view w" using assms(2) by (simp add: ready_def)
  obtain d h s where s: "driver w = Some d" "m_stmts d sql = Some h" "lv_stmts (view (library w)) h = Some s"
    "sv_rows s = None" "sv_text s = sql" "sv_params s = ps"
    using readyD [OF assms(2,4)] by blast
  obtain m' where m': "lib_step lib h (library w) = (fst (steps_to h rows s (view (library w))), m')"
      "view m' = (snd (steps_to h rows s (view (library w))))\<lparr>lv_db := db'\<rparr>"
    using sqlite_callsD(4) [OF calls s(3,4)] s(5,6) assms(5) by blast
  have "\<exists>m''. query_loop lib (length (names sql)) h (library w) [] =
      Some ([] @ map (cells_of (names (sv_text (s\<lparr>sv_rows := Some rows\<rparr>)))) rows, m'') \<and>
    lv_db (view m'') = lv_db (view m') \<and>
    lv_stmts (view m'') = (lv_stmts (view m'))(h \<mapsto> s\<lparr>sv_rows := Some rows\<rparr>\<lparr>sv_rows := Some []\<rparr>)"
    by (rule query_loop_rows [OF calls]) (use m' s assms(6) in \<open>simp_all add: steps_to_def\<close>)
  then obtain m'' where m'': "query_loop lib (length (names sql)) h (library w) [] = Some (map (cells_of (names sql)) rows, m'')"
    "lv_db (view m'') = db'" "lv_stmts (view m'') = (lv_stmts (view (library w)))(h \<mapsto> s\<lparr>sv_rows := Some []\<rparr>)"
    using m' s(5) by (auto simp: steps_to_def)
  have "world_ok view (w\<lparr>library := m''\<rparr>)"
    by (rule world_ok_set [OF ok s(1,2), where s = "s\<lparr>sv_rows := Some []\<rparr>"]) (use m'' s assms(4) in simp_all)
  with m'' s assms(3) show ?thesis
    by (simp add: query_execute_query_def driver_execute_query_def sqlite_callsD(7) [OF calls s(3)])
qed

end
