(* ===== verification/Table_Query.thy ===== *)
theory Table_Query
  imports Sqlite_Driver
begin

text \<open>
  Queries on one table, \<open>database/sql_table_query\<close>: the text comes from the builder, the values of the cells and the
  ends of the intervals are bound to its parameters, and the statement is executed. A dereferenced null
  pointer, an exception and a query without end are \<open>None\<close>.
\<close>

section \<open>State\<close>

record SqlTableQuery =
  tq_table_info :: "SqlTableItem option"
  tq_builder :: SqlBuilder
  tq_query :: "SqlQuery option"

definition new_table_query :: SqlTableQuery where
  "new_table_query = \<lparr>tq_table_info = None, tq_builder = new_builder, tq_query = None\<rparr>"

definition table_query_of :: "SqlSignConfig option \<Rightarrow> SqlTableItem option \<Rightarrow> SqlQuery option \<Rightarrow> SqlTableQuery" where
  "table_query_of stringify table_info query =
     \<lparr>tq_table_info = table_info, tq_builder = builder_of table_info stringify, tq_query = query\<rparr>"

definition tq_set_stringify :: "SqlSignConfig option \<Rightarrow> SqlTableQuery \<Rightarrow> SqlTableQuery" where
  "tq_set_stringify stringify t = t\<lparr>tq_builder := builder_set_stringify stringify (tq_builder t)\<rparr>"

definition tq_set_table_info :: "SqlTableItem option \<Rightarrow> SqlTableQuery \<Rightarrow> SqlTableQuery" where
  "tq_set_table_info table_info t =
     t\<lparr>tq_table_info := table_info, tq_builder := builder_set_table_info table_info (tq_builder t)\<rparr>"

definition tq_set_query :: "SqlQuery option \<Rightarrow> SqlTableQuery \<Rightarrow> SqlTableQuery" where
  "tq_set_query query t = t\<lparr>tq_query := query\<rparr>"

section \<open>Binding\<close>

fun get_dest_columns :: "SqlTableItem \<Rightarrow> SqlCell list \<Rightarrow> SqlColumnItem list" where
  "get_dest_columns table [] = []"
| "get_dest_columns table (cell # cells) =
     (case get_column_info (cell_column cell) table of
        None \<Rightarrow> get_dest_columns table cells
      | Some column \<Rightarrow> column # get_dest_columns table cells)"

fun bind_cells ::
  "'m sqlite3 \<Rightarrow> SqlTableItem \<Rightarrow> SqlCell list \<Rightarrow> int \<Rightarrow> SqlQuery \<Rightarrow> 'm sql_world \<Rightarrow> (int \<times> 'm sql_world) option" where
  "bind_cells lib table [] param_index q w = Some (param_index, w)"
| "bind_cells lib table (cell # cells) param_index q w =
     (if \<not> has_column_name (cell_column cell) table then bind_cells lib table cells param_index q w
      else do {
        w \<leftarrow> query_bind lib param_index cell q w;
        bind_cells lib table cells (param_index + 1) q w
      })"

definition bind_end ::
  "'m sqlite3 \<Rightarrow> int EndpointRange \<Rightarrow> int \<Rightarrow> SqlQuery \<Rightarrow> 'm sql_world \<Rightarrow> (int \<times> 'm sql_world) option" where
  "bind_end lib ep param_index q w =
     (case get_value ep of
        None \<Rightarrow> Some (param_index, w)
      | Some v \<Rightarrow>
          do { w \<leftarrow> query_bind_value lib param_index T_int64 (Int64_Data (word_of_int v)) q w; Some (param_index + 1, w) })"

fun bind_intervals ::
  "'m sqlite3 \<Rightarrow> int SingleInterval list \<Rightarrow> int \<Rightarrow> SqlQuery \<Rightarrow> 'm sql_world \<Rightarrow> (int \<times> 'm sql_world) option" where
  "bind_intervals lib [] param_index q w = Some (param_index, w)"
| "bind_intervals lib (interval # intervals) param_index q w =
     do {
       (param_index, w) \<leftarrow> bind_end lib (iv_left interval) param_index q w;
       (param_index, w) \<leftarrow> bind_end lib (iv_right interval) param_index q w;
       bind_intervals lib intervals param_index q w
     }"

fun bind_conditions ::
  "'m sqlite3 \<Rightarrow> SqlTableItem \<Rightarrow> SqlConditionItem list \<Rightarrow> int \<Rightarrow> SqlQuery \<Rightarrow> 'm sql_world \<Rightarrow> (int \<times> 'm sql_world) option" where
  "bind_conditions lib table [] param_index q w = Some (param_index, w)"
| "bind_conditions lib table (condition # conditions) param_index q w =
     (if \<not> is_set condition then bind_conditions lib table conditions param_index q w
      else if \<not> has_column_name (column_name (column_info condition)) table
        then bind_conditions lib table conditions param_index q w
      else if item_condition condition = No_Condition then bind_conditions lib table conditions param_index q w
      else if is_integer_type (data_type (column_info condition)) then
        (case item_condition condition of
           Range_On intervals \<Rightarrow>
             do {
               (param_index, w) \<leftarrow> bind_intervals lib intervals param_index q w;
               bind_conditions lib table conditions param_index q w
             }
         | _ \<Rightarrow> None)
      else bind_conditions lib table conditions param_index q w)"

text \<open>\<open>prepare\<close> and \<open>reset\<close>, with which every operation starts.\<close>

definition start_statement :: "'m sqlite3 \<Rightarrow> string \<Rightarrow> SqlQuery \<Rightarrow> 'm sql_world \<Rightarrow> SqlQuery \<times> 'm sql_world" where
  "start_statement lib sql q w = (case query_prepare lib sql q w of (q, w) \<Rightarrow> (q, query_reset lib q w))"

section \<open>Operations\<close>

definition tq_create :: "'m sqlite3 \<Rightarrow> SqlTableQuery \<Rightarrow> 'm sql_world \<Rightarrow> (bool \<times> SqlTableQuery \<times> 'm sql_world) option" where
  "tq_create lib t w =
     (case (tq_table_info t, tq_query t) of
        (Some table, Some q) \<Rightarrow>
          do {
            sql \<leftarrow> build_create_table_string (tq_builder t);
            Some (case sql of
                    None \<Rightarrow> (False, t, w)
                  | Some sql \<Rightarrow>
                      (case start_statement lib sql q w of
                         (q, w) \<Rightarrow> (case query_execute_command lib q w of (ok, w) \<Rightarrow> (ok, t\<lparr>tq_query := Some q\<rparr>, w))))
          }
      | _ \<Rightarrow> Some (False, t, w))"

definition tq_update ::
  "'m sqlite3 \<Rightarrow> SqlCell list \<Rightarrow> SqlConditionItem list \<Rightarrow> SqlTableQuery \<Rightarrow> 'm sql_world \<Rightarrow>
   (bool \<times> SqlTableQuery \<times> 'm sql_world) option" where
  "tq_update lib cells conditions t w =
     (case (tq_table_info t, tq_query t) of
        (Some table, Some q) \<Rightarrow>
          do {
            sql \<leftarrow> build_update_string (tq_builder t) (get_dest_columns table cells) conditions False;
            case sql of
              None \<Rightarrow> Some (False, t, w)
            | Some sql \<Rightarrow>
                (case start_statement lib sql q w of
                   (q, w) \<Rightarrow>
                     do {
                       (param_index, w) \<leftarrow> bind_cells lib table cells 1 q w;
                       (param_index, w) \<leftarrow> bind_conditions lib table conditions param_index q w;
                       Some (case query_execute_command lib q w of (ok, w) \<Rightarrow> (ok, t\<lparr>tq_query := Some q\<rparr>, w))
                     })
          }
      | _ \<Rightarrow> Some (False, t, w))"

definition tq_insert ::
  "'m sqlite3 \<Rightarrow> SqlCell list \<Rightarrow> SqlTableQuery \<Rightarrow> 'm sql_world \<Rightarrow> (bool \<times> SqlTableQuery \<times> 'm sql_world) option" where
  "tq_insert lib cells t w =
     (case (tq_table_info t, tq_query t) of
        (Some table, Some q) \<Rightarrow>
          do {
            sql \<leftarrow> build_insert_string (tq_builder t) (get_dest_columns table cells);
            case sql of
              None \<Rightarrow> Some (False, t, w)
            | Some sql \<Rightarrow>
                (case start_statement lib sql q w of
                   (q, w) \<Rightarrow>
                     do {
                       (param_index, w) \<leftarrow> bind_cells lib table cells 1 q w;
                       Some (case query_execute_command lib q w of (ok, w) \<Rightarrow> (ok, t\<lparr>tq_query := Some q\<rparr>, w))
                     })
          }
      | _ \<Rightarrow> Some (False, t, w))"

definition tq_remove ::
  "'m sqlite3 \<Rightarrow> SqlConditionItem list \<Rightarrow> SqlTableQuery \<Rightarrow> 'm sql_world \<Rightarrow>
   (bool \<times> SqlTableQuery \<times> 'm sql_world) option" where
  "tq_remove lib conditions t w =
     (case (tq_table_info t, tq_query t) of
        (Some table, Some q) \<Rightarrow>
          do {
            sql \<leftarrow> build_delete_string (tq_builder t) conditions False;
            case sql of
              None \<Rightarrow> Some (False, t, w)
            | Some sql \<Rightarrow>
                (case start_statement lib sql q w of
                   (q, w) \<Rightarrow>
                     do {
                       (param_index, w) \<leftarrow> bind_conditions lib table conditions 1 q w;
                       Some (case query_execute_command lib q w of (ok, w) \<Rightarrow> (ok, t\<lparr>tq_query := Some q\<rparr>, w))
                     })
          }
      | _ \<Rightarrow> Some (False, t, w))"

definition tq_select ::
  "'m sqlite3 \<Rightarrow> SqlColumnItem list \<Rightarrow> SqlConditionItem list \<Rightarrow> SqlTableQuery \<Rightarrow> 'm sql_world \<Rightarrow>
   (SqlCell list list \<times> SqlTableQuery \<times> 'm sql_world) option" where
  "tq_select lib dest_columns conditions t w =
     (case (tq_table_info t, tq_query t) of
        (Some table, Some q) \<Rightarrow>
          do {
            sql \<leftarrow> build_select_string (tq_builder t) dest_columns conditions;
            case sql of
              None \<Rightarrow> Some ([], t, w)
            | Some sql \<Rightarrow>
                (case start_statement lib sql q w of
                   (q, w) \<Rightarrow>
                     do {
                       (param_index, w) \<leftarrow> bind_conditions lib table conditions 1 q w;
                       (data, w) \<leftarrow> query_execute_query lib q w;
                       Some (data, t\<lparr>tq_query := Some q\<rparr>, w)
                     })
          }
      | _ \<Rightarrow> Some ([], t, w))"

definition tq_count ::
  "'m sqlite3 \<Rightarrow> SqlConditionItem list \<Rightarrow> SqlTableQuery \<Rightarrow> 'm sql_world \<Rightarrow>
   (u64 \<times> SqlTableQuery \<times> 'm sql_world) option" where
  "tq_count lib conditions t w =
     (case (tq_table_info t, tq_query t) of
        (Some table, Some q) \<Rightarrow>
          do {
            sql \<leftarrow> build_count_string (tq_builder t) conditions;
            case sql of
              None \<Rightarrow> Some (0, t, w)
            | Some sql \<Rightarrow>
                (case start_statement lib sql q w of
                   (q, w) \<Rightarrow>
                     do {
                       (param_index, w) \<leftarrow> bind_conditions lib table conditions 1 q w;
                       (data, w) \<leftarrow> query_execute_query lib q w;
                       (case data of
                          [[cell]] \<Rightarrow> do { n \<leftarrow> get_int64 (cell_data cell); Some (n, t\<lparr>tq_query := Some q\<rparr>, w) }
                        | _ \<Rightarrow> Some (0, t\<lparr>tq_query := Some q\<rparr>, w))
                     })
          }
      | _ \<Rightarrow> Some (0, t, w))"

section \<open>Parameters of a text\<close>

definition plain :: "string \<Rightarrow> bool" where "plain s \<longleftrightarrow> CHR ''?'' \<notin> set s"

definition plain_where :: "group list list \<Rightarrow> bool" where
  "plain_where w \<longleftrightarrow> (\<forall>(c, op, v) \<in> set (concat (concat w)). plain c)"

fun plain_statement :: "sql_statement \<Rightarrow> bool" where
  "plain_statement (Create_Table t once cols) \<longleftrightarrow> plain t \<and> list_all (\<lambda>c. plain (col_name c) \<and> plain (col_type c)) cols"
| "plain_statement (Insert_Into t vals) \<longleftrightarrow> plain t \<and> list_all (\<lambda>p. plain (fst p)) vals"
| "plain_statement (Select_From cols t w) \<longleftrightarrow> plain t \<and> list_all plain cols \<and> plain_where w"
| "plain_statement (Count_From t w) \<longleftrightarrow> plain t \<and> plain_where w"
| "plain_statement (Update_Set t vals w) \<longleftrightarrow> plain t \<and> list_all (\<lambda>p. plain (fst p)) vals \<and> plain_where w"
| "plain_statement (Delete_From t w) \<longleftrightarrow> plain t \<and> plain_where w"

lemma param_count_simps [simp]:
  "param_count [] = 0" "param_count (c # s) = (if c = CHR ''?'' then Suc (param_count s) else param_count s)"
  "param_count (a @ b) = param_count a + param_count b"
  by (simp_all add: param_count_def)

lemma param_count_plain [simp]: "plain s \<Longrightarrow> param_count s = 0"
  by (auto simp: plain_def param_count_def filter_empty_conv)

lemma param_count_joined: "param_count sep = 0 \<Longrightarrow> param_count (joined sep xs) = sum_list (map param_count xs)"
  by (induction sep xs rule: joined.induct) simp_all

lemma sum_list_ones: "(\<And>x. x \<in> set xs \<Longrightarrow> f x = 1) \<Longrightarrow> sum_list (map f xs) = length xs"
  by (induction xs) simp_all

lemma param_count_comparison: "plain c \<Longrightarrow> param_count (render_comparison (c, op, v)) = 1"
  by (cases op) simp_all

lemma param_count_group:
  "(\<And>c op v. (c, op, v) \<in> set g \<Longrightarrow> plain c) \<Longrightarrow> param_count (render_group g) = length g"
  using sum_list_ones [of g "\<lambda>x. param_count (render_comparison x)"]
  by (simp add: render_group_def param_count_joined comp_def) (metis One_nat_def param_count_comparison prod_cases3)

lemma param_count_where: "plain_where w \<Longrightarrow> param_count (where_clause w) = length (where_values w)"
proof -
  have conj: "param_count (joined '' AND '' (map render_group gs)) = length (concat gs)"
    if "\<forall>(c, op, v) \<in> set (concat gs). plain c" for gs
    using that
  proof (induction gs)
    case (Cons g gs)
    have "param_count (render_group g) = length g" by (rule param_count_group) (use Cons.prems in auto)
    moreover have "param_count (joined '' AND '' (map render_group gs)) = length (concat gs)"
      by (rule Cons.IH) (use Cons.prems in auto)
    ultimately show ?case by (simp add: param_count_joined)
  qed simp
  have "plain_where w \<Longrightarrow> param_count (render_where w) = length (concat (concat w))"
  proof (induction w)
    case (Cons gs w)
    then have "plain_where w" "\<forall>(c, op, v) \<in> set (concat gs). plain c" by (auto simp: plain_where_def)
    with Cons.IH conj [of gs] show ?case by (simp add: render_where_def param_count_joined)
  qed (simp add: render_where_def)
  then show "plain_where w \<Longrightarrow> param_count (where_clause w) = length (where_values w)"
    by (simp add: where_clause_def where_values_def)
qed

lemma param_count_column: "plain (col_name c) \<Longrightarrow> plain (col_type c) \<Longrightarrow> param_count (render_column c) = 0"
  by (simp add: render_column_def)

lemma param_count_render: "plain_statement s \<Longrightarrow> param_count (render s) = length (params s)"
proof (cases s)
  case (Create_Table t once cols)
  moreover assume "plain_statement s"
  ultimately have "plain t" "sum_list (map (\<lambda>c. param_count (render_column c)) cols) = 0"
    by (auto simp: list_all_iff param_count_column sum_list_eq_0_iff)
  with Create_Table show ?thesis by (simp add: param_count_joined comp_def)
next
  case (Insert_Into t vals)
  moreover assume "plain_statement s"
  ultimately have "plain t" "sum_list (map (\<lambda>p. param_count (fst p)) vals) = 0"
    by (auto simp: list_all_iff sum_list_eq_0_iff)
  with Insert_Into sum_list_ones [of vals "\<lambda>_. 1"] show ?thesis by (simp add: param_count_joined comp_def)
next
  case (Select_From cols t w)
  moreover assume "plain_statement s"
  ultimately have "plain t" "plain_where w" "sum_list (map param_count cols) = 0"
    by (auto simp: list_all_iff sum_list_eq_0_iff)
  with Select_From show ?thesis by (simp add: param_count_joined param_count_where where_params_def)
next
  case (Update_Set t vals w)
  moreover assume "plain_statement s"
  ultimately have "plain t" "plain_where w" "\<And>p. p \<in> set vals \<Longrightarrow> param_count ((\<lambda>(c, v). c @ '' = ?'') p) = 1"
    by (auto simp: list_all_iff)
  with Update_Set sum_list_ones [of vals "\<lambda>p. param_count ((\<lambda>(c, v). c @ '' = ?'') p)"] show ?thesis
    by (simp add: param_count_joined param_count_where where_params_def comp_def)
qed (simp_all add: param_count_where where_params_def)

section \<open>The values that are bound\<close>

definition item_params :: "SqlConditionItem \<Rightarrow> SqlValue list" where
  "item_params item = map (\<lambda>(c, op, v). Integer_Value (word_of_int v)) (concat (item_groups item))"

lemma where_params_of: "where_params (where_of items) = concat (map item_params items)"
  by (simp add: where_params_def where_values_def concat_where_of item_params_def [abs_def] map_concat comp_def case_prod_beta')

text \<open>A result of binding: the parameters \<open>vs\<close> are bound behind those before, and the database has not changed.\<close>

definition binds ::
  "('m \<Rightarrow> lib_view) \<Rightarrow> string \<Rightarrow> db \<Rightarrow> SqlValue list \<Rightarrow> (int \<times> 'm sql_world) option \<Rightarrow> bool" where
  "binds view sql db ps r \<longleftrightarrow>
     (\<exists>w'. r = Some (int (length ps) + 1, w') \<and> ready view sql ps w' \<and> db_of view w' = db)"

lemma bindsI: "ready view sql ps w \<Longrightarrow> db_of view w = db \<Longrightarrow> binds view sql db ps (Some (int (length ps) + 1, w))"
  by (simp add: binds_def)

lemma bind_cells_ready:
  assumes calls: "sqlite_calls lib view parses names run"
    and "list_all2 (\<lambda>cell v. has_column_name (cell_column cell) table \<and> bound_value (lib_widen lib) cell = Some (Some v)) cells vs"
    and "ready view sql ps w" "m_sql q = sql" "length ps + length vs \<le> param_count sql"
  shows "binds view sql (db_of view w) (ps @ vs) (bind_cells lib table cells (int (length ps) + 1) q w)"
  using assms(2-)
proof (induction cells vs arbitrary: ps w rule: list_all2_induct)
  case (Cons cell cells v vs)
  obtain w' where w': "query_bind lib (int (length ps) + 1) cell q w = Some w'" "ready view sql (ps @ [v]) w'"
    "db_of view w' = db_of view w"
    using bind_ready [OF calls Cons.prems(1,2), of cell v] Cons by auto
  have "bind_cells lib table (cell # cells) (int (length ps) + 1) q w =
      bind_cells lib table cells (int (length (ps @ [v])) + 1) q w'"
    using w'(1) Cons.hyps by (simp add: add.commute)
  with Cons.IH [OF w'(2) Cons.prems(2)] Cons.prems(3) w'(3) show ?case by simp
qed (simp add: bindsI)

definition end_params :: "int EndpointRange \<Rightarrow> SqlValue list" where
  "end_params ep = (case get_value ep of None \<Rightarrow> [] | Some v \<Rightarrow> [Integer_Value (word_of_int v)])"

lemma bind_end_ready:
  assumes calls: "sqlite_calls lib view parses names run"
    and "ready view sql ps w" "m_sql q = sql" "length ps + length (end_params ep) \<le> param_count sql"
  shows "binds view sql (db_of view w) (ps @ end_params ep) (bind_end lib ep (int (length ps) + 1) q w)"
proof (cases "get_value ep")
  case None
  with assms show ?thesis by (simp add: bind_end_def end_params_def bindsI)
next
  case (Some v)
  let ?cell = "\<lparr>cell_type = get_data_type T_int64, cell_data = Int64_Data (word_of_int v), cell_column = []\<rparr>"
  have "bound_value (lib_widen lib) ?cell = Some (Some (Integer_Value (word_of_int v)))"
    by (simp add: bound_value_def get_data_type_def)
  from bind_ready [OF calls assms(2,3) this] assms(4) Some show ?thesis
    by (auto simp: bind_end_def end_params_def query_bind_value_def binds_def)
qed

lemma bind_intervals_ready:
  assumes calls: "sqlite_calls lib view parses names run"
    and "ready view sql ps w" "m_sql q = sql"
    and "length ps + length (concat (map (\<lambda>i. end_params (iv_left i) @ end_params (iv_right i)) is)) \<le> param_count sql"
  shows "binds view sql (db_of view w) (ps @ concat (map (\<lambda>i. end_params (iv_left i) @ end_params (iv_right i)) is))
    (bind_intervals lib is (int (length ps) + 1) q w)"
  using assms(2-)
proof (induction "is" arbitrary: ps w)
  case (Cons i "is")
  let ?l = "end_params (iv_left i)" and ?r = "end_params (iv_right i)"
  obtain w1 where w1: "bind_end lib (iv_left i) (int (length ps) + 1) q w = Some (int (length (ps @ ?l)) + 1, w1)"
    "ready view sql (ps @ ?l) w1" "db_of view w1 = db_of view w"
    using bind_end_ready [OF calls Cons.prems(1,2), of "iv_left i"] Cons.prems(3) by (auto simp: binds_def)
  obtain w2 where w2: "bind_end lib (iv_right i) (int (length (ps @ ?l)) + 1) q w1 = Some (int (length ((ps @ ?l) @ ?r)) + 1, w2)"
    "ready view sql ((ps @ ?l) @ ?r) w2" "db_of view w2 = db_of view w"
    using bind_end_ready [OF calls w1(2) Cons.prems(2), of "iv_right i"] Cons.prems(3) w1(3) by (auto simp: binds_def)
  have "bind_intervals lib (i # is) (int (length ps) + 1) q w = bind_intervals lib is (int (length ((ps @ ?l) @ ?r)) + 1) q w2"
    using w1(1) w2(1) by simp
  with Cons.IH [OF w2(2) Cons.prems(2)] Cons.prems(3) w2(3) show ?case by simp
qed (simp add: bindsI)

lemma item_params_ends:
  "item_condition item = Range_On is \<Longrightarrow>
   item_params item = concat (map (\<lambda>i. end_params (iv_left i) @ end_params (iv_right i)) is)"
proof -
  assume r: "item_condition item = Range_On is"
  have group: "map (\<lambda>(c, op, v). Integer_Value (word_of_int v)) (interval_group c i) =
      end_params (iv_left i) @ end_params (iv_right i)" for c i
    by (simp add: interval_group_def end_params_def split: option.split)
  have "concat (filter (\<lambda>g. g \<noteq> []) gs) = concat gs" for gs :: "group list"
    by (induction gs) simp_all
  then show ?thesis
    using r by (simp add: item_params_def item_groups_def map_concat comp_def group)
qed

lemma bind_conditions_ready:
  assumes calls: "sqlite_calls lib view parses names run"
    and "list_all (item_ok table) items"
    and "ready view sql ps w" "m_sql q = sql" "length ps + length (where_params (where_of items)) \<le> param_count sql"
  shows "binds view sql (db_of view w) (ps @ where_params (where_of items))
    (bind_conditions lib table items (int (length ps) + 1) q w)"
  using assms(2-) unfolding where_params_of
proof (induction items arbitrary: ps w)
  case (Cons item items)
  have item: "is_set item" "has_column_name (column_name (column_info item)) table" "is_integer_type (data_type (column_info item))"
    "item_groups item \<noteq> []"
    using Cons.prems(1) by (auto simp: item_ok_def has_column_name_def list_ex_iff)
  then obtain "is" where r: "item_condition item = Range_On is"
    by (cases "item_condition item") (simp_all add: item_groups_def)
  note ends = item_params_ends [OF r]
  obtain w1 where w1: "bind_intervals lib is (int (length ps) + 1) q w = Some (int (length (ps @ item_params item)) + 1, w1)"
    "ready view sql (ps @ item_params item) w1" "db_of view w1 = db_of view w"
    using bind_intervals_ready [OF calls Cons.prems(2,3), of "is"] Cons.prems(4) unfolding ends [symmetric]
    by (auto simp: binds_def)
  have "bind_conditions lib table (item # items) (int (length ps) + 1) q w =
      bind_conditions lib table items (int (length (ps @ item_params item)) + 1) q w1"
    using item r w1(1) by simp
  with Cons.IH [OF _ w1(2) Cons.prems(3)] Cons.prems w1(3) show ?case by simp
qed (simp add: bindsI)

section \<open>The effect of the operations\<close>

definition sqlite_ok ::
  "'m sqlite3 \<Rightarrow> ('m \<Rightarrow> lib_view) \<Rightarrow> (string \<Rightarrow> db \<Rightarrow> bool) \<Rightarrow> (string \<Rightarrow> string list) \<Rightarrow>
   (string \<Rightarrow> SqlValue list \<Rightarrow> db \<Rightarrow> (SqlValue list list \<times> db) option) \<Rightarrow> sql_statement set \<Rightarrow> bool" where
  "sqlite_ok lib view parses names run S \<longleftrightarrow> sqlite_calls lib view parses names run \<and> sqlite_understands parses names run S"

definition tq_ok :: "SqlTableItem \<Rightarrow> SqlTableQuery \<Rightarrow> bool" where
  "tq_ok table t \<longleftrightarrow>
     tq_table_info t = Some table \<and> builder_ok table (tq_builder t) \<and> table_ok table \<and> plain (table_name table) \<and>
     (\<forall>c \<in> set (column_items table). plain (column_name c)) \<and> tq_query t \<noteq> None"

definition effect_db :: "sql_statement \<Rightarrow> db \<Rightarrow> db" where
  "effect_db s db = (case effect s db of Some (rows, db') \<Rightarrow> db' | None \<Rightarrow> db)"

fun is_command :: "sql_statement \<Rightarrow> bool" where
  "is_command (Select_From cols t w) \<longleftrightarrow> False"
| "is_command (Count_From t w) \<longleftrightarrow> False"
| "is_command _ \<longleftrightarrow> True"

lemma effect_of_command: "is_command s \<Longrightarrow> effect s db = Some (rows, db') \<Longrightarrow> rows = []"
  by (cases s) (auto split: option.splits if_splits Option.bind_splits)

lemma understandsD:
  assumes "sqlite_understands parses names run S" "s \<in> S" "statement_ok s db"
  shows "parses (render s) db" "names (render s) = column_names s"
    "effect s db = None \<Longrightarrow> run (render s) (params s) db = None"
    "effect s db = Some (rows, db') \<Longrightarrow> \<exists>rows'. run (render s) (params s) db = Some (rows', db') \<and> mset rows' = mset rows"
proof -
  have "parses (render s) db \<and> names (render s) = column_names s \<and>
      (case effect s db of
         None \<Rightarrow> run (render s) (params s) db = None
       | Some (rows, db') \<Rightarrow> \<exists>rows'. run (render s) (params s) db = Some (rows', db') \<and> mset rows' = mset rows)"
    using assms unfolding sqlite_understands_def by blast
  then show "parses (render s) db" "names (render s) = column_names s"
    "effect s db = None \<Longrightarrow> run (render s) (params s) db = None"
    "effect s db = Some (rows, db') \<Longrightarrow> \<exists>rows'. run (render s) (params s) db = Some (rows', db') \<and> mset rows' = mset rows"
    by simp_all
qed

lemma start_ready:
  assumes "sqlite_ok lib view parses names run S" "s \<in> S" "statement_ok s (db_of view w)" "world_ok view w"
  obtains q' w' where "start_statement lib (render s) q w = (q', w')" "m_sql q' = render s" "ready view (render s) [] w'"
    "db_of view w' = db_of view w"
proof -
  have calls: "sqlite_calls lib view parses names run" and u: "sqlite_understands parses names run S"
    using assms(1) by (simp_all add: sqlite_ok_def)
  obtain q1 w1 where q1: "query_prepare lib (render s) q w = (q1, w1)" by (cases "query_prepare lib (render s) q w")
  show thesis
    by (rule that [of q1 "query_reset lib q1 w1"])
      (use prepare_ready [OF calls assms(4) understandsD(1) [OF u assms(2,3)] q1] q1 in \<open>simp_all add: start_statement_def\<close>)
qed

definition commands :: "('m \<Rightarrow> lib_view) \<Rightarrow> SqlTableItem \<Rightarrow> sql_statement \<Rightarrow> db \<Rightarrow>
    (bool \<times> SqlTableQuery \<times> 'm sql_world) option \<Rightarrow> bool" where
  "commands view table s db r \<longleftrightarrow>
     (\<exists>t' w'. r = Some (effect s db \<noteq> None, t', w') \<and> tq_ok table t' \<and> world_ok view w' \<and> db_of view w' = effect_db s db)"

lemma command_done:
  assumes "sqlite_ok lib view parses names run S" "s \<in> S" "statement_ok s db" "is_command s" "plain_statement s"
    and "ready view (render s) (params s) w" "m_sql q = render s" "db_of view w = db" "tq_ok table t"
  shows "commands view table s db
    (Some (case query_execute_command lib q w of (ok, w) \<Rightarrow> (ok, t\<lparr>tq_query := Some q\<rparr>, w)))"
proof -
  have calls: "sqlite_calls lib view parses names run" and u: "sqlite_understands parses names run S"
    using assms(1) by (simp_all add: sqlite_ok_def)
  note understands = understandsD [OF u assms(2,3)]
  obtain w' where w': "query_execute_command lib q w =
      ((case run (render s) (params s) db of Some (rows, db') \<Rightarrow> rows = [] | None \<Rightarrow> False), w')"
    "world_ok view w'" "db_of view w' = (case run (render s) (params s) db of Some (rows, db') \<Rightarrow> db' | None \<Rightarrow> db)"
    using execute_command [OF calls assms(6,7)] param_count_render [OF assms(5)] assms(8) by auto
  have "tq_ok table (t\<lparr>tq_query := Some q\<rparr>)" using assms(9) by (simp add: tq_ok_def)
  then show ?thesis
    using w' understands effect_of_command [OF assms(4)]
    by (cases "effect s db") (fastforce simp: commands_def effect_db_def)+
qed

text \<open>The rows of a query, up to their order.\<close>

definition selects :: "('m \<Rightarrow> lib_view) \<Rightarrow> SqlTableItem \<Rightarrow> string list \<Rightarrow> SqlValue list list \<Rightarrow> db \<Rightarrow>
    (SqlCell list list \<times> SqlTableQuery \<times> 'm sql_world) option \<Rightarrow> bool" where
  "selects view table cols rows db r \<longleftrightarrow>
     (\<exists>rows' t' w'. r = Some (map (cells_of cols) rows', t', w') \<and> mset rows' = mset rows \<and> tq_ok table t' \<and>
        world_ok view w' \<and> db_of view w' = db)"

lemma query_done:
  assumes "sqlite_ok lib view parses names run S" "s \<in> S" "statement_ok s db" "plain_statement s"
    and "ready view (render s) (params s) w" "m_sql q = render s" "db_of view w = db"
    and "effect s db = Some (rows, db)" "list_all (\<lambda>r. length r = length (column_names s)) rows"
  obtains rows' w' where "query_execute_query lib q w = Some (map (cells_of (column_names s)) rows', w')"
    "mset rows' = mset rows" "world_ok view w'" "db_of view w' = db"
proof -
  have calls: "sqlite_calls lib view parses names run" and u: "sqlite_understands parses names run S"
    using assms(1) by (simp_all add: sqlite_ok_def)
  note understands = understandsD [OF u assms(2,3)]
  obtain rows' where rows': "run (render s) (params s) db = Some (rows', db)" "mset rows' = mset rows"
    using understands(4) [OF assms(8)] by blast
  have "list_all (\<lambda>r. length r = length (column_names s)) rows'"
    using assms(9) mset_eq_setD [OF rows'(2)] by (simp add: list_all_iff)
  then obtain w' where "query_execute_query lib q w = Some (map (cells_of (names (render s))) rows', w')" "world_ok view w'"
    "db_of view w' = db"
    using execute_query [OF calls assms(5,6), of rows' db] param_count_render [OF assms(4)] rows'(1) assms(7) understands(2)
    by auto
  with that rows'(2) understands(2) show thesis by simp
qed

lemma where_of_columns:
  "(c, op, v) \<in> set (concat (concat (where_of items))) \<Longrightarrow> \<exists>item \<in> set items. c = column_name (column_info item)"
proof -
  note w = concat_where_of [of items]
  have "c = d" if "(c, op, v) \<in> set (interval_group d i)" for d i
    using that by (auto simp: interval_group_def split: option.splits)
  then have named: "c = column_name (column_info item)" if "(c, op, v) \<in> set (concat (item_groups item))" for item
    using that by (auto simp: item_groups_def split: sql_condition.splits)
  assume "(c, op, v) \<in> set (concat (concat (where_of items)))"
  then obtain item where item: "item \<in> set items" "(c, op, v) \<in> set (concat (item_groups item))"
    unfolding w set_concat [of "map (\<lambda>item. concat (item_groups item)) items"] by auto
  show "\<exists>item \<in> set items. c = column_name (column_info item)"
    using named [OF item(2)] item(1) by (rule bexI)
qed

lemma plain_where_of:
  assumes "tq_ok table t" "list_all (item_ok table) items"
  shows "plain_where (where_of items)"
proof -
  have "plain c" if "(c, op, v) \<in> set (concat (concat (where_of items)))" for c op v
    using where_of_columns [OF that] assms by (auto simp: tq_ok_def item_ok_def list_all_iff)
  then show ?thesis unfolding plain_where_def by blast
qed

lemma get_dest_columns_of:
  "list_all (\<lambda>cell. has_column_name (cell_column cell) table) cells \<Longrightarrow>
   map column_name (get_dest_columns table cells) = map cell_column cells \<and>
   set (get_dest_columns table cells) \<subseteq> set (column_items table)"
proof (induction cells)
  case (Cons cell cells)
  then obtain c where c: "get_column_info (cell_column cell) table = Some c"
    using get_column_info_None by fastforce
  with Cons get_column_info_name [OF c] show ?case by auto
qed simp

text \<open>Cells for columns of a table and the values that are bound for them.\<close>

definition cells_bind :: "'m sqlite3 \<Rightarrow> SqlTableItem \<Rightarrow> SqlCell list \<Rightarrow> SqlValue list \<Rightarrow> bool" where
  "cells_bind lib table cells vs \<longleftrightarrow>
     cells \<noteq> [] \<and>
     list_all2 (\<lambda>cell v. has_column_name (cell_column cell) table \<and> bound_value (lib_widen lib) cell = Some (Some v)) cells vs"

lemma cells_bindD:
  assumes "cells_bind lib table cells vs" "tq_ok table t"
  shows "map column_name (get_dest_columns table cells) = map cell_column cells"
    "set (get_dest_columns table cells) \<subseteq> set (column_items table)" "get_dest_columns table cells \<noteq> []"
    "length vs = length (get_dest_columns table cells)" "length vs = length cells"
    "list_all plain (map cell_column cells)"
proof -
  have "list_all (\<lambda>cell. has_column_name (cell_column cell) table) cells"
    using assms(1) by (auto simp: cells_bind_def list_all2_conv_all_nth list_all_length)
  from get_dest_columns_of [OF this]
  show names: "map column_name (get_dest_columns table cells) = map cell_column cells"
    and sub: "set (get_dest_columns table cells) \<subseteq> set (column_items table)" by simp_all
  have len: "length (get_dest_columns table cells) = length cells"
    using arg_cong [OF names, of length] by simp
  with assms(1) show "get_dest_columns table cells \<noteq> []" "length vs = length (get_dest_columns table cells)"
    "length vs = length cells"
    by (auto simp: cells_bind_def dest: list_all2_lengthD)
  have "list_all plain (map column_name (get_dest_columns table cells))"
    using sub assms(2) by (auto simp: tq_ok_def list_all_iff)
  then show "list_all plain (map cell_column cells)" by (simp only: names)
qed

lemma plain_zip: "list_all plain ns \<Longrightarrow> list_all (\<lambda>p. plain (fst p)) (zip ns vs)"
  by (auto simp: list_all_iff dest: set_zip_leftD)

lemma tq_parts:
  assumes "tq_ok table t"
  obtains q where "tq_table_info t = Some table" "tq_query t = Some q" "builder_ok table (tq_builder t)" "table_ok table"
    "plain (table_name table)"
  using assms by (auto simp: tq_ok_def)

lemma tq_insert_effect:
  assumes "sqlite_ok lib view parses names run S" "tq_ok table t" "world_ok view w" "cells_bind lib table cells vs"
    and "s = Insert_Into (table_name table) (zip (map cell_column cells) vs)" "s \<in> S" "statement_ok s (db_of view w)"
  shows "commands view table s (db_of view w) (tq_insert lib cells t w)"
proof -
  have calls: "sqlite_calls lib view parses names run" using assms(1) by (simp add: sqlite_ok_def)
  obtain q where t: "tq_table_info t = Some table" "tq_query t = Some q" "builder_ok table (tq_builder t)" "table_ok table"
    "plain (table_name table)" using assms(2) by (rule tq_parts)
  note cells = cells_bindD [OF assms(4,2)]
  have sql: "build_insert_string (tq_builder t) (get_dest_columns table cells) = Some (Some (render s))"
    using builder_texts [OF t(3,4) cells(2,3), of "[]" vs] cells(1,4) assms(5) by simp
  have plain: "plain_statement s" and vals: "params s = vs"
    using t(5) cells(5) plain_zip [OF cells(6)] assms(5) by simp_all
  have fit: "length [] + length vs \<le> param_count (render s)"
    using param_count_render [OF plain] vals by simp
  obtain q1 w1 where q1: "start_statement lib (render s) q w = (q1, w1)" "m_sql q1 = render s" "ready view (render s) [] w1"
    "db_of view w1 = db_of view w"
    by (rule start_ready [OF assms(1,6,7,3)])
  obtain w2 where w2: "bind_cells lib table cells 1 q1 w1 = Some (int (length vs) + 1, w2)" "ready view (render s) vs w2"
    "db_of view w2 = db_of view w"
    using bind_cells_ready [OF calls _ q1(3,2) fit] assms(4) q1(4) by (auto simp: cells_bind_def binds_def)
  have "commands view table s (db_of view w)
      (Some (case query_execute_command lib q1 w2 of (ok, w) \<Rightarrow> (ok, t\<lparr>tq_query := Some q1\<rparr>, w)))"
    by (rule command_done [OF assms(1,6,7)]) (use plain vals w2 q1 assms(2,5) in simp_all)
  then show ?thesis
    using t(1,2) sql q1(1) w2(1) by (simp add: tq_insert_def)
qed

lemma tq_create_effect:
  assumes "sqlite_ok lib view parses names run S" "tq_ok table t" "world_ok view w"
    and "s = Create_Table (table_name table) (table_is_unique table) (map column_of (column_items table))"
    and "s \<in> S" "statement_ok s (db_of view w)"
  shows "commands view table s (db_of view w) (tq_create lib t w)"
proof -
  obtain q where t: "tq_table_info t = Some table" "tq_query t = Some q" "builder_ok table (tq_builder t)" "table_ok table"
    "plain (table_name table)" using assms(2) by (rule tq_parts)
  have "table_is_valid table" "column_items table \<noteq> []"
    using t(4) by (auto simp: table_ok_def table_is_valid_def)
  then have sql: "build_create_table_string (tq_builder t) = Some (Some (render s))"
    using builder_texts [OF t(3,4), of "column_items table" "[]" "replicate (length (column_items table)) Null_Value"] assms(4) by simp
  have type: "plain (case try_format_data_type d of Some s \<Rightarrow> s | None \<Rightarrow> [])" for d
    by (simp add: plain_def try_format_data_type_def)
  have plain: "plain_statement s" and vals: "params s = []"
    using assms(2,4) by (simp_all add: tq_ok_def list_all_iff column_of_def type)
  obtain q1 w1 where q1: "start_statement lib (render s) q w = (q1, w1)" "m_sql q1 = render s" "ready view (render s) [] w1"
    "db_of view w1 = db_of view w"
    by (rule start_ready [OF assms(1,5,6,3)])
  have "commands view table s (db_of view w)
      (Some (case query_execute_command lib q1 w1 of (ok, w) \<Rightarrow> (ok, t\<lparr>tq_query := Some q1\<rparr>, w)))"
    by (rule command_done [OF assms(1,5,6)]) (use plain vals q1 assms(2,4) in simp_all)
  then show ?thesis
    using t(1,2) sql q1(1) by (simp add: tq_create_def)
qed

lemma tq_update_effect:
  assumes "sqlite_ok lib view parses names run S" "tq_ok table t" "world_ok view w" "cells_bind lib table cells vs"
    and "list_all (item_ok table) items" "items \<noteq> []"
    and "s = Update_Set (table_name table) (zip (map cell_column cells) vs) (where_of items)"
    and "s \<in> S" "statement_ok s (db_of view w)"
  shows "commands view table s (db_of view w) (tq_update lib cells items t w)"
proof -
  have calls: "sqlite_calls lib view parses names run" using assms(1) by (simp add: sqlite_ok_def)
  obtain q where t: "tq_table_info t = Some table" "tq_query t = Some q" "builder_ok table (tq_builder t)" "table_ok table"
    "plain (table_name table)" using assms(2) by (rule tq_parts)
  note cells = cells_bindD [OF assms(4,2)]
  have sql: "build_update_string (tq_builder t) (get_dest_columns table cells) items False = Some (Some (render s))"
    using builder_texts [OF t(3,4) cells(2,3) assms(5) cells(4)] cells(1) assms(6,7) by simp
  have plain: "plain_statement s" and vals: "params s = vs @ where_params (where_of items)"
    using t(5) cells(5) plain_zip [OF cells(6)] plain_where_of [OF assms(2,5)] assms(7) by simp_all
  have fit: "length [] + length vs \<le> param_count (render s)"
    "length vs + length (where_params (where_of items)) \<le> param_count (render s)"
    using param_count_render [OF plain] vals by simp_all
  obtain q1 w1 where q1: "start_statement lib (render s) q w = (q1, w1)" "m_sql q1 = render s" "ready view (render s) [] w1"
    "db_of view w1 = db_of view w"
    by (rule start_ready [OF assms(1,8,9,3)])
  obtain w2 where w2: "bind_cells lib table cells 1 q1 w1 = Some (int (length vs) + 1, w2)" "ready view (render s) vs w2"
    "db_of view w2 = db_of view w"
    using bind_cells_ready [OF calls _ q1(3,2) fit(1)] assms(4) q1(4) by (auto simp: cells_bind_def binds_def)
  obtain k w3 where w3: "bind_conditions lib table items (int (length vs) + 1) q1 w2 = Some (k, w3)"
    "ready view (render s) (vs @ where_params (where_of items)) w3" "db_of view w3 = db_of view w"
    using bind_conditions_ready [OF calls assms(5) w2(2) q1(2) fit(2)] w2(3) by (auto simp: binds_def)
  have "commands view table s (db_of view w)
      (Some (case query_execute_command lib q1 w3 of (ok, w) \<Rightarrow> (ok, t\<lparr>tq_query := Some q1\<rparr>, w)))"
    by (rule command_done [OF assms(1,8,9)]) (use plain vals w3 q1 assms(2,7) in simp_all)
  then show ?thesis
    using t(1,2) sql q1(1) w2(1) w3(1) by (simp add: tq_update_def)
qed

text \<open>What a statement with nothing but a condition goes through.\<close>

lemma condition_ready:
  assumes "sqlite_ok lib view parses names run S" "world_ok view w" "list_all (item_ok table) items"
    and "plain_statement s" "params s = where_params (where_of items)" "s \<in> S" "statement_ok s (db_of view w)"
  obtains q1 w1 k w2 where "start_statement lib (render s) q w = (q1, w1)" "m_sql q1 = render s"
    "bind_conditions lib table items 1 q1 w1 = Some (k, w2)" "ready view (render s) (params s) w2" "db_of view w2 = db_of view w"
proof -
  have calls: "sqlite_calls lib view parses names run" using assms(1) by (simp add: sqlite_ok_def)
  obtain q1 w1 where q1: "start_statement lib (render s) q w = (q1, w1)" "m_sql q1 = render s" "ready view (render s) [] w1"
    "db_of view w1 = db_of view w"
    by (rule start_ready [OF assms(1,6,7,2)])
  have fit: "length [] + length (where_params (where_of items)) \<le> param_count (render s)"
    using param_count_render [OF assms(4)] assms(5) by simp
  from bind_conditions_ready [OF calls assms(3) q1(3,2) fit] q1 that assms(5) show thesis
    by (fastforce simp: binds_def)
qed

lemma tq_remove_effect:
  assumes "sqlite_ok lib view parses names run S" "tq_ok table t" "world_ok view w"
    and "list_all (item_ok table) items" "items \<noteq> []"
    and "s = Delete_From (table_name table) (where_of items)" "s \<in> S" "statement_ok s (db_of view w)"
  shows "commands view table s (db_of view w) (tq_remove lib items t w)"
proof -
  obtain q where t: "tq_table_info t = Some table" "tq_query t = Some q" "builder_ok table (tq_builder t)" "table_ok table"
    "plain (table_name table)" using assms(2) by (rule tq_parts)
  have "column_items table \<noteq> []" using t(4) by (auto simp: table_ok_def table_is_valid_def)
  then have sql: "build_delete_string (tq_builder t) items False = Some (Some (render s))"
    using builder_texts [OF t(3,4) order_refl _ assms(4), of "replicate (length (column_items table)) Null_Value" False] assms(5,6) by simp
  have plain: "plain_statement s" and vals: "params s = where_params (where_of items)"
    using t(5) plain_where_of [OF assms(2,4)] assms(6) by simp_all
  obtain q1 w1 k w2 where q1: "start_statement lib (render s) q w = (q1, w1)" "m_sql q1 = render s"
    "bind_conditions lib table items 1 q1 w1 = Some (k, w2)" "ready view (render s) (params s) w2" "db_of view w2 = db_of view w"
    by (rule condition_ready [OF assms(1,3,4) plain vals assms(7,8)])
  have "commands view table s (db_of view w)
      (Some (case query_execute_command lib q1 w2 of (ok, w) \<Rightarrow> (ok, t\<lparr>tq_query := Some q1\<rparr>, w)))"
    by (rule command_done [OF assms(1,7,8)]) (use plain q1 assms(2,6) in simp_all)
  then show ?thesis
    using t(1,2) sql q1(1,3) by (simp add: tq_remove_def)
qed

lemma tq_select_effect:
  assumes "sqlite_ok lib view parses names run S" "tq_ok table t" "world_ok view w"
    and "list_all (item_ok table) items" "set cols \<subseteq> set (column_items table)" "cols \<noteq> []"
    and "s = Select_From (map column_name cols) (table_name table) (where_of items)" "s \<in> S"
    and "statement_ok s (db_of view w)" "effect s (db_of view w) = Some (rows, db_of view w)"
  shows "selects view table (map column_name cols) rows (db_of view w) (tq_select lib cols items t w)"
proof -
  obtain q where t: "tq_table_info t = Some table" "tq_query t = Some q" "builder_ok table (tq_builder t)" "table_ok table"
    "plain (table_name table)" using assms(2) by (rule tq_parts)
  have sql: "build_select_string (tq_builder t) cols items = Some (Some (render s))"
    using builder_texts [OF t(3,4) assms(5,6,4), of "replicate (length cols) Null_Value"] assms(7) by simp
  have plain: "plain_statement s" and vals: "params s = where_params (where_of items)"
    using plain_where_of [OF assms(2,4)] assms(2,5,7) by (auto simp: tq_ok_def list_all_iff)
  have lens: "list_all (\<lambda>r. length r = length (column_names s)) rows"
    using assms(7,10) by (auto simp: list_all_iff split: Option.bind_splits)
  obtain q1 w1 k w2 where q1: "start_statement lib (render s) q w = (q1, w1)" "m_sql q1 = render s"
    "bind_conditions lib table items 1 q1 w1 = Some (k, w2)" "ready view (render s) (params s) w2" "db_of view w2 = db_of view w"
    by (rule condition_ready [OF assms(1,3,4) plain vals assms(8,9)])
  obtain rows' w3 where w3: "query_execute_query lib q1 w2 = Some (map (cells_of (column_names s)) rows', w3)"
    "mset rows' = mset rows" "world_ok view w3" "db_of view w3 = db_of view w"
    by (rule query_done [OF assms(1,8,9) plain q1(4,2,5) assms(10) lens])
  have "tq_ok table (t\<lparr>tq_query := Some q1\<rparr>)" using assms(2) by (simp add: tq_ok_def)
  then show ?thesis
    using t(1,2) sql q1(1,3) w3 assms(7) by (auto simp: tq_select_def selects_def)
qed

lemma tq_count_effect:
  assumes "sqlite_ok lib view parses names run S" "tq_ok table t" "world_ok view w"
    and "list_all (item_ok table) items"
    and "s = Count_From (table_name table) (where_of items)" "s \<in> S"
    and "statement_ok s (db_of view w)" "db_of view w (table_name table) = Some T"
  shows "\<exists>t' w'. tq_count lib items t w = Some (of_nat (length (filter (where_holds (where_of items)) (tbl_rows T))), t', w') \<and>
    tq_ok table t' \<and> world_ok view w' \<and> db_of view w' = db_of view w"
proof -
  let ?n = "of_nat (length (filter (where_holds (where_of items)) (tbl_rows T))) :: u64"
  obtain q where t: "tq_table_info t = Some table" "tq_query t = Some q" "builder_ok table (tq_builder t)" "table_ok table"
    "plain (table_name table)" using assms(2) by (rule tq_parts)
  have "column_items table \<noteq> []" using t(4) by (auto simp: table_ok_def table_is_valid_def)
  then have sql: "build_count_string (tq_builder t) items = Some (Some (render s))"
    using builder_texts [OF t(3,4) order_refl _ assms(4), of "replicate (length (column_items table)) Null_Value"] assms(5) by simp
  have plain: "plain_statement s" and vals: "params s = where_params (where_of items)"
    using t(5) plain_where_of [OF assms(2,4)] assms(5) by simp_all
  have e: "effect s (db_of view w) = Some ([[Integer_Value ?n]], db_of view w)"
    "list_all (\<lambda>r. length r = length (column_names s)) [[Integer_Value ?n]]"
    using assms(5,8) by simp_all
  obtain q1 w1 k w2 where q1: "start_statement lib (render s) q w = (q1, w1)" "m_sql q1 = render s"
    "bind_conditions lib table items 1 q1 w1 = Some (k, w2)" "ready view (render s) (params s) w2" "db_of view w2 = db_of view w"
    by (rule condition_ready [OF assms(1,3,4) plain vals assms(6,7)])
  obtain rows' w3 where w3: "query_execute_query lib q1 w2 = Some (map (cells_of (column_names s)) rows', w3)"
    "mset rows' = mset [[Integer_Value ?n]]" "world_ok view w3" "db_of view w3 = db_of view w"
    by (rule query_done [OF assms(1,6,7) plain q1(4,2,5) e])
  have "rows' = [[Integer_Value ?n]]" using w3(2) by simp
  then have "map (cells_of (column_names s)) rows' = [[cell_of ''COUNT(*)'' (Integer_Value ?n)]]"
    using assms(5) by (simp add: cells_of_def)
  moreover have "tq_ok table (t\<lparr>tq_query := Some q1\<rparr>)" using assms(2) by (simp add: tq_ok_def)
  ultimately show ?thesis
    using t(1,2) sql q1(1,3) w3 by (simp add: tq_count_def)
qed

end
