(* ===== verification/Entities.thy ===== *)
theory Entities
  imports Messages
begin

text \<open>
  The entities of the client and of the server, \<open>model/entity\<close>. A value that is no member of an enumeration is
  \<open>Block_Other\<close> and the like; members without an initialiser start as the argument \<open>junk\<close>. Times are numbers of
  nanoseconds since the epoch.
\<close>

section \<open>Blocks\<close>

datatype BlockState = Block_Completed | Block_Failed | Block_InTransfer | Block_Waiting | Block_Unknown | Block_Other u32

primrec BlockState_code :: "BlockState \<Rightarrow> u32" where
  "BlockState_code Block_Completed = 0"
| "BlockState_code Block_Failed = 1"
| "BlockState_code Block_InTransfer = 2"
| "BlockState_code Block_Waiting = 3"
| "BlockState_code Block_Unknown = 4"
| "BlockState_code (Block_Other w) = w"

definition BlockState_of_code :: "u32 \<Rightarrow> BlockState" where
  "BlockState_of_code w =
     (if w = 0 then Block_Completed else if w = 1 then Block_Failed else if w = 2 then Block_InTransfer
      else if w = 3 then Block_Waiting else if w = 4 then Block_Unknown else Block_Other w)"

definition BlockState_to_string :: "BlockState \<Rightarrow> string" where
  "BlockState_to_string state =
     (case state of
        Block_Completed \<Rightarrow> ''BlockState::Completed''
      | Block_Failed \<Rightarrow> ''BlockState::Failed''
      | Block_InTransfer \<Rightarrow> ''BlockState::InTransfer''
      | Block_Waiting \<Rightarrow> ''BlockState::Waiting''
      | _ \<Rightarrow> ''BlockState::Unknown'')"

record BlockEntity =
  block_id :: u64
  block_task_id :: u64
  block_file_id :: u64
  block_offset :: u64
  block_size :: u64
  block_state :: BlockState
  block_start_time :: u64
  block_end_time :: u64

definition new_block :: "BlockEntity \<Rightarrow> BlockEntity" where
  "new_block junk =
     \<lparr>block_id = - 1, block_task_id = - 1, block_file_id = - 1, block_offset = block_offset junk,
      block_size = block_size junk, block_state = block_state junk, block_start_time = 0, block_end_time = 0\<rparr>"

definition BlockEntity_to_string :: "BlockEntity \<Rightarrow> string" where
  "BlockEntity_to_string b =
     ''block_id='' @ show_i64 (block_id b) @ '' | task_id='' @ show_i64 (block_task_id b) @
     '' | file_id='' @ show_i64 (block_file_id b) @ '' | offset='' @ show_i64 (block_offset b) @
     '' | block_size='' @ show_i64 (block_size b) @ '' | state='' @ BlockState_to_string (block_state b) @
     '' | start_time='' @ show_i64 (block_start_time b) @ '' | end_time='' @ show_i64 (block_end_time b)"

section \<open>Tasks\<close>

datatype TaskState = Task_Completed | Task_Failed | Task_InTransfer | Task_Waiting | Task_Unknown | Task_Other u32

primrec TaskState_code :: "TaskState \<Rightarrow> u32" where
  "TaskState_code Task_Completed = 0"
| "TaskState_code Task_Failed = 1"
| "TaskState_code Task_InTransfer = 2"
| "TaskState_code Task_Waiting = 3"
| "TaskState_code Task_Unknown = 4"
| "TaskState_code (Task_Other w) = w"

definition TaskState_of_code :: "u32 \<Rightarrow> TaskState" where
  "TaskState_of_code w =
     (if w = 0 then Task_Completed else if w = 1 then Task_Failed else if w = 2 then Task_InTransfer
      else if w = 3 then Task_Waiting else if w = 4 then Task_Unknown else Task_Other w)"

definition TaskState_to_string :: "TaskState \<Rightarrow> string" where
  "TaskState_to_string state =
     (case state of
        Task_Completed \<Rightarrow> ''TaskState::Completed''
      | Task_Failed \<Rightarrow> ''TaskState::Failed''
      | Task_InTransfer \<Rightarrow> ''TaskState::InTransfer''
      | Task_Waiting \<Rightarrow> ''TaskState::Waiting''
      | _ \<Rightarrow> ''TaskState::Unknown'')"

datatype Operation = Operation_Unknown | Operation_Download | Operation_Upload | Operation_Other u32

primrec Operation_code :: "Operation \<Rightarrow> u32" where
  "Operation_code Operation_Unknown = 0"
| "Operation_code Operation_Download = 1"
| "Operation_code Operation_Upload = 2"
| "Operation_code (Operation_Other w) = w"

definition Operation_of_code :: "u32 \<Rightarrow> Operation" where
  "Operation_of_code w =
     (if w = 0 then Operation_Unknown else if w = 1 then Operation_Download else if w = 2 then Operation_Upload
      else Operation_Other w)"

definition Operation_to_string :: "Operation \<Rightarrow> string" where
  "Operation_to_string operation =
     (case operation of
        Operation_Download \<Rightarrow> ''Operation::Download''
      | Operation_Upload \<Rightarrow> ''Operation::Upload''
      | _ \<Rightarrow> ''Operation::Unknown'')"

record TaskEntity =
  task_id :: u64
  task_file_id :: u64
  saved_path :: string
  source_url :: string
  task_operation :: Operation
  task_state :: TaskState
  task_start_time :: u64
  task_end_time :: u64

definition new_task :: "TaskState \<Rightarrow> TaskEntity" where
  "new_task junk =
     \<lparr>task_id = - 1, task_file_id = - 1, saved_path = [], source_url = [], task_operation = Operation_Unknown,
      task_state = junk, task_start_time = 0, task_end_time = 0\<rparr>"

definition TaskEntity_to_string :: "TaskEntity \<Rightarrow> string" where
  "TaskEntity_to_string t =
     ''end_time='' @ show_i64 (task_end_time t) @ '' | file_id='' @ show_i64 (task_file_id t) @
     '' | operation='' @ Operation_to_string (task_operation t) @ '' | saved_path='' @ saved_path t @
     '' | source_url='' @ source_url t @ '' | start_time='' @ show_i64 (task_start_time t) @
     '' | state='' @ TaskState_to_string (task_state t) @ '' | task_id='' @ show_i64 (task_id t)"

section \<open>Files\<close>

record ClientFileEntity =
  client_file_id :: u64
  client_file_name :: string
  client_file_size :: u64
  client_md5_code :: string

definition new_client_file :: ClientFileEntity where
  "new_client_file = \<lparr>client_file_id = - 1, client_file_name = [], client_file_size = 0, client_md5_code = []\<rparr>"

definition ClientFileEntity_to_string :: "ClientFileEntity \<Rightarrow> string" where
  "ClientFileEntity_to_string f =
     ''file_id='' @ show_i64 (client_file_id f) @ '' | file_name='' @ client_file_name f @
     '' | file_size='' @ show_i64 (client_file_size f) @ '' | md5_code='' @ client_md5_code f"

text \<open>The server has identifiers of 32 bits and sizes of unsigned 32 bits.\<close>

record ServerFileInfo =
  server_file_id :: u32
  server_file_name :: string
  resource_path :: string
  server_file_size :: u32
  server_md5_code :: string

definition new_server_file :: "u32 \<Rightarrow> ServerFileInfo" where
  "new_server_file junk =
     \<lparr>server_file_id = - 1, server_file_name = [], resource_path = [], server_file_size = junk, server_md5_code = []\<rparr>"

definition ServerFileInfo_to_string :: "ServerFileInfo \<Rightarrow> string" where
  "ServerFileInfo_to_string f =
     ''file_id: '' @ show_int (sint (server_file_id f)) @ '', file_name: '' @ server_file_name f @
     '', resource_path: '' @ resource_path f @ '', file_size: '' @ show_nat (unat (server_file_size f)) @
     '', md5_code: '' @ server_md5_code f"

definition server_file_eq :: "ServerFileInfo \<Rightarrow> ServerFileInfo \<Rightarrow> bool" where
  "server_file_eq f g \<longleftrightarrow>
     server_file_id f = server_file_id g \<and> server_file_name f = server_file_name g \<and>
     resource_path f = resource_path g \<and> server_file_size f = server_file_size g \<and>
     server_md5_code f = server_md5_code g"

lemma server_file_eq_iff: "server_file_eq f g \<longleftrightarrow> f = g"
  by (cases f; cases g) (simp add: server_file_eq_def)

section \<open>Codes\<close>

fun BlockState_valid :: "BlockState \<Rightarrow> bool" where
  "BlockState_valid (Block_Other w) \<longleftrightarrow> w \<notin> {0, 1, 2, 3, 4}"
| "BlockState_valid _ \<longleftrightarrow> True"

fun TaskState_valid :: "TaskState \<Rightarrow> bool" where
  "TaskState_valid (Task_Other w) \<longleftrightarrow> w \<notin> {0, 1, 2, 3, 4}"
| "TaskState_valid _ \<longleftrightarrow> True"

fun Operation_valid :: "Operation \<Rightarrow> bool" where
  "Operation_valid (Operation_Other w) \<longleftrightarrow> w \<notin> {0, 1, 2}"
| "Operation_valid _ \<longleftrightarrow> True"

lemma BlockState_codes [simp]: "BlockState_valid b \<Longrightarrow> BlockState_of_code (BlockState_code b) = b"
  by (cases b) (auto simp: BlockState_of_code_def)

lemma TaskState_codes [simp]: "TaskState_valid t \<Longrightarrow> TaskState_of_code (TaskState_code t) = t"
  by (cases t) (auto simp: TaskState_of_code_def)

lemma Operation_codes [simp]: "Operation_valid p \<Longrightarrow> Operation_of_code (Operation_code p) = p"
  by (cases p) (auto simp: Operation_of_code_def)

end
