(* ===== verification/Repositories.thy ===== *)
theory Repositories
  imports Table_Query Entities
begin

text \<open>
  The repositories of the client for blocks, tasks and files, \<open>client/repository\<close>: each keeps one table of the
  database. The driver behind the database \<open>client_database\<close> is that of the world. A null pointer that is
  read and the exception of \<open>std::get\<close> are \<open>None\<close>; log messages are left out.
\<close>

section \<open>State\<close>

record Repository =
  r_is_init :: bool
  r_table :: "SqlTableItem option"
  r_table_query :: SqlTableQuery

definition new_repository :: Repository where
  "new_repository = \<lparr>r_is_init = False, r_table = None, r_table_query = new_table_query\<rparr>"

section \<open>Tables\<close>

definition data_column :: "int \<Rightarrow> string \<Rightarrow> DataType \<Rightarrow> SqlColumnItem" where
  "data_column index name type = (new_column type)\<lparr>column_index := index, column_name := name, is_not_null := True\<rparr>"

definition key_column :: "int \<Rightarrow> string \<Rightarrow> DataType \<Rightarrow> SqlColumnItem" where
  "key_column index name type =
     (new_column type)\<lparr>column_index := index, column_name := name, is_primary_key := True, is_not_null := True, is_unique := True\<rparr>"

definition block_table :: SqlTableItem where
  "block_table =
     fold add_column
       [key_column 0 ''block_id'' Int64, data_column 1 ''task_id'' Int64, data_column 2 ''file_id'' Int64,
        data_column 3 ''offset'' Int64, data_column 4 ''block_size'' Int64, data_column 5 ''state'' Int64,
        data_column 6 ''start_time'' Int64, data_column 7 ''end_time'' Int64]
       (new_table\<lparr>table_name := ''block'', table_is_unique := True\<rparr>)"

definition task_table :: SqlTableItem where
  "task_table =
     fold add_column
       [key_column 0 ''task_id'' Int64, data_column 1 ''file_id'' Int64, data_column 2 ''saved_path'' String,
        data_column 3 ''source_url'' String, data_column 4 ''operation'' Int64, data_column 5 ''state'' Int64,
        data_column 6 ''start_time'' Int64, data_column 7 ''end_time'' Int64]
       (new_table\<lparr>table_name := ''task'', table_is_unique := True\<rparr>)"

definition file_table :: SqlTableItem where
  "file_table =
     fold add_column
       [key_column 0 ''file_id'' Int64, data_column 1 ''file_name'' String, data_column 2 ''file_size'' Int64,
        data_column 3 ''md5_code'' String]
       (new_table\<lparr>table_name := ''file_info'', table_is_unique := True\<rparr>)"

section \<open>Initialisation\<close>

definition ensure_table_exists ::
  "'m sqlite3 \<Rightarrow> Repository \<Rightarrow> 'm sql_world \<Rightarrow> (bool \<times> Repository \<times> 'm sql_world) option" where
  "ensure_table_exists lib r w =
     (if \<not> r_is_init r \<or> r_table r = None then Some (False, r, w)
      else do { (ok, t, w) \<leftarrow> tq_create lib (r_table_query r) w; Some (ok, r\<lparr>r_table_query := t\<rparr>, w) })"

definition repository_init ::
  "SqlTableItem \<Rightarrow> 'm sqlite3 \<Rightarrow> SqlDatabaseManager \<Rightarrow> Repository \<Rightarrow> 'm sql_world \<Rightarrow> (Repository \<times> 'm sql_world) option" where
  "repository_init table lib databases r w =
     (if r_is_init r then Some (r, w)
      else do {
        sql_database \<leftarrow> get_database ''client_database'' databases;
        let sql_query = \<lparr>m_sql = []\<rparr>;
        let t = tq_set_query (Some sql_query) (tq_set_table_info (Some table)
                  (tq_set_stringify (Some default_signs) (r_table_query r)));
        (ok, r, w) \<leftarrow> ensure_table_exists lib (r\<lparr>r_is_init := True, r_table := Some table, r_table_query := t\<rparr>) w;
        Some (r\<lparr>r_is_init := ok\<rparr>, w)
      })"

definition block_init where "block_init = repository_init block_table"
definition task_init where "task_init = repository_init task_table"
definition file_init where "file_init = repository_init file_table"

section \<open>Cells and conditions\<close>

text \<open>The cells of an entity, column by column; \<open>None\<close> when the table does not have one of the columns.\<close>

fun cells_for :: "SqlTableItem \<Rightarrow> (string \<times> CellData) list \<Rightarrow> SqlCell list option" where
  "cells_for table [] = Some []"
| "cells_for table ((name, data) # values) =
     do {
       column \<leftarrow> get_column_info name table;
       cells \<leftarrow> cells_for table values;
       Some ((get_default_cell column)\<lparr>cell_data := data\<rparr> # cells)
     }"

definition point_condition :: "SqlTableItem \<Rightarrow> string \<times> u64 \<Rightarrow> SqlConditionItem option" where
  "point_condition table p =
     (case p of (name, v) \<Rightarrow>
        do {
          column \<leftarrow> get_column_info name table;
          Some \<lparr>is_set = True, column_info = column, item_condition = range_pointer (range_of_value (sint v)), is_desc_order = None\<rparr>
        })"

fun point_conditions :: "SqlTableItem \<Rightarrow> (string \<times> u64) list \<Rightarrow> SqlConditionItem list option" where
  "point_conditions table [] = Some []"
| "point_conditions table (p # ps) =
     do { item \<leftarrow> point_condition table p; items \<leftarrow> point_conditions table ps; Some (item # items) }"

text \<open>What the operations of the three repositories have in common: the checks, the cells, the conditions and the
  call of the table query. The result \<open>none\<close> is given when the repository is not initialised or a column is missing.\<close>

definition repo_insert ::
  "'m sqlite3 \<Rightarrow> (string \<times> CellData) list \<Rightarrow> Repository \<Rightarrow> 'm sql_world \<Rightarrow> (bool \<times> Repository \<times> 'm sql_world) option" where
  "repo_insert lib values r w =
     (if \<not> r_is_init r then Some (False, r, w)
      else do {
        table \<leftarrow> r_table r;
        case cells_for table values of
          None \<Rightarrow> Some (False, r, w)
        | Some cells \<Rightarrow>
            do { (ok, t, w) \<leftarrow> tq_insert lib cells (r_table_query r) w; Some (ok, r\<lparr>r_table_query := t\<rparr>, w) }
      })"

definition repo_update ::
  "'m sqlite3 \<Rightarrow> (string \<times> CellData) list \<Rightarrow> string \<times> u64 \<Rightarrow> Repository \<Rightarrow> 'm sql_world \<Rightarrow>
   (bool \<times> Repository \<times> 'm sql_world) option" where
  "repo_update lib values key r w =
     (if \<not> r_is_init r then Some (False, r, w)
      else do {
        table \<leftarrow> r_table r;
        case (cells_for table values, point_condition table key) of
          (Some cells, Some condition) \<Rightarrow>
            do { (ok, t, w) \<leftarrow> tq_update lib cells [condition] (r_table_query r) w; Some (ok, r\<lparr>r_table_query := t\<rparr>, w) }
        | _ \<Rightarrow> Some (False, r, w)
      })"

definition repo_remove ::
  "'m sqlite3 \<Rightarrow> string \<times> u64 \<Rightarrow> Repository \<Rightarrow> 'm sql_world \<Rightarrow> (bool \<times> Repository \<times> 'm sql_world) option" where
  "repo_remove lib key r w =
     (if \<not> r_is_init r then Some (False, r, w)
      else do {
        table \<leftarrow> r_table r;
        case point_condition table key of
          None \<Rightarrow> Some (False, r, w)
        | Some condition \<Rightarrow>
            do { (ok, t, w) \<leftarrow> tq_remove lib [condition] (r_table_query r) w; Some (ok, r\<lparr>r_table_query := t\<rparr>, w) }
      })"

definition repo_select ::
  "'m sqlite3 \<Rightarrow> (string \<times> u64) list \<Rightarrow> Repository \<Rightarrow> 'm sql_world \<Rightarrow> (SqlCell list list \<times> Repository \<times> 'm sql_world) option" where
  "repo_select lib keys r w =
     (if \<not> r_is_init r then Some ([], r, w)
      else do {
        table \<leftarrow> r_table r;
        case point_conditions table keys of
          None \<Rightarrow> Some ([], r, w)
        | Some conditions \<Rightarrow>
            do {
              (data, t, w) \<leftarrow> tq_select lib (column_items table) conditions (r_table_query r) w;
              Some (data, r\<lparr>r_table_query := t\<rparr>, w)
            }
      })"

definition repo_count ::
  "'m sqlite3 \<Rightarrow> u64 \<Rightarrow> (string \<times> u64) list \<Rightarrow> Repository \<Rightarrow> 'm sql_world \<Rightarrow> (u64 \<times> Repository \<times> 'm sql_world) option" where
  "repo_count lib none keys r w =
     (if \<not> r_is_init r then Some (none, r, w)
      else do {
        table \<leftarrow> r_table r;
        case point_conditions table keys of
          None \<Rightarrow> Some (none, r, w)
        | Some conditions \<Rightarrow>
            do { (n, t, w) \<leftarrow> tq_count lib conditions (r_table_query r) w; Some (n, r\<lparr>r_table_query := t\<rparr>, w) }
      })"

text \<open>The entities of the rows that a query gave.\<close>

fun read_rows :: "(SqlCell list \<Rightarrow> 'e option) \<Rightarrow> SqlCell list list \<Rightarrow> 'e list option" where
  "read_rows read [] = Some []"
| "read_rows read (row # rows) = do { e \<leftarrow> read row; es \<leftarrow> read_rows read rows; Some (e # es) }"

definition repo_get ::
  "'m sqlite3 \<Rightarrow> (SqlCell list \<Rightarrow> 'e option) \<Rightarrow> (string \<times> u64) list \<Rightarrow> Repository \<Rightarrow> 'm sql_world \<Rightarrow>
   ('e list \<times> Repository \<times> 'm sql_world) option" where
  "repo_get lib read keys r w =
     do { (data, r, w) \<leftarrow> repo_select lib keys r w; es \<leftarrow> read_rows read data; Some (es, r, w) }"

definition repo_get_one ::
  "'m sqlite3 \<Rightarrow> (SqlCell list \<Rightarrow> 'e option) \<Rightarrow> (string \<times> u64) list \<Rightarrow> Repository \<Rightarrow> 'm sql_world \<Rightarrow>
   ('e option \<times> Repository \<times> 'm sql_world) option" where
  "repo_get_one lib read keys r w =
     do { (es, r, w) \<leftarrow> repo_get lib read keys r w; Some (if es = [] then None else Some (es ! 0), r, w) }"

section \<open>Blocks\<close>

text \<open>\<open>static_cast<int64_t>\<close> of an enumeration over \<open>int\<close> and back.\<close>

definition code_to_int64 :: "u32 \<Rightarrow> u64" where "code_to_int64 w = scast w"

definition int64_to_code :: "u64 \<Rightarrow> u32" where "int64_to_code w = ucast w"

definition block_values :: "BlockEntity \<Rightarrow> (string \<times> CellData) list" where
  "block_values b =
     [(''task_id'', Int64_Data (block_task_id b)), (''file_id'', Int64_Data (block_file_id b)),
      (''offset'', Int64_Data (block_offset b)), (''block_size'', Int64_Data (block_size b)),
      (''state'', Int64_Data (code_to_int64 (BlockState_code (block_state b)))),
      (''start_time'', Int64_Data (to_time_ms (block_start_time b))),
      (''end_time'', Int64_Data (to_time_ms (block_end_time b)))]"

fun read_block :: "SqlCell list \<Rightarrow> BlockEntity \<Rightarrow> BlockEntity option" where
  "read_block [] b = Some b"
| "read_block (cell # cells) b =
     do {
       b \<leftarrow> (if cell_column cell = ''block_id'' then do { v \<leftarrow> get_int64 (cell_data cell); Some (b\<lparr>block_id := v\<rparr>) }
             else if cell_column cell = ''task_id'' then do { v \<leftarrow> get_int64 (cell_data cell); Some (b\<lparr>block_task_id := v\<rparr>) }
             else if cell_column cell = ''file_id'' then do { v \<leftarrow> get_int64 (cell_data cell); Some (b\<lparr>block_file_id := v\<rparr>) }
             else if cell_column cell = ''offset'' then do { v \<leftarrow> get_int64 (cell_data cell); Some (b\<lparr>block_offset := v\<rparr>) }
             else if cell_column cell = ''block_size'' then do { v \<leftarrow> get_int64 (cell_data cell); Some (b\<lparr>block_size := v\<rparr>) }
             else if cell_column cell = ''state''
               then do { v \<leftarrow> get_int64 (cell_data cell); Some (b\<lparr>block_state := BlockState_of_code (int64_to_code v)\<rparr>) }
             else if cell_column cell = ''start_time''
               then do { v \<leftarrow> get_int64 (cell_data cell); Some (b\<lparr>block_start_time := from_time_ms v\<rparr>) }
             else if cell_column cell = ''end_time''
               then do { v \<leftarrow> get_int64 (cell_data cell); Some (b\<lparr>block_end_time := from_time_ms v\<rparr>) }
             else Some b);
       read_block cells b
     }"

definition blocks_from_query_data :: "BlockEntity \<Rightarrow> SqlCell list list \<Rightarrow> BlockEntity list option" where
  "blocks_from_query_data junk data = read_rows (\<lambda>row. read_block row (new_block junk)) data"

definition block_get_all where
  "block_get_all lib junk r w = repo_get lib (\<lambda>row. read_block row (new_block junk)) [] r w"

definition block_get_by_task_id where
  "block_get_by_task_id lib junk t r w = repo_get lib (\<lambda>row. read_block row (new_block junk)) [(''task_id'', t)] r w"

definition block_count_by_task_and_state where
  "block_count_by_task_and_state lib t state r w =
     repo_count lib 0 [(''task_id'', t), (''state'', code_to_int64 (BlockState_code state))] r w"

definition block_get_by_task_and_state where
  "block_get_by_task_and_state lib junk t state r w =
     repo_get lib (\<lambda>row. read_block row (new_block junk))
       [(''task_id'', t), (''state'', code_to_int64 (BlockState_code state))] r w"

definition block_add where "block_add lib b r w = repo_insert lib (block_values b) r w"

definition block_get_by_id where
  "block_get_by_id lib junk i r w = repo_get_one lib (\<lambda>row. read_block row (new_block junk)) [(''block_id'', i)] r w"

definition block_update where "block_update lib b r w = repo_update lib (block_values b) (''block_id'', block_id b) r w"

definition block_remove where "block_remove lib i r w = repo_remove lib (''block_id'', i) r w"

section \<open>Tasks\<close>

definition task_values :: "TaskEntity \<Rightarrow> (string \<times> CellData) list" where
  "task_values t =
     [(''file_id'', Int64_Data (task_file_id t)), (''saved_path'', String_Data (saved_path t)),
      (''source_url'', String_Data (source_url t)),
      (''operation'', Int64_Data (code_to_int64 (Operation_code (task_operation t)))),
      (''state'', Int64_Data (code_to_int64 (TaskState_code (task_state t)))),
      (''start_time'', Int64_Data (to_time_ms (task_start_time t))),
      (''end_time'', Int64_Data (to_time_ms (task_end_time t)))]"

fun read_task :: "SqlCell list \<Rightarrow> TaskEntity \<Rightarrow> TaskEntity option" where
  "read_task [] t = Some t"
| "read_task (cell # cells) t =
     do {
       t \<leftarrow> (if cell_column cell = ''task_id'' then do { v \<leftarrow> get_int64 (cell_data cell); Some (t\<lparr>task_id := v\<rparr>) }
             else if cell_column cell = ''file_id'' then do { v \<leftarrow> get_int64 (cell_data cell); Some (t\<lparr>task_file_id := v\<rparr>) }
             else if cell_column cell = ''saved_path'' then do { s \<leftarrow> get_string (cell_data cell); Some (t\<lparr>saved_path := s\<rparr>) }
             else if cell_column cell = ''source_url'' then do { s \<leftarrow> get_string (cell_data cell); Some (t\<lparr>source_url := s\<rparr>) }
             else if cell_column cell = ''operation''
               then do { v \<leftarrow> get_int64 (cell_data cell); Some (t\<lparr>task_operation := Operation_of_code (int64_to_code v)\<rparr>) }
             else if cell_column cell = ''state''
               then do { v \<leftarrow> get_int64 (cell_data cell); Some (t\<lparr>task_state := TaskState_of_code (int64_to_code v)\<rparr>) }
             else if cell_column cell = ''start_time''
               then do { v \<leftarrow> get_int64 (cell_data cell); Some (t\<lparr>task_start_time := from_time_ms v\<rparr>) }
             else if cell_column cell = ''end_time''
               then do { v \<leftarrow> get_int64 (cell_data cell); Some (t\<lparr>task_end_time := from_time_ms v\<rparr>) }
             else Some t);
       read_task cells t
     }"

definition tasks_from_query_data :: "TaskState \<Rightarrow> SqlCell list list \<Rightarrow> TaskEntity list option" where
  "tasks_from_query_data junk data = read_rows (\<lambda>row. read_task row (new_task junk)) data"

definition task_get_all where
  "task_get_all lib junk r w = repo_get lib (\<lambda>row. read_task row (new_task junk)) [] r w"

definition task_get_by_task_id where
  "task_get_by_task_id lib junk i r w = repo_get_one lib (\<lambda>row. read_task row (new_task junk)) [(''task_id'', i)] r w"

definition task_get_by_file_id where
  "task_get_by_file_id lib junk i r w = repo_get lib (\<lambda>row. read_task row (new_task junk)) [(''file_id'', i)] r w"

definition task_add where
  "task_add lib t r w =
     (if \<not> r_is_init r then Some (False, r, w)
      else if sint (task_id t) \<le> 0 then Some (False, r, w)
      else repo_insert lib ((''task_id'', Int64_Data (task_id t)) # task_values t) r w)"

definition task_update where "task_update lib t r w = repo_update lib (task_values t) (''task_id'', task_id t) r w"

definition task_remove where "task_remove lib i r w = repo_remove lib (''task_id'', i) r w"

definition task_get_all_count where "task_get_all_count lib r w = repo_count lib (- 1) [] r w"

text \<open>A query of its own on the database, with a fixed text.\<close>

definition fixed_query ::
  "'m sqlite3 \<Rightarrow> string \<Rightarrow> SqlCell list \<Rightarrow> 'm sql_world \<Rightarrow> (SqlCell list list \<times> 'm sql_world) option" where
  "fixed_query lib sql cells w =
     (case start_statement lib sql \<lparr>m_sql = []\<rparr> w of
        (query, w) \<Rightarrow>
          do {
            w \<leftarrow> fold (\<lambda>(i, cell) w. w \<bind> query_bind lib (int i + 1) cell query) (enumerate 0 cells) (Some w);
            query_execute_query lib query w
          })"

definition task_get_max_task_id ::
  "'m sqlite3 \<Rightarrow> SqlDatabaseManager \<Rightarrow> Repository \<Rightarrow> 'm sql_world \<Rightarrow> (u64 \<times> 'm sql_world) option" where
  "task_get_max_task_id lib databases r w =
     (if \<not> r_is_init r then Some (- 1, w)
      else if get_database ''client_database'' databases = None then Some (- 1, w)
      else do {
        (data, w) \<leftarrow> fixed_query lib ''SELECT COALESCE(MAX(task_id), 0) FROM task;'' [] w;
        case data of
          (cell # cells) # rows \<Rightarrow> do { v \<leftarrow> get_int64 (cell_data cell); Some (v, w) }
        | _ \<Rightarrow> Some (- 1, w)
      })"

section \<open>Files\<close>

definition file_values :: "ClientFileEntity \<Rightarrow> (string \<times> CellData) list" where
  "file_values f =
     [(''file_name'', String_Data (client_file_name f)), (''file_size'', Int64_Data (client_file_size f)),
      (''md5_code'', String_Data (client_md5_code f))]"

fun read_file :: "SqlCell list \<Rightarrow> ClientFileEntity \<Rightarrow> ClientFileEntity option" where
  "read_file [] f = Some f"
| "read_file (cell # cells) f =
     do {
       f \<leftarrow> (if cell_column cell = ''file_id'' then do { v \<leftarrow> get_int64 (cell_data cell); Some (f\<lparr>client_file_id := v\<rparr>) }
             else if cell_column cell = ''file_name'' then do { s \<leftarrow> get_string (cell_data cell); Some (f\<lparr>client_file_name := s\<rparr>) }
             else if cell_column cell = ''file_size'' then do { v \<leftarrow> get_int64 (cell_data cell); Some (f\<lparr>client_file_size := v\<rparr>) }
             else if cell_column cell = ''md5_code'' then do { s \<leftarrow> get_string (cell_data cell); Some (f\<lparr>client_md5_code := s\<rparr>) }
             else Some f);
       read_file cells f
     }"

definition files_from_query_data :: "SqlCell list list \<Rightarrow> ClientFileEntity list option" where
  "files_from_query_data data = read_rows (\<lambda>row. read_file row new_client_file) data"

definition file_get_all where "file_get_all lib r w = repo_get lib (\<lambda>row. read_file row new_client_file) [] r w"

definition file_add where
  "file_add lib f r w = repo_insert lib ((''file_id'', Int64_Data (client_file_id f)) # file_values f) r w"

definition file_get_by_id where
  "file_get_by_id lib i r w = repo_get_one lib (\<lambda>row. read_file row new_client_file) [(''file_id'', i)] r w"

definition text_cell :: "string \<Rightarrow> SqlCell" where
  "text_cell s = \<lparr>cell_type = String, cell_data = String_Data s, cell_column = []\<rparr>"

definition file_get_by_md5 ::
  "'m sqlite3 \<Rightarrow> SqlDatabaseManager \<Rightarrow> string \<Rightarrow> Repository \<Rightarrow> 'm sql_world \<Rightarrow> (ClientFileEntity option \<times> 'm sql_world) option" where
  "file_get_by_md5 lib databases md5 r w =
     (if \<not> r_is_init r then Some (None, w)
      else if get_database ''client_database'' databases = None then Some (None, w)
      else do {
        (data, w) \<leftarrow> fixed_query lib ''SELECT file_id, file_name, file_size, md5_code FROM file_info WHERE md5_code = ?;''
          [text_cell md5] w;
        fs \<leftarrow> files_from_query_data data;
        Some (if fs = [] then None else Some (fs ! 0), w)
      })"

definition file_update where "file_update lib f r w = repo_update lib (file_values f) (''file_id'', client_file_id f) r w"

definition file_remove where "file_remove lib i r w = repo_remove lib (''file_id'', i) r w"

definition file_get_all_count where "file_get_all_count lib r w = repo_count lib (- 1) [] r w"

end
