(* ===== verification/Client_Services.thy ===== *)
theory Client_Services
  imports Repositories
begin

text \<open>
  The services of the client over its repositories, \<open>client/service\<close>: blocks, tasks and files. They share the
  database; \<open>client_store\<close> is the state of the three services and of the database.
\<close>

section \<open>State\<close>

record 'm client_store =
  m_block_repository :: Repository
  m_task_repository :: Repository
  m_client_file_repository :: Repository
  m_task_counter :: u64
  sql :: "'m sql_world"
  databases :: SqlDatabaseManager

definition with_blocks ::
  "(Repository \<Rightarrow> 'm sql_world \<Rightarrow> ('a \<times> Repository \<times> 'm sql_world) option) \<Rightarrow> 'm client_store \<Rightarrow> ('a \<times> 'm client_store) option" where
  "with_blocks f s =
     do { (a, r, w) \<leftarrow> f (m_block_repository s) (sql s); Some (a, s\<lparr>m_block_repository := r, sql := w\<rparr>) }"

definition with_tasks ::
  "(Repository \<Rightarrow> 'm sql_world \<Rightarrow> ('a \<times> Repository \<times> 'm sql_world) option) \<Rightarrow> 'm client_store \<Rightarrow> ('a \<times> 'm client_store) option" where
  "with_tasks f s =
     do { (a, r, w) \<leftarrow> f (m_task_repository s) (sql s); Some (a, s\<lparr>m_task_repository := r, sql := w\<rparr>) }"

definition with_files ::
  "(Repository \<Rightarrow> 'm sql_world \<Rightarrow> ('a \<times> Repository \<times> 'm sql_world) option) \<Rightarrow> 'm client_store \<Rightarrow> ('a \<times> 'm client_store) option" where
  "with_files f s =
     do { (a, r, w) \<leftarrow> f (m_client_file_repository s) (sql s); Some (a, s\<lparr>m_client_file_repository := r, sql := w\<rparr>) }"

section \<open>\<open>BlockService\<close>\<close>

definition block_service_init :: "'m sqlite3 \<Rightarrow> 'm client_store \<Rightarrow> 'm client_store option" where
  "block_service_init lib s =
     do {
       (r, w) \<leftarrow> block_init lib (databases s) (m_block_repository s) (sql s);
       Some (s\<lparr>m_block_repository := r, sql := w\<rparr>)
     }"

definition block_service_get_all where
  "block_service_get_all lib junk = with_blocks (block_get_all lib junk)"

definition block_service_add where
  "block_service_add lib b = with_blocks (block_add lib b)"

definition block_service_get_by_id where
  "block_service_get_by_id lib junk i = with_blocks (block_get_by_id lib junk i)"

definition block_service_get_by_task_id where
  "block_service_get_by_task_id lib junk t = with_blocks (block_get_by_task_id lib junk t)"

definition block_service_get_by_task_and_state where
  "block_service_get_by_task_and_state lib junk t state = with_blocks (block_get_by_task_and_state lib junk t state)"

definition block_service_count_by_task_and_state where
  "block_service_count_by_task_and_state lib t state = with_blocks (block_count_by_task_and_state lib t state)"

definition block_service_update where
  "block_service_update lib b = with_blocks (block_update lib b)"

definition block_service_remove where
  "block_service_remove lib i = with_blocks (block_remove lib i)"

text \<open>
  A file is cut into blocks, which are added one by one. The loop is that of \<open>add\<close> for a file; \<open>add\<close>, which adds one
  block, is an argument. Without end when the size of a block is not positive.
\<close>

definition default_block_bytes :: u64 where "default_block_bytes = 128 * 1024 * 1024"

definition next_block :: "BlockEntity \<Rightarrow> ClientFileEntity \<Rightarrow> u64 \<Rightarrow> u64 \<Rightarrow> u64 \<Rightarrow> BlockEntity" where
  "next_block junk file_entity task block_bytes offset =
     (new_block junk)
       \<lparr>block_file_id := client_file_id file_entity, block_offset := offset,
        block_size := (if sint (client_file_size file_entity - offset) \<ge> sint block_bytes then block_bytes
                       else client_file_size file_entity - offset),
        block_task_id := task, block_state := Block_Waiting\<rparr>"

partial_function (option) add_blocks ::
  "(BlockEntity \<Rightarrow> 's \<Rightarrow> (bool \<times> 's) option) \<Rightarrow> BlockEntity \<Rightarrow> ClientFileEntity \<Rightarrow> u64 \<Rightarrow> u64 \<Rightarrow> u64 \<Rightarrow> 's \<Rightarrow> (bool \<times> 's) option" where
  "add_blocks add junk file_entity task block_bytes offset s =
     (if sint offset < sint (client_file_size file_entity)
      then let b = next_block junk file_entity task block_bytes offset in
           do {
             (is_succeed, s) \<leftarrow> add b s;
             if \<not> is_succeed then Some (False, s)
             else add_blocks add junk file_entity task block_bytes (offset + block_size b) s
           }
      else Some (True, s))"

definition block_service_add_file where
  "block_service_add_file lib junk file_entity task block_bytes s =
     add_blocks (block_service_add lib) junk file_entity task block_bytes 0 s"

section \<open>\<open>TaskService\<close>\<close>

definition task_service_init :: "'m sqlite3 \<Rightarrow> 'm client_store \<Rightarrow> 'm client_store option" where
  "task_service_init lib s =
     do {
       (r, w) \<leftarrow> task_init lib (databases s) (m_task_repository s) (sql s);
       (max_task_id, w) \<leftarrow> task_get_max_task_id lib (databases s) r w;
       Some (s\<lparr>m_task_repository := r, sql := w, m_task_counter := (if sint max_task_id < 0 then 0 else max_task_id) + 1\<rparr>)
     }"

definition task_service_get_all where
  "task_service_get_all lib junk = with_tasks (task_get_all lib junk)"

definition task_service_get_by_task_id where
  "task_service_get_by_task_id lib junk i = with_tasks (task_get_by_task_id lib junk i)"

definition task_service_get_by_file_id where
  "task_service_get_by_file_id lib junk i = with_tasks (task_get_by_file_id lib junk i)"

text \<open>The identifier is written into the entity of the caller.\<close>

definition task_service_add :: "'m sqlite3 \<Rightarrow> TaskEntity \<Rightarrow> 'm client_store \<Rightarrow> (bool \<times> TaskEntity \<times> 'm client_store) option" where
  "task_service_add lib t s =
     (let t = t\<lparr>task_id := m_task_counter s\<rparr>; s = s\<lparr>m_task_counter := m_task_counter s + 1\<rparr>
      in do { (ok, s) \<leftarrow> with_tasks (task_add lib t) s; Some (ok, t, s) })"

definition task_service_update where
  "task_service_update lib t = with_tasks (task_update lib t)"

definition task_service_remove where
  "task_service_remove lib i = with_tasks (task_remove lib i)"

definition task_service_get_all_count where
  "task_service_get_all_count lib = with_tasks (task_get_all_count lib)"

section \<open>\<open>ClientFileService\<close>\<close>

definition file_service_init :: "'m sqlite3 \<Rightarrow> 'm client_store \<Rightarrow> 'm client_store option" where
  "file_service_init lib s =
     do {
       (r, w) \<leftarrow> file_init lib (databases s) (m_client_file_repository s) (sql s);
       Some (s\<lparr>m_client_file_repository := r, sql := w\<rparr>)
     }"

definition file_service_get_all where
  "file_service_get_all lib = with_files (file_get_all lib)"

definition file_service_add where
  "file_service_add lib f s =
     (if sint (client_file_id f) < 0 then Some (False, s) else with_files (file_add lib f) s)"

text \<open>The identifier is an \<open>int32_t\<close> here and an \<open>int64_t\<close> in the repository.\<close>

definition file_service_get_by_file_id where
  "file_service_get_by_file_id lib (i :: u32) = with_files (file_get_by_id lib (scast i))"

definition file_service_update where
  "file_service_update lib f = with_files (file_update lib f)"

definition file_service_remove where
  "file_service_remove lib i = with_files (file_remove lib i)"

definition file_service_get_by_md5 where
  "file_service_get_by_md5 lib md5 s =
     do {
       (f, w) \<leftarrow> file_get_by_md5 lib (databases s) md5 (m_client_file_repository s) (sql s);
       Some (f, s\<lparr>sql := w\<rparr>)
     }"

section \<open>What the scheduling sees of the services\<close>

text \<open>The operations of the block service and the task service that others call through their references.\<close>

record 's client_ops =
  op_block_add :: "BlockEntity \<Rightarrow> 's \<Rightarrow> (bool \<times> 's) option"
  op_block_by_id :: "u64 \<Rightarrow> 's \<Rightarrow> (BlockEntity option \<times> 's) option"
  op_blocks_of_task :: "u64 \<Rightarrow> 's \<Rightarrow> (BlockEntity list \<times> 's) option"
  op_block_update :: "BlockEntity \<Rightarrow> 's \<Rightarrow> (bool \<times> 's) option"
  op_block_count :: "u64 \<Rightarrow> BlockState \<Rightarrow> 's \<Rightarrow> (u64 \<times> 's) option"
  op_task_by_id :: "u64 \<Rightarrow> 's \<Rightarrow> (TaskEntity option \<times> 's) option"
  op_task_update :: "TaskEntity \<Rightarrow> 's \<Rightarrow> (bool \<times> 's) option"

definition client_ops :: "'m sqlite3 \<Rightarrow> BlockEntity \<Rightarrow> TaskState \<Rightarrow> 'm client_store client_ops" where
  "client_ops lib junk task_junk =
     \<lparr>op_block_add = block_service_add lib,
      op_block_by_id = block_service_get_by_id lib junk,
      op_blocks_of_task = block_service_get_by_task_id lib junk,
      op_block_update = block_service_update lib,
      op_block_count = block_service_count_by_task_and_state lib,
      op_task_by_id = task_service_get_by_task_id lib task_junk,
      op_task_update = task_service_update lib\<rparr>"

end
