(* ===== verification/Sqlite_Engine.thy ===== *)
theory Sqlite_Engine
  imports Table_Query
begin

text \<open>
  A small library in the place of SQLite: it knows a list of texts with the statements that they become for given
  parameters, keeps its statements in a list and a database beside. It has the laws that the
  documentation states of SQLite, for the statements of its list.
\<close>

section \<open>Templates\<close>

type_synonym templates = "(string \<times> (SqlValue list \<Rightarrow> sql_statement)) list"

definition template_statements :: "templates \<Rightarrow> sql_statement set" where
  "template_statements ts = {s. \<exists>(x, f) \<in> set ts. render s = x \<and> s = f (params s)}"

definition templates_ok :: "templates \<Rightarrow> bool" where
  "templates_ok ts \<longleftrightarrow> distinct (map fst ts) \<and> list_all (\<lambda>(x, f). \<forall>ps. column_names (f ps) = column_names (f [])) ts"

definition engine_knows :: "templates \<Rightarrow> string \<Rightarrow> bool" where
  "engine_knows ts x \<longleftrightarrow> map_of ts x \<noteq> None"

definition engine_parses :: "templates \<Rightarrow> string \<Rightarrow> db \<Rightarrow> bool" where
  "engine_parses ts x db = engine_knows ts x"

definition engine_names :: "templates \<Rightarrow> string \<Rightarrow> string list" where
  "engine_names ts x = (case map_of ts x of Some f \<Rightarrow> column_names (f []) | None \<Rightarrow> [])"

definition engine_run :: "templates \<Rightarrow> string \<Rightarrow> SqlValue list \<Rightarrow> db \<Rightarrow> (SqlValue list list \<times> db) option" where
  "engine_run ts x ps db = (case map_of ts x of Some f \<Rightarrow> effect (f ps) db | None \<Rightarrow> None)"

lemma template_found:
  assumes "templates_ok ts" "s \<in> template_statements ts"
  obtains f where "map_of ts (render s) = Some f" "f (params s) = s" "column_names (f []) = column_names s"
proof -
  obtain f where f: "(render s, f) \<in> set ts" "s = f (params s)"
    using assms(2) by (auto simp: template_statements_def)
  have "map_of ts (render s) = Some f"
    using assms(1) f(1) by (auto simp: templates_ok_def intro: map_of_is_SomeI)
  moreover have "column_names (f (params s)) = column_names (f [])"
    using bspec [OF assms(1) [unfolded templates_ok_def list_all_iff, THEN conjunct2] f(1)] by blast
  ultimately show thesis using that f(2) by metis
qed

lemma engine_understands:
  assumes "templates_ok ts"
  shows "sqlite_understands (engine_parses ts) (engine_names ts) (engine_run ts) (template_statements ts)"
  unfolding sqlite_understands_def
proof (intro ballI allI impI)
  fix s db
  assume "s \<in> template_statements ts"
  then obtain f where "map_of ts (render s) = Some f" "f (params s) = s" "column_names (f []) = column_names s"
    using template_found [OF assms] by blast
  then show "engine_parses ts (render s) db \<and> engine_names ts (render s) = column_names s \<and>
      (case effect s db of None \<Rightarrow> engine_run ts (render s) (params s) db = None
       | Some (rows, db') \<Rightarrow> \<exists>rows'. engine_run ts (render s) (params s) db = Some (rows', db') \<and> mset rows' = mset rows)"
    by (simp add: engine_parses_def engine_knows_def engine_names_def engine_run_def split: option.splits)
qed

section \<open>The library\<close>

record engine =
  en_db :: db
  en_stmts :: "stmt_view list"

definition engine_view :: "engine \<Rightarrow> lib_view" where
  "engine_view m =
     \<lparr>lv_db = en_db m, lv_stmts = (\<lambda>h. if h < length (en_stmts m) then Some (en_stmts m ! h) else None)\<rparr>"

definition engine_set :: "nat \<Rightarrow> stmt_view \<Rightarrow> engine \<Rightarrow> engine" where
  "engine_set h s m = m\<lparr>en_stmts := (en_stmts m)[h := s]\<rparr>"

type_synonym sql_run = "string \<Rightarrow> SqlValue list \<Rightarrow> db \<Rightarrow> (SqlValue list list \<times> db) option"

definition engine_step :: "sql_run \<Rightarrow> nat \<Rightarrow> engine \<Rightarrow> int \<times> engine" where
  "engine_step run h m =
     (let s = en_stmts m ! h in
      case sv_rows s of
        None \<Rightarrow>
          (case run (sv_text s) (sv_params s) (en_db m) of
             None \<Rightarrow> (1, engine_set h (s\<lparr>sv_rows := Some []\<rparr>) m)
           | Some (rows, db') \<Rightarrow>
               (if rows = [] then SQLITE_DONE else SQLITE_ROW, (engine_set h (s\<lparr>sv_rows := Some rows\<rparr>) m)\<lparr>en_db := db'\<rparr>))
      | Some rows \<Rightarrow>
          (if tl rows = [] then SQLITE_DONE else SQLITE_ROW, engine_set h (s\<lparr>sv_rows := Some (tl rows)\<rparr>) m))"

definition plain_engine :: "(string \<Rightarrow> bool) \<Rightarrow> (string \<Rightarrow> string list) \<Rightarrow> sql_run \<Rightarrow> engine sqlite3" where
  "plain_engine knows names run =
     \<lparr>lib_parent_exists = (\<lambda>p m. True),
      lib_create_parent = (\<lambda>p m. (True, m)),
      lib_open = (\<lambda>p m. (SQLITE_OK, True, m)),
      lib_prepare = (\<lambda>x m. if \<not> knows x then (1, 0, m)
                           else (SQLITE_OK, length (en_stmts m), m\<lparr>en_stmts := en_stmts m @ [fresh_stmt x]\<rparr>)),
      lib_bind = (\<lambda>h i v m. (SQLITE_OK, engine_set h ((en_stmts m ! h)\<lparr>sv_params := (sv_params (en_stmts m ! h))[nat (i - 1) := v]\<rparr>) m)),
      lib_reset = (\<lambda>h m. engine_set h ((en_stmts m ! h)\<lparr>sv_rows := None\<rparr>) m),
      lib_clear_bindings = (\<lambda>h m. m),
      lib_step = engine_step run,
      lib_column_count = (\<lambda>h m. length (names (sv_text (en_stmts m ! h)))),
      lib_column_name = (\<lambda>h i m. names (sv_text (en_stmts m ! h)) ! i),
      lib_column = (\<lambda>h i m. hd (the (sv_rows (en_stmts m ! h))) ! i),
      lib_finalize = (\<lambda>h m. m),
      lib_close = (\<lambda>m. m),
      lib_widen = (\<lambda>w. 0)\<rparr>"

lemma engine_stmt: "lv_stmts (engine_view m) h = Some s \<longleftrightarrow> h < length (en_stmts m) \<and> s = en_stmts m ! h"
  by (auto simp: engine_view_def)

lemma engine_view_set: "h < length (en_stmts m) \<Longrightarrow> engine_view (engine_set h s m) = set_stmt h s (engine_view m)"
  by (auto simp: engine_view_def engine_set_def set_stmt_def fun_eq_iff)

lemma engine_view_sel [simp]: "lv_db (engine_view m) = en_db m" "engine_view (m\<lparr>en_db := db\<rparr>) = engine_view m\<lparr>lv_db := db\<rparr>"
  by (simp_all add: engine_view_def fun_eq_iff)

lemma plain_engine_calls: "sqlite_calls (plain_engine knows names run) engine_view (\<lambda>x db. knows x) names run"
proof -
  have 1: "\<exists>h m'. lib_prepare (plain_engine knows names run) x m = (SQLITE_OK, h, m') \<and> lv_stmts (engine_view m) h = None \<and>
      engine_view m' = set_stmt h (fresh_stmt x) (engine_view m)" if "knows x" for m x
    using that by (auto simp: plain_engine_def engine_view_def set_stmt_def fun_eq_iff nth_append)
  have 2: "\<exists>m'. lib_bind (plain_engine knows names run) h (int i + 1) x m = (SQLITE_OK, m') \<and>
      engine_view m' = set_stmt h (s\<lparr>sv_params := (sv_params s)[i := x]\<rparr>) (engine_view m)"
    if "lv_stmts (engine_view m) h = Some s" for m h s i x
    using that by (simp add: engine_stmt plain_engine_def engine_view_set)
  have 3: "engine_view (lib_reset (plain_engine knows names run) h m) = set_stmt h (s\<lparr>sv_rows := None\<rparr>) (engine_view m)"
    if "lv_stmts (engine_view m) h = Some s" for m h s
    using that by (simp add: engine_stmt plain_engine_def engine_view_set)
  have 4: "\<exists>m'. lib_step (plain_engine knows names run) h m = (fst (steps_to h rows s (engine_view m)), m') \<and>
      engine_view m' = (snd (steps_to h rows s (engine_view m)))\<lparr>lv_db := db'\<rparr>"
    if "lv_stmts (engine_view m) h = Some s" "sv_rows s = None"
      "run (sv_text s) (sv_params s) (lv_db (engine_view m)) = Some (rows, db')" for m h s rows db'
    using that by (simp add: engine_stmt plain_engine_def engine_step_def engine_view_set steps_to_def Let_def)
  have 5: "\<exists>rc m'. lib_step (plain_engine knows names run) h m = (rc, m') \<and> rc \<noteq> SQLITE_DONE \<and> rc \<noteq> SQLITE_ROW \<and>
      engine_view m' = set_stmt h (s\<lparr>sv_rows := Some []\<rparr>) (engine_view m)"
    if "lv_stmts (engine_view m) h = Some s" "sv_rows s = None"
      "run (sv_text s) (sv_params s) (lv_db (engine_view m)) = None" for m h s
    using that by (simp add: engine_stmt plain_engine_def engine_step_def engine_view_set Let_def)
  have 6: "\<exists>m'. lib_step (plain_engine knows names run) h m = (fst (steps_to h rows s (engine_view m)), m') \<and>
      engine_view m' = snd (steps_to h rows s (engine_view m))"
    if "lv_stmts (engine_view m) h = Some s" "sv_rows s = Some (r # rows)" for m h s r rows
    using that by (simp add: engine_stmt plain_engine_def engine_step_def engine_view_set steps_to_def Let_def)
  have 7: "lib_column_count (plain_engine knows names run) h m = length (names (sv_text s))"
    if "lv_stmts (engine_view m) h = Some s" for m h s
    using that by (simp add: engine_stmt plain_engine_def)
  have 8: "lib_column_name (plain_engine knows names run) h i m = names (sv_text s) ! i"
    if "lv_stmts (engine_view m) h = Some s" for m h s i
    using that by (simp add: engine_stmt plain_engine_def)
  have 9: "lib_column (plain_engine knows names run) h i m = r ! i"
    if "lv_stmts (engine_view m) h = Some s" "sv_rows s = Some (r # rows)" for m h s r rows i
    using that by (auto simp: engine_stmt plain_engine_def)
  show ?thesis
    unfolding sqlite_calls_def
    by (intro conjI)
      (use 1 in blast, use 2 in blast, use 3 in blast, use 4 in blast, use 5 in blast, use 6 in blast, use 7 in blast,
       use 8 in blast, use 9 in blast)
qed

definition engine_lib :: "templates \<Rightarrow> engine sqlite3" where
  "engine_lib ts = plain_engine (engine_knows ts) (engine_names ts) (engine_run ts)"

lemma engine_calls: "sqlite_calls (engine_lib ts) engine_view (engine_parses ts) (engine_names ts) (engine_run ts)"
  using plain_engine_calls by (simp add: engine_lib_def engine_parses_def [abs_def])

lemma engine_ok:
  "templates_ok ts \<Longrightarrow>
   sqlite_ok (engine_lib ts) engine_view (engine_parses ts) (engine_names ts) (engine_run ts) (template_statements ts)"
  by (simp add: sqlite_ok_def engine_calls engine_understands)

definition empty_engine :: "db \<Rightarrow> engine" where
  "empty_engine db = \<lparr>en_db = db, en_stmts = []\<rparr>"

definition engine_world :: "db \<Rightarrow> engine sql_world" where
  "engine_world db = \<lparr>driver = Some (new_driver\<lparr>m_db := True\<rparr>), library = empty_engine db\<rparr>"

lemma engine_world_ok [simp]: "world_ok engine_view (engine_world db)" "db_of engine_view (engine_world db) = db"
  by (simp_all add: world_ok_def engine_world_def new_driver_def empty_engine_def)

end
