(* ===== verification/Repository_Laws.thy ===== *)
theory Repository_Laws
  imports Repositories Sqlite_Engine
begin

text \<open>
  What the operations of a repository do to its table, for any table whose columns are integers and texts: the
  calls of the table query run the statements with the values of the entity and the keys of the condition.
\<close>

section \<open>Cells and conditions\<close>

fun data_value :: "CellData \<Rightarrow> SqlValue" where
  "data_value (Int64_Data w) = Integer_Value w"
| "data_value (String_Data s) = Text_Value (c_str s)"
| "data_value _ = Null_Value"

definition values_of :: "(string \<times> CellData) list \<Rightarrow> (string \<times> SqlValue) list" where
  "values_of vs = map (\<lambda>(n, d). (n, data_value d)) vs"

fun value_ok :: "SqlTableItem \<Rightarrow> string \<times> CellData \<Rightarrow> bool" where
  "value_ok table (n, d) \<longleftrightarrow>
     (case get_column_info n table of
        None \<Rightarrow> False
      | Some c \<Rightarrow> (case d of Int64_Data _ \<Rightarrow> data_type c = Int64 | String_Data _ \<Rightarrow> data_type c = String | _ \<Rightarrow> False))"

lemma cells_for_ok:
  "list_all (value_ok table) vs \<Longrightarrow>
   \<exists>cells. cells_for table vs = Some cells \<and> map cell_column cells = map fst vs \<and>
     list_all2 (\<lambda>cell v. has_column_name (cell_column cell) table \<and> bound_value (lib_widen lib) cell = Some (Some v)) cells
       (map (\<lambda>(n, d). data_value d) vs)"
proof (induction vs)
  case (Cons p vs)
  obtain n d where p: "p = (n, d)" by (cases p)
  with Cons.prems obtain c where c: "get_column_info n table = Some c"
    "case d of Int64_Data _ \<Rightarrow> data_type c = Int64 | String_Data _ \<Rightarrow> data_type c = String | _ \<Rightarrow> False"
    by (auto split: option.splits)
  have b: "bound_value (lib_widen lib) ((get_default_cell c)\<lparr>cell_data := d\<rparr>) = Some (Some (data_value d))"
    using c(2) by (cases d) (simp_all add: bound_value_def get_default_cell_def)
  have col: "cell_column ((get_default_cell c)\<lparr>cell_data := d\<rparr>) = n" "has_column_name n table"
    using get_column_info_name [OF c(1)] get_column_info_None [where name = n and t = table] c(1) by (auto simp: get_default_cell_def)
  from Cons obtain cells where "cells_for table vs = Some cells" "map cell_column cells = map fst vs"
    "list_all2 (\<lambda>cell v. has_column_name (cell_column cell) table \<and> bound_value (lib_widen lib) cell = Some (Some v)) cells
       (map (\<lambda>(n, d). data_value d) vs)" by auto
  with c(1) b col show ?case by (simp add: p)
qed simp

lemma zip_values: "zip (map fst vs) (map (\<lambda>(n, d). data_value d) vs) = values_of vs"
  by (induction vs) (auto simp: values_of_def)

definition key_ok :: "SqlTableItem \<Rightarrow> string \<times> u64 \<Rightarrow> bool" where
  "key_ok table p \<longleftrightarrow> (case get_column_info (fst p) table of Some c \<Rightarrow> data_type c = Int64 | None \<Rightarrow> False)"

definition key_group :: "string \<times> u64 \<Rightarrow> group" where
  "key_group p = [(fst p, Greater_Equal, sint (snd p)), (fst p, Lesser_Equal, sint (snd p))]"

definition point_where :: "(string \<times> u64) list \<Rightarrow> group list list" where
  "point_where ps = (if ps = [] then [] else [map key_group ps])"

lemma point_condition_ok:
  assumes "key_ok table p"
  shows "\<exists>item. point_condition table p = Some item \<and> item_ok table item \<and> item_groups item = [key_group p]"
proof -
  obtain n v where p: "p = (n, v)" by (cases p)
  with assms obtain c where c: "get_column_info n table = Some c" "data_type c = Int64"
    by (auto simp: key_ok_def split: option.splits)
  have mem: "c \<in> set (column_items table)"
    using c(1) unfolding get_column_info_def find_Some_iff by (metis nth_mem)
  have "item_groups \<lparr>is_set = True, column_info = c, item_condition = range_pointer (range_of_value (sint v)),
      is_desc_order = None\<rparr> = [key_group p]"
    using get_column_info_name [OF c(1)]
    by (simp add: p item_groups_def range_pointer_def get_integer_intervals_def range_of_value_def key_group_def
        integer_interval_same point_interval_wf interval_group_def get_value_def is_open_def)
  with c mem show ?thesis by (simp add: p point_condition_def item_ok_def is_integer_type_def)
qed

lemma point_conditions_ok:
  "list_all (key_ok table) ps \<Longrightarrow>
   \<exists>items. point_conditions table ps = Some items \<and> list_all (item_ok table) items \<and>
     map item_groups items = map (\<lambda>p. [key_group p]) ps"
proof (induction ps)
  case (Cons p ps)
  then obtain items where "point_conditions table ps = Some items" "list_all (item_ok table) items"
    "map item_groups items = map (\<lambda>p. [key_group p]) ps" by auto
  moreover obtain item where "point_condition table p = Some item" "item_ok table item" "item_groups item = [key_group p]"
    using Cons.prems point_condition_ok [of table p] by auto
  ultimately show ?case by simp
qed simp

lemma where_of_keys:
  assumes "map item_groups items = map (\<lambda>p. [key_group p]) ps"
  shows "where_of items = point_where ps"
proof (cases items)
  case Nil
  with assms show ?thesis by (simp add: where_of_def point_where_def)
next
  case (Cons item rest)
  with assms obtain p qs where ps: "ps = p # qs" "item_groups item = [key_group p]"
    "map item_groups rest = map (\<lambda>p. [key_group p]) qs" by (cases ps) auto
  have "list_all (\<lambda>item. \<exists>g. item_groups item = [g]) rest"
    using ps(3) by (metis (mono_tags, lifting) in_set_conv_nth length_map list_all_length nth_map)
  from where_of_points [OF this, of "[key_group p]"]
  have "where_of items = [key_group p # map (\<lambda>item. hd (item_groups item)) rest]"
    by (simp add: where_of_def Cons ps(2))
  also have "map (\<lambda>item. hd (item_groups item)) rest = map hd (map item_groups rest)" by simp
  also have "\<dots> = map key_group qs" unfolding ps(3) by (simp add: comp_def)
  finally show ?thesis by (simp add: point_where_def ps(1))
qed

lemma where_holds_keys:
  "where_holds (point_where ps) row \<longleftrightarrow> list_all (\<lambda>(n, v). row_integer row n = Some (sint v)) ps"
proof -
  have "list_all (row_compares row) (key_group (n, v)) \<longleftrightarrow> row_integer row n = Some (sint v)" for n v
    by (auto simp: key_group_def split: option.splits)
  then have "list_all (\<lambda>p. list_all (row_compares row) (key_group p)) ps \<longleftrightarrow>
      list_all (\<lambda>(n, v). row_integer row n = Some (sint v)) ps"
    by (induction ps) auto
  then show ?thesis by (simp add: where_holds_def point_where_def list.pred_map comp_def)
qed

lemma where_params_keys:
  "where_params (point_where ps) = concat (map (\<lambda>(n, v). [Integer_Value v, Integer_Value v]) ps)"
proof -
  have "concat (map key_group ps) = concat (map (\<lambda>(n, v). [(n, Greater_Equal, sint v), (n, Lesser_Equal, sint v)]) ps)"
    by (induction ps) (auto simp: key_group_def)
  then have "where_params (point_where ps) =
      map (\<lambda>(c, op, v). Integer_Value (word_of_int v)) (concat (map (\<lambda>(n, v). [(n, Greater_Equal, sint v), (n, Lesser_Equal, sint v)]) ps))"
    by (simp add: where_params_def where_values_def point_where_def comp_def case_prod_beta')
  also have "\<dots> = concat (map (\<lambda>(n, v). [Integer_Value v, Integer_Value v]) ps)"
    by (induction ps) auto
  finally show ?thesis .
qed

section \<open>Operations\<close>

definition r_ok :: "SqlTableItem \<Rightarrow> Repository \<Rightarrow> bool" where
  "r_ok table r \<longleftrightarrow> r_is_init r \<and> r_table r = Some table \<and> tq_ok table (r_table_query r)"

text \<open>The outcome of an operation: its result, and a repository and a world that are in order, with a database.\<close>

definition gives ::
  "('m \<Rightarrow> lib_view) \<Rightarrow> SqlTableItem \<Rightarrow> db \<Rightarrow> ('a \<Rightarrow> bool) \<Rightarrow> ('a \<times> Repository \<times> 'm sql_world) option \<Rightarrow> bool" where
  "gives view table db P x \<longleftrightarrow>
     (\<exists>a r w. x = Some (a, r, w) \<and> P a \<and> r_ok table r \<and> world_ok view w \<and> db_of view w = db)"

lemma givesI:
  "P a \<Longrightarrow> r_ok table r \<Longrightarrow> world_ok view w \<Longrightarrow> db_of view w = db \<Longrightarrow> gives view table db P (Some (a, r, w))"
  by (auto simp: gives_def)

lemma commands_give:
  assumes "commands view table s db x" "r_ok table r"
  shows "gives view table (effect_db s db) (\<lambda>ok. ok \<longleftrightarrow> effect s db \<noteq> None)
    (do { (ok, t, w) \<leftarrow> x; Some (ok, r\<lparr>r_table_query := t\<rparr>, w) })"
  using assms by (auto simp: commands_def gives_def r_ok_def)

lemma repo_insert_gives:
  assumes "sqlite_ok lib view parses names run S" "r_ok table r" "world_ok view w" "list_all (value_ok table) vs" "vs \<noteq> []"
    and "s = Insert_Into (table_name table) (values_of vs)" "s \<in> S" "statement_ok s (db_of view w)"
  shows "gives view table (effect_db s (db_of view w)) (\<lambda>ok. ok \<longleftrightarrow> effect s (db_of view w) \<noteq> None) (repo_insert lib vs r w)"
proof -
  have r: "r_is_init r" "r_table r = Some table" "tq_ok table (r_table_query r)" using assms(2) by (simp_all add: r_ok_def)
  obtain cells where cells: "cells_for table vs = Some cells" "map cell_column cells = map fst vs"
    "list_all2 (\<lambda>cell v. has_column_name (cell_column cell) table \<and> bound_value (lib_widen lib) cell = Some (Some v)) cells
       (map (\<lambda>(n, d). data_value d) vs)"
    using cells_for_ok [OF assms(4)] by blast
  have bind: "cells_bind lib table cells (map (\<lambda>(n, d). data_value d) vs)"
    using cells assms(5) by (auto simp: cells_bind_def)
  have "commands view table s (db_of view w) (tq_insert lib cells (r_table_query r) w)"
    by (rule tq_insert_effect [OF assms(1) r(3) assms(3) bind _ assms(7,8)]) (simp only: assms(6) cells(2) zip_values)
  from commands_give [OF this assms(2)] show ?thesis
    using r(1,2) cells(1) by (simp add: repo_insert_def)
qed

lemma repo_update_gives:
  assumes "sqlite_ok lib view parses names run S" "r_ok table r" "world_ok view w" "list_all (value_ok table) vs" "vs \<noteq> []"
    and "key_ok table key" "s = Update_Set (table_name table) (values_of vs) (point_where [key])" "s \<in> S"
    and "statement_ok s (db_of view w)"
  shows "gives view table (effect_db s (db_of view w)) (\<lambda>ok. ok \<longleftrightarrow> effect s (db_of view w) \<noteq> None) (repo_update lib vs key r w)"
proof -
  have r: "r_is_init r" "r_table r = Some table" "tq_ok table (r_table_query r)" using assms(2) by (simp_all add: r_ok_def)
  obtain cells where cells: "cells_for table vs = Some cells" "map cell_column cells = map fst vs"
    "list_all2 (\<lambda>cell v. has_column_name (cell_column cell) table \<and> bound_value (lib_widen lib) cell = Some (Some v)) cells
       (map (\<lambda>(n, d). data_value d) vs)"
    using cells_for_ok [OF assms(4)] by blast
  have bind: "cells_bind lib table cells (map (\<lambda>(n, d). data_value d) vs)"
    using cells assms(5) by (auto simp: cells_bind_def)
  obtain item where item: "point_condition table key = Some item" "item_ok table item" "item_groups item = [key_group key]"
    using point_condition_ok [OF assms(6)] by blast
  have w: "where_of [item] = point_where [key]" by (rule where_of_keys) (simp add: item)
  have "commands view table s (db_of view w) (tq_update lib cells [item] (r_table_query r) w)"
    by (rule tq_update_effect [OF assms(1) r(3) assms(3) bind _ _ _ assms(8,9)])
      (use item in \<open>simp_all only: assms(7) cells(2) zip_values w list.pred_inject simp_thms not_Cons_self2 list.distinct\<close>)
  from commands_give [OF this assms(2)] show ?thesis
    using r(1,2) cells(1) item(1) by (simp add: repo_update_def)
qed

lemma repo_remove_gives:
  assumes "sqlite_ok lib view parses names run S" "r_ok table r" "world_ok view w" "key_ok table key"
    and "s = Delete_From (table_name table) (point_where [key])" "s \<in> S" "statement_ok s (db_of view w)"
  shows "gives view table (effect_db s (db_of view w)) (\<lambda>ok. ok \<longleftrightarrow> effect s (db_of view w) \<noteq> None) (repo_remove lib key r w)"
proof -
  have r: "r_is_init r" "r_table r = Some table" "tq_ok table (r_table_query r)" using assms(2) by (simp_all add: r_ok_def)
  obtain item where item: "point_condition table key = Some item" "item_ok table item" "item_groups item = [key_group key]"
    using point_condition_ok [OF assms(4)] by blast
  have w: "where_of [item] = point_where [key]" by (rule where_of_keys) (simp add: item)
  have "commands view table s (db_of view w) (tq_remove lib [item] (r_table_query r) w)"
    by (rule tq_remove_effect [OF assms(1) r(3) assms(3) _ _ _ assms(6,7)])
      (use item in \<open>simp_all only: assms(5) w list.pred_inject simp_thms list.distinct\<close>)
  from commands_give [OF this assms(2)] show ?thesis
    using r(1,2) item(1) by (simp add: repo_remove_def)
qed

lemma mset_map_reorder:
  assumes "mset vs = mset (map f xs)"
  obtains ys where "vs = map f ys" "mset ys = mset xs"
proof -
  obtain ys where ys: "length ys = length vs" "mset (zip vs ys) = mset (zip (map f xs) xs)"
    using ex_mset_zip_left [where xs = "map f xs" and ys = xs and xs' = vs] assms by auto
  have "v = f y" if "(v, y) \<in> set (zip vs ys)" for v y
    using that mset_eq_setD [OF ys(2)] by (auto simp: zip_map1 zip_same_conv_map)
  then have "map fst (zip vs ys) = map f (map snd (zip vs ys))" by auto
  then have "vs = map f ys" using ys(1) by simp
  moreover have "mset (map snd (zip vs ys)) = mset (map snd (zip (map f xs) xs))" using ys(2) by (metis mset_map)
  then have "mset ys = mset xs" using ys(1) by simp
  ultimately show thesis by (rule that)
qed

text \<open>A selection reads all columns; its rows come in some order.\<close>

definition row_values :: "SqlTableItem \<Rightarrow> row \<Rightarrow> SqlValue list" where
  "row_values table row = map (row_get row) (map column_name (column_items table))"

lemma repo_select_gives:
  assumes "sqlite_ok lib view parses names run S" "r_ok table r" "world_ok view w" "list_all (key_ok table) keys"
    and "s = Select_From (map column_name (column_items table)) (table_name table) (point_where keys)" "s \<in> S"
    and "statement_ok s (db_of view w)" "db_of view w (table_name table) = Some T"
  shows "gives view table (db_of view w)
    (\<lambda>data. \<exists>rows. data = map (\<lambda>row. cells_of (map column_name (column_items table)) (row_values table row)) rows \<and>
       mset rows = mset (filter (where_holds (point_where keys)) (tbl_rows T)))
    (repo_select lib keys r w)"
proof -
  let ?cols = "map column_name (column_items table)"
  let ?rows = "filter (where_holds (point_where keys)) (tbl_rows T)"
  have r: "r_is_init r" "r_table r = Some table" "tq_ok table (r_table_query r)" using assms(2) by (simp_all add: r_ok_def)
  obtain items where items: "point_conditions table keys = Some items" "list_all (item_ok table) items"
    "map item_groups items = map (\<lambda>p. [key_group p]) keys"
    using point_conditions_ok [OF assms(4)] by blast
  have w: "where_of items = point_where keys" by (rule where_of_keys) (rule items(3))
  have e: "effect s (db_of view w) = Some (map (row_values table) ?rows, db_of view w)"
    using assms(5,8) by (simp add: row_values_def [abs_def])
  have cols: "column_items table \<noteq> []" using r(3) by (auto simp: tq_ok_def table_ok_def table_is_valid_def)
  have "selects view table ?cols (map (row_values table) ?rows) (db_of view w)
      (tq_select lib (column_items table) items (r_table_query r) w)"
    by (rule tq_select_effect [OF assms(1) r(3) assms(3) items(2) order_refl cols _ assms(6,7) e]) (simp only: assms(5) w)
  then obtain vals t w' where vals: "tq_select lib (column_items table) items (r_table_query r) w =
      Some (map (cells_of ?cols) vals, t, w')" "mset vals = mset (map (row_values table) ?rows)"
    "tq_ok table t" "world_ok view w'" "db_of view w' = db_of view w"
    by (auto simp: selects_def)
  obtain rows where rows: "vals = map (row_values table) rows" "mset rows = mset ?rows"
    using vals(2) by (rule mset_map_reorder)
  show ?thesis
    using r(1,2) items(1) vals rows assms(2)
    by (auto simp: repo_select_def r_ok_def comp_def intro!: givesI exI [of _ rows])
qed

text \<open>The table of a database with the rows of the entities \<open>es\<close>, each given by its columns and data.\<close>

definition table_of :: "SqlTableItem \<Rightarrow> (string \<times> CellData) list list \<Rightarrow> db_table" where
  "table_of table ess = \<lparr>tbl_columns = map column_of (column_items table), tbl_rows = map values_of ess\<rparr>"

lemma table_of_sel [simp]:
  "tbl_columns (table_of table ess) = map column_of (column_items table)" "tbl_rows (table_of table ess) = map values_of ess"
  by (simp_all add: table_of_def)

lemma values_of_names [simp]: "map fst (values_of vs) = map fst vs"
  by (auto simp: values_of_def)

lemma map_of_values [simp]: "map_of (values_of vs) n = map_option data_value (map_of vs n)"
  by (induction vs) (auto simp: values_of_def)

lemma row_get_values [simp]: "row_get (values_of vs) n = (case map_of vs n of Some d \<Rightarrow> data_value d | None \<Rightarrow> Null_Value)"
  by (simp add: row_get_def split: option.split)

lemma row_integer_values [simp]:
  "row_integer (values_of vs) n = (case map_of vs n of Some (Int64_Data w) \<Rightarrow> Some (sint w) | _ \<Rightarrow> None)"
  by (auto simp: row_integer_def split: option.split CellData.split)

definition full :: "SqlTableItem \<Rightarrow> (string \<times> CellData) list \<Rightarrow> bool" where
  "full table vs \<longleftrightarrow> map fst vs = map column_name (column_items table) \<and> list_all (value_ok table) vs"

lemma get_member:
  assumes "distinct (map column_name (column_items table))" "c \<in> set (column_items table)"
  shows "get_column_info (column_name c) table = Some c"
proof -
  obtain i where i: "i < length (column_items table)" "column_items table ! i = c"
    using assms(2) by (auto simp: in_set_conv_nth)
  have "column_name (column_items table ! j) \<noteq> column_name c" if "j < i" for j
    using that i assms(1) by (auto simp: distinct_conv_nth)
  with i show ?thesis by (auto simp: get_column_info_def find_Some_iff)
qed

lemma value_fits:
  "value_ok table (n, d) \<Longrightarrow> get_column_info n table = Some c \<Longrightarrow> fits (column_of c) (data_value d)"
  by (cases d) (auto simp: fits_def column_of_def try_format_data_type_def c_str_def dest: set_takeWhileD)

lemma vals_fit_values:
  assumes "list_all (value_ok table) vs" "distinct (map fst vs)"
  shows "vals_fit (map column_of (column_items table)) (values_of vs)"
proof -
  have "\<exists>c \<in> set (map column_of (column_items table)). col_name c = n \<and> fits c (data_value d)" if "(n, d) \<in> set vs" for n d
  proof -
    have v: "value_ok table (n, d)" using assms(1) that by (auto simp: list_all_iff)
    then obtain c where c: "get_column_info n table = Some c" by (auto split: option.splits)
    have "c \<in> set (column_items table)"
      using c unfolding get_column_info_def find_Some_iff by (metis nth_mem)
    with value_fits [OF v c] get_column_info_name [OF c] show ?thesis by (auto simp: column_of_def)
  qed
  then show ?thesis using assms(2) by (auto simp: vals_fit_def values_of_def comp_def case_prod_beta')
qed

lemma row_typed_full:
  assumes "full table vs" "distinct (map column_name (column_items table))"
  shows "row_typed (map column_of (column_items table)) (values_of vs)"
proof -
  have names: "map fst vs = map column_name (column_items table)" and v: "list_all (value_ok table) vs"
    using assms(1) by (simp_all add: full_def)
  have len: "length vs = length (column_items table)" using arg_cong [OF names, of length] by simp
  have "fits (column_of (column_items table ! i)) (snd (values_of vs ! i))" if i: "i < length (column_items table)" for i
  proof -
    have n: "fst (vs ! i) = column_name (column_items table ! i)"
      using arg_cong [OF names, of "\<lambda>l. l ! i"] len i by simp
    have "value_ok table (vs ! i)" using v len i by (simp add: list_all_length)
    moreover have "get_column_info (fst (vs ! i)) table = Some (column_items table ! i)"
      unfolding n by (rule get_member [OF assms(2)]) (use i in simp)
    ultimately have "fits (column_of (column_items table ! i)) (data_value (snd (vs ! i)))"
      by (intro value_fits) simp_all
    then show ?thesis using len i by (simp add: values_of_def case_prod_beta')
  qed
  then have "list_all2 (\<lambda>c (n, v). fits c v) (map column_of (column_items table)) (values_of vs)"
    using len by (simp add: list_all2_conv_all_nth values_of_def case_prod_beta')
  moreover have "map col_name (map column_of (column_items table)) = map column_name (column_items table)"
    by (simp add: column_of_def)
  ultimately show ?thesis by (simp only: row_typed_def values_of_names names simp_thms)
qed

lemma table_typed_full:
  assumes "list_all (full table) ess" "distinct (map column_name (column_items table))"
  shows "table_typed (table_of table ess)"
proof -
  have "map col_name (map column_of (column_items table)) = map column_name (column_items table)"
    by (simp add: column_of_def)
  with assms row_typed_full [OF _ assms(2)] show ?thesis
    by (auto simp: table_typed_def list_all_iff simp del: map_map)
qed

lemma where_fits_keys:
  assumes "list_all (key_ok table) keys"
  shows "where_fits (map column_of (column_items table)) (point_where keys)"
proof -
  have "\<exists>c \<in> set (map column_of (column_items table)). col_name c = n \<and> col_type c = ''INTEGER''" if "(n, v) \<in> set keys" for n v
  proof -
    have "key_ok table (n, v)" using assms that by (simp add: list_all_iff)
    then obtain c where c: "get_column_info n table = Some c" "data_type c = Int64"
      by (auto simp: key_ok_def split: option.splits)
    have "c \<in> set (column_items table)"
      using c unfolding get_column_info_def find_Some_iff by (metis nth_mem)
    moreover have "col_name (column_of c) = n" "col_type (column_of c) = ''INTEGER''"
      using c get_column_info_name [OF c(1)] by (simp_all add: column_of_def try_format_data_type_def)
    ultimately show ?thesis by (intro bexI [of _ "column_of c"]) simp_all
  qed
  moreover have "- (2 ^ 63) \<le> sint v" "sint v < 2 ^ 63" for v :: u64
    using sint_greater_eq [of v] sint_less [of v] by simp_all
  ultimately show ?thesis by (fastforce simp: where_fits_def point_where_def key_group_def)
qed

section \<open>Entities in a table\<close>

definition key_holds :: "(string \<times> u64) list \<Rightarrow> (string \<times> CellData) list \<Rightarrow> bool" where
  "key_holds keys vs \<longleftrightarrow> list_all (\<lambda>(n, v). map_of vs n = Some (Int64_Data v)) keys"

lemma where_holds_values: "where_holds (point_where keys) (values_of vs) \<longleftrightarrow> key_holds keys vs"
proof -
  have "(case map_of vs n of Some (Int64_Data w) \<Rightarrow> Some (sint w) | _ \<Rightarrow> None) = Some (sint v) \<longleftrightarrow>
      map_of vs n = Some (Int64_Data v)" for n v
    by (auto split: option.splits CellData.splits simp: signed_word_eqI)
  then show ?thesis by (simp add: where_holds_keys key_holds_def)
qed

text \<open>The cells in which a query gives the data of an entity.\<close>

definition entity_cells :: "(string \<times> CellData) list \<Rightarrow> SqlCell list" where
  "entity_cells vs = map (\<lambda>(n, d). cell_of n (data_value d)) vs"

lemma distinct_columns: "r_ok table r \<Longrightarrow> distinct (map column_name (column_items table))"
  by (simp add: r_ok_def tq_ok_def table_ok_def)

lemma cells_of_full:
  assumes "full table vs" "distinct (map column_name (column_items table))"
  shows "cells_of (map column_name (column_items table)) (row_values table (values_of vs)) = entity_cells vs"
proof -
  have names: "map column_name (column_items table) = map fst vs" using assms(1) by (simp add: full_def)
  have "map_of vs n = Some d" if "(n, d) \<in> set vs" for n d
    using that assms(2) names by (simp add: map_of_is_SomeI)
  then have "row_values table (values_of vs) = map (\<lambda>(n, d). data_value d) vs"
    by (simp add: row_values_def names comp_def) (auto split: option.split)
  then show ?thesis
    by (simp add: cells_of_def entity_cells_def names zip_map_map zip_same_conv_map case_prod_beta')
qed

text \<open>The entities \<open>es\<close> in a table, each with the data \<open>vals_of e\<close> from which it is read back.\<close>

definition entities ::
  "SqlTableItem \<Rightarrow> ('e \<Rightarrow> (string \<times> CellData) list) \<Rightarrow> (SqlCell list \<Rightarrow> 'e option) \<Rightarrow> 'e list \<Rightarrow> db \<Rightarrow> bool" where
  "entities table vals_of read es db \<longleftrightarrow>
     db (table_name table) = Some (table_of table (map vals_of es)) \<and>
     (\<forall>e \<in> set es. full table (vals_of e) \<and> read (entity_cells (vals_of e)) = Some e)"

lemma entities_typed:
  assumes "entities table vals_of read es db" "distinct (map column_name (column_items table))"
  shows "table_typed (table_of table (map vals_of es))"
  by (rule table_typed_full) (use assms in \<open>auto simp: entities_def list_all_iff\<close>)

lemma read_rows_map: "(\<And>x. x \<in> set xs \<Longrightarrow> read (f x) = Some (g x)) \<Longrightarrow> read_rows read (map f xs) = Some (map g xs)"
  by (induction xs) simp_all

lemma select_ok:
  assumes "entities table vals_of read es db" "distinct (map column_name (column_items table))" "list_all (key_ok table) keys"
  shows "statement_ok (Select_From (map column_name (column_items table)) (table_name table) (point_where keys)) db"
    "statement_ok (Count_From (table_name table) (point_where keys)) db"
    "statement_ok (Delete_From (table_name table) (point_where keys)) db"
  using entities_typed [OF assms(1,2)] where_fits_keys [OF assms(3)] assms(1)
  by (simp_all add: entities_def image_image) (auto simp: column_of_def)

lemma repo_get_gives:
  assumes "sqlite_ok lib view parses names run S" "r_ok table r" "world_ok view w" "list_all (key_ok table) keys"
    and "entities table vals_of read es (db_of view w)"
    and "Select_From (map column_name (column_items table)) (table_name table) (point_where keys) \<in> S"
  shows "gives view table (db_of view w) (\<lambda>xs. mset xs = mset (filter (\<lambda>e. key_holds keys (vals_of e)) es))
    (repo_get lib read keys r w)"
proof -
  let ?cols = "map column_name (column_items table)"
  note d = distinct_columns [OF assms(2)]
  have T: "db_of view w (table_name table) = Some (table_of table (map vals_of es))"
    using assms(5) by (simp add: entities_def)
  obtain rows r' w' where rows: "repo_select lib keys r w = Some (map (\<lambda>row. cells_of ?cols (row_values table row)) rows, r', w')"
    "mset rows = mset (filter (where_holds (point_where keys)) (map values_of (map vals_of es)))"
    "r_ok table r'" "world_ok view w'" "db_of view w' = db_of view w"
    using repo_select_gives [OF assms(1-4) refl assms(6) select_ok(1) [OF assms(5) d assms(4)] T] by (auto simp: gives_def)
  have "filter (where_holds (point_where keys)) (map values_of (map vals_of es)) =
      map (\<lambda>e. values_of (vals_of e)) (filter (\<lambda>e. key_holds keys (vals_of e)) es)"
    by (simp add: filter_map comp_def where_holds_values)
  with rows(2) obtain xs where xs: "rows = map (\<lambda>e. values_of (vals_of e)) xs"
    "mset xs = mset (filter (\<lambda>e. key_holds keys (vals_of e)) es)"
    by (metis mset_map_reorder)
  have "read (cells_of ?cols (row_values table (values_of (vals_of e)))) = Some e" if "e \<in> set xs" for e
  proof -
    have "e \<in> set es" using that mset_eq_setD [OF xs(2)] by auto
    then show ?thesis using assms(5) cells_of_full [OF _ d] by (simp add: entities_def)
  qed
  then have "read_rows read (map (\<lambda>row. cells_of ?cols (row_values table row)) rows) = Some xs"
    using read_rows_map [of xs read "\<lambda>e. cells_of ?cols (row_values table (values_of (vals_of e)))" "\<lambda>e. e"]
    by (simp add: xs(1) comp_def)
  then show ?thesis using rows xs(2) by (auto simp: repo_get_def gives_def)
qed

lemma repo_get_one_gives:
  assumes "sqlite_ok lib view parses names run S" "r_ok table r" "world_ok view w" "list_all (key_ok table) keys"
    and "entities table vals_of read es (db_of view w)"
    and "Select_From (map column_name (column_items table)) (table_name table) (point_where keys) \<in> S"
  shows "gives view table (db_of view w)
    (\<lambda>x. case x of Some e \<Rightarrow> e \<in> set es \<and> key_holds keys (vals_of e) | None \<Rightarrow> \<forall>e \<in> set es. \<not> key_holds keys (vals_of e))
    (repo_get_one lib read keys r w)"
proof -
  obtain xs r' w' where xs: "repo_get lib read keys r w = Some (xs, r', w')"
    "mset xs = mset (filter (\<lambda>e. key_holds keys (vals_of e)) es)" "r_ok table r'" "world_ok view w'" "db_of view w' = db_of view w"
    using repo_get_gives [OF assms] by (auto simp: gives_def)
  have "set xs = {e \<in> set es. key_holds keys (vals_of e)}" using mset_eq_setD [OF xs(2)] by auto
  then have "case (if xs = [] then None else Some (xs ! 0)) of
      Some e \<Rightarrow> e \<in> set es \<and> key_holds keys (vals_of e) | None \<Rightarrow> \<forall>e \<in> set es. \<not> key_holds keys (vals_of e)"
    by (cases xs) auto
  then show ?thesis using xs by (auto simp: repo_get_one_def intro: givesI)
qed

lemma repo_count_gives:
  assumes "sqlite_ok lib view parses names run S" "r_ok table r" "world_ok view w" "list_all (key_ok table) keys"
    and "entities table vals_of read es (db_of view w)" "Count_From (table_name table) (point_where keys) \<in> S"
  shows "gives view table (db_of view w) (\<lambda>n. n = of_nat (length (filter (\<lambda>e. key_holds keys (vals_of e)) es)))
    (repo_count lib none keys r w)"
proof -
  note d = distinct_columns [OF assms(2)]
  have r: "r_is_init r" "r_table r = Some table" "tq_ok table (r_table_query r)" using assms(2) by (simp_all add: r_ok_def)
  have T: "db_of view w (table_name table) = Some (table_of table (map vals_of es))"
    using assms(5) by (simp add: entities_def)
  obtain items where items: "point_conditions table keys = Some items" "list_all (item_ok table) items"
    "map item_groups items = map (\<lambda>p. [key_group p]) keys"
    using point_conditions_ok [OF assms(4)] by blast
  have wh: "where_of items = point_where keys" by (rule where_of_keys) (rule items(3))
  have "length (filter (where_holds (point_where keys)) (map values_of (map vals_of es))) =
      length (filter (\<lambda>e. key_holds keys (vals_of e)) es)"
    by (simp add: filter_map comp_def where_holds_values)
  then show ?thesis
    using tq_count_effect [OF assms(1) r(3) assms(3) items(2) refl _ _ T] assms(6) select_ok(2) [OF assms(5) d assms(4)]
      r items(1) assms(2)
    by (auto simp: repo_count_def wh gives_def r_ok_def)
qed

section \<open>Changes of a table\<close>

text \<open>The outcome of a successful change: the repository and the world are in order, the table has the entities
  \<open>es\<close>, and the other tables are as they were.\<close>

definition leaves ::
  "('m \<Rightarrow> lib_view) \<Rightarrow> SqlTableItem \<Rightarrow> ('e \<Rightarrow> (string \<times> CellData) list) \<Rightarrow> (SqlCell list \<Rightarrow> 'e option) \<Rightarrow> 'e list \<Rightarrow> db \<Rightarrow>
   (bool \<times> Repository \<times> 'm sql_world) option \<Rightarrow> bool" where
  "leaves view table vals_of read es db x \<longleftrightarrow>
     (\<exists>r w. x = Some (True, r, w) \<and> r_ok table r \<and> world_ok view w \<and> entities table vals_of read es (db_of view w) \<and>
        (\<forall>t. t \<noteq> table_name table \<longrightarrow> db_of view w t = db t))"

lemma gives_leaves:
  assumes "gives view table (effect_db s db) (\<lambda>ok. ok \<longleftrightarrow> effect s db \<noteq> None) x"
    and "effect s db = Some (rows, db(table_name table \<mapsto> table_of table (map vals_of es)))"
    and "\<And>e. e \<in> set es \<Longrightarrow> full table (vals_of e) \<and> read (entity_cells (vals_of e)) = Some e"
  shows "leaves view table vals_of read es db x"
  using assms(1) unfolding gives_def leaves_def entities_def
  by (simp add: assms(2) effect_db_def) (use assms(3) in auto)

lemma filter_values:
  "filter (\<lambda>row. \<not> where_holds (point_where keys) row) (map values_of (map vals_of es)) =
   map values_of (map vals_of (filter (\<lambda>e. \<not> key_holds keys (vals_of e)) es))"
  by (induction es) (simp_all add: where_holds_values)

lemma repo_remove_leaves:
  assumes "sqlite_ok lib view parses names run S" "r_ok table r" "world_ok view w" "key_ok table key"
    and "entities table vals_of read es (db_of view w)" "Delete_From (table_name table) (point_where [key]) \<in> S"
  shows "leaves view table vals_of read (filter (\<lambda>e. \<not> key_holds [key] (vals_of e)) es) (db_of view w) (repo_remove lib key r w)"
proof (rule gives_leaves)
  have key: "list_all (key_ok table) [key]" using assms(4) by simp
  show "gives view table (effect_db (Delete_From (table_name table) (point_where [key])) (db_of view w))
      (\<lambda>ok. ok \<longleftrightarrow> effect (Delete_From (table_name table) (point_where [key])) (db_of view w) \<noteq> None) (repo_remove lib key r w)"
    by (rule repo_remove_gives [OF assms(1-4) refl assms(6) select_ok(3) [OF assms(5) distinct_columns [OF assms(2)] key]])
  show "effect (Delete_From (table_name table) (point_where [key])) (db_of view w) =
      Some ([], (db_of view w)(table_name table \<mapsto>
        table_of table (map vals_of (filter (\<lambda>e. \<not> key_holds [key] (vals_of e)) es))))"
    using assms(5) filter_values [of "[key]" vals_of es] by (simp add: entities_def table_of_def)
qed (use assms(5) in \<open>auto simp: entities_def\<close>)

text \<open>An update replaces the data of the entities with the key.\<close>

definition set_values :: "(string \<times> CellData) list \<Rightarrow> (string \<times> CellData) list \<Rightarrow> (string \<times> CellData) list" where
  "set_values vs old = map (\<lambda>(n, d). (n, case map_of vs n of Some d' \<Rightarrow> d' | None \<Rightarrow> d)) old"

lemma row_set_values: "row_set (values_of vs) (values_of old) = values_of (set_values vs old)"
proof (induction old)
  case (Cons p old)
  have "values_of (p # ps) = (fst p, data_value (snd p)) # values_of ps" for p ps by (simp add: values_of_def split: prod.split)
  with Cons show ?case by (simp add: row_set_def set_values_def split: option.split prod.split)
qed (simp add: row_set_def set_values_def values_of_def)

lemma repo_update_leaves:
  assumes "sqlite_ok lib view parses names run S" "r_ok table r" "world_ok view w" "list_all (value_ok table) vs" "vs \<noteq> []"
    and "distinct (map fst vs)" "key_ok table key" "entities table vals_of read es (db_of view w)"
    and "\<forall>c \<in> set (column_items table). is_primary_key c \<or> is_unique c \<longrightarrow> column_name c \<notin> fst ` set vs"
    and "\<And>ps. map fst ps = map fst vs \<Longrightarrow> Update_Set (table_name table) ps (point_where [key]) \<in> S"
    and "\<And>e. e \<in> set es \<Longrightarrow> key_holds [key] (vals_of e) \<Longrightarrow>
      values_of (set_values vs (vals_of e)) = values_of (vals_of e') \<and> full table (vals_of e') \<and> read (entity_cells (vals_of e')) = Some e'"
  shows "leaves view table vals_of read (map (\<lambda>e. if key_holds [key] (vals_of e) then e' else e) es) (db_of view w)
    (repo_update lib vs key r w)"
proof (rule gives_leaves)
  let ?s = "Update_Set (table_name table) (values_of vs) (point_where [key])"
  let ?T = "table_of table (map vals_of es)"
  have key: "list_all (key_ok table) [key]" using assms(7) by simp
  have T: "db_of view w (table_name table) = Some ?T" using assms(8) by (simp add: entities_def)
  have names: "fst ` set (values_of vs) = fst ` set vs" by (force simp: values_of_def)
  have "\<forall>c \<in> set (map column_of (column_items table)). col_primary c \<or> col_unique c \<longrightarrow> col_name c \<notin> fst ` set (values_of vs)"
    using assms(9) unfolding names by (simp add: column_of_def)
  then have ok: "statement_ok ?s (db_of view w)"
    using T entities_typed [OF assms(8) distinct_columns [OF assms(2)]] vals_fit_values [OF assms(4,6)] where_fits_keys [OF key]
    by simp
  have "?s \<in> S" by (rule assms(10)) simp
  then show "gives view table (effect_db ?s (db_of view w)) (\<lambda>ok. ok \<longleftrightarrow> effect ?s (db_of view w) \<noteq> None) (repo_update lib vs key r w)"
    by (rule repo_update_gives [OF assms(1-5,7) refl _ ok])
  have "map (\<lambda>row. if where_holds (point_where [key]) row then row_set (values_of vs) row else row) (map values_of (map vals_of es)) =
      map values_of (map vals_of (map (\<lambda>e. if key_holds [key] (vals_of e) then e' else e) es))"
    using assms(11) by (auto simp: where_holds_values row_set_values)
  then show "effect ?s (db_of view w) = Some ([], (db_of view w)(table_name table \<mapsto>
        table_of table (map vals_of (map (\<lambda>e. if key_holds [key] (vals_of e) then e' else e) es))))"
    using T by (simp add: table_of_def del: map_map)
  show "full table (vals_of e) \<and> read (entity_cells (vals_of e)) = Some e"
    if "e \<in> set (map (\<lambda>e. if key_holds [key] (vals_of e) then e' else e) es)" for e
    using that assms(8,11) by (auto simp: entities_def split: if_splits)
qed

text \<open>An insertion of all columns but perhaps the key: the new row is that of the entity \<open>e\<close>.\<close>

lemma repo_insert_leaves:
  assumes "sqlite_ok lib view parses names run S" "r_ok table r" "world_ok view w" "list_all (value_ok table) vs" "vs \<noteq> []"
    and "distinct (map fst vs)" "entities table vals_of read es (db_of view w)"
    and "\<And>ps. map fst ps = map fst vs \<Longrightarrow> Insert_Into (table_name table) ps \<in> S"
    and "\<forall>c \<in> set (column_items table). column_name c \<notin> fst ` set vs \<longrightarrow>
      is_primary_key c \<and> data_type c = Int64 \<and> next_key (column_name c) (map values_of (map vals_of es)) < 2 ^ 63"
    and "new_row (table_of table (map vals_of es)) (values_of vs) = values_of (vals_of e)"
    and "row_allowed (table_of table (map vals_of es)) (values_of (vals_of e))"
    and "full table (vals_of e)" "read (entity_cells (vals_of e)) = Some e"
  shows "leaves view table vals_of read (es @ [e]) (db_of view w) (repo_insert lib vs r w)"
proof (rule gives_leaves)
  let ?s = "Insert_Into (table_name table) (values_of vs)"
  let ?T = "table_of table (map vals_of es)"
  have T: "db_of view w (table_name table) = Some ?T" using assms(7) by (simp add: entities_def)
  have names: "fst ` set (values_of vs) = fst ` set vs" by (force simp: values_of_def)
  have "\<forall>c \<in> set (map column_of (column_items table)). col_name c \<notin> fst ` set (values_of vs) \<longrightarrow>
      col_primary c \<and> col_type c = ''INTEGER'' \<and> next_key (col_name c) (map values_of (map vals_of es)) < 2 ^ 63"
    using assms(9) unfolding names by (auto simp: column_of_def try_format_data_type_def)
  then have ok: "statement_ok ?s (db_of view w)"
    using T entities_typed [OF assms(7) distinct_columns [OF assms(2)]] vals_fit_values [OF assms(4,6)] by simp
  have "?s \<in> S" by (rule assms(8)) simp
  then show "gives view table (effect_db ?s (db_of view w)) (\<lambda>ok. ok \<longleftrightarrow> effect ?s (db_of view w) \<noteq> None) (repo_insert lib vs r w)"
    by (rule repo_insert_gives [OF assms(1-5) refl _ ok])
  show "effect ?s (db_of view w) = Some ([], (db_of view w)(table_name table \<mapsto> table_of table (map vals_of (es @ [e]))))"
    using T assms(10,11) by (simp add: table_of_def)
  show "full table (vals_of x) \<and> read (entity_cells (vals_of x)) = Some x" if "x \<in> set (es @ [e])" for x
    using that assms(7,12,13) by (auto simp: entities_def)
qed

text \<open>A key that is in use is refused.\<close>

lemma repo_insert_refused:
  assumes "sqlite_ok lib view parses names run S" "r_ok table r" "world_ok view w" "list_all (value_ok table) vs" "vs \<noteq> []"
    and "distinct (map fst vs)" "entities table vals_of read es (db_of view w)"
    and "\<And>ps. map fst ps = map fst vs \<Longrightarrow> Insert_Into (table_name table) ps \<in> S"
    and "\<forall>c \<in> set (column_items table). column_name c \<in> fst ` set vs"
    and "\<not> row_allowed (table_of table (map vals_of es)) (new_row (table_of table (map vals_of es)) (values_of vs))"
  shows "gives view table (db_of view w) (\<lambda>ok. \<not> ok) (repo_insert lib vs r w)"
proof -
  let ?s = "Insert_Into (table_name table) (values_of vs)"
  have T: "db_of view w (table_name table) = Some (table_of table (map vals_of es))" using assms(7) by (simp add: entities_def)
  have names: "fst ` set (values_of vs) = fst ` set vs" by (force simp: values_of_def)
  have "\<forall>c \<in> set (map column_of (column_items table)). col_name c \<in> fst ` set (values_of vs)"
    using assms(9) unfolding names by (auto simp: column_of_def)
  then have ok: "statement_ok ?s (db_of view w)"
    using T entities_typed [OF assms(7) distinct_columns [OF assms(2)]] vals_fit_values [OF assms(4,6)] by simp
  have "effect ?s (db_of view w) = None" using T assms(10) by simp
  moreover have "?s \<in> S" by (rule assms(8)) simp
  ultimately show ?thesis
    using repo_insert_gives [OF assms(1-5) refl _ ok] by (simp add: effect_db_def)
qed

end
