(* ===== verification/Client_Store.thy ===== *)
theory Client_Store
  imports Client_Services Repository_Laws
begin

text \<open>
  What the client keeps in its database: the blocks and tasks that the services give back, for any library that
  understands the statements of \<open>client_templates\<close> as SQL describes them. The locale \<open>task_store\<close> is
  the contract that the scheduling of blocks relies on; it is instantiated with the services.
\<close>

section \<open>Data of the entities\<close>

definition block_data :: "BlockEntity \<Rightarrow> (string \<times> CellData) list" where
  "block_data b = (''block_id'', Int64_Data (block_id b)) # block_values b"

definition task_data :: "TaskEntity \<Rightarrow> (string \<times> CellData) list" where
  "task_data t = (''task_id'', Int64_Data (task_id t)) # task_values t"

text \<open>What is kept of an entity: times to the millisecond, texts up to a zero.\<close>

definition kept_time :: "u64 \<Rightarrow> u64" where "kept_time t = from_time_ms (to_time_ms t)"

definition kept_block :: "BlockEntity \<Rightarrow> BlockEntity" where
  "kept_block b = b\<lparr>block_start_time := kept_time (block_start_time b), block_end_time := kept_time (block_end_time b)\<rparr>"

definition kept_task :: "TaskEntity \<Rightarrow> TaskEntity" where
  "kept_task t =
     t\<lparr>task_start_time := kept_time (task_start_time t), task_end_time := kept_time (task_end_time t),
       saved_path := c_str (saved_path t), source_url := c_str (source_url t)\<rparr>"

definition block_valid :: "BlockEntity \<Rightarrow> bool" where
  "block_valid b \<longleftrightarrow> BlockState_valid (block_state b)"

definition task_valid :: "TaskEntity \<Rightarrow> bool" where
  "task_valid t \<longleftrightarrow> TaskState_valid (task_state t) \<and> Operation_valid (task_operation t)"

lemma to_time_ms_kept: "to_time_ms (kept_time t) = to_time_ms t"
proof -
  have range: "- (2 ^ 63) \<le> sint t" "sint t < 2 ^ 63" using sint_greater_eq [of t] sint_less [of t] by simp_all
  obtain q where q: "q = (if sint t < 0 then - (- sint t div 1000000) else sint t div 1000000)" by blast
  have bounds: "- (2 ^ 63) \<le> q * 1000000" "q * 1000000 < 2 ^ 63"
    using range by (auto simp: q)
  have ms: "to_time_ms t = word_of_int q" by (simp add: to_time_ms_def q)
  have "kept_time t = word_of_int (q * 1000000)" by (simp add: kept_time_def from_time_ms_def ms)
  moreover have "sint (word_of_int (q * 1000000) :: u64) = q * 1000000"
    unfolding sint_sbintrunc' by (rule signed_take_bit_int_eq_self) (use bounds in simp_all)
  ultimately have "to_time_ms (kept_time t) =
      word_of_int (if q * 1000000 < 0 then - (- (q * 1000000) div 1000000) else q * 1000000 div 1000000)"
    by (simp only: to_time_ms_def)
  also have "(if q * 1000000 < 0 then - (- (q * 1000000) div 1000000) else q * 1000000 div 1000000) = q" by auto
  finally show ?thesis by (simp only: ms)
qed

lemma kept_time_again [simp]: "kept_time (kept_time t) = kept_time t"
  by (simp add: kept_time_def [of "kept_time t"] to_time_ms_kept) (simp add: kept_time_def)

lemma code_round_trip [simp]: "int64_to_code (code_to_int64 w) = w"
  unfolding int64_to_code_def code_to_int64_def by transfer (simp add: take_bit_signed_take_bit)

lemma c_str_again [simp]: "c_str (c_str s) = c_str s"
  by (simp add: c_str_def takeWhile_idem)

lemma block_values_kept: "block_values (kept_block b) = block_values b"
  by (simp add: block_values_def kept_block_def to_time_ms_kept)

text \<open>What is read back from the cells of an entity.\<close>

lemma read_block_back: "block_valid b \<Longrightarrow> read_block (entity_cells (block_data b)) (new_block junk) = Some (kept_block b)"
  by (simp add: entity_cells_def block_data_def block_values_def block_valid_def kept_block_def kept_time_def new_block_def)

lemma read_task_back: "task_valid t \<Longrightarrow> read_task (entity_cells (task_data t)) (new_task junk) = Some (kept_task t)"
  by (simp add: entity_cells_def task_data_def task_values_def task_valid_def kept_task_def kept_time_def new_task_def)

section \<open>The statements of the repositories\<close>

text \<open>The texts that the repositories hand to the library, with the statements that they are. The parameters of a
  condition come in pairs, one pair for each column.\<close>

fun param_groups :: "string list \<Rightarrow> SqlValue list \<Rightarrow> group list" where
  "param_groups (k # ks) (Integer_Value a # Integer_Value b # ps) =
     [(k, Greater_Equal, sint a), (k, Lesser_Equal, sint b)] # param_groups ks ps"
| "param_groups _ _ = []"

definition param_where :: "string list \<Rightarrow> SqlValue list \<Rightarrow> group list list" where
  "param_where ks ps = (if ks = [] then [] else [param_groups ks ps])"

definition t_insert :: "string \<Rightarrow> string list \<Rightarrow> SqlValue list \<Rightarrow> sql_statement" where
  "t_insert t ns ps = Insert_Into t (zip ns ps)"

definition t_select :: "string list \<Rightarrow> string \<Rightarrow> string list \<Rightarrow> SqlValue list \<Rightarrow> sql_statement" where
  "t_select cols t ks ps = Select_From cols t (param_where ks ps)"

definition t_count :: "string \<Rightarrow> string list \<Rightarrow> SqlValue list \<Rightarrow> sql_statement" where
  "t_count t ks ps = Count_From t (param_where ks ps)"

definition t_update :: "string \<Rightarrow> string list \<Rightarrow> string list \<Rightarrow> SqlValue list \<Rightarrow> sql_statement" where
  "t_update t ns ks ps = Update_Set t (zip ns (take (length ns) ps)) (param_where ks (drop (length ns) ps))"

definition t_delete :: "string \<Rightarrow> string list \<Rightarrow> SqlValue list \<Rightarrow> sql_statement" where
  "t_delete t ks ps = Delete_From t (param_where ks ps)"

definition block_templates :: templates where
  "block_templates =
     [(''CREATE TABLE IF NOT EXISTS block (block_id INTEGER PRIMARY KEY NOT NULL UNIQUE, task_id INTEGER NOT NULL, file_id INTEGER NOT NULL, offset INTEGER NOT NULL, block_size INTEGER NOT NULL, state INTEGER NOT NULL, start_time INTEGER NOT NULL, end_time INTEGER NOT NULL);'',
       (\<lambda>ps. Create_Table ''block'' True (map column_of (column_items block_table)))),
      (''INSERT INTO block (task_id, file_id, offset, block_size, state, start_time, end_time) VALUES (?, ?, ?, ?, ?, ?, ?);'',
       t_insert ''block'' [''task_id'', ''file_id'', ''offset'', ''block_size'', ''state'', ''start_time'', ''end_time'']),
      (''SELECT block_id, task_id, file_id, offset, block_size, state, start_time, end_time FROM block'',
       t_select [''block_id'', ''task_id'', ''file_id'', ''offset'', ''block_size'', ''state'', ''start_time'', ''end_time''] ''block'' []),
      (''SELECT block_id, task_id, file_id, offset, block_size, state, start_time, end_time FROM block WHERE ( block_id >= ? AND block_id <= ? )'',
       t_select [''block_id'', ''task_id'', ''file_id'', ''offset'', ''block_size'', ''state'', ''start_time'', ''end_time''] ''block'' [''block_id'']),
      (''SELECT block_id, task_id, file_id, offset, block_size, state, start_time, end_time FROM block WHERE ( task_id >= ? AND task_id <= ? )'',
       t_select [''block_id'', ''task_id'', ''file_id'', ''offset'', ''block_size'', ''state'', ''start_time'', ''end_time''] ''block'' [''task_id'']),
      (''SELECT block_id, task_id, file_id, offset, block_size, state, start_time, end_time FROM block WHERE ( task_id >= ? AND task_id <= ? ) AND ( state >= ? AND state <= ? )'',
       t_select [''block_id'', ''task_id'', ''file_id'', ''offset'', ''block_size'', ''state'', ''start_time'', ''end_time''] ''block'' [''task_id'', ''state'']),
      (''SELECT COUNT(*) FROM block WHERE ( task_id >= ? AND task_id <= ? ) AND ( state >= ? AND state <= ? )'',
       t_count ''block'' [''task_id'', ''state'']),
      (''UPDATE block SET task_id = ?, file_id = ?, offset = ?, block_size = ?, state = ?, start_time = ?, end_time = ? WHERE ( block_id >= ? AND block_id <= ? )'',
       t_update ''block'' [''task_id'', ''file_id'', ''offset'', ''block_size'', ''state'', ''start_time'', ''end_time''] [''block_id'']),
      (''DELETE FROM block WHERE ( block_id >= ? AND block_id <= ? )'',
       t_delete ''block'' [''block_id''])]"

definition task_templates :: templates where
  "task_templates =
     [(''CREATE TABLE IF NOT EXISTS task (task_id INTEGER PRIMARY KEY NOT NULL UNIQUE, file_id INTEGER NOT NULL, saved_path TEXT NOT NULL, source_url TEXT NOT NULL, operation INTEGER NOT NULL, state INTEGER NOT NULL, start_time INTEGER NOT NULL, end_time INTEGER NOT NULL);'',
       (\<lambda>ps. Create_Table ''task'' True (map column_of (column_items task_table)))),
      (''INSERT INTO task (task_id, file_id, saved_path, source_url, operation, state, start_time, end_time) VALUES (?, ?, ?, ?, ?, ?, ?, ?);'',
       t_insert ''task'' [''task_id'', ''file_id'', ''saved_path'', ''source_url'', ''operation'', ''state'', ''start_time'', ''end_time'']),
      (''SELECT task_id, file_id, saved_path, source_url, operation, state, start_time, end_time FROM task'',
       t_select [''task_id'', ''file_id'', ''saved_path'', ''source_url'', ''operation'', ''state'', ''start_time'', ''end_time''] ''task'' []),
      (''SELECT task_id, file_id, saved_path, source_url, operation, state, start_time, end_time FROM task WHERE ( task_id >= ? AND task_id <= ? )'',
       t_select [''task_id'', ''file_id'', ''saved_path'', ''source_url'', ''operation'', ''state'', ''start_time'', ''end_time''] ''task'' [''task_id'']),
      (''SELECT task_id, file_id, saved_path, source_url, operation, state, start_time, end_time FROM task WHERE ( file_id >= ? AND file_id <= ? )'',
       t_select [''task_id'', ''file_id'', ''saved_path'', ''source_url'', ''operation'', ''state'', ''start_time'', ''end_time''] ''task'' [''file_id'']),
      (''SELECT COUNT(*) FROM task'',
       t_count ''task'' []),
      (''UPDATE task SET file_id = ?, saved_path = ?, source_url = ?, operation = ?, state = ?, start_time = ?, end_time = ? WHERE ( task_id >= ? AND task_id <= ? )'',
       t_update ''task'' [''file_id'', ''saved_path'', ''source_url'', ''operation'', ''state'', ''start_time'', ''end_time''] [''task_id'']),
      (''DELETE FROM task WHERE ( task_id >= ? AND task_id <= ? )'',
       t_delete ''task'' [''task_id''])]"

definition file_templates :: templates where
  "file_templates =
     [(''CREATE TABLE IF NOT EXISTS file_info (file_id INTEGER PRIMARY KEY NOT NULL UNIQUE, file_name TEXT NOT NULL, file_size INTEGER NOT NULL, md5_code TEXT NOT NULL);'',
       (\<lambda>ps. Create_Table ''file_info'' True (map column_of (column_items file_table)))),
      (''INSERT INTO file_info (file_id, file_name, file_size, md5_code) VALUES (?, ?, ?, ?);'',
       t_insert ''file_info'' [''file_id'', ''file_name'', ''file_size'', ''md5_code'']),
      (''SELECT file_id, file_name, file_size, md5_code FROM file_info'',
       t_select [''file_id'', ''file_name'', ''file_size'', ''md5_code''] ''file_info'' []),
      (''SELECT file_id, file_name, file_size, md5_code FROM file_info WHERE ( file_id >= ? AND file_id <= ? )'',
       t_select [''file_id'', ''file_name'', ''file_size'', ''md5_code''] ''file_info'' [''file_id'']),
      (''SELECT COUNT(*) FROM file_info'',
       t_count ''file_info'' []),
      (''UPDATE file_info SET file_name = ?, file_size = ?, md5_code = ? WHERE ( file_id >= ? AND file_id <= ? )'',
       t_update ''file_info'' [''file_name'', ''file_size'', ''md5_code''] [''file_id'']),
      (''DELETE FROM file_info WHERE ( file_id >= ? AND file_id <= ? )'',
       t_delete ''file_info'' [''file_id''])]"

definition client_templates :: templates where
  "client_templates = block_templates @ task_templates @ file_templates"

lemma param_groups_keys:
  "param_groups (map fst keys) (concat (map (\<lambda>(n, v). [Integer_Value v, Integer_Value v]) keys) @ rest) = map key_group keys"
  by (induction keys) (auto simp: key_group_def)

lemma param_where_keys: "param_where (map fst keys) (where_params (point_where keys)) = point_where keys"
  using param_groups_keys [of keys "[]"] by (simp add: param_where_def where_params_keys) (simp add: point_where_def)

lemma zip_names: "map fst ps = ns \<Longrightarrow> zip ns (map snd ps) = ps"
  using zip_map_fst_snd [of ps] by simp

text \<open>How a template is used: its text is that of the statement and its builder gives the statement back.\<close>

lemma in_templates: "(x, f) \<in> set ts \<Longrightarrow> render s = x \<Longrightarrow> f (params s) = s \<Longrightarrow> s \<in> template_statements ts"
  by (simp add: template_statements_def) (metis (mono_tags, lifting) case_prodI)

lemma insert_template:
  assumes "(x, t_insert t ns) \<in> set ts" "map fst ps = ns"
    and "x = ''INSERT INTO '' @ t @ '' ('' @ joined '', '' ns @ '') VALUES ('' @ joined '', '' (map (\<lambda>_. ''?'') ns) @ '');''"
  shows "Insert_Into t ps \<in> template_statements ts"
proof (rule in_templates [OF assms(1)])
  have "map (\<lambda>_. ''?'') ps = map (\<lambda>_. ''?'') ns" using assms(2) by (metis length_map map_replicate_const)
  with assms(2,3) show "render (Insert_Into t ps) = x" by simp
  show "t_insert t ns (params (Insert_Into t ps)) = Insert_Into t ps"
    using zip_names [OF assms(2)] by (simp add: t_insert_def)
qed

definition keys_clause :: "string list \<Rightarrow> string" where
  "keys_clause ks =
     (if ks = [] then [] else '' WHERE '' @ joined '' AND '' (map (\<lambda>k. ''( '' @ k @ '' >= ? AND '' @ k @ '' <= ? )'') ks))"

lemma where_clause_keys: "where_clause (point_where keys) = keys_clause (map fst keys)"
proof -
  have "render_group (key_group p) = ''( '' @ fst p @ '' >= ? AND '' @ fst p @ '' <= ? )''" for p
    by (simp add: key_group_def render_group_def)
  then show ?thesis
    by (simp add: where_clause_def point_where_def keys_clause_def render_where_def comp_def)
qed

lemma select_template:
  assumes "(x, t_select cols t ks) \<in> set ts" "map fst keys = ks"
    and "x = ''SELECT '' @ joined '', '' cols @ '' FROM '' @ t @ keys_clause ks"
  shows "Select_From cols t (point_where keys) \<in> template_statements ts"
  by (rule in_templates [OF assms(1)])
    (use assms(2,3) param_where_keys [of keys] where_clause_keys [of keys] in \<open>simp_all add: t_select_def\<close>)

lemma count_template:
  assumes "(x, t_count t ks) \<in> set ts" "map fst keys = ks" "x = ''SELECT COUNT(*) FROM '' @ t @ keys_clause ks"
  shows "Count_From t (point_where keys) \<in> template_statements ts"
  by (rule in_templates [OF assms(1)])
    (use assms(2,3) param_where_keys [of keys] where_clause_keys [of keys] in \<open>simp_all add: t_count_def\<close>)

lemma delete_template:
  assumes "(x, t_delete t ks) \<in> set ts" "map fst keys = ks" "x = ''DELETE FROM '' @ t @ keys_clause ks"
  shows "Delete_From t (point_where keys) \<in> template_statements ts"
  by (rule in_templates [OF assms(1)])
    (use assms(2,3) param_where_keys [of keys] where_clause_keys [of keys] in \<open>simp_all add: t_delete_def\<close>)

lemma update_template:
  assumes "(x, t_update t ns ks) \<in> set ts" "map fst ps = ns" "map fst keys = ks"
    and "x = ''UPDATE '' @ t @ '' SET '' @ joined '', '' (map (\<lambda>n. n @ '' = ?'') ns) @ keys_clause ks"
  shows "Update_Set t ps (point_where keys) \<in> template_statements ts"
proof (rule in_templates [OF assms(1)])
  have "map (\<lambda>(c, v). c @ '' = ?'') ps = map (\<lambda>n. n @ '' = ?'') ns"
    unfolding assms(2) [symmetric] by (simp add: case_prod_beta')
  with assms(3,4) where_clause_keys [of keys] show "render (Update_Set t ps (point_where keys)) = x" by simp
  have "length ns = length ps" using assms(2) by auto
  then show "t_update t ns ks (params (Update_Set t ps (point_where keys))) = Update_Set t ps (point_where keys)"
    using zip_names [OF assms(2)] param_where_keys [of keys] assms(3) by (simp add: t_update_def)
qed

lemma client_templates_ok: "templates_ok client_templates"
proof -
  have "distinct (map fst client_templates)" by code_simp
  moreover have "list_all (\<lambda>(x, f). \<forall>ps. column_names (f ps) = column_names (f [])) client_templates"
    by (simp add: client_templates_def block_templates_def task_templates_def file_templates_def t_insert_def t_select_def
        t_count_def t_update_def t_delete_def)
  ultimately show ?thesis by (simp add: templates_ok_def)
qed

section \<open>The tables\<close>

lemma block_table_items:
  "table_name block_table = ''block''" "table_is_unique block_table"
  "column_items block_table =
     [key_column 0 ''block_id'' Int64, data_column 1 ''task_id'' Int64, data_column 2 ''file_id'' Int64,
      data_column 3 ''offset'' Int64, data_column 4 ''block_size'' Int64, data_column 5 ''state'' Int64,
      data_column 6 ''start_time'' Int64, data_column 7 ''end_time'' Int64]"
  by (simp_all add: block_table_def new_table_def add_column_def has_column_name_def key_column_def data_column_def)

lemma task_table_items:
  "table_name task_table = ''task''" "table_is_unique task_table"
  "column_items task_table =
     [key_column 0 ''task_id'' Int64, data_column 1 ''file_id'' Int64, data_column 2 ''saved_path'' String,
      data_column 3 ''source_url'' String, data_column 4 ''operation'' Int64, data_column 5 ''state'' Int64,
      data_column 6 ''start_time'' Int64, data_column 7 ''end_time'' Int64]"
  by (simp_all add: task_table_def new_table_def add_column_def has_column_name_def key_column_def data_column_def)

lemma column_sel [simp]:
  "column_name (key_column i n d) = n" "data_type (key_column i n d) = d" "is_primary_key (key_column i n d)"
  "is_unique (key_column i n d)" "is_not_null (key_column i n d)" "column_index (key_column i n d) = i"
  "column_name (data_column i n d) = n" "data_type (data_column i n d) = d" "\<not> is_primary_key (data_column i n d)"
  "\<not> is_unique (data_column i n d)" "is_not_null (data_column i n d)" "column_index (data_column i n d) = i"
  "default_value (key_column i n d) = None" "default_value (data_column i n d) = None"
  by (simp_all add: key_column_def data_column_def new_column_def)

lemma get_block_column:
  "get_column_info n block_table = find (\<lambda>c. column_name c = n) (column_items block_table)"
  by (simp add: get_column_info_def)

lemmas block_columns = get_column_info_def block_table_items task_table_items

lemma block_values_ok: "list_all (value_ok block_table) (block_values b)" "full block_table (block_data b)"
  by (simp_all add: block_values_def block_data_def full_def block_columns)

lemma task_values_ok: "list_all (value_ok task_table) (task_values t)" "full task_table (task_data t)"
  "list_all (value_ok task_table) (task_data t)"
  by (simp_all add: task_values_def task_data_def full_def block_columns)

lemma keys_ok:
  "key_ok block_table (''block_id'', v)" "key_ok block_table (''task_id'', v)" "key_ok block_table (''state'', v)"
  "key_ok task_table (''task_id'', v)"
  by (simp_all add: key_ok_def block_columns)

lemma key_holds_block [simp]:
  "key_holds [(''block_id'', v)] (block_data b) \<longleftrightarrow> block_id b = v"
  "key_holds [(''task_id'', v)] (block_data b) \<longleftrightarrow> block_task_id b = v"
  "key_holds [(''task_id'', v), (''state'', x)] (block_data b) \<longleftrightarrow>
     block_task_id b = v \<and> code_to_int64 (BlockState_code (block_state b)) = x"
  by (auto simp: key_holds_def block_data_def block_values_def)

lemma key_holds_task [simp]: "key_holds [(''task_id'', v)] (task_data t) \<longleftrightarrow> task_id t = v"
  by (auto simp: key_holds_def task_data_def task_values_def)

lemma state_code_inj:
  "BlockState_valid a \<Longrightarrow> BlockState_valid b \<Longrightarrow>
   code_to_int64 (BlockState_code a) = code_to_int64 (BlockState_code b) \<longleftrightarrow> a = b"
  by (metis BlockState_codes code_round_trip)

text \<open>The texts of the operations are texts of the templates.\<close>

lemma client_statements:
  "map fst ps = map fst (block_values b) \<Longrightarrow> Insert_Into ''block'' ps \<in> template_statements client_templates"
  "map fst ps = map fst (block_values b) \<Longrightarrow>
     Update_Set ''block'' ps (point_where [(''block_id'', v)]) \<in> template_statements client_templates"
  "Select_From (map column_name (column_items block_table)) ''block'' (point_where [(''block_id'', v)])
     \<in> template_statements client_templates"
  "Select_From (map column_name (column_items block_table)) ''block'' (point_where [(''task_id'', v)])
     \<in> template_statements client_templates"
  "Count_From ''block'' (point_where [(''task_id'', v), (''state'', x)]) \<in> template_statements client_templates"
  "map fst ps = map fst (task_values t) \<Longrightarrow>
     Update_Set ''task'' ps (point_where [(''task_id'', v)]) \<in> template_statements client_templates"
  "Select_From (map column_name (column_items task_table)) ''task'' (point_where [(''task_id'', v)])
     \<in> template_statements client_templates"
proof -
  note defs = client_templates_def block_templates_def task_templates_def block_table_items task_table_items keys_clause_def
  let ?b = "[''task_id'', ''file_id'', ''offset'', ''block_size'', ''state'', ''start_time'', ''end_time'']"
  let ?t = "[''file_id'', ''saved_path'', ''source_url'', ''operation'', ''state'', ''start_time'', ''end_time'']"
  have b: "map fst (block_values b) = ?b" by (simp add: block_values_def)
  have t: "map fst (task_values t) = ?t" by (simp add: task_values_def)
  show "map fst ps = map fst (block_values b) \<Longrightarrow> Insert_Into ''block'' ps \<in> template_statements client_templates"
    unfolding b by (rule insert_template [where ns = ?b, OF _ _ refl]) (simp_all add: defs)
  show "map fst ps = map fst (block_values b) \<Longrightarrow>
      Update_Set ''block'' ps (point_where [(''block_id'', v)]) \<in> template_statements client_templates"
    unfolding b by (rule update_template [where ns = ?b and ks = "[''block_id'']", OF _ _ _ refl]) (simp_all add: defs)
  show "Select_From (map column_name (column_items block_table)) ''block'' (point_where [(''block_id'', v)])
      \<in> template_statements client_templates"
    by (rule select_template [where ks = "[''block_id'']", OF _ _ refl]) (simp_all add: defs)
  show "Select_From (map column_name (column_items block_table)) ''block'' (point_where [(''task_id'', v)])
      \<in> template_statements client_templates"
    by (rule select_template [where ks = "[''task_id'']", OF _ _ refl]) (simp_all add: defs)
  show "Count_From ''block'' (point_where [(''task_id'', v), (''state'', x)]) \<in> template_statements client_templates"
    by (rule count_template [where ks = "[''task_id'', ''state'']", OF _ _ refl]) (simp_all add: defs)
  show "map fst ps = map fst (task_values t) \<Longrightarrow>
      Update_Set ''task'' ps (point_where [(''task_id'', v)]) \<in> template_statements client_templates"
    unfolding t by (rule update_template [where ns = ?t and ks = "[''task_id'']", OF _ _ _ refl]) (simp_all add: defs)
  show "Select_From (map column_name (column_items task_table)) ''task'' (point_where [(''task_id'', v)])
      \<in> template_statements client_templates"
    by (rule select_template [where ks = "[''task_id'']", OF _ _ refl]) (simp_all add: defs)
qed

section \<open>The contract\<close>

definition next_id :: "BlockEntity list \<Rightarrow> int" where
  "next_id bs = 1 + fold max (map (\<lambda>b. sint (block_id b)) bs) 0"

text \<open>The store holds the blocks \<open>bs\<close> and the tasks \<open>ts\<close>. The order of the blocks of a task is left open.\<close>

locale task_store =
  fixes ops :: "'s client_ops"
    and holds :: "'s \<Rightarrow> BlockEntity list \<Rightarrow> TaskEntity list \<Rightarrow> bool"
  assumes held: "holds s bs ts \<Longrightarrow>
      distinct (map block_id bs) \<and> list_all block_valid bs \<and> distinct (map task_id ts) \<and> list_all task_valid ts"
    and block_add: "holds s bs ts \<Longrightarrow> block_valid b \<Longrightarrow> next_id bs < 2 ^ 63 \<Longrightarrow>
      \<exists>s'. op_block_add ops b s = Some (True, s') \<and> holds s' (bs @ [kept_block (b\<lparr>block_id := word_of_int (next_id bs)\<rparr>)]) ts"
    and block_by_id: "holds s bs ts \<Longrightarrow>
      \<exists>s'. op_block_by_id ops i s = Some (find (\<lambda>b. block_id b = i) bs, s') \<and> holds s' bs ts"
    and blocks_of_task: "holds s bs ts \<Longrightarrow>
      \<exists>s' xs. op_blocks_of_task ops i s = Some (xs, s') \<and> mset xs = mset (filter (\<lambda>b. block_task_id b = i) bs) \<and> holds s' bs ts"
    and block_update: "holds s bs ts \<Longrightarrow> block_valid b \<Longrightarrow>
      \<exists>s'. op_block_update ops b s = Some (True, s') \<and> holds s' (map (\<lambda>c. if block_id c = block_id b then kept_block b else c) bs) ts"
    and block_count: "holds s bs ts \<Longrightarrow> BlockState_valid state \<Longrightarrow>
      \<exists>s'. op_block_count ops i state s =
          Some (of_nat (length (filter (\<lambda>b. block_task_id b = i \<and> block_state b = state) bs)), s') \<and> holds s' bs ts"
    and task_by_id: "holds s bs ts \<Longrightarrow>
      \<exists>s'. op_task_by_id ops i s = Some (find (\<lambda>t. task_id t = i) ts, s') \<and> holds s' bs ts"
    and task_update: "holds s bs ts \<Longrightarrow> task_valid t \<Longrightarrow>
      \<exists>s'. op_task_update ops t s = Some (True, s') \<and> holds s' bs (map (\<lambda>u. if task_id u = task_id t then kept_task t else u) ts)"

section \<open>The services keep the contract\<close>

definition client_holds ::
  "'m sqlite3 \<Rightarrow> ('m \<Rightarrow> lib_view) \<Rightarrow> (string \<Rightarrow> db \<Rightarrow> bool) \<Rightarrow> (string \<Rightarrow> string list) \<Rightarrow>
   (string \<Rightarrow> SqlValue list \<Rightarrow> db \<Rightarrow> (SqlValue list list \<times> db) option) \<Rightarrow> BlockEntity \<Rightarrow> TaskState \<Rightarrow>
   'm client_store \<Rightarrow> BlockEntity list \<Rightarrow> TaskEntity list \<Rightarrow> bool" where
  "client_holds lib view parses names run junk task_junk s bs ts \<longleftrightarrow>
     sqlite_ok lib view parses names run (template_statements client_templates) \<and>
     r_ok block_table (m_block_repository s) \<and> r_ok task_table (m_task_repository s) \<and> world_ok view (sql s) \<and>
     entities block_table block_data (\<lambda>row. read_block row (new_block junk)) bs (db_of view (sql s)) \<and>
     entities task_table task_data (\<lambda>row. read_task row (new_task task_junk)) ts (db_of view (sql s)) \<and>
     distinct (map block_id bs) \<and> list_all block_valid bs \<and> distinct (map task_id ts) \<and> list_all task_valid ts"

lemma client_holdsD:
  assumes "client_holds lib view parses names run junk task_junk s bs ts"
  shows "sqlite_ok lib view parses names run (template_statements client_templates)"
    "r_ok block_table (m_block_repository s)" "r_ok task_table (m_task_repository s)" "world_ok view (sql s)"
    "entities block_table block_data (\<lambda>row. read_block row (new_block junk)) bs (db_of view (sql s))"
    "entities task_table task_data (\<lambda>row. read_task row (new_task task_junk)) ts (db_of view (sql s))"
    "distinct (map block_id bs)" "list_all block_valid bs" "distinct (map task_id ts)" "list_all task_valid ts"
  using assms by (simp_all add: client_holds_def)

lemma entities_other:
  "entities table vals_of read es db \<Longrightarrow> (\<And>t. t \<noteq> table_name other \<Longrightarrow> db' t = db t) \<Longrightarrow> table_name table \<noteq> table_name other \<Longrightarrow>
   entities table vals_of read es db'"
  by (simp add: entities_def)

text \<open>A block operation that leaves the block table with other blocks, a query that leaves all as it is, and the
  same for tasks.\<close>

lemma holds_blocks:
  assumes "client_holds lib view parses names run junk task_junk s bs ts"
    and "leaves view block_table block_data (\<lambda>row. read_block row (new_block junk)) bs' (db_of view (sql s))
      (f (m_block_repository s) (sql s))"
    and "distinct (map block_id bs')" "list_all block_valid bs'"
  shows "\<exists>s'. with_blocks f s = Some (True, s') \<and> client_holds lib view parses names run junk task_junk s' bs' ts"
proof -
  note h = client_holdsD [OF assms(1)]
  obtain r w where w: "f (m_block_repository s) (sql s) = Some (True, r, w)" "r_ok block_table r" "world_ok view w"
    "entities block_table block_data (\<lambda>row. read_block row (new_block junk)) bs' (db_of view w)"
    "\<And>t. t \<noteq> table_name block_table \<Longrightarrow> db_of view w t = db_of view (sql s) t"
    using assms(2) by (auto simp: leaves_def)
  have "entities task_table task_data (\<lambda>row. read_task row (new_task task_junk)) ts (db_of view w)"
    by (rule entities_other [OF h(6), of block_table, OF w(5)]) (simp_all add: block_table_items task_table_items)
  with h w assms(3,4) show ?thesis by (simp add: with_blocks_def client_holds_def)
qed

lemma holds_tasks:
  assumes "client_holds lib view parses names run junk task_junk s bs ts"
    and "leaves view task_table task_data (\<lambda>row. read_task row (new_task task_junk)) ts' (db_of view (sql s))
      (f (m_task_repository s) (sql s))"
    and "distinct (map task_id ts')" "list_all task_valid ts'"
  shows "\<exists>s'. with_tasks f s = Some (True, s') \<and> client_holds lib view parses names run junk task_junk s' bs ts'"
proof -
  note h = client_holdsD [OF assms(1)]
  obtain r w where w: "f (m_task_repository s) (sql s) = Some (True, r, w)" "r_ok task_table r" "world_ok view w"
    "entities task_table task_data (\<lambda>row. read_task row (new_task task_junk)) ts' (db_of view w)"
    "\<And>t. t \<noteq> table_name task_table \<Longrightarrow> db_of view w t = db_of view (sql s) t"
    using assms(2) by (auto simp: leaves_def)
  have "entities block_table block_data (\<lambda>row. read_block row (new_block junk)) bs (db_of view w)"
    by (rule entities_other [OF h(5), of task_table, OF w(5)]) (simp_all add: block_table_items task_table_items)
  with h w assms(3,4) show ?thesis by (simp add: with_tasks_def client_holds_def)
qed

lemma holds_query:
  assumes "client_holds lib view parses names run junk task_junk s bs ts"
  shows "gives view block_table (db_of view (sql s)) P (f (m_block_repository s) (sql s)) \<Longrightarrow>
      \<exists>a s'. with_blocks f s = Some (a, s') \<and> P a \<and> client_holds lib view parses names run junk task_junk s' bs ts"
    "gives view task_table (db_of view (sql s)) Q (g (m_task_repository s) (sql s)) \<Longrightarrow>
      \<exists>a s'. with_tasks g s = Some (a, s') \<and> Q a \<and> client_holds lib view parses names run junk task_junk s' bs ts"
  using client_holdsD [OF assms] by (auto simp: with_blocks_def with_tasks_def gives_def client_holds_def)

lemma find_by_key:
  assumes "distinct (map key xs)"
    and "case x of Some e \<Rightarrow> e \<in> set xs \<and> key e = i | None \<Rightarrow> \<forall>e \<in> set xs. key e \<noteq> i"
  shows "x = find (\<lambda>e. key e = i) xs"
proof (cases x)
  case None
  with assms(2) have "find (\<lambda>e. key e = i) xs = None" by (simp add: find_None_iff)
  with None show ?thesis by simp
next
  case (Some e)
  with assms(2) obtain j where j: "j < length xs" "xs ! j = e" "key e = i" by (auto simp: in_set_conv_nth)
  have "key (xs ! k) \<noteq> i" if "k < j" for k
    using that j assms(1) by (auto simp: distinct_conv_nth)
  with j have "find (\<lambda>e. key e = i) xs = Some e" by (auto simp: find_Some_iff)
  with Some show ?thesis by simp
qed

lemma fold_max: "a \<le> fold max xs a" "x \<in> set xs \<Longrightarrow> x \<le> fold max xs a" for a :: int
proof -
  have ge: "a \<le> fold max xs a" for a :: int and xs
  proof (induction xs arbitrary: a)
    case (Cons y xs)
    have "a \<le> max y a" by simp
    also have "max y a \<le> fold max xs (max y a)" by (rule Cons.IH)
    finally show ?case by simp
  qed simp
  show "a \<le> fold max xs a" by (rule ge)
  show "x \<in> set xs \<Longrightarrow> x \<le> fold max xs a"
  proof (induction xs arbitrary: a)
    case (Cons y xs)
    show ?case
    proof (cases "x \<in> set xs")
      case False
      have "y \<le> max y a" by simp
      also have "max y a \<le> fold max xs (max y a)" by (rule ge)
      finally show ?thesis using False Cons.prems by simp
    qed (use Cons.IH in simp)
  qed simp
qed

lemma next_id_bound: "b \<in> set bs \<Longrightarrow> sint (block_id b) < next_id bs" "next_id bs > 0"
  using fold_max(2) [of "sint (block_id b)" "map (\<lambda>b. sint (block_id b)) bs" 0]
    fold_max(1) [of 0 "map (\<lambda>b. sint (block_id b)) bs"]
  by (auto simp: next_id_def)

lemma next_key_blocks: "next_key ''block_id'' (map values_of (map block_data bs)) = next_id bs"
proof -
  have "List.map_filter (\<lambda>row. row_integer row ''block_id'') (map values_of (map block_data bs)) = map (\<lambda>b. sint (block_id b)) bs"
    by (induction bs) (simp_all add: map_filter_def block_data_def)
  then show ?thesis by (simp add: next_key_def next_id_def)
qed

lemma sint_next_id: "next_id bs < 2 ^ 63 \<Longrightarrow> sint (word_of_int (next_id bs) :: u64) = next_id bs"
  using next_id_bound(2) [of bs] unfolding sint_sbintrunc' by (intro signed_take_bit_int_eq_self) simp_all

lemma client_block_add:
  assumes "client_holds lib view parses names run junk task_junk s bs ts" "block_valid b" "next_id bs < 2 ^ 63"
  shows "\<exists>s'. block_service_add lib b s = Some (True, s') \<and>
    client_holds lib view parses names run junk task_junk s'
      (bs @ [kept_block (b\<lparr>block_id := word_of_int (next_id bs)\<rparr>)]) ts"
  unfolding block_service_add_def block_add_def
proof (rule holds_blocks [OF assms(1)])
  note h = client_holdsD [OF assms(1)]
  let ?k = "word_of_int (next_id bs) :: u64"
  let ?e = "kept_block (b\<lparr>block_id := ?k\<rparr>)"
  have vals: "block_values ?e = block_values b" "block_id ?e = ?k"
    by (simp_all add: kept_block_def block_values_def to_time_ms_kept)
  have valid: "block_valid ?e" using assms(2) by (simp add: kept_block_def block_valid_def)
  have fresh: "block_id c \<noteq> ?k" if "c \<in> set bs" for c
    using next_id_bound(1) [OF that] sint_next_id [OF assms(3)] by auto
  have data: "block_data ?e = (''block_id'', Int64_Data ?k) # block_values b"
    by (simp add: block_data_def vals)
  let ?T = "table_of block_table (map block_data bs)"
  show "leaves view block_table block_data (\<lambda>row. read_block row (new_block junk)) (bs @ [?e]) (db_of view (sql s))
      (repo_insert lib (block_values b) (m_block_repository s) (sql s))"
  proof (rule repo_insert_leaves [OF h(1,2,4) block_values_ok(1) _ _ h(5)])
    show "block_values b \<noteq> []" "distinct (map fst (block_values b))" by (simp_all add: block_values_def)
    show "Insert_Into (table_name block_table) ps \<in> template_statements client_templates"
      if "map fst ps = map fst (block_values b)" for ps
      using client_statements(1) [OF that] by (simp add: block_table_items)
    show "\<forall>c \<in> set (column_items block_table). column_name c \<notin> fst ` set (block_values b) \<longrightarrow>
        is_primary_key c \<and> data_type c = Int64 \<and> next_key (column_name c) (map values_of (map block_data bs)) < 2 ^ 63"
      using next_key_blocks [of bs] assms(3) by (simp add: block_table_items block_values_def)
    show "new_row ?T (values_of (block_values b)) = values_of (block_data ?e)"
      using next_key_blocks [of bs]
      by (simp add: new_row_def data block_table_items block_values_def column_of_def values_of_def)
    show "row_allowed ?T (values_of (block_data ?e))"
      using fresh unfolding data by (auto simp: row_allowed_def block_table_items column_of_def block_values_def list_all_iff block_data_def)
    show "full block_table (block_data ?e)" by (rule block_values_ok(2))
    show "read_block (entity_cells (block_data ?e)) (new_block junk) = Some ?e"
      using read_block_back [OF valid] by (simp add: kept_block_def)
  qed
  show "distinct (map block_id (bs @ [?e]))" using h(7) fresh fresh [symmetric] by (auto simp: vals(2))
  show "list_all block_valid (bs @ [?e])" using h(8) valid by simp
qed

text \<open>The data of an entity after an update with the data of another one.\<close>

lemma set_block: "block_id e = block_id b \<Longrightarrow> set_values (block_values b) (block_data e) = block_data (kept_block b)"
  unfolding block_data_def [of "kept_block b"] block_values_kept
  by (simp add: set_values_def block_data_def block_values_def kept_block_def)

lemma set_task:
  "task_id e = task_id t \<Longrightarrow> values_of (set_values (task_values t) (task_data e)) = values_of (task_data (kept_task t))"
  by (simp add: set_values_def task_data_def task_values_def values_of_def kept_task_def to_time_ms_kept)

lemma kept_again [simp]: "kept_block (kept_block b) = kept_block b" "kept_task (kept_task t) = kept_task t"
  by (simp_all add: kept_block_def kept_task_def)

lemma client_block_update:
  assumes "client_holds lib view parses names run junk task_junk s bs ts" "block_valid b"
  shows "\<exists>s'. block_service_update lib b s = Some (True, s') \<and>
    client_holds lib view parses names run junk task_junk s' (map (\<lambda>c. if block_id c = block_id b then kept_block b else c) bs) ts"
  unfolding block_service_update_def block_update_def
proof (rule holds_blocks [OF assms(1)])
  note h = client_holdsD [OF assms(1)]
  have valid: "block_valid (kept_block b)" using assms(2) by (simp add: kept_block_def block_valid_def)
  have "leaves view block_table block_data (\<lambda>row. read_block row (new_block junk))
      (map (\<lambda>e. if key_holds [(''block_id'', block_id b)] (block_data e) then kept_block b else e) bs) (db_of view (sql s))
      (repo_update lib (block_values b) (''block_id'', block_id b) (m_block_repository s) (sql s))"
  proof (rule repo_update_leaves [OF h(1,2,4) block_values_ok(1) _ _ keys_ok(1) h(5)])
    show "block_values b \<noteq> []" "distinct (map fst (block_values b))" by (simp_all add: block_values_def)
    show "\<forall>c \<in> set (column_items block_table). is_primary_key c \<or> is_unique c \<longrightarrow> column_name c \<notin> fst ` set (block_values b)"
      by (simp add: block_table_items block_values_def)
    show "Update_Set (table_name block_table) ps (point_where [(''block_id'', block_id b)]) \<in> template_statements client_templates"
      if "map fst ps = map fst (block_values b)" for ps
      using client_statements(2) [OF that] by (simp add: block_table_items)
    show "values_of (set_values (block_values b) (block_data e)) = values_of (block_data (kept_block b)) \<and> full block_table (block_data (kept_block b)) \<and>
        read_block (entity_cells (block_data (kept_block b))) (new_block junk) = Some (kept_block b)"
      if "key_holds [(''block_id'', block_id b)] (block_data e)" for e
      using that read_block_back [OF valid] block_values_ok(2) [of "kept_block b"]
      by (simp add: set_block)
  qed
  then show "leaves view block_table block_data (\<lambda>row. read_block row (new_block junk))
      (map (\<lambda>c. if block_id c = block_id b then kept_block b else c) bs) (db_of view (sql s))
      (repo_update lib (block_values b) (''block_id'', block_id b) (m_block_repository s) (sql s))"
    by simp
  have "map block_id (map (\<lambda>c. if block_id c = block_id b then kept_block b else c) bs) = map block_id bs"
    by (simp add: kept_block_def)
  then show "distinct (map block_id (map (\<lambda>c. if block_id c = block_id b then kept_block b else c) bs))"
    using h(7) by (simp only:)
  show "list_all block_valid (map (\<lambda>c. if block_id c = block_id b then kept_block b else c) bs)"
    using h(8) valid by (auto simp: list_all_iff)
qed

lemma client_task_update:
  assumes "client_holds lib view parses names run junk task_junk s bs ts" "task_valid t"
  shows "\<exists>s'. task_service_update lib t s = Some (True, s') \<and>
    client_holds lib view parses names run junk task_junk s' bs (map (\<lambda>u. if task_id u = task_id t then kept_task t else u) ts)"
  unfolding task_service_update_def task_update_def
proof (rule holds_tasks [OF assms(1)])
  note h = client_holdsD [OF assms(1)]
  have valid: "task_valid (kept_task t)" using assms(2) by (simp add: kept_task_def task_valid_def)
  have "leaves view task_table task_data (\<lambda>row. read_task row (new_task task_junk))
      (map (\<lambda>e. if key_holds [(''task_id'', task_id t)] (task_data e) then kept_task t else e) ts) (db_of view (sql s))
      (repo_update lib (task_values t) (''task_id'', task_id t) (m_task_repository s) (sql s))"
  proof (rule repo_update_leaves [OF h(1,3,4) task_values_ok(1) _ _ keys_ok(4) h(6)])
    show "task_values t \<noteq> []" "distinct (map fst (task_values t))" by (simp_all add: task_values_def)
    show "\<forall>c \<in> set (column_items task_table). is_primary_key c \<or> is_unique c \<longrightarrow> column_name c \<notin> fst ` set (task_values t)"
      by (simp add: task_table_items task_values_def)
    show "Update_Set (table_name task_table) ps (point_where [(''task_id'', task_id t)]) \<in> template_statements client_templates"
      if "map fst ps = map fst (task_values t)" for ps
      using client_statements(6) [OF that] by (simp add: task_table_items)
    show "values_of (set_values (task_values t) (task_data e)) = values_of (task_data (kept_task t)) \<and> full task_table (task_data (kept_task t)) \<and>
        read_task (entity_cells (task_data (kept_task t))) (new_task task_junk) = Some (kept_task t)"
      if "key_holds [(''task_id'', task_id t)] (task_data e)" for e
      using that read_task_back [OF valid] task_values_ok(2) [of "kept_task t"]
      by (simp add: set_task)
  qed
  then show "leaves view task_table task_data (\<lambda>row. read_task row (new_task task_junk))
      (map (\<lambda>u. if task_id u = task_id t then kept_task t else u) ts) (db_of view (sql s))
      (repo_update lib (task_values t) (''task_id'', task_id t) (m_task_repository s) (sql s))"
    by simp
  have "map task_id (map (\<lambda>u. if task_id u = task_id t then kept_task t else u) ts) = map task_id ts"
    by (simp add: kept_task_def)
  then show "distinct (map task_id (map (\<lambda>u. if task_id u = task_id t then kept_task t else u) ts))"
    using h(9) by (simp only:)
  show "list_all task_valid (map (\<lambda>u. if task_id u = task_id t then kept_task t else u) ts)"
    using h(10) valid by (auto simp: list_all_iff)
qed

lemma client_block_by_id:
  assumes "client_holds lib view parses names run junk task_junk s bs ts"
  shows "\<exists>s'. block_service_get_by_id lib junk i s = Some (find (\<lambda>b. block_id b = i) bs, s') \<and>
    client_holds lib view parses names run junk task_junk s' bs ts"
proof -
  note h = client_holdsD [OF assms]
  have keys: "list_all (key_ok block_table) [(''block_id'', i)]" by (simp add: keys_ok)
  have S: "Select_From (map column_name (column_items block_table)) (table_name block_table) (point_where [(''block_id'', i)])
      \<in> template_statements client_templates"
    using client_statements(3) by (simp only: block_table_items(1))
  obtain x s' where x: "block_service_get_by_id lib junk i s = Some (x, s')"
    "case x of Some e \<Rightarrow> e \<in> set bs \<and> block_id e = i | None \<Rightarrow> \<forall>e \<in> set bs. block_id e \<noteq> i"
    "client_holds lib view parses names run junk task_junk s' bs ts"
    using holds_query(1) [OF assms, where f = "repo_get_one lib (\<lambda>row. read_block row (new_block junk)) [(''block_id'', i)]",
        OF repo_get_one_gives [OF h(1,2,4) keys h(5) S]]
    by (auto simp: block_service_get_by_id_def block_get_by_id_def [abs_def] cong: option.case_cong)
  from find_by_key [OF h(7) x(2)] x(1,3) show ?thesis by auto
qed

lemma client_blocks_of_task:
  assumes "client_holds lib view parses names run junk task_junk s bs ts"
  shows "\<exists>s' xs. block_service_get_by_task_id lib junk i s = Some (xs, s') \<and>
    mset xs = mset (filter (\<lambda>b. block_task_id b = i) bs) \<and> client_holds lib view parses names run junk task_junk s' bs ts"
proof -
  note h = client_holdsD [OF assms]
  have keys: "list_all (key_ok block_table) [(''task_id'', i)]" by (simp add: keys_ok)
  have S: "Select_From (map column_name (column_items block_table)) (table_name block_table) (point_where [(''task_id'', i)])
      \<in> template_statements client_templates"
    using client_statements(4) by (simp only: block_table_items(1))
  show ?thesis
    using holds_query(1) [OF assms, where f = "repo_get lib (\<lambda>row. read_block row (new_block junk)) [(''task_id'', i)]",
        OF repo_get_gives [OF h(1,2,4) keys h(5) S]]
    by (auto simp: block_service_get_by_task_id_def block_get_by_task_id_def [abs_def] key_holds_block)
qed

lemma client_block_count:
  assumes "client_holds lib view parses names run junk task_junk s bs ts" "BlockState_valid state"
  shows "\<exists>s'. block_service_count_by_task_and_state lib i state s =
      Some (of_nat (length (filter (\<lambda>b. block_task_id b = i \<and> block_state b = state) bs)), s') \<and>
    client_holds lib view parses names run junk task_junk s' bs ts"
proof -
  note h = client_holdsD [OF assms(1)]
  let ?c = "code_to_int64 (BlockState_code state)"
  have keys: "list_all (key_ok block_table) [(''task_id'', i), (''state'', ?c)]" by (simp add: keys_ok)
  have S: "Count_From (table_name block_table) (point_where [(''task_id'', i), (''state'', ?c)])
      \<in> template_statements client_templates"
    using client_statements(5) by (simp only: block_table_items(1))
  have "filter (\<lambda>e. key_holds [(''task_id'', i), (''state'', ?c)] (block_data e)) bs =
      filter (\<lambda>b. block_task_id b = i \<and> block_state b = state) bs"
    using h(8) assms(2) by (intro filter_cong) (auto simp: list_all_iff block_valid_def state_code_inj)
  then show ?thesis
    using holds_query(1) [OF assms(1), where f = "repo_count lib 0 [(''task_id'', i), (''state'', ?c)]",
        OF repo_count_gives [OF h(1,2,4) keys h(5) S, of 0]]
    by (simp add: block_service_count_by_task_and_state_def block_count_by_task_and_state_def [abs_def])
qed

lemma client_task_by_id:
  assumes "client_holds lib view parses names run junk task_junk s bs ts"
  shows "\<exists>s'. task_service_get_by_task_id lib task_junk i s = Some (find (\<lambda>t. task_id t = i) ts, s') \<and>
    client_holds lib view parses names run junk task_junk s' bs ts"
proof -
  note h = client_holdsD [OF assms]
  have keys: "list_all (key_ok task_table) [(''task_id'', i)]" by (simp add: keys_ok)
  have S: "Select_From (map column_name (column_items task_table)) (table_name task_table) (point_where [(''task_id'', i)])
      \<in> template_statements client_templates"
    using client_statements(7) by (simp only: task_table_items(1))
  obtain x s' where x: "task_service_get_by_task_id lib task_junk i s = Some (x, s')"
    "case x of Some e \<Rightarrow> e \<in> set ts \<and> task_id e = i | None \<Rightarrow> \<forall>e \<in> set ts. task_id e \<noteq> i"
    "client_holds lib view parses names run junk task_junk s' bs ts"
    using holds_query(2) [OF assms, where g = "repo_get_one lib (\<lambda>row. read_task row (new_task task_junk)) [(''task_id'', i)]",
        OF repo_get_one_gives [OF h(1,3,4) keys h(6) S]]
    by (auto simp: task_service_get_by_task_id_def task_get_by_task_id_def [abs_def] cong: option.case_cong)
  from find_by_key [OF h(9) x(2)] x(1,3) show ?thesis by auto
qed

lemma client_ops_sel [simp]:
  "op_block_add (client_ops lib junk task_junk) = block_service_add lib"
  "op_block_by_id (client_ops lib junk task_junk) = block_service_get_by_id lib junk"
  "op_blocks_of_task (client_ops lib junk task_junk) = block_service_get_by_task_id lib junk"
  "op_block_update (client_ops lib junk task_junk) = block_service_update lib"
  "op_block_count (client_ops lib junk task_junk) = block_service_count_by_task_and_state lib"
  "op_task_by_id (client_ops lib junk task_junk) = task_service_get_by_task_id lib task_junk"
  "op_task_update (client_ops lib junk task_junk) = task_service_update lib"
  by (simp_all add: client_ops_def)

interpretation client: task_store "client_ops lib junk task_junk" "client_holds lib view parses names run junk task_junk"
proof unfold_locales
  fix s bs ts
  assume h: "client_holds lib view parses names run junk task_junk s bs ts"
  show "distinct (map block_id bs) \<and> list_all block_valid bs \<and> distinct (map task_id ts) \<and> list_all task_valid ts"
    using client_holdsD [OF h] by blast
qed (simp_all only: client_ops_sel client_block_add client_block_update client_block_by_id client_blocks_of_task client_block_count
  client_task_by_id client_task_update)

section \<open>A store\<close>

text \<open>A client with initialised repositories and empty tables, over the small library.\<close>

definition demo_repository :: "SqlTableItem \<Rightarrow> Repository" where
  "demo_repository table =
     \<lparr>r_is_init = True, r_table = Some table,
      r_table_query = table_query_of (Some default_signs) (Some table) (Some \<lparr>m_sql = []\<rparr>)\<rparr>"

definition demo_db :: db where
  "demo_db = [''block'' \<mapsto> table_of block_table [], ''task'' \<mapsto> table_of task_table []]"

definition demo_store :: "engine client_store" where
  "demo_store =
     \<lparr>m_block_repository = demo_repository block_table, m_task_repository = demo_repository task_table,
      m_client_file_repository = demo_repository file_table, m_task_counter = 1, sql = engine_world demo_db,
      databases = Map.empty\<rparr>"

definition demo_block :: BlockEntity where
  "demo_block =
     \<lparr>block_id = 0, block_task_id = 0, block_file_id = 0, block_offset = 0, block_size = 0, block_state = Block_Unknown,
      block_start_time = 0, block_end_time = 0\<rparr>"

lemma demo_repository_ok: "r_ok block_table (demo_repository block_table)" "r_ok task_table (demo_repository task_table)"
  by (simp_all add: r_ok_def demo_repository_def tq_ok_def table_query_of_def builder_ok_def builder_of_def table_ok_def
      table_is_valid_def column_is_valid_def block_table_items task_table_items try_format_data_type_def plain_def)

lemma demo_holds:
  "client_holds (engine_lib client_templates) engine_view (engine_parses client_templates) (engine_names client_templates)
     (engine_run client_templates) demo_block Task_Unknown demo_store [] []"
  using engine_ok [OF client_templates_ok] demo_repository_ok
  by (simp add: client_holds_def demo_store_def entities_def demo_db_def engine_world_def empty_engine_def new_driver_def
      world_ok_def block_table_items task_table_items)

end
