(* ===== verification/Signed_Words.thy ===== *)
theory Signed_Words
  imports Prelude
begin

text \<open>What 64-bit words are as signed numbers: sizes and offsets in files and blocks are \<open>int64_t\<close>.\<close>

lemma sint_diff:
  "0 \<le> sint a \<Longrightarrow> sint a \<le> sint b \<Longrightarrow> sint (b - a) = sint b - sint a" for a b :: u64
proof -
  assume "0 \<le> sint a" "sint a \<le> sint b"
  moreover have "sint b < 2 ^ 63" using sint_less [of b] by simp
  moreover have "b - a = word_of_int (sint b - sint a)" by simp
  ultimately show ?thesis unfolding \<open>b - a = _\<close> sint_sbintrunc' by (intro signed_take_bit_int_eq_self) simp_all
qed

lemma sint_sum:
  "0 \<le> sint a \<Longrightarrow> 0 \<le> sint b \<Longrightarrow> sint a + sint b < 2 ^ 63 \<Longrightarrow> sint (a + b) = sint a + sint b" for a b :: u64
proof -
  assume "0 \<le> sint a" "0 \<le> sint b" "sint a + sint b < 2 ^ 63"
  moreover have "a + b = word_of_int (sint a + sint b)" by simp
  ultimately show ?thesis unfolding \<open>a + b = _\<close> sint_sbintrunc' by (intro signed_take_bit_int_eq_self) simp_all
qed

lemma sint_of_nat64: "int k < 2 ^ 63 \<Longrightarrow> sint (of_nat k :: u64) = int k"
proof -
  assume "int k < 2 ^ 63"
  moreover have "(of_nat k :: u64) = word_of_int (int k)" by simp
  ultimately show ?thesis unfolding \<open>of_nat k = _\<close> sint_sbintrunc' by (intro signed_take_bit_int_eq_self) simp_all
qed

lemma unat_nonneg: "0 \<le> sint w \<Longrightarrow> unat w = nat (sint w)" for w :: u64
proof -
  assume w: "0 \<le> sint w"
  have of_nat: "(of_nat (nat (sint w)) :: u64) = w" using w by (simp add: of_nat_nat)
  have "nat (sint w) < 2 ^ 64" using sint_less [of w] by simp
  then have "unat (of_nat (nat (sint w)) :: u64) = nat (sint w)" by (intro unat_of_nat_small) simp
  then show ?thesis by (simp add: of_nat)
qed

end
