(* ===== verification/Block_Partition.thy ===== *)
theory Block_Partition
  imports Client_Store Signed_Words
begin

text \<open>
  The blocks of a file, \<open>BlockService::add\<close>: the loop cuts a file into blocks without gap or overlap and ends, when the size
  of a block is positive. Proved for any store that keeps the contract, and for the services of the client.
\<close>

section \<open>Cutting\<close>

text \<open>The offsets and sizes that are meant.\<close>

definition cut_count :: "int \<Rightarrow> int \<Rightarrow> nat" where
  "cut_count len bytes = nat ((len + bytes - 1) div bytes)"

definition cuts :: "int \<Rightarrow> int \<Rightarrow> int \<Rightarrow> (int \<times> int) list" where
  "cuts offset len bytes = map (\<lambda>k. (offset + int k * bytes, min bytes (len - int k * bytes))) [0..<cut_count len bytes]"

lemma cuts_Nil: "bytes > 0 \<Longrightarrow> len \<le> 0 \<Longrightarrow> cuts offset len bytes = []"
proof -
  assume "bytes > 0" "len \<le> 0"
  then have "(len + bytes - 1) div bytes \<le> (bytes - 1) div bytes" by (intro zdiv_mono1) simp_all
  also have "(bytes - 1) div bytes = 0" using \<open>bytes > 0\<close> by simp
  finally show ?thesis by (simp add: cuts_def cut_count_def)
qed

lemma cuts_Cons:
  assumes "bytes > 0" "len > 0"
  shows "cuts offset len bytes = (offset, min bytes len) # cuts (offset + min bytes len) (len - min bytes len) bytes"
proof (cases "len \<le> bytes")
  case True
  have "(len + bytes - 1) div bytes = ((len - 1) + bytes) div bytes" by (simp add: algebra_simps)
  also have "\<dots> = 1 + (len - 1) div bytes" using assms(1) by (simp add: div_add_self2)
  also have "(len - 1) div bytes = 0" using assms True by simp
  finally have "cut_count len bytes = 1" by (simp add: cut_count_def)
  then have "cuts offset len bytes = [(offset, min bytes len)]" by (simp add: cuts_def)
  moreover have "cuts (offset + min bytes len) (len - min bytes len) bytes = []"
    by (rule cuts_Nil [OF assms(1)]) (use True in simp)
  ultimately show ?thesis by simp
next
  case False
  have "(len + bytes - 1) div bytes = ((len - bytes + bytes - 1) + bytes) div bytes" by (simp add: algebra_simps)
  also have "\<dots> = 1 + (len - bytes + bytes - 1) div bytes" using assms(1) by (subst div_add_self2) simp_all
  finally have "(len + bytes - 1) div bytes = 1 + (len - bytes + bytes - 1) div bytes" .
  moreover have "(len - bytes + bytes - 1) div bytes \<ge> 0" using assms by (simp add: pos_imp_zdiv_nonneg_iff)
  ultimately have count: "cut_count len bytes = Suc (cut_count (len - bytes) bytes)"
    by (simp add: cut_count_def Suc_nat_eq_nat_zadd1)
  have "[0..<Suc n] = 0 # map Suc [0..<n]" for n by (simp add: upt_conv_Cons map_Suc_upt)
  with count False show ?thesis by (simp add: cuts_def comp_def algebra_simps)
qed

text \<open>Every position of the file is in exactly one block.\<close>

lemma cuts_cover:
  assumes "bytes > 0" "0 \<le> x" "x < len"
  shows "\<exists>!k. k < length (cuts 0 len bytes) \<and>
    fst (cuts 0 len bytes ! k) \<le> x \<and> x < fst (cuts 0 len bytes ! k) + snd (cuts 0 len bytes ! k)"
proof -
  let ?k = "nat (x div bytes)"
  have k: "int ?k = x div bytes" using assms by (simp add: pos_imp_zdiv_nonneg_iff)
  have bounds: "x div bytes * bytes \<le> x" "x < x div bytes * bytes + bytes"
    using assms(1) div_mult_mod_eq [of x bytes] pos_mod_bound [of bytes x] pos_mod_sign [of bytes x] by linarith+
  have "x div bytes < (len + bytes - 1) div bytes"
  proof -
    have "x div bytes + 1 = (x + bytes) div bytes" using assms(1) by (subst div_add_self2) simp_all
    also have "\<dots> \<le> (len + bytes - 1) div bytes" using assms by (intro zdiv_mono1) simp_all
    finally show ?thesis by simp
  qed
  moreover have "0 \<le> x div bytes" using assms by (simp add: pos_imp_zdiv_nonneg_iff)
  ultimately have "?k < cut_count len bytes" by (simp add: cut_count_def nat_less_eq_zless)
  moreover have "int j = x div bytes" if "int j * bytes \<le> x" "x < int j * bytes + bytes" for j
  proof -
    have "x - int j * bytes \<ge> 0" "x - int j * bytes < bytes" using that by simp_all
    then have "(x - int j * bytes + int j * bytes) div bytes = int j" using assms(1) by (subst div_mult_self1) simp_all
    then show ?thesis by simp
  qed
  then have "j = ?k" if "int j * bytes \<le> x" "x < int j * bytes + bytes" for j
    using that k by (metis of_nat_eq_iff)
  ultimately show ?thesis
    using bounds assms k by (intro ex1I [of _ ?k]) (auto simp: cuts_def min_def split: if_splits)
qed

lemma cuts_total: "bytes > 0 \<Longrightarrow> len \<ge> 0 \<Longrightarrow> sum_list (map snd (cuts offset len bytes)) = len"
proof (induction "nat len" arbitrary: offset len rule: less_induct)
  case less
  then show ?case
  proof (cases "len = 0")
    case False
    with less.prems have len: "len > 0" by simp
    have "sum_list (map snd (cuts (offset + min bytes len) (len - min bytes len) bytes)) = len - min bytes len"
      by (rule less.hyps) (use len less.prems in auto)
    then show ?thesis by (simp add: cuts_Cons [OF less.prems(1) len])
  qed (simp add: cuts_Nil)
qed

section \<open>The loop\<close>

text \<open>The blocks that were added: waiting blocks of the task, with these offsets and sizes.\<close>

definition blocks_for :: "ClientFileEntity \<Rightarrow> u64 \<Rightarrow> (int \<times> int) list \<Rightarrow> BlockEntity list \<Rightarrow> bool" where
  "blocks_for f task cs new \<longleftrightarrow>
     map (\<lambda>b. (sint (block_offset b), sint (block_size b))) new = cs \<and>
     list_all (\<lambda>b. block_task_id b = task \<and> block_file_id b = client_file_id f \<and> block_state b = Block_Waiting) new"

lemma next_block_sel [simp]:
  "block_task_id (next_block junk f task bytes offset) = task"
  "block_file_id (next_block junk f task bytes offset) = client_file_id f"
  "block_state (next_block junk f task bytes offset) = Block_Waiting"
  "block_offset (next_block junk f task bytes offset) = offset"
  by (simp_all add: next_block_def)

lemma next_block_size:
  assumes "0 \<le> sint offset" "sint offset < sint (client_file_size f)" "0 < sint bytes"
  shows "sint (block_size (next_block junk f task bytes offset)) = min (sint bytes) (sint (client_file_size f) - sint offset)"
  using sint_diff [of offset "client_file_size f"] assms by (auto simp: next_block_def min_def)

lemma kept_block_sel [simp]:
  "block_id (kept_block b) = block_id b" "block_task_id (kept_block b) = block_task_id b"
  "block_file_id (kept_block b) = block_file_id b" "block_offset (kept_block b) = block_offset b"
  "block_size (kept_block b) = block_size b" "block_state (kept_block b) = block_state b"
  by (simp_all add: kept_block_def)

lemma next_id_snoc:
  assumes "sint (block_id b) = next_id bs"
  shows "next_id (bs @ [b]) = next_id bs + 1"
  using assms next_id_bound(2) [of bs] by (simp add: next_id_def)

context task_store
begin

lemma add_blocks_cuts:
  assumes "0 < sint bytes"
  shows "\<lbrakk>holds s bs ts; 0 \<le> sint offset; sint offset \<le> sint (client_file_size f);
      next_id bs + int (length (cuts (sint offset) (sint (client_file_size f) - sint offset) (sint bytes))) \<le> 2 ^ 63\<rbrakk> \<Longrightarrow>
    \<exists>s' new. add_blocks (op_block_add ops) junk f task bytes offset s = Some (True, s') \<and> holds s' (bs @ new) ts \<and>
      blocks_for f task (cuts (sint offset) (sint (client_file_size f) - sint offset) (sint bytes)) new"
proof (induction "nat (sint (client_file_size f) - sint offset)" arbitrary: offset s bs rule: less_induct)
  case less
  let ?len = "sint (client_file_size f) - sint offset"
  show ?case
  proof (cases "sint offset < sint (client_file_size f)")
    case False
    with less.prems(2,3) have "cuts (sint offset) ?len (sint bytes) = []" using cuts_Nil [OF assms] by simp
    then show ?thesis
      using False less.prems(1) by (subst add_blocks.simps) (auto simp: blocks_for_def intro!: exI [of _ "[]"])
  next
    case True
    let ?b = "next_block junk f task bytes offset"
    let ?e = "kept_block (?b\<lparr>block_id := word_of_int (next_id bs)\<rparr>)"
    note size = next_block_size [OF less.prems(2) True assms, of junk task]
    have cut: "cuts (sint offset) ?len (sint bytes) =
        (sint offset, min (sint bytes) ?len) # cuts (sint offset + min (sint bytes) ?len) (?len - min (sint bytes) ?len) (sint bytes)"
      by (rule cuts_Cons [OF assms]) (use True in simp)
    have id: "next_id bs < 2 ^ 63" using less.prems(4) cut by simp
    have "block_valid ?b" by (simp add: block_valid_def)
    from block_add [OF less.prems(1) this id] obtain s1 where s1: "op_block_add ops ?b s = Some (True, s1)" "holds s1 (bs @ [?e]) ts"
      by blast
    have "sint (client_file_size f) < 2 ^ 63" using sint_less [of "client_file_size f"] by simp
    then have offset: "sint (offset + block_size ?b) = sint offset + min (sint bytes) ?len"
      using less.prems(2) True assms by (subst sint_sum) (auto simp: size)
    have left: "sint (client_file_size f) - sint (offset + block_size ?b) = ?len - min (sint bytes) ?len"
      by (simp add: offset)
    have ids: "next_id (bs @ [?e]) = next_id bs + 1" by (rule next_id_snoc) (simp add: sint_next_id [OF id])
    have "\<exists>s' new. add_blocks (op_block_add ops) junk f task bytes (offset + block_size ?b) s1 = Some (True, s') \<and>
        holds s' ((bs @ [?e]) @ new) ts \<and>
        blocks_for f task (cuts (sint (offset + block_size ?b)) (sint (client_file_size f) - sint (offset + block_size ?b)) (sint bytes)) new"
      by (rule less.hyps [OF _ s1(2)]) (use less.prems True assms cut in \<open>auto simp: offset ids min_def diff_diff_eq\<close>)
    then obtain s' new where new: "add_blocks (op_block_add ops) junk f task bytes (offset + block_size ?b) s1 = Some (True, s')"
      "holds s' ((bs @ [?e]) @ new) ts"
      "blocks_for f task (cuts (sint offset + min (sint bytes) ?len) (?len - min (sint bytes) ?len) (sint bytes)) new"
      unfolding offset by (auto simp: algebra_simps)
    have "add_blocks (op_block_add ops) junk f task bytes offset s = Some (True, s')"
      using True s1(1) new(1) by (subst add_blocks.simps) (simp add: Let_def)
    moreover have "blocks_for f task (cuts (sint offset) ?len (sint bytes)) (?e # new)"
      using new(3) size by (simp add: cut blocks_for_def)
    ultimately show ?thesis using new(2) by (intro exI [of _ s'] exI [of _ "?e # new"]) simp
  qed
qed

end

text \<open>C14: Adding a file to the block service of the client ends and cuts the file without gap or overlap: new waiting
  blocks of the task come behind the blocks that were there, with the offsets and sizes of the cuts, their sizes
  add up to the size of the file, and every position of the file lies in exactly one of them.\<close>

theorem file_is_partitioned:
  assumes "client_holds lib view parses names run junk task_junk s bs ts"
    and "0 < sint bytes" "0 \<le> sint (client_file_size f)"
    and "next_id bs + int (cut_count (sint (client_file_size f)) (sint bytes)) \<le> 2 ^ 63"
  shows "\<exists>s' new. block_service_add_file lib junk f task bytes s = Some (True, s') \<and>
    client_holds lib view parses names run junk task_junk s' (bs @ new) ts \<and>
    length new = cut_count (sint (client_file_size f)) (sint bytes) \<and>
    list_all (\<lambda>b. block_task_id b = task \<and> block_file_id b = client_file_id f \<and> block_state b = Block_Waiting) new \<and>
    sum_list (map (\<lambda>b. sint (block_size b)) new) = sint (client_file_size f) \<and>
    (\<forall>x \<in> {0..<sint (client_file_size f)}. \<exists>!k. k < length new \<and>
       sint (block_offset (new ! k)) \<le> x \<and> x < sint (block_offset (new ! k)) + sint (block_size (new ! k)))"
proof -
  let ?cs = "cuts 0 (sint (client_file_size f)) (sint bytes)"
  have len: "length ?cs = cut_count (sint (client_file_size f)) (sint bytes)" by (simp add: cuts_def)
  obtain s' new where new: "block_service_add_file lib junk f task bytes s = Some (True, s')"
    "client_holds lib view parses names run junk task_junk s' (bs @ new) ts" "blocks_for f task ?cs new"
    using client.add_blocks_cuts [OF assms(2,1), of 0 f junk task] assms(3,4) len
    by (auto simp: block_service_add_file_def)
  have map: "map (\<lambda>b. (sint (block_offset b), sint (block_size b))) new = ?cs"
    and all: "list_all (\<lambda>b. block_task_id b = task \<and> block_file_id b = client_file_id f \<and> block_state b = Block_Waiting) new"
    using new(3) by (simp_all add: blocks_for_def)
  have length: "length new = length ?cs" using arg_cong [OF map, of length] by simp
  have nth: "?cs ! k = (sint (block_offset (new ! k)), sint (block_size (new ! k)))" if "k < length new" for k
    using that by (simp flip: map)
  have "map snd ?cs = map (\<lambda>b. sint (block_size b)) new" by (simp flip: map add: comp_def)
  then have total: "sum_list (map (\<lambda>b. sint (block_size b)) new) = sint (client_file_size f)"
    using cuts_total [OF assms(2,3), of 0] by simp
  have "\<exists>!k. k < length new \<and>
      sint (block_offset (new ! k)) \<le> x \<and> x < sint (block_offset (new ! k)) + sint (block_size (new ! k))"
    if "x \<in> {0..<sint (client_file_size f)}" for x
    using cuts_cover [OF assms(2), of x "sint (client_file_size f)"] that nth length by (auto cong: conj_cong)
  then have "\<forall>x \<in> {0..<sint (client_file_size f)}. \<exists>!k. k < length new \<and>
       sint (block_offset (new ! k)) \<le> x \<and> x < sint (block_offset (new ! k)) + sint (block_size (new ! k))" by (rule ballI)
  with new(1,2) len length all total show ?thesis
    by (intro exI [of _ s'] exI [of _ new] conjI) (simp_all only:)
qed

definition demo_file :: ClientFileEntity where
  "demo_file = \<lparr>client_file_id = 7, client_file_name = ''f'', client_file_size = 5, client_md5_code = []\<rparr>"

theorem file_is_partitioned_witness:
  "\<exists>s' (new :: BlockEntity list). block_service_add_file (engine_lib client_templates) demo_block demo_file 3 2 demo_store = Some (True, s') \<and>
     length new = 3 \<and> sum_list (map (\<lambda>b. sint (block_size b)) new) = 5 \<and>
     (\<exists>!k. k < length new \<and>
       sint (block_offset (new ! k)) \<le> 3 \<and> 3 < sint (block_offset (new ! k)) + sint (block_size (new ! k)))"
proof -
  have n: "sint (client_file_size demo_file) = 5" "cut_count 5 (sint (2 :: u64)) = 3"
    by (simp_all add: cut_count_def demo_file_def)
  have b: "0 < sint (2 :: u64)" "0 \<le> sint (client_file_size demo_file)"
    "next_id [] + int (cut_count (sint (client_file_size demo_file)) (sint (2 :: u64))) \<le> 2 ^ 63"
    by (simp_all add: next_id_def cut_count_def demo_file_def)
  have x: "(3 :: int) \<in> {0..<5}" by simp
  obtain s' and new :: "BlockEntity list" where new: "block_service_add_file (engine_lib client_templates) demo_block demo_file 3 2 demo_store = Some (True, s')"
    "length new = 3" "sum_list (map (\<lambda>b. sint (block_size b)) new) = 5"
    "\<forall>x \<in> {0..<5}. \<exists>!k. k < length new \<and>
       sint (block_offset (new ! k)) \<le> x \<and> x < sint (block_offset (new ! k)) + sint (block_size (new ! k))"
    using file_is_partitioned [OF demo_holds b, of 3, unfolded n]
    by (elim exE conjE) (rule that, assumption+)
  show ?thesis
    by (intro exI [of _ s'] exI [of _ new] conjI new(1-3) bspec [OF new(4) x])
qed

text \<open>With a block size of zero the loop that cuts a file that is not empty never ends with success: whatever the
  service answers, the offset stays where it is, so the loop ends only when a block cannot be added, and adds empty
  blocks until then.\<close>

theorem empty_blocks_never_end:
  assumes "0 \<le> sint offset" "sint offset < sint (client_file_size f)"
  shows "add_blocks add junk f task 0 offset s \<noteq> Some (True, s')"
proof
  define P where "P = (\<lambda>(add :: BlockEntity \<Rightarrow> 'a \<Rightarrow> (bool \<times> 'a) option) (junk :: BlockEntity) (f :: ClientFileEntity) (task :: u64) (bytes :: u64) (offset :: u64) (s :: 'a) (y :: bool \<times> 'a).
    bytes = 0 \<and> 0 \<le> sint offset \<and> sint offset < sint (client_file_size f) \<longrightarrow> \<not> fst y)"
  assume ret: "add_blocks add junk f task 0 offset s = Some (True, s')"
  have "P add junk f task 0 offset s (True, s')"
  proof (rule add_blocks.raw_induct [OF _ ret], unfold P_def, rule impI, elim conjE)
    fix rec and add :: "BlockEntity \<Rightarrow> 'a \<Rightarrow> (bool \<times> 'a) option" and junk f task bytes offset s y
    assume IH: "\<And>add junk f task bytes offset s y. rec add junk f task bytes offset s = Some y \<Longrightarrow>
          bytes = 0 \<and> 0 \<le> sint offset \<and> sint offset < sint (client_file_size f) \<longrightarrow> \<not> fst y"
      and eq: "(if sint offset < sint (client_file_size f)
          then let b = next_block junk f task bytes offset
               in add b s \<bind> (\<lambda>(is_succeed, s). if \<not> is_succeed then Some (False, s)
                     else rec add junk f task bytes (offset + block_size b) s)
          else Some (True, s)) = Some y"
      and prem: "bytes = 0" "0 \<le> sint offset" "sint offset < sint (client_file_size f)"
    have "sint (client_file_size f - offset) = sint (client_file_size f) - sint offset"
      using prem by (intro sint_diff) simp_all
    then have "block_size (next_block junk f task 0 offset) = 0"
      using prem by (simp add: next_block_def)
    then have "y = (False, snd y) \<or> (\<exists>s. rec add junk f task 0 offset s = Some y)"
      using prem eq by (auto simp: Let_def split: Option.bind_splits if_splits)
    then show "\<not> fst y"
    proof (elim disjE exE)
      assume "y = (False, snd y)"
      then show ?thesis by (metis fst_conv)
    next
      fix s
      assume "rec add junk f task 0 offset s = Some y"
      from IH [OF this] prem show ?thesis by simp
    qed
  qed
  then show False using assms by (simp add: P_def)
qed

theorem empty_blocks_never_end_witness:
  "add_blocks (\<lambda>b n. Some (n < (3 :: nat), n + 1)) demo_block demo_file 3 0 0 0 \<noteq> Some (True, 4) \<and>
   add_blocks (\<lambda>b n. Some (n < (3 :: nat), n + 1)) demo_block demo_file 3 0 0 0 = Some (False, 4)"
proof
  show "add_blocks (\<lambda>b n. Some (n < (3 :: nat), n + 1)) demo_block demo_file 3 0 0 0 \<noteq> Some (True, 4)"
    by (rule empty_blocks_never_end) (simp_all add: demo_file_def)
  have size: "block_size (next_block demo_block demo_file 3 0 0) = 0" by (simp add: next_block_def demo_file_def)
  have "add_blocks (\<lambda>b n. Some (n < (3 :: nat), n + 1)) demo_block demo_file 3 0 0 n =
      (if n < 3 then add_blocks (\<lambda>b n. Some (n < (3 :: nat), n + 1)) demo_block demo_file 3 0 0 (n + 1) else Some (False, n + 1))" for n
    by (subst add_blocks.simps) (simp add: Let_def size, simp add: demo_file_def)
  then show "add_blocks (\<lambda>b n. Some (n < (3 :: nat), n + 1)) demo_block demo_file 3 0 0 0 = Some (False, 4)"
    by (simp add: numeral_eq_Suc)
qed

end
