(* ===== verification/Client_Network.thy ===== *)
theory Client_Network
  imports Connect
begin

text \<open>
  The connections of the client, \<open>client/context/connect_context\<close> and \<open>client/service/network_service\<close>: bytes to a
  server wait in a buffer until the socket takes them, bytes from it go through the frame assembler. The socket belongs to Qt;
  whether it can be written, what \<open>write\<close> returns and what \<open>readAll\<close> gives are arguments. Log messages are left out.
\<close>

section \<open>\<open>ConnectContext\<close>\<close>

record client_connect =
  c_socket :: bool
  c_write_buffer :: bytes
  c_frame_assembler :: FrameAssembler
  c_last_activity :: u64

definition new_client_connect :: "SerializeHeader \<Rightarrow> client_connect" where
  "new_client_connect junk =
     \<lparr>c_socket = True, c_write_buffer = [], c_frame_assembler = new_FrameAssembler junk, c_last_activity = 0\<rparr>"

text \<open>The bytes that the socket takes are returned besides.\<close>

definition write_data :: "u64 \<Rightarrow> bool \<Rightarrow> int \<Rightarrow> bytes \<Rightarrow> client_connect \<Rightarrow> bytes \<times> client_connect" where
  "write_data now writable written_size data c =
     (let c = c\<lparr>c_last_activity := now, c_write_buffer := c_write_buffer c @ data\<rparr> in
      if \<not> c_socket c \<or> \<not> writable then ([], c)
      else if written_size < 0 then ([], c)
      else (take (nat written_size) (c_write_buffer c), c\<lparr>c_write_buffer := drop (nat written_size) (c_write_buffer c)\<rparr>))"

definition set_socket :: "bool \<Rightarrow> client_connect \<Rightarrow> client_connect" where
  "set_socket socket c = c\<lparr>c_socket := socket\<rparr>"

definition on_socket_write :: "u64 \<Rightarrow> bool \<Rightarrow> int \<Rightarrow> client_connect \<Rightarrow> bytes \<times> client_connect" where
  "on_socket_write now writable written_size c = write_data now writable written_size [] c"

text \<open>The frames are those that the signal \<open>frame_assembled\<close> carries.\<close>

definition on_socket_read :: "ByteOrder \<Rightarrow> bytes \<Rightarrow> client_connect \<Rightarrow> (bytes list \<times> client_connect) option" where
  "on_socket_read host data c =
     (if \<not> c_socket c then Some ([], c)
      else do {
        (frames, a) \<leftarrow> pop_frames host (push_data data (c_frame_assembler c));
        Some (frames, c\<lparr>c_frame_assembler := a\<rparr>)
      })"

section \<open>\<open>NetworkService\<close>\<close>

record NetworkEndpoint =
  ip :: string
  port :: u16

definition network_endpoint_eq :: "NetworkEndpoint \<Rightarrow> NetworkEndpoint \<Rightarrow> bool" where
  "network_endpoint_eq a b \<longleftrightarrow> ip a = ip b \<and> port a = port b"

lemma network_endpoint_eq_iff: "network_endpoint_eq a b \<longleftrightarrow> a = b"
  by (cases a; cases b) (simp add: network_endpoint_eq_def)

definition network_endpoint_hash :: "(string \<Rightarrow> u64) \<Rightarrow> (u16 \<Rightarrow> u64) \<Rightarrow> NetworkEndpoint \<Rightarrow> u64" where
  "network_endpoint_hash string_hash port_hash e = xor (string_hash (ip e)) (push_bit 1 (port_hash (port e)))"

record NetworkService =
  m_connect_map :: "NetworkEndpoint \<Rightarrow> client_connect list option"

definition new_network_service :: NetworkService where
  "new_network_service = \<lparr>m_connect_map = Map.empty\<rparr>"

text \<open>
  The first write to an end point makes a connection: the bytes are put into its buffer while the new socket is not open
  yet, and the connection is started. The result tells whether it was, and the bytes that an old socket has taken.
  \<open>front\<close> of an empty vector is undefined.
\<close>

definition on_write_raw_data ::
  "SerializeHeader \<Rightarrow> u64 \<Rightarrow> bool \<Rightarrow> int \<Rightarrow> NetworkEndpoint \<Rightarrow> bytes \<Rightarrow> NetworkService \<Rightarrow> (bool \<times> bytes \<times> NetworkService) option" where
  "on_write_raw_data junk now writable written_size endpoint data s =
     (case m_connect_map s endpoint of
        None \<Rightarrow>
          (case write_data now False 0 data (new_client_connect junk) of
             (out, c) \<Rightarrow> Some (True, out, s\<lparr>m_connect_map := (m_connect_map s)(endpoint \<mapsto> [c])\<rparr>))
      | Some [] \<Rightarrow> None
      | Some (c # cs) \<Rightarrow>
          (case write_data now writable written_size data c of
             (out, c) \<Rightarrow> Some (False, out, s\<lparr>m_connect_map := (m_connect_map s)(endpoint \<mapsto> c # cs)\<rparr>)))"

text \<open>\<open>on_frame_assembled\<close> passes the frame on.\<close>

definition on_frame_assembled :: "bytes \<Rightarrow> bytes" where
  "on_frame_assembled frame = frame"

section \<open>A connection over time\<close>

datatype client_event =
    Data bytes u64 bool int
  | Taken u64 bool int
  | Arrived bytes

record client_log =
  given :: bytes
  sent :: bytes
  arrived :: bytes
  passed_on :: "bytes list"

fun client_event_step :: "ByteOrder \<Rightarrow> client_event \<Rightarrow> client_connect \<times> client_log \<Rightarrow> (client_connect \<times> client_log) option" where
  "client_event_step host (Data data now writable n) (c, l) =
     (case write_data now writable n data c of
        (out, c) \<Rightarrow> Some (c, l\<lparr>given := given l @ data, sent := sent l @ out\<rparr>))"
| "client_event_step host (Taken now writable n) (c, l) =
     (case on_socket_write now writable n c of (out, c) \<Rightarrow> Some (c, l\<lparr>sent := sent l @ out\<rparr>))"
| "client_event_step host (Arrived data) (c, l) =
     do {
       (frames, c) \<leftarrow> on_socket_read host data c;
       Some (c, l\<lparr>arrived := arrived l @ data, passed_on := passed_on l @ frames\<rparr>)
     }"

fun client_events :: "ByteOrder \<Rightarrow> client_event list \<Rightarrow> client_connect \<times> client_log \<Rightarrow> (client_connect \<times> client_log) option" where
  "client_events host [] s = Some s"
| "client_events host (e # es) s = do { s \<leftarrow> client_event_step host e s; client_events host es s }"

definition client_stream_inv :: "client_connect \<Rightarrow> client_log \<Rightarrow> bool" where
  "client_stream_inv c l \<longleftrightarrow>
     c_socket c \<and> fa_ok (c_frame_assembler c) \<and>
     sent l @ c_write_buffer c = given l \<and>
     concat (passed_on l) @ fa_pending (c_frame_assembler c) = arrived l \<and>
     list_all frames.is_frame (passed_on l) \<and> frames.next_frame (fa_pending (c_frame_assembler c)) = None"

lemma write_data_stream:
  "write_data now writable n data c = (out, c') \<Longrightarrow>
   out @ c_write_buffer c' = c_write_buffer c @ data \<and> c_socket c' = c_socket c \<and> c_frame_assembler c' = c_frame_assembler c"
  by (auto simp: write_data_def Let_def simp del: take_append drop_append split: if_splits)

fun arriving_bytes :: "client_event \<Rightarrow> bytes" where
  "arriving_bytes (Arrived data) = data"
| "arriving_bytes _ = []"

lemma client_event_inv:
  assumes "client_stream_inv c l" "length (arrived l @ arriving_bytes e) < 2 ^ 32"
  shows "\<exists>c' l'. client_event_step host e (c, l) = Some (c', l') \<and> client_stream_inv c' l' \<and>
    arrived l' = arrived l @ arriving_bytes e"
proof (cases e)
  case (Data data now writable n)
  obtain out c' where w: "write_data now writable n data c = (out, c')" by fastforce
  from write_data_stream [OF w] w assms(1) Data show ?thesis
    by (auto simp: client_stream_inv_def)
next
  case (Taken now writable n)
  obtain out c' where w: "write_data now writable n [] c = (out, c')" by fastforce
  from write_data_stream [OF w] w assms(1) Taken show ?thesis
    by (auto simp: client_stream_inv_def on_socket_write_def)
next
  case (Arrived data)
  let ?a = "push_data data (c_frame_assembler c)"
  have inv: "c_socket c" "fa_ok (c_frame_assembler c)"
    "concat (passed_on l) @ fa_pending (c_frame_assembler c) = arrived l"
    using assms(1) by (simp_all add: client_stream_inv_def)
  have "length (fa_pending ?a) < 2 ^ 32"
    using assms(2) arg_cong [OF inv(3), of length] Arrived by (simp add: fa_pending_push)
  then obtain fs a' where p: "pop_frames host ?a = Some (fs, a')" "fa_ok a'" "concat fs @ fa_pending a' = fa_pending ?a"
    "frames.next_frame (fa_pending a') = None" "list_all frames.is_frame fs"
    using pop_frames_split [of ?a host] inv(2) by (auto simp: fa_ok_push)
  have "concat (passed_on l @ fs) @ fa_pending a' = concat (passed_on l) @ fa_pending ?a" using p(3) by simp
  also have "\<dots> = arrived l @ data" by (simp add: fa_pending_push flip: inv(3))
  finally have "concat (passed_on l @ fs) @ fa_pending a' = arrived l @ data" .
  with p assms(1) inv Arrived show ?thesis
    by (auto simp: client_stream_inv_def on_socket_read_def)
qed

fun given_bytes :: "client_event \<Rightarrow> bytes" where
  "given_bytes (Data data now writable n) = data"
| "given_bytes _ = []"

lemma client_event_given:
  "client_event_step host e (c, l) = Some (c', l') \<Longrightarrow> given l' = given l @ given_bytes e"
  by (cases e) (auto split: prod.splits Option.bind_splits)

definition empty_log :: client_log where
  "empty_log = \<lparr>given = [], sent = [], arrived = [], passed_on = []\<rparr>"

lemma client_events_inv:
  assumes "client_stream_inv c l" "length (arrived l @ concat (map arriving_bytes es)) < 2 ^ 32"
  shows "\<exists>c' l'. client_events host es (c, l) = Some (c', l') \<and> client_stream_inv c' l' \<and>
    arrived l' = arrived l @ concat (map arriving_bytes es) \<and> given l' = given l @ concat (map given_bytes es)"
  using assms
proof (induction es arbitrary: c l)
  case (Cons e es)
  then obtain c1 l1 where 1: "client_event_step host e (c, l) = Some (c1, l1)" "client_stream_inv c1 l1"
    "arrived l1 = arrived l @ arriving_bytes e"
    using client_event_inv [of c l e host] by auto
  with Cons.IH [OF 1(2)] Cons.prems(2) client_event_given [OF 1(1)] show ?case by auto
qed simp

text \<open>C4: A connection of the client, whenever it is written to, whatever the socket takes at a time and however the bytes
  of the server arrive: the bytes that the socket has taken and those that wait are the bytes that were
  given to the connection, in order, and the frames that were passed on and the unfinished rest in the assembler are the bytes that
  arrived.\<close>

theorem client_streams:
  assumes "length (concat (map arriving_bytes es)) < 2 ^ 32"
  shows "\<exists>c l. client_events host es (new_client_connect junk, empty_log) = Some (c, l) \<and>
    sent l @ c_write_buffer c = concat (map given_bytes es) \<and>
    concat (passed_on l) @ fa_pending (c_frame_assembler c) = concat (map arriving_bytes es) \<and>
    list_all frames.is_frame (passed_on l) \<and> frames.next_frame (fa_pending (c_frame_assembler c)) = None"
proof -
  have "client_stream_inv (new_client_connect junk) empty_log"
    by (simp add: client_stream_inv_def new_client_connect_def empty_log_def fa_ok_new frames.next_frame_def)
  then obtain c l where "client_events host es (new_client_connect junk, empty_log) = Some (c, l)" "client_stream_inv c l"
    "arrived l = concat (map arriving_bytes es)" "given l = concat (map given_bytes es)"
    using client_events_inv [of "new_client_connect junk" empty_log es host] assms by (auto simp: empty_log_def)
  then show ?thesis unfolding client_stream_inv_def by metis
qed

theorem client_streams_witness:
  "\<exists>c l. client_events BigEndian [Data [1, 2, 3] 5 False 0, Taken 6 True 2, Arrived (message_bytes []), Arrived [9], Taken 7 True 0]
      (new_client_connect blank_header, empty_log) = Some (c, l) \<and>
    sent l @ c_write_buffer c = [1, 2, 3] \<and>
    concat (passed_on l) @ fa_pending (c_frame_assembler c) = message_bytes [] @ [9]"
  using client_streams [of "[Data [1, 2, 3] 5 False 0, Taken 6 True 2, Arrived (message_bytes []), Arrived [9], Taken 7 True 0]"
      BigEndian blank_header]
  by (auto simp: length_message_bytes)

end
