(* ===== verification/Trans_Service.thy ===== *)
theory Trans_Service
  imports Messages Client_Network
begin

text \<open>
  The transfer service of the client, \<open>client/service/trans_service\<close>, and the events between it and the views,
  \<open>view/event/view_event_hub\<close> and \<open>controller/view_event_controller\<close>: requests get an identifier under which the service keeps
  what to do with the response, and the controller the event that asked for it.

  Signals are values that the operations give; Qt connects them. The mutex makes the accesses to the map atomic. The timer
  of a request is the operation \<open>on_timeout\<close>. An exception of the codec is \<open>None\<close>; log messages are left out.
\<close>

section \<open>\<open>TransService\<close>\<close>

record TransContext =
  tc_request_id :: u64
  tc_endpoint :: NetworkEndpoint

text \<open>The callback of a correlation is one of three, with a copy of the context.\<close>

datatype request_kind = Test_Kind | Download_Kind | Block_Kind

record TransCorrelation =
  corr_context :: TransContext
  corr_callback :: "request_kind \<times> TransContext"

record TransService =
  m_trans_correlations :: "u64 \<Rightarrow> TransCorrelation option"
  m_request_id_counter :: u64
  m_timed_requests :: "u64 list"

definition time_out_interval_s :: int where "time_out_interval_s = 600"

definition new_trans_service :: TransService where
  "new_trans_service = \<lparr>m_trans_correlations = Map.empty, m_request_id_counter = 0, m_timed_requests = []\<rparr>"

datatype trans_signal =
    Test_Response TransContext TestResponseTransfer
  | Download_Response TransContext DownloadResponseTransfer
  | Block_Response TransContext BlockResponseTransfer

text \<open>The identifier is taken, the timer is started, and the correlation is kept under the identifier.\<close>

definition register_request :: "request_kind \<Rightarrow> NetworkEndpoint \<Rightarrow> TransService \<Rightarrow> TransContext \<times> TransService" where
  "register_request kind endpoint s =
     (let request_id = m_request_id_counter s;
          context = \<lparr>tc_request_id = request_id, tc_endpoint = endpoint\<rparr>
      in (context,
          s\<lparr>m_request_id_counter := request_id + 1, m_timed_requests := m_timed_requests s @ [request_id],
            m_trans_correlations := (m_trans_correlations s)
              (request_id \<mapsto> \<lparr>corr_context = context, corr_callback = (kind, context)\<rparr>)\<rparr>))"

text \<open>The frame is that of the signal \<open>send_frame_ready\<close>.\<close>

definition send_test_request ::
  "ByteOrder \<Rightarrow> NetworkEndpoint \<Rightarrow> TestRequestTransfer \<Rightarrow> TransService \<Rightarrow> (TransContext \<times> bytes \<times> TransService) option" where
  "send_test_request host endpoint request s =
     (case register_request Test_Kind endpoint s of
        (context, s) \<Rightarrow>
          do { data \<leftarrow> build_test_request_byte_array host request (tc_request_id context); Some (context, data, s) })"

definition send_download_request ::
  "ByteOrder \<Rightarrow> NetworkEndpoint \<Rightarrow> DownloadRequestTransfer \<Rightarrow> TransService \<Rightarrow> (TransContext \<times> bytes \<times> TransService) option" where
  "send_download_request host endpoint request s =
     (case register_request Download_Kind endpoint s of
        (context, s) \<Rightarrow>
          do { data \<leftarrow> build_download_request_byte_array host request (tc_request_id context); Some (context, data, s) })"

definition send_block_request ::
  "ByteOrder \<Rightarrow> NetworkEndpoint \<Rightarrow> BlockRequestTransfer \<Rightarrow> TransService \<Rightarrow> (TransContext \<times> bytes \<times> TransService) option" where
  "send_block_request host endpoint request s =
     (case register_request Block_Kind endpoint s of
        (context, s) \<Rightarrow>
          do { data \<leftarrow> build_block_request_byte_array host request (tc_request_id context); Some (context, data, s) })"

definition remove_response_handler :: "u64 \<Rightarrow> TransService \<Rightarrow> TransService" where
  "remove_response_handler request_id s = s\<lparr>m_trans_correlations := (m_trans_correlations s)(request_id := None)\<rparr>"

definition on_timeout :: "u64 \<Rightarrow> TransService \<Rightarrow> TransService" where
  "on_timeout request_id s =
     (case m_trans_correlations s request_id of None \<Rightarrow> s | Some _ \<Rightarrow> remove_response_handler request_id s)"

definition receive_test_response ::
  "ByteOrder \<Rightarrow> (DataType \<Rightarrow> bytes \<Rightarrow> string) \<Rightarrow> TransContext \<Rightarrow> bytes \<Rightarrow> trans_signal list option" where
  "receive_test_response host sp context data =
     map_option (case_option [] (\<lambda>response. [Test_Response context response])) (try_parse_byte_array_test_response host sp data)"

definition receive_download_response ::
  "ByteOrder \<Rightarrow> (DataType \<Rightarrow> bytes \<Rightarrow> string) \<Rightarrow> TransContext \<Rightarrow> bytes \<Rightarrow> trans_signal list option" where
  "receive_download_response host sp context data =
     map_option (case_option [] (\<lambda>response. [Download_Response context response])) (try_parse_byte_array_download_response host sp data)"

definition receive_block_response :: "ByteOrder \<Rightarrow> TransContext \<Rightarrow> bytes \<Rightarrow> trans_signal list option" where
  "receive_block_response host context data =
     map_option (case_option [] (\<lambda>response. [Block_Response context response])) (try_parse_byte_array_block_response host data)"

definition call_handler ::
  "ByteOrder \<Rightarrow> (DataType \<Rightarrow> bytes \<Rightarrow> string) \<Rightarrow> request_kind \<times> TransContext \<Rightarrow> bytes \<Rightarrow> trans_signal list option" where
  "call_handler host sp handler body =
     (case handler of
        (Test_Kind, context) \<Rightarrow> receive_test_response host sp context body
      | (Download_Kind, context) \<Rightarrow> receive_download_response host sp context body
      | (Block_Kind, context) \<Rightarrow> receive_block_response host context body)"

definition on_received_frame_ready ::
  "ByteOrder \<Rightarrow> (DataType \<Rightarrow> bytes \<Rightarrow> string) \<Rightarrow> EnvelopeResponseTransfer \<Rightarrow> bytes \<Rightarrow> TransService \<Rightarrow>
   (trans_signal list \<times> TransService) option" where
  "on_received_frame_ready host sp junk data s =
     do {
       response_opt \<leftarrow> try_parse_byte_array_response host junk data;
       case response_opt of
         None \<Rightarrow> Some ([], s)
       | Some response \<Rightarrow>
           (case m_trans_correlations s (res_id response) of
              None \<Rightarrow> Some ([], s)
            | Some correlation \<Rightarrow>
                do {
                  signals \<leftarrow> call_handler host sp (corr_callback correlation) (res_body response);
                  Some (signals, remove_response_handler (res_id response) s)
                })
     }"

section \<open>Events of the views\<close>

record EventContext =
  m_object_name :: string

record EventEnvelope =
  m_event_id :: u64
  m_event_context :: EventContext
  m_event_time :: u64

record ViewEventHub =
  m_event_id_counter :: u64

text \<open>The signals of the hub.\<close>

datatype hub_signal =
    Test_Request_Event EventEnvelope NetworkEndpoint TestRequestTransfer
  | Block_Request_Event EventEnvelope NetworkEndpoint BlockRequestTransfer
  | Download_Request_Event EventEnvelope NetworkEndpoint DownloadRequestTransfer
  | Test_Response_Event EventEnvelope TransContext TestResponseTransfer
  | Download_Response_Event EventEnvelope TransContext DownloadResponseTransfer
  | Block_Response_Event EventEnvelope TransContext BlockResponseTransfer

definition make_envelope :: "u64 \<Rightarrow> EventContext \<Rightarrow> ViewEventHub \<Rightarrow> EventEnvelope \<times> ViewEventHub" where
  "make_envelope now context hub =
     (\<lparr>m_event_id = m_event_id_counter hub, m_event_context = context, m_event_time = now\<rparr>,
      hub\<lparr>m_event_id_counter := m_event_id_counter hub + 1\<rparr>)"

definition publish_test_request ::
  "u64 \<Rightarrow> EventContext \<Rightarrow> NetworkEndpoint \<Rightarrow> TestRequestTransfer \<Rightarrow> ViewEventHub \<Rightarrow> hub_signal \<times> ViewEventHub" where
  "publish_test_request now context endpoint request hub =
     (case make_envelope now context hub of (e, hub) \<Rightarrow> (Test_Request_Event e endpoint request, hub))"

definition publish_block_request ::
  "u64 \<Rightarrow> EventContext \<Rightarrow> NetworkEndpoint \<Rightarrow> BlockRequestTransfer \<Rightarrow> ViewEventHub \<Rightarrow> hub_signal \<times> ViewEventHub" where
  "publish_block_request now context endpoint request hub =
     (case make_envelope now context hub of (e, hub) \<Rightarrow> (Block_Request_Event e endpoint request, hub))"

definition publish_download_request ::
  "u64 \<Rightarrow> EventContext \<Rightarrow> NetworkEndpoint \<Rightarrow> DownloadRequestTransfer \<Rightarrow> ViewEventHub \<Rightarrow> hub_signal \<times> ViewEventHub" where
  "publish_download_request now context endpoint request hub =
     (case make_envelope now context hub of (e, hub) \<Rightarrow> (Download_Request_Event e endpoint request, hub))"

definition publish_test_response :: "EventEnvelope \<Rightarrow> TransContext \<Rightarrow> TestResponseTransfer \<Rightarrow> hub_signal" where
  "publish_test_response e context response = Test_Response_Event e context response"

definition publish_download_response :: "EventEnvelope \<Rightarrow> TransContext \<Rightarrow> DownloadResponseTransfer \<Rightarrow> hub_signal" where
  "publish_download_response e context response = Download_Response_Event e context response"

definition publish_block_response :: "EventEnvelope \<Rightarrow> TransContext \<Rightarrow> BlockResponseTransfer \<Rightarrow> hub_signal" where
  "publish_block_response e context response = Block_Response_Event e context response"

section \<open>\<open>ViewEventController\<close>\<close>

record ViewEventController =
  m_event_envelopes :: "u64 \<Rightarrow> EventEnvelope option"

definition new_view_controller :: ViewEventController where
  "new_view_controller = \<lparr>m_event_envelopes = Map.empty\<rparr>"

definition keep_envelope :: "TransContext \<Rightarrow> EventEnvelope \<Rightarrow> ViewEventController \<Rightarrow> ViewEventController" where
  "keep_envelope context e c = c\<lparr>m_event_envelopes := (m_event_envelopes c)(tc_request_id context \<mapsto> e)\<rparr>"

definition on_test_request ::
  "ByteOrder \<Rightarrow> EventEnvelope \<Rightarrow> NetworkEndpoint \<Rightarrow> TestRequestTransfer \<Rightarrow> ViewEventController \<Rightarrow> TransService \<Rightarrow>
   (bytes \<times> ViewEventController \<times> TransService) option" where
  "on_test_request host e endpoint request c s =
     do { (context, data, s) \<leftarrow> send_test_request host endpoint request s; Some (data, keep_envelope context e c, s) }"

definition on_block_request_event ::
  "ByteOrder \<Rightarrow> EventEnvelope \<Rightarrow> NetworkEndpoint \<Rightarrow> BlockRequestTransfer \<Rightarrow> ViewEventController \<Rightarrow> TransService \<Rightarrow>
   (bytes \<times> ViewEventController \<times> TransService) option" where
  "on_block_request_event host e endpoint request c s =
     do { (context, data, s) \<leftarrow> send_block_request host endpoint request s; Some (data, keep_envelope context e c, s) }"

definition on_download_request ::
  "ByteOrder \<Rightarrow> EventEnvelope \<Rightarrow> NetworkEndpoint \<Rightarrow> DownloadRequestTransfer \<Rightarrow> ViewEventController \<Rightarrow> TransService \<Rightarrow>
   (bytes \<times> ViewEventController \<times> TransService) option" where
  "on_download_request host e endpoint request c s =
     do { (context, data, s) \<leftarrow> send_download_request host endpoint request s; Some (data, keep_envelope context e c, s) }"

definition on_test_response :: "TransContext \<Rightarrow> TestResponseTransfer \<Rightarrow> ViewEventController \<Rightarrow> hub_signal list" where
  "on_test_response context response c =
     (case m_event_envelopes c (tc_request_id context) of
        None \<Rightarrow> [] | Some e \<Rightarrow> [publish_test_response e context response])"

definition on_download_response :: "TransContext \<Rightarrow> DownloadResponseTransfer \<Rightarrow> ViewEventController \<Rightarrow> hub_signal list" where
  "on_download_response context response c =
     (case m_event_envelopes c (tc_request_id context) of
        None \<Rightarrow> [] | Some e \<Rightarrow> [publish_download_response e context response])"

definition on_block_response_event :: "TransContext \<Rightarrow> BlockResponseTransfer \<Rightarrow> ViewEventController \<Rightarrow> hub_signal list" where
  "on_block_response_event context response c =
     (case m_event_envelopes c (tc_request_id context) of
        None \<Rightarrow> [] | Some e \<Rightarrow> [publish_block_response e context response])"

end
