(* ===== verification/Trans_Answers.thy ===== *)
theory Trans_Answers
  imports Trans_Service
begin

text \<open>
  Histories of the transfer service: requests are sent, frames arrive and time runs out in any order. Every
  response that is passed on belongs to one request, and no request gets two.
\<close>

section \<open>Histories\<close>

datatype trans_event =
    Send_Test NetworkEndpoint TestRequestTransfer
  | Send_Download NetworkEndpoint DownloadRequestTransfer
  | Send_Block NetworkEndpoint BlockRequestTransfer
  | Frame bytes
  | Time_Out u64

fun trans_step ::
  "ByteOrder \<Rightarrow> (DataType \<Rightarrow> bytes \<Rightarrow> string) \<Rightarrow> EnvelopeResponseTransfer \<Rightarrow> trans_event \<Rightarrow> TransService \<Rightarrow>
   (trans_signal list \<times> TransService) option" where
  "trans_step host sp junk (Send_Test endpoint request) s =
     do { (context, data, s) \<leftarrow> send_test_request host endpoint request s; Some ([], s) }"
| "trans_step host sp junk (Send_Download endpoint request) s =
     do { (context, data, s) \<leftarrow> send_download_request host endpoint request s; Some ([], s) }"
| "trans_step host sp junk (Send_Block endpoint request) s =
     do { (context, data, s) \<leftarrow> send_block_request host endpoint request s; Some ([], s) }"
| "trans_step host sp junk (Frame data) s = on_received_frame_ready host sp junk data s"
| "trans_step host sp junk (Time_Out request_id) s = Some ([], on_timeout request_id s)"

fun trans_run ::
  "ByteOrder \<Rightarrow> (DataType \<Rightarrow> bytes \<Rightarrow> string) \<Rightarrow> EnvelopeResponseTransfer \<Rightarrow> trans_event list \<Rightarrow> TransService \<Rightarrow>
   (trans_signal list \<times> TransService) option" where
  "trans_run host sp junk [] s = Some ([], s)"
| "trans_run host sp junk (e # es) s =
     do {
       (signals, s) \<leftarrow> trans_step host sp junk e s;
       (rest, s) \<leftarrow> trans_run host sp junk es s;
       Some (signals @ rest, s)
     }"

text \<open>The requests of a history, and the request that a signal answers.\<close>

fun requests_of :: "trans_event list \<Rightarrow> (request_kind \<times> NetworkEndpoint) list" where
  "requests_of [] = []"
| "requests_of (Send_Test endpoint _ # es) = (Test_Kind, endpoint) # requests_of es"
| "requests_of (Send_Download endpoint _ # es) = (Download_Kind, endpoint) # requests_of es"
| "requests_of (Send_Block endpoint _ # es) = (Block_Kind, endpoint) # requests_of es"
| "requests_of (_ # es) = requests_of es"

fun signal_of :: "trans_signal \<Rightarrow> request_kind \<times> TransContext" where
  "signal_of (Test_Response context _) = (Test_Kind, context)"
| "signal_of (Download_Response context _) = (Download_Kind, context)"
| "signal_of (Block_Response context _) = (Block_Kind, context)"

definition signal_id :: "trans_signal \<Rightarrow> u64" where "signal_id x = tc_request_id (snd (signal_of x))"

section \<open>Invariant\<close>

text \<open>After the requests \<open>rs\<close>: what is kept under an identifier is that of the request with this number.\<close>

definition request_at :: "(request_kind \<times> NetworkEndpoint) list \<Rightarrow> u64 \<Rightarrow> request_kind \<times> TransContext" where
  "request_at rs i = (fst (rs ! unat i), \<lparr>tc_request_id = i, tc_endpoint = snd (rs ! unat i)\<rparr>)"

definition corr_ok :: "(request_kind \<times> NetworkEndpoint) list \<Rightarrow> u64 \<Rightarrow> TransCorrelation \<Rightarrow> bool" where
  "corr_ok rs i c \<longleftrightarrow> unat i < length rs \<and> corr_callback c = request_at rs i"

definition trans_inv :: "(request_kind \<times> NetworkEndpoint) list \<Rightarrow> TransService \<Rightarrow> bool" where
  "trans_inv rs s \<longleftrightarrow>
     m_request_id_counter s = of_nat (length rs) \<and> (\<forall>i c. m_trans_correlations s i = Some c \<longrightarrow> corr_ok rs i c)"

text \<open>The identifiers that can still be answered: those that are waiting, and those to come.\<close>

definition open_ids :: "nat \<Rightarrow> TransService \<Rightarrow> u64 set" where
  "open_ids n s = dom (m_trans_correlations s) \<union> {i. n \<le> unat i}"

lemma new_trans_service_sel [simp]:
  "m_trans_correlations new_trans_service = Map.empty" "m_request_id_counter new_trans_service = 0"
  by (simp_all add: new_trans_service_def)

lemma trans_inv_new: "trans_inv [] new_trans_service"
  by (simp add: trans_inv_def)

lemma request_at_append: "unat i < length rs \<Longrightarrow> request_at (rs @ qs) i = request_at rs i"
  by (simp add: request_at_def nth_append)

lemma corr_ok_append: "corr_ok rs i c \<Longrightarrow> corr_ok (rs @ qs) i c"
  by (simp add: corr_ok_def request_at_append)

lemma register_sel:
  assumes "register_request kind endpoint s = (ctx, s')"
  shows "m_request_id_counter s' = m_request_id_counter s + 1"
    "\<exists>c. m_trans_correlations s' = (m_trans_correlations s)(m_request_id_counter s \<mapsto> c) \<and>
      corr_callback c = (kind, \<lparr>tc_request_id = m_request_id_counter s, tc_endpoint = endpoint\<rparr>)"
  using assms by (auto simp: register_request_def Let_def)

lemma register_inv:
  assumes inv: "trans_inv rs s" and "length rs < 2 ^ 64" "register_request kind endpoint s = (ctx, s')"
  shows "trans_inv (rs @ [(kind, endpoint)]) s'" "open_ids (Suc (length rs)) s' \<subseteq> open_ids (length rs) s"
proof -
  have n: "unat (of_nat (length rs) :: u64) = length rs" by (rule unat_of_nat_small) (use assms(2) in simp)
  have counter: "m_request_id_counter s = of_nat (length rs)" using inv by (simp add: trans_inv_def)
  obtain c where c: "m_trans_correlations s' = (m_trans_correlations s)(of_nat (length rs) \<mapsto> c)"
    "corr_callback c = (kind, \<lparr>tc_request_id = of_nat (length rs), tc_endpoint = endpoint\<rparr>)"
    using register_sel(2) [OF assms(3)] counter by auto
  have "corr_ok (rs @ [(kind, endpoint)]) (of_nat (length rs)) c"
    by (simp add: corr_ok_def request_at_def n c(2))
  moreover have "corr_ok (rs @ [(kind, endpoint)]) i d" if "m_trans_correlations s i = Some d" for i d
    using inv that corr_ok_append by (auto simp: trans_inv_def)
  ultimately show "trans_inv (rs @ [(kind, endpoint)]) s'"
    using register_sel(1) [OF assms(3)] counter c(1) by (auto simp: trans_inv_def)
  show "open_ids (Suc (length rs)) s' \<subseteq> open_ids (length rs) s"
    using c(1) n by (auto simp: open_ids_def)
qed

lemma remove_inv: "trans_inv rs s \<Longrightarrow> trans_inv rs (remove_response_handler i s)"
  by (auto simp: trans_inv_def remove_response_handler_def)

lemma remove_open: "open_ids n (remove_response_handler i s) \<subseteq> open_ids n s"
  by (auto simp: open_ids_def remove_response_handler_def)

lemma call_handler_signals:
  assumes "call_handler host sp handler body = Some signals"
  shows "signals = [] \<or> (\<exists>x. signals = [x] \<and> signal_of x = handler)"
proof -
  obtain kind ctx where h: "handler = (kind, ctx)" by fastforce
  show ?thesis
    using assms unfolding h
    by (cases kind)
      (auto simp: call_handler_def receive_test_response_def receive_download_response_def receive_block_response_def
        split: option.splits)
qed

lemma received_cases:
  assumes "on_received_frame_ready host sp junk data s = Some (signals, s')"
  obtains (nothing) "signals = []" "s' = s"
    | (answer) i c body where "m_trans_correlations s i = Some c" "call_handler host sp (corr_callback c) body = Some signals"
      "s' = remove_response_handler i s"
proof (cases "try_parse_byte_array_response host junk data")
  case None
  with assms show thesis by (simp add: on_received_frame_ready_def)
next
  case (Some parsed)
  show thesis
  proof (cases parsed)
    case None
    with Some assms show thesis by (auto simp: on_received_frame_ready_def intro: that(1))
  next
    case r: (Some r)
    show thesis
    proof (cases "m_trans_correlations s (res_id r)")
      case None
      with Some r assms show thesis by (auto simp: on_received_frame_ready_def intro: that(1))
    next
      case c: (Some c)
      show thesis
      proof (cases "call_handler host sp (corr_callback c) (res_body r)")
        case None
        with Some r c assms show thesis by (simp add: on_received_frame_ready_def)
      next
        case (Some sg)
        with \<open>try_parse_byte_array_response host junk data = Some parsed\<close> r c assms show thesis
          by (intro that(2) [of "res_id r" c "res_body r"]) (simp_all add: on_received_frame_ready_def)
      qed
    qed
  qed
qed

text \<open>What a step does: a request is registered, nothing is given and perhaps a handler removed, or a waiting request is
  answered and its handler removed.\<close>

lemma trans_step_cases:
  assumes "trans_step host sp junk e s = Some (signals, s')"
  obtains (request) kind endpoint ctx where "requests_of [e] = [(kind, endpoint)]" "signals = []"
      "register_request kind endpoint s = (ctx, s')"
    | (nothing) i where "requests_of [e] = []" "signals = []" "s' = s \<or> s' = remove_response_handler i s"
    | (response) i c x where "requests_of [e] = []" "m_trans_correlations s i = Some c" "signals = [x]"
      "signal_of x = corr_callback c" "s' = remove_response_handler i s"
proof (cases e)
  case (Send_Test endpoint r)
  with assms that(1) show thesis
    by (auto simp: send_test_request_def split: Option.bind_splits prod.splits)
next
  case (Send_Download endpoint r)
  with assms that(1) show thesis
    by (auto simp: send_download_request_def split: Option.bind_splits prod.splits)
next
  case (Send_Block endpoint r)
  with assms that(1) show thesis
    by (auto simp: send_block_request_def split: Option.bind_splits prod.splits)
next
  case (Frame data)
  with assms have "on_received_frame_ready host sp junk data s = Some (signals, s')" by simp
  then show thesis
  proof (cases rule: received_cases)
    case nothing
    with that(2) Frame show thesis by simp
  next
    case (answer i c body)
    from call_handler_signals [OF answer(2)] show thesis
    proof (elim disjE exE conjE)
      assume "signals = []"
      with answer(3) that(2) [of i] Frame show thesis by simp
    next
      fix x
      assume "signals = [x]" "signal_of x = corr_callback c"
      with answer(1,3) that(3) [of i c x] Frame show thesis by simp
    qed
  qed
next
  case (Time_Out i)
  with assms that(2) show thesis by (auto simp: on_timeout_def split: option.splits)
qed

lemma trans_step_inv:
  assumes inv: "trans_inv rs s" and "length (rs @ requests_of [e]) < 2 ^ 64" "trans_step host sp junk e s = Some (signals, s')"
  shows "trans_inv (rs @ requests_of [e]) s' \<and>
    distinct (map signal_id signals) \<and>
    (\<forall>x \<in> set signals. unat (signal_id x) < length rs \<and> signal_of x = request_at rs (signal_id x)) \<and>
    signal_id ` set signals \<subseteq> open_ids (length rs) s \<and>
    open_ids (length (rs @ requests_of [e])) s' \<subseteq> open_ids (length rs) s - signal_id ` set signals"
  using assms(3)
proof (cases rule: trans_step_cases)
  case (request kind endpoint ctx)
  have "length rs < 2 ^ 64" using assms(2) by simp
  from register_inv [OF inv this request(3)] request show ?thesis by simp
next
  case (nothing i)
  with inv remove_inv [OF inv, of i] remove_open [of "length rs" i s] show ?thesis by auto
next
  case (response i c x)
  have c: "corr_ok rs i c" using inv response(2) by (simp add: trans_inv_def)
  then have x: "signal_id x = i" "signal_of x = request_at rs i"
    using response(4) by (simp_all add: corr_ok_def signal_id_def request_at_def)
  have "i \<in> open_ids (length rs) s" "i \<notin> open_ids (length rs) s'"
    using response(2,5) c by (auto simp: open_ids_def remove_response_handler_def corr_ok_def)
  with x c remove_inv [OF inv, of i] remove_open [of "length rs" i s] response show ?thesis
    by (auto simp: corr_ok_def)
qed

lemma requests_of_Cons: "requests_of (e # es) = requests_of [e] @ requests_of es"
  by (cases e) simp_all

lemma trans_run_inv:
  assumes "trans_inv rs s" "length (rs @ requests_of es) < 2 ^ 64" "trans_run host sp junk es s = Some (signals, s')"
  shows "distinct (map signal_id signals) \<and> signal_id ` set signals \<subseteq> open_ids (length rs) s \<and>
    (\<forall>x \<in> set signals. unat (signal_id x) < length (rs @ requests_of es) \<and> signal_of x = request_at (rs @ requests_of es) (signal_id x))"
  using assms
proof (induction es arbitrary: rs s signals)
  case (Cons e es)
  obtain xs s1 ys where s1: "trans_step host sp junk e s = Some (xs, s1)" "trans_run host sp junk es s1 = Some (ys, s')"
    "signals = xs @ ys"
    using Cons.prems(3) by (auto split: Option.bind_splits)
  have len: "length (rs @ requests_of [e]) < 2 ^ 64" "length ((rs @ requests_of [e]) @ requests_of es) < 2 ^ 64"
    using Cons.prems(2) by (simp_all add: requests_of_Cons [of e es])
  note step = trans_step_inv [OF Cons.prems(1) len(1) s1(1)]
  then have "trans_inv (rs @ requests_of [e]) s1" by blast
  note rest = Cons.IH [OF this len(2) s1(2)]
  have all: "(rs @ requests_of [e]) @ requests_of es = rs @ requests_of (e # es)" by (simp add: requests_of_Cons [of e es])
  have "signal_id ` set ys \<subseteq> open_ids (length rs) s - signal_id ` set xs" using step rest by blast
  then have d: "distinct (map signal_id signals)" "signal_id ` set signals \<subseteq> open_ids (length rs) s"
    using step rest s1(3) by auto
  have "unat (signal_id x) < length (rs @ requests_of (e # es)) \<and> signal_of x = request_at (rs @ requests_of (e # es)) (signal_id x)"
    if "x \<in> set signals" for x
  proof (cases "x \<in> set ys")
    case True
    then show ?thesis using rest unfolding all by blast
  next
    case False
    then have "unat (signal_id x) < length rs" "signal_of x = request_at rs (signal_id x)" using that s1(3) step by auto
    then show ?thesis by (simp add: request_at_append)
  qed
  with d show ?case by blast
qed simp

section \<open>Properties\<close>

text \<open>C3: Whatever requests are sent, frames arrive and time-outs run, in whatever order: every response that the service passes
  on is for a request that was sent, of the same kind and with the end point of that request, and no request is answered
  twice, as long as there are fewer than 2^64 of them.\<close>

theorem requests_answered:
  assumes "trans_run host sp junk es new_trans_service = Some (signals, s)" "length (requests_of es) < 2 ^ 64"
  shows "distinct (map signal_id signals) \<and>
    (\<forall>x \<in> set signals. unat (signal_id x) < length (requests_of es) \<and> signal_of x = request_at (requests_of es) (signal_id x))"
  using trans_run_inv [OF trans_inv_new _ assms(1)] assms(2) by simp

text \<open>A block request that is sent, and its answer.\<close>

lemma block_request_sent:
  obtains data s' where
    "send_block_request host endpoint r s =
      Some (\<lparr>tc_request_id = m_request_id_counter s, tc_endpoint = endpoint\<rparr>, data, s')"
    "build_block_request_byte_array host r (m_request_id_counter s) = Some data"
    "m_request_id_counter s' = m_request_id_counter s + 1"
    "\<exists>c. m_trans_correlations s' = (m_trans_correlations s)(m_request_id_counter s \<mapsto> c) \<and>
      corr_callback c = (Block_Kind, \<lparr>tc_request_id = m_request_id_counter s, tc_endpoint = endpoint\<rparr>)"
proof -
  obtain ctx s' where r: "register_request Block_Kind endpoint s = (ctx, s')" by fastforce
  moreover have "ctx = \<lparr>tc_request_id = m_request_id_counter s, tc_endpoint = endpoint\<rparr>"
    using r by (simp add: register_request_def Let_def)
  moreover obtain data where "build_block_request_byte_array host r (m_request_id_counter s) = Some data"
    using block_request_reaches_server [of host r "m_request_id_counter s"] by blast
  ultimately show thesis using that register_sel [OF r] by (simp add: send_block_request_def)
qed

lemma block_response_received:
  assumes "m_trans_correlations s i = Some c" "corr_callback c = (Block_Kind, ctx)"
    and "2 \<le> length (brs_data t)" "1000 + length (brs_data t) \<le> max_value"
  obtains data where "build_block_response_byte_array host t i = Some data"
    "on_received_frame_ready host sp junk data s = Some ([Block_Response ctx t], remove_response_handler i s)"
proof -
  have "brs_data t \<noteq> []" "length (brs_data t) \<noteq> 1" using assms(3) by auto
  then obtain data envelope where d: "build_block_response_byte_array host t i = Some data"
    "try_parse_byte_array_response host junk data = Some (Some envelope)" "res_id envelope = i"
    "try_parse_byte_array_block_response host (res_body envelope) = Some (Some t)"
    using block_response_arrives [OF assms(4), of host i junk] by auto
  have "on_received_frame_ready host sp junk data s = Some ([Block_Response ctx t], remove_response_handler i s)"
    using d(2-) assms(1,2) by (simp add: on_received_frame_ready_def call_handler_def receive_block_response_def)
  with d(1) that show thesis by blast
qed

theorem requests_answered_witness:
  "\<exists>data signals s. trans_run LittleEndian (\<lambda>_ _. []) (ok_response 0 [])
      [Send_Block \<lparr>ip = ''10.0.0.1'', port = 8080\<rparr> new_BlockRequestTransfer, Frame data, Frame data] new_trans_service =
      Some (signals, s) \<and> length signals = 1 \<and>
    distinct (map signal_id signals) \<and>
    (\<forall>x \<in> set signals. unat (signal_id x) < 1 \<and>
      signal_of x = request_at [(Block_Kind, \<lparr>ip = ''10.0.0.1'', port = 8080\<rparr>)] (signal_id x))"
proof -
  let ?e = "\<lparr>ip = ''10.0.0.1'', port = 8080\<rparr>" and ?r = "new_BlockRequestTransfer"
  let ?ctx = "\<lparr>tc_request_id = 0, tc_endpoint = ?e\<rparr>"
  obtain d s1 where s1: "send_block_request LittleEndian ?e ?r new_trans_service = Some (?ctx, d, s1)"
    "\<exists>c. m_trans_correlations s1 = [0 \<mapsto> c] \<and> corr_callback c = (Block_Kind, ?ctx)"
    by (rule block_request_sent [of LittleEndian ?e ?r new_trans_service]) simp
  then obtain c where c: "m_trans_correlations s1 = [0 \<mapsto> c]" "corr_callback c = (Block_Kind, ?ctx)" by blast
  obtain data where data: "build_block_response_byte_array LittleEndian sample_block 0 = Some data"
    "on_received_frame_ready LittleEndian (\<lambda>_ _. []) (ok_response 0 []) data s1 =
      Some ([Block_Response ?ctx sample_block], remove_response_handler 0 s1)"
    using block_response_received [of s1 0 c ?ctx sample_block LittleEndian "\<lambda>_ _. []" "ok_response 0 []"] c
    by (auto simp: sample_block_def max_value_def)
  obtain envelope where "try_parse_byte_array_response LittleEndian (ok_response 0 []) data = Some (Some envelope)"
    "res_id envelope = 0"
    using block_response_arrives [of sample_block LittleEndian 0 "ok_response 0 []"] data(1)
    by (auto simp: sample_block_def max_value_def)
  then have again: "on_received_frame_ready LittleEndian (\<lambda>_ _. []) (ok_response 0 []) data (remove_response_handler 0 s1) =
      Some ([], remove_response_handler 0 s1)"
    by (simp add: on_received_frame_ready_def remove_response_handler_def)
  have run: "trans_run LittleEndian (\<lambda>_ _. []) (ok_response 0 []) [Send_Block ?e ?r, Frame data, Frame data] new_trans_service =
      Some ([Block_Response ?ctx sample_block], remove_response_handler 0 s1)"
    using s1(1) data(2) again by simp
  show ?thesis
    using requests_answered [OF run] run
    by (intro exI [of _ data] exI [of _ "[Block_Response ?ctx sample_block]"] exI [of _ "remove_response_handler 0 s1"]) simp
qed

end
