(* ===== verification/Block_Schedule.thy ===== *)
theory Block_Schedule
  imports Block_Partition Trans_Service
begin

text \<open>
  The scheduling of blocks, \<open>client/controller/block_schedule_controller\<close>: tasks are entered with a request for each of their
  blocks, a timer sends one request at a time, and the blocks that come back are written into the file of the task.

  The block service and the task service are the operations \<open>client_ops\<close>, the classes of Qt for files are the
  operations \<open>qt_files\<close>; times of the clock are arguments, signals are values. Log messages are left out, and with them
  the envelope and the context of a response, which are only logged. An exception, and a loop without end, is \<open>None\<close>.
\<close>

section \<open>Files of Qt\<close>

text \<open>
  \<open>'q\<close> is a \<open>QFile\<close>, \<open>'d\<close> the disk. A file is created for the absolute path of a path; \<open>qt_dir_exists\<close> and
  \<open>qt_mkpath\<close> are about the directory of that path, \<open>qt_open\<close> opens for reading and writing, and \<open>qt_destroy\<close> is the
  destructor, which closes the file. Each may change the disk.
\<close>

record ('q, 'd) qt_files =
  qt_file :: "string \<Rightarrow> 'd \<Rightarrow> 'q"
  qt_is_open :: "'q \<Rightarrow> bool"
  qt_dir_exists :: "string \<Rightarrow> 'd \<Rightarrow> bool"
  qt_mkpath :: "string \<Rightarrow> 'd \<Rightarrow> bool \<times> 'd"
  qt_open :: "'q \<Rightarrow> 'd \<Rightarrow> bool \<times> 'q \<times> 'd"
  qt_seek :: "u64 \<Rightarrow> 'q \<Rightarrow> 'd \<Rightarrow> bool \<times> 'q \<times> 'd"
  qt_write :: "bytes \<Rightarrow> 'q \<Rightarrow> 'd \<Rightarrow> u64 \<times> 'q \<times> 'd"
  qt_flush :: "'q \<Rightarrow> 'd \<Rightarrow> 'q \<times> 'd"
  qt_destroy :: "'q \<Rightarrow> 'd \<Rightarrow> 'd"

section \<open>State\<close>

record 'q TaskPending =
  is_paused :: bool
  event_source :: EventContext
  pending_endpoint :: NetworkEndpoint
  pending_task :: TaskEntity
  dest_file :: "'q option"

record ('s, 'q, 'd) BlockScheduleController =
  m_is_init :: bool
  m_block_request_timer :: "int option"
  m_block_response_connected :: bool
  m_block_request_transfer_queue :: "BlockRequestTransfer list"
  m_task_pending_map :: "u64 \<Rightarrow> 'q TaskPending option"
  m_services :: 's
  m_disk :: 'd
  m_view_event_hub :: ViewEventHub

definition block_request_interval_ms :: int where "block_request_interval_ms = 30"

definition schedule_init :: "('s, 'q, 'd) BlockScheduleController \<Rightarrow> ('s, 'q, 'd) BlockScheduleController" where
  "schedule_init s =
     (if m_is_init s then s
      else s\<lparr>m_block_request_timer := Some block_request_interval_ms, m_is_init := True, m_block_response_connected := True\<rparr>)"

section \<open>Tasks\<close>

text \<open>What becomes of the file of an entry that is overwritten or erased.\<close>

definition drop_pending ::
  "('q, 'd) qt_files \<Rightarrow> u64 \<Rightarrow> ('s, 'q, 'd) BlockScheduleController \<Rightarrow> ('s, 'q, 'd) BlockScheduleController" where
  "drop_pending qt i s =
     (case Option.bind (m_task_pending_map s i) dest_file of
        None \<Rightarrow> s
      | Some q \<Rightarrow> s\<lparr>m_disk := qt_destroy qt q (m_disk s)\<rparr>)"

definition block_request_of :: "BlockEntity \<Rightarrow> BlockRequestTransfer" where
  "block_request_of b =
     \<lparr>brq_block_id = block_id b, brq_file_id = block_file_id b, brq_task_id = block_task_id b,
      brq_offset = block_offset b, brq_block_size = block_size b\<rparr>"

definition on_task_enqueue ::
  "('q, 'd) qt_files \<Rightarrow> 's client_ops \<Rightarrow> EventContext \<Rightarrow> NetworkEndpoint \<Rightarrow> TaskEntity \<Rightarrow>
   ('s, 'q, 'd) BlockScheduleController \<Rightarrow> ('s, 'q, 'd) BlockScheduleController option" where
  "on_task_enqueue qt ops source endpoint task s =
     do {
       (blocks, t) \<leftarrow> op_blocks_of_task ops (task_id task) (m_services s);
       let pending = \<lparr>is_paused = False, event_source = source, pending_endpoint = endpoint, pending_task = task, dest_file = None\<rparr>;
       let s = drop_pending qt (task_id task) (s\<lparr>m_services := t\<rparr>);
       Some (s\<lparr>m_task_pending_map := (m_task_pending_map s)(task_id task \<mapsto> pending),
               m_block_request_transfer_queue := m_block_request_transfer_queue s @ map block_request_of blocks\<rparr>)
     }"

definition on_task_cancle ::
  "('q, 'd) qt_files \<Rightarrow> u64 \<Rightarrow> ('s, 'q, 'd) BlockScheduleController \<Rightarrow> ('s, 'q, 'd) BlockScheduleController" where
  "on_task_cancle qt i s =
     (case m_task_pending_map s i of
        None \<Rightarrow> s
      | Some _ \<Rightarrow> let s = drop_pending qt i s in s\<lparr>m_task_pending_map := (m_task_pending_map s)(i := None)\<rparr>)"

definition on_task_paused ::
  "u64 \<Rightarrow> bool \<Rightarrow> ('s, 'q, 'd) BlockScheduleController \<Rightarrow> ('s, 'q, 'd) BlockScheduleController" where
  "on_task_paused i paused s =
     (case m_task_pending_map s i of
        None \<Rightarrow> s
      | Some p \<Rightarrow> s\<lparr>m_task_pending_map := (m_task_pending_map s)(i \<mapsto> p\<lparr>is_paused := paused\<rparr>)\<rparr>)"

section \<open>Requests\<close>

text \<open>The timer. The signal is that of the hub.\<close>

definition on_block_request ::
  "u64 \<Rightarrow> ('s, 'q, 'd) BlockScheduleController \<Rightarrow> hub_signal list \<times> ('s, 'q, 'd) BlockScheduleController" where
  "on_block_request now s =
     (case m_block_request_transfer_queue s of
        [] \<Rightarrow> ([], s)
      | transfer # others \<Rightarrow>
          let s = s\<lparr>m_block_request_transfer_queue := others\<rparr> in
          case m_task_pending_map s (brq_task_id transfer) of
            None \<Rightarrow> ([], s)
          | Some p \<Rightarrow>
              if is_paused p then ([], s\<lparr>m_block_request_transfer_queue := others @ [transfer]\<rparr>)
              else case publish_block_request now (event_source p) (pending_endpoint p) transfer (m_view_event_hub s) of
                     (signal, hub) \<Rightarrow> ([signal], s\<lparr>m_view_event_hub := hub\<rparr>))"

section \<open>Responses\<close>

text \<open>The file is created when there is none, and opened when it is not open; its directory is made when it is missing.\<close>

definition open_dest_file :: "('q, 'd) qt_files \<Rightarrow> 'q TaskPending \<Rightarrow> 'd \<Rightarrow> bool \<times> 'q \<times> 'd" where
  "open_dest_file qt p d =
     (let path = saved_path (pending_task p);
          q = (case dest_file p of None \<Rightarrow> qt_file qt path d | Some q \<Rightarrow> q)
      in if qt_is_open qt q then (True, q, d)
         else case (if qt_dir_exists qt path d then (True, d) else qt_mkpath qt path d) of
                (is_mkdir, d) \<Rightarrow> if is_mkdir then qt_open qt q d else (False, q, d))"

partial_function (option) write_rest ::
  "('q, 'd) qt_files \<Rightarrow> bytes \<Rightarrow> u64 \<Rightarrow> u64 \<Rightarrow> 'q \<Rightarrow> 'd \<Rightarrow> (bool \<times> 'q \<times> 'd) option" where
  "write_rest qt data has_write rest_bytes q d =
     (if 0 < sint rest_bytes
      then case qt_write qt (take (nat (sint rest_bytes)) (drop (nat (sint has_write)) data)) q d of
             (bytes_written, q, d) \<Rightarrow>
               if sint bytes_written < 0 then Some (False, q, d)
               else write_rest qt data (has_write + bytes_written) (rest_bytes - bytes_written) q d
      else Some (True, q, d))"

text \<open>Opening, seeking, the check of the size, which is one of \<open>size_t\<close>, and writing; whether the block is in the file.\<close>

definition write_block ::
  "('q, 'd) qt_files \<Rightarrow> BlockResponseTransfer \<Rightarrow> 'q TaskPending \<Rightarrow> 'd \<Rightarrow> (bool \<times> 'q \<times> 'd) option" where
  "write_block qt response p d =
     (case open_dest_file qt p d of
        (is_opened, q, d) \<Rightarrow>
          if \<not> is_opened then Some (False, q, d)
          else case qt_seek qt (brs_offset response) q d of
                 (is_seeked, q, d) \<Rightarrow>
                   if \<not> is_seeked then Some (False, q, d)
                   else if unat (brs_block_size response) > length (brs_data response) then Some (False, q, d)
                   else do {
                          (ok, q, d) \<leftarrow> write_rest qt (brs_data response) 0 (brs_block_size response) q d;
                          if ok then (case qt_flush qt q d of (q, d) \<Rightarrow> Some (True, q, d)) else Some (False, q, d)
                        })"

definition complete_task :: "'s client_ops \<Rightarrow> u64 \<Rightarrow> u64 \<Rightarrow> 's \<Rightarrow> 's option" where
  "complete_task ops now i t =
     do {
       (task_entity_opt, t) \<leftarrow> op_task_by_id ops i t;
       case task_entity_opt of
         None \<Rightarrow> Some t
       | Some task_entity \<Rightarrow>
           do { (is_updated, t) \<leftarrow> op_task_update ops (task_entity\<lparr>task_end_time := now, task_state := Task_Completed\<rparr>) t; Some t }
     }"

text \<open>The signal is \<open>task_completed\<close>; the two times are those of the block and of the task.\<close>

definition on_block_response ::
  "('q, 'd) qt_files \<Rightarrow> 's client_ops \<Rightarrow> u64 \<Rightarrow> u64 \<Rightarrow> BlockResponseTransfer \<Rightarrow>
   ('s, 'q, 'd) BlockScheduleController \<Rightarrow> (u64 list \<times> ('s, 'q, 'd) BlockScheduleController) option" where
  "on_block_response qt ops block_now task_now response s =
     (case m_task_pending_map s (brs_task_id response) of
        None \<Rightarrow> Some ([], s)
      | Some p \<Rightarrow>
          do {
            (block_entity_opt, t) \<leftarrow> op_block_by_id ops (brs_block_id response) (m_services s);
            case block_entity_opt of
              None \<Rightarrow> Some ([], s\<lparr>m_services := t\<rparr>)
            | Some block_entity \<Rightarrow>
                do {
                  (ok, q, d) \<leftarrow> write_block qt response p (m_disk s);
                  let s = s\<lparr>m_disk := d, m_task_pending_map := (m_task_pending_map s)(brs_task_id response \<mapsto> p\<lparr>dest_file := Some q\<rparr>)\<rparr>;
                  if \<not> ok then
                    do {
                      (u, t) \<leftarrow> op_block_update ops (block_entity\<lparr>block_state := Block_Failed\<rparr>) t;
                      Some ([], s\<lparr>m_services := t\<rparr>)
                    }
                  else
                    do {
                      (u, t) \<leftarrow> op_block_update ops (block_entity\<lparr>block_state := Block_Completed, block_end_time := block_now\<rparr>) t;
                      (rest_block_count, t) \<leftarrow> op_block_count ops (task_id (pending_task p)) Block_Waiting t;
                      if rest_block_count = 0 then
                        do {
                          t \<leftarrow> complete_task ops task_now (task_id (pending_task p)) t;
                          Some ([task_id (pending_task p)], s\<lparr>m_services := t\<rparr>)
                        }
                      else Some ([], s\<lparr>m_services := t\<rparr>)
                    }
                }
          })"

end
