(* ===== verification/Server_Repository.thy ===== *)
theory Server_Repository
  imports Table_Query Entities
begin

text \<open>
  The repository of the server for the files it offers and the service over it, \<open>server/repository\<close> and
  \<open>server/service\<close>. It writes its statements out instead of building them. One query object serves all of
  them, on the driver of the database \<open>server_database\<close>, which is that of the world. A null pointer that is read and
  the exception of \<open>std::get\<close> are \<open>None\<close>; log messages are left out.
\<close>

section \<open>Statements\<close>

definition new_line :: string where "new_line = [CHR 0x0A]"

definition create_files_sql :: string where
  "create_files_sql =
     new_line @ ''        CREATE TABLE IF NOT EXISTS file_info ('' @
     new_line @ ''            file_id INTEGER PRIMARY KEY,'' @
     new_line @ ''            file_name TEXT NOT NULL,'' @
     new_line @ ''            resource_path TEXT NOT NULL,'' @
     new_line @ ''            file_size INTEGER NOT NULL,'' @
     new_line @ ''            md5_code TEXT NOT NULL'' @
     new_line @ ''        );'' @
     new_line @ ''    ''"

definition all_files_sql :: string where "all_files_sql = ''SELECT * FROM file_info;''"

definition insert_file_sql :: string where
  "insert_file_sql = ''INSERT INTO file_info (file_name, resource_path, file_size, md5_code) VALUES (?, ?, ?, ?);''"

definition file_by_id_sql :: string where "file_by_id_sql = ''SELECT * FROM file_info WHERE file_id = ?;''"

definition update_file_sql :: string where
  "update_file_sql =
     ''UPDATE file_info SET file_name = ?, resource_path = ?, file_size = ?, md5_code = ? WHERE file_id = ?;''"

definition delete_file_sql :: string where "delete_file_sql = ''DELETE FROM file_info WHERE file_id = ?;''"

definition file_by_md5_sql :: string where "file_by_md5_sql = ''SELECT * FROM file_info WHERE md5_code = ?;''"

definition count_files_sql :: string where "count_files_sql = ''SELECT COUNT(*) FROM file_info''"

text \<open>A statement with the values that are bound to its parameters, the first one at index 1.\<close>

definition plain_cell :: "cpp_type \<Rightarrow> CellData \<Rightarrow> SqlCell" where
  "plain_cell T v = \<lparr>cell_type = get_data_type T, cell_data = v, cell_column = []\<rparr>"

fun bind_from :: "'m sqlite3 \<Rightarrow> int \<Rightarrow> SqlCell list \<Rightarrow> SqlQuery \<Rightarrow> 'm sql_world \<Rightarrow> 'm sql_world option" where
  "bind_from lib i [] q w = Some w"
| "bind_from lib i (cell # cells) q w = do { w \<leftarrow> query_bind lib i cell q w; bind_from lib (i + 1) cells q w }"

definition statement_query ::
  "'m sqlite3 \<Rightarrow> string \<Rightarrow> SqlCell list \<Rightarrow> SqlQuery \<Rightarrow> 'm sql_world \<Rightarrow> (SqlCell list list \<times> SqlQuery \<times> 'm sql_world) option" where
  "statement_query lib sql cells q w =
     (case start_statement lib sql q w of
        (q, w) \<Rightarrow>
          do { w \<leftarrow> bind_from lib 1 cells q w; (data, w) \<leftarrow> query_execute_query lib q w; Some (data, q, w) })"

definition statement_command ::
  "'m sqlite3 \<Rightarrow> string \<Rightarrow> SqlCell list \<Rightarrow> SqlQuery \<Rightarrow> 'm sql_world \<Rightarrow> (bool \<times> SqlQuery \<times> 'm sql_world) option" where
  "statement_command lib sql cells q w =
     (case start_statement lib sql q w of
        (q, w) \<Rightarrow>
          do {
            w \<leftarrow> bind_from lib 1 cells q w;
            Some (case query_execute_command lib q w of (ok, w) \<Rightarrow> (ok, q, w))
          })"

section \<open>\<open>ServerFileInfoRepository\<close>\<close>

record ServerFileInfoRepository =
  m_query :: "SqlQuery option"

definition new_server_repository :: ServerFileInfoRepository where
  "new_server_repository = \<lparr>m_query = None\<rparr>"

definition server_is_init :: "ServerFileInfoRepository \<Rightarrow> bool" where
  "server_is_init r \<longleftrightarrow> m_query r \<noteq> None"

definition server_init :: "SqlDatabaseManager \<Rightarrow> ServerFileInfoRepository \<Rightarrow> ServerFileInfoRepository option" where
  "server_init databases r =
     (if m_query r \<noteq> None then Some r
      else do { m_database \<leftarrow> get_database ''server_database'' databases; Some (r\<lparr>m_query := Some \<lparr>m_sql = []\<rparr>\<rparr>) })"

text \<open>The table is created without a reset of the statement.\<close>

definition server_ensure_table_exists ::
  "'m sqlite3 \<Rightarrow> ServerFileInfoRepository \<Rightarrow> 'm sql_world \<Rightarrow> bool \<times> ServerFileInfoRepository \<times> 'm sql_world" where
  "server_ensure_table_exists lib r w =
     (case m_query r of
        None \<Rightarrow> (False, r, w)
      | Some q \<Rightarrow>
          (case query_prepare lib create_files_sql q w of
             (q, w) \<Rightarrow> (case query_execute_command lib q w of (ok, w) \<Rightarrow> (ok, r\<lparr>m_query := Some q\<rparr>, w))))"

text \<open>The columns of a row are assigned to the members, integers of 64 bits to members of 32 bits.\<close>

fun read_server_file :: "SqlCell list \<Rightarrow> ServerFileInfo \<Rightarrow> ServerFileInfo option" where
  "read_server_file [] f = Some f"
| "read_server_file (cell # cells) f =
     do {
       f \<leftarrow> (if cell_column cell = ''file_id''
               then do { v \<leftarrow> get_int64 (cell_data cell); Some (f\<lparr>server_file_id := ucast v\<rparr>) }
             else if cell_column cell = ''file_name''
               then do { s \<leftarrow> get_string (cell_data cell); Some (f\<lparr>server_file_name := s\<rparr>) }
             else if cell_column cell = ''resource_path''
               then do { s \<leftarrow> get_string (cell_data cell); Some (f\<lparr>resource_path := s\<rparr>) }
             else if cell_column cell = ''file_size''
               then do { v \<leftarrow> get_int64 (cell_data cell); Some (f\<lparr>server_file_size := ucast v\<rparr>) }
             else if cell_column cell = ''md5_code''
               then do { s \<leftarrow> get_string (cell_data cell); Some (f\<lparr>server_md5_code := s\<rparr>) }
             else Some f);
       read_server_file cells f
     }"

fun read_server_files :: "u32 \<Rightarrow> SqlCell list list \<Rightarrow> ServerFileInfo list option" where
  "read_server_files junk [] = Some []"
| "read_server_files junk (row # rows) =
     do { f \<leftarrow> read_server_file row (new_server_file junk); fs \<leftarrow> read_server_files junk rows; Some (f # fs) }"

text \<open>\<open>file_size\<close> has no initial value; \<open>junk\<close> is what it holds.\<close>

definition server_get_all ::
  "'m sqlite3 \<Rightarrow> u32 \<Rightarrow> ServerFileInfoRepository \<Rightarrow> 'm sql_world \<Rightarrow>
   (ServerFileInfo list \<times> ServerFileInfoRepository \<times> 'm sql_world) option" where
  "server_get_all lib junk r w =
     (case m_query r of
        None \<Rightarrow> Some ([], r, w)
      | Some q \<Rightarrow>
          do {
            (data, q, w) \<leftarrow> statement_query lib all_files_sql [] q w;
            fs \<leftarrow> read_server_files junk data;
            Some (fs, r\<lparr>m_query := Some q\<rparr>, w)
          })"

text \<open>The first row of a query.\<close>

definition server_get_one ::
  "'m sqlite3 \<Rightarrow> u32 \<Rightarrow> string \<Rightarrow> SqlCell \<Rightarrow> ServerFileInfoRepository \<Rightarrow> 'm sql_world \<Rightarrow>
   (ServerFileInfo option \<times> ServerFileInfoRepository \<times> 'm sql_world) option" where
  "server_get_one lib junk sql cell r w =
     (case m_query r of
        None \<Rightarrow> Some (None, r, w)
      | Some q \<Rightarrow>
          do {
            (data, q, w) \<leftarrow> statement_query lib sql [cell] q w;
            let r = r\<lparr>m_query := Some q\<rparr>;
            case data of
              [] \<Rightarrow> Some (None, r, w)
            | row # rows \<Rightarrow> do { f \<leftarrow> read_server_file row (new_server_file junk); Some (Some f, r, w) }
          })"

definition server_get_by_id where
  "server_get_by_id lib junk (i :: u32) = server_get_one lib junk file_by_id_sql (plain_cell T_int32 (Int32_Data i))"

definition server_get_by_md5 where
  "server_get_by_md5 lib junk md5 = server_get_one lib junk file_by_md5_sql (plain_cell T_string (String_Data md5))"

definition file_cells :: "ServerFileInfo \<Rightarrow> SqlCell list" where
  "file_cells f =
     [plain_cell T_string (String_Data (server_file_name f)), plain_cell T_string (String_Data (resource_path f)),
      plain_cell T_uint32 (UInt32_Data (server_file_size f)), plain_cell T_string (String_Data (server_md5_code f))]"

text \<open>A command on the repository.\<close>

definition server_command ::
  "'m sqlite3 \<Rightarrow> string \<Rightarrow> SqlCell list \<Rightarrow> ServerFileInfoRepository \<Rightarrow> 'm sql_world \<Rightarrow>
   (bool \<times> ServerFileInfoRepository \<times> 'm sql_world) option" where
  "server_command lib sql cells r w =
     (case m_query r of
        None \<Rightarrow> Some (False, r, w)
      | Some q \<Rightarrow> do { (ok, q, w) \<leftarrow> statement_command lib sql cells q w; Some (ok, r\<lparr>m_query := Some q\<rparr>, w) })"

definition server_add ::
  "'m sqlite3 \<Rightarrow> u32 \<Rightarrow> ServerFileInfo \<Rightarrow> ServerFileInfoRepository \<Rightarrow> 'm sql_world \<Rightarrow>
   (bool \<times> ServerFileInfoRepository \<times> 'm sql_world) option" where
  "server_add lib junk f r w =
     (if m_query r = None then Some (False, r, w)
      else do {
        (found, r, w) \<leftarrow> server_get_by_md5 lib junk (server_md5_code f) r w;
        if found \<noteq> None then Some (False, r, w) else server_command lib insert_file_sql (file_cells f) r w
      })"

definition server_update where
  "server_update lib f =
     server_command lib update_file_sql (file_cells f @ [plain_cell T_int32 (Int32_Data (server_file_id f))])"

definition server_remove where
  "server_remove lib (i :: u32) = server_command lib delete_file_sql [plain_cell T_int32 (Int32_Data i)]"

definition server_count ::
  "'m sqlite3 \<Rightarrow> ServerFileInfoRepository \<Rightarrow> 'm sql_world \<Rightarrow> (u32 \<times> ServerFileInfoRepository \<times> 'm sql_world) option" where
  "server_count lib r w =
     (case m_query r of
        None \<Rightarrow> Some (- 1, r, w)
      | Some q \<Rightarrow>
          do {
            (data, q, w) \<leftarrow> statement_query lib count_files_sql [] q w;
            let r = r\<lparr>m_query := Some q\<rparr>;
            case data of
              (cell # cells) # rows \<Rightarrow> do { n \<leftarrow> get_int64 (cell_data cell); Some (ucast n, r, w) }
            | _ \<Rightarrow> Some (- 1, r, w)
          })"

section \<open>\<open>ServerFileInfoService\<close>\<close>

record 'm server_store =
  file_info_repository :: ServerFileInfoRepository
  service_is_init :: bool
  server_sql :: "'m sql_world"
  server_databases :: SqlDatabaseManager

definition with_server_files ::
  "(ServerFileInfoRepository \<Rightarrow> 'm sql_world \<Rightarrow> ('a \<times> ServerFileInfoRepository \<times> 'm sql_world) option) \<Rightarrow>
   'm server_store \<Rightarrow> ('a \<times> 'm server_store) option" where
  "with_server_files f s =
     do {
       (a, r, w) \<leftarrow> f (file_info_repository s) (server_sql s);
       Some (a, s\<lparr>file_info_repository := r, server_sql := w\<rparr>)
     }"

definition server_service_init :: "'m server_store \<Rightarrow> 'm server_store option" where
  "server_service_init s =
     (if service_is_init s then Some s
      else do {
        r \<leftarrow> server_init (server_databases s) (file_info_repository s);
        Some (s\<lparr>file_info_repository := r, service_is_init := True\<rparr>)
      })"

definition server_service_get_all where "server_service_get_all lib junk = with_server_files (server_get_all lib junk)"

definition server_service_add where "server_service_add lib junk f = with_server_files (server_add lib junk f)"

definition server_service_get_by_id where
  "server_service_get_by_id lib junk i = with_server_files (server_get_by_id lib junk i)"

definition server_service_update where "server_service_update lib f = with_server_files (server_update lib f)"

definition server_service_remove where "server_service_remove lib i = with_server_files (server_remove lib i)"

definition server_service_get_by_md5 where
  "server_service_get_by_md5 lib junk md5 = with_server_files (server_get_by_md5 lib junk md5)"

definition server_service_count where "server_service_count lib = with_server_files (server_count lib)"

end
