(* ===== verification/Server_Store.thy ===== *)
theory Server_Store
  imports Server_Repository Repository_Laws
begin

text \<open>
  What the service of the server promises to those who look files up: the contract \<open>file_catalog\<close>, which the service keeps
  over any library that understands its statements.
\<close>

section \<open>Statements on a query object\<close>

lemma bind_from_ready:
  assumes calls: "sqlite_calls lib view parses names run"
  shows "ready view sql ps w \<Longrightarrow> m_sql q = sql \<Longrightarrow> length ps + length cells \<le> param_count sql \<Longrightarrow>
    list_all2 (\<lambda>cell v. bound_value (lib_widen lib) cell = Some (Some v)) cells vs \<Longrightarrow>
    \<exists>w'. bind_from lib (int (length ps) + 1) cells q w = Some w' \<and> ready view sql (ps @ vs) w' \<and> db_of view w' = db_of view w"
proof (induction cells arbitrary: ps vs w)
  case (Cons cell cells)
  then obtain v vs' where vs: "vs = v # vs'" "bound_value (lib_widen lib) cell = Some (Some v)"
    "list_all2 (\<lambda>cell v. bound_value (lib_widen lib) cell = Some (Some v)) cells vs'"
    by (auto simp: list_all2_Cons1)
  obtain w1 where w1: "query_bind lib (int (length ps) + 1) cell q w = Some w1" "ready view sql (ps @ [v]) w1"
    "db_of view w1 = db_of view w"
    using bind_ready [OF calls Cons.prems(1,2) vs(2)] Cons.prems(3) by auto
  obtain w2 where "bind_from lib (int (length (ps @ [v])) + 1) cells q w1 = Some w2" "ready view sql ((ps @ [v]) @ vs') w2"
    "db_of view w2 = db_of view w1"
    using Cons.IH [OF w1(2) Cons.prems(2) _ vs(3)] Cons.prems(3) by auto
  with w1 show ?case by (simp add: vs(1) add.commute)
qed simp

text \<open>A statement of the library with its parameters bound: it leaves a world in order, with the database after it.\<close>

lemma statement_started:
  assumes calls: "sqlite_calls lib view parses names run" and "world_ok view w" "parses sql (db_of view w)"
    and "list_all2 (\<lambda>cell v. bound_value (lib_widen lib) cell = Some (Some v)) cells ps" "length ps = param_count sql"
  obtains q' w1 w' where "start_statement lib sql q w = (q', w1)" "m_sql q' = sql" "bind_from lib 1 cells q' w1 = Some w'"
    "ready view sql ps w'" "db_of view w' = db_of view w"
proof -
  obtain q1 w1 where q1: "query_prepare lib sql q w = (q1, w1)" by (cases "query_prepare lib sql q w")
  note p = prepare_ready [OF calls assms(2,3) q1]
  have "length cells \<le> param_count sql" using assms(4,5) by (simp add: list_all2_lengthD)
  then obtain w' where "bind_from lib 1 cells q1 (query_reset lib q1 w1) = Some w'" "ready view sql ps w'"
    "db_of view w' = db_of view w"
    using bind_from_ready [OF calls, of sql "[]" "query_reset lib q1 w1" q1 cells ps] p assms(4) by auto
  then show thesis using p q1 by (intro that [of q1 "query_reset lib q1 w1" w']) (simp_all add: start_statement_def)
qed

lemma statement_query_gives:
  assumes calls: "sqlite_calls lib view parses names run" and "world_ok view w" "parses sql (db_of view w)"
    and "list_all2 (\<lambda>cell v. bound_value (lib_widen lib) cell = Some (Some v)) cells ps" "length ps = param_count sql"
    and "run sql ps (db_of view w) = Some (rows, db')" "list_all (\<lambda>r. length r = length (names sql)) rows"
  shows "\<exists>q' w'. statement_query lib sql cells q w = Some (map (cells_of (names sql)) rows, q', w') \<and> world_ok view w' \<and>
    db_of view w' = db'"
proof -
  obtain q' w1 w2 where s: "start_statement lib sql q w = (q', w1)" "m_sql q' = sql" "bind_from lib 1 cells q' w1 = Some w2"
    "ready view sql ps w2" "db_of view w2 = db_of view w"
    using statement_started [OF assms(1-5)] by blast
  show ?thesis
    using execute_query [OF calls s(4,2) assms(5), of rows db'] assms(6,7) s by (auto simp: statement_query_def)
qed

lemma statement_command_gives:
  assumes calls: "sqlite_calls lib view parses names run" and "world_ok view w" "parses sql (db_of view w)"
    and "list_all2 (\<lambda>cell v. bound_value (lib_widen lib) cell = Some (Some v)) cells ps" "length ps = param_count sql"
    and "run sql ps (db_of view w) = Some ([], db')"
  shows "\<exists>q' w'. statement_command lib sql cells q w = Some (True, q', w') \<and> world_ok view w' \<and> db_of view w' = db'"
proof -
  obtain q' w1 w2 where s: "start_statement lib sql q w = (q', w1)" "m_sql q' = sql" "bind_from lib 1 cells q' w1 = Some w2"
    "ready view sql ps w2" "db_of view w2 = db_of view w"
    using statement_started [OF assms(1-5)] by blast
  show ?thesis
    using execute_command [OF calls s(4,2) assms(5)] assms(6) s by (auto simp: statement_command_def)
qed

section \<open>What the statements mean\<close>

definition server_columns :: "sql_column list" where
  "server_columns =
     [\<lparr>col_name = ''file_id'', col_type = ''INTEGER'', col_primary = True, col_not_null = False, col_unique = False\<rparr>,
      \<lparr>col_name = ''file_name'', col_type = ''TEXT'', col_primary = False, col_not_null = True, col_unique = False\<rparr>,
      \<lparr>col_name = ''resource_path'', col_type = ''TEXT'', col_primary = False, col_not_null = True, col_unique = False\<rparr>,
      \<lparr>col_name = ''file_size'', col_type = ''INTEGER'', col_primary = False, col_not_null = True, col_unique = False\<rparr>,
      \<lparr>col_name = ''md5_code'', col_type = ''TEXT'', col_primary = False, col_not_null = True, col_unique = False\<rparr>]"

definition server_fields :: "string list" where
  "server_fields = [''file_name'', ''resource_path'', ''file_size'', ''md5_code'']"

definition server_names :: "string \<Rightarrow> string list" where
  "server_names x =
     (if x = count_files_sql then [''COUNT(*)'']
      else if x \<in> {all_files_sql, file_by_id_sql, file_by_md5_sql} then ''file_id'' # server_fields else [])"

text \<open>What SQL says that each of the texts does, on a database with the table of the files.\<close>

definition server_run :: sql_run where
  "server_run x ps db =
     (if x = create_files_sql then effect (Create_Table ''file_info'' True server_columns) db
      else case db ''file_info'' of
        None \<Rightarrow> None
      | Some T \<Rightarrow>
          (let rows = tbl_rows T in
           if x = all_files_sql then Some (map (map snd) rows, db)
           else if x = file_by_id_sql then Some (map (map snd) (filter (\<lambda>row. row_get row ''file_id'' = ps ! 0) rows), db)
           else if x = file_by_md5_sql then Some (map (map snd) (filter (\<lambda>row. row_get row ''md5_code'' = ps ! 0) rows), db)
           else if x = count_files_sql then Some ([[Integer_Value (of_nat (length rows))]], db)
           else if x = insert_file_sql then effect (Insert_Into ''file_info'' (zip server_fields ps)) db
           else if x = update_file_sql
             then Some ([], db(''file_info'' \<mapsto> T\<lparr>tbl_rows :=
                    map (\<lambda>row. if row_get row ''file_id'' = ps ! 4 then row_set (zip server_fields (take 4 ps)) row else row) rows\<rparr>))
           else if x = delete_file_sql
             then Some ([], db(''file_info'' \<mapsto> T\<lparr>tbl_rows := filter (\<lambda>row. row_get row ''file_id'' \<noteq> ps ! 0) rows\<rparr>))
           else None))"

definition server_texts :: "string set" where
  "server_texts =
     {create_files_sql, all_files_sql, file_by_id_sql, file_by_md5_sql, count_files_sql, insert_file_sql, update_file_sql,
      delete_file_sql}"

text \<open>The table of the files, if it is there, has its columns, values that fit them, and room for one more key.\<close>

definition files_table_ok :: "db \<Rightarrow> bool" where
  "files_table_ok db \<longleftrightarrow>
     (\<forall>T. db ''file_info'' = Some T \<longrightarrow>
        tbl_columns T = server_columns \<and> table_typed T \<and> next_key ''file_id'' (tbl_rows T) < 2 ^ 63)"

definition server_sql_ok ::
  "(string \<Rightarrow> db \<Rightarrow> bool) \<Rightarrow> (string \<Rightarrow> string list) \<Rightarrow> sql_run \<Rightarrow> bool" where
  "server_sql_ok parses names run \<longleftrightarrow>
     (\<forall>x \<in> server_texts. \<forall>db. files_table_ok db \<and> (x = create_files_sql \<or> db ''file_info'' \<noteq> None) \<longrightarrow>
        parses x db \<and> names x = server_names x \<and>
        (\<forall>ps. length ps = param_count x \<longrightarrow>
           (case server_run x ps db of
              None \<Rightarrow> run x ps db = None
            | Some (rows, db') \<Rightarrow> \<exists>rows'. run x ps db = Some (rows', db') \<and> mset rows' = mset rows)))"

lemma server_sql_engine: "server_sql_ok (\<lambda>x db. x \<in> server_texts) server_names server_run"
  by (simp add: server_sql_ok_def split: option.split)

lemma server_sqlD:
  assumes "server_sql_ok parses names run" "x \<in> server_texts" "files_table_ok db" "x = create_files_sql \<or> db ''file_info'' \<noteq> None"
  shows "parses x db" "names x = server_names x"
    "length ps = param_count x \<Longrightarrow> server_run x ps db = Some (rows, db') \<Longrightarrow>
       \<exists>rows'. run x ps db = Some (rows', db') \<and> mset rows' = mset rows"
proof -
  have *: "parses x db \<and> names x = server_names x \<and>
        (\<forall>ps. length ps = param_count x \<longrightarrow>
           (case server_run x ps db of
              None \<Rightarrow> run x ps db = None
            | Some (rows, db') \<Rightarrow> \<exists>rows'. run x ps db = Some (rows', db') \<and> mset rows' = mset rows))"
    using assms by (simp add: server_sql_ok_def)
  then show "parses x db" "names x = server_names x" by simp_all
  assume len: "length ps = param_count x" and r: "server_run x ps db = Some (rows, db')"
  from * len have "case server_run x ps db of None \<Rightarrow> run x ps db = None
      | Some (rows, db') \<Rightarrow> \<exists>rows'. run x ps db = Some (rows', db') \<and> mset rows' = mset rows" by blast
  then show "\<exists>rows'. run x ps db = Some (rows', db') \<and> mset rows' = mset rows"
    by (simp add: r)
qed

section \<open>Files and rows\<close>

definition server_values :: "ServerFileInfo \<Rightarrow> SqlValue list" where
  "server_values f =
     [Text_Value (server_file_name f), Text_Value (resource_path f), Integer_Value (ucast (server_file_size f)),
      Text_Value (server_md5_code f)]"

definition server_row :: "ServerFileInfo \<Rightarrow> row" where
  "server_row f = (''file_id'', Integer_Value (scast (server_file_id f))) # zip server_fields (server_values f)"

text \<open>The texts of a file that can be kept have no zero in them.\<close>

definition server_file_valid :: "ServerFileInfo \<Rightarrow> bool" where
  "server_file_valid f \<longleftrightarrow>
     CHR 0x00 \<notin> set (server_file_name f) \<and> CHR 0x00 \<notin> set (resource_path f) \<and> CHR 0x00 \<notin> set (server_md5_code f)"

lemma c_str_same [simp]: "CHR 0x00 \<notin> set s \<Longrightarrow> c_str s = s"
  by (auto simp: c_str_def takeWhile_eq_all_conv)

lemma number_again [simp]:
  "sint (scast i :: u64) = sint (i :: u32)" "ucast (scast i :: u64) = (i :: u32)" "ucast (ucast i :: u64) = (i :: u32)"
proof -
  show "sint (scast i :: u64) = sint i" by (simp add: sint_up_scast is_up)
  show "ucast (scast i :: u64) = i" by transfer (simp add: take_bit_signed_take_bit)
  show "ucast (ucast i :: u64) = i" by transfer simp
qed

lemma server_row_sel [simp]:
  "row_get (server_row f) ''file_id'' = Integer_Value (scast (server_file_id f))"
  "row_get (server_row f) ''md5_code'' = Text_Value (server_md5_code f)"
  "row_integer (server_row f) ''file_id'' = Some (sint (server_file_id f))"
  "map snd (server_row f) = Integer_Value (scast (server_file_id f)) # server_values f"
  by (simp_all add: row_get_def row_integer_def server_row_def server_fields_def server_values_def)

lemma read_server_row:
  assumes "server_file_valid f"
  shows "read_server_file (cells_of (''file_id'' # server_fields) (map snd (server_row f))) (new_server_file junk) = Some f"
  using assms by (cases f) (simp add: cells_of_def server_fields_def server_values_def server_file_valid_def new_server_file_def)

lemma typed_server_row: "server_file_valid f \<Longrightarrow> row_typed server_columns (server_row f)"
  by (simp add: row_typed_def server_columns_def server_row_def server_fields_def server_values_def fits_def server_file_valid_def)

lemma server_params:
  "param_count create_files_sql = 0" "param_count all_files_sql = 0" "param_count file_by_id_sql = 1"
  "param_count file_by_md5_sql = 1" "param_count count_files_sql = 0" "param_count insert_file_sql = 4"
  "param_count update_file_sql = 5" "param_count delete_file_sql = 1"
  by code_simp+

lemma server_texts_distinct:
  "distinct [create_files_sql, all_files_sql, file_by_id_sql, file_by_md5_sql, count_files_sql, insert_file_sql, update_file_sql,
      delete_file_sql]"
  by code_simp

section \<open>The contract\<close>

definition next_file_id :: "ServerFileInfo list \<Rightarrow> int" where
  "next_file_id fs = 1 + fold max (map (\<lambda>f. sint (server_file_id f)) fs) 0"

locale file_catalog =
  fixes by_id :: "u32 \<Rightarrow> 's \<Rightarrow> (ServerFileInfo option \<times> 's) option"
    and add_file :: "ServerFileInfo \<Rightarrow> 's \<Rightarrow> (bool \<times> 's) option"
    and holds :: "'s \<Rightarrow> ServerFileInfo list \<Rightarrow> bool"
  assumes distinct_ids: "holds s fs \<Longrightarrow> distinct (map server_file_id fs)"
    and by_id: "holds s fs \<Longrightarrow> \<exists>s'. by_id i s = Some (find (\<lambda>f. server_file_id f = i) fs, s') \<and> holds s' fs"
    and add_new: "holds s fs \<Longrightarrow> server_file_valid f \<Longrightarrow> \<forall>g \<in> set fs. server_md5_code g \<noteq> server_md5_code f \<Longrightarrow>
      next_file_id fs < 2 ^ 31 \<Longrightarrow>
      \<exists>s'. add_file f s = Some (True, s') \<and> holds s' (fs @ [f\<lparr>server_file_id := word_of_int (next_file_id fs)\<rparr>])"
    and add_known: "holds s fs \<Longrightarrow> g \<in> set fs \<Longrightarrow> server_md5_code g = server_md5_code f \<Longrightarrow>
      \<exists>s'. add_file f s = Some (False, s') \<and> holds s' fs"

context file_catalog
begin

lemma find_added:
  assumes "\<And>g. g \<in> set fs \<Longrightarrow> server_file_id g \<noteq> server_file_id f"
  shows "find (\<lambda>g. server_file_id g = server_file_id f) (fs @ [f]) = Some f"
  using assms by (induction fs) auto

lemma offered:
  assumes "holds s fs" "server_file_valid f" "\<forall>g \<in> set fs. server_md5_code g \<noteq> server_md5_code f" "next_file_id fs < 2 ^ 31"
    and fresh: "\<And>g. g \<in> set fs \<Longrightarrow> server_file_id g \<noteq> word_of_int (next_file_id fs)"
    and same: "server_md5_code f' = server_md5_code f"
  shows "\<exists>s1 s2 s3. add_file f s = Some (True, s1) \<and>
    by_id (word_of_int (next_file_id fs)) s1 = Some (Some (f\<lparr>server_file_id := word_of_int (next_file_id fs)\<rparr>), s2) \<and>
    add_file f' s2 = Some (False, s3) \<and> holds s3 (fs @ [f\<lparr>server_file_id := word_of_int (next_file_id fs)\<rparr>])"
proof -
  let ?g = "f\<lparr>server_file_id := word_of_int (next_file_id fs)\<rparr>"
  obtain s1 where s1: "add_file f s = Some (True, s1)" "holds s1 (fs @ [?g])"
    using add_new [OF assms(1-4)] by blast
  have "find (\<lambda>g. server_file_id g = word_of_int (next_file_id fs)) (fs @ [?g]) = Some ?g"
    using find_added [of fs ?g] fresh by simp
  with by_id [OF s1(2), of "word_of_int (next_file_id fs)"] obtain s2 where
    s2: "by_id (word_of_int (next_file_id fs)) s1 = Some (Some ?g, s2)" "holds s2 (fs @ [?g])" by auto
  obtain s3 where "add_file f' s2 = Some (False, s3)" "holds s3 (fs @ [?g])"
    using add_known [OF s2(2), of ?g f'] same by auto
  with s1 s2 show ?thesis by blast
qed

end

section \<open>The service keeps the contract\<close>

definition files_held :: "ServerFileInfo list \<Rightarrow> db \<Rightarrow> bool" where
  "files_held fs db \<longleftrightarrow>
     (\<exists>T. db ''file_info'' = Some T \<and> tbl_columns T = server_columns \<and> tbl_rows T = map server_row fs) \<and>
     distinct (map server_file_id fs) \<and> list_all server_file_valid fs"

definition server_holds ::
  "'m sqlite3 \<Rightarrow> ('m \<Rightarrow> lib_view) \<Rightarrow> (string \<Rightarrow> db \<Rightarrow> bool) \<Rightarrow> (string \<Rightarrow> string list) \<Rightarrow> sql_run \<Rightarrow>
   'm server_store \<Rightarrow> ServerFileInfo list \<Rightarrow> bool" where
  "server_holds lib view parses names run s fs \<longleftrightarrow>
     sqlite_calls lib view parses names run \<and> server_sql_ok parses names run \<and> world_ok view (server_sql s) \<and>
     m_query (file_info_repository s) \<noteq> None \<and> files_held fs (db_of view (server_sql s))"

lemma next_key_files: "next_key ''file_id'' (map server_row fs) = next_file_id fs"
proof -
  have "List.map_filter (\<lambda>row. row_integer row ''file_id'') (map server_row fs) = map (\<lambda>f. sint (server_file_id f)) fs"
    by (induction fs) (simp_all add: List.map_filter_simps)
  then show ?thesis by (simp add: next_key_def next_file_id_def)
qed

lemma fold_max_bound: "a < 2 ^ 31 \<Longrightarrow> (\<And>x. x \<in> set xs \<Longrightarrow> x < 2 ^ 31) \<Longrightarrow> fold max xs a < (2 ^ 31 :: int)" for a :: int
  by (induction xs arbitrary: a) simp_all

lemma next_file_id_bound: "next_file_id fs \<le> 2 ^ 31"
proof -
  have "fold max (map (\<lambda>f. sint (server_file_id f)) fs) 0 < 2 ^ 31"
    by (rule fold_max_bound) (use sint_less [where 'a = 32] in \<open>auto\<close>)
  then show ?thesis by (simp add: next_file_id_def)
qed

lemma next_file_id_above: "f \<in> set fs \<Longrightarrow> sint (server_file_id f) < next_file_id fs" "0 < next_file_id fs"
proof -
  have "x \<in> set xs \<Longrightarrow> x \<le> fold max xs a" and "a \<le> fold max xs a" for x a :: int and xs
    by (induction xs arbitrary: a) (auto intro: order_trans [OF max.cobounded1] order_trans [OF max.cobounded2])
  note * = this
  show "f \<in> set fs \<Longrightarrow> sint (server_file_id f) < next_file_id fs"
    using *(1) [of "sint (server_file_id f)" "map (\<lambda>f. sint (server_file_id f)) fs" 0] by (simp add: next_file_id_def)
  show "0 < next_file_id fs"
    using *(2) [of 0 "map (\<lambda>f. sint (server_file_id f)) fs"] by (simp add: next_file_id_def)
qed

lemma files_held_ok: "files_held fs db \<Longrightarrow> files_table_ok db"
proof -
  assume h: "files_held fs db"
  then obtain T where T: "db ''file_info'' = Some T" "tbl_columns T = server_columns" "tbl_rows T = map server_row fs"
    "list_all server_file_valid fs" by (auto simp: files_held_def)
  have "distinct (map col_name server_columns)" by (simp add: server_columns_def)
  moreover have "list_all (row_typed server_columns) (map server_row fs)"
    using T(4) typed_server_row by (simp add: list_all_iff)
  ultimately show ?thesis
    using T next_file_id_bound [of fs] by (auto simp: files_table_ok_def table_typed_def next_key_files)
qed

lemmas server_texts_simps = server_texts_def server_texts_distinct [simplified]

text \<open>A query of files: the rows that pass a test, in some order.\<close>

lemma server_select:
  assumes h: "server_holds lib view parses names run s fs" and x: "x \<in> {all_files_sql, file_by_id_sql, file_by_md5_sql}"
    and cells: "list_all2 (\<lambda>cell v. bound_value (lib_widen lib) cell = Some (Some v)) cells ps" "length ps = param_count x"
    and rows: "server_run x ps (db_of view (server_sql s)) =
      Some (map (\<lambda>f. map snd (server_row f)) (filter P fs), db_of view (server_sql s))"
  shows "\<exists>q' w' fs'. statement_query lib x cells q (server_sql s) =
      Some (map (\<lambda>f. cells_of (''file_id'' # server_fields) (map snd (server_row f))) fs', q', w') \<and>
    mset fs' = mset (filter P fs) \<and> world_ok view w' \<and> db_of view w' = db_of view (server_sql s)"
proof -
  let ?db = "db_of view (server_sql s)"
  have calls: "sqlite_calls lib view parses names run" and sql: "server_sql_ok parses names run"
    and ok: "world_ok view (server_sql s)" and held: "files_held fs ?db"
    using h by (simp_all add: server_holds_def)
  have mem: "x \<in> server_texts" using x by (auto simp: server_texts_def)
  have there: "x = create_files_sql \<or> ?db ''file_info'' \<noteq> None" using held by (auto simp: files_held_def)
  note law = server_sqlD [OF sql mem files_held_ok [OF held] there]
  obtain rows' where r: "run x ps ?db = Some (rows', ?db)" "mset rows' = mset (map (\<lambda>f. map snd (server_row f)) (filter P fs))"
    using law(3) [OF cells(2) rows] by blast
  obtain fs' where fs': "rows' = map (\<lambda>f. map snd (server_row f)) fs'" "mset fs' = mset (filter P fs)"
    using mset_map_reorder [OF r(2)] by blast
  have n: "names x = ''file_id'' # server_fields"
    using law(2) x server_texts_distinct by (auto simp: server_names_def)
  have "list_all (\<lambda>r. length r = length (names x)) rows'"
    by (simp add: fs'(1) n list_all_iff server_fields_def server_values_def)
  from statement_query_gives [OF calls ok law(1) cells r(1) this, of q] fs' n show ?thesis
    by (auto simp: comp_def simp del: server_row_sel(4) mset_map mset_filter)
qed

lemma server_holds_again:
  assumes "server_holds lib view parses names run s fs" "world_ok view w'" "files_held gs (db_of view w')"
  shows "server_holds lib view parses names run
    (s\<lparr>file_info_repository := (file_info_repository s)\<lparr>m_query := Some q'\<rparr>, server_sql := w'\<rparr>) gs"
  using assms by (simp add: server_holds_def)

lemma server_holds_distinct: "server_holds lib view parses names run s fs \<Longrightarrow> distinct (map server_file_id fs)"
  by (simp add: server_holds_def files_held_def)

lemma plain_cell_values [simp]:
  "bound_value wd (plain_cell T_int32 (Int32_Data i)) = Some (Some (Integer_Value (scast i)))"
  "bound_value wd (plain_cell T_uint32 (UInt32_Data n)) = Some (Some (Integer_Value (ucast n)))"
  "bound_value wd (plain_cell T_string (String_Data t)) = Some (Some (Text_Value (c_str t)))"
  by (simp_all add: plain_cell_def bound_value_def get_data_type_def)

lemma server_get_one_gives:
  assumes h: "server_holds lib view parses names run s fs" and x: "x \<in> {file_by_id_sql, file_by_md5_sql}"
    and v: "bound_value (lib_widen lib) cell = Some (Some v)"
    and test: "\<And>f. row_get (server_row f) (if x = file_by_id_sql then ''file_id'' else ''md5_code'') = v \<longleftrightarrow> P f"
  shows "\<exists>fs' s'. with_server_files (server_get_one lib junk x cell) s = Some (if fs' = [] then None else Some (hd fs'), s') \<and>
    mset fs' = mset (filter P fs) \<and> server_holds lib view parses names run s' fs"
proof -
  let ?db = "db_of view (server_sql s)"
  obtain q where q: "m_query (file_info_repository s) = Some q" using h by (auto simp: server_holds_def)
  have held: "files_held fs ?db" and valid: "list_all server_file_valid fs" using h by (auto simp: server_holds_def files_held_def)
  obtain T where T: "?db ''file_info'' = Some T" "tbl_rows T = map server_row fs" using held by (auto simp: files_held_def)
  have "server_run x [v] ?db = Some (map (\<lambda>f. map snd (server_row f)) (filter P fs), ?db)"
    using x T test server_texts_distinct by (auto simp: server_run_def filter_map comp_def simp del: server_row_sel(4))
  moreover have "length [v] = param_count x" using x server_params by auto
  ultimately obtain q' w' fs' where r: "statement_query lib x [cell] q (server_sql s) =
      Some (map (\<lambda>f. cells_of (''file_id'' # server_fields) (map snd (server_row f))) fs', q', w')"
    "mset fs' = mset (filter P fs)" "world_ok view w'" "db_of view w' = ?db"
    using server_select [OF h, of x "[cell]" "[v]" P q] x v by auto
  have fs': "set fs' \<subseteq> set fs" using r(2) by (metis filter_is_subset mset_eq_setD)
  have "with_server_files (server_get_one lib junk x cell) s = Some (if fs' = [] then None else Some (hd fs'),
      s\<lparr>file_info_repository := (file_info_repository s)\<lparr>m_query := Some q'\<rparr>, server_sql := w'\<rparr>)"
    using fs' valid read_server_row [of "hd fs'" junk]
    by (cases fs') (auto simp: with_server_files_def server_get_one_def q r(1) list_all_iff simp del: server_row_sel(4))
  moreover have "server_holds lib view parses names run
      (s\<lparr>file_info_repository := (file_info_repository s)\<lparr>m_query := Some q'\<rparr>, server_sql := w'\<rparr>) fs"
    by (rule server_holds_again [OF h r(3)]) (simp add: r(4) held)
  ultimately show ?thesis using r(2) by blast
qed

lemma find_filter: "find P xs = (case filter P xs of [] \<Rightarrow> None | x # _ \<Rightarrow> Some x)"
  by (induction xs) auto

lemma filter_key:
  assumes "distinct (map key xs)"
  shows "filter (\<lambda>x. key x = i) xs = (case find (\<lambda>x. key x = i) xs of None \<Rightarrow> [] | Some x \<Rightarrow> [x])"
  using assms
proof (induction xs)
  case (Cons x xs)
  have "filter (\<lambda>y. key y = key x) xs = []" using Cons.prems by (auto simp: filter_empty_conv) (metis image_eqI)
  with Cons show ?case by auto
qed simp

lemma server_by_id:
  assumes h: "server_holds lib view parses names run s fs"
  shows "\<exists>s'. server_service_get_by_id lib junk i s = Some (find (\<lambda>f. server_file_id f = i) fs, s') \<and>
    server_holds lib view parses names run s' fs"
proof -
  have inj: "(scast (j :: u32) :: u64) = scast i \<longleftrightarrow> j = i" for j by (metis number_again(2))
  obtain fs' s' where r: "with_server_files (server_get_one lib junk file_by_id_sql (plain_cell T_int32 (Int32_Data i))) s =
      Some (if fs' = [] then None else Some (hd fs'), s')" "mset fs' = mset (filter (\<lambda>f. server_file_id f = i) fs)"
    "server_holds lib view parses names run s' fs"
    using server_get_one_gives [OF h, of file_by_id_sql "plain_cell T_int32 (Int32_Data i)" "Integer_Value (scast i)"
        "\<lambda>f. server_file_id f = i" junk] inj by auto
  have "distinct (map server_file_id fs)" using h by (simp add: server_holds_def files_held_def)
  then have "mset fs' = mset (case find (\<lambda>f. server_file_id f = i) fs of None \<Rightarrow> [] | Some x \<Rightarrow> [x])"
    using r(2) filter_key [of server_file_id fs i] by simp
  then have "(if fs' = [] then None else Some (hd fs')) = find (\<lambda>f. server_file_id f = i) fs"
    by (cases "find (\<lambda>f. server_file_id f = i) fs") auto
  with r show ?thesis by (auto simp: server_service_get_by_id_def server_get_by_id_def [abs_def])
qed

lemma server_add_known:
  assumes h: "server_holds lib view parses names run s fs" and g: "g \<in> set fs" "server_md5_code g = server_md5_code f"
  shows "\<exists>s'. server_service_add lib junk f s = Some (False, s') \<and> server_holds lib view parses names run s' fs"
proof -
  have "server_file_valid g" using h g(1) by (auto simp: server_holds_def files_held_def list_all_iff)
  then have c: "c_str (server_md5_code f) = server_md5_code f" using g(2) by (simp add: server_file_valid_def)
  obtain fs' s' where r: "with_server_files (server_get_by_md5 lib junk (server_md5_code f)) s =
      Some (if fs' = [] then None else Some (hd fs'), s')" "mset fs' = mset (filter (\<lambda>g. server_md5_code g = server_md5_code f) fs)"
    "server_holds lib view parses names run s' fs"
    using server_get_one_gives [OF h, of file_by_md5_sql "plain_cell T_string (String_Data (server_md5_code f))"
        "Text_Value (server_md5_code f)" "\<lambda>g. server_md5_code g = server_md5_code f" junk] c server_texts_distinct
    by (auto simp: server_get_by_md5_def)
  have "fs' \<noteq> []" using r(2) g by (metis (mono_tags, lifting) filter_empty_conv mset_zero_iff)
  moreover have "m_query (file_info_repository s) \<noteq> None" using h by (simp add: server_holds_def)
  ultimately have "server_service_add lib junk f s = Some (False, s')"
    using r(1) by (auto simp: server_service_add_def server_add_def with_server_files_def split: Option.bind_splits)
  with r(3) show ?thesis by blast
qed

lemma new_server_row:
  assumes "tbl_columns T = server_columns" "tbl_rows T = map server_row fs" "next_file_id fs < 2 ^ 31"
  shows "new_row T (zip server_fields (server_values f)) = server_row (f\<lparr>server_file_id := word_of_int (next_file_id fs)\<rparr>)"
proof -
  have "(scast (word_of_int (next_file_id fs) :: u32) :: u64) = word_of_int (next_file_id fs)"
  proof (rule signed_word_eqI)
    have "sint (word_of_int (next_file_id fs) :: u32) = next_file_id fs"
      unfolding sint_sbintrunc' using assms(3) next_file_id_above(2) [of fs] by (intro signed_take_bit_int_eq_self) simp_all
    moreover have "sint (word_of_int (next_file_id fs) :: u64) = next_file_id fs"
      unfolding sint_sbintrunc' using assms(3) next_file_id_above(2) [of fs] by (intro signed_take_bit_int_eq_self) simp_all
    ultimately show "sint (scast (word_of_int (next_file_id fs) :: u32) :: u64) = sint (word_of_int (next_file_id fs) :: u64)"
      by simp
  qed
  then show ?thesis
    using assms by (simp add: new_row_def server_columns_def server_row_def server_fields_def server_values_def next_key_files)
qed

lemma new_file_id_fresh:
  assumes "next_file_id fs < 2 ^ 31" "g \<in> set fs"
  shows "server_file_id g \<noteq> word_of_int (next_file_id fs)"
proof
  assume "server_file_id g = word_of_int (next_file_id fs)"
  moreover have "sint (word_of_int (next_file_id fs) :: u32) = next_file_id fs"
    unfolding sint_sbintrunc' using assms(1) next_file_id_above(2) [of fs] by (intro signed_take_bit_int_eq_self) simp_all
  ultimately show False using next_file_id_above(1) [OF assms(2)] by simp
qed

lemma new_row_allowed:
  assumes "tbl_columns T = server_columns" "tbl_rows T = map server_row fs" "next_file_id fs < 2 ^ 31"
  shows "row_allowed T (server_row (f\<lparr>server_file_id := word_of_int (next_file_id fs)\<rparr>))"
proof -
  have "scast (server_file_id g) \<noteq> (scast (word_of_int (next_file_id fs) :: u32) :: u64)" if "g \<in> set fs" for g
    using new_file_id_fresh [OF assms(3) that] by (metis number_again(2))
  then show ?thesis
    using assms(1,2)
    by (auto simp: row_allowed_def server_columns_def list_all_iff)
      (simp_all add: row_get_def server_row_def server_fields_def server_values_def)
qed

lemma server_insert_run:
  assumes "files_held fs db" "server_file_valid f" "next_file_id fs < 2 ^ 31"
  shows "\<exists>db'. server_run insert_file_sql (server_values f) db = Some ([], db') \<and>
    files_held (fs @ [f\<lparr>server_file_id := word_of_int (next_file_id fs)\<rparr>]) db'"
proof -
  let ?g = "f\<lparr>server_file_id := word_of_int (next_file_id fs)\<rparr>"
  obtain T where T: "db ''file_info'' = Some T" "tbl_columns T = server_columns" "tbl_rows T = map server_row fs"
    using assms(1) by (auto simp: files_held_def)
  let ?db' = "db(''file_info'' \<mapsto> T\<lparr>tbl_rows := tbl_rows T @ [server_row ?g]\<rparr>)"
  have "server_run insert_file_sql (server_values f) db = effect (Insert_Into ''file_info'' (zip server_fields (server_values f))) db"
    using T(1) server_texts_distinct by (auto simp: server_run_def simp del: effect.simps)
  also have "\<dots> = Some ([], ?db')"
    using T(1) new_server_row [OF T(2,3) assms(3), of f] new_row_allowed [OF T(2,3) assms(3), of f] by simp
  finally have "server_run insert_file_sql (server_values f) db = Some ([], ?db')" .
  moreover have "files_held (fs @ [?g]) ?db'"
    using assms T new_file_id_fresh [OF assms(3)] by (auto simp: files_held_def server_file_valid_def image_iff)
      (metis)
  ultimately show ?thesis by blast
qed

lemma server_add_new:
  assumes h: "server_holds lib view parses names run s fs" and f: "server_file_valid f"
    and new: "\<forall>g \<in> set fs. server_md5_code g \<noteq> server_md5_code f" and room: "next_file_id fs < 2 ^ 31"
  shows "\<exists>s'. server_service_add lib junk f s = Some (True, s') \<and>
    server_holds lib view parses names run s' (fs @ [f\<lparr>server_file_id := word_of_int (next_file_id fs)\<rparr>])"
proof -
  have c: "c_str (server_md5_code f) = server_md5_code f" using f by (simp add: server_file_valid_def)
  obtain fs' s1 where r: "with_server_files (server_get_by_md5 lib junk (server_md5_code f)) s =
      Some (if fs' = [] then None else Some (hd fs'), s1)" "mset fs' = mset (filter (\<lambda>g. server_md5_code g = server_md5_code f) fs)"
    and h1: "server_holds lib view parses names run s1 fs"
    using server_get_one_gives [OF h, of file_by_md5_sql "plain_cell T_string (String_Data (server_md5_code f))"
        "Text_Value (server_md5_code f)" "\<lambda>g. server_md5_code g = server_md5_code f" junk] c server_texts_distinct
    by (auto simp: server_get_by_md5_def)
  have none: "fs' = []" using r(2) new by (simp add: filter_empty_conv)
  let ?db = "db_of view (server_sql s1)"
  obtain q where q: "m_query (file_info_repository s1) = Some q" using h1 by (auto simp: server_holds_def)
  have calls: "sqlite_calls lib view parses names run" and sql: "server_sql_ok parses names run"
    and ok: "world_ok view (server_sql s1)" and held: "files_held fs ?db"
    using h1 by (simp_all add: server_holds_def)
  obtain db' where db': "server_run insert_file_sql (server_values f) ?db = Some ([], db')"
    "files_held (fs @ [f\<lparr>server_file_id := word_of_int (next_file_id fs)\<rparr>]) db'"
    using server_insert_run [OF held f room] by blast
  have there: "insert_file_sql = create_files_sql \<or> ?db ''file_info'' \<noteq> None" using held by (auto simp: files_held_def)
  have "insert_file_sql \<in> server_texts" by (simp add: server_texts_def)
  note law = server_sqlD [OF sql this files_held_ok [OF held] there]
  have n: "length (server_values f) = param_count insert_file_sql" by (simp add: server_values_def server_params)
  have run: "run insert_file_sql (server_values f) ?db = Some ([], db')" using law(3) [OF n db'(1)] by auto
  have "list_all2 (\<lambda>cell v. bound_value (lib_widen lib) cell = Some (Some v)) (file_cells f) (server_values f)"
    using f by (simp add: file_cells_def server_values_def server_file_valid_def)
  from statement_command_gives [OF calls ok law(1) this n run, of q]
  obtain q' w' where c: "statement_command lib insert_file_sql (file_cells f) q (server_sql s1) = Some (True, q', w')"
    "world_ok view w'" "db_of view w' = db'" by blast
  obtain q0 where "m_query (file_info_repository s) = Some q0" using h by (auto simp: server_holds_def)
  with r(1) none q c(1) have "server_service_add lib junk f s =
      Some (True, s1\<lparr>file_info_repository := (file_info_repository s1)\<lparr>m_query := Some q'\<rparr>, server_sql := w'\<rparr>)"
    by (auto simp: server_service_add_def server_add_def with_server_files_def server_command_def split: Option.bind_splits)
  moreover have "server_holds lib view parses names run
      (s1\<lparr>file_info_repository := (file_info_repository s1)\<lparr>m_query := Some q'\<rparr>, server_sql := w'\<rparr>)
      (fs @ [f\<lparr>server_file_id := word_of_int (next_file_id fs)\<rparr>])"
    by (rule server_holds_again [OF h1 c(2)]) (simp add: c(3) db'(2))
  ultimately show ?thesis by blast
qed

interpretation server: file_catalog "server_service_get_by_id lib junk" "server_service_add lib junk"
  "server_holds lib view parses names run"
  for lib :: "'m sqlite3" and junk view parses names run
  by unfold_locales
    (rule server_holds_distinct server_by_id server_add_new server_add_known; assumption)+

section \<open>Properties\<close>

text \<open>A store over the small library.\<close>

definition server_lib :: "engine sqlite3" where
  "server_lib = plain_engine (\<lambda>x. x \<in> server_texts) server_names server_run"

definition store_with :: "ServerFileInfo list \<Rightarrow> engine server_store" where
  "store_with fs =
     \<lparr>file_info_repository = \<lparr>m_query = Some \<lparr>m_sql = []\<rparr>\<rparr>, service_is_init = True,
      server_sql = engine_world [''file_info'' \<mapsto> \<lparr>tbl_columns = server_columns, tbl_rows = map server_row fs\<rparr>],
      server_databases = Map.empty\<rparr>"

abbreviation store_holds :: "engine server_store \<Rightarrow> ServerFileInfo list \<Rightarrow> bool" where
  "store_holds \<equiv> server_holds server_lib engine_view (\<lambda>x db. x \<in> server_texts) server_names server_run"

lemma store_with_holds:
  "distinct (map server_file_id fs) \<Longrightarrow> list_all server_file_valid fs \<Longrightarrow> store_holds (store_with fs) fs"
  using plain_engine_calls [of "\<lambda>x. x \<in> server_texts" server_names server_run] server_sql_engine
  by (simp add: server_holds_def server_lib_def store_with_def files_held_def engine_world_def empty_engine_def
      world_ok_def new_driver_def)

text \<open>C8: A file that the server does not have yet, which is known by its checksum, is added under the identifier after the
  largest one and found under it; adding a file with the same checksum again is refused and changes nothing.\<close>

theorem file_offered:
  assumes "server_holds lib view parses names run s fs" "server_file_valid f"
    and "\<forall>g \<in> set fs. server_md5_code g \<noteq> server_md5_code f" "next_file_id fs < 2 ^ 31"
    and "server_md5_code f' = server_md5_code f"
  shows "\<exists>s1 s2 s3. server_service_add lib junk f s = Some (True, s1) \<and>
    server_service_get_by_id lib junk (word_of_int (next_file_id fs)) s1 =
      Some (Some (f\<lparr>server_file_id := word_of_int (next_file_id fs)\<rparr>), s2) \<and>
    server_service_add lib junk f' s2 = Some (False, s3) \<and>
    server_holds lib view parses names run s3 (fs @ [f\<lparr>server_file_id := word_of_int (next_file_id fs)\<rparr>])"
  using assms by (intro server.offered) (auto simp: new_file_id_fresh)

definition demo_server_file :: ServerFileInfo where
  "demo_server_file =
     \<lparr>server_file_id = 1, server_file_name = ''a.txt'', resource_path = ''/data/a.txt'', server_file_size = 6,
      server_md5_code = ''9e107d''\<rparr>"

theorem file_offered_witness:
  "\<exists>s1 s2 s3. server_service_add server_lib 7 demo_server_file (store_with []) = Some (True, s1) \<and>
    server_service_get_by_id server_lib 7 1 s1 = Some (Some demo_server_file, s2) \<and>
    server_service_add server_lib 7 (demo_server_file\<lparr>resource_path := ''/copy''\<rparr>) s2 = Some (False, s3) \<and>
    store_holds s3 [demo_server_file]"
proof -
  have "store_holds (store_with []) []" by (rule store_with_holds) simp_all
  from file_offered [OF this, of demo_server_file "demo_server_file\<lparr>resource_path := ''/copy''\<rparr>" 7]
  show ?thesis
    by (simp add: server_file_valid_def demo_server_file_def next_file_id_def)
qed

end
