(* ===== verification/Business.thy ===== *)
theory Business
  imports Messages Mail_Box Server_Store
begin

text \<open>
  The business side of the server, \<open>server/runtime/business_runtime\<close>: frames that the reactor has put into the mail box are
  parsed, answered, and the answers put into the queue of the connection they came from.

  The file service and the files on disk are arguments. An exception, which ends the thread and with it the
  program, is \<open>None\<close>; log messages are left out.
\<close>

section \<open>State\<close>

record 's BusinessRuntime =
  b_is_running :: bool
  b_mail_box :: "ReactorMailBox option"
  b_file_service :: 's

text \<open>
  What the handlers rely on: the byte order of the machine, the text of a scalar field, the uninitialised members of a
  request, \<open>get_by_id\<close> of the file service, and what a stream opened on a path reads, if it can be opened.
\<close>

record 's server_env =
  env_host :: ByteOrder
  env_text :: "DataType \<Rightarrow> bytes \<Rightarrow> string"
  env_junk :: EnvelopeRequestTransfer
  env_file :: "u32 \<Rightarrow> 's \<Rightarrow> (ServerFileInfo option \<times> 's) option"
  env_disk :: "string \<Rightarrow> bytes option"

definition new_business :: "ReactorMailBox option \<Rightarrow> 's \<Rightarrow> 's BusinessRuntime" where
  "new_business mail_box service = \<lparr>b_is_running = False, b_mail_box = mail_box, b_file_service = service\<rparr>"

definition business_init :: "('s \<Rightarrow> 's option) \<Rightarrow> 's BusinessRuntime \<Rightarrow> 's BusinessRuntime option" where
  "business_init service_init s = do { t \<leftarrow> service_init (b_file_service s); Some (s\<lparr>b_file_service := t\<rparr>) }"

definition business_stop :: "'s BusinessRuntime \<Rightarrow> 's BusinessRuntime" where
  "business_stop s = s\<lparr>b_is_running := False\<rparr>"

section \<open>Handlers\<close>

definition answer :: "u64 \<Rightarrow> bytes \<Rightarrow> 's BusinessRuntime \<Rightarrow> 's BusinessRuntime" where
  "answer cid data s =
     (case b_mail_box s of
        None \<Rightarrow> s
      | Some box \<Rightarrow> s\<lparr>b_mail_box := Some (push_to_client_frame \<lparr>connect_id = cid, frame_data = data\<rparr> box)\<rparr>)"

definition handle_unknown_request :: "'s BusinessRuntime \<Rightarrow> 's BusinessRuntime" where
  "handle_unknown_request s = s"

text \<open>The identifier of the file is cut to 32 bits when the file service is called.\<close>

definition look_up ::
  "'s server_env \<Rightarrow> u64 \<Rightarrow> 's BusinessRuntime \<Rightarrow> (ServerFileInfo option \<times> 's BusinessRuntime) option" where
  "look_up env i s = do { (f, t) \<leftarrow> env_file env (ucast i) (b_file_service s); Some (f, s\<lparr>b_file_service := t\<rparr>) }"

definition handle_download_request ::
  "'s server_env \<Rightarrow> DownloadRequestTransfer \<Rightarrow> u64 \<Rightarrow> u64 \<Rightarrow> 's BusinessRuntime \<Rightarrow> 's BusinessRuntime option" where
  "handle_download_request env request request_id cid s =
     do {
       (file, s) \<leftarrow> look_up env (drq_file_id request) s;
       let response =
         (case file of
            None \<Rightarrow>
              new_DownloadResponseTransfer
                \<lparr>drs_file_id := drq_file_id request, drs_task_id := drq_task_id request, drs_file_name := [],
                 drs_file_size := 0, drs_md5_code := []\<rparr>
          | Some f \<Rightarrow>
              new_DownloadResponseTransfer
                \<lparr>drs_file_id := scast (server_file_id f), drs_task_id := drq_task_id request,
                 drs_file_name := server_file_name f, drs_file_size := ucast (server_file_size f),
                 drs_md5_code := server_md5_code f\<rparr>);
       data \<leftarrow> build_download_response_byte_array (env_host env) response request_id;
       Some (answer cid data s)
     }"

definition handle_test_request ::
  "'s server_env \<Rightarrow> TestRequestTransfer \<Rightarrow> u64 \<Rightarrow> u64 \<Rightarrow> 's BusinessRuntime \<Rightarrow> 's BusinessRuntime option" where
  "handle_test_request env request request_id cid s =
     do {
       data \<leftarrow> build_test_response_byte_array (env_host env) \<lparr>trs_message = ''Echo: '' @ trq_message request\<rparr> request_id;
       Some (answer cid data s)
     }"

text \<open>
  \<open>seekg\<close> and \<open>read\<close> into a vector of zeros: a position before the file sets the failure bit and nothing is read, one behind
  its end reads nothing, and a file that ends early fills the front of the vector.
\<close>

definition read_at_offset :: "bytes \<Rightarrow> u64 \<Rightarrow> nat \<Rightarrow> bytes" where
  "read_at_offset contents offset n =
     (let got = (if sint offset < 0 then [] else take n (drop (nat (sint offset)) contents))
      in got @ replicate (n - length got) 0)"

text \<open>A vector of a negative size, which is a huge one, is an exception.\<close>

definition handle_block_request ::
  "'s server_env \<Rightarrow> BlockRequestTransfer \<Rightarrow> u64 \<Rightarrow> u64 \<Rightarrow> 's BusinessRuntime \<Rightarrow> 's BusinessRuntime option" where
  "handle_block_request env request request_id cid s =
     do {
       (file, s) \<leftarrow> look_up env (brq_file_id request) s;
       let response =
         new_BlockResponseTransfer
           \<lparr>brs_block_id := brq_block_id request, brs_file_id := brq_file_id request, brs_task_id := brq_task_id request,
            brs_offset := brq_offset request\<rparr>;
       case file of
         None \<Rightarrow>
           do {
             data \<leftarrow> build_block_response_byte_array (env_host env) (response\<lparr>brs_block_size := 0, brs_data := []\<rparr>) request_id;
             Some (answer cid data s)
           }
       | Some f \<Rightarrow>
           if sint (brq_block_size request) < 0 then None
           else case env_disk env (resource_path f) of
             None \<Rightarrow>
               do {
                 data \<leftarrow> build_block_response_byte_array (env_host env) (response\<lparr>brs_block_size := 0, brs_data := []\<rparr>) request_id;
                 Some (answer cid data s)
               }
           | Some contents \<Rightarrow>
               do {
                 let response = response
                   \<lparr>brs_block_size := brq_block_size request,
                    brs_data := read_at_offset contents (brq_offset request) (nat (sint (brq_block_size request)))\<rparr>;
                 data \<leftarrow> build_block_response_byte_array (env_host env) response request_id;
                 Some (answer cid data s)
               }
     }"

definition handle_request ::
  "'s server_env \<Rightarrow> bytes \<Rightarrow> u64 \<Rightarrow> 's BusinessRuntime \<Rightarrow> 's BusinessRuntime option" where
  "handle_request env data cid s =
     do {
       request \<leftarrow> try_parse_byte_array_request (env_host env) (env_text env) (env_junk env) data;
       case request of
         None \<Rightarrow> Some s
       | Some envelope \<Rightarrow>
           if req_path envelope = ''/download'' then
             do {
               r \<leftarrow> try_parse_byte_array_download_request (env_host env) (req_body envelope);
               case r of None \<Rightarrow> Some s | Some request \<Rightarrow> handle_download_request env request (req_id envelope) cid s
             }
           else if req_path envelope = ''/test'' then
             do {
               r \<leftarrow> try_parse_byte_array_test_request (env_host env) (env_text env) (req_body envelope);
               case r of None \<Rightarrow> Some s | Some request \<Rightarrow> handle_test_request env request (req_id envelope) cid s
             }
           else if req_path envelope = ''/block'' then
             do {
               r \<leftarrow> try_parse_byte_array_block_request (env_host env) (req_body envelope);
               case r of None \<Rightarrow> Some s | Some request \<Rightarrow> handle_block_request env request (req_id envelope) cid s
             }
           else Some (handle_unknown_request s)
     }"

text \<open>
  The loop of \<open>run\<close> over what the calls of \<open>pop_from_to_server_frame\<close> return, one after the other; another thread may
  clear the flag while a call waits, which is the flag of the input.
\<close>

fun business_loop ::
  "'s server_env \<Rightarrow> (PosixFrame option \<times> bool) list \<Rightarrow> 's BusinessRuntime \<Rightarrow> 's BusinessRuntime option" where
  "business_loop env [] s = Some s"
| "business_loop env ((popped, stopped) # pops) s =
     (if \<not> b_is_running s then Some s
      else let s = (if stopped then business_stop s else s) in
           case popped of
             None \<Rightarrow> business_loop env pops s
           | Some frame \<Rightarrow>
               do { s \<leftarrow> handle_request env (frame_data frame) (connect_id frame) s; business_loop env pops s })"

definition business_run ::
  "'s server_env \<Rightarrow> (PosixFrame option \<times> bool) list \<Rightarrow> 's BusinessRuntime \<Rightarrow> 's BusinessRuntime option" where
  "business_run env pops s = business_loop env pops (s\<lparr>b_is_running := True\<rparr>)"

end
