(* ===== verification/Block_Download.thy ===== *)
theory Block_Download
  imports Block_Schedule Business
begin

text \<open>
  What the scheduling of blocks achieves: each block of a task is requested, each response is written at its place, and
  when all blocks of a file have come back, in whatever order, the file of the task is the file of the server.
\<close>

section \<open>A disk that works\<close>

text \<open>What is in a file after bytes have been written at a position. Bytes between an old end and the position are not
  determined.\<close>

definition written :: "bytes \<Rightarrow> nat \<Rightarrow> bytes \<Rightarrow> bytes \<Rightarrow> bool" where
  "written old p data new \<longleftrightarrow>
     length new = (if data = [] then length old else max (length old) (p + length data)) \<and>
     (\<forall>i < length new.
        (p \<le> i \<and> i < p + length data \<longrightarrow> new ! i = data ! (i - p)) \<and>
        (i < length old \<and> \<not> (p \<le> i \<and> i < p + length data) \<longrightarrow> new ! i = old ! i))"

lemma written_Nil: "written old p [] old"
  by (auto simp: written_def)

lemma written_append:
  assumes "written a p x b" "written b (p + length x) y c" "x \<noteq> []"
  shows "written a p (x @ y) c"
proof -
  have c: "length c = max (length a) (p + length (x @ y))"
    using assms by (auto simp: written_def max_def split: if_splits)
  have inside: "c ! i = (x @ y) ! (i - p)" if "p \<le> i" "i < p + length (x @ y)" for i
  proof (cases "i < p + length x")
    case True
    then have "c ! i = b ! i" "b ! i = x ! (i - p)" using that c assms(1,2,3) by (auto simp: written_def max_def)
    moreover have "i - p < length x" using True that by linarith
    ultimately show ?thesis by (simp add: nth_append)
  next
    case False
    then have "c ! i = y ! (i - (p + length x))" using that c assms(2) by (auto simp: written_def)
    moreover have "\<not> i - p < length x" using False that by linarith
    ultimately show ?thesis by (simp add: nth_append diff_diff_left)
  qed
  have outside: "c ! i = a ! i" if "i < length a" "\<not> (p \<le> i \<and> i < p + length (x @ y))" for i
  proof -
    have "i < length b" using that assms(1) by (auto simp: written_def)
    then have "c ! i = b ! i" using that c assms(2) by (auto simp: written_def)
    also have "\<dots> = a ! i" using that \<open>i < length b\<close> assms(1) by (auto simp: written_def)
    finally show ?thesis .
  qed
  show ?thesis unfolding written_def using c inside outside assms(3) by auto
qed

text \<open>
  The documented behaviour of Qt for the file of one path, on a disk that works. \<open>seen q d\<close> is what is in the file
  and the position, for a file that is open, and \<open>stored d\<close> what is on the disk. A write may write less than it is
  given, but not nothing; a flush brings the file to the disk.
\<close>

definition disk_works ::
  "('q, 'd) qt_files \<Rightarrow> string \<Rightarrow> ('q \<Rightarrow> 'd \<Rightarrow> (bytes \<times> nat) option) \<Rightarrow> ('d \<Rightarrow> bytes option) \<Rightarrow> bool" where
  "disk_works qt dest seen stored \<longleftrightarrow>
     (\<forall>d. \<not> qt_is_open qt (qt_file qt dest d)) \<and>
     (\<forall>d. \<not> qt_dir_exists qt dest d \<longrightarrow> (\<exists>d'. qt_mkpath qt dest d = (True, d') \<and> stored d' = stored d)) \<and>
     (\<forall>d0 d. \<exists>q d'. qt_open qt (qt_file qt dest d0) d = (True, q, d') \<and> seen q d' = Some (case_option [] (\<lambda>c. c) (stored d), 0)) \<and>
     (\<forall>q d c p. seen q d = Some (c, p) \<longrightarrow>
        qt_is_open qt q \<and>
        (\<forall>offset. 0 \<le> sint offset \<longrightarrow> (\<exists>q' d'. qt_seek qt offset q d = (True, q', d') \<and> seen q' d' = Some (c, nat (sint offset)))) \<and>
        (\<forall>data. data \<noteq> [] \<and> length data < 2 ^ 63 \<longrightarrow>
           (\<exists>k q' d' c'. qt_write qt data q d = (of_nat k, q', d') \<and> 0 < k \<and> k \<le> length data \<and>
              written c p (take k data) c' \<and> seen q' d' = Some (c', p + k))) \<and>
        (\<exists>q' d'. qt_flush qt q d = (q', d') \<and> seen q' d' = Some (c, p) \<and> stored d' = Some c))"

lemma disk_worksD:
  assumes "disk_works qt dest seen stored"
  shows "\<not> qt_is_open qt (qt_file qt dest d)"
    and "\<not> qt_dir_exists qt dest d \<Longrightarrow> \<exists>d'. qt_mkpath qt dest d = (True, d') \<and> stored d' = stored d"
    and "\<exists>q d'. qt_open qt (qt_file qt dest d0) d = (True, q, d') \<and> seen q d' = Some (case_option [] (\<lambda>c. c) (stored d), 0)"
    and "seen q d = Some (c, p) \<Longrightarrow> qt_is_open qt q"
    and "seen q d = Some (c, p) \<Longrightarrow> 0 \<le> sint offset \<Longrightarrow>
      \<exists>q' d'. qt_seek qt offset q d = (True, q', d') \<and> seen q' d' = Some (c, nat (sint offset))"
    and "seen q d = Some (c, p) \<Longrightarrow> data \<noteq> [] \<Longrightarrow> length data < 2 ^ 63 \<Longrightarrow>
      \<exists>k q' d' c'. qt_write qt data q d = (of_nat k, q', d') \<and> 0 < k \<and> k \<le> length data \<and>
        written c p (take k data) c' \<and> seen q' d' = Some (c', p + k)"
    and "seen q d = Some (c, p) \<Longrightarrow> \<exists>q' d'. qt_flush qt q d = (q', d') \<and> seen q' d' = Some (c, p) \<and> stored d' = Some c"
  using assms unfolding disk_works_def by blast+

section \<open>Writing a block\<close>

lemma take_parts: "k \<le> n \<Longrightarrow> take k (take n xs) @ take (n - k) (drop k xs) = take n xs"
  by (simp add: min_def flip: take_add)

lemma write_rest_writes:
  assumes "disk_works qt dest seen stored"
  shows "\<lbrakk>seen q d = Some (c, p); 0 \<le> sint has; 0 \<le> sint rest; sint has + sint rest < 2 ^ 63;
      nat (sint has) + nat (sint rest) \<le> length data\<rbrakk> \<Longrightarrow>
    \<exists>q' d' c'. write_rest qt data has rest q d = Some (True, q', d') \<and> seen q' d' = Some (c', p + nat (sint rest)) \<and>
      written c p (take (nat (sint rest)) (drop (nat (sint has)) data)) c'"
proof (induction "nat (sint rest)" arbitrary: has rest q d c p rule: less_induct)
  case less
  show ?case
  proof (cases "0 < sint rest")
    case False
    with less.prems(3) have "sint rest = 0" by simp
    then show ?thesis using less.prems(1) False by (subst write_rest.simps) (simp add: written_Nil)
  next
    case True
    let ?chunk = "take (nat (sint rest)) (drop (nat (sint has)) data)"
    have len: "length ?chunk = nat (sint rest)" using less.prems(5) by simp
    have small: "sint rest < 2 ^ 63" using less.prems(2,4) by linarith
    have "?chunk \<noteq> []" "length ?chunk < 2 ^ 63" using len True small by (auto simp flip: length_greater_0_conv)
    from disk_worksD(6) [OF assms less.prems(1) this]
    obtain k q1 d1 c1 where w: "qt_write qt ?chunk q d = (of_nat k, q1, d1)" "0 < k" "k \<le> nat (sint rest)"
      "written c p (take k ?chunk) c1" "seen q1 d1 = Some (c1, p + k)" unfolding len by blast
    have k: "sint (of_nat k :: u64) = int k"
      using w(3) small True by (intro sint_of_nat64) (simp add: le_nat_iff)
    have sums: "sint (has + of_nat k) = sint has + int k" "sint (rest - of_nat k) = sint rest - int k"
      using sint_sum [of has "of_nat k"] sint_diff [of "of_nat k" rest] k w(3) less.prems(2-4) by linarith+
    have rest: "nat (sint rest - int k) = nat (sint rest) - k" "nat (sint has + int k) = nat (sint has) + k"
      using w(3) less.prems(2) by (simp_all add: nat_diff_distrib' nat_add_distrib)
    have parts: "take k ?chunk @ take (nat (sint rest - int k)) (drop (nat (sint has + int k)) data) = ?chunk"
      "length (take k ?chunk) = k"
      using w(3) len take_parts [of k "nat (sint rest)" "drop (nat (sint has)) data"] by (simp_all only: rest drop_drop length_take min.absorb2 add.commute [of k])
    obtain q' d' c' where r: "write_rest qt data (has + of_nat k) (rest - of_nat k) q1 d1 = Some (True, q', d')"
      "seen q' d' = Some (c', p + k + nat (sint rest - int k))"
      "written c1 (p + k) (take (nat (sint rest - int k)) (drop (nat (sint has + int k)) data)) c'"
      using less.hyps [of "rest - of_nat k" q1 d1 c1 "p + k" "has + of_nat k"] w(2,3,5) sums less.prems True
      by (auto simp: rest le_nat_iff)
    have ne: "take k ?chunk \<noteq> []" using parts(2) w(2) by (metis less_irrefl list.size(3))
    have "written c p ?chunk c'" using written_append [OF w(4), unfolded parts(2), OF r(3) ne] by (simp only: parts(1))
    moreover have "write_rest qt data has rest q d = Some (True, q', d')"
      using True w(1) k r(1) by (subst write_rest.simps) simp
    ultimately show ?thesis using r(2) w(2,3) by (auto simp: nat_diff_distrib')
  qed
qed

text \<open>What is in the file of a task.\<close>

definition dest_holds ::
  "('q \<Rightarrow> 'd \<Rightarrow> (bytes \<times> nat) option) \<Rightarrow> ('d \<Rightarrow> bytes option) \<Rightarrow> 'q TaskPending \<Rightarrow> 'd \<Rightarrow> bytes \<Rightarrow> bool" where
  "dest_holds seen stored p d file \<longleftrightarrow>
     (case dest_file p of
        None \<Rightarrow> case_option [] (\<lambda>c. c) (stored d) = file
      | Some q \<Rightarrow> \<exists>pos. seen q d = Some (file, pos))"

lemma open_dest_file_opens:
  assumes "disk_works qt dest seen stored" "saved_path (pending_task p) = dest" "dest_holds seen stored p d file"
  shows "\<exists>q d' pos. open_dest_file qt p d = (True, q, d') \<and> seen q d' = Some (file, pos)"
proof (cases "dest_file p")
  case None
  note dw = disk_worksD [OF assms(1)]
  obtain d1 where d1: "(if qt_dir_exists qt dest d then (True, d) else qt_mkpath qt dest d) = (True, d1)" "stored d1 = stored d"
    using dw(2) [of d] by (cases "qt_dir_exists qt dest d") auto
  obtain q d' where "qt_open qt (qt_file qt dest d) d1 = (True, q, d')" "seen q d' = Some (file, 0)"
    using dw(3) [of d d1] None assms(3) d1(2) by (auto simp: dest_holds_def)
  then show ?thesis using None dw(1) assms(2) d1(1) by (simp add: open_dest_file_def)
next
  case (Some q)
  then show ?thesis using assms disk_worksD(4) [OF assms(1)] by (auto simp: dest_holds_def open_dest_file_def)
qed

lemma write_block_writes:
  assumes "disk_works qt dest seen stored" "saved_path (pending_task p) = dest" "dest_holds seen stored p d file"
    and "0 \<le> sint (brs_offset r)" "0 \<le> sint (brs_block_size r)" "nat (sint (brs_block_size r)) \<le> length (brs_data r)"
  shows "\<exists>q d' file' pos. write_block qt r p d = Some (True, q, d') \<and> seen q d' = Some (file', pos) \<and> stored d' = Some file' \<and>
    written file (nat (sint (brs_offset r))) (take (nat (sint (brs_block_size r))) (brs_data r)) file'"
proof -
  note dw = disk_worksD [OF assms(1)]
  obtain q1 d1 pos where o: "open_dest_file qt p d = (True, q1, d1)" "seen q1 d1 = Some (file, pos)"
    using open_dest_file_opens [OF assms(1-3)] by blast
  obtain q2 d2 where k: "qt_seek qt (brs_offset r) q1 d1 = (True, q2, d2)" "seen q2 d2 = Some (file, nat (sint (brs_offset r)))"
    using dw(5) [OF o(2) assms(4)] by blast
  have size: "unat (brs_block_size r) = nat (sint (brs_block_size r))"
    using unat_nonneg [OF assms(5)] .
  obtain q3 d3 file' where w: "write_rest qt (brs_data r) 0 (brs_block_size r) q2 d2 = Some (True, q3, d3)"
    "seen q3 d3 = Some (file', nat (sint (brs_offset r)) + nat (sint (brs_block_size r)))"
    "written file (nat (sint (brs_offset r))) (take (nat (sint (brs_block_size r))) (brs_data r)) file'"
    using write_rest_writes [OF assms(1) k(2), of 0 "brs_block_size r" "brs_data r"] assms(5,6) sint_less [of "brs_block_size r"]
    by auto
  obtain q4 d4 where f: "qt_flush qt q3 d3 = (q4, d4)" "seen q4 d4 = Some (file', nat (sint (brs_offset r)) + nat (sint (brs_block_size r)))"
    "stored d4 = Some file'"
    using dw(7) [OF w(2)] by blast
  have "write_block qt r p d = Some (True, q4, d4)"
    using o(1) k(1) w(1) f(1) size assms(6) by (simp add: write_block_def)
  with f w(3) show ?thesis by blast
qed

section \<open>One response\<close>

text \<open>The blocks and tasks after the response to a block.\<close>

definition blocks_after :: "u64 \<Rightarrow> u64 \<Rightarrow> BlockEntity list \<Rightarrow> BlockEntity list" where
  "blocks_after now i bs =
     map (\<lambda>b. if block_id b = i then kept_block (b\<lparr>block_state := Block_Completed, block_end_time := now\<rparr>) else b) bs"

definition tasks_after :: "u64 \<Rightarrow> u64 \<Rightarrow> TaskEntity list \<Rightarrow> TaskEntity list" where
  "tasks_after now i ts =
     map (\<lambda>t. if task_id t = i then kept_task (t\<lparr>task_end_time := now, task_state := Task_Completed\<rparr>) else t) ts"

definition waiting_ids :: "u64 \<Rightarrow> BlockEntity list \<Rightarrow> u64 set" where
  "waiting_ids i bs = block_id ` {b \<in> set bs. block_task_id b = i \<and> block_state b = Block_Waiting}"

lemma update_found:
  assumes "distinct (map key xs)" "x \<in> set xs" "key (f x) = key x"
  shows "map (\<lambda>c. if key c = key (f x) then g (f x) else c) xs = map (\<lambda>c. if key c = key x then g (f c) else c) xs"
  using assms by (auto simp: distinct_map dest: inj_onD)

lemma find_Some_in: "find P xs = Some x \<Longrightarrow> x \<in> set xs \<and> P x"
  by (induction xs) (auto split: if_splits)

lemma find_id:
  assumes "distinct (map key xs)" "x \<in> set xs"
  shows "find (\<lambda>y. key y = key x) xs = Some x"
  using assms by (induction xs) (auto simp: image_iff)

lemma few_blocks:
  assumes "distinct (map block_id bs)" "b \<in> set bs" "\<not> P b"
  shows "(of_nat (length (filter P bs)) :: u64) = 0 \<longleftrightarrow> filter P bs = []"
proof -
  have "length (filter P bs) < length bs" by (rule length_filter_less [of b]) (use assms(2,3) in auto)
  also have "length bs = card (block_id ` set bs)" using distinct_card [OF assms(1)] by simp
  also have "\<dots> \<le> card (UNIV :: u64 set)" by (rule card_mono) simp_all
  finally have "length (filter P bs) < 2 ^ 64" by (simp add: card_word)
  then have "unat (of_nat (length (filter P bs)) :: u64) = length (filter P bs)" by (intro unat_of_nat_small) simp
  moreover have "(of_nat (length (filter P bs)) :: u64) = 0 \<longleftrightarrow> unat (of_nat (length (filter P bs)) :: u64) = 0"
    by (rule unat_eq_zero [symmetric])
  ultimately show ?thesis by (simp only: length_0_conv)
qed

context task_store
begin

lemma task_completes:
  assumes "holds s bs ts"
  shows "\<exists>s'. complete_task ops now i s = Some s' \<and> holds s' bs (tasks_after now i ts)"
proof -
  obtain s1 where s1: "op_task_by_id ops i s = Some (find (\<lambda>t. task_id t = i) ts, s1)" "holds s1 bs ts"
    using task_by_id [OF assms] by blast
  show ?thesis
  proof (cases "find (\<lambda>t. task_id t = i) ts")
    case None
    then have "tasks_after now i ts = ts" unfolding tasks_after_def find_None_iff by (auto intro: map_idI)
    then show ?thesis using None s1 by (simp add: complete_task_def)
  next
    case (Some t)
    let ?f = "\<lambda>t. t\<lparr>task_end_time := now, task_state := Task_Completed\<rparr>"
    have t: "t \<in> set ts" "task_id t = i" using find_Some_in [OF Some] by auto
    have "task_valid (?f t)" using held [OF assms] t(1) by (auto simp: list_all_iff task_valid_def)
    from task_update [OF s1(2) this] obtain s2 where s2: "op_task_update ops (?f t) s1 = Some (True, s2)"
      "holds s2 bs (map (\<lambda>u. if task_id u = task_id (?f t) then kept_task (?f t) else u) ts)" by blast
    have "map (\<lambda>u. if task_id u = task_id (?f t) then kept_task (?f t) else u) ts = tasks_after now i ts"
      using update_found [of task_id ts t ?f kept_task] held [OF assms] t by (simp add: tasks_after_def)
    with s2 Some s1(1) show ?thesis by (simp add: complete_task_def)
  qed
qed

text \<open>A response of the right size to a block of the store, on a disk that works.\<close>

lemma response_written:
  assumes "holds (m_services s) bs ts" "disk_works qt dest seen stored"
    and "m_task_pending_map s (brs_task_id r) = Some p" "saved_path (pending_task p) = dest"
    and "dest_holds seen stored p (m_disk s) file" "b \<in> set bs" "block_id b = brs_block_id r"
    and "0 \<le> sint (brs_offset r)" "0 \<le> sint (brs_block_size r)" "nat (sint (brs_block_size r)) \<le> length (brs_data r)"
  shows "\<exists>s' q file' pos.
    on_block_response qt ops block_now task_now r s =
      Some (if waiting_ids (task_id (pending_task p)) (blocks_after block_now (brs_block_id r) bs) = {}
            then [task_id (pending_task p)] else [], s') \<and>
    holds (m_services s') (blocks_after block_now (brs_block_id r) bs)
      (if waiting_ids (task_id (pending_task p)) (blocks_after block_now (brs_block_id r) bs) = {}
       then tasks_after task_now (task_id (pending_task p)) ts else ts) \<and>
    m_task_pending_map s' = (m_task_pending_map s)(brs_task_id r \<mapsto> p\<lparr>dest_file := Some q\<rparr>) \<and>
    seen q (m_disk s') = Some (file', pos) \<and> stored (m_disk s') = Some file' \<and>
    written file (nat (sint (brs_offset r))) (take (nat (sint (brs_block_size r))) (brs_data r)) file' \<and>
    m_block_request_transfer_queue s' = m_block_request_transfer_queue s \<and> m_view_event_hub s' = m_view_event_hub s"
proof -
  let ?i = "task_id (pending_task p)" and ?bs = "blocks_after block_now (brs_block_id r) bs"
  let ?f = "\<lambda>b. b\<lparr>block_state := Block_Completed, block_end_time := block_now\<rparr>"
  let ?P = "\<lambda>b. block_task_id b = ?i \<and> block_state b = Block_Waiting"
  note h = held [OF assms(1)]
  obtain t1 where t1: "op_block_by_id ops (brs_block_id r) (m_services s) = Some (Some b, t1)" "holds t1 bs ts"
    using block_by_id [OF assms(1), of "brs_block_id r"] find_id [of block_id bs b] h assms(6,7) by auto
  obtain q d file' pos where w: "write_block qt r p (m_disk s) = Some (True, q, d)" "seen q d = Some (file', pos)"
    "stored d = Some file'" "written file (nat (sint (brs_offset r))) (take (nat (sint (brs_block_size r))) (brs_data r)) file'"
    using write_block_writes [OF assms(2,4,5,8-10)] by blast
  have "block_valid (?f b)" by (simp add: block_valid_def)
  from block_update [OF t1(2) this] obtain t2 where t2: "op_block_update ops (?f b) t1 = Some (True, t2)"
    "holds t2 (map (\<lambda>c. if block_id c = block_id (?f b) then kept_block (?f b) else c) bs) ts" by blast
  have bs: "map (\<lambda>c. if block_id c = block_id (?f b) then kept_block (?f b) else c) bs = ?bs"
    using update_found [of block_id bs b ?f kept_block] h assms(6,7) by (simp add: blocks_after_def)
  obtain t3 where t3: "op_block_count ops ?i Block_Waiting t2 = Some (of_nat (length (filter ?P ?bs)), t3)" "holds t3 ?bs ts"
    using block_count [OF t2(2), of Block_Waiting ?i] unfolding bs by auto
  have "kept_block (?f b) \<in> set ?bs" using assms(6,7) by (force simp: blocks_after_def)
  then have "(of_nat (length (filter ?P ?bs)) :: u64) = 0 \<longleftrightarrow> filter ?P ?bs = []"
    using held [OF t3(2)] by (intro few_blocks [of ?bs "kept_block (?f b)"]) simp_all
  moreover have "filter ?P ?bs = [] \<longleftrightarrow> waiting_ids ?i ?bs = {}"
    by (simp only: waiting_ids_def filter_empty_conv image_is_empty) blast
  ultimately have none: "(of_nat (length (filter ?P ?bs)) :: u64) = 0 \<longleftrightarrow> waiting_ids ?i ?bs = {}" by simp
  obtain t4 where t4: "complete_task ops task_now ?i t3 = Some t4" "holds t4 ?bs (tasks_after task_now ?i ts)"
    using task_completes [OF t3(2)] by blast
  show ?thesis
  proof (cases "waiting_ids ?i ?bs = {}")
    case True
    then have "(of_nat (length (filter ?P ?bs)) :: u64) = 0" using none by simp
    with True w t1(1) t2(1) t3(1) t4 assms(3) show ?thesis by (auto simp: on_block_response_def Let_def)
  next
    case False
    then have "(of_nat (length (filter ?P ?bs)) :: u64) \<noteq> 0" using none by simp
    with False w t1(1) t2(1) t3 assms(3) show ?thesis by (auto simp: on_block_response_def Let_def)
  qed
qed

end

section \<open>A run\<close>

text \<open>What happens to the controller while a task runs, in the order in which it happens: the timer fires, tasks are paused
  and resumed, blocks come back.\<close>

datatype schedule_event =
    Timer_Event u64
  | Pause_Event u64 bool
  | Response_Event u64 u64 BlockResponseTransfer

fun schedule_run ::
  "('q, 'd) qt_files \<Rightarrow> 's client_ops \<Rightarrow> schedule_event list \<Rightarrow> ('s, 'q, 'd) BlockScheduleController \<Rightarrow>
   (hub_signal list \<times> u64 list \<times> ('s, 'q, 'd) BlockScheduleController) option" where
  "schedule_run qt ops [] s = Some ([], [], s)"
| "schedule_run qt ops (Timer_Event now # es) s =
     (case on_block_request now s of
        (published, s) \<Rightarrow> map_option (\<lambda>(ps, cs, s). (published @ ps, cs, s)) (schedule_run qt ops es s))"
| "schedule_run qt ops (Pause_Event i paused # es) s = schedule_run qt ops es (on_task_paused i paused s)"
| "schedule_run qt ops (Response_Event block_now task_now r # es) s =
     do {
       (completed, s) \<leftarrow> on_block_response qt ops block_now task_now r s;
       (ps, cs, s) \<leftarrow> schedule_run qt ops es s;
       Some (ps, completed @ cs, s)
     }"

fun responses :: "schedule_event list \<Rightarrow> BlockResponseTransfer list" where
  "responses [] = []"
| "responses (Response_Event _ _ r # es) = r # responses es"
| "responses (_ # es) = responses es"

text \<open>What the server answers for a block of a file.\<close>

definition answer_to :: "bytes \<Rightarrow> BlockEntity \<Rightarrow> BlockResponseTransfer" where
  "answer_to contents b =
     \<lparr>brs_block_id = block_id b, brs_file_id = block_file_id b, brs_task_id = block_task_id b, brs_offset = block_offset b,
      brs_block_size = block_size b, brs_data = read_at_offset contents (block_offset b) (nat (sint (block_size b)))\<rparr>"

text \<open>A part of a file, and the positions at which a file agrees with another.\<close>

definition part_of :: "bytes \<Rightarrow> u64 \<Rightarrow> BlockResponseTransfer \<Rightarrow> bool" where
  "part_of contents i r \<longleftrightarrow>
     brs_task_id r = i \<and> 0 \<le> sint (brs_offset r) \<and> 0 \<le> sint (brs_block_size r) \<and>
     nat (sint (brs_offset r)) + nat (sint (brs_block_size r)) \<le> length contents \<and>
     brs_data r = take (nat (sint (brs_block_size r))) (drop (nat (sint (brs_offset r))) contents)"

definition span :: "BlockResponseTransfer \<Rightarrow> nat set" where
  "span r = {nat (sint (brs_offset r))..<nat (sint (brs_offset r)) + nat (sint (brs_block_size r))}"

definition agree :: "bytes \<Rightarrow> bytes \<Rightarrow> nat set" where
  "agree contents file = {x. x < length file \<and> file ! x = contents ! x}"

lemma agree_written:
  assumes "part_of contents i r" "length file \<le> length contents"
    and "written file (nat (sint (brs_offset r))) (take (nat (sint (brs_block_size r))) (brs_data r)) file'"
  shows "length file' \<le> length contents" "agree contents file \<union> span r \<subseteq> agree contents file'"
proof -
  let ?p = "nat (sint (brs_offset r))" and ?n = "nat (sint (brs_block_size r))"
  let ?d = "take ?n (drop ?p contents)"
  have r: "?p + ?n \<le> length contents" "take ?n (brs_data r) = ?d" using assms(1) by (simp_all add: part_of_def)
  have len: "length ?d = ?n" using r(1) by simp
  have W: "written file ?p ?d file'" using assms(3) by (simp only: r(2))
  have none: "?d = [] \<longleftrightarrow> ?n = 0" using len by (metis length_0_conv)
  have w: "length file' = (if ?n = 0 then length file else max (length file) (?p + ?n))"
    using W by (simp only: written_def len none)
  have inside: "file' ! x = ?d ! (x - ?p)" if "x < length file'" "?p \<le> x" "x < ?p + ?n" for x
    using W that unfolding written_def len by blast
  have outside: "file' ! x = file ! x" if "x < length file'" "x < length file" "\<not> (?p \<le> x \<and> x < ?p + ?n)" for x
    using W that unfolding written_def len by blast
  show "length file' \<le> length contents" using w r(1) assms(2) by (simp split: if_splits)
  have d: "?d ! (x - ?p) = contents ! x" if "?p \<le> x" "x < ?p + ?n" for x
    using that r(1) by (simp add: nth_append)
  show "agree contents file \<union> span r \<subseteq> agree contents file'"
  proof
    fix x
    assume x: "x \<in> agree contents file \<union> span r"
    have "x < length file'" using x w by (auto simp: agree_def span_def split: if_splits)
    then show "x \<in> agree contents file'"
      using x inside [of x] outside [of x] d [of x] by (cases "?p \<le> x \<and> x < ?p + ?n") (auto simp: agree_def span_def)
  qed
qed

text \<open>The controller is receiving the blocks of a task: \<open>file\<close> is what is in its file.\<close>

definition receiving ::
  "('q \<Rightarrow> 'd \<Rightarrow> (bytes \<times> nat) option) \<Rightarrow> ('d \<Rightarrow> bytes option) \<Rightarrow> string \<Rightarrow> u64 \<Rightarrow>
   ('s, 'q, 'd) BlockScheduleController \<Rightarrow> bytes \<Rightarrow> bool" where
  "receiving seen stored dest i s file \<longleftrightarrow>
     (\<exists>p. m_task_pending_map s i = Some p \<and> task_id (pending_task p) = i \<and> saved_path (pending_task p) = dest \<and>
        dest_holds seen stored p (m_disk s) file)"

lemma on_block_request_keeps [simp]:
  "m_task_pending_map (snd (on_block_request now s)) = m_task_pending_map s"
  "m_disk (snd (on_block_request now s)) = m_disk s"
  "m_services (snd (on_block_request now s)) = m_services s"
  by (simp_all add: on_block_request_def Let_def split: list.split option.split prod.split)

lemma on_task_paused_keeps [simp]:
  "m_disk (on_task_paused i paused s) = m_disk s"
  "m_services (on_task_paused i paused s) = m_services s"
  by (simp_all add: on_task_paused_def split: option.split)

lemma dest_holds_paused [simp]: "dest_holds seen stored (p\<lparr>is_paused := paused\<rparr>) d file = dest_holds seen stored p d file"
  by (simp add: dest_holds_def)

lemma receiving_paused: "receiving seen stored dest i s file \<Longrightarrow> receiving seen stored dest i (on_task_paused j paused s) file"
  by (cases "m_task_pending_map s j") (auto simp: receiving_def on_task_paused_def)

lemma receiving_timer: "receiving seen stored dest i s file \<Longrightarrow> receiving seen stored dest i (snd (on_block_request now s)) file"
  by (simp add: receiving_def)

lemma ids_after [simp]: "block_id ` set (blocks_after now j bs) = block_id ` set bs"
proof -
  have "block_id (if block_id b = j then kept_block (b\<lparr>block_state := Block_Completed, block_end_time := now\<rparr>) else b) = block_id b" for b
    by simp
  then show ?thesis unfolding blocks_after_def set_map image_image by (rule image_cong [OF refl])
qed

lemma in_waiting: "x \<in> waiting_ids i bs \<longleftrightarrow> (\<exists>b \<in> set bs. block_id b = x \<and> block_task_id b = i \<and> block_state b = Block_Waiting)"
  by (auto simp: waiting_ids_def)

lemma waiting_after: "waiting_ids i (blocks_after now j bs) = waiting_ids i bs - {j}"
  by (rule set_eqI) (auto simp: in_waiting blocks_after_def split: if_splits)

text \<open>What became of a block: it was completed, if it is one of these.\<close>

definition settled :: "u64 set \<Rightarrow> BlockEntity \<Rightarrow> BlockEntity \<Rightarrow> bool" where
  "settled I b b' \<longleftrightarrow>
     (if block_id b \<in> I then \<exists>now. b' = kept_block (b\<lparr>block_state := Block_Completed, block_end_time := now\<rparr>) else b' = b)"

lemma settled_after:
  assumes "list_all2 (settled I) (blocks_after now j bs) bs'" "j \<notin> I"
  shows "list_all2 (settled (insert j I)) bs bs'"
proof -
  have "list_all2 (\<lambda>b. settled I (if block_id b = j then kept_block (b\<lparr>block_state := Block_Completed, block_end_time := now\<rparr>) else b)) bs bs'"
    using assms(1) by (simp only: blocks_after_def list_all2_map1)
  then show ?thesis
    by (rule list_all2_mono) (use assms(2) in \<open>auto simp: settled_def split: if_splits\<close>)
qed

lemma settled_none: "list_all2 (settled {}) bs bs"
  by (simp add: list_all2_same settled_def)

text \<open>What has been achieved when these responses have come.\<close>

definition all_received ::
  "('q \<Rightarrow> 'd \<Rightarrow> (bytes \<times> nat) option) \<Rightarrow> ('d \<Rightarrow> bytes option) \<Rightarrow> string \<Rightarrow> bytes \<Rightarrow> u64 \<Rightarrow> BlockResponseTransfer list \<Rightarrow>
   ('s, 'q, 'd) BlockScheduleController \<Rightarrow> BlockEntity list \<Rightarrow> TaskEntity list \<Rightarrow> bytes \<Rightarrow>
   ('s, 'q, 'd) BlockScheduleController \<Rightarrow> BlockEntity list \<Rightarrow> TaskEntity list \<Rightarrow> bytes \<Rightarrow> bool" where
  "all_received seen stored dest contents i rs s bs ts got s' bs' ts' got' \<longleftrightarrow>
     receiving seen stored dest i s' got' \<and> length got' \<le> length contents \<and>
     (stored (m_disk s) = Some got \<or> rs \<noteq> [] \<longrightarrow> stored (m_disk s') = Some got') \<and>
     agree contents got \<union> (\<Union>r \<in> set rs. span r) \<subseteq> agree contents got' \<and>
     list_all2 (settled (brs_block_id ` set rs)) bs bs' \<and>
     (if rs = [] then ts' = ts else \<exists>now. ts' = tasks_after now i ts)"

lemma all_received_from:
  "all_received seen stored dest contents i rs s1 bs ts got s' bs' ts' got' \<Longrightarrow> m_disk s1 = m_disk s \<Longrightarrow>
   all_received seen stored dest contents i rs s bs ts got s' bs' ts' got'"
  by (simp add: all_received_def)

lemma all_received_response:
  assumes "all_received seen stored dest contents i rs s1 (blocks_after block_now (brs_block_id r) bs)
      (if rs = [] then tasks_after task_now i ts else ts) got1 s' bs' ts' got'"
    and "stored (m_disk s1) = Some got1" "agree contents got \<union> span r \<subseteq> agree contents got1" "brs_block_id r \<notin> brs_block_id ` set rs"
  shows "all_received seen stored dest contents i (r # rs) s bs ts got s' bs' ts' got'"
  using assms settled_after [of "brs_block_id ` set rs" block_now "brs_block_id r" bs bs']
  by (auto simp: all_received_def split: if_splits)

context task_store
begin

lemma run_receives:
  assumes "disk_works qt dest seen stored"
  shows "\<lbrakk>holds (m_services s) bs ts; receiving seen stored dest i s got; length got \<le> length contents;
      distinct (map brs_block_id (responses es));
      \<forall>r \<in> set (responses es). part_of contents i r \<and> brs_block_id r \<in> block_id ` set bs;
      waiting_ids i bs = brs_block_id ` set (responses es)\<rbrakk> \<Longrightarrow>
    \<exists>ps s' bs' ts' got'. schedule_run qt ops es s = Some (ps, if responses es = [] then [] else [i], s') \<and>
      holds (m_services s') bs' ts' \<and> all_received seen stored dest contents i (responses es) s bs ts got s' bs' ts' got'"
proof (induction es arbitrary: s bs ts got)
  case Nil
  then show ?case
    by (intro exI [of _ "[]"] exI [of _ s] exI [of _ bs] exI [of _ ts] exI [of _ got]) (simp add: settled_none all_received_def)
next
  case (Cons e es)
  show ?case
  proof (cases e)
    case (Timer_Event now)
    obtain published s1 where s1: "on_block_request now s = (published, s1)" by fastforce
    have same: "m_services s1 = m_services s" "m_disk s1 = m_disk s" "receiving seen stored dest i s1 got"
      using s1 receiving_timer [OF Cons.prems(2), of now] on_block_request_keeps [of now s] by simp_all
    have rs: "responses (e # es) = responses es" by (simp add: Timer_Event)
    obtain ps s' bs' ts' got' where "schedule_run qt ops es s1 = Some (ps, if responses es = [] then [] else [i], s')"
      "holds (m_services s') bs' ts'" "all_received seen stored dest contents i (responses es) s1 bs ts got s' bs' ts' got'"
      using Cons.IH [OF Cons.prems(1) [folded same(1)] same(3) Cons.prems(3-6) [unfolded rs]] by blast
    then show ?thesis
      using s1 all_received_from [OF _ same(2)]
      by (intro exI [of _ "published @ ps"] exI [of _ s'] exI [of _ bs'] exI [of _ ts'] exI [of _ got']) (simp add: Timer_Event)
  next
    case (Pause_Event j paused)
    have rs: "responses (e # es) = responses es" by (simp add: Pause_Event)
    let ?s1 = "on_task_paused j paused s"
    have s1: "holds (m_services ?s1) bs ts" "receiving seen stored dest i ?s1 got"
      using Cons.prems(1) receiving_paused [OF Cons.prems(2)] by simp_all
    from Cons.IH [OF s1 Cons.prems(3-6) [unfolded rs]] show ?thesis
      unfolding Pause_Event by (simp add: all_received_def)
  next
    case (Response_Event block_now task_now r)
    let ?bs = "blocks_after block_now (brs_block_id r) bs"
    have r: "part_of contents i r" "brs_block_id r \<in> block_id ` set bs" "brs_block_id r \<notin> brs_block_id ` set (responses es)"
      and rest: "distinct (map brs_block_id (responses es))"
        "\<forall>r \<in> set (responses es). part_of contents i r \<and> brs_block_id r \<in> block_id ` set ?bs"
      using Cons.prems(4,5) by (auto simp: Response_Event)
    have waiting: "waiting_ids i ?bs = brs_block_id ` set (responses es)"
      using Cons.prems(6) r(3) by (auto simp: Response_Event waiting_after)
    have empty: "waiting_ids i ?bs = {} \<longleftrightarrow> responses es = []" by (simp add: waiting)
    obtain b where b: "b \<in> set bs" "block_id b = brs_block_id r" using r(2) by auto
    obtain p where p: "m_task_pending_map s i = Some p" "task_id (pending_task p) = i" "saved_path (pending_task p) = dest"
      "dest_holds seen stored p (m_disk s) got" using Cons.prems(2) by (auto simp: receiving_def)
    have part: "brs_task_id r = i" "0 \<le> sint (brs_offset r)" "0 \<le> sint (brs_block_size r)"
      "nat (sint (brs_block_size r)) \<le> length (brs_data r)" using r(1) by (auto simp: part_of_def)
    have "m_task_pending_map s (brs_task_id r) = Some p" using p(1) part(1) by simp
    from response_written [OF Cons.prems(1) assms this p(3,4) b part(2-4), of block_now task_now]
    obtain s1 q got1 pos where s1: "on_block_response qt ops block_now task_now r s = Some (if responses es = [] then [i] else [], s1)"
      "holds (m_services s1) ?bs (if responses es = [] then tasks_after task_now i ts else ts)"
      "m_task_pending_map s1 = (m_task_pending_map s)(i \<mapsto> p\<lparr>dest_file := Some q\<rparr>)"
      "seen q (m_disk s1) = Some (got1, pos)" "stored (m_disk s1) = Some got1"
      "written got (nat (sint (brs_offset r))) (take (nat (sint (brs_block_size r))) (brs_data r)) got1"
      unfolding p(2) part(1) empty by blast
    note agree = agree_written [OF r(1) Cons.prems(3) s1(6)]
    have receiving: "receiving seen stored dest i s1 got1"
      using p(2,3) s1(3,4) by (auto simp: receiving_def dest_holds_def)
    obtain ps s' bs' ts' got' where run: "schedule_run qt ops es s1 = Some (ps, if responses es = [] then [] else [i], s')"
      "holds (m_services s') bs' ts'" "all_received seen stored dest contents i (responses es) s1 ?bs
        (if responses es = [] then tasks_after task_now i ts else ts) got1 s' bs' ts' got'"
      using Cons.IH [OF s1(2) receiving agree(1) rest waiting] by blast
    have "schedule_run qt ops (e # es) s = Some (ps, [i], s')" using s1(1) run(1) by (simp add: Response_Event)
    with run(2) all_received_response [OF run(3) s1(5) agree(2) r(3)] show ?thesis
      by (intro exI [of _ ps] exI [of _ s'] exI [of _ bs'] exI [of _ ts'] exI [of _ got']) (simp add: Response_Event)
  qed
qed

end

end
