(* ===== verification/Block_Results.thy ===== *)
theory Block_Results
  imports Block_Download
begin

text \<open>
  What the scheduling of blocks gives for the services of the client: requests are published, a response that cannot be
  written marks its block, a download ends with the file of the server, and a block that failed is forgotten.
\<close>

section \<open>Cuts and answers\<close>

lemma cuts_inside:
  assumes "(offset, n) \<in> set (cuts 0 len bytes)" "bytes > 0"
  shows "0 \<le> offset" "0 < n" "offset + n \<le> len"
proof -
  from assms(1) obtain k where k: "k < cut_count len bytes" "offset = int k * bytes" "n = min bytes (len - int k * bytes)"
    by (auto simp: cuts_def)
  have "int k + 1 \<le> (len + bytes - 1) div bytes" using k(1) by (simp add: cut_count_def zless_nat_eq_int_zless)
  then have "(int k + 1) * bytes \<le> (len + bytes - 1) div bytes * bytes" using assms(2) by (intro mult_right_mono) simp_all
  also have "\<dots> \<le> len + bytes - 1"
    using div_mult_mod_eq [of "len + bytes - 1" bytes] pos_mod_sign [OF assms(2), of "len + bytes - 1"] by linarith
  finally have "(int k + 1) * bytes \<le> len + bytes - 1" .
  then have "int k * bytes < len" by (simp add: distrib_right)
  with k assms(2) show "0 \<le> offset" "0 < n" "offset + n \<le> len" by auto
qed

lemma answer_part:
  assumes "block_task_id b = i" "0 \<le> sint (block_offset b)" "0 \<le> sint (block_size b)"
    and "sint (block_offset b) + sint (block_size b) \<le> int (length contents)"
  shows "part_of contents i (answer_to contents b)"
proof -
  have "nat (sint (block_offset b)) + nat (sint (block_size b)) \<le> length contents" using assms(2-4) by linarith
  with assms show ?thesis by (simp add: part_of_def answer_to_def read_at_offset_def Let_def)
qed

lemma answer_to_sel [simp]:
  "brs_block_id (answer_to contents b) = block_id b" "span (answer_to contents b) =
    {nat (sint (block_offset b))..<nat (sint (block_offset b)) + nat (sint (block_size b))}"
  by (simp_all add: answer_to_def span_def)

text \<open>The answers for the blocks of a file are parts of it and cover it.\<close>

lemma answers_cover:
  assumes "blocks_for f i (cuts 0 (int (length contents)) (sint bytes)) new" "0 < sint bytes"
  shows "b \<in> set new \<Longrightarrow> part_of contents i (answer_to contents b)"
    and "{..<length contents} \<subseteq> (\<Union>b \<in> set new. span (answer_to contents b))"
proof -
  let ?cs = "cuts 0 (int (length contents)) (sint bytes)"
  have map: "map (\<lambda>b. (sint (block_offset b), sint (block_size b))) new = ?cs"
    and task: "list_all (\<lambda>b. block_task_id b = i) new"
    using assms(1) by (auto simp: blocks_for_def list_all_iff)
  show "part_of contents i (answer_to contents b)" if "b \<in> set new" for b
  proof -
    have "(sint (block_offset b), sint (block_size b)) \<in> set ?cs" using that by (force simp flip: map)
    from cuts_inside [OF this assms(2)] show ?thesis using that task by (intro answer_part) (auto simp: list_all_iff)
  qed
  show "{..<length contents} \<subseteq> (\<Union>b \<in> set new. span (answer_to contents b))"
  proof
    fix x
    assume x: "x \<in> {..<length contents}"
    obtain k where k: "k < length ?cs" "fst (?cs ! k) \<le> int x" "int x < fst (?cs ! k) + snd (?cs ! k)"
      using cuts_cover [OF assms(2), of "int x" "int (length contents)"] x by auto
    have "?cs ! k = (sint (block_offset (new ! k)), sint (block_size (new ! k)))" "k < length new"
      using k(1) by (simp_all flip: map)
    moreover have "0 \<le> fst (?cs ! k)" "0 < snd (?cs ! k)"
      using cuts_inside [OF _ assms(2), of "fst (?cs ! k)" "snd (?cs ! k)" "int (length contents)"] k(1) by simp_all
    ultimately have "x \<in> span (answer_to contents (new ! k))" using k(2,3) by (auto simp: nat_add_distrib nat_le_iff)
    with \<open>k < length new\<close> show "x \<in> (\<Union>b \<in> set new. span (answer_to contents b))" by auto
  qed
qed

lemma agree_everywhere:
  assumes "length file \<le> length contents" "{..<length contents} \<subseteq> agree contents file"
  shows "file = contents"
proof -
  have "length contents \<le> length file"
  proof (cases "length contents")
    case (Suc n)
    then have "n \<in> agree contents file" using assms(2) by auto
    then show ?thesis using Suc by (simp add: agree_def)
  qed simp
  with assms show ?thesis by (intro nth_equalityI) (auto simp: agree_def subset_iff)
qed

section \<open>A download\<close>

lemma settled_done:
  assumes "list_all2 (settled (block_id ` set new)) (bs @ new) bs'" "distinct (map block_id (bs @ new))"
  shows "\<exists>finished. bs' = bs @ finished \<and>
    list_all2 (\<lambda>b b'. \<exists>now. b' = kept_block (b\<lparr>block_state := Block_Completed, block_end_time := now\<rparr>)) new finished"
proof -
  obtain xs finished where parts: "bs' = xs @ finished" "list_all2 (settled (block_id ` set new)) bs xs"
    "list_all2 (settled (block_id ` set new)) new finished"
    using assms(1) by (auto simp: list_all2_append1)
  have "\<forall>b \<in> set bs. block_id b \<notin> block_id ` set new" using assms(2) by auto
  then have "list_all2 (=) bs xs"
    using parts(2) by (intro list.rel_mono_strong [OF parts(2)]) (auto simp: settled_def)
  moreover have "list_all2 (\<lambda>b b'. \<exists>now. b' = kept_block (b\<lparr>block_state := Block_Completed, block_end_time := now\<rparr>)) new finished"
    using parts(3) by (rule list.rel_mono_strong) (auto simp: settled_def)
  ultimately show ?thesis using parts(1) by (simp add: list.rel_eq)
qed

context task_store
begin

text \<open>A new task is entered with a request for each of its blocks.\<close>

lemma task_enqueued:
  assumes "holds (m_services s) bs ts" "m_task_pending_map s (task_id task) = None"
  shows "\<exists>t xs. op_blocks_of_task ops (task_id task) (m_services s) = Some (xs, t) \<and> holds t bs ts \<and>
    mset xs = mset (filter (\<lambda>b. block_task_id b = task_id task) bs) \<and>
    on_task_enqueue qt ops source endpoint task s = Some (s\<lparr>m_services := t,
      m_task_pending_map := (m_task_pending_map s)(task_id task \<mapsto>
        \<lparr>is_paused = False, event_source = source, pending_endpoint = endpoint, pending_task = task, dest_file = None\<rparr>),
      m_block_request_transfer_queue := m_block_request_transfer_queue s @ map block_request_of xs\<rparr>)"
  using blocks_of_task [OF assms(1), of "task_id task"] assms(2)
  by (auto simp: on_task_enqueue_def drop_pending_def)

lemma task_downloaded:
  assumes "holds (m_services s) (bs @ new) ts" "disk_works qt dest seen stored"
    and "receiving seen stored dest i s got" "length got \<le> length contents" "contents \<noteq> []"
    and "blocks_for f i (cuts 0 (int (length contents)) (sint bytes)) new" "0 < sint bytes"
    and "\<forall>b \<in> set bs. block_task_id b \<noteq> i" "mset (responses es) = mset (map (answer_to contents) new)"
  shows "\<exists>ps s' finished now. schedule_run qt ops es s = Some (ps, [i], s') \<and> stored (m_disk s') = Some contents \<and>
    holds (m_services s') (bs @ finished) (tasks_after now i ts) \<and>
    list_all2 (\<lambda>b b'. \<exists>now. b' = kept_block (b\<lparr>block_state := Block_Completed, block_end_time := now\<rparr>)) new finished"
proof -
  note cover = answers_cover [OF assms(6,7)]
  have set: "set (responses es) = answer_to contents ` set new"
    using assms(9) by (metis set_map set_mset_mset)
  have ids: "brs_block_id ` set (responses es) = block_id ` set new" by (simp add: set image_image)
  have dist: "distinct (map block_id (bs @ new))" using held [OF assms(1)] by blast
  have "mset (map brs_block_id (responses es)) = image_mset brs_block_id (mset (map (answer_to contents) new))"
    by (simp only: mset_map assms(9))
  also have "\<dots> = mset (map block_id new)" by (simp add: comp_def flip: mset_map)
  finally have "mset (map brs_block_id (responses es)) = mset (map block_id new)" .
  then have "distinct (map brs_block_id (responses es))" using dist by (metis distinct_append map_append mset_eq_imp_distinct_iff)
  moreover have "\<forall>r \<in> set (responses es). part_of contents i r \<and> brs_block_id r \<in> block_id ` set (bs @ new)"
    using cover(1) by (auto simp: set)
  moreover have "waiting_ids i (bs @ new) = brs_block_id ` set (responses es)"
    using assms(6,8) unfolding ids by (auto simp: waiting_ids_def blocks_for_def list_all_iff)
  ultimately obtain ps s' bs' ts' got' where run: "schedule_run qt ops es s = Some (ps, if responses es = [] then [] else [i], s')"
    "holds (m_services s') bs' ts'" "all_received seen stored dest contents i (responses es) s (bs @ new) ts got s' bs' ts' got'"
    using run_receives [OF assms(2,1,3,4)] by blast
  have "new \<noteq> []" using cover(2) assms(5) by auto
  then have some: "responses es \<noteq> []" using set by auto
  have "{..<length contents} \<subseteq> agree contents got'" "length got' \<le> length contents"
    using run(3) cover(2) by (auto simp: all_received_def set)
  then have "got' = contents" by (intro agree_everywhere)
  then have "stored (m_disk s') = Some contents" using run(3) some by (simp add: all_received_def)
  moreover obtain finished where "bs' = bs @ finished"
    "list_all2 (\<lambda>b b'. \<exists>now. b' = kept_block (b\<lparr>block_state := Block_Completed, block_end_time := now\<rparr>)) new finished"
    using settled_done [OF _ dist] run(3) unfolding all_received_def ids by blast
  moreover obtain now where "ts' = tasks_after now i ts" using run(3) some by (auto simp: all_received_def)
  ultimately show ?thesis using run(1,2) some by auto
qed

end

text \<open>C1: A download. A file of the server is entered into the services of the client with a positive size of blocks, and
  its task is enqueued: a request for each of the blocks comes into the queue. Whatever happens then (the timer, pauses
  of tasks), when the answers of the server for these blocks come back, in any order, on a disk that works, the task is
  completed, once, the saved file is the file of the server, and the blocks of the task are completed. The saved file can be
  opened, what is there of an older one is not longer than the new one, and the answers carry the bytes of each block, also when
  it has one byte (which the codec would lose).\<close>

theorem download_completes:
  assumes "client_holds lib view parses names run junk task_junk (m_services s) bs ts"
    and "disk_works qt (saved_path task) seen stored" "length (case_option [] (\<lambda>c. c) (stored (m_disk s))) \<le> length contents"
    and "sint (client_file_size f) = int (length contents)" "contents \<noteq> []" "0 < sint bytes"
    and "next_id bs + int (cut_count (int (length contents)) (sint bytes)) \<le> 2 ^ 63"
    and "\<forall>b \<in> set bs. block_task_id b \<noteq> task_id task" "m_task_pending_map s (task_id task) = None"
  shows "\<exists>t s1 new. block_service_add_file lib junk f (task_id task) bytes (m_services s) = Some (True, t) \<and>
    on_task_enqueue qt (client_ops lib junk task_junk) source endpoint task (s\<lparr>m_services := t\<rparr>) = Some s1 \<and>
    length new = cut_count (int (length contents)) (sint bytes) \<and>
    mset (m_block_request_transfer_queue s1) = mset (m_block_request_transfer_queue s) + mset (map block_request_of new) \<and>
    (\<forall>es. mset (responses es) = mset (map (answer_to contents) new) \<longrightarrow>
      (\<exists>ps s' finished now. schedule_run qt (client_ops lib junk task_junk) es s1 = Some (ps, [task_id task], s') \<and>
        stored (m_disk s') = Some contents \<and>
        client_holds lib view parses names run junk task_junk (m_services s') (bs @ finished) (tasks_after now (task_id task) ts) \<and>
        list_all2 (\<lambda>b b'. \<exists>now. b' = kept_block (b\<lparr>block_state := Block_Completed, block_end_time := now\<rparr>)) new finished))"
proof -
  let ?cs = "cuts 0 (int (length contents)) (sint bytes)" and ?i = "task_id task"
  obtain t new where new: "block_service_add_file lib junk f ?i bytes (m_services s) = Some (True, t)"
    "client_holds lib view parses names run junk task_junk t (bs @ new) ts" "blocks_for f ?i ?cs new"
    using client.add_blocks_cuts [OF assms(6,1), of 0 f junk ?i] assms(4,7)
    by (auto simp: block_service_add_file_def cuts_def)
  let ?s = "s\<lparr>m_services := t\<rparr>"
  have s: "client_holds lib view parses names run junk task_junk (m_services ?s) (bs @ new) ts"
    "m_task_pending_map ?s ?i = None" using new(2) assms(9) by simp_all
  have mine: "filter (\<lambda>b. block_task_id b = ?i) (bs @ new) = new"
    using new(3) assms(8) by (auto simp: blocks_for_def list_all_iff filter_id_conv filter_empty_conv)
  obtain t1 xs
    where t1: "client_holds lib view parses names run junk task_junk t1 (bs @ new) ts" "mset xs = mset new"
    and e: "on_task_enqueue qt (client_ops lib junk task_junk) source endpoint task ?s = Some (?s\<lparr>m_services := t1,
      m_task_pending_map := (m_task_pending_map ?s)(?i \<mapsto>
        \<lparr>is_paused = False, event_source = source, pending_endpoint = endpoint, pending_task = task, dest_file = None\<rparr>),
      m_block_request_transfer_queue := m_block_request_transfer_queue ?s @ map block_request_of xs\<rparr>)" (is "_ = Some ?s1")
    using client.task_enqueued [OF s, of qt source endpoint] unfolding mine by blast
  have len: "length new = cut_count (int (length contents)) (sint bytes)"
    using new(3) by (auto simp: blocks_for_def cuts_def dest: arg_cong [where f = length])
  have queue: "mset (m_block_request_transfer_queue ?s1) = mset (m_block_request_transfer_queue s) + mset (map block_request_of new)"
    using t1(2) by simp
  have run: "\<exists>ps s' finished now. schedule_run qt (client_ops lib junk task_junk) es ?s1 = Some (ps, [?i], s') \<and>
      stored (m_disk s') = Some contents \<and>
      client_holds lib view parses names run junk task_junk (m_services s') (bs @ finished) (tasks_after now ?i ts) \<and>
      list_all2 (\<lambda>b b'. \<exists>now. b' = kept_block (b\<lparr>block_state := Block_Completed, block_end_time := now\<rparr>)) new finished"
    if "mset (responses es) = mset (map (answer_to contents) new)" for es
  proof (rule client.task_downloaded [OF _ assms(2) _ assms(3,5) new(3) assms(6,8) that])
    show "client_holds lib view parses names run junk task_junk (m_services ?s1) (bs @ new) ts" using t1(1) by simp
    show "receiving seen stored (saved_path task) ?i ?s1 (case_option [] (\<lambda>c. c) (stored (m_disk s)))"
      by (simp add: receiving_def dest_holds_def)
  qed
  show ?thesis using new(1) e len queue run by blast
qed

section \<open>A disk\<close>

text \<open>A file of Qt is a position when it is open, and the disk is one file; at most two bytes are written at once.\<close>

definition demo_files :: "(nat option, bytes option) qt_files" where
  "demo_files =
     \<lparr>qt_file = (\<lambda>path d. None), qt_is_open = (\<lambda>q. q \<noteq> None), qt_dir_exists = (\<lambda>path d. True), qt_mkpath = (\<lambda>path d. (True, d)),
      qt_open = (\<lambda>q d. (True, Some 0, Some (case_option [] (\<lambda>c. c) d))),
      qt_seek = (\<lambda>offset q d. (True, Some (nat (sint offset)), d)),
      qt_write = (\<lambda>data q d.
        case (q, d) of
          (Some p, Some c) \<Rightarrow>
            (of_nat (length (take 2 data)), Some (p + length (take 2 data)),
             Some (take p c @ replicate (p - length c) 0 @ take 2 data @ drop (p + length (take 2 data)) c))
        | _ \<Rightarrow> (- 1, q, d)),
      qt_flush = (\<lambda>q d. (q, d)), qt_destroy = (\<lambda>q d. d)\<rparr>"

definition demo_seen :: "nat option \<Rightarrow> bytes option \<Rightarrow> (bytes \<times> nat) option" where
  "demo_seen q d = (case (q, d) of (Some p, Some c) \<Rightarrow> Some (c, p) | _ \<Rightarrow> None)"

lemma written_over:
  assumes "data \<noteq> []"
  shows "written c p data (take p c @ replicate (p - length c) 0 @ data @ drop (p + length data) c)" (is "written _ _ _ ?new")
proof -
  have "length ?new = max (length c) (p + length data)" by simp
  moreover have "?new ! i = data ! (i - p)" if "p \<le> i" "i < p + length data" for i
    using that by (auto simp: nth_append min_def)
  moreover have "?new ! i = c ! i" if "i < length c" "\<not> (p \<le> i \<and> i < p + length data)" for i
    using that by (auto simp: nth_append min_def)
  ultimately show ?thesis using assms by (simp add: written_def)
qed

lemma demo_disk_works: "disk_works demo_files dest demo_seen (\<lambda>d. d)"
  unfolding disk_works_def
proof (intro conjI allI impI)
  fix q d c p and data :: bytes
  assume "demo_seen q d = Some (c, p)" "data \<noteq> [] \<and> length data < 2 ^ 63"
  then show "\<exists>k q' d' c'. qt_write demo_files data q d = (of_nat k, q', d') \<and> 0 < k \<and> k \<le> length data \<and>
      written c p (take k data) c' \<and> demo_seen q' d' = Some (c', p + k)"
    using written_over [of "take 2 data" c p]
    by (intro exI [of _ "length (take 2 data)"]) (auto simp: demo_seen_def demo_files_def min_def split: option.splits prod.splits)
qed (auto simp: demo_seen_def demo_files_def split: option.splits)

section \<open>A controller\<close>

definition demo_task :: TaskEntity where
  "demo_task = (new_task Task_Waiting)\<lparr>task_id := 3, task_file_id := 7, saved_path := ''saved''\<rparr>"

definition demo_source :: EventContext where "demo_source = \<lparr>m_object_name = ''dialog''\<rparr>"

definition demo_endpoint :: NetworkEndpoint where "demo_endpoint = \<lparr>ip = ''127.0.0.1'', port = 8080\<rparr>"

definition demo_schedule :: "(engine client_store, nat option, bytes option) BlockScheduleController" where
  "demo_schedule =
     \<lparr>m_is_init = True, m_block_request_timer = Some 30, m_block_response_connected = True, m_block_request_transfer_queue = [],
      m_task_pending_map = Map.empty, m_services = demo_store, m_disk = None, m_view_event_hub = \<lparr>m_event_id_counter = 0\<rparr>\<rparr>"

abbreviation "demo_ops \<equiv> client_ops (engine_lib client_templates) demo_block Task_Unknown"

lemma responses_map [simp]: "responses (map (\<lambda>b. Response_Event block_now task_now (g b)) bs) = map g bs"
  by (induction bs) simp_all

theorem download_completes_witness:
  "\<exists>t s1 (new :: BlockEntity list) ps s'.
     block_service_add_file (engine_lib client_templates) demo_block demo_file 3 2 demo_store = Some (True, t) \<and>
     on_task_enqueue demo_files demo_ops demo_source demo_endpoint demo_task (demo_schedule\<lparr>m_services := t\<rparr>) = Some s1 \<and>
     length new = 3 \<and> length (m_block_request_transfer_queue s1) = 3 \<and>
     schedule_run demo_files demo_ops
       (map (\<lambda>b. Response_Event 0 0 (answer_to [10, 20, 30, 40, 50] b)) (rev new) @ [Timer_Event 0]) s1 = Some (ps, [3], s') \<and>
     m_disk s' = Some [10, 20, 30, 40, 50]"
proof -
  let ?c = "[10, 20, 30, 40, 50] :: bytes"
  have h: "client_holds (engine_lib client_templates) engine_view (engine_parses client_templates) (engine_names client_templates)
     (engine_run client_templates) demo_block Task_Unknown (m_services demo_schedule) [] []"
    using demo_holds by (simp add: demo_schedule_def)
  have k: "length (case_option [] (\<lambda>c. c) (m_disk demo_schedule)) \<le> length ?c"
    "sint (client_file_size demo_file) = int (length ?c)" "?c \<noteq> []" "0 < sint (2 :: u64)"
    "next_id [] + int (cut_count (int (length ?c)) (sint (2 :: u64))) \<le> 2 ^ 63"
    "\<forall>b \<in> set []. block_task_id b \<noteq> task_id demo_task" "m_task_pending_map demo_schedule (task_id demo_task) = None"
    by (simp_all add: demo_schedule_def demo_file_def next_id_def cut_count_def)
  have n: "cut_count (int (length ?c)) (sint (2 :: u64)) = 3" by (simp add: cut_count_def)
  have ids: "task_id demo_task = 3" "m_services demo_schedule = demo_store" "m_block_request_transfer_queue demo_schedule = []"
    by (simp_all add: demo_task_def demo_schedule_def)
  obtain t s1 and new :: "BlockEntity list" where d:
    "block_service_add_file (engine_lib client_templates) demo_block demo_file 3 2 demo_store = Some (True, t)"
    "on_task_enqueue demo_files demo_ops demo_source demo_endpoint demo_task (demo_schedule\<lparr>m_services := t\<rparr>) = Some s1"
    "length new = 3" "mset (m_block_request_transfer_queue s1) = mset [] + mset (map block_request_of new)"
    "\<forall>es. mset (responses es) = mset (map (answer_to ?c) new) \<longrightarrow>
      (\<exists>ps s' finished now. schedule_run demo_files demo_ops es s1 = Some (ps, [3], s') \<and> m_disk s' = Some ?c)"
    using download_completes [OF h demo_disk_works k, of demo_source demo_endpoint, unfolded n ids] by blast
  have responses_timer: "responses (xs @ [Timer_Event 0]) = responses xs" for xs by (induction xs rule: responses.induct) simp_all
  let ?es = "map (\<lambda>b. Response_Event 0 0 (answer_to ?c b)) (rev new) @ [Timer_Event 0]"
  have "mset (responses ?es) = mset (map (answer_to ?c) new)" by (simp add: responses_timer)
  then obtain ps s' where "schedule_run demo_files demo_ops ?es s1 = Some (ps, [3], s')" "m_disk s' = Some ?c"
    using d(5) by blast
  moreover have "length (m_block_request_transfer_queue s1) = 3" using arg_cong [OF d(4), of size] d(3) by simp
  ultimately show ?thesis using d(1-3) by blast
qed

section \<open>Requests\<close>

text \<open>C5: When all tasks of the queue are pending and none is paused, as many ticks of the timer as there are requests
  publish each request once, in the order in which they were entered, for the endpoint and the source of its task, and
  the queue is empty; nothing is written.\<close>

theorem ticks_publish:
  assumes "\<forall>r \<in> set (m_block_request_transfer_queue s). \<exists>p. m_task_pending_map s (brq_task_id r) = Some p \<and> \<not> is_paused p"
    and "length nows = length (m_block_request_transfer_queue s)"
  shows "\<exists>ps s'. schedule_run qt ops (map Timer_Event nows) s = Some (ps, [], s') \<and>
    list_all2 (\<lambda>r signal. \<exists>p i now. m_task_pending_map s (brq_task_id r) = Some p \<and>
      signal = Block_Request_Event \<lparr>m_event_id = i, m_event_context = event_source p, m_event_time = now\<rparr> (pending_endpoint p) r)
      (m_block_request_transfer_queue s) ps \<and>
    m_block_request_transfer_queue s' = [] \<and> m_disk s' = m_disk s \<and> m_services s' = m_services s"
  using assms
proof (induction nows arbitrary: s)
  case Nil
  then show ?case by simp
next
  case (Cons now nows)
  then obtain r rs where q: "m_block_request_transfer_queue s = r # rs" by (cases "m_block_request_transfer_queue s") auto
  then obtain p where p: "m_task_pending_map s (brq_task_id r) = Some p" "\<not> is_paused p" using Cons.prems(1) by auto
  obtain i s1 where s1: "on_block_request now s =
      ([Block_Request_Event \<lparr>m_event_id = i, m_event_context = event_source p, m_event_time = now\<rparr> (pending_endpoint p) r], s1)"
    "m_block_request_transfer_queue s1 = rs" "m_task_pending_map s1 = m_task_pending_map s" "m_disk s1 = m_disk s" "m_services s1 = m_services s"
    using p by (simp add: on_block_request_def q publish_block_request_def make_envelope_def)
  have prems: "\<forall>r \<in> set (m_block_request_transfer_queue s1). \<exists>p. m_task_pending_map s1 (brq_task_id r) = Some p \<and> \<not> is_paused p"
    "length nows = length (m_block_request_transfer_queue s1)"
    using Cons.prems by (simp_all add: s1(2,3) q)
  obtain ps s' where rest: "schedule_run qt ops (map Timer_Event nows) s1 = Some (ps, [], s')"
    "list_all2 (\<lambda>r signal. \<exists>p i now. m_task_pending_map s (brq_task_id r) = Some p \<and>
      signal = Block_Request_Event \<lparr>m_event_id = i, m_event_context = event_source p, m_event_time = now\<rparr> (pending_endpoint p) r) rs ps"
    "m_block_request_transfer_queue s' = []" "m_disk s' = m_disk s" "m_services s' = m_services s"
    using Cons.IH [OF prems] unfolding s1(2-5) by blast
  have "schedule_run qt ops (map Timer_Event (now # nows)) s =
      Some (Block_Request_Event \<lparr>m_event_id = i, m_event_context = event_source p, m_event_time = now\<rparr> (pending_endpoint p) r # ps, [], s')"
    using s1(1) rest(1) by simp
  with rest(2-5) p(1) show ?case unfolding q by blast
qed

theorem ticks_publish_witness:
  "\<exists>ps s'. schedule_run demo_files demo_ops (map Timer_Event [5, 6])
      (demo_schedule\<lparr>m_block_request_transfer_queue := map block_request_of [demo_block\<lparr>block_task_id := 3\<rparr>, demo_block\<lparr>block_task_id := 3, block_id := 1\<rparr>],
        m_task_pending_map := [3 \<mapsto> \<lparr>is_paused = False, event_source = demo_source, pending_endpoint = demo_endpoint,
          pending_task = demo_task, dest_file = None\<rparr>]\<rparr>) = Some (ps, [], s') \<and>
    length ps = 2 \<and> m_block_request_transfer_queue s' = []"
proof -
  let ?s = "demo_schedule\<lparr>m_block_request_transfer_queue := map block_request_of [demo_block\<lparr>block_task_id := 3\<rparr>, demo_block\<lparr>block_task_id := 3, block_id := 1\<rparr>],
        m_task_pending_map := [3 \<mapsto> \<lparr>is_paused = False, event_source = demo_source, pending_endpoint = demo_endpoint,
          pending_task = demo_task, dest_file = None\<rparr>]\<rparr>"
  have a: "\<forall>r \<in> set (m_block_request_transfer_queue ?s). \<exists>p. m_task_pending_map ?s (brq_task_id r) = Some p \<and> \<not> is_paused p"
    "length [5, 6 :: u64] = length (m_block_request_transfer_queue ?s)"
    by (simp_all add: block_request_of_def)
  obtain ps s' where "schedule_run demo_files demo_ops (map Timer_Event [5, 6]) ?s = Some (ps, [], s')"
    "list_all2 (\<lambda>r signal. \<exists>p i now. m_task_pending_map ?s (brq_task_id r) = Some p \<and>
      signal = Block_Request_Event \<lparr>m_event_id = i, m_event_context = event_source p, m_event_time = now\<rparr> (pending_endpoint p) r)
      (m_block_request_transfer_queue ?s) ps" "m_block_request_transfer_queue s' = []"
    using ticks_publish [OF a] by blast
  then show ?thesis by (auto dest: list_all2_lengthD)
qed

section \<open>Responses that fail\<close>

definition failed_block :: "u64 \<Rightarrow> BlockEntity list \<Rightarrow> BlockEntity list" where
  "failed_block i bs = map (\<lambda>b. if block_id b = i then kept_block (b\<lparr>block_state := Block_Failed\<rparr>) else b) bs"

context task_store
begin

lemma response_not_written:
  assumes "holds (m_services s) bs ts" "m_task_pending_map s (brs_task_id r) = Some p" "b \<in> set bs" "block_id b = brs_block_id r"
    and "write_block qt r p (m_disk s) = Some (False, q, d)"
  shows "\<exists>s'. on_block_response qt ops block_now task_now r s = Some ([], s') \<and>
    holds (m_services s') (failed_block (brs_block_id r) bs) ts \<and> m_disk s' = d \<and>
    m_task_pending_map s' = (m_task_pending_map s)(brs_task_id r \<mapsto> p\<lparr>dest_file := Some q\<rparr>)"
proof -
  let ?f = "\<lambda>b. b\<lparr>block_state := Block_Failed\<rparr>"
  note h = held [OF assms(1)]
  obtain t1 where t1: "op_block_by_id ops (brs_block_id r) (m_services s) = Some (Some b, t1)" "holds t1 bs ts"
    using block_by_id [OF assms(1), of "brs_block_id r"] find_id [of block_id bs b] h assms(3,4) by auto
  have "block_valid (?f b)" by (simp add: block_valid_def)
  from block_update [OF t1(2) this] obtain t2 where t2: "op_block_update ops (?f b) t1 = Some (True, t2)"
    "holds t2 (map (\<lambda>c. if block_id c = block_id (?f b) then kept_block (?f b) else c) bs) ts" by blast
  have "map (\<lambda>c. if block_id c = block_id (?f b) then kept_block (?f b) else c) bs = failed_block (brs_block_id r) bs"
    using update_found [of block_id bs b ?f kept_block] h assms(3,4) by (simp add: failed_block_def)
  then show ?thesis using t1(1) t2 assms(2,5) by (simp add: on_block_response_def Let_def)
qed

end

text \<open>Too few bytes, also for a negative size: nothing is written.\<close>

lemma write_block_short:
  assumes "disk_works qt dest seen stored" "saved_path (pending_task p) = dest" "dest_holds seen stored p d got"
    and "0 \<le> sint (brs_offset r)" "length (brs_data r) < unat (brs_block_size r)"
  shows "\<exists>q d' pos. write_block qt r p d = Some (False, q, d') \<and> seen q d' = Some (got, pos)"
proof -
  obtain q1 d1 pos where o: "open_dest_file qt p d = (True, q1, d1)" "seen q1 d1 = Some (got, pos)"
    using open_dest_file_opens [OF assms(1-3)] by blast
  obtain q2 d2 where "qt_seek qt (brs_offset r) q1 d1 = (True, q2, d2)" "seen q2 d2 = Some (got, nat (sint (brs_offset r)))"
    using disk_worksD(5) [OF assms(1) o(2) assms(4)] by blast
  then show ?thesis using o(1) assms(5) by (simp add: write_block_def)
qed

text \<open>C6: A response with fewer bytes than the size that it announces, a negative size included, is not written: the block is
  marked as failed, nothing else of the services changes, no task is completed, and the file keeps what was in it.\<close>

theorem short_response_fails:
  assumes "client_holds lib view parses names run junk task_junk (m_services s) bs ts" "disk_works qt dest seen stored"
    and "receiving seen stored dest (brs_task_id r) s got" "b \<in> set bs" "block_id b = brs_block_id r"
    and "0 \<le> sint (brs_offset r)" "length (brs_data r) < unat (brs_block_size r)"
  shows "\<exists>s'. on_block_response qt (client_ops lib junk task_junk) block_now task_now r s = Some ([], s') \<and>
    client_holds lib view parses names run junk task_junk (m_services s') (failed_block (brs_block_id r) bs) ts \<and>
    receiving seen stored dest (brs_task_id r) s' got"
proof -
  obtain p where p: "m_task_pending_map s (brs_task_id r) = Some p" "task_id (pending_task p) = brs_task_id r"
    "saved_path (pending_task p) = dest" "dest_holds seen stored p (m_disk s) got"
    using assms(3) by (auto simp: receiving_def)
  obtain q d pos where w: "write_block qt r p (m_disk s) = Some (False, q, d)" "seen q d = Some (got, pos)"
    using write_block_short [OF assms(2) p(3,4) assms(6,7)] by blast
  obtain s' where s': "on_block_response qt (client_ops lib junk task_junk) block_now task_now r s = Some ([], s')"
    "client_holds lib view parses names run junk task_junk (m_services s') (failed_block (brs_block_id r) bs) ts" "m_disk s' = d"
    "m_task_pending_map s' = (m_task_pending_map s)(brs_task_id r \<mapsto> p\<lparr>dest_file := Some q\<rparr>)"
    using client.response_not_written [OF assms(1) p(1) assms(4,5) w(1)] by blast
  have "receiving seen stored dest (brs_task_id r) s' got"
    using p(2,3) w(2) s'(3,4) by (auto simp: receiving_def dest_holds_def)
  with s'(1,2) show ?thesis by blast
qed

text \<open>C7: A block that has failed is not asked for again and does not keep its task from completion: the response for the
  only block of the task that still waits completes the task, and its failed blocks stay failed.\<close>

theorem failed_block_forgotten:
  assumes "client_holds lib view parses names run junk task_junk (m_services s) bs ts" "disk_works qt dest seen stored"
    and "receiving seen stored dest i s got" "waiting_ids i bs = {brs_block_id r}" "part_of contents i r"
    and "c \<in> set bs" "block_task_id c = i" "block_state c = Block_Failed"
  shows "\<exists>s' bs'. on_block_response qt (client_ops lib junk task_junk) block_now task_now r s = Some ([i], s') \<and>
    client_holds lib view parses names run junk task_junk (m_services s') bs' (tasks_after task_now i ts) \<and>
    c \<in> set bs' \<and> m_block_request_transfer_queue s' = m_block_request_transfer_queue s"
proof -
  let ?bs = "blocks_after block_now (brs_block_id r) bs"
  obtain p where p: "m_task_pending_map s i = Some p" "task_id (pending_task p) = i" "saved_path (pending_task p) = dest"
    "dest_holds seen stored p (m_disk s) got" using assms(3) by (auto simp: receiving_def)
  have part: "brs_task_id r = i" "0 \<le> sint (brs_offset r)" "0 \<le> sint (brs_block_size r)"
    "nat (sint (brs_block_size r)) \<le> length (brs_data r)" using assms(5) by (auto simp: part_of_def)
  have "brs_block_id r \<in> waiting_ids i bs" using assms(4) by simp
  then obtain b where b: "b \<in> set bs" "block_id b = brs_block_id r" "block_state b = Block_Waiting" by (auto simp: in_waiting)
  have empty: "waiting_ids i ?bs = {}" by (simp add: waiting_after assms(4))
  have "m_task_pending_map s (brs_task_id r) = Some p" using p(1) part(1) by simp
  from client.response_written [OF assms(1,2) this p(3,4) b(1,2) part(2-4), of block_now task_now]
  obtain s' where s': "on_block_response qt (client_ops lib junk task_junk) block_now task_now r s = Some ([i], s')"
    "client_holds lib view parses names run junk task_junk (m_services s') ?bs (tasks_after task_now i ts)"
    "m_block_request_transfer_queue s' = m_block_request_transfer_queue s"
    unfolding p(2) if_P [OF empty] by blast
  have "distinct (map block_id bs)" using client_holdsD(7) [OF assms(1)] .
  then have "block_id c \<noteq> brs_block_id r" using b assms(6,8) by (force simp: distinct_map inj_on_def)
  then have "c \<in> set ?bs" using assms(6) by (force simp: blocks_after_def)
  with s' show ?thesis by blast
qed

text \<open>A store with two blocks of a task, one of them in any state, and a controller that receives them.\<close>

definition two_blocks :: "BlockState \<Rightarrow> BlockEntity list" where
  "two_blocks state =
     [demo_block\<lparr>block_id := 1, block_task_id := 3, block_size := 2, block_state := state, block_start_time := kept_time 0,
        block_end_time := kept_time 0\<rparr>,
      demo_block\<lparr>block_id := 2, block_task_id := 3, block_offset := 2, block_size := 2, block_state := Block_Waiting,
        block_start_time := kept_time 0, block_end_time := kept_time 0\<rparr>]"

definition demo_receiving :: "engine client_store \<Rightarrow> (engine client_store, nat option, bytes option) BlockScheduleController" where
  "demo_receiving t =
     demo_schedule\<lparr>m_services := t, m_task_pending_map := [3 \<mapsto>
       \<lparr>is_paused = False, event_source = demo_source, pending_endpoint = demo_endpoint, pending_task = demo_task, dest_file = None\<rparr>]\<rparr>"

definition demo_response :: "bytes \<Rightarrow> BlockResponseTransfer" where
  "demo_response data =
     \<lparr>brs_block_id = 2, brs_file_id = 0, brs_task_id = 3, brs_offset = 2, brs_block_size = 2, brs_data = data\<rparr>"

abbreviation "demo_client_holds \<equiv>
  client_holds (engine_lib client_templates) engine_view (engine_parses client_templates) (engine_names client_templates)
    (engine_run client_templates) demo_block Task_Unknown"

lemma two_blocks_held: "BlockState_valid state \<Longrightarrow> \<exists>t. demo_client_holds t (two_blocks state) []"
proof -
  assume state: "BlockState_valid state"
  let ?b = "demo_block\<lparr>block_task_id := 3, block_size := 2, block_state := state\<rparr>"
  let ?c = "demo_block\<lparr>block_task_id := 3, block_offset := 2, block_size := 2, block_state := Block_Waiting\<rparr>"
  let ?e = "kept_block (?b\<lparr>block_id := word_of_int (next_id [])\<rparr>)"
  have ids: "next_id [] = 1" "next_id [?e] = 2" by (simp_all add: next_id_def)
  have valid: "block_valid ?b" "block_valid ?c" using state by (simp_all add: block_valid_def)
  have small: "next_id [] < 2 ^ 63" "next_id [?e] < 2 ^ 63"
    by (rule ord_eq_less_trans [OF ids(1)], simp) (rule ord_eq_less_trans [OF ids(2)], simp)
  obtain t1 where t1: "demo_client_holds t1 ([] @ [?e]) []"
    using client_block_add [OF demo_holds valid(1) small(1)] by blast
  obtain t where "demo_client_holds t ([?e] @ [kept_block (?c\<lparr>block_id := word_of_int (next_id [?e])\<rparr>)]) []"
    using client_block_add [OF t1 [unfolded append_Nil] valid(2) small(2)] by blast
  moreover have "[?e] @ [kept_block (?c\<lparr>block_id := word_of_int (next_id [?e])\<rparr>)] = two_blocks state"
    by (simp only: ids(2)) (simp add: ids(1) two_blocks_def kept_block_def demo_block_def)
  ultimately have "demo_client_holds t (two_blocks state) []" by (simp only:)
  then show ?thesis ..
qed

lemma demo_receiving_ok: "m_services (demo_receiving t) = t" "receiving demo_seen (\<lambda>d. d) ''saved'' 3 (demo_receiving t) []"
  by (simp_all add: demo_receiving_def demo_schedule_def receiving_def dest_holds_def demo_task_def)

theorem short_response_fails_witness:
  "\<exists>t s'. demo_client_holds t (two_blocks Block_Waiting) [] \<and>
    on_block_response demo_files demo_ops 0 0 (demo_response [7]) (demo_receiving t) = Some ([], s') \<and>
    demo_client_holds (m_services s') (failed_block 2 (two_blocks Block_Waiting)) []"
proof -
  obtain t where t: "demo_client_holds (m_services (demo_receiving t)) (two_blocks Block_Waiting) []"
    using two_blocks_held [of Block_Waiting] by (auto simp: demo_receiving_ok)
  have r: "receiving demo_seen (\<lambda>d. d) ''saved'' (brs_task_id (demo_response [7])) (demo_receiving t) []"
    using demo_receiving_ok by (simp add: demo_response_def)
  have b: "two_blocks Block_Waiting ! 1 \<in> set (two_blocks Block_Waiting)"
    "block_id (two_blocks Block_Waiting ! 1) = brs_block_id (demo_response [7])"
    "0 \<le> sint (brs_offset (demo_response [7]))" "length (brs_data (demo_response [7])) < unat (brs_block_size (demo_response [7]))"
    by (simp_all add: two_blocks_def demo_response_def)
  obtain s' where "on_block_response demo_files demo_ops 0 0 (demo_response [7]) (demo_receiving t) = Some ([], s')"
    "demo_client_holds (m_services s') (failed_block (brs_block_id (demo_response [7])) (two_blocks Block_Waiting)) []"
    using short_response_fails [OF t demo_disk_works r b] by blast
  with t show ?thesis by (auto simp: demo_receiving_ok demo_response_def)
qed

theorem failed_block_forgotten_witness:
  "\<exists>t s' bs'. demo_client_holds t (two_blocks Block_Failed) [] \<and>
    on_block_response demo_files demo_ops 0 0 (demo_response [7, 8]) (demo_receiving t) = Some ([3], s') \<and>
    demo_client_holds (m_services s') bs' [] \<and> two_blocks Block_Failed ! 0 \<in> set bs'"
proof -
  obtain t where t: "demo_client_holds (m_services (demo_receiving t)) (two_blocks Block_Failed) []"
    using two_blocks_held [of Block_Failed] by (auto simp: demo_receiving_ok)
  have w: "waiting_ids 3 (two_blocks Block_Failed) = {brs_block_id (demo_response [7, 8])}"
    by (auto simp: in_waiting two_blocks_def demo_response_def)
  have r: "part_of [5, 6, 7, 8] 3 (demo_response [7, 8])" by (simp add: part_of_def demo_response_def)
  have b: "two_blocks Block_Failed ! 0 \<in> set (two_blocks Block_Failed)" "block_task_id (two_blocks Block_Failed ! 0) = 3"
    "block_state (two_blocks Block_Failed ! 0) = Block_Failed" by (simp_all add: two_blocks_def)
  obtain s' bs' where "on_block_response demo_files demo_ops 0 0 (demo_response [7, 8]) (demo_receiving t) = Some ([3], s')"
    "demo_client_holds (m_services s') bs' (tasks_after 0 3 [])" "two_blocks Block_Failed ! 0 \<in> set bs'"
    using failed_block_forgotten [OF t demo_disk_works demo_receiving_ok(2) w r b] by blast
  with t show ?thesis by (auto simp: demo_receiving_ok tasks_after_def)
qed

end
