(* ===== verification/Logger.thy ===== *)
theory Logger
  imports Prelude
begin

text \<open>
  The logger of the library, \<open>logger/\<close>: levels, the header of a message, and the manager of the loggers. The text of a time,
  of \<open>std::format\<close> for the message and of a thread are arguments.
\<close>

section \<open>Levels\<close>

datatype LogLevel = Log_TRACE | Log_DEBUG | Log_INFO | Log_WARN | Log_ERROR | Log_FATAL | Log_Unknown | Log_NONE

primrec LogLevel_code :: "LogLevel \<Rightarrow> nat" where
  "LogLevel_code Log_TRACE = 0"
| "LogLevel_code Log_DEBUG = 1"
| "LogLevel_code Log_INFO = 2"
| "LogLevel_code Log_WARN = 3"
| "LogLevel_code Log_ERROR = 4"
| "LogLevel_code Log_FATAL = 5"
| "LogLevel_code Log_Unknown = 6"
| "LogLevel_code Log_NONE = 7"

lemma LogLevel_code_inj: "LogLevel_code a = LogLevel_code b \<Longrightarrow> a = b"
  by (cases a; cases b) simp_all

instantiation LogLevel :: linorder
begin

definition less_eq_LogLevel :: "LogLevel \<Rightarrow> LogLevel \<Rightarrow> bool" where
  "less_eq_LogLevel a b \<longleftrightarrow> LogLevel_code a \<le> LogLevel_code b"

definition less_LogLevel :: "LogLevel \<Rightarrow> LogLevel \<Rightarrow> bool" where
  "less_LogLevel a b \<longleftrightarrow> LogLevel_code a < LogLevel_code b"

instance
  by standard (auto simp: less_eq_LogLevel_def less_LogLevel_def dest: LogLevel_code_inj)

end

primrec to_log_level_sign :: "LogLevel \<Rightarrow> string" where
  "to_log_level_sign Log_TRACE = ''TRACE''"
| "to_log_level_sign Log_DEBUG = ''DEBUG''"
| "to_log_level_sign Log_INFO = ''INFO''"
| "to_log_level_sign Log_WARN = ''WARN''"
| "to_log_level_sign Log_ERROR = ''ERROR''"
| "to_log_level_sign Log_FATAL = ''FATAL''"
| "to_log_level_sign Log_NONE = ''NONE''"
| "to_log_level_sign Log_Unknown = ''Unknown''"

primrec LogLevel_to_string :: "LogLevel \<Rightarrow> string" where
  "LogLevel_to_string Log_TRACE = ''LogLevel::TRACE''"
| "LogLevel_to_string Log_DEBUG = ''LogLevel::DEBUG''"
| "LogLevel_to_string Log_INFO = ''LogLevel::INFO''"
| "LogLevel_to_string Log_WARN = ''LogLevel::WARN''"
| "LogLevel_to_string Log_ERROR = ''LogLevel::ERROR''"
| "LogLevel_to_string Log_FATAL = ''LogLevel::FATAL''"
| "LogLevel_to_string Log_NONE = ''LogLevel::NONE''"
| "LogLevel_to_string Log_Unknown = ''LogLevel::Unknown''"

definition LogLevel_of_string :: "string \<Rightarrow> LogLevel" where
  "LogLevel_of_string enum_string =
     (if enum_string = ''LogLevel::TRACE'' then Log_TRACE
      else if enum_string = ''LogLevel::DEBUG'' then Log_DEBUG
      else if enum_string = ''LogLevel::INFO'' then Log_INFO
      else if enum_string = ''LogLevel::WARN'' then Log_WARN
      else if enum_string = ''LogLevel::ERROR'' then Log_ERROR
      else if enum_string = ''LogLevel::FATAL'' then Log_FATAL
      else if enum_string = ''LogLevel::NONE'' then Log_NONE
      else if enum_string = ''LogLevel::Unknown'' then Log_Unknown
      else Log_Unknown)"

definition to_log_level :: "string \<Rightarrow> LogLevel" where
  "to_log_level level_str =
     (if level_str = ''TRACE'' then Log_TRACE
      else if level_str = ''DEBUG'' then Log_DEBUG
      else if level_str = ''INFO'' then Log_INFO
      else if level_str = ''WARN'' then Log_WARN
      else if level_str = ''ERROR'' then Log_ERROR
      else if level_str = ''FATAL'' then Log_FATAL
      else if level_str = ''NONE'' then Log_NONE
      else Log_Unknown)"

text \<open>Both texts of a level are read back.\<close>

lemma levels_read_back: "to_log_level (to_log_level_sign l) = l" "LogLevel_of_string (LogLevel_to_string l) = l"
  by (cases l; simp add: to_log_level_def LogLevel_of_string_def)+

section \<open>Configuration and header\<close>

text \<open>The members for the rotation of files and for backtraces are left out: no code reads them.\<close>

record LoggerConfig =
  log_name :: string
  log_path :: string
  console_level :: LogLevel
  file_level :: LogLevel
  enable_console :: bool
  enable_file :: bool
  enable_async :: bool

definition new_LoggerConfig :: LoggerConfig where
  "new_LoggerConfig =
     \<lparr>log_name = ''default'', log_path = ''./log/default.log'', console_level = Log_TRACE, file_level = Log_TRACE,
      enable_console = True, enable_file = True, enable_async = True\<rparr>"

record LogOutputSetting =
  enable_time :: bool
  enable_level :: bool
  enable_module :: bool
  enable_file_name :: bool
  enable_function_name :: bool
  enable_line_num :: bool
  enable_thread_id :: bool
  enable_proceed_id :: bool

definition new_LogOutputSetting :: LogOutputSetting where
  "new_LogOutputSetting =
     \<lparr>enable_time = True, enable_level = True, enable_module = True, enable_file_name = False, enable_function_name = False,
      enable_line_num = False, enable_thread_id = False, enable_proceed_id = False\<rparr>"

text \<open>Where a message comes from.\<close>

record log_source =
  source_module :: string
  source_file :: string
  source_function :: string
  source_line :: int
  source_process :: int
  source_thread :: string

definition bracketed :: "string \<Rightarrow> string" where "bracketed s = ''['' @ s @ ''] ''"

definition get_header :: "LogOutputSetting \<Rightarrow> string \<Rightarrow> LogLevel \<Rightarrow> log_source \<Rightarrow> string" where
  "get_header settings time_str level src =
     (if enable_time settings then bracketed time_str else []) @
     (if enable_level settings then bracketed (to_log_level_sign level) else []) @
     (if enable_module settings then bracketed (source_module src) else []) @
     (if enable_file_name settings \<and> source_file src \<noteq> [] then bracketed (source_file src) else []) @
     (if enable_function_name settings \<and> source_function src \<noteq> [] then bracketed (source_function src) else []) @
     (if enable_line_num settings \<and> source_line src \<noteq> - 1 then bracketed (show_int (source_line src)) else []) @
     (if enable_proceed_id settings \<and> source_process src \<noteq> - 1 then bracketed (show_int (source_process src)) else []) @
     (if enable_thread_id settings \<and> source_thread src \<noteq> [] then bracketed (source_thread src) else [])"

definition log_text :: "LogOutputSetting \<Rightarrow> string \<Rightarrow> LogLevel \<Rightarrow> log_source \<Rightarrow> string \<Rightarrow> string" where
  "log_text settings time_str level src log_info =
     get_header settings time_str level src @ ''[:] ['' @ log_info @ ''] ''"

section \<open>\<open>LoggerManager\<close>\<close>

text \<open>A logger of type \<open>'l\<close> is a shared pointer; looking up a name that is not there with \<open>[]\<close> gives the null pointer, \<open>None\<close>.\<close>

record 'l LoggerManager =
  m_logger_map :: "string \<Rightarrow> 'l option"
  m_logger_creator_map :: "string \<Rightarrow> (LoggerConfig \<Rightarrow> 'l) option"

definition add_creator :: "string \<Rightarrow> (LoggerConfig \<Rightarrow> 'l) \<Rightarrow> 'l LoggerManager \<Rightarrow> 'l LoggerManager" where
  "add_creator logger_type creator s = s\<lparr>m_logger_creator_map := (m_logger_creator_map s)(logger_type \<mapsto> creator)\<rparr>"

text \<open>A creator that is not there is called through a null pointer, \<open>None\<close>.\<close>

definition add_logger :: "string \<Rightarrow> LoggerConfig \<Rightarrow> 'l LoggerManager \<Rightarrow> 'l LoggerManager option" where
  "add_logger logger_type log_config s =
     (if m_logger_map s (log_name log_config) \<noteq> None then Some s
      else do {
        creator \<leftarrow> (case m_logger_creator_map s logger_type of
                      None \<Rightarrow> m_logger_creator_map s ''default''
                    | Some creator \<Rightarrow> Some creator);
        Some (s\<lparr>m_logger_map := (m_logger_map s)(log_name log_config \<mapsto> creator log_config)\<rparr>)
      })"

definition get_logger :: "string \<Rightarrow> 'l LoggerManager \<Rightarrow> 'l option" where
  "get_logger name s =
     (if m_logger_map s name = None then m_logger_map s (log_name new_LoggerConfig) else m_logger_map s name)"

definition new_logger_manager :: "(LoggerConfig \<Rightarrow> 'l) \<Rightarrow> 'l LoggerManager option" where
  "new_logger_manager default_creator =
     add_logger ''default'' new_LoggerConfig
       (add_creator ''default'' default_creator \<lparr>m_logger_map = Map.empty, m_logger_creator_map = Map.empty\<rparr>)"

text \<open>The manager as it is used: made, then creators and loggers are added.\<close>

inductive managers :: "(LoggerConfig \<Rightarrow> 'l) \<Rightarrow> 'l LoggerManager \<Rightarrow> bool" for d where
  made: "new_logger_manager d = Some s \<Longrightarrow> managers d s"
| creator_added: "managers d s \<Longrightarrow> managers d (add_creator logger_type creator s)"
| logger_added: "managers d s \<Longrightarrow> add_logger logger_type log_config s = Some s' \<Longrightarrow> managers d s'"

lemma managers_default:
  "managers d s \<Longrightarrow> m_logger_map s ''default'' = Some (d new_LoggerConfig) \<and> m_logger_creator_map s ''default'' \<noteq> None"
  by (induction rule: managers.induct)
    (auto simp: new_logger_manager_def add_logger_def add_creator_def new_LoggerConfig_def split: if_splits option.splits Option.bind_splits)

text \<open>In a manager that was made by its constructor, loggers can always be added and one is always found: the one of the name,
  or the default logger, which is the first that was made and stays the same; nothing is made by asking.\<close>

theorem logger_always_found:
  assumes "managers d s"
  shows "(\<exists>s'. add_logger logger_type log_config s = Some s' \<and> managers d s' \<and> m_logger_map s' (log_name log_config) \<noteq> None) \<and>
    get_logger name s = Some (case m_logger_map s name of None \<Rightarrow> d new_LoggerConfig | Some l \<Rightarrow> l)"
proof
  note m = managers_default [OF assms]
  obtain creator where c: "(case m_logger_creator_map s logger_type of None \<Rightarrow> m_logger_creator_map s ''default'' | Some creator \<Rightarrow> Some creator) =
      Some creator" using m by (cases "m_logger_creator_map s logger_type") auto
  have "\<exists>s'. add_logger logger_type log_config s = Some s' \<and> m_logger_map s' (log_name log_config) \<noteq> None"
    using c by (simp add: add_logger_def)
  then show "\<exists>s'. add_logger logger_type log_config s = Some s' \<and> managers d s' \<and> m_logger_map s' (log_name log_config) \<noteq> None"
    using assms by (blast intro: logger_added)
  show "get_logger name s = Some (case m_logger_map s name of None \<Rightarrow> d new_LoggerConfig | Some l \<Rightarrow> l)"
    using m by (simp add: get_logger_def new_LoggerConfig_def split: option.split)
qed

theorem logger_always_found_witness:
  "\<exists>s. new_logger_manager log_name = Some s \<and> get_logger ''network'' s = Some ''default''"
proof -
  obtain s where s: "new_logger_manager log_name = Some s"
    by (simp add: new_logger_manager_def add_logger_def add_creator_def)
  moreover from this have "m_logger_map s ''network'' = None"
    by (auto simp: new_logger_manager_def add_logger_def add_creator_def new_LoggerConfig_def)
  moreover have "log_name new_LoggerConfig = ''default''" by (simp add: new_LoggerConfig_def)
  ultimately show ?thesis
    using logger_always_found [OF made [OF s], of "''default''" new_LoggerConfig "''network''"] by auto
qed

end
