(* ===== verification/Async_Logger.thy ===== *)
theory Async_Logger
  imports Logger
begin

text \<open>
  The asynchronous logger, \<open>logger/async_logger\<close>: a queue and a thread for the console and for the file, and the destructor that
  stops them. Calls of \<open>log_msg\<close> overlap: each decides by the configuration and then pushes to the console, and after
  that the same for the file. Whatever was pushed is written, in order, before the destructor ends, and it ends.

  A step of a thread is what it does while it holds the mutex of a queue; the mutexes of the console and the file make a
  write atomic. Waiting threads are woken by the notifications only, as a condition that does not hold sends them back to
  sleep. The loggers are shared pointers, so the destructor runs when nobody can log any more; the flags of the queues do not
  change as long as somebody can, so that reading them is part of the push. The configuration is read and set as a whole.
\<close>

section \<open>State\<close>

text \<open>Where the thread of a queue is: at its condition with the mutex, asleep, with a message it has taken out, or at its end.\<close>

datatype handler_at = Not_Started | At_Condition | Asleep | Writing string | Returned

text \<open>
  One of the two outputs with its flag, queue and thread. \<open>sink_out\<close> is what has been written; \<open>sink_opens\<close> tells whether the
  output can be opened, which the console always is. \<open>sink_logged\<close> records the messages that were given to the output.
\<close>

record log_sink =
  sink_flag :: bool
  sink_queue :: "string list"
  sink_thread :: handler_at
  sink_out :: "string list"
  sink_opens :: bool
  sink_logged :: "string list"

text \<open>Where the destructor is: it stops the console, then the file, each time asleep or about to look at the queue, and joins.\<close>

datatype destructor_at =
    Alive | Console_Asleep | Console_Looks | File_Begins | File_Asleep | File_Looks | Joins_File | Joins_Console | Destroyed

record AsyncLogger =
  m_config :: LoggerConfig
  m_output_setting :: LogOutputSetting
  m_console :: log_sink
  m_file :: log_sink
  m_destructor :: destructor_at

definition new_sink :: "bool \<Rightarrow> log_sink" where
  "new_sink can_open =
     \<lparr>sink_flag = False, sink_queue = [], sink_thread = Not_Started, sink_out = [], sink_opens = can_open, sink_logged = []\<rparr>"

definition start_sink :: "log_sink \<Rightarrow> log_sink" where
  "start_sink k = (if \<not> sink_flag k then k\<lparr>sink_flag := True, sink_thread := At_Condition\<rparr> else k)"

definition start_async_log :: "AsyncLogger \<Rightarrow> AsyncLogger" where
  "start_async_log s = s\<lparr>m_file := start_sink (m_file s), m_console := start_sink (m_console s)\<rparr>"

definition new_async_logger :: "LoggerConfig \<Rightarrow> bool \<Rightarrow> AsyncLogger" where
  "new_async_logger config can_open =
     (let s = \<lparr>m_config = config, m_output_setting = new_LogOutputSetting, m_console = new_sink True, m_file = new_sink can_open, m_destructor = Alive\<rparr>
      in if enable_async config then start_async_log s else s)"

text \<open>The flags and threads stay as they are.\<close>

definition set_logger_config :: "LoggerConfig \<Rightarrow> AsyncLogger \<Rightarrow> AsyncLogger" where
  "set_logger_config config s = s\<lparr>m_config := config\<rparr>"

definition set_output_settings :: "LogOutputSetting \<Rightarrow> AsyncLogger \<Rightarrow> AsyncLogger" where
  "set_output_settings settings s = s\<lparr>m_output_setting := settings\<rparr>"

section \<open>Logging\<close>

definition wake_handler :: "log_sink \<Rightarrow> log_sink" where
  "wake_handler k = (if sink_thread k = Asleep then k\<lparr>sink_thread := At_Condition\<rparr> else k)"

definition write_out :: "string \<Rightarrow> log_sink \<Rightarrow> log_sink" where
  "write_out log_str k = (if sink_opens k then k\<lparr>sink_out := sink_out k @ [log_str]\<rparr> else k)"

definition sink_log :: "string \<Rightarrow> log_sink \<Rightarrow> log_sink" where
  "sink_log log_str k =
     (let k = k\<lparr>sink_logged := sink_logged k @ [log_str]\<rparr> in
      if sink_flag k then wake_handler (k\<lparr>sink_queue := sink_queue k @ [log_str]\<rparr>) else write_out log_str k)"

definition shows_console :: "LoggerConfig \<Rightarrow> LogLevel \<Rightarrow> bool" where
  "shows_console config level \<longleftrightarrow> enable_console config \<and> console_level config \<le> level"

definition shows_file :: "LoggerConfig \<Rightarrow> LogLevel \<Rightarrow> bool" where
  "shows_file config level \<longleftrightarrow> enable_file config \<and> file_level config \<le> level"

definition push_console :: "string \<Rightarrow> AsyncLogger \<Rightarrow> AsyncLogger" where
  "push_console log_str s = s\<lparr>m_console := sink_log log_str (m_console s)\<rparr>"

definition push_file :: "string \<Rightarrow> AsyncLogger \<Rightarrow> AsyncLogger" where
  "push_file log_str s = s\<lparr>m_file := sink_log log_str (m_file s)\<rparr>"

text \<open>A call that no other thread comes between.\<close>

definition log_msg :: "LogLevel \<Rightarrow> string \<Rightarrow> AsyncLogger \<Rightarrow> AsyncLogger" where
  "log_msg level log_str s =
     (let s = (if shows_console (m_config s) level then push_console log_str s else s)
      in if shows_file (m_config s) level then push_file log_str s else s)"

text \<open>
  A call among others, by what it does next. \<open>c_configs\<close> are the configurations that were in force while it ran, and \<open>c_before\<close>
  the numbers of the calls that had returned when it began.
\<close>

datatype caller_at = At_Console | Pushes_Console | At_File | Pushes_File | Call_Done

record caller =
  c_level :: LogLevel
  c_text :: string
  c_at :: caller_at
  c_configs :: "LoggerConfig list"
  c_before :: "nat list"

definition caller_step :: "caller \<Rightarrow> AsyncLogger \<Rightarrow> (caller \<times> AsyncLogger) option" where
  "caller_step c s =
     (case c_at c of
        At_Console \<Rightarrow> Some (c\<lparr>c_at := (if shows_console (m_config s) (c_level c) then Pushes_Console else At_File)\<rparr>, s)
      | Pushes_Console \<Rightarrow> Some (c\<lparr>c_at := At_File\<rparr>, push_console (c_text c) s)
      | At_File \<Rightarrow> Some (c\<lparr>c_at := (if shows_file (m_config s) (c_level c) then Pushes_File else Call_Done)\<rparr>, s)
      | Pushes_File \<Rightarrow> Some (c\<lparr>c_at := Call_Done\<rparr>, push_file (c_text c) s)
      | Call_Done \<Rightarrow> None)"

section \<open>The threads\<close>

text \<open>A round of the loop up to the write, and the write. The notification wakes the destructor, whose state is the
  second part.\<close>

definition wake_destructor :: "destructor_at \<Rightarrow> destructor_at \<Rightarrow> destructor_at \<Rightarrow> destructor_at" where
  "wake_destructor asleep looks d = (if d = asleep then looks else d)"

definition handler_step :: "destructor_at \<Rightarrow> destructor_at \<Rightarrow> log_sink \<times> destructor_at \<Rightarrow> (log_sink \<times> destructor_at) option" where
  "handler_step asleep looks = (\<lambda>(k, d).
     (case sink_thread k of
        At_Condition \<Rightarrow>
          (case sink_queue k of
             [] \<Rightarrow> if sink_flag k then Some (k\<lparr>sink_thread := Asleep\<rparr>, d)
                   else Some (k\<lparr>sink_thread := Returned\<rparr>, wake_destructor asleep looks d)
           | log_str # rest \<Rightarrow>
               Some (k\<lparr>sink_queue := rest, sink_thread := Writing log_str\<rparr>, wake_destructor asleep looks d))
      | Writing log_str \<Rightarrow> Some ((write_out log_str k)\<lparr>sink_thread := At_Condition\<rparr>, d)
      | _ \<Rightarrow> None))"

definition console_step :: "AsyncLogger \<Rightarrow> AsyncLogger option" where
  "console_step s =
     map_option (\<lambda>(k, d). s\<lparr>m_console := k, m_destructor := d\<rparr>)
       (handler_step Console_Asleep Console_Looks (m_console s, m_destructor s))"

definition file_step :: "AsyncLogger \<Rightarrow> AsyncLogger option" where
  "file_step s =
     map_option (\<lambda>(k, d). s\<lparr>m_file := k, m_destructor := d\<rparr>) (handler_step File_Asleep File_Looks (m_file s, m_destructor s))"

section \<open>The destructor\<close>

definition stop_sink :: "log_sink \<Rightarrow> log_sink" where
  "stop_sink k = wake_handler (k\<lparr>sink_flag := False\<rparr>)"

definition thread_joined :: "log_sink \<Rightarrow> bool" where
  "thread_joined k \<longleftrightarrow> sink_thread k \<in> {Not_Started, Returned}"

definition stop_step :: "AsyncLogger \<Rightarrow> AsyncLogger option" where
  "stop_step s =
     (case m_destructor s of
        Alive \<Rightarrow>
          let s = s\<lparr>m_console := stop_sink (m_console s)\<rparr>
          in Some (s\<lparr>m_destructor := (if sink_queue (m_console s) = [] then File_Begins else Console_Asleep)\<rparr>)
      | Console_Looks \<Rightarrow> Some (s\<lparr>m_destructor := (if sink_queue (m_console s) = [] then File_Begins else Console_Asleep)\<rparr>)
      | File_Begins \<Rightarrow>
          let s = s\<lparr>m_file := stop_sink (m_file s)\<rparr>
          in Some (s\<lparr>m_destructor := (if sink_queue (m_file s) = [] then Joins_File else File_Asleep)\<rparr>)
      | File_Looks \<Rightarrow> Some (s\<lparr>m_destructor := (if sink_queue (m_file s) = [] then Joins_File else File_Asleep)\<rparr>)
      | Joins_File \<Rightarrow> if thread_joined (m_file s) then Some (s\<lparr>m_destructor := Joins_Console\<rparr>) else None
      | Joins_Console \<Rightarrow> if thread_joined (m_console s) then Some (s\<lparr>m_destructor := Destroyed\<rparr>) else None
      | _ \<Rightarrow> None)"

section \<open>Runs\<close>

text \<open>
  The logger with the calls of all threads, in the order in which they begin, and the numbers of the calls in the order in which
  they have pushed to the console and to the file.
\<close>

record logger_run =
  the_logger :: AsyncLogger
  callers :: "caller list"
  console_order :: "nat list"
  file_order :: "nat list"

text \<open>What can happen: a call begins or goes on, new settings, a step of a thread, a step of the destructor. A move that is
  not possible is \<open>None\<close>.\<close>

datatype logger_move =
    Begin_Move LogLevel string
  | Caller_Move nat
  | Config_Move LoggerConfig
  | Settings_Move LogOutputSetting
  | Console_Move
  | File_Move
  | Stop_Move

definition calls_done :: "caller list \<Rightarrow> nat list" where
  "calls_done cs = filter (\<lambda>k. c_at (cs ! k) = Call_Done) [0..<length cs]"

definition see_config :: "LoggerConfig \<Rightarrow> caller \<Rightarrow> caller" where
  "see_config config c = (if c_at c = Call_Done then c else c\<lparr>c_configs := c_configs c @ [config]\<rparr>)"

definition run_logger :: "(AsyncLogger \<Rightarrow> AsyncLogger option) \<Rightarrow> logger_run \<Rightarrow> logger_run option" where
  "run_logger f r = map_option (\<lambda>s. r\<lparr>the_logger := s\<rparr>) (f (the_logger r))"

fun move_logger :: "logger_move \<Rightarrow> logger_run \<Rightarrow> logger_run option" where
  "move_logger (Begin_Move level log_str) r =
     (if m_destructor (the_logger r) = Alive
      then Some (r\<lparr>callers := callers r @ [\<lparr>c_level = level, c_text = log_str, c_at = At_Console,
        c_configs = [m_config (the_logger r)], c_before = calls_done (callers r)\<rparr>]\<rparr>)
      else None)"
| "move_logger (Caller_Move k) r =
     (if k < length (callers r)
      then map_option (\<lambda>(c, s). r\<lparr>the_logger := s, callers := (callers r)[k := c],
          console_order := console_order r @ (if c_at (callers r ! k) = Pushes_Console then [k] else []),
          file_order := file_order r @ (if c_at (callers r ! k) = Pushes_File then [k] else [])\<rparr>)
        (caller_step (callers r ! k) (the_logger r))
      else None)"
| "move_logger (Config_Move config) r =
     (if m_destructor (the_logger r) = Alive
      then Some (r\<lparr>the_logger := set_logger_config config (the_logger r), callers := map (see_config config) (callers r)\<rparr>)
      else None)"
| "move_logger (Settings_Move settings) r =
     (if m_destructor (the_logger r) = Alive then Some (r\<lparr>the_logger := set_output_settings settings (the_logger r)\<rparr>) else None)"
| "move_logger Console_Move r = run_logger console_step r"
| "move_logger File_Move r = run_logger file_step r"
| "move_logger Stop_Move r =
     (if m_destructor (the_logger r) = Alive \<and> list_ex (\<lambda>c. c_at c \<noteq> Call_Done) (callers r) then None
      else run_logger stop_step r)"

fun logger_moves :: "logger_move list \<Rightarrow> logger_run \<Rightarrow> logger_run option" where
  "logger_moves [] r = Some r"
| "logger_moves (v # vs) r = do { r \<leftarrow> move_logger v r; logger_moves vs r }"

definition new_logger_run :: "LoggerConfig \<Rightarrow> bool \<Rightarrow> logger_run" where
  "new_logger_run config can_open =
     \<lparr>the_logger = new_async_logger config can_open, callers = [], console_order = [], file_order = []\<rparr>"

text \<open>A call that runs alone is \<open>log_msg\<close>.\<close>

lemma caller_alone:
  assumes "m_destructor s = Alive"
  shows "\<exists>vs r. logger_moves vs \<lparr>the_logger = s, callers = [], console_order = [], file_order = []\<rparr> = Some r \<and>
    the_logger r = log_msg level log_str s \<and> c_at (callers r ! 0) = Call_Done"
proof -
  let ?c = "shows_console (m_config s) level" and ?f = "shows_file (m_config s) level"
  have "m_config (push_console log_str s) = m_config s" by (simp add: push_console_def)
  then show ?thesis
    using assms
    by (intro exI [of _ "Begin_Move level log_str # replicate (2 + (if ?c then 1 else 0) + (if ?f then 1 else 0)) (Caller_Move 0)"])
       (cases ?c; cases ?f; simp add: caller_step_def log_msg_def numeral_eq_Suc)
qed

section \<open>Nothing is lost\<close>

text \<open>The first call is not behind the second one in an order.\<close>

fun never_after :: "nat list \<Rightarrow> nat \<Rightarrow> nat \<Rightarrow> bool" where
  "never_after [] k l \<longleftrightarrow> True"
| "never_after (i # order) k l \<longleftrightarrow> (if i = l then k \<notin> set order else never_after order k l)"

text \<open>
  What the order of an output says of the calls: every call is there once at most; a call that has returned is there if all
  configurations in force while it ran show its level, and not if none does; a call that had returned before another one began
  is not behind it.
\<close>

definition recorded :: "(LoggerConfig \<Rightarrow> LogLevel \<Rightarrow> bool) \<Rightarrow> caller list \<Rightarrow> nat list \<Rightarrow> bool" where
  "recorded shown cs order \<longleftrightarrow>
     distinct order \<and> list_all (\<lambda>k. k < length cs) order \<and>
     list_all (\<lambda>k. let c = cs ! k in c_at c = Call_Done \<longrightarrow>
       (list_all (\<lambda>config. shown config (c_level c)) (c_configs c) \<longrightarrow> k \<in> set order) \<and>
       (list_all (\<lambda>config. \<not> shown config (c_level c)) (c_configs c) \<longrightarrow> k \<notin> set order)) [0..<length cs] \<and>
     list_all (\<lambda>l. list_all (\<lambda>k. never_after order k l) (c_before (cs ! l))) [0..<length cs]"

definition texts_of :: "caller list \<Rightarrow> nat list \<Rightarrow> string list" where
  "texts_of cs order = map (\<lambda>k. c_text (cs ! k)) order"

definition in_hand :: "log_sink \<Rightarrow> string list" where
  "in_hand k = (case sink_thread k of Writing log_str \<Rightarrow> [log_str] | _ \<Rightarrow> [])"

text \<open>
  What holds of an output: written, in hand and queued are the messages in order; a thread that has not started or has
  returned leaves an empty queue; a thread that sleeps has nothing to do. \<open>stopped\<close> tells whether the flag was cleared.
\<close>

definition sink_inv :: "bool \<Rightarrow> log_sink \<Rightarrow> bool" where
  "sink_inv stopped k \<longleftrightarrow>
     (if sink_opens k then sink_out k @ in_hand k @ sink_queue k = sink_logged k else sink_out k = []) \<and>
     (sink_thread k = Not_Started \<longrightarrow> \<not> sink_flag k \<and> sink_queue k = []) \<and>
     (sink_thread k = Returned \<longrightarrow> stopped \<and> sink_queue k = []) \<and>
     (sink_thread k = Asleep \<longrightarrow> sink_flag k \<and> sink_queue k = []) \<and>
     (sink_thread k \<noteq> Not_Started \<and> \<not> stopped \<longrightarrow> sink_flag k) \<and>
     (stopped \<longrightarrow> \<not> sink_flag k)"

definition console_stopped :: "AsyncLogger \<Rightarrow> bool" where "console_stopped s \<longleftrightarrow> m_destructor s \<noteq> Alive"

definition file_stopped :: "AsyncLogger \<Rightarrow> bool" where
  "file_stopped s \<longleftrightarrow> m_destructor s \<notin> {Alive, Console_Asleep, Console_Looks, File_Begins}"

definition logger_inv :: "AsyncLogger \<Rightarrow> bool" where
  "logger_inv s \<longleftrightarrow>
     sink_inv (console_stopped s) (m_console s) \<and> sink_inv (file_stopped s) (m_file s) \<and>
     (m_destructor s = Console_Asleep \<longrightarrow> sink_queue (m_console s) \<noteq> []) \<and>
     (m_destructor s = File_Asleep \<longrightarrow> sink_queue (m_file s) \<noteq> []) \<and>
     (m_destructor s = Joins_Console \<longrightarrow> thread_joined (m_file s)) \<and>
     (m_destructor s = Destroyed \<longrightarrow> thread_joined (m_file s) \<and> thread_joined (m_console s))"

lemma sink_inv_log: "sink_inv False k \<Longrightarrow> sink_inv False (sink_log log_str k)"
  by (cases "sink_thread k")
    (auto simp: sink_inv_def sink_log_def wake_handler_def write_out_def in_hand_def Let_def)

lemma sink_log_sel [simp]:
  "sink_logged (sink_log log_str k) = sink_logged k @ [log_str]" "sink_opens (sink_log log_str k) = sink_opens k"
  by (simp_all add: sink_log_def wake_handler_def write_out_def Let_def)

lemma sink_inv_stop: "sink_inv False k \<Longrightarrow> sink_inv True (stop_sink k)"
  by (cases "sink_thread k") (auto simp: sink_inv_def stop_sink_def wake_handler_def in_hand_def)

lemma stop_sink_sel [simp]:
  "sink_logged (stop_sink k) = sink_logged k" "sink_opens (stop_sink k) = sink_opens k" "sink_queue (stop_sink k) = sink_queue k"
  by (simp_all add: stop_sink_def wake_handler_def)

lemma handler_step_inv:
  assumes "handler_step asleep looks (k, d) = Some (k', d')" "sink_inv stopped k" "asleep \<noteq> looks"
  shows "sink_inv stopped k'" "sink_logged k' = sink_logged k" "sink_opens k' = sink_opens k" "\<not> thread_joined k"
    "d' = d \<or> d = asleep \<and> d' = looks" "d = asleep \<Longrightarrow> sink_queue k \<noteq> [] \<Longrightarrow> d' = d \<Longrightarrow> sink_queue k' \<noteq> []"
  using assms
  by (cases "sink_thread k"; cases "sink_queue k";
      auto simp: handler_step_def sink_inv_def write_out_def in_hand_def thread_joined_def wake_destructor_def split: if_splits)+

text \<open>A step that is not a push keeps what was given to the outputs.\<close>

definition logger_kept :: "AsyncLogger \<Rightarrow> AsyncLogger \<Rightarrow> bool" where
  "logger_kept s s' \<longleftrightarrow>
     logger_inv s' \<and> m_config s' = m_config s \<and>
     sink_logged (m_console s') = sink_logged (m_console s) \<and> sink_opens (m_console s') = sink_opens (m_console s) \<and>
     sink_logged (m_file s') = sink_logged (m_file s) \<and> sink_opens (m_file s') = sink_opens (m_file s) \<and>
     (m_destructor s = Alive \<or> m_destructor s' \<noteq> Alive)"

lemma push_inv:
  assumes "m_destructor s = Alive" "logger_inv s"
  shows "logger_inv (push_console log_str s)" "logger_inv (push_file log_str s)"
proof -
  have inv: "sink_inv False (m_console s)" "sink_inv False (m_file s)"
    using assms by (simp_all add: logger_inv_def console_stopped_def file_stopped_def)
  show "logger_inv (push_console log_str s)" "logger_inv (push_file log_str s)"
    using assms(1) inv sink_inv_log
    by (simp_all add: push_console_def push_file_def logger_inv_def console_stopped_def file_stopped_def)
qed

lemma console_step_kept:
  assumes "console_step s = Some s'" "logger_inv s"
  shows "logger_kept s s'"
proof -
  obtain k d where h: "handler_step Console_Asleep Console_Looks (m_console s, m_destructor s) = Some (k, d)"
    "s' = s\<lparr>m_console := k, m_destructor := d\<rparr>" using assms(1) by (auto simp: console_step_def)
  have "sink_inv (console_stopped s) (m_console s)" using assms(2) by (simp add: logger_inv_def)
  note k = handler_step_inv [OF h(1) this, simplified]
  have "console_stopped s' = console_stopped s" "file_stopped s' = file_stopped s"
    using k(5) h(2) by (auto simp: console_stopped_def file_stopped_def)
  with k assms(2) h(2) show ?thesis by (auto simp: logger_kept_def logger_inv_def)
qed

lemma file_step_kept:
  assumes "file_step s = Some s'" "logger_inv s"
  shows "logger_kept s s'"
proof -
  obtain k d where h: "handler_step File_Asleep File_Looks (m_file s, m_destructor s) = Some (k, d)"
    "s' = s\<lparr>m_file := k, m_destructor := d\<rparr>" using assms(1) by (auto simp: file_step_def)
  have "sink_inv (file_stopped s) (m_file s)" using assms(2) by (simp add: logger_inv_def)
  note k = handler_step_inv [OF h(1) this, simplified]
  have "console_stopped s' = console_stopped s" "file_stopped s' = file_stopped s"
    using k(5) h(2) by (auto simp: console_stopped_def file_stopped_def)
  with k assms(2) h(2) show ?thesis by (auto simp: logger_kept_def logger_inv_def)
qed

lemma stop_step_kept:
  assumes "stop_step s = Some s'" "logger_inv s"
  shows "logger_kept s s'"
proof -
  have inv: "sink_inv (console_stopped s) (m_console s)" "sink_inv (file_stopped s) (m_file s)"
    using assms(2) by (simp_all add: logger_inv_def)
  show ?thesis
    using assms inv
    by (cases "m_destructor s")
      (auto simp: stop_step_def Let_def logger_kept_def logger_inv_def console_stopped_def file_stopped_def
        sink_inv_stop split: if_splits)
qed

lemma new_logger_inv:
  "logger_inv (new_async_logger config can_open)" "m_config (new_async_logger config can_open) = config"
  "sink_logged (m_console (new_async_logger config can_open)) = []" "sink_logged (m_file (new_async_logger config can_open)) = []"
  "sink_opens (m_console (new_async_logger config can_open))" "sink_opens (m_file (new_async_logger config can_open)) = can_open"
  by (cases "enable_async config"; simp add: new_async_logger_def start_async_log_def start_sink_def new_sink_def Let_def
      logger_inv_def sink_inv_def in_hand_def console_stopped_def file_stopped_def)+

lemma joined_done: "sink_inv stopped k \<Longrightarrow> thread_joined k \<Longrightarrow> sink_out k = (if sink_opens k then sink_logged k else [])"
  by (auto simp: sink_inv_def thread_joined_def in_hand_def)

text \<open>Where a call is, as one of the outputs sees it.\<close>

datatype stage = Undecided | To_Push | Over

primrec console_stage :: "caller_at \<Rightarrow> stage" where
  "console_stage At_Console = Undecided"
| "console_stage Pushes_Console = To_Push"
| "console_stage At_File = Over"
| "console_stage Pushes_File = Over"
| "console_stage Call_Done = Over"

primrec file_stage :: "caller_at \<Rightarrow> stage" where
  "file_stage At_Console = Undecided"
| "file_stage Pushes_Console = Undecided"
| "file_stage At_File = Undecided"
| "file_stage Pushes_File = To_Push"
| "file_stage Call_Done = Over"

definition stage_ok :: "(LoggerConfig \<Rightarrow> LogLevel \<Rightarrow> bool) \<Rightarrow> caller \<Rightarrow> bool \<Rightarrow> stage \<Rightarrow> bool" where
  "stage_ok shown c present st \<longleftrightarrow>
     (case st of
        Undecided \<Rightarrow> \<not> present
      | To_Push \<Rightarrow> \<not> present \<and> list_ex (\<lambda>config. shown config (c_level c)) (c_configs c)
      | Over \<Rightarrow> list_ex (\<lambda>config. shown config (c_level c) = present) (c_configs c))"

definition output_inv ::
  "(LoggerConfig \<Rightarrow> LogLevel \<Rightarrow> bool) \<Rightarrow> (caller_at \<Rightarrow> stage) \<Rightarrow> caller list \<Rightarrow> nat list \<Rightarrow> bool" where
  "output_inv shown stage cs order \<longleftrightarrow>
     distinct order \<and> (\<forall>k \<in> set order. k < length cs) \<and>
     (\<forall>k < length cs. stage_ok shown (cs ! k) (k \<in> set order) (stage (c_at (cs ! k)))) \<and>
     (\<forall>l < length cs. \<forall>k \<in> set (c_before (cs ! l)). never_after order k l)"

definition calls_inv :: "AsyncLogger \<Rightarrow> caller list \<Rightarrow> bool" where
  "calls_inv s cs \<longleftrightarrow>
     (\<forall>l < length cs. \<forall>k \<in> set (c_before (cs ! l)). k < length cs \<and> c_at (cs ! k) = Call_Done) \<and>
     (\<forall>k < length cs. c_at (cs ! k) \<noteq> Call_Done \<longrightarrow> m_config s \<in> set (c_configs (cs ! k))) \<and>
     (m_destructor s \<noteq> Alive \<longrightarrow> (\<forall>c \<in> set cs. c_at c = Call_Done))"

definition run_inv :: "logger_run \<Rightarrow> bool" where
  "run_inv r \<longleftrightarrow>
     logger_inv (the_logger r) \<and> calls_inv (the_logger r) (callers r) \<and>
     output_inv shows_console console_stage (callers r) (console_order r) \<and>
     output_inv shows_file file_stage (callers r) (file_order r) \<and>
     sink_logged (m_console (the_logger r)) = texts_of (callers r) (console_order r) \<and>
     sink_logged (m_file (the_logger r)) = texts_of (callers r) (file_order r)"

lemma stage_ok_at [simp]: "stage_ok shown (c\<lparr>c_at := a\<rparr>) p st = stage_ok shown c p st"
  by (cases st) (simp_all add: stage_ok_def)

lemma never_after_append: "never_after (order @ [j]) k l \<longleftrightarrow> never_after order k l \<and> (l \<in> set order \<longrightarrow> j \<noteq> k)"
  by (induction order) auto

lemma never_after_absent: "l \<notin> set order \<Longrightarrow> never_after order k l"
  by (induction order) auto

lemma output_invD:
  assumes "output_inv shown stage cs order"
  shows "distinct order" "\<And>k. k \<in> set order \<Longrightarrow> k < length cs"
    "\<And>k. k < length cs \<Longrightarrow> stage_ok shown (cs ! k) (k \<in> set order) (stage (c_at (cs ! k)))"
    "\<And>l k. l < length cs \<Longrightarrow> k \<in> set (c_before (cs ! l)) \<Longrightarrow> never_after order k l"
  using assms by (simp_all add: output_inv_def)

text \<open>The moves of the calls, seen from an output: one begins, one goes on, one pushes, the configuration changes.\<close>

lemma output_begin:
  assumes "output_inv shown stage cs order" "stage (c_at c) = Undecided"
  shows "output_inv shown stage (cs @ [c]) order"
proof -
  note D = output_invD [OF assms(1)]
  have new: "length cs \<notin> set order" using D(2) by auto
  have "stage_ok shown ((cs @ [c]) ! k) (k \<in> set order) (stage (c_at ((cs @ [c]) ! k)))" if "k < length (cs @ [c])" for k
    using D(3) [of k] that new assms(2) by (cases "k = length cs") (auto simp: nth_append stage_ok_def)
  moreover have "never_after order k l" if "l < length (cs @ [c])" "k \<in> set (c_before ((cs @ [c]) ! l))" for k l
    using D(4) [of l k] that never_after_absent [OF new] by (cases "l = length cs") (auto simp: nth_append)
  ultimately show ?thesis
    using D(1,2) by (auto simp: output_inv_def intro: less_SucI)
qed

lemma output_config:
  assumes "output_inv shown stage cs order"
  shows "output_inv shown stage (map (see_config config) cs) order"
proof -
  note D = output_invD [OF assms]
  have at: "c_at (see_config config c) = c_at c" "c_before (see_config config c) = c_before c" for c
    by (simp_all add: see_config_def)
  have "stage_ok shown c p st \<Longrightarrow> stage_ok shown (see_config config c) p st" for c p st
    by (auto simp: stage_ok_def see_config_def split: stage.splits)
  with D show ?thesis by (simp add: output_inv_def at)
qed

text \<open>A call goes on, and with it possibly the order.\<close>

lemma output_update:
  assumes "output_inv shown stage cs order" "k < length cs" "distinct order'" "set order' \<subseteq> insert k (set order)"
    and "set order \<subseteq> set order'" "stage_ok shown (cs ! k) (k \<in> set order') (stage a)"
    and "\<And>l i. l < length cs \<Longrightarrow> i \<in> set (c_before (cs ! l)) \<Longrightarrow> never_after order' i l"
  shows "output_inv shown stage (cs[k := (cs ! k)\<lparr>c_at := a\<rparr>]) order'"
proof -
  note D = output_invD [OF assms(1)]
  let ?cs = "cs[k := (cs ! k)\<lparr>c_at := a\<rparr>]"
  have "\<forall>i \<in> set order'. i < length ?cs" using D(2) assms(2,4) by auto
  moreover have "\<forall>i < length ?cs. stage_ok shown (?cs ! i) (i \<in> set order') (stage (c_at (?cs ! i)))"
  proof (intro allI impI)
    fix i assume i: "i < length ?cs"
    show "stage_ok shown (?cs ! i) (i \<in> set order') (stage (c_at (?cs ! i)))"
    proof (cases "i = k")
      case False
      then have "i \<in> set order' \<longleftrightarrow> i \<in> set order" using assms(4,5) by auto
      with False D(3) [of i] i show ?thesis by simp
    qed (use assms(2,6) in simp)
  qed
  moreover have "\<forall>l < length ?cs. \<forall>i \<in> set (c_before (?cs ! l)). never_after order' i l"
  proof (intro allI impI ballI)
    fix l i assume "l < length ?cs" "i \<in> set (c_before (?cs ! l))"
    then have "l < length cs" "i \<in> set (c_before (cs ! l))" by (cases "l = k"; simp)+
    then show "never_after order' i l" by (rule assms(7))
  qed
  ultimately show ?thesis using assms(3) by (simp add: output_inv_def)
qed

lemma output_go:
  assumes "output_inv shown stage cs order" "k < length cs" "stage_ok shown (cs ! k) (k \<in> set order) (stage a)"
  shows "output_inv shown stage (cs[k := (cs ! k)\<lparr>c_at := a\<rparr>]) order"
  by (rule output_update [OF assms(1,2)]) (use assms(3) output_invD [OF assms(1)] in auto)

lemma output_push:
  assumes "output_inv shown stage cs order" "k < length cs" "stage (c_at (cs ! k)) = To_Push" "stage a = Over"
    and "\<And>l. l < length cs \<Longrightarrow> k \<notin> set (c_before (cs ! l))"
  shows "output_inv shown stage (cs[k := (cs ! k)\<lparr>c_at := a\<rparr>]) (order @ [k])"
proof -
  note D = output_invD [OF assms(1)]
  have k: "k \<notin> set order" "stage_ok shown (cs ! k) True (stage a)"
    using D(3) [OF assms(2)] assms(3,4) by (simp_all add: stage_ok_def)
  have "never_after (order @ [k]) i l" if "l < length cs" "i \<in> set (c_before (cs ! l))" for l i
    using D(4) [OF that] assms(5) [OF that(1)] that(2) by (auto simp: never_after_append)
  then show ?thesis
    by (intro output_update [OF assms(1,2)]) (use D(1) k in auto)
qed

lemma output_recorded:
  assumes "output_inv shown stage cs order" "stage Call_Done = Over"
  shows "recorded shown cs order"
proof -
  note D = output_invD [OF assms(1)]
  show ?thesis
    unfolding recorded_def Let_def
  proof (intro conjI)
    show "distinct order" by (rule D(1))
    show "list_all (\<lambda>k. k < length cs) order" using D(2) by (simp add: list_all_iff)
    show "list_all (\<lambda>l. list_all (\<lambda>k. never_after order k l) (c_before (cs ! l))) [0..<length cs]"
      using D(4) by (simp add: list_all_iff)
    show "list_all (\<lambda>k. c_at (cs ! k) = Call_Done \<longrightarrow>
        (list_all (\<lambda>config. shown config (c_level (cs ! k))) (c_configs (cs ! k)) \<longrightarrow> k \<in> set order) \<and>
        (list_all (\<lambda>config. \<not> shown config (c_level (cs ! k))) (c_configs (cs ! k)) \<longrightarrow> k \<notin> set order)) [0..<length cs]"
      unfolding list_all_length
    proof (intro allI impI)
      fix n assume n: "n < length [0..<length cs]" and d: "c_at (cs ! ([0..<length cs] ! n)) = Call_Done"
      then obtain config where "config \<in> set (c_configs (cs ! n))" "shown config (c_level (cs ! n)) = (n \<in> set order)"
        using D(3) [of n] assms(2) by (auto simp: stage_ok_def list_ex_iff)
      with n show "((\<forall>i < length (c_configs (cs ! ([0..<length cs] ! n))).
            shown (c_configs (cs ! ([0..<length cs] ! n)) ! i) (c_level (cs ! ([0..<length cs] ! n)))) \<longrightarrow> [0..<length cs] ! n \<in> set order) \<and>
          ((\<forall>i < length (c_configs (cs ! ([0..<length cs] ! n))).
            \<not> shown (c_configs (cs ! ([0..<length cs] ! n)) ! i) (c_level (cs ! ([0..<length cs] ! n)))) \<longrightarrow> [0..<length cs] ! n \<notin> set order)"
        by (auto simp: in_set_conv_nth)
    qed
  qed
qed

text \<open>The texts of an order do not change.\<close>

lemma texts_same:
  assumes "\<And>k. k \<in> set order \<Longrightarrow> c_text (cs' ! k) = c_text (cs ! k)"
  shows "texts_of cs' order = texts_of cs order"
  using assms by (simp add: texts_of_def)

lemma text_update [simp]: "c_text (cs[k := (cs ! k)\<lparr>c_at := a\<rparr>] ! i) = c_text (cs ! i)"
  by (cases "k < length cs"; cases "i = k") (simp_all add: list_update_beyond)

lemma texts_update [simp]: "texts_of (cs[k := (cs ! k)\<lparr>c_at := a\<rparr>]) order = texts_of cs order"
  by (rule texts_same) (rule text_update)

lemma texts_snoc [simp]: "texts_of cs (order @ [k]) = texts_of cs order @ [c_text (cs ! k)]"
  by (simp add: texts_of_def)

lemma run_logger_inv:
  assumes "run_logger f r = Some r'" "run_inv r" "\<And>s s'. f s = Some s' \<Longrightarrow> logger_inv s \<Longrightarrow> logger_kept s s'"
    and "\<And>s'. f (the_logger r) = Some s' \<Longrightarrow> m_destructor (the_logger r) = Alive \<Longrightarrow> m_destructor s' \<noteq> Alive \<Longrightarrow>
      \<forall>c \<in> set (callers r). c_at c = Call_Done"
  shows "run_inv r'"
proof -
  obtain s' where s': "f (the_logger r) = Some s'" "r' = r\<lparr>the_logger := s'\<rparr>"
    using assms(1) by (auto simp: run_logger_def)
  have "logger_kept (the_logger r) s'" using assms(2) by (intro assms(3) [OF s'(1)]) (simp add: run_inv_def)
  with assms(2) assms(4) [OF s'(1)] s'(2) show ?thesis by (auto simp: run_inv_def logger_kept_def calls_inv_def)
qed

lemma caller_move_inv:
  assumes "move_logger (Caller_Move k) r = Some r'" "run_inv r"
  shows "run_inv r'"
proof -
  let ?s = "the_logger r" and ?cs = "callers r" and ?c = "callers r ! k"
  have k: "k < length ?cs" using assms(1) by (simp split: if_splits)
  have inv: "logger_inv ?s" "calls_inv ?s ?cs" "output_inv shows_console console_stage ?cs (console_order r)"
    "output_inv shows_file file_stage ?cs (file_order r)"
    using assms(2) by (simp_all add: run_inv_def)
  have step: "caller_step ?c ?s \<noteq> None" using assms(1) k by auto
  then have at: "c_at ?c \<noteq> Call_Done" by (auto simp: caller_step_def)
  then have alive: "m_destructor ?s = Alive" and config: "m_config ?s \<in> set (c_configs ?c)"
    using inv(2) k by (auto simp: calls_inv_def)
  have fresh: "l < length ?cs \<Longrightarrow> k \<notin> set (c_before (?cs ! l))" for l
    using inv(2) at by (auto simp: calls_inv_def)
  have in_console: "stage_ok shows_console ?c (k \<in> set (console_order r)) (console_stage (c_at ?c))"
    and in_file: "stage_ok shows_file ?c (k \<in> set (file_order r)) (file_stage (c_at ?c))"
    using output_invD(3) [OF inv(3) k] output_invD(3) [OF inv(4) k] .
  have calls: "calls_inv s' (?cs[k := ?c\<lparr>c_at := a\<rparr>])" if "m_config s' = m_config ?s" "m_destructor s' = Alive" for s' a
    using inv(2) fresh that config k unfolding calls_inv_def by (auto simp: nth_list_update)
  have seen: "shown (m_config ?s) (c_level ?c) = p \<Longrightarrow> list_ex (\<lambda>config. shown config (c_level ?c) = p) (c_configs ?c)"
    for shown :: "LoggerConfig \<Rightarrow> LogLevel \<Rightarrow> bool" and p
    using config by (auto simp: list_ex_iff)
  have go: "run_inv (r\<lparr>callers := ?cs[k := ?c\<lparr>c_at := a\<rparr>]\<rparr>)"
    if "stage_ok shows_console ?c (k \<in> set (console_order r)) (console_stage a)"
      "stage_ok shows_file ?c (k \<in> set (file_order r)) (file_stage a)" for a
    using assms(2) calls [OF refl alive] output_go [OF inv(3) k that(1)] output_go [OF inv(4) k that(2)]
    by (simp add: run_inv_def)
  show ?thesis
  proof (cases "c_at ?c")
    case At_Console
    let ?a = "if shows_console (m_config ?s) (c_level ?c) then Pushes_Console else At_File"
    have "r' = r\<lparr>callers := ?cs[k := ?c\<lparr>c_at := ?a\<rparr>]\<rparr>"
      using assms(1) k At_Console by (simp add: caller_step_def)
    moreover have "run_inv (r\<lparr>callers := ?cs[k := ?c\<lparr>c_at := ?a\<rparr>]\<rparr>)"
      by (rule go) (use At_Console in_console in_file seen [of shows_console] in \<open>auto simp: stage_ok_def\<close>)
    ultimately show ?thesis by simp
  next
    case At_File
    let ?a = "if shows_file (m_config ?s) (c_level ?c) then Pushes_File else Call_Done"
    have "r' = r\<lparr>callers := ?cs[k := ?c\<lparr>c_at := ?a\<rparr>]\<rparr>"
      using assms(1) k At_File by (simp add: caller_step_def)
    moreover have "run_inv (r\<lparr>callers := ?cs[k := ?c\<lparr>c_at := ?a\<rparr>]\<rparr>)"
      by (rule go) (use At_File in_console in_file seen [of shows_file] in \<open>auto simp: stage_ok_def\<close>)
    ultimately show ?thesis by simp
  next
    case Pushes_Console
    let ?cs' = "?cs[k := ?c\<lparr>c_at := At_File\<rparr>]"
    have r': "r' = r\<lparr>the_logger := push_console (c_text ?c) ?s, callers := ?cs', console_order := console_order r @ [k]\<rparr>"
      using assms(1) k Pushes_Console by (simp add: caller_step_def)
    have "output_inv shows_console console_stage ?cs' (console_order r @ [k])"
      by (rule output_push [OF inv(3) k]) (simp_all add: Pushes_Console fresh)
    moreover have "output_inv shows_file file_stage ?cs' (file_order r)"
      by (rule output_go [OF inv(4) k]) (use in_file Pushes_Console in \<open>simp add: stage_ok_def\<close>)
    moreover have "calls_inv (push_console (c_text ?c) ?s) ?cs'"
      by (rule calls) (simp_all add: push_console_def alive)
    ultimately show ?thesis
      using assms(2) push_inv(1) [OF alive inv(1)] by (simp add: run_inv_def r') (simp add: push_console_def)
  next
    case Pushes_File
    let ?cs' = "?cs[k := ?c\<lparr>c_at := Call_Done\<rparr>]"
    have r': "r' = r\<lparr>the_logger := push_file (c_text ?c) ?s, callers := ?cs', file_order := file_order r @ [k]\<rparr>"
      using assms(1) k Pushes_File by (simp add: caller_step_def)
    have "output_inv shows_file file_stage ?cs' (file_order r @ [k])"
      by (rule output_push [OF inv(4) k]) (simp_all add: Pushes_File fresh)
    moreover have "output_inv shows_console console_stage ?cs' (console_order r)"
      by (rule output_go [OF inv(3) k]) (use in_console Pushes_File in \<open>simp add: stage_ok_def\<close>)
    moreover have "calls_inv (push_file (c_text ?c) ?s) ?cs'"
      by (rule calls) (simp_all add: push_file_def alive)
    ultimately show ?thesis
      using assms(2) push_inv(2) [OF alive inv(1)] by (simp add: run_inv_def r') (simp add: push_file_def)
  qed (use at in simp)
qed

lemma move_logger_inv:
  assumes "move_logger v r = Some r'" "run_inv r"
  shows "run_inv r'"
proof (cases v)
  case (Begin_Move level log_str)
  let ?s = "the_logger r" and ?cs = "callers r"
  let ?c = "\<lparr>c_level = level, c_text = log_str, c_at = At_Console, c_configs = [m_config ?s], c_before = calls_done ?cs\<rparr>"
  have r': "r' = r\<lparr>callers := ?cs @ [?c]\<rparr>" and alive: "m_destructor ?s = Alive"
    using assms(1) Begin_Move by (simp_all split: if_splits)
  have inv: "calls_inv ?s ?cs" "output_inv shows_console console_stage ?cs (console_order r)"
    "output_inv shows_file file_stage ?cs (file_order r)"
    using assms(2) by (simp_all add: run_inv_def)
  have "calls_inv ?s (?cs @ [?c])"
    using inv(1) alive by (auto simp: calls_inv_def nth_append less_Suc_eq calls_done_def)
  moreover have "texts_of (?cs @ [?c]) (console_order r) = texts_of ?cs (console_order r)"
    by (rule texts_same) (simp add: nth_append output_invD(2) [OF inv(2)])
  moreover have "texts_of (?cs @ [?c]) (file_order r) = texts_of ?cs (file_order r)"
    by (rule texts_same) (simp add: nth_append output_invD(2) [OF inv(3)])
  ultimately show ?thesis
    using assms(2) output_begin [OF inv(2), of ?c] output_begin [OF inv(3), of ?c] by (simp add: run_inv_def r')
next
  case (Caller_Move k)
  with caller_move_inv assms show ?thesis by blast
next
  case (Config_Move config)
  let ?s = "the_logger r" and ?cs = "callers r"
  have r': "r' = r\<lparr>the_logger := set_logger_config config ?s, callers := map (see_config config) ?cs\<rparr>" and alive: "m_destructor ?s = Alive"
    using assms(1) Config_Move by (simp_all split: if_splits)
  have inv: "logger_inv ?s" "calls_inv ?s ?cs" "output_inv shows_console console_stage ?cs (console_order r)"
    "output_inv shows_file file_stage ?cs (file_order r)"
    using assms(2) by (simp_all add: run_inv_def)
  have "calls_inv (set_logger_config config ?s) (map (see_config config) ?cs)"
    using inv(2) alive by (auto simp: calls_inv_def set_logger_config_def see_config_def)
  moreover have "texts_of (map (see_config config) ?cs) (console_order r) = texts_of ?cs (console_order r)"
    by (rule texts_same) (simp add: see_config_def output_invD(2) [OF inv(3)])
  moreover have "texts_of (map (see_config config) ?cs) (file_order r) = texts_of ?cs (file_order r)"
    by (rule texts_same) (simp add: see_config_def output_invD(2) [OF inv(4)])
  moreover have "logger_inv (set_logger_config config ?s)"
    using inv(1) by (simp add: logger_inv_def console_stopped_def file_stopped_def set_logger_config_def)
  ultimately show ?thesis
    using assms(2) output_config [OF inv(3)] output_config [OF inv(4)]
    by (simp add: run_inv_def r') (simp add: set_logger_config_def)
next
  case (Settings_Move settings)
  with assms show ?thesis
    by (auto simp: run_inv_def calls_inv_def logger_inv_def console_stopped_def file_stopped_def set_output_settings_def split: if_splits)
next
  case Console_Move
  with assms(1) have "run_logger console_step r = Some r'" by simp
  then show ?thesis
    by (rule run_logger_inv [OF _ assms(2) console_step_kept])
       (auto simp: console_step_def handler_step_def wake_destructor_def split: handler_at.splits list.splits if_splits)
next
  case File_Move
  with assms(1) have "run_logger file_step r = Some r'" by simp
  then show ?thesis
    by (rule run_logger_inv [OF _ assms(2) file_step_kept])
       (auto simp: file_step_def handler_step_def wake_destructor_def split: handler_at.splits list.splits if_splits)
next
  case Stop_Move
  with assms(1) have "run_logger stop_step r = Some r'" "m_destructor (the_logger r) = Alive \<longrightarrow> (\<forall>c \<in> set (callers r). c_at c = Call_Done)"
    by (auto simp: list_ex_iff split: if_splits)
  then show ?thesis
    by (intro run_logger_inv [OF _ assms(2) stop_step_kept]) blast+
qed

lemma logger_moves_inv: "logger_moves vs r = Some r' \<Longrightarrow> run_inv r \<Longrightarrow> run_inv r'"
  by (induction vs arbitrary: r) (auto intro: move_logger_inv split: Option.bind_splits)

lemma new_run_inv: "run_inv (new_logger_run config can_open)"
  using new_logger_inv [of config can_open]
  by (simp add: run_inv_def new_logger_run_def calls_inv_def output_inv_def texts_of_def)

text \<open>Whether the outputs can be opened does not change.\<close>

lemma move_logger_opens:
  "move_logger v r = Some r' \<Longrightarrow> sink_opens (m_console (the_logger r')) = sink_opens (m_console (the_logger r)) \<and>
     sink_opens (m_file (the_logger r')) = sink_opens (m_file (the_logger r))"
  by (cases v)
    (auto simp: run_logger_def console_step_def file_step_def stop_step_def handler_step_def caller_step_def push_console_def push_file_def
      set_logger_config_def set_output_settings_def write_out_def Let_def
      split: if_splits handler_at.splits list.splits destructor_at.splits caller_at.splits)

lemma logger_moves_opens:
  "logger_moves vs r = Some r' \<Longrightarrow> sink_opens (m_console (the_logger r')) = sink_opens (m_console (the_logger r)) \<and>
     sink_opens (m_file (the_logger r')) = sink_opens (m_file (the_logger r))"
  by (induction vs arbitrary: r) (auto dest: move_logger_opens split: Option.bind_splits)

text \<open>C37: However the calls of several threads, new configurations, the two threads and the destructor interleave: what was
  written to the console, what its thread has in hand and what waits are, in this order, the texts of the calls that have pushed to
  the console, each once. A call that has returned has pushed to an output when every configuration in force while it ran shows
  its level there, and has not when none does; and in neither output is a call behind one that began after it had returned.
  When the destructor has ended, all calls have returned and all their texts have been written to the console, and those for the
  file to the file, unless it cannot be opened. Calls that overlap may be in different orders in the two outputs.\<close>

theorem logger_writes_all:
  assumes "logger_moves vs (new_logger_run config can_open) = Some r"
  shows "recorded shows_console (callers r) (console_order r) \<and> recorded shows_file (callers r) (file_order r) \<and>
    sink_out (m_console (the_logger r)) @ in_hand (m_console (the_logger r)) @ sink_queue (m_console (the_logger r)) =
      texts_of (callers r) (console_order r) \<and>
    (m_destructor (the_logger r) = Destroyed \<longrightarrow>
       list_all (\<lambda>c. c_at c = Call_Done) (callers r) \<and>
       sink_out (m_console (the_logger r)) = texts_of (callers r) (console_order r) \<and>
       sink_out (m_file (the_logger r)) = (if can_open then texts_of (callers r) (file_order r) else []))"
proof -
  let ?s = "the_logger r"
  have r: "run_inv r" using logger_moves_inv [OF assms new_run_inv] .
  have opens: "sink_opens (m_console ?s)" "sink_opens (m_file ?s) = can_open"
    using logger_moves_opens [OF assms] new_logger_inv [of config can_open] by (simp_all add: new_logger_run_def)
  have logged: "sink_logged (m_console ?s) = texts_of (callers r) (console_order r)"
    "sink_logged (m_file ?s) = texts_of (callers r) (file_order r)"
    and rec: "recorded shows_console (callers r) (console_order r)" "recorded shows_file (callers r) (file_order r)"
    and calls: "m_destructor ?s \<noteq> Alive \<Longrightarrow> \<forall>c \<in> set (callers r). c_at c = Call_Done"
    using r output_recorded [of shows_console console_stage] output_recorded [of shows_file file_stage]
    by (simp_all add: run_inv_def calls_inv_def)
  have inv: "sink_inv (console_stopped ?s) (m_console ?s)" "sink_inv (file_stopped ?s) (m_file ?s)"
    "m_destructor ?s = Destroyed \<Longrightarrow> thread_joined (m_file ?s) \<and> thread_joined (m_console ?s)"
    using r by (simp_all add: run_inv_def logger_inv_def)
  show ?thesis
  proof (intro conjI impI rec)
    show "sink_out (m_console ?s) @ in_hand (m_console ?s) @ sink_queue (m_console ?s) = texts_of (callers r) (console_order r)"
      using inv(1) logged(1) opens(1) by (simp add: sink_inv_def)
    assume d: "m_destructor ?s = Destroyed"
    show "list_all (\<lambda>c. c_at c = Call_Done) (callers r)" using calls d by (simp add: list_all_iff)
    show "sink_out (m_console ?s) = texts_of (callers r) (console_order r)"
      using joined_done [OF inv(1)] inv(3) [OF d] logged(1) opens(1) by simp
    show "sink_out (m_file ?s) = (if can_open then texts_of (callers r) (file_order r) else [])"
      using joined_done [OF inv(2)] inv(3) [OF d] logged(2) opens(2) by simp
  qed
qed

section \<open>The destructor ends\<close>

primrec handler_work :: "handler_at \<Rightarrow> nat" where
  "handler_work Not_Started = 0"
| "handler_work Returned = 0"
| "handler_work Asleep = 1"
| "handler_work At_Condition = 2"
| "handler_work (Writing log_str) = 3"

definition sink_work :: "log_sink \<Rightarrow> nat" where "sink_work k = 4 * length (sink_queue k) + handler_work (sink_thread k)"

primrec destructor_work :: "destructor_at \<Rightarrow> nat" where
  "destructor_work Alive = 14"
| "destructor_work Console_Looks = 12"
| "destructor_work Console_Asleep = 11"
| "destructor_work File_Begins = 8"
| "destructor_work File_Looks = 5"
| "destructor_work File_Asleep = 4"
| "destructor_work Joins_File = 2"
| "destructor_work Joins_Console = 1"
| "destructor_work Destroyed = 0"

definition logger_work :: "AsyncLogger \<Rightarrow> nat" where
  "logger_work s = sink_work (m_console s) + sink_work (m_file s) + destructor_work (m_destructor s)"

lemma stop_sink_work: "sink_work (stop_sink k) \<le> sink_work k + 1"
  by (cases "sink_thread k") (simp_all add: sink_work_def stop_sink_def wake_handler_def)

lemma handler_step_work:
  assumes "handler_step asleep looks (k, d) = Some (k', d')" "destructor_work looks = destructor_work asleep + 1"
  shows "sink_work k' + destructor_work d' < sink_work k + destructor_work d"
  using assms
  by (auto simp: handler_step_def sink_work_def write_out_def wake_destructor_def split: handler_at.splits list.splits if_splits)

lemma console_step_work:
  assumes "console_step s = Some s'" "m_destructor s \<noteq> Alive"
  shows "logger_work s' < logger_work s \<and> m_destructor s' \<noteq> Alive"
proof -
  obtain k d where h: "handler_step Console_Asleep Console_Looks (m_console s, m_destructor s) = Some (k, d)"
    "s' = s\<lparr>m_console := k, m_destructor := d\<rparr>" using assms(1) by (auto simp: console_step_def)
  from h(1) have "d = m_destructor s \<or> d = Console_Looks"
    by (auto simp: handler_step_def wake_destructor_def split: handler_at.splits list.splits if_splits)
  with handler_step_work [OF h(1)] h(2) assms(2) show ?thesis by (auto simp: logger_work_def)
qed

lemma file_step_work:
  assumes "file_step s = Some s'" "m_destructor s \<noteq> Alive"
  shows "logger_work s' < logger_work s \<and> m_destructor s' \<noteq> Alive"
proof -
  obtain k d where h: "handler_step File_Asleep File_Looks (m_file s, m_destructor s) = Some (k, d)"
    "s' = s\<lparr>m_file := k, m_destructor := d\<rparr>" using assms(1) by (auto simp: file_step_def)
  from h(1) have "d = m_destructor s \<or> d = File_Looks"
    by (auto simp: handler_step_def wake_destructor_def split: handler_at.splits list.splits if_splits)
  with handler_step_work [OF h(1)] h(2) assms(2) show ?thesis by (auto simp: logger_work_def)
qed

lemma stop_step_work:
  assumes "stop_step s = Some s'" "m_destructor s \<noteq> Alive"
  shows "logger_work s' < logger_work s \<and> m_destructor s' \<noteq> Alive"
  using assms stop_sink_work [of "m_file s"]
  by (cases "m_destructor s") (auto simp: stop_step_def Let_def logger_work_def split: if_splits)

text \<open>Once the destructor has begun, no call is left that could move.\<close>

lemma logger_move_work:
  assumes "move_logger v r = Some r'" "m_destructor (the_logger r) \<noteq> Alive" "run_inv r"
  shows "logger_work (the_logger r') < logger_work (the_logger r) \<and> m_destructor (the_logger r') \<noteq> Alive"
proof (cases v)
  case (Caller_Move k)
  have "c_at (callers r ! k) = Call_Done" if "k < length (callers r)"
    using assms(2,3) that by (simp add: run_inv_def calls_inv_def)
  with assms(1) Caller_Move show ?thesis by (auto simp: caller_step_def split: if_splits)
next
  case Console_Move
  with assms console_step_work show ?thesis by (auto simp: run_logger_def)
next
  case File_Move
  with assms file_step_work show ?thesis by (auto simp: run_logger_def)
next
  case Stop_Move
  with assms stop_step_work show ?thesis by (auto simp: run_logger_def)
qed (use assms in simp_all)

lemma handler_can_step:
  "sink_inv stopped k \<Longrightarrow> sink_queue k \<noteq> [] \<or> stopped \<and> \<not> thread_joined k \<Longrightarrow> handler_step asleep looks (k, d) \<noteq> None"
  by (cases "sink_thread k"; cases "sink_queue k") (auto simp: handler_step_def sink_inv_def thread_joined_def)

text \<open>C38: The destructor ends: while it runs there is always a step that a thread or the destructor can make, and there are only
  so many, since each of them leaves less work.\<close>

theorem logger_destructor_ends:
  assumes "logger_moves vs (new_logger_run config can_open) = Some r" "m_destructor (the_logger r) \<noteq> Alive"
  shows "(m_destructor (the_logger r) \<noteq> Destroyed \<longrightarrow> (\<exists>v \<in> {Console_Move, File_Move, Stop_Move}. move_logger v r \<noteq> None)) \<and>
    (\<forall>ws r'. logger_moves ws r = Some r' \<longrightarrow> length ws + logger_work (the_logger r') \<le> logger_work (the_logger r))"
proof
  let ?s = "the_logger r"
  have run: "run_inv r" using logger_moves_inv [OF assms(1) new_run_inv] .
  then have inv: "logger_inv ?s" by (simp add: run_inv_def)
  then have c: "sink_inv (console_stopped ?s) (m_console ?s)" and f: "sink_inv (file_stopped ?s) (m_file ?s)"
    by (simp_all add: logger_inv_def)
  have can: "f ?s \<noteq> None \<Longrightarrow> run_logger f r \<noteq> None" for f by (simp add: run_logger_def)
  show "m_destructor ?s \<noteq> Destroyed \<longrightarrow> (\<exists>v \<in> {Console_Move, File_Move, Stop_Move}. move_logger v r \<noteq> None)"
  proof (cases "stop_step ?s = None")
    case True
    then consider "m_destructor ?s = Console_Asleep" | "m_destructor ?s = File_Asleep" | "m_destructor ?s = Destroyed"
      | "m_destructor ?s = Joins_File" "\<not> thread_joined (m_file ?s)" | "m_destructor ?s = Joins_Console" "\<not> thread_joined (m_console ?s)"
      using assms(2) by (cases "m_destructor ?s") (auto simp: stop_step_def Let_def split: if_splits)
    then show ?thesis
    proof cases
      case 1
      then have "console_step ?s \<noteq> None"
        using inv handler_can_step [OF c, of Console_Asleep Console_Looks "m_destructor ?s"] by (simp add: console_step_def logger_inv_def)
      then show ?thesis using can [of console_step] by simp
    next
      case 2
      then have "file_step ?s \<noteq> None"
        using inv handler_can_step [OF f, of File_Asleep File_Looks "m_destructor ?s"] by (simp add: file_step_def logger_inv_def)
      then show ?thesis using can [of file_step] by simp
    next
      case 4
      then have "file_step ?s \<noteq> None"
        using handler_can_step [OF f, of File_Asleep File_Looks "m_destructor ?s"] by (simp add: file_step_def file_stopped_def)
      then show ?thesis using can [of file_step] by simp
    next
      case 5
      then have "console_step ?s \<noteq> None"
        using handler_can_step [OF c, of Console_Asleep Console_Looks "m_destructor ?s"] by (simp add: console_step_def console_stopped_def)
      then show ?thesis using can [of console_step] by simp
    qed simp
  next
    case False
    then show ?thesis using can [of stop_step] assms(2) by simp
  qed
  have "logger_moves ws t = Some r' \<Longrightarrow> m_destructor (the_logger t) \<noteq> Alive \<Longrightarrow> run_inv t \<Longrightarrow>
      length ws + logger_work (the_logger r') \<le> logger_work (the_logger t)" for ws t r'
  proof (induction ws arbitrary: t)
    case (Cons w ws)
    then obtain t1 where t1: "move_logger w t = Some t1" "logger_moves ws t1 = Some r'" by (auto split: Option.bind_splits)
    note w = logger_move_work [OF t1(1) Cons.prems(2,3)]
    from Cons.IH [OF t1(2)] w move_logger_inv [OF t1(1) Cons.prems(3)] show ?case by simp
  qed simp
  with assms(2) run show "\<forall>ws r'. logger_moves ws r = Some r' \<longrightarrow> length ws + logger_work (the_logger r') \<le> logger_work ?s"
    by blast
qed

text \<open>A run to its end: two calls that overlap, and a third one that is only for the file. The first two push to the
  console in one order and to the file in the other.\<close>

definition demo_moves :: "logger_move list" where
  "demo_moves =
     [Console_Move, Begin_Move Log_WARN ''a'', Begin_Move Log_WARN ''b'', Caller_Move 0, Caller_Move 0, Caller_Move 1, Caller_Move 1,
      Caller_Move 1, Caller_Move 1, Caller_Move 0, Caller_Move 0, Begin_Move Log_DEBUG ''c'', Caller_Move 2, Caller_Move 2, Caller_Move 2,
      File_Move, Stop_Move, Console_Move, Console_Move, Console_Move, Stop_Move, Console_Move,
      Stop_Move, File_Move, File_Move, File_Move, File_Move, Stop_Move, File_Move, File_Move, Stop_Move, Console_Move, Stop_Move]"

definition demo_config :: LoggerConfig where "demo_config = new_LoggerConfig\<lparr>console_level := Log_INFO\<rparr>"

lemmas demo_run_simps =
  demo_moves_def demo_config_def new_logger_run_def new_async_logger_def new_LoggerConfig_def start_async_log_def start_sink_def new_sink_def
  run_logger_def caller_step_def push_console_def push_file_def shows_console_def shows_file_def calls_done_def
  sink_log_def console_step_def file_step_def stop_step_def handler_step_def wake_handler_def stop_sink_def write_out_def
  wake_destructor_def thread_joined_def less_eq_LogLevel_def Let_def

lemma demo_moves_run:
  "\<exists>r. logger_moves demo_moves (new_logger_run demo_config True) = Some r \<and> m_destructor (the_logger r) = Destroyed \<and>
     texts_of (callers r) (console_order r) = [''a'', ''b''] \<and> texts_of (callers r) (file_order r) = [''b'', ''a'', ''c'']"
  by (simp add: demo_run_simps texts_of_def)

theorem logger_writes_all_witness:
  "\<exists>r. logger_moves demo_moves (new_logger_run demo_config True) = Some r \<and>
     sink_out (m_console (the_logger r)) = [''a'', ''b''] \<and> sink_out (m_file (the_logger r)) = [''b'', ''a'', ''c'']"
proof -
  obtain r where r: "logger_moves demo_moves (new_logger_run demo_config True) = Some r" "m_destructor (the_logger r) = Destroyed"
    "texts_of (callers r) (console_order r) = [''a'', ''b'']" "texts_of (callers r) (file_order r) = [''b'', ''a'', ''c'']"
    using demo_moves_run by blast
  with logger_writes_all [OF r(1)] show ?thesis by auto
qed

theorem logger_destructor_ends_witness:
  "\<exists>r. logger_moves (take 20 demo_moves) (new_logger_run demo_config True) = Some r \<and>
     (\<exists>v \<in> {Console_Move, File_Move, Stop_Move}. move_logger v r \<noteq> None) \<and>
     (\<forall>ws r'. logger_moves ws r = Some r' \<longrightarrow> length ws + logger_work (the_logger r') \<le> logger_work (the_logger r))"
proof -
  obtain r where r: "logger_moves (take 20 demo_moves) (new_logger_run demo_config True) = Some r"
    "m_destructor (the_logger r) \<noteq> Alive" "m_destructor (the_logger r) \<noteq> Destroyed"
    by (simp add: demo_run_simps)
  with logger_destructor_ends [OF r(1,2)] show ?thesis by blast
qed

end
