(* ===== verification/Log_Calls.thy ===== *)
theory Log_Calls
  imports Async_Logger
begin

text \<open>
  How the program logs: the calls of \<open>i_logger.hpp\<close> for the levels and the macros of \<open>logger_manager.hpp\<close> on top, over the
  manager and its loggers. The loggers are shared objects: the manager holds their numbers, and \<open>w_loggers\<close> is the store.
  The text that \<open>std::format\<close> makes of the arguments, the time and the source of the call are arguments.
\<close>

record log_call =
  call_time :: string
  call_source :: log_source
  call_text :: string

definition log_at :: "LogLevel \<Rightarrow> log_call \<Rightarrow> AsyncLogger \<Rightarrow> AsyncLogger" where
  "log_at level c s = log_msg level (log_text (m_output_setting s) (call_time c) level (call_source c) (call_text c)) s"

definition logger_trace :: "log_call \<Rightarrow> AsyncLogger \<Rightarrow> AsyncLogger" where "logger_trace = log_at Log_TRACE"

definition logger_debug :: "log_call \<Rightarrow> AsyncLogger \<Rightarrow> AsyncLogger" where "logger_debug = log_at Log_DEBUG"

definition logger_info :: "log_call \<Rightarrow> AsyncLogger \<Rightarrow> AsyncLogger" where "logger_info = log_at Log_INFO"

definition logger_warn :: "log_call \<Rightarrow> AsyncLogger \<Rightarrow> AsyncLogger" where "logger_warn = log_at Log_WARN"

definition logger_error :: "log_call \<Rightarrow> AsyncLogger \<Rightarrow> AsyncLogger" where "logger_error = log_at Log_ERROR"

definition logger_fatal :: "log_call \<Rightarrow> AsyncLogger \<Rightarrow> AsyncLogger" where "logger_fatal = log_at Log_FATAL"

record log_world =
  w_manager :: "nat LoggerManager"
  w_loggers :: "nat \<Rightarrow> AsyncLogger"

text \<open>What the macros have in common: look the logger up and, if there is one, call it.\<close>

definition with_logger :: "string \<Rightarrow> (AsyncLogger \<Rightarrow> AsyncLogger) \<Rightarrow> log_world \<Rightarrow> log_world" where
  "with_logger name f w =
     (case get_logger name (w_manager w) of
        None \<Rightarrow> w
      | Some i \<Rightarrow> w\<lparr>w_loggers := (w_loggers w)(i := f (w_loggers w i))\<rparr>)"

definition DANEJOE_LOG_TRACE :: "string \<Rightarrow> log_call \<Rightarrow> log_world \<Rightarrow> log_world" where
  "DANEJOE_LOG_TRACE name c = with_logger name (logger_trace c)"

definition DANEJOE_LOG_DEBUG :: "string \<Rightarrow> log_call \<Rightarrow> log_world \<Rightarrow> log_world" where
  "DANEJOE_LOG_DEBUG name c = with_logger name (logger_debug c)"

definition DANEJOE_LOG_INFO :: "string \<Rightarrow> log_call \<Rightarrow> log_world \<Rightarrow> log_world" where
  "DANEJOE_LOG_INFO name c = with_logger name (logger_info c)"

definition DANEJOE_LOG_WARN :: "string \<Rightarrow> log_call \<Rightarrow> log_world \<Rightarrow> log_world" where
  "DANEJOE_LOG_WARN name c = with_logger name (logger_warn c)"

definition DANEJOE_LOG_ERROR :: "string \<Rightarrow> log_call \<Rightarrow> log_world \<Rightarrow> log_world" where
  "DANEJOE_LOG_ERROR name c = with_logger name (logger_error c)"

definition DANEJOE_LOG_FATAL :: "string \<Rightarrow> log_call \<Rightarrow> log_world \<Rightarrow> log_world" where
  "DANEJOE_LOG_FATAL name c = with_logger name (logger_fatal c)"

definition log_macros :: "(LogLevel \<times> (string \<Rightarrow> log_call \<Rightarrow> log_world \<Rightarrow> log_world)) list" where
  "log_macros =
     [(Log_TRACE, DANEJOE_LOG_TRACE), (Log_DEBUG, DANEJOE_LOG_DEBUG), (Log_INFO, DANEJOE_LOG_INFO),
      (Log_WARN, DANEJOE_LOG_WARN), (Log_ERROR, DANEJOE_LOG_ERROR), (Log_FATAL, DANEJOE_LOG_FATAL)]"

section \<open>Every message has one logger\<close>

lemma macro_is_log_at: "(level, log) \<in> set log_macros \<Longrightarrow> log name c = with_logger name (log_at level c)"
  by (auto simp: log_macros_def DANEJOE_LOG_TRACE_def DANEJOE_LOG_DEBUG_def DANEJOE_LOG_INFO_def DANEJOE_LOG_WARN_def
      DANEJOE_LOG_ERROR_def DANEJOE_LOG_FATAL_def logger_trace_def logger_debug_def logger_info_def logger_warn_def
      logger_error_def logger_fatal_def)

lemma sink_log_records: "sink_logged (sink_log t k) = sink_logged k @ [t]"
  by (simp add: sink_log_def Let_def wake_handler_def write_out_def)

lemma log_msg_records:
  "sink_logged (m_console (log_msg level t s)) =
     sink_logged (m_console s) @ (if enable_console (m_config s) \<and> console_level (m_config s) \<le> level then [t] else [])"
  "sink_logged (m_file (log_msg level t s)) =
     sink_logged (m_file s) @ (if enable_file (m_config s) \<and> file_level (m_config s) \<le> level then [t] else [])"
  by (simp_all add: log_msg_def push_console_def push_file_def shows_console_def shows_file_def Let_def sink_log_records)

lemma log_msg_settings: "m_output_setting (log_msg level t s) = m_output_setting s" "m_config (log_msg level t s) = m_config s"
  by (simp_all add: log_msg_def push_console_def push_file_def Let_def)

text \<open>Whatever name a macro is given, exactly one logger gets the message, with the header its settings ask for: the
  logger of this name, or the default logger if there is none. It goes to the outputs whose level it has; every other
  logger and the manager stay as they are.\<close>

theorem macros_reach_one_logger:
  assumes "managers d (w_manager w)" "(level, log) \<in> set log_macros" "log name c w = w'"
  shows "\<exists>i. i = (case m_logger_map (w_manager w) name of None \<Rightarrow> d new_LoggerConfig | Some j \<Rightarrow> j) \<and>
    w_manager w' = w_manager w \<and> (\<forall>j. j \<noteq> i \<longrightarrow> w_loggers w' j = w_loggers w j) \<and>
    (let old = w_loggers w i; new = w_loggers w' i;
         text = log_text (m_output_setting old) (call_time c) level (call_source c) (call_text c)
     in m_config new = m_config old \<and>
        sink_logged (m_console new) = sink_logged (m_console old) @
          (if enable_console (m_config old) \<and> console_level (m_config old) \<le> level then [text] else []) \<and>
        sink_logged (m_file new) = sink_logged (m_file old) @
          (if enable_file (m_config old) \<and> file_level (m_config old) \<le> level then [text] else []))"
proof -
  let ?i = "case m_logger_map (w_manager w) name of None \<Rightarrow> d new_LoggerConfig | Some j \<Rightarrow> j"
  have "get_logger name (w_manager w) = Some ?i"
    using managers_default [OF assms(1)] by (simp add: get_logger_def new_LoggerConfig_def split: option.split)
  with assms(3) macro_is_log_at [OF assms(2)] have "w' = w\<lparr>w_loggers := (w_loggers w)(?i := log_at level c (w_loggers w ?i))\<rparr>"
    by (simp add: with_logger_def)
  then show ?thesis by (simp add: Let_def log_at_def log_msg_records log_msg_settings)
qed

definition demo_call :: log_call where
  "demo_call = \<lparr>call_time = ''noon'', call_source = \<lparr>source_module = ''net'', source_file = [], source_function = [], source_line = 1,
     source_process = 2, source_thread = []\<rparr>, call_text = ''hello''\<rparr>"

definition demo_world :: "nat LoggerManager \<Rightarrow> log_world" where
  "demo_world m = \<lparr>w_manager = m, w_loggers = (\<lambda>_. new_async_logger new_LoggerConfig True)\<rparr>"

lemma demo_facts:
  "m_output_setting (w_loggers (demo_world m) i) = new_LogOutputSetting" "m_config (w_loggers (demo_world m) i) = new_LoggerConfig"
  "sink_logged (m_console (w_loggers (demo_world m) i)) = []" "w_manager (demo_world m) = m"
  "enable_console new_LoggerConfig" "console_level new_LoggerConfig \<le> Log_INFO"
  "log_text new_LogOutputSetting (call_time demo_call) Log_INFO (call_source demo_call) (call_text demo_call) =
     ''[noon] [INFO] [net] [:] [hello] ''"
  by (simp_all add: demo_world_def new_async_logger_def start_async_log_def start_sink_def new_sink_def new_LoggerConfig_def Let_def
      demo_call_def log_text_def get_header_def new_LogOutputSetting_def bracketed_def less_eq_LogLevel_def)

theorem macros_reach_one_logger_witness:
  "\<exists>m. new_logger_manager (\<lambda>_. 0) = Some m \<and>
     sink_logged (m_console (w_loggers (DANEJOE_LOG_INFO ''net'' demo_call (demo_world m)) 0)) = [''[noon] [INFO] [net] [:] [hello] '']"
proof -
  obtain m where m: "new_logger_manager (\<lambda>_. 0 :: nat) = Some m" "m_logger_map m ''net'' = None"
    by (simp add: new_logger_manager_def add_logger_def add_creator_def new_LoggerConfig_def)
  have "managers (\<lambda>_. 0) (w_manager (demo_world m))" using made [OF m(1)] by (simp add: demo_facts)
  moreover have "(Log_INFO, DANEJOE_LOG_INFO) \<in> set log_macros" by (simp add: log_macros_def)
  ultimately show ?thesis
    using macros_reach_one_logger [of "\<lambda>_. 0" "demo_world m" Log_INFO DANEJOE_LOG_INFO "''net''" demo_call] m
    by (auto simp: Let_def demo_facts)
qed

end
