(* ===== verification/Diagnostics.thy ===== *)
theory Diagnostics
  imports Log_Calls
begin

text \<open>
  Diagnostic events, \<open>common/diagnostic/\<close>: their levels and texts, the system that numbers and collects them, and the
  forwarding to the default logger. The number of a thread and the texts of the time and of the thread are arguments.
\<close>

datatype DiagnosticEventLevel =
  Diag_Trace | Diag_Debug | Diag_Info | Diag_Warn | Diag_Error | Diag_Critical | Diag_Unknown

primrec DiagnosticEventLevel_to_string :: "DiagnosticEventLevel \<Rightarrow> string" where
  "DiagnosticEventLevel_to_string Diag_Trace = ''DiagnosticEventLevel::Trace''"
| "DiagnosticEventLevel_to_string Diag_Debug = ''DiagnosticEventLevel::Debug''"
| "DiagnosticEventLevel_to_string Diag_Info = ''DiagnosticEventLevel::Info''"
| "DiagnosticEventLevel_to_string Diag_Warn = ''DiagnosticEventLevel::Warn''"
| "DiagnosticEventLevel_to_string Diag_Error = ''DiagnosticEventLevel::Error''"
| "DiagnosticEventLevel_to_string Diag_Critical = ''DiagnosticEventLevel::Critical''"
| "DiagnosticEventLevel_to_string Diag_Unknown = ''DiagnosticEventLevel::Unknown''"

definition DiagnosticEventLevel_of_string :: "string \<Rightarrow> DiagnosticEventLevel" where
  "DiagnosticEventLevel_of_string enum_string =
     (if enum_string = ''DiagnosticEventLevel::Trace'' then Diag_Trace
      else if enum_string = ''DiagnosticEventLevel::Debug'' then Diag_Debug
      else if enum_string = ''DiagnosticEventLevel::Info'' then Diag_Info
      else if enum_string = ''DiagnosticEventLevel::Warn'' then Diag_Warn
      else if enum_string = ''DiagnosticEventLevel::Error'' then Diag_Error
      else if enum_string = ''DiagnosticEventLevel::Critical'' then Diag_Critical
      else Diag_Unknown)"

lemma event_levels_read_back: "DiagnosticEventLevel_of_string (DiagnosticEventLevel_to_string l) = l"
  by (cases l) (simp_all add: DiagnosticEventLevel_of_string_def)

record DiagnosticEvent =
  event_id :: u64
  event_thread_id :: u64
  event_level :: DiagnosticEventLevel
  event_module :: string
  event_message :: string
  event_function :: string
  event_line :: u64
  event_file :: string
  event_time :: string

definition show_i64_text :: "u64 \<Rightarrow> string" where "show_i64_text w = show_int (sint w)"

text \<open>The time is the text that the format gives it.\<close>

definition DiagnosticEvent_to_string :: "DiagnosticEvent \<Rightarrow> string" where
  "DiagnosticEvent_to_string e =
     ''occurrence_time='' @ event_time e @ '' | event_id='' @ show_i64_text (event_id e) @ '' | thread_id='' @
     show_i64_text (event_thread_id e) @ '' | level='' @ DiagnosticEventLevel_to_string (event_level e) @ '' | module_name='' @
     event_module e @ '' | function_name='' @ event_function e @ '' | line_number='' @ show_i64_text (event_line e) @
     '' | file_name='' @ event_file e @ '' | message='' @ event_message e"

record DiagnosticSystem =
  m_event_id :: u64
  m_events :: "DiagnosticEvent list"

definition new_diagnostic_system :: DiagnosticSystem where
  "new_diagnostic_system = \<lparr>m_event_id = 0, m_events = []\<rparr>"

text \<open>The event that a call makes; the number is that of the counter. \<open>add_event\<close> does not set the name of the file.\<close>

record event_call =
  ec_level :: DiagnosticEventLevel
  ec_module :: string
  ec_message :: string
  ec_line :: u64
  ec_function :: string
  ec_file :: string
  ec_time :: string
  ec_thread :: u64
  ec_thread_text :: string
  ec_process :: int

definition event_of :: "u64 \<Rightarrow> event_call \<Rightarrow> DiagnosticEvent" where
  "event_of i c =
     \<lparr>event_id = i, event_thread_id = ec_thread c, event_level = ec_level c, event_module = ec_module c,
      event_message = ec_message c, event_function = ec_function c, event_line = ec_line c, event_file = [],
      event_time = ec_time c\<rparr>"

text \<open>The line number is cut to 32 bits for the logger.\<close>

definition log_of_event :: "event_call \<Rightarrow> log_call" where
  "log_of_event c =
     \<lparr>call_time = ec_time c,
      call_source = \<lparr>source_module = ec_module c, source_file = ec_file c, source_function = ec_function c,
        source_line = sint (ucast (ec_line c) :: u32), source_process = ec_process c, source_thread = ec_thread_text c\<rparr>,
      call_text = ec_message c\<rparr>"

primrec logger_for :: "DiagnosticEventLevel \<Rightarrow> log_call \<Rightarrow> AsyncLogger \<Rightarrow> AsyncLogger" where
  "logger_for Diag_Trace = logger_trace"
| "logger_for Diag_Debug = logger_debug"
| "logger_for Diag_Info = logger_info"
| "logger_for Diag_Warn = logger_warn"
| "logger_for Diag_Error = logger_error"
| "logger_for Diag_Critical = logger_fatal"
| "logger_for Diag_Unknown = logger_warn"

definition add_diagnostic :: "event_call \<Rightarrow> DiagnosticSystem \<times> log_world \<Rightarrow> DiagnosticSystem \<times> log_world" where
  "add_diagnostic c = (\<lambda>(s, w).
     (let event = event_of (m_event_id s) c;
          s = s\<lparr>m_event_id := m_event_id s + 1\<rparr>;
          s = s\<lparr>m_events := m_events s @ [event]\<rparr>
      in (s, with_logger ''default'' (logger_for (ec_level c) (log_of_event c)) w)))"

definition add_made_event :: "DiagnosticEvent \<Rightarrow> DiagnosticSystem \<Rightarrow> DiagnosticSystem" where
  "add_made_event event s = s\<lparr>m_events := m_events s @ [event]\<rparr>"

definition clear_events :: "DiagnosticSystem \<Rightarrow> DiagnosticSystem" where
  "clear_events s = s\<lparr>m_events := []\<rparr>"

definition get_events :: "DiagnosticSystem \<Rightarrow> DiagnosticEvent list" where "get_events s = m_events s"

definition get_events_by_module :: "string \<Rightarrow> DiagnosticSystem \<Rightarrow> DiagnosticEvent list" where
  "get_events_by_module module_name s = filter (\<lambda>e. event_module e = module_name) (m_events s)"

section \<open>Collected and logged\<close>

text \<open>The level a message is logged with.\<close>

primrec logged_level :: "DiagnosticEventLevel \<Rightarrow> LogLevel" where
  "logged_level Diag_Trace = Log_TRACE"
| "logged_level Diag_Debug = Log_DEBUG"
| "logged_level Diag_Info = Log_INFO"
| "logged_level Diag_Warn = Log_WARN"
| "logged_level Diag_Error = Log_ERROR"
| "logged_level Diag_Critical = Log_FATAL"
| "logged_level Diag_Unknown = Log_WARN"

lemma logger_for_level: "logger_for l = log_at (logged_level l)"
  by (cases l) (simp_all add: logger_trace_def logger_debug_def logger_info_def logger_warn_def logger_error_def logger_fatal_def)

lemma add_diagnostic_sel [simp]:
  "m_event_id (fst (add_diagnostic c x)) = m_event_id (fst x) + 1"
  "m_events (fst (add_diagnostic c x)) = m_events (fst x) @ [event_of (m_event_id (fst x)) c]"
  by (simp_all add: add_diagnostic_def Let_def split: prod.split)

lemma add_diagnostic_id: "m_event_id (fst (fold add_diagnostic cs x)) = m_event_id (fst x) + of_nat (length cs)"
  by (induction cs rule: rev_induct) simp_all

lemma add_diagnostic_events:
  "m_events (fst (fold add_diagnostic cs x)) =
     m_events (fst x) @ map2 (\<lambda>i c. event_of (m_event_id (fst x) + of_nat i) c) [0..<length cs] cs"
  by (induction cs rule: rev_induct) (simp_all add: add_diagnostic_id)

text \<open>Diagnostics are kept in the order in which they were added, under distinct numbers, as long as there are fewer than \<open>2 ^ 64\<close>.\<close>

theorem diagnostics_numbered:
  assumes "fold add_diagnostic cs (new_diagnostic_system, w) = (s, w')" "length cs \<le> 2 ^ 64"
  shows "map event_message (get_events s) = map ec_message cs \<and> distinct (map event_id (get_events s))"
proof -
  have e: "get_events s = map2 (\<lambda>i c. event_of (of_nat i) c) [0..<length cs] cs"
    using add_diagnostic_events [of cs "(new_diagnostic_system, w)"] assms(1) by (simp add: get_events_def new_diagnostic_system_def)
  have "map event_message (get_events s) = map ec_message (map snd (zip [0..<length cs] cs))"
    unfolding e map_map comp_def by (rule map_cong) (auto simp: event_of_def)
  moreover have "map event_id (get_events s) = map of_nat (map fst (zip [0..<length cs] cs))"
    unfolding e map_map comp_def by (rule map_cong) (auto simp: event_of_def)
  moreover have "inj_on (of_nat :: nat \<Rightarrow> u64) {0..<length cs}"
  proof (rule inj_onI)
    fix i k assume "i \<in> {0..<length cs}" "k \<in> {0..<length cs}" and eq: "(of_nat i :: u64) = of_nat k"
    have small: "unat (of_nat j :: u64) = j" if "j < length cs" for j
      by (rule unat_of_nat_small) (use that assms(2) in simp)
    show "i = k" using small [of i] small [of k] \<open>i \<in> _\<close> \<open>k \<in> _\<close> unfolding eq by simp
  qed
  ultimately show ?thesis by (simp add: distinct_map)
qed

theorem diagnostics_numbered_witness:
  "\<exists>s w'. fold add_diagnostic [c, c] (new_diagnostic_system, w) = (s, w') \<and> distinct (map event_id (get_events s))"
proof -
  obtain s w' where "fold add_diagnostic [c, c] (new_diagnostic_system, w) = (s, w')" by fastforce
  from this diagnostics_numbered [OF this] show ?thesis by simp
qed

end
