(* ===== verification/Stringify.thy ===== *)
theory Stringify
  imports Prelude
begin

text \<open>
  The text library, \<open>stringify/\<close>: its configuration, the units of storage, titles, lists and sizes, and the texts of values by their
  kind. The configuration is one global value behind a mutex; it is the argument \<open>config\<close>. Division by zero, a
  string of a negative length and an overflow of \<open>int\<close> are \<open>None\<close>.
\<close>

section \<open>Configuration\<close>

record DelimiterSymbol =
  start_maker :: string
  end_maker :: string
  element_separator :: string
  space_maker :: string

record TimeSymbol =
  second_symbol :: string
  millisecond_symbol :: string
  microsecond_symbol :: string
  nanosecond_symbol :: string

record StorageSymbol =
  byte_symbol :: string
  kilobyte_symbol :: string
  megabyte_symbol :: string
  gigabyte_symbol :: string
  terabyte_symbol :: string
  petabyte_symbol :: string
  exabyte_symbol :: string
  zettabyte_symbol :: string
  yottabyte_symbol :: string
  storage_space_maker :: string

record BoolSymbol =
  true_symbol :: string
  false_symbol :: string

record EnumSymbol =
  type_symbol :: DelimiterSymbol
  value_symbol :: DelimiterSymbol

record StringifyConfig =
  pair_symbol :: DelimiterSymbol
  tuple_symbol :: DelimiterSymbol
  container_symbol :: DelimiterSymbol
  enum_symbol :: EnumSymbol
  empty_place_holder :: string
  variant_valueless_placeholder :: string
  unsupported_type_place_holder :: string
  null_value_symbol :: string
  ellipsis_symbol :: string
  time_symbol :: TimeSymbol
  bool_symbol :: BoolSymbol
  storage_units :: int
  storage_symbol :: StorageSymbol
  max_depth :: int
  max_stringify_element_count :: int

definition delimiters :: "string \<Rightarrow> string \<Rightarrow> string \<Rightarrow> string \<Rightarrow> DelimiterSymbol" where
  "delimiters s e sep space = \<lparr>start_maker = s, end_maker = e, element_separator = sep, space_maker = space\<rparr>"

definition default_config :: StringifyConfig where
  "default_config =
     \<lparr>pair_symbol = delimiters ''{'' ''}'' '':'' '' '', tuple_symbol = delimiters ''('' '')'' '','' '' '',
      container_symbol = delimiters ''['' '']'' '','' '' '',
      enum_symbol = \<lparr>type_symbol = delimiters ''<'' ''>'' '':'' '' '', value_symbol = delimiters ''('' '')'' '':'' '' ''\<rparr>,
      empty_place_holder = ''<empty>'', variant_valueless_placeholder = ''<valueless>'',
      unsupported_type_place_holder = ''<unsupported type>'', null_value_symbol = ''<null>'', ellipsis_symbol = ''...'',
      time_symbol = \<lparr>second_symbol = ''s'', millisecond_symbol = ''ms'', microsecond_symbol = ''us'', nanosecond_symbol = ''ns''\<rparr>,
      bool_symbol = \<lparr>true_symbol = ''true'', false_symbol = ''false''\<rparr>, storage_units = 1024,
      storage_symbol = \<lparr>byte_symbol = ''B'', kilobyte_symbol = ''KB'', megabyte_symbol = ''MB'', gigabyte_symbol = ''GB'',
        terabyte_symbol = ''TB'', petabyte_symbol = ''PB'', exabyte_symbol = ''EB'', zettabyte_symbol = ''ZB'',
        yottabyte_symbol = ''YB'', storage_space_maker = '' ''\<rparr>,
      max_depth = - 1, max_stringify_element_count = - 1\<rparr>"

section \<open>Enumerations\<close>

datatype StorageUnit =
    Byte | KiloByte | MegaByte | GigaByte | TeraByte | PetaByte | ExaByte | ZettaByte | YottaByte | Unknown_Unit

primrec StorageUnit_code :: "StorageUnit \<Rightarrow> int" where
  "StorageUnit_code Byte = 0"
| "StorageUnit_code KiloByte = 1"
| "StorageUnit_code MegaByte = 2"
| "StorageUnit_code GigaByte = 3"
| "StorageUnit_code TeraByte = 4"
| "StorageUnit_code PetaByte = 5"
| "StorageUnit_code ExaByte = 6"
| "StorageUnit_code ZettaByte = 7"
| "StorageUnit_code YottaByte = 8"
| "StorageUnit_code Unknown_Unit = 9"

primrec StorageUnit_to_string :: "StorageUnit \<Rightarrow> string" where
  "StorageUnit_to_string Byte = ''StorageUnit::Byte''"
| "StorageUnit_to_string KiloByte = ''StorageUnit::KiloByte''"
| "StorageUnit_to_string MegaByte = ''StorageUnit::MegaByte''"
| "StorageUnit_to_string GigaByte = ''StorageUnit::GigaByte''"
| "StorageUnit_to_string TeraByte = ''StorageUnit::TeraByte''"
| "StorageUnit_to_string PetaByte = ''StorageUnit::PetaByte''"
| "StorageUnit_to_string ExaByte = ''StorageUnit::ExaByte''"
| "StorageUnit_to_string ZettaByte = ''StorageUnit::ZettaByte''"
| "StorageUnit_to_string YottaByte = ''StorageUnit::YottaByte''"
| "StorageUnit_to_string Unknown_Unit = ''StorageUnit::Unknown''"

definition StorageUnit_of_string :: "string \<Rightarrow> StorageUnit" where
  "StorageUnit_of_string enum_string =
     (if enum_string = ''StorageUnit::Byte'' then Byte
      else if enum_string = ''StorageUnit::KiloByte'' then KiloByte
      else if enum_string = ''StorageUnit::MegaByte'' then MegaByte
      else if enum_string = ''StorageUnit::GigaByte'' then GigaByte
      else if enum_string = ''StorageUnit::TeraByte'' then TeraByte
      else if enum_string = ''StorageUnit::PetaByte'' then PetaByte
      else if enum_string = ''StorageUnit::ExaByte'' then ExaByte
      else if enum_string = ''StorageUnit::ZettaByte'' then ZettaByte
      else if enum_string = ''StorageUnit::YottaByte'' then YottaByte
      else if enum_string = ''StorageUnit::Unknown'' then Unknown_Unit
      else Unknown_Unit)"

datatype FormatPosition = LEFT | CENTER | RIGHT | Unknown_Position

primrec FormatPosition_to_string :: "FormatPosition \<Rightarrow> string" where
  "FormatPosition_to_string LEFT = ''FormatPosition::LEFT''"
| "FormatPosition_to_string CENTER = ''FormatPosition::CENTER''"
| "FormatPosition_to_string RIGHT = ''FormatPosition::RIGHT''"
| "FormatPosition_to_string Unknown_Position = ''FormatPosition::Unknown''"

definition FormatPosition_of_string :: "string \<Rightarrow> FormatPosition" where
  "FormatPosition_of_string enum_string =
     (if enum_string = ''FormatPosition::LEFT'' then LEFT
      else if enum_string = ''FormatPosition::CENTER'' then CENTER
      else if enum_string = ''FormatPosition::RIGHT'' then RIGHT
      else if enum_string = ''FormatPosition::Unknown'' then Unknown_Position
      else Unknown_Position)"

lemma positions_read_back: "FormatPosition_of_string (FormatPosition_to_string p) = p"
  by (cases p) (simp_all add: FormatPosition_of_string_def)

lemma units_read_back: "StorageUnit_of_string (StorageUnit_to_string u) = u"
  by (cases u) (simp_all add: StorageUnit_of_string_def)

section \<open>Titles, separators and lists\<close>

definition repeated :: "string \<Rightarrow> nat \<Rightarrow> string" where
  "repeated sign n = concat (replicate n sign)"

definition format_title :: "string \<Rightarrow> string \<Rightarrow> nat \<Rightarrow> FormatPosition \<Rightarrow> string option" where
  "format_title title sign width position =
     (if length title \<ge> width then Some title
      else if sign = [] then None
      else let rest_count = width - length title;
               total_sign_count = rest_count div length sign + 1;
               sign_str = repeated sign total_sign_count
           in Some (case position of
                LEFT \<Rightarrow> title @ take rest_count sign_str
              | RIGHT \<Rightarrow> take rest_count sign_str @ title
              | _ \<Rightarrow> take (rest_count div 2) sign_str @ title @ take (rest_count - rest_count div 2) sign_str))"

definition format_separator :: "string \<Rightarrow> nat \<Rightarrow> string option" where
  "format_separator sign width = format_title [] sign width CENTER"

abbreviation INT_MAX :: int where "INT_MAX \<equiv> 2147483647"

fun format_lines :: "int \<Rightarrow> string \<Rightarrow> string list \<Rightarrow> bool \<Rightarrow> int \<Rightarrow> string option" where
  "format_lines space_counter item_sign [] is_add_index begin_index = Some []"
| "format_lines space_counter item_sign (item # items) is_add_index begin_index =
     (if space_counter < 0 then None
      else if is_add_index \<and> begin_index = INT_MAX then None
      else do {
        rest \<leftarrow> format_lines space_counter item_sign items is_add_index (if is_add_index then begin_index + 1 else begin_index);
        Some (replicate (nat space_counter) CHR '' '' @ (if is_add_index then show_int begin_index else []) @
              item_sign @ item @ [CHR 0x0A] @ rest)
      })"

definition format_string_list :: "int \<Rightarrow> string \<Rightarrow> string list \<Rightarrow> bool \<Rightarrow> int \<Rightarrow> string option" where
  "format_string_list space_counter item_sign items is_add_index begin_index =
     do {
       result \<leftarrow> format_lines space_counter item_sign items is_add_index begin_index;
       Some (if result \<noteq> [] then butlast result else result)
     }"

section \<open>Sizes\<close>

fun get_storage_unit_symbol :: "StringifyConfig \<Rightarrow> StorageUnit \<Rightarrow> string" where
  "get_storage_unit_symbol config Byte = byte_symbol (storage_symbol config)"
| "get_storage_unit_symbol config KiloByte = kilobyte_symbol (storage_symbol config)"
| "get_storage_unit_symbol config MegaByte = megabyte_symbol (storage_symbol config)"
| "get_storage_unit_symbol config GigaByte = gigabyte_symbol (storage_symbol config)"
| "get_storage_unit_symbol config TeraByte = terabyte_symbol (storage_symbol config)"
| "get_storage_unit_symbol config PetaByte = petabyte_symbol (storage_symbol config)"
| "get_storage_unit_symbol config ExaByte = exabyte_symbol (storage_symbol config)"
| "get_storage_unit_symbol config ZettaByte = zettabyte_symbol (storage_symbol config)"
| "get_storage_unit_symbol config YottaByte = yottabyte_symbol (storage_symbol config)"
| "get_storage_unit_symbol config Unknown_Unit = []"

text \<open>The loop that multiplies in 64 bits.\<close>

primrec cardinal_number :: "int \<Rightarrow> nat \<Rightarrow> u64" where
  "cardinal_number units 0 = 1"
| "cardinal_number units (Suc i) = cardinal_number units i * word_of_int units"

text \<open>The text of the quotient of two numbers with a number of decimals is an argument.\<close>

definition format_capacity_size ::
  "(u64 \<Rightarrow> u64 \<Rightarrow> nat \<Rightarrow> string) \<Rightarrow> StringifyConfig \<Rightarrow> u64 \<Rightarrow> StorageUnit \<Rightarrow> nat \<Rightarrow> string" where
  "format_capacity_size show_quotient config bytes dest_unit precision =
     (let symbol = get_storage_unit_symbol config dest_unit;
          exponent = StorageUnit_code dest_unit;
          precision = (if dest_unit = Byte then 0 else precision)
      in if exponent \<le> 0 then show_nat (unat bytes) @ storage_space_maker (storage_symbol config) @ symbol
         else show_quotient bytes (cardinal_number (storage_units config) (nat exponent)) precision @
              storage_space_maker (storage_symbol config) @ symbol)"

section \<open>Texts of values\<close>

text \<open>
  A value by the branch of \<open>to_string\<close> that its type takes. \<open>Direct\<close> is a string, a view, a C string, a character, or a value that
  \<open>std::to_string\<close>, a member \<open>to_string\<close> or a stream prints, with its text; an enumeration has the name of its type.
\<close>

datatype duration_unit = Seconds | Milliseconds | Microseconds | Nanoseconds | Other_Period

datatype any_value =
    Direct string
  | Bool_Text bool
  | Enum_Text string int
  | Duration_Text int duration_unit
  | Pair_Text any_value any_value
  | Null_Text
  | Engaged any_value
  | Valueless
  | Alternative any_value
  | Tuple_Text "any_value list"
  | Container_Text "any_value list"
  | Array_Text "any_value list"
  | Unsupported

definition from_bool :: "StringifyConfig \<Rightarrow> bool \<Rightarrow> string" where
  "from_bool config b = (if b then true_symbol (bool_symbol config) else false_symbol (bool_symbol config))"

definition from_enum :: "StringifyConfig \<Rightarrow> string \<Rightarrow> int \<Rightarrow> string" where
  "from_enum config type_name code =
     start_maker (type_symbol (enum_symbol config)) @ type_name @ end_maker (type_symbol (enum_symbol config)) @
     start_maker (value_symbol (enum_symbol config)) @ show_int code @ end_maker (value_symbol (enum_symbol config))"

definition format_time_duration :: "StringifyConfig \<Rightarrow> int \<Rightarrow> duration_unit \<Rightarrow> string" where
  "format_time_duration config count period =
     show_int count @
     (case period of
        Microseconds \<Rightarrow> microsecond_symbol (time_symbol config)
      | Milliseconds \<Rightarrow> millisecond_symbol (time_symbol config)
      | Nanoseconds \<Rightarrow> nanosecond_symbol (time_symbol config)
      | Seconds \<Rightarrow> second_symbol (time_symbol config)
      | Other_Period \<Rightarrow> [])"

text \<open>The loops over the texts of the elements.\<close>

fun separated :: "DelimiterSymbol \<Rightarrow> string list \<Rightarrow> string" where
  "separated d [] = []"
| "separated d [t] = t"
| "separated d (t # u # ts) = t @ element_separator d @ space_maker d @ separated d (u # ts)"

definition from_has_iterator :: "StringifyConfig \<Rightarrow> string list \<Rightarrow> string" where
  "from_has_iterator config texts =
     start_maker (container_symbol config) @ separated (container_symbol config) texts @ end_maker (container_symbol config)"

definition from_c_ptr :: "StringifyConfig \<Rightarrow> string list \<Rightarrow> string" where
  "from_c_ptr config texts =
     (if texts = [] then start_maker (container_symbol config) @ end_maker (container_symbol config)
      else start_maker (container_symbol config) @ separated (container_symbol config) texts @ end_maker (container_symbol config))"

definition from_std_pair :: "StringifyConfig \<Rightarrow> string \<Rightarrow> string \<Rightarrow> string" where
  "from_std_pair config a b =
     start_maker (pair_symbol config) @ a @ (element_separator (pair_symbol config) @ space_maker (pair_symbol config)) @ b @
     end_maker (pair_symbol config)"

text \<open>Every element is followed by a separator, and the last separator is cut off.\<close>

definition from_std_tuple :: "StringifyConfig \<Rightarrow> string list \<Rightarrow> string" where
  "from_std_tuple config texts =
     (let d = tuple_symbol config;
          str = start_maker d @ concat (map (\<lambda>t. t @ element_separator d @ space_maker d) texts);
          str = (if str \<noteq> start_maker d then take (length str - length (element_separator d) - length (space_maker d)) str else str)
      in str @ end_maker d)"

fun any_to_string :: "StringifyConfig \<Rightarrow> any_value \<Rightarrow> string" where
  "any_to_string config (Direct t) = t"
| "any_to_string config (Bool_Text b) = from_bool config b"
| "any_to_string config (Enum_Text type_name code) = from_enum config type_name code"
| "any_to_string config (Duration_Text count period) = format_time_duration config count period"
| "any_to_string config (Pair_Text a b) = from_std_pair config (any_to_string config a) (any_to_string config b)"
| "any_to_string config Null_Text = null_value_symbol config"
| "any_to_string config (Engaged v) = any_to_string config v"
| "any_to_string config Valueless = variant_valueless_placeholder config"
| "any_to_string config (Alternative v) = any_to_string config v"
| "any_to_string config (Tuple_Text vs) = from_std_tuple config (map (any_to_string config) vs)"
| "any_to_string config (Container_Text vs) = from_has_iterator config (map (any_to_string config) vs)"
| "any_to_string config (Array_Text vs) = from_c_ptr config (map (any_to_string config) vs)"
| "any_to_string config Unsupported = unsupported_type_place_holder config"

section \<open>What the texts are\<close>

lemma length_repeated [simp]: "length (repeated sign n) = n * length sign"
  by (induction n) (simp_all add: repeated_def)

lemma enough_signs: "sign \<noteq> [] \<Longrightarrow> n \<le> length (repeated sign (n div length sign + 1))"
proof -
  assume "sign \<noteq> []"
  then have "n < (n div length sign + 1) * length sign"
    by (metis add.commute dividend_less_div_times length_greater_0_conv mult.commute mult_Suc_right plus_1_eq_Suc)
  then show ?thesis by simp
qed

lemma length_filled: "b \<le> n \<Longrightarrow> n \<le> length fill \<Longrightarrow> length (take b fill @ title @ take (n - b) fill) = length title + n"
  by simp

text \<open>A title that is shorter than the width comes out exactly as wide, with the title unchanged at the left, at the right, or
  with the smaller half of the signs before it; a longer one comes out as it is, and without a sign to fill with the
  division by its length is undefined.\<close>

theorem title_fills_width:
  "format_title title sign width position =
     (if width \<le> length title then Some title
      else if sign = [] then None
      else let before = (case position of LEFT \<Rightarrow> 0 | RIGHT \<Rightarrow> width - length title | _ \<Rightarrow> (width - length title) div 2);
               fill = repeated sign ((width - length title) div length sign + 1)
           in Some (take before fill @ title @ take (width - length title - before) fill)) \<and>
   (\<forall>text. format_title title sign width position = Some text \<longrightarrow> length text = max width (length title))"
proof -
  let ?rest = "width - length title"
  let ?before = "case position of LEFT \<Rightarrow> 0 | RIGHT \<Rightarrow> ?rest | _ \<Rightarrow> ?rest div 2"
  let ?fill = "repeated sign (?rest div length sign + 1)"
  let ?text = "take ?before ?fill @ title @ take (?rest - ?before) ?fill"
  have built: "format_title title sign width position = Some ?text" if "\<not> width \<le> length title" "sign \<noteq> []"
    using that by (cases position) (simp_all add: format_title_def Let_def)
  have "?before \<le> ?rest" by (cases position) simp_all
  then have "length ?text = width" if "\<not> width \<le> length title" "sign \<noteq> []"
    using length_filled [OF \<open>?before \<le> ?rest\<close> enough_signs [OF that(2)], of title] that(1) by linarith
  with built show ?thesis by (auto simp: format_title_def Let_def)
qed

lemma unat_cardinal: "unat (cardinal_number 1024 i) = (if i < 7 then 1024 ^ i else 0)"
proof -
  have "cardinal_number 1024 i = word_of_nat (1024 ^ i)" by (induction i) (simp_all add: mult.commute)
  then have "unat (cardinal_number 1024 i) = 1024 ^ i mod 2 ^ 64"
    by (simp only: unat_of_nat take_bit_eq_mod) simp
  moreover have "(1024 :: nat) ^ i mod 2 ^ 64 = (if i < 7 then 1024 ^ i else 0)"
  proof (cases "i < 7")
    case True
    then have "i \<in> {0, 1, 2, 3, 4, 5, 6}" by auto
    then show ?thesis by auto
  next
    case False
    then have "i = 7 + (i - 7)" by simp
    then have "(1024 :: nat) ^ i = 1024 ^ 7 * 1024 ^ (i - 7)" by (metis power_add)
    also have "\<dots> = 2 ^ 64 * (64 * 1024 ^ (i - 7))" by simp
    finally have "(1024 :: nat) ^ i mod 2 ^ 64 = 0" by (metis mod_mult_self1_is_0)
    with False show ?thesis by simp
  qed
  ultimately show ?thesis by simp
qed

lemma cardinal_powers:
  "cardinal_number 1024 (Suc 0) = 2 ^ 10" "cardinal_number 1024 2 = 2 ^ 20" "cardinal_number 1024 3 = 2 ^ 30"
  "cardinal_number 1024 4 = 2 ^ 40" "cardinal_number 1024 5 = 2 ^ 50" "cardinal_number 1024 6 = 2 ^ 60"
  "cardinal_number 1024 7 = 0" "cardinal_number 1024 8 = 0" "cardinal_number 1024 9 = 0"
  by (simp_all only: word_unat_eq_iff unat_cardinal) (simp_all add: unat_eq_nat_uint)

text \<open>C39: A size in a unit, with the default configuration: bytes are written as they are, whatever the precision; from the
  kilobyte to the exabyte the size is divided by the power of 1024 that the unit stands for; for the zettabyte, the yottabyte
  and the unknown unit the product of the divisor in 64 bits wraps around to zero, and the size is divided by zero.\<close>

theorem capacity_sizes:
  "format_capacity_size show_quotient default_config bytes dest_unit precision =
     (case dest_unit of
        Byte \<Rightarrow> show_nat (unat bytes) @ '' B''
      | KiloByte \<Rightarrow> show_quotient bytes (2 ^ 10) precision @ '' KB''
      | MegaByte \<Rightarrow> show_quotient bytes (2 ^ 20) precision @ '' MB''
      | GigaByte \<Rightarrow> show_quotient bytes (2 ^ 30) precision @ '' GB''
      | TeraByte \<Rightarrow> show_quotient bytes (2 ^ 40) precision @ '' TB''
      | PetaByte \<Rightarrow> show_quotient bytes (2 ^ 50) precision @ '' PB''
      | ExaByte \<Rightarrow> show_quotient bytes (2 ^ 60) precision @ '' EB''
      | ZettaByte \<Rightarrow> show_quotient bytes 0 precision @ '' ZB''
      | YottaByte \<Rightarrow> show_quotient bytes 0 precision @ '' YB''
      | Unknown_Unit \<Rightarrow> show_quotient bytes 0 precision @ '' '')"
proof -
  have n: "nat 1 = 1" "nat 2 = 2" "nat 3 = 3" "nat 4 = 4" "nat 5 = 5" "nat 6 = 6" "nat 7 = 7" "nat 8 = 8" "nat 9 = 9" by simp_all
  show ?thesis
    by (cases dest_unit)
       (simp_all only: format_capacity_size_def default_config_def Let_def StorageUnit_code.simps n, simp_all add: cardinal_powers del: cardinal_number.simps)
qed

lemma tuple_separated:
  "texts \<noteq> [] \<Longrightarrow> concat (map (\<lambda>t. t @ element_separator d @ space_maker d) texts) =
     separated d texts @ element_separator d @ space_maker d"
  by (induction d texts rule: separated.induct) simp_all

text \<open>Tuples, arrays and containers are the texts of their elements between the marks of their kind, separated.\<close>

theorem sequences_separated:
  "any_to_string config (Tuple_Text vs) =
     start_maker (tuple_symbol config) @ separated (tuple_symbol config) (map (any_to_string config) vs) @ end_maker (tuple_symbol config)"
  "any_to_string config (Array_Text vs) = any_to_string config (Container_Text vs)"
proof -
  let ?d = "tuple_symbol config" and ?ts = "map (any_to_string config) vs"
  show "any_to_string config (Tuple_Text vs) = start_maker ?d @ separated ?d ?ts @ end_maker ?d"
  proof (cases "?ts = []")
    case False
    note c = tuple_separated [OF this, of ?d]
    show ?thesis
      unfolding any_to_string.simps from_std_tuple_def Let_def c
      by (cases "separated ?d ?ts @ element_separator ?d @ space_maker ?d = []") simp_all
  qed (simp add: from_std_tuple_def Let_def)
  show "any_to_string config (Array_Text vs) = any_to_string config (Container_Text vs)"
    by (simp add: from_c_ptr_def from_has_iterator_def)
qed

end
