(* ===== verification/Client_Views.thy ===== *)
theory Client_Views
  imports Block_Schedule Url
begin

text \<open>
  What the windows of the client do with tasks: the model behind the table of tasks, \<open>model/view/task_table_model\<close>, the dialog
  for a new download, \<open>view/dialog/new_download_dialog\<close>, and the actions of the main window, \<open>view/widget/client_main_window\<close>.

  Signals to Qt and to other objects are values; what the user typed and answered and what Qt says about a path are arguments.
  Layout, texts of labels and message boxes, and log messages are left out.
\<close>

section \<open>The table of tasks\<close>

record TaskTableModel =
  m_task_list :: "TaskEntity list"

text \<open>Rows inserted from a first to a last one, rows removed, a row changed.\<close>

datatype table_signal = Rows_Inserted int int | Rows_Removed int int | Data_Changed int

definition task_table_init :: "TaskEntity list \<Rightarrow> TaskTableModel \<Rightarrow> table_signal list \<times> TaskTableModel" where
  "task_table_init tasks s = ([Rows_Inserted 0 (int (length tasks))], s\<lparr>m_task_list := tasks\<rparr>)"

definition row_count :: "TaskTableModel \<Rightarrow> int" where "row_count s = int (length (m_task_list s))"

definition column_count :: int where "column_count = 8"

text \<open>The loops that look for the row of an identifier.\<close>

definition row_of :: "u64 \<Rightarrow> TaskEntity list \<Rightarrow> nat" where
  "row_of i ts = length (takeWhile (\<lambda>t. task_id t \<noteq> i) ts)"

definition task_table_update ::
  "'s client_ops \<Rightarrow> u64 \<Rightarrow> TaskTableModel \<Rightarrow> 's \<Rightarrow> (table_signal list \<times> TaskTableModel \<times> 's) option" where
  "task_table_update ops i s services =
     do {
       (task_opt, services) \<leftarrow> op_task_by_id ops i services;
       case task_opt of
         None \<Rightarrow> Some ([], s, services)
       | Some task \<Rightarrow>
           let row = row_of (task_id task) (m_task_list s)
           in Some ([Data_Changed (int row)], s\<lparr>m_task_list := (m_task_list s)[row := task]\<rparr>, services)
     }"

definition task_table_add :: "TaskEntity \<Rightarrow> TaskTableModel \<Rightarrow> table_signal list \<times> TaskTableModel" where
  "task_table_add task s =
     (let row = row_of (task_id task) (m_task_list s) in
      if row = length (m_task_list s)
      then ([Rows_Inserted (int row) (int row)], s\<lparr>m_task_list := m_task_list s @ [task]\<rparr>)
      else ([Data_Changed (int row)], s\<lparr>m_task_list := (m_task_list s)[row := task]\<rparr>))"

definition task_table_remove :: "TaskEntity \<Rightarrow> TaskTableModel \<Rightarrow> table_signal list \<times> TaskTableModel" where
  "task_table_remove task s =
     (let row = row_of (task_id task) (m_task_list s) in
      if row < length (m_task_list s)
      then ([Rows_Removed (int row) (int row)], s\<lparr>m_task_list := take row (m_task_list s) @ drop (Suc row) (m_task_list s)\<rparr>)
      else ([], s))"

definition get_task_by_row :: "int \<Rightarrow> TaskTableModel \<Rightarrow> TaskEntity option" where
  "get_task_by_row row s =
     (if row < 0 \<or> row \<ge> int (length (m_task_list s)) then None else Some (m_task_list s ! nat row))"

text \<open>The cell of a valid index for display; name and directory of a path are those of Qt. A time is shown in seconds.\<close>

datatype table_cell = Number_Cell u64 | Text_Cell string | Time_Cell int | No_Cell

definition to_time_t :: "u64 \<Rightarrow> int" where
  "to_time_t t = (if sint t < 0 then - (- sint t div 1000000000) else sint t div 1000000000)"

definition operation_cell :: "Operation \<Rightarrow> table_cell" where
  "operation_cell operation =
     (case operation of
        Operation_Download \<Rightarrow> Text_Cell ''Download''
      | Operation_Upload \<Rightarrow> Text_Cell ''Upload''
      | Operation_Unknown \<Rightarrow> Text_Cell ''Unknown''
      | _ \<Rightarrow> No_Cell)"

definition state_cell :: "TaskState \<Rightarrow> table_cell" where
  "state_cell state =
     (case state of
        Task_Waiting \<Rightarrow> Text_Cell ''Waiting''
      | Task_InTransfer \<Rightarrow> Text_Cell ''InTransfer''
      | Task_Completed \<Rightarrow> Text_Cell ''Completed''
      | Task_Failed \<Rightarrow> Text_Cell ''Failed''
      | _ \<Rightarrow> No_Cell)"

definition table_data :: "(string \<Rightarrow> string) \<Rightarrow> (string \<Rightarrow> string) \<Rightarrow> int \<Rightarrow> int \<Rightarrow> TaskTableModel \<Rightarrow> table_cell option" where
  "table_data file_name dir_path row column s =
     (case get_task_by_row row s of
        None \<Rightarrow> None
      | Some t \<Rightarrow> Some (
          if column = 0 then Number_Cell (task_id t)
          else if column = 1 then Text_Cell (file_name (saved_path t))
          else if column = 2 then Text_Cell (dir_path (saved_path t))
          else if column = 3 then Text_Cell (source_url t)
          else if column = 4 then operation_cell (task_operation t)
          else if column = 5 then state_cell (task_state t)
          else if column = 6 then Time_Cell (to_time_t (task_start_time t))
          else if column = 7
          then (if sint (task_end_time t) \<le> sint (task_start_time t) then Text_Cell ''-'' else Time_Cell (to_time_t (task_end_time t)))
          else No_Cell))"

section \<open>A new download\<close>

text \<open>What is in the dialog, what Qt says about the path, and the answers to its questions.\<close>

record download_input =
  url_text :: string
  file_path :: string
  path_exists :: bool
  overwrite_it :: bool
  dir_exists :: bool
  create_it :: bool

datatype dialog_signal = Directory_Made string | Task_Entity_Add TaskEntity | Hub_Signal hub_signal

text \<open>\<open>std::stoll\<close>, as \<open>stoi\<close> with 64 bits.\<close>

definition stoll :: "string \<Rightarrow> int option" where
  "stoll s =
     (let s = dropWhile is_space s;
          (negative, s) = (case s of
             c # cs \<Rightarrow> if c = CHR ''-'' then (True, cs) else if c = CHR ''+'' then (False, cs) else (False, s)
           | [] \<Rightarrow> (False, s))
      in case s of
           c # cs \<Rightarrow>
             if is_digit c
             then (let v = (if negative then - int (digits_value 0 s) else int (digits_value 0 s))
                   in if - (2 ^ 63) \<le> v \<and> v < 2 ^ 63 then Some v else None)
             else None
         | [] \<Rightarrow> None)"

definition dialog_context :: EventContext where "dialog_context = \<lparr>m_object_name = ''NewDownloadDialog''\<rparr>"

definition dialog_task :: "TaskState \<Rightarrow> u64 \<Rightarrow> int \<Rightarrow> download_input \<Rightarrow> TaskEntity" where
  "dialog_task junk now file_id input =
     (new_task junk)\<lparr>task_file_id := word_of_int file_id, saved_path := file_path input, source_url := url_text input,
       task_operation := Operation_Download, task_state := Task_Waiting, task_start_time := now\<rparr>"

text \<open>\<open>add\<close> is that of the task service, which writes the identifier into the entity. An exception of the parsing is \<open>None\<close>.\<close>

definition on_add_download ::
  "(TaskEntity \<Rightarrow> 's \<Rightarrow> (bool \<times> TaskEntity \<times> 's) option) \<Rightarrow> TaskState \<Rightarrow> u64 \<Rightarrow> u64 \<Rightarrow> download_input \<Rightarrow> ViewEventHub \<Rightarrow> 's \<Rightarrow>
   (dialog_signal list \<times> ViewEventHub \<times> 's) option" where
  "on_add_download add junk now event_now input hub services =
     do {
       url_info \<leftarrow> url_parse (url_text input);
       case get_param ''file_id'' (url_query url_info) of
         None \<Rightarrow> Some ([], hub, services)
       | Some file_id_str \<Rightarrow>
           if path_exists input \<and> \<not> overwrite_it input then Some ([], hub, services)
           else if \<not> dir_exists input \<and> \<not> create_it input then Some ([], hub, services)
           else do {
             let made = (if dir_exists input then [] else [Directory_Made (file_path input)]);
             file_id \<leftarrow> stoll file_id_str;
             (is_added, task, services) \<leftarrow> add (dialog_task junk now file_id input) services;
             if \<not> is_added then Some (made, hub, services)
             else case publish_download_request event_now dialog_context \<lparr>ip = url_host url_info, port = url_port url_info\<rparr>
                    \<lparr>drq_file_id = task_file_id task, drq_task_id = task_id task\<rparr> hub of
                    (signal, hub) \<Rightarrow> Some (made @ [Task_Entity_Add task, Hub_Signal signal], hub, services)
           }
     }"

definition response_file :: "DownloadResponseTransfer \<Rightarrow> ClientFileEntity" where
  "response_file response =
     \<lparr>client_file_id = drs_file_id response, client_file_name = drs_file_name response, client_file_size = drs_file_size response,
      client_md5_code = drs_md5_code response\<rparr>"

text \<open>Whether the file and the blocks could be added is not looked at.\<close>

definition add_downloaded ::
  "'m sqlite3 \<Rightarrow> BlockEntity \<Rightarrow> ClientFileEntity \<Rightarrow> u64 \<Rightarrow> 'm client_store \<Rightarrow> 'm client_store option" where
  "add_downloaded lib junk file_entity task s =
     do {
       (is_file_added, s) \<leftarrow> file_service_add lib file_entity s;
       (are_blocks_added, s) \<leftarrow> block_service_add_file lib junk file_entity task default_block_bytes s;
       Some s
     }"

definition on_download_response_dialog ::
  "'m sqlite3 \<Rightarrow> BlockEntity \<Rightarrow> DownloadResponseTransfer \<Rightarrow> 'm client_store \<Rightarrow> 'm client_store option" where
  "on_download_response_dialog lib junk response s =
     (let file_entity = response_file response in
      if sint (client_file_id file_entity) < 0 then Some s
      else add_downloaded lib junk file_entity (drs_task_id response) s)"

section \<open>The main window\<close>

record ClientMainWindow =
  w_is_init :: bool
  m_selected_task_id :: u64

definition on_task_selected :: "u64 \<Rightarrow> ClientMainWindow \<Rightarrow> ClientMainWindow" where
  "on_task_selected i s =
     (if \<not> w_is_init s then s else if sint i < 0 then s else s\<lparr>m_selected_task_id := i\<rparr>)"

definition on_cell_clicked :: "int \<Rightarrow> TaskTableModel \<Rightarrow> ClientMainWindow \<Rightarrow> ClientMainWindow" where
  "on_cell_clicked row table s =
     (case get_task_by_row row table of None \<Rightarrow> s | Some t \<Rightarrow> on_task_selected (task_id t) s)"

definition window_context :: EventContext where "window_context = \<lparr>m_object_name = ''ClientMainWindow''\<rparr>"

text \<open>The signal \<open>task_enqueue\<close>, which is connected to the scheduling of blocks.\<close>

definition on_start_task ::
  "'s client_ops \<Rightarrow> ClientMainWindow \<Rightarrow> 's \<Rightarrow> ((EventContext \<times> NetworkEndpoint \<times> TaskEntity) option \<times> 's) option" where
  "on_start_task ops s services =
     (if \<not> w_is_init s then Some (None, services)
      else if sint (m_selected_task_id s) < 0 then Some (None, services)
      else do {
        (task_entity_opt, services) \<leftarrow> op_task_by_id ops (m_selected_task_id s) services;
        case task_entity_opt of
          None \<Rightarrow> Some (None, services)
        | Some task \<Rightarrow>
            do {
              url_info \<leftarrow> url_parse (source_url task);
              Some (Some (window_context, \<lparr>ip = url_host url_info, port = url_port url_info\<rparr>, task), services)
            }
      })"

text \<open>Stopping a task only shows a message.\<close>

definition on_stop_task :: "ClientMainWindow \<Rightarrow> ClientMainWindow" where "on_stop_task s = s"

definition on_task_completed ::
  "'s client_ops \<Rightarrow> u64 \<Rightarrow> ClientMainWindow \<Rightarrow> TaskTableModel \<Rightarrow> 's \<Rightarrow> (table_signal list \<times> TaskTableModel \<times> 's) option" where
  "on_task_completed ops i s table services =
     (if \<not> w_is_init s then Some ([], table, services) else task_table_update ops i table services)"

section \<open>The table is a map\<close>

definition table_map :: "TaskTableModel \<Rightarrow> u64 \<Rightarrow> TaskEntity option" where
  "table_map s i = find (\<lambda>t. task_id t = i) (m_task_list s)"

definition table_ok :: "TaskTableModel \<Rightarrow> bool" where
  "table_ok s \<longleftrightarrow> distinct (map task_id (m_task_list s))"

lemma row_of_bound: "row_of i ts \<le> length ts"
  by (simp add: row_of_def length_takeWhile_le)

lemma row_of_less: "row_of i ts < length ts \<longleftrightarrow> i \<in> task_id ` set ts"
  by (induction ts) (auto simp: row_of_def)

lemma row_of_id: "row_of i ts < length ts \<Longrightarrow> task_id (ts ! row_of i ts) = i"
  using nth_length_takeWhile [of "\<lambda>t. task_id t \<noteq> i" ts] by (simp add: row_of_def)

lemma find_updated:
  assumes "task_id t = i" "row_of i ts < length ts"
  shows "find (\<lambda>u. task_id u = j) (ts[row_of i ts := t]) = (if j = i then Some t else find (\<lambda>u. task_id u = j) ts)"
  using assms by (induction ts) (auto simp: row_of_def)

lemma ids_updated:
  assumes "task_id t = i" "row_of i ts < length ts"
  shows "map task_id (ts[row_of i ts := t]) = map task_id ts"
  using assms by (simp add: map_update row_of_id list_update_same_conv)

lemma find_task: "distinct (map task_id ts) \<Longrightarrow> u \<in> set ts \<Longrightarrow> find (\<lambda>t. task_id t = task_id u) ts = Some u"
  by (induction ts) (auto simp: image_iff)

lemma find_appended: "find P (ts @ [t]) = (case find P ts of None \<Rightarrow> if P t then Some t else None | Some u \<Rightarrow> Some u)"
  by (induction ts) simp_all

lemma find_removed:
  assumes "distinct (map task_id ts)"
  shows "find (\<lambda>u. task_id u = j) (take (row_of i ts) ts @ drop (Suc (row_of i ts)) ts) =
    (if j = i then None else find (\<lambda>u. task_id u = j) ts)"
  using assms
proof (induction ts)
  case (Cons t ts)
  have "find (\<lambda>u. task_id u = task_id t) ts = None" using Cons.prems by (auto simp: find_None_iff image_iff)
  with Cons show ?case by (auto simp: row_of_def)
qed (simp add: row_of_def)

text \<open>The rows that signals announce, inserted less removed.\<close>

definition announced :: "table_signal list \<Rightarrow> int" where
  "announced signals =
     sum_list (map (\<lambda>x. case x of Rows_Inserted a b \<Rightarrow> b - a + 1 | Rows_Removed a b \<Rightarrow> - (b - a + 1) | Data_Changed _ \<Rightarrow> 0) signals)"

lemma distinct_without: "distinct xs \<Longrightarrow> distinct (take n xs @ drop (Suc n) xs)"
  by (auto simp: distinct_take distinct_drop dest: in_set_takeD in_set_dropD)
    (metis Suc_n_not_le_n append_take_drop_id disjoint_iff distinct_append nat_le_linear set_drop_subset_set_drop subsetD)

lemma added_table:
  assumes "table_ok s" "task_table_add t s = (signals, s')"
  shows "table_ok s' \<and> table_map s' = (table_map s)(task_id t \<mapsto> t) \<and> announced signals = row_count s' - row_count s"
proof (cases "row_of (task_id t) (m_task_list s) < length (m_task_list s)")
  case True
  then show ?thesis
    using assms ids_updated [OF refl True] find_updated [OF refl True]
    by (auto simp: task_table_add_def Let_def table_ok_def table_map_def fun_eq_iff announced_def row_count_def)
next
  case False
  then have row: "row_of (task_id t) (m_task_list s) = length (m_task_list s)" "task_id t \<notin> task_id ` set (m_task_list s)"
    using row_of_bound [of "task_id t" "m_task_list s"] row_of_less [of "task_id t" "m_task_list s"] by auto
  then have "find (\<lambda>u. task_id u = task_id t) (m_task_list s) = None" by (auto simp: find_None_iff image_iff)
  with assms row show ?thesis
    by (auto simp: task_table_add_def Let_def table_ok_def table_map_def fun_eq_iff announced_def row_count_def find_appended split: option.split)
qed

lemma removed_table:
  assumes "table_ok s" "task_table_remove t s = (signals, s')"
  shows "table_ok s' \<and> table_map s' = (table_map s)(task_id t := None) \<and> announced signals = row_count s' - row_count s"
proof (cases "row_of (task_id t) (m_task_list s) < length (m_task_list s)")
  case True
  let ?r = "row_of (task_id t) (m_task_list s)"
  have "distinct (map task_id (take ?r (m_task_list s) @ drop (Suc ?r) (m_task_list s)))"
    using distinct_without [of "map task_id (m_task_list s)" ?r] assms(1) by (simp add: table_ok_def take_map drop_map)
  moreover have "int (length (take ?r (m_task_list s) @ drop (Suc ?r) (m_task_list s))) = int (length (m_task_list s)) - 1"
    using True by simp
  ultimately show ?thesis
    using assms True find_removed [of "m_task_list s" _ "task_id t"]
    by (auto simp: task_table_remove_def Let_def table_ok_def table_map_def fun_eq_iff announced_def row_count_def)
next
  case False
  then have "find (\<lambda>u. task_id u = task_id t) (m_task_list s) = None"
    using row_of_less [of "task_id t" "m_task_list s"] by (auto simp: find_None_iff image_iff)
  with False assms show ?thesis
    by (auto simp: task_table_remove_def Let_def table_map_def fun_eq_iff announced_def row_count_def)
qed

text \<open>The table of tasks is a map from identifiers to tasks with one row for each: adding a task enters it under its
  identifier, in its row if it has one, removing takes it out, and each announces to the view as many rows as it
  changes. Loading the tasks announces one row more than there are.\<close>

theorem task_table_is_map:
  assumes "table_ok s" "task_table_add t s = (added, s1)" "task_table_remove t s = (removed, s2)" "task_table_init ts s = (loaded, s3)"
    and "distinct (map task_id ts)"
  shows "table_ok s1 \<and> table_map s1 = (table_map s)(task_id t \<mapsto> t) \<and> announced added = row_count s1 - row_count s \<and>
    table_ok s2 \<and> table_map s2 = (table_map s)(task_id t := None) \<and> announced removed = row_count s2 - row_count s \<and>
    table_ok s3 \<and> (\<forall>u \<in> set ts. table_map s3 (task_id u) = Some u) \<and> announced loaded = row_count s3 + 1"
proof -
  have "table_ok s3 \<and> (\<forall>u \<in> set ts. table_map s3 (task_id u) = Some u) \<and> announced loaded = row_count s3 + 1"
    using assms(4,5) by (auto simp: task_table_init_def table_ok_def table_map_def announced_def row_count_def find_task)
  then show ?thesis using added_table [OF assms(1,2)] removed_table [OF assms(1,3)] by blast
qed

theorem task_table_is_map_witness:
  "\<exists>t u added s1 removed s2 loaded s3. task_table_add t \<lparr>m_task_list = [u]\<rparr> = (added, s1) \<and> task_table_remove t \<lparr>m_task_list = [u]\<rparr> = (removed, s2) \<and>
    task_table_init [u] \<lparr>m_task_list = [u]\<rparr> = (loaded, s3) \<and> table_map s1 = (table_map \<lparr>m_task_list = [u]\<rparr>)(task_id t \<mapsto> t) \<and>
    table_map s2 = (table_map \<lparr>m_task_list = [u]\<rparr>)(task_id t := None) \<and> announced loaded = row_count s3 + 1"
proof -
  let ?t = "(new_task Task_Waiting)\<lparr>task_id := 5\<rparr>" and ?u = "(new_task Task_Waiting)\<lparr>task_id := 7\<rparr>"
  let ?s = "\<lparr>m_task_list = [?u]\<rparr>"
  obtain added s1 where 1: "task_table_add ?t ?s = (added, s1)" by (cases "task_table_add ?t ?s")
  obtain removed s2 where 2: "task_table_remove ?t ?s = (removed, s2)" by (cases "task_table_remove ?t ?s")
  obtain loaded s3 where 3: "task_table_init [?u] ?s = (loaded, s3)" by (cases "task_table_init [?u] ?s")
  have "table_ok ?s" "distinct (map task_id [?u])" by (simp_all add: table_ok_def)
  from task_table_is_map [OF this(1) 1 2 3 this(2)] 1 2 3 show ?thesis by blast
qed

end
