(* ===== verification/Simple_Server.thy ===== *)
theory Simple_Server
  imports Connect Messages Url "HOL-Library.Char_ord" "HOL-Library.List_Lexorder"
begin

text \<open>
  The simple server, \<open>simple_server/source/main.cpp\<close>: a thread for each connection, which parses requests, answers them from a
  directory of files or from one fixed file, and sends the answers. It talks the protocol of the client.

  The file system, the byte order and the results of the system calls are arguments; the directory is read once, at the
  first request for a file. An exception or undefined behaviour is \<open>None\<close>; texts for the console are left out.
\<close>

section \<open>Files\<close>

record ServerConfig =
  config_port :: u16
  fixture_file_path :: string

definition default_ServerConfig :: ServerConfig where
  "default_ServerConfig = \<lparr>config_port = 8080, fixture_file_path = []\<rparr>"

text \<open>
  What a file system says: whether the directory exists, its entries with whether they are regular files, the size of the
  file of a path, and what a stream opened on a path reads. \<open>fs_directory\<close> is \<open>None\<close> when the macro is not defined.
\<close>

record file_system =
  fs_directory :: "string option"
  fs_exists :: bool
  fs_entries :: "(string \<times> bool) list"
  fs_size :: "string \<Rightarrow> nat option"
  fs_open :: "string \<Rightarrow> bytes option"

definition resource_file_dir :: "file_system \<Rightarrow> string" where
  "resource_file_dir fs = (case fs_directory fs of None \<Rightarrow> [] | Some d \<Rightarrow> d @ ''/file'')"

text \<open>The names of two entries of a directory differ, so that the order of \<open>std::sort\<close> is the only one.\<close>

definition list_resource_files_sorted :: "file_system \<Rightarrow> string list" where
  "list_resource_files_sorted fs =
     (let dir = resource_file_dir fs in
      if dir = [] then [] else if \<not> fs_exists fs then []
      else map (\<lambda>name. dir @ ''/'' @ name) (sort (map fst (filter snd (fs_entries fs)))))"

definition resolve_file_path_for_file_id :: "file_system \<Rightarrow> u64 \<Rightarrow> string option" where
  "resolve_file_path_for_file_id fs file_id =
     (if sint file_id \<le> 0 then None
      else let files = list_resource_files_sorted fs; idx = unat (file_id - 1) in
           if idx \<ge> length files then None else Some (files ! idx))"

definition try_get_file_size :: "file_system \<Rightarrow> string \<Rightarrow> u64 option" where
  "try_get_file_size fs p = map_option of_nat (fs_size fs p)"

definition path_filename :: "string \<Rightarrow> string" where
  "path_filename p = rev (takeWhile (\<lambda>c. c \<noteq> CHR ''/'') (rev p))"

definition get_basename :: "string \<Rightarrow> string" where
  "get_basename p = (let name = path_filename p in if name = [] then ''fixture.bin'' else name)"

section \<open>Messages\<close>

text \<open>All fields have to be there, and the numbers of their types.\<close>

definition try_parse_envelope_request ::
  "ByteOrder \<Rightarrow> (DataType \<Rightarrow> bytes \<Rightarrow> string) \<Rightarrow> bytes \<Rightarrow> EnvelopeRequestTransfer option option" where
  "try_parse_envelope_request host sp frame =
     do {
       c \<leftarrow> deserialize host frame start_codec;
       case (get_parsed_field ''version'' c, get_parsed_field ''request_id'' c, get_parsed_field ''request_type'' c,
             get_parsed_field ''path'' c, get_parsed_field ''content_type'' c, get_parsed_field ''body'' c) of
         (Some version_field, Some request_id_field, Some request_type_field, Some path_field, Some content_type_field,
          Some body_field) \<Rightarrow>
           (case (to_value host T_uint16 version_field, to_value host T_uint64 request_id_field,
                  to_value host T_uint8 request_type_field, to_value host T_uint8 content_type_field) of
              (Some v, Some i, Some t, Some ct) \<Rightarrow>
                do {
                  body \<leftarrow> to_byte_vector host body_field;
                  Some (Some \<lparr>req_version = of_nat v, req_id = of_nat i, req_type = of_nat t,
                    req_path = SerializeField_as_string sp path_field,
                    req_content_type = ContentType_of_code (of_nat ct), req_body = body\<rparr>)
                }
            | _ \<Rightarrow> Some None)
       | _ \<Rightarrow> Some None
     }"

definition build_envelope_response :: "ByteOrder \<Rightarrow> EnvelopeResponseTransfer \<Rightarrow> bytes option" where
  "build_envelope_response host info =
     do {
       c \<leftarrow> serialize_value host T_uint16 (unat (res_version info)) ''version'' start_codec;
       c \<leftarrow> serialize_value host T_uint64 (unat (res_id info)) ''request_id'' c;
       c \<leftarrow> serialize_value host T_uint16 (unat (ResponseStatus_code (res_status info))) ''status'' c;
       c \<leftarrow> serialize_value host T_uint8 (unat (ContentType_code (res_content_type info))) ''content_type'' c;
       c \<leftarrow> serialize_bytes host (res_body info) ''body'' c;
       finish_message host c
     }"

definition build_test_response_body :: "ByteOrder \<Rightarrow> string \<Rightarrow> bytes option" where
  "build_test_response_body host message =
     do { c \<leftarrow> serialize_string host message ''message'' start_codec; finish_message host c }"

definition build_download_response_body ::
  "ByteOrder \<Rightarrow> u64 \<Rightarrow> u64 \<Rightarrow> string \<Rightarrow> u64 \<Rightarrow> string \<Rightarrow> bytes option" where
  "build_download_response_body host task_id file_id file_name file_size md5_code =
     do {
       c \<leftarrow> serialize_i64 host task_id ''task_id'' start_codec;
       c \<leftarrow> serialize_i64 host file_id ''file_id'' c;
       c \<leftarrow> serialize_string host file_name ''file_name'' c;
       c \<leftarrow> serialize_i64 host file_size ''file_size'' c;
       c \<leftarrow> serialize_string host md5_code ''md5_code'' c;
       finish_message host c
     }"

definition build_block_response_body ::
  "ByteOrder \<Rightarrow> u64 \<Rightarrow> u64 \<Rightarrow> u64 \<Rightarrow> u64 \<Rightarrow> u64 \<Rightarrow> bytes \<Rightarrow> bytes option" where
  "build_block_response_body host block_id file_id task_id offset block_size data =
     do {
       c \<leftarrow> serialize_i64 host block_id ''block_id'' start_codec;
       c \<leftarrow> serialize_i64 host file_id ''file_id'' c;
       c \<leftarrow> serialize_i64 host task_id ''task_id'' c;
       c \<leftarrow> serialize_i64 host offset ''offset'' c;
       c \<leftarrow> serialize_i64 host block_size ''block_size'' c;
       c \<leftarrow> serialize_bytes host data ''data'' c;
       finish_message host c
     }"

section \<open>Requests\<close>

record simple_env =
  simple_host :: ByteOrder
  simple_text :: "DataType \<Rightarrow> bytes \<Rightarrow> string"
  simple_fs :: file_system
  simple_config :: ServerConfig

text \<open>A number of the body, if it is there and of its type, and what it is otherwise.\<close>

definition read_i64 :: "ByteOrder \<Rightarrow> string \<Rightarrow> SerializeCodec \<Rightarrow> u64 \<Rightarrow> u64" where
  "read_i64 host key c otherwise =
     (case get_parsed_field key c of
        None \<Rightarrow> otherwise
      | Some f \<Rightarrow> (case to_value host T_int64 f of None \<Rightarrow> otherwise | Some x \<Rightarrow> of_nat x))"

definition resolved_path :: "simple_env \<Rightarrow> u64 \<Rightarrow> string option" where
  "resolved_path env file_id =
     (if fixture_file_path (simple_config env) \<noteq> [] then Some (fixture_file_path (simple_config env))
      else resolve_file_path_for_file_id (simple_fs env) file_id)"

definition respond_with ::
  "EnvelopeRequestTransfer \<Rightarrow> ResponseStatus \<Rightarrow> bytes option \<Rightarrow> EnvelopeResponseTransfer option" where
  "respond_with req status body =
     do {
       body \<leftarrow> body;
       Some \<lparr>res_version = req_version req, res_id = req_id req, res_status = status, res_content_type = DaneJoe_Content,
             res_body = body\<rparr>
     }"

definition dispatch_test :: "simple_env \<Rightarrow> EnvelopeRequestTransfer \<Rightarrow> EnvelopeResponseTransfer option" where
  "dispatch_test env req =
     do {
       c \<leftarrow> deserialize (simple_host env) (req_body req) start_codec;
       let msg = (case get_parsed_field ''message'' c of
                    None \<Rightarrow> ''<empty>'' | Some f \<Rightarrow> SerializeField_as_string (simple_text env) f);
       respond_with req Ok (build_test_response_body (simple_host env) (''echo: '' @ msg))
     }"

definition dispatch_download :: "simple_env \<Rightarrow> EnvelopeRequestTransfer \<Rightarrow> EnvelopeResponseTransfer option" where
  "dispatch_download env req =
     do {
       let host = simple_host env;
       c \<leftarrow> deserialize host (req_body req) start_codec;
       let task_id = read_i64 host ''task_id'' c (- 1);
       let file_id = read_i64 host ''file_id'' c 1;
       case resolved_path env file_id of
         Some p \<Rightarrow>
           let file_size = (case try_get_file_size (simple_fs env) p of Some n \<Rightarrow> n | None \<Rightarrow> 0)
           in respond_with req Ok (build_download_response_body host task_id file_id (path_filename p) file_size [])
       | None \<Rightarrow> respond_with req NotFound (build_test_response_body host ''file_id not found'')
     }"

text \<open>The part of the file that is read: the offset and the number of bytes are cut to what the file has.\<close>

definition cut_to_file :: "u64 \<Rightarrow> u64 \<Rightarrow> u64 \<Rightarrow> u64 \<times> u64" where
  "cut_to_file file_size offset block_size =
     (let offset = (if sint offset < 0 then 0 else offset);
          offset = (if sint offset > sint file_size then file_size else offset);
          can_read = file_size - offset;
          can_read = (if sint can_read < 0 then 0 else can_read);
          block_size = (if sint block_size > sint can_read then can_read else block_size)
      in (offset, block_size))"

text \<open>\<open>seekg\<close>, \<open>read\<close> and \<open>gcount\<close>, and a vector of the bytes that were read.\<close>

definition read_part :: "bytes option \<Rightarrow> u64 \<Rightarrow> u64 \<Rightarrow> bytes" where
  "read_part stream offset block_size =
     (case stream of
        None \<Rightarrow> []
      | Some contents \<Rightarrow>
          if sint offset < 0 then [] else take (nat (sint block_size)) (drop (nat (sint offset)) contents))"

definition dispatch_block :: "simple_env \<Rightarrow> EnvelopeRequestTransfer \<Rightarrow> EnvelopeResponseTransfer option" where
  "dispatch_block env req =
     do {
       let host = simple_host env;
       c \<leftarrow> deserialize host (req_body req) start_codec;
       let block_id = read_i64 host ''block_id'' c 1;
       let file_id = read_i64 host ''file_id'' c 1;
       let task_id = read_i64 host ''task_id'' c (- 1);
       let offset = read_i64 host ''offset'' c 0;
       let block_size = read_i64 host ''block_size'' c 1024;
       let block_size = (if sint block_size < 0 then 0 else block_size);
       case resolved_path env file_id of
         None \<Rightarrow> respond_with req NotFound (build_test_response_body host ''file_id not found'')
       | Some p \<Rightarrow>
           let file_size = (case try_get_file_size (simple_fs env) p of Some n \<Rightarrow> n | None \<Rightarrow> 0);
               (offset, block_size) = cut_to_file file_size offset block_size;
               data = read_part (fs_open (simple_fs env) p) offset block_size
           in respond_with req Ok
                (build_block_response_body host block_id file_id task_id offset (of_nat (length data)) data)
     }"

definition dispatch_request :: "simple_env \<Rightarrow> EnvelopeRequestTransfer \<Rightarrow> EnvelopeResponseTransfer option" where
  "dispatch_request env req =
     (if req_path req = ''/test'' then dispatch_test env req
      else if req_path req = ''/download'' then dispatch_download env req
      else if req_path req = ''/block'' then dispatch_block env req
      else respond_with req NotFound (build_test_response_body (simple_host env) ''path not found''))"

section \<open>Connections\<close>

text \<open>The results of \<open>send\<close> one after the other, and what went out; a call that has not returned is \<open>None\<close>.\<close>

fun send_all :: "bytes \<Rightarrow> int list \<Rightarrow> (bytes \<times> bool \<times> int list) option" where
  "send_all data outs =
     (if data = [] then Some ([], True, outs)
      else case outs of
        [] \<Rightarrow> None
      | n # outs \<Rightarrow>
          if n \<le> 0 then Some ([], False, outs)
          else do {
            (sent, ok, outs) \<leftarrow> send_all (drop (nat n) data) outs;
            Some (take (nat n) data @ sent, ok, outs)
          })"

declare send_all.simps [simp del]

definition bad_request :: "ByteOrder \<Rightarrow> EnvelopeResponseTransfer option" where
  "bad_request host =
     do {
       body \<leftarrow> build_test_response_body host ''bad request'';
       Some \<lparr>res_version = 1, res_id = 0, res_status = BadRequest, res_content_type = DaneJoe_Content, res_body = body\<rparr>
     }"

text \<open>The answer to a frame.\<close>

definition respond :: "simple_env \<Rightarrow> bytes \<Rightarrow> bytes option" where
  "respond env frame =
     do {
       req_opt \<leftarrow> try_parse_envelope_request (simple_host env) (simple_text env) frame;
       resp \<leftarrow> (case req_opt of None \<Rightarrow> bad_request (simple_host env) | Some req \<Rightarrow> dispatch_request env req);
       build_envelope_response (simple_host env) resp
     }"

text \<open>The inner loop: frames are taken out of the assembler and answered until there is none or \<open>send\<close> fails.\<close>

partial_function (option) serve_frames ::
  "simple_env \<Rightarrow> FrameAssembler \<Rightarrow> int list \<Rightarrow> (bytes \<times> bool \<times> FrameAssembler \<times> int list) option" where
  "serve_frames env a outs =
     do {
       (frame_opt, a) \<leftarrow> pop_frame (simple_host env) a;
       case frame_opt of
         None \<Rightarrow> Some ([], True, a, outs)
       | Some frame \<Rightarrow>
           do {
             resp_frame \<leftarrow> respond env frame;
             (sent, ok, outs) \<leftarrow> send_all resp_frame outs;
             if \<not> ok then Some (sent, False, a, outs)
             else do {
               (more, ok, a, outs) \<leftarrow> serve_frames env a outs;
               Some (sent @ more, ok, a, outs)
             }
           }
     }"

text \<open>
  The outer loop over the results of \<open>recv\<close>: bytes, or none at the end of the stream or after a failure. The connection is
  closed in the end. The result is what was sent.
\<close>

fun serve_chunks :: "simple_env \<Rightarrow> FrameAssembler \<Rightarrow> bytes list \<Rightarrow> int list \<Rightarrow> bytes option" where
  "serve_chunks env a [] outs = None"
| "serve_chunks env a (chunk # chunks) outs =
     (if chunk = [] then Some []
      else do {
        (sent, ok, a, outs) \<leftarrow> serve_frames env (push_data chunk a) outs;
        if \<not> ok then Some sent
        else do { more \<leftarrow> serve_chunks env a chunks outs; Some (sent @ more) }
      })"

definition handle_client :: "simple_env \<Rightarrow> SerializeHeader \<Rightarrow> bytes list \<Rightarrow> int list \<Rightarrow> bytes option" where
  "handle_client env junk chunks outs = serve_chunks env (new_FrameAssembler junk) chunks outs"

section \<open>Start\<close>

fun parse_args :: "string list \<Rightarrow> ServerConfig \<Rightarrow> (bool \<times> ServerConfig) option" where
  "parse_args [] config = Some (True, config)"
| "parse_args [arg] config = Some (False, config)"
| "parse_args (arg # v # args) config =
     (if arg = ''--help'' \<or> arg = ''-h'' then Some (False, config)
      else if arg = ''--port'' then
        do {
          port \<leftarrow> stoi v;
          if port \<le> 0 \<or> port > 65535 then Some (False, config)
          else parse_args args (config\<lparr>config_port := word_of_int port\<rparr>)
        }
      else if arg = ''--fixture'' then parse_args args (config\<lparr>fixture_file_path := v\<rparr>)
      else Some (False, config))"

text \<open>How the program ends: with an exit code and the descriptors it has closed, or in the loop that accepts.\<close>

datatype simple_end = Exits int "int list" | Serves ServerConfig int

definition simple_main :: "string list \<Rightarrow> int \<Rightarrow> int \<Rightarrow> int \<Rightarrow> simple_end option" where
  "simple_main args listen_fd bind_result listen_result =
     do {
       (ok, config) \<leftarrow> parse_args args default_ServerConfig;
       Some (if \<not> ok then Exits 1 []
             else if listen_fd < 0 then Exits 1 []
             else if bind_result < 0 then Exits 1 [listen_fd]
             else if listen_result < 0 then Exits 1 [listen_fd]
             else Serves config listen_fd)
     }"

text \<open>The threads that are started for the results of \<open>accept\<close>.\<close>

definition accepted_clients :: "int list \<Rightarrow> int list" where
  "accepted_clients fds = filter (\<lambda>fd. \<not> fd < 0) fds"

end
