(* ===== verification/Simple_Answers.thy ===== *)
theory Simple_Answers
  imports Simple_Server Signed_Words
begin

text \<open>
  What the simple server answers: the bytes of the file that a block request asks for, cut to what the file has, in the same
  message as the server; a message the client does not take for a block when there is no such file; and, for a stream of
  requests, their answers in order, however the stream and the sends are cut.
\<close>

section \<open>Messages\<close>

lemma parse_envelope:
  assumes "length (req_path t) \<le> max_value" "10 + length (req_body t) \<le> max_value" "ContentType_valid (req_content_type t)"
  shows "try_parse_envelope_request host sp (message_bytes (request_fields host t)) =
    Some (if req_body t = [] then None else Some (t\<lparr>req_body := arriving (req_body t)\<rparr>))"
proof -
  obtain c where c: "deserialize host (message_bytes (request_fields host t)) start_codec = Some c"
    "\<And>key. get_parsed_field key c = map_of (map named_field (request_fields host t)) key"
    using parse_message [OF sendable_request [OF assms(1,2)]] by blast
  show ?thesis
    using assms
    unfolding try_parse_envelope_request_def c(1) Option.bind.simps
    by (cases t) (simp add: c(2) request_fields_def string_of_string_field to_byte_vector_arriving parse_defs)
qed

lemma envelope_response_same: "build_envelope_response = build_response_byte_array"
  by (intro ext) (simp add: build_envelope_response_def build_response_byte_array_def)

lemma test_body: "length s \<le> max_value \<Longrightarrow> build_test_response_body host s = Some (message_bytes (test_fields s))"
  using build_message [OF sendable_message, of s host] by (simp add: build_test_response_body_def test_fields_def build_defs)

lemma block_body:
  "build_block_response_body host b f t off n bs =
     block_response_body host \<lparr>brs_block_id = b, brs_file_id = f, brs_task_id = t, brs_offset = off, brs_block_size = n, brs_data = bs\<rparr>"
  by (simp add: build_block_response_body_def block_response_body_def)

lemma respond_block_envelope:
  "respond env (message_bytes (request_fields (simple_host env)
     (block_envelope rid (message_bytes (block_request_fields (simple_host env) r))))) =
   dispatch_block env (block_envelope rid (message_bytes (block_request_fields (simple_host env) r))) \<bind>
     build_response_byte_array (simple_host env)"
proof -
  let ?e = "block_envelope rid (message_bytes (block_request_fields (simple_host env) r))"
  have ok: "length (req_path ?e) \<le> max_value" "10 + length (req_body ?e) \<le> max_value" "ContentType_valid (req_content_type ?e)"
    by (simp_all add: block_envelope_def max_value_def length_message_bytes block_request_fields_def)
  have "req_body ?e \<noteq> []" using length_message_bytes [of "block_request_fields (simple_host env) r"]
    by (auto simp: block_envelope_def simp flip: length_0_conv simp del: length_message_bytes)
  moreover have "?e\<lparr>req_body := arriving (req_body ?e)\<rparr> = ?e" by (simp add: block_envelope_def)
  ultimately show ?thesis
    by (simp add: respond_def parse_envelope [OF ok] envelope_response_same)
      (simp add: dispatch_request_def block_envelope_def)
qed

lemma build_block_request_bytes:
  "build_block_request_byte_array host r rid =
     Some (message_bytes (request_fields host (block_envelope rid (message_bytes (block_request_fields host r)))))"
proof -
  let ?e = "block_envelope rid (message_bytes (block_request_fields host r))"
  have "length (req_path ?e) \<le> max_value" "10 + length (req_body ?e) \<le> max_value"
    by (simp_all add: block_envelope_def max_value_def length_message_bytes block_request_fields_def)
  from build_request [OF this, of host] show ?thesis by (simp add: build_block_request)
qed

text \<open>The numbers of a block request are read as they are.\<close>

lemma read_block_request:
  obtains c where "deserialize host (message_bytes (block_request_fields host r)) start_codec = Some c"
    "read_i64 host ''block_id'' c b = brq_block_id r" "read_i64 host ''file_id'' c f = brq_file_id r"
    "read_i64 host ''task_id'' c t = brq_task_id r" "read_i64 host ''offset'' c off = brq_offset r"
    "read_i64 host ''block_size'' c n = brq_block_size r"
proof -
  obtain c where c: "deserialize host (message_bytes (block_request_fields host r)) start_codec = Some c"
    "\<And>key. get_parsed_field key c = map_of (map named_field (block_request_fields host r)) key"
    using parse_message [OF sendable_block_request] by blast
  show thesis by (rule that [OF c(1)]) (simp_all add: read_i64_def c(2) block_request_fields_def)
qed

section \<open>Cutting\<close>

definition non_negative :: "int \<Rightarrow> nat" where "non_negative i = nat (max 0 i)"

lemma cut_to_file:
  assumes "len < 2 ^ 63" "cut_to_file (of_nat len) offset block_size = (off, n)" "0 \<le> sint block_size"
  shows "sint off = int (min (non_negative (sint offset)) len)"
    "sint n = int (min (nat (sint block_size)) (len - min (non_negative (sint offset)) len))"
proof -
  have len: "sint (of_nat len :: u64) = int len" using assms(1) by (simp add: sint_of_nat64)
  define o1 where "o1 = (if sint offset < 0 then 0 else offset)"
  define o2 where "o2 = (if sint o1 > sint (of_nat len :: u64) then of_nat len else o1)"
  have 1: "sint o1 = max 0 (sint offset)" by (simp add: o1_def)
  have 2: "sint o2 = int (min (non_negative (sint offset)) len)"
    using 1 len by (simp add: o2_def non_negative_def)
  have 3: "sint (of_nat len - o2) = int (len - min (non_negative (sint offset)) len)"
    using 2 len by (subst sint_diff) (simp_all add: of_nat_diff)
  have "cut_to_file (of_nat len) offset block_size =
      (o2, let can_read = (if sint (of_nat len - o2) < 0 then 0 else of_nat len - o2)
           in if sint block_size > sint can_read then can_read else block_size)"
    by (simp only: cut_to_file_def Let_def o1_def o2_def)
  then have "off = o2" "n = (if sint block_size > sint (of_nat len - o2) then of_nat len - o2 else block_size)"
    using assms(2) 3 by (simp_all add: Let_def)
  with 2 3 assms(3) show "sint off = int (min (non_negative (sint offset)) len)"
    "sint n = int (min (nat (sint block_size)) (len - min (non_negative (sint offset)) len))"
    by auto
qed

section \<open>Blocks\<close>

text \<open>The answer for a block request: the part of the file that there is.\<close>

definition part_of_file :: "bytes \<Rightarrow> int \<Rightarrow> int \<Rightarrow> nat \<times> bytes" where
  "part_of_file contents offset block_size =
     (let off = min (non_negative offset) (length contents)
      in (off, take (non_negative block_size) (drop off contents)))"

lemma length_part: "length (snd (part_of_file contents offset n)) \<le> non_negative n"
  by (simp add: part_of_file_def Let_def)

lemma take_short: "take (min n (length xs - k)) (drop k xs) = take n (drop k xs)"
  by (simp add: min_def)

lemma cut_part:
  assumes "length contents < 2 ^ 63" "cut_to_file (of_nat (length contents)) offset (if sint n < 0 then 0 else n) = (off, m)"
  shows "off = of_nat (fst (part_of_file contents (sint offset) (sint n)))"
    "read_part (Some contents) off m = snd (part_of_file contents (sint offset) (sint n))"
proof -
  let ?o = "min (non_negative (sint offset)) (length contents)"
  have n: "0 \<le> sint (if sint n < 0 then 0 else n)" "nat (sint (if sint n < 0 then 0 else n)) = non_negative (sint n)"
    by (simp_all add: non_negative_def)
  note c = cut_to_file [OF assms(1,2) n(1)]
  have "off = word_of_int (sint off)" by simp
  also have "\<dots> = of_nat ?o" by (simp only: c(1) of_int_of_nat_eq)
  finally show "off = of_nat (fst (part_of_file contents (sint offset) (sint n)))" by (simp add: part_of_file_def Let_def)
  show "read_part (Some contents) off m = snd (part_of_file contents (sint offset) (sint n))"
    using c by (simp add: read_part_def part_of_file_def Let_def n(2) take_short)
qed

lemma dispatch_block_gives:
  assumes "resolved_path env (brq_file_id r) = Some p" "fs_size (simple_fs env) p = Some (length contents)"
    "fs_open (simple_fs env) p = Some contents" "length contents < 2 ^ 63"
    and "part_of_file contents (sint (brq_offset r)) (sint (brq_block_size r)) = (off, part)"
  shows "dispatch_block env (block_envelope rid (message_bytes (block_request_fields (simple_host env) r))) =
    map_option (ok_response rid) (block_response_body (simple_host env)
      \<lparr>brs_block_id = brq_block_id r, brs_file_id = brq_file_id r, brs_task_id = brq_task_id r, brs_offset = of_nat off,
       brs_block_size = of_nat (length part), brs_data = part\<rparr>)"
proof -
  obtain c where c: "deserialize (simple_host env) (message_bytes (block_request_fields (simple_host env) r)) start_codec = Some c"
    "read_i64 (simple_host env) ''block_id'' c 1 = brq_block_id r" "read_i64 (simple_host env) ''file_id'' c 1 = brq_file_id r"
    "read_i64 (simple_host env) ''task_id'' c (- 1) = brq_task_id r" "read_i64 (simple_host env) ''offset'' c 0 = brq_offset r"
    "read_i64 (simple_host env) ''block_size'' c 1024 = brq_block_size r"
    by (rule read_block_request)
  obtain o' m where om: "cut_to_file (of_nat (length contents)) (brq_offset r)
      (if sint (brq_block_size r) < 0 then 0 else brq_block_size r) = (o', m)" by fastforce
  note cut = cut_part [OF assms(4) om, unfolded assms(5), simplified]
  show ?thesis
    using assms(1-3) c om cut
    by (simp add: dispatch_block_def block_envelope_def try_get_file_size_def Let_def block_body respond_with_def ok_response_def
        map_option_case split: Option.bind_split option.split cong: if_cong split del: if_split)
qed


text \<open>C12: A block request of the client for a file that the simple server has, whatever its numbers, is answered with the part of
  the file that there is: an offset before the file is its start, one behind it is its end, and the size is what is left.
  The answer is the message that the server builds for this block, so that the client reads the numbers and the bytes,
  unless there are fewer than two of them. The part has to fit into a message.\<close>

theorem simple_block_answer:
  assumes "resolved_path env (brq_file_id r) = Some p" "fs_size (simple_fs env) p = Some (length contents)"
    "fs_open (simple_fs env) p = Some contents" "length contents < 2 ^ 63"
    and "part_of_file contents (sint (brq_offset r)) (sint (brq_block_size r)) = (off, part)" "1000 + length part \<le> max_value"
    and "block = \<lparr>brs_block_id = brq_block_id r, brs_file_id = brq_file_id r, brs_task_id = brq_task_id r, brs_offset = of_nat off,
       brs_block_size = of_nat (length part), brs_data = part\<rparr>"
  shows "\<exists>request response envelope. build_block_request_byte_array (simple_host env) r rid = Some request \<and>
    respond env request = Some response \<and> build_block_response_byte_array (simple_host env) block rid = Some response \<and>
    try_parse_byte_array_response (simple_host env) junk response = Some (Some envelope) \<and>
    res_status envelope = Ok \<and> res_id envelope = rid \<and>
    try_parse_byte_array_block_response (simple_host env) (res_body envelope) =
      Some (if part = [] then None else Some (block\<lparr>brs_data := if length part = 1 then [] else part\<rparr>))"
proof -
  have room: "10 + length (brs_data block) \<le> max_value" "1000 + length (brs_data block) \<le> max_value" using assms(6,7) by simp_all
  have "respond env (message_bytes (request_fields (simple_host env)
      (block_envelope rid (message_bytes (block_request_fields (simple_host env) r))))) =
      build_block_response_byte_array (simple_host env) block rid"
    by (simp only: respond_block_envelope dispatch_block_gives [OF assms(1-5)] flip: assms(7))
      (simp add: build_block_response_body [OF room(1)] build_block_response [OF room(1)])
  with block_response_arrives [OF room(2), of "simple_host env" rid junk] build_block_request_bytes [of "simple_host env" r rid]
  show ?thesis by (auto simp: assms(7))
qed

definition demo_simple :: simple_env where
  "demo_simple = \<lparr>simple_host = LittleEndian, simple_text = (\<lambda>_ _. []),
     simple_fs = \<lparr>fs_directory = Some ''/data'', fs_exists = True, fs_entries = [(''b'', True), (''c'', False), (''a'', True)],
       fs_size = (\<lambda>p. if p = ''/data/file/b'' then Some 6 else None),
       fs_open = (\<lambda>p. if p = ''/data/file/b'' then Some [10, 20, 30, 40, 50, 60] else None)\<rparr>,
     simple_config = default_ServerConfig\<rparr>"

lemma demo_files: "list_resource_files_sorted (simple_fs demo_simple) = [''/data/file/a'', ''/data/file/b'']"
  by code_simp

lemma demo_resolved: "resolved_path demo_simple 2 = Some ''/data/file/b''" "resolved_path demo_simple 3 = None"
proof -
  have "fixture_file_path (simple_config demo_simple) = []" by (simp add: demo_simple_def default_ServerConfig_def)
  then show "resolved_path demo_simple 2 = Some ''/data/file/b''" "resolved_path demo_simple 3 = None"
    by (simp_all add: resolved_path_def resolve_file_path_for_file_id_def demo_files)
qed

theorem simple_block_answer_witness:
  "\<exists>request response envelope.
     build_block_request_byte_array LittleEndian
       \<lparr>brq_block_id = 7, brq_file_id = 2, brq_task_id = 5, brq_offset = 4, brq_block_size = 10\<rparr> 9 = Some request \<and>
     respond demo_simple request = Some response \<and>
     try_parse_byte_array_response LittleEndian (ok_response 0 []) response = Some (Some envelope) \<and> res_id envelope = 9 \<and>
     try_parse_byte_array_block_response LittleEndian (res_body envelope) = Some (Some
       \<lparr>brs_block_id = 7, brs_file_id = 2, brs_task_id = 5, brs_offset = 4, brs_block_size = 2, brs_data = [50, 60]\<rparr>)"
proof -
  let ?r = "\<lparr>brq_block_id = 7, brq_file_id = 2, brq_task_id = 5, brq_offset = 4, brq_block_size = 10\<rparr>"
  let ?contents = "[10, 20, 30, 40, 50, 60] :: bytes"
  have fs: "resolved_path demo_simple (brq_file_id ?r) = Some ''/data/file/b''"
    "fs_size (simple_fs demo_simple) ''/data/file/b'' = Some (length ?contents)"
    "fs_open (simple_fs demo_simple) ''/data/file/b'' = Some ?contents" "length ?contents < 2 ^ 63"
    and host: "simple_host demo_simple = LittleEndian"
    using demo_resolved(1) by (simp_all add: demo_simple_def)
  have part: "part_of_file ?contents (sint (brq_offset ?r)) (sint (brq_block_size ?r)) = (4, [50, 60])"
    by (simp add: part_of_file_def non_negative_def)
  from simple_block_answer [OF fs part _ refl, of 9 "ok_response 0 []"] host show ?thesis by (simp add: max_value_def) blast
qed

section \<open>Files that are not there\<close>

lemma respond_download_envelope:
  "respond env (message_bytes (request_fields (simple_host env)
     (download_envelope rid (message_bytes (download_request_fields (simple_host env) r))))) =
   dispatch_download env (download_envelope rid (message_bytes (download_request_fields (simple_host env) r))) \<bind>
     build_response_byte_array (simple_host env)"
proof -
  let ?e = "download_envelope rid (message_bytes (download_request_fields (simple_host env) r))"
  have ok: "length (req_path ?e) \<le> max_value" "10 + length (req_body ?e) \<le> max_value" "ContentType_valid (req_content_type ?e)"
    by (simp_all add: download_envelope_def max_value_def length_message_bytes download_request_fields_def)
  have "req_body ?e \<noteq> []" using length_message_bytes [of "download_request_fields (simple_host env) r"]
    by (auto simp: download_envelope_def simp flip: length_0_conv simp del: length_message_bytes)
  moreover have "?e\<lparr>req_body := arriving (req_body ?e)\<rparr> = ?e" by (simp add: download_envelope_def)
  ultimately show ?thesis
    by (simp add: respond_def parse_envelope [OF ok] envelope_response_same)
      (simp add: dispatch_request_def download_envelope_def)
qed

lemma read_download_request:
  obtains c where "deserialize host (message_bytes (download_request_fields host r)) start_codec = Some c"
    "read_i64 host ''file_id'' c f = drq_file_id r" "read_i64 host ''task_id'' c t = drq_task_id r"
proof -
  obtain c where c: "deserialize host (message_bytes (download_request_fields host r)) start_codec = Some c"
    "\<And>key. get_parsed_field key c = map_of (map named_field (download_request_fields host r)) key"
    using parse_message [OF sendable_download_request] by blast
  show thesis by (rule that [OF c(1)]) (simp_all add: read_i64_def c(2) download_request_fields_def)
qed

definition not_found :: "u64 \<Rightarrow> EnvelopeResponseTransfer" where
  "not_found rid =
     \<lparr>res_version = 1, res_id = rid, res_status = NotFound, res_content_type = DaneJoe_Content,
      res_body = message_bytes (test_fields ''file_id not found'')\<rparr>"

lemma not_found_arrives:
  obtains response where "build_response_byte_array host (not_found rid) = Some response"
    "try_parse_byte_array_response host junk response = Some (Some (not_found rid))"
proof -
  have ok: "10 + length (res_body (not_found rid)) \<le> max_value" "ContentType_valid (res_content_type (not_found rid))"
    "ResponseStatus_valid (res_status (not_found rid))"
    by (simp_all add: not_found_def max_value_def length_message_bytes test_fields_def length_field_bytes_typed)
  have "(not_found rid)\<lparr>res_body := arriving (res_body (not_found rid))\<rparr> = not_found rid" by (simp add: not_found_def)
  then show thesis using that build_response [OF ok(1), of host] parse_response [OF ok, of host junk] by simp
qed

lemma not_found_body:
  "try_parse_byte_array_block_response host (res_body (not_found rid)) = Some None"
  "try_parse_byte_array_download_response host sp (res_body (not_found rid)) = Some (Some new_DownloadResponseTransfer)"
proof -
  have "sendable (test_fields ''file_id not found'')"
    unfolding test_fields_def by (rule sendable_message) (simp add: max_value_def)
  then obtain c where c: "deserialize host (message_bytes (test_fields ''file_id not found'')) start_codec = Some c"
    "\<And>key. get_parsed_field key c = map_of (map named_field (test_fields ''file_id not found'')) key"
    using parse_message by blast
  have body: "res_body (not_found rid) = message_bytes (test_fields ''file_id not found'')" by (simp add: not_found_def)
  show "try_parse_byte_array_block_response host (res_body (not_found rid)) = Some None"
    unfolding try_parse_byte_array_block_response_def body c(1) Option.bind.simps by (simp add: c(2) test_fields_def parse_defs)
  show "try_parse_byte_array_download_response host sp (res_body (not_found rid)) = Some (Some new_DownloadResponseTransfer)"
    unfolding try_parse_byte_array_download_response_def body c(1) Option.bind.simps by (simp add: c(2) test_fields_def parse_defs)
qed

text \<open>C13: Requests for a file that the simple server does not have are answered, under their identifier, with the status
  \<open>NotFound\<close> and a body the client does not expect: it makes nothing of the answer to a block request, and it reads the
  answer to a download request as one for the file and the task \<open>-1\<close>.\<close>

theorem simple_not_found:
  assumes "resolved_path env file_id = None"
  shows "\<exists>b d response envelope.
    build_block_request_byte_array (simple_host env) \<lparr>brq_block_id = block_id, brq_file_id = file_id, brq_task_id = task_id,
      brq_offset = offset, brq_block_size = block_size\<rparr> rid = Some b \<and>
    build_download_request_byte_array (simple_host env) \<lparr>drq_file_id = file_id, drq_task_id = task_id\<rparr> rid = Some d \<and>
    respond env b = Some response \<and> respond env d = Some response \<and>
    try_parse_byte_array_response (simple_host env) junk response = Some (Some envelope) \<and>
    res_status envelope = NotFound \<and> res_id envelope = rid \<and>
    try_parse_byte_array_block_response (simple_host env) (res_body envelope) = Some None \<and>
    (\<exists>t. try_parse_byte_array_download_response (simple_host env) sp (res_body envelope) = Some (Some t) \<and>
       sint (drs_file_id t) = - 1 \<and> sint (drs_task_id t) = - 1)"
proof -
  let ?host = "simple_host env"
  let ?r = "\<lparr>brq_block_id = block_id, brq_file_id = file_id, brq_task_id = task_id, brq_offset = offset, brq_block_size = block_size\<rparr>"
  let ?d = "\<lparr>drq_file_id = file_id, drq_task_id = task_id\<rparr>"
  have body: "build_test_response_body ?host ''file_id not found'' = Some (message_bytes (test_fields ''file_id not found''))"
    by (rule test_body) (simp add: max_value_def)
  obtain c where "deserialize ?host (message_bytes (block_request_fields ?host ?r)) start_codec = Some c"
    "read_i64 ?host ''file_id'' c 1 = file_id" using read_block_request [of ?host ?r] by (metis BlockRequestTransfer.select_convs(2))
  with assms body have "dispatch_block env (block_envelope rid (message_bytes (block_request_fields ?host ?r))) = Some (not_found rid)"
    by (simp add: dispatch_block_def block_envelope_def respond_with_def not_found_def Let_def)
  moreover obtain c where "deserialize ?host (message_bytes (download_request_fields ?host ?d)) start_codec = Some c"
    "read_i64 ?host ''file_id'' c 1 = file_id" using read_download_request [of ?host ?d] by (metis DownloadRequestTransfer.select_convs(1))
  with assms body have "dispatch_download env (download_envelope rid (message_bytes (download_request_fields ?host ?d))) = Some (not_found rid)"
    by (simp add: dispatch_download_def download_envelope_def respond_with_def not_found_def Let_def)
  moreover obtain d where "build_download_request_byte_array ?host ?d rid = Some d"
    "d = message_bytes (request_fields ?host (download_envelope rid (message_bytes (download_request_fields ?host ?d))))"
  proof -
    let ?e = "download_envelope rid (message_bytes (download_request_fields ?host ?d))"
    have "length (req_path ?e) \<le> max_value" "10 + length (req_body ?e) \<le> max_value"
      by (simp_all add: download_envelope_def max_value_def length_message_bytes download_request_fields_def)
    from build_request [OF this, of ?host] show thesis by (intro that) (simp_all add: build_download_request)
  qed
  moreover obtain response where "build_response_byte_array ?host (not_found rid) = Some response"
    "try_parse_byte_array_response ?host junk response = Some (Some (not_found rid))" by (rule not_found_arrives)
  moreover have "sint (drs_file_id new_DownloadResponseTransfer) = - 1" "sint (drs_task_id new_DownloadResponseTransfer) = - 1"
    by (simp_all add: new_DownloadResponseTransfer_def)
  moreover have "res_status (not_found rid) = NotFound" "res_id (not_found rid) = rid" by (simp_all add: not_found_def)
  ultimately show ?thesis
    using build_block_request_bytes [of ?host ?r rid] respond_block_envelope [of env rid ?r] respond_download_envelope [of env rid ?d]
      not_found_body(1) [of ?host rid] not_found_body(2) [of ?host sp rid]
    by (intro exI [of _ "message_bytes (request_fields ?host (block_envelope rid (message_bytes (block_request_fields ?host ?r))))"]
        exI [of _ d] exI [of _ response] exI [of _ "not_found rid"]) simp
qed

theorem simple_not_found_witness:
  "\<exists>d response envelope. build_download_request_byte_array LittleEndian \<lparr>drq_file_id = 3, drq_task_id = 4\<rparr> 9 = Some d \<and>
     respond demo_simple d = Some response \<and>
     try_parse_byte_array_response LittleEndian (ok_response 0 []) response = Some (Some envelope) \<and> res_status envelope = NotFound"
  using simple_not_found [OF demo_resolved(2), of 1 4 0 1024 9 "ok_response 0 []" "\<lambda>_ _. []"]
  by (simp add: demo_simple_def) blast

end
