(* ===== verification/Simple_Stream.thy ===== *)
theory Simple_Stream
  imports Simple_Answers
begin

text \<open>
  A connection of the simple server as a whole: for a stream of frames that arrives in any pieces, and sends that take any
  number of bytes, what goes out is the answers to the frames, in order. And the arguments of the program.
\<close>

section \<open>Sending\<close>

lemma send_all_sends:
  assumes "list_all (\<lambda>n. 0 < n) outs" "length data \<le> length outs"
  shows "\<exists>rest. send_all data outs = Some (data, True, rest) \<and> list_all (\<lambda>n. 0 < n) rest \<and> length outs \<le> length data + length rest"
  using assms
proof (induction outs arbitrary: data)
  case Nil
  then show ?case by (simp add: send_all.simps [of "[]"])
next
  case (Cons n outs)
  show ?case
  proof (cases "data = []")
    case True
    with Cons.prems show ?thesis by (simp add: send_all.simps [of "[]"])
  next
    case False
    have "0 < nat n" using Cons.prems(1) by simp
    then have "length (drop (nat n) data) \<le> length outs"
      using Cons.prems(2) \<open>0 < nat n\<close> unfolding length_drop list.size by linarith
    moreover have "list_all (\<lambda>n. 0 < n) outs" using Cons.prems(1) by simp
    ultimately have "list_all (\<lambda>n. 0 < n) outs" "length (drop (nat n) data) \<le> length outs" by simp_all
    from Cons.IH [OF this] obtain rest where "send_all (drop (nat n) data) outs = Some (drop (nat n) data, True, rest)"
      "list_all (\<lambda>n. 0 < n) rest" "length outs \<le> length (drop (nat n) data) + length rest" by blast
    moreover have "length (drop (nat n) data) < length data" using False \<open>0 < nat n\<close> by simp
    ultimately have "Suc (length outs) \<le> length data + length rest" by linarith
    with \<open>send_all _ outs = _\<close> \<open>list_all _ rest\<close> False Cons.prems(1) show ?thesis by (simp add: send_all.simps [of data])
  qed
qed

section \<open>Serving\<close>

lemma serve_frames_all:
  assumes "pop_frames (simple_host env) a = Some (fs, a')" "\<And>f. f \<in> set fs \<Longrightarrow> respond env f = Some (answer f)"
    and "list_all (\<lambda>n. 0 < n) outs" "length (concat (map answer fs)) \<le> length outs"
  shows "\<exists>rest. serve_frames env a outs = Some (concat (map answer fs), True, a', rest) \<and> list_all (\<lambda>n. 0 < n) rest \<and>
    length outs \<le> length (concat (map answer fs)) + length rest"
  using assms
proof (induction fs arbitrary: a outs)
  case Nil
  then have "pop_frame (simple_host env) a = Some (None, a')"
    by (subst (asm) pop_frames.simps) (auto split: Option.bind_splits option.splits)
  with Nil show ?case by (simp add: serve_frames.simps [of env a])
next
  case (Cons f fs)
  then obtain a1 where 1: "pop_frame (simple_host env) a = Some (Some f, a1)" "pop_frames (simple_host env) a1 = Some (fs, a')"
    by (subst (asm) pop_frames.simps) (auto split: Option.bind_splits option.splits)
  have "length (answer f) \<le> length outs" using Cons.prems(4) by simp
  from send_all_sends [OF Cons.prems(3) this] obtain mid where mid: "send_all (answer f) outs = Some (answer f, True, mid)"
    "list_all (\<lambda>n. 0 < n) mid" "length outs \<le> length (answer f) + length mid" by blast
  have "length (concat (map answer fs)) \<le> length mid" using Cons.prems(4) mid(3) by simp
  from Cons.IH [OF 1(2) Cons.prems(2) mid(2) this] obtain rest where
    "serve_frames env a1 mid = Some (concat (map answer fs), True, a', rest)" "list_all (\<lambda>n. 0 < n) rest"
    "length mid \<le> length (concat (map answer fs)) + length rest" by auto
  with 1 mid Cons.prems(2) [of f] show ?case by (auto simp: serve_frames.simps [of env a])
qed

lemma serve_chunks_all:
  assumes "fa_ok a" "frames.next_frame (fa_pending a) = None" "fa_pending a @ concat chunks = concat fs @ rest"
    and "\<forall>f \<in> set fs. frames.is_frame f" "frames.next_frame rest = None" "length (concat fs @ rest) < 2 ^ 32"
    and "\<And>f. f \<in> set fs \<Longrightarrow> respond env f = Some (answer f)" "[] \<notin> set chunks"
    and "list_all (\<lambda>n. 0 < n) outs" "length (concat (map answer fs)) \<le> length outs"
  shows "serve_chunks env a (chunks @ [[]]) outs = Some (concat (map answer fs))"
  using assms
proof (induction chunks arbitrary: a fs outs)
  case Nil
  have "fs = []"
  proof (rule ccontr)
    assume "fs \<noteq> []"
    then obtain f gs where "fs = f # gs" by (cases fs) auto
    then show False using Nil.prems(2-4) frames.next_frame_append [of f "concat gs @ rest"] by simp
  qed
  then show ?case by simp
next
  case (Cons chunk chunks)
  let ?a = "push_data chunk a"
  have pending: "fa_pending ?a @ concat chunks = concat fs @ rest" using Cons.prems(3) by (simp add: fa_pending_push)
  then have "length (fa_pending ?a) < 2 ^ 32" using Cons.prems(6) by (metis length_append add_lessD1)
  from pop_frames_split [OF fa_ok_push [OF Cons.prems(1)] this, of "simple_host env"] obtain gs a' where
    g: "pop_frames (simple_host env) ?a = Some (gs, a')" "fa_ok a'" "concat gs @ fa_pending a' = fa_pending ?a"
      "frames.next_frame (fa_pending a') = None" "list_all frames.is_frame gs" by blast
  have "concat gs @ (fa_pending a' @ concat chunks) = concat fs @ rest" using g(3) pending by (metis append.assoc)
  from frames.frames_prefix [OF Cons.prems(4) _ Cons.prems(5) this] g(5) obtain k where
    k: "gs = take k fs" "fa_pending a' @ concat chunks = concat (drop k fs) @ rest" by (auto simp: list_all_iff)
  have parts: "concat (map answer fs) = concat (map answer gs) @ concat (map answer (drop k fs))"
    "concat fs = concat gs @ concat (drop k fs)"
    unfolding k(1) by (simp_all flip: concat_append map_append)
  have sub: "set gs \<subseteq> set fs" "set (drop k fs) \<subseteq> set fs" using k(1) by (auto dest: in_set_takeD in_set_dropD)
  have "\<And>f. f \<in> set gs \<Longrightarrow> respond env f = Some (answer f)" "length (concat (map answer gs)) \<le> length outs"
    using sub Cons.prems(7,10) parts(1) by auto
  from serve_frames_all [OF g(1) this(1) Cons.prems(9) this(2)] obtain outs' where
    s: "serve_frames env ?a outs = Some (concat (map answer gs), True, a', outs')" "list_all (\<lambda>n. 0 < n) outs'"
      "length outs \<le> length (concat (map answer gs)) + length outs'" by blast
  have "serve_chunks env a' (chunks @ [[]]) outs' = Some (concat (map answer (drop k fs)))"
  proof (rule Cons.IH [OF g(2,4) k(2)])
    show "\<forall>f \<in> set (drop k fs). frames.is_frame f" using Cons.prems(4) sub(2) by blast
    show "length (concat (drop k fs) @ rest) < 2 ^ 32" using Cons.prems(6) parts(2) by simp
    show "length (concat (map answer (drop k fs))) \<le> length outs'" using Cons.prems(10) parts(1) s(3) by simp
  qed (use Cons.prems(5,7,8) sub s(2) in auto)
  moreover have "chunk \<noteq> []" using Cons.prems(8) by auto
  ultimately show ?case using s(1) by (simp add: parts(1))
qed

text \<open>C11: The simple server answers a stream of requests completely: however the kernel cuts the bytes of whole frames into
  pieces and however few bytes each \<open>send\<close> takes, what has been sent when the peer closes its side is the answers to its
  frames, in order, and nothing else. The bytes of the stream are fewer than \<open>2 ^ 32\<close>, and \<open>send\<close> always takes a byte.\<close>

theorem simple_server_answers:
  assumes "concat chunks = concat fs @ rest" "\<forall>f \<in> set fs. frames.is_frame f" "frames.next_frame rest = None"
    and "length (concat chunks) < 2 ^ 32" "[] \<notin> set chunks" "\<forall>f \<in> set fs. respond env f = Some (answer f)"
    and "list_all (\<lambda>n. 0 < n) outs" "length (concat (map answer fs)) \<le> length outs"
  shows "handle_client env junk (chunks @ [[]]) outs = Some (concat (map answer fs))"
  unfolding handle_client_def
  by (rule serve_chunks_all [OF fa_ok_new(1) _ _ assms(2,3)]) (use assms in \<open>simp_all add: fa_ok_new frames.next_frame_def\<close>)


section \<open>Frames that are no requests\<close>

definition bad_response :: EnvelopeResponseTransfer where
  "bad_response =
     \<lparr>res_version = 1, res_id = 0, res_status = BadRequest, res_content_type = DaneJoe_Content,
      res_body = message_bytes (test_fields ''bad request'')\<rparr>"

lemma empty_message_is_bad:
  "respond env (message_bytes []) = Some (message_bytes (response_fields (simple_host env) bad_response))"
proof -
  have "sendable []" by (rule sendableI) simp_all
  then obtain c where c: "deserialize (simple_host env) (message_bytes []) start_codec = Some c"
    "\<And>key. get_parsed_field key c = map_of (map named_field []) key" using parse_message by blast
  have "try_parse_envelope_request (simple_host env) (simple_text env) (message_bytes []) = Some None"
    unfolding try_parse_envelope_request_def c(1) Option.bind.simps by (simp add: c(2))
  moreover have "bad_request (simple_host env) = Some bad_response"
    using test_body [of "''bad request''"] by (simp add: bad_request_def bad_response_def max_value_def)
  moreover have "10 + length (res_body bad_response) \<le> max_value"
    by (simp add: bad_response_def max_value_def length_message_bytes test_fields_def length_field_bytes_typed)
  ultimately show ?thesis using build_response [of bad_response] by (simp add: respond_def envelope_response_same)
qed

theorem simple_server_answers_witness:
  "\<exists>answer. respond demo_simple (message_bytes []) = Some answer \<and>
     handle_client demo_simple blank_header [take 5 (message_bytes []), drop 5 (message_bytes []) @ message_bytes [] @ [7], []]
       (replicate 400 3) = Some (answer @ answer)"
proof -
  let ?answer = "message_bytes (response_fields LittleEndian bad_response)"
  have host: "simple_host demo_simple = LittleEndian" by (simp add: demo_simple_def)
  have "length ?answer \<le> 200"
    by (simp add: length_message_bytes response_fields_def length_field_bytes_typed cpp_sizeof_def bad_response_def bytes_fields_def
        vector_field_def test_fields_def)
  moreover have "length (message_bytes []) = 16" by (simp add: length_message_bytes)
  moreover have "frames.is_frame (message_bytes [])" by (rule message_is_frame) simp
  ultimately have "handle_client demo_simple blank_header
      ([take 5 (message_bytes []), drop 5 (message_bytes []) @ message_bytes [] @ [7]] @ [[]]) (replicate 400 3) =
      Some (concat (map (\<lambda>_. ?answer) [message_bytes [], message_bytes []]))"
    by (intro simple_server_answers [where rest = "[7]"])
      (auto simp: frames.next_frame_def empty_message_is_bad host list_all_iff length_0_conv [symmetric] simp del: length_0_conv)
  then show ?thesis using empty_message_is_bad [of demo_simple] by (simp add: host)
qed

section \<open>Arguments\<close>

text \<open>The settings of an argument list.\<close>

datatype simple_setting = Port_Setting string int | Fixture_Setting string

fun setting_args :: "simple_setting \<Rightarrow> string list" where
  "setting_args (Port_Setting t p) = [''--port'', t]"
| "setting_args (Fixture_Setting f) = [''--fixture'', f]"

fun setting_ok :: "simple_setting \<Rightarrow> bool" where
  "setting_ok (Port_Setting t p) \<longleftrightarrow> stoi t = Some p \<and> 0 < p \<and> p \<le> 65535"
| "setting_ok (Fixture_Setting f) \<longleftrightarrow> True"

fun apply_setting :: "simple_setting \<Rightarrow> ServerConfig \<Rightarrow> ServerConfig" where
  "apply_setting (Port_Setting t p) c = c\<lparr>config_port := word_of_int p\<rparr>"
| "apply_setting (Fixture_Setting f) c = c\<lparr>fixture_file_path := f\<rparr>"

lemma parse_settings: "list_all setting_ok ss \<Longrightarrow> parse_args (concat (map setting_args ss)) c = Some (True, fold apply_setting ss c)"
proof (induction ss arbitrary: c)
  case (Cons s ss)
  then show ?case by (cases s) simp_all
qed simp

lemma accepted_settings:
  "parse_args args c = Some (True, c') \<Longrightarrow>
     \<exists>ss. list_all setting_ok ss \<and> args = concat (map setting_args ss) \<and> c' = fold apply_setting ss c"
proof (induction args c arbitrary: c' rule: parse_args.induct)
  case (1 c)
  then show ?case by (intro exI [of _ "[]"]) simp
next
  case (3 arg v args c)
  consider (port) port where "arg = ''--port''" "stoi v = Some port" "0 < port" "port \<le> 65535"
      "parse_args args (c\<lparr>config_port := word_of_int port\<rparr>) = Some (True, c')"
    | (fixture) "arg = ''--fixture''" "parse_args args (c\<lparr>fixture_file_path := v\<rparr>) = Some (True, c')"
    using "3.prems" by (auto split: if_splits Option.bind_splits)
  then show ?case
  proof cases
    case port
    then obtain ss where "list_all setting_ok ss" "args = concat (map setting_args ss)"
      "c' = fold apply_setting ss (c\<lparr>config_port := word_of_int port\<rparr>)"
      using "3.IH"(1) [of port c'] by auto
    with port show ?thesis by (intro exI [of _ "Port_Setting v port # ss"]) simp
  next
    case fixture
    then obtain ss where "list_all setting_ok ss" "args = concat (map setting_args ss)"
      "c' = fold apply_setting ss (c\<lparr>fixture_file_path := v\<rparr>)"
      using "3.IH"(2) [of c'] by auto
    with fixture show ?thesis by (intro exI [of _ "Fixture_Setting v # ss"]) simp
  qed
qed simp

lemma fold_settings_port:
  "list_all setting_ok ss \<Longrightarrow> 0 < unat (config_port c) \<Longrightarrow> 0 < unat (config_port (fold apply_setting ss c))"
proof (induction ss arbitrary: c)
  case (Cons s ss)
  have "0 < unat (config_port (apply_setting s c))"
  proof (cases s)
    case (Port_Setting t p)
    then have "0 < p" "p < 65536" using Cons.prems(1) by simp_all
    then have "(word_of_int p :: u16) = of_nat (nat p)" "nat p < 65536" by simp_all
    then have "unat (word_of_int p :: u16) = nat p" using unat_of_nat_u16 [of "nat p"] by metis
    with Port_Setting \<open>0 < p\<close> show ?thesis by simp
  qed (use Cons.prems in simp)
  then show ?case using Cons by simp
qed simp

text \<open>The arguments that the program accepts are exactly the lists of settings: ports within 1 and 65535 and paths, the last of a kind
  counting. The port it listens on is therefore never 0.\<close>

theorem accepted_arguments:
  "parse_args args default_ServerConfig = Some (True, c) \<longleftrightarrow>
     (\<exists>ss. list_all setting_ok ss \<and> args = concat (map setting_args ss) \<and> c = fold apply_setting ss default_ServerConfig \<and>
       0 < unat (config_port c))"
proof -
  have "0 < unat (config_port default_ServerConfig)" by (simp add: default_ServerConfig_def)
  then show ?thesis using accepted_settings parse_settings fold_settings_port by blast
qed

end
