(* ===== verification/Fresh_Database.thy ===== *)
theory Fresh_Database
  imports Sqlite_Engine
begin

text \<open>
  Both programs remove the file of their database when they start, and connect to it again. What the documentation says of files
  and of opening a database, and that the database is empty then.
\<close>

text \<open>The file system: whether there is a file, and removing one.\<close>

record 'm disk =
  disk_exists :: "string \<Rightarrow> 'm \<Rightarrow> bool"
  disk_remove :: "string \<Rightarrow> 'm \<Rightarrow> 'm"

definition remove_database :: "'m disk \<Rightarrow> string \<Rightarrow> 'm \<Rightarrow> 'm" where
  "remove_database disk p m = (if disk_exists disk p m then disk_remove disk p m else m)"

text \<open>
  What the documentation says of files and of opening a database: a removed file is gone, the directory of a file exists or can be
  made without making the file, and a database in a file that does not exist is opened empty.
\<close>

definition disk_as_documented :: "'m sqlite3 \<Rightarrow> ('m \<Rightarrow> lib_view) \<Rightarrow> 'm disk \<Rightarrow> bool" where
  "disk_as_documented lib view disk \<longleftrightarrow>
     (\<forall>p m. \<not> disk_exists disk p (disk_remove disk p m)) \<and>
     (\<forall>p m. \<not> lib_parent_exists lib p m \<and> \<not> disk_exists disk p m \<longrightarrow>
        (\<exists>m'. lib_create_parent lib p m = (True, m') \<and> \<not> disk_exists disk p m')) \<and>
     (\<forall>p m. \<not> disk_exists disk p m \<longrightarrow>
        (\<exists>m'. lib_open lib p m = (SQLITE_OK, True, m') \<and> lv_db (view m') = Map.empty))"

lemma database_removed: "disk_as_documented lib view disk \<Longrightarrow> \<not> disk_exists disk p (remove_database disk p m)"
  by (simp add: disk_as_documented_def remove_database_def)

lemma connect_opens:
  assumes "disk_as_documented lib view disk" "\<not> disk_exists disk (path c) m" "SqlDatabase.m_config s = c" "m_driver s = Some new_driver"
  shows "\<exists>m'. database_connect lib s m = (True, s\<lparr>m_driver := Some (new_driver\<lparr>m_db := True\<rparr>)\<rparr>, m') \<and> lv_db (view m') = Map.empty"
proof -
  obtain m1 where m1: "(if lib_parent_exists lib (path c) m then (True, m) else lib_create_parent lib (path c) m) = (True, m1)"
    "\<not> disk_exists disk (path c) m1" using assms(1,2) unfolding disk_as_documented_def by metis
  then obtain m2 where "lib_open lib (path c) m1 = (SQLITE_OK, True, m2)" "lv_db (view m2) = Map.empty"
    using assms(1) unfolding disk_as_documented_def by metis
  with m1(1) assms(3,4) show ?thesis by (auto simp: database_connect_def driver_connect_def new_driver_def)
qed

text \<open>The first statement of a driver needs no reset.\<close>

lemma first_prepared:
  assumes calls: "sqlite_calls lib view parses names run" and "parses sql (lv_db (view m))"
    and "query_prepare lib sql q \<lparr>driver = Some (new_driver\<lparr>m_db := True\<rparr>), library = m\<rparr> = (q', w')"
  shows "m_sql q' = sql \<and> ready view sql [] w' \<and> db_of view w' = lv_db (view m)"
proof -
  obtain h m' where h: "lib_prepare lib sql m = (SQLITE_OK, h, m')" "view m' = set_stmt h (fresh_stmt sql) (view m)"
    using sqlite_callsD(1) [OF calls assms(2)] by blast
  with assms(3) show ?thesis
    by (auto simp: query_prepare_def driver_prepare_def new_driver_def ready_def world_ok_def stmt_ok_def fresh_stmt_def)
qed

text \<open>The small library with a disk: a removed file is an empty database.\<close>

definition demo_disk :: "engine disk" where
  "demo_disk =
     \<lparr>disk_exists = (\<lambda>p m. en_db m \<noteq> Map.empty), disk_remove = (\<lambda>p m. m\<lparr>en_db := Map.empty\<rparr>)\<rparr>"

lemma demo_disk_documented: "disk_as_documented (plain_engine knows names run) engine_view demo_disk"
  by (simp add: disk_as_documented_def demo_disk_def plain_engine_def)

end
