(* ===== verification/Server_Views.thy ===== *)
theory Server_Views
  imports Server_Store
begin

text \<open>
  The window of the server: the model behind its table of files, \<open>model/view/server_file_info_table_model\<close>, and the
  dialog that offers a file, \<open>view/dialog/add_file_dialog\<close>.

  Signals to Qt and message boxes are values; what Qt says of the chosen path and the variants it hands over are arguments.
  Layout, headings and log messages are left out.
\<close>

section \<open>The table of files\<close>

record ServerFileInfoTableModel =
  m_file_info_list :: "ServerFileInfo list"

datatype row_signal = Row_Added int | Row_Removed int | Cell_Changed int int

text \<open>The files are loaded before the table has a view, and nothing is announced.\<close>

definition file_table_init ::
  "'m sqlite3 \<Rightarrow> u32 \<Rightarrow> ServerFileInfoTableModel \<Rightarrow> 'm server_store \<Rightarrow> (ServerFileInfoTableModel \<times> 'm server_store) option" where
  "file_table_init lib junk s store =
     do {
       store \<leftarrow> server_service_init store;
       (data, store) \<leftarrow> server_service_get_all lib junk store;
       Some (s\<lparr>m_file_info_list := data\<rparr>, store)
     }"

definition file_column_count :: "bool \<Rightarrow> int" where
  "file_column_count parent_valid = (if parent_valid then 0 else 5)"

definition file_row_count :: "bool \<Rightarrow> ServerFileInfoTableModel \<Rightarrow> int" where
  "file_row_count parent_valid s = (if parent_valid then 0 else int (length (m_file_info_list s)))"

text \<open>The role of a request is display, editing or another; an index that is not valid is \<open>None\<close>. A row outside of the list
  is undefined behaviour.\<close>

datatype item_role = Display_Role | Edit_Role | Other_Role

datatype file_cell = File_Id_Cell u32 | File_Text_Cell string | File_Size_Cell u64 | No_File_Cell

definition file_at :: "int \<Rightarrow> ServerFileInfoTableModel \<Rightarrow> ServerFileInfo option" where
  "file_at row s =
     (if row < 0 \<or> row \<ge> int (length (m_file_info_list s)) then None else Some (m_file_info_list s ! nat row))"

definition file_table_data :: "(int \<times> int) option \<Rightarrow> item_role \<Rightarrow> ServerFileInfoTableModel \<Rightarrow> file_cell option" where
  "file_table_data index role s =
     (case index of
        None \<Rightarrow> Some No_File_Cell
      | Some (row, column) \<Rightarrow>
          if role = Display_Role
          then (if column = 0 then do { f \<leftarrow> file_at row s; Some (File_Id_Cell (server_file_id f)) }
                else if column = 1 then do { f \<leftarrow> file_at row s; Some (File_Text_Cell (server_file_name f)) }
                else if column = 2 then do { f \<leftarrow> file_at row s; Some (File_Text_Cell (resource_path f)) }
                else if column = 3 then do { f \<leftarrow> file_at row s; Some (File_Size_Cell (ucast (server_file_size f))) }
                else if column = 4 then do { f \<leftarrow> file_at row s; Some (File_Text_Cell (server_md5_code f)) }
                else Some No_File_Cell)
          else Some No_File_Cell)"

text \<open>A variant of Qt as the conversions that are asked of it see it.\<close>

record variant =
  to_int :: u32
  to_text :: string
  to_uint :: u32

definition set_file_cell :: "int \<Rightarrow> variant \<Rightarrow> ServerFileInfo \<Rightarrow> ServerFileInfo" where
  "set_file_cell column v f =
     (if column = 0 then f\<lparr>server_file_id := to_int v\<rparr>
      else if column = 1 then f\<lparr>server_file_name := to_text v\<rparr>
      else if column = 2 then f\<lparr>resource_path := to_text v\<rparr>
      else if column = 3 then f\<lparr>server_file_size := to_uint v\<rparr>
      else f\<lparr>server_md5_code := to_text v\<rparr>)"

definition file_table_set_data ::
  "(int \<times> int) option \<Rightarrow> variant \<Rightarrow> item_role \<Rightarrow> ServerFileInfoTableModel \<Rightarrow> bool \<times> row_signal list \<times> ServerFileInfoTableModel" where
  "file_table_set_data index v role s =
     (case index of
        None \<Rightarrow> (False, [], s)
      | Some (row, column) \<Rightarrow>
          if role = Edit_Role
          then (if row < 0 \<or> row \<ge> int (length (m_file_info_list s)) \<or> column < 0 \<or> column \<ge> 5 then (False, [], s)
                else (True, [Cell_Changed row column],
                      s\<lparr>m_file_info_list := (m_file_info_list s)[nat row := set_file_cell column v (m_file_info_list s ! nat row)]\<rparr>))
          else (False, [], s))"

definition file_table_add :: "ServerFileInfo \<Rightarrow> ServerFileInfoTableModel \<Rightarrow> row_signal list \<times> ServerFileInfoTableModel" where
  "file_table_add f s =
     (let row_count = int (length (m_file_info_list s))
      in ([Row_Added row_count], s\<lparr>m_file_info_list := m_file_info_list s @ [f]\<rparr>))"

text \<open>\<open>indexOf\<close> gives the first row of an equal file, or \<open>-1\<close>; equality compares all members.\<close>

definition index_of :: "ServerFileInfo \<Rightarrow> ServerFileInfo list \<Rightarrow> int" where
  "index_of f fs = (let n = length (takeWhile (\<lambda>g. g \<noteq> f) fs) in if n = length fs then - 1 else int n)"

definition file_table_remove :: "ServerFileInfo \<Rightarrow> ServerFileInfoTableModel \<Rightarrow> row_signal list \<times> ServerFileInfoTableModel" where
  "file_table_remove f s =
     (let row = index_of f (m_file_info_list s) in
      if row \<ge> 0
      then ([Row_Removed row],
            s\<lparr>m_file_info_list := take (nat row) (m_file_info_list s) @ drop (Suc (nat row)) (m_file_info_list s)\<rparr>)
      else ([], s))"

section \<open>Offering a file\<close>

text \<open>What Qt says of the path in the dialog: whether there is a file, whether it can be opened, the digest of its contents if
  they can be read, and the name, the path and the size of the file.\<close>

record chosen_file =
  chosen_exists :: bool
  chosen_opens :: bool
  chosen_md5 :: "string option"
  chosen_name :: string
  chosen_path :: string
  chosen_size :: nat

datatype message_box = Warning_Box string | Information_Box string

definition chosen_info :: "string \<Rightarrow> chosen_file \<Rightarrow> ServerFileInfo" where
  "chosen_info md5 c =
     \<lparr>server_file_id = 0, server_file_name = chosen_name c, resource_path = chosen_path c,
      server_file_size = of_nat (chosen_size c), server_md5_code = md5\<rparr>"

definition on_add_file_button_clicked ::
  "'m sqlite3 \<Rightarrow> u32 \<Rightarrow> bool \<Rightarrow> chosen_file \<Rightarrow> ServerFileInfoTableModel \<Rightarrow> 'm server_store \<Rightarrow>
   (message_box list \<times> row_signal list \<times> ServerFileInfoTableModel \<times> 'm server_store) option" where
  "on_add_file_button_clicked lib junk initialized c table store =
     (if \<not> initialized then Some ([], [], table, store)
      else if \<not> chosen_exists c then Some ([Warning_Box ''File does not exist''], [], table, store)
      else if \<not> chosen_opens c then Some ([Warning_Box ''File cannot be opened''], [], table, store)
      else case chosen_md5 c of
        None \<Rightarrow> Some ([Warning_Box ''File cannot be hashed''], [], table, store)
      | Some md5 \<Rightarrow>
          do {
            let file_info = chosen_info md5 c;
            (result, store) \<leftarrow> server_service_add lib junk file_info store;
            (n, store) \<leftarrow> server_service_count lib store;
            let file_info = file_info\<lparr>server_file_id := n\<rparr>;
            Some (if result
              then (case file_table_add file_info table of
                      (signals, table) \<Rightarrow> ([Information_Box ''File added successfully''], signals, table, store))
              else ([], [], table, store))
          })"

section \<open>The files and their number\<close>

lemma server_counts:
  assumes h: "server_holds lib view parses names run s fs"
  shows "\<exists>s'. server_service_count lib s = Some (of_nat (length fs), s') \<and> server_holds lib view parses names run s' fs"
proof -
  let ?db = "db_of view (server_sql s)"
  obtain q where q: "m_query (file_info_repository s) = Some q" using h by (auto simp: server_holds_def)
  have calls: "sqlite_calls lib view parses names run" and sql: "server_sql_ok parses names run"
    and ok: "world_ok view (server_sql s)" and held: "files_held fs ?db"
    using h by (simp_all add: server_holds_def)
  obtain T where T: "?db ''file_info'' = Some T" "tbl_rows T = map server_row fs" using held by (auto simp: files_held_def)
  have there: "count_files_sql = create_files_sql \<or> ?db ''file_info'' \<noteq> None" using T(1) by simp
  have "count_files_sql \<in> server_texts" by (simp add: server_texts_def)
  note law = server_sqlD [OF sql this files_held_ok [OF held] there]
  have "server_run count_files_sql [] ?db = Some ([[Integer_Value (of_nat (length fs))]], ?db)"
    using T server_texts_distinct by (auto simp: server_run_def)
  from law(3) [OF _ this] obtain rows' where "run count_files_sql [] ?db = Some (rows', ?db)"
    "mset rows' = mset [[Integer_Value (of_nat (length fs))]]" by (auto simp: server_params)
  then have r: "run count_files_sql [] ?db = Some ([[Integer_Value (of_nat (length fs))]], ?db)" by simp
  have n: "names count_files_sql = [''COUNT(*)'']" using law(2) by (simp add: server_names_def)
  from statement_query_gives [OF calls ok law(1) list.rel_intros(1) _ r, of q] obtain q' w' where
    "statement_query lib count_files_sql [] q (server_sql s) =
       Some (map (cells_of [''COUNT(*)'']) [[Integer_Value (of_nat (length fs))]], q', w')"
    "world_ok view w'" "db_of view w' = ?db" by (auto simp: n server_params)
  moreover have "(ucast (of_nat (length fs) :: u64) :: u32) = of_nat (length fs)" by transfer simp
  ultimately have "server_service_count lib s = Some (of_nat (length fs),
      s\<lparr>file_info_repository := (file_info_repository s)\<lparr>m_query := Some q'\<rparr>, server_sql := w'\<rparr>)"
    by (simp add: server_service_count_def with_server_files_def server_count_def q cells_of_def)
  moreover have "server_holds lib view parses names run
      (s\<lparr>file_info_repository := (file_info_repository s)\<lparr>m_query := Some q'\<rparr>, server_sql := w'\<rparr>) fs"
    by (rule server_holds_again [OF h \<open>world_ok view w'\<close>]) (simp add: \<open>db_of view w' = ?db\<close> held)
  ultimately show ?thesis by blast
qed

lemma read_server_rows:
  "list_all server_file_valid fs \<Longrightarrow>
     read_server_files junk (map (\<lambda>f. cells_of (''file_id'' # server_fields) (map snd (server_row f))) fs) = Some fs"
  by (induction fs) (simp_all add: read_server_row del: server_row_sel(4))

lemma server_gets_all:
  assumes h: "server_holds lib view parses names run s fs"
  shows "\<exists>fs' s'. server_service_get_all lib junk s = Some (fs', s') \<and> mset fs' = mset fs \<and>
    server_holds lib view parses names run s' fs"
proof -
  let ?db = "db_of view (server_sql s)"
  obtain q where q: "m_query (file_info_repository s) = Some q" using h by (auto simp: server_holds_def)
  have held: "files_held fs ?db" and valid: "list_all server_file_valid fs" using h by (auto simp: server_holds_def files_held_def)
  obtain T where T: "?db ''file_info'' = Some T" "tbl_rows T = map server_row fs" using held by (auto simp: files_held_def)
  have "server_run all_files_sql [] ?db = Some (map (\<lambda>f. map snd (server_row f)) (filter (\<lambda>f. True) fs), ?db)"
    using T server_texts_distinct by (auto simp: server_run_def comp_def simp del: server_row_sel(4))
  then obtain q' w' fs' where r: "statement_query lib all_files_sql [] q (server_sql s) =
      Some (map (\<lambda>f. cells_of (''file_id'' # server_fields) (map snd (server_row f))) fs', q', w')"
    "mset fs' = mset (filter (\<lambda>f. True) fs)" "world_ok view w'" "db_of view w' = ?db"
    using server_select [OF h, of all_files_sql "[]" "[]" "\<lambda>f. True" q] server_params by auto
  have "list_all server_file_valid fs'" using valid r(2) by (metis filter_True list_all_iff mset_eq_setD)
  then have "server_service_get_all lib junk s =
      Some (fs', s\<lparr>file_info_repository := (file_info_repository s)\<lparr>m_query := Some q'\<rparr>, server_sql := w'\<rparr>)"
    by (simp add: server_service_get_all_def with_server_files_def server_get_all_def q r(1) read_server_rows
        del: server_row_sel(4))
  moreover have "server_holds lib view parses names run
      (s\<lparr>file_info_repository := (file_info_repository s)\<lparr>m_query := Some q'\<rparr>, server_sql := w'\<rparr>) fs"
    by (rule server_holds_again [OF h r(3)]) (simp add: r(4) held)
  ultimately show ?thesis using r(2) by auto
qed

section \<open>What the table shows\<close>

text \<open>A cell that was edited shows the value it was given, and the others what they showed.\<close>

lemma edited_cell_shown:
  assumes "file_table_set_data (Some (row, column)) v Edit_Role s = (True, signals, s')"
  shows "file_table_data (Some (row, column)) Display_Role s' =
      Some (if column = 0 then File_Id_Cell (to_int v) else if column = 3 then File_Size_Cell (ucast (to_uint v))
            else File_Text_Cell (to_text v))"
    "(row', column') \<noteq> (row, column) \<Longrightarrow>
       file_table_data (Some (row', column')) Display_Role s' = file_table_data (Some (row', column')) Display_Role s"
proof -
  have ok: "0 \<le> row" "row < int (length (m_file_info_list s))" "0 \<le> column" "column < 5"
    and s': "s' = s\<lparr>m_file_info_list := (m_file_info_list s)[nat row := set_file_cell column v (m_file_info_list s ! nat row)]\<rparr>"
    using assms by (auto simp: file_table_set_data_def split: if_splits)
  have "column \<in> {0, 1, 2, 3, 4}" using ok(3,4) by auto
  then show "file_table_data (Some (row, column)) Display_Role s' =
      Some (if column = 0 then File_Id_Cell (to_int v) else if column = 3 then File_Size_Cell (ucast (to_uint v))
            else File_Text_Cell (to_text v))"
    using ok(1,2) by (auto simp: s' file_table_data_def file_at_def set_file_cell_def)
  assume "(row', column') \<noteq> (row, column)"
  then show "file_table_data (Some (row', column')) Display_Role s' = file_table_data (Some (row', column')) Display_Role s"
    using ok(1,2) \<open>column \<in> _\<close> by (auto simp: s' file_table_data_def file_at_def set_file_cell_def nth_list_update)
qed

text \<open>Removing takes out the first file that is equal in all members, and announces its row.\<close>

lemma removed_file:
  "file_table_remove f s =
     (if f \<in> set (m_file_info_list s)
      then ([Row_Removed (index_of f (m_file_info_list s))], s\<lparr>m_file_info_list := remove1 f (m_file_info_list s)\<rparr>)
      else ([], s))"
proof -
  let ?n = "\<lambda>fs. length (takeWhile (\<lambda>g. g \<noteq> f) fs)"
  have there: "f \<in> set fs \<Longrightarrow> ?n fs < length fs \<and> take (?n fs) fs @ drop (Suc (?n fs)) fs = remove1 f fs" for fs
    by (induction fs) auto
  have gone: "f \<notin> set fs \<Longrightarrow> ?n fs = length fs" for fs by (induction fs) auto
  show ?thesis
  proof (cases "f \<in> set (m_file_info_list s)")
    case True
    with there [OF True] show ?thesis by (simp add: file_table_remove_def index_of_def Let_def)
  next
    case False
    with gone [OF False] show ?thesis by (simp add: file_table_remove_def index_of_def Let_def)
  qed
qed

lemma file_id_updates: "f\<lparr>server_file_id := i\<rparr> = f\<lparr>server_file_id := k\<rparr> \<longleftrightarrow> i = k" for f :: ServerFileInfo
  by (cases f) simp

text \<open>C18: A file that can be read and whose checksum is new is offered under the identifier after the largest one, and a row is
  added for it; but the row shows the number of files instead of this identifier. The two are the same exactly when the
  largest identifier is the number of files there were: once a file other than the last one has been removed, the server shows a wrong
  identifier for every new file.\<close>

theorem offered_file_shown:
  assumes "server_holds lib view parses names run store fs"
    and "chosen_exists c" "chosen_opens c" "chosen_md5 c = Some md5" "f = chosen_info md5 c" "server_file_valid f"
    and "\<forall>g \<in> set fs. server_md5_code g \<noteq> md5" "next_file_id fs < 2 ^ 31" "length fs < 2 ^ 31 - 1"
    and "row = f\<lparr>server_file_id := of_nat (length fs + 1)\<rparr>" "kept = f\<lparr>server_file_id := word_of_int (next_file_id fs)\<rparr>"
  shows "\<exists>store'. on_add_file_button_clicked lib junk True c table store =
      Some ([Information_Box ''File added successfully''], [Row_Added (int (length (m_file_info_list table)))],
        table\<lparr>m_file_info_list := m_file_info_list table @ [row]\<rparr>, store') \<and>
    server_holds lib view parses names run store' (fs @ [kept]) \<and>
    (row = kept \<longleftrightarrow> next_file_id fs = int (length fs) + 1)"
proof -
  have "\<forall>g \<in> set fs. server_md5_code g \<noteq> server_md5_code f" using assms(5,7) by (simp add: chosen_info_def)
  from server_add_new [OF assms(1,6) this assms(8), of junk] obtain s1 where
    s1: "server_service_add lib junk f store = Some (True, s1)" "server_holds lib view parses names run s1 (fs @ [kept])"
    using assms(11) by blast
  from server_counts [OF s1(2)] obtain s2 where s2: "server_service_count lib s1 = Some (of_nat (length fs + 1), s2)"
    "server_holds lib view parses names run s2 (fs @ [kept])" by auto
  have number: "sint (word_of_int i :: u32) = i" if "0 \<le> i" "i < 2 ^ 31" for i
    unfolding sint_sbintrunc' using that by (intro signed_take_bit_int_eq_self) simp_all
  have "on_add_file_button_clicked lib junk True c table store =
      Some ([Information_Box ''File added successfully''], [Row_Added (int (length (m_file_info_list table)))],
        table\<lparr>m_file_info_list := m_file_info_list table @ [row]\<rparr>, s2)"
    using assms(2-5,10) s1(1) s2(1) by (simp add: on_add_file_button_clicked_def file_table_add_def)
  moreover have "row = kept \<longleftrightarrow> next_file_id fs = int (length fs) + 1"
    using assms(8,9) next_file_id_above(2) [of fs] number [of "next_file_id fs"] number [of "int (length fs) + 1"]
    by (auto simp: assms(10,11) add.commute file_id_updates)
  ultimately show ?thesis using s2(2) by blast
qed

text \<open>A file that the server has already, by its checksum, is refused without a word; the table stays as it is.\<close>

lemma known_file_refused:
  assumes "server_holds lib view parses names run store fs" "g \<in> set fs" "server_md5_code g = md5"
    and "chosen_exists c" "chosen_opens c" "chosen_md5 c = Some md5" "server_file_valid (chosen_info md5 c)"
  shows "\<exists>store'. on_add_file_button_clicked lib junk True c table store = Some ([], [], table, store') \<and>
    server_holds lib view parses names run store' fs"
proof -
  have "server_md5_code g = server_md5_code (chosen_info md5 c)" using assms(3) by (simp add: chosen_info_def)
  from server_add_known [OF assms(1) assms(2) this] obtain s1 where
    s1: "server_service_add lib junk (chosen_info md5 c) store = Some (False, s1)" "server_holds lib view parses names run s1 fs"
    by blast
  from server_counts [OF s1(2)] obtain s2 where "server_service_count lib s1 = Some (of_nat (length fs), s2)"
    "server_holds lib view parses names run s2 fs" by blast
  with s1(1) assms(4-6) show ?thesis by (simp add: on_add_file_button_clicked_def)
qed

definition demo_chosen :: chosen_file where
  "demo_chosen =
     \<lparr>chosen_exists = True, chosen_opens = True, chosen_md5 = Some ''c4ca42'', chosen_name = ''b.txt'', chosen_path = ''/data/b.txt'',
      chosen_size = 12\<rparr>"

text \<open>The first file was removed, the second one is left: the third one is shown under the identifier of the second.\<close>

theorem offered_file_shown_witness:
  "\<exists>store' row. on_add_file_button_clicked server_lib 7 True demo_chosen \<lparr>m_file_info_list = [demo_server_file\<lparr>server_file_id := 2\<rparr>]\<rparr>
      (store_with [demo_server_file\<lparr>server_file_id := 2\<rparr>]) =
      Some ([Information_Box ''File added successfully''], [Row_Added 1],
        \<lparr>m_file_info_list = [demo_server_file\<lparr>server_file_id := 2\<rparr>, row]\<rparr>, store') \<and>
    server_file_id row = 2 \<and>
    store_holds store' [demo_server_file\<lparr>server_file_id := 2\<rparr>, row\<lparr>server_file_id := 3\<rparr>]"
proof -
  let ?f = "demo_server_file\<lparr>server_file_id := 2\<rparr>"
  let ?row = "(chosen_info ''c4ca42'' demo_chosen)\<lparr>server_file_id := of_nat (length [?f] + 1)\<rparr>"
  let ?kept = "(chosen_info ''c4ca42'' demo_chosen)\<lparr>server_file_id := word_of_int (next_file_id [?f])\<rparr>"
  have "store_holds (store_with [?f]) [?f]" by (rule store_with_holds) (simp_all add: server_file_valid_def demo_server_file_def)
  then have "\<exists>store'. on_add_file_button_clicked server_lib 7 True demo_chosen \<lparr>m_file_info_list = [?f]\<rparr> (store_with [?f]) =
      Some ([Information_Box ''File added successfully''], [Row_Added (int (length (m_file_info_list \<lparr>m_file_info_list = [?f]\<rparr>)))],
        \<lparr>m_file_info_list = [?f]\<rparr>\<lparr>m_file_info_list := m_file_info_list \<lparr>m_file_info_list = [?f]\<rparr> @ [?row]\<rparr>, store') \<and>
    store_holds store' ([?f] @ [?kept]) \<and> (?row = ?kept \<longleftrightarrow> next_file_id [?f] = int (length [?f]) + 1)"
    by (rule offered_file_shown [where ?md5.0 = "''c4ca42''" and f = "chosen_info ''c4ca42'' demo_chosen"])
      (simp_all add: demo_chosen_def chosen_info_def server_file_valid_def demo_server_file_def next_file_id_def)
  then obtain store' where "on_add_file_button_clicked server_lib 7 True demo_chosen \<lparr>m_file_info_list = [?f]\<rparr> (store_with [?f]) =
      Some ([Information_Box ''File added successfully''], [Row_Added 1], \<lparr>m_file_info_list = [?f, ?row]\<rparr>, store')"
    "store_holds store' [?f, ?kept]" by auto
  then show ?thesis by (intro exI [of _ store'] exI [of _ ?row]) (simp add: next_file_id_def)
qed

end
