(* ===== verification/Network_Runtime.thy ===== *)
theory Network_Runtime
  imports Reactor
begin

text \<open>
  The network side of the server, \<open>server/runtime/network_runtime\<close>: it makes the event descriptor, the epoll descriptor and
  the socket that listens, and hands them to the event loop. What the system calls return is the record \<open>start_calls\<close>.
  The parts are made once, by a new runtime; log messages are left out.
\<close>

record NetworkRuntime =
  n_event_loop :: PosixEpollEventLoop
  n_mail_box :: "ReactorMailBox option"
  n_is_init :: bool

record start_calls =
  call_eventfd :: int
  call_epoll_create :: int
  call_socket :: int
  call_getfl :: "u32 outcome"
  call_setfl :: "u32 outcome"
  call_bind :: "(int \<times> int) list"
  call_listen :: "(int \<times> int) list"

definition new_network_runtime :: "ReactorMailBox option \<Rightarrow> NetworkRuntime" where
  "new_network_runtime box = \<lparr>n_event_loop = new_event_loop, n_mail_box = box, n_is_init = False\<rparr>"

text \<open>The descriptors of local variables are closed on the way out, the socket before epoll.\<close>

definition give_up :: "int list \<Rightarrow> kernel \<Rightarrow> kernel" where
  "give_up fds k = k\<lparr>closed_fds := closed_fds k @ concat (map closed_by fds)\<rparr>"

text \<open>A mail box that is not there is undefined behaviour, \<open>None\<close>.\<close>

definition network_init :: "start_calls \<Rightarrow> NetworkRuntime \<Rightarrow> kernel \<Rightarrow> (NetworkRuntime \<times> kernel) option" where
  "network_init calls s k =
     (let s = s\<lparr>n_is_init := False\<rparr>; event_fd = call_eventfd calls in
      if \<not> is_valid_handle event_fd then Some (s, give_up [event_fd] k)
      else case n_mail_box s of
        None \<Rightarrow> None
      | Some box \<Rightarrow>
          let box = set_event_handle (Some 0) box; s = s\<lparr>n_mail_box := Some box\<rparr>; epoll_fd = call_epoll_create calls in
          if \<not> is_valid_handle epoll_fd then Some (s, give_up [epoll_fd] k)
          else case socket_set_blocking False (socket_of_descriptor (call_socket calls)) (call_getfl calls) (call_setfl calls) of
            (set_non_blocking_status, server_handle, flags) \<Rightarrow>
              if get_status_level set_non_blocking_status = Status_Error
              then Some (s, give_up [socket_handle server_handle, epoll_fd] k)
              else do {
                (bind_status, rest) \<leftarrow> socket_bind server_handle (call_bind calls);
                if get_status_level bind_status = Status_Error
                then Some (s, give_up [socket_handle server_handle, epoll_fd] k)
                else do {
                  (listen_status, rest) \<leftarrow> socket_listen server_handle (call_listen calls);
                  if get_status_level listen_status = Status_Error
                  then Some (s, give_up [socket_handle server_handle, epoll_fd] k)
                  else do {
                    (loop, k) \<leftarrow> loop_init box event_fd server_handle epoll_fd (n_event_loop s) k;
                    Some (s\<lparr>n_event_loop := loop, n_is_init := True\<rparr>, k)
                  }
                }
              })"

definition network_run ::
  "ByteOrder \<Rightarrow> SerializeHeader \<Rightarrow> ((int \<Rightarrow> ConnectContext option) \<Rightarrow> int list) \<Rightarrow> bool list \<Rightarrow>
   NetworkRuntime \<Rightarrow> kernel \<Rightarrow> (run_end \<times> NetworkRuntime \<times> kernel) option" where
  "network_run host junk order flags s k =
     do { (e, loop, k) \<leftarrow> run host junk order flags (n_event_loop s) k; Some (e, s\<lparr>n_event_loop := loop\<rparr>, k) }"

definition network_stop :: "NetworkRuntime \<Rightarrow> NetworkRuntime" where
  "network_stop s = s\<lparr>n_event_loop := loop_stop (n_event_loop s)\<rparr>"

section \<open>What comes of the descriptors\<close>

lemma socket_of_descriptor_valid [simp]: "socket_handle (socket_of_descriptor fd) = fd"
  by (simp add: socket_of_descriptor_def)

lemma set_blocking_same: "socket_handle (fst (snd (socket_set_blocking b h getfl setfl))) = socket_handle h"
  by (auto simp: socket_set_blocking_def Let_def split: outcome.split)

lemma set_blocking_ok:
  "get_status_level (fst (socket_set_blocking b h getfl setfl)) \<noteq> Status_Error \<Longrightarrow> is_valid_handle (socket_handle h)"
  by (auto simp: socket_set_blocking_def invalid_socket_def split: if_splits)

lemma do_ctl_closed: "do_ctl f k = Some (st, k') \<Longrightarrow> closed_fds k' = closed_fds k"
  by (auto simp: do_ctl_def Let_def split: if_splits list.splits prod.splits)

lemma loop_init_effect:
  assumes "loop_init box e h ep s k = Some (s', k')"
  shows "s' = s\<lparr>m_reactor_mail_box := Some box, m_loop_event_handle := Some e, m_epoll_handle := ep, m_server_handle := h\<rparr>"
    "closed_fds k' = closed_fds k"
  using assms by (auto simp: loop_init_def Let_def dest!: do_ctl_closed split: Option.bind_splits)

definition all_made :: "start_calls \<Rightarrow> bool" where
  "all_made calls \<longleftrightarrow> is_valid_handle (call_eventfd calls) \<and> is_valid_handle (call_epoll_create calls) \<and> is_valid_handle (call_socket calls)"

lemma network_init_cases:
  assumes "network_init calls (new_network_runtime (Some box)) k = Some (s, k')"
  obtains (started) h where "all_made calls" "socket_handle h = call_socket calls" "n_is_init s"
      "loop_init (set_event_handle (Some 0) box) (call_eventfd calls) h (call_epoll_create calls) new_event_loop k = Some (n_event_loop s, k')"
      "n_mail_box s = Some (set_event_handle (Some 0) box)"
    | (no_event) "\<not> is_valid_handle (call_eventfd calls)" "\<not> n_is_init s" "n_event_loop s = new_event_loop" "k' = give_up [] k"
    | (no_epoll) "is_valid_handle (call_eventfd calls)" "\<not> is_valid_handle (call_epoll_create calls)" "\<not> n_is_init s"
      "n_event_loop s = new_event_loop" "k' = give_up [] k"
    | (no_socket) "is_valid_handle (call_eventfd calls)" "is_valid_handle (call_epoll_create calls)" "\<not> n_is_init s"
      "n_event_loop s = new_event_loop" "k' = give_up [call_socket calls, call_epoll_create calls] k"
proof -
  obtain st h flags where b: "socket_set_blocking False (socket_of_descriptor (call_socket calls)) (call_getfl calls) (call_setfl calls) =
      (st, h, flags)" by (metis prod_cases3)
  have h: "socket_handle h = call_socket calls"
    using set_blocking_same [of False "socket_of_descriptor (call_socket calls)" "call_getfl calls" "call_setfl calls"] by (simp add: b)
  have valid: "get_status_level st \<noteq> Status_Error \<Longrightarrow> is_valid_handle (call_socket calls)"
    using set_blocking_ok [of False "socket_of_descriptor (call_socket calls)" "call_getfl calls" "call_setfl calls"] by (simp add: b)
  show ?thesis
  proof (cases "is_valid_handle (call_eventfd calls)")
    case False
    then show ?thesis
      using assms by (intro no_event) (auto simp: network_init_def new_network_runtime_def give_up_def closed_by_def close_handle_def is_valid_handle_def)
  next
    case event: True
    show ?thesis
    proof (cases "is_valid_handle (call_epoll_create calls)")
      case False
      with event show ?thesis
        using assms by (intro no_epoll) (auto simp: network_init_def new_network_runtime_def give_up_def closed_by_def close_handle_def is_valid_handle_def)
    next
      case True
      show ?thesis
      proof (cases "n_is_init s")
        case init: True
        then have "get_status_level st \<noteq> Status_Error"
          "loop_init (set_event_handle (Some 0) box) (call_eventfd calls) h (call_epoll_create calls) new_event_loop k = Some (n_event_loop s, k')"
          "n_mail_box s = Some (set_event_handle (Some 0) box)"
          using assms event True b
          by (auto simp: network_init_def new_network_runtime_def Let_def split: Option.bind_splits if_splits)
        with event True h valid init show ?thesis by (intro started) (simp_all add: all_made_def)
      next
        case not_init: False
        then have "n_event_loop s = new_event_loop" "k' = give_up [call_socket calls, call_epoll_create calls] k"
          using assms event True b h
          by (auto simp: network_init_def new_network_runtime_def Let_def split: Option.bind_splits if_splits)
        with event True not_init show ?thesis by (intro no_socket)
      qed
    qed
  qed
qed

text \<open>When the network runtime reports that it is initialised, all descriptors were made, none was closed, and its loop is
  the fresh reactor over them and the mail box, so that it runs. When it does not, the epoll descriptor and the socket
  are closed if they were made, and the loop is untouched, so that running it ends at once.\<close>

theorem network_init_owns:
  assumes "network_init calls (new_network_runtime (Some box)) k = Some (s, k')"
  shows "(n_is_init s \<longrightarrow> all_made calls \<and> closed_fds k' = closed_fds k \<and>
      (\<exists>box' h. n_mail_box s = Some box' \<and> m_event_handle box' = Some 0 \<and> socket_handle h = call_socket calls \<and>
         n_event_loop s = r_loop (reactor_start box' (call_eventfd calls) h (call_epoll_create calls))) \<and>
      run host junk order flags (n_event_loop s) k' =
        run_loop host junk order flags ((n_event_loop s)\<lparr>m_is_running_loop := True\<rparr>) k') \<and>
    (\<not> n_is_init s \<longrightarrow> n_event_loop s = new_event_loop \<and>
      closed_fds k' = closed_fds k @
        (if is_valid_handle (call_eventfd calls) \<and> is_valid_handle (call_epoll_create calls)
         then closed_by (call_socket calls) @ [call_epoll_create calls] else []) \<and>
      network_run host junk order flags s k' = Some (Skipped, s, k'))"
  using assms
proof (cases rule: network_init_cases)
  case (started h)
  have loop: "n_event_loop s = r_loop (reactor_start (set_event_handle (Some 0) box) (call_eventfd calls) h (call_epoll_create calls))"
    "closed_fds k' = closed_fds k"
    using loop_init_effect [OF started(4)] by (simp_all add: reactor_start_def)
  have "run host junk order flags (n_event_loop s) k' =
      run_loop host junk order flags ((n_event_loop s)\<lparr>m_is_running_loop := True\<rparr>) k'"
    using started(1,2) by (simp add: run_def loop(1) reactor_start_def all_made_def)
  with started(1,2,3,5) loop show ?thesis by (auto simp: set_event_handle_def)
next
  case no_event
  then show ?thesis by (simp add: give_up_def network_run_def run_def new_event_loop_def)
next
  case no_epoll
  then show ?thesis by (simp add: give_up_def network_run_def run_def new_event_loop_def)
next
  case no_socket
  then show ?thesis
    by (simp add: give_up_def network_run_def run_def new_event_loop_def closed_by_def close_handle_def is_valid_handle_def)
qed

definition demo_calls :: start_calls where
  "demo_calls =
     \<lparr>call_eventfd = 3, call_epoll_create = 7, call_socket = 5, call_getfl = Done 2, call_setfl = Done 0,
      call_bind = [(- 1, EINTR), (0, 0)], call_listen = [(0, 0)]\<rparr>"

lemma network_starts:
  "\<exists>s k'. network_init demo_calls (new_network_runtime (Some new_mail_box)) (demo_kernel\<lparr>ctl_outs := [Done (), Done ()]\<rparr>) = Some (s, k') \<and>
     n_is_init s"
  by (auto simp: network_init_def demo_calls_def new_network_runtime_def is_valid_handle_def socket_set_blocking_def socket_bind_def
      socket_listen_def loop_init_def do_ctl_def epoll_add_def epoll_control_def Let_def socket_of_descriptor_def)

theorem network_init_owns_witness:
  "\<exists>s k'. network_init demo_calls (new_network_runtime (Some new_mail_box)) (demo_kernel\<lparr>ctl_outs := [Done (), Done ()]\<rparr>) = Some (s, k') \<and>
     n_is_init s \<and> closed_fds k' = [] \<and> m_epoll_handle (n_event_loop s) = 7"
proof -
  let ?k = "demo_kernel\<lparr>ctl_outs := [Done (), Done ()]\<rparr>"
  obtain s k' where s: "network_init demo_calls (new_network_runtime (Some new_mail_box)) ?k = Some (s, k')" "n_is_init s"
    using network_starts by blast
  have "closed_fds ?k = []" "call_epoll_create demo_calls = 7" by (simp_all add: demo_kernel_def demo_calls_def)
  moreover obtain box h where "n_event_loop s = r_loop (reactor_start box (call_eventfd demo_calls) h (call_epoll_create demo_calls))"
    "closed_fds k' = closed_fds ?k"
    using network_init_owns [OF s(1), of LittleEndian blank_header "\<lambda>_. []" "[]"] s(2) by blast
  ultimately show ?thesis using s by (simp add: reactor_start_def)
qed

end
