(* ===== verification/Server_App.thy ===== *)
theory Server_App
  imports Fresh_Database Server_Views Business Network_Runtime Log_Calls
begin

text \<open>
  The start of the server, \<open>server/main/server_app\<close>: its logger, its database, the table of its window, the mail box and the
  two runtimes, in the order in which \<open>init\<close> makes them, and the shortcut that shows and hides the window.

  The file system that the database lies in is part of the state of the library SQLite, see \<open>Sqlite\<close>; asking for a file and
  removing it are arguments. The threads are told by whether they were started.
\<close>

section \<open>The parts\<close>

definition server_logger_config :: LoggerConfig where
  "server_logger_config = new_LoggerConfig\<lparr>log_path := ''./log/server.log'', console_level := Log_DEBUG\<rparr>"

definition server_output_setting :: LogOutputSetting where
  "server_output_setting =
     new_LogOutputSetting\<lparr>enable_function_name := True, enable_line_num := True, enable_time := False\<rparr>"

definition server_init_logger :: "log_world \<Rightarrow> log_world" where
  "server_init_logger w =
     with_logger ''default'' (\<lambda>l. set_output_settings server_output_setting (set_logger_config server_logger_config l)) w"

definition server_sql_config :: SqlConfig where
  "server_sql_config =
     default_config\<lparr>database_name := ''server_database'', path := ''./database/server/server_database.db''\<rparr>"

definition server_clear_database :: "'m disk \<Rightarrow> 'm \<Rightarrow> 'm" where
  "server_clear_database disk m = remove_database disk ''./database/server/server_database.db'' m"

text \<open>
  The result says whether the table exists. The database of the manager and the world of the queries have the driver in common;
  a database that is not there is undefined behaviour.
\<close>

definition server_init_database ::
  "'m sqlite3 \<Rightarrow> SqlDatabaseManager \<Rightarrow> 'm \<Rightarrow> (bool \<times> SqlDatabaseManager \<times> 'm sql_world) option" where
  "server_init_database lib databases m =
     do {
       let databases = add_database ''server_database'' (Some new_driver) databases;
       db \<leftarrow> get_database ''server_database'' databases;
       let db = set_sql_config server_sql_config db;
       let (connected, db, m) = database_connect lib db m;
       repository \<leftarrow> server_init (databases(''server_database'' \<mapsto> db)) new_server_repository;
       let (is_exist, repository, w) = server_ensure_table_exists lib repository \<lparr>driver = get_driver db, library = m\<rparr>;
       Some (is_exist, databases(''server_database'' \<mapsto> db\<lparr>m_driver := driver w\<rparr>), w)
     }"

text \<open>A service that is not initialised, over the database as it is.\<close>

definition new_server_service :: "SqlDatabaseManager \<Rightarrow> 'm sql_world \<Rightarrow> 'm server_store" where
  "new_server_service databases w =
     \<lparr>file_info_repository = new_server_repository, service_is_init = False, server_sql = w, server_databases = databases\<rparr>"

section \<open>The application\<close>

record 'm ServerApp =
  app_is_init :: bool
  app_window_visible :: bool
  app_table :: ServerFileInfoTableModel
  app_network :: NetworkRuntime
  app_business :: "'m server_store BusinessRuntime"
  app_business_thread :: bool
  app_network_thread :: bool

text \<open>The log file is emptied too, which is not part of the state. The two runtimes have the mail box in common.\<close>

definition server_app_init ::
  "'m sqlite3 \<Rightarrow> 'm disk \<Rightarrow> u32 \<Rightarrow> start_calls \<Rightarrow> SqlDatabaseManager \<Rightarrow> log_world \<Rightarrow> 'm \<Rightarrow> kernel \<Rightarrow>
   ('m ServerApp \<times> log_world \<times> kernel) option" where
  "server_app_init lib disk junk calls databases logs m k =
     do {
       let logs = server_init_logger logs;
       let m = server_clear_database disk m;
       (is_exist, databases, w) \<leftarrow> server_init_database lib databases m;
       (table, view_store) \<leftarrow> file_table_init lib junk \<lparr>m_file_info_list = []\<rparr> (new_server_service databases w);
       (network, k) \<leftarrow> network_init calls (new_network_runtime (Some new_mail_box)) k;
       business \<leftarrow> business_init server_service_init
         (new_business (n_mail_box network) (new_server_service databases (server_sql view_store)));
       Some (\<lparr>app_is_init = True, app_window_visible = False, app_table = table, app_network = network, app_business = business,
              app_business_thread = True, app_network_thread = n_is_init network\<rparr>, logs, k)
     }"

text \<open>\<open>stop\<close> asks both runtimes to stop before it joins the threads.\<close>

definition server_app_ask_stop :: "'m ServerApp \<Rightarrow> 'm ServerApp" where
  "server_app_ask_stop s =
     s\<lparr>app_network := network_stop (app_network s), app_business := business_stop (app_business s)\<rparr>"

definition show_main_window :: "'m ServerApp \<Rightarrow> 'm ServerApp" where
  "show_main_window s = (if \<not> app_is_init s then s else s\<lparr>app_window_visible := True\<rparr>)"

definition hide_main_window :: "'m ServerApp \<Rightarrow> 'm ServerApp" where
  "hide_main_window s = (if \<not> app_is_init s then s else s\<lparr>app_window_visible := False\<rparr>)"

text \<open>A key that was released: its letter, with control and shift held, and whether it repeats by itself. The result says
  whether the event was used up; otherwise \<open>QObject\<close> decides.\<close>

record key_release =
  key_letter :: char
  key_control :: bool
  key_shift :: bool
  key_repeats :: bool

definition event_filter :: "bool \<Rightarrow> key_release option \<Rightarrow> 'm ServerApp \<Rightarrow> bool \<times> 'm ServerApp" where
  "event_filter otherwise event s =
     (case event of
        None \<Rightarrow> (otherwise, s)
      | Some e \<Rightarrow>
          if key_repeats e then (otherwise, s)
          else if key_letter e = CHR ''G'' \<and> key_control e \<and> key_shift e
          then (True, if app_window_visible s then hide_main_window s else show_main_window s)
          else if key_letter e = CHR ''D'' \<and> key_control e \<and> key_shift e then (True, s)
          else (otherwise, s))"

section \<open>The database after the start\<close>

lemma files_created:
  "server_run create_files_sql [] Map.empty = Some ([], [''file_info'' \<mapsto> \<lparr>tbl_columns = server_columns, tbl_rows = []\<rparr>])"
  by (simp add: server_run_def)

lemma database_started:
  assumes calls: "sqlite_calls lib view parses names rn" and sql: "server_sql_ok parses names rn"
    and disk: "disk_as_documented lib view disk" and none: "databases ''server_database'' = None"
  obtains databases' w where "server_init_database lib databases (server_clear_database disk m) = Some (True, databases', w)"
    "databases' ''server_database'' \<noteq> None" "world_ok view w" "files_held [] (db_of view w)"
proof -
  let ?db = "set_sql_config server_sql_config (new_database (Some new_driver))"
  have added: "add_database ''server_database'' (Some new_driver) databases =
      databases(''server_database'' \<mapsto> new_database (Some new_driver))"
    using none by (simp add: add_database_def)
  have "path server_sql_config = ''./database/server/server_database.db''" by (simp add: server_sql_config_def)
  then have "\<not> disk_exists disk (path server_sql_config) (server_clear_database disk m)" using database_removed [OF disk] by (simp add: server_clear_database_def)
  then obtain m' where m': "database_connect lib ?db (server_clear_database disk m) =
      (True, ?db\<lparr>m_driver := Some (new_driver\<lparr>m_db := True\<rparr>)\<rparr>, m')" "lv_db (view m') = Map.empty"
    using connect_opens [OF disk, of server_sql_config _ ?db] by (auto simp: set_sql_config_def new_database_def)
  let ?w = "\<lparr>driver = Some (new_driver\<lparr>m_db := True\<rparr>), library = m'\<rparr>"
  obtain q w1 where q: "query_prepare lib create_files_sql \<lparr>m_sql = []\<rparr> ?w = (q, w1)"
    by (cases "query_prepare lib create_files_sql \<lparr>m_sql = []\<rparr> ?w")
  have "files_table_ok (lv_db (view m'))" by (simp add: files_table_ok_def m'(2))
  moreover have "create_files_sql \<in> server_texts" by (simp add: server_texts_def)
  ultimately have law: "parses create_files_sql (lv_db (view m'))"
    "\<exists>rows'. rn create_files_sql [] (lv_db (view m')) =
        Some (rows', [''file_info'' \<mapsto> \<lparr>tbl_columns = server_columns, tbl_rows = []\<rparr>]) \<and> mset rows' = mset []"
    using server_sqlD [OF sql, of create_files_sql "lv_db (view m')"] files_created by (simp_all add: server_params m'(2))
  from first_prepared [OF calls law(1) q] have r: "m_sql q = create_files_sql" "ready view create_files_sql [] w1"
    "db_of view w1 = lv_db (view m')" by simp_all
  obtain w2 where w2: "query_execute_command lib q w1 = (True, w2)" "world_ok view w2"
    "db_of view w2 = [''file_info'' \<mapsto> \<lparr>tbl_columns = server_columns, tbl_rows = []\<rparr>]"
    using execute_command [OF calls r(2,1)] law(2) by (auto simp: server_params r(3))
  have "server_init_database lib databases (server_clear_database disk m) = Some (True,
      (add_database ''server_database'' (Some new_driver) databases)(''server_database'' \<mapsto>
        ?db\<lparr>m_driver := Some (new_driver\<lparr>m_db := True\<rparr>)\<rparr>\<lparr>m_driver := driver w2\<rparr>), w2)"
    using q w2(1)
    by (simp add: server_init_database_def added m'(1) server_init_def new_server_repository_def get_database_def
        server_ensure_table_exists_def get_driver_def Let_def)
  then show thesis by (rule that) (use w2 in \<open>simp_all add: files_held_def\<close>)
qed

section \<open>The start\<close>

lemma service_started:
  assumes "sqlite_calls lib view parses names rn" "server_sql_ok parses names rn" "databases ''server_database'' \<noteq> None"
    and "world_ok view w" "files_held fs (db_of view w)"
  shows "\<exists>s. server_service_init (new_server_service databases w) = Some s \<and> server_holds lib view parses names rn s fs"
  using assms
  by (auto simp: server_service_init_def new_server_service_def server_init_def new_server_repository_def get_database_def
      server_holds_def)

lemma server_started:
  assumes "sqlite_calls lib view parses names rn" "server_sql_ok parses names rn" "disk_as_documented lib view disk"
    and "databases ''server_database'' = None"
    and "network_init calls (new_network_runtime (Some new_mail_box)) k = Some (network, k')"
  shows "\<exists>s. server_app_init lib disk junk calls databases logs m k = Some (s, server_init_logger logs, k') \<and>
    m_file_info_list (app_table s) = [] \<and> server_holds lib view parses names rn (b_file_service (app_business s)) [] \<and>
    app_business_thread s \<and> (app_network_thread s \<longleftrightarrow> n_is_init network)"
proof -
  obtain databases' w where d: "server_init_database lib databases (server_clear_database disk m) = Some (True, databases', w)"
    "databases' ''server_database'' \<noteq> None" "world_ok view w" "files_held [] (db_of view w)"
    using database_started [where databases = databases, OF assms(1-4)] by blast
  obtain s1 where s1: "server_service_init (new_server_service databases' w) = Some s1"
    "server_holds lib view parses names rn s1 []"
    using service_started [where databases = databases', OF assms(1,2) d(2-4)] by blast
  obtain s2 where s2: "server_service_get_all lib junk s1 = Some ([], s2)" "server_holds lib view parses names rn s2 []"
    using server_gets_all [OF s1(2)] by fastforce
  have "world_ok view (server_sql s2)" "files_held [] (db_of view (server_sql s2))" using s2(2) by (simp_all add: server_holds_def)
  from service_started [where databases = databases', OF assms(1,2) d(2) this] obtain s3 where
    s3: "server_service_init (new_server_service databases' (server_sql s2)) = Some s3" "server_holds lib view parses names rn s3 []"
    by blast
  have table: "file_table_init lib junk \<lparr>m_file_info_list = []\<rparr> (new_server_service databases' w) = Some (\<lparr>m_file_info_list = []\<rparr>, s2)"
    using s1(1) s2(1) by (simp add: file_table_init_def)
  have business: "business_init server_service_init (new_business box (new_server_service databases' (server_sql s2))) =
      Some (new_business box s3)" for box
    using s3(1) by (simp add: business_init_def new_business_def)
  show ?thesis
    using assms(5) s3(2) by (simp add: server_app_init_def Let_def d(1) table business) (simp add: new_business_def)
qed

text \<open>A server is started that finds the database of an earlier run.\<close>

lemma demo_server_app:
  "\<exists>manager app k'. new_logger_manager (\<lambda>_. 0) = Some manager \<and>
    server_app_init server_lib demo_disk 7 demo_calls Map.empty (demo_world manager) (library (server_sql (store_with [demo_server_file])))
      (demo_kernel\<lparr>ctl_outs := [Done (), Done ()]\<rparr>) = Some (app, server_init_logger (demo_world manager), k')"
proof -
  obtain manager where manager: "new_logger_manager (\<lambda>_. 0 :: nat) = Some manager"
    by (simp add: new_logger_manager_def add_logger_def add_creator_def new_LoggerConfig_def)
  obtain network k' where network: "network_init demo_calls (new_network_runtime (Some new_mail_box))
      (demo_kernel\<lparr>ctl_outs := [Done (), Done ()]\<rparr>) = Some (network, k')" "n_is_init network"
    using network_starts by blast
  have calls: "sqlite_calls server_lib engine_view (\<lambda>x db. x \<in> server_texts) server_names server_run"
    unfolding server_lib_def by (rule plain_engine_calls)
  show ?thesis
    using server_started [OF calls server_sql_engine demo_disk_documented [of "\<lambda>x. x \<in> server_texts" server_names server_run, folded server_lib_def] _ network(1), of Map.empty 7 "demo_world manager"
        "library (server_sql (store_with [demo_server_file]))"] manager network(2) by auto
qed

text \<open>C16: A server that starts offers no files, whatever its database held before: the file of the database is removed, the
  table is made anew, the window shows no row, and the first file that is added gets the identifier 1 again. The business thread
  is started in any case, the network thread exactly when the network runtime could be initialised. The file system and SQLite
  do as documented, and the system calls return.\<close>

theorem server_starts:
  assumes "sqlite_calls lib view parses names rn" "server_sql_ok parses names rn" "disk_as_documented lib view disk"
    and "databases ''server_database'' = None"
    and "network_init calls (new_network_runtime (Some new_mail_box)) k = Some (network, k')"
  shows "\<exists>s. server_app_init lib disk junk calls databases logs m k = Some (s, server_init_logger logs, k') \<and>
    m_file_info_list (app_table s) = [] \<and> server_holds lib view parses names rn (b_file_service (app_business s)) [] \<and>
    app_business_thread s \<and> (app_network_thread s \<longleftrightarrow> n_is_init network)"
  using assms by (rule server_started)

text \<open>The shortcut shows the window and hides it again.\<close>

lemma shortcut_toggles:
  assumes "app_is_init s" "key_letter e = CHR ''G''" "key_control e" "key_shift e" "\<not> key_repeats e"
  shows "event_filter otherwise (Some e) s = (True, s\<lparr>app_window_visible := \<not> app_window_visible s\<rparr>)"
    "snd (event_filter otherwise (Some e) (snd (event_filter otherwise (Some e) s))) = s"
  using assms by (simp_all add: event_filter_def show_main_window_def hide_main_window_def)

text \<open>The database has a file of an earlier run.\<close>

theorem server_starts_witness:
  "\<exists>manager s k'. new_logger_manager (\<lambda>_. 0) = Some manager \<and>
    server_app_init server_lib demo_disk 7 demo_calls Map.empty (demo_world manager) (library (server_sql (store_with [demo_server_file])))
      (demo_kernel\<lparr>ctl_outs := [Done (), Done ()]\<rparr>) = Some (s, server_init_logger (demo_world manager), k') \<and>
    m_file_info_list (app_table s) = [] \<and> store_holds (b_file_service (app_business s)) [] \<and> app_network_thread s"
proof -
  obtain manager where manager: "new_logger_manager (\<lambda>_. 0 :: nat) = Some manager"
    by (simp add: new_logger_manager_def add_logger_def add_creator_def new_LoggerConfig_def)
  obtain network k' where network: "network_init demo_calls (new_network_runtime (Some new_mail_box))
      (demo_kernel\<lparr>ctl_outs := [Done (), Done ()]\<rparr>) = Some (network, k')" "n_is_init network"
    using network_starts by blast
  have calls: "sqlite_calls server_lib engine_view (\<lambda>x db. x \<in> server_texts) server_names server_run"
    unfolding server_lib_def by (rule plain_engine_calls)
  show ?thesis
    using server_starts [OF calls server_sql_engine demo_disk_documented [of "\<lambda>x. x \<in> server_texts" server_names server_run, folded server_lib_def] _ network(1), of Map.empty 7 "demo_world manager"
        "library (server_sql (store_with [demo_server_file]))"] manager network(2) by auto
qed

end
