(* ===== verification/Business_Answers.thy ===== *)
theory Business_Answers
  imports Business
begin

text \<open>
  What the answers of the server are: one for a request at most, for its own connection; the bytes of the file for a block
  of a file it has; and what it does for other blocks. The file service is used through its contract.
\<close>

section \<open>Only answers\<close>

definition box_clients :: "'s BusinessRuntime \<Rightarrow> u64 \<Rightarrow> PosixFrame list option" where
  "box_clients s cid = (case b_mail_box s of None \<Rightarrow> None | Some box \<Rightarrow> m_to_client_queues box cid)"

definition answered :: "u64 \<Rightarrow> 's BusinessRuntime \<Rightarrow> 's BusinessRuntime \<Rightarrow> bool" where
  "answered cid s s' \<longleftrightarrow>
     b_is_running s' = b_is_running s \<and>
     (b_mail_box s' = b_mail_box s \<or> (\<exists>data. b_mail_box s' = b_mail_box (answer cid data s)))"

lemma answer_sel [simp]:
  "b_is_running (answer cid data s) = b_is_running s" "b_file_service (answer cid data s) = b_file_service s"
  by (simp_all add: answer_def split: option.split)

lemma answered_same [simp]: "answered cid s s"
  by (simp add: answered_def)

lemma look_up_same:
  "look_up env i s = Some (f, s') \<Longrightarrow> b_is_running s' = b_is_running s \<and> b_mail_box s' = b_mail_box s"
  by (auto simp: look_up_def split: Option.bind_splits)

lemma answer_cong: "b_mail_box s' = b_mail_box s \<Longrightarrow> b_mail_box (answer cid data s') = b_mail_box (answer cid data s)"
  by (simp add: answer_def split: option.split)

lemma answer_answered: "b_is_running s1 = b_is_running s \<and> b_mail_box s1 = b_mail_box s \<Longrightarrow> answered cid s (answer cid data s1)"
  unfolding answered_def using answer_cong [of s1 s cid data] by (metis answer_sel(1))

lemma handlers_answer:
  "handle_download_request env d rid cid s = Some s' \<Longrightarrow> answered cid s s'"
  "handle_test_request env t rid cid s = Some s' \<Longrightarrow> answered cid s s'"
  "handle_block_request env b rid cid s = Some s' \<Longrightarrow> answered cid s s'"
proof -
  assume "handle_download_request env d rid cid s = Some s'"
  then show "answered cid s s'"
    by (auto simp: handle_download_request_def Let_def split: Option.bind_splits dest!: look_up_same intro!: answer_answered)
next
  assume "handle_test_request env t rid cid s = Some s'"
  then show "answered cid s s'"
    by (auto simp: handle_test_request_def split: Option.bind_splits intro!: answer_answered)
next
  assume "handle_block_request env b rid cid s = Some s'"
  then show "answered cid s s'"
    by (auto simp: handle_block_request_def Let_def split: Option.bind_splits option.splits if_splits
        dest!: look_up_same intro!: answer_answered)
qed

lemma handle_request_answered:
  assumes "handle_request env data cid s = Some s'"
  shows "answered cid s s'"
  using assms
  by (auto simp: handle_request_def handle_unknown_request_def split: Option.bind_splits option.splits if_splits
      intro: handlers_answer)

lemma box_clients_answer:
  "box_clients (answer cid data s) c =
     (if c = cid then map_option (\<lambda>q. q @ [\<lparr>connect_id = cid, frame_data = data\<rparr>]) (box_clients s c) else box_clients s c)"
  by (simp add: box_clients_def answer_def push_client_queues split: option.split)

lemma to_server_answer:
  "map_option m_to_server_frame_queue (b_mail_box (answer cid data s)) = map_option m_to_server_frame_queue (b_mail_box s)"
  by (simp add: answer_def push_to_client_frame_def Let_def split: option.split)

lemma box_clients_cong: "b_mail_box s' = b_mail_box s \<Longrightarrow> box_clients s' = box_clients s"
  by (simp add: box_clients_def fun_eq_iff)

text \<open>Whatever bytes arrive, handling them sends nothing to other connections, at most one
  frame to the connection they came from, and leaves the queue of frames to the server as it is.\<close>

theorem requests_answered_once:
  assumes "handle_request env data cid s = Some s'"
  shows "(\<forall>c. c \<noteq> cid \<longrightarrow> box_clients s' c = box_clients s c) \<and>
    (box_clients s' cid = box_clients s cid \<or>
     (\<exists>d. box_clients s' cid = map_option (\<lambda>q. q @ [\<lparr>connect_id = cid, frame_data = d\<rparr>]) (box_clients s cid))) \<and>
    map_option m_to_server_frame_queue (b_mail_box s') = map_option m_to_server_frame_queue (b_mail_box s) \<and>
    b_is_running s' = b_is_running s"
proof -
  have a: "answered cid s s'" by (rule handle_request_answered [OF assms])
  then consider "b_mail_box s' = b_mail_box s" | d where "b_mail_box s' = b_mail_box (answer cid d s)"
    by (auto simp: answered_def)
  then show ?thesis
  proof cases
    case 1
    with a show ?thesis using box_clients_cong [OF 1] by (simp add: answered_def)
  next
    case 2
    with a show ?thesis using box_clients_cong [OF 2] to_server_answer [of cid d s]
      by (auto simp: answered_def box_clients_answer)
  qed
qed

section \<open>What is looked up\<close>

context file_catalog
begin

lemma look_up_gives:
  assumes "holds (b_file_service s) fs" "env_file env = by_id"
  obtains s' where "look_up env i s = Some (find (\<lambda>f. server_file_id f = ucast i) fs, s')" "holds (b_file_service s') fs"
    "b_mail_box s' = b_mail_box s" "b_is_running s' = b_is_running s"
proof -
  obtain t where "by_id (ucast i) (b_file_service s) = Some (find (\<lambda>f. server_file_id f = ucast i) fs, t)" "holds t fs"
    using by_id [OF assms(1)] by blast
  then show thesis by (intro that [of "s\<lparr>b_file_service := t\<rparr>"]) (simp_all add: look_up_def assms(2))
qed

text \<open>A block request whose file is found and can be opened, and one whose file is not.\<close>

lemma block_request_gives:
  assumes h: "holds (b_file_service s) fs" and env: "env_file env = by_id"
    and f: "find (\<lambda>f. server_file_id f = ucast (brq_file_id r)) fs = Some f" "env_disk env (resource_path f) = Some contents"
    and n: "0 \<le> sint (brq_block_size r)"
    and data: "build_block_response_byte_array (env_host env)
      \<lparr>brs_block_id = brq_block_id r, brs_file_id = brq_file_id r, brs_task_id = brq_task_id r, brs_offset = brq_offset r,
       brs_block_size = brq_block_size r,
       brs_data = read_at_offset contents (brq_offset r) (nat (sint (brq_block_size r)))\<rparr> rid = Some data"
  obtains s' where "handle_block_request env r rid cid s = Some s'" "holds (b_file_service s') fs"
    "b_mail_box s' = b_mail_box (answer cid data s)"
proof -
  obtain s1 where s1: "look_up env (brq_file_id r) s = Some (Some f, s1)" "holds (b_file_service s1) fs" "b_mail_box s1 = b_mail_box s"
    using look_up_gives [OF h env, of "brq_file_id r"] f(1) by metis
  have "handle_block_request env r rid cid s = Some (answer cid data s1)"
    using s1(1) f(2) n data by (simp add: handle_block_request_def new_BlockResponseTransfer_def Let_def)
  then show thesis by (rule that) (use s1 answer_cong [OF s1(3)] in simp_all)
qed

lemma block_request_refused:
  assumes h: "holds (b_file_service s) fs" and env: "env_file env = by_id"
    and f: "case find (\<lambda>f. server_file_id f = ucast (brq_file_id r)) fs of
              None \<Rightarrow> True | Some f \<Rightarrow> env_disk env (resource_path f) = None \<and> 0 \<le> sint (brq_block_size r)"
    and data: "build_block_response_byte_array (env_host env)
      \<lparr>brs_block_id = brq_block_id r, brs_file_id = brq_file_id r, brs_task_id = brq_task_id r, brs_offset = brq_offset r,
       brs_block_size = 0, brs_data = []\<rparr> rid = Some data"
  obtains s' where "handle_block_request env r rid cid s = Some s'" "holds (b_file_service s') fs"
    "b_mail_box s' = b_mail_box (answer cid data s)"
proof -
  obtain s1 where s1: "look_up env (brq_file_id r) s = Some (find (\<lambda>f. server_file_id f = ucast (brq_file_id r)) fs, s1)"
    "holds (b_file_service s1) fs" "b_mail_box s1 = b_mail_box s"
    using look_up_gives [OF h env, of "brq_file_id r"] by metis
  have "handle_block_request env r rid cid s = Some (answer cid data s1)"
    using s1(1) f data by (auto simp: handle_block_request_def new_BlockResponseTransfer_def Let_def split: option.splits)
  then show thesis by (rule that) (use s1 answer_cong [OF s1(3)] in simp_all)
qed

lemma block_request_throws:
  assumes h: "holds (b_file_service s) fs" and env: "env_file env = by_id"
    and f: "find (\<lambda>f. server_file_id f = ucast (brq_file_id r)) fs = Some f" and n: "sint (brq_block_size r) < 0"
  shows "handle_block_request env r rid cid s = None"
proof -
  obtain s1 where "look_up env (brq_file_id r) s = Some (Some f, s1)"
    using look_up_gives [OF h env, of "brq_file_id r"] f by metis
  then show ?thesis using n by (simp add: handle_block_request_def Let_def)
qed

lemma download_request_gives:
  assumes h: "holds (b_file_service s) fs" and env: "env_file env = by_id"
    and data: "build_download_response_byte_array (env_host env)
      (case find (\<lambda>f. server_file_id f = ucast (drq_file_id r)) fs of
         None \<Rightarrow> \<lparr>drs_file_id = drq_file_id r, drs_task_id = drq_task_id r, drs_file_name = [], drs_file_size = 0, drs_md5_code = []\<rparr>
       | Some f \<Rightarrow> \<lparr>drs_file_id = scast (server_file_id f), drs_task_id = drq_task_id r, drs_file_name = server_file_name f,
                    drs_file_size = ucast (server_file_size f), drs_md5_code = server_md5_code f\<rparr>) rid = Some data"
  obtains s' where "handle_download_request env r rid cid s = Some s'" "holds (b_file_service s') fs"
    "b_mail_box s' = b_mail_box (answer cid data s)"
proof -
  obtain s1 where s1: "look_up env (drq_file_id r) s = Some (find (\<lambda>f. server_file_id f = ucast (drq_file_id r)) fs, s1)"
    "holds (b_file_service s1) fs" "b_mail_box s1 = b_mail_box s"
    using look_up_gives [OF h env, of "drq_file_id r"] by metis
  have "handle_download_request env r rid cid s = Some (answer cid data s1)"
    using s1(1) data by (auto simp: handle_download_request_def new_DownloadResponseTransfer_def Let_def split: option.splits)
  then show thesis by (rule that) (use s1 answer_cong [OF s1(3)] in simp_all)
qed

end

section \<open>Requests of the client\<close>

text \<open>A request that the client builds reaches its handler.\<close>

lemma block_request_handled:
  obtains data where "build_block_request_byte_array (env_host env) r rid = Some data"
    "\<And>s cid. handle_request env data cid s = handle_block_request env r rid cid s"
proof -
  obtain bs envelope where "build_block_request_byte_array (env_host env) r rid = Some bs"
    "try_parse_byte_array_request (env_host env) (env_text env) (env_junk env) bs = Some (Some envelope)"
    "req_path envelope = ''/block''" "req_id envelope = rid"
    "try_parse_byte_array_block_request (env_host env) (req_body envelope) = Some (Some r)"
    using block_request_reaches_server [of "env_host env" r rid "env_text env" "env_junk env"] by blast
  then show thesis by (intro that [of bs]) (simp_all add: handle_request_def)
qed

lemma download_request_handled:
  obtains data where "build_download_request_byte_array (env_host env) r rid = Some data"
    "\<And>s cid. handle_request env data cid s = handle_download_request env r rid cid s"
proof -
  obtain bs envelope where "build_download_request_byte_array (env_host env) r rid = Some bs"
    "try_parse_byte_array_request (env_host env) (env_text env) (env_junk env) bs = Some (Some envelope)"
    "req_path envelope = ''/download''" "req_id envelope = rid"
    "try_parse_byte_array_download_request (env_host env) (req_body envelope) = Some (Some r)"
    using download_request_reaches_server [of "env_host env" r rid "env_text env" "env_junk env"] by blast
  then show thesis by (intro that [of bs]) (simp_all add: handle_request_def)
qed

lemma length_read_at_offset [simp]: "length (read_at_offset contents offset n) = n"
  by (auto simp: read_at_offset_def Let_def)

lemma read_inside:
  "0 \<le> sint offset \<Longrightarrow> nat (sint offset) + n \<le> length contents \<Longrightarrow>
   read_at_offset contents offset n = take n (drop (nat (sint offset)) contents)"
  by (simp add: read_at_offset_def Let_def)

section \<open>Properties\<close>

text \<open>C2: A block of a file that the server has and can open reaches the client that asks for it: the request that
  the client builds is handled, its answer goes to the connection it came from, and parsing the answer on the client
  gives the numbers of the request with the bytes of the file at the offset, zeros behind its end. Inside the file these
  are exactly its bytes. The block has two bytes at least and fits into a message.\<close>

theorem block_served:
  assumes "server_holds lib view parses names run (b_file_service s) fs" "env_file env = server_service_get_by_id lib junk"
    and "find (\<lambda>f. server_file_id f = ucast (brq_file_id r)) fs = Some f" "env_disk env (resource_path f) = Some contents"
    and "2 \<le> sint (brq_block_size r)" "1000 + nat (sint (brq_block_size r)) \<le> max_value"
  shows "\<exists>request s' data envelope.
    build_block_request_byte_array (env_host env) r rid = Some request \<and>
    handle_request env request cid s = Some s' \<and> server_holds lib view parses names run (b_file_service s') fs \<and>
    box_clients s' cid = map_option (\<lambda>q. q @ [\<lparr>connect_id = cid, frame_data = data\<rparr>]) (box_clients s cid) \<and>
    try_parse_byte_array_response (env_host env) client_junk data = Some (Some envelope) \<and> res_id envelope = rid \<and>
    try_parse_byte_array_block_response (env_host env) (res_body envelope) = Some (Some
      \<lparr>brs_block_id = brq_block_id r, brs_file_id = brq_file_id r, brs_task_id = brq_task_id r, brs_offset = brq_offset r,
       brs_block_size = brq_block_size r,
       brs_data = read_at_offset contents (brq_offset r) (nat (sint (brq_block_size r)))\<rparr>) \<and>
    (0 \<le> sint (brq_offset r) \<and> nat (sint (brq_offset r)) + nat (sint (brq_block_size r)) \<le> length contents \<longrightarrow>
      read_at_offset contents (brq_offset r) (nat (sint (brq_block_size r))) =
        take (nat (sint (brq_block_size r))) (drop (nat (sint (brq_offset r))) contents))"
proof -
  let ?bytes = "read_at_offset contents (brq_offset r) (nat (sint (brq_block_size r)))"
  let ?t = "\<lparr>brs_block_id = brq_block_id r, brs_file_id = brq_file_id r, brs_task_id = brq_task_id r, brs_offset = brq_offset r,
      brs_block_size = brq_block_size r, brs_data = ?bytes\<rparr>"
  have two: "?bytes \<noteq> []" "length ?bytes \<noteq> 1" "1000 + length (brs_data ?t) \<le> max_value"
    using assms(5,6) length_read_at_offset [of contents "brq_offset r" "nat (sint (brq_block_size r))"]
    by (auto simp del: length_read_at_offset simp: length_0_conv [symmetric] simp del: length_0_conv)
  obtain data envelope where d: "build_block_response_byte_array (env_host env) ?t rid = Some data"
    "try_parse_byte_array_response (env_host env) client_junk data = Some (Some envelope)" "res_id envelope = rid"
    "try_parse_byte_array_block_response (env_host env) (res_body envelope) = Some (Some ?t)"
    using block_response_arrives [OF two(3), of "env_host env" rid client_junk] two(1,2) by auto
  obtain request where q: "build_block_request_byte_array (env_host env) r rid = Some request"
    "\<And>s cid. handle_request env request cid s = handle_block_request env r rid cid s"
    using block_request_handled [of env r rid] by blast
  have "0 \<le> sint (brq_block_size r)" using assms(5) by simp
  from server.block_request_gives [OF assms(1-4) this d(1), of cid]
  obtain s' where s': "handle_block_request env r rid cid s = Some s'"
    "server_holds lib view parses names run (b_file_service s') fs" "b_mail_box s' = b_mail_box (answer cid data s)"
    by blast
  have "box_clients s' cid = map_option (\<lambda>q. q @ [\<lparr>connect_id = cid, frame_data = data\<rparr>]) (box_clients s cid)"
    using box_clients_cong [OF s'(3)] by (simp add: box_clients_answer)
  with d q s' show ?thesis using read_inside [of "brq_offset r" "nat (sint (brq_block_size r))" contents] by auto
qed

definition demo_env :: "engine server_store server_env" where
  "demo_env =
     \<lparr>env_host = LittleEndian, env_text = (\<lambda>_ _. []), env_junk = sample_request, env_file = server_service_get_by_id server_lib 7,
      env_disk = [''/data/a.txt'' \<mapsto> [10, 20, 30, 40, 50, 60]]\<rparr>"

definition demo_server :: "engine server_store BusinessRuntime" where
  "demo_server = new_business (Some (add_to_client_queue 5 new_mail_box)) (store_with [demo_server_file])"

definition demo_request :: BlockRequestTransfer where
  "demo_request = \<lparr>brq_block_id = 4, brq_file_id = 1, brq_task_id = 2, brq_offset = 3, brq_block_size = 3\<rparr>"

lemma demo_server_holds: "store_holds (b_file_service demo_server) [demo_server_file]"
  using store_with_holds [of "[demo_server_file]"]
  by (simp add: demo_server_def new_business_def server_file_valid_def demo_server_file_def)

theorem block_served_witness:
  "\<exists>request s' data envelope.
    build_block_request_byte_array LittleEndian demo_request 9 = Some request \<and>
    handle_request demo_env request 5 demo_server = Some s' \<and>
    box_clients s' 5 = Some [\<lparr>connect_id = 5, frame_data = data\<rparr>] \<and>
    try_parse_byte_array_response LittleEndian (ok_response 0 []) data = Some (Some envelope) \<and>
    try_parse_byte_array_block_response LittleEndian (res_body envelope) = Some (Some
      \<lparr>brs_block_id = 4, brs_file_id = 1, brs_task_id = 2, brs_offset = 3, brs_block_size = 3, brs_data = [40, 50, 60]\<rparr>)"
proof -
  have f: "find (\<lambda>f. server_file_id f = ucast (brq_file_id demo_request)) [demo_server_file] = Some demo_server_file"
    "env_disk demo_env (resource_path demo_server_file) = Some [10, 20, 30, 40, 50, 60]"
    "2 \<le> sint (brq_block_size demo_request)" "1000 + nat (sint (brq_block_size demo_request)) \<le> max_value"
    by (simp_all add: demo_request_def demo_server_file_def demo_env_def max_value_def)
  have "box_clients demo_server 5 = Some []"
    by (simp add: box_clients_def demo_server_def new_business_def add_to_client_queue_def)
  moreover have "env_host demo_env = LittleEndian" "env_file demo_env = server_service_get_by_id server_lib 7"
    by (simp_all add: demo_env_def)
  moreover have "read_at_offset [10, 20, 30, 40, 50, 60] (brq_offset demo_request) (nat (sint (brq_block_size demo_request))) = [40, 50, 60]"
    by (simp add: read_at_offset_def demo_request_def)
  ultimately show ?thesis
    using block_served [OF demo_server_holds _ f, of 7 9 5 "ok_response 0 []"] by (auto simp: demo_request_def)
qed

text \<open>C9: Two requests for a block go wrong. One with a negative size for a file that the server has raises an exception in
  the thread of the server, whatever connection it comes from. One for a file that the server does not have or cannot open
  is answered, under the identifier of the request, with a block that the client does not understand, so that the
  client never learns that the block failed.\<close>

theorem block_requests_fail:
  assumes "server_holds lib view parses names run (b_file_service s) fs" "env_file env = server_service_get_by_id lib junk"
  shows "\<exists>request. build_block_request_byte_array (env_host env) r rid = Some request \<and>
    (find (\<lambda>f. server_file_id f = ucast (brq_file_id r)) fs \<noteq> None \<and> sint (brq_block_size r) < 0 \<longrightarrow>
       handle_request env request cid s = None) \<and>
    ((case find (\<lambda>f. server_file_id f = ucast (brq_file_id r)) fs of
        None \<Rightarrow> True | Some f \<Rightarrow> env_disk env (resource_path f) = None \<and> 0 \<le> sint (brq_block_size r)) \<longrightarrow>
      (\<exists>s' data envelope. handle_request env request cid s = Some s' \<and>
         box_clients s' cid = map_option (\<lambda>q. q @ [\<lparr>connect_id = cid, frame_data = data\<rparr>]) (box_clients s cid) \<and>
         try_parse_byte_array_response (env_host env) client_junk data = Some (Some envelope) \<and> res_id envelope = rid \<and>
         try_parse_byte_array_block_response (env_host env) (res_body envelope) = Some None))"
proof -
  let ?t = "\<lparr>brs_block_id = brq_block_id r, brs_file_id = brq_file_id r, brs_task_id = brq_task_id r, brs_offset = brq_offset r,
      brs_block_size = 0, brs_data = []\<rparr>"
  obtain data envelope where d: "build_block_response_byte_array (env_host env) ?t rid = Some data"
    "try_parse_byte_array_response (env_host env) client_junk data = Some (Some envelope)" "res_id envelope = rid"
    "try_parse_byte_array_block_response (env_host env) (res_body envelope) = Some None"
    using block_response_arrives [of ?t "env_host env" rid client_junk] by (auto simp: max_value_def)
  obtain request where q: "build_block_request_byte_array (env_host env) r rid = Some request"
    "\<And>s cid. handle_request env request cid s = handle_block_request env r rid cid s"
    using block_request_handled [of env r rid] by blast
  have throws: "handle_block_request env r rid cid s = None"
    if "find (\<lambda>f. server_file_id f = ucast (brq_file_id r)) fs \<noteq> None" "sint (brq_block_size r) < 0"
    using server.block_request_throws [OF assms(1,2) _ that(2)] that(1) by auto
  have refused: "\<exists>s'. handle_block_request env r rid cid s = Some s' \<and>
      box_clients s' cid = map_option (\<lambda>q. q @ [\<lparr>connect_id = cid, frame_data = data\<rparr>]) (box_clients s cid)"
    if c: "case find (\<lambda>f. server_file_id f = ucast (brq_file_id r)) fs of
        None \<Rightarrow> True | Some f \<Rightarrow> env_disk env (resource_path f) = None \<and> 0 \<le> sint (brq_block_size r)"
  proof -
    obtain s' where s': "handle_block_request env r rid cid s = Some s'" "b_mail_box s' = b_mail_box (answer cid data s)"
      using server.block_request_refused [OF assms c d(1), of cid] by blast
    then show ?thesis using box_clients_cong [OF s'(2)] by (simp add: box_clients_answer)
  qed
  show ?thesis
    by (intro exI [of _ request] conjI impI) (use q throws refused d in auto)
qed

theorem block_requests_fail_witness:
  "(\<exists>request. build_block_request_byte_array LittleEndian (demo_request\<lparr>brq_block_size := - 1\<rparr>) 9 = Some request \<and>
     handle_request demo_env request 5 demo_server = None) \<and>
   (\<exists>request s' data envelope. build_block_request_byte_array LittleEndian (demo_request\<lparr>brq_file_id := 2\<rparr>) 9 = Some request \<and>
     handle_request demo_env request 5 demo_server = Some s' \<and>
     try_parse_byte_array_response LittleEndian (ok_response 0 []) data = Some (Some envelope) \<and> res_id envelope = 9 \<and>
     try_parse_byte_array_block_response LittleEndian (res_body envelope) = Some None)"
proof -
  have env: "env_host demo_env = LittleEndian" "env_file demo_env = server_service_get_by_id server_lib 7"
    by (simp_all add: demo_env_def)
  show ?thesis
    using block_requests_fail [OF demo_server_holds env(2), of "demo_request\<lparr>brq_block_size := - 1\<rparr>" 9 5 "ok_response 0 []"]
      block_requests_fail [OF demo_server_holds env(2), of "demo_request\<lparr>brq_file_id := 2\<rparr>" 9 5 "ok_response 0 []"]
    by (simp add: env(1)) (auto simp: demo_request_def demo_server_file_def)
qed

end
