(* ===== verification/Server_Stop.thy ===== *)
theory Server_Stop
  imports Server_App Business_Answers
begin

text \<open>
  The end of the server, \<open>ServerApp::stop\<close>, against the threads that it joins: the business thread in its loop over the queue of
  the mail box, and the network thread, which puts frames into the queue until it ends. A step is what a thread does while it holds
  the mutex of the queue, or between two such sections. A waiting business thread may be woken at any time, by a notification
  or for no reason. The mail box that the two runtimes share is the one that the business runtime holds; that the network thread
  may end at any time, and that it pushes whatever frames it likes until then, leaves out nothing of what it can do to it.
\<close>

section \<open>The threads\<close>

text \<open>Where the business thread is: before \<open>run\<close>, at the condition of its loop, in the call that takes a frame out of the queue, with
  a frame, or at its end.\<close>

datatype worker =
    Worker_Created
  | At_Loop
  | In_Pop "PosixFrame thread"
  | With_Frame PosixFrame
  | Worker_Ended

text \<open>What \<open>stop\<close> does next.\<close>

datatype stopper = Stop_Not_Called | Stops_Business | Joins_Business | Joins_Network | Stop_Returned

record 'm shutdown =
  sd_app :: "'m ServerApp"
  sd_worker :: worker
  sd_network_ended :: bool
  sd_stopper :: stopper

definition shutdown_start :: "'m ServerApp \<Rightarrow> 'm shutdown" where
  "shutdown_start app = \<lparr>sd_app = app, sd_worker = Worker_Created, sd_network_ended = False, sd_stopper = Stop_Not_Called\<rparr>"

abbreviation sd_business :: "'m shutdown \<Rightarrow> 'm server_store BusinessRuntime" where
  "sd_business s \<equiv> app_business (sd_app s)"

definition set_business :: "'m server_store BusinessRuntime \<Rightarrow> 'm shutdown \<Rightarrow> 'm shutdown" where
  "set_business b s = s\<lparr>sd_app := (sd_app s)\<lparr>app_business := b\<rparr>\<rparr>"

definition set_box :: "ReactorMailBox \<Rightarrow> 'm shutdown \<Rightarrow> 'm shutdown" where
  "set_box box s = set_business ((sd_business s)\<lparr>b_mail_box := Some box\<rparr>) s"

section \<open>Steps\<close>

text \<open>
  A step is labelled by the frame that the network thread puts into the mail box, if it does. The first steps are those of the
  business thread: \<open>run\<close> sets the flag, the loop reads it, the pop goes through its sections, the frame is handled; a request that
  raises an exception ends the program. The last ones are \<open>stop\<close>: it asks the network and then the business runtime to stop and
  joins the threads.
\<close>

inductive shutdown_step ::
  "'m server_store server_env \<Rightarrow> PosixFrame option \<Rightarrow> 'm shutdown \<Rightarrow> 'm shutdown \<Rightarrow> bool" for env where
  Worker_Runs: "sd_worker s = Worker_Created \<Longrightarrow> app_business_thread (sd_app s) \<Longrightarrow>
    shutdown_step env None s (set_business ((sd_business s)\<lparr>b_is_running := True\<rparr>) s\<lparr>sd_worker := At_Loop\<rparr>)"
| Worker_Checks: "sd_worker s = At_Loop \<Longrightarrow>
    shutdown_step env None s
      (s\<lparr>sd_worker := (if b_is_running (sd_business s) then In_Pop (Ready call.Pop) else Worker_Ended)\<rparr>)"
| Worker_Pops: "sd_worker s = In_Pop (Ready call.Pop) \<Longrightarrow> b_mail_box (sd_business s) = Some box \<Longrightarrow>
    pop_from_to_server_frame box = (k, sg, box') \<Longrightarrow>
    shutdown_step env None s (set_box box' s\<lparr>sd_worker := In_Pop (leave k sg)\<rparr>)"
| Worker_Wakes: "sd_worker s = In_Pop (Asleep_Empty c) \<Longrightarrow>
    shutdown_step env None s (s\<lparr>sd_worker := In_Pop (Ready c)\<rparr>)"
| Worker_Notifies: "sd_worker s = In_Pop (Signalling sg k) \<Longrightarrow>
    shutdown_step env None s (s\<lparr>sd_worker := In_Pop (resume k)\<rparr>)"
| Worker_Returns: "sd_worker s = In_Pop (Finished (Popped r)) \<Longrightarrow>
    shutdown_step env None s (s\<lparr>sd_worker := (case r of None \<Rightarrow> At_Loop | Some f \<Rightarrow> With_Frame f)\<rparr>)"
| Worker_Handles: "sd_worker s = With_Frame f \<Longrightarrow>
    handle_request env (frame_data f) (connect_id f) (sd_business s) = Some b \<Longrightarrow>
    shutdown_step env None s (set_business b s\<lparr>sd_worker := At_Loop\<rparr>)"
| Frame_Arrives: "\<not> sd_network_ended s \<Longrightarrow> b_mail_box (sd_business s) = Some box \<Longrightarrow>
    push_to_server_frame f box = (k, sg, box') \<Longrightarrow> shutdown_step env (Some f) s (set_box box' s)"
| Network_Ends: "shutdown_step env None s (s\<lparr>sd_network_ended := True\<rparr>)"
| Stop_Called: "sd_stopper s = Stop_Not_Called \<Longrightarrow>
    shutdown_step env None s
      (s\<lparr>sd_app := (sd_app s)\<lparr>app_network := network_stop (app_network (sd_app s))\<rparr>, sd_stopper := Stops_Business\<rparr>)"
| Business_Asked: "sd_stopper s = Stops_Business \<Longrightarrow>
    shutdown_step env None s (set_business (business_stop (sd_business s)) s\<lparr>sd_stopper := Joins_Business\<rparr>)"
| Business_Joined: "sd_stopper s = Joins_Business \<Longrightarrow> app_business_thread (sd_app s) \<longrightarrow> sd_worker s = Worker_Ended \<Longrightarrow>
    shutdown_step env None s (s\<lparr>sd_stopper := Joins_Network\<rparr>)"
| Network_Joined: "sd_stopper s = Joins_Network \<Longrightarrow> app_network_thread (sd_app s) \<longrightarrow> sd_network_ended s \<Longrightarrow>
    shutdown_step env None s (s\<lparr>sd_stopper := Stop_Returned\<rparr>)"

text \<open>All runs, and the runs in which no frame arrives.\<close>

abbreviation shutdown_steps :: "'m server_store server_env \<Rightarrow> 'm shutdown \<Rightarrow> 'm shutdown \<Rightarrow> bool" where
  "shutdown_steps env \<equiv> (\<lambda>s t. \<exists>frame. shutdown_step env frame s t)\<^sup>*\<^sup>*"

abbreviation quiet_steps :: "'m server_store server_env \<Rightarrow> 'm shutdown \<Rightarrow> 'm shutdown \<Rightarrow> bool" where
  "quiet_steps env \<equiv> (shutdown_step env None)\<^sup>*\<^sup>*"

section \<open>The queue stays open\<close>

definition shutdown_inv :: "'m shutdown \<Rightarrow> bool" where
  "shutdown_inv s \<longleftrightarrow>
     (\<exists>box. b_mail_box (sd_business s) = Some box \<and> m_is_running (m_to_server_frame_queue box) \<and>
        m_max_size (m_to_server_frame_queue box) = 50) \<and>
     app_business_thread (sd_app s) \<and> (sd_stopper s \<in> {Joins_Network, Stop_Returned} \<longrightarrow> sd_worker s = Worker_Ended)"

lemma set_business_sel [simp]:
  "sd_business (set_business b s) = b" "sd_worker (set_business b s) = sd_worker s"
  "sd_stopper (set_business b s) = sd_stopper s" "sd_network_ended (set_business b s) = sd_network_ended s"
  "app_business_thread (sd_app (set_business b s)) = app_business_thread (sd_app s)"
  by (simp_all add: set_business_def)

lemma set_box_sel [simp]:
  "sd_business (set_box box s) = (sd_business s)\<lparr>b_mail_box := Some box\<rparr>" "sd_worker (set_box box s) = sd_worker s"
  "sd_stopper (set_box box s) = sd_stopper s" "sd_network_ended (set_box box s) = sd_network_ended s"
  "app_business_thread (sd_app (set_box box s)) = app_business_thread (sd_app s)"
  by (simp_all add: set_box_def)

text \<open>A call on the queue neither closes it nor changes its bound, unless it is meant to.\<close>

lemma pop_keeps_open:
  assumes "pop_from_to_server_frame box = (k, sg, box')"
  shows "m_is_running (m_to_server_frame_queue box') = m_is_running (m_to_server_frame_queue box)"
    "m_max_size (m_to_server_frame_queue box') = m_max_size (m_to_server_frame_queue box)"
  using assms
  by (auto simp: pop_from_to_server_frame_def server_call_def pop_section_def split: list.splits if_splits)

lemma push_keeps_open:
  assumes "push_to_server_frame f box = (k, sg, box')"
  shows "m_is_running (m_to_server_frame_queue box') = m_is_running (m_to_server_frame_queue box)"
    "m_max_size (m_to_server_frame_queue box') = m_max_size (m_to_server_frame_queue box)"
  using assms by (auto simp: push_to_server_frame_def server_call_def push_section_def split: if_splits)

lemma request_keeps_queue:
  assumes "handle_request env data cid b = Some b'"
  shows "b_is_running b' = b_is_running b"
    "map_option m_to_server_frame_queue (b_mail_box b') = map_option m_to_server_frame_queue (b_mail_box b)"
proof -
  have a: "answered cid b b'" by (rule handle_request_answered [OF assms])
  then show "b_is_running b' = b_is_running b" by (simp add: answered_def)
  from a obtain d where "b_mail_box b' = b_mail_box b \<or> b_mail_box b' = b_mail_box (answer cid d b)"
    by (auto simp: answered_def)
  then show "map_option m_to_server_frame_queue (b_mail_box b') = map_option m_to_server_frame_queue (b_mail_box b)"
    using to_server_answer [of cid d b] by auto
qed

lemma shutdown_step_inv:
  assumes "shutdown_step env frame s t" "shutdown_inv s"
  shows "shutdown_inv t"
  using assms
proof cases
  case (Worker_Pops box k sg box')
  with assms(2) pop_keeps_open [OF Worker_Pops(5)] show ?thesis by (simp add: shutdown_inv_def)
next
  case (Worker_Handles f b)
  obtain box where "b_mail_box (sd_business s) = Some box" "m_is_running (m_to_server_frame_queue box)"
    "m_max_size (m_to_server_frame_queue box) = 50"
    using assms(2) by (auto simp: shutdown_inv_def)
  with assms(2) request_keeps_queue(2) [OF Worker_Handles(4)] Worker_Handles show ?thesis
    by (cases "b_mail_box b") (auto simp: shutdown_inv_def)
next
  case (Frame_Arrives box f k sg box')
  with assms(2) push_keeps_open [OF Frame_Arrives(5)] show ?thesis by (simp add: shutdown_inv_def)
qed (auto simp: shutdown_inv_def business_stop_def)

lemma shutdown_steps_inv: "shutdown_steps env s t \<Longrightarrow> shutdown_inv s \<Longrightarrow> shutdown_inv t"
  by (induction rule: rtranclp_induct) (auto intro: shutdown_step_inv)

lemma network_init_box:
  assumes "network_init calls (new_network_runtime (Some box)) k = Some (s, k')"
  shows "\<exists>box'. n_mail_box s = Some box' \<and> m_to_server_frame_queue box' = m_to_server_frame_queue box"
  using assms
  by (auto simp: network_init_def new_network_runtime_def set_event_handle_def Let_def
      split: if_splits Option.bind_splits prod.splits)

lemma started_inv:
  assumes "server_app_init lib disk junk calls databases logs m k = Some (app, logs', k')"
  shows "shutdown_inv (shutdown_start app)"
proof -
  obtain network where n: "network_init calls (new_network_runtime (Some new_mail_box)) k = Some (network, k')"
    "b_mail_box (app_business app) = n_mail_box network" "app_business_thread app"
    using assms
    by (auto simp: server_app_init_def business_init_def new_business_def Let_def split: Option.bind_splits)
  from network_init_box [OF n(1)] n(2,3) show ?thesis
    by (auto simp: shutdown_inv_def shutdown_start_def new_mail_box_def new_queue_def move_assign_def Let_def)
qed

lemma started_queue:
  assumes "server_app_init lib disk junk calls databases logs m k = Some (app, logs', k')" "b_mail_box (app_business app) = Some box"
  shows "m_queue (m_to_server_frame_queue box) = []"
proof -
  obtain network where n: "network_init calls (new_network_runtime (Some new_mail_box)) k = Some (network, k')"
    "b_mail_box (app_business app) = n_mail_box network"
    using assms
    by (auto simp: server_app_init_def business_init_def new_business_def Let_def split: Option.bind_splits)
  from network_init_box [OF n(1)] n(2) assms(2) show ?thesis
    by (auto simp: new_mail_box_def new_queue_def move_assign_def Let_def)
qed

section \<open>Stopping\<close>

definition waits_in_pop :: "'m shutdown \<Rightarrow> bool" where
  "waits_in_pop s \<longleftrightarrow> sd_worker s \<in> {In_Pop (Ready call.Pop), In_Pop (Asleep_Empty call.Pop)} \<and>
     (\<exists>box. b_mail_box (sd_business s) = Some box \<and> m_queue (m_to_server_frame_queue box) = [])"

lemma quiet_step_waits:
  assumes "shutdown_step env None s t" "shutdown_inv s" "waits_in_pop s"
  shows "waits_in_pop t"
  using assms
proof cases
  case (Worker_Pops box k sg box')
  with assms(2,3) show ?thesis
    by (auto simp: waits_in_pop_def shutdown_inv_def pop_from_to_server_frame_def server_call_def pop_section_def)
qed (auto simp: waits_in_pop_def business_stop_def)

lemma quiet_reachable: "quiet_steps env s t \<Longrightarrow> shutdown_steps env s t"
  by (induction rule: rtranclp_induct) (auto intro: rtranclp.rtrancl_into_rtrancl)

lemma quiet_steps_wait:
  assumes "quiet_steps env s t" "shutdown_inv s" "waits_in_pop s"
  shows "waits_in_pop t"
  using assms
proof (induction rule: rtranclp_induct)
  case (step t u)
  from shutdown_steps_inv [OF quiet_reachable [OF step(1)] step.prems(1)] step quiet_step_waits show ?case by blast
qed

text \<open>One more frame that can be handled lets the thread see the flag.\<close>

lemma frame_ends_waiting:
  assumes "shutdown_inv t" "waits_in_pop t" "\<not> sd_network_ended t" "\<not> b_is_running (sd_business t)" "sd_stopper t = Joins_Business"
    and "handle_request env (frame_data f) (connect_id f) (sd_business t) = Some b"
  shows "\<exists>u v. shutdown_step env (Some f) t u \<and> quiet_steps env u v \<and> sd_stopper v = Joins_Network"
proof -
  obtain box where box: "b_mail_box (sd_business t) = Some box" "m_queue (m_to_server_frame_queue box) = []"
    "m_is_running (m_to_server_frame_queue box)" "m_max_size (m_to_server_frame_queue box) = 50"
    using assms(1,2) by (auto simp: shutdown_inv_def waits_in_pop_def)
  let ?box = "box\<lparr>m_to_server_frame_queue := (m_to_server_frame_queue box)\<lparr>m_queue := [f]\<rparr>\<rparr>"
  have push: "push_to_server_frame f box = (Return (Flag True), One_Empty, ?box)"
    using box(2-4) by (simp add: push_to_server_frame_def server_call_def push_section_def below_max_def)
  have pop: "pop_from_to_server_frame ?box = (Return (Popped (Some f)), One_Full, box)"
    using box(2) by (simp add: pop_from_to_server_frame_def server_call_def pop_section_def)
  let ?u = "set_box ?box t"
  have u: "shutdown_step env (Some f) t ?u" by (rule Frame_Arrives [OF assms(3) box(1) push])
  let ?u1 = "?u\<lparr>sd_worker := In_Pop (Ready call.Pop)\<rparr>"
  have 1: "quiet_steps env ?u ?u1"
  proof (cases "sd_worker t = In_Pop (Ready call.Pop)")
    case True
    then have "?u1 = ?u" by (simp add: set_box_def set_business_def)
    then show ?thesis by simp
  next
    case False
    then have "sd_worker ?u = In_Pop (Asleep_Empty call.Pop)" using assms(2) by (simp add: waits_in_pop_def)
    from Worker_Wakes [OF this] show ?thesis ..
  qed
  let ?u2 = "set_box box ?u1\<lparr>sd_worker := In_Pop (Signalling One_Full (Return (Popped (Some f))))\<rparr>"
  have 2: "shutdown_step env None ?u1 ?u2"
    using Worker_Pops [of ?u1 ?box, OF _ _ pop] by simp
  let ?u3 = "?u2\<lparr>sd_worker := In_Pop (Finished (Popped (Some f)))\<rparr>"
  have 3: "shutdown_step env None ?u2 ?u3"
    using Worker_Notifies [of ?u2 One_Full "Return (Popped (Some f))"] by simp
  let ?u4 = "?u3\<lparr>sd_worker := With_Frame f\<rparr>"
  have 4: "shutdown_step env None ?u3 ?u4"
    using Worker_Returns [of ?u3 "Some f"] by simp
  have "sd_business ?u4 = sd_business t"
    using box(1) by (simp add: set_box_def set_business_def)
  then have h: "handle_request env (frame_data f) (connect_id f) (sd_business ?u4) = Some b" using assms(6) by simp
  let ?u5 = "set_business b ?u4\<lparr>sd_worker := At_Loop\<rparr>"
  have 5: "shutdown_step env None ?u4 ?u5" by (rule Worker_Handles [OF _ h]) simp
  let ?u6 = "?u5\<lparr>sd_worker := Worker_Ended\<rparr>"
  have "\<not> b_is_running b" using request_keeps_queue(1) [OF assms(6)] assms(4) by simp
  then have 6: "shutdown_step env None ?u5 ?u6"
    using Worker_Checks [of ?u5] by (simp add: set_business_def)
  have 7: "shutdown_step env None ?u6 (?u6\<lparr>sd_stopper := Joins_Network\<rparr>)"
    by (rule Business_Joined) (simp_all add: assms(5) set_box_def set_business_def)
  note snoc = rtranclp.rtrancl_into_rtrancl [where r = "shutdown_step env None"]
  have "quiet_steps env ?u ?u2" by (rule snoc [OF 1 2])
  then have "quiet_steps env ?u ?u3" by (rule snoc [OF _ 3])
  then have "quiet_steps env ?u ?u4" by (rule snoc [OF _ 4])
  then have "quiet_steps env ?u ?u5" by (rule snoc [OF _ 5])
  then have "quiet_steps env ?u ?u6" by (rule snoc [OF _ 6])
  then have "quiet_steps env ?u (?u6\<lparr>sd_stopper := Joins_Network\<rparr>)" by (rule snoc [OF _ 7])
  moreover have "sd_stopper (?u6\<lparr>sd_stopper := Joins_Network\<rparr>) = Joins_Network" by simp
  ultimately show ?thesis using u by blast
qed

text \<open>C10: \<open>stop\<close> may wait for ever. In a server that was started, while the business thread waits for a frame in the empty mail box,
  before or after \<open>stop\<close> is called, it stays there as long as no frame arrives: clearing the flag neither wakes it nor closes the
  mail box, and the join does not return. When \<open>stop\<close> waits for it and a frame arrives that can be handled, the
  thread can end and the join return.\<close>

theorem stop_waits_for_frame:
  assumes "server_app_init lib disk junk calls databases logs m k = Some (app, logs', k')"
    and "shutdown_steps env (shutdown_start app) s" "waits_in_pop s" "quiet_steps env s t"
  shows "waits_in_pop t \<and> sd_stopper t \<notin> {Joins_Network, Stop_Returned} \<and>
    (\<forall>f. sd_stopper t = Joins_Business \<and> \<not> b_is_running (sd_business t) \<and> \<not> sd_network_ended t \<and>
       handle_request env (frame_data f) (connect_id f) (sd_business t) \<noteq> None \<longrightarrow>
       (\<exists>u v. shutdown_step env (Some f) t u \<and> quiet_steps env u v \<and> sd_stopper v = Joins_Network))"
proof -
  have s: "shutdown_inv s" by (rule shutdown_steps_inv [OF assms(2) started_inv [OF assms(1)]])
  have t: "shutdown_inv t" "waits_in_pop t"
    using shutdown_steps_inv [OF quiet_reachable [OF assms(4)] s] quiet_steps_wait [OF assms(4) s assms(3)] .
  then have "sd_stopper t \<notin> {Joins_Network, Stop_Returned}" by (auto simp: shutdown_inv_def waits_in_pop_def)
  with t frame_ends_waiting [OF t] show ?thesis by blast
qed

theorem stop_waits_for_frame_witness:
  "\<exists>(app :: engine ServerApp) s t. shutdown_steps demo_env (shutdown_start app) s \<and> quiet_steps demo_env s t \<and>
    sd_stopper t = Joins_Business \<and> \<not> b_is_running (sd_business t) \<and> waits_in_pop t \<and>
    (\<exists>u v. shutdown_step demo_env (Some \<lparr>connect_id = 0, frame_data = []\<rparr>) t u \<and> quiet_steps demo_env u v \<and> sd_stopper v = Joins_Network)"
proof -
  obtain manager app k' where app: "server_app_init server_lib demo_disk 7 demo_calls Map.empty (demo_world manager)
      (library (server_sql (store_with [demo_server_file]))) (demo_kernel\<lparr>ctl_outs := [Done (), Done ()]\<rparr>) =
      Some (app, server_init_logger (demo_world manager), k')"
    using demo_server_app by blast
  from started_inv [OF app] obtain box where box: "b_mail_box (app_business app) = Some box"
    "m_is_running (m_to_server_frame_queue box)" "app_business_thread app"
    by (auto simp: shutdown_inv_def shutdown_start_def)
  have queue: "m_queue (m_to_server_frame_queue box) = []" using started_queue [OF app box(1)] .
  let ?s0 = "shutdown_start app"
  let ?s1 = "set_business ((sd_business ?s0)\<lparr>b_is_running := True\<rparr>) ?s0\<lparr>sd_worker := At_Loop\<rparr>"
  let ?s2 = "?s1\<lparr>sd_worker := In_Pop (Ready call.Pop)\<rparr>"
  let ?t1 = "?s2\<lparr>sd_app := (sd_app ?s2)\<lparr>app_network := network_stop (app_network (sd_app ?s2))\<rparr>, sd_stopper := Stops_Business\<rparr>"
  let ?t = "set_business (business_stop (sd_business ?t1)) ?t1\<lparr>sd_stopper := Joins_Business\<rparr>"
  have 1: "shutdown_step demo_env None ?s0 ?s1"
    by (rule Worker_Runs) (simp_all add: shutdown_start_def box(3))
  have 2: "shutdown_step demo_env None ?s1 ?s2"
    using Worker_Checks [of ?s1] by (simp add: set_business_def)
  have s: "shutdown_steps demo_env ?s0 ?s2"
    by (rule quiet_reachable) (use 1 2 in auto)
  have w: "waits_in_pop ?s2" using box queue by (simp add: waits_in_pop_def shutdown_start_def set_business_def)
  have 3: "shutdown_step demo_env None ?s2 ?t1"
    by (rule Stop_Called) (simp add: shutdown_start_def set_business_def)
  have 4: "shutdown_step demo_env None ?t1 ?t"
    by (rule Business_Asked) simp
  have t: "quiet_steps demo_env ?s2 ?t" using 3 4 by auto
  have h: "handle_request demo_env [] 0 b \<noteq> None" for b :: "engine server_store BusinessRuntime"
    by (simp add: handle_request_def try_parse_byte_array_request_def deserialize_def get_message_header_def HEADER_SIZE_def set_optional_def
        set_path_def set_body_def get_parsed_field_def start_codec_def handle_unknown_request_def)
  have "sd_stopper ?t = Joins_Business" "\<not> b_is_running (sd_business ?t)" "\<not> sd_network_ended ?t"
    by (simp_all add: business_stop_def set_business_def shutdown_start_def)
  with stop_waits_for_frame [OF app s w t] h [of "sd_business ?t"] s t show ?thesis
    by (intro exI [of _ app] exI [of _ ?s2] exI [of _ ?t]) fastforce
qed

end
