(* ===== verification/Client_App.thy ===== *)
theory Client_App
  imports Fresh_Database Client_Store Log_Calls
begin

text \<open>
  The start of the client, \<open>client/main/client_app\<close>: its logger, its database and the services over it, in the order in which
  \<open>init\<close> makes them. The hub, the controllers and the window that are made afterwards use these services; see
  \<open>Trans_Service\<close>, \<open>Block_Schedule\<close> and \<open>Client_Views\<close>.
\<close>

section \<open>The parts\<close>

definition client_logger_config :: LoggerConfig where
  "client_logger_config = new_LoggerConfig\<lparr>log_path := ''./log/client.log'', console_level := Log_DEBUG\<rparr>"

definition client_output_setting :: LogOutputSetting where
  "client_output_setting =
     new_LogOutputSetting\<lparr>enable_function_name := True, enable_line_num := True, enable_time := False\<rparr>"

definition client_init_logger :: "log_world \<Rightarrow> log_world" where
  "client_init_logger w =
     with_logger ''default'' (\<lambda>l. set_output_settings client_output_setting (set_logger_config client_logger_config l)) w"

definition client_sql_config :: SqlConfig where
  "client_sql_config =
     default_config\<lparr>database_name := ''client_database'', path := ''./database/client/client_database.db''\<rparr>"

definition client_clear_database :: "'m disk \<Rightarrow> 'm \<Rightarrow> 'm" where
  "client_clear_database disk m = remove_database disk ''./database/client/client_database.db'' m"

text \<open>The services before they are initialised. The queries of the repositories find the driver through the manager; \<open>sql\<close> is
  the driver with the library.\<close>

definition new_client_store :: "SqlDatabaseManager \<Rightarrow> 'm sql_world \<Rightarrow> 'm client_store" where
  "new_client_store dbs w =
     \<lparr>m_block_repository = new_repository, m_task_repository = new_repository, m_client_file_repository = new_repository,
      m_task_counter = - 1, sql = w, databases = dbs\<rparr>"

text \<open>A manager that does not have the database gives up, and the services stay as they are.\<close>

definition client_init_database :: "'m sqlite3 \<Rightarrow> SqlDatabaseManager \<Rightarrow> 'm \<Rightarrow> 'm client_store option" where
  "client_init_database lib dbs m =
     (let dbs = add_database ''client_database'' (Some new_driver) dbs in
      case get_database ''client_database'' dbs of
        None \<Rightarrow> Some (new_client_store dbs \<lparr>driver = None, library = m\<rparr>)
      | Some db \<Rightarrow>
          let db = set_sql_config client_sql_config db;
              (connected, db, m) = database_connect lib db m;
              s = new_client_store (dbs(''client_database'' \<mapsto> db)) \<lparr>driver = get_driver db, library = m\<rparr>
          in do {
            s \<leftarrow> file_service_init lib s;
            block_service_init lib s
          })"

definition client_app_init ::
  "'m sqlite3 \<Rightarrow> 'm disk \<Rightarrow> SqlDatabaseManager \<Rightarrow> log_world \<Rightarrow> 'm \<Rightarrow> ('m client_store \<times> log_world) option" where
  "client_app_init lib disk dbs logs m =
     do {
       let logs = client_init_logger logs;
       let m = client_clear_database disk m;
       s \<leftarrow> client_init_database lib dbs m;
       s \<leftarrow> block_service_init lib s;
       s \<leftarrow> task_service_init lib s;
       s \<leftarrow> file_service_init lib s;
       Some (s, logs)
     }"

section \<open>A repository over a database without its table\<close>

definition table_statement :: "SqlTableItem \<Rightarrow> sql_statement" where
  "table_statement table = Create_Table (table_name table) True (map column_of (column_items table))"

definition client_tables :: "SqlTableItem list" where "client_tables = [block_table, task_table, file_table]"

lemma file_table_items:
  "table_name file_table = ''file_info''" "table_is_unique file_table"
  "column_items file_table =
     [key_column 0 ''file_id'' Int64, data_column 1 ''file_name'' String, data_column 2 ''file_size'' Int64,
      data_column 3 ''md5_code'' String]"
  by (simp_all add: file_table_def new_table_def add_column_def has_column_name_def key_column_def data_column_def)

lemmas client_table_items = block_table_items task_table_items file_table_items

lemma client_query_ok:
  assumes "table \<in> set client_tables"
  shows "tq_ok table (tq_set_query (Some \<lparr>m_sql = []\<rparr>) (tq_set_table_info (Some table) (tq_set_stringify (Some default_signs) t)))"
  using assms
  by (auto simp: client_tables_def tq_ok_def tq_set_query_def tq_set_table_info_def tq_set_stringify_def builder_ok_def
      builder_set_table_info_def builder_set_stringify_def table_ok_def table_is_valid_def column_is_valid_def client_table_items
      try_format_data_type_def plain_def)

lemma table_statement_known:
  assumes "table \<in> set client_tables"
  shows "table_statement table \<in> template_statements client_templates"
proof -
  have r: "render (table_statement block_table) = fst (block_templates ! 0)" "render (table_statement task_table) = fst (task_templates ! 0)"
    "render (table_statement file_table) = fst (file_templates ! 0)"
    by code_simp+
  have "(fst (block_templates ! 0), \<lambda>ps. table_statement block_table) \<in> set client_templates"
    "(fst (task_templates ! 0), \<lambda>ps. table_statement task_table) \<in> set client_templates"
    "(fst (file_templates ! 0), \<lambda>ps. table_statement file_table) \<in> set client_templates"
    by (simp_all add: client_templates_def block_templates_def task_templates_def file_templates_def table_statement_def
        client_table_items)
  with r assms show ?thesis by (auto simp: client_tables_def intro: in_templates)
qed

lemma repository_started:
  assumes sql: "sqlite_ok lib view parses names run (template_statements client_templates)" and table: "table \<in> set client_tables"
    and ok: "world_ok view w" and new: "db_of view w (table_name table) = None" and there: "dbs ''client_database'' \<noteq> None"
  shows "\<exists>r w'. repository_init table lib dbs new_repository w = Some (r, w') \<and> r_ok table r \<and> world_ok view w' \<and>
    db_of view w' = (db_of view w)(table_name table \<mapsto> table_of table [])"
proof -
  let ?t = "tq_set_query (Some \<lparr>m_sql = []\<rparr>) (tq_set_table_info (Some table) (tq_set_stringify (Some default_signs) new_table_query))"
  have unique: "table_is_unique table" "distinct (map col_name (map column_of (column_items table)))"
    using table by (auto simp: client_tables_def client_table_items column_of_def)
  have "commands view table (table_statement table) (db_of view w) (tq_create lib ?t w)"
    by (rule tq_create_effect [OF sql client_query_ok [OF table] ok _ table_statement_known [OF table]])
      (use unique in \<open>simp_all add: table_statement_def\<close>)
  then obtain t w' where "tq_create lib ?t w = Some (True, t, w')" "tq_ok table t" "world_ok view w'"
    "db_of view w' = (db_of view w)(table_name table \<mapsto> table_of table [])"
    using new by (auto simp: commands_def effect_db_def table_statement_def table_of_def)
  with there show ?thesis
    by (auto simp: repository_init_def new_repository_def get_database_def ensure_table_exists_def r_ok_def)
qed

lemma repository_again: "r_ok table r \<Longrightarrow> repository_init table lib dbs r w = Some (r, w)"
  by (simp add: r_ok_def repository_init_def)

section \<open>The largest identifier\<close>

definition max_task_sql :: string where "max_task_sql = ''SELECT COALESCE(MAX(task_id), 0) FROM task;''"

definition largest_task :: "row list \<Rightarrow> u64" where
  "largest_task rows =
     (case List.map_filter (\<lambda>row. row_integer row ''task_id'') rows of [] \<Rightarrow> 0 | k # ks \<Rightarrow> word_of_int (fold max ks k))"

text \<open>What SQL says of the text that the task repository writes itself.\<close>

definition max_task_understood :: "(string \<Rightarrow> db \<Rightarrow> bool) \<Rightarrow> (string \<Rightarrow> string list) \<Rightarrow> sql_run \<Rightarrow> bool" where
  "max_task_understood parses names run \<longleftrightarrow>
     (\<forall>db T. db ''task'' = Some T \<longrightarrow>
        parses max_task_sql db \<and> length (names max_task_sql) = 1 \<and>
        run max_task_sql [] db = Some ([[Integer_Value (largest_task (tbl_rows T))]], db))"

lemma max_task_read:
  assumes calls: "sqlite_calls lib view parses names run" and m: "max_task_understood parses names run"
    and ok: "world_ok view w" and T: "db_of view w ''task'' = Some T"
    and "r_is_init r" "dbs ''client_database'' \<noteq> None"
  shows "\<exists>w'. task_get_max_task_id lib dbs r w = Some (largest_task (tbl_rows T), w') \<and> world_ok view w' \<and> db_of view w' = db_of view w"
proof -
  have law: "parses max_task_sql (db_of view w)" "length (names max_task_sql) = 1"
    "run max_task_sql [] (db_of view w) = Some ([[Integer_Value (largest_task (tbl_rows T))]], db_of view w)"
    using m T by (simp_all add: max_task_understood_def)
  obtain n where n: "names max_task_sql = [n]" using law(2) by (auto simp: length_Suc_conv)
  obtain q w1 where q: "query_prepare lib max_task_sql \<lparr>m_sql = []\<rparr> w = (q, w1)" by (cases "query_prepare lib max_task_sql \<lparr>m_sql = []\<rparr> w")
  note p = prepare_ready [OF calls ok law(1) q]
  have "param_count max_task_sql = 0" by code_simp
  with p law(3) n obtain w' where "query_execute_query lib q (query_reset lib q w1) =
      Some (map (cells_of [n]) [[Integer_Value (largest_task (tbl_rows T))]], w')" "world_ok view w'" "db_of view w' = db_of view w"
    using execute_query [OF calls, of max_task_sql "[]" "query_reset lib q w1" q] by auto
  moreover obtain d where "dbs ''client_database'' = Some d" using assms(6) by auto
  ultimately show ?thesis using q assms(5)
    by (simp add: task_get_max_task_id_def fixed_query_def start_statement_def max_task_sql_def [symmetric] get_database_def cells_of_def)
qed

section \<open>The start\<close>

definition tables_of :: "SqlTableItem list \<Rightarrow> db" where
  "tables_of tables = map_of (map (\<lambda>table. (table_name table, table_of table [])) tables)"

text \<open>C15: A client that starts has no blocks, tasks and files, whatever its database held before, and its first task gets the
  identifier 1: the file of the database is removed and the three tables are made anew. The services then have the contract
  that the schedule relies on. The file system and SQLite do as documented.\<close>

theorem client_starts:
  assumes sql: "sqlite_ok lib view parses names run (template_statements client_templates)" "max_task_understood parses names run"
    and disk: "disk_as_documented lib view disk" and none: "dbs ''client_database'' = None"
  shows "\<exists>s. client_app_init lib disk dbs logs m = Some (s, client_init_logger logs) \<and>
    client_holds lib view parses names run junk task_junk s [] [] \<and> m_task_counter s = 1 \<and>
    db_of view (sql s) = tables_of [block_table, task_table, file_table]"
proof -
  have calls: "sqlite_calls lib view parses names run" using sql(1) by (simp add: sqlite_ok_def)
  let ?db = "set_sql_config client_sql_config (new_database (Some new_driver))"
  have added: "add_database ''client_database'' (Some new_driver) dbs = dbs(''client_database'' \<mapsto> new_database (Some new_driver))"
    using none by (simp add: add_database_def)
  have "path client_sql_config = ''./database/client/client_database.db''" by (simp add: client_sql_config_def)
  then have "\<not> disk_exists disk (path client_sql_config) (client_clear_database disk m)"
    using database_removed [OF disk] by (simp add: client_clear_database_def)
  then obtain m' where m': "database_connect lib ?db (client_clear_database disk m) =
      (True, ?db\<lparr>m_driver := Some (new_driver\<lparr>m_db := True\<rparr>)\<rparr>, m')" "lv_db (view m') = Map.empty"
    using connect_opens [OF disk, of client_sql_config _ ?db] by (auto simp: set_sql_config_def new_database_def)
  let ?dbs = "dbs(''client_database'' \<mapsto> ?db\<lparr>m_driver := Some (new_driver\<lparr>m_db := True\<rparr>)\<rparr>)"
  let ?w = "\<lparr>driver = Some (new_driver\<lparr>m_db := True\<rparr>), library = m'\<rparr>"
  have there: "?dbs ''client_database'' \<noteq> None" by simp
  have tables: "block_table \<in> set client_tables" "task_table \<in> set client_tables" "file_table \<in> set client_tables"
    by (simp_all add: client_tables_def)
  have w: "world_ok view ?w" by (simp add: world_ok_def new_driver_def)
  obtain rf w1 where f: "repository_init file_table lib ?dbs new_repository ?w = Some (rf, w1)" "r_ok file_table rf" "world_ok view w1"
    "db_of view w1 = [''file_info'' \<mapsto> table_of file_table []]"
    using repository_started [where dbs = ?dbs, OF sql(1) tables(3) w _ there] m'(2) by (auto simp: client_table_items)
  obtain rb w2 where b: "repository_init block_table lib ?dbs new_repository w1 = Some (rb, w2)" "r_ok block_table rb" "world_ok view w2"
    "db_of view w2 = [''file_info'' \<mapsto> table_of file_table [], ''block'' \<mapsto> table_of block_table []]"
    using repository_started [where dbs = ?dbs, OF sql(1) tables(1) f(3) _ there] f(4) by (auto simp: client_table_items)
  obtain rt w3 where t: "repository_init task_table lib ?dbs new_repository w2 = Some (rt, w3)" "r_ok task_table rt" "world_ok view w3"
    "db_of view w3 = [''file_info'' \<mapsto> table_of file_table [], ''block'' \<mapsto> table_of block_table [], ''task'' \<mapsto> table_of task_table []]"
    using repository_started [where dbs = ?dbs, OF sql(1) tables(2) b(3) _ there] b(4) by (auto simp: client_table_items)
  have "db_of view w3 ''task'' = Some (table_of task_table [])" "r_is_init rt" using t(2,4) by (simp_all add: r_ok_def)
  from max_task_read [where dbs = ?dbs, OF calls sql(2) t(3) this there] obtain w4 where
    w4: "task_get_max_task_id lib ?dbs rt w3 = Some (0, w4)" "world_ok view w4" "db_of view w4 = db_of view w3"
    by (auto simp: largest_task_def List.map_filter_simps)
  let ?s = "\<lparr>m_block_repository = rb, m_task_repository = rt, m_client_file_repository = rf, m_task_counter = 1, sql = w4,
    databases = ?dbs\<rparr>"
  have "client_app_init lib disk dbs logs m = Some (?s, client_init_logger logs)"
    using f(1) b(1) t(1) w4(1)
    by (simp add: repository_again [OF b(2)] repository_again [OF f(2)] client_app_init_def client_init_database_def added get_database_def m'(1) Let_def new_client_store_def get_driver_def
        file_service_init_def file_init_def block_service_init_def block_init_def task_service_init_def task_init_def)
  moreover have "client_holds lib view parses names run junk task_junk ?s [] []"
    using sql(1) b(2) t(2) w4(2) by (simp add: client_holds_def entities_def client_table_items w4(3) t(4))
  moreover have "db_of view w4 = tables_of [block_table, task_table, file_table]"
    by (auto simp: w4(3) t(4) tables_of_def client_table_items fun_upd_twist)
  ultimately show ?thesis by (intro exI [of _ ?s]) simp
qed

text \<open>The small library with the text of the largest identifier.\<close>

definition start_knows :: "string \<Rightarrow> bool" where "start_knows x \<longleftrightarrow> x = max_task_sql \<or> engine_knows client_templates x"

definition start_names :: "string \<Rightarrow> string list" where
  "start_names x = (if x = max_task_sql then [''COALESCE(MAX(task_id), 0)''] else engine_names client_templates x)"

definition start_run :: sql_run where
  "start_run x ps db =
     (if x = max_task_sql
      then (case db ''task'' of Some T \<Rightarrow> Some ([[Integer_Value (largest_task (tbl_rows T))]], db) | None \<Rightarrow> None)
      else engine_run client_templates x ps db)"

lemma start_sql_ok:
  "sqlite_ok (plain_engine start_knows start_names start_run) engine_view (\<lambda>x db. start_knows x) start_names start_run
     (template_statements client_templates)"
proof -
  have "map_of client_templates max_task_sql = None" by code_simp
  then have "render s \<noteq> max_task_sql" if "s \<in> template_statements client_templates" for s
    using template_found [OF client_templates_ok that] by (metis option.distinct(1))
  then have same: "start_run (render s) ps db = engine_run client_templates (render s) ps db"
    "start_names (render s) = engine_names client_templates (render s)"
    "start_knows (render s) \<longleftrightarrow> engine_parses client_templates (render s) db"
    if "s \<in> template_statements client_templates" for s ps db
    using that by (simp_all add: start_run_def start_names_def start_knows_def engine_parses_def)
  have "sqlite_understands (\<lambda>x db. start_knows x) start_names start_run (template_statements client_templates)"
    unfolding sqlite_understands_def
  proof (intro ballI allI impI)
    fix s db
    assume s: "s \<in> template_statements client_templates" "statement_ok s db"
    show "start_knows (render s) \<and> start_names (render s) = column_names s \<and>
        (case effect s db of None \<Rightarrow> start_run (render s) (params s) db = None
         | Some (rows, db') \<Rightarrow> \<exists>rows'. start_run (render s) (params s) db = Some (rows', db') \<and> mset rows' = mset rows)"
      unfolding same(1,2) [OF s(1)] same(3) [OF s(1), of db] using engine_understands [OF client_templates_ok] s unfolding sqlite_understands_def by blast
  qed
  then show ?thesis by (simp add: sqlite_ok_def plain_engine_calls)
qed

text \<open>The database has tables of an earlier run.\<close>

theorem client_starts_witness:
  "\<exists>manager s. new_logger_manager (\<lambda>_. 0) = Some manager \<and>
    client_app_init (plain_engine start_knows start_names start_run) demo_disk Map.empty (demo_world manager) (empty_engine demo_db) =
      Some (s, client_init_logger (demo_world manager)) \<and>
    m_task_counter s = 1 \<and> db_of engine_view (sql s) = tables_of [block_table, task_table, file_table]"
proof -
  obtain manager where manager: "new_logger_manager (\<lambda>_. 0 :: nat) = Some manager"
    by (simp add: new_logger_manager_def add_logger_def add_creator_def new_LoggerConfig_def)
  have "max_task_understood (\<lambda>x db. start_knows x) start_names start_run"
    by (simp add: max_task_understood_def start_knows_def start_names_def start_run_def)
  from client_starts [OF start_sql_ok this demo_disk_documented, of Map.empty "demo_world manager" "empty_engine demo_db"] manager
  show ?thesis by blast
qed

end
