(* ===== verification/Shared_Statements.thy ===== *)
theory Shared_Statements
  imports Server_Store
begin

text \<open>
  Two queries on one database, \<open>database/sql_query\<close> over \<open>database/sqlite_driver\<close>. The driver keeps one statement for each text and
  no lock, and the client uses it from the thread of its windows and from that of the schedule, so the calls of two queries
  may come between each other.
\<close>

text \<open>C17: A query that is overtaken by another one with the same text gets the other's rows: it is prepared and its parameters
  are bound, then another query object with this text is prepared on the same driver and binds its own parameters, which are the
  parameters of the statement they share; executing the first one runs it with them. SQLite does as documented.\<close>

theorem overtaken_query_misled:
  assumes "sqlite_calls lib view parses names run" "world_ok view w" "parses sql (db_of view w)"
    and "list_all2 (\<lambda>cell v. bound_value (lib_widen lib) cell = Some (Some v)) mine ps" "length ps = param_count sql"
    and "list_all2 (\<lambda>cell v. bound_value (lib_widen lib) cell = Some (Some v)) others qs" "length qs = param_count sql"
    and "run sql qs (db_of view w) = Some (rows, db')" "list_all (\<lambda>r. length r = length (names sql)) rows"
  shows "\<exists>q1 w1 w2 q2 w3 w4 w5. start_statement lib sql q w = (q1, w1) \<and> bind_from lib 1 mine q1 w1 = Some w2 \<and>
    start_statement lib sql q' w2 = (q2, w3) \<and> bind_from lib 1 others q2 w3 = Some w4 \<and>
    query_execute_query lib q1 w4 = Some (map (cells_of (names sql)) rows, w5)"
proof -
  obtain q1 w1 w2 where 1: "start_statement lib sql q w = (q1, w1)" "m_sql q1 = sql" "bind_from lib 1 mine q1 w1 = Some w2"
    "ready view sql ps w2" "db_of view w2 = db_of view w"
    using statement_started [OF assms(1-5)] by blast
  have "world_ok view w2" "parses sql (db_of view w2)" using 1(4,5) assms(3) by (simp_all add: ready_def)
  from statement_started [OF assms(1) this assms(6,7), of q'] obtain q2 w3 w4 where
    2: "start_statement lib sql q' w2 = (q2, w3)" "bind_from lib 1 others q2 w3 = Some w4" "ready view sql qs w4"
      "db_of view w4 = db_of view w2" by metis
  have "run sql qs (db_of view w4) = Some (rows, db')" using assms(8) 1(5) 2(4) by simp
  from execute_query [OF assms(1) 2(3) 1(2) assms(7) this assms(9)] 1 2 show ?thesis by blast
qed

text \<open>The server has two files: a query for the first one, overtaken by one for the second, gives the second.\<close>

theorem overtaken_query_misled_witness:
  "\<exists>q1 w1 w2 q2 w3 w4 w5.
    start_statement server_lib file_by_id_sql \<lparr>m_sql = []\<rparr> (server_sql (store_with [demo_server_file, demo_server_file\<lparr>server_file_id := 2\<rparr>])) =
      (q1, w1) \<and>
    bind_from server_lib 1 [plain_cell T_int32 (Int32_Data 1)] q1 w1 = Some w2 \<and>
    start_statement server_lib file_by_id_sql \<lparr>m_sql = []\<rparr> w2 = (q2, w3) \<and>
    bind_from server_lib 1 [plain_cell T_int32 (Int32_Data 2)] q2 w3 = Some w4 \<and>
    query_execute_query server_lib q1 w4 =
      Some ([cells_of (''file_id'' # server_fields) (map snd (server_row (demo_server_file\<lparr>server_file_id := 2\<rparr>)))], w5)"
proof -
  let ?f = "demo_server_file\<lparr>server_file_id := 2\<rparr>"
  let ?w = "server_sql (store_with [demo_server_file, ?f])"
  have calls: "sqlite_calls server_lib engine_view (\<lambda>x db. x \<in> server_texts) server_names server_run"
    unfolding server_lib_def by (rule plain_engine_calls)
  have w: "world_ok engine_view ?w" by (simp add: store_with_def)
  have db: "db_of engine_view ?w ''file_info'' =
      Some \<lparr>tbl_columns = server_columns, tbl_rows = map server_row [demo_server_file, ?f]\<rparr>"
    by (simp add: store_with_def engine_world_def empty_engine_def)
  have "server_run file_by_id_sql [Integer_Value 2] (db_of engine_view ?w) =
      Some ([map snd (server_row ?f)], db_of engine_view ?w)"
    using db server_texts_distinct by (auto simp: server_run_def demo_server_file_def)
  moreover have "server_names file_by_id_sql = ''file_id'' # server_fields" using server_texts_distinct by (auto simp: server_names_def)
  moreover have "length (map snd (server_row ?f)) = length (''file_id'' # server_fields)"
    by (simp add: server_fields_def server_values_def)
  moreover have "file_by_id_sql \<in> server_texts" by (simp add: server_texts_def)
  ultimately show ?thesis
    using overtaken_query_misled [OF calls w, of file_by_id_sql "[plain_cell T_int32 (Int32_Data 1)]" "[Integer_Value 1]"
        "[plain_cell T_int32 (Int32_Data 2)]" "[Integer_Value 2]" "[map snd (server_row ?f)]" "db_of engine_view ?w"
        "\<lparr>m_sql = []\<rparr>" "\<lparr>m_sql = []\<rparr>"]
    by (simp add: server_params del: server_row_sel(4))
qed

end
