(* ===== verification/Dialogs.thy ===== *)
theory Dialogs
  imports Trans_Service Url
begin

text \<open>
  The dialog that tests a connection, \<open>view/dialog/connection_test_dialog\<close>, and the placing of windows,
  \<open>common/util/screen_util\<close>, of which the client and the server have a copy each. What is typed and the screens are arguments;
  coordinates are integers, which are those of the code while differences of sizes stay within 32 bits.
\<close>

section \<open>Testing a connection\<close>

record ConnectionTestDialog =
  url_line :: string
  send_text :: string
  received_lines :: "string list"

definition test_dialog_context :: EventContext where "test_dialog_context = \<lparr>m_object_name = ''ConnectionTestDialog''\<rparr>"

text \<open>An address that cannot be parsed raises an exception, which is \<open>None\<close>. Without a hub nothing is sent, and the text stays.\<close>

definition on_send_push_button_clicked ::
  "u64 \<Rightarrow> ViewEventHub option \<Rightarrow> ConnectionTestDialog \<Rightarrow> (hub_signal list \<times> ViewEventHub option \<times> ConnectionTestDialog) option" where
  "on_send_push_button_clicked now hub d =
     do {
       url_info \<leftarrow> url_parse (url_line d);
       let endpoint = \<lparr>ip = url_host url_info, port = url_port url_info\<rparr>;
       let request = \<lparr>trq_message = send_text d\<rparr>;
       Some (case hub of
               None \<Rightarrow> ([], hub, d)
             | Some h \<Rightarrow>
                 (case publish_test_request now test_dialog_context endpoint request h of
                    (signal, h) \<Rightarrow> ([signal], Some h, d\<lparr>send_text := []\<rparr>)))
     }"

definition set_received_text :: "string \<Rightarrow> ConnectionTestDialog \<Rightarrow> ConnectionTestDialog" where
  "set_received_text t d = d\<lparr>received_lines := received_lines d @ [t]\<rparr>"

text \<open>Whose request is answered is not looked at.\<close>

definition on_test_response ::
  "EventEnvelope \<Rightarrow> TransContext \<Rightarrow> TestResponseTransfer \<Rightarrow> ConnectionTestDialog \<Rightarrow> ConnectionTestDialog" where
  "on_test_response e c response d = set_received_text (trs_message response) d"

section \<open>Placing windows\<close>

record PointInfo =
  point_x :: int
  point_y :: int

definition new_point :: PointInfo where "new_point = \<lparr>point_x = - 1, point_y = - 1\<rparr>"

record RectInfo =
  rect_pos :: PointInfo
  rect_size :: PointInfo

definition rect_of :: "int \<Rightarrow> int \<Rightarrow> int \<Rightarrow> int \<Rightarrow> RectInfo" where
  "rect_of x y width height = \<lparr>rect_pos = \<lparr>point_x = x, point_y = y\<rparr>, rect_size = \<lparr>point_x = width, point_y = height\<rparr>\<rparr>"

definition point_to_string :: "PointInfo \<Rightarrow> string" where
  "point_to_string p = ''Point: ('' @ show_int (point_x p) @ '', '' @ show_int (point_y p) @ '')''"

definition rect_to_string :: "RectInfo \<Rightarrow> string" where
  "rect_to_string r =
     ''Rect: ('' @ show_int (point_x (rect_pos r)) @ '', '' @ show_int (point_y (rect_pos r)) @ '', '' @
     show_int (point_x (rect_size r)) @ '', '' @ show_int (point_y (rect_size r)) @ '')''"

text \<open>A \<open>QRect\<close> as Qt keeps it: its corners, both within it. The constructor for a position and a size is another one.\<close>

record qrect =
  top_left :: "int \<times> int"
  bottom_right :: "int \<times> int"

definition qrect_x :: "qrect \<Rightarrow> int" where "qrect_x r = fst (top_left r)"
definition qrect_y :: "qrect \<Rightarrow> int" where "qrect_y r = snd (top_left r)"
definition qrect_width :: "qrect \<Rightarrow> int" where "qrect_width r = fst (bottom_right r) - fst (top_left r) + 1"
definition qrect_height :: "qrect \<Rightarrow> int" where "qrect_height r = snd (bottom_right r) - snd (top_left r) + 1"

definition rect_of_qrect :: "qrect \<Rightarrow> RectInfo" where
  "rect_of_qrect r = rect_of (qrect_x r) (qrect_y r) (qrect_width r) (qrect_height r)"

definition to_qpoint :: "PointInfo \<Rightarrow> int \<times> int" where "to_qpoint p = (point_x p, point_y p)"

definition to_qrect :: "RectInfo \<Rightarrow> qrect" where
  "to_qrect r = \<lparr>top_left = to_qpoint (rect_pos r), bottom_right = to_qpoint (rect_size r)\<rparr>"

text \<open>Without a screen the list is read out of bounds.\<close>

definition get_screen_rect :: "qrect list \<Rightarrow> nat \<Rightarrow> RectInfo option" where
  "get_screen_rect screens screen_index =
     (let screen_index = (if screen_index \<ge> length screens then 0 else screen_index) in
      if screens = [] then None else Some (rect_of_qrect (screens ! screen_index)))"

datatype RealativePosition = Center | TopLeft | TopRight | BottomLeft | BottomRight

definition halved :: "int \<Rightarrow> int" where "halved i = (if i < 0 then - (- i div 2) else i div 2)"

definition get_destination_point :: "RectInfo \<Rightarrow> RectInfo \<Rightarrow> RealativePosition \<Rightarrow> PointInfo" where
  "get_destination_point parent window position =
     (case position of
        Center \<Rightarrow>
          \<lparr>point_x = halved (point_x (rect_size parent) - point_x (rect_size window)),
           point_y = halved (point_y (rect_size parent) - point_y (rect_size window))\<rparr>
      | _ \<Rightarrow>
          \<lparr>point_x = halved (point_x (rect_size parent) - point_x (rect_size window)),
           point_y = halved (point_y (rect_size parent) - point_y (rect_size window))\<rparr>)"

text \<open>A window that fits is placed inside of its parent with the same margin left and right, up to one; the
  other positions place it in the centre too.\<close>

lemma centred_inside:
  assumes "0 \<le> point_x (rect_size w)" "point_x (rect_size w) \<le> point_x (rect_size p)" "d = get_destination_point p w position"
  shows "0 \<le> point_x d" "point_x d + point_x (rect_size w) \<le> point_x (rect_size p)"
    "point_x (rect_size p) - (point_x d + point_x (rect_size w)) - point_x d \<in> {0, 1}"
proof -
  have x: "point_x d = (point_x (rect_size p) - point_x (rect_size w)) div 2"
    using assms by (cases position) (simp_all add: get_destination_point_def halved_def)
  show "0 \<le> point_x d" "point_x d + point_x (rect_size w) \<le> point_x (rect_size p)"
    "point_x (rect_size p) - (point_x d + point_x (rect_size w)) - point_x d \<in> {0, 1}"
    unfolding x using assms(1,2) by auto
qed

text \<open>A rectangle is read from Qt as it is, but its size is handed to Qt as its lower right corner: only one at
  \<open>(1, 1)\<close> comes back as it was.\<close>

lemma qrect_misread:
  "rect_of_qrect (to_qrect r) = r \<longleftrightarrow> rect_pos r = \<lparr>point_x = 1, point_y = 1\<rparr>"
  by (cases r; cases "rect_pos r"; cases "rect_size r")
    (auto simp: rect_of_qrect_def to_qrect_def rect_of_def to_qpoint_def qrect_x_def qrect_y_def qrect_width_def qrect_height_def)

end
