(* ===== verification/Spec2Isabelle.thy ===== *)
theory Spec2Isabelle
  imports Messages Ranges Wildcard Ring_Queue Reactor Timer_Thread Url Block_Partition Trans_Answers Block_Results
    Diagnostics Stringify Client_Views Simple_Stream Server_Stop Client_App Shared_Statements Dialogs
begin

text \<open>
  A model of ProjectTrans, a file transfer program of a client and a server (\<open>src/client\<close>, \<open>src/server\<close>) over a
  common library (\<open>src/common\<close>), with a second, simple server (\<open>src/simple_server\<close>), and the theorems about it.

  \<^bold>\<open>The program.\<close> A client asks a server for files, which travel in blocks. Requests and answers
  are envelopes with a body, and the body is a message of its own; both are built and parsed by the
  message codecs of the client and the server on top of the message codec of the library, which
  writes a header of 16 bytes and a sequence of named and typed fields. The reactor of the server
  reads bytes from its connections, a frame assembler cuts the stream of bytes into messages,
  and a mail box hands them to the business thread and the answers back. The client keeps files, tasks and
  blocks in tables of SQLite, behind repositories and services; its schedule asks for the waiting blocks
  of a task one by one, writes what comes back into the file, and completes the task. The SQL texts are built from
  conditions (ranges of values and rules on texts). Both sides log what they do.

  \<^bold>\<open>Wire format.\<close>
    \<^item> \<open>Bytes\<close>: \<open>common/binary/byte_order\<close>, \<open>byte_array\<close>, \<open>core/memory_util\<close>.
    \<^item> \<open>Data_Types\<close>: \<open>common/core/data_type\<close> and \<open>common/enum/enum_flag\<close>.
    \<^item> \<open>Header\<close>, \<open>Field\<close>, \<open>Array_Value\<close>: \<open>network/codec/serialize_header\<close>, \<open>serialize_field\<close>,
      \<open>serialize_array_value\<close> and the stubs of \<open>serialize_map_value\<close>. The encoder and the decoder of
      each are an instance of the locale \<open>wire_format\<close> of \<open>Prelude\<close>.
    \<^item> \<open>Codec\<close>: \<open>network/codec/serialize_codec\<close>; the record \<open>SerializeCodec\<close> has the members of the
      class, and \<open>deserialize\<close> is the loop over \<open>parse_field_at\<close>, an instance of \<open>cursor_format\<close>.
    \<^item> \<open>Frames\<close>: \<open>network/codec/frame_assembler\<close>.
    \<^item> \<open>Messages\<close>: the transfer objects and \<open>client_message_codec\<close>, \<open>server_message_codec\<close>.

  \<^bold>\<open>Conditions.\<close>
    \<^item> \<open>Endpoints\<close>, \<open>Intervals\<close>, \<open>Ranges\<close>: \<open>condition/endpoint_range\<close>, \<open>single_interval\<close>,
      \<open>range_condition\<close> and \<open>scatter_point_range\<close>. The set of values of an interval or a range is
      its own \<open>is_in_range\<close>; the operations are proved to be the operations on these sets. The locale
      \<open>interval_family\<close> is what a range needs of its intervals; it is instantiated with the intervals
      that have a right end and with those that have a left end. For families that mix intervals open
      to the left and to the right the operations are wrong, which is a theorem too.
    \<^item> \<open>Wildcard\<close>: \<open>condition/wildcard_text\<close> and \<open>text_condition\<close>.

  \<^bold>\<open>Database.\<close>
    \<^item> \<open>Sql_Schema\<close>, \<open>Sql_Builder\<close>: \<open>database/sql_schema\<close>, \<open>sql_cell\<close>, \<open>sql_condition\<close>, \<open>sql_builder\<close> and the
      texts of its signs. \<open>Sql_Meaning\<close> has a grammar of SQL statements, with what a condition
      says of a row, and proves the texts of the builder to be texts of statements that select the rows in the ranges given as
      conditions; that several conditions are misread when one has several intervals is a theorem too.
    \<^item> \<open>Sqlite\<close>, \<open>Sqlite_Driver\<close>, \<open>Table_Query\<close>: the library SQLite as a parameter, with the documented laws
      that the code relies on as named hypotheses, and \<open>sqlite_driver\<close>, \<open>sql_query\<close>, \<open>sql_database\<close>,
      \<open>database_manager\<close>, \<open>sql_table_query\<close> over it. \<open>Sqlite_Engine\<close> is a small engine, which shows that the laws can hold.
    \<^item> \<open>Shared_Statements\<close>: two queries of one text on one driver. \<open>Fresh_Database\<close>: a database whose file was removed.
    \<^item> \<open>Entities\<close>: the entities of both sides with their codes in the database.
    \<^item> \<open>Repositories\<close>, \<open>Repository_Laws\<close>: the repositories of the client for blocks, tasks and files.
      \<open>Server_Repository\<close>: the repository of the server for its files.

  \<^bold>\<open>Services.\<close>
    \<^item> \<open>Client_Services\<close>, \<open>Client_Store\<close>: \<open>block_service\<close>, \<open>task_service\<close>, \<open>client_file_service\<close>. The locale
      \<open>task_store\<close> is what the schedule relies on; it is interpreted on the services over SQLite.
      \<open>Block_Partition\<close>: the cutting of a file into blocks.
    \<^item> \<open>Server_Store\<close>: \<open>server_file_info_service\<close>. The locale \<open>file_catalog\<close> is what the business thread relies
      on; it is interpreted on the service over SQLite.

  \<^bold>\<open>Queues.\<close>
    \<^item> \<open>Fifo\<close>: the locale \<open>fifo_queue\<close>, the contract of a first-in first-out queue, with three
      instances below.
    \<^item> \<open>Mpmc_Queue\<close>: \<open>concurrent/container/mpmc_bounded_queue.hpp\<close>. A call is a sequence of critical
      sections (\<open>critical\<close>), and \<open>step\<close> interleaves the sections, notifications and wake-ups of any
      number of threads, with spurious wake-ups and time-outs.
    \<^item> \<open>Ring_Queue\<close>: \<open>concurrent/container/spsc_ring_queue.hpp\<close>, as one thread sees it and with the
      accesses of a producer and a consumer interleaved.
    \<^item> \<open>Mail_Box\<close>: \<open>network/runtime/reactor_mail_box\<close>.

  \<^bold>\<open>Reactor and server.\<close>
    \<^item> \<open>Posix_Status\<close>: \<open>common/status\<close>, \<open>common/result\<close>, \<open>common/handle\<close> and \<open>network/status\<close>, the
      status of a call with its level and the descriptors that an object owns.
    \<^item> \<open>Posix_Handles\<close>: \<open>network/handle\<close>, the wrappers of sockets, event descriptors and epoll. What
      the kernel answers to a call is a list of outcomes that the retry loops use up; a loop whose
      list is used up has not returned, which is \<open>None\<close>, and a theorem says for which answers it returns.
    \<^item> \<open>Connect\<close>: \<open>network/context/connect_context\<close>, over the socket and the frame assembler.
      The loop that pops frames is a \<open>partial_function\<close>; a theorem says that it always ends.
    \<^item> \<open>Event_Loop\<close>: \<open>network/event_loop/posix_epoll_event_loop\<close>, all handlers and a turn of \<open>run\<close>.
    \<^item> \<open>Reactor\<close>: the steps of the reactor and of the business threads at the mail box, one handler
      at a time, as an inductive relation, with the bytes of every connection, the frames that the calls of the business threads
      return and the ids that connections were given recorded beside.
      New descriptors differ from those in use, the ids stay below \<open>2 ^ 64\<close> and what a connection
      gathers below the range of \<open>int\<close>; these are side conditions of the steps.
    \<^item> \<open>Network_Runtime\<close>: \<open>server/.../network_runtime\<close>, the descriptors it makes and the loop it runs.
    \<^item> \<open>Business\<close>, \<open>Business_Answers\<close>: \<open>business_runtime\<close>, every handler over the catalog of files and the disk,
      and what the client reads from the answers.
    \<^item> \<open>Server_Views\<close>: the table of files and the dialog that offers a file. \<open>Server_App\<close>: \<open>server_app\<close>, which makes the
      parts of the server, its database first. \<open>Server_Stop\<close>: its \<open>stop\<close> with the two joins, interleaved with the business
      thread and the frames that arrive, as an inductive relation.
    \<^item> \<open>Simple_Server\<close>, \<open>Simple_Answers\<close>, \<open>Simple_Stream\<close>: \<open>simple_server/source/main.cpp\<close>, requests, the loops of a
      connection, the arguments.

  \<^bold>\<open>Client.\<close>
    \<^item> \<open>Client_Network\<close>: the connections of the client over the socket of Qt.
    \<^item> \<open>Trans_Service\<close>, \<open>Trans_Answers\<close>: \<open>trans_service\<close>, \<open>view_event_hub\<close>, \<open>view_event_controller\<close>: requests with
      their identifiers and time-outs, and the routing of the responses. Signals are values.
    \<^item> \<open>Block_Schedule\<close>, \<open>Block_Download\<close>, \<open>Block_Results\<close>: \<open>block_schedule_controller\<close>, every handler; the files of Qt
      are a parameter \<open>qt_files\<close>, and the hypothesis \<open>disk_works\<close> says that a file that is written keeps what was written.
    \<^item> \<open>Client_Views\<close>: the table of tasks, the download dialog and the actions of the main window.
      \<open>Dialogs\<close>: the dialog that tests a connection and the placing of windows.
    \<^item> \<open>Client_App\<close>: \<open>client_app\<close>, which makes the database and the services. They have the contract of the schedule afterwards.

  \<^bold>\<open>Common parts.\<close>
    \<^item> \<open>Timers\<close>, \<open>Timer_Thread\<close>: \<open>concurrent/timer/timer_manager\<close>, the table of tasks and the rounds of
      the thread, and the waiting of the thread interleaved with additions and the destructor.
    \<^item> \<open>Url\<close>: \<open>network/url/url_info\<close> and \<open>url_resolver\<close>.
    \<^item> \<open>Logger\<close>, \<open>Async_Logger\<close>, \<open>Log_Calls\<close>: \<open>logger\<close>, the levels and texts, the asynchronous logger as moves of its
      overlapping calls, its two threads and its destructor, and the macros. \<open>Diagnostics\<close>: \<open>common/diagnostic\<close>.
    \<^item> \<open>Stringify\<close>: \<open>stringify\<close>, lists, titles, sizes and the branches of \<open>to_string\<close>.
    \<^item> \<open>Signed_Words\<close> has the lemmas on signed words that several theories share.

  \<^bold>\<open>Conventions.\<close> A \<open>std::vector<uint8_t>\<close> is a list of bytes. Undefined behaviour (an access
  outside of a vector) and thrown exceptions are \<open>None\<close> of an outer option, a \<open>std::optional\<close> or an
  error of the code is an inner one. Integers have the width of the source: lengths and indices on
  the wire are 32-bit words that wrap around, as the bounds checks of the code do; two theorems show
  what this does to them. The byte order of a machine is a parameter of everything that copies
  numbers, and so are the text that the standard library gives a number or a time, the clock, the kernel, SQLite, and
  what the code uses of Qt (sockets, files and timers).
  Loops of the code are structural recursions or functions with a measure. The loops that pop frames are
  partial functions, which theorems show to end. No fuel is used. A call that waits in the blocking queue does
  not return by itself: that is a state of a thread, and what wakes it up is part of the theorems.

  \<^bold>\<open>Bounds.\<close> The messages stay below the \<open>2 ^ 32\<close> bytes that a \<open>uint32_t\<close> counts, which the limits of
  \<open>SerializeConfig\<close> (256 MiB for a message, \<open>max_value\<close>) imply for messages that the codec builds; what one connection gathers
  stays below \<open>2 ^ 32\<close>, as the assembler counts it in 32 bits; ring queues have less than \<open>2 ^ 32\<close> slots; texts less than
  \<open>2 ^ 64\<close> characters; requests of a client and diagnostics are fewer than \<open>2 ^ 64\<close>; deadlines, periods and remaining runs of timers
  are unbounded integers where the source has 64 bits; identifiers of the client stay below
  \<open>2 ^ 63\<close> and those of the server below \<open>2 ^ 31\<close>, the widths of their columns; sizes and offsets of files below \<open>2 ^ 63\<close>.

  \<^bold>\<open>What the theorems show.\<close> Everything that is serialized is read back by a peer of any byte order,
  with the exceptions of the code stated exactly (scalars keep the byte order of the writer, vectors
  of one element and of none are lost, booleans are misread); the frame assembler delivers whole frames
  in order for every way of cutting the stream and loses no byte; decoders never read outside of
  their vectors except where a length wraps around. Intervals and ranges are sets, and ranges stay
  simplified. The statements that are built for ranges as conditions select the rows in the ranges, except for
  several conditions of which one has several intervals, and repositories and services keep their laws over any
  database that has those of SQLite. A file is cut into blocks without gap or overlap, and a download that is answered, in any
  order of the blocks, saves the file of the server and completes its task; failed blocks are forgotten, which is a theorem too.
  Both programs start with an empty database. The server answers a block request with the bytes of its file; both servers send the answers of a connection in order.
  The blocking queue is first-in first-out and bounded under every interleaving, keeps
  every element while it is open, and loses no wake-up between calls for single elements; its
  calls for several elements and \<open>front\<close> do. The ring queue stays within its vector, but a \<open>pop\<close>
  races with a \<open>push\<close> on a full queue. The reactor gives every client exactly the bytes of its frames in
  order and takes exactly the frames the client sent, however the kernel cuts reads and writes and
  whatever interrupts them, hands them to the business threads, keeps connections and queues in step, gives no id twice, and asks to wait for a socket exactly
  when bytes are left for it; a peer that closes its side at once loses what it sent last. No request of the client gets two
  responses or one of another kind. The timer
  thread runs what is due in the order of the deadlines and never sleeps past one, but its destructor
  can wait for ever, as does the stop of the server while no frame arrives. The logger writes every text that is shown once and in the order of
  the pushes to each output, which may differ for calls that overlap, and its destructor ends.
  An address that is built is parsed back.

  \<^bold>\<open>Not modelled.\<close> Qt, SQLite, the kernel and the standard library beyond what the code uses of them. Code that only lays out
  widgets, shows texts in them or opens dialogs (the remaining dialogs and widgets, headings of tables), and the functions \<open>main\<close>,
  which make an application and run the loop of Qt. The emptying of the log files. Type traits and the platform headers select overloads while the
  program is compiled; the types of the model make this choice. Times of day in \<open>stringify\<close>, and the running of timer callbacks in
  another thread (\<open>set_execute_environment\<close>). Tests and examples.
\<close>

end
